(* ===== verification/Prelude.thy ===== *)
theory Prelude
  imports Main "HOL-Library.Word" "HOL-Library.Sublist" "HOL-Library.Multiset"
begin

text \<open>
  Shared vocabulary of the development: Go strings and the functions of the standard
  packages \<open>strings\<close> and \<open>strconv\<close> that the sources call, machine integers, errors, the
  result type of a Go function that may fail while it changes a state, and the rules that
  carry the component proofs (collections \<open>go_simps\<close>, \<open>keeps_intros\<close>, \<open>sim_intros\<close>).
\<close>

named_theorems go_simps "evaluation rules of the sequencing combinators"
named_theorems keeps_intros "rules for state invariants of Go computations"
named_theorems sim_intros "rules for simulations between Go computations"

section \<open>Machine integers, bytes and time\<close>

type_synonym u8 = "8 word"
type_synonym u16 = "16 word"
type_synonym u32 = "32 word"
type_synonym u64 = "64 word"
type_synonym bytes = "u8 list"

text \<open>A \<open>time.Time\<close> is its distance from the Unix epoch in nanoseconds.\<close>

type_synonym gotime = int

abbreviation nanos_per_second :: int where
  "nanos_per_second \<equiv> 1000000000"

text \<open>\<open>time.Unix(sec, nsec)\<close>, and the two components that \<open>Unix\<close> and \<open>Nanosecond\<close> read.\<close>

definition time_Unix :: "int \<Rightarrow> int \<Rightarrow> gotime" where
  "time_Unix sec nsec = sec * nanos_per_second + nsec"

definition Time_Unix :: "gotime \<Rightarrow> int" where
  "Time_Unix t = t div nanos_per_second"

definition Time_Nanosecond :: "gotime \<Rightarrow> int" where
  "Time_Nanosecond t = t mod nanos_per_second"

lemma time_Unix_parts [simp]: "time_Unix (Time_Unix t) (Time_Nanosecond t) = t"
  unfolding time_Unix_def Time_Unix_def Time_Nanosecond_def
  by (simp add: mult.commute)

section \<open>Strings\<close>

definition HasPrefix :: "string \<Rightarrow> string \<Rightarrow> bool" where
  "HasPrefix s p = (take (length p) s = p)"

definition TrimPrefix :: "string \<Rightarrow> string \<Rightarrow> string" where
  "TrimPrefix s p = (if HasPrefix s p then drop (length p) s else s)"

definition HasSuffix :: "string \<Rightarrow> string \<Rightarrow> bool" where
  "HasSuffix s p = (length p \<le> length s \<and> drop (length s - length p) s = p)"

definition TrimSuffix :: "string \<Rightarrow> string \<Rightarrow> string" where
  "TrimSuffix s p = (if HasSuffix s p then take (length s - length p) s else s)"

fun Contains :: "string \<Rightarrow> string \<Rightarrow> bool" where
  "Contains [] p = (p = [])"
| "Contains (c # s) p = (HasPrefix (c # s) p \<or> Contains s p)"

fun Join :: "string list \<Rightarrow> string \<Rightarrow> string" where
  "Join [] sep = []"
| "Join [s] sep = s"
| "Join (s # t # ss) sep = s @ sep @ Join (t # ss) sep"

lemma HasPrefix_iff_prefix: "HasPrefix s p \<longleftrightarrow> prefix p s"
  unfolding HasPrefix_def prefix_def by (metis append_eq_conv_conj append_take_drop_id)

lemma HasPrefix_append [simp]: "HasPrefix s p \<Longrightarrow> HasPrefix (s @ t) p"
  by (simp add: HasPrefix_iff_prefix prefix_def) fastforce

lemma HasPrefix_self [simp]: "HasPrefix (p @ s) p"
  by (simp add: HasPrefix_def)

lemma HasPrefix_Nil [simp]: "HasPrefix s []"
  by (simp add: HasPrefix_def)

lemma TrimPrefix_append [simp]: "TrimPrefix (p @ s) p = s"
  by (simp add: TrimPrefix_def)

lemma TrimPrefix_length: "length (TrimPrefix s p) \<le> length s"
  by (simp add: TrimPrefix_def)

lemma Contains_iff: "Contains s p \<longleftrightarrow> (\<exists>u v. s = u @ p @ v)"
proof (induction s)
  case Nil
  then show ?case by simp
next
  case (Cons c s)
  have "Contains (c # s) p \<longleftrightarrow> prefix p (c # s) \<or> (\<exists>u v. s = u @ p @ v)"
    using Cons.IH by (simp add: HasPrefix_iff_prefix)
  also have "\<dots> \<longleftrightarrow> (\<exists>u v. c # s = u @ p @ v)"
    unfolding prefix_def by (metis append_Cons append_Nil neq_Nil_conv list.inject)
  finally show ?case .
qed

lemma Contains_append_left [simp]: "Contains s p \<Longrightarrow> Contains (s @ t) p"
  unfolding Contains_iff by (metis append.assoc)

lemma Contains_append_right [simp]: "Contains t p \<Longrightarrow> Contains (s @ t) p"
  unfolding Contains_iff by (metis append.assoc)

lemma Contains_self [simp]: "Contains p p"
  unfolding Contains_iff by (metis append_Nil append_Nil2)

text \<open>Splitting at a separator character that the part before it does not contain.\<close>

lemma append_sep_eq_iff:
  assumes "c \<notin> set u" "c \<notin> set u'"
  shows "u @ c # v = u' @ c # v' \<longleftrightarrow> u = u' \<and> v = v'"
  using assms
proof (induction u arbitrary: u')
  case Nil
  then show ?case by (cases u') auto
next
  case (Cons x u)
  then show ?case by (cases u') auto
qed

text \<open>
  \<open>strings.Join\<close> with a one-character separator is injective on lists of one length whose
  parts do not contain the separator: the keys that the code builds this way are unambiguous.
\<close>

lemma Join_inject:
  assumes "length xs = length ys"
    and "\<forall>s \<in> set xs. c \<notin> set s" "\<forall>s \<in> set ys. c \<notin> set s"
  shows "Join xs [c] = Join ys [c] \<longleftrightarrow> xs = ys"
  using assms
proof (induction xs "[c]" arbitrary: ys rule: Join.induct)
  case 1
  then show ?case by simp
next
  case (2 s)
  then show ?case by (cases ys) auto
next
  case (3 s t ss)
  then obtain s' t' ss' where ys: "ys = s' # t' # ss'"
    by (metis length_Suc_conv)
  have IH: "Join (t # ss) [c] = Join (t' # ss') [c] \<longleftrightarrow> t # ss = t' # ss'"
    using 3 ys by simp
  have "Join (s # t # ss) [c] = Join ys [c]
      \<longleftrightarrow> s @ c # Join (t # ss) [c] = s' @ c # Join (t' # ss') [c]"
    using ys by simp
  also have "\<dots> \<longleftrightarrow> s = s' \<and> Join (t # ss) [c] = Join (t' # ss') [c]"
    using 3 ys by (intro append_sep_eq_iff) auto
  finally show ?case using IH ys by simp
qed

text \<open>The conversion \<open>[]byte(s)\<close>.\<close>

definition bytes_of_string :: "string \<Rightarrow> bytes" where
  "bytes_of_string s = map of_char s"

text \<open>\<open>strings.ToLower\<close> on the ASCII letters.\<close>

definition lower_char :: "char \<Rightarrow> char" where
  "lower_char c = (let n = of_char c :: nat in if 65 \<le> n \<and> n \<le> 90 then char_of (n + 32) else c)"

definition ToLower :: "string \<Rightarrow> string" where
  "ToLower s = map lower_char s"

text \<open>Decimal digits: \<open>strconv.Itoa\<close> and the \<open>%d\<close> verb on a non-negative value.\<close>

definition digit_char :: "nat \<Rightarrow> char" where
  "digit_char d = char_of (48 + d)"

fun nat_digits :: "nat \<Rightarrow> string" where
  "nat_digits n = (if n < 10 then [digit_char n] else nat_digits (n div 10) @ [digit_char (n mod 10)])"

declare nat_digits.simps [simp del]

definition Itoa :: "int \<Rightarrow> string" where
  "Itoa i = (if i < 0 then CHR ''-'' # nat_digits (nat (- i)) else nat_digits (nat i))"

lemma digit_char_inj: "a < 10 \<Longrightarrow> b < 10 \<Longrightarrow> digit_char a = digit_char b \<longleftrightarrow> a = b"
  unfolding digit_char_def by (auto simp: char_of_eq_iff take_bit_nat_eq_self)

lemma nat_digits_nonempty [simp]: "nat_digits n \<noteq> []"
  by (subst nat_digits.simps) simp

lemma nat_digits_small: "n < 10 \<Longrightarrow> nat_digits n = [digit_char n]"
  by (subst nat_digits.simps) simp

lemma nat_digits_step:
  "\<not> n < 10 \<Longrightarrow> nat_digits n = nat_digits (n div 10) @ [digit_char (n mod 10)]"
  by (subst nat_digits.simps) simp

lemma nat_digits_inj: "nat_digits m = nat_digits n \<longleftrightarrow> m = n"
proof (induction m arbitrary: n rule: nat_digits.induct)
  case (1 m)
  show ?case
  proof (cases "m < 10 \<or> n < 10")
    case True
    then show ?thesis
      using nat_digits_nonempty
      by (cases "m < 10"; cases "n < 10")
        (auto simp: nat_digits_small nat_digits_step digit_char_inj dest: sym)
  next
    case False
    then have "nat_digits m = nat_digits n \<longleftrightarrow> m div 10 = n div 10 \<and> m mod 10 = n mod 10"
      using "1.IH" [of "n div 10"] by (auto simp: nat_digits_step digit_char_inj)
    then show ?thesis by (metis div_mult_mod_eq)
  qed
qed

lemma nat_digits_set: "set (nat_digits n) \<subseteq> digit_char ` {..<10}"
proof (induction n rule: nat_digits.induct)
  case (1 n)
  then show ?case
    by (cases "n < 10") (auto simp: nat_digits_small nat_digits_step)
qed

lemma digit_char_neq:
  assumes "d < 10" "c \<in> {CHR '':'', CHR ''|'', CHR ''-'', CHR '' ''}"
  shows "digit_char d \<noteq> c"
proof -
  have "of_char (digit_char d) = 48 + d"
    using assms(1) by (simp add: digit_char_def of_char_of)
  moreover have "of_char c \<notin> {48..<58 :: nat}"
    using assms(2) by auto
  ultimately show ?thesis using assms(1) by force
qed

lemma sep_not_in_nat_digits [simp]:
  "CHR '':'' \<notin> set (nat_digits n)" "CHR ''|'' \<notin> set (nat_digits n)"
  "CHR ''-'' \<notin> set (nat_digits n)" "CHR '' '' \<notin> set (nat_digits n)"
  using nat_digits_set [of n] by (force dest: digit_char_neq)+

section \<open>Errors\<close>

text \<open>
  An error value carries its message, which is what \<open>err.Error()\<close> returns and what the
  code inspects; the sentinels that the code compares by identity are constructors.
\<close>

datatype go_error =
    ErrorString string
  | ErrNoMessage
  | DeadlineExceeded
  | EOF
  | DbrErrNotFound

fun Error :: "go_error \<Rightarrow> string" where
  "Error (ErrorString m) = m"
| "Error ErrNoMessage = ''no message''"
| "Error DeadlineExceeded = ''context deadline exceeded''"
| "Error EOF = ''EOF''"
| "Error DbrErrNotFound = ''dbr: not found''"

section \<open>Go computations that change a state and may fail\<close>

text \<open>
  A Go function that returns \<open>(a, error)\<close> and changes a state is a function from the
  state to the error or the value, together with the state it leaves behind. A state that
  was changed before an error is kept: nothing is rolled back unless the code does it.
\<close>

type_synonym ('s, 'a) go = "'s \<Rightarrow> (go_error + 'a) \<times> 's"

definition go_return :: "'a \<Rightarrow> ('s, 'a) go" where
  "go_return a = (\<lambda>s. (Inr a, s))"

definition go_raise :: "go_error \<Rightarrow> ('s, 'a) go" where
  "go_raise e = (\<lambda>s. (Inl e, s))"

text \<open>\<open>x, err := m(); if err != nil { return err }; k(x)\<close>\<close>

definition go_bind :: "('s, 'a) go \<Rightarrow> ('a \<Rightarrow> ('s, 'b) go) \<Rightarrow> ('s, 'b) go" where
  "go_bind m k = (\<lambda>s. case m s of (Inl e, s') \<Rightarrow> (Inl e, s') | (Inr a, s') \<Rightarrow> k a s')"

definition go_then :: "('s, 'a) go \<Rightarrow> ('s, 'b) go \<Rightarrow> ('s, 'b) go" where
  "go_then m n = go_bind m (\<lambda>_. n)"

text \<open>A pure call that may fail.\<close>

definition go_lift :: "go_error + 'a \<Rightarrow> ('s, 'a) go" where
  "go_lift r = (\<lambda>s. (r, s))"

text \<open>\<open>for _, x := range xs { if err := f(x); err != nil { return err } }\<close>, and the
  same loop with a variable that the body updates.\<close>

fun go_for :: "('a \<Rightarrow> ('s, unit) go) \<Rightarrow> 'a list \<Rightarrow> ('s, unit) go" where
  "go_for f [] = go_return ()"
| "go_for f (x # xs) = go_then (f x) (go_for f xs)"

fun go_fold :: "('a \<Rightarrow> 'b \<Rightarrow> ('s, 'b) go) \<Rightarrow> 'a list \<Rightarrow> 'b \<Rightarrow> ('s, 'b) go" where
  "go_fold f [] b = go_return b"
| "go_fold f (x # xs) b = go_bind (f x b) (go_fold f xs)"

lemma go_return_run [go_simps]: "go_return a s = (Inr a, s)"
  by (simp add: go_return_def)

lemma go_raise_run [go_simps]: "go_raise e s = (Inl e, s)"
  by (simp add: go_raise_def)

lemma go_lift_run [go_simps]: "go_lift r s = (r, s)"
  by (simp add: go_lift_def)

lemma go_bind_run [go_simps]:
  "go_bind m k s = (case m s of (Inl e, s') \<Rightarrow> (Inl e, s') | (Inr a, s') \<Rightarrow> k a s')"
  by (simp add: go_bind_def)

lemma go_then_run [go_simps]:
  "go_then m n s = (case m s of (Inl e, s') \<Rightarrow> (Inl e, s') | (Inr a, s') \<Rightarrow> n s')"
  by (simp add: go_then_def go_bind_run)

lemma go_bind_Inr:
  assumes "go_bind m k s = (Inr b, s2)"
  obtains a s1 where "m s = (Inr a, s1)" "k a s1 = (Inr b, s2)"
  using assms by (auto simp: go_bind_run split: prod.splits sum.splits)

lemma go_then_Inr:
  assumes "go_then m n s = (Inr b, s2)"
  obtains a s1 where "m s = (Inr a, s1)" "n s1 = (Inr b, s2)"
  using assms unfolding go_then_def by (rule go_bind_Inr)

lemma go_bind_assoc: "go_bind (go_bind m k) l = go_bind m (\<lambda>a. go_bind (k a) l)"
  by (rule ext) (auto simp: go_bind_run split: prod.splits sum.splits)

lemma go_bind_return [simp]: "go_bind (go_return a) k = k a"
  by (rule ext) (simp add: go_simps)

lemma go_for_append: "go_for f (xs @ ys) = go_then (go_for f xs) (go_for f ys)"
  by (induction xs) (simp_all add: go_then_def go_bind_assoc)

lemma go_fold_append: "go_fold f (xs @ ys) b = go_bind (go_fold f xs b) (go_fold f ys)"
proof (induction xs arbitrary: b)
  case (Cons x xs)
  then have "go_fold f (xs @ ys) = (\<lambda>b. go_bind (go_fold f xs b) (go_fold f ys))"
    by (simp add: fun_eq_iff)
  then show ?case by (simp add: go_bind_assoc)
qed simp

subsection \<open>State invariants\<close>

definition keeps :: "('s \<Rightarrow> bool) \<Rightarrow> ('s, 'a) go \<Rightarrow> bool" where
  "keeps P m \<longleftrightarrow> (\<forall>s. P s \<longrightarrow> P (snd (m s)))"

lemma keepsD: "keeps P m \<Longrightarrow> P s \<Longrightarrow> m s = (r, s') \<Longrightarrow> P s'"
  unfolding keeps_def by (metis snd_conv)

lemma keeps_return [keeps_intros]: "keeps P (go_return a)"
  by (simp add: keeps_def go_simps)

lemma keeps_raise [keeps_intros]: "keeps P (go_raise e)"
  by (simp add: keeps_def go_simps)

lemma keeps_lift [keeps_intros]: "keeps P (go_lift r)"
  by (simp add: keeps_def go_simps)

lemma keeps_bind [keeps_intros]:
  assumes "keeps P m" "\<And>a. keeps P (k a)"
  shows "keeps P (go_bind m k)"
  unfolding keeps_def
proof (intro allI impI)
  fix s assume "P s"
  obtain r s' where m: "m s = (r, s')" by (cases "m s")
  with keepsD [OF assms(1) \<open>P s\<close>] have "P s'" by blast
  then have "P (snd (k a s'))" for a
    using assms(2) by (simp add: keeps_def)
  with m \<open>P s'\<close> show "P (snd (go_bind m k s))"
    by (cases r) (simp_all add: go_simps)
qed

lemma keeps_then [keeps_intros]: "keeps P m \<Longrightarrow> keeps P n \<Longrightarrow> keeps P (go_then m n)"
  by (simp add: go_then_def keeps_bind)

lemma keeps_for [keeps_intros]: "(\<And>x. x \<in> set xs \<Longrightarrow> keeps P (f x)) \<Longrightarrow> keeps P (go_for f xs)"
  by (induction xs) (auto intro!: keeps_return keeps_then)

lemma keeps_fold [keeps_intros]:
  "(\<And>x b. x \<in> set xs \<Longrightarrow> keeps P (f x b)) \<Longrightarrow> keeps P (go_fold f xs b)"
  by (induction xs arbitrary: b) (auto intro!: keeps_return keeps_bind)

lemma keeps_if [keeps_intros]: "keeps P m \<Longrightarrow> keeps P n \<Longrightarrow> keeps P (if c then m else n)"
  by simp

subsection \<open>Simulation between two state spaces\<close>

text \<open>
  Related states give the same result and related states again: what a client that is
  written against an interface can observe does not depend on the implementation.
\<close>

definition sim :: "('s \<Rightarrow> 't \<Rightarrow> bool) \<Rightarrow> ('s, 'a) go \<Rightarrow> ('t, 'a) go \<Rightarrow> bool" where
  "sim R m n \<longleftrightarrow> (\<forall>s t. R s t \<longrightarrow> fst (m s) = fst (n t) \<and> R (snd (m s)) (snd (n t)))"

lemma simD: "sim R m n \<Longrightarrow> R s t \<Longrightarrow> fst (m s) = fst (n t) \<and> R (snd (m s)) (snd (n t))"
  by (simp add: sim_def)

lemma sim_return [sim_intros]: "sim R (go_return a) (go_return a)"
  by (simp add: sim_def go_simps)

lemma sim_raise [sim_intros]: "sim R (go_raise e) (go_raise e)"
  by (simp add: sim_def go_simps)

lemma sim_lift [sim_intros]: "sim R (go_lift r) (go_lift r)"
  by (simp add: sim_def go_simps)

lemma sim_bind [sim_intros]:
  assumes "sim R m n" "\<And>a. sim R (k a) (l a)"
  shows "sim R (go_bind m k) (go_bind n l)"
  unfolding sim_def
proof (intro allI impI)
  fix s t assume "R s t"
  obtain r s' where m: "m s = (r, s')" by (cases "m s")
  obtain q t' where n: "n t = (q, t')" by (cases "n t")
  from simD [OF assms(1) \<open>R s t\<close>] m n have "q = r" "R s' t'" by auto
  then have "fst (k a s') = fst (l a t') \<and> R (snd (k a s')) (snd (l a t'))" for a
    using simD [OF assms(2)] by blast
  with m n \<open>q = r\<close> \<open>R s' t'\<close> show "fst (go_bind m k s) = fst (go_bind n l t)
      \<and> R (snd (go_bind m k s)) (snd (go_bind n l t))"
    by (cases r) (simp_all add: go_simps)
qed

lemma sim_then [sim_intros]: "sim R m n \<Longrightarrow> sim R m' n' \<Longrightarrow> sim R (go_then m m') (go_then n n')"
  by (simp add: go_then_def sim_bind)

lemma sim_for [sim_intros]: "(\<And>x. x \<in> set xs \<Longrightarrow> sim R (f x) (g x)) \<Longrightarrow> sim R (go_for f xs) (go_for g xs)"
  by (induction xs) (auto intro!: sim_return sim_then)

lemma sim_fold [sim_intros]:
  "(\<And>x b. x \<in> set xs \<Longrightarrow> sim R (f x b) (g x b)) \<Longrightarrow> sim R (go_fold f xs b) (go_fold g xs b)"
  by (induction xs arbitrary: b) (auto intro!: sim_return sim_bind)

lemma sim_if [sim_intros]: "sim R m n \<Longrightarrow> sim R m' n' \<Longrightarrow> sim R (if c then m else m') (if c then n else n')"
  by simp

end
