(* ===== verification/Utils.thy ===== *)
theory Utils
  imports Prelude
begin

text \<open>
  The data structures of \<open>src/utils\<close>: the concurrent counter set (\<open>counterid.go\<close>), the
  bounded set of processed ids (\<open>indexedlist.go\<close>), the cache with expiry times
  (\<open>ttlmapcache.go\<close>, \<open>cache.go\<close>), the retry delay (\<open>retry_sleeper.go\<close>), the
  classification of database errors (\<open>dbutils.go\<close>) and the address spelling
  (\<open>type_address_util.go\<close>). Two interfaces are locales: \<open>bounded_set\<close> for \<open>IndexedList\<close> and
  \<open>ttl_store\<close> for the cache.
\<close>

section \<open>dbutils.go: classification of database errors\<close>

definition DeadlockDBErrorMessage :: string where
  "DeadlockDBErrorMessage = ''Deadlock found when trying to get lock; try restarting transaction''"

definition TimeoutDBErrorMessage :: string where
  "TimeoutDBErrorMessage = ''Lock wait timeout exceeded; try restarting transaction''"

text \<open>Both predicates take a possibly nil error.\<close>

definition ErrIsDuplicateEntryError :: "go_error option \<Rightarrow> bool" where
  "ErrIsDuplicateEntryError err =
     (case err of None \<Rightarrow> False | Some e \<Rightarrow> HasPrefix (Error e) ''Error 1062: Duplicate entry'')"

definition ErrIsLockError :: "go_error option \<Rightarrow> bool" where
  "ErrIsLockError err =
     (case err of None \<Rightarrow> False
      | Some e \<Rightarrow> Contains (Error e) DeadlockDBErrorMessage
               \<or> Contains (Error e) TimeoutDBErrorMessage)"

section \<open>retry_sleeper.go\<close>

record RetrySleeper =
  rs_counter :: u64
  rs_retries :: u64
  rs_sleepTime :: int
  rs_sleepDuration :: int
  rs_sleepDurationMax :: int

definition NewRetrySleeper :: "u64 \<Rightarrow> int \<Rightarrow> int \<Rightarrow> RetrySleeper" where
  "NewRetrySleeper retries sleepDuration sleepDurationMax =
     \<lparr>rs_counter = 0, rs_retries = retries, rs_sleepTime = 0,
      rs_sleepDuration = sleepDuration, rs_sleepDurationMax = sleepDurationMax\<rparr>"

text \<open>\<open>Inc\<close> returns the new state and the time slept, 0 when it does not sleep.\<close>

definition RetrySleeper_Inc :: "RetrySleeper \<Rightarrow> RetrySleeper \<times> int" where
  "RetrySleeper_Inc r =
     (let r1 = r\<lparr>rs_counter := rs_counter r + 1\<rparr> in
      if rs_counter r1 > rs_retries r1 then
        (let r2 = (if rs_sleepTime r1 < rs_sleepDuration r1
                   then r1\<lparr>rs_sleepTime := rs_sleepTime r1 + rs_sleepDuration r1\<rparr> else r1)
         in (r2, rs_sleepTime r2))
      else (r1, 0))"

fun sleeps :: "nat \<Rightarrow> RetrySleeper \<Rightarrow> int list" where
  "sleeps 0 r = []"
| "sleeps (Suc n) r = (let (r', t) = RetrySleeper_Inc r in t # sleeps n r')"

lemma sleepTime_Inc:
  assumes "rs_sleepTime r \<in> {0, rs_sleepDuration r}"
  shows "rs_sleepTime (fst (RetrySleeper_Inc r)) \<in> {0, rs_sleepDuration (fst (RetrySleeper_Inc r))}"
    and "rs_sleepDuration (fst (RetrySleeper_Inc r)) = rs_sleepDuration r"
    and "snd (RetrySleeper_Inc r) \<in> {0, rs_sleepDuration r}"
  using assms by (auto simp: RetrySleeper_Inc_def Let_def)

lemma sleeps_bounded:
  "rs_sleepTime r \<in> {0, rs_sleepDuration r} \<Longrightarrow> set (sleeps n r) \<subseteq> {0, rs_sleepDuration r}"
proof (induction n arbitrary: r)
  case (Suc n)
  then show ?case
    using sleepTime_Inc [of r] Suc.IH [of "fst (RetrySleeper_Inc r)"]
    by (simp add: split_beta)
qed simp

lemma replicate_2: "replicate 2 x = [x, x]"
  by (simp add: numeral_2_eq_2)

lemma sleeps_from:
  assumes "0 < sd" "unat c + n < 2 ^ 64" "st = (if retries < c then sd else 0)"
  shows "sleeps n \<lparr>rs_counter = c, rs_retries = retries, rs_sleepTime = st,
           rs_sleepDuration = sd, rs_sleepDurationMax = mx\<rparr>
       = replicate (min n (unat retries - unat c)) 0 @ replicate (n - (unat retries - unat c)) sd"
  using assms
proof (induction n arbitrary: c st)
  case (Suc n)
  have c1: "unat (c + 1) = unat c + 1"
    using Suc.prems(2) by (simp add: unat_word_ariths)
  let ?st = "if retries < c + 1 then sd else 0"
  let ?r = "\<lambda>c st. \<lparr>rs_counter = c, rs_retries = retries, rs_sleepTime = st,
           rs_sleepDuration = sd, rs_sleepDurationMax = mx\<rparr>"
  have step: "RetrySleeper_Inc (?r c st) = (?r (c + 1) ?st, ?st)"
    using Suc.prems c1 by (auto simp: RetrySleeper_Inc_def Let_def word_less_nat_alt)
  have "sleeps n (?r (c + 1) ?st)
      = replicate (min n (unat retries - unat (c + 1))) 0 @ replicate (n - (unat retries - unat (c + 1))) sd"
    using Suc.prems c1 by (intro Suc.IH) simp_all
  then show ?case
    using step c1 by (cases "unat c < unat retries")
      (auto simp: word_less_nat_alt Suc_diff_Suc [symmetric] simp flip: replicate_Suc)
qed simp

section \<open>counterid.go\<close>

type_synonym counters = "string \<rightharpoonup> 64 word"

definition NewCounterID :: counters where
  "NewCounterID = Map.empty"

text \<open>
  \<open>Add\<close> runs in two critical sections: under the read lock it adds to a counter that is
  there, otherwise it takes the write lock, creates the counter if it is still missing and
  adds. Each section is one function of the counters.
\<close>

definition Add_read :: "string \<Rightarrow> 64 word \<Rightarrow> counters \<Rightarrow> bool \<times> counters" where
  "Add_read v delta c =
     (case c v of Some n \<Rightarrow> (True, c(v \<mapsto> n + delta)) | None \<Rightarrow> (False, c))"

definition Add_write :: "string \<Rightarrow> 64 word \<Rightarrow> counters \<Rightarrow> counters" where
  "Add_write v delta c =
     (let c' = (if v \<in> dom c then c else c(v \<mapsto> 0)) in c'(v \<mapsto> the (c' v) + delta))"

definition CounterID_Add :: "string \<Rightarrow> 64 word \<Rightarrow> counters \<Rightarrow> counters" where
  "CounterID_Add v delta c =
     (case Add_read v delta c of (True, c') \<Rightarrow> c' | (False, c') \<Rightarrow> Add_write v delta c')"

definition CounterID_Inc :: "string \<Rightarrow> counters \<Rightarrow> counters" where
  "CounterID_Inc v = CounterID_Add v 1"

definition CounterID_Clone :: "counters \<Rightarrow> (string \<rightharpoonup> 64 word)" where
  "CounterID_Clone c = (\<lambda>k. case c k of Some n \<Rightarrow> if n \<noteq> 0 then Some n else None | None \<Rightarrow> None)"

definition counter_value :: "counters \<Rightarrow> string \<Rightarrow> 64 word" where
  "counter_value c v = (case c v of Some n \<Rightarrow> n | None \<Rightarrow> 0)"

text \<open>Callers of \<open>Add\<close> interleave at the boundary between the two critical sections.\<close>

datatype add_call = AtRead string "64 word" | AtWrite string "64 word" | Done string "64 word"

record counter_sys =
  cs_counters :: counters
  cs_calls :: "add_call list"

inductive counter_step :: "counter_sys \<Rightarrow> counter_sys \<Rightarrow> bool" where
  read_found: "\<lbrakk>i < length (cs_calls s); cs_calls s ! i = AtRead v d;
      Add_read v d (cs_counters s) = (True, c)\<rbrakk>
    \<Longrightarrow> counter_step s (s\<lparr>cs_counters := c, cs_calls := (cs_calls s)[i := Done v d]\<rparr>)"
| read_missing: "\<lbrakk>i < length (cs_calls s); cs_calls s ! i = AtRead v d;
      Add_read v d (cs_counters s) = (False, c)\<rbrakk>
    \<Longrightarrow> counter_step s (s\<lparr>cs_counters := c, cs_calls := (cs_calls s)[i := AtWrite v d]\<rparr>)"
| write_add: "\<lbrakk>i < length (cs_calls s); cs_calls s ! i = AtWrite v d\<rbrakk>
    \<Longrightarrow> counter_step s (s\<lparr>cs_counters := Add_write v d (cs_counters s),
                           cs_calls := (cs_calls s)[i := Done v d]\<rparr>)"

definition counter_start :: "(string \<times> 64 word) list \<Rightarrow> counter_sys" where
  "counter_start ops = \<lparr>cs_counters = NewCounterID, cs_calls = map (\<lambda>(v, d). AtRead v d) ops\<rparr>"

fun done_amount :: "string \<Rightarrow> add_call \<Rightarrow> 64 word" where
  "done_amount k (Done v d) = (if v = k then d else 0)"
| "done_amount k _ = 0"

fun call_op :: "add_call \<Rightarrow> string \<times> 64 word" where
  "call_op (AtRead v d) = (v, d)"
| "call_op (AtWrite v d) = (v, d)"
| "call_op (Done v d) = (v, d)"

definition counter_inv :: "(string \<times> 64 word) list \<Rightarrow> counter_sys \<Rightarrow> bool" where
  "counter_inv ops s \<longleftrightarrow> map call_op (cs_calls s) = ops
     \<and> (\<forall>k. counter_value (cs_counters s) k = sum_list (map (done_amount k) (cs_calls s)))"

lemma sum_list_map_update:
  fixes f :: "'a \<Rightarrow> 'b :: comm_ring_1"
  shows "i < length xs \<Longrightarrow> sum_list (map f (xs[i := y])) = sum_list (map f xs) - f (xs ! i) + f y"
proof (induction xs arbitrary: i)
  case (Cons x xs)
  then show ?case by (cases i) (auto simp: algebra_simps)
qed simp

lemma counter_value_read:
  "Add_read v d c = (True, c') \<Longrightarrow> counter_value c' k = counter_value c k + (if v = k then d else 0)"
  "Add_read v d c = (False, c') \<Longrightarrow> c' = c"
  by (auto simp: Add_read_def counter_value_def split: option.splits)

lemma counter_value_write:
  "counter_value (Add_write v d c) k = counter_value c k + (if v = k then d else 0)"
  by (auto simp: Add_write_def counter_value_def Let_def split: option.splits)

lemma call_op_update:
  "i < length cs \<Longrightarrow> call_op y = call_op (cs ! i) \<Longrightarrow> map call_op (cs[i := y]) = map call_op cs"
  by (simp add: map_update list_update_same_conv)

lemma counter_inv_step: "counter_step s t \<Longrightarrow> counter_inv ops s \<Longrightarrow> counter_inv ops t"
  by (induction rule: counter_step.induct)
    (auto simp: counter_inv_def call_op_update sum_list_map_update counter_value_read(1)
      counter_value_write dest: counter_value_read(2))

lemma counter_inv_reachable:
  assumes "counter_step\<^sup>*\<^sup>* (counter_start ops) s"
  shows "counter_inv ops s"
  using assms
proof (induction rule: rtranclp_induct)
  case base
  show ?case
    by (auto simp: counter_inv_def counter_start_def counter_value_def NewCounterID_def
        comp_def split_beta intro!: sum_list_0)
next
  case (step s t)
  then show ?case by (blast intro: counter_inv_step)
qed

lemma done_amount_all:
  assumes "\<forall>c \<in> set cs. \<exists>v d. c = Done v d"
  shows "sum_list (map (done_amount k) cs) = sum_list (map (\<lambda>(v, d). if v = k then d else 0) (map call_op cs))"
  using assms by (induction cs) auto

section \<open>indexedlist.go\<close>

record ('k, 'v) indexedList =
  entryMap :: "'k \<rightharpoonup> 'v"
  entryList :: "'k list"
  MaxSize :: int

definition NewIndexedList :: "int \<Rightarrow> ('k, 'v) indexedList" where
  "NewIndexedList maxSize =
     (let maxSize = (if maxSize \<le> 1 then 1 else maxSize)
      in \<lparr>entryMap = Map.empty, entryList = [], MaxSize = maxSize\<rparr>)"

definition IndexedList_Exists :: "('k, 'v) indexedList \<Rightarrow> 'k \<Rightarrow> bool" where
  "IndexedList_Exists c key = (case entryMap c key of Some _ \<Rightarrow> True | None \<Rightarrow> False)"

text \<open>The eviction loop. \<open>NewIndexedList\<close> makes \<open>MaxSize\<close> at least 1, so the loop never
  takes the back of an empty list.\<close>

function evict :: "('k, 'v) indexedList \<Rightarrow> ('k, 'v) indexedList" where
  "evict c =
     (if MaxSize c < int (length (entryList c)) \<and> entryList c \<noteq> [] then
        (let e = last (entryList c)
         in evict (c\<lparr>entryList := butlast (entryList c), entryMap := (entryMap c)(e := None)\<rparr>))
      else c)"
  by pat_completeness auto
termination
  by (relation "measure (\<lambda>c. length (entryList c))") auto

declare evict.simps [simp del]

definition IndexedList_PushFront :: "('k, 'v) indexedList \<Rightarrow> 'k \<Rightarrow> 'v \<Rightarrow> ('k, 'v) indexedList" where
  "IndexedList_PushFront c key val =
     (if IndexedList_Exists c key then c
      else evict (c\<lparr>entryList := key # entryList c, entryMap := (entryMap c)(key \<mapsto> val)\<rparr>))"

definition indexedList_wf :: "('k, 'v) indexedList \<Rightarrow> bool" where
  "indexedList_wf c \<longleftrightarrow> distinct (entryList c) \<and> dom (entryMap c) = set (entryList c)
     \<and> int (length (entryList c)) \<le> MaxSize c \<and> 1 \<le> MaxSize c"

lemma set_butlast_distinct: "distinct xs \<Longrightarrow> xs \<noteq> [] \<Longrightarrow> set (butlast xs) = set xs - {last xs}"
  by (cases xs rule: rev_cases) auto

lemma evict_result:
  assumes "distinct (entryList c)" "dom (entryMap c) = set (entryList c)" "1 \<le> MaxSize c"
  shows "entryList (evict c) = take (nat (MaxSize c)) (entryList c) \<and> MaxSize (evict c) = MaxSize c
    \<and> dom (entryMap (evict c)) = set (entryList (evict c))"
  using assms
proof (induction c rule: evict.induct)
  case (1 c)
  show ?case
  proof (cases "MaxSize c < int (length (entryList c)) \<and> entryList c \<noteq> []")
    case True
    let ?d = "c\<lparr>entryList := butlast (entryList c), entryMap := (entryMap c)(last (entryList c) := None)\<rparr>"
    have d: "distinct (entryList ?d)" "dom (entryMap ?d) = set (entryList ?d)"
      using "1.prems" True by (simp_all add: set_butlast_distinct distinct_butlast)
    have "1 \<le> MaxSize ?d" using "1.prems"(3) by simp
    from "1.IH" [OF True refl d this]
    have "entryList (evict ?d) = take (nat (MaxSize c)) (butlast (entryList c)) \<and> MaxSize (evict ?d) = MaxSize c
      \<and> dom (entryMap (evict ?d)) = set (entryList (evict ?d))" by simp
    moreover have "take (nat (MaxSize c)) (butlast (entryList c)) = take (nat (MaxSize c)) (entryList c)"
      using True "1.prems"(3) by (intro take_butlast) auto
    ultimately show ?thesis
      using True by (simp add: evict.simps [of c] Let_def)
  next
    case False
    with "1.prems" show ?thesis by (auto simp: evict.simps [of c])
  qed
qed

lemma Exists_entryList: "indexedList_wf c \<Longrightarrow> IndexedList_Exists c k \<longleftrightarrow> k \<in> set (entryList c)"
  by (auto simp: IndexedList_Exists_def indexedList_wf_def split: option.splits)

lemma MaxSize_pos: "indexedList_wf c \<Longrightarrow> 0 < MaxSize c"
  by (simp add: indexedList_wf_def)

lemma PushFront_list:
  assumes "indexedList_wf c"
  shows "entryList (IndexedList_PushFront c k v)
      = (if k \<in> set (entryList c) then entryList c else take (nat (MaxSize c)) (k # entryList c))"
    and "MaxSize (IndexedList_PushFront c k v) = MaxSize c"
    and "indexedList_wf (IndexedList_PushFront c k v)"
proof -
  have ex: "IndexedList_Exists c k \<longleftrightarrow> k \<in> set (entryList c)"
    using assms by (rule Exists_entryList)
  let ?d = "c\<lparr>entryList := k # entryList c, entryMap := (entryMap c)(k \<mapsto> v)\<rparr>"
  have r: "k \<notin> set (entryList c) \<Longrightarrow> entryList (evict ?d) = take (nat (MaxSize c)) (k # entryList c)
      \<and> MaxSize (evict ?d) = MaxSize c \<and> dom (entryMap (evict ?d)) = set (entryList (evict ?d))"
    using evict_result [of ?d] assms by (simp add: indexedList_wf_def)
  show "entryList (IndexedList_PushFront c k v)
      = (if k \<in> set (entryList c) then entryList c else take (nat (MaxSize c)) (k # entryList c))"
    and "MaxSize (IndexedList_PushFront c k v) = MaxSize c"
    using r ex by (simp_all add: IndexedList_PushFront_def)
  have "k \<notin> set (entryList c) \<Longrightarrow> distinct (take (nat (MaxSize c)) (k # entryList c))"
    using assms by (intro distinct_take) (simp add: indexedList_wf_def)
  then show "indexedList_wf (IndexedList_PushFront c k v)"
    using r ex assms by (auto simp: IndexedList_PushFront_def indexedList_wf_def)
qed

text \<open>
  The interface that the indexer's clients use: a bounded window over the keys pushed last.
  \<open>window\<close> abstracts the state to the keys it holds, newest first.
\<close>

locale bounded_set =
  fixes push :: "'c \<Rightarrow> 'k \<Rightarrow> 'v \<Rightarrow> 'c"
    and exists_key :: "'c \<Rightarrow> 'k \<Rightarrow> bool"
    and window :: "'c \<Rightarrow> 'k list"
    and bound :: "'c \<Rightarrow> nat"
    and invar :: "'c \<Rightarrow> bool"
  assumes window_push: "invar c \<Longrightarrow> window (push c k v)
      = (if k \<in> set (window c) then window c else take (bound c) (k # window c))"
    and bound_push: "invar c \<Longrightarrow> bound (push c k v) = bound c"
    and invar_push: "invar c \<Longrightarrow> invar (push c k v)"
    and exists_window: "invar c \<Longrightarrow> exists_key c k \<longleftrightarrow> k \<in> set (window c)"
    and bound_pos: "invar c \<Longrightarrow> 0 < bound c"
begin

lemma invar_fold: "invar c \<Longrightarrow> invar (fold (\<lambda>(k, v) c. push c k v) kvs c)"
  by (induction kvs arbitrary: c) (auto simp: invar_push)

lemma exists_after_push: "invar c \<Longrightarrow> exists_key (push c k v) k"
  using bound_pos [of c]
  by (auto simp: exists_window invar_push window_push take_Cons' split: if_splits)

text \<open>Pushing keys that are all different keeps the last \<open>bound\<close> of them.\<close>

lemma window_fold:
  assumes "invar c" "window c = take (bound c) (window c)"
    and "distinct (map fst kvs)" "set (map fst kvs) \<inter> set ks = {}" "window c = take (bound c) ks"
  shows "window (fold (\<lambda>(k, v) c. push c k v) kvs c) = take (bound c) (rev (map fst kvs) @ ks)"
  using assms
proof (induction kvs arbitrary: c ks)
  case (Cons kv kvs)
  obtain k v where kv: "kv = (k, v)" by (cases kv)
  have "k \<notin> set (window c)"
    using Cons.prems kv by (auto dest: in_set_takeD)
  then have w: "window (push c k v) = take (bound c) (k # ks)"
    using Cons.prems bound_pos [of c] by (cases "bound c") (auto simp: window_push min_def)
  have "window (fold (\<lambda>(k, v) c. push c k v) kvs (push c k v))
      = take (bound c) (rev (map fst kvs) @ k # ks)"
    using Cons.IH [of "push c k v" "k # ks"] Cons.prems kv w
    by (auto simp: bound_push invar_push)
  then show ?case using kv by simp
qed simp

lemma exists_fold:
  assumes "invar c" "window c = []" "distinct (map fst kvs)"
  shows "exists_key (fold (\<lambda>(k, v) c. push c k v) kvs c) k
    \<longleftrightarrow> k \<in> set (take (bound c) (rev (map fst kvs)))"
  using window_fold [of c kvs "[]"] assms by (simp add: exists_window invar_fold)

end

interpretation il: bounded_set IndexedList_PushFront IndexedList_Exists entryList
  "\<lambda>c. nat (MaxSize c)" indexedList_wf
  by unfold_locales (simp_all add: PushFront_list Exists_entryList MaxSize_pos)

lemma NewIndexedList_wf [simp]: "indexedList_wf (NewIndexedList n)"
  by (simp add: NewIndexedList_def indexedList_wf_def Let_def)

lemma NewIndexedList_fields [simp]:
  "entryList (NewIndexedList n) = []" "MaxSize (NewIndexedList n) = max 1 n"
  by (simp_all add: NewIndexedList_def Let_def)

section \<open>ttlmapcache.go and cache.go\<close>

record item =
  item_value :: bytes
  item_expire :: gotime
  item_last :: gotime

type_synonym bucket = "string \<rightharpoonup> item"
type_synonym LCache = "bucket list"

definition item_expired :: "gotime \<Rightarrow> item \<Rightarrow> bool" where
  "item_expired now i = (item_expire i < now)"

definition NewTTLMap :: LCache where
  "NewTTLMap = replicate 256 Map.empty"

text \<open>
  \<open>sum0\<close> is the first byte of the SHA-256 sum of a key, which selects the bucket; \<open>now\<close> is
  the clock reading of the call. \<open>Put\<close> on a key that is there keeps the old item.
\<close>

definition LCache_Put :: "(string \<Rightarrow> u8) \<Rightarrow> gotime \<Rightarrow> string \<Rightarrow> bytes \<Rightarrow> int \<Rightarrow> LCache \<Rightarrow> LCache" where
  "LCache_Put sum0 now k v ttl m =
     (let i = unat (sum0 k); bm = m ! i;
          it = (case bm k of None \<Rightarrow> \<lparr>item_value = v, item_expire = 0, item_last = 0\<rparr> | Some it \<Rightarrow> it);
          it = it\<lparr>item_last := now, item_expire := now + ttl\<rparr>
      in m[i := bm(k \<mapsto> it)])"

definition LCache_Get :: "(string \<Rightarrow> u8) \<Rightarrow> gotime \<Rightarrow> string \<Rightarrow> LCache \<Rightarrow> bytes \<times> bool" where
  "LCache_Get sum0 now k m =
     (case (m ! unat (sum0 k)) k of
        Some it \<Rightarrow> if \<not> item_expired now it then (item_value it, True) else ([], False)
      | None \<Rightarrow> ([], False))"

text \<open>
  One tick of the expiry loop. For each bucket it lists the keys expired at the time \<open>now i\<close>
  read when the bucket's turn came, then deletes each listed key that is still expired at the
  time \<open>later i k\<close> of its deletion.
\<close>

definition expire_bucket :: "gotime \<Rightarrow> (string \<Rightarrow> gotime) \<Rightarrow> bucket \<Rightarrow> bucket" where
  "expire_bucket now later bm =
     (\<lambda>k. case bm k of
            Some it \<Rightarrow> if item_expire it < now \<and> item_expired (later k) it then None else Some it
          | None \<Rightarrow> None)"

definition LCache_expire :: "(nat \<Rightarrow> gotime) \<Rightarrow> (nat \<Rightarrow> string \<Rightarrow> gotime) \<Rightarrow> LCache \<Rightarrow> LCache" where
  "LCache_expire now later m = map (\<lambda>(i, bm). expire_bucket (now i) (later i) bm) (enumerate 0 m)"

datatype cache_error = CacheErrNotFound

definition Cache_Get :: "(string \<Rightarrow> u8) \<Rightarrow> gotime \<Rightarrow> string \<Rightarrow> LCache \<Rightarrow> bytes \<times> cache_error option" where
  "Cache_Get sum0 now key c =
     (case LCache_Get sum0 now key c of (v, ok) \<Rightarrow> if \<not> ok then (v, Some CacheErrNotFound) else (v, None))"

definition Cache_Set :: "(string \<Rightarrow> u8) \<Rightarrow> gotime \<Rightarrow> string \<Rightarrow> bytes \<Rightarrow> int \<Rightarrow> LCache \<Rightarrow> LCache" where
  "Cache_Set sum0 now key body ttl c = LCache_Put sum0 now key body ttl c"

definition KeyFromParts :: "string list \<Rightarrow> string" where
  "KeyFromParts parts = Join parts ''|''"

definition utils_CacheKey :: "u32 \<Rightarrow> string list \<Rightarrow> string" where
  "utils_CacheKey networkID parts = KeyFromParts (Itoa (uint networkID) # parts)"

text \<open>
  The contract of the cache, over the abstraction \<open>entry\<close> to one map from keys to items: the
  buckets are invisible. Clients (the response cache of the API) see values through \<open>get\<close>.
\<close>

locale ttl_store =
  fixes put :: "gotime \<Rightarrow> string \<Rightarrow> bytes \<Rightarrow> int \<Rightarrow> 'c \<Rightarrow> 'c"
    and get :: "gotime \<Rightarrow> string \<Rightarrow> 'c \<Rightarrow> bytes \<times> bool"
    and sweep :: "(nat \<Rightarrow> gotime) \<Rightarrow> (nat \<Rightarrow> string \<Rightarrow> gotime) \<Rightarrow> 'c \<Rightarrow> 'c"
    and entry :: "'c \<Rightarrow> string \<Rightarrow> item option"
    and invar :: "'c \<Rightarrow> bool"
  assumes invar_put: "invar c \<Longrightarrow> invar (put now k v ttl c)"
    and invar_sweep: "invar c \<Longrightarrow> invar (sweep ts ls c)"
    and entry_put_other: "invar c \<Longrightarrow> k' \<noteq> k \<Longrightarrow> entry (put now k v ttl c) k' = entry c k'"
    and entry_put_same: "invar c \<Longrightarrow> \<exists>it. entry (put now k v ttl c) k = Some it
        \<and> item_value it = (case entry c k of None \<Rightarrow> v | Some old \<Rightarrow> item_value old)
        \<and> item_expire it = now + ttl"
    and get_entry: "invar c \<Longrightarrow> get now k c =
        (case entry c k of
           Some it \<Rightarrow> if now \<le> item_expire it then (item_value it, True) else ([], False)
         | None \<Rightarrow> ([], False))"
    and entry_sweep: "invar c \<Longrightarrow> entry (sweep ts ls c) k = entry c k
        \<or> entry (sweep ts ls c) k = None \<and> (\<exists>it i. entry c k = Some it \<and> item_expire it < ls i k)"
begin

lemma get_put_fresh:
  assumes "invar c" "entry c k = None" "t \<le> now + ttl"
  shows "get t k (put now k v ttl c) = (v, True)"
  using entry_put_same [OF assms(1), of now k v ttl] assms(2,3)
  by (auto simp: get_entry assms(1) invar_put)

lemma get_put_expired:
  assumes "invar c" "now + ttl < t"
  shows "get t k (put now k v ttl c) = ([], False)"
  using entry_put_same [OF assms(1), of now k v ttl] assms(2)
  by (auto simp: get_entry assms(1) invar_put)

lemma get_put_other: "invar c \<Longrightarrow> k' \<noteq> k \<Longrightarrow> get t k' (put now k v ttl c) = get t k' c"
  by (simp add: get_entry invar_put entry_put_other)

lemma get_put_stale:
  assumes "invar c" "entry c k = Some old" "t \<le> now + ttl"
  shows "get t k (put now k v ttl c) = (item_value old, True)"
  using entry_put_same [OF assms(1), of now k v ttl] assms(2,3)
  by (auto simp: get_entry assms(1) invar_put)

lemma get_sweep:
  assumes "invar c" "\<And>i. ls i k \<le> t"
  shows "get t k (sweep ts ls c) = get t k c"
proof -
  consider "entry (sweep ts ls c) k = entry c k"
    | it i where "entry (sweep ts ls c) k = None" "entry c k = Some it" "item_expire it < ls i k"
    using entry_sweep [OF assms(1)] by blast
  then show ?thesis
  proof cases
    case 1
    then show ?thesis using assms(1) by (simp add: get_entry invar_sweep)
  next
    case (2 it i)
    then have "item_expire it < t" using assms(2) [of i] by linarith
    with 2 show ?thesis using assms(1) by (simp add: get_entry invar_sweep)
  qed
qed

end

definition LCache_entry :: "(string \<Rightarrow> u8) \<Rightarrow> LCache \<Rightarrow> string \<Rightarrow> item option" where
  "LCache_entry sum0 m k = (m ! unat (sum0 k)) k"

definition LCache_wf :: "LCache \<Rightarrow> bool" where
  "LCache_wf m \<longleftrightarrow> length m = 256"

lemma bucket_index [simp]: "LCache_wf m \<Longrightarrow> unat (b :: u8) < length m"
  using unsigned_less [of b] by (simp add: LCache_wf_def)

lemma NewTTLMap_wf [simp]: "LCache_wf NewTTLMap"
  by (simp add: LCache_wf_def NewTTLMap_def)

lemma LCache_wf_Put: "LCache_wf m \<Longrightarrow> LCache_wf (LCache_Put sum0 now k v ttl m)"
  by (simp add: LCache_wf_def LCache_Put_def Let_def)

lemma LCache_wf_expire: "LCache_wf m \<Longrightarrow> LCache_wf (LCache_expire now later m)"
  by (simp add: LCache_wf_def LCache_expire_def)

lemma LCache_entry_Put:
  assumes "LCache_wf m"
  shows "LCache_entry sum0 (LCache_Put sum0 now k v ttl m) k' =
    (if k' = k then
       Some (case LCache_entry sum0 m k of
               None \<Rightarrow> \<lparr>item_value = v, item_expire = now + ttl, item_last = now\<rparr>
             | Some it \<Rightarrow> it\<lparr>item_last := now, item_expire := now + ttl\<rparr>)
     else LCache_entry sum0 m k')"
  using assms bucket_index [OF assms]
  by (cases "unat (sum0 k') = unat (sum0 k)")
    (auto simp: LCache_entry_def LCache_Put_def Let_def split: option.splits)

lemma LCache_entry_expire:
  assumes "LCache_wf m"
  shows "LCache_entry sum0 (LCache_expire now later m) k =
    expire_bucket (now (unat (sum0 k))) (later (unat (sum0 k))) (m ! unat (sum0 k)) k"
  using bucket_index [OF assms, of "sum0 k"]
  by (simp add: LCache_entry_def LCache_expire_def nth_enumerate_eq)

interpretation lc: ttl_store "LCache_Put sum0" "LCache_Get sum0" LCache_expire
  "LCache_entry sum0" LCache_wf for sum0
proof unfold_locales
  fix c :: LCache and ts ls k
  assume wf: "LCache_wf c"
  show "LCache_entry sum0 (LCache_expire ts ls c) k = LCache_entry sum0 c k
      \<or> LCache_entry sum0 (LCache_expire ts ls c) k = None
        \<and> (\<exists>it i. LCache_entry sum0 c k = Some it \<and> item_expire it < ls i k)"
    unfolding LCache_entry_expire [OF wf] expire_bucket_def item_expired_def
    by (auto simp: LCache_entry_def split: option.splits)
next
  fix c :: LCache and now k
  show "LCache_Get sum0 now k c =
        (case LCache_entry sum0 c k of
           Some it \<Rightarrow> if now \<le> item_expire it then (item_value it, True) else ([], False)
         | None \<Rightarrow> ([], False))"
    by (auto simp: LCache_Get_def LCache_entry_def item_expired_def split: option.splits)
qed (auto simp: LCache_wf_Put LCache_wf_expire LCache_entry_Put split: option.splits)

section \<open>type_address_util.go\<close>

text \<open>\<open>hex.DecodeString\<close> (with \<open>None\<close> for its error) and \<open>hex.EncodeToString\<close>.\<close>

definition hexVal :: "char \<Rightarrow> nat option" where
  "hexVal c =
     (let n = of_char c :: nat in
      if 48 \<le> n \<and> n \<le> 57 then Some (n - 48)
      else if 97 \<le> n \<and> n \<le> 102 then Some (n - 87)
      else if 65 \<le> n \<and> n \<le> 70 then Some (n - 55) else None)"

fun hex_DecodeString :: "string \<Rightarrow> bytes option" where
  "hex_DecodeString [] = Some []"
| "hex_DecodeString [c] = None"
| "hex_DecodeString (c # d # s) =
     (case (hexVal c, hexVal d, hex_DecodeString s) of
        (Some a, Some b, Some bs) \<Rightarrow> Some (word_of_nat (16 * a + b) # bs)
      | _ \<Rightarrow> None)"

definition hexChar :: "nat \<Rightarrow> char" where
  "hexChar v = (if v < 10 then char_of (48 + v) else char_of (87 + v))"

fun hex_EncodeToString :: "bytes \<Rightarrow> string" where
  "hex_EncodeToString [] = []"
| "hex_EncodeToString (b # bs) = hexChar (unat b div 16) # hexChar (unat b mod 16) # hex_EncodeToString bs"

text \<open>The argument is \<open>address.Hex()\<close>, or \<open>None\<close> for a nil address.\<close>

definition CommonAddressHexRepair :: "string option \<Rightarrow> string" where
  "CommonAddressHexRepair address =
     (case address of None \<Rightarrow> []
      | Some hex \<Rightarrow>
          (let str = TrimPrefix hex ''0x'';
               str = (case hex_DecodeString str of Some hb \<Rightarrow> hex_EncodeToString hb | None \<Rightarrow> str)
           in if \<not> HasPrefix str ''0x'' then ''0x'' @ str else str))"

lemma hexVal_lower:
  assumes "hexVal c = Some v"
  shows "v < 16 \<and> hexChar v = lower_char c"
proof -
  define n where "n = (of_char c :: nat)"
  have c: "c = char_of n" by (simp add: n_def)
  show ?thesis
    using assms unfolding hexVal_def hexChar_def lower_char_def Let_def n_def [symmetric]
    by (auto simp: c split: if_splits)
qed

lemma unat_u8_of_nat: "n < 256 \<Longrightarrow> unat (word_of_nat n :: u8) = n"
  by (simp add: unsigned_of_nat take_bit_nat_eq_self)

lemma hex_Encode_Decode: "hex_DecodeString s = Some bs \<Longrightarrow> hex_EncodeToString bs = ToLower s"
proof (induction s arbitrary: bs rule: hex_DecodeString.induct)
  case (3 c d s)
  then obtain a b bs' where ab: "hexVal c = Some a" "hexVal d = Some b" "hex_DecodeString s = Some bs'"
    and bs: "bs = word_of_nat (16 * a + b) # bs'"
    by (auto split: option.splits)
  have "a < 16" "b < 16" using hexVal_lower ab by auto
  then have "unat (word_of_nat (16 * a + b) :: u8) = 16 * a + b"
    by (intro unat_u8_of_nat) simp
  then show ?case
    using "3.IH" [OF ab(3)] ab bs hexVal_lower [OF ab(1)] hexVal_lower [OF ab(2)]
    by (auto simp: ToLower_def)
qed (auto simp: ToLower_def)

lemma hex_Decode_no_0x: "hex_DecodeString s = Some bs \<Longrightarrow> \<not> HasPrefix (ToLower s) ''0x''"
proof (cases s rule: hex_DecodeString.cases)
  case (3 c d t)
  assume "hex_DecodeString s = Some bs"
  with 3 obtain b where "hexVal d = Some b" by (auto split: option.splits)
  then have "lower_char d \<noteq> CHR ''x''"
    using hexVal_lower [of d b] by (auto simp: hexChar_def char_of_eq_iff take_bit_nat_eq_self split: if_splits)
  then show ?thesis using 3 by (simp add: HasPrefix_def ToLower_def)
qed (auto simp: HasPrefix_def ToLower_def)

lemma hexVal_lower_char: "hexVal (lower_char c) = hexVal c"
proof -
  define n where "n = (of_char c :: nat)"
  have "65 \<le> n \<Longrightarrow> n \<le> 90 \<Longrightarrow> of_char (char_of (n + 32) :: char) = n + 32"
    by (simp add: of_char_of)
  then show ?thesis
    unfolding hexVal_def lower_char_def Let_def n_def [symmetric] by (auto simp: n_def [symmetric])
qed

lemma hex_Decode_ToLower: "hex_DecodeString (ToLower s) = hex_DecodeString s"
  by (induction s rule: hex_DecodeString.induct) (simp_all add: ToLower_def hexVal_lower_char)

lemma hex_Decode_lower: "ToLower h' = ToLower h \<Longrightarrow> hex_DecodeString h' = hex_DecodeString h"
  by (metis hex_Decode_ToLower)

lemma CommonAddressHexRepair_hex:
  assumes "hex_DecodeString h = Some bs"
  shows "CommonAddressHexRepair (Some (''0x'' @ h)) = ''0x'' @ ToLower h"
proof -
  have "TrimPrefix (''0x'' @ h) ''0x'' = h" by (rule TrimPrefix_append)
  then show ?thesis
    using assms hex_Encode_Decode [OF assms] hex_Decode_no_0x [OF assms]
    by (simp add: CommonAddressHexRepair_def)
qed

section \<open>Properties\<close>

text \<open>However the calls of \<open>CounterID.Add\<close> of any number of goroutines interleave at the
  boundary of their two critical sections, no addition is lost or counted twice: once all
  calls have returned, every counter is the sum (modulo \<open>2 ^ 64\<close>) of the amounts added to it.\<close>

theorem counter_no_lost_update:
  assumes "counter_step\<^sup>*\<^sup>* (counter_start ops) s"
    and "list_all (\<lambda>c. case c of Done v d \<Rightarrow> True | _ \<Rightarrow> False) (cs_calls s)"
  shows "counter_value (cs_counters s) k = sum_list (map snd (filter (\<lambda>(v, d). v = k) ops))"
proof -
  have inv: "counter_inv ops s" by (rule counter_inv_reachable [OF assms(1)])
  have "\<forall>c \<in> set (cs_calls s). \<exists>v d. c = Done v d"
    using assms(2) unfolding list_all_iff by (metis add_call.exhaust add_call.simps(10,11))
  then have "counter_value (cs_counters s) k = sum_list (map (\<lambda>(v, d). if v = k then d else 0) ops)"
    using inv done_amount_all [of "cs_calls s" k] by (simp add: counter_inv_def)
  also have "\<dots> = sum_list (map snd (filter (\<lambda>(v, d). v = k) ops))"
    by (induction ops) auto
  finally show ?thesis .
qed

lemma counter_race_run:
  "counter_step\<^sup>*\<^sup>* (counter_start [(''a'', 2), (''a'', 3)])
     \<lparr>cs_counters = [''a'' \<mapsto> 5], cs_calls = [Done ''a'' 2, Done ''a'' 3]\<rparr>"
proof -
  let ?s = "counter_start [(''a'', 2), (''a'', 3)]"
  let ?s1 = "?s\<lparr>cs_counters := Map.empty, cs_calls := (cs_calls ?s)[0 := AtWrite ''a'' 2]\<rparr>"
  let ?s2 = "?s1\<lparr>cs_counters := Map.empty, cs_calls := (cs_calls ?s1)[1 := AtWrite ''a'' 3]\<rparr>"
  let ?s3 = "?s2\<lparr>cs_counters := Add_write ''a'' 3 (cs_counters ?s2), cs_calls := (cs_calls ?s2)[1 := Done ''a'' 3]\<rparr>"
  let ?s4 = "?s3\<lparr>cs_counters := Add_write ''a'' 2 (cs_counters ?s3), cs_calls := (cs_calls ?s3)[0 := Done ''a'' 2]\<rparr>"
  note [simp] = counter_start_def NewCounterID_def Add_read_def Add_write_def
  have "counter_step ?s ?s1" by (rule read_missing [where v = "''a''" and d = 2]) simp_all
  moreover have "counter_step ?s1 ?s2" by (rule read_missing [where v = "''a''" and d = 3]) simp_all
  moreover have "counter_step ?s2 ?s3" by (rule write_add) simp_all
  moreover have "counter_step ?s3 ?s4" by (rule write_add) simp_all
  ultimately have "counter_step\<^sup>*\<^sup>* ?s ?s4" by (meson rtranclp.rtrancl_refl rtranclp.rtrancl_into_rtrancl)
  then show ?thesis by simp
qed

theorem counter_no_lost_update_witness:
  "counter_value [''a'' \<mapsto> 5] ''a'' = sum_list (map snd (filter (\<lambda>(v, d). v = ''a'') [(''a'', 2), (''a'', 3 :: 64 word)]))"
  using counter_no_lost_update [OF counter_race_run, of "''a''"] by simp

text \<open>After pushing keys that are all different, \<open>IndexedList.Exists\<close> answers yes for exactly
  the last \<open>max 1 maxSize\<close> of them: the set never grows beyond its bound and never forgets a
  key that is still in the window.\<close>

theorem IndexedList_keeps_last:
  assumes "distinct (map fst kvs)"
  shows "IndexedList_Exists (fold (\<lambda>(k, v) c. IndexedList_PushFront c k v) kvs (NewIndexedList maxSize)) k
    \<longleftrightarrow> k \<in> set (take (nat (max 1 maxSize)) (rev (map fst kvs)))"
  using il.exists_fold [of "NewIndexedList maxSize" kvs k] assms by simp

theorem IndexedList_keeps_last_witness:
  "IndexedList_Exists (fold (\<lambda>(k, v) c. IndexedList_PushFront c k v)
      [(1 :: nat, ''x''), (2, ''y''), (3, ''z'')] (NewIndexedList 2)) 3
   \<and> \<not> IndexedList_Exists (fold (\<lambda>(k, v) c. IndexedList_PushFront c k v)
      [(1 :: nat, ''x''), (2, ''y''), (3, ''z'')] (NewIndexedList 2)) 1"
  using IndexedList_keeps_last [of "[(1 :: nat, ''x''), (2, ''y''), (3, ''z'')]" 2 3]
    IndexedList_keeps_last [of "[(1 :: nat, ''x''), (2, ''y''), (3, ''z'')]" 2 1]
  by simp

text \<open>The response cache: a value stored under a new key is returned until its time to live
  has passed and not found afterwards, whatever other keys were stored in between and however
  often the expiry loop ran (with clock readings not later than the read).\<close>

theorem Cache_Get_Set:
  assumes "LCache_wf c" "LCache_entry sum0 c k = None" "k' \<noteq> k"
    and "\<And>i. later i k \<le> t"
  shows "Cache_Get sum0 t k (LCache_expire ts later
            (Cache_Set sum0 now' k' v' ttl' (Cache_Set sum0 now k v ttl c)))
       = (if t \<le> now + ttl then (v, None) else ([], Some CacheErrNotFound))"
proof -
  let ?c1 = "LCache_Put sum0 now k v ttl c" and ?c2 = "LCache_Put sum0 now' k' v' ttl' (LCache_Put sum0 now k v ttl c)"
  have wf: "LCache_wf ?c1" "LCache_wf ?c2" using assms(1) by (simp_all add: LCache_wf_Put)
  have "LCache_Get sum0 t k (LCache_expire ts later ?c2) = LCache_Get sum0 t k ?c1"
    using lc.get_sweep [of ?c2 later k t sum0 ts] lc.get_put_other [of ?c1 k k' sum0 t now' v' ttl'] wf assms(3,4)
    by (metis)
  moreover have "LCache_Get sum0 t k ?c1 = (if t \<le> now + ttl then (v, True) else ([], False))"
    using lc.get_put_fresh [OF assms(1,2), of t now ttl v] lc.get_put_expired [OF assms(1), of now ttl t sum0 k v]
    by auto
  ultimately show ?thesis by (simp add: Cache_Get_def Cache_Set_def)
qed

theorem Cache_Get_Set_witness:
  "Cache_Get (\<lambda>_. 0) 7 ''a'' (LCache_expire (\<lambda>_. 6) (\<lambda>_ _. 6)
     (Cache_Set (\<lambda>_. 0) 3 ''b'' [2] 1 (Cache_Set (\<lambda>_. 0) 2 ''a'' [1] 5 NewTTLMap))) = ([1], None)"
  using Cache_Get_Set [of NewTTLMap "\<lambda>_. 0" "''a''" "''b''" "\<lambda>_ _. 6" 7 "\<lambda>_. 6" 3 "[2]" 1 2 "[1]" 5]
  by (simp add: LCache_entry_def NewTTLMap_def LCache_wf_def)

text \<open>Storing under a key that is still in the cache never replaces the value: the old value
  is returned and only its expiry time is moved, even if the old item had expired already.\<close>

theorem Cache_Set_keeps_old_value:
  assumes "LCache_wf c" "LCache_entry sum0 c k = Some old" "t \<le> now + ttl"
  shows "Cache_Get sum0 t k (Cache_Set sum0 now k v ttl c) = (item_value old, None)"
  using lc.get_put_stale [OF assms, of v] by (simp add: Cache_Get_def Cache_Set_def)

theorem Cache_Set_keeps_old_value_witness:
  "Cache_Get (\<lambda>_. 0) 60 ''a'' (Cache_Set (\<lambda>_. 0) 50 ''a'' [2] 20 (Cache_Set (\<lambda>_. 0) 0 ''a'' [1] 10 NewTTLMap)) = ([1], None)"
  using Cache_Set_keeps_old_value [of "Cache_Set (\<lambda>_. 0) 0 ''a'' [1] 10 NewTTLMap" "\<lambda>_. 0" "''a''"
      "\<lparr>item_value = [1], item_expire = 10, item_last = 0\<rparr>" 60 50 20 "[2]"]
  by (simp add: Cache_Set_def LCache_Put_def LCache_entry_def NewTTLMap_def LCache_wf_def Let_def)

text \<open>A retry loop never sleeps before its \<open>retries\<close>th failure, and afterwards it always
  sleeps the same \<open>sleepDuration\<close>: there is no growing back-off and the maximum that
  \<open>NewRetrySleeper\<close> is given has no effect.\<close>

theorem RetrySleeper_constant_delay:
  assumes "0 < sleepDuration" "n < 2 ^ 64"
  shows "sleeps n (NewRetrySleeper retries sleepDuration sleepDurationMax)
       = replicate (min n (unat retries)) 0 @ replicate (n - unat retries) sleepDuration"
  using sleeps_from [of sleepDuration 0 n 0 retries sleepDurationMax] assms
  by (simp add: NewRetrySleeper_def)

theorem RetrySleeper_constant_delay_witness:
  "sleeps 4 (NewRetrySleeper 2 10 25) = [0, 0, 10, 10]"
  using RetrySleeper_constant_delay [of 10 4 2 25] by (simp add: replicate_2)

text \<open>An address that decodes as hexadecimal comes out as \<open>0x\<close> followed by the same digits in
  lower case, so two spellings of one address that differ in case are stored alike.\<close>

theorem CommonAddressHexRepair_canonical:
  assumes "hex_DecodeString h = Some bs" "ToLower h' = ToLower h"
  shows "CommonAddressHexRepair (Some (''0x'' @ h)) = ''0x'' @ ToLower h
    \<and> CommonAddressHexRepair (Some (''0x'' @ h')) = CommonAddressHexRepair (Some (''0x'' @ h))"
  using CommonAddressHexRepair_hex [OF assms(1)] assms
    CommonAddressHexRepair_hex [of h'] hex_Decode_lower [of h' h]
  by simp

theorem CommonAddressHexRepair_canonical_witness:
  "CommonAddressHexRepair (Some ''0xAb1f'') = ''0xab1f''
   \<and> CommonAddressHexRepair (Some ''0xaB1F'') = CommonAddressHexRepair (Some ''0xAb1f'')"
  using CommonAddressHexRepair_canonical [of "''Ab1f''" "[171, 31]" "''aB1F''"]
  by (simp add: hexVal_def ToLower_def lower_char_def char_of_eq_iff eq_commute [of "CHR ''a''"])

end
