(* ===== verification/Sql.thy ===== *)
theory Sql
  imports Utils
begin

text \<open>
  The database as the indexer uses it. The statements that \<open>dbmodel.go\<close> builds with the
  query builder are data (\<open>stmt\<close>, \<open>cond\<close>); their meaning on the tables is the meaning of the
  SQL statements \<open>INSERT\<close>, \<open>UPDATE\<close> and \<open>SELECT\<close> over the keys and column defaults
  that the migrations under \<open>src/services/db/migrations\<close> declare. The server and the driver
  are not part of the repository: a \<open>session\<close> is a parameter of every definition that talks
  to the database, and the locale \<open>sql_session\<close> states what the code relies on (a statement
  takes effect or fails without effect; a duplicate-entry error means a key conflict).
\<close>

section \<open>Values, rows and statements\<close>

text \<open>
  \<open>VRaw\<close> is a number that the code splices into the text of a statement; \<open>VBytes None\<close> is
  \<open>NULL\<close>. All integer columns hold \<open>VI\<close>, booleans as 0 and 1.
\<close>

datatype dbval = VS string | VI int | VBytes "bytes option" | VT gotime | VRaw string

type_synonym row = "string \<rightharpoonup> dbval"
type_synonym tables = "string \<Rightarrow> row list"
type_synonym pairs = "(string \<times> dbval) list"

datatype cond = Eq string dbval | Neq string dbval | In string "dbval list"

datatype stmt =
    InsertInto string pairs
  | UpdateSet string pairs "cond list"
  | UpdateAdd string "(string \<times> int) list" pairs "cond list"

text \<open>Column names are case-insensitive.\<close>

definition norm_pairs :: "pairs \<Rightarrow> pairs" where
  "norm_pairs ps = map (\<lambda>(c, v). (ToLower c, v)) ps"

fun holds :: "row \<Rightarrow> cond \<Rightarrow> bool" where
  "holds r (Eq c v) = (r c = Some v)"
| "holds r (Neq c v) = (r c \<noteq> None \<and> r c \<noteq> Some v)"
| "holds r (In c vs) = (case r c of Some v \<Rightarrow> v \<in> set vs | None \<Rightarrow> False)"

definition matches :: "cond list \<Rightarrow> row \<Rightarrow> bool" where
  "matches cs r = list_all (holds r) cs"

section \<open>Keys and defaults of the tables\<close>

text \<open>
  The primary keys and unique indexes of the tables, after all migrations. Every table not
  named here has the primary key \<open>id\<close>.
\<close>

definition unique_keys :: "string \<Rightarrow> string list list" where
  "unique_keys t =
     (if t = ''avm_outputs'' then [[''id''], [''transaction_id'', ''output_index'']]
      else if t = ''avm_output_addresses'' then [[''output_id'', ''address'']]
      else if t = ''addresses'' then [[''address'']]
      else if t = ''addresses_bech32'' then [[''address'']]
      else if t = ''address_chain'' then [[''address'', ''chain_id'']]
      else if t = ''cvm_blocks'' then [[''block'']]
      else if t = ''cvm_transactions_txdata'' then [[''hash'']]
      else if t = ''cvm_transactions_txdata_trace'' then [[''hash'', ''idx'']]
      else if t = ''transactions_rewards_owners_address'' then [[''id'', ''address'']]
      else if t = ''key_value_store'' then [[''k'']]
      else if t = ''node_index'' then [[''instance'', ''topic'']]
      else [[''id'']])"

text \<open>The defaults of the columns that some insert of \<open>dbmodel.go\<close> leaves out.\<close>

definition column_defaults :: "string \<Rightarrow> pairs" where
  "column_defaults t =
     (if t = ''output_addresses_accumulate_out'' then [(''processed'', VI 0)]
      else if t = ''output_addresses_accumulate_in'' then [(''processed'', VI 0), (''output_processed'', VI 0)]
      else if t = ''output_txs_accumulate'' then [(''processed'', VI 0)]
      else if t = ''accumulate_balances_received'' then [(''total_amount'', VI 0), (''utxo_count'', VI 0)]
      else if t = ''accumulate_balances_sent'' then [(''total_amount'', VI 0), (''utxo_count'', VI 0)]
      else if t = ''accumulate_balances_transactions'' then [(''transaction_count'', VI 0)]
      else if t = ''avm_output_addresses'' then [(''redeeming_signature'', VBytes None)]
      else [])"

definition new_row :: "string \<Rightarrow> pairs \<Rightarrow> row" where
  "new_row t ps = map_of (norm_pairs ps @ column_defaults t)"

definition agree_on :: "row \<Rightarrow> row \<Rightarrow> string list \<Rightarrow> bool" where
  "agree_on r r' k = list_all (\<lambda>c. r c \<noteq> None \<and> r c = r' c) k"

definition conflicts :: "string \<Rightarrow> row \<Rightarrow> row \<Rightarrow> bool" where
  "conflicts t r r' = list_ex (agree_on r r') (unique_keys t)"

definition keys_ok :: "string \<Rightarrow> row list \<Rightarrow> bool" where
  "keys_ok t rows = sorted_wrt (\<lambda>r r'. \<not> conflicts t r r') rows"

section \<open>The effect of a statement on the tables\<close>

text \<open>\<open>None\<close> is a violation of a unique key.\<close>

definition sql_insert :: "string \<Rightarrow> pairs \<Rightarrow> tables \<Rightarrow> tables option" where
  "sql_insert t ps T =
     (let r = new_row t ps
      in if list_ex (conflicts t r) (T t) then None else Some (T(t := T t @ [r])))"

definition add_cols :: "(string \<times> int) list \<Rightarrow> row \<Rightarrow> row" where
  "add_cols adds r =
     (\<lambda>c. case map_of adds c of
            None \<Rightarrow> r c
          | Some n \<Rightarrow> (case r c of Some (VI i) \<Rightarrow> Some (VI (i + n)) | x \<Rightarrow> x))"

definition sql_update :: "string \<Rightarrow> (row \<Rightarrow> row) \<Rightarrow> cond list \<Rightarrow> tables \<Rightarrow> tables option" where
  "sql_update t f cs T =
     (let rows = map (\<lambda>r. if matches cs r then f r else r) (T t)
      in if keys_ok t rows then Some (T(t := rows)) else None)"

fun sql_apply :: "stmt \<Rightarrow> tables \<Rightarrow> tables option" where
  "sql_apply (InsertInto t ps) T = sql_insert t ps T"
| "sql_apply (UpdateSet t ps cs) T = sql_update t (\<lambda>r. r ++ map_of (norm_pairs ps)) cs T"
| "sql_apply (UpdateAdd t adds ps cs) T =
     sql_update t (\<lambda>r. add_cols adds r ++ map_of (norm_pairs ps)) cs T"

definition sql_select :: "string \<Rightarrow> cond list \<Rightarrow> tables \<Rightarrow> row list" where
  "sql_select t cs T = filter (matches cs) (T t)"

definition tables_ok :: "tables \<Rightarrow> bool" where
  "tables_ok T \<longleftrightarrow> (\<forall>t. keys_ok t (T t))"

lemma agree_on_sym: "agree_on r r' k \<longleftrightarrow> agree_on r' r k"
  unfolding agree_on_def list_all_iff by metis

lemma conflicts_sym: "conflicts t r r' \<longleftrightarrow> conflicts t r' r"
  unfolding conflicts_def list_ex_iff using agree_on_sym by blast

lemma keys_ok_append:
  "keys_ok t (rows @ [r]) \<longleftrightarrow> keys_ok t rows \<and> \<not> list_ex (conflicts t r) rows"
  by (auto simp: keys_ok_def sorted_wrt_append list_ex_iff conflicts_sym)

lemma sql_insert_keys: "sql_insert t ps T = Some T' \<Longrightarrow> tables_ok T \<Longrightarrow> tables_ok T'"
  by (auto simp: sql_insert_def tables_ok_def keys_ok_append Let_def split: if_splits)

lemma sql_update_keys: "sql_update t f cs T = Some T' \<Longrightarrow> tables_ok T \<Longrightarrow> tables_ok T'"
  by (auto simp: sql_update_def tables_ok_def Let_def split: if_splits)

text \<open>Every statement keeps the keys of all tables unique.\<close>

lemma sql_apply_keys: "sql_apply s T = Some T' \<Longrightarrow> tables_ok T \<Longrightarrow> tables_ok T'"
  by (cases s) (auto dest: sql_insert_keys sql_update_keys)

section \<open>Sessions\<close>

text \<open>
  The state of the database: its tables, and the number of calls the session has made, so
  that a session may behave differently each time (deadlocks and lost connections come and
  go).
\<close>

record dbstate =
  tabs :: tables
  ticks :: nat

record session =
  sess_run :: "stmt \<Rightarrow> dbstate \<Rightarrow> go_error option \<times> dbstate"
  sess_load :: "string \<Rightarrow> cond list \<Rightarrow> dbstate \<Rightarrow> (go_error + row list) \<times> dbstate"
  sess_begin :: "dbstate \<Rightarrow> go_error option \<times> dbstate"
  sess_commit :: "dbstate \<Rightarrow> go_error option \<times> dbstate"

locale sql_session =
  fixes sess :: session
  assumes run_ok: "sess_run sess s d = (None, d') \<Longrightarrow> sql_apply s (tabs d) = Some (tabs d')"
    and run_err: "sess_run sess s d = (Some e, d') \<Longrightarrow> tabs d' = tabs d"
    and run_dup: "sess_run sess s d = (Some e, d') \<Longrightarrow> ErrIsDuplicateEntryError (Some e)
        \<Longrightarrow> sql_apply s (tabs d) = None"
    and load_ok: "sess_load sess t cs d = (Inr rs, d') \<Longrightarrow> rs = sql_select t cs (tabs d)"
    and load_tabs: "tabs (snd (sess_load sess t cs d)) = tabs d"
    and begin_tabs: "tabs (snd (sess_begin sess d)) = tabs d"
    and commit_tabs: "tabs (snd (sess_commit sess d)) = tabs d"

text \<open>A session on which nothing fails but key conflicts, and those are reported as such.\<close>

locale reliable_session = sql_session +
  assumes run_total: "sql_apply s (tabs d) = Some T \<Longrightarrow> fst (sess_run sess s d) = None"
    and dup_reported: "sql_apply s (tabs d) = None
        \<Longrightarrow> ErrIsDuplicateEntryError (fst (sess_run sess s d))"
    and load_total: "\<exists>rs. fst (sess_load sess t cs d) = Inr rs"
    and begin_total: "fst (sess_begin sess d) = None"
    and commit_total: "fst (sess_commit sess d) = None"

text \<open>
  A session over a schedule of faults: \<open>faults n s\<close> is the error with which the server
  answers statement \<open>s\<close> when it is the \<open>n\<close>th call, \<open>None\<close> when it executes it.
\<close>

definition dup_error :: "string \<Rightarrow> go_error" where
  "dup_error t = ErrorString (''Error 1062: Duplicate entry for '' @ t)"

fun stmt_table :: "stmt \<Rightarrow> string" where
  "stmt_table (InsertInto t _) = t"
| "stmt_table (UpdateSet t _ _) = t"
| "stmt_table (UpdateAdd t _ _ _) = t"

definition tick :: "dbstate \<Rightarrow> dbstate" where
  "tick d = d\<lparr>ticks := Suc (ticks d)\<rparr>"

definition mysql :: "(nat \<Rightarrow> stmt option \<Rightarrow> go_error option) \<Rightarrow> session" where
  "mysql faults = \<lparr>
     sess_run = (\<lambda>s d.
       case faults (ticks d) (Some s) of
         Some e \<Rightarrow> (Some e, tick d)
       | None \<Rightarrow> (case sql_apply s (tabs d) of
                   None \<Rightarrow> (Some (dup_error (stmt_table s)), tick d)
                 | Some T \<Rightarrow> (None, (tick d)\<lparr>tabs := T\<rparr>))),
     sess_load = (\<lambda>t cs d.
       case faults (ticks d) None of
         Some e \<Rightarrow> (Inl e, tick d)
       | None \<Rightarrow> (Inr (sql_select t cs (tabs d)), tick d)),
     sess_begin = (\<lambda>d. (faults (ticks d) None, tick d)),
     sess_commit = (\<lambda>d. (faults (ticks d) None, tick d))\<rparr>"

lemma tabs_tick [simp]: "tabs (tick d) = tabs d"
  by (simp add: tick_def)

lemma ErrIsDuplicateEntryError_dup [simp]: "ErrIsDuplicateEntryError (Some (dup_error t))"
  by (simp add: ErrIsDuplicateEntryError_def dup_error_def HasPrefix_def)

lemma mysql_session:
  assumes "\<And>n s e. faults n s = Some e \<Longrightarrow> \<not> ErrIsDuplicateEntryError (Some e)"
  shows "sql_session (mysql faults)"
  using assms by unfold_locales (auto simp: mysql_def split: option.splits)

text \<open>The session without faults.\<close>

abbreviation ideal :: session where
  "ideal \<equiv> mysql (\<lambda>_ _. None)"

interpretation ideal: reliable_session ideal
  by unfold_locales
    (auto simp: mysql_def dup_error_def ErrIsDuplicateEntryError_def HasPrefix_def split: option.splits)

section \<open>Executing statements, as the functions of dbmodel.go do\<close>

definition EventErr :: "string \<Rightarrow> bool \<Rightarrow> go_error \<Rightarrow> go_error" where
  "EventErr t upd err =
     ErrorString (Error err @ '' ('' @ t @ (if upd then '' upd'' else []) @ '')'')"

text \<open>
  \<open>_, err = stmt.ExecContext(ctx)\<close> followed by the test of \<open>err\<close>: where \<open>lenient\<close> is set a
  duplicate entry is ignored, any other error is tagged and returned.
\<close>

definition exec_stmt :: "session \<Rightarrow> bool \<Rightarrow> (go_error \<Rightarrow> go_error) \<Rightarrow> stmt \<Rightarrow> (dbstate, unit) go" where
  "exec_stmt sess lenient tag s = (\<lambda>d.
     case sess_run sess s d of
       (None, d') \<Rightarrow> (Inr (), d')
     | (Some e, d') \<Rightarrow>
         if lenient \<and> ErrIsDuplicateEntryError (Some e) then (Inr (), d') else (Inl (tag e), d'))"

text \<open>The three shapes of the functions in \<open>dbmodel.go\<close>: an insert ignores a duplicate
  entry, an update does not, the update of a status column does. \<open>et\<close> is the table name the
  error is tagged with.\<close>

definition exec_insert :: "session \<Rightarrow> string \<Rightarrow> string \<Rightarrow> pairs \<Rightarrow> (dbstate, unit) go" where
  "exec_insert sess t et ps = exec_stmt sess True (EventErr et False) (InsertInto t ps)"

definition exec_update :: "session \<Rightarrow> string \<Rightarrow> string \<Rightarrow> pairs \<Rightarrow> cond list \<Rightarrow> (dbstate, unit) go" where
  "exec_update sess t et ps cs = exec_stmt sess False (EventErr et True) (UpdateSet t ps cs)"

definition exec_update_status :: "session \<Rightarrow> string \<Rightarrow> string \<Rightarrow> pairs \<Rightarrow> cond list \<Rightarrow> (dbstate, unit) go" where
  "exec_update_status sess t et ps cs = exec_stmt sess True (EventErr et False) (UpdateSet t ps cs)"

text \<open>\<open>Select(...).From(t).Where(...).LoadOneContext(ctx, v)\<close>: \<open>v\<close> keeps its zero value when
  there is an error, and no row is an error.\<close>

definition load_one :: "session \<Rightarrow> string \<Rightarrow> cond list \<Rightarrow> 'v \<Rightarrow> (row \<Rightarrow> 'v) \<Rightarrow> dbstate
    \<Rightarrow> ('v \<times> go_error option) \<times> dbstate" where
  "load_one sess t cs zero dec d =
     (case sess_load sess t cs d of
        (Inl e, d') \<Rightarrow> ((zero, Some e), d')
      | (Inr [], d') \<Rightarrow> ((zero, Some DbrErrNotFound), d')
      | (Inr (r # _), d') \<Rightarrow> ((dec r, None), d'))"

text \<open>\<open>dbTx, err := sess.Begin(); defer dbTx.RollbackUnlessCommitted(); ...; dbTx.Commit()\<close>\<close>

definition with_tx :: "session \<Rightarrow> (dbstate, 'a) go \<Rightarrow> (dbstate, 'a) go" where
  "with_tx sess body = (\<lambda>d.
     case sess_begin sess d of
       (Some e, d1) \<Rightarrow> (Inl e, d1)
     | (None, d1) \<Rightarrow>
         (case body d1 of
            (Inl e, d2) \<Rightarrow> (Inl e, d2\<lparr>tabs := tabs d1\<rparr>)
          | (Inr a, d2) \<Rightarrow>
              (case sess_commit sess d2 of
                 (Some e, d3) \<Rightarrow> (Inl e, d3\<lparr>tabs := tabs d1\<rparr>)
               | (None, d3) \<Rightarrow> (Inr a, d3))))"

subsection \<open>What the executions do to the tables\<close>

text \<open>The deterministic effect of a statement, nothing on a key conflict.\<close>

definition stmt_effect :: "stmt \<Rightarrow> tables \<Rightarrow> tables" where
  "stmt_effect s T = (case sql_apply s T of Some T' \<Rightarrow> T' | None \<Rightarrow> T)"

definition ins_ignore :: "string \<Rightarrow> pairs \<Rightarrow> tables \<Rightarrow> tables" where
  "ins_ignore t ps = stmt_effect (InsertInto t ps)"

definition upd_effect :: "string \<Rightarrow> pairs \<Rightarrow> cond list \<Rightarrow> tables \<Rightarrow> tables" where
  "upd_effect t ps cs = stmt_effect (UpdateSet t ps cs)"

lemma EventErr_lock [simp]: "ErrIsLockError (Some e) \<Longrightarrow> ErrIsLockError (Some (EventErr t upd e))"
  by (auto simp: ErrIsLockError_def EventErr_def)

lemma EventErr_dup [simp]:
  "ErrIsDuplicateEntryError (Some e) \<Longrightarrow> ErrIsDuplicateEntryError (Some (EventErr t upd e))"
  by (simp add: ErrIsDuplicateEntryError_def EventErr_def)

context sql_session
begin

lemma exec_stmt_ok:
  assumes "exec_stmt sess l tag s d = (Inr u, d')"
  shows "tabs d' = stmt_effect s (tabs d)"
proof (cases "sess_run sess s d")
  case (Pair r d1)
  show ?thesis
  proof (cases r)
    case None
    with Pair assms run_ok [of s d d1] show ?thesis
      by (simp add: exec_stmt_def stmt_effect_def)
  next
    case (Some e)
    with Pair assms have "ErrIsDuplicateEntryError (Some e)" and "d1 = d'"
      by (auto simp: exec_stmt_def split: if_splits)
    with run_err [of s d e d1] run_dup [of s d e d1] Pair Some show ?thesis
      by (simp add: stmt_effect_def)
  qed
qed

lemma exec_stmt_fail:
  assumes "exec_stmt sess l tag s d = (Inl e, d')"
  shows "tabs d' = tabs d"
proof (cases "sess_run sess s d")
  case (Pair r d1)
  with assms obtain e' where "r = Some e'" "d1 = d'"
    by (cases r) (auto simp: exec_stmt_def split: if_splits)
  with Pair run_err [of s d e' d1] show ?thesis by simp
qed

lemma exec_oks:
  "exec_insert sess t et ps d = (Inr u, d') \<Longrightarrow> tabs d' = ins_ignore t ps (tabs d)"
  "exec_update sess t et ps cs d = (Inr u, d') \<Longrightarrow> tabs d' = upd_effect t ps cs (tabs d)"
  "exec_update_status sess t et ps cs d = (Inr u, d') \<Longrightarrow> tabs d' = upd_effect t ps cs (tabs d)"
  unfolding exec_insert_def exec_update_def exec_update_status_def ins_ignore_def upd_effect_def
  by (fact exec_stmt_ok)+

lemma exec_fails:
  "exec_insert sess t et ps d = (Inl e, d') \<Longrightarrow> tabs d' = tabs d"
  "exec_update sess t et ps cs d = (Inl e, d') \<Longrightarrow> tabs d' = tabs d"
  "exec_update_status sess t et ps cs d = (Inl e, d') \<Longrightarrow> tabs d' = tabs d"
  unfolding exec_insert_def exec_update_def exec_update_status_def
  by (fact exec_stmt_fail)+

text \<open>A transaction that fails leaves no trace; one that succeeds is its body.\<close>

lemma with_tx_rollback: "with_tx sess body d = (Inl e, d') \<Longrightarrow> tabs d' = tabs d"
  using begin_tabs [of d]
  by (auto simp: with_tx_def split: prod.splits option.splits sum.splits)

lemma with_tx_commit:
  assumes "with_tx sess body d = (Inr a, d')"
  obtains d1 d2 where "tabs d1 = tabs d" "body d1 = (Inr a, d2)" "tabs d' = tabs d2"
proof -
  from assms obtain d1 d2 where
    d1: "sess_begin sess d = (None, d1)" and d2: "body d1 = (Inr a, d2)"
    and d': "sess_commit sess d2 = (None, d')"
    by (auto simp: with_tx_def split: prod.splits option.splits sum.splits)
  have "tabs d1 = tabs d" using begin_tabs [of d] d1 by simp
  moreover have "tabs d' = tabs d2" using commit_tabs [of d2] d' by simp
  ultimately show ?thesis using that d2 by blast
qed

lemma load_one_cases:
  "load_one sess t cs z dec d = ((v, None), d')
    \<Longrightarrow> \<exists>r rs. sql_select t cs (tabs d) = r # rs \<and> v = dec r"
  by (auto simp: load_one_def split: prod.splits sum.splits list.splits dest!: load_ok [THEN sym])

lemma load_one_tabs: "tabs (snd (load_one sess t cs z dec d)) = tabs d"
  using load_tabs [of t cs d]
  by (auto simp: load_one_def split: prod.splits sum.splits list.splits)

end

subsection \<open>Rows after an insert\<close>

lemma ins_ignore_other [simp]: "t' \<noteq> t \<Longrightarrow> ins_ignore t ps T t' = T t'"
  by (simp add: ins_ignore_def stmt_effect_def sql_insert_def Let_def)

lemma ins_ignore_fresh:
  "\<not> list_ex (conflicts t (new_row t ps)) (T t) \<Longrightarrow> ins_ignore t ps T = T(t := T t @ [new_row t ps])"
  by (simp add: ins_ignore_def stmt_effect_def sql_insert_def)

lemma ins_ignore_present:
  "list_ex (conflicts t (new_row t ps)) (T t) \<Longrightarrow> ins_ignore t ps T = T"
  by (simp add: ins_ignore_def stmt_effect_def sql_insert_def)

text \<open>Rows are never removed or changed by an insert, and afterwards the key is taken.\<close>

lemma ins_ignore_prefix: "\<exists>new. ins_ignore t ps T t' = T t' @ new"
  by (cases "t' = t"; cases "list_ex (conflicts t (new_row t ps)) (T t)")
    (simp_all add: ins_ignore_fresh ins_ignore_present)

lemma ins_ignore_taken:
  assumes "\<exists>k \<in> set (unique_keys t). \<forall>c \<in> set k. new_row t ps c \<noteq> None"
  shows "list_ex (conflicts t (new_row t ps)) (ins_ignore t ps T t)"
proof (cases "list_ex (conflicts t (new_row t ps)) (T t)")
  case True
  then show ?thesis by (simp add: ins_ignore_present)
next
  case False
  have "conflicts t (new_row t ps) (new_row t ps)"
    using assms by (auto simp: conflicts_def agree_on_def list_ex_iff list_all_iff)
  with False show ?thesis by (simp add: ins_ignore_fresh)
qed

text \<open>Inserting the same row again changes nothing.\<close>

lemma ins_ignore_idem:
  assumes "\<exists>k \<in> set (unique_keys t). \<forall>c \<in> set k. new_row t ps c \<noteq> None"
  shows "ins_ignore t ps (ins_ignore t ps T) = ins_ignore t ps T"
  using ins_ignore_taken [OF assms, of T] by (rule ins_ignore_present)

lemma ins_ignore_keys: "tables_ok T \<Longrightarrow> tables_ok (ins_ignore t ps T)"
  by (auto simp: ins_ignore_def stmt_effect_def split: option.splits dest: sql_insert_keys)

lemma upd_effect_keys: "tables_ok T \<Longrightarrow> tables_ok (upd_effect t ps cs T)"
  by (auto simp: upd_effect_def stmt_effect_def split: option.splits dest: sql_update_keys)

end
