(* ===== verification/DbRows.thy ===== *)
theory DbRows
  imports Sql
begin

text \<open>
  The row types of \<open>src/db/dbmodel.go\<close>: one record per struct, fields prefixed with the name
  of the struct, and the zero value that a query fills. A \<open>[]byte\<close> field is an option, \<open>None\<close>
  for the nil slice, since nil is written as \<open>NULL\<close> and the code tests it. The names of the
  tables are abbreviations for their literals.
\<close>

text \<open>The zero \<open>time.Time\<close>: midnight of 1 January of the year 1.\<close>

definition zero_time :: gotime where
  "zero_time = -62135596800 * nanos_per_second"

abbreviation TableTransactions :: string where "TableTransactions \<equiv> ''avm_transactions''"
abbreviation TableOutputsRedeeming :: string where "TableOutputsRedeeming \<equiv> ''avm_outputs_redeeming''"
abbreviation TableOutputs :: string where "TableOutputs \<equiv> ''avm_outputs''"
abbreviation TableAssets :: string where "TableAssets \<equiv> ''avm_assets''"
abbreviation TableAddresses :: string where "TableAddresses \<equiv> ''addresses''"
abbreviation TableAddressChain :: string where "TableAddressChain \<equiv> ''address_chain''"
abbreviation TableOutputAddresses :: string where "TableOutputAddresses \<equiv> ''avm_output_addresses''"
abbreviation TableTransactionsEpochs :: string where "TableTransactionsEpochs \<equiv> ''transactions_epoch''"
abbreviation TableCvmAddresses :: string where "TableCvmAddresses \<equiv> ''cvm_addresses''"
abbreviation TableCvmBlocks :: string where "TableCvmBlocks \<equiv> ''cvm_blocks''"
abbreviation TableCvmTransactions :: string where "TableCvmTransactions \<equiv> ''cvm_transactions''"
abbreviation TableCvmTransactionsTxdata :: string where "TableCvmTransactionsTxdata \<equiv> ''cvm_transactions_txdata''"
abbreviation TablePvmBlocks :: string where "TablePvmBlocks \<equiv> ''pvm_blocks''"
abbreviation TableRewards :: string where "TableRewards \<equiv> ''rewards''"
abbreviation TableTransactionsValidator :: string where "TableTransactionsValidator \<equiv> ''transactions_validator''"
abbreviation TableTransactionsBlock :: string where "TableTransactionsBlock \<equiv> ''transactions_block''"
abbreviation TableAddressBech32 :: string where "TableAddressBech32 \<equiv> ''addresses_bech32''"
abbreviation TableOutputAddressAccumulateOut :: string where "TableOutputAddressAccumulateOut \<equiv> ''output_addresses_accumulate_out''"
abbreviation TableOutputAddressAccumulateIn :: string where "TableOutputAddressAccumulateIn \<equiv> ''output_addresses_accumulate_in''"
abbreviation TableOutputTxsAccumulate :: string where "TableOutputTxsAccumulate \<equiv> ''output_txs_accumulate''"
abbreviation TableAccumulateBalancesReceived :: string where "TableAccumulateBalancesReceived \<equiv> ''accumulate_balances_received''"
abbreviation TableAccumulateBalancesSent :: string where "TableAccumulateBalancesSent \<equiv> ''accumulate_balances_sent''"
abbreviation TableAccumulateBalancesTransactions :: string where "TableAccumulateBalancesTransactions \<equiv> ''accumulate_balances_transactions''"
abbreviation TableTransactionsRewardsOwners :: string where "TableTransactionsRewardsOwners \<equiv> ''transactions_rewards_owners''"
abbreviation TableTransactionsRewardsOwnersAddress :: string where "TableTransactionsRewardsOwnersAddress \<equiv> ''transactions_rewards_owners_address''"
abbreviation TableTransactionsRewardsOwnersOutputs :: string where "TableTransactionsRewardsOwnersOutputs \<equiv> ''transactions_rewards_owners_outputs''"
abbreviation TableTxPool :: string where "TableTxPool \<equiv> ''tx_pool''"
abbreviation TableKeyValueStore :: string where "TableKeyValueStore \<equiv> ''key_value_store''"
abbreviation TableCvmTransactionsTxdataTrace :: string where "TableCvmTransactionsTxdataTrace \<equiv> ''cvm_transactions_txdata_trace''"
abbreviation TableNodeIndex :: string where "TableNodeIndex \<equiv> ''node_index''"
abbreviation TableCvmLogs :: string where "TableCvmLogs \<equiv> ''cvm_logs''"
abbreviation TablePvmProposer :: string where "TablePvmProposer \<equiv> ''pvm_proposer''"

record Transactions =
  Transactions_ID :: string
  Transactions_ChainID :: string
  Transactions_Type :: string
  Transactions_Memo :: "bytes option"
  Transactions_CanonicalSerialization :: "bytes option"
  Transactions_Txfee :: u64
  Transactions_NetworkID :: u32
  Transactions_Genesis :: bool
  Transactions_CreatedAt :: gotime

definition zero_Transactions :: Transactions where
  "zero_Transactions = \<lparr>Transactions_ID = [],
     Transactions_ChainID = [],
     Transactions_Type = [],
     Transactions_Memo = None,
     Transactions_CanonicalSerialization = None,
     Transactions_Txfee = 0,
     Transactions_NetworkID = 0,
     Transactions_Genesis = False,
     Transactions_CreatedAt = zero_time\<rparr>"

record OutputsRedeeming =
  OutputsRedeeming_ID :: string
  OutputsRedeeming_RedeemedAt :: gotime
  OutputsRedeeming_RedeemingTransactionID :: string
  OutputsRedeeming_Amount :: u64
  OutputsRedeeming_OutputIndex :: u32
  OutputsRedeeming_Intx :: string
  OutputsRedeeming_AssetID :: string
  OutputsRedeeming_ChainID :: string
  OutputsRedeeming_CreatedAt :: gotime

definition zero_OutputsRedeeming :: OutputsRedeeming where
  "zero_OutputsRedeeming = \<lparr>OutputsRedeeming_ID = [],
     OutputsRedeeming_RedeemedAt = zero_time,
     OutputsRedeeming_RedeemingTransactionID = [],
     OutputsRedeeming_Amount = 0,
     OutputsRedeeming_OutputIndex = 0,
     OutputsRedeeming_Intx = [],
     OutputsRedeeming_AssetID = [],
     OutputsRedeeming_ChainID = [],
     OutputsRedeeming_CreatedAt = zero_time\<rparr>"

record Outputs =
  Outputs_ID :: string
  Outputs_ChainID :: string
  Outputs_TransactionID :: string
  Outputs_OutputIndex :: u32
  Outputs_OutputType :: u32
  Outputs_AssetID :: string
  Outputs_Amount :: u64
  Outputs_Locktime :: u64
  Outputs_Threshold :: u32
  Outputs_GroupID :: u32
  Outputs_Payload :: "bytes option"
  Outputs_StakeLocktime :: u64
  Outputs_Stake :: bool
  Outputs_Frozen :: bool
  Outputs_Stakeableout :: bool
  Outputs_Genesisutxo :: bool
  Outputs_CreatedAt :: gotime

definition zero_Outputs :: Outputs where
  "zero_Outputs = \<lparr>Outputs_ID = [],
     Outputs_ChainID = [],
     Outputs_TransactionID = [],
     Outputs_OutputIndex = 0,
     Outputs_OutputType = 0,
     Outputs_AssetID = [],
     Outputs_Amount = 0,
     Outputs_Locktime = 0,
     Outputs_Threshold = 0,
     Outputs_GroupID = 0,
     Outputs_Payload = None,
     Outputs_StakeLocktime = 0,
     Outputs_Stake = False,
     Outputs_Frozen = False,
     Outputs_Stakeableout = False,
     Outputs_Genesisutxo = False,
     Outputs_CreatedAt = zero_time\<rparr>"

record Assets =
  Assets_ID :: string
  Assets_ChainID :: string
  Assets_Name :: string
  Assets_Symbol :: string
  Assets_Denomination :: u8
  Assets_Alias :: string
  Assets_CurrentSupply :: u64
  Assets_CreatedAt :: gotime

definition zero_Assets :: Assets where
  "zero_Assets = \<lparr>Assets_ID = [],
     Assets_ChainID = [],
     Assets_Name = [],
     Assets_Symbol = [],
     Assets_Denomination = 0,
     Assets_Alias = [],
     Assets_CurrentSupply = 0,
     Assets_CreatedAt = zero_time\<rparr>"

record Addresses =
  Addresses_Address :: string
  Addresses_PublicKey :: "bytes option"
  Addresses_CreatedAt :: gotime
  Addresses_UpdatedAt :: gotime

definition zero_Addresses :: Addresses where
  "zero_Addresses = \<lparr>Addresses_Address = [],
     Addresses_PublicKey = None,
     Addresses_CreatedAt = zero_time,
     Addresses_UpdatedAt = zero_time\<rparr>"

record AddressChain =
  AddressChain_Address :: string
  AddressChain_ChainID :: string
  AddressChain_CreatedAt :: gotime
  AddressChain_UpdatedAt :: gotime

definition zero_AddressChain :: AddressChain where
  "zero_AddressChain = \<lparr>AddressChain_Address = [],
     AddressChain_ChainID = [],
     AddressChain_CreatedAt = zero_time,
     AddressChain_UpdatedAt = zero_time\<rparr>"

record OutputAddresses =
  OutputAddresses_OutputID :: string
  OutputAddresses_Address :: string
  OutputAddresses_RedeemingSignature :: "bytes option"
  OutputAddresses_CreatedAt :: gotime
  OutputAddresses_UpdatedAt :: gotime

definition zero_OutputAddresses :: OutputAddresses where
  "zero_OutputAddresses = \<lparr>OutputAddresses_OutputID = [],
     OutputAddresses_Address = [],
     OutputAddresses_RedeemingSignature = None,
     OutputAddresses_CreatedAt = zero_time,
     OutputAddresses_UpdatedAt = zero_time\<rparr>"

record TransactionsEpoch =
  TransactionsEpoch_ID :: string
  TransactionsEpoch_Epoch :: u32
  TransactionsEpoch_VertexID :: string
  TransactionsEpoch_CreatedAt :: gotime

definition zero_TransactionsEpoch :: TransactionsEpoch where
  "zero_TransactionsEpoch = \<lparr>TransactionsEpoch_ID = [],
     TransactionsEpoch_Epoch = 0,
     TransactionsEpoch_VertexID = [],
     TransactionsEpoch_CreatedAt = zero_time\<rparr>"

record CvmBlocks =
  CvmBlocks_Block :: string
  CvmBlocks_CreatedAt :: gotime

definition zero_CvmBlocks :: CvmBlocks where
  "zero_CvmBlocks = \<lparr>CvmBlocks_Block = [],
     CvmBlocks_CreatedAt = zero_time\<rparr>"

record CvmAddresses =
  CvmAddresses_ID :: string
  CvmAddresses_Type :: u16
  CvmAddresses_Idx :: u64
  CvmAddresses_TransactionID :: string
  CvmAddresses_Address :: string
  CvmAddresses_AssetID :: string
  CvmAddresses_Amount :: u64
  CvmAddresses_Nonce :: u64
  CvmAddresses_CreatedAt :: gotime

definition zero_CvmAddresses :: CvmAddresses where
  "zero_CvmAddresses = \<lparr>CvmAddresses_ID = [],
     CvmAddresses_Type = 0,
     CvmAddresses_Idx = 0,
     CvmAddresses_TransactionID = [],
     CvmAddresses_Address = [],
     CvmAddresses_AssetID = [],
     CvmAddresses_Amount = 0,
     CvmAddresses_Nonce = 0,
     CvmAddresses_CreatedAt = zero_time\<rparr>"

record CvmTransactions =
  CvmTransactions_ID :: string
  CvmTransactions_TransactionID :: string
  CvmTransactions_Type :: u16
  CvmTransactions_BlockchainID :: string
  CvmTransactions_Block :: string
  CvmTransactions_CreatedAt :: gotime
  CvmTransactions_Serialization :: "bytes option"
  CvmTransactions_TxTime :: gotime
  CvmTransactions_Nonce :: u64
  CvmTransactions_Hash :: string
  CvmTransactions_ParentHash :: string

definition zero_CvmTransactions :: CvmTransactions where
  "zero_CvmTransactions = \<lparr>CvmTransactions_ID = [],
     CvmTransactions_TransactionID = [],
     CvmTransactions_Type = 0,
     CvmTransactions_BlockchainID = [],
     CvmTransactions_Block = [],
     CvmTransactions_CreatedAt = zero_time,
     CvmTransactions_Serialization = None,
     CvmTransactions_TxTime = zero_time,
     CvmTransactions_Nonce = 0,
     CvmTransactions_Hash = [],
     CvmTransactions_ParentHash = []\<rparr>"

record CvmTransactionsTxdata =
  CvmTransactionsTxdata_Hash :: string
  CvmTransactionsTxdata_Block :: string
  CvmTransactionsTxdata_Idx :: u64
  CvmTransactionsTxdata_Rcpt :: string
  CvmTransactionsTxdata_Nonce :: u64
  CvmTransactionsTxdata_Serialization :: "bytes option"
  CvmTransactionsTxdata_CreatedAt :: gotime

definition zero_CvmTransactionsTxdata :: CvmTransactionsTxdata where
  "zero_CvmTransactionsTxdata = \<lparr>CvmTransactionsTxdata_Hash = [],
     CvmTransactionsTxdata_Block = [],
     CvmTransactionsTxdata_Idx = 0,
     CvmTransactionsTxdata_Rcpt = [],
     CvmTransactionsTxdata_Nonce = 0,
     CvmTransactionsTxdata_Serialization = None,
     CvmTransactionsTxdata_CreatedAt = zero_time\<rparr>"

record PvmBlocks =
  PvmBlocks_ID :: string
  PvmBlocks_ChainID :: string
  PvmBlocks_Type :: u16
  PvmBlocks_ParentID :: string
  PvmBlocks_Serialization :: "bytes option"
  PvmBlocks_CreatedAt :: gotime
  PvmBlocks_Height :: u64

definition zero_PvmBlocks :: PvmBlocks where
  "zero_PvmBlocks = \<lparr>PvmBlocks_ID = [],
     PvmBlocks_ChainID = [],
     PvmBlocks_Type = 0,
     PvmBlocks_ParentID = [],
     PvmBlocks_Serialization = None,
     PvmBlocks_CreatedAt = zero_time,
     PvmBlocks_Height = 0\<rparr>"

record Rewards =
  Rewards_ID :: string
  Rewards_BlockID :: string
  Rewards_Txid :: string
  Rewards_Shouldprefercommit :: bool
  Rewards_CreatedAt :: gotime
  Rewards_Processed :: int

definition zero_Rewards :: Rewards where
  "zero_Rewards = \<lparr>Rewards_ID = [],
     Rewards_BlockID = [],
     Rewards_Txid = [],
     Rewards_Shouldprefercommit = False,
     Rewards_CreatedAt = zero_time,
     Rewards_Processed = 0\<rparr>"

record TransactionsValidator =
  TransactionsValidator_ID :: string
  TransactionsValidator_NodeID :: string
  TransactionsValidator_Start :: u64
  TransactionsValidator_End :: u64
  TransactionsValidator_CreatedAt :: gotime

definition zero_TransactionsValidator :: TransactionsValidator where
  "zero_TransactionsValidator = \<lparr>TransactionsValidator_ID = [],
     TransactionsValidator_NodeID = [],
     TransactionsValidator_Start = 0,
     TransactionsValidator_End = 0,
     TransactionsValidator_CreatedAt = zero_time\<rparr>"

record TransactionsBlock =
  TransactionsBlock_ID :: string
  TransactionsBlock_TxBlockID :: string
  TransactionsBlock_CreatedAt :: gotime

definition zero_TransactionsBlock :: TransactionsBlock where
  "zero_TransactionsBlock = \<lparr>TransactionsBlock_ID = [],
     TransactionsBlock_TxBlockID = [],
     TransactionsBlock_CreatedAt = zero_time\<rparr>"

record AddressBech32 =
  AddressBech32_Address :: string
  AddressBech32_Bech32Address :: string
  AddressBech32_UpdatedAt :: gotime

definition zero_AddressBech32 :: AddressBech32 where
  "zero_AddressBech32 = \<lparr>AddressBech32_Address = [],
     AddressBech32_Bech32Address = [],
     AddressBech32_UpdatedAt = zero_time\<rparr>"

record OutputAddressAccumulate =
  OutputAddressAccumulate_ID :: string
  OutputAddressAccumulate_OutputID :: string
  OutputAddressAccumulate_Address :: string
  OutputAddressAccumulate_Processed :: int
  OutputAddressAccumulate_OutputProcessed :: int
  OutputAddressAccumulate_TransactionID :: string
  OutputAddressAccumulate_OutputIndex :: u32
  OutputAddressAccumulate_CreatedAt :: gotime

definition zero_OutputAddressAccumulate :: OutputAddressAccumulate where
  "zero_OutputAddressAccumulate = \<lparr>OutputAddressAccumulate_ID = [],
     OutputAddressAccumulate_OutputID = [],
     OutputAddressAccumulate_Address = [],
     OutputAddressAccumulate_Processed = 0,
     OutputAddressAccumulate_OutputProcessed = 0,
     OutputAddressAccumulate_TransactionID = [],
     OutputAddressAccumulate_OutputIndex = 0,
     OutputAddressAccumulate_CreatedAt = zero_time\<rparr>"

record OutputTxsAccumulate =
  OutputTxsAccumulate_ID :: string
  OutputTxsAccumulate_ChainID :: string
  OutputTxsAccumulate_AssetID :: string
  OutputTxsAccumulate_Address :: string
  OutputTxsAccumulate_TransactionID :: string
  OutputTxsAccumulate_Processed :: int
  OutputTxsAccumulate_CreatedAt :: gotime

definition zero_OutputTxsAccumulate :: OutputTxsAccumulate where
  "zero_OutputTxsAccumulate = \<lparr>OutputTxsAccumulate_ID = [],
     OutputTxsAccumulate_ChainID = [],
     OutputTxsAccumulate_AssetID = [],
     OutputTxsAccumulate_Address = [],
     OutputTxsAccumulate_TransactionID = [],
     OutputTxsAccumulate_Processed = 0,
     OutputTxsAccumulate_CreatedAt = zero_time\<rparr>"

record AccumulateBalancesAmount =
  AccumulateBalancesAmount_ID :: string
  AccumulateBalancesAmount_ChainID :: string
  AccumulateBalancesAmount_AssetID :: string
  AccumulateBalancesAmount_Address :: string
  AccumulateBalancesAmount_TotalAmount :: string
  AccumulateBalancesAmount_UtxoCount :: string
  AccumulateBalancesAmount_UpdatedAt :: gotime

definition zero_AccumulateBalancesAmount :: AccumulateBalancesAmount where
  "zero_AccumulateBalancesAmount = \<lparr>AccumulateBalancesAmount_ID = [],
     AccumulateBalancesAmount_ChainID = [],
     AccumulateBalancesAmount_AssetID = [],
     AccumulateBalancesAmount_Address = [],
     AccumulateBalancesAmount_TotalAmount = [],
     AccumulateBalancesAmount_UtxoCount = [],
     AccumulateBalancesAmount_UpdatedAt = zero_time\<rparr>"

record AccumulateBalancesTransactions =
  AccumulateBalancesTransactions_ID :: string
  AccumulateBalancesTransactions_ChainID :: string
  AccumulateBalancesTransactions_AssetID :: string
  AccumulateBalancesTransactions_Address :: string
  AccumulateBalancesTransactions_TransactionCount :: string
  AccumulateBalancesTransactions_UpdatedAt :: gotime

definition zero_AccumulateBalancesTransactions :: AccumulateBalancesTransactions where
  "zero_AccumulateBalancesTransactions = \<lparr>AccumulateBalancesTransactions_ID = [],
     AccumulateBalancesTransactions_ChainID = [],
     AccumulateBalancesTransactions_AssetID = [],
     AccumulateBalancesTransactions_Address = [],
     AccumulateBalancesTransactions_TransactionCount = [],
     AccumulateBalancesTransactions_UpdatedAt = zero_time\<rparr>"

record TransactionsRewardsOwnersAddress =
  TransactionsRewardsOwnersAddress_ID :: string
  TransactionsRewardsOwnersAddress_Address :: string
  TransactionsRewardsOwnersAddress_OutputIndex :: u32
  TransactionsRewardsOwnersAddress_UpdatedAt :: gotime

definition zero_TransactionsRewardsOwnersAddress :: TransactionsRewardsOwnersAddress where
  "zero_TransactionsRewardsOwnersAddress = \<lparr>TransactionsRewardsOwnersAddress_ID = [],
     TransactionsRewardsOwnersAddress_Address = [],
     TransactionsRewardsOwnersAddress_OutputIndex = 0,
     TransactionsRewardsOwnersAddress_UpdatedAt = zero_time\<rparr>"

record TransactionsRewardsOwnersOutputs =
  TransactionsRewardsOwnersOutputs_ID :: string
  TransactionsRewardsOwnersOutputs_TransactionID :: string
  TransactionsRewardsOwnersOutputs_OutputIndex :: u32
  TransactionsRewardsOwnersOutputs_CreatedAt :: gotime

definition zero_TransactionsRewardsOwnersOutputs :: TransactionsRewardsOwnersOutputs where
  "zero_TransactionsRewardsOwnersOutputs = \<lparr>TransactionsRewardsOwnersOutputs_ID = [],
     TransactionsRewardsOwnersOutputs_TransactionID = [],
     TransactionsRewardsOwnersOutputs_OutputIndex = 0,
     TransactionsRewardsOwnersOutputs_CreatedAt = zero_time\<rparr>"

record TransactionsRewardsOwners =
  TransactionsRewardsOwners_ID :: string
  TransactionsRewardsOwners_ChainID :: string
  TransactionsRewardsOwners_Threshold :: u32
  TransactionsRewardsOwners_Locktime :: u64
  TransactionsRewardsOwners_CreatedAt :: gotime

definition zero_TransactionsRewardsOwners :: TransactionsRewardsOwners where
  "zero_TransactionsRewardsOwners = \<lparr>TransactionsRewardsOwners_ID = [],
     TransactionsRewardsOwners_ChainID = [],
     TransactionsRewardsOwners_Threshold = 0,
     TransactionsRewardsOwners_Locktime = 0,
     TransactionsRewardsOwners_CreatedAt = zero_time\<rparr>"

record TxPool =
  TxPool_ID :: string
  TxPool_NetworkID :: u32
  TxPool_ChainID :: string
  TxPool_MsgKey :: string
  TxPool_Serialization :: "bytes option"
  TxPool_Processed :: int
  TxPool_Topic :: string
  TxPool_CreatedAt :: gotime

definition zero_TxPool :: TxPool where
  "zero_TxPool = \<lparr>TxPool_ID = [],
     TxPool_NetworkID = 0,
     TxPool_ChainID = [],
     TxPool_MsgKey = [],
     TxPool_Serialization = None,
     TxPool_Processed = 0,
     TxPool_Topic = [],
     TxPool_CreatedAt = zero_time\<rparr>"

record KeyValueStore =
  KeyValueStore_K :: string
  KeyValueStore_V :: string

definition zero_KeyValueStore :: KeyValueStore where
  "zero_KeyValueStore = \<lparr>KeyValueStore_K = [],
     KeyValueStore_V = []\<rparr>"

record CvmTransactionsTxdataTrace =
  CvmTransactionsTxdataTrace_Hash :: string
  CvmTransactionsTxdataTrace_Idx :: u32
  CvmTransactionsTxdataTrace_ToAddr :: string
  CvmTransactionsTxdataTrace_FromAddr :: string
  CvmTransactionsTxdataTrace_CallType :: string
  CvmTransactionsTxdataTrace_Type :: string
  CvmTransactionsTxdataTrace_Serialization :: "bytes option"
  CvmTransactionsTxdataTrace_CreatedAt :: gotime

definition zero_CvmTransactionsTxdataTrace :: CvmTransactionsTxdataTrace where
  "zero_CvmTransactionsTxdataTrace = \<lparr>CvmTransactionsTxdataTrace_Hash = [],
     CvmTransactionsTxdataTrace_Idx = 0,
     CvmTransactionsTxdataTrace_ToAddr = [],
     CvmTransactionsTxdataTrace_FromAddr = [],
     CvmTransactionsTxdataTrace_CallType = [],
     CvmTransactionsTxdataTrace_Type = [],
     CvmTransactionsTxdataTrace_Serialization = None,
     CvmTransactionsTxdataTrace_CreatedAt = zero_time\<rparr>"

record NodeIndex =
  NodeIndex_Instance :: string
  NodeIndex_Topic :: string
  NodeIndex_Idx :: u64

definition zero_NodeIndex :: NodeIndex where
  "zero_NodeIndex = \<lparr>NodeIndex_Instance = [],
     NodeIndex_Topic = [],
     NodeIndex_Idx = 0\<rparr>"

record CvmLogs =
  CvmLogs_ID :: string
  CvmLogs_BlockHash :: string
  CvmLogs_TxHash :: string
  CvmLogs_LogIndex :: u64
  CvmLogs_FirstTopic :: string
  CvmLogs_Block :: string
  CvmLogs_Removed :: bool
  CvmLogs_CreatedAt :: gotime
  CvmLogs_Serialization :: "bytes option"

definition zero_CvmLogs :: CvmLogs where
  "zero_CvmLogs = \<lparr>CvmLogs_ID = [],
     CvmLogs_BlockHash = [],
     CvmLogs_TxHash = [],
     CvmLogs_LogIndex = 0,
     CvmLogs_FirstTopic = [],
     CvmLogs_Block = [],
     CvmLogs_Removed = False,
     CvmLogs_CreatedAt = zero_time,
     CvmLogs_Serialization = None\<rparr>"

record PvmProposer =
  PvmProposer_ID :: string
  PvmProposer_ParentID :: string
  PvmProposer_BlkID :: string
  PvmProposer_ProposerBlkID :: string
  PvmProposer_CoreChainHeight :: u64
  PvmProposer_Proposer :: string
  PvmProposer_TimeStamp :: gotime
  PvmProposer_CreatedAt :: gotime

definition zero_PvmProposer :: PvmProposer where
  "zero_PvmProposer = \<lparr>PvmProposer_ID = [],
     PvmProposer_ParentID = [],
     PvmProposer_BlkID = [],
     PvmProposer_ProposerBlkID = [],
     PvmProposer_CoreChainHeight = 0,
     PvmProposer_Proposer = [],
     PvmProposer_TimeStamp = zero_time,
     PvmProposer_CreatedAt = zero_time\<rparr>"

end
