(* ===== verification/Ext.thy ===== *)
theory Ext
  imports Prelude
begin

text \<open>
  What the indexer calls of the chain's own libraries (hashing, identifiers, address
  formatting, signature recovery, checked addition). These packages are not part of the
  repository, so they are the fields of a record that the definitions take as an argument;
  the predicates below name the documented behaviour that some theorems rely on.
\<close>

type_synonym ID = bytes
type_synonym ShortID = bytes

record PublicKey =
  PublicKey_Address :: ShortID
  PublicKey_Bytes :: bytes

record extlib =
  ComputeHash256 :: "bytes \<Rightarrow> bytes"
  ToID :: "bytes \<Rightarrow> go_error + ID"
  ID_String :: "ID \<Rightarrow> string"
  ID_Prefix :: "ID \<Rightarrow> u64 \<Rightarrow> ID"
  ShortID_String :: "ShortID \<Rightarrow> string"
  FormatBech32 :: "string \<Rightarrow> bytes \<Rightarrow> go_error + string"
  RecoverPublicKey :: "bytes \<Rightarrow> bytes \<Rightarrow> go_error + PublicKey"
  Add64 :: "u64 \<Rightarrow> u64 \<Rightarrow> go_error + u64"
  Propagate :: "go_error \<Rightarrow> string \<Rightarrow> go_error"
  Errs_Add :: "go_error option \<Rightarrow> go_error option \<Rightarrow> go_error option"

text \<open>\<open>math.Add64\<close> returns the sum, or an error when it does not fit.\<close>

definition Add64_checked :: "extlib \<Rightarrow> bool" where
  "Add64_checked lib \<longleftrightarrow> (\<forall>a b.
     (unat a + unat b < 2 ^ 64 \<longrightarrow> Add64 lib a b = Inr (a + b))
   \<and> (2 ^ 64 \<le> unat a + unat b \<longrightarrow> (\<exists>e. Add64 lib a b = Inl e)))"

text \<open>\<open>wrappers.Errs\<close> keeps the first error that is added.\<close>

definition Errs_keep_first :: "extlib \<Rightarrow> bool" where
  "Errs_keep_first lib \<longleftrightarrow> (\<forall>a b. Errs_Add lib a b = (case a of None \<Rightarrow> b | Some e \<Rightarrow> Some e))"

text \<open>The hash of a byte string is a 32-byte string, which is what \<open>ids.ToID\<close> accepts; no
  two of the texts in \<open>S\<close> collide, and distinct identifiers are written differently.\<close>

definition hash_ids :: "extlib \<Rightarrow> string set \<Rightarrow> bool" where
  "hash_ids lib S \<longleftrightarrow>
     (\<forall>s. \<exists>i. ToID lib (ComputeHash256 lib (bytes_of_string s)) = Inr i)
   \<and> inj_on (\<lambda>s. map_sum id (ID_String lib) (ToID lib (ComputeHash256 lib (bytes_of_string s)))) S"

lemma Add64_Inr:
  assumes "Add64_checked lib" "Add64 lib a b = Inr c"
  shows "unat c = unat a + unat b" "c = a + b"
proof -
  from assms have lt: "unat a + unat b < 2 ^ 64"
    unfolding Add64_checked_def by (metis Inl_Inr_False linorder_not_less)
  with assms show "c = a + b" unfolding Add64_checked_def by (metis sum.inject(2))
  with lt show "unat c = unat a + unat b" by (simp add: unat_word_ariths)
qed

text \<open>An instance on which the theorems below are tried: addition is checked, identifiers are
  written out byte by byte, and nothing else fails.\<close>

definition sample_lib :: extlib where
  "sample_lib = \<lparr>
     ComputeHash256 = (\<lambda>b. b),
     ToID = Inr,
     ID_String = map (\<lambda>x. char_of (unat x)),
     ID_Prefix = (\<lambda>i n. i @ [58, ucast n]),
     ShortID_String = map (\<lambda>x. char_of (unat x)),
     FormatBech32 = (\<lambda>hrp b. Inr (hrp @ ''1'' @ map (\<lambda>x. char_of (unat x)) b)),
     RecoverPublicKey = (\<lambda>msg sig. Inr \<lparr>PublicKey_Address = take 20 sig, PublicKey_Bytes = sig\<rparr>),
     Add64 = (\<lambda>a b. if a + b < a then Inl (ErrorString ''overflow'') else Inr (a + b)),
     Propagate = (\<lambda>e m. ErrorString (m @ '': '' @ Error e)),
     Errs_Add = (\<lambda>a b. case a of None \<Rightarrow> b | Some e \<Rightarrow> Some e)\<rparr>"

lemma unat_plus_wraps: "a + b < a \<longleftrightarrow> 2 ^ LENGTH('a) \<le> unat a + unat b" for a b :: "'a::len word"
proof (cases "unat a + unat b < 2 ^ LENGTH('a)")
  case True
  then show ?thesis by (simp add: word_less_nat_alt unat_word_ariths)
next
  case False
  have lt: "unat a < 2 ^ LENGTH('a)" "unat b < 2 ^ LENGTH('a)" by (rule unsigned_less)+
  then have "unat a + unat b - 2 ^ LENGTH('a) < 2 ^ LENGTH('a)" by linarith
  with False have "(unat a + unat b) mod 2 ^ LENGTH('a) = unat a + unat b - 2 ^ LENGTH('a)"
    by (simp only: le_mod_geq linorder_not_less mod_less)
  moreover have "unat a + unat b - 2 ^ LENGTH('a) < unat a" using False lt by linarith
  ultimately show ?thesis using False by (simp add: word_less_nat_alt unat_word_ariths)
qed

lemma sample_lib_Add64 [simp]: "Add64_checked sample_lib"
  by (simp add: Add64_checked_def sample_lib_def unat_plus_wraps)

lemma sample_lib_Errs [simp]: "Errs_keep_first sample_lib"
  by (simp add: Errs_keep_first_def sample_lib_def)

end
