(* ===== verification/DbModel.thy ===== *)
theory DbModel
  imports DbRows Ext
begin

text \<open>
  \<open>src/db/dbmodel.go\<close>: for each table the columns an insert writes (\<open>_cols\<close>), the columns the
  update of the same function sets (\<open>_sets\<close>), the condition that selects a row (\<open>_key\<close>), how
  a query fills the struct (\<open>row_of_\<close>), and the functions of the \<open>Persist\<close> interface built
  from them. A query fills a field from the selected column whose name is the field's name in
  snake case, as the query builder does; a column without such a field is dropped.

  The interface itself is the datatype \<open>pcall\<close> of its calls that write, and \<open>persist_exec\<close>
  dispatches a call to the function that implements it.
\<close>

section \<open>Reading columns\<close>

definition getS :: "row \<Rightarrow> string \<Rightarrow> string" where
  "getS r c = (case r c of Some (VS s) \<Rightarrow> s | Some (VRaw s) \<Rightarrow> s | Some (VI i) \<Rightarrow> Itoa i | _ \<Rightarrow> [])"

definition getI :: "row \<Rightarrow> string \<Rightarrow> int" where
  "getI r c = (case r c of Some (VI i) \<Rightarrow> i | _ \<Rightarrow> 0)"

definition getW :: "row \<Rightarrow> string \<Rightarrow> 'n::len word" where
  "getW r c = word_of_int (getI r c)"

definition getBool :: "row \<Rightarrow> string \<Rightarrow> bool" where
  "getBool r c = (getI r c \<noteq> 0)"

definition getB :: "row \<Rightarrow> string \<Rightarrow> bytes option" where
  "getB r c = (case r c of Some (VBytes b) \<Rightarrow> b | _ \<Rightarrow> None)"

definition getT :: "row \<Rightarrow> string \<Rightarrow> gotime" where
  "getT r c = (case r c of Some (VT t) \<Rightarrow> t | _ \<Rightarrow> zero_time)"

section \<open>The functions of dbmodel.go\<close>

definition row_of_Transactions :: "row \<Rightarrow> Transactions" where
  "row_of_Transactions r =
    \<lparr>Transactions_ID = getS r ''id'',
     Transactions_ChainID = getS r ''chain_id'',
     Transactions_Type = getS r ''type'',
     Transactions_Memo = getB r ''memo'',
     Transactions_CanonicalSerialization = getB r ''canonical_serialization'',
     Transactions_Txfee = getW r ''txfee'',
     Transactions_NetworkID = getW r ''network_id'',
     Transactions_Genesis = getBool r ''genesis'',
     Transactions_CreatedAt = getT r ''created_at''\<rparr>"

definition Transactions_key :: "Transactions \<Rightarrow> cond list" where
  "Transactions_key q = [Eq ''id'' (VS (Transactions_ID q))]"

definition QueryTransactions :: "session \<Rightarrow> Transactions \<Rightarrow> dbstate \<Rightarrow> (Transactions \<times> go_error option) \<times> dbstate" where
  "QueryTransactions sess q = load_one sess TableTransactions (Transactions_key q) zero_Transactions row_of_Transactions"

definition Transactions_cols :: "Transactions \<Rightarrow> pairs" where
  "Transactions_cols v =
      [(''id'', VS (Transactions_ID v)), (''chain_id'', VS (Transactions_ChainID v)),
      (''type'', VS (Transactions_Type v)), (''memo'', VBytes (Transactions_Memo v)),
      (''created_at'', VT (Transactions_CreatedAt v)),
      (''canonical_serialization'', VBytes (Transactions_CanonicalSerialization v)),
      (''txfee'', VI (uint (Transactions_Txfee v))),
      (''genesis'', VI (of_bool (Transactions_Genesis v))),
      (''network_id'', VI (uint (Transactions_NetworkID v)))]"

definition Transactions_sets :: "Transactions \<Rightarrow> pairs" where
  "Transactions_sets v =
      [(''chain_id'', VS (Transactions_ChainID v)), (''type'', VS (Transactions_Type v)),
      (''memo'', VBytes (Transactions_Memo v)),
      (''canonical_serialization'', VBytes (Transactions_CanonicalSerialization v)),
      (''txfee'', VI (uint (Transactions_Txfee v))),
      (''genesis'', VI (of_bool (Transactions_Genesis v))),
      (''network_id'', VI (uint (Transactions_NetworkID v))),
      (''created_at'', VT (Transactions_CreatedAt v))]"

definition InsertTransactions :: "session \<Rightarrow> Transactions \<Rightarrow> bool \<Rightarrow> (dbstate, unit) go" where
  "InsertTransactions sess v upd =
     go_then (exec_insert sess TableTransactions TableTransactions (Transactions_cols v))
       (if upd
        then exec_update sess TableTransactions TableTransactions (Transactions_sets v)
               [Eq ''id'' (VS (Transactions_ID v))]
        else go_return ())"

definition row_of_OutputsRedeeming :: "row \<Rightarrow> OutputsRedeeming" where
  "row_of_OutputsRedeeming r =
    \<lparr>OutputsRedeeming_ID = getS r ''id'',
     OutputsRedeeming_RedeemedAt = getT r ''redeemed_at'',
     OutputsRedeeming_RedeemingTransactionID = getS r ''redeeming_transaction_id'',
     OutputsRedeeming_Amount = getW r ''amount'',
     OutputsRedeeming_OutputIndex = getW r ''output_index'',
     OutputsRedeeming_Intx = getS r ''intx'',
     OutputsRedeeming_AssetID = getS r ''asset_id'',
     OutputsRedeeming_ChainID = getS r ''chain_id'',
     OutputsRedeeming_CreatedAt = getT r ''created_at''\<rparr>"

definition OutputsRedeeming_key :: "OutputsRedeeming \<Rightarrow> cond list" where
  "OutputsRedeeming_key q = [Eq ''id'' (VS (OutputsRedeeming_ID q))]"

definition QueryOutputsRedeeming :: "session \<Rightarrow> OutputsRedeeming \<Rightarrow> dbstate \<Rightarrow> (OutputsRedeeming \<times> go_error option) \<times> dbstate" where
  "QueryOutputsRedeeming sess q = load_one sess TableOutputsRedeeming (OutputsRedeeming_key q) zero_OutputsRedeeming row_of_OutputsRedeeming"

definition OutputsRedeeming_cols :: "OutputsRedeeming \<Rightarrow> pairs" where
  "OutputsRedeeming_cols v =
      [(''id'', VS (OutputsRedeeming_ID v)),
      (''redeemed_at'', VT (OutputsRedeeming_RedeemedAt v)),
      (''redeeming_transaction_id'', VS (OutputsRedeeming_RedeemingTransactionID v)),
      (''amount'', VI (uint (OutputsRedeeming_Amount v))),
      (''output_index'', VI (uint (OutputsRedeeming_OutputIndex v))),
      (''intx'', VS (OutputsRedeeming_Intx v)),
      (''asset_id'', VS (OutputsRedeeming_AssetID v)),
      (''created_at'', VT (OutputsRedeeming_CreatedAt v)),
      (''chain_id'', VS (OutputsRedeeming_ChainID v))]"

definition OutputsRedeeming_sets :: "OutputsRedeeming \<Rightarrow> pairs" where
  "OutputsRedeeming_sets v =
      [(''redeeming_transaction_id'', VS (OutputsRedeeming_RedeemingTransactionID v)),
      (''amount'', VI (uint (OutputsRedeeming_Amount v))),
      (''output_index'', VI (uint (OutputsRedeeming_OutputIndex v))),
      (''intx'', VS (OutputsRedeeming_Intx v)),
      (''asset_id'', VS (OutputsRedeeming_AssetID v)),
      (''chain_id'', VS (OutputsRedeeming_ChainID v)),
      (''created_at'', VT (OutputsRedeeming_CreatedAt v))]"

definition InsertOutputsRedeeming :: "session \<Rightarrow> OutputsRedeeming \<Rightarrow> bool \<Rightarrow> (dbstate, unit) go" where
  "InsertOutputsRedeeming sess v upd =
     go_then (exec_insert sess TableOutputsRedeeming TableOutputsRedeeming (OutputsRedeeming_cols v))
       (if upd
        then exec_update sess TableOutputsRedeeming TableOutputsRedeeming (OutputsRedeeming_sets v)
               [Eq ''id'' (VS (OutputsRedeeming_ID v))]
        else go_return ())"

definition row_of_Outputs :: "row \<Rightarrow> Outputs" where
  "row_of_Outputs r =
    \<lparr>Outputs_ID = getS r ''id'',
     Outputs_ChainID = getS r ''chain_id'',
     Outputs_TransactionID = getS r ''transaction_id'',
     Outputs_OutputIndex = getW r ''output_index'',
     Outputs_OutputType = getW r ''output_type'',
     Outputs_AssetID = getS r ''asset_id'',
     Outputs_Amount = getW r ''amount'',
     Outputs_Locktime = getW r ''locktime'',
     Outputs_Threshold = getW r ''threshold'',
     Outputs_GroupID = getW r ''group_id'',
     Outputs_Payload = getB r ''payload'',
     Outputs_StakeLocktime = getW r ''stake_locktime'',
     Outputs_Stake = getBool r ''stake'',
     Outputs_Frozen = getBool r ''frozen'',
     Outputs_Stakeableout = getBool r ''stakeableout'',
     Outputs_Genesisutxo = getBool r ''genesisutxo'',
     Outputs_CreatedAt = getT r ''created_at''\<rparr>"

definition Outputs_key :: "Outputs \<Rightarrow> cond list" where
  "Outputs_key q = [Eq ''id'' (VS (Outputs_ID q))]"

definition QueryOutputs :: "session \<Rightarrow> Outputs \<Rightarrow> dbstate \<Rightarrow> (Outputs \<times> go_error option) \<times> dbstate" where
  "QueryOutputs sess q = load_one sess TableOutputs (Outputs_key q) zero_Outputs row_of_Outputs"

definition Outputs_cols :: "Outputs \<Rightarrow> pairs" where
  "Outputs_cols v =
      [(''id'', VS (Outputs_ID v)), (''chain_id'', VS (Outputs_ChainID v)),
      (''transaction_id'', VS (Outputs_TransactionID v)),
      (''output_index'', VI (uint (Outputs_OutputIndex v))),
      (''asset_id'', VS (Outputs_AssetID v)),
      (''output_type'', VI (uint (Outputs_OutputType v))),
      (''amount'', VI (uint (Outputs_Amount v))),
      (''locktime'', VI (uint (Outputs_Locktime v))),
      (''threshold'', VI (uint (Outputs_Threshold v))),
      (''group_id'', VI (uint (Outputs_GroupID v))),
      (''payload'', VBytes (Outputs_Payload v)),
      (''stake_locktime'', VI (uint (Outputs_StakeLocktime v))),
      (''stake'', VI (of_bool (Outputs_Stake v))),
      (''frozen'', VI (of_bool (Outputs_Frozen v))),
      (''stakeableout'', VI (of_bool (Outputs_Stakeableout v))),
      (''genesisutxo'', VI (of_bool (Outputs_Genesisutxo v))),
      (''created_at'', VT (Outputs_CreatedAt v))]"

definition Outputs_sets :: "Outputs \<Rightarrow> pairs" where
  "Outputs_sets v =
      [(''chain_id'', VS (Outputs_ChainID v)),
      (''transaction_id'', VS (Outputs_TransactionID v)),
      (''output_index'', VI (uint (Outputs_OutputIndex v))),
      (''asset_id'', VS (Outputs_AssetID v)),
      (''output_type'', VI (uint (Outputs_OutputType v))),
      (''amount'', VI (uint (Outputs_Amount v))),
      (''locktime'', VI (uint (Outputs_Locktime v))),
      (''threshold'', VI (uint (Outputs_Threshold v))),
      (''group_id'', VI (uint (Outputs_GroupID v))),
      (''payload'', VBytes (Outputs_Payload v)),
      (''stake_locktime'', VI (uint (Outputs_StakeLocktime v))),
      (''stake'', VI (of_bool (Outputs_Stake v))),
      (''frozen'', VI (of_bool (Outputs_Frozen v))),
      (''stakeableout'', VI (of_bool (Outputs_Stakeableout v))),
      (''genesisutxo'', VI (of_bool (Outputs_Genesisutxo v))),
      (''created_at'', VT (Outputs_CreatedAt v))]"

definition InsertOutputs :: "session \<Rightarrow> Outputs \<Rightarrow> bool \<Rightarrow> (dbstate, unit) go" where
  "InsertOutputs sess v upd =
     go_then (exec_insert sess TableOutputs TableOutputs (Outputs_cols v))
       (if upd
        then exec_update sess TableOutputs TableOutputs (Outputs_sets v)
               [Eq ''id'' (VS (Outputs_ID v))]
        else go_return ())"

definition row_of_Assets :: "row \<Rightarrow> Assets" where
  "row_of_Assets r =
    \<lparr>Assets_ID = getS r ''id'',
     Assets_ChainID = getS r ''chain_id'',
     Assets_Name = getS r ''name'',
     Assets_Symbol = getS r ''symbol'',
     Assets_Denomination = getW r ''denomination'',
     Assets_Alias = getS r ''alias'',
     Assets_CurrentSupply = getW r ''current_supply'',
     Assets_CreatedAt = getT r ''created_at''\<rparr>"

definition Assets_key :: "Assets \<Rightarrow> cond list" where
  "Assets_key q = [Eq ''id'' (VS (Assets_ID q))]"

definition QueryAssets :: "session \<Rightarrow> Assets \<Rightarrow> dbstate \<Rightarrow> (Assets \<times> go_error option) \<times> dbstate" where
  "QueryAssets sess q = load_one sess TableAssets (Assets_key q) zero_Assets row_of_Assets"

definition Assets_cols :: "Assets \<Rightarrow> pairs" where
  "Assets_cols v =
      [(''id'', VS (Assets_ID v)), (''chain_Id'', VS (Assets_ChainID v)),
      (''name'', VS (Assets_Name v)), (''symbol'', VS (Assets_Symbol v)),
      (''denomination'', VI (uint (Assets_Denomination v))),
      (''alias'', VS (Assets_Alias v)),
      (''current_supply'', VI (uint (Assets_CurrentSupply v))),
      (''created_at'', VT (Assets_CreatedAt v))]"

definition Assets_sets :: "Assets \<Rightarrow> pairs" where
  "Assets_sets v =
      [(''chain_Id'', VS (Assets_ChainID v)), (''name'', VS (Assets_Name v)),
      (''symbol'', VS (Assets_Symbol v)),
      (''denomination'', VI (uint (Assets_Denomination v))),
      (''alias'', VS (Assets_Alias v)),
      (''current_supply'', VI (uint (Assets_CurrentSupply v))),
      (''created_at'', VT (Assets_CreatedAt v))]"

definition InsertAssets :: "session \<Rightarrow> Assets \<Rightarrow> bool \<Rightarrow> (dbstate, unit) go" where
  "InsertAssets sess v upd =
     go_then (exec_insert sess TableAssets TableAssets (Assets_cols v))
       (if upd
        then exec_update sess TableAssets TableAssets (Assets_sets v)
               [Eq ''id'' (VS (Assets_ID v))]
        else go_return ())"

definition row_of_Addresses :: "row \<Rightarrow> Addresses" where
  "row_of_Addresses r =
    \<lparr>Addresses_Address = getS r ''address'',
     Addresses_PublicKey = getB r ''public_key'',
     Addresses_CreatedAt = getT r ''created_at'',
     Addresses_UpdatedAt = getT r ''updated_at''\<rparr>"

definition Addresses_key :: "Addresses \<Rightarrow> cond list" where
  "Addresses_key q = [Eq ''address'' (VS (Addresses_Address q))]"

definition QueryAddresses :: "session \<Rightarrow> Addresses \<Rightarrow> dbstate \<Rightarrow> (Addresses \<times> go_error option) \<times> dbstate" where
  "QueryAddresses sess q = load_one sess TableAddresses (Addresses_key q) zero_Addresses row_of_Addresses"

definition Addresses_cols :: "Addresses \<Rightarrow> pairs" where
  "Addresses_cols v =
      [(''address'', VS (Addresses_Address v)),
      (''public_key'', VBytes (Addresses_PublicKey v)),
      (''created_at'', VT (Addresses_CreatedAt v)),
      (''updated_at'', VT (Addresses_UpdatedAt v))]"

definition Addresses_sets :: "Addresses \<Rightarrow> pairs" where
  "Addresses_sets v =
      [(''public_key'', VBytes (Addresses_PublicKey v)),
      (''updated_at'', VT (Addresses_UpdatedAt v)),
      (''created_at'', VT (Addresses_CreatedAt v))]"

definition InsertAddresses :: "session \<Rightarrow> Addresses \<Rightarrow> bool \<Rightarrow> (dbstate, unit) go" where
  "InsertAddresses sess v upd =
     go_then (exec_insert sess TableAddresses TableAddresses (Addresses_cols v))
       (if upd
        then exec_update sess TableAddresses TableAddresses (Addresses_sets v)
               [Eq ''address'' (VS (Addresses_Address v))]
        else go_return ())"

definition row_of_AddressChain :: "row \<Rightarrow> AddressChain" where
  "row_of_AddressChain r =
    \<lparr>AddressChain_Address = getS r ''address'',
     AddressChain_ChainID = getS r ''chain_id'',
     AddressChain_CreatedAt = getT r ''created_at'',
     AddressChain_UpdatedAt = getT r ''updated_at''\<rparr>"

definition AddressChain_key :: "AddressChain \<Rightarrow> cond list" where
  "AddressChain_key q = [Eq ''address'' (VS (AddressChain_Address q)), Eq ''chain_id'' (VS (AddressChain_ChainID q))]"

definition QueryAddressChain :: "session \<Rightarrow> AddressChain \<Rightarrow> dbstate \<Rightarrow> (AddressChain \<times> go_error option) \<times> dbstate" where
  "QueryAddressChain sess q = load_one sess TableAddressChain (AddressChain_key q) zero_AddressChain row_of_AddressChain"

definition AddressChain_cols :: "AddressChain \<Rightarrow> pairs" where
  "AddressChain_cols v =
      [(''address'', VS (AddressChain_Address v)),
      (''chain_id'', VS (AddressChain_ChainID v)),
      (''created_at'', VT (AddressChain_CreatedAt v)),
      (''updated_at'', VT (AddressChain_UpdatedAt v))]"

definition AddressChain_sets :: "AddressChain \<Rightarrow> pairs" where
  "AddressChain_sets v =
      [(''updated_at'', VT (AddressChain_UpdatedAt v)),
      (''created_at'', VT (AddressChain_CreatedAt v))]"

definition InsertAddressChain :: "session \<Rightarrow> AddressChain \<Rightarrow> bool \<Rightarrow> (dbstate, unit) go" where
  "InsertAddressChain sess v upd =
     go_then (exec_insert sess TableAddressChain TableAddressChain (AddressChain_cols v))
       (if upd
        then exec_update sess TableAddressChain TableAddressChain (AddressChain_sets v)
               [Eq ''address'' (VS (AddressChain_Address v)), Eq ''chain_id'' (VS (AddressChain_ChainID v))]
        else go_return ())"

definition row_of_OutputAddresses :: "row \<Rightarrow> OutputAddresses" where
  "row_of_OutputAddresses r =
    \<lparr>OutputAddresses_OutputID = getS r ''output_id'',
     OutputAddresses_Address = getS r ''address'',
     OutputAddresses_RedeemingSignature = getB r ''redeeming_signature'',
     OutputAddresses_CreatedAt = getT r ''created_at'',
     OutputAddresses_UpdatedAt = getT r ''updated_at''\<rparr>"

definition OutputAddresses_key :: "OutputAddresses \<Rightarrow> cond list" where
  "OutputAddresses_key q = [Eq ''output_id'' (VS (OutputAddresses_OutputID q)), Eq ''address'' (VS (OutputAddresses_Address q))]"

definition QueryOutputAddresses :: "session \<Rightarrow> OutputAddresses \<Rightarrow> dbstate \<Rightarrow> (OutputAddresses \<times> go_error option) \<times> dbstate" where
  "QueryOutputAddresses sess q = load_one sess TableOutputAddresses (OutputAddresses_key q) zero_OutputAddresses row_of_OutputAddresses"

definition OutputAddresses_cols :: "OutputAddresses \<Rightarrow> pairs" where
  "OutputAddresses_cols v =
      ([(''output_id'', VS (OutputAddresses_OutputID v)),
      (''address'', VS (OutputAddresses_Address v)),
      (''created_at'', VT (OutputAddresses_CreatedAt v)),
      (''updated_at'', VT (OutputAddresses_UpdatedAt v))] @
       (case OutputAddresses_RedeemingSignature v of None \<Rightarrow> []
       | Some sig \<Rightarrow> [(''redeeming_signature'', VBytes (Some sig))]))"

definition OutputAddresses_sets :: "OutputAddresses \<Rightarrow> pairs" where
  "OutputAddresses_sets v =
      ((case OutputAddresses_RedeemingSignature v of None \<Rightarrow> []
       | Some sig \<Rightarrow> [(''redeeming_signature'', VBytes (Some sig))]) @
       [(''updated_at'', VT (OutputAddresses_UpdatedAt v)),
      (''created_at'', VT (OutputAddresses_CreatedAt v))])"

definition InsertOutputAddresses :: "session \<Rightarrow> OutputAddresses \<Rightarrow> bool \<Rightarrow> (dbstate, unit) go" where
  "InsertOutputAddresses sess v upd =
     go_then (exec_insert sess TableOutputAddresses TableOutputAddresses (OutputAddresses_cols v))
       (if upd
        then exec_update sess TableOutputAddresses TableOutputAddresses (OutputAddresses_sets v)
               [Eq ''output_id'' (VS (OutputAddresses_OutputID v)), Eq ''address'' (VS (OutputAddresses_Address v))]
        else go_return ())"

definition UpdateOutputAddresses :: "session \<Rightarrow> OutputAddresses \<Rightarrow> (dbstate, unit) go" where
  "UpdateOutputAddresses sess v =
     exec_update sess TableOutputAddresses TableOutputAddresses
      [(''redeeming_signature'', VBytes (OutputAddresses_RedeemingSignature v)),
      (''updated_at'', VT (OutputAddresses_UpdatedAt v))]
      [Eq ''output_id'' (VS (OutputAddresses_OutputID v)), Eq ''address'' (VS (OutputAddresses_Address v))]"

definition row_of_TransactionsEpoch :: "row \<Rightarrow> TransactionsEpoch" where
  "row_of_TransactionsEpoch r =
    \<lparr>TransactionsEpoch_ID = getS r ''id'',
     TransactionsEpoch_Epoch = getW r ''epoch'',
     TransactionsEpoch_VertexID = getS r ''vertex_id'',
     TransactionsEpoch_CreatedAt = getT r ''created_at''\<rparr>"

definition TransactionsEpoch_key :: "TransactionsEpoch \<Rightarrow> cond list" where
  "TransactionsEpoch_key q = [Eq ''id'' (VS (TransactionsEpoch_ID q))]"

definition QueryTransactionsEpoch :: "session \<Rightarrow> TransactionsEpoch \<Rightarrow> dbstate \<Rightarrow> (TransactionsEpoch \<times> go_error option) \<times> dbstate" where
  "QueryTransactionsEpoch sess q = load_one sess TableTransactionsEpochs (TransactionsEpoch_key q) zero_TransactionsEpoch row_of_TransactionsEpoch"

definition TransactionsEpoch_cols :: "TransactionsEpoch \<Rightarrow> pairs" where
  "TransactionsEpoch_cols v =
      [(''id'', VS (TransactionsEpoch_ID v)),
      (''epoch'', VI (uint (TransactionsEpoch_Epoch v))),
      (''vertex_id'', VS (TransactionsEpoch_VertexID v)),
      (''created_at'', VT (TransactionsEpoch_CreatedAt v))]"

definition TransactionsEpoch_sets :: "TransactionsEpoch \<Rightarrow> pairs" where
  "TransactionsEpoch_sets v =
      [(''epoch'', VI (uint (TransactionsEpoch_Epoch v))),
      (''vertex_id'', VS (TransactionsEpoch_VertexID v)),
      (''created_at'', VT (TransactionsEpoch_CreatedAt v))]"

definition InsertTransactionsEpoch :: "session \<Rightarrow> TransactionsEpoch \<Rightarrow> bool \<Rightarrow> (dbstate, unit) go" where
  "InsertTransactionsEpoch sess v upd =
     go_then (exec_insert sess TableTransactionsEpochs TableTransactionsEpochs (TransactionsEpoch_cols v))
       (if upd
        then exec_update sess TableTransactionsEpochs TableTransactionsEpochs (TransactionsEpoch_sets v)
               [Eq ''id'' (VS (TransactionsEpoch_ID v))]
        else go_return ())"

definition row_of_CvmBlocks :: "row \<Rightarrow> CvmBlocks" where
  "row_of_CvmBlocks r =
    \<lparr>CvmBlocks_Block = getS r ''block'',
     CvmBlocks_CreatedAt = getT r ''created_at''\<rparr>"

definition CvmBlocks_key :: "CvmBlocks \<Rightarrow> cond list" where
  "CvmBlocks_key q = [Eq ''block'' (VRaw (CvmBlocks_Block q))]"

definition QueryCvmBlocks :: "session \<Rightarrow> CvmBlocks \<Rightarrow> dbstate \<Rightarrow> (CvmBlocks \<times> go_error option) \<times> dbstate" where
  "QueryCvmBlocks sess q = load_one sess TableCvmBlocks (CvmBlocks_key q) zero_CvmBlocks row_of_CvmBlocks"

definition CvmBlocks_cols :: "CvmBlocks \<Rightarrow> pairs" where
  "CvmBlocks_cols v =
      [(''block'', VRaw (CvmBlocks_Block v)), (''created_at'', VT (CvmBlocks_CreatedAt v))]"

definition InsertCvmBlocks :: "session \<Rightarrow> CvmBlocks \<Rightarrow> (dbstate, unit) go" where
  "InsertCvmBlocks sess v = exec_insert sess TableCvmBlocks TableCvmBlocks (CvmBlocks_cols v)"

definition row_of_CvmAddresses :: "row \<Rightarrow> CvmAddresses" where
  "row_of_CvmAddresses r =
    \<lparr>CvmAddresses_ID = getS r ''id'',
     CvmAddresses_Type = getW r ''type'',
     CvmAddresses_Idx = getW r ''idx'',
     CvmAddresses_TransactionID = getS r ''transaction_id'',
     CvmAddresses_Address = getS r ''address'',
     CvmAddresses_AssetID = getS r ''asset_id'',
     CvmAddresses_Amount = getW r ''amount'',
     CvmAddresses_Nonce = getW r ''nonce'',
     CvmAddresses_CreatedAt = getT r ''created_at''\<rparr>"

definition CvmAddresses_key :: "CvmAddresses \<Rightarrow> cond list" where
  "CvmAddresses_key q = [Eq ''id'' (VS (CvmAddresses_ID q))]"

definition QueryCvmAddresses :: "session \<Rightarrow> CvmAddresses \<Rightarrow> dbstate \<Rightarrow> (CvmAddresses \<times> go_error option) \<times> dbstate" where
  "QueryCvmAddresses sess q = load_one sess TableCvmAddresses (CvmAddresses_key q) zero_CvmAddresses row_of_CvmAddresses"

definition CvmAddresses_cols :: "CvmAddresses \<Rightarrow> pairs" where
  "CvmAddresses_cols v =
      [(''id'', VS (CvmAddresses_ID v)), (''type'', VI (uint (CvmAddresses_Type v))),
      (''idx'', VI (uint (CvmAddresses_Idx v))),
      (''transaction_id'', VS (CvmAddresses_TransactionID v)),
      (''address'', VS (CvmAddresses_Address v)),
      (''asset_id'', VS (CvmAddresses_AssetID v)),
      (''amount'', VI (uint (CvmAddresses_Amount v))),
      (''nonce'', VI (uint (CvmAddresses_Nonce v))),
      (''created_at'', VT (CvmAddresses_CreatedAt v))]"

definition CvmAddresses_sets :: "CvmAddresses \<Rightarrow> pairs" where
  "CvmAddresses_sets v =
      [(''type'', VI (uint (CvmAddresses_Type v))),
      (''idx'', VI (uint (CvmAddresses_Idx v))),
      (''transaction_id'', VS (CvmAddresses_TransactionID v)),
      (''address'', VS (CvmAddresses_Address v)),
      (''asset_id'', VS (CvmAddresses_AssetID v)),
      (''amount'', VI (uint (CvmAddresses_Amount v))),
      (''nonce'', VI (uint (CvmAddresses_Nonce v))),
      (''created_at'', VT (CvmAddresses_CreatedAt v))]"

definition InsertCvmAddresses :: "session \<Rightarrow> CvmAddresses \<Rightarrow> bool \<Rightarrow> (dbstate, unit) go" where
  "InsertCvmAddresses sess v upd =
     go_then (exec_insert sess TableCvmAddresses TableCvmAddresses (CvmAddresses_cols v))
       (if upd
        then exec_update sess TableCvmAddresses TableCvmAddresses (CvmAddresses_sets v)
               [Eq ''id'' (VS (CvmAddresses_ID v))]
        else go_return ())"

definition row_of_CvmTransactions :: "row \<Rightarrow> CvmTransactions" where
  "row_of_CvmTransactions r =
    \<lparr>CvmTransactions_ID = getS r ''id'',
     CvmTransactions_TransactionID = getS r ''transaction_id'',
     CvmTransactions_Type = getW r ''type'',
     CvmTransactions_BlockchainID = getS r ''blockchain_id'',
     CvmTransactions_Block = getS r ''block'',
     CvmTransactions_CreatedAt = getT r ''created_at'',
     CvmTransactions_Serialization = getB r ''serialization'',
     CvmTransactions_TxTime = getT r ''tx_time'',
     CvmTransactions_Nonce = getW r ''nonce'',
     CvmTransactions_Hash = getS r ''hash'',
     CvmTransactions_ParentHash = getS r ''parent_hash''\<rparr>"

definition CvmTransactions_key :: "CvmTransactions \<Rightarrow> cond list" where
  "CvmTransactions_key q = [Eq ''id'' (VS (CvmTransactions_ID q))]"

definition QueryCvmTransactions :: "session \<Rightarrow> CvmTransactions \<Rightarrow> dbstate \<Rightarrow> (CvmTransactions \<times> go_error option) \<times> dbstate" where
  "QueryCvmTransactions sess q = load_one sess TableCvmTransactions (CvmTransactions_key q) zero_CvmTransactions row_of_CvmTransactions"

definition CvmTransactions_cols :: "CvmTransactions \<Rightarrow> pairs" where
  "CvmTransactions_cols v =
      [(''id'', VS (CvmTransactions_ID v)),
      (''transaction_id'', VS (CvmTransactions_TransactionID v)),
      (''type'', VI (uint (CvmTransactions_Type v))),
      (''blockchain_id'', VS (CvmTransactions_BlockchainID v)),
      (''created_at'', VT (CvmTransactions_CreatedAt v)),
      (''block'', VRaw (CvmTransactions_Block v)),
      (''serialization'', VBytes (CvmTransactions_Serialization v)),
      (''tx_time'', VT (CvmTransactions_TxTime v)),
      (''nonce'', VI (uint (CvmTransactions_Nonce v))),
      (''hash'', VS (CvmTransactions_Hash v)),
      (''parent_hash'', VS (CvmTransactions_ParentHash v))]"

definition CvmTransactions_sets :: "CvmTransactions \<Rightarrow> pairs" where
  "CvmTransactions_sets v =
      [(''transaction_id'', VS (CvmTransactions_TransactionID v)),
      (''type'', VI (uint (CvmTransactions_Type v))),
      (''blockchain_id'', VS (CvmTransactions_BlockchainID v)),
      (''block'', VRaw (CvmTransactions_Block v)),
      (''serialization'', VBytes (CvmTransactions_Serialization v)),
      (''tx_time'', VT (CvmTransactions_TxTime v)),
      (''nonce'', VI (uint (CvmTransactions_Nonce v))),
      (''hash'', VS (CvmTransactions_Hash v)),
      (''parent_hash'', VS (CvmTransactions_ParentHash v)),
      (''created_at'', VT (CvmTransactions_CreatedAt v))]"

definition InsertCvmTransactions :: "session \<Rightarrow> CvmTransactions \<Rightarrow> bool \<Rightarrow> (dbstate, unit) go" where
  "InsertCvmTransactions sess v upd =
     go_then (exec_insert sess TableCvmTransactions TableCvmTransactions (CvmTransactions_cols v))
       (if upd
        then exec_update sess TableCvmTransactions TableCvmTransactions (CvmTransactions_sets v)
               [Eq ''id'' (VS (CvmTransactions_ID v))]
        else go_return ())"

definition row_of_CvmTransactionsTxdata :: "row \<Rightarrow> CvmTransactionsTxdata" where
  "row_of_CvmTransactionsTxdata r =
    \<lparr>CvmTransactionsTxdata_Hash = getS r ''hash'',
     CvmTransactionsTxdata_Block = getS r ''block'',
     CvmTransactionsTxdata_Idx = getW r ''idx'',
     CvmTransactionsTxdata_Rcpt = getS r ''rcpt'',
     CvmTransactionsTxdata_Nonce = getW r ''nonce'',
     CvmTransactionsTxdata_Serialization = getB r ''serialization'',
     CvmTransactionsTxdata_CreatedAt = getT r ''created_at''\<rparr>"

definition CvmTransactionsTxdata_key :: "CvmTransactionsTxdata \<Rightarrow> cond list" where
  "CvmTransactionsTxdata_key q = [Eq ''hash'' (VS (CvmTransactionsTxdata_Hash q))]"

definition QueryCvmTransactionsTxdata :: "session \<Rightarrow> CvmTransactionsTxdata \<Rightarrow> dbstate \<Rightarrow> (CvmTransactionsTxdata \<times> go_error option) \<times> dbstate" where
  "QueryCvmTransactionsTxdata sess q = load_one sess TableCvmTransactionsTxdata (CvmTransactionsTxdata_key q) zero_CvmTransactionsTxdata row_of_CvmTransactionsTxdata"

definition CvmTransactionsTxdata_cols :: "CvmTransactionsTxdata \<Rightarrow> pairs" where
  "CvmTransactionsTxdata_cols v =
      [(''hash'', VS (CvmTransactionsTxdata_Hash v)),
      (''block'', VRaw (CvmTransactionsTxdata_Block v)),
      (''idx'', VI (uint (CvmTransactionsTxdata_Idx v))),
      (''rcpt'', VS (CvmTransactionsTxdata_Rcpt v)),
      (''nonce'', VI (uint (CvmTransactionsTxdata_Nonce v))),
      (''serialization'', VBytes (CvmTransactionsTxdata_Serialization v)),
      (''created_at'', VT (CvmTransactionsTxdata_CreatedAt v))]"

definition CvmTransactionsTxdata_sets :: "CvmTransactionsTxdata \<Rightarrow> pairs" where
  "CvmTransactionsTxdata_sets v =
      [(''block'', VRaw (CvmTransactionsTxdata_Block v)),
      (''idx'', VI (uint (CvmTransactionsTxdata_Idx v))),
      (''rcpt'', VS (CvmTransactionsTxdata_Rcpt v)),
      (''nonce'', VI (uint (CvmTransactionsTxdata_Nonce v))),
      (''serialization'', VBytes (CvmTransactionsTxdata_Serialization v)),
      (''created_at'', VT (CvmTransactionsTxdata_CreatedAt v))]"

definition InsertCvmTransactionsTxdata :: "session \<Rightarrow> CvmTransactionsTxdata \<Rightarrow> bool \<Rightarrow> (dbstate, unit) go" where
  "InsertCvmTransactionsTxdata sess v upd =
     go_then (exec_insert sess TableCvmTransactionsTxdata TableCvmTransactionsTxdata (CvmTransactionsTxdata_cols v))
       (if upd
        then exec_update sess TableCvmTransactionsTxdata TableCvmTransactionsTxdata (CvmTransactionsTxdata_sets v)
               [Eq ''hash'' (VS (CvmTransactionsTxdata_Hash v))]
        else go_return ())"

definition row_of_PvmBlocks :: "row \<Rightarrow> PvmBlocks" where
  "row_of_PvmBlocks r =
    \<lparr>PvmBlocks_ID = getS r ''id'',
     PvmBlocks_ChainID = getS r ''chain_id'',
     PvmBlocks_Type = getW r ''type'',
     PvmBlocks_ParentID = getS r ''parent_id'',
     PvmBlocks_Serialization = getB r ''serialization'',
     PvmBlocks_CreatedAt = getT r ''created_at'',
     PvmBlocks_Height = getW r ''height''\<rparr>"

definition PvmBlocks_key :: "PvmBlocks \<Rightarrow> cond list" where
  "PvmBlocks_key q = [Eq ''id'' (VS (PvmBlocks_ID q))]"

definition QueryPvmBlocks :: "session \<Rightarrow> PvmBlocks \<Rightarrow> dbstate \<Rightarrow> (PvmBlocks \<times> go_error option) \<times> dbstate" where
  "QueryPvmBlocks sess q = load_one sess TablePvmBlocks (PvmBlocks_key q) zero_PvmBlocks row_of_PvmBlocks"

definition PvmBlocks_cols :: "PvmBlocks \<Rightarrow> pairs" where
  "PvmBlocks_cols v =
      [(''id'', VS (PvmBlocks_ID v)), (''chain_id'', VS (PvmBlocks_ChainID v)),
      (''type'', VI (uint (PvmBlocks_Type v))), (''parent_id'', VS (PvmBlocks_ParentID v)),
      (''created_at'', VT (PvmBlocks_CreatedAt v)),
      (''serialization'', VBytes (PvmBlocks_Serialization v)),
      (''height'', VI (uint (PvmBlocks_Height v)))]"

definition PvmBlocks_sets :: "PvmBlocks \<Rightarrow> pairs" where
  "PvmBlocks_sets v =
      [(''chain_id'', VS (PvmBlocks_ChainID v)), (''type'', VI (uint (PvmBlocks_Type v))),
      (''parent_id'', VS (PvmBlocks_ParentID v)),
      (''serialization'', VBytes (PvmBlocks_Serialization v)),
      (''height'', VI (uint (PvmBlocks_Height v))),
      (''created_at'', VT (PvmBlocks_CreatedAt v))]"

definition InsertPvmBlocks :: "session \<Rightarrow> PvmBlocks \<Rightarrow> bool \<Rightarrow> (dbstate, unit) go" where
  "InsertPvmBlocks sess v upd =
     go_then (exec_insert sess TablePvmBlocks TablePvmBlocks (PvmBlocks_cols v))
       (if upd
        then exec_update sess TablePvmBlocks TablePvmBlocks (PvmBlocks_sets v)
               [Eq ''id'' (VS (PvmBlocks_ID v))]
        else go_return ())"

definition row_of_Rewards :: "row \<Rightarrow> Rewards" where
  "row_of_Rewards r =
    \<lparr>Rewards_ID = getS r ''id'',
     Rewards_BlockID = getS r ''block_id'',
     Rewards_Txid = getS r ''txid'',
     Rewards_Shouldprefercommit = getBool r ''shouldprefercommit'',
     Rewards_CreatedAt = getT r ''created_at'',
     Rewards_Processed = getI r ''processed''\<rparr>"

definition Rewards_key :: "Rewards \<Rightarrow> cond list" where
  "Rewards_key q = [Eq ''id'' (VS (Rewards_ID q))]"

definition QueryRewards :: "session \<Rightarrow> Rewards \<Rightarrow> dbstate \<Rightarrow> (Rewards \<times> go_error option) \<times> dbstate" where
  "QueryRewards sess q = load_one sess TableRewards (Rewards_key q) zero_Rewards row_of_Rewards"

definition Rewards_cols :: "Rewards \<Rightarrow> pairs" where
  "Rewards_cols v =
      [(''id'', VS (Rewards_ID v)), (''block_id'', VS (Rewards_BlockID v)),
      (''txid'', VS (Rewards_Txid v)),
      (''shouldprefercommit'', VI (of_bool (Rewards_Shouldprefercommit v))),
      (''created_at'', VT (Rewards_CreatedAt v)), (''processed'', VI (Rewards_Processed v))]"

definition Rewards_sets :: "Rewards \<Rightarrow> pairs" where
  "Rewards_sets v =
      [(''block_id'', VS (Rewards_BlockID v)), (''txid'', VS (Rewards_Txid v)),
      (''shouldprefercommit'', VI (of_bool (Rewards_Shouldprefercommit v))),
      (''created_at'', VT (Rewards_CreatedAt v))]"

definition InsertRewards :: "session \<Rightarrow> Rewards \<Rightarrow> bool \<Rightarrow> (dbstate, unit) go" where
  "InsertRewards sess v upd =
     go_then (exec_insert sess TableRewards TableRewards (Rewards_cols v))
       (if upd
        then exec_update sess TableRewards TableRewards (Rewards_sets v)
               [Eq ''id'' (VS (Rewards_ID v))]
        else go_return ())"

definition UpdateRewardsProcessed :: "session \<Rightarrow> Rewards \<Rightarrow> (dbstate, unit) go" where
  "UpdateRewardsProcessed sess v =
     exec_update_status sess TableRewards TableRewards
      [(''processed'', VI (Rewards_Processed v))]
      [Eq ''id'' (VS (Rewards_ID v))]"

definition row_of_TransactionsValidator :: "row \<Rightarrow> TransactionsValidator" where
  "row_of_TransactionsValidator r =
    \<lparr>TransactionsValidator_ID = getS r ''id'',
     TransactionsValidator_NodeID = getS r ''node_id'',
     TransactionsValidator_Start = getW r ''start'',
     TransactionsValidator_End = getW r ''end'',
     TransactionsValidator_CreatedAt = getT r ''created_at''\<rparr>"

definition TransactionsValidator_key :: "TransactionsValidator \<Rightarrow> cond list" where
  "TransactionsValidator_key q = [Eq ''id'' (VS (TransactionsValidator_ID q))]"

definition QueryTransactionsValidator :: "session \<Rightarrow> TransactionsValidator \<Rightarrow> dbstate \<Rightarrow> (TransactionsValidator \<times> go_error option) \<times> dbstate" where
  "QueryTransactionsValidator sess q = load_one sess TableTransactionsValidator (TransactionsValidator_key q) zero_TransactionsValidator row_of_TransactionsValidator"

definition TransactionsValidator_cols :: "TransactionsValidator \<Rightarrow> pairs" where
  "TransactionsValidator_cols v =
      [(''id'', VS (TransactionsValidator_ID v)),
      (''node_id'', VS (TransactionsValidator_NodeID v)),
      (''start'', VI (uint (TransactionsValidator_Start v))),
      (''end'', VI (uint (TransactionsValidator_End v))),
      (''created_at'', VT (TransactionsValidator_CreatedAt v))]"

definition TransactionsValidator_sets :: "TransactionsValidator \<Rightarrow> pairs" where
  "TransactionsValidator_sets v =
      [(''node_id'', VS (TransactionsValidator_NodeID v)),
      (''start'', VI (uint (TransactionsValidator_Start v))),
      (''end'', VI (uint (TransactionsValidator_End v))),
      (''created_at'', VT (TransactionsValidator_CreatedAt v))]"

definition InsertTransactionsValidator :: "session \<Rightarrow> TransactionsValidator \<Rightarrow> bool \<Rightarrow> (dbstate, unit) go" where
  "InsertTransactionsValidator sess v upd =
     go_then (exec_insert sess TableTransactionsValidator TableTransactionsValidator (TransactionsValidator_cols v))
       (if upd
        then exec_update sess TableTransactionsValidator TableTransactionsValidator (TransactionsValidator_sets v)
               [Eq ''id'' (VS (TransactionsValidator_ID v))]
        else go_return ())"

definition row_of_TransactionsBlock :: "row \<Rightarrow> TransactionsBlock" where
  "row_of_TransactionsBlock r =
    \<lparr>TransactionsBlock_ID = getS r ''id'',
     TransactionsBlock_TxBlockID = getS r ''tx_block_id'',
     TransactionsBlock_CreatedAt = getT r ''created_at''\<rparr>"

definition TransactionsBlock_key :: "TransactionsBlock \<Rightarrow> cond list" where
  "TransactionsBlock_key q = [Eq ''id'' (VS (TransactionsBlock_ID q))]"

definition QueryTransactionsBlock :: "session \<Rightarrow> TransactionsBlock \<Rightarrow> dbstate \<Rightarrow> (TransactionsBlock \<times> go_error option) \<times> dbstate" where
  "QueryTransactionsBlock sess q = load_one sess TableTransactionsBlock (TransactionsBlock_key q) zero_TransactionsBlock row_of_TransactionsBlock"

definition TransactionsBlock_cols :: "TransactionsBlock \<Rightarrow> pairs" where
  "TransactionsBlock_cols v =
      [(''id'', VS (TransactionsBlock_ID v)),
      (''tx_block_id'', VS (TransactionsBlock_TxBlockID v)),
      (''created_at'', VT (TransactionsBlock_CreatedAt v))]"

definition TransactionsBlock_sets :: "TransactionsBlock \<Rightarrow> pairs" where
  "TransactionsBlock_sets v =
      [(''tx_block_id'', VS (TransactionsBlock_TxBlockID v)),
      (''created_at'', VT (TransactionsBlock_CreatedAt v))]"

definition InsertTransactionsBlock :: "session \<Rightarrow> TransactionsBlock \<Rightarrow> bool \<Rightarrow> (dbstate, unit) go" where
  "InsertTransactionsBlock sess v upd =
     go_then (exec_insert sess TableTransactionsBlock TableTransactionsBlock (TransactionsBlock_cols v))
       (if upd
        then exec_update sess TableTransactionsBlock TableTransactionsBlock (TransactionsBlock_sets v)
               [Eq ''id'' (VS (TransactionsBlock_ID v))]
        else go_return ())"

definition row_of_AddressBech32 :: "row \<Rightarrow> AddressBech32" where
  "row_of_AddressBech32 r =
    \<lparr>AddressBech32_Address = getS r ''address'',
     AddressBech32_Bech32Address = getS r ''bech32_address'',
     AddressBech32_UpdatedAt = getT r ''updated_at''\<rparr>"

definition AddressBech32_key :: "AddressBech32 \<Rightarrow> cond list" where
  "AddressBech32_key q = [Eq ''address'' (VS (AddressBech32_Address q))]"

definition QueryAddressBech32 :: "session \<Rightarrow> AddressBech32 \<Rightarrow> dbstate \<Rightarrow> (AddressBech32 \<times> go_error option) \<times> dbstate" where
  "QueryAddressBech32 sess q = load_one sess TableAddressBech32 (AddressBech32_key q) zero_AddressBech32 row_of_AddressBech32"

definition AddressBech32_cols :: "AddressBech32 \<Rightarrow> pairs" where
  "AddressBech32_cols v =
      [(''address'', VS (AddressBech32_Address v)),
      (''bech32_address'', VS (AddressBech32_Bech32Address v)),
      (''updated_at'', VT (AddressBech32_UpdatedAt v))]"

definition AddressBech32_sets :: "AddressBech32 \<Rightarrow> pairs" where
  "AddressBech32_sets v =
      [(''bech32_address'', VS (AddressBech32_Bech32Address v)),
      (''updated_at'', VT (AddressBech32_UpdatedAt v))]"

definition InsertAddressBech32 :: "session \<Rightarrow> AddressBech32 \<Rightarrow> bool \<Rightarrow> (dbstate, unit) go" where
  "InsertAddressBech32 sess v upd =
     go_then (exec_insert sess TableAddressBech32 TableAddressBech32 (AddressBech32_cols v))
       (if upd
        then exec_update sess TableAddressBech32 TableAddressBech32 (AddressBech32_sets v)
               [Eq ''address'' (VS (AddressBech32_Address v))]
        else go_return ())"

definition OutputAddressAccumulate_ComputeID :: "extlib \<Rightarrow> OutputAddressAccumulate \<Rightarrow> go_error + OutputAddressAccumulate" where
  "OutputAddressAccumulate_ComputeID lib b =
     (let idsv = Join [OutputAddressAccumulate_OutputID b, OutputAddressAccumulate_Address b] '':'' in
      case ToID lib (ComputeHash256 lib (bytes_of_string idsv)) of
        Inl err \<Rightarrow> Inl err
      | Inr i \<Rightarrow> Inr (b\<lparr>OutputAddressAccumulate_ID := ID_String lib i\<rparr>))"

definition row_of_OutputAddressAccumulateOut :: "row \<Rightarrow> OutputAddressAccumulate" where
  "row_of_OutputAddressAccumulateOut r =
    \<lparr>OutputAddressAccumulate_ID = getS r ''id'',
     OutputAddressAccumulate_OutputID = getS r ''output_id'',
     OutputAddressAccumulate_Address = getS r ''address'',
     OutputAddressAccumulate_Processed = getI r ''processed'',
     OutputAddressAccumulate_OutputProcessed = 0,
     OutputAddressAccumulate_TransactionID = getS r ''transaction_id'',
     OutputAddressAccumulate_OutputIndex = getW r ''output_index'',
     OutputAddressAccumulate_CreatedAt = getT r ''created_at''\<rparr>"

definition OutputAddressAccumulateOut_key :: "OutputAddressAccumulate \<Rightarrow> cond list" where
  "OutputAddressAccumulateOut_key q = [Eq ''id'' (VS (OutputAddressAccumulate_ID q))]"

definition QueryOutputAddressAccumulateOut :: "session \<Rightarrow> OutputAddressAccumulate \<Rightarrow> dbstate \<Rightarrow> (OutputAddressAccumulate \<times> go_error option) \<times> dbstate" where
  "QueryOutputAddressAccumulateOut sess q = load_one sess TableOutputAddressAccumulateOut (OutputAddressAccumulateOut_key q) zero_OutputAddressAccumulate row_of_OutputAddressAccumulateOut"

definition OutputAddressAccumulateOut_cols :: "OutputAddressAccumulate \<Rightarrow> pairs" where
  "OutputAddressAccumulateOut_cols v =
      [(''id'', VS (OutputAddressAccumulate_ID v)),
      (''output_id'', VS (OutputAddressAccumulate_OutputID v)),
      (''address'', VS (OutputAddressAccumulate_Address v)),
      (''transaction_id'', VS (OutputAddressAccumulate_TransactionID v)),
      (''output_index'', VI (uint (OutputAddressAccumulate_OutputIndex v))),
      (''created_at'', VT (OutputAddressAccumulate_CreatedAt v))]"

definition OutputAddressAccumulateOut_sets :: "OutputAddressAccumulate \<Rightarrow> pairs" where
  "OutputAddressAccumulateOut_sets v =
      [(''output_id'', VS (OutputAddressAccumulate_OutputID v)),
      (''address'', VS (OutputAddressAccumulate_Address v)),
      (''transaction_id'', VS (OutputAddressAccumulate_TransactionID v)),
      (''output_index'', VI (uint (OutputAddressAccumulate_OutputIndex v))),
      (''created_at'', VT (OutputAddressAccumulate_CreatedAt v))]"

definition InsertOutputAddressAccumulateOut :: "session \<Rightarrow> OutputAddressAccumulate \<Rightarrow> bool \<Rightarrow> (dbstate, unit) go" where
  "InsertOutputAddressAccumulateOut sess v upd =
     go_then (exec_insert sess TableOutputAddressAccumulateOut TableOutputAddressAccumulateOut (OutputAddressAccumulateOut_cols v))
       (if upd
        then exec_update sess TableOutputAddressAccumulateOut TableAddressBech32 (OutputAddressAccumulateOut_sets v)
               [Eq ''id'' (VS (OutputAddressAccumulate_ID v))]
        else go_return ())"

definition row_of_OutputAddressAccumulateIn :: "row \<Rightarrow> OutputAddressAccumulate" where
  "row_of_OutputAddressAccumulateIn r =
    \<lparr>OutputAddressAccumulate_ID = getS r ''id'',
     OutputAddressAccumulate_OutputID = getS r ''output_id'',
     OutputAddressAccumulate_Address = getS r ''address'',
     OutputAddressAccumulate_Processed = getI r ''processed'',
     OutputAddressAccumulate_OutputProcessed = 0,
     OutputAddressAccumulate_TransactionID = getS r ''transaction_id'',
     OutputAddressAccumulate_OutputIndex = getW r ''output_index'',
     OutputAddressAccumulate_CreatedAt = getT r ''created_at''\<rparr>"

definition OutputAddressAccumulateIn_key :: "OutputAddressAccumulate \<Rightarrow> cond list" where
  "OutputAddressAccumulateIn_key q = [Eq ''id'' (VS (OutputAddressAccumulate_ID q))]"

definition QueryOutputAddressAccumulateIn :: "session \<Rightarrow> OutputAddressAccumulate \<Rightarrow> dbstate \<Rightarrow> (OutputAddressAccumulate \<times> go_error option) \<times> dbstate" where
  "QueryOutputAddressAccumulateIn sess q = load_one sess TableOutputAddressAccumulateIn (OutputAddressAccumulateIn_key q) zero_OutputAddressAccumulate row_of_OutputAddressAccumulateIn"

definition OutputAddressAccumulateIn_cols :: "OutputAddressAccumulate \<Rightarrow> pairs" where
  "OutputAddressAccumulateIn_cols v =
      [(''id'', VS (OutputAddressAccumulate_ID v)),
      (''output_id'', VS (OutputAddressAccumulate_OutputID v)),
      (''address'', VS (OutputAddressAccumulate_Address v)),
      (''transaction_id'', VS (OutputAddressAccumulate_TransactionID v)),
      (''output_index'', VI (uint (OutputAddressAccumulate_OutputIndex v))),
      (''created_at'', VT (OutputAddressAccumulate_CreatedAt v))]"

definition OutputAddressAccumulateIn_sets :: "OutputAddressAccumulate \<Rightarrow> pairs" where
  "OutputAddressAccumulateIn_sets v =
      [(''output_id'', VS (OutputAddressAccumulate_OutputID v)),
      (''address'', VS (OutputAddressAccumulate_Address v)),
      (''transaction_id'', VS (OutputAddressAccumulate_TransactionID v)),
      (''output_index'', VI (uint (OutputAddressAccumulate_OutputIndex v))),
      (''created_at'', VT (OutputAddressAccumulate_CreatedAt v))]"

definition InsertOutputAddressAccumulateIn :: "session \<Rightarrow> OutputAddressAccumulate \<Rightarrow> bool \<Rightarrow> (dbstate, unit) go" where
  "InsertOutputAddressAccumulateIn sess v upd =
     go_then (exec_insert sess TableOutputAddressAccumulateIn TableOutputAddressAccumulateIn (OutputAddressAccumulateIn_cols v))
       (if upd
        then exec_update sess TableOutputAddressAccumulateIn TableAddressBech32 (OutputAddressAccumulateIn_sets v)
               [Eq ''id'' (VS (OutputAddressAccumulate_ID v))]
        else go_return ())"

definition UpdateOutputAddressAccumulateInOutputsProcessed :: "session \<Rightarrow> string \<Rightarrow> (dbstate, unit) go" where
  "UpdateOutputAddressAccumulateInOutputsProcessed sess outputID =
     exec_update_status sess TableOutputAddressAccumulateIn TableOutputAddressAccumulateIn
       [(''output_processed'', VI 1)] [Eq ''output_id'' (VS outputID), Neq ''output_processed'' (VI 1)]"

definition OutputTxsAccumulate_ComputeID :: "extlib \<Rightarrow> OutputTxsAccumulate \<Rightarrow> go_error + OutputTxsAccumulate" where
  "OutputTxsAccumulate_ComputeID lib b =
     (let idsv = Join [OutputTxsAccumulate_ChainID b, OutputTxsAccumulate_AssetID b, OutputTxsAccumulate_Address b, OutputTxsAccumulate_TransactionID b] '':'' in
      case ToID lib (ComputeHash256 lib (bytes_of_string idsv)) of
        Inl err \<Rightarrow> Inl err
      | Inr i \<Rightarrow> Inr (b\<lparr>OutputTxsAccumulate_ID := ID_String lib i\<rparr>))"

definition row_of_OutputTxsAccumulate :: "row \<Rightarrow> OutputTxsAccumulate" where
  "row_of_OutputTxsAccumulate r =
    \<lparr>OutputTxsAccumulate_ID = getS r ''id'',
     OutputTxsAccumulate_ChainID = getS r ''chain_id'',
     OutputTxsAccumulate_AssetID = getS r ''asset_id'',
     OutputTxsAccumulate_Address = getS r ''address'',
     OutputTxsAccumulate_TransactionID = getS r ''transaction_id'',
     OutputTxsAccumulate_Processed = getI r ''processed'',
     OutputTxsAccumulate_CreatedAt = getT r ''created_at''\<rparr>"

definition OutputTxsAccumulate_key :: "OutputTxsAccumulate \<Rightarrow> cond list" where
  "OutputTxsAccumulate_key q = [Eq ''id'' (VS (OutputTxsAccumulate_ID q))]"

definition QueryOutputTxsAccumulate :: "session \<Rightarrow> OutputTxsAccumulate \<Rightarrow> dbstate \<Rightarrow> (OutputTxsAccumulate \<times> go_error option) \<times> dbstate" where
  "QueryOutputTxsAccumulate sess q = load_one sess TableOutputTxsAccumulate (OutputTxsAccumulate_key q) zero_OutputTxsAccumulate row_of_OutputTxsAccumulate"

definition OutputTxsAccumulate_cols :: "OutputTxsAccumulate \<Rightarrow> pairs" where
  "OutputTxsAccumulate_cols v =
      [(''id'', VS (OutputTxsAccumulate_ID v)),
      (''chain_id'', VS (OutputTxsAccumulate_ChainID v)),
      (''asset_id'', VS (OutputTxsAccumulate_AssetID v)),
      (''address'', VS (OutputTxsAccumulate_Address v)),
      (''transaction_id'', VS (OutputTxsAccumulate_TransactionID v)),
      (''created_at'', VT (OutputTxsAccumulate_CreatedAt v))]"

definition InsertOutputTxsAccumulate :: "session \<Rightarrow> OutputTxsAccumulate \<Rightarrow> (dbstate, unit) go" where
  "InsertOutputTxsAccumulate sess v = exec_insert sess TableOutputTxsAccumulate TableOutputTxsAccumulate (OutputTxsAccumulate_cols v)"

definition AccumulateBalancesAmount_ComputeID :: "extlib \<Rightarrow> AccumulateBalancesAmount \<Rightarrow> go_error + AccumulateBalancesAmount" where
  "AccumulateBalancesAmount_ComputeID lib b =
     (let idsv = Join [AccumulateBalancesAmount_ChainID b, AccumulateBalancesAmount_AssetID b, AccumulateBalancesAmount_Address b] '':'' in
      case ToID lib (ComputeHash256 lib (bytes_of_string idsv)) of
        Inl err \<Rightarrow> Inl err
      | Inr i \<Rightarrow> Inr (b\<lparr>AccumulateBalancesAmount_ID := ID_String lib i\<rparr>))"

definition row_of_AccumulateBalancesReceived :: "row \<Rightarrow> AccumulateBalancesAmount" where
  "row_of_AccumulateBalancesReceived r =
    \<lparr>AccumulateBalancesAmount_ID = getS r ''id'',
     AccumulateBalancesAmount_ChainID = getS r ''chain_id'',
     AccumulateBalancesAmount_AssetID = getS r ''asset_id'',
     AccumulateBalancesAmount_Address = getS r ''address'',
     AccumulateBalancesAmount_TotalAmount = getS r ''total_amount'',
     AccumulateBalancesAmount_UtxoCount = getS r ''utxo_count'',
     AccumulateBalancesAmount_UpdatedAt = getT r ''updated_at''\<rparr>"

definition AccumulateBalancesReceived_key :: "AccumulateBalancesAmount \<Rightarrow> cond list" where
  "AccumulateBalancesReceived_key q = [Eq ''id'' (VS (AccumulateBalancesAmount_ID q))]"

definition QueryAccumulateBalancesReceived :: "session \<Rightarrow> AccumulateBalancesAmount \<Rightarrow> dbstate \<Rightarrow> (AccumulateBalancesAmount \<times> go_error option) \<times> dbstate" where
  "QueryAccumulateBalancesReceived sess q = load_one sess TableAccumulateBalancesReceived (AccumulateBalancesReceived_key q) zero_AccumulateBalancesAmount row_of_AccumulateBalancesReceived"

definition AccumulateBalancesReceived_cols :: "AccumulateBalancesAmount \<Rightarrow> pairs" where
  "AccumulateBalancesReceived_cols v =
      [(''id'', VS (AccumulateBalancesAmount_ID v)),
      (''chain_id'', VS (AccumulateBalancesAmount_ChainID v)),
      (''asset_id'', VS (AccumulateBalancesAmount_AssetID v)),
      (''address'', VS (AccumulateBalancesAmount_Address v)),
      (''updated_at'', VT (AccumulateBalancesAmount_UpdatedAt v))]"

definition InsertAccumulateBalancesReceived :: "session \<Rightarrow> AccumulateBalancesAmount \<Rightarrow> (dbstate, unit) go" where
  "InsertAccumulateBalancesReceived sess v = exec_insert sess TableAccumulateBalancesReceived TableAccumulateBalancesReceived (AccumulateBalancesReceived_cols v)"

definition row_of_AccumulateBalancesSent :: "row \<Rightarrow> AccumulateBalancesAmount" where
  "row_of_AccumulateBalancesSent r =
    \<lparr>AccumulateBalancesAmount_ID = getS r ''id'',
     AccumulateBalancesAmount_ChainID = getS r ''chain_id'',
     AccumulateBalancesAmount_AssetID = getS r ''asset_id'',
     AccumulateBalancesAmount_Address = getS r ''address'',
     AccumulateBalancesAmount_TotalAmount = getS r ''total_amount'',
     AccumulateBalancesAmount_UtxoCount = getS r ''utxo_count'',
     AccumulateBalancesAmount_UpdatedAt = getT r ''updated_at''\<rparr>"

definition AccumulateBalancesSent_key :: "AccumulateBalancesAmount \<Rightarrow> cond list" where
  "AccumulateBalancesSent_key q = [Eq ''id'' (VS (AccumulateBalancesAmount_ID q))]"

definition QueryAccumulateBalancesSent :: "session \<Rightarrow> AccumulateBalancesAmount \<Rightarrow> dbstate \<Rightarrow> (AccumulateBalancesAmount \<times> go_error option) \<times> dbstate" where
  "QueryAccumulateBalancesSent sess q = load_one sess TableAccumulateBalancesSent (AccumulateBalancesSent_key q) zero_AccumulateBalancesAmount row_of_AccumulateBalancesSent"

definition AccumulateBalancesSent_cols :: "AccumulateBalancesAmount \<Rightarrow> pairs" where
  "AccumulateBalancesSent_cols v =
      [(''id'', VS (AccumulateBalancesAmount_ID v)),
      (''chain_id'', VS (AccumulateBalancesAmount_ChainID v)),
      (''asset_id'', VS (AccumulateBalancesAmount_AssetID v)),
      (''address'', VS (AccumulateBalancesAmount_Address v)),
      (''updated_at'', VT (AccumulateBalancesAmount_UpdatedAt v))]"

definition InsertAccumulateBalancesSent :: "session \<Rightarrow> AccumulateBalancesAmount \<Rightarrow> (dbstate, unit) go" where
  "InsertAccumulateBalancesSent sess v = exec_insert sess TableAccumulateBalancesSent TableAccumulateBalancesSent (AccumulateBalancesSent_cols v)"

definition AccumulateBalancesTransactions_ComputeID :: "extlib \<Rightarrow> AccumulateBalancesTransactions \<Rightarrow> go_error + AccumulateBalancesTransactions" where
  "AccumulateBalancesTransactions_ComputeID lib b =
     (let idsv = Join [AccumulateBalancesTransactions_ChainID b, AccumulateBalancesTransactions_AssetID b, AccumulateBalancesTransactions_Address b] '':'' in
      case ToID lib (ComputeHash256 lib (bytes_of_string idsv)) of
        Inl err \<Rightarrow> Inl err
      | Inr i \<Rightarrow> Inr (b\<lparr>AccumulateBalancesTransactions_ID := ID_String lib i\<rparr>))"

definition row_of_AccumulateBalancesTransactions :: "row \<Rightarrow> AccumulateBalancesTransactions" where
  "row_of_AccumulateBalancesTransactions r =
    \<lparr>AccumulateBalancesTransactions_ID = getS r ''id'',
     AccumulateBalancesTransactions_ChainID = getS r ''chain_id'',
     AccumulateBalancesTransactions_AssetID = getS r ''asset_id'',
     AccumulateBalancesTransactions_Address = getS r ''address'',
     AccumulateBalancesTransactions_TransactionCount = getS r ''transaction_count'',
     AccumulateBalancesTransactions_UpdatedAt = getT r ''updated_at''\<rparr>"

definition AccumulateBalancesTransactions_key :: "AccumulateBalancesTransactions \<Rightarrow> cond list" where
  "AccumulateBalancesTransactions_key q = [Eq ''id'' (VS (AccumulateBalancesTransactions_ID q))]"

definition QueryAccumulateBalancesTransactions :: "session \<Rightarrow> AccumulateBalancesTransactions \<Rightarrow> dbstate \<Rightarrow> (AccumulateBalancesTransactions \<times> go_error option) \<times> dbstate" where
  "QueryAccumulateBalancesTransactions sess q = load_one sess TableAccumulateBalancesTransactions (AccumulateBalancesTransactions_key q) zero_AccumulateBalancesTransactions row_of_AccumulateBalancesTransactions"

definition AccumulateBalancesTransactions_cols :: "AccumulateBalancesTransactions \<Rightarrow> pairs" where
  "AccumulateBalancesTransactions_cols v =
      [(''id'', VS (AccumulateBalancesTransactions_ID v)),
      (''chain_id'', VS (AccumulateBalancesTransactions_ChainID v)),
      (''asset_id'', VS (AccumulateBalancesTransactions_AssetID v)),
      (''address'', VS (AccumulateBalancesTransactions_Address v)),
      (''updated_at'', VT (AccumulateBalancesTransactions_UpdatedAt v))]"

definition InsertAccumulateBalancesTransactions :: "session \<Rightarrow> AccumulateBalancesTransactions \<Rightarrow> (dbstate, unit) go" where
  "InsertAccumulateBalancesTransactions sess v = exec_insert sess TableAccumulateBalancesTransactions TableAccumulateBalancesTransactions (AccumulateBalancesTransactions_cols v)"

definition row_of_TransactionsRewardsOwnersAddress :: "row \<Rightarrow> TransactionsRewardsOwnersAddress" where
  "row_of_TransactionsRewardsOwnersAddress r =
    \<lparr>TransactionsRewardsOwnersAddress_ID = getS r ''id'',
     TransactionsRewardsOwnersAddress_Address = getS r ''address'',
     TransactionsRewardsOwnersAddress_OutputIndex = getW r ''output_index'',
     TransactionsRewardsOwnersAddress_UpdatedAt = getT r ''updated_at''\<rparr>"

definition TransactionsRewardsOwnersAddress_key :: "TransactionsRewardsOwnersAddress \<Rightarrow> cond list" where
  "TransactionsRewardsOwnersAddress_key q = [Eq ''id'' (VS (TransactionsRewardsOwnersAddress_ID q)), Eq ''address'' (VS (TransactionsRewardsOwnersAddress_Address q))]"

definition QueryTransactionsRewardsOwnersAddress :: "session \<Rightarrow> TransactionsRewardsOwnersAddress \<Rightarrow> dbstate \<Rightarrow> (TransactionsRewardsOwnersAddress \<times> go_error option) \<times> dbstate" where
  "QueryTransactionsRewardsOwnersAddress sess q = load_one sess TableTransactionsRewardsOwnersAddress (TransactionsRewardsOwnersAddress_key q) zero_TransactionsRewardsOwnersAddress row_of_TransactionsRewardsOwnersAddress"

definition TransactionsRewardsOwnersAddress_cols :: "TransactionsRewardsOwnersAddress \<Rightarrow> pairs" where
  "TransactionsRewardsOwnersAddress_cols v =
      [(''id'', VS (TransactionsRewardsOwnersAddress_ID v)),
      (''address'', VS (TransactionsRewardsOwnersAddress_Address v)),
      (''output_index'', VI (uint (TransactionsRewardsOwnersAddress_OutputIndex v))),
      (''updated_at'', VT (TransactionsRewardsOwnersAddress_UpdatedAt v))]"

definition TransactionsRewardsOwnersAddress_sets :: "TransactionsRewardsOwnersAddress \<Rightarrow> pairs" where
  "TransactionsRewardsOwnersAddress_sets v =
      [(''output_index'', VI (uint (TransactionsRewardsOwnersAddress_OutputIndex v))),
      (''updated_at'', VT (TransactionsRewardsOwnersAddress_UpdatedAt v))]"

definition InsertTransactionsRewardsOwnersAddress :: "session \<Rightarrow> TransactionsRewardsOwnersAddress \<Rightarrow> bool \<Rightarrow> (dbstate, unit) go" where
  "InsertTransactionsRewardsOwnersAddress sess v upd =
     go_then (exec_insert sess TableTransactionsRewardsOwnersAddress TableTransactionsRewardsOwnersAddress (TransactionsRewardsOwnersAddress_cols v))
       (if upd
        then exec_update sess TableTransactionsRewardsOwnersAddress TableTransactionsRewardsOwnersAddress (TransactionsRewardsOwnersAddress_sets v)
               [Eq ''id'' (VS (TransactionsRewardsOwnersAddress_ID v)), Eq ''address'' (VS (TransactionsRewardsOwnersAddress_Address v))]
        else go_return ())"

definition row_of_TransactionsRewardsOwnersOutputs :: "row \<Rightarrow> TransactionsRewardsOwnersOutputs" where
  "row_of_TransactionsRewardsOwnersOutputs r =
    \<lparr>TransactionsRewardsOwnersOutputs_ID = getS r ''id'',
     TransactionsRewardsOwnersOutputs_TransactionID = getS r ''transaction_id'',
     TransactionsRewardsOwnersOutputs_OutputIndex = getW r ''output_index'',
     TransactionsRewardsOwnersOutputs_CreatedAt = getT r ''created_at''\<rparr>"

definition TransactionsRewardsOwnersOutputs_key :: "TransactionsRewardsOwnersOutputs \<Rightarrow> cond list" where
  "TransactionsRewardsOwnersOutputs_key q = [Eq ''id'' (VS (TransactionsRewardsOwnersOutputs_ID q))]"

definition QueryTransactionsRewardsOwnersOutputs :: "session \<Rightarrow> TransactionsRewardsOwnersOutputs \<Rightarrow> dbstate \<Rightarrow> (TransactionsRewardsOwnersOutputs \<times> go_error option) \<times> dbstate" where
  "QueryTransactionsRewardsOwnersOutputs sess q = load_one sess TableTransactionsRewardsOwnersOutputs (TransactionsRewardsOwnersOutputs_key q) zero_TransactionsRewardsOwnersOutputs row_of_TransactionsRewardsOwnersOutputs"

definition TransactionsRewardsOwnersOutputs_cols :: "TransactionsRewardsOwnersOutputs \<Rightarrow> pairs" where
  "TransactionsRewardsOwnersOutputs_cols v =
      [(''id'', VS (TransactionsRewardsOwnersOutputs_ID v)),
      (''transaction_id'', VS (TransactionsRewardsOwnersOutputs_TransactionID v)),
      (''output_index'', VI (uint (TransactionsRewardsOwnersOutputs_OutputIndex v))),
      (''created_at'', VT (TransactionsRewardsOwnersOutputs_CreatedAt v))]"

definition TransactionsRewardsOwnersOutputs_sets :: "TransactionsRewardsOwnersOutputs \<Rightarrow> pairs" where
  "TransactionsRewardsOwnersOutputs_sets v =
      [(''transaction_id'', VS (TransactionsRewardsOwnersOutputs_TransactionID v)),
      (''output_index'', VI (uint (TransactionsRewardsOwnersOutputs_OutputIndex v))),
      (''created_at'', VT (TransactionsRewardsOwnersOutputs_CreatedAt v))]"

definition InsertTransactionsRewardsOwnersOutputs :: "session \<Rightarrow> TransactionsRewardsOwnersOutputs \<Rightarrow> bool \<Rightarrow> (dbstate, unit) go" where
  "InsertTransactionsRewardsOwnersOutputs sess v upd =
     go_then (exec_insert sess TableTransactionsRewardsOwnersOutputs TableTransactionsRewardsOwnersOutputs (TransactionsRewardsOwnersOutputs_cols v))
       (if upd
        then exec_update sess TableTransactionsRewardsOwnersOutputs TableTransactionsRewardsOwnersOutputs (TransactionsRewardsOwnersOutputs_sets v)
               [Eq ''id'' (VS (TransactionsRewardsOwnersOutputs_ID v))]
        else go_return ())"

definition row_of_TransactionsRewardsOwners :: "row \<Rightarrow> TransactionsRewardsOwners" where
  "row_of_TransactionsRewardsOwners r =
    \<lparr>TransactionsRewardsOwners_ID = getS r ''id'',
     TransactionsRewardsOwners_ChainID = getS r ''chain_id'',
     TransactionsRewardsOwners_Threshold = getW r ''threshold'',
     TransactionsRewardsOwners_Locktime = getW r ''locktime'',
     TransactionsRewardsOwners_CreatedAt = getT r ''created_at''\<rparr>"

definition TransactionsRewardsOwners_key :: "TransactionsRewardsOwners \<Rightarrow> cond list" where
  "TransactionsRewardsOwners_key q = [Eq ''id'' (VS (TransactionsRewardsOwners_ID q))]"

definition QueryTransactionsRewardsOwners :: "session \<Rightarrow> TransactionsRewardsOwners \<Rightarrow> dbstate \<Rightarrow> (TransactionsRewardsOwners \<times> go_error option) \<times> dbstate" where
  "QueryTransactionsRewardsOwners sess q = load_one sess TableTransactionsRewardsOwners (TransactionsRewardsOwners_key q) zero_TransactionsRewardsOwners row_of_TransactionsRewardsOwners"

definition TransactionsRewardsOwners_cols :: "TransactionsRewardsOwners \<Rightarrow> pairs" where
  "TransactionsRewardsOwners_cols v =
      [(''id'', VS (TransactionsRewardsOwners_ID v)),
      (''chain_id'', VS (TransactionsRewardsOwners_ChainID v)),
      (''locktime'', VI (uint (TransactionsRewardsOwners_Locktime v))),
      (''threshold'', VI (uint (TransactionsRewardsOwners_Threshold v))),
      (''created_at'', VT (TransactionsRewardsOwners_CreatedAt v))]"

definition TransactionsRewardsOwners_sets :: "TransactionsRewardsOwners \<Rightarrow> pairs" where
  "TransactionsRewardsOwners_sets v =
      [(''chain_id'', VS (TransactionsRewardsOwners_ChainID v)),
      (''locktime'', VI (uint (TransactionsRewardsOwners_Locktime v))),
      (''threshold'', VI (uint (TransactionsRewardsOwners_Threshold v))),
      (''created_at'', VT (TransactionsRewardsOwners_CreatedAt v))]"

definition InsertTransactionsRewardsOwners :: "session \<Rightarrow> TransactionsRewardsOwners \<Rightarrow> bool \<Rightarrow> (dbstate, unit) go" where
  "InsertTransactionsRewardsOwners sess v upd =
     go_then (exec_insert sess TableTransactionsRewardsOwners TableTransactionsRewardsOwners (TransactionsRewardsOwners_cols v))
       (if upd
        then exec_update sess TableTransactionsRewardsOwners TableTransactionsRewardsOwners (TransactionsRewardsOwners_sets v)
               [Eq ''id'' (VS (TransactionsRewardsOwners_ID v))]
        else go_return ())"

definition TxPool_ComputeID :: "extlib \<Rightarrow> TxPool \<Rightarrow> go_error + TxPool" where
  "TxPool_ComputeID lib b =
     (let idsv = Join [TxPool_MsgKey b, TxPool_Topic b] '':'' in
      case ToID lib (ComputeHash256 lib (bytes_of_string idsv)) of
        Inl err \<Rightarrow> Inl err
      | Inr i \<Rightarrow> Inr (b\<lparr>TxPool_ID := ID_String lib i\<rparr>))"

definition row_of_TxPool :: "row \<Rightarrow> TxPool" where
  "row_of_TxPool r =
    \<lparr>TxPool_ID = getS r ''id'',
     TxPool_NetworkID = getW r ''network_id'',
     TxPool_ChainID = getS r ''chain_id'',
     TxPool_MsgKey = getS r ''msg_key'',
     TxPool_Serialization = getB r ''serialization'',
     TxPool_Processed = getI r ''processed'',
     TxPool_Topic = getS r ''topic'',
     TxPool_CreatedAt = getT r ''created_at''\<rparr>"

definition TxPool_key :: "TxPool \<Rightarrow> cond list" where
  "TxPool_key q = [Eq ''id'' (VS (TxPool_ID q))]"

definition QueryTxPool :: "session \<Rightarrow> TxPool \<Rightarrow> dbstate \<Rightarrow> (TxPool \<times> go_error option) \<times> dbstate" where
  "QueryTxPool sess q = load_one sess TableTxPool (TxPool_key q) zero_TxPool row_of_TxPool"

definition TxPool_cols :: "TxPool \<Rightarrow> pairs" where
  "TxPool_cols v =
      [(''id'', VS (TxPool_ID v)), (''network_id'', VI (uint (TxPool_NetworkID v))),
      (''chain_id'', VS (TxPool_ChainID v)), (''msg_key'', VS (TxPool_MsgKey v)),
      (''serialization'', VBytes (TxPool_Serialization v)),
      (''processed'', VI (TxPool_Processed v)), (''topic'', VS (TxPool_Topic v)),
      (''created_at'', VT (TxPool_CreatedAt v))]"

definition InsertTxPool :: "session \<Rightarrow> TxPool \<Rightarrow> (dbstate, unit) go" where
  "InsertTxPool sess v = exec_insert sess TableTxPool TableTxPool (TxPool_cols v)"

definition UpdateTxPoolStatus :: "session \<Rightarrow> TxPool \<Rightarrow> (dbstate, unit) go" where
  "UpdateTxPoolStatus sess v =
     exec_update_status sess TableTxPool TableTxPool
      [(''processed'', VI (TxPool_Processed v))]
      [Eq ''id'' (VS (TxPool_ID v))]"

definition row_of_KeyValueStore :: "row \<Rightarrow> KeyValueStore" where
  "row_of_KeyValueStore r =
    \<lparr>KeyValueStore_K = getS r ''k'',
     KeyValueStore_V = getS r ''v''\<rparr>"

definition KeyValueStore_key :: "KeyValueStore \<Rightarrow> cond list" where
  "KeyValueStore_key q = [Eq ''k'' (VS (KeyValueStore_K q))]"

definition QueryKeyValueStore :: "session \<Rightarrow> KeyValueStore \<Rightarrow> dbstate \<Rightarrow> (KeyValueStore \<times> go_error option) \<times> dbstate" where
  "QueryKeyValueStore sess q = load_one sess TableKeyValueStore (KeyValueStore_key q) zero_KeyValueStore row_of_KeyValueStore"

definition KeyValueStore_cols :: "KeyValueStore \<Rightarrow> pairs" where
  "KeyValueStore_cols v =
      [(''k'', VS (KeyValueStore_K v)), (''v'', VS (KeyValueStore_V v))]"

definition InsertKeyValueStore :: "session \<Rightarrow> KeyValueStore \<Rightarrow> (dbstate, unit) go" where
  "InsertKeyValueStore sess v = exec_insert sess TableKeyValueStore TableKeyValueStore (KeyValueStore_cols v)"

definition row_of_CvmTransactionsTxdataTrace :: "row \<Rightarrow> CvmTransactionsTxdataTrace" where
  "row_of_CvmTransactionsTxdataTrace r =
    \<lparr>CvmTransactionsTxdataTrace_Hash = getS r ''hash'',
     CvmTransactionsTxdataTrace_Idx = getW r ''idx'',
     CvmTransactionsTxdataTrace_ToAddr = getS r ''to_addr'',
     CvmTransactionsTxdataTrace_FromAddr = getS r ''from_addr'',
     CvmTransactionsTxdataTrace_CallType = getS r ''call_type'',
     CvmTransactionsTxdataTrace_Type = getS r ''type'',
     CvmTransactionsTxdataTrace_Serialization = getB r ''serialization'',
     CvmTransactionsTxdataTrace_CreatedAt = getT r ''created_at''\<rparr>"

definition CvmTransactionsTxdataTrace_key :: "CvmTransactionsTxdataTrace \<Rightarrow> cond list" where
  "CvmTransactionsTxdataTrace_key q = [Eq ''hash'' (VS (CvmTransactionsTxdataTrace_Hash q)), Eq ''idx'' (VI (uint (CvmTransactionsTxdataTrace_Idx q)))]"

definition QueryCvmTransactionsTxdataTrace :: "session \<Rightarrow> CvmTransactionsTxdataTrace \<Rightarrow> dbstate \<Rightarrow> (CvmTransactionsTxdataTrace \<times> go_error option) \<times> dbstate" where
  "QueryCvmTransactionsTxdataTrace sess q = load_one sess TableCvmTransactionsTxdataTrace (CvmTransactionsTxdataTrace_key q) zero_CvmTransactionsTxdataTrace row_of_CvmTransactionsTxdataTrace"

definition CvmTransactionsTxdataTrace_cols :: "CvmTransactionsTxdataTrace \<Rightarrow> pairs" where
  "CvmTransactionsTxdataTrace_cols v =
      [(''hash'', VS (CvmTransactionsTxdataTrace_Hash v)),
      (''idx'', VI (uint (CvmTransactionsTxdataTrace_Idx v))),
      (''to_addr'', VS (CvmTransactionsTxdataTrace_ToAddr v)),
      (''from_addr'', VS (CvmTransactionsTxdataTrace_FromAddr v)),
      (''call_type'', VS (CvmTransactionsTxdataTrace_CallType v)),
      (''type'', VS (CvmTransactionsTxdataTrace_Type v)),
      (''serialization'', VBytes (CvmTransactionsTxdataTrace_Serialization v)),
      (''created_at'', VT (CvmTransactionsTxdataTrace_CreatedAt v))]"

definition CvmTransactionsTxdataTrace_sets :: "CvmTransactionsTxdataTrace \<Rightarrow> pairs" where
  "CvmTransactionsTxdataTrace_sets v =
      [(''to_addr'', VS (CvmTransactionsTxdataTrace_ToAddr v)),
      (''from_addr'', VS (CvmTransactionsTxdataTrace_FromAddr v)),
      (''call_type'', VS (CvmTransactionsTxdataTrace_CallType v)),
      (''type'', VS (CvmTransactionsTxdataTrace_Type v)),
      (''serialization'', VBytes (CvmTransactionsTxdataTrace_Serialization v)),
      (''created_at'', VT (CvmTransactionsTxdataTrace_CreatedAt v))]"

definition InsertCvmTransactionsTxdataTrace :: "session \<Rightarrow> CvmTransactionsTxdataTrace \<Rightarrow> bool \<Rightarrow> (dbstate, unit) go" where
  "InsertCvmTransactionsTxdataTrace sess v upd =
     go_then (exec_insert sess TableCvmTransactionsTxdataTrace TableCvmTransactionsTxdataTrace (CvmTransactionsTxdataTrace_cols v))
       (if upd
        then exec_update sess TableCvmTransactionsTxdataTrace TableCvmTransactionsTxdataTrace (CvmTransactionsTxdataTrace_sets v)
               [Eq ''hash'' (VS (CvmTransactionsTxdataTrace_Hash v)), Eq ''idx'' (VI (uint (CvmTransactionsTxdataTrace_Idx v)))]
        else go_return ())"

definition row_of_NodeIndex :: "row \<Rightarrow> NodeIndex" where
  "row_of_NodeIndex r =
    \<lparr>NodeIndex_Instance = getS r ''instance'',
     NodeIndex_Topic = getS r ''topic'',
     NodeIndex_Idx = getW r ''idx''\<rparr>"

definition NodeIndex_key :: "NodeIndex \<Rightarrow> cond list" where
  "NodeIndex_key q = [Eq ''instance'' (VS (NodeIndex_Instance q)), Eq ''topic'' (VS (NodeIndex_Topic q))]"

definition QueryNodeIndex :: "session \<Rightarrow> NodeIndex \<Rightarrow> dbstate \<Rightarrow> (NodeIndex \<times> go_error option) \<times> dbstate" where
  "QueryNodeIndex sess q = load_one sess TableNodeIndex (NodeIndex_key q) zero_NodeIndex row_of_NodeIndex"

definition NodeIndex_cols :: "NodeIndex \<Rightarrow> pairs" where
  "NodeIndex_cols v =
      [(''instance'', VS (NodeIndex_Instance v)), (''topic'', VS (NodeIndex_Topic v)),
      (''idx'', VI (uint (NodeIndex_Idx v)))]"

definition NodeIndex_sets :: "NodeIndex \<Rightarrow> pairs" where
  "NodeIndex_sets v =
      [(''idx'', VI (uint (NodeIndex_Idx v)))]"

definition InsertNodeIndex :: "session \<Rightarrow> NodeIndex \<Rightarrow> bool \<Rightarrow> (dbstate, unit) go" where
  "InsertNodeIndex sess v upd =
     go_then (exec_insert sess TableNodeIndex TableNodeIndex (NodeIndex_cols v))
       (if upd
        then exec_update sess TableNodeIndex TableNodeIndex (NodeIndex_sets v)
               [Eq ''instance'' (VS (NodeIndex_Instance v)), Eq ''topic'' (VS (NodeIndex_Topic v))]
        else go_return ())"

definition UpdateNodeIndex :: "session \<Rightarrow> NodeIndex \<Rightarrow> (dbstate, unit) go" where
  "UpdateNodeIndex sess v =
     exec_update sess TableNodeIndex TableNodeIndex
      [(''idx'', VI (uint (NodeIndex_Idx v)))]
      [Eq ''instance'' (VS (NodeIndex_Instance v)), Eq ''topic'' (VS (NodeIndex_Topic v))]"

definition CvmLogs_ComputeID :: "extlib \<Rightarrow> CvmLogs \<Rightarrow> go_error + CvmLogs" where
  "CvmLogs_ComputeID lib b =
     (let idsv = Join [CvmLogs_BlockHash b, CvmLogs_TxHash b, nat_digits (unat (CvmLogs_LogIndex b))] '':'' in
      case ToID lib (ComputeHash256 lib (bytes_of_string idsv)) of
        Inl err \<Rightarrow> Inl err
      | Inr i \<Rightarrow> Inr (b\<lparr>CvmLogs_ID := ID_String lib i\<rparr>))"

definition row_of_CvmLogs :: "row \<Rightarrow> CvmLogs" where
  "row_of_CvmLogs r =
    \<lparr>CvmLogs_ID = getS r ''id'',
     CvmLogs_BlockHash = getS r ''block_hash'',
     CvmLogs_TxHash = getS r ''tx_hash'',
     CvmLogs_LogIndex = getW r ''log_index'',
     CvmLogs_FirstTopic = getS r ''first_topic'',
     CvmLogs_Block = getS r ''block'',
     CvmLogs_Removed = getBool r ''removed'',
     CvmLogs_CreatedAt = getT r ''created_at'',
     CvmLogs_Serialization = getB r ''serialization''\<rparr>"

definition CvmLogs_key :: "CvmLogs \<Rightarrow> cond list" where
  "CvmLogs_key q = [Eq ''id'' (VS (CvmLogs_ID q))]"

definition QueryCvmLogs :: "session \<Rightarrow> CvmLogs \<Rightarrow> dbstate \<Rightarrow> (CvmLogs \<times> go_error option) \<times> dbstate" where
  "QueryCvmLogs sess q = load_one sess TableCvmLogs (CvmLogs_key q) zero_CvmLogs row_of_CvmLogs"

definition CvmLogs_cols :: "CvmLogs \<Rightarrow> pairs" where
  "CvmLogs_cols v =
      [(''id'', VS (CvmLogs_ID v)), (''block_hash'', VS (CvmLogs_BlockHash v)),
      (''tx_hash'', VS (CvmLogs_TxHash v)),
      (''log_index'', VI (uint (CvmLogs_LogIndex v))),
      (''first_topic'', VS (CvmLogs_FirstTopic v)), (''block'', VRaw (CvmLogs_Block v)),
      (''removed'', VI (of_bool (CvmLogs_Removed v))),
      (''created_at'', VT (CvmLogs_CreatedAt v)),
      (''serialization'', VBytes (CvmLogs_Serialization v))]"

definition CvmLogs_sets :: "CvmLogs \<Rightarrow> pairs" where
  "CvmLogs_sets v =
      [(''block_hash'', VS (CvmLogs_BlockHash v)), (''tx_hash'', VS (CvmLogs_TxHash v)),
      (''log_index'', VI (uint (CvmLogs_LogIndex v))),
      (''first_topic'', VS (CvmLogs_FirstTopic v)), (''block'', VRaw (CvmLogs_Block v)),
      (''removed'', VI (of_bool (CvmLogs_Removed v))),
      (''serialization'', VBytes (CvmLogs_Serialization v)),
      (''created_at'', VT (CvmLogs_CreatedAt v))]"

definition InsertCvmLogs :: "session \<Rightarrow> CvmLogs \<Rightarrow> bool \<Rightarrow> (dbstate, unit) go" where
  "InsertCvmLogs sess v upd =
     go_then (exec_insert sess TableCvmLogs TableCvmLogs (CvmLogs_cols v))
       (if upd
        then exec_update sess TableCvmLogs TableCvmLogs (CvmLogs_sets v)
               [Eq ''id'' (VS (CvmLogs_ID v))]
        else go_return ())"

definition row_of_PvmProposer :: "row \<Rightarrow> PvmProposer" where
  "row_of_PvmProposer r =
    \<lparr>PvmProposer_ID = getS r ''id'',
     PvmProposer_ParentID = getS r ''parent_id'',
     PvmProposer_BlkID = getS r ''blk_id'',
     PvmProposer_ProposerBlkID = getS r ''proposer_blk_id'',
     PvmProposer_CoreChainHeight = 0,
     PvmProposer_Proposer = getS r ''proposer'',
     PvmProposer_TimeStamp = getT r ''time_stamp'',
     PvmProposer_CreatedAt = getT r ''created_at''\<rparr>"

definition PvmProposer_key :: "PvmProposer \<Rightarrow> cond list" where
  "PvmProposer_key q = [Eq ''id'' (VS (PvmProposer_ID q))]"

definition QueryPvmProposer :: "session \<Rightarrow> PvmProposer \<Rightarrow> dbstate \<Rightarrow> (PvmProposer \<times> go_error option) \<times> dbstate" where
  "QueryPvmProposer sess q = load_one sess TablePvmProposer (PvmProposer_key q) zero_PvmProposer row_of_PvmProposer"

definition PvmProposer_cols :: "PvmProposer \<Rightarrow> pairs" where
  "PvmProposer_cols v =
      [(''id'', VS (PvmProposer_ID v)), (''parent_id'', VS (PvmProposer_ParentID v)),
      (''blk_id'', VS (PvmProposer_BlkID v)),
      (''p_chain_height'', VI (uint (PvmProposer_CoreChainHeight v))),
      (''proposer'', VS (PvmProposer_Proposer v)),
      (''time_stamp'', VT (PvmProposer_TimeStamp v)),
      (''created_at'', VT (PvmProposer_CreatedAt v)),
      (''proposer_blk_id'', VS (PvmProposer_ProposerBlkID v))]"

definition PvmProposer_sets :: "PvmProposer \<Rightarrow> pairs" where
  "PvmProposer_sets v =
      [(''parent_id'', VS (PvmProposer_ParentID v)), (''blk_id'', VS (PvmProposer_BlkID v)),
      (''p_chain_height'', VI (uint (PvmProposer_CoreChainHeight v))),
      (''proposer'', VS (PvmProposer_Proposer v)),
      (''time_stamp'', VT (PvmProposer_TimeStamp v)),
      (''created_at'', VT (PvmProposer_CreatedAt v)),
      (''proposer_blk_id'', VS (PvmProposer_ProposerBlkID v))]"

definition InsertPvmProposer :: "session \<Rightarrow> PvmProposer \<Rightarrow> bool \<Rightarrow> (dbstate, unit) go" where
  "InsertPvmProposer sess v upd =
     go_then (exec_insert sess TablePvmProposer TableCvmTransactionsTxdataTrace (PvmProposer_cols v))
       (if upd
        then exec_update sess TablePvmProposer TablePvmProposer (PvmProposer_sets v)
               [Eq ''id'' (VS (PvmProposer_ID v))]
        else go_return ())"

section \<open>The Persist interface\<close>

datatype (plugins only: code) pcall =
    PInsertTransactions Transactions bool
  | PInsertOutputsRedeeming OutputsRedeeming bool
  | PInsertOutputs Outputs bool
  | PInsertAssets Assets bool
  | PInsertAddresses Addresses bool
  | PInsertAddressChain AddressChain bool
  | PInsertOutputAddresses OutputAddresses bool
  | PUpdateOutputAddresses OutputAddresses
  | PInsertTransactionsEpoch TransactionsEpoch bool
  | PInsertCvmBlocks CvmBlocks
  | PInsertCvmAddresses CvmAddresses bool
  | PInsertCvmTransactions CvmTransactions bool
  | PInsertCvmTransactionsTxdata CvmTransactionsTxdata bool
  | PInsertPvmBlocks PvmBlocks bool
  | PInsertRewards Rewards bool
  | PUpdateRewardsProcessed Rewards
  | PInsertTransactionsValidator TransactionsValidator bool
  | PInsertTransactionsBlock TransactionsBlock bool
  | PInsertAddressBech32 AddressBech32 bool
  | PInsertOutputAddressAccumulateOut OutputAddressAccumulate bool
  | PInsertOutputAddressAccumulateIn OutputAddressAccumulate bool
  | PUpdateOutputAddressAccumulateInOutputsProcessed string
  | PInsertOutputTxsAccumulate OutputTxsAccumulate
  | PInsertAccumulateBalancesReceived AccumulateBalancesAmount
  | PInsertAccumulateBalancesSent AccumulateBalancesAmount
  | PInsertAccumulateBalancesTransactions AccumulateBalancesTransactions
  | PInsertTransactionsRewardsOwnersAddress TransactionsRewardsOwnersAddress bool
  | PInsertTransactionsRewardsOwnersOutputs TransactionsRewardsOwnersOutputs bool
  | PInsertTransactionsRewardsOwners TransactionsRewardsOwners bool
  | PInsertTxPool TxPool
  | PUpdateTxPoolStatus TxPool
  | PInsertKeyValueStore KeyValueStore
  | PInsertCvmTransactionsTxdataTrace CvmTransactionsTxdataTrace bool
  | PInsertNodeIndex NodeIndex bool
  | PUpdateNodeIndex NodeIndex
  | PInsertCvmLogs CvmLogs bool
  | PInsertPvmProposer PvmProposer bool

primrec persist_exec :: "session \<Rightarrow> pcall \<Rightarrow> (dbstate, unit) go" where
  "persist_exec sess (PInsertTransactions v upd) = InsertTransactions sess v upd"
| "persist_exec sess (PInsertOutputsRedeeming v upd) = InsertOutputsRedeeming sess v upd"
| "persist_exec sess (PInsertOutputs v upd) = InsertOutputs sess v upd"
| "persist_exec sess (PInsertAssets v upd) = InsertAssets sess v upd"
| "persist_exec sess (PInsertAddresses v upd) = InsertAddresses sess v upd"
| "persist_exec sess (PInsertAddressChain v upd) = InsertAddressChain sess v upd"
| "persist_exec sess (PInsertOutputAddresses v upd) = InsertOutputAddresses sess v upd"
| "persist_exec sess (PUpdateOutputAddresses v) = UpdateOutputAddresses sess v"
| "persist_exec sess (PInsertTransactionsEpoch v upd) = InsertTransactionsEpoch sess v upd"
| "persist_exec sess (PInsertCvmBlocks v) = InsertCvmBlocks sess v"
| "persist_exec sess (PInsertCvmAddresses v upd) = InsertCvmAddresses sess v upd"
| "persist_exec sess (PInsertCvmTransactions v upd) = InsertCvmTransactions sess v upd"
| "persist_exec sess (PInsertCvmTransactionsTxdata v upd) = InsertCvmTransactionsTxdata sess v upd"
| "persist_exec sess (PInsertPvmBlocks v upd) = InsertPvmBlocks sess v upd"
| "persist_exec sess (PInsertRewards v upd) = InsertRewards sess v upd"
| "persist_exec sess (PUpdateRewardsProcessed v) = UpdateRewardsProcessed sess v"
| "persist_exec sess (PInsertTransactionsValidator v upd) = InsertTransactionsValidator sess v upd"
| "persist_exec sess (PInsertTransactionsBlock v upd) = InsertTransactionsBlock sess v upd"
| "persist_exec sess (PInsertAddressBech32 v upd) = InsertAddressBech32 sess v upd"
| "persist_exec sess (PInsertOutputAddressAccumulateOut v upd) = InsertOutputAddressAccumulateOut sess v upd"
| "persist_exec sess (PInsertOutputAddressAccumulateIn v upd) = InsertOutputAddressAccumulateIn sess v upd"
| "persist_exec sess (PUpdateOutputAddressAccumulateInOutputsProcessed v) = UpdateOutputAddressAccumulateInOutputsProcessed sess v"
| "persist_exec sess (PInsertOutputTxsAccumulate v) = InsertOutputTxsAccumulate sess v"
| "persist_exec sess (PInsertAccumulateBalancesReceived v) = InsertAccumulateBalancesReceived sess v"
| "persist_exec sess (PInsertAccumulateBalancesSent v) = InsertAccumulateBalancesSent sess v"
| "persist_exec sess (PInsertAccumulateBalancesTransactions v) = InsertAccumulateBalancesTransactions sess v"
| "persist_exec sess (PInsertTransactionsRewardsOwnersAddress v upd) = InsertTransactionsRewardsOwnersAddress sess v upd"
| "persist_exec sess (PInsertTransactionsRewardsOwnersOutputs v upd) = InsertTransactionsRewardsOwnersOutputs sess v upd"
| "persist_exec sess (PInsertTransactionsRewardsOwners v upd) = InsertTransactionsRewardsOwners sess v upd"
| "persist_exec sess (PInsertTxPool v) = InsertTxPool sess v"
| "persist_exec sess (PUpdateTxPoolStatus v) = UpdateTxPoolStatus sess v"
| "persist_exec sess (PInsertKeyValueStore v) = InsertKeyValueStore sess v"
| "persist_exec sess (PInsertCvmTransactionsTxdataTrace v upd) = InsertCvmTransactionsTxdataTrace sess v upd"
| "persist_exec sess (PInsertNodeIndex v upd) = InsertNodeIndex sess v upd"
| "persist_exec sess (PUpdateNodeIndex v) = UpdateNodeIndex sess v"
| "persist_exec sess (PInsertCvmLogs v upd) = InsertCvmLogs sess v upd"
| "persist_exec sess (PInsertPvmProposer v upd) = InsertPvmProposer sess v upd"

end
