(* ===== verification/DbSpec.thy ===== *)
theory DbSpec
  imports DbModel
begin

text \<open>
  What the functions of \<open>dbmodel.go\<close> promise, table by table. The locale \<open>dao\<close> is the contract
  of one table: the row an insert writes is found by the table's key and decodes to the value
  that was stored, and a key conflict is exactly a row with the same key. Its lemmas (an
  insert followed by a query, a second insert, the rows of other keys) are proved once and
  hold of every table through its interpretation. \<open>dao_upd\<close> adds the update that some inserts
  perform when they are asked to.
\<close>

named_theorems dao_defs "definitions that evaluate the columns of a table"

lemma ToLower_columns [dao_defs]:
  "ToLower ''address'' = ''address''" "ToLower ''alias'' = ''alias''"
  "ToLower ''amount'' = ''amount''" "ToLower ''asset_id'' = ''asset_id''"
  "ToLower ''bech32_address'' = ''bech32_address''" "ToLower ''blk_id'' = ''blk_id''"
  "ToLower ''block'' = ''block''" "ToLower ''block_hash'' = ''block_hash''"
  "ToLower ''block_id'' = ''block_id''" "ToLower ''blockchain_id'' = ''blockchain_id''"
  "ToLower ''call_type'' = ''call_type''" "ToLower ''canonical_serialization'' = ''canonical_serialization''"
  "ToLower ''chain_Id'' = ''chain_id''" "ToLower ''chain_id'' = ''chain_id''"
  "ToLower ''created_at'' = ''created_at''" "ToLower ''current_supply'' = ''current_supply''"
  "ToLower ''denomination'' = ''denomination''" "ToLower ''end'' = ''end''"
  "ToLower ''epoch'' = ''epoch''" "ToLower ''first_topic'' = ''first_topic''"
  "ToLower ''from_addr'' = ''from_addr''" "ToLower ''frozen'' = ''frozen''"
  "ToLower ''genesis'' = ''genesis''" "ToLower ''genesisutxo'' = ''genesisutxo''"
  "ToLower ''group_id'' = ''group_id''" "ToLower ''hash'' = ''hash''"
  "ToLower ''height'' = ''height''" "ToLower ''id'' = ''id''"
  "ToLower ''idx'' = ''idx''" "ToLower ''instance'' = ''instance''"
  "ToLower ''intx'' = ''intx''" "ToLower ''k'' = ''k''"
  "ToLower ''locktime'' = ''locktime''" "ToLower ''log_index'' = ''log_index''"
  "ToLower ''memo'' = ''memo''" "ToLower ''msg_key'' = ''msg_key''"
  "ToLower ''name'' = ''name''" "ToLower ''network_id'' = ''network_id''"
  "ToLower ''node_id'' = ''node_id''" "ToLower ''nonce'' = ''nonce''"
  "ToLower ''output_id'' = ''output_id''" "ToLower ''output_index'' = ''output_index''"
  "ToLower ''output_processed'' = ''output_processed''" "ToLower ''output_type'' = ''output_type''"
  "ToLower ''p_chain_height'' = ''p_chain_height''" "ToLower ''parent_hash'' = ''parent_hash''"
  "ToLower ''parent_id'' = ''parent_id''" "ToLower ''payload'' = ''payload''"
  "ToLower ''processed'' = ''processed''" "ToLower ''proposer'' = ''proposer''"
  "ToLower ''proposer_blk_id'' = ''proposer_blk_id''" "ToLower ''public_key'' = ''public_key''"
  "ToLower ''rcpt'' = ''rcpt''" "ToLower ''redeemed_at'' = ''redeemed_at''"
  "ToLower ''redeeming_signature'' = ''redeeming_signature''" "ToLower ''redeeming_transaction_id'' = ''redeeming_transaction_id''"
  "ToLower ''removed'' = ''removed''" "ToLower ''serialization'' = ''serialization''"
  "ToLower ''shouldprefercommit'' = ''shouldprefercommit''" "ToLower ''stake'' = ''stake''"
  "ToLower ''stake_locktime'' = ''stake_locktime''" "ToLower ''stakeableout'' = ''stakeableout''"
  "ToLower ''start'' = ''start''" "ToLower ''symbol'' = ''symbol''"
  "ToLower ''threshold'' = ''threshold''" "ToLower ''time_stamp'' = ''time_stamp''"
  "ToLower ''to_addr'' = ''to_addr''" "ToLower ''topic'' = ''topic''"
  "ToLower ''transaction_id'' = ''transaction_id''" "ToLower ''tx_block_id'' = ''tx_block_id''"
  "ToLower ''tx_hash'' = ''tx_hash''" "ToLower ''tx_time'' = ''tx_time''"
  "ToLower ''txfee'' = ''txfee''" "ToLower ''txid'' = ''txid''"
  "ToLower ''type'' = ''type''" "ToLower ''updated_at'' = ''updated_at''"
  "ToLower ''v'' = ''v''" "ToLower ''vertex_id'' = ''vertex_id''"
  by (simp_all add: ToLower_def lower_char_def char_of_eq_iff)

lemma Itoa_0 [dao_defs]: "Itoa 0 = ''0''"
  by (simp add: Itoa_def nat_digits_small digit_char_def char_of_eq_iff)

lemmas dao_simps = dao_defs new_row_def norm_pairs_def column_defaults_def unique_keys_def
  conflicts_def agree_on_def matches_def getS_def getI_def getW_def getBool_def getB_def getT_def

section \<open>The contract of a table\<close>

locale dao_base =
  fixes tbl :: string
    and cols :: "'v \<Rightarrow> pairs"
    and key :: "'v \<Rightarrow> cond list"
    and dec :: "row \<Rightarrow> 'v"
    and stored :: "'v \<Rightarrow> 'v"
  assumes dec_new: "dec (new_row tbl (cols v)) = stored v"
    and key_new: "matches (key v) (new_row tbl (cols v))"
    and key_conflict: "matches (key v) r \<Longrightarrow> conflicts tbl (new_row tbl (cols v)) r"
begin

text \<open>A second insert under a key that is taken changes nothing.\<close>

lemma ins_taken: "sql_select tbl (key v) T \<noteq> [] \<Longrightarrow> ins_ignore tbl (cols v) T = T"
  by (rule ins_ignore_present)
    (auto simp: sql_select_def list_ex_iff filter_empty_conv intro: key_conflict)

lemma ins_twice: "ins_ignore tbl (cols v) (ins_ignore tbl (cols v) T) = ins_ignore tbl (cols v) T"
proof (cases "list_ex (conflicts tbl (new_row tbl (cols v))) (T tbl)")
  case True
  then show ?thesis by (simp add: ins_ignore_present)
next
  case False
  have "sql_select tbl (key v) (ins_ignore tbl (cols v) T) \<noteq> []"
    using False key_new by (auto simp: ins_ignore_fresh sql_select_def)
  then show ?thesis by (rule ins_taken)
qed

text \<open>The rows found under other keys stay.\<close>

lemma select_other:
  assumes "\<not> matches cs (new_row tbl (cols v))"
  shows "sql_select tbl cs (ins_ignore tbl (cols v) T) = sql_select tbl cs T"
  using assms
  by (cases "list_ex (conflicts tbl (new_row tbl (cols v))) (T tbl)")
    (simp_all add: ins_ignore_present ins_ignore_fresh sql_select_def)

end

locale dao = dao_base +
  assumes conflict_key: "conflicts tbl (new_row tbl (cols v)) r \<Longrightarrow> matches (key v) r"
begin

lemma conflict_iff: "list_ex (conflicts tbl (new_row tbl (cols v))) (T tbl) \<longleftrightarrow> sql_select tbl (key v) T \<noteq> []"
  by (auto simp: list_ex_iff sql_select_def filter_empty_conv dest: conflict_key key_conflict)

lemma select_ins:
  "sql_select tbl (key v) (ins_ignore tbl (cols v) T) =
     (if sql_select tbl (key v) T = [] then [new_row tbl (cols v)] else sql_select tbl (key v) T)"
  using conflict_iff [of v T] key_new [of v]
  by (auto simp: ins_taken ins_ignore_fresh) (simp add: sql_select_def)

text \<open>An insert followed by a query: the value that was stored if the key was free, and
  otherwise the value that was there before.\<close>

lemma stored_insert:
  assumes "sql_session sess" "exec_insert sess tbl et (cols v) d = (Inr u, d1)"
    and "sql_select tbl (key v) (tabs d) = []"
  shows "map dec (sql_select tbl (key v) (tabs d1)) = [stored v]"
  using sql_session.exec_oks(1) [OF assms(1,2)] assms(3) by (simp add: select_ins dec_new)

lemma insert_query:
  assumes "sql_session sess" "exec_insert sess tbl et (cols v) d = (Inr u, d1)"
    and "load_one sess tbl (key v) z dec d1 = ((w, None), d2)"
  shows "w = (if sql_select tbl (key v) (tabs d) = [] then stored v
              else dec (hd (sql_select tbl (key v) (tabs d))))"
proof -
  have t: "tabs d1 = ins_ignore tbl (cols v) (tabs d)"
    using sql_session.exec_oks(1) [OF assms(1,2)] .
  from sql_session.load_one_cases [OF assms(1,3)] obtain r rs
    where "sql_select tbl (key v) (tabs d1) = r # rs" "w = dec r" by blast
  then show ?thesis
    by (auto simp: t select_ins dec_new split: if_splits)
qed

end

locale dao_upd = dao +
  fixes sets :: "'v \<Rightarrow> pairs"
    and merged :: "'v \<Rightarrow> 'v \<Rightarrow> 'v"
  assumes dec_upd: "matches (key v) r \<Longrightarrow> dec (r ++ map_of (norm_pairs (sets v))) = merged v (dec r)"
    and key_upd: "matches (key q) (r ++ map_of (norm_pairs (sets v))) = matches (key q) r"
begin

lemma select_upd:
  assumes "sql_apply (UpdateSet tbl (sets v) (key v)) T = Some T'"
  shows "sql_select tbl (key v) T' = map (\<lambda>r. r ++ map_of (norm_pairs (sets v))) (sql_select tbl (key v) T)"
proof -
  have T': "T' tbl = map (\<lambda>r. if matches (key v) r then r ++ map_of (norm_pairs (sets v)) else r) (T tbl)"
    using assms by (auto simp: sql_update_def Let_def split: if_splits)
  have "filter (matches (key v)) (map (\<lambda>r. if matches (key v) r then r ++ map_of (norm_pairs (sets v)) else r) xs)
      = map (\<lambda>r. r ++ map_of (norm_pairs (sets v))) (filter (matches (key v)) xs)" for xs
    by (induction xs) (simp_all add: key_upd)
  then show ?thesis unfolding sql_select_def T' by simp
qed

lemma stored_update:
  assumes "sql_session sess" "exec_update sess tbl et (sets v) (key v) d = (Inr u, d1)"
  shows "map dec (sql_select tbl (key v) (tabs d1)) = map (merged v) (map dec (sql_select tbl (key v) (tabs d)))"
proof -
  from assms(2) have "\<exists>d'. sess_run sess (UpdateSet tbl (sets v) (key v)) d = (None, d') \<and> d' = d1"
    by (auto simp: exec_update_def exec_stmt_def split: prod.splits option.splits)
  then have "sql_apply (UpdateSet tbl (sets v) (key v)) (tabs d) = Some (tabs d1)"
    using sql_session.run_ok [OF assms(1)] by blast
  from select_upd [OF this] show ?thesis by (auto simp: sql_select_def dec_upd)
qed

text \<open>What a successful insert leaves under a key that was free, with or without the update.\<close>

lemma stored_upsert:
  assumes "sql_session sess"
    and "go_then (exec_insert sess tbl et (cols v)) (if upd then exec_update sess tbl et' (sets v) (key v) else go_return ()) d = (Inr u, d1)"
    and "sql_select tbl (key v) (tabs d) = []"
  shows "map dec (sql_select tbl (key v) (tabs d1)) = [if upd then merged v (stored v) else stored v]"
  using assms(2)
proof (rule go_then_Inr)
  fix u' dm
  assume "exec_insert sess tbl et (cols v) d = (Inr u', dm)"
    and up: "(if upd then exec_update sess tbl et' (sets v) (key v) else go_return ()) dm = (Inr u, d1)"
  then have i: "map dec (sql_select tbl (key v) (tabs dm)) = [stored v]"
    using stored_insert [OF assms(1)] assms(3) by blast
  with up stored_update [OF assms(1)] show ?thesis
    by (cases upd) (auto simp: go_simps)
qed

text \<open>With the update, the query returns the new value in every column that the update sets.\<close>

lemma insert_update_query:
  assumes "sql_session sess"
    and "go_then (exec_insert sess tbl et (cols v)) (exec_update sess tbl et' (sets v) (key v)) d = (Inr u, d1)"
    and "load_one sess tbl (key v) z dec d1 = ((w, None), d2)"
  shows "w = merged v (if sql_select tbl (key v) (tabs d) = [] then stored v
              else dec (hd (sql_select tbl (key v) (tabs d))))"
proof -
  from assms(2) obtain u' dm where
    i: "exec_insert sess tbl et (cols v) d = (Inr u', dm)" and
    up: "exec_update sess tbl et' (sets v) (key v) dm = (Inr u, d1)" by (rule go_then_Inr)
  have m: "tabs dm = ins_ignore tbl (cols v) (tabs d)"
    using sql_session.exec_oks(1) [OF assms(1) i] .
  from up have "\<exists>d'. sess_run sess (UpdateSet tbl (sets v) (key v)) dm = (None, d') \<and> d' = d1"
    by (auto simp: exec_update_def exec_stmt_def split: prod.splits option.splits)
  then have "sql_apply (UpdateSet tbl (sets v) (key v)) (tabs dm) = Some (tabs d1)"
    using sql_session.run_ok [OF assms(1)] by blast
  then have s: "sql_select tbl (key v) (tabs d1)
      = map (\<lambda>r. r ++ map_of (norm_pairs (sets v))) (sql_select tbl (key v) (tabs dm))"
    by (rule select_upd)
  from sql_session.load_one_cases [OF assms(1,3)] obtain r rs
    where "sql_select tbl (key v) (tabs d1) = r # rs" "w = dec r" by blast
  with s obtain r0 rs0 where r0: "sql_select tbl (key v) (tabs dm) = r0 # rs0"
    "w = dec (r0 ++ map_of (norm_pairs (sets v)))" by (auto simp: Cons_eq_map_conv map_eq_Cons_conv)
  then have "matches (key v) r0" by (auto simp: sql_select_def filter_eq_Cons_iff)
  with r0 show ?thesis by (auto simp: dec_upd m select_ins dec_new split: if_splits)
qed

end

section \<open>The tables\<close>

interpretation Transactions_dao: dao_upd TableTransactions Transactions_cols Transactions_key row_of_Transactions
  "\<lambda>v. v"
  Transactions_sets "\<lambda>v w. v"
  by unfold_locales (auto simp: dao_simps Transactions_cols_def Transactions_key_def row_of_Transactions_def Transactions_sets_def)

interpretation OutputsRedeeming_dao: dao_upd TableOutputsRedeeming OutputsRedeeming_cols OutputsRedeeming_key row_of_OutputsRedeeming
  "\<lambda>v. v"
  OutputsRedeeming_sets "\<lambda>v w. v\<lparr>OutputsRedeeming_RedeemedAt := OutputsRedeeming_RedeemedAt w\<rparr>"
  by unfold_locales (auto simp: dao_simps OutputsRedeeming_cols_def OutputsRedeeming_key_def row_of_OutputsRedeeming_def OutputsRedeeming_sets_def)

interpretation Outputs_dao: dao_base TableOutputs Outputs_cols Outputs_key row_of_Outputs
  "\<lambda>v. v"
  by unfold_locales (auto simp: dao_simps Outputs_cols_def Outputs_key_def row_of_Outputs_def)

interpretation Assets_dao: dao_upd TableAssets Assets_cols Assets_key row_of_Assets
  "\<lambda>v. v"
  Assets_sets "\<lambda>v w. v"
  by unfold_locales (auto simp: dao_simps Assets_cols_def Assets_key_def row_of_Assets_def Assets_sets_def)

interpretation Addresses_dao: dao_upd TableAddresses Addresses_cols Addresses_key row_of_Addresses
  "\<lambda>v. v"
  Addresses_sets "\<lambda>v w. v"
  by unfold_locales (auto simp: dao_simps Addresses_cols_def Addresses_key_def row_of_Addresses_def Addresses_sets_def)

interpretation AddressChain_dao: dao_upd TableAddressChain AddressChain_cols AddressChain_key row_of_AddressChain
  "\<lambda>v. v"
  AddressChain_sets "\<lambda>v w. v"
  by unfold_locales (auto simp: dao_simps AddressChain_cols_def AddressChain_key_def row_of_AddressChain_def AddressChain_sets_def)

interpretation OutputAddresses_dao: dao_upd TableOutputAddresses OutputAddresses_cols OutputAddresses_key row_of_OutputAddresses
  "\<lambda>v. v"
  OutputAddresses_sets "\<lambda>v w. v\<lparr>OutputAddresses_RedeemingSignature := (case OutputAddresses_RedeemingSignature v of None \<Rightarrow> OutputAddresses_RedeemingSignature w | sig \<Rightarrow> sig)\<rparr>"
  by unfold_locales (auto simp: dao_simps OutputAddresses_cols_def OutputAddresses_key_def row_of_OutputAddresses_def OutputAddresses_sets_def split: option.splits)

interpretation TransactionsEpoch_dao: dao_upd TableTransactionsEpochs TransactionsEpoch_cols TransactionsEpoch_key row_of_TransactionsEpoch
  "\<lambda>v. v"
  TransactionsEpoch_sets "\<lambda>v w. v"
  by unfold_locales (auto simp: dao_simps TransactionsEpoch_cols_def TransactionsEpoch_key_def row_of_TransactionsEpoch_def TransactionsEpoch_sets_def)

interpretation CvmBlocks_dao: dao TableCvmBlocks CvmBlocks_cols CvmBlocks_key row_of_CvmBlocks
  "\<lambda>v. v"
  by unfold_locales (auto simp: dao_simps CvmBlocks_cols_def CvmBlocks_key_def row_of_CvmBlocks_def)

interpretation CvmAddresses_dao: dao_upd TableCvmAddresses CvmAddresses_cols CvmAddresses_key row_of_CvmAddresses
  "\<lambda>v. v"
  CvmAddresses_sets "\<lambda>v w. v"
  by unfold_locales (auto simp: dao_simps CvmAddresses_cols_def CvmAddresses_key_def row_of_CvmAddresses_def CvmAddresses_sets_def)

interpretation CvmTransactions_dao: dao_upd TableCvmTransactions CvmTransactions_cols CvmTransactions_key row_of_CvmTransactions
  "\<lambda>v. v"
  CvmTransactions_sets "\<lambda>v w. v"
  by unfold_locales (auto simp: dao_simps CvmTransactions_cols_def CvmTransactions_key_def row_of_CvmTransactions_def CvmTransactions_sets_def)

interpretation CvmTransactionsTxdata_dao: dao_upd TableCvmTransactionsTxdata CvmTransactionsTxdata_cols CvmTransactionsTxdata_key row_of_CvmTransactionsTxdata
  "\<lambda>v. v"
  CvmTransactionsTxdata_sets "\<lambda>v w. v"
  by unfold_locales (auto simp: dao_simps CvmTransactionsTxdata_cols_def CvmTransactionsTxdata_key_def row_of_CvmTransactionsTxdata_def CvmTransactionsTxdata_sets_def)

interpretation PvmBlocks_dao: dao_upd TablePvmBlocks PvmBlocks_cols PvmBlocks_key row_of_PvmBlocks
  "\<lambda>v. v"
  PvmBlocks_sets "\<lambda>v w. v"
  by unfold_locales (auto simp: dao_simps PvmBlocks_cols_def PvmBlocks_key_def row_of_PvmBlocks_def PvmBlocks_sets_def)

interpretation Rewards_dao: dao_upd TableRewards Rewards_cols Rewards_key row_of_Rewards
  "\<lambda>v. v"
  Rewards_sets "\<lambda>v w. v\<lparr>Rewards_Processed := Rewards_Processed w\<rparr>"
  by unfold_locales (auto simp: dao_simps Rewards_cols_def Rewards_key_def row_of_Rewards_def Rewards_sets_def)

interpretation TransactionsValidator_dao: dao_upd TableTransactionsValidator TransactionsValidator_cols TransactionsValidator_key row_of_TransactionsValidator
  "\<lambda>v. v"
  TransactionsValidator_sets "\<lambda>v w. v"
  by unfold_locales (auto simp: dao_simps TransactionsValidator_cols_def TransactionsValidator_key_def row_of_TransactionsValidator_def TransactionsValidator_sets_def)

interpretation TransactionsBlock_dao: dao_upd TableTransactionsBlock TransactionsBlock_cols TransactionsBlock_key row_of_TransactionsBlock
  "\<lambda>v. v"
  TransactionsBlock_sets "\<lambda>v w. v"
  by unfold_locales (auto simp: dao_simps TransactionsBlock_cols_def TransactionsBlock_key_def row_of_TransactionsBlock_def TransactionsBlock_sets_def)

interpretation AddressBech32_dao: dao_upd TableAddressBech32 AddressBech32_cols AddressBech32_key row_of_AddressBech32
  "\<lambda>v. v"
  AddressBech32_sets "\<lambda>v w. v"
  by unfold_locales (auto simp: dao_simps AddressBech32_cols_def AddressBech32_key_def row_of_AddressBech32_def AddressBech32_sets_def)

interpretation OutputAddressAccumulateOut_dao: dao_upd TableOutputAddressAccumulateOut OutputAddressAccumulateOut_cols OutputAddressAccumulateOut_key row_of_OutputAddressAccumulateOut
  "\<lambda>v. v\<lparr>OutputAddressAccumulate_Processed := 0, OutputAddressAccumulate_OutputProcessed := 0\<rparr>"
  OutputAddressAccumulateOut_sets "\<lambda>v w. v\<lparr>OutputAddressAccumulate_Processed := OutputAddressAccumulate_Processed w, OutputAddressAccumulate_OutputProcessed := OutputAddressAccumulate_OutputProcessed w\<rparr>"
  by unfold_locales (auto simp: dao_simps OutputAddressAccumulateOut_cols_def OutputAddressAccumulateOut_key_def row_of_OutputAddressAccumulateOut_def OutputAddressAccumulateOut_sets_def)

interpretation OutputAddressAccumulateIn_dao: dao_upd TableOutputAddressAccumulateIn OutputAddressAccumulateIn_cols OutputAddressAccumulateIn_key row_of_OutputAddressAccumulateIn
  "\<lambda>v. v\<lparr>OutputAddressAccumulate_Processed := 0, OutputAddressAccumulate_OutputProcessed := 0\<rparr>"
  OutputAddressAccumulateIn_sets "\<lambda>v w. v\<lparr>OutputAddressAccumulate_Processed := OutputAddressAccumulate_Processed w, OutputAddressAccumulate_OutputProcessed := OutputAddressAccumulate_OutputProcessed w\<rparr>"
  by unfold_locales (auto simp: dao_simps OutputAddressAccumulateIn_cols_def OutputAddressAccumulateIn_key_def row_of_OutputAddressAccumulateIn_def OutputAddressAccumulateIn_sets_def)

interpretation OutputTxsAccumulate_dao: dao TableOutputTxsAccumulate OutputTxsAccumulate_cols OutputTxsAccumulate_key row_of_OutputTxsAccumulate
  "\<lambda>v. v\<lparr>OutputTxsAccumulate_Processed := 0\<rparr>"
  by unfold_locales (auto simp: dao_simps OutputTxsAccumulate_cols_def OutputTxsAccumulate_key_def row_of_OutputTxsAccumulate_def)

interpretation AccumulateBalancesReceived_dao: dao TableAccumulateBalancesReceived AccumulateBalancesReceived_cols AccumulateBalancesReceived_key row_of_AccumulateBalancesReceived
  "\<lambda>v. v\<lparr>AccumulateBalancesAmount_TotalAmount := ''0'', AccumulateBalancesAmount_UtxoCount := ''0''\<rparr>"
  by unfold_locales (auto simp: dao_simps AccumulateBalancesReceived_cols_def AccumulateBalancesReceived_key_def row_of_AccumulateBalancesReceived_def)

interpretation AccumulateBalancesSent_dao: dao TableAccumulateBalancesSent AccumulateBalancesSent_cols AccumulateBalancesSent_key row_of_AccumulateBalancesSent
  "\<lambda>v. v\<lparr>AccumulateBalancesAmount_TotalAmount := ''0'', AccumulateBalancesAmount_UtxoCount := ''0''\<rparr>"
  by unfold_locales (auto simp: dao_simps AccumulateBalancesSent_cols_def AccumulateBalancesSent_key_def row_of_AccumulateBalancesSent_def)

interpretation AccumulateBalancesTransactions_dao: dao TableAccumulateBalancesTransactions AccumulateBalancesTransactions_cols AccumulateBalancesTransactions_key row_of_AccumulateBalancesTransactions
  "\<lambda>v. v\<lparr>AccumulateBalancesTransactions_TransactionCount := ''0''\<rparr>"
  by unfold_locales (auto simp: dao_simps AccumulateBalancesTransactions_cols_def AccumulateBalancesTransactions_key_def row_of_AccumulateBalancesTransactions_def)

interpretation TransactionsRewardsOwnersAddress_dao: dao_upd TableTransactionsRewardsOwnersAddress TransactionsRewardsOwnersAddress_cols TransactionsRewardsOwnersAddress_key row_of_TransactionsRewardsOwnersAddress
  "\<lambda>v. v"
  TransactionsRewardsOwnersAddress_sets "\<lambda>v w. v"
  by unfold_locales (auto simp: dao_simps TransactionsRewardsOwnersAddress_cols_def TransactionsRewardsOwnersAddress_key_def row_of_TransactionsRewardsOwnersAddress_def TransactionsRewardsOwnersAddress_sets_def)

interpretation TransactionsRewardsOwnersOutputs_dao: dao_upd TableTransactionsRewardsOwnersOutputs TransactionsRewardsOwnersOutputs_cols TransactionsRewardsOwnersOutputs_key row_of_TransactionsRewardsOwnersOutputs
  "\<lambda>v. v"
  TransactionsRewardsOwnersOutputs_sets "\<lambda>v w. v"
  by unfold_locales (auto simp: dao_simps TransactionsRewardsOwnersOutputs_cols_def TransactionsRewardsOwnersOutputs_key_def row_of_TransactionsRewardsOwnersOutputs_def TransactionsRewardsOwnersOutputs_sets_def)

interpretation TransactionsRewardsOwners_dao: dao_upd TableTransactionsRewardsOwners TransactionsRewardsOwners_cols TransactionsRewardsOwners_key row_of_TransactionsRewardsOwners
  "\<lambda>v. v"
  TransactionsRewardsOwners_sets "\<lambda>v w. v"
  by unfold_locales (auto simp: dao_simps TransactionsRewardsOwners_cols_def TransactionsRewardsOwners_key_def row_of_TransactionsRewardsOwners_def TransactionsRewardsOwners_sets_def)

interpretation TxPool_dao: dao TableTxPool TxPool_cols TxPool_key row_of_TxPool
  "\<lambda>v. v"
  by unfold_locales (auto simp: dao_simps TxPool_cols_def TxPool_key_def row_of_TxPool_def)

interpretation KeyValueStore_dao: dao TableKeyValueStore KeyValueStore_cols KeyValueStore_key row_of_KeyValueStore
  "\<lambda>v. v"
  by unfold_locales (auto simp: dao_simps KeyValueStore_cols_def KeyValueStore_key_def row_of_KeyValueStore_def)

interpretation CvmTransactionsTxdataTrace_dao: dao_upd TableCvmTransactionsTxdataTrace CvmTransactionsTxdataTrace_cols CvmTransactionsTxdataTrace_key row_of_CvmTransactionsTxdataTrace
  "\<lambda>v. v"
  CvmTransactionsTxdataTrace_sets "\<lambda>v w. v"
  by unfold_locales (auto simp: dao_simps CvmTransactionsTxdataTrace_cols_def CvmTransactionsTxdataTrace_key_def row_of_CvmTransactionsTxdataTrace_def CvmTransactionsTxdataTrace_sets_def)

interpretation NodeIndex_dao: dao_upd TableNodeIndex NodeIndex_cols NodeIndex_key row_of_NodeIndex
  "\<lambda>v. v"
  NodeIndex_sets "\<lambda>v w. v"
  by unfold_locales (auto simp: dao_simps NodeIndex_cols_def NodeIndex_key_def row_of_NodeIndex_def NodeIndex_sets_def)

interpretation CvmLogs_dao: dao_upd TableCvmLogs CvmLogs_cols CvmLogs_key row_of_CvmLogs
  "\<lambda>v. v"
  CvmLogs_sets "\<lambda>v w. v"
  by unfold_locales (auto simp: dao_simps CvmLogs_cols_def CvmLogs_key_def row_of_CvmLogs_def CvmLogs_sets_def)

interpretation PvmProposer_dao: dao_upd TablePvmProposer PvmProposer_cols PvmProposer_key row_of_PvmProposer
  "\<lambda>v. v\<lparr>PvmProposer_CoreChainHeight := 0\<rparr>"
  PvmProposer_sets "\<lambda>v w. v\<lparr>PvmProposer_CoreChainHeight := PvmProposer_CoreChainHeight w\<rparr>"
  by unfold_locales (auto simp: dao_simps PvmProposer_cols_def PvmProposer_key_def row_of_PvmProposer_def PvmProposer_sets_def)

end
