(* ===== verification/Chain.thy ===== *)
theory Chain
  imports DbModel
begin

text \<open>
  The values the indexers are handed: transactions, outputs and credentials of the chains as
  the code takes them apart (only the parts it reads), the context of a consumer
  (\<open>src/services/services.go\<close>) and the enumerations of \<open>src/models/types.go\<close>.
\<close>

section \<open>models/types.go\<close>

type_synonym OutputType = u32
type_synonym BlockType = u16
type_synonym AXChainType = u16
type_synonym TransactionType = u16

abbreviation AXChainIn :: AXChainType where "AXChainIn \<equiv> 1"
abbreviation AXchainOut :: AXChainType where "AXchainOut \<equiv> 2"
abbreviation AXChainImport :: AXChainType where "AXChainImport \<equiv> 1"
abbreviation AXChainExport :: AXChainType where "AXChainExport \<equiv> 2"

abbreviation OutputTypesSECP2556K1Transfer :: OutputType where "OutputTypesSECP2556K1Transfer \<equiv> 7"
abbreviation OutputTypesSECP2556K1Mint :: OutputType where "OutputTypesSECP2556K1Mint \<equiv> 6"
abbreviation OutputTypesNFTMint :: OutputType where "OutputTypesNFTMint \<equiv> 10"
abbreviation OutputTypesNFTTransfer :: OutputType where "OutputTypesNFTTransfer \<equiv> 11"
abbreviation OutputTypesAtomicExportTx :: OutputType where "OutputTypesAtomicExportTx \<equiv> 0xFFFFFFF1"
abbreviation OutputTypesAtomicImportTx :: OutputType where "OutputTypesAtomicImportTx \<equiv> 0xFFFFFFF2"

abbreviation BlockTypeProposal :: BlockType where "BlockTypeProposal \<equiv> 0"
abbreviation BlockTypeAbort :: BlockType where "BlockTypeAbort \<equiv> 1"
abbreviation BlockTypeCommit :: BlockType where "BlockTypeCommit \<equiv> 2"
abbreviation BlockTypeStandard :: BlockType where "BlockTypeStandard \<equiv> 3"
abbreviation BlockTypeAtomic :: BlockType where "BlockTypeAtomic \<equiv> 4"

abbreviation TransactionTypeBase :: TransactionType where "TransactionTypeBase \<equiv> 0"
abbreviation TransactionTypeCreateAsset :: TransactionType where "TransactionTypeCreateAsset \<equiv> 1"
abbreviation TransactionTypeOperation :: TransactionType where "TransactionTypeOperation \<equiv> 2"
abbreviation TransactionTypeAVMImport :: TransactionType where "TransactionTypeAVMImport \<equiv> 3"
abbreviation TransactionTypeAVMExport :: TransactionType where "TransactionTypeAVMExport \<equiv> 4"
abbreviation TransactionTypeAddValidator :: TransactionType where "TransactionTypeAddValidator \<equiv> 0xc"
abbreviation TransactionTypeAddSubnetValidator :: TransactionType where "TransactionTypeAddSubnetValidator \<equiv> 0xd"
abbreviation TransactionTypeAddDelegator :: TransactionType where "TransactionTypeAddDelegator \<equiv> 0xe"
abbreviation TransactionTypeCreateChain :: TransactionType where "TransactionTypeCreateChain \<equiv> 0xf"
abbreviation TransactionTypeCreateSubnet :: TransactionType where "TransactionTypeCreateSubnet \<equiv> 0x10"
abbreviation TransactionTypePVMImport :: TransactionType where "TransactionTypePVMImport \<equiv> 0x11"
abbreviation TransactionTypePVMExport :: TransactionType where "TransactionTypePVMExport \<equiv> 0x12"
abbreviation TransactionTypeAdvanceTime :: TransactionType where "TransactionTypeAdvanceTime \<equiv> 0x13"
abbreviation TransactionTypeRewardValidator :: TransactionType where "TransactionTypeRewardValidator \<equiv> 0x14"

definition TypeUnknown :: string where
  "TypeUnknown = ''unknown''"

definition TransactionType_String :: "TransactionType \<Rightarrow> string" where
  "TransactionType_String t =
     (if t = TransactionTypeBase then ''base''
      else if t = TransactionTypeCreateAsset then ''create_asset''
      else if t = TransactionTypeOperation then ''operation''
      else if t = TransactionTypeAVMImport then ''import''
      else if t = TransactionTypeAVMExport then ''export''
      else if t = TransactionTypeAddValidator then ''add_validator''
      else if t = TransactionTypeAddSubnetValidator then ''add_subnet_validator''
      else if t = TransactionTypeAddDelegator then ''add_delegator''
      else if t = TransactionTypeCreateChain then ''create_chain''
      else if t = TransactionTypeCreateSubnet then ''create_subnet''
      else if t = TransactionTypePVMImport then ''pvm_import''
      else if t = TransactionTypePVMExport then ''pvm_export''
      else if t = TransactionTypeAdvanceTime then ''advance_time''
      else if t = TransactionTypeRewardValidator then ''reward_validator''
      else TypeUnknown)"

definition OutputType_String :: "OutputType \<Rightarrow> string" where
  "OutputType_String t =
     (if t = OutputTypesSECP2556K1Transfer then ''secp256k1_transfer''
      else if t = OutputTypesSECP2556K1Mint then ''secp256k1_mint''
      else if t = OutputTypesNFTTransfer then ''nft_transfer''
      else if t = OutputTypesNFTMint then ''nft_mint''
      else if t = OutputTypesAtomicExportTx then ''atomic_export''
      else if t = OutputTypesAtomicImportTx then ''atomic_import''
      else TypeUnknown)"

section \<open>Outputs, inputs and transactions\<close>

record OutputOwners =
  OutputOwners_Locktime :: u64
  OutputOwners_Threshold :: u32
  OutputOwners_Addresses :: "bytes list"

record TransferOutput =
  TransferOutput_Amt :: u64
  TransferOutput_Owners :: OutputOwners

text \<open>The dynamic types that a \<open>verify.State\<close> is switched on; \<open>OtherState\<close> carries the name
  that \<open>reflect.TypeOf\<close> prints for any other one.\<close>

datatype transferable_out = SecpOut TransferOutput | OtherOut

datatype state_out =
    StakeableLockOut u64 transferable_out
  | NftTransferOutput u32 "bytes option" OutputOwners
  | NftMintOutput u32 OutputOwners
  | SecpMintOutput OutputOwners
  | SecpTransferOutput TransferOutput
  | OtherState string

record TransferableOutput =
  TransferableOutput_AssetID :: ID
  TransferableOutput_Out :: state_out

record TransferableInput =
  TransferableInput_TxID :: ID
  TransferableInput_OutputIndex :: u32
  TransferableInput_AssetID :: ID
  TransferableInput_Amount :: u64

datatype verifiable = Credential "bytes list" | OwnersVerifiable OutputOwners | OtherVerifiable string

record BaseTx =
  BaseTx_ID :: ID
  BaseTx_NetworkID :: u32
  BaseTx_Ins :: "TransferableInput list"
  BaseTx_Outs :: "TransferableOutput list"
  BaseTx_Memo :: "bytes option"

section \<open>services.go: the context of a consumer\<close>

text \<open>
  \<open>cc_now\<close> is the clock reading that a handler's calls of \<open>time.Now()\<close> see (they are written
  to columns and never tested), \<open>cc_upd\<close> is \<open>cfg.PerformUpdates\<close> and \<open>cc_hrp\<close> is
  \<open>models.Bech32HRP\<close>. The database and the \<open>Persist\<close> implementation of the context are the
  state and the argument \<open>p\<close> of the handlers.
\<close>

record consumerCtx =
  cc_time :: gotime
  cc_now :: gotime
  cc_upd :: bool
  cc_hrp :: string

definition NewConsumerContext :: "int \<Rightarrow> int \<Rightarrow> gotime \<Rightarrow> bool \<Rightarrow> string \<Rightarrow> consumerCtx" where
  "NewConsumerContext ts nanosecond now upd hrp =
     \<lparr>cc_time = time_Unix ts nanosecond, cc_now = now, cc_upd = upd, cc_hrp = hrp\<rparr>"

text \<open>The \<open>Consumable\<close> interface, the settings that the handlers read from package variables,
  and the context that every handler starts with.\<close>

record consumable =
  consumable_ID :: string
  consumable_ChainID :: string
  consumable_Body :: bytes
  consumable_Timestamp :: int
  consumable_Nanosecond :: int

record settings =
  set_now :: gotime
  set_upd :: bool
  set_hrp :: string

definition consumer_ctx :: "settings \<Rightarrow> consumable \<Rightarrow> consumerCtx" where
  "consumer_ctx env c = NewConsumerContext (consumable_Timestamp c) (consumable_Nanosecond c)
     (set_now env) (set_upd env) (set_hrp env)"

lemma cc_upd_consumer_ctx [simp]: "cc_upd (consumer_ctx env c) = set_upd env"
  by (simp add: consumer_ctx_def NewConsumerContext_def)

text \<open>The calls that a writer with \<open>cc_upd = u\<close> may make: none of those of the producers, the
  indexer, the rewards handler and the balance manager.\<close>

primrec call_upd :: "bool \<Rightarrow> pcall \<Rightarrow> bool" where
  "call_upd u (PInsertTransactions v b) = (b = u)"
| "call_upd u (PInsertOutputsRedeeming v b) = (b = u)"
| "call_upd u (PInsertOutputs v b) = (b = u)"
| "call_upd u (PInsertAssets v b) = (b = u)"
| "call_upd u (PInsertAddresses v b) = (b = u)"
| "call_upd u (PInsertAddressChain v b) = (b = u)"
| "call_upd u (PInsertOutputAddresses v b) = (b = u)"
| "call_upd u (PUpdateOutputAddresses v) = True"
| "call_upd u (PInsertTransactionsEpoch v b) = (b = u)"
| "call_upd u (PInsertCvmBlocks v) = False"
| "call_upd u (PInsertCvmAddresses v b) = (b = u)"
| "call_upd u (PInsertCvmTransactions v b) = (b = u)"
| "call_upd u (PInsertCvmTransactionsTxdata v b) = (b = u)"
| "call_upd u (PInsertPvmBlocks v b) = (b = u)"
| "call_upd u (PInsertRewards v b) = (b = u)"
| "call_upd u (PUpdateRewardsProcessed v) = False"
| "call_upd u (PInsertTransactionsValidator v b) = (b = u)"
| "call_upd u (PInsertTransactionsBlock v b) = (b = u)"
| "call_upd u (PInsertAddressBech32 v b) = (b = u)"
| "call_upd u (PInsertOutputAddressAccumulateOut v b) = (b = u)"
| "call_upd u (PInsertOutputAddressAccumulateIn v b) = (b = u)"
| "call_upd u (PUpdateOutputAddressAccumulateInOutputsProcessed v) = True"
| "call_upd u (PInsertOutputTxsAccumulate v) = True"
| "call_upd u (PInsertAccumulateBalancesReceived v) = False"
| "call_upd u (PInsertAccumulateBalancesSent v) = False"
| "call_upd u (PInsertAccumulateBalancesTransactions v) = False"
| "call_upd u (PInsertTransactionsRewardsOwnersAddress v b) = (b = u)"
| "call_upd u (PInsertTransactionsRewardsOwnersOutputs v b) = (b = u)"
| "call_upd u (PInsertTransactionsRewardsOwners v b) = (b = u)"
| "call_upd u (PInsertTxPool v) = False"
| "call_upd u (PUpdateTxPoolStatus v) = False"
| "call_upd u (PInsertKeyValueStore v) = False"
| "call_upd u (PInsertCvmTransactionsTxdataTrace v b) = (b = u)"
| "call_upd u (PInsertNodeIndex v b) = False"
| "call_upd u (PUpdateNodeIndex v) = False"
| "call_upd u (PInsertCvmLogs v b) = (b = u)"
| "call_upd u (PInsertPvmProposer v b) = (b = u)"

text \<open>A \<open>Persist\<close> that only records the calls, in order.\<close>

definition record_call :: "pcall \<Rightarrow> (pcall list, unit) go" where
  "record_call c = (\<lambda>cs. (Inr (), cs @ [c]))"

text \<open>\<open>copy(addrBytes[:], addr)\<close> into a zeroed array of 20 bytes.\<close>

definition copy20 :: "bytes \<Rightarrow> ShortID" where
  "copy20 addr = take 20 (addr @ replicate 20 0)"

lemma copy20_id [simp]: "length addr = 20 \<Longrightarrow> copy20 addr = addr"
  by (simp add: copy20_def)

definition slice_len :: "bytes option \<Rightarrow> nat" where
  "slice_len b = (case b of None \<Rightarrow> 0 | Some bs \<Rightarrow> length bs)"

end
