(* ===== verification/Persist.thy ===== *)
theory Persist
  imports DbSpec Chain
begin

text \<open>
  What a handler does to the database. The writers call the interface \<open>db.Persist\<close> and
  never read it back, so a handler is determined by the sequence of its calls: \<open>traced\<close> says
  that it succeeds on an implementation exactly when the calls that it makes on the recording
  implementation succeed there one after the other. \<open>call_stmts\<close> are the
  statements behind a call, and the locale \<open>persist_store\<close> is what the handlers rely on.
\<close>

section \<open>The statements of a call\<close>

primrec call_stmts :: "pcall \<Rightarrow> stmt list" where
  "call_stmts (PInsertTransactions v upd) =
     InsertInto TableTransactions (Transactions_cols v) #
     (if upd then [UpdateSet TableTransactions (Transactions_sets v)
       [Eq ''id'' (VS (Transactions_ID v))]] else [])"
| "call_stmts (PInsertOutputsRedeeming v upd) =
     InsertInto TableOutputsRedeeming (OutputsRedeeming_cols v) #
     (if upd then [UpdateSet TableOutputsRedeeming (OutputsRedeeming_sets v)
       [Eq ''id'' (VS (OutputsRedeeming_ID v))]] else [])"
| "call_stmts (PInsertOutputs v upd) =
     InsertInto TableOutputs (Outputs_cols v) #
     (if upd then [UpdateSet TableOutputs (Outputs_sets v)
       [Eq ''id'' (VS (Outputs_ID v))]] else [])"
| "call_stmts (PInsertAssets v upd) =
     InsertInto TableAssets (Assets_cols v) #
     (if upd then [UpdateSet TableAssets (Assets_sets v)
       [Eq ''id'' (VS (Assets_ID v))]] else [])"
| "call_stmts (PInsertAddresses v upd) =
     InsertInto TableAddresses (Addresses_cols v) #
     (if upd then [UpdateSet TableAddresses (Addresses_sets v)
       [Eq ''address'' (VS (Addresses_Address v))]] else [])"
| "call_stmts (PInsertAddressChain v upd) =
     InsertInto TableAddressChain (AddressChain_cols v) #
     (if upd then [UpdateSet TableAddressChain (AddressChain_sets v)
       [Eq ''address'' (VS (AddressChain_Address v)), Eq ''chain_id'' (VS (AddressChain_ChainID v))]] else [])"
| "call_stmts (PInsertOutputAddresses v upd) =
     InsertInto TableOutputAddresses (OutputAddresses_cols v) #
     (if upd then [UpdateSet TableOutputAddresses (OutputAddresses_sets v)
       [Eq ''output_id'' (VS (OutputAddresses_OutputID v)), Eq ''address'' (VS (OutputAddresses_Address v))]] else [])"
| "call_stmts (PUpdateOutputAddresses v) =
     [UpdateSet TableOutputAddresses
       [(''redeeming_signature'', VBytes (OutputAddresses_RedeemingSignature v)),
        (''updated_at'', VT (OutputAddresses_UpdatedAt v))]
       [Eq ''output_id'' (VS (OutputAddresses_OutputID v)), Eq ''address'' (VS (OutputAddresses_Address v))]]"
| "call_stmts (PInsertTransactionsEpoch v upd) =
     InsertInto TableTransactionsEpochs (TransactionsEpoch_cols v) #
     (if upd then [UpdateSet TableTransactionsEpochs (TransactionsEpoch_sets v)
       [Eq ''id'' (VS (TransactionsEpoch_ID v))]] else [])"
| "call_stmts (PInsertCvmBlocks v) =
     [InsertInto TableCvmBlocks (CvmBlocks_cols v)]"
| "call_stmts (PInsertCvmAddresses v upd) =
     InsertInto TableCvmAddresses (CvmAddresses_cols v) #
     (if upd then [UpdateSet TableCvmAddresses (CvmAddresses_sets v)
       [Eq ''id'' (VS (CvmAddresses_ID v))]] else [])"
| "call_stmts (PInsertCvmTransactions v upd) =
     InsertInto TableCvmTransactions (CvmTransactions_cols v) #
     (if upd then [UpdateSet TableCvmTransactions (CvmTransactions_sets v)
       [Eq ''id'' (VS (CvmTransactions_ID v))]] else [])"
| "call_stmts (PInsertCvmTransactionsTxdata v upd) =
     InsertInto TableCvmTransactionsTxdata (CvmTransactionsTxdata_cols v) #
     (if upd then [UpdateSet TableCvmTransactionsTxdata (CvmTransactionsTxdata_sets v)
       [Eq ''hash'' (VS (CvmTransactionsTxdata_Hash v))]] else [])"
| "call_stmts (PInsertPvmBlocks v upd) =
     InsertInto TablePvmBlocks (PvmBlocks_cols v) #
     (if upd then [UpdateSet TablePvmBlocks (PvmBlocks_sets v)
       [Eq ''id'' (VS (PvmBlocks_ID v))]] else [])"
| "call_stmts (PInsertRewards v upd) =
     InsertInto TableRewards (Rewards_cols v) #
     (if upd then [UpdateSet TableRewards (Rewards_sets v)
       [Eq ''id'' (VS (Rewards_ID v))]] else [])"
| "call_stmts (PUpdateRewardsProcessed v) =
     [UpdateSet TableRewards
       [(''processed'', VI (Rewards_Processed v))]
       [Eq ''id'' (VS (Rewards_ID v))]]"
| "call_stmts (PInsertTransactionsValidator v upd) =
     InsertInto TableTransactionsValidator (TransactionsValidator_cols v) #
     (if upd then [UpdateSet TableTransactionsValidator (TransactionsValidator_sets v)
       [Eq ''id'' (VS (TransactionsValidator_ID v))]] else [])"
| "call_stmts (PInsertTransactionsBlock v upd) =
     InsertInto TableTransactionsBlock (TransactionsBlock_cols v) #
     (if upd then [UpdateSet TableTransactionsBlock (TransactionsBlock_sets v)
       [Eq ''id'' (VS (TransactionsBlock_ID v))]] else [])"
| "call_stmts (PInsertAddressBech32 v upd) =
     InsertInto TableAddressBech32 (AddressBech32_cols v) #
     (if upd then [UpdateSet TableAddressBech32 (AddressBech32_sets v)
       [Eq ''address'' (VS (AddressBech32_Address v))]] else [])"
| "call_stmts (PInsertOutputAddressAccumulateOut v upd) =
     InsertInto TableOutputAddressAccumulateOut (OutputAddressAccumulateOut_cols v) #
     (if upd then [UpdateSet TableOutputAddressAccumulateOut (OutputAddressAccumulateOut_sets v)
       [Eq ''id'' (VS (OutputAddressAccumulate_ID v))]] else [])"
| "call_stmts (PInsertOutputAddressAccumulateIn v upd) =
     InsertInto TableOutputAddressAccumulateIn (OutputAddressAccumulateIn_cols v) #
     (if upd then [UpdateSet TableOutputAddressAccumulateIn (OutputAddressAccumulateIn_sets v)
       [Eq ''id'' (VS (OutputAddressAccumulate_ID v))]] else [])"
| "call_stmts (PUpdateOutputAddressAccumulateInOutputsProcessed v) =
     [UpdateSet TableOutputAddressAccumulateIn
       [(''output_processed'', VI 1)]
       [Eq ''output_id'' (VS v), Neq ''output_processed'' (VI 1)]]"
| "call_stmts (PInsertOutputTxsAccumulate v) =
     [InsertInto TableOutputTxsAccumulate (OutputTxsAccumulate_cols v)]"
| "call_stmts (PInsertAccumulateBalancesReceived v) =
     [InsertInto TableAccumulateBalancesReceived (AccumulateBalancesReceived_cols v)]"
| "call_stmts (PInsertAccumulateBalancesSent v) =
     [InsertInto TableAccumulateBalancesSent (AccumulateBalancesSent_cols v)]"
| "call_stmts (PInsertAccumulateBalancesTransactions v) =
     [InsertInto TableAccumulateBalancesTransactions (AccumulateBalancesTransactions_cols v)]"
| "call_stmts (PInsertTransactionsRewardsOwnersAddress v upd) =
     InsertInto TableTransactionsRewardsOwnersAddress (TransactionsRewardsOwnersAddress_cols v) #
     (if upd then [UpdateSet TableTransactionsRewardsOwnersAddress (TransactionsRewardsOwnersAddress_sets v)
       [Eq ''id'' (VS (TransactionsRewardsOwnersAddress_ID v)), Eq ''address'' (VS (TransactionsRewardsOwnersAddress_Address v))]] else [])"
| "call_stmts (PInsertTransactionsRewardsOwnersOutputs v upd) =
     InsertInto TableTransactionsRewardsOwnersOutputs (TransactionsRewardsOwnersOutputs_cols v) #
     (if upd then [UpdateSet TableTransactionsRewardsOwnersOutputs (TransactionsRewardsOwnersOutputs_sets v)
       [Eq ''id'' (VS (TransactionsRewardsOwnersOutputs_ID v))]] else [])"
| "call_stmts (PInsertTransactionsRewardsOwners v upd) =
     InsertInto TableTransactionsRewardsOwners (TransactionsRewardsOwners_cols v) #
     (if upd then [UpdateSet TableTransactionsRewardsOwners (TransactionsRewardsOwners_sets v)
       [Eq ''id'' (VS (TransactionsRewardsOwners_ID v))]] else [])"
| "call_stmts (PInsertTxPool v) =
     [InsertInto TableTxPool (TxPool_cols v)]"
| "call_stmts (PUpdateTxPoolStatus v) =
     [UpdateSet TableTxPool
       [(''processed'', VI (TxPool_Processed v))]
       [Eq ''id'' (VS (TxPool_ID v))]]"
| "call_stmts (PInsertKeyValueStore v) =
     [InsertInto TableKeyValueStore (KeyValueStore_cols v)]"
| "call_stmts (PInsertCvmTransactionsTxdataTrace v upd) =
     InsertInto TableCvmTransactionsTxdataTrace (CvmTransactionsTxdataTrace_cols v) #
     (if upd then [UpdateSet TableCvmTransactionsTxdataTrace (CvmTransactionsTxdataTrace_sets v)
       [Eq ''hash'' (VS (CvmTransactionsTxdataTrace_Hash v)), Eq ''idx'' (VI (uint (CvmTransactionsTxdataTrace_Idx v)))]] else [])"
| "call_stmts (PInsertNodeIndex v upd) =
     InsertInto TableNodeIndex (NodeIndex_cols v) #
     (if upd then [UpdateSet TableNodeIndex (NodeIndex_sets v)
       [Eq ''instance'' (VS (NodeIndex_Instance v)), Eq ''topic'' (VS (NodeIndex_Topic v))]] else [])"
| "call_stmts (PUpdateNodeIndex v) =
     [UpdateSet TableNodeIndex
       [(''idx'', VI (uint (NodeIndex_Idx v)))]
       [Eq ''instance'' (VS (NodeIndex_Instance v)), Eq ''topic'' (VS (NodeIndex_Topic v))]]"
| "call_stmts (PInsertCvmLogs v upd) =
     InsertInto TableCvmLogs (CvmLogs_cols v) #
     (if upd then [UpdateSet TableCvmLogs (CvmLogs_sets v)
       [Eq ''id'' (VS (CvmLogs_ID v))]] else [])"
| "call_stmts (PInsertPvmProposer v upd) =
     InsertInto TablePvmProposer (PvmProposer_cols v) #
     (if upd then [UpdateSet TablePvmProposer (PvmProposer_sets v)
       [Eq ''id'' (VS (PvmProposer_ID v))]] else [])"


lemmas Persist_defs =
  InsertTransactions_def InsertOutputsRedeeming_def
  InsertOutputs_def InsertAssets_def
  InsertAddresses_def InsertAddressChain_def
  InsertOutputAddresses_def UpdateOutputAddresses_def
  InsertTransactionsEpoch_def InsertCvmBlocks_def
  InsertCvmAddresses_def InsertCvmTransactions_def
  InsertCvmTransactionsTxdata_def InsertPvmBlocks_def
  InsertRewards_def UpdateRewardsProcessed_def
  InsertTransactionsValidator_def InsertTransactionsBlock_def
  InsertAddressBech32_def InsertOutputAddressAccumulateOut_def
  InsertOutputAddressAccumulateIn_def UpdateOutputAddressAccumulateInOutputsProcessed_def
  InsertOutputTxsAccumulate_def InsertAccumulateBalancesReceived_def
  InsertAccumulateBalancesSent_def InsertAccumulateBalancesTransactions_def
  InsertTransactionsRewardsOwnersAddress_def InsertTransactionsRewardsOwnersOutputs_def
  InsertTransactionsRewardsOwners_def InsertTxPool_def
  UpdateTxPoolStatus_def InsertKeyValueStore_def
  InsertCvmTransactionsTxdataTrace_def InsertNodeIndex_def
  UpdateNodeIndex_def InsertCvmLogs_def
  InsertPvmProposer_def

definition call_effect :: "pcall \<Rightarrow> tables \<Rightarrow> tables" where
  "call_effect c = fold stmt_effect (call_stmts c)"

text \<open>\<open>execs sess ss m\<close>: \<open>m\<close> executes the statements \<open>ss\<close> in order, the first failure ends it.\<close>

definition execs :: "stmt list \<Rightarrow> (dbstate, unit) go \<Rightarrow> bool" where
  "execs ss m \<longleftrightarrow> (\<forall>d. case m d of
       (Inr u, d') \<Rightarrow> tabs d' = fold stmt_effect ss (tabs d)
     | (Inl e, d') \<Rightarrow> (\<exists>n < length ss. tabs d' = fold stmt_effect (take n ss) (tabs d)))"

lemma execs_Inr: "execs ss m \<Longrightarrow> m d = (Inr u, d') \<Longrightarrow> tabs d' = fold stmt_effect ss (tabs d)"
  by (auto simp: execs_def dest: spec [of _ d])

lemma execs_Inl:
  assumes "execs ss m" "m d = (Inl e, d')"
  obtains n where "n < length ss" "tabs d' = fold stmt_effect (take n ss) (tabs d)"
proof -
  from assms(1) have "case m d of
       (Inr u, d') \<Rightarrow> tabs d' = fold stmt_effect ss (tabs d)
     | (Inl e, d') \<Rightarrow> (\<exists>n < length ss. tabs d' = fold stmt_effect (take n ss) (tabs d))"
    by (simp add: execs_def)
  with assms(2) that show ?thesis by auto
qed

lemma execsI:
  assumes "\<And>d u d'. m d = (Inr u, d') \<Longrightarrow> tabs d' = fold stmt_effect ss (tabs d)"
    and "\<And>d e d'. m d = (Inl e, d') \<Longrightarrow> \<exists>n < length ss. tabs d' = fold stmt_effect (take n ss) (tabs d)"
  shows "execs ss m"
  using assms by (auto simp: execs_def split: prod.splits sum.splits)

lemma execs_return: "execs [] (go_return ())"
  by (rule execsI) (simp_all add: go_simps)

lemma execs_then:
  assumes m: "execs ss m" and n: "execs ts n"
  shows "execs (ss @ ts) (go_then m n)"
proof (rule execsI)
  fix d u d' assume "go_then m n d = (Inr u, d')"
  then obtain v d1 where "m d = (Inr v, d1)" "n d1 = (Inr u, d')" by (rule go_then_Inr)
  with execs_Inr [OF m] execs_Inr [OF n] show "tabs d' = fold stmt_effect (ss @ ts) (tabs d)" by simp
next
  fix d e d' assume run: "go_then m n d = (Inl e, d')"
  show "\<exists>k < length (ss @ ts). tabs d' = fold stmt_effect (take k (ss @ ts)) (tabs d)"
  proof (cases "m d")
    case (Pair r d1)
    show ?thesis
    proof (cases r)
      case (Inl e1)
      with Pair run have "m d = (Inl e, d')" by (simp add: go_simps)
      then obtain k where "k < length ss" "tabs d' = fold stmt_effect (take k ss) (tabs d)"
        by (rule execs_Inl [OF m])
      then show ?thesis by (auto intro!: exI [of _ k])
    next
      case (Inr v)
      with Pair run have "n d1 = (Inl e, d')" by (simp add: go_simps)
      then obtain k where "k < length ts" "tabs d' = fold stmt_effect (take k ts) (tabs d1)"
        by (rule execs_Inl [OF n])
      with execs_Inr [OF m, of d v d1] Pair Inr show ?thesis
        by (auto intro!: exI [of _ "length ss + k"])
    qed
  qed
qed

context sql_session
begin

lemma execs_stmt: "execs [s] (exec_stmt sess l tag s)"
  by (rule execsI) (auto dest: exec_stmt_ok exec_stmt_fail)

lemma execs_shapes:
  "execs [InsertInto t ps] (exec_insert sess t et ps)"
  "execs [UpdateSet t ps cs] (exec_update sess t et ps cs)"
  "execs [UpdateSet t ps cs] (exec_update_status sess t et ps cs)"
  unfolding exec_insert_def exec_update_def exec_update_status_def by (fact execs_stmt)+

lemma execs_upsert:
  "execs (InsertInto t ps # (if upd then [UpdateSet t' qs cs] else []))
     (go_then (exec_insert sess t et ps) (if upd then exec_update sess t' et' qs cs else go_return ()))"
  using execs_then [OF execs_shapes(1) execs_shapes(2)] execs_then [OF execs_shapes(1) execs_return]
  by (cases upd) simp_all

text \<open>Every function of \<open>dbmodel.go\<close> that changes the database executes its statements.\<close>

lemma persist_exec_execs: "execs (call_stmts c) (persist_exec sess c)"
  by (cases c) (simp_all only: persist_exec.simps call_stmts.simps Persist_defs execs_upsert execs_shapes)

lemma persist_exec_ok: "persist_exec sess c d = (Inr u, d') \<Longrightarrow> tabs d' = call_effect c (tabs d)"
  unfolding call_effect_def by (rule execs_Inr [OF persist_exec_execs])

end

section \<open>Statements that cannot fail\<close>

fun stmt_safe :: "stmt \<Rightarrow> bool" where
  "stmt_safe (InsertInto t ps) = True"
| "stmt_safe (UpdateSet t ps cs) =
     list_all (\<lambda>k. list_all (\<lambda>c. c \<notin> set (map fst (norm_pairs ps))) k) (unique_keys t)"
| "stmt_safe (UpdateAdd t adds ps cs) = False"

lemma agree_on_update:
  assumes "list_all (\<lambda>c. f r c = r c \<and> g r' c = r' c) k"
  shows "agree_on (f r) (g r') k = agree_on r r' k"
  using assms by (auto simp: agree_on_def list_all_iff)

lemma keys_ok_update:
  assumes "keys_ok t rows" "\<And>r. list_all (list_all (\<lambda>c. f r c = r c)) (unique_keys t)"
  shows "keys_ok t (map f rows)"
proof -
  have "conflicts t (f r) (f r') = conflicts t r r'" for r r'
    using assms(2) [of r] assms(2) [of r'] agree_on_update [of f r f r']
    by (auto simp: conflicts_def list_ex_iff list_all_iff)
  with assms(1) show ?thesis by (simp add: keys_ok_def sorted_wrt_map)
qed

lemma stmt_safe_update:
  assumes "stmt_safe (UpdateSet t ps cs)" "tables_ok T"
  shows "\<exists>T'. sql_apply (UpdateSet t ps cs) T = Some T'"
proof -
  have "c \<notin> dom (map_of (norm_pairs ps))" if "k \<in> set (unique_keys t)" "c \<in> set k" for k c
    using assms(1) that by (auto simp: list_all_iff dom_map_of_conv_image_fst)
  then have "list_all (list_all (\<lambda>c. (if matches cs r then r ++ map_of (norm_pairs ps) else r) c = r c)) (unique_keys t)" for r
    by (auto simp: list_all_iff map_add_dom_app_simps)
  with assms(2) have "keys_ok t (map (\<lambda>r. if matches cs r then r ++ map_of (norm_pairs ps) else r) (T t))"
    by (intro keys_ok_update) (auto simp: tables_ok_def)
  then show ?thesis by (simp add: sql_update_def)
qed

text \<open>The calls of a handler that does not ask for updates never touch a key.\<close>

lemma call_stmts_safe: "call_upd False c \<Longrightarrow> list_all stmt_safe (call_stmts c)"
  by (cases c) (simp_all add: unique_keys_def norm_pairs_def dao_defs)

lemma stmt_effect_keys: "tables_ok T \<Longrightarrow> tables_ok (stmt_effect s T)"
  by (auto simp: stmt_effect_def split: option.splits dest: sql_apply_keys)

lemma call_effect_keys: "tables_ok T \<Longrightarrow> tables_ok (call_effect c T)"
proof -
  have "tables_ok T \<Longrightarrow> tables_ok (fold stmt_effect ss T)" for ss
    by (induction ss arbitrary: T) (simp_all add: stmt_effect_keys)
  then show "tables_ok T \<Longrightarrow> tables_ok (call_effect c T)" by (simp add: call_effect_def)
qed

section \<open>Handlers are their calls\<close>

text \<open>
  \<open>traced P p m n\<close>: the handler \<open>m\<close>, whose \<open>Persist\<close> is \<open>p\<close>, succeeds exactly when all the calls
  that the same handler \<open>n\<close> records succeed on \<open>p\<close>, one after the other, and then has returned
  the same value and left the same state; all of the calls satisfy \<open>P\<close>, and whether it succeeds
  or not, the state is changed by calls that satisfy \<open>P\<close> only (\<open>only_calls\<close>).
\<close>

definition traced_by :: "(pcall \<Rightarrow> ('s, unit) go) \<Rightarrow> ('s, 'a) go \<Rightarrow> go_error + 'a \<Rightarrow> pcall list \<Rightarrow> bool" where
  "traced_by p m r cs \<longleftrightarrow>
     (\<forall>s a s'. m s = (Inr a, s') \<longrightarrow> go_for p cs s = (Inr (), s') \<and> r = Inr a)
   \<and> (\<forall>s s'. go_for p cs s = (Inr (), s') \<longrightarrow> m s = (r, s'))"

definition only_calls :: "(pcall \<Rightarrow> bool) \<Rightarrow> (pcall \<Rightarrow> ('s, unit) go) \<Rightarrow> ('s, 'a) go \<Rightarrow> bool" where
  "only_calls P p m \<longleftrightarrow> (\<forall>I. (\<forall>c. P c \<longrightarrow> keeps I (p c)) \<longrightarrow> keeps I m)"

definition traced :: "(pcall \<Rightarrow> bool) \<Rightarrow> (pcall \<Rightarrow> ('s, unit) go) \<Rightarrow> ('s, 'a) go \<Rightarrow> (pcall list, 'a) go \<Rightarrow> bool" where
  "traced P p m n \<longleftrightarrow> only_calls P p m \<and> (\<exists>r cs. list_all P cs \<and> n = (\<lambda>cs0. (r, cs0 @ cs)) \<and> traced_by p m r cs)"

named_theorems traced_intros "rules for the calls of handlers"

lemma only_calls_intros:
  "only_calls P p (go_lift r)"
  "P c \<Longrightarrow> only_calls P p (p c)"
  "only_calls P p m \<Longrightarrow> (\<And>a. only_calls P p (k a)) \<Longrightarrow> only_calls P p (go_bind m k)"
  unfolding only_calls_def by (auto intro: keeps_lift keeps_bind)

lemma tracedI:
  "only_calls P p m \<Longrightarrow> list_all P cs \<Longrightarrow> n = (\<lambda>cs0. (r, cs0 @ cs)) \<Longrightarrow> traced_by p m r cs \<Longrightarrow> traced P p m n"
  unfolding traced_def by blast

lemma tracedE:
  assumes "traced P p m n"
  obtains r cs where "list_all P cs" "n = (\<lambda>cs0. (r, cs0 @ cs))" "traced_by p m r cs"
  using assms unfolding traced_def by blast

lemma traced_only: "traced P p m n \<Longrightarrow> only_calls P p m"
  by (simp add: traced_def)

lemma go_for_append_run:
  "go_for p (cs @ ds) s = (Inr (), s') \<longleftrightarrow> (\<exists>s1. go_for p cs s = (Inr (), s1) \<and> go_for p ds s1 = (Inr (), s'))"
  by (auto simp: go_for_append go_simps split: prod.splits sum.splits)

lemma traced_lift [traced_intros]: "traced P p (go_lift r) (go_lift r)"
  by (rule tracedI [OF only_calls_intros(1), of _ "[]" _ r]) (auto simp: traced_by_def go_simps fun_eq_iff)

lemma traced_return [traced_intros]: "traced P p (go_return a) (go_return a)"
  using traced_lift [of P p "Inr a"] by (simp add: go_lift_def go_return_def)

lemma traced_raise [traced_intros]: "traced P p (go_raise e) (go_raise e)"
  using traced_lift [of P p "Inl e"] by (simp add: go_lift_def go_raise_def)

lemma traced_call [traced_intros]: "P c \<Longrightarrow> traced P p (p c) (record_call c)"
  by (rule tracedI [OF only_calls_intros(2), of P c "[c]" _ "Inr ()"])
    (auto simp: traced_by_def go_simps fun_eq_iff record_call_def split: prod.splits sum.splits)

lemma traced_byI:
  assumes "\<And>s a s'. m s = (Inr a, s') \<Longrightarrow> go_for p cs s = (Inr (), s') \<and> r = Inr a"
    and "\<And>s s'. go_for p cs s = (Inr (), s') \<Longrightarrow> m s = (r, s')"
  shows "traced_by p m r cs"
  unfolding traced_by_def using assms by blast

lemma traced_byD:
  assumes "traced_by p m r cs"
  shows "m s = (Inr a, s') \<Longrightarrow> go_for p cs s = (Inr (), s')"
    and "m s = (Inr a, s') \<Longrightarrow> r = Inr a"
    and "go_for p cs s = (Inr (), s') \<Longrightarrow> m s = (r, s')"
  using assms unfolding traced_by_def by blast+

lemma traced_by_bind_Inl:
  assumes "traced_by p m (Inl e) cs"
  shows "traced_by p (go_bind m k) (Inl e) cs"
proof (rule traced_byI)
  fix s b s' assume "go_bind m k s = (Inr b, s')"
  then obtain a s1 where "m s = (Inr a, s1)" by (rule go_bind_Inr)
  from traced_byD(2) [OF assms this] show "go_for p cs s = (Inr (), s') \<and> Inl e = Inr b" by simp
next
  fix s s' assume "go_for p cs s = (Inr (), s')"
  from traced_byD(3) [OF assms this] show "go_bind m k s = (Inl e, s')" by (simp add: go_simps)
qed

lemma traced_by_bind_Inr:
  assumes m: "traced_by p m (Inr a) cs" and k: "traced_by p (k a) q ds"
  shows "traced_by p (go_bind m k) q (cs @ ds)"
proof (rule traced_byI)
  fix s b s' assume "go_bind m k s = (Inr b, s')"
  then obtain a' s1 where m1: "m s = (Inr a', s1)" and k1: "k a' s1 = (Inr b, s')" by (rule go_bind_Inr)
  from traced_byD(2) [OF m m1] have "a' = a" by simp
  with k1 have "k a s1 = (Inr b, s')" by simp
  with traced_byD(1) [OF m m1] traced_byD(1,2) [OF k] show "go_for p (cs @ ds) s = (Inr (), s') \<and> q = Inr b"
    unfolding go_for_append_run by blast
next
  fix s s' assume "go_for p (cs @ ds) s = (Inr (), s')"
  then obtain s1 where "go_for p cs s = (Inr (), s1)" "go_for p ds s1 = (Inr (), s')"
    unfolding go_for_append_run by blast
  with traced_byD(3) [OF m] traced_byD(3) [OF k] show "go_bind m k s = (q, s')" by (simp add: go_simps)
qed

lemma traced_bind [traced_intros]:
  assumes "traced P p m n" "\<And>a. traced P p (k a) (l a)"
  shows "traced P p (go_bind m k) (go_bind n l)"
  using assms(1)
proof (rule tracedE)
  note only = only_calls_intros(3) [OF assms(1) [THEN traced_only] assms(2) [THEN traced_only]]
  fix r cs assume m: "list_all P cs" "n = (\<lambda>cs0. (r, cs0 @ cs))" "traced_by p m r cs"
  show ?thesis
  proof (cases r)
    case (Inl e)
    with m show ?thesis
      by (intro tracedI [OF only, of cs _ "Inl e"]) (auto simp: go_simps fun_eq_iff intro: traced_by_bind_Inl)
  next
    case (Inr a)
    from assms(2) [of a] show ?thesis
    proof (rule tracedE)
      fix q ds assume k: "list_all P ds" "l a = (\<lambda>cs0. (q, cs0 @ ds))" "traced_by p (k a) q ds"
      with m Inr show ?thesis
        by (intro tracedI [OF only, of "cs @ ds" _ q]) (auto simp: go_simps fun_eq_iff intro: traced_by_bind_Inr)
    qed
  qed
qed

lemma traced_then [traced_intros]: "traced P p m n \<Longrightarrow> traced P p m' n' \<Longrightarrow> traced P p (go_then m m') (go_then n n')"
  unfolding go_then_def by (rule traced_bind)

lemma traced_for [traced_intros]:
  "(\<And>x. x \<in> set xs \<Longrightarrow> traced P p (f x) (g x)) \<Longrightarrow> traced P p (go_for f xs) (go_for g xs)"
  by (induction xs) (auto intro!: traced_return traced_then)

lemma traced_fold [traced_intros]:
  "(\<And>x b. x \<in> set xs \<Longrightarrow> traced P p (f x b) (g x b)) \<Longrightarrow> traced P p (go_fold f xs b) (go_fold g xs b)"
  by (induction xs arbitrary: b) (auto intro!: traced_return traced_bind)

lemma traced_if [traced_intros]:
  "(c \<Longrightarrow> traced P p m n) \<Longrightarrow> (\<not> c \<Longrightarrow> traced P p m' n') \<Longrightarrow> traced P p (if c then m else m') (if c then n else n')"
  by simp

lemma traced_option [traced_intros]:
  "(x = None \<Longrightarrow> traced P p m n) \<Longrightarrow> (\<And>a. x = Some a \<Longrightarrow> traced P p (f a) (g a))
    \<Longrightarrow> traced P p (case x of None \<Rightarrow> m | Some a \<Rightarrow> f a) (case x of None \<Rightarrow> n | Some a \<Rightarrow> g a)"
  by (simp split: option.split)

lemma traced_sum [traced_intros]:
  "(\<And>e. x = Inl e \<Longrightarrow> traced P p (f e) (g e)) \<Longrightarrow> (\<And>a. x = Inr a \<Longrightarrow> traced P p (f' a) (g' a))
    \<Longrightarrow> traced P p (case x of Inl e \<Rightarrow> f e | Inr a \<Rightarrow> f' a) (case x of Inl e \<Rightarrow> g e | Inr a \<Rightarrow> g' a)"
  by (simp split: sum.split)

lemma traced_prod [traced_intros]:
  "(\<And>a b. x = (a, b) \<Longrightarrow> traced P p (f a b) (g a b))
    \<Longrightarrow> traced P p (case x of (a, b) \<Rightarrow> f a b) (case x of (a, b) \<Rightarrow> g a b)"
  by (simp split: prod.split)

lemma traced_Let [traced_intros]: "traced P p (f x) (g x) \<Longrightarrow> traced P p (Let x f) (Let x g)"
  by simp

subsection \<open>Handlers that collect errors\<close>

text \<open>
  \<open>errs := wrappers.Errs{}; errs.Add(m1, m2, ...); return errs.Err\<close>: all the handlers run, in
  order, whether or not an earlier one failed.
\<close>

fun go_errs :: "extlib \<Rightarrow> go_error option \<Rightarrow> ('s, unit) go list \<Rightarrow> ('s, unit) go" where
  "go_errs lib errs [] = (case errs of None \<Rightarrow> go_return () | Some e \<Rightarrow> go_raise e)"
| "go_errs lib errs (m # ms) = (\<lambda>s.
     case m s of
       (Inl e, s') \<Rightarrow> go_errs lib (Errs_Add lib errs (Some e)) ms s'
     | (Inr _, s') \<Rightarrow> go_errs lib (Errs_Add lib errs None) ms s')"

lemma go_errs_Some: "Errs_keep_first lib \<Longrightarrow> \<exists>s'. go_errs lib (Some e) ms s = (Inl e, s')"
  by (induction ms arbitrary: s) (auto simp: go_simps Errs_keep_first_def split: prod.split sum.split)

lemma go_errs_step:
  "m s = (r, s1) \<Longrightarrow> go_errs lib errs (m # ms) s
     = go_errs lib (Errs_Add lib errs (case r of Inl e \<Rightarrow> Some e | Inr _ \<Rightarrow> None)) ms s1"
  by (cases r) simp_all

lemma go_errs_Inr:
  assumes lib: "Errs_keep_first lib" and run: "go_errs lib errs (m # ms) s = (Inr u, s')"
  obtains s1 where "m s = (Inr (), s1)" "go_errs lib (Errs_Add lib errs None) ms s1 = (Inr u, s')"
proof -
  obtain y s1 where y: "m s = (y, s1)" by (cases "m s")
  show ?thesis
  proof (cases y)
    case (Inl e)
    then have "\<exists>e'. Errs_Add lib errs (case y of Inl e \<Rightarrow> Some e | Inr _ \<Rightarrow> None) = Some e'"
      using lib by (auto simp: Errs_keep_first_def split: option.split)
    then obtain e' where "go_errs lib errs (m # ms) s = go_errs lib (Some e') ms s1"
      using go_errs_step [of m s y s1 lib errs ms, OF y] by metis
    moreover obtain s2 where "go_errs lib (Some e') ms s1 = (Inl e', s2)"
      using go_errs_Some [OF lib, of e' ms s1] by (elim exE)
    ultimately show ?thesis using run by simp
  next
    case (Inr v)
    with y run that show ?thesis by simp
  qed
qed

lemma traced_by_errs_Cons:
  assumes lib: "Errs_keep_first lib" and m: "traced_by p m r cs"
    and ms: "traced_by p (go_errs lib (Errs_Add lib errs (case r of Inl e \<Rightarrow> Some e | Inr _ \<Rightarrow> None)) ms) q ds"
  shows "traced_by p (go_errs lib errs (m # ms)) q (cs @ ds)"
proof (rule traced_byI)
  fix s u s' assume "go_errs lib errs (m # ms) s = (Inr u, s')"
  then obtain s1 where m1: "m s = (Inr (), s1)" and run: "go_errs lib (Errs_Add lib errs None) ms s1 = (Inr u, s')"
    by (rule go_errs_Inr [OF lib])
  from traced_byD(2) [OF m m1] ms
  have "traced_by p (go_errs lib (Errs_Add lib errs None) ms) q ds" by simp
  with traced_byD(1) [OF m m1] run show "go_for p (cs @ ds) s = (Inr (), s') \<and> q = Inr u"
    unfolding go_for_append_run by (blast dest: traced_byD)
next
  fix s s' assume "go_for p (cs @ ds) s = (Inr (), s')"
  then obtain s1 where 1: "go_for p cs s = (Inr (), s1)" "go_for p ds s1 = (Inr (), s')"
    unfolding go_for_append_run by blast
  from go_errs_step [of m s r s1, OF traced_byD(3) [OF m 1(1)]] traced_byD(3) [OF ms 1(2)]
  show "go_errs lib errs (m # ms) s = (q, s')" by simp
qed

lemma only_calls_errs:
  assumes "only_calls P p m" "\<And>errs. only_calls P p (go_errs lib errs ms)"
  shows "only_calls P p (go_errs lib errs (m # ms))"
  unfolding only_calls_def
proof (intro allI impI)
  fix I :: "'a \<Rightarrow> bool" assume I: "\<forall>c. P c \<longrightarrow> keeps I (p c)"
  then have m: "keeps I m" and ms: "keeps I (go_errs lib errs ms)" for errs
    using assms by (simp_all add: only_calls_def)
  show "keeps I (go_errs lib errs (m # ms))"
    unfolding keeps_def
  proof (intro allI impI)
    fix s assume "I s"
    obtain r s1 where r: "m s = (r, s1)" by (cases "m s")
    with keepsD [OF m \<open>I s\<close>] have "I s1" by blast
    with ms show "I (snd (go_errs lib errs (m # ms) s))"
      unfolding go_errs_step [of m s r s1 lib errs ms, OF r] by (simp add: keeps_def)
  qed
qed

lemma traced_errs:
  assumes "Errs_keep_first lib" "list_all2 (traced P p) ms ns"
  shows "traced P p (go_errs lib errs ms) (go_errs lib errs ns)"
  using assms(2)
proof (induction ms ns arbitrary: errs rule: list_all2_induct)
  case Nil
  then show ?case by (cases errs) (simp_all add: traced_return traced_raise)
next
  case (Cons m ms n ns)
  note only = only_calls_errs [OF Cons.hyps(1) [THEN traced_only] Cons.IH [THEN traced_only]]
  from Cons.hyps(1) show ?case
  proof (rule tracedE)
    fix r cs assume m: "list_all P cs" "n = (\<lambda>cs0. (r, cs0 @ cs))" "traced_by p m r cs"
    let ?errs = "Errs_Add lib errs (case r of Inl e \<Rightarrow> Some e | Inr _ \<Rightarrow> None)"
    from Cons.IH [of ?errs] show ?thesis
    proof (rule tracedE)
      fix q ds assume k: "list_all P ds" "go_errs lib ?errs ns = (\<lambda>cs0. (q, cs0 @ ds))"
        "traced_by p (go_errs lib ?errs ms) q ds"
      have "go_errs lib errs (n # ns) cs0 = (q, cs0 @ cs @ ds)" for cs0
        using go_errs_step [of n cs0 r "cs0 @ cs" lib errs ns] m(2) k(2) by simp
      with m k traced_by_errs_Cons [OF assms(1) m(3) k(3)] show ?thesis
        by (intro tracedI [OF only, of "cs @ ds" _ q]) (auto simp del: go_errs.simps)
    qed
  qed
qed

lemma list_all2_concat_map:
  "(\<And>x. x \<in> set xs \<Longrightarrow> list_all2 R (f x) (g x)) \<Longrightarrow> list_all2 R (concat (map f xs)) (concat (map g xs))"
  by (induction xs) (auto intro!: list_all2_appendI)

text \<open>The value of a handler and its calls, as the recording implementation sees them.\<close>

definition trace :: "(pcall list, 'a) go \<Rightarrow> pcall list" where
  "trace n = snd (n [])"

definition outcome :: "(pcall list, 'a) go \<Rightarrow> go_error + 'a" where
  "outcome n = fst (n [])"

lemma traced_run: "traced P p m n \<Longrightarrow> traced_by p m (outcome n) (trace n)"
  by (erule tracedE) (simp add: trace_def outcome_def)

lemma traced_all: "traced P p m n \<Longrightarrow> list_all P (trace n)"
  by (erule tracedE) (simp add: trace_def)

lemma traced_mono:
  assumes "traced P p m n" "\<And>c. P c \<Longrightarrow> Q c"
  shows "traced Q p m n"
  using assms(1)
proof (rule tracedE)
  fix r cs assume "list_all P cs" "n = (\<lambda>cs0. (r, cs0 @ cs))" "traced_by p m r cs"
  moreover from traced_only [OF assms(1)] assms(2) have "only_calls Q p m" by (simp add: only_calls_def)
  ultimately show ?thesis using assms(2) by (intro tracedI [of _ _ _ cs]) (auto simp: list_all_iff)
qed

subsection \<open>The rows a handler writes\<close>

text \<open>\<open>adds f m bs\<close>: when the handler \<open>m\<close> succeeds on the recording implementation, the calls
  it adds are, seen through \<open>f\<close>, the list \<open>bs\<close>.\<close>

definition adds :: "(pcall \<Rightarrow> 'b option) \<Rightarrow> (pcall list, 'a) go \<Rightarrow> 'b list \<Rightarrow> bool" where
  "adds f m bs \<longleftrightarrow> (\<forall>cs a cs'. m cs = (Inr a, cs') \<longrightarrow> List.map_filter f cs' = List.map_filter f cs @ bs)"

named_theorems adds_intros "rules for the rows that handlers write"

lemma addsD: "adds f m bs \<Longrightarrow> m cs = (Inr a, cs') \<Longrightarrow> List.map_filter f cs' = List.map_filter f cs @ bs"
  by (simp add: adds_def)

lemma adds_return [adds_intros]: "adds f (go_return a) []"
  by (simp add: adds_def go_simps)

lemma adds_raise [adds_intros]: "adds f (go_raise e) bs"
  by (simp add: adds_def go_simps)

lemma adds_lift [adds_intros]: "adds f (go_lift r) []"
  by (simp add: adds_def go_simps)

lemma adds_call: "adds f (record_call c) (case f c of None \<Rightarrow> [] | Some b \<Rightarrow> [b])"
  by (simp add: adds_def record_call_def map_filter_simps List.map_filter_def split: option.split)

lemma adds_call_None [adds_intros]: "f c = None \<Longrightarrow> adds f (record_call c) []"
  using adds_call [of f c] by simp

lemma adds_call_Some: "f c = Some b \<Longrightarrow> adds f (record_call c) [b]"
  using adds_call [of f c] by simp

lemma adds_bind:
  assumes "adds f m bs" "\<And>a. adds f (k a) ds"
  shows "adds f (go_bind m k) (bs @ ds)"
  unfolding adds_def
proof (intro allI impI)
  fix cs b cs' assume "go_bind m k cs = (Inr b, cs')"
  then obtain a cs1 where "m cs = (Inr a, cs1)" "k a cs1 = (Inr b, cs')" by (rule go_bind_Inr)
  with addsD [OF assms(1)] addsD [OF assms(2)]
  show "List.map_filter f cs' = List.map_filter f cs @ bs @ ds" by simp
qed

lemma adds_then: "adds f m bs \<Longrightarrow> adds f n ds \<Longrightarrow> adds f (go_then m n) (bs @ ds)"
  unfolding go_then_def by (rule adds_bind)

lemma adds_bind_left: "adds f m [] \<Longrightarrow> (\<And>a. adds f (k a) ds) \<Longrightarrow> adds f (go_bind m k) ds"
  using adds_bind [of f m "[]" k ds] by simp

lemma adds_bind_right: "adds f m bs \<Longrightarrow> (\<And>a. adds f (k a) []) \<Longrightarrow> adds f (go_bind m k) bs"
  using adds_bind [of f m bs k "[]"] by simp

lemma adds_then_left: "adds f m [] \<Longrightarrow> adds f n ds \<Longrightarrow> adds f (go_then m n) ds"
  using adds_then [of f m "[]" n ds] by simp

lemma adds_then_right: "adds f m bs \<Longrightarrow> adds f n [] \<Longrightarrow> adds f (go_then m n) bs"
  using adds_then [of f m bs n "[]"] by simp

lemma adds_for_concat:
  "(\<And>x. x \<in> set xs \<Longrightarrow> adds f (g x) (h x)) \<Longrightarrow> adds f (go_for g xs) (concat (map h xs))"
  by (induction xs) (auto intro!: adds_return adds_then)

lemma concat_map_Nil [simp]: "concat (map (\<lambda>x. []) xs) = []"
  by (induction xs) simp_all

lemma adds_for [adds_intros]: "(\<And>x. x \<in> set xs \<Longrightarrow> adds f (g x) []) \<Longrightarrow> adds f (go_for g xs) []"
  using adds_for_concat [of xs f g "\<lambda>_. []"] by simp

lemma adds_fold_concat:
  "(\<And>x b. x \<in> set xs \<Longrightarrow> adds f (g x b) (h x)) \<Longrightarrow> adds f (go_fold g xs b) (concat (map h xs))"
  by (induction xs arbitrary: b) (auto intro!: adds_return adds_bind)

lemma adds_fold_map:
  "(\<And>x b. x \<in> set xs \<Longrightarrow> adds f (g x b) [h x]) \<Longrightarrow> adds f (go_fold g xs b) (map h xs)"
  using adds_fold_concat [of xs f g "\<lambda>x. [h x]" b] by simp

lemma adds_fold [adds_intros]: "(\<And>x b. x \<in> set xs \<Longrightarrow> adds f (g x b) []) \<Longrightarrow> adds f (go_fold g xs b) []"
  using adds_fold_concat [of xs f g "\<lambda>_. []" b] by simp

lemma adds_if [adds_intros]: "(c \<Longrightarrow> adds f m bs) \<Longrightarrow> (\<not> c \<Longrightarrow> adds f n bs) \<Longrightarrow> adds f (if c then m else n) bs"
  by simp

lemma adds_Let [adds_intros]: "adds f (k x) bs \<Longrightarrow> adds f (Let x k) bs"
  by simp

lemma adds_option [adds_intros]:
  "(x = None \<Longrightarrow> adds f m bs) \<Longrightarrow> (\<And>a. x = Some a \<Longrightarrow> adds f (k a) bs)
    \<Longrightarrow> adds f (case x of None \<Rightarrow> m | Some a \<Rightarrow> k a) bs"
  by (simp split: option.split)

lemma adds_sum [adds_intros]:
  "(\<And>e. x = Inl e \<Longrightarrow> adds f (g e) bs) \<Longrightarrow> (\<And>a. x = Inr a \<Longrightarrow> adds f (k a) bs)
    \<Longrightarrow> adds f (case x of Inl e \<Rightarrow> g e | Inr a \<Rightarrow> k a) bs"
  by (simp split: sum.split)

lemma adds_prod [adds_intros]:
  "(\<And>a b. x = (a, b) \<Longrightarrow> adds f (k a b) bs) \<Longrightarrow> adds f (case x of (a, b) \<Rightarrow> k a b) bs"
  by (simp split: prod.split)

lemma adds_traced:
  assumes "traced P record_call m m" "\<And>c. P c \<Longrightarrow> f c = None"
  shows "adds f m []"
  using assms(1)
proof (rule tracedE)
  fix r cs assume m: "list_all P cs" "m = (\<lambda>cs0. (r, cs0 @ cs))"
  then have "List.map_filter f cs = []"
    using assms(2) by (auto simp: List.map_filter_def list_all_iff filter_empty_conv)
  with m show ?thesis by (auto simp: adds_def List.map_filter_def)
qed

lemma adds_errs:
  assumes "Errs_keep_first lib" "list_all2 (adds f) ms bss"
  shows "adds f (go_errs lib errs ms) (concat bss)"
  using assms(2)
proof (induction ms bss arbitrary: errs rule: list_all2_induct)
  case Nil
  then show ?case by (cases errs) (simp_all add: adds_return adds_raise)
next
  case (Cons m ms bs bss)
  show ?case
    unfolding adds_def
  proof (intro allI impI)
    fix cs a cs' assume "go_errs lib errs (m # ms) cs = (Inr a, cs')"
    then obtain cs1 where "m cs = (Inr (), cs1)" "go_errs lib (Errs_Add lib errs None) ms cs1 = (Inr a, cs')"
      by (rule go_errs_Inr [OF assms(1)])
    with addsD [OF Cons.hyps(1)] addsD [OF Cons.IH]
    show "List.map_filter f cs' = List.map_filter f cs @ concat (bs # bss)" by simp
  qed
qed

subsection \<open>Handlers on a database that may fail\<close>

context sql_session
begin

text \<open>Whatever the server does, a handler that succeeds has had the effect of its calls.\<close>

lemma go_for_calls_ok:
  "go_for (persist_exec sess) cs d = (Inr u, d') \<Longrightarrow> tabs d' = fold call_effect cs (tabs d)"
proof (induction cs arbitrary: d)
  case (Cons c cs)
  from Cons.prems obtain v d1 where "persist_exec sess c d = (Inr v, d1)" "go_for (persist_exec sess) cs d1 = (Inr u, d')"
    by (auto elim: go_then_Inr)
  with persist_exec_ok Cons.IH show ?case by simp
qed (simp add: go_simps)

lemma handler_ok:
  assumes "traced P (persist_exec sess) m n" "m d = (Inr a, d')"
  shows "outcome n = Inr a" "tabs d' = fold call_effect (trace n) (tabs d)"
  using traced_run [OF assms(1)] assms(2) unfolding traced_by_def by (blast intro: go_for_calls_ok)+

text \<open>A handler in a transaction: all of its calls or none.\<close>

lemma tx_handler_atomic:
  assumes "traced P (persist_exec sess) m n" "with_tx sess m d = (r, d')"
  shows "case r of Inr a \<Rightarrow> outcome n = Inr a \<and> tabs d' = fold call_effect (trace n) (tabs d)
    | Inl e \<Rightarrow> tabs d' = tabs d"
proof (cases r)
  case (Inl e)
  with assms(2) with_tx_rollback show ?thesis by simp
next
  case (Inr a)
  with assms(2) have "with_tx sess m d = (Inr a, d')" by simp
  then obtain d1 d2 where "tabs d1 = tabs d" "m d1 = (Inr a, d2)" "tabs d' = tabs d2" by (rule with_tx_commit)
  with handler_ok [OF assms(1)] Inr show ?thesis by simp
qed

end

text \<open>The table a call works on; all others keep their rows.\<close>

definition call_table :: "pcall \<Rightarrow> string" where
  "call_table c = stmt_table (hd (call_stmts c))"

lemma stmt_effect_other: "t \<noteq> stmt_table s \<Longrightarrow> stmt_effect s T t = T t"
  by (cases s) (auto simp: stmt_effect_def sql_insert_def sql_update_def Let_def)

lemma call_stmts_table: "list_all (\<lambda>s. stmt_table s = call_table c) (call_stmts c)"
  by (cases c) (simp_all add: call_table_def)

lemma call_effect_other: "t \<noteq> call_table c \<Longrightarrow> call_effect c T t = T t"
proof -
  assume t: "t \<noteq> call_table c"
  have "list_all (\<lambda>s. stmt_table s = call_table c) ss \<Longrightarrow> fold stmt_effect ss T t = T t" for ss
    using t by (induction ss arbitrary: T) (simp_all add: stmt_effect_other)
  then show "call_effect c T t = T t" using call_stmts_table [of c] by (simp add: call_effect_def)
qed

lemma calls_effect_other:
  "list_all (\<lambda>c. call_table c \<noteq> t) cs \<Longrightarrow> fold call_effect cs T t = T t"
  by (induction cs arbitrary: T) (simp_all add: call_effect_other [OF not_sym])

text \<open>The tables that writers leave alone.\<close>

definition other_tables :: "string list" where
  "other_tables = [TableTxPool, TableNodeIndex, TableKeyValueStore, TableCvmBlocks,
     TableAccumulateBalancesReceived, TableAccumulateBalancesSent, TableAccumulateBalancesTransactions]"

lemma call_upd_tables: "call_upd u c \<Longrightarrow> call_table c \<notin> set other_tables"
  by (cases c) (simp_all add: call_table_def other_tables_def)

lemma writer_keeps_table:
  assumes "list_all (call_upd u) cs" "t \<in> set other_tables"
  shows "fold call_effect cs T t = T t"
  using assms call_upd_tables by (intro calls_effect_other) (auto simp: list_all_iff)

section \<open>The interface of the writers to the database\<close>

locale persist_store =
  fixes exec :: "pcall \<Rightarrow> ('s, unit) go"
    and invar :: "'s \<Rightarrow> bool"
    and content :: "'s \<Rightarrow> 'c"
    and eff :: "pcall \<Rightarrow> 'c \<Rightarrow> 'c"
    and allowed :: "pcall \<Rightarrow> bool"
  assumes exec_call: "invar s \<Longrightarrow> allowed c
      \<Longrightarrow> \<exists>s'. exec c s = (Inr (), s') \<and> invar s' \<and> content s' = eff c (content s)"
begin

lemma exec_calls:
  "invar s \<Longrightarrow> list_all allowed cs
    \<Longrightarrow> \<exists>s'. go_for exec cs s = (Inr (), s') \<and> invar s' \<and> content s' = fold eff cs (content s)"
proof (induction cs arbitrary: s)
  case (Cons c cs)
  then obtain s1 where s1: "exec c s = (Inr (), s1)" "invar s1" "content s1 = eff c (content s)"
    using exec_call [of s c] by auto
  with Cons obtain s2 where "go_for exec cs s1 = (Inr (), s2)" "invar s2" "content s2 = fold eff cs (content s1)"
    by fastforce
  with s1 show ?case by (simp add: go_simps)
qed (simp add: go_simps)

text \<open>A handler returns what it returns on the recording implementation, and what it leaves
  is the effect of its calls.\<close>

lemma run_handler:
  assumes "traced allowed exec m n" "invar s"
  shows "\<exists>s'. m s = (outcome n, s') \<and> invar s' \<and> content s' = fold eff (trace n) (content s)"
proof -
  obtain s' where "go_for exec (trace n) s = (Inr (), s')" "invar s'"
      "content s' = fold eff (trace n) (content s)"
    using exec_calls [OF assms(2) traced_all [OF assms(1)]] by blast
  then show ?thesis using traced_run [OF assms(1)] unfolding traced_by_def by blast
qed

end

context reliable_session
begin

lemma exec_stmt_total:
  assumes "stmt_safe s" "tables_ok (tabs d)" "lenient \<or> (\<exists>t ps cs. s = UpdateSet t ps cs)"
  shows "\<exists>d'. exec_stmt sess lenient tag s d = (Inr (), d') \<and> tabs d' = stmt_effect s (tabs d)"
proof (cases "sess_run sess s d")
  case (Pair r d')
  have "fst (exec_stmt sess lenient tag s d) = Inr ()"
  proof (cases "sql_apply s (tabs d)")
    case None
    then have "\<nexists>t ps cs. s = UpdateSet t ps cs" using stmt_safe_update assms(1,2) by fastforce
    with None assms(3) dup_reported [OF None] Pair show ?thesis
      by (auto simp: exec_stmt_def ErrIsDuplicateEntryError_def split: option.splits)
  next
    case (Some T)
    with run_total [OF Some] Pair show ?thesis by (simp add: exec_stmt_def)
  qed
  then show ?thesis using exec_stmt_ok [of lenient tag s d "()"] by (metis prod.collapse)
qed

lemma exec_shapes_total:
  assumes "tables_ok (tabs d)"
  shows "\<exists>d'. exec_insert sess t et ps d = (Inr (), d') \<and> tabs d' = fold stmt_effect [InsertInto t ps] (tabs d)"
    and "stmt_safe (UpdateSet t ps cs)
      \<Longrightarrow> \<exists>d'. exec_update sess t et ps cs d = (Inr (), d') \<and> tabs d' = fold stmt_effect [UpdateSet t ps cs] (tabs d)"
    and "stmt_safe (UpdateSet t ps cs)
      \<Longrightarrow> \<exists>d'. exec_update_status sess t et ps cs d = (Inr (), d') \<and> tabs d' = fold stmt_effect [UpdateSet t ps cs] (tabs d)"
  unfolding exec_insert_def exec_update_def exec_update_status_def
  using exec_stmt_total [OF _ assms] by auto

lemma exec_upsert_total:
  assumes "tables_ok (tabs d)" "upd = False"
  shows "\<exists>d'. go_then (exec_insert sess t et ps) (if upd then m else go_return ()) d = (Inr (), d')
    \<and> tabs d' = fold stmt_effect (InsertInto t ps # (if upd then ss else [])) (tabs d)"
  using exec_shapes_total(1) [OF assms(1), of t et ps] assms(2) by (auto simp: go_simps)

lemma persist_exec_total:
  assumes "tables_ok (tabs d)" "call_upd False c"
  shows "\<exists>d'. persist_exec sess c d = (Inr (), d') \<and> tabs d' = call_effect c (tabs d)"
proof -
  note rules = exec_upsert_total [OF assms(1)] exec_shapes_total [OF assms(1)]
  from call_stmts_safe [OF assms(2)] assms(2) show ?thesis
    unfolding call_effect_def
    by (cases c) (simp_all only: persist_exec.simps call_stmts.simps call_upd.simps Persist_defs
        list.pred_inject simp_thms rules)
qed

end

interpretation sqlp: persist_store "persist_exec ideal" "\<lambda>d. tables_ok (tabs d)" tabs call_effect "call_upd False"
proof
  fix d :: dbstate and c
  assume "tables_ok (tabs d)" "call_upd False c"
  then obtain d' where "persist_exec ideal c d = (Inr (), d')" "tabs d' = call_effect c (tabs d)"
    using ideal.persist_exec_total by blast
  with \<open>tables_ok (tabs d)\<close> show "\<exists>s'. persist_exec ideal c d = (Inr (), s') \<and> tables_ok (tabs s')
      \<and> tabs s' = call_effect c (tabs d)"
    by (simp add: call_effect_keys)
qed

text \<open>A handler in a transaction on a server without faults returns what it records.\<close>

lemma ideal_tx_handler:
  assumes "traced (call_upd False) (persist_exec ideal) m n" "tables_ok (tabs d)"
  shows "\<exists>d'. with_tx ideal m d = (outcome n, d') \<and> tables_ok (tabs d')
    \<and> tabs d' = (case outcome n of Inr _ \<Rightarrow> fold call_effect (trace n) (tabs d) | Inl _ \<Rightarrow> tabs d)"
proof -
  obtain d1 where d1: "sess_begin ideal d = (None, d1)" "tabs d1 = tabs d"
    by (simp add: mysql_def)
  with assms obtain d2 where d2: "m d1 = (outcome n, d2)" "tables_ok (tabs d2)"
    "tabs d2 = fold call_effect (trace n) (tabs d)"
    using sqlp.run_handler [OF assms(1), of d1] by auto
  have "sess_commit ideal d2 = (None, tick d2)" by (simp add: mysql_def)
  with d1 d2 assms(2) show ?thesis
    by (cases "outcome n") (auto simp: with_tx_def)
qed

section \<open>Servers whose faults end\<close>

definition quiet :: "(nat \<Rightarrow> stmt option \<Rightarrow> go_error option) \<Rightarrow> nat \<Rightarrow> bool" where
  "quiet faults N \<longleftrightarrow> (\<forall>n s. N \<le> n \<longrightarrow> faults n s = None)"

text \<open>\<open>calm N m m'\<close>: from the \<open>N\<close>th call on \<open>m\<close> is \<open>m'\<close>, and \<open>m\<close> never takes calls back.\<close>

definition calm :: "nat \<Rightarrow> (dbstate, 'a) go \<Rightarrow> (dbstate, 'a) go \<Rightarrow> bool" where
  "calm N m m' \<longleftrightarrow> (\<forall>d. ticks d \<le> ticks (snd (m d)) \<and> (N \<le> ticks d \<longrightarrow> m d = m' d))"

lemma calm_then:
  assumes "calm N m m'" "calm N n n'"
  shows "calm N (go_then m n) (go_then m' n')"
  unfolding calm_def
proof (intro allI conjI impI)
  fix d
  obtain r d1 where r: "m d = (r, d1)" by (cases "m d")
  have le: "ticks d \<le> ticks d1" "ticks d1 \<le> ticks (snd (n d1))" and n: "N \<le> ticks d1 \<Longrightarrow> n d1 = n' d1"
    using assms r by (auto simp: calm_def dest: spec [of _ d] spec [of _ d1])
  then show "ticks d \<le> ticks (snd (go_then m n d))"
    using r by (cases r) (auto simp: go_simps)
  assume N: "N \<le> ticks d"
  then have "m' d = (r, d1)" using assms(1) r by (simp add: calm_def)
  with r n le N show "go_then m n d = go_then m' n' d" by (cases r) (simp_all add: go_simps)
qed

lemma calm_return: "calm N (go_return a) (go_return a)"
  by (simp add: calm_def go_simps)

lemma calm_if: "calm N m m' \<Longrightarrow> calm N n n' \<Longrightarrow> calm N (if c then m else n) (if c then m' else n')"
  by simp

lemma calm_stmt: "quiet f N \<Longrightarrow> calm N (exec_stmt (mysql f) l tag s) (exec_stmt ideal l tag s)"
  by (auto simp: calm_def exec_stmt_def mysql_def quiet_def tick_def split: option.splits)

lemma calm_shapes:
  assumes "quiet f N"
  shows "calm N (exec_insert (mysql f) t et ps) (exec_insert ideal t et ps)"
    and "calm N (exec_update (mysql f) t et ps cs) (exec_update ideal t et ps cs)"
    and "calm N (exec_update_status (mysql f) t et ps cs) (exec_update_status ideal t et ps cs)"
  unfolding exec_insert_def exec_update_def exec_update_status_def
  using calm_stmt [OF assms] by blast+

lemma calm_persist_exec: "quiet f N \<Longrightarrow> calm N (persist_exec (mysql f) c) (persist_exec ideal c)"
  by (cases c) (simp_all only: persist_exec.simps Persist_defs calm_then calm_if calm_return calm_shapes)

lemma quiet_store:
  assumes "quiet f N"
  shows "persist_store (persist_exec (mysql f)) (\<lambda>d. tables_ok (tabs d) \<and> N \<le> ticks d) tabs call_effect (call_upd False)"
proof
  fix d :: dbstate and c
  assume "tables_ok (tabs d) \<and> N \<le> ticks d" "call_upd False c"
  then show "\<exists>s'. persist_exec (mysql f) c d = (Inr (), s') \<and> (tables_ok (tabs s') \<and> N \<le> ticks s')
      \<and> tabs s' = call_effect c (tabs d)"
    using sqlp.exec_call [of d c] calm_persist_exec [OF assms, of c]
    by (fastforce simp: calm_def dest: spec [of _ d])
qed

lemma quiet_tx_handler:
  assumes "quiet f N" "traced (call_upd False) (persist_exec (mysql f)) m n" "tables_ok (tabs d)" "N \<le> ticks d"
  shows "\<exists>d'. with_tx (mysql f) m d = (outcome n, d')"
proof -
  have d1: "sess_begin (mysql f) d = (None, tick d)"
    using assms(1,4) by (simp add: mysql_def quiet_def)
  obtain d2 where d2: "m (tick d) = (outcome n, d2)" "N \<le> ticks d2"
    using persist_store.run_handler [OF quiet_store [OF assms(1)] assms(2), of "tick d"] assms(3,4)
    by (auto simp: tick_def)
  then have "sess_commit (mysql f) d2 = (None, tick d2)"
    using assms(1) by (simp add: mysql_def quiet_def)
  with d1 d2 show ?thesis by (cases "outcome n") (auto simp: with_tx_def)
qed

text \<open>Every attempt makes at least one call.\<close>

lemma with_tx_ticks:
  assumes "only_calls P (persist_exec (mysql f)) m" "quiet f N"
  shows "ticks d < ticks (snd (with_tx (mysql f) m d))"
proof -
  have "keeps (\<lambda>d'. ticks d < ticks d') (persist_exec (mysql f) c)" for c
    using calm_persist_exec [OF assms(2), of c] by (auto simp: keeps_def calm_def intro: less_le_trans)
  with assms(1) have "keeps (\<lambda>d'. ticks d < ticks d') m" by (auto simp: only_calls_def)
  then have "ticks d < ticks (snd (m (tick d)))" by (auto simp: keeps_def tick_def)
  then show ?thesis
    by (auto simp: with_tx_def mysql_def tick_def split: option.splits prod.splits sum.splits)
qed

section \<open>The empty database\<close>

definition empty_db :: dbstate where
  "empty_db = \<lparr>tabs = (\<lambda>_. []), ticks = 0\<rparr>"

lemma empty_db_ok [simp]: "tables_ok (tabs empty_db)"
  by (simp add: empty_db_def tables_ok_def keys_ok_def)

end
