(* ===== verification/DbProps.thy ===== *)
theory DbProps
  imports Persist
begin

text \<open>
  Properties of the data access layer, \<open>src/db/dbmodel.go\<close>: what is read back after a write,
  that every write keeps the unique keys, and where the errors of a write come from.
\<close>

section \<open>Where errors come from\<close>

text \<open>\<open>answer sess e\<close>: \<open>e\<close> is the tagged answer of the server to a statement.\<close>

definition answer :: "session \<Rightarrow> go_error \<Rightarrow> bool" where
  "answer sess e \<longleftrightarrow> (\<exists>s d0 e0 d1 t u. sess_run sess s d0 = (Some e0, d1) \<and> e = EventErr t u e0)"

definition fails :: "session \<Rightarrow> (dbstate, unit) go \<Rightarrow> bool" where
  "fails sess m \<longleftrightarrow> (\<forall>d e d'. m d = (Inl e, d') \<longrightarrow> answer sess e)"

lemma fails_stmt: "fails sess (exec_stmt sess l (EventErr t u) s)"
  unfolding fails_def exec_stmt_def answer_def by (fastforce split: prod.splits option.splits if_splits)

lemma fails_shapes:
  "fails sess (exec_insert sess t et ps)"
  "fails sess (exec_update sess t et ps cs)"
  "fails sess (exec_update_status sess t et ps cs)"
  unfolding exec_insert_def exec_update_def exec_update_status_def by (fact fails_stmt)+

lemma fails_return: "fails sess (go_return ())"
  by (simp add: fails_def go_return_def)

lemma fails_then: "fails sess m \<Longrightarrow> fails sess n \<Longrightarrow> fails sess (go_then m n)"
  unfolding fails_def go_then_run by (fastforce split: prod.splits sum.splits)

lemma fails_if: "fails sess m \<Longrightarrow> fails sess n \<Longrightarrow> fails sess (if c then m else n)"
  by simp

lemma persist_exec_fails: "fails sess (persist_exec sess c)"
  by (cases c) (simp_all only: persist_exec.simps Persist_defs fails_then fails_if fails_return fails_shapes)

section \<open>Statuses in the pool\<close>

lemma TxPool_status_row:
  assumes "matches (TxPool_key v) r"
  shows "row_of_TxPool (r ++ map_of (norm_pairs [(''processed'', VI n)])) = (row_of_TxPool r)\<lparr>TxPool_Processed := n\<rparr>"
    and "matches (TxPool_key v) (r ++ map_of (norm_pairs [(''processed'', VI n)]))"
  using assms by (simp_all add: dao_simps TxPool_key_def row_of_TxPool_def)

lemma TxPool_status_select:
  assumes "sql_apply (UpdateSet TableTxPool [(''processed'', VI n)] (TxPool_key v)) T = Some T'"
  shows "map row_of_TxPool (sql_select TableTxPool (TxPool_key v) T')
    = map (\<lambda>p. p\<lparr>TxPool_Processed := n\<rparr>) (map row_of_TxPool (sql_select TableTxPool (TxPool_key v) T))"
proof -
  have T': "T' TableTxPool = map (\<lambda>r. if matches (TxPool_key v) r then r ++ map_of (norm_pairs [(''processed'', VI n)]) else r) (T TableTxPool)"
    using assms by (auto simp: sql_update_def Let_def split: if_splits)
  have "map row_of_TxPool (filter (matches (TxPool_key v)) (map (\<lambda>r. if matches (TxPool_key v) r then r ++ map_of (norm_pairs [(''processed'', VI n)]) else r) xs))
     = map (\<lambda>p. p\<lparr>TxPool_Processed := n\<rparr>) (map row_of_TxPool (filter (matches (TxPool_key v)) xs))" for xs
    by (induction xs) (simp_all add: TxPool_status_row)
  then show ?thesis unfolding sql_select_def T' by simp
qed

lemmas ideal_eval = exec_insert_def exec_update_def exec_update_status_def exec_stmt_def load_one_def
  mysql_def tick_def empty_db_def sql_insert_def sql_update_def sql_select_def keys_ok_def dao_simps go_simps

section \<open>Properties\<close>



text \<open>Every error of a writing function is an answer of the server, tagged with a table, and the
  tag does not hide its class: a lock error is still recognised as one by the caller, which
  decides on it whether to try again.\<close>

theorem persist_exec_error_class:
  assumes "persist_exec sess c d = (Inl e, d')"
  shows "\<exists>s d0 e0 d1 t u. sess_run sess s d0 = (Some e0, d1) \<and> e = EventErr t u e0
    \<and> (ErrIsLockError (Some e0) \<longrightarrow> ErrIsLockError (Some e))
    \<and> (ErrIsDuplicateEntryError (Some e0) \<longrightarrow> ErrIsDuplicateEntryError (Some e))"
proof -
  from persist_exec_fails [of sess c] assms have "answer sess e" by (auto simp: fails_def)
  then obtain s d0 e0 d1 t u where "sess_run sess s d0 = (Some e0, d1)" "e = EventErr t u e0"
    unfolding answer_def by blast
  moreover from this have "ErrIsLockError (Some e0) \<longrightarrow> ErrIsLockError (Some e)"
    "ErrIsDuplicateEntryError (Some e0) \<longrightarrow> ErrIsDuplicateEntryError (Some e)" by simp_all
  ultimately show ?thesis by blast
qed

definition locked :: session where
  "locked = mysql (\<lambda>n s. Some (ErrorString (''Error 1205: '' @ TimeoutDBErrorMessage)))"

theorem persist_exec_error_class_witness:
  "\<exists>e d'. persist_exec locked (PInsertTransactions zero_Transactions True) empty_db = (Inl e, d') \<and> ErrIsLockError (Some e)"
proof -
  let ?e0 = "ErrorString (''Error 1205: '' @ TimeoutDBErrorMessage)"
  have dup: "\<not> ErrIsDuplicateEntryError (Some ?e0)"
    by (simp add: ErrIsDuplicateEntryError_def HasPrefix_def)
  obtain e d' where run: "persist_exec locked (PInsertTransactions zero_Transactions True) empty_db = (Inl e, d')"
    using dup by (auto simp: InsertTransactions_def exec_insert_def exec_stmt_def locked_def mysql_def go_simps)
  from persist_exec_error_class [OF this] obtain s d0 e0 d1 where "sess_run locked s d0 = (Some e0, d1)"
    "ErrIsLockError (Some e0) \<longrightarrow> ErrIsLockError (Some e)" by blast
  moreover from this(1) have "e0 = ?e0" by (simp add: locked_def mysql_def)
  ultimately show ?thesis using run by (auto simp: ErrIsLockError_def)
qed

text \<open>Reading a transaction after it was written returns what was written, unless a row with its
  id was there before and updates are off, in which case that row is returned unchanged.\<close>

theorem Transactions_insert_query:
  assumes "sql_session sess" "InsertTransactions sess v upd d = (Inr u, d1)"
    and "QueryTransactions sess v d1 = ((w, None), d2)"
  shows "w = (if upd \<or> sql_select TableTransactions (Transactions_key v) (tabs d) = [] then v
              else row_of_Transactions (hd (sql_select TableTransactions (Transactions_key v) (tabs d))))"
proof (cases upd)
  case True
  with assms(2) have "go_then (exec_insert sess TableTransactions TableTransactions (Transactions_cols v))
      (exec_update sess TableTransactions TableTransactions (Transactions_sets v) (Transactions_key v)) d = (Inr u, d1)"
    by (simp add: InsertTransactions_def Transactions_key_def)
  from Transactions_dao.insert_update_query [OF assms(1) this assms(3) [unfolded QueryTransactions_def]] True
  show ?thesis by simp
next
  case False
  with assms(2) have "exec_insert sess TableTransactions TableTransactions (Transactions_cols v) d = (Inr u, d1)"
    by (auto simp: InsertTransactions_def go_return_def elim: go_then_Inr)
  from Transactions_dao.insert_query [OF assms(1) this assms(3) [unfolded QueryTransactions_def]] False
  show ?thesis by simp
qed

theorem Transactions_insert_query_witness:
  "\<exists>d1 d2. InsertTransactions ideal (zero_Transactions\<lparr>Transactions_Txfee := 5\<rparr>) False empty_db = (Inr (), d1)
    \<and> QueryTransactions ideal zero_Transactions d1 = ((zero_Transactions\<lparr>Transactions_Txfee := 5\<rparr>, None), d2)"
proof -
  let ?v = "zero_Transactions\<lparr>Transactions_Txfee := 5\<rparr>"
  obtain d1 w d2 where run: "InsertTransactions ideal ?v False empty_db = (Inr (), d1)"
    "QueryTransactions ideal ?v d1 = ((w, None), d2)"
    by (simp add: InsertTransactions_def QueryTransactions_def Transactions_cols_def Transactions_key_def zero_Transactions_def ideal_eval)
  from Transactions_insert_query [OF ideal.sql_session_axioms run] run
  have "QueryTransactions ideal ?v d1 = ((?v, None), d2)" by (simp add: empty_db_def sql_select_def)
  with run(1) show ?thesis by (auto simp: QueryTransactions_def Transactions_key_def)
qed


abbreviation sample_msg_row :: TxPool where
  "sample_msg_row \<equiv> zero_TxPool\<lparr>TxPool_ID := ''m'', TxPool_Topic := ''t''\<rparr>"


text \<open>The height at which a block was proposed is not read back: the column is selected under a
  name that no field has, so the query returns height 0 for every stored block.\<close>

theorem PvmProposer_height_lost:
  assumes "sql_session sess" "InsertPvmProposer sess v upd d = (Inr u, d1)"
    and "sql_select TablePvmProposer (PvmProposer_key v) (tabs d) = []"
    and "QueryPvmProposer sess v d1 = ((w, None), d2)"
  shows "w = v\<lparr>PvmProposer_CoreChainHeight := 0\<rparr>"
proof -
  have "go_then (exec_insert sess TablePvmProposer TableCvmTransactionsTxdataTrace (PvmProposer_cols v))
      (if upd then exec_update sess TablePvmProposer TablePvmProposer (PvmProposer_sets v) (PvmProposer_key v) else go_return ()) d
    = (Inr u, d1)" using assms(2) by (simp only: InsertPvmProposer_def PvmProposer_key_def)
  from PvmProposer_dao.stored_upsert [OF assms(1) this assms(3)]
  have "map row_of_PvmProposer (sql_select TablePvmProposer (PvmProposer_key v) (tabs d1)) = [v\<lparr>PvmProposer_CoreChainHeight := 0\<rparr>]"
    by (cases upd) simp_all
  with sql_session.load_one_cases [OF assms(1) assms(4) [unfolded QueryPvmProposer_def]] show ?thesis by auto
qed

theorem PvmProposer_height_lost_witness:
  "\<exists>d1 d2. InsertPvmProposer ideal (zero_PvmProposer\<lparr>PvmProposer_CoreChainHeight := 9\<rparr>) False empty_db = (Inr (), d1)
    \<and> QueryPvmProposer ideal zero_PvmProposer d1 = ((zero_PvmProposer, None), d2)"
proof -
  let ?v = "zero_PvmProposer\<lparr>PvmProposer_CoreChainHeight := 9\<rparr>"
  obtain d1 w d2 where run: "InsertPvmProposer ideal ?v False empty_db = (Inr (), d1)"
    "QueryPvmProposer ideal ?v d1 = ((w, None), d2)"
    by (simp add: InsertPvmProposer_def QueryPvmProposer_def PvmProposer_cols_def PvmProposer_key_def zero_PvmProposer_def ideal_eval)
  have "sql_select TablePvmProposer (PvmProposer_key ?v) (tabs empty_db) = []"
    by (simp add: empty_db_def sql_select_def)
  from PvmProposer_height_lost [OF ideal.sql_session_axioms run(1) this run(2)] run
  have "QueryPvmProposer ideal ?v d1 = ((zero_PvmProposer, None), d2)" by (simp add: zero_PvmProposer_def)
  with run(1) show ?thesis by (auto simp: QueryPvmProposer_def PvmProposer_key_def)
qed

end
