(* ===== verification/AxcWriter.thy ===== *)
theory AxcWriter
  imports Persist
begin

text \<open>
  The writer that the chains share, \<open>src/services/indexes/axc/writer.go\<close>: it takes a
  transaction apart into rows for its inputs, outputs, addresses and the transaction itself,
  and computes the fee. \<open>p\<close> is the \<open>Persist\<close> of the context, \<open>lib\<close> the chain's own libraries.
  The \<open>_traced\<close> lemmas say that every function is the sequence of its calls; the lemmas after
  them compute totals, fee and rows.
\<close>

record axcWriter =
  axcW_chainID :: string
  axcW_axcAssetID :: ID

definition axc_NewWriter :: "string \<Rightarrow> ID \<Rightarrow> axcWriter" where
  "axc_NewWriter chainID axcAssetID = \<lparr>axcW_chainID = chainID, axcW_axcAssetID = axcAssetID\<rparr>"

record AddInsContainer =
  AddIns_Ins :: "TransferableInput list"
  AddIns_ChainID :: string

record AddOutsContainer =
  AddOuts_Outs :: "TransferableOutput list"
  AddOuts_Stake :: bool
  AddOuts_ChainID :: string

definition MaxSerializationLen :: nat where
  "MaxSerializationLen = 16 * 1024 * 1024 - 1"

definition MaxMemoLen :: nat where
  "MaxMemoLen = 1024"

section \<open>Rows\<close>

definition InsertTransactionBase :: "extlib \<Rightarrow> axcWriter \<Rightarrow> (pcall \<Rightarrow> ('s, unit) go) \<Rightarrow> consumerCtx
    \<Rightarrow> ID \<Rightarrow> string \<Rightarrow> string \<Rightarrow> bytes option \<Rightarrow> bytes option \<Rightarrow> u64 \<Rightarrow> bool \<Rightarrow> u32 \<Rightarrow> ('s, unit) go" where
  "InsertTransactionBase lib w p ctx txID chainID txType memo txBytes txfee genesis networkID =
     (let txBytes = (if slice_len txBytes > MaxSerializationLen then Some [] else txBytes);
          memo = (if slice_len memo > MaxMemoLen then None else memo);
          t = \<lparr>Transactions_ID = ID_String lib txID,
               Transactions_ChainID = chainID,
               Transactions_Type = txType,
               Transactions_Memo = memo,
               Transactions_CanonicalSerialization = txBytes,
               Transactions_Txfee = txfee,
               Transactions_NetworkID = networkID,
               Transactions_Genesis = genesis,
               Transactions_CreatedAt = cc_time ctx\<rparr>
      in p (PInsertTransactions t (cc_upd ctx)))"

definition InsertAddressFromPublicKey :: "extlib \<Rightarrow> axcWriter \<Rightarrow> (pcall \<Rightarrow> ('s, unit) go) \<Rightarrow> consumerCtx
    \<Rightarrow> PublicKey \<Rightarrow> ('s, unit) go" where
  "InsertAddressFromPublicKey lib w p ctx publicKey =
     (let addresses = \<lparr>Addresses_Address = ShortID_String lib (PublicKey_Address publicKey),
               Addresses_PublicKey = Some (PublicKey_Bytes publicKey),
               Addresses_CreatedAt = cc_time ctx,
               Addresses_UpdatedAt = cc_now ctx\<rparr>
      in p (PInsertAddresses addresses (cc_upd ctx)))"

definition InsertOutputAddress :: "extlib \<Rightarrow> axcWriter \<Rightarrow> (pcall \<Rightarrow> ('s, unit) go) \<Rightarrow> consumerCtx
    \<Rightarrow> ID \<Rightarrow> ShortID \<Rightarrow> bytes option \<Rightarrow> ID \<Rightarrow> u32 \<Rightarrow> string \<Rightarrow> ('s, unit) go" where
  "InsertOutputAddress lib w p ctx outputID address sig txID idx chainID =
     (let addressChain = \<lparr>AddressChain_Address = ShortID_String lib address,
               AddressChain_ChainID = chainID,
               AddressChain_CreatedAt = cc_time ctx,
               AddressChain_UpdatedAt = cc_now ctx\<rparr>
      in
      go_then (p (PInsertAddressChain addressChain (cc_upd ctx)))
     (go_bind (go_lift (FormatBech32 lib (cc_hrp ctx) address)) (\<lambda>bech32Addr.
      let addressBech32 = \<lparr>AddressBech32_Address = ShortID_String lib address,
               AddressBech32_Bech32Address = bech32Addr,
               AddressBech32_UpdatedAt = cc_now ctx\<rparr>
      in
      go_then (p (PInsertAddressBech32 addressBech32 (cc_upd ctx)))
     (go_bind (go_lift (OutputAddressAccumulate_ComputeID lib
          (zero_OutputAddressAccumulate
            \<lparr>OutputAddressAccumulate_OutputID := ID_String lib outputID,
             OutputAddressAccumulate_Address := ShortID_String lib address,
             OutputAddressAccumulate_TransactionID := ID_String lib txID,
             OutputAddressAccumulate_OutputIndex := idx,
             OutputAddressAccumulate_CreatedAt := cc_now ctx\<rparr>))) (\<lambda>outputAddressAccumulate.
      go_then (p (PInsertOutputAddressAccumulateOut outputAddressAccumulate (cc_upd ctx)))
     (go_then (p (PInsertOutputAddressAccumulateIn outputAddressAccumulate (cc_upd ctx)))
     (let outputAddresses = \<lparr>OutputAddresses_OutputID = ID_String lib outputID,
               OutputAddresses_Address = ShortID_String lib address,
               OutputAddresses_RedeemingSignature = sig,
               OutputAddresses_CreatedAt = cc_time ctx,
               OutputAddresses_UpdatedAt = cc_now ctx\<rparr>
      in
      go_then (p (PInsertOutputAddresses outputAddresses (cc_upd ctx)))
     (if sig = None then go_return ()
      else p (PUpdateOutputAddresses outputAddresses)))))))))"

text \<open>One iteration of the loop over \<open>out.Addresses()\<close>.\<close>

definition InsertOutput_addr :: "extlib \<Rightarrow> axcWriter \<Rightarrow> (pcall \<Rightarrow> ('s, unit) go) \<Rightarrow> consumerCtx
    \<Rightarrow> ID \<Rightarrow> ID \<Rightarrow> u32 \<Rightarrow> ID \<Rightarrow> string \<Rightarrow> bytes \<Rightarrow> ('s, unit) go" where
  "InsertOutput_addr lib w p ctx outputID txID idx assetID chainID addr =
     (let addrid = copy20 addr in
      go_then (InsertOutputAddress lib w p ctx outputID addrid None txID idx chainID)
     (go_bind (go_lift (OutputTxsAccumulate_ComputeID lib
          (zero_OutputTxsAccumulate
            \<lparr>OutputTxsAccumulate_ChainID := chainID,
             OutputTxsAccumulate_AssetID := ID_String lib assetID,
             OutputTxsAccumulate_Address := ShortID_String lib addrid,
             OutputTxsAccumulate_TransactionID := ID_String lib txID,
             OutputTxsAccumulate_CreatedAt := cc_now ctx\<rparr>))) (\<lambda>outputTxsAccumulate.
      p (PInsertOutputTxsAccumulate outputTxsAccumulate))))"

definition Outputs_row :: "extlib \<Rightarrow> consumerCtx \<Rightarrow> ID \<Rightarrow> u32 \<Rightarrow> ID \<Rightarrow> TransferOutput \<Rightarrow> OutputType \<Rightarrow> u32
    \<Rightarrow> bytes option \<Rightarrow> u64 \<Rightarrow> string \<Rightarrow> bool \<Rightarrow> bool \<Rightarrow> bool \<Rightarrow> bool \<Rightarrow> Outputs" where
  "Outputs_row lib ctx txID idx assetID out outputType groupID payload stakeLocktime chainID
       stake frozen stakeableout genesisutxo =
     \<lparr>Outputs_ID = ID_String lib (ID_Prefix lib txID (ucast idx)),
      Outputs_ChainID = chainID,
      Outputs_TransactionID = ID_String lib txID,
      Outputs_OutputIndex = idx,
      Outputs_OutputType = outputType,
      Outputs_AssetID = ID_String lib assetID,
      Outputs_Amount = TransferOutput_Amt out,
      Outputs_Locktime = OutputOwners_Locktime (TransferOutput_Owners out),
      Outputs_Threshold = OutputOwners_Threshold (TransferOutput_Owners out),
      Outputs_GroupID = groupID,
      Outputs_Payload = payload,
      Outputs_StakeLocktime = stakeLocktime,
      Outputs_Stake = stake,
      Outputs_Frozen = frozen,
      Outputs_Stakeableout = stakeableout,
      Outputs_Genesisutxo = genesisutxo,
      Outputs_CreatedAt = cc_time ctx\<rparr>"

definition InsertOutput :: "extlib \<Rightarrow> axcWriter \<Rightarrow> (pcall \<Rightarrow> ('s, unit) go) \<Rightarrow> consumerCtx \<Rightarrow> ID \<Rightarrow> u32 \<Rightarrow> ID
    \<Rightarrow> TransferOutput \<Rightarrow> OutputType \<Rightarrow> u32 \<Rightarrow> bytes option \<Rightarrow> u64 \<Rightarrow> string \<Rightarrow> bool \<Rightarrow> bool \<Rightarrow> bool \<Rightarrow> bool
    \<Rightarrow> ('s, unit) go" where
  "InsertOutput lib w p ctx txID idx assetID out outputType groupID payload stakeLocktime chainID
       stake frozen stakeableout genesisutxo =
     (let outputID = ID_Prefix lib txID (ucast idx) in
      go_then (go_for (InsertOutput_addr lib w p ctx outputID txID idx assetID chainID)
                 (OutputOwners_Addresses (TransferOutput_Owners out)))
        (p (PInsertOutputs (Outputs_row lib ctx txID idx assetID out outputType groupID payload
              stakeLocktime chainID stake frozen stakeableout genesisutxo) (cc_upd ctx))))"

section \<open>Outputs and inputs\<close>

definition addTotal :: "extlib \<Rightarrow> axcWriter \<Rightarrow> ID \<Rightarrow> u64 \<Rightarrow> u64 \<Rightarrow> go_error + u64" where
  "addTotal lib w assetID tot amt =
     (if assetID = axcW_axcAssetID w then Add64 lib tot amt else Inr tot)"

definition xOut :: "OutputOwners \<Rightarrow> TransferOutput" where
  "xOut oo = \<lparr>TransferOutput_Amt = 0, TransferOutput_Owners = oo\<rparr>"

text \<open>The result is the pair of the updated \<open>amount\<close> and \<open>totalout\<close>. The message of the last
  error prints \<open>amount\<close> after it was overwritten by the zero that a failing \<open>Add64\<close> returns.\<close>

definition ProcessStateOut :: "extlib \<Rightarrow> axcWriter \<Rightarrow> (pcall \<Rightarrow> ('s, unit) go) \<Rightarrow> consumerCtx \<Rightarrow> state_out \<Rightarrow> ID
    \<Rightarrow> u32 \<Rightarrow> ID \<Rightarrow> u64 \<Rightarrow> u64 \<Rightarrow> string \<Rightarrow> bool \<Rightarrow> bool \<Rightarrow> ('s, u64 \<times> u64) go" where
  "ProcessStateOut lib w p ctx out txID outputCount assetID amount totalout chainID stake genesisutxo =
     (case out of
        StakeableLockOut locktime tout \<Rightarrow>
          (case tout of
             OtherOut \<Rightarrow> go_raise (ErrorString ''invalid type *secp256k1fx.TransferOutput'')
           | SecpOut xout \<Rightarrow>
               go_bind (go_lift (addTotal lib w assetID totalout (TransferOutput_Amt xout))) (\<lambda>totalout.
               go_then (InsertOutput lib w p ctx txID outputCount assetID xout
                          OutputTypesSECP2556K1Transfer 0 None locktime chainID stake False True genesisutxo)
               (go_return (amount, totalout))))
      | NftTransferOutput groupID payload oo \<Rightarrow>
          go_then (InsertOutput lib w p ctx txID outputCount assetID (xOut oo)
                     OutputTypesNFTTransfer groupID payload 0 chainID stake False False genesisutxo)
          (go_return (amount, totalout))
      | NftMintOutput groupID oo \<Rightarrow>
          go_then (InsertOutput lib w p ctx txID outputCount assetID (xOut oo)
                     OutputTypesNFTMint groupID None 0 chainID stake False False genesisutxo)
          (go_return (amount, totalout))
      | SecpMintOutput oo \<Rightarrow>
          go_then (InsertOutput lib w p ctx txID outputCount assetID (xOut oo)
                     OutputTypesSECP2556K1Mint 0 None 0 chainID stake False False genesisutxo)
          (go_return (amount, totalout))
      | SecpTransferOutput tout \<Rightarrow>
          go_bind (go_lift (addTotal lib w assetID totalout (TransferOutput_Amt tout))) (\<lambda>totalout.
          go_then (InsertOutput lib w p ctx txID outputCount assetID tout
                     OutputTypesSECP2556K1Transfer 0 None 0 chainID stake False False genesisutxo)
          (case Add64 lib amount (TransferOutput_Amt tout) of
             Inl err \<Rightarrow> go_raise (Propagate lib err
                 (''add '' @ Itoa (uint (TransferOutput_Amt tout)) @ '' to 0''))
           | Inr amount \<Rightarrow> go_return (amount, totalout)))
      | OtherState name \<Rightarrow> go_raise (ErrorString (''unknown type '' @ name)))"

definition InsertTransactionOuts :: "extlib \<Rightarrow> axcWriter \<Rightarrow> (pcall \<Rightarrow> ('s, unit) go) \<Rightarrow> u32 \<Rightarrow> consumerCtx \<Rightarrow> u64
    \<Rightarrow> TransferableOutput \<Rightarrow> ID \<Rightarrow> string \<Rightarrow> bool \<Rightarrow> bool \<Rightarrow> ('s, u64) go" where
  "InsertTransactionOuts lib w p idx ctx totalout out txID chainID stake genesisutxo =
     go_bind (ProcessStateOut lib w p ctx (TransferableOutput_Out out) txID idx
                (TransferableOutput_AssetID out) 0 totalout chainID stake genesisutxo)
       (\<lambda>(_, totalout). go_return totalout)"

text \<open>The body of the loop over the signatures of a credential.\<close>

definition InsertTransactionIns_sig :: "extlib \<Rightarrow> axcWriter \<Rightarrow> (pcall \<Rightarrow> ('s, unit) go) \<Rightarrow> consumerCtx
    \<Rightarrow> TransferableInput \<Rightarrow> bytes \<Rightarrow> string \<Rightarrow> bytes \<Rightarrow> ('s, unit) go" where
  "InsertTransactionIns_sig lib w p ctx inp unsignedBytes chainID sig =
     go_bind (go_lift (RecoverPublicKey lib unsignedBytes sig)) (\<lambda>publicKey.
     go_then (InsertAddressFromPublicKey lib w p ctx publicKey)
       (InsertOutputAddress lib w p ctx
          (ID_Prefix lib (TransferableInput_TxID inp) (ucast (TransferableInput_OutputIndex inp)))
          (PublicKey_Address publicKey) (Some sig)
          (TransferableInput_TxID inp) (TransferableInput_OutputIndex inp) chainID))"

definition OutputsRedeeming_row :: "extlib \<Rightarrow> consumerCtx \<Rightarrow> ID \<Rightarrow> string \<Rightarrow> TransferableInput \<Rightarrow> OutputsRedeeming" where
  "OutputsRedeeming_row lib ctx txID chainID inp =
     \<lparr>OutputsRedeeming_ID = ID_String lib (ID_Prefix lib (TransferableInput_TxID inp) (ucast (TransferableInput_OutputIndex inp))),
      OutputsRedeeming_RedeemedAt = cc_time ctx,
      OutputsRedeeming_RedeemingTransactionID = ID_String lib txID,
      OutputsRedeeming_Amount = TransferableInput_Amount inp,
      OutputsRedeeming_OutputIndex = TransferableInput_OutputIndex inp,
      OutputsRedeeming_Intx = ID_String lib (TransferableInput_TxID inp),
      OutputsRedeeming_AssetID = ID_String lib (TransferableInput_AssetID inp),
      OutputsRedeeming_ChainID = chainID,
      OutputsRedeeming_CreatedAt = cc_time ctx\<rparr>"

definition InsertTransactionIns :: "extlib \<Rightarrow> axcWriter \<Rightarrow> (pcall \<Rightarrow> ('s, unit) go) \<Rightarrow> nat \<Rightarrow> consumerCtx \<Rightarrow> u64
    \<Rightarrow> TransferableInput \<Rightarrow> ID \<Rightarrow> verifiable list \<Rightarrow> bytes \<Rightarrow> string \<Rightarrow> ('s, u64) go" where
  "InsertTransactionIns lib w p idx ctx totalin inp txID creds unsignedBytes chainID =
     go_bind (go_lift (addTotal lib w (TransferableInput_AssetID inp) totalin (TransferableInput_Amount inp))) (\<lambda>totalin.
     let inputID = ID_Prefix lib (TransferableInput_TxID inp) (ucast (TransferableInput_OutputIndex inp)) in
     go_then (if idx < length creds then
                (case creds ! idx of
                   Credential sigs \<Rightarrow> go_for (InsertTransactionIns_sig lib w p ctx inp unsignedBytes chainID) sigs
                 | OwnersVerifiable _ \<Rightarrow> go_return ()
                 | OtherVerifiable _ \<Rightarrow> go_return ())
              else go_return ())
    (let outputsRedeeming = OutputsRedeeming_row lib ctx txID chainID inp in
     go_then (p (PUpdateOutputAddressAccumulateInOutputsProcessed (ID_String lib inputID)))
    (go_then (p (PInsertOutputsRedeeming outputsRedeeming (cc_upd ctx)))
    (go_return totalin))))"

section \<open>InsertTransaction\<close>

text \<open>The two loops over inputs share the counter \<open>inidx\<close>, those over outputs share \<open>idx\<close>.\<close>

definition insert_ins :: "extlib \<Rightarrow> axcWriter \<Rightarrow> (pcall \<Rightarrow> ('s, unit) go) \<Rightarrow> consumerCtx \<Rightarrow> ID \<Rightarrow> verifiable list
    \<Rightarrow> bytes \<Rightarrow> string \<Rightarrow> TransferableInput list \<Rightarrow> nat \<times> u64 \<Rightarrow> ('s, nat \<times> u64) go" where
  "insert_ins lib w p ctx txID creds unsignedBytes chainID =
     go_fold (\<lambda>inp (inidx, totalin).
       go_bind (InsertTransactionIns lib w p inidx ctx totalin inp txID creds unsignedBytes chainID)
         (\<lambda>totalin. go_return (Suc inidx, totalin)))"

definition insert_outs :: "extlib \<Rightarrow> axcWriter \<Rightarrow> (pcall \<Rightarrow> ('s, unit) go) \<Rightarrow> consumerCtx \<Rightarrow> ID \<Rightarrow> string \<Rightarrow> bool
    \<Rightarrow> TransferableOutput list \<Rightarrow> u32 \<times> u64 \<Rightarrow> ('s, u32 \<times> u64) go" where
  "insert_outs lib w p ctx txID chainID stake =
     go_fold (\<lambda>out (idx, totalout).
       go_bind (InsertTransactionOuts lib w p idx ctx totalout out txID chainID stake False)
         (\<lambda>totalout. go_return (idx + 1, totalout)))"

definition txFee :: "u64 \<Rightarrow> u64 \<Rightarrow> u64 \<Rightarrow> bool \<Rightarrow> u64" where
  "txFee totalin totalout addlOutTxfee genesis =
     (if genesis then 0
      else if totalin < totalout + addlOutTxfee then 0
      else totalin - (totalout + addlOutTxfee))"

definition InsertTransaction :: "extlib \<Rightarrow> axcWriter \<Rightarrow> (pcall \<Rightarrow> ('s, unit) go) \<Rightarrow> consumerCtx \<Rightarrow> bytes option
    \<Rightarrow> bytes \<Rightarrow> BaseTx \<Rightarrow> verifiable list \<Rightarrow> TransactionType \<Rightarrow> AddInsContainer option
    \<Rightarrow> AddOutsContainer option \<Rightarrow> u64 \<Rightarrow> bool \<Rightarrow> ('s, unit) go" where
  "InsertTransaction lib w p ctx txBytes unsignedBytes baseTx creds txType addIns addOuts addlOutTxfee genesis =
     go_bind (insert_ins lib w p ctx (BaseTx_ID baseTx) creds unsignedBytes (axcW_chainID w)
                (BaseTx_Ins baseTx) (0, 0)) (\<lambda>st.
     go_bind (case addIns of None \<Rightarrow> go_return st
              | Some ai \<Rightarrow> insert_ins lib w p ctx (BaseTx_ID baseTx) creds unsignedBytes
                             (AddIns_ChainID ai) (AddIns_Ins ai) st) (\<lambda>(inidx, totalin).
     go_bind (insert_outs lib w p ctx (BaseTx_ID baseTx) (axcW_chainID w) False (BaseTx_Outs baseTx) (0, 0)) (\<lambda>st.
     go_bind (case addOuts of None \<Rightarrow> go_return st
              | Some ao \<Rightarrow> insert_outs lib w p ctx (BaseTx_ID baseTx) (AddOuts_ChainID ao)
                             (AddOuts_Stake ao) (AddOuts_Outs ao) st) (\<lambda>(idx, totalout).
     InsertTransactionBase lib w p ctx (BaseTx_ID baseTx) (axcW_chainID w) (TransactionType_String txType)
       (BaseTx_Memo baseTx) txBytes (txFee totalin totalout addlOutTxfee genesis) genesis
       (BaseTx_NetworkID baseTx)))))"

section \<open>Every function is its calls\<close>

abbreviation ctx_calls :: "consumerCtx \<Rightarrow> pcall \<Rightarrow> bool" where
  "ctx_calls ctx \<equiv> call_upd (cc_upd ctx)"

text \<open>The calls for the parts of a transaction, and those for the whole of it.\<close>

definition part_tables :: "string list" where
  "part_tables = [TableAddresses, TableAddressChain, TableAddressBech32, TableOutputAddressAccumulateOut,
     TableOutputAddressAccumulateIn, TableOutputAddresses, TableOutputTxsAccumulate, TableOutputs, TableOutputsRedeeming]"

definition part_call :: "consumerCtx \<Rightarrow> pcall \<Rightarrow> bool" where
  "part_call ctx c \<longleftrightarrow> ctx_calls ctx c \<and> call_table c \<in> set part_tables"

definition axc_call :: "consumerCtx \<Rightarrow> pcall \<Rightarrow> bool" where
  "axc_call ctx c \<longleftrightarrow> ctx_calls ctx c \<and> call_table c \<in> insert TableTransactions (set part_tables)"

lemmas part_simps = part_call_def axc_call_def call_table_def part_tables_def

lemma part_axc: "traced (part_call ctx) p m n \<Longrightarrow> traced (axc_call ctx) p m n"
  by (erule traced_mono) (simp add: part_call_def axc_call_def)

lemma axc_weaken: "traced (axc_call ctx) p m n \<Longrightarrow> traced (ctx_calls ctx) p m n"
  by (erule traced_mono) (simp add: axc_call_def)

lemmas part_weaken = axc_weaken [OF part_axc]

lemma InsertTransactionBase_traced [traced_intros]:
  "traced (axc_call ctx) p (InsertTransactionBase lib w p ctx i c t m b f g n)
     (InsertTransactionBase lib w record_call ctx i c t m b f g n)"
  unfolding InsertTransactionBase_def by (intro traced_intros) (simp_all add: part_simps)

lemma InsertAddressFromPublicKey_traced [traced_intros]:
  "traced (part_call ctx) p (InsertAddressFromPublicKey lib w p ctx k)
     (InsertAddressFromPublicKey lib w record_call ctx k)"
  unfolding InsertAddressFromPublicKey_def by (intro traced_intros) (simp_all add: part_simps)

lemma InsertOutputAddress_traced [traced_intros]:
  "traced (part_call ctx) p (InsertOutputAddress lib w p ctx o' a s t i c)
     (InsertOutputAddress lib w record_call ctx o' a s t i c)"
  unfolding InsertOutputAddress_def by (intro traced_intros) (simp_all add: part_simps)

lemma InsertOutput_addr_traced [traced_intros]:
  "traced (part_call ctx) p (InsertOutput_addr lib w p ctx o' t i a c x)
     (InsertOutput_addr lib w record_call ctx o' t i a c x)"
  unfolding InsertOutput_addr_def by (intro traced_intros) (simp_all add: part_simps)

lemma InsertOutput_traced [traced_intros]:
  "traced (part_call ctx) p (InsertOutput lib w p ctx t i a x ty g pl sl c st fr so gu)
     (InsertOutput lib w record_call ctx t i a x ty g pl sl c st fr so gu)"
  unfolding InsertOutput_def by (intro traced_intros) (simp_all add: part_simps)

lemma traced_state_out [traced_intros]:
  assumes "\<And>l t. x = StakeableLockOut l t \<Longrightarrow> traced P p (a1 l t) (b1 l t)"
    and "\<And>g y oo. x = NftTransferOutput g y oo \<Longrightarrow> traced P p (a2 g y oo) (b2 g y oo)"
    and "\<And>g oo. x = NftMintOutput g oo \<Longrightarrow> traced P p (a3 g oo) (b3 g oo)"
    and "\<And>oo. x = SecpMintOutput oo \<Longrightarrow> traced P p (a4 oo) (b4 oo)"
    and "\<And>t. x = SecpTransferOutput t \<Longrightarrow> traced P p (a5 t) (b5 t)"
    and "\<And>n. x = OtherState n \<Longrightarrow> traced P p (a6 n) (b6 n)"
  shows "traced P p (case_state_out a1 a2 a3 a4 a5 a6 x) (case_state_out b1 b2 b3 b4 b5 b6 x)"
  using assms by (cases x) simp_all

lemma traced_transferable_out [traced_intros]:
  "(\<And>t. x = SecpOut t \<Longrightarrow> traced P p (a t) (b t)) \<Longrightarrow> (x = OtherOut \<Longrightarrow> traced P p m n)
    \<Longrightarrow> traced P p (case_transferable_out a m x) (case_transferable_out b n x)"
  by (cases x) simp_all

lemma traced_verifiable [traced_intros]:
  "(\<And>s. x = Credential s \<Longrightarrow> traced P p (a s) (b s))
    \<Longrightarrow> (\<And>oo. x = OwnersVerifiable oo \<Longrightarrow> traced P p (a' oo) (b' oo))
    \<Longrightarrow> (\<And>n. x = OtherVerifiable n \<Longrightarrow> traced P p (a'' n) (b'' n))
    \<Longrightarrow> traced P p (case_verifiable a a' a'' x) (case_verifiable b b' b'' x)"
  by (cases x) simp_all

lemma ProcessStateOut_traced [traced_intros]:
  "traced (part_call ctx) p (ProcessStateOut lib w p ctx x t i a am tot c st gu)
     (ProcessStateOut lib w record_call ctx x t i a am tot c st gu)"
  unfolding ProcessStateOut_def by (intro traced_intros)

lemma InsertTransactionOuts_traced [traced_intros]:
  "traced (part_call ctx) p (InsertTransactionOuts lib w p i ctx tot x t c st gu)
     (InsertTransactionOuts lib w record_call i ctx tot x t c st gu)"
  unfolding InsertTransactionOuts_def by (intro traced_intros)

lemma InsertTransactionIns_sig_traced [traced_intros]:
  "traced (part_call ctx) p (InsertTransactionIns_sig lib w p ctx x u c s)
     (InsertTransactionIns_sig lib w record_call ctx x u c s)"
  unfolding InsertTransactionIns_sig_def by (intro traced_intros)

lemma InsertTransactionIns_traced [traced_intros]:
  "traced (part_call ctx) p (InsertTransactionIns lib w p i ctx tot x t cr u c)
     (InsertTransactionIns lib w record_call i ctx tot x t cr u c)"
  unfolding InsertTransactionIns_def by (intro traced_intros) (simp_all add: part_simps)

lemma insert_ins_traced [traced_intros]:
  "traced (part_call ctx) p (insert_ins lib w p ctx t cr u c xs st) (insert_ins lib w record_call ctx t cr u c xs st)"
  unfolding insert_ins_def by (intro traced_intros)

lemma insert_outs_traced [traced_intros]:
  "traced (part_call ctx) p (insert_outs lib w p ctx t c sk xs st) (insert_outs lib w record_call ctx t c sk xs st)"
  unfolding insert_outs_def by (intro traced_intros)

lemma InsertTransaction_axc [traced_intros]:
  "traced (axc_call ctx) p (InsertTransaction lib w p ctx tb ub bt cr ty ai ao al g)
     (InsertTransaction lib w record_call ctx tb ub bt cr ty ai ao al g)"
  unfolding InsertTransaction_def
  by (intro traced_intros insert_ins_traced [THEN part_axc] insert_outs_traced [THEN part_axc])

lemmas InsertTransaction_traced = InsertTransaction_axc [THEN axc_weaken]

lemmas axc_traced [traced_intros] = InsertOutput_traced [THEN part_weaken]
  ProcessStateOut_traced [THEN part_weaken] InsertTransactionOuts_traced [THEN part_weaken]
  InsertTransactionIns_traced [THEN part_weaken] InsertTransactionBase_traced [THEN axc_weaken]
  InsertTransaction_traced

section \<open>Totals and the fee\<close>

definition in_amount :: "axcWriter \<Rightarrow> TransferableInput \<Rightarrow> nat" where
  "in_amount w inp = (if TransferableInput_AssetID inp = axcW_axcAssetID w
     then unat (TransferableInput_Amount inp) else 0)"

fun state_amount :: "state_out \<Rightarrow> nat" where
  "state_amount (StakeableLockOut l (SecpOut t)) = unat (TransferOutput_Amt t)"
| "state_amount (SecpTransferOutput t) = unat (TransferOutput_Amt t)"
| "state_amount _ = 0"

definition out_amount :: "axcWriter \<Rightarrow> TransferableOutput \<Rightarrow> nat" where
  "out_amount w out = (if TransferableOutput_AssetID out = axcW_axcAssetID w
     then state_amount (TransferableOutput_Out out) else 0)"

lemma addTotal_Inr:
  "Add64_checked lib \<Longrightarrow> addTotal lib w a tot x = Inr tot'
    \<Longrightarrow> unat tot' = unat tot + (if a = axcW_axcAssetID w then unat x else 0)"
  by (auto simp: addTotal_def split: if_splits dest: Add64_Inr)

lemma go_lift_Inr: "go_lift r s = (Inr a, s') \<longleftrightarrow> r = Inr a \<and> s' = s"
  by (auto simp: go_simps)

lemma ProcessStateOut_total:
  assumes "Add64_checked lib"
    and "ProcessStateOut lib w p ctx x t i a am tot c st gu s = (Inr (am', tot'), s')"
  shows "unat tot' = unat tot + (if a = axcW_axcAssetID w then state_amount x else 0)"
  using assms(2) unfolding ProcessStateOut_def
  by (auto simp: go_return_run go_raise_run go_lift_Inr split: state_out.splits transferable_out.splits sum.splits
      elim!: go_bind_Inr go_then_Inr dest!: addTotal_Inr [OF assms(1)])

lemma InsertTransactionOuts_total:
  assumes "Add64_checked lib" "InsertTransactionOuts lib w p i ctx tot x t c st gu s = (Inr tot', s')"
  shows "unat tot' = unat tot + out_amount w x"
  using assms(2) unfolding InsertTransactionOuts_def out_amount_def
  by (auto simp: go_return_run elim!: go_bind_Inr dest!: ProcessStateOut_total [OF assms(1)])

lemma InsertTransactionIns_total:
  assumes "Add64_checked lib" "InsertTransactionIns lib w p i ctx tot x t cr u c s = (Inr tot', s')"
  shows "unat tot' = unat tot + in_amount w x"
  using assms(2) unfolding InsertTransactionIns_def in_amount_def Let_def
  by (auto simp: go_return_run go_lift_Inr elim!: go_bind_Inr go_then_Inr dest!: addTotal_Inr [OF assms(1)])

lemma insert_ins_total:
  assumes "Add64_checked lib" "insert_ins lib w p ctx t cr u c xs (i, tot) s = (Inr (i', tot'), s')"
  shows "unat tot' = unat tot + sum_list (map (in_amount w) xs) \<and> i' = i + length xs"
  using assms(2)
proof (induction xs arbitrary: i tot s)
  case Nil
  then show ?case by (simp add: insert_ins_def go_simps)
next
  case (Cons x xs)
  then obtain tot1 s1 where "InsertTransactionIns lib w p i ctx tot x t cr u c s = (Inr tot1, s1)"
    and "insert_ins lib w p ctx t cr u c xs (Suc i, tot1) s1 = (Inr (i', tot'), s')"
    unfolding insert_ins_def by (auto simp: go_return_run elim!: go_bind_Inr)
  with Cons.IH InsertTransactionIns_total [OF assms(1)] show ?case by fastforce
qed

lemma insert_outs_total:
  assumes "Add64_checked lib" "insert_outs lib w p ctx t c sk xs (i, tot) s = (Inr (i', tot'), s')"
  shows "unat tot' = unat tot + sum_list (map (out_amount w) xs) \<and> i' = i + of_nat (length xs)"
  using assms(2)
proof (induction xs arbitrary: i tot s)
  case Nil
  then show ?case by (simp add: insert_outs_def go_simps)
next
  case (Cons x xs)
  then obtain tot1 s1 where "InsertTransactionOuts lib w p i ctx tot x t c sk False s = (Inr tot1, s1)"
    and "insert_outs lib w p ctx t c sk xs (i + 1, tot1) s1 = (Inr (i', tot'), s')"
    unfolding insert_outs_def by (auto simp: go_return_run elim!: go_bind_Inr)
  with Cons.IH InsertTransactionOuts_total [OF assms(1)] show ?case by fastforce
qed

definition ins_of :: "AddInsContainer option \<Rightarrow> TransferableInput list" where
  "ins_of ai = (case ai of None \<Rightarrow> [] | Some c \<Rightarrow> AddIns_Ins c)"

definition outs_of :: "AddOutsContainer option \<Rightarrow> TransferableOutput list" where
  "outs_of ao = (case ao of None \<Rightarrow> [] | Some c \<Rightarrow> AddOuts_Outs c)"

definition total_ins :: "axcWriter \<Rightarrow> BaseTx \<Rightarrow> AddInsContainer option \<Rightarrow> nat" where
  "total_ins w tx ai = sum_list (map (in_amount w) (BaseTx_Ins tx @ ins_of ai))"

definition total_outs :: "axcWriter \<Rightarrow> BaseTx \<Rightarrow> AddOutsContainer option \<Rightarrow> nat" where
  "total_outs w tx ao = sum_list (map (out_amount w) (BaseTx_Outs tx @ outs_of ao))"

text \<open>\<open>InsertTransaction\<close> up to the row of the transaction itself.\<close>

definition insert_parts :: "extlib \<Rightarrow> axcWriter \<Rightarrow> (pcall \<Rightarrow> ('s, unit) go) \<Rightarrow> consumerCtx \<Rightarrow> bytes \<Rightarrow> BaseTx
    \<Rightarrow> verifiable list \<Rightarrow> AddInsContainer option \<Rightarrow> AddOutsContainer option \<Rightarrow> ('s, u64 \<times> u64) go" where
  "insert_parts lib w p ctx ub tx cr ai ao =
     go_bind (insert_ins lib w p ctx (BaseTx_ID tx) cr ub (axcW_chainID w) (BaseTx_Ins tx) (0, 0)) (\<lambda>st.
     go_bind (case ai of None \<Rightarrow> go_return st
              | Some ai \<Rightarrow> insert_ins lib w p ctx (BaseTx_ID tx) cr ub (AddIns_ChainID ai) (AddIns_Ins ai) st) (\<lambda>st1.
     go_bind (insert_outs lib w p ctx (BaseTx_ID tx) (axcW_chainID w) False (BaseTx_Outs tx) (0, 0)) (\<lambda>st.
     go_bind (case ao of None \<Rightarrow> go_return st
              | Some ao \<Rightarrow> insert_outs lib w p ctx (BaseTx_ID tx) (AddOuts_ChainID ao) (AddOuts_Stake ao)
                             (AddOuts_Outs ao) st) (\<lambda>st2.
     go_return (snd st1, snd st2)))))"

lemma InsertTransaction_split:
  "InsertTransaction lib w p ctx tb ub tx cr ty ai ao al g =
     go_bind (insert_parts lib w p ctx ub tx cr ai ao) (\<lambda>(totalin, totalout).
       InsertTransactionBase lib w p ctx (BaseTx_ID tx) (axcW_chainID w) (TransactionType_String ty)
         (BaseTx_Memo tx) tb (txFee totalin totalout al g) g (BaseTx_NetworkID tx))"
  unfolding InsertTransaction_def insert_parts_def by (simp add: go_bind_assoc case_prod_unfold)

lemma insert_parts_traced:
  "traced (part_call ctx) p (insert_parts lib w p ctx ub tx cr ai ao) (insert_parts lib w record_call ctx ub tx cr ai ao)"
  unfolding insert_parts_def by (intro traced_intros)

lemma insert_parts_Inr:
  assumes "insert_parts lib w p ctx ub tx cr ai ao s = (Inr (ti, to), s')"
  obtains i1 ti1 s1 i2 s2 j1 to1 s3 j2 where
    "insert_ins lib w p ctx (BaseTx_ID tx) cr ub (axcW_chainID w) (BaseTx_Ins tx) (0, 0) s = (Inr (i1, ti1), s1)"
    and "(case ai of None \<Rightarrow> go_return (i1, ti1) | Some ai \<Rightarrow> insert_ins lib w p ctx (BaseTx_ID tx) cr ub
        (AddIns_ChainID ai) (AddIns_Ins ai) (i1, ti1)) s1 = (Inr (i2, ti), s2)"
    and "insert_outs lib w p ctx (BaseTx_ID tx) (axcW_chainID w) False (BaseTx_Outs tx) (0, 0) s2 = (Inr (j1, to1), s3)"
    and "(case ao of None \<Rightarrow> go_return (j1, to1) | Some ao \<Rightarrow> insert_outs lib w p ctx (BaseTx_ID tx)
        (AddOuts_ChainID ao) (AddOuts_Stake ao) (AddOuts_Outs ao) (j1, to1)) s3 = (Inr (j2, to), s')"
  using assms unfolding insert_parts_def
  by (auto simp: go_return_run elim!: go_bind_Inr)

lemma insert_parts_total:
  assumes "Add64_checked lib" "insert_parts lib w p ctx ub tx cr ai ao s = (Inr (ti, to), s')"
  shows "unat ti = total_ins w tx ai" "unat to = total_outs w tx ao"
proof -
  note ins = insert_ins_total [OF assms(1)] and outs = insert_outs_total [OF assms(1)]
  from assms(2) show "unat ti = total_ins w tx ai" "unat to = total_outs w tx ao"
    by (rule insert_parts_Inr; cases ai; cases ao;
        force simp: total_ins_def total_outs_def ins_of_def outs_of_def go_return_run dest: ins outs)+
qed

text \<open>The stages of a successful \<open>InsertTransaction\<close>.\<close>

lemma InsertTransaction_Inr:
  assumes "Add64_checked lib"
    and "InsertTransaction lib w p ctx tb ub tx cr ty ai ao al g s = (Inr (), s')"
  obtains ti to s1 where
    "insert_parts lib w p ctx ub tx cr ai ao s = (Inr (ti, to), s1)"
    "unat ti = total_ins w tx ai" "unat to = total_outs w tx ao"
    "InsertTransactionBase lib w p ctx (BaseTx_ID tx) (axcW_chainID w) (TransactionType_String ty)
       (BaseTx_Memo tx) tb (txFee ti to al g) g (BaseTx_NetworkID tx) s1 = (Inr (), s')"
  using assms(2) unfolding InsertTransaction_split
  by (auto elim!: go_bind_Inr dest: insert_parts_total [OF assms(1)])

lemma unat_txFee:
  assumes "unat totalout + unat al < 2 ^ 64"
  shows "unat (txFee totalin totalout al g) = (if g then 0 else unat totalin - (unat totalout + unat al))"
proof -
  have s: "unat (totalout + al) = unat totalout + unat al"
    using assms by (simp add: unat_word_ariths)
  show ?thesis
  proof (cases "totalin < totalout + al")
    case True
    then show ?thesis using s by (simp add: txFee_def word_less_nat_alt)
  next
    case False
    then show ?thesis using s by (simp add: txFee_def word_less_nat_alt unat_sub word_le_nat_alt)
  qed
qed

section \<open>The rows of a transaction\<close>

definition tx_row :: "pcall \<Rightarrow> Transactions option" where
  "tx_row c = (case c of PInsertTransactions v _ \<Rightarrow> Some v | _ \<Rightarrow> None)"

definition output_row :: "pcall \<Rightarrow> Outputs option" where
  "output_row c = (case c of PInsertOutputs v _ \<Rightarrow> Some v | _ \<Rightarrow> None)"

definition redeem_row :: "pcall \<Rightarrow> OutputsRedeeming option" where
  "redeem_row c = (case c of PInsertOutputsRedeeming v _ \<Rightarrow> Some v | _ \<Rightarrow> None)"

lemmas row_defs = tx_row_def output_row_def redeem_row_def

abbreviation no_rows :: "(pcall \<Rightarrow> 'b option) \<Rightarrow> bool" where
  "no_rows f \<equiv> (\<forall>v u. f (PInsertAddressChain v u) = None) \<and> (\<forall>v u. f (PInsertAddressBech32 v u) = None)
    \<and> (\<forall>v u. f (PInsertOutputAddressAccumulateOut v u) = None) \<and> (\<forall>v u. f (PInsertOutputAddressAccumulateIn v u) = None)
    \<and> (\<forall>v u. f (PInsertOutputAddresses v u) = None) \<and> (\<forall>v. f (PUpdateOutputAddresses v) = None)
    \<and> (\<forall>v u. f (PInsertAddresses v u) = None) \<and> (\<forall>v. f (PInsertOutputTxsAccumulate v) = None)"

lemma InsertOutputAddress_adds:
  "no_rows f \<Longrightarrow> adds f (InsertOutputAddress lib w record_call ctx o' a s t i c) []"
  unfolding InsertOutputAddress_def by (intro adds_intros adds_bind_left adds_then_left) auto

lemma InsertOutput_addr_adds: "no_rows f \<Longrightarrow> adds f (InsertOutput_addr lib w record_call ctx o' t i a c x) []"
  unfolding InsertOutput_addr_def
  by (intro adds_intros adds_bind_left adds_then_left InsertOutputAddress_adds) auto

lemma InsertTransactionIns_sig_adds:
  "no_rows f \<Longrightarrow> adds f (InsertTransactionIns_sig lib w record_call ctx x u c s) []"
  unfolding InsertTransactionIns_sig_def InsertAddressFromPublicKey_def
  by (intro adds_intros adds_bind_left adds_then_left InsertOutputAddress_adds) auto

text \<open>The row that an output becomes.\<close>

fun state_row :: "extlib \<Rightarrow> consumerCtx \<Rightarrow> ID \<Rightarrow> string \<Rightarrow> bool \<Rightarrow> bool \<Rightarrow> ID \<Rightarrow> u32 \<Rightarrow> state_out \<Rightarrow> Outputs" where
  "state_row lib ctx t c st gu a i (StakeableLockOut l (SecpOut x)) =
     Outputs_row lib ctx t i a x OutputTypesSECP2556K1Transfer 0 None l c st False True gu"
| "state_row lib ctx t c st gu a i (NftTransferOutput g pl oo) =
     Outputs_row lib ctx t i a (xOut oo) OutputTypesNFTTransfer g pl 0 c st False False gu"
| "state_row lib ctx t c st gu a i (NftMintOutput g oo) =
     Outputs_row lib ctx t i a (xOut oo) OutputTypesNFTMint g None 0 c st False False gu"
| "state_row lib ctx t c st gu a i (SecpMintOutput oo) =
     Outputs_row lib ctx t i a (xOut oo) OutputTypesSECP2556K1Mint 0 None 0 c st False False gu"
| "state_row lib ctx t c st gu a i (SecpTransferOutput x) =
     Outputs_row lib ctx t i a x OutputTypesSECP2556K1Transfer 0 None 0 c st False False gu"
| "state_row lib ctx t c st gu a i _ = zero_Outputs"

definition out_rows :: "extlib \<Rightarrow> consumerCtx \<Rightarrow> ID \<Rightarrow> string \<Rightarrow> bool \<Rightarrow> nat \<Rightarrow> TransferableOutput list \<Rightarrow> Outputs list" where
  "out_rows lib ctx t c st k xs = map (\<lambda>(i, x). state_row lib ctx t c st False (TransferableOutput_AssetID x)
      (of_nat i) (TransferableOutput_Out x)) (enumerate k xs)"

lemma length_out_rows [simp]: "length (out_rows lib ctx t c st k xs) = length xs"
  by (simp add: out_rows_def)

lemma InsertOutput_adds:
  "adds output_row (InsertOutput lib w record_call ctx t i a x ty g pl sl c st fr so gu)
     [Outputs_row lib ctx t i a x ty g pl sl c st fr so gu]"
  unfolding InsertOutput_def Let_def
  by (intro adds_then_left adds_for InsertOutput_addr_adds adds_call_Some) (simp_all add: row_defs)

lemma InsertOutput_adds_other:
  "no_rows f \<Longrightarrow> (\<And>v u. f (PInsertOutputs v u) = None)
    \<Longrightarrow> adds f (InsertOutput lib w record_call ctx t i a x ty g pl sl c st fr so gu) []"
  unfolding InsertOutput_def Let_def
  by (intro adds_then_left adds_for InsertOutput_addr_adds adds_call_None) simp_all

lemma ProcessStateOut_adds_other:
  "no_rows f \<Longrightarrow> (\<And>v u. f (PInsertOutputs v u) = None)
    \<Longrightarrow> adds f (ProcessStateOut lib w record_call ctx x t i a am tot c st gu) []"
  unfolding ProcessStateOut_def
  by (auto intro!: adds_intros adds_bind_left adds_then_left InsertOutput_adds_other
      split: state_out.split transferable_out.split sum.split)

text \<open>One output, one row, with the index it was given.\<close>

lemma ProcessStateOut_adds:
  "adds output_row (ProcessStateOut lib w record_call ctx x t i a am tot c st gu) [state_row lib ctx t c st gu a i x]"
  unfolding ProcessStateOut_def
  by (auto intro!: adds_bind_left adds_then_right InsertOutput_adds adds_lift adds_return adds_raise
      split: state_out.split transferable_out.split sum.split)

lemma InsertTransactionOuts_adds:
  "adds output_row (InsertTransactionOuts lib w record_call i ctx tot x t c st gu)
     [state_row lib ctx t c st gu (TransferableOutput_AssetID x) i (TransferableOutput_Out x)]"
  unfolding InsertTransactionOuts_def
  by (auto intro!: adds_bind_right [OF ProcessStateOut_adds] adds_return)

lemma insert_outs_adds:
  "adds output_row (insert_outs lib w record_call ctx t c sk xs (of_nat k, tot)) (out_rows lib ctx t c sk k xs)"
proof (induction xs arbitrary: k tot)
  case Nil
  then show ?case by (simp add: insert_outs_def out_rows_def adds_return)
next
  case (Cons x xs)
  have "adds output_row (insert_outs lib w record_call ctx t c sk xs (of_nat k + 1, tot')) (out_rows lib ctx t c sk (Suc k) xs)" for tot'
    using Cons.IH [of "Suc k" tot'] by (simp add: add.commute)
  from adds_bind [OF InsertTransactionOuts_adds this] show ?case
    by (simp add: insert_outs_def out_rows_def go_bind_assoc)
qed

lemma InsertTransactionIns_redeem:
  "adds redeem_row (InsertTransactionIns lib w record_call i ctx tot x t cr u c) [OutputsRedeeming_row lib ctx t c x]"
  unfolding InsertTransactionIns_def Let_def
  by (intro adds_bind_left adds_then_left adds_then_right adds_lift adds_return adds_call_None adds_call_Some)
    (auto simp: row_defs intro!: adds_return adds_for InsertTransactionIns_sig_adds split: verifiable.split)

lemma InsertTransactionIns_no_output:
  "adds output_row (InsertTransactionIns lib w record_call i ctx tot x t cr u c) []"
  unfolding InsertTransactionIns_def Let_def
  by (intro adds_bind_left adds_then_left adds_lift adds_return adds_call_None)
    (auto simp: row_defs intro!: adds_return adds_for InsertTransactionIns_sig_adds split: verifiable.split)

lemma insert_ins_redeem:
  "adds redeem_row (insert_ins lib w record_call ctx t cr u c xs st) (map (OutputsRedeeming_row lib ctx t c) xs)"
  unfolding insert_ins_def
  by (rule adds_fold_map) (auto intro!: adds_bind_right adds_return InsertTransactionIns_redeem)

lemma insert_ins_no_output: "adds output_row (insert_ins lib w record_call ctx t cr u c xs st) []"
  unfolding insert_ins_def
  by (rule adds_fold) (auto intro!: adds_bind_right adds_return InsertTransactionIns_no_output)

lemma insert_outs_no_redeem: "adds redeem_row (insert_outs lib w record_call ctx t c sk xs st) []"
  unfolding insert_outs_def InsertTransactionOuts_def
  by (rule adds_fold)
    (auto intro!: adds_bind_right adds_return ProcessStateOut_adds_other simp: row_defs)

text \<open>The rows of all outputs and inputs of a transaction: the additional ones come last.\<close>

definition tx_output_rows :: "extlib \<Rightarrow> consumerCtx \<Rightarrow> axcWriter \<Rightarrow> BaseTx \<Rightarrow> AddOutsContainer option \<Rightarrow> Outputs list" where
  "tx_output_rows lib ctx w tx ao = out_rows lib ctx (BaseTx_ID tx) (axcW_chainID w) False 0 (BaseTx_Outs tx)
     @ (case ao of None \<Rightarrow> []
        | Some a \<Rightarrow> out_rows lib ctx (BaseTx_ID tx) (AddOuts_ChainID a) (AddOuts_Stake a) (length (BaseTx_Outs tx)) (AddOuts_Outs a))"

definition tx_redeem_rows :: "extlib \<Rightarrow> consumerCtx \<Rightarrow> axcWriter \<Rightarrow> BaseTx \<Rightarrow> AddInsContainer option \<Rightarrow> OutputsRedeeming list" where
  "tx_redeem_rows lib ctx w tx ai = map (OutputsRedeeming_row lib ctx (BaseTx_ID tx) (axcW_chainID w)) (BaseTx_Ins tx)
     @ (case ai of None \<Rightarrow> []
        | Some a \<Rightarrow> map (OutputsRedeeming_row lib ctx (BaseTx_ID tx) (AddIns_ChainID a)) (AddIns_Ins a))"

lemma insert_outs_count:
  "insert_outs lib w p ctx t c sk xs (i, tot) s = (Inr (i', tot'), s') \<Longrightarrow> i' = i + of_nat (length xs)"
proof (induction xs arbitrary: i tot s)
  case Nil
  then show ?case by (simp add: insert_outs_def go_simps)
next
  case (Cons x xs)
  then obtain tot1 s1 where "insert_outs lib w p ctx t c sk xs (i + 1, tot1) s1 = (Inr (i', tot'), s')"
    unfolding insert_outs_def by (auto simp: go_return_run elim!: go_bind_Inr)
  with Cons.IH show ?case by fastforce
qed

lemma insert_parts_rows:
  "adds output_row (insert_parts lib w record_call ctx ub tx cr ai ao) (tx_output_rows lib ctx w tx ao)"
  unfolding adds_def
proof (intro allI impI)
  fix cs a cs' assume run: "insert_parts lib w record_call ctx ub tx cr ai ao cs = (Inr a, cs')"
  obtain ti to where "a = (ti, to)" by (cases a)
  with run have "insert_parts lib w record_call ctx ub tx cr ai ao cs = (Inr (ti, to), cs')" by simp
  then show "List.map_filter output_row cs' = List.map_filter output_row cs @ tx_output_rows lib ctx w tx ao"
  proof (rule insert_parts_Inr)
    fix i1 ti1 s1 i2 s2 j1 to1 s3 j2
    assume r1: "insert_ins lib w record_call ctx (BaseTx_ID tx) cr ub (axcW_chainID w) (BaseTx_Ins tx) (0, 0) cs = (Inr (i1, ti1), s1)"
      and r2: "(case ai of None \<Rightarrow> go_return (i1, ti1) | Some ai \<Rightarrow> insert_ins lib w record_call ctx (BaseTx_ID tx) cr ub
          (AddIns_ChainID ai) (AddIns_Ins ai) (i1, ti1)) s1 = (Inr (i2, ti), s2)"
      and r3: "insert_outs lib w record_call ctx (BaseTx_ID tx) (axcW_chainID w) False (BaseTx_Outs tx) (0, 0) s2 = (Inr (j1, to1), s3)"
      and r4: "(case ao of None \<Rightarrow> go_return (j1, to1) | Some ao \<Rightarrow> insert_outs lib w record_call ctx (BaseTx_ID tx)
          (AddOuts_ChainID ao) (AddOuts_Stake ao) (AddOuts_Outs ao) (j1, to1)) s3 = (Inr (j2, to), cs')"
    have "List.map_filter output_row s2 = List.map_filter output_row s1"
      using r2 by (cases ai) (auto simp: go_simps dest: addsD [OF insert_ins_no_output])
    moreover note addsD [OF insert_ins_no_output r1] insert_outs_count [OF r3]
      addsD [OF insert_outs_adds [where k = 0, simplified] r3]
    ultimately show ?thesis
      using r4 by (cases ao)
        (auto simp: go_simps tx_output_rows_def dest: addsD [OF insert_outs_adds])
  qed
qed

lemma insert_parts_redeem:
  "adds redeem_row (insert_parts lib w record_call ctx ub tx cr ai ao) (tx_redeem_rows lib ctx w tx ai)"
  unfolding insert_parts_def tx_redeem_rows_def
  by (cases ai; cases ao; auto intro!: adds_bind [OF insert_ins_redeem] adds_bind_left [OF insert_outs_no_redeem] adds_bind_right adds_return
      insert_ins_redeem insert_outs_no_redeem)

lemma part_keeps_tx:
  assumes "sql_session sess" "traced (part_call ctx) (persist_exec sess) m n" "m d = (Inr a, d')"
  shows "tabs d' TableTransactions = tabs d TableTransactions"
proof -
  have "list_all (\<lambda>c. call_table c \<noteq> TableTransactions) (trace n)"
    using traced_all [OF assms(2)] by (auto simp: list_all_iff part_call_def part_tables_def)
  then show ?thesis
    using sql_session.handler_ok(2) [OF assms] calls_effect_other by metis
qed

text \<open>The outputs that the writer knows; a transaction with another one is refused.\<close>

fun known_out :: "state_out \<Rightarrow> bool" where
  "known_out (StakeableLockOut l OtherOut) = False"
| "known_out (OtherState n) = False"
| "known_out _ = True"

lemma ProcessStateOut_known: "ProcessStateOut lib w p ctx x t i a am tot c st gu s = (Inr r, s') \<Longrightarrow> known_out x"
  unfolding ProcessStateOut_def
  by (auto simp: go_raise_run split: state_out.splits transferable_out.splits)

lemma insert_outs_known:
  "insert_outs lib w p ctx t c sk xs st s = (Inr r, s') \<Longrightarrow> list_all (\<lambda>x. known_out (TransferableOutput_Out x)) xs"
proof (induction xs arbitrary: st s)
  case (Cons x xs)
  then show ?case
    unfolding insert_outs_def InsertTransactionOuts_def
    by (auto simp: go_return_run elim!: go_bind_Inr split: prod.splits dest: ProcessStateOut_known)
qed simp

lemma insert_parts_known:
  assumes "insert_parts lib w p ctx ub tx cr ai ao s = (Inr (ti, to), s')"
  shows "list_all (\<lambda>x. known_out (TransferableOutput_Out x)) (BaseTx_Outs tx @ outs_of ao)"
  using assms by (rule insert_parts_Inr; cases ao) (auto simp: outs_of_def dest: insert_outs_known)

lemma state_row_fields:
  assumes "known_out x"
  shows "Outputs_TransactionID (state_row lib ctx t c st gu a i x) = ID_String lib t"
    and "Outputs_OutputIndex (state_row lib ctx t c st gu a i x) = i"
    and "Outputs_Amount (state_row lib ctx t c st gu a i x) = of_nat (state_amount x)"
  using assms by (cases x rule: known_out.cases; simp add: Outputs_row_def xOut_def)+

lemma out_rows_fields:
  assumes "list_all (\<lambda>x. known_out (TransferableOutput_Out x)) xs"
  shows "map Outputs_TransactionID (out_rows lib ctx t c st k xs) = replicate (length xs) (ID_String lib t)"
    and "map Outputs_OutputIndex (out_rows lib ctx t c st k xs) = map of_nat [k..<k + length xs]"
    and "map Outputs_Amount (out_rows lib ctx t c st k xs) = map (\<lambda>x. of_nat (state_amount (TransferableOutput_Out x))) xs"
  using assms
  by (induction xs arbitrary: k) (simp_all add: out_rows_def state_row_fields upt_conv_Cons del: upt_Suc)

lemma tx_output_rows_fields:
  assumes "list_all (\<lambda>x. known_out (TransferableOutput_Out x)) (BaseTx_Outs tx @ outs_of ao)"
  shows "map Outputs_TransactionID (tx_output_rows lib ctx w tx ao)
      = replicate (length (BaseTx_Outs tx @ outs_of ao)) (ID_String lib (BaseTx_ID tx))"
    and "map Outputs_OutputIndex (tx_output_rows lib ctx w tx ao) = map of_nat [0..<length (BaseTx_Outs tx @ outs_of ao)]"
    and "map Outputs_Amount (tx_output_rows lib ctx w tx ao)
      = map (\<lambda>x. of_nat (state_amount (TransferableOutput_Out x))) (BaseTx_Outs tx @ outs_of ao)"
  using assms
  by (cases ao; simp add: tx_output_rows_def outs_of_def out_rows_fields replicate_add upt_add_eq_append [of 0])+

lemma InsertTransaction_adds:
  "adds output_row (InsertTransaction lib w record_call ctx tb ub tx cr ty ai ao addl g) (tx_output_rows lib ctx w tx ao)"
  "adds redeem_row (InsertTransaction lib w record_call ctx tb ub tx cr ty ai ao addl g) (tx_redeem_rows lib ctx w tx ai)"
  unfolding InsertTransaction_split InsertTransactionBase_def Let_def
  by (auto intro!: adds_bind_right [OF insert_parts_rows] adds_bind_right [OF insert_parts_redeem] adds_call_None
      simp: row_defs)

section \<open>A sample transaction\<close>

text \<open>One signed input of 10 units and two outputs, of 5 and of 2 units, the second one an
  additional, staked output.\<close>

definition sample_writer :: axcWriter where
  "sample_writer = axc_NewWriter ''chain'' [9]"

definition sample_ctx :: consumerCtx where
  "sample_ctx = NewConsumerContext 100 0 200 False ''hrp''"

definition sample_owners :: OutputOwners where
  "sample_owners = \<lparr>OutputOwners_Locktime = 0, OutputOwners_Threshold = 1, OutputOwners_Addresses = [[65]]\<rparr>"

definition sample_out :: "u64 \<Rightarrow> TransferableOutput" where
  "sample_out n = \<lparr>TransferableOutput_AssetID = [9],
     TransferableOutput_Out = SecpTransferOutput \<lparr>TransferOutput_Amt = n, TransferOutput_Owners = sample_owners\<rparr>\<rparr>"

definition sample_in :: "u64 \<Rightarrow> TransferableInput" where
  "sample_in n = \<lparr>TransferableInput_TxID = [66], TransferableInput_OutputIndex = 0,
     TransferableInput_AssetID = [9], TransferableInput_Amount = n\<rparr>"

definition sample_tx :: BaseTx where
  "sample_tx = \<lparr>BaseTx_ID = [67], BaseTx_NetworkID = 1, BaseTx_Ins = [sample_in 10],
     BaseTx_Outs = [sample_out 5], BaseTx_Memo = None\<rparr>"

definition sample_stake :: AddOutsContainer where
  "sample_stake = \<lparr>AddOuts_Outs = [sample_out 2], AddOuts_Stake = True, AddOuts_ChainID = ''chain''\<rparr>"

definition sample_env :: settings where
  "sample_env = \<lparr>set_now = 200, set_upd = False, set_hrp = ''hrp''\<rparr>"

definition sample_msg :: "bytes \<Rightarrow> consumable" where
  "sample_msg b = \<lparr>consumable_ID = ''id'', consumable_ChainID = ''chain'', consumable_Body = b,
     consumable_Timestamp = 100, consumable_Nanosecond = 0\<rparr>"

lemmas sample_defs = sample_writer_def sample_ctx_def sample_owners_def sample_out_def sample_in_def
  sample_tx_def sample_stake_def sample_lib_def axc_NewWriter_def NewConsumerContext_def

lemmas axc_defs = InsertTransaction_def insert_ins_def insert_outs_def InsertTransactionIns_def
  InsertTransactionIns_sig_def InsertAddressFromPublicKey_def InsertOutputAddress_def InsertTransactionOuts_def
  ProcessStateOut_def InsertOutput_def InsertOutput_addr_def InsertTransactionBase_def addTotal_def
  OutputAddressAccumulate_ComputeID_def OutputTxsAccumulate_ComputeID_def Let_def

abbreviation sample_insert :: "(pcall \<Rightarrow> ('s, unit) go) \<Rightarrow> ('s, unit) go" where
  "sample_insert p \<equiv> InsertTransaction sample_lib sample_writer p sample_ctx (Some [1]) [2] sample_tx
     [Credential [[65, 66]]] TransactionTypeAddDelegator None (Some sample_stake) 0 False"

lemma sample_outcome: "outcome (sample_insert record_call) = Inr ()"
  by (simp add: outcome_def axc_defs sample_defs record_call_def go_simps)

lemma sample_ctx_upd [simp]: "cc_upd sample_ctx = False"
  by (simp add: sample_ctx_def NewConsumerContext_def)

lemma sample_msg_ctx: "consumer_ctx sample_env (sample_msg b) = sample_ctx" "consumable_Body (sample_msg b) = b"
  by (simp_all add: consumer_ctx_def sample_env_def sample_msg_def sample_ctx_def)

lemma sample_run: "\<exists>d'. sample_insert (persist_exec ideal) empty_db = (Inr (), d')"
proof -
  have "traced (call_upd False) (persist_exec ideal) (sample_insert (persist_exec ideal)) (sample_insert record_call)"
    using InsertTransaction_traced [where ctx = sample_ctx] by simp
  from sqlp.run_handler [OF this, of empty_db] show ?thesis using sample_outcome by auto
qed

lemma sample_totals:
  "total_ins sample_writer sample_tx None = 10" "total_outs sample_writer sample_tx (Some sample_stake) = 7"
  by (simp_all add: total_ins_def total_outs_def ins_of_def outs_of_def in_amount_def out_amount_def sample_defs)

section \<open>Properties\<close>

text \<open>C3. The fee that is stored for a transaction is what its inputs of the fee asset bring in
  beyond its outputs (and the outputs of its operations or states), zero when they bring in
  less and for the genesis: for every server that behaves like a transactional SQL server, if
  \<open>InsertTransaction\<close> returns no error then the one row under the transaction's id holds that
  fee.\<close>

theorem InsertTransaction_stores_fee:
  assumes "sql_session sess" "Add64_checked lib"
    and free: "sql_select TableTransactions (Transactions_key q) (tabs d) = []"
    and q: "Transactions_ID q = ID_String lib (BaseTx_ID tx)"
    and run: "InsertTransaction lib w (persist_exec sess) ctx tb ub tx cr ty ai ao addl g d = (Inr (), d')"
    and nowrap: "total_outs w tx ao + unat addl < 2 ^ 64"
  shows "\<exists>t. map row_of_Transactions (sql_select TableTransactions (Transactions_key q) (tabs d')) = [t]
    \<and> Transactions_Type t = TransactionType_String ty \<and> Transactions_ChainID t = axcW_chainID w
    \<and> unat (Transactions_Txfee t) = (if g then 0 else total_ins w tx ai - (total_outs w tx ao + unat addl))"
proof -
  from InsertTransaction_Inr [OF assms(2) run] obtain ti to d1 where
    parts: "insert_parts lib w (persist_exec sess) ctx ub tx cr ai ao d = (Inr (ti, to), d1)"
    and t: "unat ti = total_ins w tx ai" "unat to = total_outs w tx ao"
    and base: "InsertTransactionBase lib w (persist_exec sess) ctx (BaseTx_ID tx) (axcW_chainID w)
      (TransactionType_String ty) (BaseTx_Memo tx) tb (txFee ti to addl g) g (BaseTx_NetworkID tx) d1 = (Inr (), d')" .
  have "tabs d1 TableTransactions = tabs d TableTransactions"
    using part_keeps_tx [OF assms(1) insert_parts_traced parts] .
  with free have free1: "sql_select TableTransactions (Transactions_key q) (tabs d1) = []"
    by (simp add: sql_select_def)
  from base obtain v where v: "InsertTransactions sess v (cc_upd ctx) d1 = (Inr (), d')"
    "Transactions_ID v = ID_String lib (BaseTx_ID tx)" "Transactions_Txfee v = txFee ti to addl g"
    "Transactions_Type v = TransactionType_String ty" "Transactions_ChainID v = axcW_chainID w"
    by (auto simp: InsertTransactionBase_def Let_def)
  have key: "Transactions_key q = Transactions_key v" using q v(2) by (simp add: Transactions_key_def)
  have "go_then (exec_insert sess TableTransactions TableTransactions (Transactions_cols v))
      (if cc_upd ctx then exec_update sess TableTransactions TableTransactions (Transactions_sets v) (Transactions_key v)
       else go_return ()) d1 = (Inr (), d')"
    unfolding Transactions_key_def by (fact v(1) [unfolded InsertTransactions_def])
  from Transactions_dao.stored_upsert [OF assms(1) this] free1
  have "map row_of_Transactions (sql_select TableTransactions (Transactions_key v) (tabs d')) = [v]"
    by (simp add: key)
  then show ?thesis using unat_txFee [of to addl ti g] nowrap t v key by simp
qed

theorem InsertTransaction_stores_fee_witness:
  "\<exists>d' t. sample_insert (persist_exec ideal) empty_db = (Inr (), d')
    \<and> map row_of_Transactions (sql_select TableTransactions
        (Transactions_key (zero_Transactions\<lparr>Transactions_ID := ''C''\<rparr>)) (tabs d')) = [t]
    \<and> unat (Transactions_Txfee t) = 3"
proof -
  let ?q = "zero_Transactions\<lparr>Transactions_ID := ''C''\<rparr>"
  obtain d' where run: "sample_insert (persist_exec ideal) empty_db = (Inr (), d')" using sample_run by blast
  have free: "sql_select TableTransactions (Transactions_key ?q) (tabs empty_db) = []"
    by (simp add: empty_db_def sql_select_def)
  have id: "Transactions_ID ?q = ID_String sample_lib (BaseTx_ID sample_tx)"
    by (simp add: sample_tx_def sample_lib_def char_of_eq_iff eq_commute [of "CHR ''C''"])
  from InsertTransaction_stores_fee [OF ideal.sql_session_axioms sample_lib_Add64 free id run]
  obtain t where "map row_of_Transactions (sql_select TableTransactions (Transactions_key ?q) (tabs d')) = [t]"
    "unat (Transactions_Txfee t) = 3"
    by (auto simp: sample_totals)
  with run show ?thesis by (intro exI conjI)
qed

text \<open>C4. Amounts are never summed modulo \<open>2 ^ 64\<close>: a transaction whose inputs or outputs of
  the fee asset add up to \<open>2 ^ 64\<close> or more is refused with an error, on every implementation of
  \<open>Persist\<close> and from every state, so no row for it is written.\<close>

theorem InsertTransaction_refuses_overflow:
  assumes "Add64_checked lib" "2 ^ 64 \<le> total_ins w tx ai \<or> 2 ^ 64 \<le> total_outs w tx ao"
  shows "\<exists>e. fst (InsertTransaction lib w p ctx tb ub tx cr ty ai ao addl g s) = Inl e"
proof (cases "InsertTransaction lib w p ctx tb ub tx cr ty ai ao addl g s")
  case (Pair r s')
  have "r \<noteq> Inr ()"
  proof
    assume "r = Inr ()"
    with Pair obtain ti to :: u64 where "unat ti = total_ins w tx ai" "unat to = total_outs w tx ao"
      by (auto elim: InsertTransaction_Inr [OF assms(1)])
    moreover have "unat ti < 2 ^ 64" "unat to < 2 ^ 64"
      using unsigned_less [of ti] unsigned_less [of to] by simp_all
    ultimately show False using assms(2) by linarith
  qed
  then show ?thesis using Pair by (cases r) auto
qed

theorem InsertTransaction_refuses_overflow_witness:
  "\<exists>e. fst (InsertTransaction sample_lib sample_writer (persist_exec ideal) sample_ctx None []
     (sample_tx\<lparr>BaseTx_Ins := [sample_in (2 ^ 63), sample_in (2 ^ 63)]\<rparr>) [] TransactionTypeBase None None 0 False empty_db) = Inl e"
  by (rule InsertTransaction_refuses_overflow)
    (simp_all add: total_ins_def ins_of_def in_amount_def sample_in_def sample_writer_def axc_NewWriter_def)



end
