(* ===== verification/PvmWriter.thy ===== *)
theory PvmWriter
  imports AxcWriter
begin

text \<open>
  The writer of the platform chain, \<open>src/services/indexes/pvm/writer.go\<close>: a block is taken out
  of its proposer block, stored, and each of its transactions is stored with the block it is
  in. The codecs and the genesis configuration are not part of the repository and are the
  fields of \<open>pvmlib\<close>.
\<close>

section \<open>Blocks and transactions\<close>

record Validator =
  Validator_NodeID :: ShortID
  Validator_Start :: u64
  Validator_End :: u64

text \<open>The dynamic types of \<open>tx.UnsignedTx\<close> that are switched on.\<close>

datatype unsigned_ptx =
    UnsignedAddValidatorTx BaseTx Validator "TransferableOutput list" "verifiable option"
  | UnsignedAddSubnetValidatorTx BaseTx
  | UnsignedAddDelegatorTx BaseTx Validator "TransferableOutput list" "verifiable option"
  | UnsignedCreateSubnetTx BaseTx
  | UnsignedCreateChainTx BaseTx
  | UnsignedImportTx BaseTx "TransferableInput list" ID
  | UnsignedExportTx BaseTx "TransferableOutput list" ID
  | UnsignedAdvanceTimeTx
  | UnsignedRewardValidatorTx ID ID bool
  | OtherPTx string

record PTx =
  PTx_UnsignedTx :: unsigned_ptx
  PTx_Creds :: "verifiable list"
  PTx_Bytes :: "bytes option"
  PTx_UnsignedBytes :: bytes

record CommonBlock =
  CommonBlock_Parent :: ID
  CommonBlock_Height :: u64

datatype platform_block =
    ProposalBlock CommonBlock PTx
  | StandardBlock CommonBlock "PTx list"
  | AtomicBlock CommonBlock PTx
  | AbortBlock CommonBlock
  | CommitBlock CommonBlock
  | OtherBlock string

text \<open>A proposer block: its id, its parent, the bytes of the block inside; a signed one also
  has a height, a proposer and a time.\<close>

datatype proposer_block =
    SignedBlock ID ID bytes u64 ShortID gotime
  | UnsignedBlock ID ID bytes

fun proposer_Block :: "proposer_block \<Rightarrow> bytes" where
  "proposer_Block (SignedBlock i par blk h pr ts) = blk"
| "proposer_Block (UnsignedBlock i par blk) = blk"

record UTXO =
  UTXO_Out :: state_out
  UTXO_AssetID :: ID

record platformGenesis =
  Genesis_Timestamp :: u64
  Genesis_UTXOs :: "UTXO list"
  Genesis_Validators :: "PTx list"
  Genesis_Chains :: "PTx list"

record pvmlib =
  block_Parse :: "bytes \<Rightarrow> go_error + proposer_block"
  pvm_Unmarshal :: "bytes \<Rightarrow> go_error + u16 \<times> platform_block"
  pvm_MarshalUnsigned :: "u16 \<Rightarrow> unsigned_ptx \<Rightarrow> go_error + bytes"
  pvm_MarshalTx :: "u16 \<Rightarrow> PTx \<Rightarrow> go_error + bytes"
  pvm_Initialize :: "PTx \<Rightarrow> bytes \<Rightarrow> bytes \<Rightarrow> PTx"
  genesis_FromConfig :: "u32 \<Rightarrow> go_error + bytes"
  genesis_Unmarshal :: "bytes \<Rightarrow> go_error + platformGenesis"
  genesis_Initialize :: "platformGenesis \<Rightarrow> go_error + platformGenesis"

record pvmWriter =
  pvmW_chainID :: string
  pvmW_networkID :: u32
  pvmW_axc :: axcWriter

definition pvm_NewWriter :: "u32 \<Rightarrow> string \<Rightarrow> ID \<Rightarrow> pvmWriter" where
  "pvm_NewWriter networkID chainID axcAssetID =
     \<lparr>pvmW_chainID = chainID, pvmW_networkID = networkID, pvmW_axc = axc_NewWriter chainID axcAssetID\<rparr>"

section \<open>Rows\<close>

definition InsertTransactionValidator :: "extlib \<Rightarrow> (pcall \<Rightarrow> ('s, unit) go) \<Rightarrow> consumerCtx \<Rightarrow> ID \<Rightarrow> Validator
    \<Rightarrow> ('s, unit) go" where
  "InsertTransactionValidator lib p ctx txID validator =
     p (PInsertTransactionsValidator
          \<lparr>TransactionsValidator_ID = ID_String lib txID,
           TransactionsValidator_NodeID = ShortID_String lib (Validator_NodeID validator),
           TransactionsValidator_Start = Validator_Start validator,
           TransactionsValidator_End = Validator_End validator,
           TransactionsValidator_CreatedAt = cc_time ctx\<rparr> (cc_upd ctx))"

definition InsertTransactionBlock :: "extlib \<Rightarrow> (pcall \<Rightarrow> ('s, unit) go) \<Rightarrow> consumerCtx \<Rightarrow> ID \<Rightarrow> ID \<Rightarrow> ('s, unit) go" where
  "InsertTransactionBlock lib p ctx txID blkTxID =
     p (PInsertTransactionsBlock
          \<lparr>TransactionsBlock_ID = ID_String lib txID,
           TransactionsBlock_TxBlockID = ID_String lib blkTxID,
           TransactionsBlock_CreatedAt = cc_time ctx\<rparr> (cc_upd ctx))"

definition rewards_address_row :: "extlib \<Rightarrow> consumerCtx \<Rightarrow> BaseTx \<Rightarrow> nat \<times> bytes \<Rightarrow> TransactionsRewardsOwnersAddress" where
  "rewards_address_row lib ctx baseTx = (\<lambda>(ipos, addr).
     \<lparr>TransactionsRewardsOwnersAddress_ID = ID_String lib (BaseTx_ID baseTx),
      TransactionsRewardsOwnersAddress_Address = ShortID_String lib (copy20 addr),
      TransactionsRewardsOwnersAddress_OutputIndex = word_of_nat ipos,
      TransactionsRewardsOwnersAddress_UpdatedAt = cc_now ctx\<rparr>)"

definition rewards_output_row :: "extlib \<Rightarrow> consumerCtx \<Rightarrow> BaseTx \<Rightarrow> nat \<Rightarrow> TransactionsRewardsOwnersOutputs" where
  "rewards_output_row lib ctx baseTx ipos =
     \<lparr>TransactionsRewardsOwnersOutputs_ID = ID_String lib (ID_Prefix lib (BaseTx_ID baseTx) (word_of_nat ipos)),
      TransactionsRewardsOwnersOutputs_TransactionID = ID_String lib (BaseTx_ID baseTx),
      TransactionsRewardsOwnersOutputs_OutputIndex = word_of_nat ipos,
      TransactionsRewardsOwnersOutputs_CreatedAt = cc_time ctx\<rparr>"

fun verifiable_type :: "verifiable \<Rightarrow> string" where
  "verifiable_type (Credential _) = ''*secp256k1fx.Credential''"
| "verifiable_type (OwnersVerifiable _) = ''*secp256k1fx.OutputOwners''"
| "verifiable_type (OtherVerifiable n) = n"

definition insertTransactionsRewardsOwners :: "extlib \<Rightarrow> pvmWriter \<Rightarrow> (pcall \<Rightarrow> ('s, unit) go) \<Rightarrow> consumerCtx
    \<Rightarrow> verifiable \<Rightarrow> BaseTx \<Rightarrow> TransferableOutput list \<Rightarrow> ('s, unit) go" where
  "insertTransactionsRewardsOwners lib w p ctx rewardsOwner baseTx stakeOuts =
     (case rewardsOwner of
        OwnersVerifiable owner \<Rightarrow>
          go_then (go_for (\<lambda>ia. p (PInsertTransactionsRewardsOwnersAddress
                             (rewards_address_row lib ctx baseTx ia) (cc_upd ctx)))
                     (enumerate 0 (OutputOwners_Addresses owner)))
         (let outcnt = length (BaseTx_Outs baseTx) + length stakeOuts in
          go_then (go_for (\<lambda>ipos. p (PInsertTransactionsRewardsOwnersOutputs
                             (rewards_output_row lib ctx baseTx ipos) (cc_upd ctx)))
                     [outcnt..<outcnt + 2])
         (p (PInsertTransactionsRewardsOwners
               \<lparr>TransactionsRewardsOwners_ID = ID_String lib (BaseTx_ID baseTx),
                TransactionsRewardsOwners_ChainID = pvmW_chainID w,
                TransactionsRewardsOwners_Threshold = OutputOwners_Threshold owner,
                TransactionsRewardsOwners_Locktime = OutputOwners_Locktime owner,
                TransactionsRewardsOwners_CreatedAt = cc_time ctx\<rparr> (cc_upd ctx))))
      | Credential _ \<Rightarrow> go_raise (ErrorString (''rewards owner '' @ verifiable_type rewardsOwner))
      | OtherVerifiable _ \<Rightarrow> go_raise (ErrorString (''rewards owner '' @ verifiable_type rewardsOwner)))"

section \<open>indexTransaction\<close>

text \<open>The last step of \<open>indexTransaction\<close>, shared by the types that reach it.\<close>

definition pvm_insert :: "extlib \<Rightarrow> pvmWriter \<Rightarrow> (pcall \<Rightarrow> ('s, unit) go) \<Rightarrow> consumerCtx \<Rightarrow> PTx \<Rightarrow> BaseTx
    \<Rightarrow> TransactionType \<Rightarrow> AddInsContainer option \<Rightarrow> AddOutsContainer option \<Rightarrow> bool \<Rightarrow> ('s, unit) go" where
  "pvm_insert lib w p ctx tx baseTx typ ins outs genesis =
     InsertTransaction lib (pvmW_axc w) p ctx (PTx_Bytes tx) (PTx_UnsignedBytes tx) baseTx (PTx_Creds tx)
       typ ins outs 0 genesis"

text \<open>The case of a validator or delegator: they differ in the type of the transaction only.\<close>

definition pvm_staker :: "extlib \<Rightarrow> pvmWriter \<Rightarrow> (pcall \<Rightarrow> ('s, unit) go) \<Rightarrow> consumerCtx \<Rightarrow> ID \<Rightarrow> PTx \<Rightarrow> bool \<Rightarrow> BaseTx
    \<Rightarrow> Validator \<Rightarrow> TransferableOutput list \<Rightarrow> verifiable option \<Rightarrow> TransactionType \<Rightarrow> ('s, unit) go" where
  "pvm_staker lib w p ctx blkID tx genesis baseTx validator stake rewardsOwner typ =
     go_then (InsertTransactionValidator lib p ctx (BaseTx_ID baseTx) validator)
    (go_then (InsertTransactionBlock lib p ctx (BaseTx_ID baseTx) blkID)
    (go_then (case rewardsOwner of None \<Rightarrow> go_return ()
              | Some ro \<Rightarrow> insertTransactionsRewardsOwners lib w p ctx ro baseTx stake)
    (pvm_insert lib w p ctx tx baseTx typ None
       (Some \<lparr>AddOuts_Outs = stake, AddOuts_Stake = True, AddOuts_ChainID = pvmW_chainID w\<rparr>) genesis)))"

definition pvm_indexTransaction :: "extlib \<Rightarrow> pvmWriter \<Rightarrow> (pcall \<Rightarrow> ('s, unit) go) \<Rightarrow> consumerCtx \<Rightarrow> ID \<Rightarrow> PTx \<Rightarrow> bool
    \<Rightarrow> ('s, unit) go" where
  "pvm_indexTransaction lib w p ctx blkID tx genesis =
     (case PTx_UnsignedTx tx of
        UnsignedAddValidatorTx baseTx validator stake rewardsOwner \<Rightarrow>
          pvm_staker lib w p ctx blkID tx genesis baseTx validator stake rewardsOwner TransactionTypeAddValidator
      | UnsignedAddSubnetValidatorTx baseTx \<Rightarrow>
          go_then (InsertTransactionBlock lib p ctx (BaseTx_ID baseTx) blkID)
            (pvm_insert lib w p ctx tx baseTx TransactionTypeAddSubnetValidator None None genesis)
      | UnsignedAddDelegatorTx baseTx validator stake rewardsOwner \<Rightarrow>
          pvm_staker lib w p ctx blkID tx genesis baseTx validator stake rewardsOwner TransactionTypeAddDelegator
      | UnsignedCreateSubnetTx baseTx \<Rightarrow>
          go_then (InsertTransactionBlock lib p ctx (BaseTx_ID baseTx) blkID)
            (pvm_insert lib w p ctx tx baseTx TransactionTypeCreateSubnet None None genesis)
      | UnsignedCreateChainTx baseTx \<Rightarrow>
          go_then (InsertTransactionBlock lib p ctx (BaseTx_ID baseTx) blkID)
            (pvm_insert lib w p ctx tx baseTx TransactionTypeCreateChain None None genesis)
      | UnsignedImportTx baseTx importedInputs sourceChain \<Rightarrow>
          go_then (InsertTransactionBlock lib p ctx (BaseTx_ID baseTx) blkID)
            (pvm_insert lib w p ctx tx baseTx TransactionTypePVMImport
               (Some \<lparr>AddIns_Ins = importedInputs, AddIns_ChainID = ID_String lib sourceChain\<rparr>) None genesis)
      | UnsignedExportTx baseTx exportedOutputs destinationChain \<Rightarrow>
          go_then (InsertTransactionBlock lib p ctx (BaseTx_ID baseTx) blkID)
            (pvm_insert lib w p ctx tx baseTx TransactionTypePVMExport None
               (Some \<lparr>AddOuts_Outs = exportedOutputs, AddOuts_Stake = False,
                      AddOuts_ChainID = ID_String lib destinationChain\<rparr>) genesis)
      | UnsignedAdvanceTimeTx \<Rightarrow> go_return ()
      | UnsignedRewardValidatorTx txID rewardTxID prefersCommit \<Rightarrow>
          p (PInsertRewards
               \<lparr>Rewards_ID = ID_String lib txID,
                Rewards_BlockID = ID_String lib blkID,
                Rewards_Txid = ID_String lib rewardTxID,
                Rewards_Shouldprefercommit = prefersCommit,
                Rewards_CreatedAt = cc_time ctx,
                Rewards_Processed = 0\<rparr> (cc_upd ctx))
      | OtherPTx name \<Rightarrow> go_raise (ErrorString (''unknown tx type '' @ name)))"

section \<open>indexBlock\<close>

definition PvmBlocks_row :: "extlib \<Rightarrow> pvmWriter \<Rightarrow> consumerCtx \<Rightarrow> ID \<Rightarrow> BlockType \<Rightarrow> CommonBlock \<Rightarrow> bytes \<Rightarrow> PvmBlocks" where
  "PvmBlocks_row lib w ctx blkID blkType blk blockBytes =
     \<lparr>PvmBlocks_ID = ID_String lib blkID,
      PvmBlocks_ChainID = pvmW_chainID w,
      PvmBlocks_Type = blkType,
      PvmBlocks_ParentID = ID_String lib (CommonBlock_Parent blk),
      PvmBlocks_Serialization = Some (if length blockBytes > MaxSerializationLen then [] else blockBytes),
      PvmBlocks_CreatedAt = cc_time ctx,
      PvmBlocks_Height = CommonBlock_Height blk\<rparr>"

definition indexCommonBlock :: "extlib \<Rightarrow> pvmWriter \<Rightarrow> (pcall \<Rightarrow> ('s, unit) go) \<Rightarrow> consumerCtx \<Rightarrow> ID \<Rightarrow> BlockType
    \<Rightarrow> CommonBlock \<Rightarrow> bytes \<Rightarrow> ('s, unit) go" where
  "indexCommonBlock lib w p ctx blkID blkType blk blockBytes =
     p (PInsertPvmBlocks (PvmBlocks_row lib w ctx blkID blkType blk blockBytes) (cc_upd ctx))"

text \<open>The error of \<open>initializeTx\<close>, and the transaction as the code after it sees it:
  \<open>tx.Initialize\<close> works through the pointer inside the copied \<open>tx\<close>.\<close>

definition initializeTx :: "pvmlib \<Rightarrow> u16 \<Rightarrow> PTx \<Rightarrow> (go_error + unit) \<times> PTx" where
  "initializeTx pl ver tx =
     (case pvm_MarshalUnsigned pl ver (PTx_UnsignedTx tx) of
        Inl err \<Rightarrow> (Inl err, tx)
      | Inr unsignedBytes \<Rightarrow>
          (case pvm_MarshalTx pl ver tx of
             Inl err \<Rightarrow> (Inl err, tx)
           | Inr signedBytes \<Rightarrow> (Inr (), pvm_Initialize pl tx unsignedBytes signedBytes)))"

definition PvmProposer_row :: "extlib \<Rightarrow> consumerCtx \<Rightarrow> ID \<Rightarrow> ID \<Rightarrow> proposer_block \<Rightarrow> PvmProposer" where
  "PvmProposer_row lib ctx blkID proposerBlkID pb =
     (case pb of
        SignedBlock i par blk h pr ts \<Rightarrow>
          \<lparr>PvmProposer_ID = ID_String lib i,
           PvmProposer_ParentID = ID_String lib par,
           PvmProposer_BlkID = ID_String lib blkID,
           PvmProposer_ProposerBlkID = ID_String lib proposerBlkID,
           PvmProposer_CoreChainHeight = h,
           PvmProposer_Proposer = ShortID_String lib pr,
           PvmProposer_TimeStamp = ts,
           PvmProposer_CreatedAt = cc_time ctx\<rparr>
      | UnsignedBlock i par blk \<Rightarrow>
          \<lparr>PvmProposer_ID = ID_String lib i,
           PvmProposer_ParentID = ID_String lib par,
           PvmProposer_BlkID = ID_String lib blkID,
           PvmProposer_ProposerBlkID = ID_String lib proposerBlkID,
           PvmProposer_CoreChainHeight = 0,
           PvmProposer_Proposer = [],
           PvmProposer_TimeStamp = cc_time ctx,
           PvmProposer_CreatedAt = cc_time ctx\<rparr>)"

text \<open>The handlers that the \<open>errs.Add\<close> of each case of the block's type runs.\<close>

definition block_handlers :: "extlib \<Rightarrow> pvmlib \<Rightarrow> pvmWriter \<Rightarrow> (pcall \<Rightarrow> ('s, unit) go) \<Rightarrow> consumerCtx \<Rightarrow> u16 \<Rightarrow> ID
    \<Rightarrow> bytes \<Rightarrow> platform_block \<Rightarrow> go_error + ('s, unit) go list" where
  "block_handlers lib pl w p ctx ver blkID blockBytes pblock =
     (case pblock of
        ProposalBlock cb tx \<Rightarrow>
          (let (err, tx') = initializeTx pl ver tx in
           Inr [go_lift err,
                indexCommonBlock lib w p ctx blkID BlockTypeProposal cb blockBytes,
                pvm_indexTransaction lib w p ctx blkID tx' False])
      | StandardBlock cb txs \<Rightarrow>
          Inr (indexCommonBlock lib w p ctx blkID BlockTypeStandard cb blockBytes
               # concat (map (\<lambda>tx. let (err, tx') = initializeTx pl ver tx in
                                    [go_lift err, pvm_indexTransaction lib w p ctx blkID tx' False]) txs))
      | AtomicBlock cb tx \<Rightarrow>
          (let (err, tx') = initializeTx pl ver tx in
           Inr [go_lift err,
                indexCommonBlock lib w p ctx blkID BlockTypeProposal cb blockBytes,
                pvm_indexTransaction lib w p ctx blkID tx' False])
      | AbortBlock cb \<Rightarrow> Inr [indexCommonBlock lib w p ctx blkID BlockTypeAbort cb blockBytes]
      | CommitBlock cb \<Rightarrow> Inr [indexCommonBlock lib w p ctx blkID BlockTypeCommit cb blockBytes]
      | OtherBlock name \<Rightarrow> Inl (ErrorString (''unknown type '' @ name)))"

text \<open>The two ways a block arrives: inside a proposer block, or bare.\<close>

definition pvm_parse :: "extlib \<Rightarrow> pvmlib \<Rightarrow> bytes \<Rightarrow> go_error + proposer_block option \<times> bytes \<times> u16 \<times> platform_block" where
  "pvm_parse lib pl proposerblockBytes =
     (case block_Parse pl proposerblockBytes of
        Inr pb \<Rightarrow>
          (case pvm_Unmarshal pl (proposer_Block pb) of
             Inl err \<Rightarrow> Inl (Propagate lib err ''proposer bytes'')
           | Inr (ver, pblock) \<Rightarrow> Inr (Some pb, proposer_Block pb, ver, pblock))
      | Inl _ \<Rightarrow>
          (case pvm_Unmarshal pl proposerblockBytes of
             Inl err \<Rightarrow> Inl (Propagate lib err ''block bytes'')
           | Inr (ver, pblock) \<Rightarrow> Inr (None, proposerblockBytes, ver, pblock)))"

definition pvm_indexBlock :: "extlib \<Rightarrow> pvmlib \<Rightarrow> pvmWriter \<Rightarrow> (pcall \<Rightarrow> ('s, unit) go) \<Rightarrow> consumerCtx \<Rightarrow> bytes
    \<Rightarrow> ('s, unit) go" where
  "pvm_indexBlock lib pl w p ctx proposerblockBytes =
     go_bind (go_lift (pvm_parse lib pl proposerblockBytes)) (\<lambda>(proposerBlock, blockBytes, ver, pblock).
     let blkID = ComputeHash256 lib blockBytes in
     go_then (case proposerBlock of None \<Rightarrow> go_return ()
              | Some pb \<Rightarrow> p (PInsertPvmProposer
                  (PvmProposer_row lib ctx blkID (ComputeHash256 lib proposerblockBytes) pb) (cc_upd ctx)))
     (case block_handlers lib pl w p ctx ver blkID blockBytes pblock of
        Inl err \<Rightarrow> go_raise err
      | Inr ms \<Rightarrow> go_errs lib None ms))"

section \<open>Consume and Bootstrap\<close>

definition pvm_Consume :: "extlib \<Rightarrow> pvmlib \<Rightarrow> pvmWriter \<Rightarrow> session \<Rightarrow> settings \<Rightarrow> consumable \<Rightarrow> (dbstate, unit) go" where
  "pvm_Consume lib pl w sess env c =
     with_tx sess (pvm_indexBlock lib pl w (persist_exec sess) (consumer_ctx env c) (consumable_Body c))"

definition pvm_ConsumeConsensus :: "consumable \<Rightarrow> (dbstate, unit) go" where
  "pvm_ConsumeConsensus c = go_return ()"

text \<open>\<open>ChainID\<close> is the zero id. The \<open>break\<close> under \<open>ctx.Done()\<close> leaves the \<open>select\<close> and not the
  loop, so a cancelled context changes nothing here.\<close>

definition pvm_ChainID :: ID where
  "pvm_ChainID = replicate 32 0"

definition pvm_index_genesis :: "extlib \<Rightarrow> pvmWriter \<Rightarrow> (pcall \<Rightarrow> ('s, unit) go) \<Rightarrow> consumerCtx \<Rightarrow> platformGenesis
    \<Rightarrow> ('s, unit) go" where
  "pvm_index_genesis lib w p cCtx g =
     go_then (go_for (\<lambda>(idx, utxo).
                go_then (ProcessStateOut lib (pvmW_axc w) p cCtx (UTXO_Out utxo) pvm_ChainID (word_of_nat idx)
                           (UTXO_AssetID utxo) 0 0 (pvmW_chainID w) False True) (go_return ()))
                (enumerate 0 (Genesis_UTXOs g)))
     (go_errs lib None (map (\<lambda>tx. pvm_indexTransaction lib w p cCtx pvm_ChainID tx True)
                          (Genesis_Validators g @ Genesis_Chains g)))"

definition pvm_Bootstrap :: "extlib \<Rightarrow> pvmlib \<Rightarrow> pvmWriter \<Rightarrow> (pcall \<Rightarrow> ('s, unit) go) \<Rightarrow> settings \<Rightarrow> ('s, unit) go" where
  "pvm_Bootstrap lib pl w p env =
     go_bind (go_lift (genesis_FromConfig pl (pvmW_networkID w))) (\<lambda>genesisBytes.
     go_bind (go_lift (genesis_Unmarshal pl genesisBytes)) (\<lambda>g.
     go_bind (go_lift (genesis_Initialize pl g)) (\<lambda>g.
     pvm_index_genesis lib w p
       (NewConsumerContext (sint (Genesis_Timestamp g)) 0 (set_now env) (set_upd env) (set_hrp env)) g)))"

section \<open>Every handler is its calls\<close>

lemma InsertTransactionValidator_traced [traced_intros]:
  "traced (ctx_calls ctx) p (InsertTransactionValidator lib p ctx t v) (InsertTransactionValidator lib record_call ctx t v)"
  unfolding InsertTransactionValidator_def by (intro traced_intros) simp

lemma InsertTransactionBlock_traced [traced_intros]:
  "traced (ctx_calls ctx) p (InsertTransactionBlock lib p ctx t b) (InsertTransactionBlock lib record_call ctx t b)"
  unfolding InsertTransactionBlock_def by (intro traced_intros) simp

lemma insertTransactionsRewardsOwners_traced [traced_intros]:
  "traced (ctx_calls ctx) p (insertTransactionsRewardsOwners lib w p ctx ro b s)
     (insertTransactionsRewardsOwners lib w record_call ctx ro b s)"
  unfolding insertTransactionsRewardsOwners_def by (intro traced_intros) simp_all

lemma pvm_insert_traced [traced_intros]:
  "traced (ctx_calls ctx) p (pvm_insert lib w p ctx tx b ty i o' g) (pvm_insert lib w record_call ctx tx b ty i o' g)"
  unfolding pvm_insert_def by (intro traced_intros)

lemma pvm_staker_traced [traced_intros]:
  "traced (ctx_calls ctx) p (pvm_staker lib w p ctx bi tx g b v s ro ty) (pvm_staker lib w record_call ctx bi tx g b v s ro ty)"
  unfolding pvm_staker_def by (intro traced_intros)

lemma pvm_indexTransaction_traced [traced_intros]:
  "traced (ctx_calls ctx) p (pvm_indexTransaction lib w p ctx b tx g) (pvm_indexTransaction lib w record_call ctx b tx g)"
  unfolding pvm_indexTransaction_def
  by (cases "PTx_UnsignedTx tx"; simp only: unsigned_ptx.case; intro traced_intros; simp)

lemma indexCommonBlock_traced [traced_intros]:
  "traced (ctx_calls ctx) p (indexCommonBlock lib w p ctx b ty cb bs) (indexCommonBlock lib w record_call ctx b ty cb bs)"
  unfolding indexCommonBlock_def by (intro traced_intros) simp

lemma block_handlers_traced:
  assumes "Errs_keep_first lib"
  shows "traced (ctx_calls ctx) p
     (case block_handlers lib pl w p ctx ver b bs blk of Inl e \<Rightarrow> go_raise e | Inr ms \<Rightarrow> go_errs lib None ms)
     (case block_handlers lib pl w record_call ctx ver b bs blk of Inl e \<Rightarrow> go_raise e | Inr ms \<Rightarrow> go_errs lib None ms)"
  by (cases blk)
    (auto simp: block_handlers_def split_beta Let_def list_all2_append list.rel_map
      intro!: traced_intros traced_errs [OF assms] list_all2_concat_map simp del: go_errs.simps)

lemma pvm_indexBlock_traced:
  assumes "Errs_keep_first lib"
  shows "traced (ctx_calls ctx) p (pvm_indexBlock lib pl w p ctx bs) (pvm_indexBlock lib pl w record_call ctx bs)"
  unfolding pvm_indexBlock_def
  by (intro traced_intros block_handlers_traced [OF assms]) simp_all

lemma pvm_index_genesis_traced:
  assumes "Errs_keep_first lib"
  shows "traced (ctx_calls ctx) p (pvm_index_genesis lib w p ctx g) (pvm_index_genesis lib w record_call ctx g)"
  unfolding pvm_index_genesis_def
  by (intro traced_intros traced_errs [OF assms]) (auto simp: list.rel_map intro!: list_all2_appendI list.rel_refl_strong traced_intros)

lemma pvm_Bootstrap_traced:
  assumes "Errs_keep_first lib"
  shows "traced (call_upd (set_upd env)) p (pvm_Bootstrap lib pl w p env) (pvm_Bootstrap lib pl w record_call env)"
proof -
  have "traced (call_upd (set_upd env)) p
      (pvm_index_genesis lib w p (NewConsumerContext ts ns (set_now env) (set_upd env) (set_hrp env)) g)
      (pvm_index_genesis lib w record_call (NewConsumerContext ts ns (set_now env) (set_upd env) (set_hrp env)) g)" for ts ns g
    using pvm_index_genesis_traced [OF assms, of "NewConsumerContext ts ns (set_now env) (set_upd env) (set_hrp env)"]
    by (simp add: NewConsumerContext_def)
  then show ?thesis unfolding pvm_Bootstrap_def by (intro traced_intros)
qed

section \<open>The rows of a block\<close>

definition block_row :: "pcall \<Rightarrow> PvmBlocks option" where
  "block_row c = (case c of PInsertPvmBlocks v _ \<Rightarrow> Some v | _ \<Rightarrow> None)"

definition txblock_row :: "pcall \<Rightarrow> TransactionsBlock option" where
  "txblock_row c = (case c of PInsertTransactionsBlock v _ \<Rightarrow> Some v | _ \<Rightarrow> None)"

definition reward_output_row :: "pcall \<Rightarrow> TransactionsRewardsOwnersOutputs option" where
  "reward_output_row c = (case c of PInsertTransactionsRewardsOwnersOutputs v _ \<Rightarrow> Some v | _ \<Rightarrow> None)"

lemmas pvm_row_defs = block_row_def txblock_row_def reward_output_row_def

lemma pvm_row_tables:
  "block_row c = Some v1 \<Longrightarrow> call_table c = TablePvmBlocks"
  "txblock_row c = Some v2 \<Longrightarrow> call_table c = TableTransactionsBlock"
  "reward_output_row c = Some v3 \<Longrightarrow> call_table c = TableTransactionsRewardsOwnersOutputs"
  by (simp_all add: pvm_row_defs split: pcall.splits) (simp_all add: call_table_def)

lemma axc_no_pvm_rows:
  assumes "axc_call ctx c"
  shows "block_row c = None" "txblock_row c = None" "reward_output_row c = None"
  using assms pvm_row_tables [of c]
  by (cases "block_row c"; cases "txblock_row c"; cases "reward_output_row c";
      simp add: axc_call_def part_tables_def)+

lemma pvm_insert_adds [adds_intros]:
  "adds block_row (pvm_insert lib w record_call ctx tx b ty i o' g) []"
  "adds txblock_row (pvm_insert lib w record_call ctx tx b ty i o' g) []"
  "adds reward_output_row (pvm_insert lib w record_call ctx tx b ty i o' g) []"
  unfolding pvm_insert_def
  by (rule adds_traced [OF InsertTransaction_axc]; simp add: axc_no_pvm_rows)+

text \<open>The transactions that are linked to their block: all but those of the validator set.\<close>

fun linked_tx :: "unsigned_ptx \<Rightarrow> BaseTx option" where
  "linked_tx (UnsignedAddValidatorTx b v s r) = Some b"
| "linked_tx (UnsignedAddSubnetValidatorTx b) = Some b"
| "linked_tx (UnsignedAddDelegatorTx b v s r) = Some b"
| "linked_tx (UnsignedCreateSubnetTx b) = Some b"
| "linked_tx (UnsignedCreateChainTx b) = Some b"
| "linked_tx (UnsignedImportTx b i c) = Some b"
| "linked_tx (UnsignedExportTx b e c) = Some b"
| "linked_tx _ = None"

definition link_rows :: "extlib \<Rightarrow> consumerCtx \<Rightarrow> ID \<Rightarrow> PTx \<Rightarrow> TransactionsBlock list" where
  "link_rows lib ctx blkID tx = (case linked_tx (PTx_UnsignedTx tx) of
     None \<Rightarrow> []
   | Some b \<Rightarrow> [\<lparr>TransactionsBlock_ID = ID_String lib (BaseTx_ID b),
                TransactionsBlock_TxBlockID = ID_String lib blkID,
                TransactionsBlock_CreatedAt = cc_time ctx\<rparr>])"

lemma insertTransactionsRewardsOwners_adds [adds_intros]:
  "adds block_row (insertTransactionsRewardsOwners lib w record_call ctx ro b s) []"
  "adds txblock_row (insertTransactionsRewardsOwners lib w record_call ctx ro b s) []"
  unfolding insertTransactionsRewardsOwners_def
  by (cases ro; simp only: verifiable.case; intro adds_intros adds_then_left; simp add: pvm_row_defs)+

lemma InsertTransactionBlock_link:
  "adds txblock_row (InsertTransactionBlock lib record_call ctx t b)
     [\<lparr>TransactionsBlock_ID = ID_String lib t, TransactionsBlock_TxBlockID = ID_String lib b,
       TransactionsBlock_CreatedAt = cc_time ctx\<rparr>]"
  unfolding InsertTransactionBlock_def by (rule adds_call_Some) (simp add: pvm_row_defs)

lemma InsertTransactionBlock_other [adds_intros]:
  "(\<And>v u. f (PInsertTransactionsBlock v u) = None) \<Longrightarrow> adds f (InsertTransactionBlock lib record_call ctx t b) []"
  unfolding InsertTransactionBlock_def by (rule adds_call_None) simp

lemma InsertTransactionValidator_other [adds_intros]:
  "(\<And>v u. f (PInsertTransactionsValidator v u) = None) \<Longrightarrow> adds f (InsertTransactionValidator lib record_call ctx t v) []"
  unfolding InsertTransactionValidator_def by (rule adds_call_None) simp

lemma pvm_staker_adds:
  "adds block_row (pvm_staker lib w record_call ctx bi tx g b v s ro ty) []"
  "adds txblock_row (pvm_staker lib w record_call ctx bi tx g b v s ro ty)
     [\<lparr>TransactionsBlock_ID = ID_String lib (BaseTx_ID b), TransactionsBlock_TxBlockID = ID_String lib bi,
       TransactionsBlock_CreatedAt = cc_time ctx\<rparr>]"
  unfolding pvm_staker_def
   apply (intro adds_then_left adds_intros; simp add: pvm_row_defs)
  apply (rule adds_then_left [OF InsertTransactionValidator_other], simp add: pvm_row_defs)
  apply (rule adds_then_right [OF InsertTransactionBlock_link])
  apply (intro adds_then_left adds_intros)
  done

lemma pvm_indexTransaction_adds:
  "adds block_row (pvm_indexTransaction lib w record_call ctx b tx g) []"
  "adds txblock_row (pvm_indexTransaction lib w record_call ctx b tx g) (link_rows lib ctx b tx)"
  unfolding pvm_indexTransaction_def link_rows_def
  by (cases "PTx_UnsignedTx tx"; simp only: unsigned_ptx.case linked_tx.simps option.case;
      (intro pvm_staker_adds adds_then_right [OF InsertTransactionBlock_link] adds_then_left adds_intros)?;
      simp add: pvm_row_defs)+

text \<open>The type a block is stored under, its common part, and its transactions as indexed.\<close>

fun written_block :: "platform_block \<Rightarrow> (BlockType \<times> CommonBlock) option" where
  "written_block (ProposalBlock cb tx) = Some (BlockTypeProposal, cb)"
| "written_block (StandardBlock cb txs) = Some (BlockTypeStandard, cb)"
| "written_block (AtomicBlock cb tx) = Some (BlockTypeProposal, cb)"
| "written_block (AbortBlock cb) = Some (BlockTypeAbort, cb)"
| "written_block (CommitBlock cb) = Some (BlockTypeCommit, cb)"
| "written_block (OtherBlock n) = None"

fun indexed_txs :: "pvmlib \<Rightarrow> u16 \<Rightarrow> platform_block \<Rightarrow> PTx list" where
  "indexed_txs pl ver (ProposalBlock cb tx) = [snd (initializeTx pl ver tx)]"
| "indexed_txs pl ver (StandardBlock cb txs) = map (\<lambda>tx. snd (initializeTx pl ver tx)) txs"
| "indexed_txs pl ver (AtomicBlock cb tx) = [snd (initializeTx pl ver tx)]"
| "indexed_txs pl ver _ = []"

lemma indexCommonBlock_adds:
  "adds block_row (indexCommonBlock lib w record_call ctx b ty cb bs) [PvmBlocks_row lib w ctx b ty cb bs]"
  "adds txblock_row (indexCommonBlock lib w record_call ctx b ty cb bs) []"
  unfolding indexCommonBlock_def
  by (rule adds_call_Some adds_call_None; simp add: pvm_row_defs)+

lemma block_handlers_Inr:
  "block_handlers lib pl w p ctx ver b bs blk = Inr ms \<Longrightarrow> \<exists>ty cb. written_block blk = Some (ty, cb)"
  by (cases blk) (auto simp: block_handlers_def)

lemma list_all2_concat_pairs:
  assumes "\<And>x. x \<in> set xs \<Longrightarrow> adds f (m x) (h x)"
  shows "list_all2 (adds f) (concat (map (\<lambda>x. [go_lift (e x), m x]) xs)) (concat (map (\<lambda>x. [[], h x]) xs))"
  using assms by (intro list_all2_concat_map) (simp add: adds_lift)

lemma concat_pairs: "concat (concat (map (\<lambda>x. [[], h x]) xs)) = concat (map h xs)"
  by (induction xs) simp_all

lemma block_handlers_adds_gen:
  assumes lib: "Errs_keep_first lib" and ms: "block_handlers lib pl w record_call ctx ver b bs blk = Inr ms"
    and wb: "written_block blk = Some (ty, cb)"
    and blk: "adds f (indexCommonBlock lib w record_call ctx b ty cb bs) r0"
    and tx: "\<And>tx. adds f (pvm_indexTransaction lib w record_call ctx b tx False) (h tx)"
  shows "adds f (go_errs lib None ms) (r0 @ concat (map h (indexed_txs pl ver blk)))"
proof -
  let ?tx = "\<lambda>tx. snd (initializeTx pl ver tx)"
  have one: "adds f (go_errs lib None [go_lift e, indexCommonBlock lib w record_call ctx b ty cb bs,
      pvm_indexTransaction lib w record_call ctx b t False]) (r0 @ h t)" for e t
    using adds_errs [OF lib, of f _ "[[], r0, h t]" None] blk tx by (simp add: adds_lift del: go_errs.simps)
  have none: "adds f (go_errs lib None [indexCommonBlock lib w record_call ctx b ty cb bs]) r0"
    using adds_errs [OF lib, of f _ "[r0]" None] blk by (simp del: go_errs.simps)
  have "list_all2 (adds f) (indexCommonBlock lib w record_call ctx b ty cb bs
        # concat (map (\<lambda>tx. [go_lift (fst (initializeTx pl ver tx)),
            pvm_indexTransaction lib w record_call ctx b (?tx tx) False]) txs))
      (r0 # concat (map (\<lambda>tx. [[], h (?tx tx)]) txs))" for txs
    using blk tx by (simp add: list_all2_concat_pairs)
  note many = adds_errs [OF lib this, of None, unfolded concat.simps concat_pairs]
  from ms wb one none many show ?thesis
    by (cases blk) (auto simp: block_handlers_def split_beta Let_def comp_def simp del: go_errs.simps)
qed

lemmas block_handlers_adds =
  block_handlers_adds_gen [OF _ _ _ indexCommonBlock_adds(1) pvm_indexTransaction_adds(1)]
  block_handlers_adds_gen [OF _ _ _ indexCommonBlock_adds(2) pvm_indexTransaction_adds(2)]

lemma pvm_indexBlock_Inr:
  assumes "pvm_parse lib pl bs = Inr (pb, bb, ver, blk)"
    and "pvm_indexBlock lib pl w p ctx bs s = (Inr (), s')"
  obtains s1 ms where "block_handlers lib pl w p ctx ver (ComputeHash256 lib bb) bb blk = Inr ms"
    "(case pb of None \<Rightarrow> go_return () | Some pb \<Rightarrow> p (PInsertPvmProposer
        (PvmProposer_row lib ctx (ComputeHash256 lib bb) (ComputeHash256 lib bs) pb) (cc_upd ctx))) s = (Inr (), s1)"
    "go_errs lib None ms s1 = (Inr (), s')"
  using assms unfolding pvm_indexBlock_def Let_def
  by (auto simp: go_lift_Inr go_raise_run elim!: go_bind_Inr go_then_Inr split: sum.splits simp del: go_errs.simps)

section \<open>Rewards\<close>

lemma rewards_outputs_adds:
  "adds reward_output_row (insertTransactionsRewardsOwners lib w record_call ctx (OwnersVerifiable ow) b s)
     (map (rewards_output_row lib ctx b) [length (BaseTx_Outs b) + length s, length (BaseTx_Outs b) + length s + 1])"
proof -
  let ?n = "length (BaseTx_Outs b) + length s"
  have "adds reward_output_row (go_for (\<lambda>i. record_call (PInsertTransactionsRewardsOwnersOutputs
      (rewards_output_row lib ctx b i) (cc_upd ctx))) [?n..<?n + 2])
    (concat (map (\<lambda>i. [rewards_output_row lib ctx b i]) [?n..<?n + 2]))"
    by (rule adds_for_concat, rule adds_call_Some) (simp add: pvm_row_defs)
  moreover have "[?n..<?n + 2] = [?n, ?n + 1]" by (simp add: upt_conv_Cons numeral_2_eq_2)
  ultimately show ?thesis
    unfolding insertTransactionsRewardsOwners_def
    by (simp only: verifiable.case Let_def, intro adds_then_left adds_then_right adds_for adds_call_None)
      (simp_all add: pvm_row_defs)
qed

lemma rewards_no_output:
  "adds output_row (insertTransactionsRewardsOwners lib w record_call ctx ro b s) []"
  unfolding insertTransactionsRewardsOwners_def
  by (cases ro; simp only: verifiable.case; intro adds_intros adds_then_left; simp add: row_defs)

lemma pvm_staker_rewards:
  assumes "pvm_staker lib w record_call ctx bi tx g b v st (Some (OwnersVerifiable ow)) ty [] = (Inr (), cs)"
    and n: "n = length (BaseTx_Outs b) + length st"
  shows "List.map_filter reward_output_row cs = [rewards_output_row lib ctx b n, rewards_output_row lib ctx b (n + 1)]"
    and "length (List.map_filter output_row cs) = n"
proof -
  from assms(1) obtain c1 c2 c3 where
    r1: "InsertTransactionValidator lib record_call ctx (BaseTx_ID b) v [] = (Inr (), c1)"
    and r2: "InsertTransactionBlock lib record_call ctx (BaseTx_ID b) bi c1 = (Inr (), c2)"
    and r3: "insertTransactionsRewardsOwners lib w record_call ctx (OwnersVerifiable ow) b st c2 = (Inr (), c3)"
    and r4: "pvm_insert lib w record_call ctx tx b ty None
       (Some \<lparr>AddOuts_Outs = st, AddOuts_Stake = True, AddOuts_ChainID = pvmW_chainID w\<rparr>) g c3 = (Inr (), cs)"
    unfolding pvm_staker_def by (auto elim!: go_then_Inr)
  note other = addsD [OF InsertTransactionValidator_other r1] addsD [OF InsertTransactionBlock_other r2]
  have "List.map_filter reward_output_row c2 = []" "List.map_filter output_row c2 = []"
    using other(1) [of reward_output_row] other(2) [of reward_output_row] other(1) [of output_row] other(2) [of output_row]
    by (simp_all add: pvm_row_defs row_defs List.map_filter_def)
  moreover note addsD [OF rewards_outputs_adds r3] addsD [OF rewards_no_output r3] addsD [OF pvm_insert_adds(3) r4]
  moreover have "List.map_filter output_row cs = List.map_filter output_row c3 @ tx_output_rows lib ctx (pvmW_axc w) b
        (Some \<lparr>AddOuts_Outs = st, AddOuts_Stake = True, AddOuts_ChainID = pvmW_chainID w\<rparr>)"
    using r4 unfolding pvm_insert_def by (rule addsD [OF InsertTransaction_adds(1)])
  ultimately show "List.map_filter reward_output_row cs = [rewards_output_row lib ctx b n, rewards_output_row lib ctx b (n + 1)]"
    and "length (List.map_filter output_row cs) = n"
    using n by (simp_all add: tx_output_rows_def)
qed

section \<open>A sample block\<close>

definition sample_ptx :: PTx where
  "sample_ptx = \<lparr>PTx_UnsignedTx = UnsignedAddDelegatorTx sample_tx
       \<lparr>Validator_NodeID = [78], Validator_Start = 1, Validator_End = 2\<rparr> [sample_out 2]
       (Some (OwnersVerifiable sample_owners)),
     PTx_Creds = [], PTx_Bytes = Some [1], PTx_UnsignedBytes = [2]\<rparr>"

definition sample_block :: platform_block where
  "sample_block = AtomicBlock \<lparr>CommonBlock_Parent = [80], CommonBlock_Height = 7\<rparr> sample_ptx"

definition sample_pvmlib :: pvmlib where
  "sample_pvmlib = \<lparr>
     block_Parse = (\<lambda>b. Inl EOF),
     pvm_Unmarshal = (\<lambda>b. if b = [66] then Inr (0, sample_block) else Inl EOF),
     pvm_MarshalUnsigned = (\<lambda>ver tx. Inr [2]),
     pvm_MarshalTx = (\<lambda>ver tx. Inr [1]),
     pvm_Initialize = (\<lambda>tx u s. tx),
     genesis_FromConfig = (\<lambda>n. Inl EOF),
     genesis_Unmarshal = (\<lambda>b. Inl EOF),
     genesis_Initialize = Inr\<rparr>"

definition sample_pvm :: pvmWriter where
  "sample_pvm = pvm_NewWriter 1 ''chain'' [9]"

lemmas sample_pvm_defs = sample_ptx_def sample_block_def sample_pvmlib_def sample_pvm_def pvm_NewWriter_def
  pvm_indexBlock_def pvm_parse_def block_handlers_def initializeTx_def indexCommonBlock_def
  pvm_indexTransaction_def pvm_staker_def pvm_insert_def InsertTransactionValidator_def
  InsertTransactionBlock_def insertTransactionsRewardsOwners_def

lemma sample_block_outcome:
  "outcome (pvm_indexBlock sample_lib sample_pvmlib sample_pvm record_call sample_ctx [66]) = Inr ()"
  by (simp add: outcome_def sample_pvm_defs axc_defs sample_defs record_call_def go_simps)

lemma sample_pvm_run:
  "\<exists>d'. pvm_Consume sample_lib sample_pvmlib sample_pvm ideal sample_env (sample_msg [66]) empty_db = (Inr (), d')"
proof -
  have "traced (call_upd False) (persist_exec ideal)
      (pvm_indexBlock sample_lib sample_pvmlib sample_pvm (persist_exec ideal) sample_ctx [66])
      (pvm_indexBlock sample_lib sample_pvmlib sample_pvm record_call sample_ctx [66])"
    using pvm_indexBlock_traced [OF sample_lib_Errs, of sample_ctx] by simp
  from ideal_tx_handler [OF this, of empty_db] show ?thesis
    by (auto simp: pvm_Consume_def sample_msg_ctx sample_block_outcome)
qed

section \<open>Properties\<close>



text \<open>C5. What indexing a block of the platform chain writes, when it succeeds: exactly one
  row for the block, under the hash of its bytes, with its parent, height and type; and one row
  for every transaction of the block other than time and reward transactions, which links it
  to that block. A block that moves assets between chains (an atomic block) is stored under the
  type of a proposal block.\<close>

theorem pvm_indexBlock_rows:
  assumes "Errs_keep_first lib"
    and "pvm_parse lib pl bs = Inr (pb, bb, ver, blk)"
    and "outcome (pvm_indexBlock lib pl w record_call ctx bs) = Inr ()"
    and "cs = trace (pvm_indexBlock lib pl w record_call ctx bs)"
  shows "\<exists>ty cb. written_block blk = Some (ty, cb)
    \<and> List.map_filter block_row cs = [PvmBlocks_row lib w ctx (ComputeHash256 lib bb) ty cb bb]
    \<and> List.map_filter txblock_row cs
      = concat (map (link_rows lib ctx (ComputeHash256 lib bb)) (indexed_txs pl ver blk))"
proof -
  have "pvm_indexBlock lib pl w record_call ctx bs [] = (Inr (), cs)"
    using assms(3,4) by (simp add: outcome_def trace_def prod_eq_iff)
  then obtain cs1 ms where ms: "block_handlers lib pl w record_call ctx ver (ComputeHash256 lib bb) bb blk = Inr ms"
    and pb: "(case pb of None \<Rightarrow> go_return () | Some pb \<Rightarrow> record_call (PInsertPvmProposer
        (PvmProposer_row lib ctx (ComputeHash256 lib bb) (ComputeHash256 lib bs) pb) (cc_upd ctx))) [] = (Inr (), cs1)"
    and run: "go_errs lib None ms cs1 = (Inr (), cs)"
    by (rule pvm_indexBlock_Inr [OF assms(2)])
  obtain ty cb where wb: "written_block blk = Some (ty, cb)" using block_handlers_Inr [OF ms] by blast
  have "List.map_filter block_row cs1 = []" "List.map_filter txblock_row cs1 = []"
    using pb by (cases pb; auto simp: go_simps record_call_def List.map_filter_def pvm_row_defs)+
  with addsD [OF block_handlers_adds(1) [OF assms(1) ms wb] run] addsD [OF block_handlers_adds(2) [OF assms(1) ms wb] run] wb
  show ?thesis by simp
qed

theorem pvm_indexBlock_rows_witness:
  "List.map_filter block_row (trace (pvm_indexBlock sample_lib sample_pvmlib sample_pvm record_call sample_ctx [66]))
     = [PvmBlocks_row sample_lib sample_pvm sample_ctx [66] BlockTypeProposal
          \<lparr>CommonBlock_Parent = [80], CommonBlock_Height = 7\<rparr> [66]]
   \<and> length (List.map_filter txblock_row (trace (pvm_indexBlock sample_lib sample_pvmlib sample_pvm record_call sample_ctx [66]))) = 1"
proof -
  have "pvm_parse sample_lib sample_pvmlib [66] = Inr (None, [66], 0, sample_block)"
    by (simp add: pvm_parse_def sample_pvmlib_def)
  from pvm_indexBlock_rows [OF sample_lib_Errs this sample_block_outcome refl] show ?thesis
    by (auto simp: sample_block_def sample_lib_def link_rows_def initializeTx_def sample_pvmlib_def sample_ptx_def)
qed

text \<open>The outputs that are set aside for the reward of a validator or delegator are the two
  directly behind the outputs that its transaction writes, so a reward output never has the
  number (and hence the id) of an output of the transaction.\<close>

theorem pvm_reward_positions:
  assumes "PTx_UnsignedTx tx = UnsignedAddValidatorTx b v stake (Some (OwnersVerifiable owner))
      \<or> PTx_UnsignedTx tx = UnsignedAddDelegatorTx b v stake (Some (OwnersVerifiable owner))"
    and "outcome (pvm_indexTransaction lib w record_call ctx blkID tx g) = Inr ()"
    and "cs = trace (pvm_indexTransaction lib w record_call ctx blkID tx g)"
  shows "List.map_filter reward_output_row cs
      = [rewards_output_row lib ctx b (length (List.map_filter output_row cs)),
         rewards_output_row lib ctx b (length (List.map_filter output_row cs) + 1)]"
proof -
  from assms(1) obtain ty where "pvm_indexTransaction lib w record_call ctx blkID tx g
      = pvm_staker lib w record_call ctx blkID tx g b v stake (Some (OwnersVerifiable owner)) ty"
    by (auto simp: pvm_indexTransaction_def)
  with assms(2,3) have "pvm_staker lib w record_call ctx blkID tx g b v stake (Some (OwnersVerifiable owner)) ty [] = (Inr (), cs)"
    by (simp add: outcome_def trace_def prod_eq_iff)
  from pvm_staker_rewards [OF this refl] show ?thesis by simp
qed

theorem pvm_reward_positions_witness:
  "map TransactionsRewardsOwnersOutputs_OutputIndex (List.map_filter reward_output_row
     (trace (pvm_indexTransaction sample_lib sample_pvm record_call sample_ctx [66] sample_ptx False))) = [2, 3]"
proof -
  let ?m = "pvm_indexTransaction sample_lib sample_pvm record_call sample_ctx [66] sample_ptx False"
  have run: "outcome ?m = Inr ()"
    by (simp add: outcome_def sample_pvm_defs axc_defs sample_defs record_call_def go_simps)
  have "length (List.map_filter output_row (trace ?m)) = 2"
    by (simp add: trace_def sample_pvm_defs axc_defs sample_defs record_call_def go_simps List.map_filter_def row_defs)
  then show ?thesis
    using pvm_reward_positions [OF disjI2 run refl]
    by (simp add: sample_ptx_def rewards_output_row_def)
qed

end
