(* ===== verification/AvmWriter.thy ===== *)
theory AvmWriter
  imports AxcWriter
begin

text \<open>
  The writer of the asset chain, \<open>src/services/indexes/avm/writer.go\<close> and \<open>parser.go\<close>. The
  codec and the vertex parser are fields of \<open>avmlib\<close>. The sizes of assets and the numbering of
  outputs across the two passes over \<open>tx.Outs\<close> are what the lemmas are about.
\<close>

section \<open>Transactions\<close>

record Operation =
  Operation_AssetID :: ID
  Operation_UTXOIDs :: "(ID \<times> u32) list"
  Operation_Outs :: "state_out list"

record CreateAssetTx =
  CreateAssetTx_BaseTx :: BaseTx
  CreateAssetTx_Name :: string
  CreateAssetTx_Symbol :: string
  CreateAssetTx_Denomination :: u8
  CreateAssetTx_States :: "state_out list list"
  CreateAssetTx_UnsignedBytes :: bytes

datatype unsigned_atx =
    ACreateAssetTx CreateAssetTx
  | AOperationTx BaseTx "Operation list" bytes
  | AImportTx BaseTx "TransferableInput list" ID
  | AExportTx BaseTx "TransferableOutput list" ID
  | ABaseTx BaseTx
  | OtherATx string

record ATx =
  ATx_UnsignedTx :: unsigned_atx
  ATx_Creds :: "verifiable list"
  ATx_UnsignedBytes :: bytes

record GenesisAsset =
  GenesisAsset_Alias :: string
  GenesisAsset_Tx :: CreateAssetTx

record vertex =
  vertex_ID :: ID
  vertex_Epoch :: u32
  vertex_Txs :: "bytes list"

text \<open>A chain of the platform genesis: \<open>None\<close> when its transaction does not create a chain,
  otherwise whether its VM is the asset chain's, and the genesis data.\<close>

type_synonym genesis_chain = "(bool \<times> bytes) option"

record avmlib =
  avm_Unmarshal :: "bytes \<Rightarrow> go_error + u16 \<times> ATx"
  avm_MarshalUnsigned :: "u16 \<Rightarrow> unsigned_atx \<Rightarrow> go_error + bytes"
  avm_InitializeTx :: "ATx \<Rightarrow> bytes \<Rightarrow> bytes \<Rightarrow> ATx"
  avm_UnmarshalGenesis :: "bytes \<Rightarrow> go_error + u16 \<times> GenesisAsset list"
  avm_MarshalTx :: "u16 \<Rightarrow> CreateAssetTx \<Rightarrow> go_error + bytes"
  avm_MarshalCreateAsset :: "u16 \<Rightarrow> CreateAssetTx \<Rightarrow> go_error + bytes"
  avm_Initialize :: "CreateAssetTx \<Rightarrow> bytes \<Rightarrow> bytes \<Rightarrow> CreateAssetTx"
  vertex_Parse :: "bytes \<Rightarrow> go_error + vertex"
  avm_FromConfig :: "u32 \<Rightarrow> go_error + bytes"
  avm_PlatformGenesis :: "bytes \<Rightarrow> go_error + u64 \<times> genesis_chain list"
  avm_InitializeGenesis :: "u64 \<times> genesis_chain list \<Rightarrow> go_error + u64 \<times> genesis_chain list"

record avmWriter =
  avmW_chainID :: string
  avmW_networkID :: u32
  avmW_axc :: axcWriter

definition avm_NewWriter :: "u32 \<Rightarrow> string \<Rightarrow> ID \<Rightarrow> avmWriter" where
  "avm_NewWriter networkID chainID axcAssetID =
     \<lparr>avmW_chainID = chainID, avmW_networkID = networkID, avmW_axc = axc_NewWriter chainID axcAssetID\<rparr>"

section \<open>Operations and assets\<close>

text \<open>The first pass over \<open>tx.Outs\<close>: each output is written under its number, and only the
  number of outputs is kept.\<close>

definition count_outs :: "extlib \<Rightarrow> avmWriter \<Rightarrow> (pcall \<Rightarrow> ('s, unit) go) \<Rightarrow> consumerCtx \<Rightarrow> BaseTx \<Rightarrow> ('s, u32) go" where
  "count_outs lib w p ctx tx =
     go_fold (\<lambda>out outputCount.
         go_then (InsertTransactionOuts lib (avmW_axc w) p outputCount ctx 0 out (BaseTx_ID tx) (avmW_chainID w) False False)
           (go_return (outputCount + 1)))
       (BaseTx_Outs tx) 0"

text \<open>The loop over the outputs of the operations or states: the number of outputs, the amount
  and the total of the fee asset.\<close>

definition state_outs :: "extlib \<Rightarrow> avmWriter \<Rightarrow> (pcall \<Rightarrow> ('s, unit) go) \<Rightarrow> consumerCtx \<Rightarrow> ID \<Rightarrow> ID \<Rightarrow> state_out list
    \<Rightarrow> u32 \<times> u64 \<times> u64 \<Rightarrow> ('s, u32 \<times> u64 \<times> u64) go" where
  "state_outs lib w p ctx txID assetID =
     go_fold (\<lambda>out (outputCount, amount, totalout).
       go_bind (ProcessStateOut lib (avmW_axc w) p ctx out txID outputCount assetID amount totalout (avmW_chainID w) False False)
         (\<lambda>(amount, totalout). go_return (outputCount + 1, amount, totalout)))"

text \<open>The inputs that the operations of a transaction consume, without an amount.\<close>

definition op_inputs :: "Operation \<Rightarrow> TransferableInput list" where
  "op_inputs op = map (\<lambda>(txID, idx). \<lparr>TransferableInput_TxID = txID, TransferableInput_OutputIndex = idx,
       TransferableInput_AssetID = Operation_AssetID op, TransferableInput_Amount = 0\<rparr>) (Operation_UTXOIDs op)"

definition insertOperationTx :: "extlib \<Rightarrow> avmWriter \<Rightarrow> (pcall \<Rightarrow> ('s, unit) go) \<Rightarrow> consumerCtx \<Rightarrow> bytes \<Rightarrow> BaseTx
    \<Rightarrow> Operation list \<Rightarrow> bytes \<Rightarrow> verifiable list \<Rightarrow> bool \<Rightarrow> ('s, unit) go" where
  "insertOperationTx lib w p ctx txBytes tx ops unsignedBytes creds genesis =
     go_bind (count_outs lib w p ctx tx) (\<lambda>outputCount.
     go_bind (go_fold (\<lambda>op. state_outs lib w p ctx (BaseTx_ID tx) (Operation_AssetID op) (Operation_Outs op))
                ops (outputCount, 0, 0)) (\<lambda>(outputCount, amount, totalout).
     InsertTransaction lib (avmW_axc w) p ctx (Some txBytes) unsignedBytes tx creds TransactionTypeOperation
       (Some \<lparr>AddIns_Ins = concat (map op_inputs ops), AddIns_ChainID = avmW_chainID w\<rparr>) None totalout genesis))"

definition Assets_row :: "extlib \<Rightarrow> avmWriter \<Rightarrow> consumerCtx \<Rightarrow> CreateAssetTx \<Rightarrow> string \<Rightarrow> u64 \<Rightarrow> Assets" where
  "Assets_row lib w ctx tx al amount =
     \<lparr>Assets_ID = ID_String lib (BaseTx_ID (CreateAssetTx_BaseTx tx)),
      Assets_ChainID = avmW_chainID w,
      Assets_Name = CreateAssetTx_Name tx,
      Assets_Symbol = CreateAssetTx_Symbol tx,
      Assets_Denomination = CreateAssetTx_Denomination tx,
      Assets_Alias = al,
      Assets_CurrentSupply = amount,
      Assets_CreatedAt = cc_time ctx\<rparr>"

definition insertCreateAssetTx :: "extlib \<Rightarrow> avmWriter \<Rightarrow> (pcall \<Rightarrow> ('s, unit) go) \<Rightarrow> consumerCtx \<Rightarrow> bytes
    \<Rightarrow> CreateAssetTx \<Rightarrow> verifiable list \<Rightarrow> string \<Rightarrow> bool \<Rightarrow> ('s, unit) go" where
  "insertCreateAssetTx lib w p ctx txBytes tx creds al genesis =
     (let base = CreateAssetTx_BaseTx tx in
     go_bind (count_outs lib w p ctx base) (\<lambda>outputCount.
     go_bind (go_fold (state_outs lib w p ctx (BaseTx_ID base) (BaseTx_ID base))
                (CreateAssetTx_States tx) (outputCount, 0, 0)) (\<lambda>(outputCount, amount, totalout).
     go_then (p (PInsertAssets (Assets_row lib w ctx tx al amount) (cc_upd ctx)))
    (InsertTransaction lib (avmW_axc w) p ctx (Some txBytes) (CreateAssetTx_UnsignedBytes tx) base creds
       TransactionTypeCreateAsset None None totalout genesis))))"

section \<open>insertTx\<close>

definition parseTx :: "avmlib \<Rightarrow> bytes \<Rightarrow> go_error + ATx" where
  "parseTx al bs =
     (case avm_Unmarshal al bs of
        Inl err \<Rightarrow> Inl err
      | Inr (ver, tx) \<Rightarrow>
          (case avm_MarshalUnsigned al ver (ATx_UnsignedTx tx) of
             Inl err \<Rightarrow> Inl err
           | Inr unsignedBytes \<Rightarrow> Inr (avm_InitializeTx al tx unsignedBytes bs)))"

definition insertTxInternal :: "extlib \<Rightarrow> avmWriter \<Rightarrow> (pcall \<Rightarrow> ('s, unit) go) \<Rightarrow> consumerCtx \<Rightarrow> ATx \<Rightarrow> bytes \<Rightarrow> ('s, unit) go" where
  "insertTxInternal lib w p ctx tx txBytes =
     (case ATx_UnsignedTx tx of
        ACreateAssetTx c \<Rightarrow> insertCreateAssetTx lib w p ctx txBytes c (ATx_Creds tx) [] False
      | AOperationTx base ops ub \<Rightarrow> insertOperationTx lib w p ctx txBytes base ops ub (ATx_Creds tx) False
      | AImportTx base ins sourceChain \<Rightarrow>
          InsertTransaction lib (avmW_axc w) p ctx (Some txBytes) (ATx_UnsignedBytes tx) base (ATx_Creds tx)
            TransactionTypeAVMImport (Some \<lparr>AddIns_Ins = ins, AddIns_ChainID = ID_String lib sourceChain\<rparr>) None 0 False
      | AExportTx base outs destinationChain \<Rightarrow>
          InsertTransaction lib (avmW_axc w) p ctx (Some txBytes) (ATx_UnsignedBytes tx) base (ATx_Creds tx)
            TransactionTypeAVMExport None
            (Some \<lparr>AddOuts_Outs = outs, AddOuts_Stake = False, AddOuts_ChainID = ID_String lib destinationChain\<rparr>) 0 False
      | ABaseTx base \<Rightarrow>
          InsertTransaction lib (avmW_axc w) p ctx (Some txBytes) (ATx_UnsignedBytes tx) base (ATx_Creds tx)
            TransactionTypeBase None None 0 False
      | OtherATx name \<Rightarrow> go_raise (ErrorString (''unknown tx type '' @ name)))"

definition insertTx :: "extlib \<Rightarrow> avmlib \<Rightarrow> avmWriter \<Rightarrow> (pcall \<Rightarrow> ('s, unit) go) \<Rightarrow> consumerCtx \<Rightarrow> bytes \<Rightarrow> ('s, unit) go" where
  "insertTx lib al w p ctx txBytes =
     go_bind (go_lift (parseTx al txBytes)) (\<lambda>tx. insertTxInternal lib w p ctx tx txBytes)"

definition insertGenesis :: "extlib \<Rightarrow> avmlib \<Rightarrow> avmWriter \<Rightarrow> (pcall \<Rightarrow> ('s, unit) go) \<Rightarrow> consumerCtx \<Rightarrow> bytes \<Rightarrow> ('s, unit) go" where
  "insertGenesis lib al w p ctx genesisBytes =
     (case avm_UnmarshalGenesis al genesisBytes of
        Inl err \<Rightarrow> go_raise (Propagate lib err ''Failed to parse avm genesis bytes'')
      | Inr (ver, txs) \<Rightarrow>
          go_for (\<lambda>(i, tx).
            case avm_MarshalTx al ver (GenesisAsset_Tx tx) of
              Inl err \<Rightarrow> go_raise (Propagate lib err (''Failed to serialize wrapped avm genesis tx '' @ Itoa (int i)))
            | Inr txBytes \<Rightarrow>
                go_bind (go_lift (avm_MarshalCreateAsset al ver (GenesisAsset_Tx tx))) (\<lambda>unsignedBytes. (\<lambda>s.
                case insertCreateAssetTx lib w p ctx txBytes (avm_Initialize al (GenesisAsset_Tx tx) unsignedBytes txBytes)
                       [] (GenesisAsset_Alias tx) True s of
                  (Inl err, s') \<Rightarrow> (Inl (Propagate lib err (''Failed to index avm genesis tx '' @ Itoa (int i))), s')
                | (Inr u, s') \<Rightarrow> (Inr (), s'))))
            (enumerate 0 txs))"

section \<open>Consume, ConsumeConsensus and Bootstrap\<close>

definition avm_Consume :: "extlib \<Rightarrow> avmlib \<Rightarrow> avmWriter \<Rightarrow> session \<Rightarrow> settings \<Rightarrow> consumable \<Rightarrow> (dbstate, unit) go" where
  "avm_Consume lib al w sess env c =
     with_tx sess (insertTx lib al w (persist_exec sess) (consumer_ctx env c) (consumable_Body c))"

definition epoch_rows :: "extlib \<Rightarrow> (pcall \<Rightarrow> ('s, unit) go) \<Rightarrow> consumerCtx \<Rightarrow> vertex \<Rightarrow> ('s, unit) go" where
  "epoch_rows lib p ctx vert =
     go_for (\<lambda>tx.
       go_bind (go_lift (ToID lib (ComputeHash256 lib tx))) (\<lambda>txID.
       p (PInsertTransactionsEpoch
            \<lparr>TransactionsEpoch_ID = ID_String lib txID,
             TransactionsEpoch_Epoch = vertex_Epoch vert,
             TransactionsEpoch_VertexID = ID_String lib (vertex_ID vert),
             TransactionsEpoch_CreatedAt = cc_time ctx\<rparr> (cc_upd ctx))))
       (vertex_Txs vert)"

definition avm_ConsumeConsensus :: "extlib \<Rightarrow> avmlib \<Rightarrow> session \<Rightarrow> settings \<Rightarrow> consumable \<Rightarrow> (dbstate, unit) go" where
  "avm_ConsumeConsensus lib al sess env c =
     go_bind (go_lift (vertex_Parse al (consumable_Body c))) (\<lambda>vert.
       with_tx sess (epoch_rows lib (persist_exec sess) (consumer_ctx env c) vert))"

definition avm_Bootstrap :: "extlib \<Rightarrow> avmlib \<Rightarrow> avmWriter \<Rightarrow> (pcall \<Rightarrow> ('s, unit) go) \<Rightarrow> settings \<Rightarrow> ('s, unit) go" where
  "avm_Bootstrap lib al w p env =
     (case avm_FromConfig al (avmW_networkID w) of
        Inl err \<Rightarrow> go_raise (Propagate lib err ''Failed to get platform genesis bytes'')
      | Inr gb \<Rightarrow>
     (case avm_PlatformGenesis al gb of
        Inl err \<Rightarrow> go_raise (Propagate lib err ''Failed to parse platform genesis bytes'')
      | Inr pg \<Rightarrow>
     (case avm_InitializeGenesis al pg of
        Inl err \<Rightarrow> go_raise (Propagate lib err ''Failed to initialize platform genesis'')
      | Inr (timestamp, gchains) \<Rightarrow>
          go_for (\<lambda>chain.
            case chain of
              None \<Rightarrow> go_raise (Propagate lib (ErrorString ''incorrect genesis chain tx type'')
                        ''Platform genesis contains invalid Chains'')
            | Some (isAVM, genesisData) \<Rightarrow>
                if \<not> isAVM then go_return ()
                else insertGenesis lib al w p
                  (NewConsumerContext (sint timestamp) 0 (set_now env) (set_upd env) (set_hrp env)) genesisData)
            gchains)))"

section \<open>Every handler is its calls\<close>

lemma count_outs_traced [traced_intros]:
  "traced (ctx_calls ctx) p (count_outs lib w p ctx tx) (count_outs lib w record_call ctx tx)"
  unfolding count_outs_def by (intro traced_intros)

lemma state_outs_traced [traced_intros]:
  "traced (ctx_calls ctx) p (state_outs lib w p ctx t a xs st) (state_outs lib w record_call ctx t a xs st)"
  unfolding state_outs_def by (intro traced_intros)

lemma insertOperationTx_traced [traced_intros]:
  "traced (ctx_calls ctx) p (insertOperationTx lib w p ctx tb tx ops ub cr g) (insertOperationTx lib w record_call ctx tb tx ops ub cr g)"
  unfolding insertOperationTx_def by (intro traced_intros)

lemma insertCreateAssetTx_traced [traced_intros]:
  "traced (ctx_calls ctx) p (insertCreateAssetTx lib w p ctx tb tx cr al g) (insertCreateAssetTx lib w record_call ctx tb tx cr al g)"
  unfolding insertCreateAssetTx_def by (intro traced_intros) simp

lemma insertTxInternal_traced [traced_intros]:
  "traced (ctx_calls ctx) p (insertTxInternal lib w p ctx tx tb) (insertTxInternal lib w record_call ctx tx tb)"
  unfolding insertTxInternal_def
  by (cases "ATx_UnsignedTx tx"; simp only: unsigned_atx.case; intro traced_intros)

lemma insertTx_traced:
  "traced (ctx_calls ctx) p (insertTx lib al w p ctx tb) (insertTx lib al w record_call ctx tb)"
  unfolding insertTx_def by (intro traced_intros)

lemma epoch_rows_traced:
  "traced (ctx_calls ctx) p (epoch_rows lib p ctx v) (epoch_rows lib record_call ctx v)"
  unfolding epoch_rows_def by (intro traced_intros) simp

section \<open>Outputs, supply and fee\<close>

definition asset_row :: "pcall \<Rightarrow> Assets option" where
  "asset_row c = (case c of PInsertAssets v _ \<Rightarrow> Some v | _ \<Rightarrow> None)"

lemma axc_no_asset_row: "axc_call ctx c \<Longrightarrow> asset_row c = None"
proof -
  have "asset_row c = Some v \<Longrightarrow> call_table c = TableAssets" for v
    by (simp add: asset_row_def split: pcall.splits) (simp add: call_table_def)
  then show "axc_call ctx c \<Longrightarrow> asset_row c = None"
    by (cases "asset_row c") (auto simp: axc_call_def part_tables_def)
qed

text \<open>The amount that an output adds to the supply of a new asset.\<close>

fun supply_amount :: "state_out \<Rightarrow> nat" where
  "supply_amount (SecpTransferOutput t) = unat (TransferOutput_Amt t)"
| "supply_amount _ = 0"

lemma ProcessStateOut_supply:
  assumes "Add64_checked lib"
    and "ProcessStateOut lib w p ctx x t i a am tot c st gu s = (Inr (am', tot'), s')"
  shows "unat am' = unat am + supply_amount x"
  using assms(2) unfolding ProcessStateOut_def
  by (auto simp: go_return_run go_raise_run go_lift_Inr split: state_out.splits transferable_out.splits sum.splits
      elim!: go_bind_Inr go_then_Inr dest: Add64_Inr(1) [OF assms(1)])

definition state_rows :: "extlib \<Rightarrow> consumerCtx \<Rightarrow> ID \<Rightarrow> string \<Rightarrow> ID \<Rightarrow> nat \<Rightarrow> state_out list \<Rightarrow> Outputs list" where
  "state_rows lib ctx t c a k xs = map (\<lambda>(i, x). state_row lib ctx t c False False a (of_nat i) x) (enumerate k xs)"

lemma state_rows_index:
  "list_all known_out xs \<Longrightarrow> map Outputs_OutputIndex (state_rows lib ctx t c a k xs) = map of_nat [k..<k + length xs]"
  by (induction xs arbitrary: k) (simp_all add: state_rows_def state_row_fields upt_conv_Cons del: upt_Suc)

lemma count_outs_run:
  assumes "count_outs lib w record_call ctx tx cs = (Inr n, cs')"
  shows "n = of_nat (length (BaseTx_Outs tx))"
    and "list_all (\<lambda>x. known_out (TransferableOutput_Out x)) (BaseTx_Outs tx)"
    and "List.map_filter output_row cs' = List.map_filter output_row cs
      @ out_rows lib ctx (BaseTx_ID tx) (avmW_chainID w) False 0 (BaseTx_Outs tx)"
proof -
  let ?f = "\<lambda>out outputCount.
         go_then (InsertTransactionOuts lib (avmW_axc w) record_call outputCount ctx 0 out (BaseTx_ID tx) (avmW_chainID w) False False)
           (go_return (outputCount + 1 :: u32))"
  have "go_fold ?f xs (of_nat k) cs = (Inr n, cs') \<Longrightarrow> n = of_nat (k + length xs)
      \<and> list_all (\<lambda>x. known_out (TransferableOutput_Out x)) xs
      \<and> List.map_filter output_row cs' = List.map_filter output_row cs
        @ out_rows lib ctx (BaseTx_ID tx) (avmW_chainID w) False k xs" for xs k cs
  proof (induction xs arbitrary: k cs)
    case Nil
    then show ?case by (simp add: go_simps out_rows_def)
  next
    case (Cons x xs)
    then have "go_bind (?f x (of_nat k)) (go_fold ?f xs) cs = (Inr n, cs')" by simp
    then obtain b c1 where f: "?f x (of_nat k) cs = (Inr b, c1)" and rest: "go_fold ?f xs b c1 = (Inr n, cs')"
      by (rule go_bind_Inr)
    from f obtain r c0 where io: "InsertTransactionOuts lib (avmW_axc w) record_call (of_nat k) ctx 0 x (BaseTx_ID tx)
        (avmW_chainID w) False False cs = (Inr r, c0)" and "go_return (of_nat k + 1) c0 = (Inr b, c1)"
      by (rule go_then_Inr)
    then have "b = of_nat (Suc k)" "c0 = c1" by (simp_all add: go_return_def add.commute)
    moreover have "known_out (TransferableOutput_Out x)"
      using io unfolding InsertTransactionOuts_def by (auto elim!: go_bind_Inr dest: ProcessStateOut_known)
    ultimately show ?case using Cons.IH [of "Suc k" c1] rest addsD [OF InsertTransactionOuts_adds io]
      by (simp add: out_rows_def)
  qed
  from this [of "BaseTx_Outs tx" 0 cs] assms show "n = of_nat (length (BaseTx_Outs tx))"
    and "list_all (\<lambda>x. known_out (TransferableOutput_Out x)) (BaseTx_Outs tx)"
    and "List.map_filter output_row cs' = List.map_filter output_row cs
      @ out_rows lib ctx (BaseTx_ID tx) (avmW_chainID w) False 0 (BaseTx_Outs tx)"
    by (simp_all add: count_outs_def)
qed

lemma state_outs_run:
  assumes "Add64_checked lib"
    and "state_outs lib w record_call ctx t a xs (of_nat k, am, tot) cs = (Inr (n, am', tot'), cs')"
  shows "n = of_nat (k + length xs) \<and> list_all known_out xs \<and> unat am' = unat am + sum_list (map supply_amount xs)
    \<and> unat tot' = unat tot + (if a = axcW_axcAssetID (avmW_axc w) then sum_list (map state_amount xs) else 0)
    \<and> List.map_filter output_row cs' = List.map_filter output_row cs @ state_rows lib ctx t (avmW_chainID w) a k xs"
  using assms(2)
proof (induction xs arbitrary: k am tot cs)
  case Nil
  then show ?case by (simp add: state_outs_def state_rows_def go_simps)
next
  case (Cons x xs)
  then obtain am1 tot1 c1 where
    p: "ProcessStateOut lib (avmW_axc w) record_call ctx x t (of_nat k) a am tot (avmW_chainID w) False False cs = (Inr (am1, tot1), c1)"
    and r: "state_outs lib w record_call ctx t a xs (of_nat (Suc k), am1, tot1) c1 = (Inr (n, am', tot'), cs')"
    unfolding state_outs_def by (auto simp: go_return_run add.commute elim!: go_bind_Inr)
  from Cons.IH [OF r] ProcessStateOut_supply [OF assms(1) p] ProcessStateOut_total [OF assms(1) p]
    addsD [OF ProcessStateOut_adds p] ProcessStateOut_known [OF p]
  show ?case by (simp add: state_rows_def)
qed

lemma go_fold_concat: "go_fold (go_fold f) xss = go_fold f (concat xss)"
proof (induction xss)
  case Nil
  show ?case by (rule ext) simp
next
  case (Cons xs xss)
  then show ?case by (intro ext) (simp add: go_fold_append)
qed

text \<open>The loop over the states of an asset: their outputs are numbered through.\<close>

lemma states_run:
  assumes "Add64_checked lib"
    and "go_fold (state_outs lib w record_call ctx t a) xss (of_nat k, am, tot) cs = (Inr (n, am', tot'), cs')"
  shows "n = of_nat (k + length (concat xss)) \<and> list_all known_out (concat xss) \<and> unat am' = unat am + sum_list (map supply_amount (concat xss))
    \<and> unat tot' = unat tot + (if a = axcW_axcAssetID (avmW_axc w) then sum_list (map state_amount (concat xss)) else 0)
    \<and> List.map_filter output_row cs' = List.map_filter output_row cs @ state_rows lib ctx t (avmW_chainID w) a k (concat xss)"
proof -
  have "go_fold (state_outs lib w record_call ctx t a) xss = state_outs lib w record_call ctx t a (concat xss)"
    unfolding state_outs_def by (rule go_fold_concat)
  with assms state_outs_run show ?thesis by metis
qed

lemma count_outs_no_asset: "adds asset_row (count_outs lib w record_call ctx tx) []"
  unfolding count_outs_def InsertTransactionOuts_def
  by (auto intro!: adds_fold adds_then_right adds_return adds_bind_right ProcessStateOut_adds_other simp: asset_row_def)

lemma states_no_asset: "adds asset_row (go_fold (state_outs lib w record_call ctx t a) xss st) []"
  unfolding state_outs_def
  by (auto intro!: adds_fold adds_return adds_bind_right ProcessStateOut_adds_other simp: asset_row_def)

lemma insertCreateAssetTx_Inr:
  assumes "Add64_checked lib" "insertCreateAssetTx lib w record_call ctx tb tx cr al g [] = (Inr (), cs)"
  obtains am tot c2 where "list_all (\<lambda>x. known_out (TransferableOutput_Out x)) (BaseTx_Outs (CreateAssetTx_BaseTx tx))"
    and "list_all known_out (concat (CreateAssetTx_States tx))"
    and "unat am = sum_list (map supply_amount (concat (CreateAssetTx_States tx)))"
    and "List.map_filter output_row c2 = out_rows lib ctx (BaseTx_ID (CreateAssetTx_BaseTx tx)) (avmW_chainID w) False 0 (BaseTx_Outs (CreateAssetTx_BaseTx tx))
        @ state_rows lib ctx (BaseTx_ID (CreateAssetTx_BaseTx tx)) (avmW_chainID w) (BaseTx_ID (CreateAssetTx_BaseTx tx))
            (length (BaseTx_Outs (CreateAssetTx_BaseTx tx))) (concat (CreateAssetTx_States tx))"
    and "List.map_filter asset_row c2 = []"
    and "InsertTransaction lib (avmW_axc w) record_call ctx (Some tb) (CreateAssetTx_UnsignedBytes tx) (CreateAssetTx_BaseTx tx) cr
       TransactionTypeCreateAsset None None tot g (c2 @ [PInsertAssets (Assets_row lib w ctx tx al am) (cc_upd ctx)]) = (Inr (), cs)"
proof -
  let ?b = "CreateAssetTx_BaseTx tx"
  from assms(2) obtain n c1 m am tot c2 where
    r1: "count_outs lib w record_call ctx ?b [] = (Inr n, c1)"
    and r2: "go_fold (state_outs lib w record_call ctx (BaseTx_ID ?b) (BaseTx_ID ?b)) (CreateAssetTx_States tx) (n, 0, 0) c1 = (Inr (m, am, tot), c2)"
    and r3: "InsertTransaction lib (avmW_axc w) record_call ctx (Some tb) (CreateAssetTx_UnsignedBytes tx) ?b cr
       TransactionTypeCreateAsset None None tot g (c2 @ [PInsertAssets (Assets_row lib w ctx tx al am) (cc_upd ctx)]) = (Inr (), cs)"
    unfolding insertCreateAssetTx_def Let_def
    by (auto simp: record_call_def elim!: go_bind_Inr go_then_Inr)
  note c = count_outs_run [OF r1]
  note st = states_run [OF assms(1) r2 [unfolded c(1)]]
  show ?thesis
  proof (rule that [OF c(2) _ _ _ _ r3])
    show "list_all known_out (concat (CreateAssetTx_States tx))" using st by simp
    show "unat am = sum_list (map supply_amount (concat (CreateAssetTx_States tx)))" using st by simp
    show "List.map_filter output_row c2 = out_rows lib ctx (BaseTx_ID ?b) (avmW_chainID w) False 0 (BaseTx_Outs ?b)
        @ state_rows lib ctx (BaseTx_ID ?b) (avmW_chainID w) (BaseTx_ID ?b) (length (BaseTx_Outs ?b)) (concat (CreateAssetTx_States tx))"
      using st c(3) by (simp add: List.map_filter_def)
    show "List.map_filter asset_row c2 = []"
      using addsD [OF count_outs_no_asset r1] addsD [OF states_no_asset r2] by (simp add: List.map_filter_def)
  qed
qed

section \<open>A sample asset\<close>

definition sample_asset :: CreateAssetTx where
  "sample_asset = \<lparr>CreateAssetTx_BaseTx = sample_tx, CreateAssetTx_Name = ''Coin'', CreateAssetTx_Symbol = ''C'',
     CreateAssetTx_Denomination = 9,
     CreateAssetTx_States = [[TransferableOutput_Out (sample_out 30), TransferableOutput_Out (sample_out 12)]],
     CreateAssetTx_UnsignedBytes = [2]\<rparr>"

definition sample_atx :: ATx where
  "sample_atx = \<lparr>ATx_UnsignedTx = ACreateAssetTx sample_asset, ATx_Creds = [], ATx_UnsignedBytes = [2]\<rparr>"

definition sample_avmlib :: avmlib where
  "sample_avmlib = \<lparr>
     avm_Unmarshal = (\<lambda>b. if b = [66] then Inr (0, sample_atx) else Inl EOF),
     avm_MarshalUnsigned = (\<lambda>ver tx. Inr [2]),
     avm_InitializeTx = (\<lambda>tx u s. tx),
     avm_UnmarshalGenesis = (\<lambda>b. Inl EOF),
     avm_MarshalTx = (\<lambda>ver tx. Inr [1]),
     avm_MarshalCreateAsset = (\<lambda>ver tx. Inr [2]),
     avm_Initialize = (\<lambda>tx u s. tx),
     vertex_Parse = (\<lambda>b. Inl EOF),
     avm_FromConfig = (\<lambda>n. Inl EOF),
     avm_PlatformGenesis = (\<lambda>b. Inl EOF),
     avm_InitializeGenesis = Inr\<rparr>"

definition sample_avm :: avmWriter where
  "sample_avm = avm_NewWriter 1 ''chain'' [9]"

lemmas sample_avm_defs = sample_asset_def sample_atx_def sample_avmlib_def sample_avm_def avm_NewWriter_def
  insertTx_def parseTx_def insertTxInternal_def insertCreateAssetTx_def count_outs_def state_outs_def

lemma sample_asset_outcome:
  "outcome (insertCreateAssetTx sample_lib sample_avm record_call sample_ctx [66] sample_asset [] ''al'' False) = Inr ()"
  by (simp add: outcome_def sample_avm_defs axc_defs sample_defs record_call_def go_simps)

lemma sample_insertTx_outcome:
  "outcome (insertTx sample_lib sample_avmlib sample_avm record_call sample_ctx [66]) = Inr ()"
  by (simp add: outcome_def sample_avm_defs axc_defs sample_defs record_call_def go_simps)

lemma sample_avm_run:
  "\<exists>d'. avm_Consume sample_lib sample_avmlib sample_avm ideal sample_env (sample_msg [66]) empty_db = (Inr (), d')"
proof -
  have "traced (call_upd False) (persist_exec ideal)
      (insertTx sample_lib sample_avmlib sample_avm (persist_exec ideal) sample_ctx [66])
      (insertTx sample_lib sample_avmlib sample_avm record_call sample_ctx [66])"
    using insertTx_traced [of sample_ctx] by simp
  from ideal_tx_handler [OF this, of empty_db] show ?thesis
    by (auto simp: avm_Consume_def sample_msg_ctx sample_insertTx_outcome)
qed

section \<open>Properties\<close>

text \<open>Consuming a transaction of the asset chain is atomic: when \<open>Consume\<close> returns an error
  no table has changed, and otherwise the tables hold exactly the effect of the calls that
  inserting the transaction makes.\<close>

theorem avm_Consume_atomic:
  assumes "sql_session sess" "avm_Consume lib al w sess env c d = (r, d')"
  shows "case r of
      Inl e \<Rightarrow> tabs d' = tabs d
    | Inr _ \<Rightarrow> outcome (insertTx lib al w record_call (consumer_ctx env c) (consumable_Body c)) = Inr ()
        \<and> tabs d' = fold call_effect (trace (insertTx lib al w record_call (consumer_ctx env c) (consumable_Body c))) (tabs d)"
  using sql_session.tx_handler_atomic [OF assms(1) insertTx_traced] assms(2)
  unfolding avm_Consume_def by (fastforce split: sum.split)

theorem avm_Consume_atomic_witness:
  "\<exists>d'. avm_Consume sample_lib sample_avmlib sample_avm ideal sample_env (sample_msg [66]) empty_db = (Inr (), d')
    \<and> tabs d' = fold call_effect (trace (insertTx sample_lib sample_avmlib sample_avm record_call sample_ctx [66])) (tabs empty_db)"
proof -
  obtain d' where d': "avm_Consume sample_lib sample_avmlib sample_avm ideal sample_env (sample_msg [66]) empty_db = (Inr (), d')"
    using sample_avm_run by blast
  from avm_Consume_atomic [OF ideal.sql_session_axioms d'] d' show ?thesis
    by (auto simp: sample_msg_ctx)
qed

text \<open>C6. The supply recorded for a new asset is the exact sum, not modulo \<open>2 ^ 64\<close>, of the amounts
  that its initial states pay out.\<close>

theorem insertCreateAssetTx_supply:
  assumes "Add64_checked lib"
    and "outcome (insertCreateAssetTx lib w record_call ctx tb tx cr al g) = Inr ()"
    and "cs = trace (insertCreateAssetTx lib w record_call ctx tb tx cr al g)"
  shows "\<exists>a. List.map_filter asset_row cs = [a]
    \<and> Assets_ID a = ID_String lib (BaseTx_ID (CreateAssetTx_BaseTx tx)) \<and> Assets_Alias a = al
    \<and> unat (Assets_CurrentSupply a) = sum_list (map supply_amount (concat (CreateAssetTx_States tx)))"
proof -
  have "insertCreateAssetTx lib w record_call ctx tb tx cr al g [] = (Inr (), cs)"
    using assms by (simp add: outcome_def trace_def prod_eq_iff)
  from insertCreateAssetTx_Inr [OF assms(1) this] obtain am tot c2 where
    am: "unat am = sum_list (map supply_amount (concat (CreateAssetTx_States tx)))" "List.map_filter asset_row c2 = []"
    and run: "InsertTransaction lib (avmW_axc w) record_call ctx (Some tb) (CreateAssetTx_UnsignedBytes tx) (CreateAssetTx_BaseTx tx) cr
       TransactionTypeCreateAsset None None tot g (c2 @ [PInsertAssets (Assets_row lib w ctx tx al am) (cc_upd ctx)]) = (Inr (), cs)"
    by blast
  have "adds asset_row (InsertTransaction lib (avmW_axc w) record_call ctx (Some tb) (CreateAssetTx_UnsignedBytes tx)
      (CreateAssetTx_BaseTx tx) cr TransactionTypeCreateAsset None None tot g) []"
    by (rule adds_traced [OF InsertTransaction_axc axc_no_asset_row])
  from addsD [OF this run] am have "List.map_filter asset_row cs = [Assets_row lib w ctx tx al am]"
    by (simp add: List.map_filter_def asset_row_def)
  with am show ?thesis by (simp add: Assets_row_def)
qed

theorem insertCreateAssetTx_supply_witness:
  "\<exists>a. List.map_filter asset_row (trace (insertCreateAssetTx sample_lib sample_avm record_call sample_ctx [66] sample_asset [] ''al'' False)) = [a]
    \<and> unat (Assets_CurrentSupply a) = 42"
  using insertCreateAssetTx_supply [OF sample_lib_Add64 sample_asset_outcome refl]
  by (auto simp: sample_asset_def sample_out_def)

text \<open>C7. The outputs of a transaction that creates an asset. Its own outputs are written twice,
  in two passes, but both passes write the same rows; the outputs of the initial states are
  numbered on from there, so that no two different outputs share a number.\<close>

theorem insertCreateAssetTx_outputs:
  assumes "Add64_checked lib" "w = avm_NewWriter networkID chainID asset"
    and "outcome (insertCreateAssetTx lib w record_call ctx tb tx cr al g) = Inr ()"
    and "cs = trace (insertCreateAssetTx lib w record_call ctx tb tx cr al g)"
    and "base = CreateAssetTx_BaseTx tx" "n = length (BaseTx_Outs base)"
    and "own = out_rows lib ctx (BaseTx_ID base) chainID False 0 (BaseTx_Outs base)"
    and "states = state_rows lib ctx (BaseTx_ID base) chainID (BaseTx_ID base) n (concat (CreateAssetTx_States tx))"
  shows "List.map_filter output_row cs = own @ states @ own
    \<and> map Outputs_OutputIndex (own @ states) = map of_nat [0..<n + length (concat (CreateAssetTx_States tx))]"
proof -
  have "insertCreateAssetTx lib w record_call ctx tb tx cr al g [] = (Inr (), cs)"
    using assms(3,4) by (simp add: outcome_def trace_def prod_eq_iff)
  from insertCreateAssetTx_Inr [OF assms(1) this] obtain am tot c2 where
    known: "list_all (\<lambda>x. known_out (TransferableOutput_Out x)) (BaseTx_Outs base)"
      "list_all known_out (concat (CreateAssetTx_States tx))"
    and c2: "List.map_filter output_row c2 = out_rows lib ctx (BaseTx_ID base) (avmW_chainID w) False 0 (BaseTx_Outs base)
        @ state_rows lib ctx (BaseTx_ID base) (avmW_chainID w) (BaseTx_ID base) n (concat (CreateAssetTx_States tx))"
    and run: "InsertTransaction lib (avmW_axc w) record_call ctx (Some tb) (CreateAssetTx_UnsignedBytes tx) base cr
       TransactionTypeCreateAsset None None tot g (c2 @ [PInsertAssets (Assets_row lib w ctx tx al am) (cc_upd ctx)]) = (Inr (), cs)"
    unfolding assms(5,6) by blast
  have "List.map_filter output_row cs = own @ states @ own"
    using addsD [OF InsertTransaction_adds(1) run] c2 assms(2,7,8)
    by (simp add: List.map_filter_def row_defs tx_output_rows_def avm_NewWriter_def axc_NewWriter_def)
  moreover have "map Outputs_OutputIndex (own @ states) = map of_nat [0..<n + length (concat (CreateAssetTx_States tx))]"
    using out_rows_fields(2) [OF known(1)] state_rows_index [OF known(2)] assms(6-8)
    by (simp add: upt_add_eq_append [of 0])
  ultimately show ?thesis ..
qed

theorem insertCreateAssetTx_outputs_witness:
  "map Outputs_OutputIndex (take 3 (List.map_filter output_row
     (trace (insertCreateAssetTx sample_lib sample_avm record_call sample_ctx [66] sample_asset [] ''al'' False)))) = [0, 1, 2]"
  using insertCreateAssetTx_outputs [OF sample_lib_Add64 sample_avm_def sample_asset_outcome refl refl refl refl refl]
  by (auto simp: sample_asset_def sample_tx_def state_rows_def eval_nat_numeral)

end
