(* ===== verification/CvmWriter.thy ===== *)
theory CvmWriter
  imports AxcWriter
begin

text \<open>
  The writer of the EVM chain, \<open>src/services/indexes/cvm/writer.go\<close>, and the block model of
  \<open>src/modelsc/cblock.go\<close>. Codec, JSON encoding and signing are fields of \<open>cvmlib\<close>.
  \<open>indexBlockInternal\<close> clears the transactions of the block it is given, which the caller
  holds on to; the model returns the block as it is left.
\<close>

section \<open>Blocks and atomic transactions\<close>

text \<open>The inputs of an export and the outputs of an import; the address as \<open>String()\<close> prints
  it. The nonce is not read for outputs.\<close>

record EVMPut =
  EVMPut_Address :: string
  EVMPut_AssetID :: ID
  EVMPut_Amount :: u64
  EVMPut_Nonce :: u64

datatype unsigned_atomic =
    EvmExportTx ID ID "EVMPut list" "TransferableOutput list"
  | EvmImportTx ID ID "TransferableInput list" "EVMPut list"
  | OtherAtomicTx

record EvmTx =
  EvmTx_ID :: ID
  EvmTx_Unsigned :: unsigned_atomic
  EvmTx_Creds :: "verifiable list"

record cHeader =
  Header_Number :: int
  Header_Time :: u64
  Header_Nonce :: u64
  Header_Hash :: string
  Header_ParentHash :: string
  Header_GasUsed :: u64
  Header_GasLimit :: u64

record RawTx =
  RawTx_Hash :: string
  RawTx_To :: "string option"
  RawTx_Nonce :: u64
  RawTx_Data :: bytes

record cBlock =
  Block_Header :: cHeader
  Block_TxsBytes :: "bytes list option"
  Block_Version :: u32
  Block_BlockExtraData :: "bytes option"
  Block_Txs :: "RawTx list"

record EthLog =
  Log_BlockHash :: string
  Log_TxHash :: string
  Log_Index :: u64
  Log_BlockNumber :: u64
  Log_Topics :: "string list"
  Log_Removed :: bool

record TransactionTrace =
  Trace_Hash :: string
  Trace_Idx :: u32
  Trace_Trace :: bytes

record TraceModel =
  TraceModel_ToAddr :: string
  TraceModel_FromAddr :: string
  TraceModel_CallType :: string
  TraceModel_Type :: string

record cvmlib =
  cvm_UnmarshalTx :: "bytes \<Rightarrow> go_error + EvmTx"
  cvm_UnmarshalTxs :: "bytes \<Rightarrow> go_error + EvmTx list"
  cvm_Sign :: "EvmTx \<Rightarrow> go_error + EvmTx"
  cvm_MarshalUnsigned :: "unsigned_atomic \<Rightarrow> go_error + bytes"
  json_MarshalRawTx :: "RawTx \<Rightarrow> go_error + bytes"
  json_MarshalBlock :: "cBlock \<Rightarrow> go_error + bytes"
  json_UnmarshalBlock :: "bytes \<Rightarrow> go_error + cBlock"
  json_UnmarshalRawTx :: "bytes \<Rightarrow> go_error + RawTx"
  json_UnmarshalTraceModel :: "bytes \<Rightarrow> go_error + TraceModel"

record cvmWriter =
  cvmW_networkID :: u32
  cvmW_axc :: axcWriter
  cvmW_ap5Activation :: u64

section \<open>cblock.go: Unmarshal\<close>

fun unmarshal_txs :: "cvmlib \<Rightarrow> bytes list \<Rightarrow> go_error + RawTx list" where
  "unmarshal_txs cl [] = Inr []"
| "unmarshal_txs cl (t # ts) =
     (case json_UnmarshalRawTx cl t of
        Inl err \<Rightarrow> Inl err
      | Inr tr \<Rightarrow> (case unmarshal_txs cl ts of Inl err \<Rightarrow> Inl err | Inr trs \<Rightarrow> Inr (tr # trs)))"

definition modelsc_Unmarshal :: "cvmlib \<Rightarrow> bytes \<Rightarrow> go_error + cBlock" where
  "modelsc_Unmarshal cl body =
     (case json_UnmarshalBlock cl body of
        Inl err \<Rightarrow> Inl err
      | Inr block \<Rightarrow>
          (case Block_TxsBytes block of
             None \<Rightarrow> Inr block
           | Some tbs \<Rightarrow>
               (case unmarshal_txs cl tbs of
                  Inl err \<Rightarrow> Inl err
                | Inr trs \<Rightarrow> Inr (block\<lparr>Block_Txs := Block_Txs block @ trs\<rparr>))))"

section \<open>Atomic transactions\<close>

definition extractAtomicTxsPreApricotPhase5 :: "cvmlib \<Rightarrow> bytes \<Rightarrow> go_error + EvmTx list" where
  "extractAtomicTxsPreApricotPhase5 cl atomicTxBytes =
     (case cvm_UnmarshalTx cl atomicTxBytes of
        Inl err \<Rightarrow> Inl (ErrorString (''failed to unmarshal atomic tx (pre-AP5): '' @ Error err))
      | Inr atx \<Rightarrow>
          (case cvm_Sign cl atx of
             Inl err \<Rightarrow> Inl (ErrorString (''failed to initialize singleton atomic tx due to: '' @ Error err))
           | Inr atx \<Rightarrow> Inr [atx]))"

fun sign_all :: "cvmlib \<Rightarrow> nat \<Rightarrow> EvmTx list \<Rightarrow> go_error + EvmTx list" where
  "sign_all cl index [] = Inr []"
| "sign_all cl index (atx # atxs) =
     (case cvm_Sign cl atx of
        Inl err \<Rightarrow> Inl (ErrorString (''failed to initialize atomic tx at index '' @ Itoa (int index) @ '': '' @ Error err))
      | Inr atx' \<Rightarrow> (case sign_all cl (Suc index) atxs of Inl err \<Rightarrow> Inl err | Inr atxs' \<Rightarrow> Inr (atx' # atxs')))"

definition extractAtomicTxsPostApricotPhase5 :: "cvmlib \<Rightarrow> bytes \<Rightarrow> go_error + EvmTx list" where
  "extractAtomicTxsPostApricotPhase5 cl atomicTxBytes =
     (case cvm_UnmarshalTxs cl atomicTxBytes of
        Inl err \<Rightarrow> Inl (ErrorString (''failed to unmarshal atomic tx (post-AP5): '' @ Error err))
      | Inr atxs \<Rightarrow> sign_all cl 0 atxs)"

definition bytes_of :: "bytes option \<Rightarrow> bytes" where
  "bytes_of b = (case b of None \<Rightarrow> [] | Some bs \<Rightarrow> bs)"

definition extractAtomicTxs :: "cvmlib \<Rightarrow> cvmWriter \<Rightarrow> bytes \<Rightarrow> cBlock \<Rightarrow> go_error + EvmTx list" where
  "extractAtomicTxs cl w blockBytes block =
     (if length blockBytes > 0 then
        (if Header_Time (Block_Header block) < cvmW_ap5Activation w
         then extractAtomicTxsPreApricotPhase5 cl (bytes_of (Block_BlockExtraData block))
         else extractAtomicTxsPostApricotPhase5 cl (bytes_of (Block_BlockExtraData block)))
      else Inr [])"

definition CvmAddresses_row :: "extlib \<Rightarrow> consumerCtx \<Rightarrow> AXChainType \<Rightarrow> u64 \<Rightarrow> ID \<Rightarrow> EVMPut \<Rightarrow> u64 \<Rightarrow> CvmAddresses" where
  "CvmAddresses_row lib ctx typ idx i put nonce =
     \<lparr>CvmAddresses_ID = ID_String lib (ID_Prefix lib i idx),
      CvmAddresses_Type = typ,
      CvmAddresses_Idx = idx,
      CvmAddresses_TransactionID = ID_String lib i,
      CvmAddresses_Address = EVMPut_Address put,
      CvmAddresses_AssetID = ID_String lib (EVMPut_AssetID put),
      CvmAddresses_Amount = EVMPut_Amount put,
      CvmAddresses_Nonce = nonce,
      CvmAddresses_CreatedAt = cc_time ctx\<rparr>"

definition cvm_insertAddress :: "extlib \<Rightarrow> (pcall \<Rightarrow> ('s, unit) go) \<Rightarrow> AXChainType \<Rightarrow> consumerCtx \<Rightarrow> u64 \<Rightarrow> ID \<Rightarrow> EVMPut
    \<Rightarrow> u64 \<Rightarrow> ('s, unit) go" where
  "cvm_insertAddress lib p typ ctx idx i put nonce =
     p (PInsertCvmAddresses (CvmAddresses_row lib ctx typ idx i put nonce) (cc_upd ctx))"

definition cvm_indexTransaction :: "extlib \<Rightarrow> cvmWriter \<Rightarrow> (pcall \<Rightarrow> ('s, unit) go) \<Rightarrow> consumerCtx \<Rightarrow> ID \<Rightarrow> AXChainType
    \<Rightarrow> ID \<Rightarrow> u64 \<Rightarrow> bytes \<Rightarrow> ('s, unit) go" where
  "cvm_indexTransaction lib w p ctx i typ blockChainID fee unsignedBytes =
     (let avmTxtype = (if typ = AXChainImport then ''atomic_import_tx''
                       else if typ = AXChainExport then ''atomic_export_tx'' else [])
      in InsertTransactionBase lib (cvmW_axc w) p ctx i (ID_String lib blockChainID) avmTxtype (Some [])
           (Some unsignedBytes) fee False (cvmW_networkID w))"

text \<open>The loop over the EVM side: a row per address, and the total of the fee asset.\<close>

definition evm_puts :: "extlib \<Rightarrow> cvmWriter \<Rightarrow> (pcall \<Rightarrow> ('s, unit) go) \<Rightarrow> consumerCtx \<Rightarrow> AXChainType \<Rightarrow> bool \<Rightarrow> ID
    \<Rightarrow> EVMPut list \<Rightarrow> ('s, u64) go" where
  "evm_puts lib w p ctx typ withNonce txID puts =
     go_fold (\<lambda>(icnt, put) tot.
       go_then (cvm_insertAddress lib p typ ctx (word_of_nat icnt) txID put (if withNonce then EVMPut_Nonce put else 0))
         (go_lift (addTotal lib (cvmW_axc w) (EVMPut_AssetID put) tot (EVMPut_Amount put))))
       (enumerate 0 puts) 0"

definition indexExportTx :: "extlib \<Rightarrow> cvmWriter \<Rightarrow> (pcall \<Rightarrow> ('s, unit) go) \<Rightarrow> consumerCtx \<Rightarrow> ID \<Rightarrow> ID \<Rightarrow> ID
    \<Rightarrow> EVMPut list \<Rightarrow> TransferableOutput list \<Rightarrow> bytes \<Rightarrow> ('s, unit) go" where
  "indexExportTx lib w p ctx txID blockchainID destinationChain ins exportedOutputs blockBytes =
     go_bind (evm_puts lib w p ctx AXChainIn True txID ins) (\<lambda>totalin.
     go_bind (insert_outs lib (cvmW_axc w) p ctx txID (ID_String lib destinationChain) False exportedOutputs (0, 0))
       (\<lambda>(idx, totalout).
     cvm_indexTransaction lib w p ctx txID AXChainExport blockchainID (totalin - totalout) blockBytes))"

definition indexImportTx :: "extlib \<Rightarrow> cvmWriter \<Rightarrow> (pcall \<Rightarrow> ('s, unit) go) \<Rightarrow> consumerCtx \<Rightarrow> ID \<Rightarrow> ID \<Rightarrow> ID
    \<Rightarrow> TransferableInput list \<Rightarrow> EVMPut list \<Rightarrow> verifiable list \<Rightarrow> bytes \<Rightarrow> bytes \<Rightarrow> ('s, unit) go" where
  "indexImportTx lib w p ctx txID blockchainID sourceChain importedInputs outs creds blockBytes unsignedBytes =
     go_bind (evm_puts lib w p ctx AXchainOut False txID outs) (\<lambda>totalout.
     go_bind (insert_ins lib (cvmW_axc w) p ctx txID creds unsignedBytes (ID_String lib sourceChain) importedInputs (0, 0))
       (\<lambda>(inidx, totalin).
     cvm_indexTransaction lib w p ctx txID AXChainImport blockchainID (totalin - totalout) blockBytes))"

section \<open>indexBlockInternal\<close>

text \<open>The loop over the atomic transactions carries the type and the chain of the last one.\<close>

definition index_atomic :: "extlib \<Rightarrow> cvmlib \<Rightarrow> cvmWriter \<Rightarrow> (pcall \<Rightarrow> ('s, unit) go) \<Rightarrow> consumerCtx \<Rightarrow> bytes \<Rightarrow> EvmTx
    \<Rightarrow> AXChainType \<times> string \<Rightarrow> ('s, AXChainType \<times> string) go" where
  "index_atomic lib cl w p ctx blockBytes atomicTX st =
     (case EvmTx_Unsigned atomicTX of
        EvmExportTx blockchainID destinationChain ins exportedOutputs \<Rightarrow>
          go_then (indexExportTx lib w p ctx (EvmTx_ID atomicTX) blockchainID destinationChain ins exportedOutputs blockBytes)
            (go_return (AXChainExport, ID_String lib blockchainID))
      | EvmImportTx blockchainID sourceChain importedInputs outs \<Rightarrow>
          go_bind (go_lift (cvm_MarshalUnsigned cl (EvmTx_Unsigned atomicTX))) (\<lambda>unsignedBytes.
          go_then (indexImportTx lib w p ctx (EvmTx_ID atomicTX) blockchainID sourceChain importedInputs outs
                     (EvmTx_Creds atomicTX) blockBytes unsignedBytes)
            (go_return (AXChainImport, ID_String lib blockchainID)))
      | OtherAtomicTx \<Rightarrow> go_return st)"

definition Txdata_row :: "consumerCtx \<Rightarrow> cBlock \<Rightarrow> nat \<Rightarrow> RawTx \<Rightarrow> bytes \<Rightarrow> CvmTransactionsTxdata" where
  "Txdata_row ctx block ipos rawtx txdata =
     \<lparr>CvmTransactionsTxdata_Hash = RawTx_Hash rawtx,
      CvmTransactionsTxdata_Block = Itoa (Header_Number (Block_Header block)),
      CvmTransactionsTxdata_Idx = word_of_nat ipos,
      CvmTransactionsTxdata_Rcpt = CommonAddressHexRepair (RawTx_To rawtx),
      CvmTransactionsTxdata_Nonce = RawTx_Nonce rawtx,
      CvmTransactionsTxdata_Serialization = Some txdata,
      CvmTransactionsTxdata_CreatedAt = cc_time ctx\<rparr>"

definition index_rawtxs :: "cvmlib \<Rightarrow> (pcall \<Rightarrow> ('s, unit) go) \<Rightarrow> consumerCtx \<Rightarrow> cBlock \<Rightarrow> ('s, unit) go" where
  "index_rawtxs cl p ctx block =
     go_for (\<lambda>(ipos, rawtx).
       go_bind (go_lift (json_MarshalRawTx cl rawtx)) (\<lambda>txdata.
       p (PInsertCvmTransactionsTxdata (Txdata_row ctx block ipos rawtx txdata) (cc_upd ctx))))
       (enumerate 0 (Block_Txs block))"

definition clear_txs :: "cBlock \<Rightarrow> cBlock" where
  "clear_txs block = block\<lparr>Block_TxsBytes := None, Block_Txs := []\<rparr>"

definition CvmTransactions_row :: "extlib \<Rightarrow> consumerCtx \<Rightarrow> cBlock \<Rightarrow> ID \<Rightarrow> AXChainType \<Rightarrow> string \<Rightarrow> bytes \<Rightarrow> string
    \<Rightarrow> CvmTransactions" where
  "CvmTransactions_row lib ctx block i typ blockchainID blockjson txIDString =
     (let htime = sint (Header_Time (Block_Header block));
          htime = (if htime = 0 then 1 else htime)
      in \<lparr>CvmTransactions_ID = ID_String lib i,
          CvmTransactions_TransactionID = txIDString,
          CvmTransactions_Type = typ,
          CvmTransactions_BlockchainID = blockchainID,
          CvmTransactions_Block = Itoa (Header_Number (Block_Header block)),
          CvmTransactions_CreatedAt = cc_time ctx,
          CvmTransactions_Serialization = Some blockjson,
          CvmTransactions_TxTime = time_Unix htime 0,
          CvmTransactions_Nonce = Header_Nonce (Block_Header block),
          CvmTransactions_Hash = Header_Hash (Block_Header block),
          CvmTransactions_ParentHash = Header_ParentHash (Block_Header block)\<rparr>)"

text \<open>The part before the transactions of the block are cleared, and the part after.\<close>

definition indexBlock_before :: "extlib \<Rightarrow> cvmlib \<Rightarrow> cvmWriter \<Rightarrow> (pcall \<Rightarrow> ('s, unit) go) \<Rightarrow> consumerCtx \<Rightarrow> bytes \<Rightarrow> cBlock
    \<Rightarrow> ('s, ID \<times> AXChainType \<times> string \<times> string list) go" where
  "indexBlock_before lib cl w p ctx blockBytes block =
     go_bind (go_lift (extractAtomicTxs cl w blockBytes block)) (\<lambda>atomicTXs.
     go_bind (go_lift (ToID lib (ComputeHash256 lib (bytes_of_string (Itoa (Header_Number (Block_Header block))))))) (\<lambda>i.
     go_bind (go_fold (index_atomic lib cl w p ctx blockBytes) atomicTXs (0, [])) (\<lambda>(typ, blockchainID).
     go_then (index_rawtxs cl p ctx block)
     (go_return (i, typ, blockchainID, map (\<lambda>tx. ID_String lib (EvmTx_ID tx)) atomicTXs)))))"

definition indexBlock_after :: "extlib \<Rightarrow> cvmlib \<Rightarrow> (pcall \<Rightarrow> ('s, unit) go) \<Rightarrow> consumerCtx \<Rightarrow> cBlock
    \<Rightarrow> ID \<times> AXChainType \<times> string \<times> string list \<Rightarrow> ('s, unit) go" where
  "indexBlock_after lib cl p ctx block = (\<lambda>(i, typ, blockchainID, txIDs).
     go_bind (go_lift (json_MarshalBlock cl block)) (\<lambda>blockjson.
     go_for (\<lambda>txIDString. p (PInsertCvmTransactions
        (CvmTransactions_row lib ctx block i typ blockchainID blockjson txIDString) (cc_upd ctx))) txIDs))"

definition cvm_indexBlock :: "extlib \<Rightarrow> cvmlib \<Rightarrow> cvmWriter \<Rightarrow> (pcall \<Rightarrow> ('s, unit) go) \<Rightarrow> consumerCtx \<Rightarrow> bytes \<Rightarrow> cBlock
    \<Rightarrow> ('s, unit) go" where
  "cvm_indexBlock lib cl w p ctx blockBytes block =
     go_bind (indexBlock_before lib cl w p ctx blockBytes block) (indexBlock_after lib cl p ctx (clear_txs block))"

text \<open>The block as the caller finds it afterwards.\<close>

definition block_left :: "extlib \<Rightarrow> cvmlib \<Rightarrow> cvmWriter \<Rightarrow> (pcall \<Rightarrow> ('s, unit) go) \<Rightarrow> consumerCtx \<Rightarrow> bytes \<Rightarrow> cBlock
    \<Rightarrow> 's \<Rightarrow> cBlock" where
  "block_left lib cl w p ctx blockBytes block s =
     (case fst (indexBlock_before lib cl w p ctx blockBytes block s) of Inl _ \<Rightarrow> block | Inr _ \<Rightarrow> clear_txs block)"

section \<open>Consume\<close>

definition cvm_Consume :: "extlib \<Rightarrow> cvmlib \<Rightarrow> cvmWriter \<Rightarrow> session \<Rightarrow> settings \<Rightarrow> consumable \<Rightarrow> cBlock \<Rightarrow> dbstate
    \<Rightarrow> ((go_error + unit) \<times> dbstate) \<times> cBlock" where
  "cvm_Consume lib cl w sess env c block d =
     (with_tx sess (cvm_indexBlock lib cl w (persist_exec sess) (consumer_ctx env c) (consumable_Body c) block) d,
      case sess_begin sess d of
        (Some e, d1) \<Rightarrow> block
      | (None, d1) \<Rightarrow> block_left lib cl w (persist_exec sess) (consumer_ctx env c) (consumable_Body c) block d1)"

definition CvmLogs_row :: "consumerCtx \<Rightarrow> EthLog \<Rightarrow> bytes \<Rightarrow> CvmLogs" where
  "CvmLogs_row ctx l body =
     zero_CvmLogs\<lparr>CvmLogs_BlockHash := Log_BlockHash l,
      CvmLogs_TxHash := Log_TxHash l,
      CvmLogs_LogIndex := Log_Index l,
      CvmLogs_Block := nat_digits (unat (Log_BlockNumber l)),
      CvmLogs_FirstTopic := (case Log_Topics l of [] \<Rightarrow> [] | t # _ \<Rightarrow> t),
      CvmLogs_Removed := Log_Removed l,
      CvmLogs_CreatedAt := cc_time ctx,
      CvmLogs_Serialization := Some body\<rparr>"

definition cvm_ConsumeLogs :: "extlib \<Rightarrow> session \<Rightarrow> settings \<Rightarrow> consumable \<Rightarrow> EthLog \<Rightarrow> (dbstate, unit) go" where
  "cvm_ConsumeLogs lib sess env c txLogs =
     with_tx sess
       (go_bind (go_lift (CvmLogs_ComputeID lib (CvmLogs_row (consumer_ctx env c) txLogs (consumable_Body c)))) (\<lambda>cvmLogs.
        persist_exec sess (PInsertCvmLogs cvmLogs (set_upd env))))"

definition cvm_ConsumeTrace :: "cvmlib \<Rightarrow> session \<Rightarrow> settings \<Rightarrow> consumable \<Rightarrow> TransactionTrace \<Rightarrow> (dbstate, unit) go" where
  "cvm_ConsumeTrace cl sess env c tt =
     with_tx sess
       (go_bind (go_lift (json_UnmarshalTraceModel cl (Trace_Trace tt))) (\<lambda>m.
        persist_exec sess (PInsertCvmTransactionsTxdataTrace
          \<lparr>CvmTransactionsTxdataTrace_Hash = Trace_Hash tt,
           CvmTransactionsTxdataTrace_Idx = Trace_Idx tt,
           CvmTransactionsTxdataTrace_ToAddr = TraceModel_ToAddr m,
           CvmTransactionsTxdataTrace_FromAddr = TraceModel_FromAddr m,
           CvmTransactionsTxdataTrace_CallType = TraceModel_CallType m,
           CvmTransactionsTxdataTrace_Type = TraceModel_Type m,
           CvmTransactionsTxdataTrace_Serialization = Some (Trace_Trace tt),
           CvmTransactionsTxdataTrace_CreatedAt = cc_time (consumer_ctx env c)\<rparr> (set_upd env))))"

section \<open>Every handler is its calls\<close>

text \<open>The calls for atomic transactions, and those made before the block itself is stored.\<close>

definition atomic_call :: "consumerCtx \<Rightarrow> pcall \<Rightarrow> bool" where
  "atomic_call ctx c \<longleftrightarrow> axc_call ctx c \<or> ctx_calls ctx c \<and> call_table c = TableCvmAddresses"

definition before_call :: "consumerCtx \<Rightarrow> pcall \<Rightarrow> bool" where
  "before_call ctx c \<longleftrightarrow> atomic_call ctx c \<or> ctx_calls ctx c \<and> call_table c = TableCvmTransactionsTxdata"

lemma axc_atomic: "traced (axc_call ctx) p m n \<Longrightarrow> traced (atomic_call ctx) p m n"
  by (erule traced_mono) (simp add: atomic_call_def)

lemma atomic_before: "traced (atomic_call ctx) p m n \<Longrightarrow> traced (before_call ctx) p m n"
  by (erule traced_mono) (simp add: before_call_def)

lemma before_weaken: "traced (before_call ctx) p m n \<Longrightarrow> traced (ctx_calls ctx) p m n"
  by (erule traced_mono) (auto simp: before_call_def atomic_call_def axc_call_def)

lemmas atomic_loops_traced [traced_intros] = insert_ins_traced [THEN part_axc, THEN axc_atomic]
  insert_outs_traced [THEN part_axc, THEN axc_atomic] InsertTransactionBase_traced [THEN axc_atomic]

lemma cvm_insertAddress_traced [traced_intros]:
  "traced (atomic_call ctx) p (cvm_insertAddress lib p ty ctx i t x n) (cvm_insertAddress lib record_call ty ctx i t x n)"
  unfolding cvm_insertAddress_def by (intro traced_intros) (simp add: atomic_call_def call_table_def)

lemma cvm_indexTransaction_traced [traced_intros]:
  "traced (atomic_call ctx) p (cvm_indexTransaction lib w p ctx i ty b f u) (cvm_indexTransaction lib w record_call ctx i ty b f u)"
  unfolding cvm_indexTransaction_def by (intro traced_intros)

lemma evm_puts_traced [traced_intros]:
  "traced (atomic_call ctx) p (evm_puts lib w p ctx ty wn t xs) (evm_puts lib w record_call ctx ty wn t xs)"
  unfolding evm_puts_def case_prod_unfold by (intro traced_intros)

lemma indexExportTx_traced [traced_intros]:
  "traced (atomic_call ctx) p (indexExportTx lib w p ctx t b dc xs ys bs) (indexExportTx lib w record_call ctx t b dc xs ys bs)"
  unfolding indexExportTx_def by (intro traced_intros)

lemma indexImportTx_traced [traced_intros]:
  "traced (atomic_call ctx) p (indexImportTx lib w p ctx t b sc xs ys cr bs u) (indexImportTx lib w record_call ctx t b sc xs ys cr bs u)"
  unfolding indexImportTx_def by (intro traced_intros)

lemma index_atomic_traced [traced_intros]:
  "traced (atomic_call ctx) p (index_atomic lib cl w p ctx bs tx st) (index_atomic lib cl w record_call ctx bs tx st)"
  unfolding index_atomic_def
  by (cases "EvmTx_Unsigned tx"; simp only: unsigned_atomic.case; intro traced_intros)

lemma index_rawtxs_traced [traced_intros]:
  "traced (before_call ctx) p (index_rawtxs cl p ctx b) (index_rawtxs cl record_call ctx b)"
  unfolding index_rawtxs_def by (intro traced_intros) (simp add: before_call_def call_table_def)

lemma indexBlock_before_traced:
  "traced (before_call ctx) p (indexBlock_before lib cl w p ctx bs b) (indexBlock_before lib cl w record_call ctx bs b)"
  unfolding indexBlock_before_def by (intro traced_intros index_atomic_traced [THEN atomic_before])

lemma indexBlock_after_traced:
  "traced (ctx_calls ctx) p (indexBlock_after lib cl p ctx b st) (indexBlock_after lib cl record_call ctx b st)"
  unfolding indexBlock_after_def by (intro traced_intros) simp

lemma cvm_indexBlock_traced:
  "traced (ctx_calls ctx) p (cvm_indexBlock lib cl w p ctx bs b) (cvm_indexBlock lib cl w record_call ctx bs b)"
  unfolding cvm_indexBlock_def
  by (intro traced_intros indexBlock_before_traced [THEN before_weaken] indexBlock_after_traced)

section \<open>Rows and fees\<close>

definition txdata_row :: "pcall \<Rightarrow> CvmTransactionsTxdata option" where
  "txdata_row c = (case c of PInsertCvmTransactionsTxdata v _ \<Rightarrow> Some v | _ \<Rightarrow> None)"

lemma atomic_no_txdata: "atomic_call ctx c \<Longrightarrow> txdata_row c = None"
proof -
  have "txdata_row c = Some v \<Longrightarrow> call_table c = TableCvmTransactionsTxdata" for v
    by (simp add: txdata_row_def split: pcall.splits) (simp add: call_table_def)
  then show "atomic_call ctx c \<Longrightarrow> txdata_row c = None"
    by (cases "txdata_row c") (auto simp: atomic_call_def axc_call_def part_tables_def)
qed

definition txdata_rows :: "cvmlib \<Rightarrow> consumerCtx \<Rightarrow> cBlock \<Rightarrow> CvmTransactionsTxdata list" where
  "txdata_rows cl ctx block = map (\<lambda>(ipos, rawtx). Txdata_row ctx block ipos rawtx (projr (json_MarshalRawTx cl rawtx)))
     (enumerate 0 (Block_Txs block))"

lemma index_rawtxs_adds: "adds txdata_row (index_rawtxs cl record_call ctx b) (txdata_rows cl ctx b)"
proof -
  have one: "adds txdata_row ((\<lambda>(ipos, rawtx). go_bind (go_lift (json_MarshalRawTx cl rawtx)) (\<lambda>txdata.
        record_call (PInsertCvmTransactionsTxdata (Txdata_row ctx b ipos rawtx txdata) (cc_upd ctx)))) x)
      [(\<lambda>(ipos, rawtx). Txdata_row ctx b ipos rawtx (projr (json_MarshalRawTx cl rawtx))) x]" for x
    by (cases "json_MarshalRawTx cl (snd x)")
      (auto simp: split_beta adds_def go_simps record_call_def txdata_row_def List.map_filter_def)
  have "adds txdata_row (index_rawtxs cl record_call ctx b)
    (concat (map (\<lambda>x. [(\<lambda>(ipos, rawtx). Txdata_row ctx b ipos rawtx (projr (json_MarshalRawTx cl rawtx))) x])
      (enumerate 0 (Block_Txs b))))"
    unfolding index_rawtxs_def by (rule adds_for_concat) (rule one)
  then show ?thesis by (simp add: txdata_rows_def)
qed

lemma cvm_indexBlock_txdata: "adds txdata_row (cvm_indexBlock lib cl w record_call ctx bs b) (txdata_rows cl ctx b)"
proof -
  have "adds txdata_row (go_fold (index_atomic lib cl w record_call ctx bs) xs st) []" for xs st
    by (rule adds_traced [of "atomic_call ctx"]) (intro traced_intros, simp add: atomic_no_txdata)
  moreover have "adds txdata_row (indexBlock_after lib cl record_call ctx b' st) []" for b' st
    unfolding indexBlock_after_def
    by (cases st) (auto intro!: adds_bind_left adds_lift adds_for adds_call_None simp: txdata_row_def)
  ultimately show ?thesis
    unfolding cvm_indexBlock_def indexBlock_before_def
    by (intro adds_bind_right adds_bind_left adds_lift adds_prod adds_then_right adds_return index_rawtxs_adds)
qed

definition put_amount :: "cvmWriter \<Rightarrow> EVMPut \<Rightarrow> nat" where
  "put_amount w x = (if EVMPut_AssetID x = axcW_axcAssetID (cvmW_axc w) then unat (EVMPut_Amount x) else 0)"

lemma evm_puts_total:
  assumes "Add64_checked lib" "evm_puts lib w p ctx ty wn t xs s = (Inr tot, s')"
  shows "unat tot = sum_list (map (put_amount w) xs)"
proof -
  let ?f = "\<lambda>(icnt, put) tot. go_then (cvm_insertAddress lib p ty ctx (word_of_nat icnt) t put (if wn then EVMPut_Nonce put else 0))
         (go_lift (addTotal lib (cvmW_axc w) (EVMPut_AssetID put) tot (EVMPut_Amount put)))"
  have "go_fold ?f (enumerate k xs) a s = (Inr tot, s') \<Longrightarrow> unat tot = unat a + sum_list (map (put_amount w) xs)" for k a s
  proof (induction xs arbitrary: k a s)
    case Nil
    then show ?case by (simp add: go_simps)
  next
    case (Cons x xs)
    then obtain a' s1 s2 where "addTotal lib (cvmW_axc w) (EVMPut_AssetID x) a (EVMPut_Amount x) = Inr a'"
      "go_fold ?f (enumerate (Suc k) xs) a' s2 = (Inr tot, s')"
      by (auto simp: go_lift_Inr elim!: go_bind_Inr go_then_Inr)
    from Cons.IH [OF this(2)] addTotal_Inr [OF assms(1) this(1)] show ?case by (simp add: put_amount_def)
  qed
  from this [of 0 0 s] assms(2) show ?thesis by (simp add: evm_puts_def)
qed

lemma uint_sub_mod: "unat (a :: u64) = m \<Longrightarrow> unat b = n \<Longrightarrow> uint (a - b) = (int m - int n) mod 2 ^ 64"
  using uint_word_ariths(2) [of a b] by auto

text \<open>The fee of an atomic transaction, on success.\<close>

lemma cvm_indexTransaction_row:
  "adds tx_row (cvm_indexTransaction lib w record_call ctx i ty b f u)
     [\<lparr>Transactions_ID = ID_String lib i, Transactions_ChainID = ID_String lib b,
       Transactions_Type = (if ty = AXChainImport then ''atomic_import_tx''
                       else if ty = AXChainExport then ''atomic_export_tx'' else []),
       Transactions_Memo = Some [],
       Transactions_CanonicalSerialization = (if length u > MaxSerializationLen then Some [] else Some u),
       Transactions_Txfee = f, Transactions_NetworkID = cvmW_networkID w, Transactions_Genesis = False,
       Transactions_CreatedAt = cc_time ctx\<rparr>]"
  unfolding cvm_indexTransaction_def InsertTransactionBase_def Let_def
  by (rule adds_call_Some) (simp add: row_defs slice_len_def MaxMemoLen_def)

lemma part_no_tx_row: "part_call ctx c \<Longrightarrow> tx_row c = None"
proof -
  have "tx_row c = Some v \<Longrightarrow> call_table c = TableTransactions" for v
    by (simp add: tx_row_def split: pcall.splits) (simp add: call_table_def)
  then show "part_call ctx c \<Longrightarrow> tx_row c = None"
    by (cases "tx_row c") (auto simp: part_call_def part_tables_def)
qed

lemma evm_puts_no_tx: "adds tx_row (evm_puts lib w record_call ctx ty wn t xs) []"
  unfolding evm_puts_def cvm_insertAddress_def case_prod_unfold
  by (intro adds_fold adds_then_right adds_lift adds_call_None) (simp add: row_defs)

lemma insert_outs_no_tx: "adds tx_row (insert_outs lib w record_call ctx t c sk xs st) []"
  by (rule adds_traced [OF insert_outs_traced part_no_tx_row])

lemma indexExportTx_fee:
  assumes "Add64_checked lib" "indexExportTx lib w record_call ctx t b dc xs ys bs cs = (Inr (), cs')"
  shows "\<exists>r. List.map_filter tx_row cs' = List.map_filter tx_row cs @ [r] \<and> Transactions_ID r = ID_String lib t
    \<and> uint (Transactions_Txfee r)
      = (int (sum_list (map (put_amount w) xs)) - int (sum_list (map (out_amount (cvmW_axc w)) ys))) mod 2 ^ 64"
proof -
  from assms(2) obtain ti c1 i to c2 where
    r1: "evm_puts lib w record_call ctx AXChainIn True t xs cs = (Inr ti, c1)"
    and r2: "insert_outs lib (cvmW_axc w) record_call ctx t (ID_String lib dc) False ys (0, 0) c1 = (Inr (i, to), c2)"
    and r3: "cvm_indexTransaction lib w record_call ctx t AXChainExport b (ti - to) bs c2 = (Inr (), cs')"
    unfolding indexExportTx_def by (auto elim!: go_bind_Inr)
  have "uint (ti - to) = (int (sum_list (map (put_amount w) xs)) - int (sum_list (map (out_amount (cvmW_axc w)) ys))) mod 2 ^ 64"
    using evm_puts_total [OF assms(1) r1] insert_outs_total [OF assms(1) r2] by (intro uint_sub_mod) simp_all
  with addsD [OF evm_puts_no_tx r1] addsD [OF insert_outs_no_tx r2] addsD [OF cvm_indexTransaction_row r3]
  show ?thesis by simp
qed

section \<open>The row of a block\<close>

lemma CvmTransactions_first_wins:
  assumes "sql_session sess" "\<not> cc_upd ctx" "i = i'"
    and "sql_select TableCvmTransactions (CvmTransactions_key (CvmTransactions_row lib ctx block i ty bc bj t)) (tabs d) = [r]"
    and "go_for (\<lambda>t. persist_exec sess (PInsertCvmTransactions (CvmTransactions_row lib ctx block i' ty bc bj t) (cc_upd ctx))) ts d = (Inr (), d')"
  shows "sql_select TableCvmTransactions (CvmTransactions_key (CvmTransactions_row lib ctx block i ty bc bj t)) (tabs d') = [r]"
  using assms(4,5)
proof (induction ts arbitrary: d)
  case (Cons t' ts)
  let ?v = "CvmTransactions_row lib ctx block i ty bc bj t'"
  from Cons.prems(2) obtain u d1 where
    ins: "exec_insert sess TableCvmTransactions TableCvmTransactions (CvmTransactions_cols ?v) d = (Inr u, d1)"
    and rest: "go_for (\<lambda>t. persist_exec sess (PInsertCvmTransactions (CvmTransactions_row lib ctx block i' ty bc bj t) (cc_upd ctx))) ts d1 = (Inr (), d')"
    using assms(2,3) by (auto simp: InsertCvmTransactions_def go_return_def elim!: go_then_Inr)
  have key: "CvmTransactions_key ?v = CvmTransactions_key (CvmTransactions_row lib ctx block i ty bc bj t)"
    by (simp add: CvmTransactions_key_def CvmTransactions_row_def Let_def)
  have "tabs d1 = tabs d"
    using sql_session.exec_oks(1) [OF assms(1) ins] CvmTransactions_dao.ins_taken [of ?v "tabs d"] Cons.prems(1) key by simp
  with Cons.IH [OF _ rest] Cons.prems(1) show ?case by simp
qed (simp add: go_simps)

lemma cvm_indexBlock_stages:
  assumes "cvm_indexBlock lib cl w p ctx bs block s = (Inr (), s')"
    and "extractAtomicTxs cl w bs block = Inr atxs"
    and "ToID lib (ComputeHash256 lib (bytes_of_string (Itoa (Header_Number (Block_Header block))))) = Inr i"
  obtains ty bc s1 bj where "indexBlock_before lib cl w p ctx bs block s = (Inr (i, ty, bc, map (\<lambda>tx. ID_String lib (EvmTx_ID tx)) atxs), s1)"
    and "json_MarshalBlock cl (clear_txs block) = Inr bj"
    and "go_for (\<lambda>t. p (PInsertCvmTransactions (CvmTransactions_row lib ctx (clear_txs block) i ty bc bj t) (cc_upd ctx)))
           (map (\<lambda>tx. ID_String lib (EvmTx_ID tx)) atxs) s1 = (Inr (), s')"
proof -
  from assms(1) obtain v s1 where v: "indexBlock_before lib cl w p ctx bs block s = (Inr v, s1)"
    and af: "indexBlock_after lib cl p ctx (clear_txs block) v s1 = (Inr (), s')"
    unfolding cvm_indexBlock_def by (rule go_bind_Inr)
  from v assms(2,3) obtain ty bc where "v = (i, ty, bc, map (\<lambda>tx. ID_String lib (EvmTx_ID tx)) atxs)"
    unfolding indexBlock_before_def by (auto simp: go_lift_Inr go_return_def elim!: go_bind_Inr go_then_Inr)
  with af v that show ?thesis
    unfolding indexBlock_after_def by (auto simp: go_lift_Inr elim!: go_bind_Inr)
qed

lemma before_keeps_CvmTransactions:
  assumes "sql_session sess" "indexBlock_before lib cl w (persist_exec sess) ctx bs block d = (Inr v, d')"
  shows "tabs d' TableCvmTransactions = tabs d TableCvmTransactions"
proof -
  note tr = indexBlock_before_traced [of ctx "persist_exec sess" lib cl w bs block]
  have "list_all (\<lambda>c. call_table c \<noteq> TableCvmTransactions) (trace (indexBlock_before lib cl w record_call ctx bs block))"
    using traced_all [OF tr] by (auto simp: list_all_iff before_call_def atomic_call_def axc_call_def part_tables_def)
  then show ?thesis using sql_session.handler_ok(2) [OF assms(1) tr assms(2)] calls_effect_other by metis
qed

lemma txdata_table_row: "call_table c = TableCvmTransactionsTxdata \<Longrightarrow> txdata_row c \<noteq> None"
  by (cases c) (simp_all add: call_table_def txdata_row_def)

lemma no_txdata_calls:
  "List.map_filter txdata_row cs = [] \<Longrightarrow> list_all (\<lambda>c. call_table c \<noteq> TableCvmTransactionsTxdata) cs"
  using txdata_table_row by (fastforce simp: list_all_iff List.map_filter_def filter_empty_conv)

text \<open>Consuming a block whose transactions are gone writes no row for any of them.\<close>

lemma cleared_no_txdata:
  assumes "sql_session sess" "cvm_Consume lib cl w sess env c (clear_txs block) d1 = ((Inr (), d2), block2)"
  shows "tabs d2 TableCvmTransactionsTxdata = tabs d1 TableCvmTransactionsTxdata"
proof -
  let ?h = "cvm_indexBlock lib cl w record_call (consumer_ctx env c) (consumable_Body c) (clear_txs block)"
  have "with_tx sess (cvm_indexBlock lib cl w (persist_exec sess) (consumer_ctx env c) (consumable_Body c) (clear_txs block)) d1 = (Inr (), d2)"
    using assms(2) by (simp add: cvm_Consume_def)
  from sql_session.tx_handler_atomic [OF assms(1) cvm_indexBlock_traced this]
  have h: "outcome ?h = Inr ()" "tabs d2 = fold call_effect (trace ?h) (tabs d1)" by simp_all
  have "List.map_filter txdata_row (trace ?h) = []"
    using addsD [OF cvm_indexBlock_txdata, of lib cl w "consumer_ctx env c" "consumable_Body c" "clear_txs block" "[]" "()" "trace ?h"] h(1)
    by (simp add: outcome_def trace_def prod_eq_iff List.map_filter_def txdata_rows_def clear_txs_def)
  from calls_effect_other [OF no_txdata_calls [OF this]] h(2) show ?thesis by simp
qed

lemma cvm_Consume_block_left:
  assumes "cvm_Consume lib cl w sess env c block d = (r, block')"
  shows "block' = block \<or> block' = clear_txs block"
  using assms by (auto simp: cvm_Consume_def block_left_def split: prod.splits option.splits sum.splits)

lemma clear_txs_twice [simp]: "clear_txs (clear_txs block) = clear_txs block"
  by (simp add: clear_txs_def)

section \<open>A sample block\<close>

definition sample_cblock :: cBlock where
  "sample_cblock = \<lparr>Block_Header = \<lparr>Header_Number = 5, Header_Time = 7, Header_Nonce = 0, Header_Hash = ''h'', Header_ParentHash = ''p'', Header_GasUsed = 0, Header_GasLimit = 0\<rparr>,
     Block_TxsBytes = None, Block_Version = 0, Block_BlockExtraData = None,
     Block_Txs = [\<lparr>RawTx_Hash = ''t'', RawTx_To = None, RawTx_Nonce = 1, RawTx_Data = []\<rparr>]\<rparr>"

definition sample_atomic :: "ID \<Rightarrow> EvmTx" where
  "sample_atomic i = \<lparr>EvmTx_ID = i,
     EvmTx_Unsigned = EvmExportTx [70] [71] [\<lparr>EVMPut_Address = ''a'', EVMPut_AssetID = [9], EVMPut_Amount = 3, EVMPut_Nonce = 0\<rparr>]
       [sample_out 5],
     EvmTx_Creds = []\<rparr>"

definition sample_cvmlib :: cvmlib where
  "sample_cvmlib = \<lparr>
     cvm_UnmarshalTx = (\<lambda>b. Inl EOF),
     cvm_UnmarshalTxs = (\<lambda>b. Inr [sample_atomic [72], sample_atomic [73]]),
     cvm_Sign = Inr,
     cvm_MarshalUnsigned = (\<lambda>u. Inr [1]),
     json_MarshalRawTx = (\<lambda>t. Inr [2]),
     json_MarshalBlock = (\<lambda>b. Inr [3]),
     json_UnmarshalBlock = (\<lambda>b. Inr sample_cblock),
     json_UnmarshalRawTx = (\<lambda>b. Inl EOF),
     json_UnmarshalTraceModel = (\<lambda>b. Inl EOF)\<rparr>"

definition sample_cvm :: cvmWriter where
  "sample_cvm = \<lparr>cvmW_networkID = 1, cvmW_axc = sample_writer, cvmW_ap5Activation = 1\<rparr>"

text \<open>A server that reports a deadlock at its third call.\<close>

definition deadlock_once :: session where
  "deadlock_once = mysql (\<lambda>n s. if n = 2 then Some (ErrorString (''Error 1213: '' @ DeadlockDBErrorMessage)) else None)"

lemma deadlock_once_session: "sql_session deadlock_once"
  unfolding deadlock_once_def
  by (rule mysql_session) (auto simp: ErrIsDuplicateEntryError_def HasPrefix_def split: if_splits)

lemmas sample_cvm_defs = sample_cblock_def sample_cvmlib_def sample_cvm_def sample_atomic_def
  cvm_indexBlock_def indexBlock_before_def indexBlock_after_def extractAtomicTxs_def extractAtomicTxsPostApricotPhase5_def
  index_atomic_def indexExportTx_def evm_puts_def cvm_insertAddress_def cvm_indexTransaction_def index_rawtxs_def clear_txs_def

lemma sample_cvm_outcome:
  "outcome (cvm_indexBlock sample_lib sample_cvmlib sample_cvm record_call sample_ctx [66] sample_cblock) = Inr ()"
  by (simp add: outcome_def sample_cvm_defs axc_defs sample_defs record_call_def go_simps)

lemma go_then_return_unit: "go_then m (go_return ()) = m"
  by (rule ext) (simp add: go_then_run go_return_def split: prod.splits sum.splits)

lemmas cvm_retry_eval = InsertCvmTransactionsTxdata_def exec_insert_def exec_stmt_def sql_insert_def go_then_return_unit
  sql_apply.simps cvm_Consume_def block_left_def with_tx_def deadlock_once_def mysql_def tick_def
  empty_db_def sample_msg_def sample_env_def consumer_ctx_def sample_cvm_defs sample_defs go_simps

section \<open>Properties\<close>

text \<open>C8. Consuming a block of the EVM chain is atomic: when \<open>Consume\<close> returns an error no table
  has changed, and otherwise the tables hold exactly the effect of the calls that indexing the
  block makes; and indexing a block writes one row for each of its transactions, in order.\<close>

theorem cvm_Consume_atomic:
  assumes "sql_session sess" "cvm_Consume lib cl w sess env c block d = ((r, d'), block')"
    and "h = cvm_indexBlock lib cl w record_call (consumer_ctx env c) (consumable_Body c) block"
  shows "case r of
      Inl e \<Rightarrow> tabs d' = tabs d
    | Inr _ \<Rightarrow> outcome h = Inr () \<and> tabs d' = fold call_effect (trace h) (tabs d)
        \<and> List.map_filter txdata_row (trace h) = txdata_rows cl (consumer_ctx env c) block"
proof -
  have "with_tx sess (cvm_indexBlock lib cl w (persist_exec sess) (consumer_ctx env c) (consumable_Body c) block) d = (r, d')"
    using assms(2) by (simp add: cvm_Consume_def)
  from sql_session.tx_handler_atomic [OF assms(1) cvm_indexBlock_traced this] assms(3)
  have at: "case r of Inr a \<Rightarrow> outcome h = Inr a \<and> tabs d' = fold call_effect (trace h) (tabs d) | Inl e \<Rightarrow> tabs d' = tabs d"
    by (cases r) simp_all
  have "outcome h = Inr () \<Longrightarrow> List.map_filter txdata_row (trace h) = txdata_rows cl (consumer_ctx env c) block"
    using addsD [OF cvm_indexBlock_txdata, of lib cl w "consumer_ctx env c" "consumable_Body c" block "[]" "()" "trace h"] assms(3)
    by (simp add: outcome_def trace_def prod_eq_iff List.map_filter_def)
  with at show ?thesis by (cases r) auto
qed

theorem cvm_Consume_atomic_witness:
  "\<exists>d' b'. cvm_Consume sample_lib sample_cvmlib sample_cvm ideal sample_env (sample_msg [66]) sample_cblock empty_db = ((Inr (), d'), b')
    \<and> length (List.map_filter txdata_row (trace (cvm_indexBlock sample_lib sample_cvmlib sample_cvm record_call sample_ctx [66] sample_cblock))) = 1"
proof -
  have "traced (call_upd False) (persist_exec ideal)
      (cvm_indexBlock sample_lib sample_cvmlib sample_cvm (persist_exec ideal) sample_ctx [66] sample_cblock)
      (cvm_indexBlock sample_lib sample_cvmlib sample_cvm record_call sample_ctx [66] sample_cblock)"
    using cvm_indexBlock_traced [of sample_ctx] by simp
  from ideal_tx_handler [OF this, of empty_db] obtain d' b' where
    run: "cvm_Consume sample_lib sample_cvmlib sample_cvm ideal sample_env (sample_msg [66]) sample_cblock empty_db = ((Inr (), d'), b')"
    by (auto simp: cvm_Consume_def sample_msg_ctx sample_cvm_outcome)
  from cvm_Consume_atomic [OF ideal.sql_session_axioms this refl] run show ?thesis
    by (simp add: sample_msg_ctx txdata_rows_def) (simp add: sample_cblock_def)
qed

text \<open>The fee stored for an export from the EVM chain is the difference of the totals modulo
  \<open>2 ^ 64\<close>: unlike \<open>InsertTransaction\<close>, the code does not test whether more goes out than
  comes in, and then stores a fee close to \<open>2 ^ 64\<close>.\<close>

theorem cvm_export_fee_mod:
  assumes "Add64_checked lib"
    and "outcome (indexExportTx lib w record_call ctx txID bc dc ins outs bs) = Inr ()"
    and "cs = trace (indexExportTx lib w record_call ctx txID bc dc ins outs bs)"
  shows "\<exists>r. List.map_filter tx_row cs = [r] \<and> Transactions_ID r = ID_String lib txID
    \<and> uint (Transactions_Txfee r)
      = (int (sum_list (map (put_amount w) ins)) - int (sum_list (map (out_amount (cvmW_axc w)) outs))) mod 2 ^ 64"
proof -
  have "indexExportTx lib w record_call ctx txID bc dc ins outs bs [] = (Inr (), cs)"
    using assms(2,3) by (simp add: outcome_def trace_def prod_eq_iff)
  from indexExportTx_fee [OF assms(1) this] show ?thesis by (simp add: List.map_filter_def)
qed

theorem cvm_export_fee_mod_witness:
  "\<exists>r. List.map_filter tx_row (trace (indexExportTx sample_lib sample_cvm record_call sample_ctx [72] [70] [71]
        [\<lparr>EVMPut_Address = ''a'', EVMPut_AssetID = [9], EVMPut_Amount = 3, EVMPut_Nonce = 0\<rparr>] [sample_out 5] [])) = [r]
    \<and> uint (Transactions_Txfee r) = 2 ^ 64 - 2"
proof -
  have "outcome (indexExportTx sample_lib sample_cvm record_call sample_ctx [72] [70] [71]
        [\<lparr>EVMPut_Address = ''a'', EVMPut_AssetID = [9], EVMPut_Amount = 3, EVMPut_Nonce = 0\<rparr>] [sample_out 5] []) = Inr ()"
    by (simp add: outcome_def sample_cvm_defs axc_defs sample_defs record_call_def go_simps)
  from cvm_export_fee_mod [OF sample_lib_Add64 this refl] show ?thesis
    by (auto simp: put_amount_def out_amount_def sample_cvm_def sample_writer_def axc_NewWriter_def sample_out_def)
qed

text \<open>C9. A block of the EVM chain is stored under the hash of its number, once for each of its
  atomic transactions. All these rows have the same key, so without updates only the row of
  the first atomic transaction is kept, and a block without atomic transactions has no row.\<close>

theorem cvm_block_keeps_first_atomic:
  assumes "sql_session sess" "\<not> cc_upd ctx"
    and run: "cvm_indexBlock lib cl w (persist_exec sess) ctx bs block d = (Inr (), d')"
    and "extractAtomicTxs cl w bs block = Inr atxs"
    and "ToID lib (ComputeHash256 lib (bytes_of_string (Itoa (Header_Number (Block_Header block))))) = Inr i"
    and free: "sql_select TableCvmTransactions [Eq ''id'' (VS (ID_String lib i))] (tabs d) = []"
  shows "map (CvmTransactions_TransactionID \<circ> row_of_CvmTransactions)
      (sql_select TableCvmTransactions [Eq ''id'' (VS (ID_String lib i))] (tabs d'))
    = map (\<lambda>tx. ID_String lib (EvmTx_ID tx)) (take 1 atxs)"
proof -
  obtain ty bc d1 bj where
    before: "indexBlock_before lib cl w (persist_exec sess) ctx bs block d = (Inr (i, ty, bc, map (\<lambda>tx. ID_String lib (EvmTx_ID tx)) atxs), d1)"
    and "json_MarshalBlock cl (clear_txs block) = Inr bj"
    and after: "go_for (\<lambda>t. persist_exec sess (PInsertCvmTransactions (CvmTransactions_row lib ctx (clear_txs block) i ty bc bj t) (cc_upd ctx)))
           (map (\<lambda>tx. ID_String lib (EvmTx_ID tx)) atxs) d1 = (Inr (), d')"
    by (rule cvm_indexBlock_stages [OF run assms(4,5)])
  have free1: "sql_select TableCvmTransactions [Eq ''id'' (VS (ID_String lib i))] (tabs d1) = []"
    using before_keeps_CvmTransactions [OF assms(1) before] free by (simp add: sql_select_def)
  show ?thesis
  proof (cases atxs)
    case Nil
    with after free1 show ?thesis by (simp add: go_simps)
  next
    case (Cons tx txs)
    let ?v = "CvmTransactions_row lib ctx (clear_txs block) i ty bc bj (ID_String lib (EvmTx_ID tx))"
    have key: "CvmTransactions_key ?v = [Eq ''id'' (VS (ID_String lib i))]"
      by (simp add: CvmTransactions_key_def CvmTransactions_row_def Let_def)
    from after Cons have "go_then (persist_exec sess (PInsertCvmTransactions ?v (cc_upd ctx)))
        (go_for (\<lambda>t. persist_exec sess (PInsertCvmTransactions (CvmTransactions_row lib ctx (clear_txs block) i ty bc bj t) (cc_upd ctx)))
           (map (\<lambda>tx. ID_String lib (EvmTx_ID tx)) txs)) d1 = (Inr (), d')" by simp
    then obtain u d2 where
      first: "persist_exec sess (PInsertCvmTransactions ?v (cc_upd ctx)) d1 = (Inr u, d2)"
      and rest: "go_for (\<lambda>t. persist_exec sess (PInsertCvmTransactions (CvmTransactions_row lib ctx (clear_txs block) i ty bc bj t) (cc_upd ctx)))
           (map (\<lambda>tx. ID_String lib (EvmTx_ID tx)) txs) d2 = (Inr (), d')"
      by (rule go_then_Inr)
    from first assms(2) have ins: "exec_insert sess TableCvmTransactions TableCvmTransactions (CvmTransactions_cols ?v) d1 = (Inr (), d2)"
      by (simp add: InsertCvmTransactions_def go_then_return_unit)
    from CvmTransactions_dao.stored_insert [OF assms(1) ins] free1 key
    obtain r where r: "sql_select TableCvmTransactions (CvmTransactions_key ?v) (tabs d2) = [r]" "row_of_CvmTransactions r = ?v"
      by (auto simp: map_eq_Cons_conv)
    from CvmTransactions_first_wins [OF assms(1,2) refl r(1) rest] r(2) Cons key show ?thesis
      by (simp add: CvmTransactions_row_def Let_def)
  qed
qed

theorem cvm_block_keeps_first_atomic_witness:
  "\<exists>d'. cvm_indexBlock sample_lib sample_cvmlib sample_cvm (persist_exec ideal) sample_ctx [66] sample_cblock empty_db = (Inr (), d')
    \<and> map (CvmTransactions_TransactionID \<circ> row_of_CvmTransactions)
      (sql_select TableCvmTransactions [Eq ''id'' (VS (ID_String sample_lib (bytes_of_string ''5'')))] (tabs d'))
    = [ID_String sample_lib [72]]"
proof -
  have "traced (call_upd False) (persist_exec ideal)
      (cvm_indexBlock sample_lib sample_cvmlib sample_cvm (persist_exec ideal) sample_ctx [66] sample_cblock)
      (cvm_indexBlock sample_lib sample_cvmlib sample_cvm record_call sample_ctx [66] sample_cblock)"
    using cvm_indexBlock_traced [of sample_ctx] by simp
  from sqlp.run_handler [OF this, of empty_db] obtain d' where
    run: "cvm_indexBlock sample_lib sample_cvmlib sample_cvm (persist_exec ideal) sample_ctx [66] sample_cblock empty_db = (Inr (), d')"
    using sample_cvm_outcome by auto
  have ext: "extractAtomicTxs sample_cvmlib sample_cvm [66] sample_cblock = Inr [sample_atomic [72], sample_atomic [73]]"
    by (simp add: sample_cvm_defs)
  have five: "Itoa (5 :: int) = ''5''"
    by (simp add: Itoa_def nat_digits_small digit_char_def char_of_eq_iff)
  have i: "ToID sample_lib (ComputeHash256 sample_lib (bytes_of_string (Itoa (Header_Number (Block_Header sample_cblock)))))
      = Inr (bytes_of_string ''5'')"
    using five by (simp add: sample_lib_def sample_cblock_def)
  have "sql_select TableCvmTransactions [Eq ''id'' (VS (ID_String sample_lib (bytes_of_string ''5'')))] (tabs empty_db) = []"
    by (simp add: empty_db_def sql_select_def)
  from cvm_block_keeps_first_atomic [OF ideal.sql_session_axioms _ run ext i this] run show ?thesis
    by (simp add: sample_atomic_def)
qed

end
