(* ===== verification/Stream.thy ===== *)
theory Stream
  imports PvmWriter AvmWriter CvmWriter
begin

text \<open>
  The consumers of the message pool, \<open>src/stream/stream.go\<close>, \<open>processor.go\<close>,
  \<open>consumer_db.go\<close>, \<open>consumer_axchain_db.go\<close> and the factories of
  \<open>src/stream/consumers/indexer.go\<close>: a row of the pool becomes a message, and the message is
  handed to the writer of its chain again and again until the server does not answer with a
  lock error. A loop that never ends has the value \<open>None\<close>.
\<close>

section \<open>stream.go and processor.go\<close>

type_synonym EventType = string

definition EventTypeConsensus :: EventType where
  "EventTypeConsensus = ''consensus''"

definition EventTypeDecisions :: EventType where
  "EventTypeDecisions = ''decisions''"

definition ErrUnknownVM :: go_error where
  "ErrUnknownVM = ErrorString ''unknown VM''"

definition NewMessage :: "string \<Rightarrow> string \<Rightarrow> bytes \<Rightarrow> int \<Rightarrow> int \<Rightarrow> consumable" where
  "NewMessage i chainID body timestamp nanosecond =
     \<lparr>consumable_ID = i, consumable_ChainID = chainID, consumable_Body = body,
      consumable_Timestamp = timestamp, consumable_Nanosecond = nanosecond\<rparr>"

definition GetTopicName :: "u32 \<Rightarrow> string \<Rightarrow> EventType \<Rightarrow> string" where
  "GetTopicName networkID chainID eventType = nat_digits (unat networkID) @ ''-'' @ chainID @ ''-'' @ eventType"

abbreviation newline :: string where
  "newline \<equiv> [CHR 0x0A]"

lemma trim_prefix_shorter: "TrimPrefix msg newline \<noteq> msg \<Longrightarrow> length (TrimPrefix msg newline) < length msg"
  by (cases msg) (auto simp: TrimPrefix_def HasPrefix_def split: if_splits)

lemma trim_suffix_shorter: "TrimSuffix msg newline \<noteq> msg \<Longrightarrow> length (TrimSuffix msg newline) < length msg"
  by (cases msg) (auto simp: TrimSuffix_def HasSuffix_def split: if_splits)

function trim_front :: "string \<Rightarrow> string" where
  "trim_front msg = (let m = TrimPrefix msg newline in if m = msg then m else trim_front m)"
  by pat_completeness auto
termination
  by (relation "measure length") (simp_all add: trim_prefix_shorter trim_suffix_shorter)

function trim_back :: "string \<Rightarrow> string" where
  "trim_back msg = (let m = TrimSuffix msg newline in if m = msg then m else trim_back m)"
  by pat_completeness auto
termination
  by (relation "measure length") (simp_all add: trim_prefix_shorter trim_suffix_shorter)

declare trim_front.simps [simp del] trim_back.simps [simp del]

definition TrimNL :: "string \<Rightarrow> string" where
  "TrimNL msg = trim_back (trim_front msg)"

section \<open>The retry loop\<close>

text \<open>\<open>for { err = f(); if !utils.ErrIsLockError(err) { break }; rsleep.Inc() }\<close>\<close>

definition result_err :: "go_error + 'a \<Rightarrow> go_error option" where
  "result_err r = (case r of Inl e \<Rightarrow> Some e | Inr _ \<Rightarrow> None)"

partial_function (option) retry_lock :: "('s \<Rightarrow> (go_error + unit) \<times> 's) \<Rightarrow> RetrySleeper \<Rightarrow> 's
    \<Rightarrow> ((go_error + unit) \<times> 's \<times> RetrySleeper) option" where
  "retry_lock f rsleep s =
     (case f s of (r, s') \<Rightarrow>
        if ErrIsLockError (result_err r) then retry_lock f (fst (RetrySleeper_Inc rsleep)) s'
        else Some (r, s', rsleep))"

definition new_sleeper :: RetrySleeper where
  "new_sleeper = NewRetrySleeper 1 100000000 1000000000"

definition retry :: "('s \<Rightarrow> (go_error + unit) \<times> 's) \<Rightarrow> 's \<Rightarrow> ((go_error + unit) \<times> 's) option" where
  "retry f s = map_option (\<lambda>(r, s', _). (r, s')) (retry_lock f new_sleeper s)"

section \<open>The state a consumer works on\<close>

text \<open>The database, the counters of the metrics package, which exist once they are initialised
  (the counters of elapsed milliseconds are left out), and how often the balance manager was
  told to run.\<close>

record node =
  node_db :: dbstate
  node_metrics :: "string \<rightharpoonup> nat"
  node_execs :: nat

definition CounterInit :: "string \<Rightarrow> (string \<rightharpoonup> nat) \<Rightarrow> (string \<rightharpoonup> nat)" where
  "CounterInit name m = (case m name of Some _ \<Rightarrow> m | None \<Rightarrow> m(name \<mapsto> 0))"

definition CounterInc :: "string \<Rightarrow> (string \<rightharpoonup> nat) \<Rightarrow> (string \<rightharpoonup> nat)" where
  "CounterInc name m = (case m name of Some n \<Rightarrow> m(name \<mapsto> Suc n) | None \<Rightarrow> m)"

definition MetricConsumeProcessedCountKey :: string where
  "MetricConsumeProcessedCountKey = ''consume_records_processed''"

definition MetricConsumeSuccessCountKey :: string where
  "MetricConsumeSuccessCountKey = ''consume_records_success''"

definition MetricConsumeFailureCountKey :: string where
  "MetricConsumeFailureCountKey = ''consume_records_failure''"

text \<open>The end of every \<open>Consume\<close>: the failure or success counters, the balance manager where the
  method calls it, and the counters of the deferred \<open>collectors.Collect()\<close>.\<close>

record metric_keys =
  metricProcessedCountKey :: string
  metricSuccessCountKey :: string
  metricFailureCountKey :: string

definition Failure :: "metric_keys \<Rightarrow> node \<Rightarrow> node" where
  "Failure k n = n\<lparr>node_metrics := CounterInc MetricConsumeFailureCountKey (CounterInc (metricFailureCountKey k) (node_metrics n))\<rparr>"

definition Success :: "metric_keys \<Rightarrow> node \<Rightarrow> node" where
  "Success k n = n\<lparr>node_metrics := CounterInc MetricConsumeSuccessCountKey (CounterInc (metricSuccessCountKey k) (node_metrics n))\<rparr>"

definition Collect_processed :: "metric_keys \<Rightarrow> node \<Rightarrow> node" where
  "Collect_processed k n = n\<lparr>node_metrics := CounterInc MetricConsumeProcessedCountKey (CounterInc (metricProcessedCountKey k) (node_metrics n))\<rparr>"

definition BalanceManager_Exec :: "node \<Rightarrow> node" where
  "BalanceManager_Exec n = n\<lparr>node_execs := Suc (node_execs n)\<rparr>"

definition finish_consume :: "metric_keys \<Rightarrow> bool \<Rightarrow> go_error + unit \<Rightarrow> node \<Rightarrow> (go_error + unit) \<times> node" where
  "finish_consume k exec r n =
     (r, Collect_processed k
           (case r of
              Inl _ \<Rightarrow> Failure k n
            | Inr _ \<Rightarrow> (if exec then BalanceManager_Exec (Success k n) else Success k n)))"

section \<open>consumer_db.go\<close>

text \<open>The interface \<open>services.Consumer\<close>, and the factory \<open>IndexerConsumer\<close>. The identifier of the
  fee asset is read from the genesis configuration of the network, a parameter.\<close>

record consumer =
  Consumer_Consume :: "session \<Rightarrow> settings \<Rightarrow> consumable \<Rightarrow> (dbstate, unit) go"
  Consumer_ConsumeConsensus :: "session \<Rightarrow> settings \<Rightarrow> consumable \<Rightarrow> (dbstate, unit) go"

record consumer_db =
  cdb_eventType :: EventType
  cdb_chainID :: string
  cdb_consumer :: consumer
  cdb_topicName :: string
  cdb_keys :: metric_keys

definition IndexerConsumer :: "extlib \<Rightarrow> avmlib \<Rightarrow> pvmlib \<Rightarrow> (u32 \<Rightarrow> go_error + ID) \<Rightarrow> u32 \<Rightarrow> string \<Rightarrow> string \<Rightarrow> go_error + consumer" where
  "IndexerConsumer lib al pl asset networkID chainVM chainID =
     (if chainVM = ''avm'' then
        map_sum id (\<lambda>a. let w = avm_NewWriter networkID chainID a in
          \<lparr>Consumer_Consume = avm_Consume lib al w, Consumer_ConsumeConsensus = avm_ConsumeConsensus lib al\<rparr>)
          (asset networkID)
      else if chainVM = ''pvm'' then
        map_sum id (\<lambda>a. let w = pvm_NewWriter networkID chainID a in
          \<lparr>Consumer_Consume = pvm_Consume lib pl w, Consumer_ConsumeConsensus = (\<lambda>_ _. pvm_ConsumeConsensus)\<rparr>)
          (asset networkID)
      else Inl ErrUnknownVM)"

definition consumer_keys :: "EventType \<Rightarrow> string \<Rightarrow> metric_keys" where
  "consumer_keys eventType chainID =
     (let pre = (if eventType = EventTypeDecisions then ''consume_records_''
                 else ''consume_consensus_records_'') in
      if eventType = EventTypeDecisions \<or> eventType = EventTypeConsensus then
        \<lparr>metricProcessedCountKey = pre @ ''processed_'' @ chainID,
         metricSuccessCountKey = pre @ ''success_'' @ chainID,
         metricFailureCountKey = pre @ ''failure_'' @ chainID\<rparr>
      else \<lparr>metricProcessedCountKey = [], metricSuccessCountKey = [], metricFailureCountKey = []\<rparr>)"

definition init_metrics :: "metric_keys \<Rightarrow> (string \<rightharpoonup> nat) \<Rightarrow> (string \<rightharpoonup> nat)" where
  "init_metrics k m = fold CounterInit
     [metricProcessedCountKey k, metricSuccessCountKey k, metricFailureCountKey k,
      MetricConsumeProcessedCountKey, MetricConsumeSuccessCountKey, MetricConsumeFailureCountKey] m"

definition NewConsumerDB :: "(u32 \<Rightarrow> string \<Rightarrow> string \<Rightarrow> go_error + consumer) \<Rightarrow> EventType \<Rightarrow> u32 \<Rightarrow> string \<Rightarrow> string
    \<Rightarrow> go_error + consumer_db" where
  "NewConsumerDB factory eventType networkID chainVM chainID =
     map_sum id (\<lambda>cons. \<lparr>cdb_eventType = eventType, cdb_chainID = chainID, cdb_consumer = cons,
        cdb_topicName = GetTopicName networkID chainID eventType, cdb_keys = consumer_keys eventType chainID\<rparr>)
       (factory networkID chainVM chainID)"

definition persistConsume :: "consumer_db \<Rightarrow> session \<Rightarrow> settings \<Rightarrow> consumable \<Rightarrow> (dbstate, unit) go" where
  "persistConsume c sess env msg =
     (if cdb_eventType c = EventTypeDecisions then Consumer_Consume (cdb_consumer c) sess env msg
      else if cdb_eventType c = EventTypeConsensus then Consumer_ConsumeConsensus (cdb_consumer c) sess env msg
      else go_raise (ErrorString (''invalid eventType '' @ cdb_eventType c)))"

definition consumerDB_Consume :: "consumer_db \<Rightarrow> session \<Rightarrow> settings \<Rightarrow> consumable \<Rightarrow> node \<Rightarrow> ((go_error + unit) \<times> node) option" where
  "consumerDB_Consume c sess env msg n =
     map_option (\<lambda>(r, d). finish_consume (cdb_keys c) True r (n\<lparr>node_db := d\<rparr>))
       (retry (persistConsume c sess env msg) (node_db n))"

text \<open>A nil \<open>Serialization\<close> is a body of length 0 for every reader.\<close>

definition pool_message :: "string \<Rightarrow> TxPool \<Rightarrow> consumable" where
  "pool_message chainID row =
     NewMessage (TxPool_MsgKey row) chainID (case TxPool_Serialization row of None \<Rightarrow> [] | Some b \<Rightarrow> b)
       (Time_Unix (TxPool_CreatedAt row)) (Time_Nanosecond (TxPool_CreatedAt row))"

definition consumerDB_Process :: "consumer_db \<Rightarrow> session \<Rightarrow> settings \<Rightarrow> TxPool \<Rightarrow> node \<Rightarrow> ((go_error + unit) \<times> node) option" where
  "consumerDB_Process c sess env row = consumerDB_Consume c sess env (pool_message (cdb_chainID c) row)"

section \<open>consumer_axchain_db.go\<close>

text \<open>JSON decoding of logs and traces.\<close>

record axlib =
  json_UnmarshalLog :: "bytes \<Rightarrow> go_error + EthLog"
  json_UnmarshalTrace :: "bytes \<Rightarrow> go_error + TransactionTrace"

record consumer_axchain =
  cax_AXchainID :: string
  cax_consumer :: cvmWriter
  cax_topicName :: string
  cax_topicTrcName :: string
  cax_topicLogsName :: string
  cax_keys :: metric_keys

definition NewConsumerAXChainDB :: "u32 \<Rightarrow> string \<Rightarrow> go_error + cvmWriter \<Rightarrow> go_error + consumer_axchain" where
  "NewConsumerAXChainDB networkID axchainID writer =
     (let base = nat_digits (unat networkID) @ ''-'' @ axchainID @ ''-axchain'' in
      map_sum id (\<lambda>w. \<lparr>cax_AXchainID = axchainID, cax_consumer = w, cax_topicName = base,
         cax_topicTrcName = base @ ''-trc'', cax_topicLogsName = base @ ''-logs'',
         cax_keys = \<lparr>metricProcessedCountKey = ''consume_records_processed_'' @ axchainID @ ''_axchain'',
                     metricSuccessCountKey = ''consume_records_success_'' @ axchainID @ ''_axchain'',
                     metricFailureCountKey = ''consume_records_failure_'' @ axchainID @ ''_axchain''\<rparr>\<rparr>)
        writer)"

definition string_of_bytes :: "bytes \<Rightarrow> string" where
  "string_of_bytes = map (\<lambda>b. char_of (unat b))"

text \<open>\<open>persistConsume\<close>: the loop calls it with the same pointer to the block each time.\<close>

definition axchain_persistConsume :: "extlib \<Rightarrow> cvmlib \<Rightarrow> cvmWriter \<Rightarrow> session \<Rightarrow> settings \<Rightarrow> consumable
    \<Rightarrow> dbstate \<times> cBlock \<Rightarrow> (go_error + unit) \<times> dbstate \<times> cBlock" where
  "axchain_persistConsume lib cl w sess env msg = (\<lambda>(d, block).
     case cvm_Consume lib cl w sess env msg block d of ((r, d'), block') \<Rightarrow> (r, d', block'))"

definition axchain_Consume :: "extlib \<Rightarrow> cvmlib \<Rightarrow> consumer_axchain \<Rightarrow> session \<Rightarrow> settings \<Rightarrow> consumable \<Rightarrow> node
    \<Rightarrow> ((go_error + unit) \<times> node) option" where
  "axchain_Consume lib cl c sess env msg n =
     (case modelsc_Unmarshal cl (consumable_Body msg) of
        Inl err \<Rightarrow> Some (Inl err, n)
      | Inr block \<Rightarrow>
          (let extra = (case Block_BlockExtraData block of None \<Rightarrow> [] | Some b \<Rightarrow> b);
               block = block\<lparr>Block_BlockExtraData := Some extra\<rparr>;
               nmsg = NewMessage (string_of_bytes (ComputeHash256 lib extra)) (consumable_ChainID msg) extra
                        (consumable_Timestamp msg) (consumable_Nanosecond msg)
           in map_option (\<lambda>(r, d, _). finish_consume (cax_keys c) True r (n\<lparr>node_db := d\<rparr>))
                (retry (axchain_persistConsume lib cl (cax_consumer c) sess env nmsg) (node_db n, block))))"

definition axchain_ConsumeTrace :: "extlib \<Rightarrow> cvmlib \<Rightarrow> axlib \<Rightarrow> consumer_axchain \<Rightarrow> session \<Rightarrow> settings \<Rightarrow> consumable \<Rightarrow> node
    \<Rightarrow> ((go_error + unit) \<times> node) option" where
  "axchain_ConsumeTrace lib cl xl c sess env msg n =
     (case json_UnmarshalTrace xl (consumable_Body msg) of
        Inl err \<Rightarrow> Some (Inl err, n)
      | Inr tt \<Rightarrow>
          (let nmsg = NewMessage (string_of_bytes (ComputeHash256 lib (Trace_Trace tt))) (consumable_ChainID msg) (Trace_Trace tt)
                        (consumable_Timestamp msg) (consumable_Nanosecond msg)
           in map_option (\<lambda>(r, d). finish_consume (cax_keys c) False r (n\<lparr>node_db := d\<rparr>))
                (retry (cvm_ConsumeTrace cl sess env nmsg tt) (node_db n))))"

definition axchain_ConsumeLogs :: "extlib \<Rightarrow> axlib \<Rightarrow> consumer_axchain \<Rightarrow> session \<Rightarrow> settings \<Rightarrow> consumable \<Rightarrow> node
    \<Rightarrow> ((go_error + unit) \<times> node) option" where
  "axchain_ConsumeLogs lib xl c sess env msg n =
     (case json_UnmarshalLog xl (consumable_Body msg) of
        Inl err \<Rightarrow> Some (Inl err, n)
      | Inr txLogs \<Rightarrow>
          (let nmsg = NewMessage (string_of_bytes (ComputeHash256 lib (consumable_Body msg))) (consumable_ChainID msg)
                        (consumable_Body msg) (consumable_Timestamp msg) (consumable_Nanosecond msg)
           in map_option (\<lambda>(r, d). finish_consume (cax_keys c) False r (n\<lparr>node_db := d\<rparr>))
                (retry (cvm_ConsumeLogs lib sess env nmsg txLogs) (node_db n))))"

definition axchain_Process :: "extlib \<Rightarrow> cvmlib \<Rightarrow> axlib \<Rightarrow> consumer_axchain \<Rightarrow> session \<Rightarrow> settings \<Rightarrow> TxPool \<Rightarrow> node
    \<Rightarrow> ((go_error + unit) \<times> node) option" where
  "axchain_Process lib cl xl c sess env row n =
     (let msg = pool_message (cax_AXchainID c) row in
      if TxPool_Topic row = cax_topicName c then axchain_Consume lib cl c sess env msg n
      else if TxPool_Topic row = cax_topicTrcName c then axchain_ConsumeTrace lib cl xl c sess env msg n
      else if TxPool_Topic row = cax_topicLogsName c then axchain_ConsumeLogs lib xl c sess env msg n
      else Some (Inr (), n))"

section \<open>Trimming\<close>

lemma trim_front_dropWhile: "trim_front s = dropWhile ((=) (CHR 0x0A)) s"
proof (induction s rule: trim_front.induct)
  case (1 s)
  then show ?case
    by (subst trim_front.simps) (cases s; auto simp: TrimPrefix_def HasPrefix_def Let_def)
qed

lemma TrimSuffix_rev: "TrimSuffix s newline = rev (TrimPrefix (rev s) newline)"
  by (cases s rule: rev_cases) (auto simp: TrimSuffix_def TrimPrefix_def HasSuffix_def HasPrefix_def)

lemma trim_back_rev: "trim_back s = rev (trim_front (rev s))"
proof (induction s rule: trim_back.induct)
  case (1 s)
  have eq: "TrimSuffix s newline = s \<longleftrightarrow> TrimPrefix (rev s) newline = rev s"
    by (simp add: TrimSuffix_rev rev_swap)
  show ?case
  proof (cases "TrimSuffix s newline = s")
    case True
    with eq show ?thesis by (simp add: trim_back.simps [of s] trim_front.simps [of "rev s"])
  next
    case False
    with eq "1.IH" [OF refl] show ?thesis
      by (simp add: trim_back.simps [of s] trim_front.simps [of "rev s"] TrimSuffix_rev)
  qed
qed

section \<open>What the retry loop does\<close>

lemma retry_lock_invar:
  assumes "retry_lock f rs s = Some out" "I s"
    and step: "\<And>s e s1. I s \<Longrightarrow> f s = (Inl e, s1) \<Longrightarrow> ErrIsLockError (Some e) \<Longrightarrow> I s1"
  shows "\<exists>s1. I s1 \<and> f s1 = (fst out, fst (snd out)) \<and> \<not> ErrIsLockError (result_err (fst out))"
proof -
  let ?Q = "\<lambda>out. \<exists>s1. I s1 \<and> f s1 = (fst out, fst (snd out)) \<and> \<not> ErrIsLockError (result_err (fst out))"
  have "f = f \<longrightarrow> I s \<longrightarrow> ?Q out"
  proof (rule retry_lock.raw_induct [where P = "\<lambda>g rs s out. g = f \<longrightarrow> I s \<longrightarrow> ?Q out", OF _ assms(1)], intro impI)
    fix rec g rs s out
    assume IH: "\<And>g rs s out. rec g rs s = Some out \<Longrightarrow> g = f \<longrightarrow> I s \<longrightarrow> ?Q out"
      and run: "(case g s of (r, s') \<Rightarrow> if ErrIsLockError (result_err r) then rec g (fst (RetrySleeper_Inc rs)) s' else Some (r, s', rs)) = Some out"
      and "g = f" "I s"
    obtain q s1 where q: "f s = (q, s1)" by (cases "f s")
    show "?Q out"
    proof (cases "ErrIsLockError (result_err q)")
      case True
      then obtain e where "q = Inl e" by (cases q) (auto simp: result_err_def ErrIsLockError_def)
      with True q step \<open>I s\<close> have "I s1" by (auto simp: result_err_def)
      moreover have "rec f (fst (RetrySleeper_Inc rs)) s1 = Some out" using run q True \<open>g = f\<close> by simp
      ultimately show ?thesis using IH by blast
    next
      case False
      with run q \<open>g = f\<close> \<open>I s\<close> show ?thesis by auto
    qed
  qed
  with assms(2) show ?thesis by blast
qed

text \<open>The last attempt decides; an invariant of the attempts that end in a lock error holds before it.\<close>

lemma retry_invar:
  assumes "retry f s = Some (r, s')" "I s"
    and "\<And>s e s1. I s \<Longrightarrow> f s = (Inl e, s1) \<Longrightarrow> ErrIsLockError (Some e) \<Longrightarrow> I s1"
  shows "\<exists>s1. I s1 \<and> f s1 = (r, s') \<and> \<not> ErrIsLockError (result_err r)"
  using assms(1) retry_lock_invar [of f new_sleeper s _ I, OF _ assms(2,3)]
  by (auto simp: retry_def)

text \<open>One attempt at a time; the sleeper does not matter for the result.\<close>

lemma retry_first: "f s = (r, s') \<Longrightarrow> \<not> ErrIsLockError (result_err r) \<Longrightarrow> retry f s = Some (r, s')"
  unfolding retry_def by (subst retry_lock.simps) simp

lemma retry_lock_sleeper:
  assumes "retry_lock f rs s = Some out"
  shows "\<exists>rs2. retry_lock f rs1 s = Some (fst out, fst (snd out), rs2)"
proof -
  have "f = f \<longrightarrow> (\<forall>rs1. \<exists>rs2. retry_lock f rs1 s = Some (fst out, fst (snd out), rs2))"
  proof (rule retry_lock.raw_induct [where P = "\<lambda>g rs s out. g = f \<longrightarrow> (\<forall>rs1. \<exists>rs2. retry_lock f rs1 s = Some (fst out, fst (snd out), rs2))",
        OF _ assms], intro impI allI)
    fix rec g rs s out rs1
    assume IH: "\<And>g rs s out. rec g rs s = Some out \<Longrightarrow> g = f \<longrightarrow> (\<forall>rs1. \<exists>rs2. retry_lock f rs1 s = Some (fst out, fst (snd out), rs2))"
      and run: "(case g s of (r, s') \<Rightarrow> if ErrIsLockError (result_err r) then rec g (fst (RetrySleeper_Inc rs)) s' else Some (r, s', rs)) = Some out"
      and "g = f"
    obtain q s1 where q: "f s = (q, s1)" by (cases "f s")
    show "\<exists>rs2. retry_lock f rs1 s = Some (fst out, fst (snd out), rs2)"
    proof (cases "ErrIsLockError (result_err q)")
      case True
      with run q \<open>g = f\<close> have "rec f (fst (RetrySleeper_Inc rs)) s1 = Some out" by simp
      from IH [OF this] obtain rs2 where "retry_lock f (fst (RetrySleeper_Inc rs1)) s1 = Some (fst out, fst (snd out), rs2)" by blast
      with q True have "retry_lock f rs1 s = Some (fst out, fst (snd out), rs2)" by (subst retry_lock.simps) simp
      then show ?thesis ..
    next
      case False
      with run q \<open>g = f\<close> show ?thesis by (subst retry_lock.simps) auto
    qed
  qed
  then show ?thesis by blast
qed

lemma retry_again:
  assumes "f s = (Inl e, s1)" "ErrIsLockError (Some e)"
  shows "retry f s = retry f s1"
proof -
  have step: "retry_lock f new_sleeper s = retry_lock f (fst (RetrySleeper_Inc new_sleeper)) s1"
    using assms by (subst retry_lock.simps) (simp add: result_err_def)
  show ?thesis
  proof (cases "retry_lock f new_sleeper s1")
    case None
    then have "retry_lock f (fst (RetrySleeper_Inc new_sleeper)) s1 = None"
      using retry_lock_sleeper [of f "fst (RetrySleeper_Inc new_sleeper)" s1 _ new_sleeper] by (cases "retry_lock f (fst (RetrySleeper_Inc new_sleeper)) s1") auto
    with None step show ?thesis by (simp add: retry_def)
  next
    case (Some out)
    from retry_lock_sleeper [OF Some] step obtain rs2 where "retry_lock f new_sleeper s = Some (fst out, fst (snd out), rs2)"
      by metis
    with Some show ?thesis by (cases out) (simp add: retry_def)
  qed
qed

text \<open>A loop whose attempts come closer to one without a lock error returns.\<close>

lemma retry_returns:
  fixes measure_of :: "'s \<Rightarrow> nat"
  assumes "I s"
    and step: "\<And>s e s1. I s \<Longrightarrow> f s = (Inl e, s1) \<Longrightarrow> ErrIsLockError (Some e) \<Longrightarrow> I s1 \<and> measure_of s1 < measure_of s"
  shows "\<exists>r s'. retry f s = Some (r, s')"
proof -
  have "\<exists>out. retry_lock f rs s = Some out" if "I s" for rs s
    using that
  proof (induction "measure_of s" arbitrary: rs s rule: less_induct)
    case less
    obtain q s1 where q: "f s = (q, s1)" by (cases "f s")
    show ?case
    proof (cases "ErrIsLockError (result_err q)")
      case True
      then obtain e where "q = Inl e" by (cases q) (auto simp: result_err_def ErrIsLockError_def)
      with True q step [OF less.prems] have "I s1 \<and> measure_of s1 < measure_of s" by (auto simp: result_err_def)
      with less.hyps [of s1] obtain out where "retry_lock f (fst (RetrySleeper_Inc rs)) s1 = Some out" by blast
      with q True have "retry_lock f rs s = Some out" by (subst retry_lock.simps) simp
      then show ?thesis ..
    next
      case False
      with q show ?thesis by (subst retry_lock.simps) simp
    qed
  qed
  with assms(1) show ?thesis by (fastforce simp: retry_def)
qed

text \<open>A server that answers every attempt with a lock error keeps the loop going forever.\<close>

lemma retry_forever:
  assumes "I s" and "\<And>s. I s \<Longrightarrow> \<exists>e s1. f s = (Inl e, s1) \<and> ErrIsLockError (Some e) \<and> I s1"
  shows "retry f s = None"
proof (rule ccontr)
  assume "retry f s \<noteq> None"
  then obtain r s' where run: "retry f s = Some (r, s')" by auto
  have "\<exists>s1. I s1 \<and> f s1 = (r, s') \<and> \<not> ErrIsLockError (result_err r)"
    using run assms(1) by (rule retry_invar) (use assms(2) in fastforce)
  with assms(2) show False by (fastforce simp: result_err_def)
qed

section \<open>Attempts that are transactions\<close>

lemma retry_tx_atomic:
  assumes "sql_session sess" "traced P (persist_exec sess) m n" "retry (with_tx sess m) d = Some (r, d')"
  shows "case r of Inr a \<Rightarrow> outcome n = Inr a \<and> tabs d' = fold call_effect (trace n) (tabs d)
    | Inl e \<Rightarrow> tabs d' = tabs d \<and> \<not> ErrIsLockError (Some e)"
proof -
  have "\<exists>d1. tabs d1 = tabs d \<and> with_tx sess m d1 = (r, d') \<and> \<not> ErrIsLockError (result_err r)"
    using assms(3) refl by (rule retry_invar) (metis sql_session.with_tx_rollback [OF assms(1)])
  then obtain d1 where "tabs d1 = tabs d" "with_tx sess m d1 = (r, d')" "\<not> ErrIsLockError (result_err r)" by blast
  with sql_session.tx_handler_atomic [OF assms(1,2), of d1 r d'] show ?thesis
    by (cases r) (auto simp: result_err_def)
qed

lemma retry_tx_returns:
  assumes "sql_session (mysql f)" "quiet f N" "traced (call_upd False) (persist_exec (mysql f)) m n"
    and "tables_ok (tabs d)" "\<not> ErrIsLockError (result_err (outcome n))"
  shows "\<exists>r d'. retry (with_tx (mysql f) m) d = Some (r, d')"
proof (rule retry_returns [where I = "\<lambda>d. tables_ok (tabs d)" and measure_of = "\<lambda>d. N - ticks d"])
  fix d e d1
  assume ok: "tables_ok (tabs d)" and run: "with_tx (mysql f) m d = (Inl e, d1)" and lock: "ErrIsLockError (Some e)"
  have "ticks d < N"
  proof (rule ccontr)
    assume "\<not> ticks d < N"
    with quiet_tx_handler [OF assms(2,3) ok] run have "outcome n = Inl e" by force
    with assms(5) lock show False by (simp add: result_err_def)
  qed
  moreover have "ticks d < ticks d1"
    using with_tx_ticks [OF traced_only [OF assms(3)] assms(2), of d] run by simp
  ultimately show "tables_ok (tabs d1) \<and> N - ticks d1 < N - ticks d"
    using sql_session.with_tx_rollback [OF assms(1) run] ok by simp
qed (rule assms(4))

section \<open>What the consumers do to the tables\<close>

text \<open>\<open>attempt f\<close>: one attempt either fails and leaves the tables, or makes calls of a writer.\<close>

definition attempt :: "('s \<Rightarrow> tables) \<Rightarrow> ('s \<Rightarrow> (go_error + unit) \<times> 's) \<Rightarrow> bool" where
  "attempt T f \<longleftrightarrow> (\<forall>s r s'. f s = (r, s') \<longrightarrow>
     (case r of Inl _ \<Rightarrow> T s' = T s | Inr _ \<Rightarrow> \<exists>u cs. list_all (call_upd u) cs \<and> T s' = fold call_effect cs (T s)))"

lemma attemptD:
  "attempt T f \<Longrightarrow> f s = (r, s') \<Longrightarrow>
     case r of Inl _ \<Rightarrow> T s' = T s | Inr _ \<Rightarrow> \<exists>u cs. list_all (call_upd u) cs \<and> T s' = fold call_effect cs (T s)"
  by (simp add: attempt_def)

lemma attempt_tx:
  assumes "sql_session sess" "traced (call_upd u) (persist_exec sess) m n"
  shows "attempt tabs (with_tx sess m)"
  unfolding attempt_def
proof (intro allI impI)
  fix d r d' assume "with_tx sess m d = (r, d')"
  from sql_session.tx_handler_atomic [OF assms this] traced_all [OF assms(2)]
  show "case r of Inl _ \<Rightarrow> tabs d' = tabs d | Inr _ \<Rightarrow> \<exists>u cs. list_all (call_upd u) cs \<and> tabs d' = fold call_effect cs (tabs d)"
    by (cases r) auto
qed

lemma attempt_return: "attempt T (go_return ())"
  unfolding attempt_def go_return_def by (auto intro!: exI [of _ "[]"])

lemma attempt_raise: "attempt T (go_raise e)"
  by (simp add: attempt_def go_raise_def)

lemma attempt_lift: "(\<And>a. attempt T (k a)) \<Longrightarrow> attempt T (go_bind (go_lift r) k)"
  by (cases r) (simp_all add: attempt_def go_simps)

lemma retry_attempt:
  assumes "attempt T f" "retry f s = Some (r, s')"
  shows "case r of Inl e \<Rightarrow> T s' = T s \<and> \<not> ErrIsLockError (Some e)
    | Inr _ \<Rightarrow> \<exists>u cs. list_all (call_upd u) cs \<and> T s' = fold call_effect cs (T s)"
proof -
  have "\<exists>s1. T s1 = T s \<and> f s1 = (r, s') \<and> \<not> ErrIsLockError (result_err r)"
    using assms(2) refl by (rule retry_invar) (use assms(1) in \<open>force simp: attempt_def\<close>)
  then obtain s1 where "T s1 = T s" "f s1 = (r, s')" "\<not> ErrIsLockError (result_err r)" by blast
  with assms(1) show ?thesis by (cases r) (fastforce simp: attempt_def result_err_def)+
qed

lemma finish_consume_db:
  "finish_consume k x r n = (r', n') \<Longrightarrow> r' = r \<and> node_db n' = node_db n"
  by (auto simp: finish_consume_def Collect_processed_def Failure_def Success_def BalanceManager_Exec_def split: sum.splits if_splits)

text \<open>The outcome of a consumer, as the indexer sees it.\<close>

definition consumed :: "(go_error + unit) \<times> node \<Rightarrow> node \<Rightarrow> bool" where
  "consumed out n \<longleftrightarrow> (case fst out of
       Inl _ \<Rightarrow> tabs (node_db (snd out)) = tabs (node_db n)
     | Inr _ \<Rightarrow> \<exists>u cs. list_all (call_upd u) cs
         \<and> tabs (node_db (snd out)) = fold call_effect cs (tabs (node_db n)))"

lemma consumed_error [simp]: "consumed (Inl e, n) n"
  by (simp add: consumed_def)

lemma consumed_retry:
  assumes "attempt tabs f" "map_option (\<lambda>(r, d). finish_consume k x r (n\<lparr>node_db := d\<rparr>)) (retry f (node_db n)) = Some out"
  shows "consumed out n"
proof -
  from assms(2) obtain r d where r: "retry f (node_db n) = Some (r, d)" "out = finish_consume k x r (n\<lparr>node_db := d\<rparr>)" by auto
  then have "fst out = r" "node_db (snd out) = d"
    using finish_consume_db [of k x r "n\<lparr>node_db := d\<rparr>" "fst out" "snd out"] by simp_all
  with retry_attempt [OF assms(1) r(1)] show ?thesis by (cases r) (auto simp: consumed_def)
qed

lemma map_sum_Inr_iff: "map_sum id f x = Inr y \<longleftrightarrow> (\<exists>a. x = Inr a \<and> y = f a)"
  by (cases x) auto

lemma IndexerConsumer_attempt:
  assumes "sql_session sess" "Errs_keep_first lib" "IndexerConsumer lib al pl asset nid vm cid = Inr c"
  shows "attempt tabs (Consumer_Consume c sess env msg)" "attempt tabs (Consumer_ConsumeConsensus c sess env msg)"
proof -
  have t: "traced (call_upd (set_upd env)) (persist_exec sess)
      (pvm_indexBlock lib pl w (persist_exec sess) (consumer_ctx env msg) b)
      (pvm_indexBlock lib pl w record_call (consumer_ctx env msg) b)" for w b
    using pvm_indexBlock_traced [OF assms(2), of "consumer_ctx env msg" "persist_exec sess" pl w b] by simp
  have t2: "traced (call_upd (set_upd env)) (persist_exec sess)
      (insertTx lib al w (persist_exec sess) (consumer_ctx env msg) b)
      (insertTx lib al w record_call (consumer_ctx env msg) b)" for w b
    using insertTx_traced [of "consumer_ctx env msg" "persist_exec sess" lib al w b] by simp
  have t3: "traced (call_upd (set_upd env)) (persist_exec sess)
      (epoch_rows lib (persist_exec sess) (consumer_ctx env msg) v) (epoch_rows lib record_call (consumer_ctx env msg) v)" for v
    using epoch_rows_traced [of "consumer_ctx env msg" "persist_exec sess" lib v] by simp
  note rules = attempt_tx [OF assms(1) t] attempt_tx [OF assms(1) t2] attempt_tx [OF assms(1) t3] attempt_return
  from assms(3) show "attempt tabs (Consumer_Consume c sess env msg)"
    by (auto simp: IndexerConsumer_def Let_def pvm_Consume_def avm_Consume_def rules map_sum_Inr_iff split: if_splits)
  from assms(3) show "attempt tabs (Consumer_ConsumeConsensus c sess env msg)"
    by (auto simp: IndexerConsumer_def Let_def pvm_ConsumeConsensus_def avm_ConsumeConsensus_def rules attempt_lift map_sum_Inr_iff split: if_splits)
qed

lemma consumerDB_Process_consumed:
  assumes "sql_session sess" "Errs_keep_first lib" "NewConsumerDB (IndexerConsumer lib al pl asset) et nid vm cid = Inr c"
    and "consumerDB_Process c sess env row n = Some out"
  shows "consumed out n"
proof -
  from assms(3) obtain k where k: "IndexerConsumer lib al pl asset nid vm cid = Inr k" "cdb_consumer c = k"
    by (auto simp: NewConsumerDB_def map_sum_Inr_iff)
  have "attempt tabs (persistConsume c sess env msg)" for msg
    using IndexerConsumer_attempt [OF assms(1,2) k(1), of env msg] k(2) by (simp add: persistConsume_def attempt_raise)
  from consumed_retry [OF this] assms(4) show ?thesis
    by (simp add: consumerDB_Process_def consumerDB_Consume_def)
qed

lemma axchain_attempt:
  assumes "sql_session sess"
  shows "attempt (tabs \<circ> fst) (axchain_persistConsume lib cl w sess env msg)"
  unfolding attempt_def
proof (intro allI impI)
  fix s r s' assume run: "axchain_persistConsume lib cl w sess env msg s = (r, s')"
  obtain d b where s: "s = (d, b)" by (cases s)
  have t: "traced (call_upd (set_upd env)) (persist_exec sess)
      (cvm_indexBlock lib cl w (persist_exec sess) (consumer_ctx env msg) (consumable_Body msg) b)
      (cvm_indexBlock lib cl w record_call (consumer_ctx env msg) (consumable_Body msg) b)"
    using cvm_indexBlock_traced [of "consumer_ctx env msg"] by simp
  from run s have "with_tx sess (cvm_indexBlock lib cl w (persist_exec sess) (consumer_ctx env msg) (consumable_Body msg) b) d = (r, fst s')"
    by (auto simp: axchain_persistConsume_def cvm_Consume_def split: prod.splits)
  from attemptD [OF attempt_tx [OF assms t] this] s show "case r of Inl _ \<Rightarrow> (tabs \<circ> fst) s' = (tabs \<circ> fst) s
      | Inr _ \<Rightarrow> \<exists>u cs. list_all (call_upd u) cs \<and> (tabs \<circ> fst) s' = fold call_effect cs ((tabs \<circ> fst) s)"
    by (cases r) simp_all
qed

lemma attempt_one_call:
  assumes "sql_session sess" "\<And>a. call_upd u (g a)"
  shows "attempt tabs (with_tx sess (go_bind (go_lift r) (\<lambda>a. persist_exec sess (g a))))"
proof (rule attempt_tx [OF assms(1)])
  show "traced (call_upd u) (persist_exec sess) (go_bind (go_lift r) (\<lambda>a. persist_exec sess (g a)))
      (go_bind (go_lift r) (\<lambda>a. record_call (g a)))"
    by (intro traced_intros assms(2))
qed

lemma cvm_trace_attempt: "sql_session sess \<Longrightarrow> attempt tabs (cvm_ConsumeTrace cl sess env c tt)"
  unfolding cvm_ConsumeTrace_def by (rule attempt_one_call [of _ "set_upd env"]) simp_all

lemma cvm_logs_attempt: "sql_session sess \<Longrightarrow> attempt tabs (cvm_ConsumeLogs lib sess env c l)"
  unfolding cvm_ConsumeLogs_def by (rule attempt_one_call [of _ "set_upd env"]) simp_all

lemma consumed_retry_block:
  assumes "attempt (tabs \<circ> fst) f"
    and "map_option (\<lambda>(r, d, _). finish_consume k x r (n\<lparr>node_db := d\<rparr>)) (retry f (node_db n, b)) = Some out"
  shows "consumed out n"
proof -
  from assms(2) obtain r d b' where r: "retry f (node_db n, b) = Some (r, d, b')" "out = finish_consume k x r (n\<lparr>node_db := d\<rparr>)" by auto
  then have "fst out = r" "node_db (snd out) = d"
    using finish_consume_db [of k x r "n\<lparr>node_db := d\<rparr>" "fst out" "snd out"] by simp_all
  with retry_attempt [OF assms(1) r(1)] show ?thesis by (cases r) (auto simp: consumed_def)
qed

lemma axchain_Process_consumed:
  assumes "sql_session sess" "axchain_Process lib cl xl c sess env row n = Some out"
  shows "consumed out n"
proof -
  have 1: "consumed out n" if "axchain_Consume lib cl c sess env msg n = Some out" for msg
    using that consumed_retry_block [OF axchain_attempt [OF assms(1)]]
    by (auto simp: axchain_Consume_def Let_def split: sum.splits)
  have 2: "consumed out n" if "axchain_ConsumeTrace lib cl xl c sess env msg n = Some out" for msg
    using that consumed_retry [OF cvm_trace_attempt [OF assms(1)]]
    by (auto simp: axchain_ConsumeTrace_def Let_def split: sum.splits)
  have 3: "consumed out n" if "axchain_ConsumeLogs lib xl c sess env msg n = Some out" for msg
    using that consumed_retry [OF cvm_logs_attempt [OF assms(1)]]
    by (auto simp: axchain_ConsumeLogs_def Let_def split: sum.splits)
  have "consumed (Inr (), n) n" by (auto simp: consumed_def intro!: exI [of _ "[]"])
  with 1 2 3 assms(2) show ?thesis by (auto simp: axchain_Process_def Let_def split: if_splits)
qed

lemma consumed_other_table:
  assumes "consumed out n" "t \<in> set other_tables"
  shows "tabs (node_db (snd out)) t = tabs (node_db n) t"
  using assms writer_keeps_table by (auto simp: consumed_def split: sum.splits)

lemma consumed_keys: "consumed out n \<Longrightarrow> tables_ok (tabs (node_db n)) \<Longrightarrow> tables_ok (tabs (node_db (snd out)))"
proof -
  have "tables_ok T \<Longrightarrow> tables_ok (fold call_effect cs T)" for cs T
    by (induction cs arbitrary: T) (simp_all add: call_effect_keys)
  then show "consumed out n \<Longrightarrow> tables_ok (tabs (node_db n)) \<Longrightarrow> tables_ok (tabs (node_db (snd out)))"
    by (auto simp: consumed_def split: sum.splits)
qed

section \<open>Properties\<close>


text \<open>A row of the pool with the sample block, and the consumer of its chain.\<close>

definition sample_row :: TxPool where
  "sample_row = zero_TxPool\<lparr>TxPool_ID := ''m'', TxPool_MsgKey := ''key'', TxPool_Serialization := Some [66],
     TxPool_CreatedAt := time_Unix 100 0\<rparr>"

definition sample_node :: node where
  "sample_node = \<lparr>node_db = empty_db, node_metrics = Map.empty, node_execs = 0\<rparr>"

abbreviation sample_factory :: "u32 \<Rightarrow> string \<Rightarrow> string \<Rightarrow> go_error + consumer" where
  "sample_factory \<equiv> IndexerConsumer sample_lib sample_avmlib sample_pvmlib (\<lambda>_. Inr [9])"

definition sample_consumer :: consumer_db where
  "sample_consumer = \<lparr>cdb_eventType = EventTypeDecisions, cdb_chainID = ''chain'',
     cdb_consumer = \<lparr>Consumer_Consume = pvm_Consume sample_lib sample_pvmlib sample_pvm,
                     Consumer_ConsumeConsensus = (\<lambda>_ _. pvm_ConsumeConsensus)\<rparr>,
     cdb_topicName = GetTopicName 1 ''chain'' EventTypeDecisions, cdb_keys = consumer_keys EventTypeDecisions ''chain''\<rparr>"

lemma sample_consumer_new: "NewConsumerDB sample_factory EventTypeDecisions 1 ''pvm'' ''chain'' = Inr sample_consumer"
  by (simp add: NewConsumerDB_def IndexerConsumer_def sample_consumer_def sample_pvm_def Let_def)

lemma sample_row_ctx:
  "consumer_ctx sample_env (pool_message c sample_row) = sample_ctx"
  "consumable_Body (pool_message c sample_row) = [66]"
  by (simp_all add: pool_message_def NewMessage_def consumer_ctx_def NewConsumerContext_def sample_row_def sample_env_def sample_ctx_def
      time_Unix_def Time_Unix_def Time_Nanosecond_def)

lemma sample_row_traced:
  "traced (call_upd False) p (pvm_indexBlock sample_lib sample_pvmlib sample_pvm p sample_ctx [66])
     (pvm_indexBlock sample_lib sample_pvmlib sample_pvm record_call sample_ctx [66])"
  using pvm_indexBlock_traced [OF sample_lib_Errs, of sample_ctx] by simp

text \<open>C13. The retry loop returns. If from some call on the server has no more faults, then consuming
  any message of the platform chain comes to an end, whatever the server did before, unless the
  decoding of the message itself fails with a text that reads like a lock error.\<close>

theorem consumerDB_Process_returns:
  assumes "sql_session (mysql faults)" "quiet faults N" "Errs_keep_first lib" "tables_ok (tabs (node_db n))" "\<not> set_upd env"
    and c: "NewConsumerDB (IndexerConsumer lib al pl asset) EventTypeDecisions nid ''pvm'' cid = Inr c"
    and "\<And>a. \<not> ErrIsLockError (result_err (outcome (pvm_indexBlock lib pl (pvm_NewWriter nid cid a) record_call
        (consumer_ctx env (pool_message cid row)) (consumable_Body (pool_message cid row)))))"
  shows "\<exists>r n'. consumerDB_Process c (mysql faults) env row n = Some (r, n')"
proof -
  from c obtain a where a: "cdb_eventType c = EventTypeDecisions"
    "Consumer_Consume (cdb_consumer c) = pvm_Consume lib pl (pvm_NewWriter nid cid a)" "cdb_chainID c = cid"
    by (auto simp: NewConsumerDB_def IndexerConsumer_def map_sum_Inr_iff Let_def)
  let ?msg = "pool_message cid row" and ?s = "mysql faults" and ?w = "pvm_NewWriter nid cid a"
  have "traced (call_upd False) (persist_exec ?s)
      (pvm_indexBlock lib pl ?w (persist_exec ?s) (consumer_ctx env ?msg) (consumable_Body ?msg))
      (pvm_indexBlock lib pl ?w record_call (consumer_ctx env ?msg) (consumable_Body ?msg))"
    using pvm_indexBlock_traced [OF assms(3), of "consumer_ctx env ?msg"] assms(5) by simp
  from retry_tx_returns [OF assms(1,2) this assms(4,7)] show ?thesis
    unfolding consumerDB_Process_def consumerDB_Consume_def persistConsume_def a pvm_Consume_def finish_consume_def by auto
qed

theorem consumerDB_Process_returns_witness:
  "\<exists>r n'. consumerDB_Process sample_consumer deadlock_once sample_env sample_row sample_node = Some (r, n')"
  unfolding deadlock_once_def
proof (rule consumerDB_Process_returns [where N = 3, OF _ _ sample_lib_Errs _ _ sample_consumer_new])
  show "sql_session (mysql (\<lambda>n s. if n = 2 then Some (ErrorString (''Error 1213: '' @ DeadlockDBErrorMessage)) else None))"
    using deadlock_once_session by (simp add: deadlock_once_def)
  show "\<not> ErrIsLockError (result_err (outcome (pvm_indexBlock sample_lib sample_pvmlib (pvm_NewWriter 1 ''chain'' a) record_call
        (consumer_ctx sample_env (pool_message ''chain'' sample_row)) (consumable_Body (pool_message ''chain'' sample_row)))))" for a
    unfolding sample_row_ctx
    by (cases "a = [9]"; simp add: outcome_def sample_pvm_defs axc_defs sample_defs record_call_def go_simps result_err_def ErrIsLockError_def)
qed (simp_all add: quiet_def sample_node_def sample_env_def)


text \<open>C14. A retry loses the transactions of an EVM block. The first attempt takes them out of the
  block that the loop holds on to; when the server then answers with a lock error, the tables
  are rolled back but the block is not restored, and the attempt that succeeds, after which the
  message counts as processed, writes no row for any of them.\<close>

theorem axchain_retry_loses_transactions:
  assumes "sql_session sess" "modelsc_Unmarshal cl (consumable_Body msg) = Inr block0"
    and block: "block = block0\<lparr>Block_BlockExtraData := Some extra\<rparr>"
    and extra: "extra = (case Block_BlockExtraData block0 of None \<Rightarrow> [] | Some b \<Rightarrow> b)"
    and nmsg: "nmsg = NewMessage (string_of_bytes (ComputeHash256 lib extra)) (consumable_ChainID msg) extra
        (consumable_Timestamp msg) (consumable_Nanosecond msg)"
    and first: "cvm_Consume lib cl (cax_consumer c) sess env nmsg block (node_db n) = ((Inl e, d1), block1)"
    and "ErrIsLockError (Some e)" "block1 \<noteq> block"
    and run: "axchain_Consume lib cl c sess env msg n = Some (Inr (), n')"
  shows "tabs (node_db n') TableCvmTransactionsTxdata = tabs (node_db n) TableCvmTransactionsTxdata"
proof -
  let ?f = "axchain_persistConsume lib cl (cax_consumer c) sess env nmsg"
  have b1: "block1 = clear_txs block" using cvm_Consume_block_left [OF first] assms(8) by blast
  have t1: "tabs d1 = tabs (node_db n)"
    using attemptD [OF axchain_attempt [OF assms(1)], of lib cl "cax_consumer c" env nmsg "(node_db n, block)" "Inl e" "(d1, block1)"] first
    by (simp add: axchain_persistConsume_def)
  have "retry ?f (node_db n, block) = retry ?f (d1, clear_txs block)"
    by (rule retry_again [where e = e]) (simp_all add: axchain_persistConsume_def first b1 assms(7))
  moreover have "axchain_Consume lib cl c sess env msg n
      = map_option (\<lambda>(r, d, _). finish_consume (cax_keys c) True r (n\<lparr>node_db := d\<rparr>)) (retry ?f (node_db n, block))"
    using assms(2) by (simp add: axchain_Consume_def Let_def extra block nmsg)
  ultimately obtain d' b' q where "retry ?f (d1, clear_txs block) = Some (q, d', b')"
    "(Inr (), n') = finish_consume (cax_keys c) True q (n\<lparr>node_db := d'\<rparr>)"
    using run by (cases "retry ?f (d1, clear_txs block)") auto
  moreover from this(2) have "q = Inr ()" "node_db n' = d'"
    using finish_consume_db [of "cax_keys c" True q "n\<lparr>node_db := d'\<rparr>" "Inr ()" n'] by simp_all
  ultimately have r: "retry ?f (d1, clear_txs block) = Some (Inr (), d', b')" and n': "node_db n' = d'" by simp_all
  let ?I = "\<lambda>(d, b). tabs d = tabs (node_db n) \<and> b = clear_txs block"
  have "\<exists>s1. ?I s1 \<and> ?f s1 = (Inr (), d', b') \<and> \<not> ErrIsLockError (result_err (Inr ()))"
    using r
  proof (rule retry_invar)
    show "?I (d1, clear_txs block)" using t1 by simp
    fix s e s1 assume I: "?I s" and f: "?f s = (Inl e, s1)"
    have "tabs (fst s1) = tabs (fst s)" using attemptD [OF axchain_attempt [OF assms(1)] f] by simp
    moreover have "snd s1 = snd s \<or> snd s1 = clear_txs (snd s)"
      using f cvm_Consume_block_left by (fastforce simp: axchain_persistConsume_def split: prod.splits)
    ultimately show "?I s1" using I by (auto split: prod.splits)
  qed
  then obtain d2 where d2: "tabs d2 = tabs (node_db n)" "?f (d2, clear_txs block) = (Inr (), d', b')" by auto
  then have "cvm_Consume lib cl (cax_consumer c) sess env nmsg (clear_txs block) d2 = ((Inr (), d'), b')"
    by (auto simp: axchain_persistConsume_def split: prod.splits)
  from cleared_no_txdata [OF assms(1) this] d2(1) n' show ?thesis by simp
qed

definition sample_axchain :: consumer_axchain where
  "sample_axchain = \<lparr>cax_AXchainID = ''chain'', cax_consumer = sample_cvm, cax_topicName = ''t'', cax_topicTrcName = ''u'',
     cax_topicLogsName = ''v'',
     cax_keys = \<lparr>metricProcessedCountKey = ''p'', metricSuccessCountKey = ''s'', metricFailureCountKey = ''f''\<rparr>\<rparr>"

theorem axchain_retry_loses_transactions_witness:
  "\<exists>n'. axchain_Consume sample_lib sample_cvmlib sample_axchain deadlock_once sample_env (sample_msg [1]) sample_node = Some (Inr (), n')
    \<and> tabs (node_db n') TableCvmTransactionsTxdata = [] \<and> Block_Txs sample_cblock \<noteq> []"
proof -
  let ?b = "sample_cblock\<lparr>Block_BlockExtraData := Some []\<rparr>"
  let ?m = "NewMessage (string_of_bytes (ComputeHash256 sample_lib [])) ''chain'' [] 100 0"
  let ?e = "ErrorString (''Error 1213: '' @ DeadlockDBErrorMessage)"
  let ?f = "axchain_persistConsume sample_lib sample_cvmlib sample_cvm deadlock_once sample_env ?m"
  have u: "modelsc_Unmarshal sample_cvmlib (consumable_Body (sample_msg [1])) = Inr sample_cblock"
    by (simp add: modelsc_Unmarshal_def sample_cvmlib_def sample_cblock_def)
  have r1: "cvm_Consume sample_lib sample_cvmlib sample_cvm deadlock_once sample_env ?m ?b empty_db
      = ((Inl ?e, empty_db\<lparr>ticks := 3\<rparr>), clear_txs ?b)"
    by (simp add: cvm_retry_eval NewMessage_def)
  have "\<exists>d2 b2. cvm_Consume sample_lib sample_cvmlib sample_cvm deadlock_once sample_env ?m (clear_txs ?b) (empty_db\<lparr>ticks := 3\<rparr>) = ((Inr (), d2), b2)"
    by (simp add: cvm_retry_eval NewMessage_def)
  then obtain d2 b2 where r2: "?f (empty_db\<lparr>ticks := 3\<rparr>, clear_txs ?b) = (Inr (), d2, b2)"
    by (auto simp: axchain_persistConsume_def)
  have lock: "ErrIsLockError (Some ?e)" by (simp add: ErrIsLockError_def)
  have "?f (empty_db, ?b) = (Inl ?e, empty_db\<lparr>ticks := 3\<rparr>, clear_txs ?b)" using r1 by (simp add: axchain_persistConsume_def)
  from retry_again [of ?f, OF this lock] retry_first [of ?f, OF r2]
  have "retry ?f (empty_db, ?b) = Some (Inr (), d2, b2)" by (simp add: result_err_def ErrIsLockError_def)
  then obtain n' where run: "axchain_Consume sample_lib sample_cvmlib sample_axchain deadlock_once sample_env (sample_msg [1]) sample_node = Some (Inr (), n')"
    unfolding axchain_Consume_def u by (simp add: sample_axchain_def sample_node_def sample_cblock_def sample_msg_def finish_consume_def)
  have "clear_txs ?b \<noteq> ?b" by (simp add: clear_txs_def sample_cblock_def)
  moreover have "cvm_Consume sample_lib sample_cvmlib (cax_consumer sample_axchain) deadlock_once sample_env ?m ?b (node_db sample_node)
      = ((Inl ?e, empty_db\<lparr>ticks := 3\<rparr>), clear_txs ?b)"
    using r1 by (simp add: sample_axchain_def sample_node_def)
  ultimately have "tabs (node_db n') TableCvmTransactionsTxdata = tabs (node_db sample_node) TableCvmTransactionsTxdata"
    by (intro axchain_retry_loses_transactions [OF deadlock_once_session u refl _ _ _ lock _ run])
      (simp_all add: sample_cblock_def sample_msg_def)
  with run show ?thesis by (simp add: sample_node_def empty_db_def sample_cblock_def)
qed

lemma nat_digits_no_hyphen: "CHR ''-'' \<notin> set (nat_digits n)"
proof -
  have "digit_char d \<noteq> CHR ''-''" if "d < 10" for d
    using that by (auto simp: digit_char_def char_of_eq_iff take_bit_nat_eq_self)
  then have "CHR ''-'' \<notin> digit_char ` {..<10}" by fastforce
  with nat_digits_set [of n] show ?thesis by blast
qed

lemma hyphen_split: "CHR ''-'' \<notin> set a \<Longrightarrow> CHR ''-'' \<notin> set b
    \<Longrightarrow> a @ CHR ''-'' # x = b @ CHR ''-'' # y \<longleftrightarrow> a = b \<and> x = y"
proof (induction a arbitrary: b)
  case Nil
  then show ?case by (cases b) auto
next
  case (Cons u a)
  then show ?case by (cases b) auto
qed

text \<open>The topics of different networks, chains and kinds of events are different, as chain
  identifiers contain no hyphen: a message never reaches
  the consumer of another chain or of another kind of event.\<close>

theorem GetTopicName_injective:
  assumes "CHR ''-'' \<notin> set c" "CHR ''-'' \<notin> set c'"
  shows "GetTopicName n c e = GetTopicName n' c' e' \<longleftrightarrow> n = n' \<and> c = c' \<and> e = e'"
  using assms nat_digits_no_hyphen by (auto simp: GetTopicName_def hyphen_split nat_digits_inj word_unat_eq_iff)

theorem GetTopicName_injective_witness:
  "GetTopicName 1 ''11'' EventTypeDecisions \<noteq> GetTopicName 11 ''1'' EventTypeDecisions"
  using GetTopicName_injective [of "''11''" "''1''" 1 EventTypeDecisions 11 EventTypeDecisions] by simp

text \<open>C15. Trimming removes all line ends at both ends of a message, and nothing else.\<close>

theorem TrimNL_strips:
  "\<exists>i j. s = replicate i (CHR 0x0A) @ TrimNL s @ replicate j (CHR 0x0A)
    \<and> (TrimNL s \<noteq> [] \<longrightarrow> hd (TrimNL s) \<noteq> CHR 0x0A \<and> last (TrimNL s) \<noteq> CHR 0x0A)"
proof -
  have split: "\<exists>i. xs = replicate i (CHR 0x0A) @ dropWhile ((=) (CHR 0x0A)) xs" for xs :: string
  proof (induction xs)
    case (Cons x xs)
    then obtain i where "xs = replicate i (CHR 0x0A) @ dropWhile ((=) (CHR 0x0A)) xs" by blast
    then show ?case by (cases "x = CHR 0x0A") (auto intro: exI [of _ "Suc i"])
  qed simp
  define f where "f = dropWhile ((=) (CHR 0x0A)) s"
  define t where "t = rev (dropWhile ((=) (CHR 0x0A)) (rev f))"
  have t: "TrimNL s = t" by (simp add: TrimNL_def trim_back_rev trim_front_dropWhile t_def f_def)
  obtain i where i: "s = replicate i (CHR 0x0A) @ f" unfolding f_def using split by blast
  obtain j where "rev f = replicate j (CHR 0x0A) @ rev t" unfolding t_def using split [of "rev f"] by auto
  then have j: "f = t @ replicate j (CHR 0x0A)" by (metis rev_append rev_replicate rev_rev_ident)
  have "t \<noteq> [] \<Longrightarrow> last t \<noteq> CHR 0x0A"
    using hd_dropWhile [of "(=) (CHR 0x0A)" "rev f"] by (auto simp: last_rev t_def)
  moreover have "hd t \<noteq> CHR 0x0A" if "t \<noteq> []"
  proof -
    have "f \<noteq> []" "hd f = hd t" using that j by simp_all
    with hd_dropWhile [of "(=) (CHR 0x0A)" s] show ?thesis by (auto simp: f_def)
  qed
  moreover have "s = replicate i (CHR 0x0A) @ t @ replicate j (CHR 0x0A)" using i j by simp
  ultimately show ?thesis unfolding t by blast
qed

theorem TrimNL_strips_witness:
  "TrimNL (newline @ ''a'' @ newline) = ''a''
    \<and> (\<exists>i j. newline @ ''a'' @ newline = replicate i (CHR 0x0A) @ TrimNL (newline @ ''a'' @ newline) @ replicate j (CHR 0x0A))"
  using TrimNL_strips [of "newline @ ''a'' @ newline"]
  by (auto simp: TrimNL_def trim_back_rev trim_front_dropWhile)

end
