(* ===== verification/Indexer.thy ===== *)
theory Indexer
  imports Stream DbProps
begin

text \<open>
  The indexer of \<open>src/stream/consumers/indexer.go\<close>: a pool table, a queue of jobs in memory
  (\<open>Control.LocalTxPool\<close>), workers that run \<open>handleTxPool\<close> and a thread that reads the pending
  rows of the pool again and again. The threads are interleaved: one step is one access to
  the state they share. A call of a consumer is one step; the attempts that it gives up leave
  the tables alone, so only its last transaction can be seen by the others.
\<close>

section \<open>Topics\<close>

type_synonym processor = "TxPool \<Rightarrow> node \<Rightarrow> ((go_error + unit) \<times> node) option"
type_synonym fsm = "string \<rightharpoonup> processor"

fun add_topics :: "processor \<Rightarrow> string list \<Rightarrow> fsm \<Rightarrow> go_error + fsm" where
  "add_topics p [] m = Inr m"
| "add_topics p (t # ts) m =
     (case m t of
        Some _ \<Rightarrow> Inl (ErrorString (''duplicate topic '' @ t))
      | None \<Rightarrow> add_topics p ts (m(t \<mapsto> p)))"

fun add_processors :: "(go_error + string list \<times> processor) list \<Rightarrow> fsm \<Rightarrow> go_error + fsm" where
  "add_processors [] m = Inr m"
| "add_processors (f # fs) m =
     (case f of
        Inl err \<Rightarrow> Inl err
      | Inr (ts, p) \<Rightarrow> (case add_topics p ts m of Inl err \<Rightarrow> Inl err | Inr m' \<Rightarrow> add_processors fs m'))"

text \<open>\<open>factoriesChainDB\<close>, one consumer for each kind of event and chain, and \<open>factoriesInstDB\<close>.\<close>

definition chain_processors :: "(u32 \<Rightarrow> string \<Rightarrow> string \<Rightarrow> go_error + consumer) \<Rightarrow> session \<Rightarrow> settings \<Rightarrow> EventType list \<Rightarrow> u32
    \<Rightarrow> (string \<times> string) list \<Rightarrow> (go_error + string list \<times> processor) list" where
  "chain_processors factory sess env ets nid chs =
     concat (map (\<lambda>et. map (\<lambda>(vm, cid).
        map_sum id (\<lambda>c. ([cdb_topicName c], consumerDB_Process c sess env)) (NewConsumerDB factory et nid vm cid)) chs) ets)"

definition axchain_processor :: "extlib \<Rightarrow> cvmlib \<Rightarrow> axlib \<Rightarrow> session \<Rightarrow> settings \<Rightarrow> go_error + consumer_axchain
    \<Rightarrow> go_error + string list \<times> processor" where
  "axchain_processor lib cl xl sess env c =
     map_sum id (\<lambda>c. ([cax_topicName c, cax_topicTrcName c, cax_topicLogsName c], axchain_Process lib cl xl c sess env)) c"

definition IndexerFactories_fsm :: "(go_error + string list \<times> processor) list \<Rightarrow> (go_error + string list \<times> processor) list
    \<Rightarrow> go_error + fsm" where
  "IndexerFactories_fsm chainDB instDB = add_processors (chainDB @ instDB) Map.empty"

section \<open>The state\<close>

text \<open>A job refers to the \<open>AtomicInterface\<close> of the pass that queued it, or to none.\<close>

record job =
  job_TxPool :: TxPool
  job_Errs :: "nat option"

datatype worker =
    Idle
  | Received job
  | Unlisted job
  | Consuming job
  | Updating job
  | Pushing job

datatype iterator = IterIdle | Iterating "TxPool list" nat nat

text \<open>\<open>pool_done\<close> is not part of the program: it records the rows whose consumer has returned nil.\<close>

record pool =
  pool_node :: node
  pool_queue :: "job list"
  pool_list :: "(string, string) indexedList"
  pool_errs :: "nat \<Rightarrow> go_error option"
  pool_next :: nat
  pool_workers :: "worker list"
  pool_iter :: iterator
  pool_done :: "string set"

record pool_env =
  pe_sess :: session
  pe_fsm :: fsm
  pe_topics :: "string list"

definition MaximumRecordsRead :: nat where
  "MaximumRecordsRead = 10000"

definition MaxTxPoolSize :: nat where
  "MaxTxPoolSize = 10000"

definition MaxSizedList :: int where
  "MaxSizedList = 20000"

definition MaxTheads :: nat where
  "MaxTheads = 10"

abbreviation pool_db :: "pool \<Rightarrow> dbstate" where
  "pool_db s \<equiv> node_db (pool_node s)"

definition set_db :: "dbstate \<Rightarrow> pool \<Rightarrow> pool" where
  "set_db d s = s\<lparr>pool_node := (pool_node s)\<lparr>node_db := d\<rparr>\<rparr>"

definition job_err :: "job \<Rightarrow> pool \<Rightarrow> go_error option" where
  "job_err j s = (case job_Errs j of None \<Rightarrow> None | Some r \<Rightarrow> pool_errs s r)"

definition set_err :: "job \<Rightarrow> go_error \<Rightarrow> pool \<Rightarrow> pool" where
  "set_err j e s = (case job_Errs j of None \<Rightarrow> s | Some r \<Rightarrow> s\<lparr>pool_errs := (pool_errs s)(r := Some e)\<rparr>)"

abbreviation job_id :: "job \<Rightarrow> string" where
  "job_id j \<equiv> TxPool_ID (job_TxPool j)"

section \<open>handleTxPool\<close>

text \<open>\<open>None\<close> is a worker that waits: for a job, or for a consumer that does not return.\<close>

fun worker_step :: "pool_env \<Rightarrow> worker \<Rightarrow> pool \<Rightarrow> (worker \<times> pool) option" where
  "worker_step pe Idle s =
     (case pool_queue s of [] \<Rightarrow> None | j # q \<Rightarrow> Some (Received j, s\<lparr>pool_queue := q\<rparr>))"
| "worker_step pe (Received j) s =
     Some (if IndexedList_Exists (pool_list s) (job_id j) then Idle else Unlisted j, s)"
| "worker_step pe (Unlisted j) s =
     Some (if job_err j s \<noteq> None then Idle
           else (case pe_fsm pe (TxPool_Topic (job_TxPool j)) of None \<Rightarrow> Idle | Some _ \<Rightarrow> Consuming j), s)"
| "worker_step pe (Consuming j) s =
     (case pe_fsm pe (TxPool_Topic (job_TxPool j)) of
        None \<Rightarrow> Some (Idle, s)
      | Some p \<Rightarrow>
          (case p (job_TxPool j) (pool_node s) of
             None \<Rightarrow> None
           | Some (Inl err, n) \<Rightarrow> Some (Idle, set_err j err (s\<lparr>pool_node := n\<rparr>))
           | Some (Inr _, n) \<Rightarrow>
               Some (Updating (j\<lparr>job_TxPool := (job_TxPool j)\<lparr>TxPool_Processed := 1\<rparr>\<rparr>),
                     s\<lparr>pool_node := n, pool_done := insert (job_id j) (pool_done s)\<rparr>)))"
| "worker_step pe (Updating j) s =
     (case persist_exec (pe_sess pe) (PUpdateTxPoolStatus (job_TxPool j)) (pool_db s) of
        (Inl err, d) \<Rightarrow> Some (Idle, set_err j err (set_db d s))
      | (Inr _, d) \<Rightarrow> Some (Pushing j, set_db d s))"
| "worker_step pe (Pushing j) s =
     Some (Idle, s\<lparr>pool_list := IndexedList_PushFront (pool_list s) (job_id j) (job_id j)\<rparr>)"

section \<open>The pass over the pending rows\<close>

fun iter_step :: "pool_env \<Rightarrow> iterator \<Rightarrow> pool \<Rightarrow> (iterator \<times> pool) option" where
  "iter_step pe IterIdle s =
     (case sess_load (pe_sess pe) TableTxPool [Eq ''processed'' (VI 0), In ''topic'' (map VS (pe_topics pe))] (pool_db s) of
        (Inl err, d) \<Rightarrow> Some (IterIdle, set_db d s)
      | (Inr rs, d) \<Rightarrow> Some (Iterating (sort_key TxPool_CreatedAt (map row_of_TxPool rs)) (pool_next s) 0,
                        (set_db d s)\<lparr>pool_next := Suc (pool_next s), pool_errs := (pool_errs s)(pool_next s := None)\<rparr>))"
| "iter_step pe (Iterating [] r n) s = Some (IterIdle, s)"
| "iter_step pe (Iterating (t # ts) r n) s =
     (if pool_errs s r \<noteq> None \<or> n > MaximumRecordsRead then Some (IterIdle, s)
      else if IndexedList_Exists (pool_list s) (TxPool_ID t) then Some (Iterating ts r n, s)
      else if length (pool_queue s) < MaxTxPoolSize
      then Some (Iterating ts r (Suc n), s\<lparr>pool_queue := pool_queue s @ [\<lparr>job_TxPool = t, job_Errs = Some r\<rparr>]\<rparr>)
      else None)"

section \<open>Producers\<close>

definition Enqueue :: "TxPool \<Rightarrow> pool \<Rightarrow> pool" where
  "Enqueue row s =
     (if length (pool_queue s) < MaxTxPoolSize
      then s\<lparr>pool_queue := pool_queue s @ [\<lparr>job_TxPool = row, job_Errs = None\<rparr>]\<rparr> else s)"

definition UpdateTxPool :: "session \<Rightarrow> TxPool \<Rightarrow> (pool, unit) go" where
  "UpdateTxPool sess row s =
     (case persist_exec sess (PInsertTxPool row) (pool_db s) of
        (Inl err, d) \<Rightarrow> (Inl err, set_db d s)
      | (Inr _, d) \<Rightarrow> (Inr (), Enqueue row (set_db d s)))"

section \<open>The interleaving\<close>

text \<open>The state in which the indexer starts: the rows that are marked were consumed by earlier runs.\<close>

definition pool_start :: "node \<Rightarrow> string set \<Rightarrow> pool" where
  "pool_start n D = \<lparr>pool_node = n, pool_queue = [], pool_list = NewIndexedList MaxSizedList, pool_errs = (\<lambda>_. None),
     pool_next = 0, pool_workers = replicate MaxTheads Idle, pool_iter = IterIdle, pool_done = D\<rparr>"

inductive pool_step :: "pool_env \<Rightarrow> pool \<Rightarrow> pool \<Rightarrow> bool" for pe where
  work: "i < length (pool_workers s) \<Longrightarrow> worker_step pe (pool_workers s ! i) s = Some (w, s')
    \<Longrightarrow> pool_step pe s (s'\<lparr>pool_workers := (pool_workers s)[i := w]\<rparr>)"
| iterate: "iter_step pe (pool_iter s) s = Some (it, s') \<Longrightarrow> pool_step pe s (s'\<lparr>pool_iter := it\<rparr>)"
| iter_error: "pool_step pe s (s\<lparr>pool_iter := IterIdle\<rparr>)"
| produce: "TxPool_Processed row = 0 \<Longrightarrow> pool_step pe s (snd (UpdateTxPool (pe_sess pe) row s))"

inductive_cases pool_stepE: "pool_step pe s t"

section \<open>The rows of the pool\<close>

definition pool_row :: "row \<Rightarrow> string \<Rightarrow> int \<Rightarrow> bool" where
  "pool_row r i p \<longleftrightarrow> r ''id'' = Some (VS i) \<and> r ''processed'' = Some (VI p)"

definition pool_typed :: "tables \<Rightarrow> bool" where
  "pool_typed T \<longleftrightarrow> (\<forall>r \<in> set (T TableTxPool). \<exists>i p. pool_row r i p)"

definition table_ids :: "tables \<Rightarrow> string set" where
  "table_ids T = {i. \<exists>r \<in> set (T TableTxPool). r ''id'' = Some (VS i)}"

definition table_done :: "tables \<Rightarrow> string set" where
  "table_done T = {i. \<exists>r \<in> set (T TableTxPool). r ''id'' = Some (VS i) \<and> r ''processed'' \<noteq> Some (VI 0)}"

lemmas pool_tables = table_ids_def table_done_def pool_typed_def pool_row_def

lemma table_done_ids: "table_done T \<subseteq> table_ids T"
  by (auto simp: pool_tables)

lemma pool_tables_cong:
  assumes "T' TableTxPool = T TableTxPool"
  shows "table_ids T' = table_ids T" "table_done T' = table_done T" "pool_typed T' = pool_typed T"
  using assms by (simp_all add: pool_tables)

lemma new_pool_row:
  "new_row TableTxPool (TxPool_cols v) ''id'' = Some (VS (TxPool_ID v))"
  "new_row TableTxPool (TxPool_cols v) ''processed'' = Some (VI (TxPool_Processed v))"
  by (simp_all add: dao_simps TxPool_cols_def)

lemma pool_conflict:
  "conflicts TableTxPool r r' \<longleftrightarrow> r ''id'' \<noteq> None \<and> r ''id'' = r' ''id''"
  by (simp add: dao_simps)

lemma insert_pool:
  assumes "TxPool_Processed v = 0"
  shows "table_ids (ins_ignore TableTxPool (TxPool_cols v) T) = insert (TxPool_ID v) (table_ids T)"
    and "table_done (ins_ignore TableTxPool (TxPool_cols v) T) = table_done T"
    and "pool_typed T \<Longrightarrow> pool_typed (ins_ignore TableTxPool (TxPool_cols v) T)"
proof -
  let ?r = "new_row TableTxPool (TxPool_cols v)"
  have "table_ids (ins_ignore TableTxPool (TxPool_cols v) T) = insert (TxPool_ID v) (table_ids T)
    \<and> table_done (ins_ignore TableTxPool (TxPool_cols v) T) = table_done T
    \<and> (pool_typed T \<longrightarrow> pool_typed (ins_ignore TableTxPool (TxPool_cols v) T))"
  proof (cases "list_ex (conflicts TableTxPool ?r) (T TableTxPool)")
    case True
    then have "TxPool_ID v \<in> table_ids T"
      by (auto simp: list_ex_iff pool_conflict new_pool_row table_ids_def)
    with True show ?thesis by (auto simp: ins_ignore_present)
  next
    case False
    with assms show ?thesis by (auto simp: ins_ignore_fresh pool_tables new_pool_row)
  qed
  then show "table_ids (ins_ignore TableTxPool (TxPool_cols v) T) = insert (TxPool_ID v) (table_ids T)"
    "table_done (ins_ignore TableTxPool (TxPool_cols v) T) = table_done T"
    "pool_typed T \<Longrightarrow> pool_typed (ins_ignore TableTxPool (TxPool_cols v) T)" by blast+
qed

lemma status_pool_rows:
  assumes "tables_ok T"
  shows "upd_effect TableTxPool [(''processed'', VI p)] [Eq ''id'' (VS i)] T TableTxPool
    = map (\<lambda>r. if r ''id'' = Some (VS i) then r(''processed'' \<mapsto> VI p) else r) (T TableTxPool)"
proof -
  have "\<exists>T'. sql_apply (UpdateSet TableTxPool [(''processed'', VI p)] [Eq ''id'' (VS i)]) T = Some T'"
    using assms by (intro stmt_safe_update) (simp_all add: unique_keys_def norm_pairs_def dao_defs)
  then show ?thesis
    by (auto simp: upd_effect_def stmt_effect_def sql_update_def Let_def matches_def norm_pairs_def dao_defs split: if_splits)
qed

lemma status_pool:
  fixes i :: string
  assumes "tables_ok T" "p \<noteq> 0"
  defines "T' \<equiv> upd_effect TableTxPool [(''processed'', VI p)] [Eq ''id'' (VS i)] T"
  shows "table_ids T' = table_ids T"
    and "table_done T' = (if i \<in> table_ids T then insert i (table_done T) else table_done T)"
    and "pool_typed T \<Longrightarrow> pool_typed T'"
proof -
  define f where "f r = (if r ''id'' = Some (VS i) then r(''processed'' \<mapsto> VI p) else r)" for r :: row
  have rows: "T' TableTxPool = map f (T TableTxPool)" by (simp add: T'_def status_pool_rows [OF assms(1)] f_def)
  have f: "f r ''id'' = r ''id''" "f r ''processed'' = (if r ''id'' = Some (VS i) then Some (VI p) else r ''processed'')" for r
    by (simp_all add: f_def)
  show "table_ids T' = table_ids T" by (simp add: table_ids_def rows f)
  show "table_done T' = (if i \<in> table_ids T then insert i (table_done T) else table_done T)"
  proof (rule set_eqI)
    fix x
    have "x \<in> table_done T' \<longleftrightarrow> (\<exists>r \<in> set (T TableTxPool). r ''id'' = Some (VS x) \<and> (x = i \<or> r ''processed'' \<noteq> Some (VI 0)))"
      unfolding table_done_def rows set_map bex_simps mem_Collect_eq f by (intro bex_cong refl) (use assms(2) in auto)
    also have "\<dots> \<longleftrightarrow> x \<in> (if i \<in> table_ids T then insert i (table_done T) else table_done T)"
      by (auto simp: table_ids_def table_done_def)
    finally show "x \<in> table_done T' \<longleftrightarrow> x \<in> (if i \<in> table_ids T then insert i (table_done T) else table_done T)" .
  qed
  show "pool_typed T \<Longrightarrow> pool_typed T'" by (auto simp: pool_typed_def pool_row_def rows f)
qed

text \<open>Identifiers are unique: a row that is pending is not processed under another row.\<close>

lemma keys_ok_unique:
  assumes "keys_ok TableTxPool rows" "r \<in> set rows" "r' \<in> set rows" "r ''id'' = Some v" "r' ''id'' = Some v"
  shows "r = r'"
proof -
  from assms(2,3) obtain i j where ij: "i < length rows" "j < length rows" "r = rows ! i" "r' = rows ! j"
    by (auto simp: in_set_conv_nth)
  have "\<not> conflicts TableTxPool (rows ! a) (rows ! b)" if "a < b" "b < length rows" for a b
    using assms(1) that unfolding keys_ok_def by (rule sorted_wrt_nth_less)
  with ij assms(4,5) have "i = j" by (metis linorder_neqE_nat option.distinct(1) pool_conflict)
  with ij show ?thesis by simp
qed

lemma pending_not_done:
  assumes "tables_ok T" "r \<in> set (T TableTxPool)" "r ''id'' = Some (VS i)" "r ''processed'' = Some (VI 0)"
  shows "i \<notin> table_done T"
proof -
  have "r' = r" if "r' \<in> set (T TableTxPool)" "r' ''id'' = Some (VS i)" for r'
    using keys_ok_unique [of "T TableTxPool" r' r] that assms by (auto simp: tables_ok_def)
  with assms(4) show ?thesis by (auto simp: table_done_def)
qed

section \<open>The invariant\<close>

fun worker_inv :: "tables \<Rightarrow> string set \<Rightarrow> worker \<Rightarrow> bool" where
  "worker_inv T D Idle = True"
| "worker_inv T D (Received j) = (job_id j \<in> table_ids T)"
| "worker_inv T D (Unlisted j) = (job_id j \<in> table_ids T)"
| "worker_inv T D (Consuming j) = (job_id j \<in> table_ids T)"
| "worker_inv T D (Updating j) = (job_id j \<in> table_ids T \<and> job_id j \<in> D \<and> TxPool_Processed (job_TxPool j) = 1)"
| "worker_inv T D (Pushing j) = (job_id j \<in> table_done T)"

fun iter_ids :: "iterator \<Rightarrow> string set" where
  "iter_ids IterIdle = {}"
| "iter_ids (Iterating ts r n) = TxPool_ID ` set ts"

definition pool_inv :: "pool \<Rightarrow> bool" where
  "pool_inv s \<longleftrightarrow> tables_ok (tabs (pool_db s)) \<and> pool_typed (tabs (pool_db s)) \<and> indexedList_wf (pool_list s)
     \<and> table_done (tabs (pool_db s)) \<subseteq> pool_done s
     \<and> pool_done s \<subseteq> table_ids (tabs (pool_db s))
     \<and> set (entryList (pool_list s)) \<subseteq> table_done (tabs (pool_db s))
     \<and> job_id ` set (pool_queue s) \<subseteq> table_ids (tabs (pool_db s))
     \<and> (\<forall>w \<in> set (pool_workers s). worker_inv (tabs (pool_db s)) (pool_done s) w)
     \<and> iter_ids (pool_iter s) \<subseteq> table_ids (tabs (pool_db s))
     \<and> length (pool_queue s) \<le> MaxTxPoolSize"

text \<open>What the other parts of the state see of a step on the tables.\<close>

definition pool_grows :: "tables \<Rightarrow> string set \<Rightarrow> tables \<Rightarrow> string set \<Rightarrow> bool" where
  "pool_grows T D T' D' \<longleftrightarrow> table_ids T \<subseteq> table_ids T' \<and> table_done T \<subseteq> table_done T' \<and> D \<subseteq> D'"

lemma worker_inv_grows: "pool_grows T D T' D' \<Longrightarrow> worker_inv T D w \<Longrightarrow> worker_inv T' D' w"
  by (cases w) (auto simp: pool_grows_def)

lemma pool_grows_refl [simp]: "D \<subseteq> D' \<Longrightarrow> pool_grows T D T D'"
  by (simp add: pool_grows_def)

text \<open>A step of a part that leaves the queue, the list, the workers and the iterator alone.\<close>

lemma pool_inv_tables:
  assumes "pool_inv s" "tables_ok T'" "pool_typed T'" "pool_grows (tabs (pool_db s)) (pool_done s) T' D'"
    and "table_done T' \<subseteq> D'" "D' \<subseteq> table_ids T'" "tabs (node_db n) = T'"
  shows "pool_inv (s\<lparr>pool_node := n, pool_done := D'\<rparr>)"
proof -
  have g: "table_ids (tabs (pool_db s)) \<subseteq> table_ids T'" "table_done (tabs (pool_db s)) \<subseteq> table_done T'"
    using assms(4) by (simp_all add: pool_grows_def)
  have "worker_inv T' D' w" if "w \<in> set (pool_workers s)" for w
    using assms(1) that worker_inv_grows [OF assms(4)] by (simp add: pool_inv_def)
  with g assms show ?thesis by (auto simp: pool_inv_def)
qed

lemma pool_inv_worker:
  assumes "pool_inv s" "worker_inv (tabs (pool_db s)) (pool_done s) w"
  shows "pool_inv (s\<lparr>pool_workers := (pool_workers s)[i := w]\<rparr>)"
  using assms set_update_subset_insert [of "pool_workers s" i w] by (auto simp: pool_inv_def)

definition pool_env_ok :: "pool_env \<Rightarrow> bool" where
  "pool_env_ok pe \<longleftrightarrow> sql_session (pe_sess pe)
     \<and> (\<forall>t p row n out. pe_fsm pe t = Some p \<longrightarrow> p row n = Some out \<longrightarrow> consumed out n)"

lemma consumed_pool:
  assumes "consumed out n"
  shows "table_ids (tabs (node_db (snd out))) = table_ids (tabs (node_db n))"
    "table_done (tabs (node_db (snd out))) = table_done (tabs (node_db n))"
    "pool_typed (tabs (node_db (snd out))) = pool_typed (tabs (node_db n))"
  using consumed_other_table [OF assms, of TableTxPool] by (intro pool_tables_cong; simp add: other_tables_def)+

lemma set_err_fields [simp]:
  "pool_node (set_err j e s) = pool_node s" "pool_queue (set_err j e s) = pool_queue s" "pool_list (set_err j e s) = pool_list s"
  "pool_workers (set_err j e s) = pool_workers s" "pool_iter (set_err j e s) = pool_iter s" "pool_done (set_err j e s) = pool_done s"
  by (simp_all add: set_err_def split: option.splits)

lemma pool_inv_set_err [simp]: "pool_inv (set_err j e s) = pool_inv s"
  by (simp add: pool_inv_def)

lemma pool_db_set_db [simp]: "pool_db (set_db d s) = d" "pool_done (set_db d s) = pool_done s" "pool_workers (set_db d s) = pool_workers s"
  "pool_list (set_db d s) = pool_list s" "pool_queue (set_db d s) = pool_queue s" "pool_iter (set_db d s) = pool_iter s"
  by (simp_all add: set_db_def)

lemma pool_inv_db:
  assumes "pool_inv s" "tables_ok (tabs d)" "pool_typed (tabs d)" "pool_grows (tabs (pool_db s)) (pool_done s) (tabs d) (pool_done s)"
    and "table_done (tabs d) \<subseteq> pool_done s"
  shows "pool_inv (set_db d s)"
proof -
  have "pool_done s \<subseteq> table_ids (tabs d)" using assms(1,4) by (auto simp: pool_inv_def pool_grows_def)
  from pool_inv_tables [OF assms(1-5) this, of "(pool_node s)\<lparr>node_db := d\<rparr>"] show ?thesis by (simp add: set_db_def)
qed

lemma pool_inv_same_db:
  assumes "pool_inv s" "tabs d = tabs (pool_db s)"
  shows "pool_inv (set_db d s)"
proof (rule pool_inv_db [OF assms(1)])
  show "tables_ok (tabs d)" "pool_typed (tabs d)" "table_done (tabs d) \<subseteq> pool_done s"
    using assms(1) by (simp_all only: assms(2) pool_inv_def)
  show "pool_grows (tabs (pool_db s)) (pool_done s) (tabs d) (pool_done s)" by (simp add: assms(2))
qed

section \<open>Every step keeps it\<close>

text \<open>The specification: messages are published, consumed, and marked once consumed.\<close>

type_synonym pool_spec = "string set \<times> string set \<times> string set"

inductive spec_step :: "pool_spec \<Rightarrow> pool_spec \<Rightarrow> bool" where
  publish: "spec_step (I, C, M) (insert i I, C, M)"
| consume: "i \<in> I \<Longrightarrow> spec_step (I, C, M) (I, insert i C, M)"
| mark: "i \<in> C \<Longrightarrow> spec_step (I, C, M) (I, C, insert i M)"

definition pool_abs :: "pool \<Rightarrow> pool_spec" where
  "pool_abs s = (table_ids (tabs (pool_db s)), pool_done s, table_done (tabs (pool_db s)))"

lemma status_step:
  assumes "sql_session sess" "pool_inv s" "worker_inv (tabs (pool_db s)) (pool_done s) (Updating j)"
    and "persist_exec sess (PUpdateTxPoolStatus (job_TxPool j)) (pool_db s) = (r, d)"
  shows "pool_inv (set_db d s)"
    and "r = Inr u \<Longrightarrow> job_id j \<in> table_done (tabs d)"
    and "spec_step\<^sup>*\<^sup>* (pool_abs s) (pool_abs (set_db d s))"
proof -
  let ?T = "tabs (pool_db s)"
  have ok: "tables_ok ?T" "pool_typed ?T" "table_done ?T \<subseteq> pool_done s" "job_id j \<in> table_ids ?T" "job_id j \<in> pool_done s"
    using assms(2,3) by (simp_all add: pool_inv_def)
  have p: "TxPool_Processed (job_TxPool j) = 1" using assms(3) by simp
  have "pool_inv (set_db d s) \<and> (r = Inr u \<longrightarrow> job_id j \<in> table_done (tabs d)) \<and> spec_step\<^sup>*\<^sup>* (pool_abs s) (pool_abs (set_db d s))"
  proof (cases r)
    case (Inl e)
    then have "tabs d = ?T" using sql_session.exec_fails(3) [OF assms(1)] assms(4) by (simp add: UpdateTxPoolStatus_def)
    with Inl assms(2) show ?thesis by (simp add: pool_inv_same_db pool_abs_def)
  next
    case (Inr a)
    then have d: "tabs d = upd_effect TableTxPool [(''processed'', VI 1)] [Eq ''id'' (VS (job_id j))] ?T"
      using sql_session.exec_oks(3) [OF assms(1)] assms(4) p by (simp add: UpdateTxPoolStatus_def)
    note st = status_pool [OF ok(1), of 1 "job_id j", folded d]
    have "tables_ok (tabs d)" unfolding d by (rule upd_effect_keys [OF ok(1)])
    then have "pool_inv (set_db d s)"
      using st ok by (intro pool_inv_db [OF assms(2)]) (auto simp: pool_grows_def)
    moreover have "spec_step (pool_abs s) (pool_abs (set_db d s))"
      using st ok mark [of "job_id j" "pool_done s"] by (simp add: pool_abs_def)
    ultimately show ?thesis using st ok(4) by auto
  qed
  then show "pool_inv (set_db d s)" "r = Inr u \<Longrightarrow> job_id j \<in> table_done (tabs d)"
    "spec_step\<^sup>*\<^sup>* (pool_abs s) (pool_abs (set_db d s))" by blast+
qed

lemma consume_step:
  assumes "pool_env_ok pe" "pool_inv s" "pe_fsm pe t = Some p" "p row (pool_node s) = Some (r, n)"
  shows "pool_inv (s\<lparr>pool_node := n\<rparr>)" "pool_abs (s\<lparr>pool_node := n\<rparr>) = pool_abs s"
    and "i \<in> table_ids (tabs (pool_db s)) \<Longrightarrow> pool_inv (s\<lparr>pool_node := n, pool_done := insert i (pool_done s)\<rparr>)"
    and "i \<in> table_ids (tabs (pool_db s)) \<Longrightarrow> spec_step (pool_abs s) (pool_abs (s\<lparr>pool_node := n, pool_done := insert i (pool_done s)\<rparr>))"
proof -
  have c: "consumed (r, n) (pool_node s)" using assms(1,3,4) by (auto simp: pool_env_ok_def)
  note same = consumed_pool [OF c, simplified]
  have ok: "tables_ok (tabs (node_db n))" using consumed_keys [OF c] assms(2) by (simp add: pool_inv_def)
  have *: "pool_inv (s\<lparr>pool_node := n, pool_done := D\<rparr>)" if "pool_done s \<subseteq> D" "D \<subseteq> table_ids (tabs (pool_db s))" for D
    using ok same that assms(2) by (intro pool_inv_tables [OF assms(2)]) (auto simp: pool_inv_def pool_grows_def)
  from * [of "pool_done s"] assms(2) show "pool_inv (s\<lparr>pool_node := n\<rparr>)" by (simp add: pool_inv_def)
  show "pool_abs (s\<lparr>pool_node := n\<rparr>) = pool_abs s" using same by (simp add: pool_abs_def)
  assume i: "i \<in> table_ids (tabs (pool_db s))"
  then show "pool_inv (s\<lparr>pool_node := n, pool_done := insert i (pool_done s)\<rparr>)"
    using assms(2) by (intro *) (auto simp: pool_inv_def)
  show "spec_step (pool_abs s) (pool_abs (s\<lparr>pool_node := n, pool_done := insert i (pool_done s)\<rparr>))"
    using consume [OF i] same by (simp add: pool_abs_def)
qed

text \<open>\<open>stepped s w s'\<close>: a thread went from \<open>s\<close> to \<open>s'\<close> and is at \<open>w\<close> now.\<close>

definition stepped :: "pool \<Rightarrow> worker \<Rightarrow> pool \<Rightarrow> bool" where
  "stepped s w s' \<longleftrightarrow> pool_inv s' \<and> worker_inv (tabs (pool_db s')) (pool_done s') w
     \<and> pool_workers s' = pool_workers s \<and> spec_step\<^sup>*\<^sup>* (pool_abs s) (pool_abs s')"

lemma stepped_stutter: "pool_inv s \<Longrightarrow> worker_inv (tabs (pool_db s)) (pool_done s) w \<Longrightarrow> stepped s w s"
  by (simp add: stepped_def)

lemma pool_inv_dequeue: "pool_inv s \<Longrightarrow> pool_queue s = j # q \<Longrightarrow> pool_inv (s\<lparr>pool_queue := q\<rparr>) \<and> job_id j \<in> table_ids (tabs (pool_db s))"
  by (simp add: pool_inv_def)

lemma pool_inv_push:
  assumes "pool_inv s" "i \<in> table_done (tabs (pool_db s))"
  shows "pool_inv (s\<lparr>pool_list := IndexedList_PushFront (pool_list s) i i\<rparr>)"
proof -
  have wf: "indexedList_wf (pool_list s)" using assms(1) by (simp add: pool_inv_def)
  have "set (entryList (IndexedList_PushFront (pool_list s) i i)) \<subseteq> insert i (set (entryList (pool_list s)))"
    using PushFront_list(1) [OF wf, of i i] by (auto dest: in_set_takeD)
  with assms PushFront_list(3) [OF wf] show ?thesis by (auto simp: pool_inv_def)
qed

lemma worker_step_stepped:
  assumes "pool_env_ok pe" "pool_inv s" "worker_inv (tabs (pool_db s)) (pool_done s) w" "worker_step pe w s = Some (w', s')"
  shows "stepped s w' s'"
proof (cases w)
  case Idle
  then obtain j q where j: "pool_queue s = j # q" "w' = Received j" "s' = s\<lparr>pool_queue := q\<rparr>"
    using assms(4) by (auto split: list.splits)
  from pool_inv_dequeue [OF assms(2) j(1)] j show ?thesis by (simp add: stepped_def pool_abs_def)
next
  case (Received j)
  with assms show ?thesis by (auto intro: stepped_stutter)
next
  case (Unlisted j)
  with assms show ?thesis by (auto intro: stepped_stutter split: option.splits)
next
  case (Consuming j)
  show ?thesis
  proof (cases "pe_fsm pe (TxPool_Topic (job_TxPool j))")
    case None
    with Consuming assms show ?thesis by (auto intro: stepped_stutter)
  next
    case (Some p)
    with Consuming assms(4) obtain r n where r: "p (job_TxPool j) (pool_node s) = Some (r, n)"
      by (auto split: option.splits)
    have i: "job_id j \<in> table_ids (tabs (pool_db s))" using assms(3) Consuming by simp
    have ids: "table_ids (tabs (node_db n)) = table_ids (tabs (pool_db s))"
      using consume_step(2) [OF assms(1,2) Some r] by (simp add: pool_abs_def)
    show ?thesis
    proof (cases r)
      case (Inl e)
      with consume_step(1,2) [OF assms(1,2) Some r] Consuming Some r assms(4) show ?thesis
        by (auto simp: stepped_def pool_abs_def)
    next
      case (Inr u)
      with consume_step(3,4) [OF assms(1,2) Some r i] Consuming Some r assms(4) i ids show ?thesis
        by (auto simp: stepped_def)
    qed
  qed
next
  case (Updating j)
  obtain r d where r: "persist_exec (pe_sess pe) (PUpdateTxPoolStatus (job_TxPool j)) (pool_db s) = (r, d)"
    by (cases "persist_exec (pe_sess pe) (PUpdateTxPoolStatus (job_TxPool j)) (pool_db s)")
  have sess: "sql_session (pe_sess pe)" using assms(1) by (simp add: pool_env_ok_def)
  note st = status_step [OF sess assms(2) assms(3) [unfolded Updating] r]
  show ?thesis
  proof (cases r)
    case (Inl e)
    with st(1,3) Updating r assms(4) show ?thesis by (auto simp: stepped_def pool_abs_def simp del: persist_exec.simps)
  next
    case (Inr u)
    with st Updating r assms(4) show ?thesis by (auto simp: stepped_def simp del: persist_exec.simps)
  qed
next
  case (Pushing j)
  with pool_inv_push [OF assms(2)] assms(3,4) show ?thesis by (auto simp: stepped_def pool_abs_def)
qed

lemma pool_rows_ids:
  assumes "pool_typed T" "rs = sql_select TableTxPool cs T"
  shows "\<forall>x \<in> set rs. TxPool_ID (row_of_TxPool x) \<in> table_ids T"
  using assms by (force simp: sql_select_def pool_tables row_of_TxPool_def getS_def)

lemma pool_inv_enqueue:
  assumes "pool_inv s" "length (pool_queue s) < MaxTxPoolSize" "job_id j \<in> table_ids (tabs (pool_db s))"
  shows "pool_inv (s\<lparr>pool_queue := pool_queue s @ [j]\<rparr>)"
  using assms by (auto simp: pool_inv_def)

lemma pool_inv_iter: "pool_inv s \<Longrightarrow> iter_ids it \<subseteq> table_ids (tabs (pool_db s)) \<Longrightarrow> pool_inv (s\<lparr>pool_iter := it\<rparr>)"
  by (simp add: pool_inv_def)

lemma iter_step_inv:
  assumes "sql_session (pe_sess pe)" "pool_inv s" "iter_ids it \<subseteq> table_ids (tabs (pool_db s))" "iter_step pe it s = Some (it', s')"
  shows "pool_inv s' \<and> iter_ids it' \<subseteq> table_ids (tabs (pool_db s')) \<and> pool_abs s' = pool_abs s"
proof (cases it)
  case IterIdle
  obtain r d where r: "sess_load (pe_sess pe) TableTxPool [Eq ''processed'' (VI 0), In ''topic'' (map VS (pe_topics pe))] (pool_db s) = (r, d)"
    by (cases "sess_load (pe_sess pe) TableTxPool [Eq ''processed'' (VI 0), In ''topic'' (map VS (pe_topics pe))] (pool_db s)")
  have d: "tabs d = tabs (pool_db s)" using sql_session.load_tabs [OF assms(1), of TableTxPool _ "pool_db s"] r by (metis snd_conv)
  have inv: "pool_inv (set_db d s)" by (rule pool_inv_same_db [OF assms(2) d])
  show ?thesis
  proof (cases r)
    case (Inl e)
    with IterIdle r assms(4) inv d show ?thesis by (auto simp: pool_abs_def)
  next
    case (Inr rs)
    have "\<forall>x \<in> set rs. TxPool_ID (row_of_TxPool x) \<in> table_ids (tabs (pool_db s))"
      using assms(2) sql_session.load_ok [OF assms(1) r [unfolded Inr]] by (intro pool_rows_ids) (simp_all add: pool_inv_def)
    moreover have "pool_inv ((set_db d s)\<lparr>pool_next := k, pool_errs := f\<rparr>)" for k f
      using inv by (simp add: pool_inv_def)
    ultimately show ?thesis using IterIdle r assms(4) Inr d by (auto simp: pool_abs_def)
  qed
next
  case (Iterating ts r n)
  show ?thesis
  proof (cases ts)
    case Nil
    with Iterating assms show ?thesis by auto
  next
    case (Cons t ts')
    with Iterating assms(3) have t: "TxPool_ID t \<in> table_ids (tabs (pool_db s))" "TxPool_ID ` set ts' \<subseteq> table_ids (tabs (pool_db s))"
      by auto
    from t(1) pool_inv_enqueue [OF assms(2), of "\<lparr>job_TxPool = t, job_Errs = Some r\<rparr>"] t(2) Cons Iterating assms(2,4)
    show ?thesis by (auto simp: pool_abs_def image_subset_iff split: if_splits)
  qed
qed

lemma UpdateTxPool_inv:
  assumes "sql_session sess" "pool_inv s" "TxPool_Processed row = 0"
  shows "pool_inv (snd (UpdateTxPool sess row s)) \<and> spec_step\<^sup>*\<^sup>* (pool_abs s) (pool_abs (snd (UpdateTxPool sess row s)))"
proof -
  obtain r d where r: "persist_exec sess (PInsertTxPool row) (pool_db s) = (r, d)"
    by (cases "persist_exec sess (PInsertTxPool row) (pool_db s)")
  show ?thesis
  proof (cases r)
    case (Inl e)
    with r have d: "tabs d = tabs (pool_db s)" using sql_session.exec_fails(1) [OF assms(1)] by (simp add: InsertTxPool_def)
    with Inl r pool_inv_same_db [OF assms(2) d] show ?thesis by (simp add: UpdateTxPool_def pool_abs_def)
  next
    case (Inr u)
    with r have d: "tabs d = ins_ignore TableTxPool (TxPool_cols row) (tabs (pool_db s))"
      using sql_session.exec_oks(1) [OF assms(1)] by (simp add: InsertTxPool_def)
    note ins = insert_pool [OF assms(3), of "tabs (pool_db s)", folded d]
    have "tables_ok (tabs d)" unfolding d using assms(2) by (intro ins_ignore_keys) (simp add: pool_inv_def)
    then have inv: "pool_inv (set_db d s)"
      using ins assms(2) by (intro pool_inv_db [OF assms(2)]) (auto simp: pool_inv_def pool_grows_def)
    then have "pool_inv (Enqueue row (set_db d s))"
      using pool_inv_enqueue [OF inv, of "\<lparr>job_TxPool = row, job_Errs = None\<rparr>"] ins(1) by (simp add: Enqueue_def)
    moreover have "spec_step (pool_abs s) (pool_abs (Enqueue row (set_db d s)))"
      using publish ins(1,2) by (simp add: pool_abs_def Enqueue_def)
    ultimately show ?thesis using Inr r by (simp add: UpdateTxPool_def)
  qed
qed

lemma pool_step_sim:
  assumes "pool_env_ok pe" "pool_inv s" "pool_step pe s t"
  shows "pool_inv t \<and> spec_step\<^sup>*\<^sup>* (pool_abs s) (pool_abs t)"
  using assms(3)
proof (cases rule: pool_step.cases)
  case (work i w s')
  have "worker_inv (tabs (pool_db s)) (pool_done s) (pool_workers s ! i)"
    using assms(2) work(2) by (simp add: pool_inv_def)
  from worker_step_stepped [OF assms(1,2) this work(3)] have st: "stepped s w s'" .
  then have "pool_inv (s'\<lparr>pool_workers := (pool_workers s')[i := w]\<rparr>)"
    by (intro pool_inv_worker) (simp_all add: stepped_def)
  with st work(1) show ?thesis by (simp add: stepped_def pool_abs_def)
next
  case (iterate it s')
  from iter_step_inv [OF _ assms(2) _ iterate(2)] assms(1,2) have "pool_inv s'" "iter_ids it \<subseteq> table_ids (tabs (pool_db s'))" "pool_abs s' = pool_abs s"
    by (simp_all add: pool_env_ok_def pool_inv_def)
  with iterate(1) show ?thesis by (simp add: pool_inv_iter pool_abs_def)
next
  case iter_error
  with assms(2) show ?thesis by (simp add: pool_inv_iter pool_abs_def)
next
  case (produce row)
  with UpdateTxPool_inv [OF _ assms(2)] assms(1) show ?thesis by (simp add: pool_env_ok_def)
qed

section \<open>Refinement\<close>

locale simulation =
  fixes step :: "'c \<Rightarrow> 'c \<Rightarrow> bool"
    and spec :: "'a \<Rightarrow> 'a \<Rightarrow> bool"
    and abstr :: "'c \<Rightarrow> 'a"
    and inv :: "'c \<Rightarrow> bool"
  assumes simulates: "inv s \<Longrightarrow> step s t \<Longrightarrow> inv t \<and> spec\<^sup>*\<^sup>* (abstr s) (abstr t)"
begin

lemma reaches: "step\<^sup>*\<^sup>* s t \<Longrightarrow> inv s \<Longrightarrow> inv t \<and> spec\<^sup>*\<^sup>* (abstr s) (abstr t)"
  by (induction rule: rtranclp_induct) (auto dest: simulates intro: rtranclp_trans)

lemma spec_invariant:
  assumes "step\<^sup>*\<^sup>* s t" "inv s" "J (abstr s)" and "\<And>a b. J a \<Longrightarrow> spec a b \<Longrightarrow> J b"
  shows "J (abstr t)"
proof -
  have "spec\<^sup>*\<^sup>* a b \<Longrightarrow> J a \<Longrightarrow> J b" for a b
    by (induction rule: rtranclp_induct) (auto intro: assms(4))
  with reaches [OF assms(1,2)] assms(3) show ?thesis by blast
qed

end

interpretation pool_sim: simulation "\<lambda>s t. pool_env_ok pe \<and> pool_step pe s t" spec_step pool_abs pool_inv for pe
  by unfold_locales (auto dest: pool_step_sim)

lemma pool_steps: "pool_env_ok pe \<Longrightarrow> (pool_step pe)\<^sup>*\<^sup>* s t \<Longrightarrow> (\<lambda>s t. pool_env_ok pe \<and> pool_step pe s t)\<^sup>*\<^sup>* s t"
  by simp

section \<open>The processors\<close>

lemma add_topics_Inr:
  "add_topics p ts m = Inr m' \<longleftrightarrow> distinct ts \<and> set ts \<inter> dom m = {} \<and> m' = (\<lambda>t. if t \<in> set ts then Some p else m t)"
  by (induction ts arbitrary: m) (auto split: option.splits)

lemma add_topics_Inl:
  "add_topics p ts m = Inl e \<Longrightarrow> \<exists>t \<in> set ts. e = ErrorString (''duplicate topic '' @ t)"
  by (induction ts arbitrary: m) (auto split: option.splits)

lemma add_processors_Inr:
  assumes "add_processors fs m = Inr m'"
  shows "\<exists>ps. fs = map Inr ps \<and> distinct (concat (map fst ps)) \<and> set (concat (map fst ps)) \<inter> dom m = {}
    \<and> (\<forall>t. m' t = (case List.find (\<lambda>x. t \<in> set (fst x)) ps of Some x \<Rightarrow> Some (snd x) | None \<Rightarrow> m t))"
  using assms
proof (induction fs arbitrary: m)
  case (Cons f fs)
  from Cons.prems obtain ts p m1 where f: "f = Inr (ts, p)" "add_topics p ts m = Inr m1" "add_processors fs m1 = Inr m'"
    by (auto split: sum.splits)
  from f(2) have m1: "distinct ts" "set ts \<inter> dom m = {}" "m1 = (\<lambda>t. if t \<in> set ts then Some p else m t)"
    by (simp_all add: add_topics_Inr)
  from Cons.IH [OF f(3)] obtain ps where ps: "fs = map Inr ps" "distinct (concat (map fst ps))"
    "set (concat (map fst ps)) \<inter> dom m1 = {}"
    "\<forall>t. m' t = (case List.find (\<lambda>x. t \<in> set (fst x)) ps of Some x \<Rightarrow> Some (snd x) | None \<Rightarrow> m1 t)" by blast
  have dom: "dom m1 = set ts \<union> dom m" by (auto simp: m1(3))
  have "List.find (\<lambda>x. t \<in> set (fst x)) ps = None" if "t \<in> set ts" for t
    using ps(3) that dom by (fastforce simp: find_None_iff)
  then have "m' t = (case List.find (\<lambda>x. t \<in> set (fst x)) ((ts, p) # ps) of Some x \<Rightarrow> Some (snd x) | None \<Rightarrow> m t)" for t
    using ps(4) m1(3) by (auto split: option.splits)
  moreover have "distinct (concat (map fst ((ts, p) # ps)))" "set (concat (map fst ((ts, p) # ps))) \<inter> dom m = {}"
    using ps(2,3) m1(1,2) dom by auto
  ultimately show ?case using f(1) ps(1) by (intro exI [of _ "(ts, p) # ps"]) simp
qed simp

lemma fsm_processors:
  assumes "IndexerFactories_fsm chainDB instDB = Inr m" "m t = Some p"
  shows "\<exists>ts. Inr (ts, p) \<in> set chainDB \<union> set instDB \<and> t \<in> set ts"
proof -
  from add_processors_Inr [OF assms(1) [unfolded IndexerFactories_fsm_def]] obtain ps where
    ps: "chainDB @ instDB = map Inr ps" "m t = (case List.find (\<lambda>x. t \<in> set (fst x)) ps of Some x \<Rightarrow> Some (snd x) | None \<Rightarrow> None)"
    by auto
  from ps(2) assms(2) obtain x where "List.find (\<lambda>x. t \<in> set (fst x)) ps = Some x" "p = snd x" by (auto split: option.splits)
  then have "x \<in> set ps" "t \<in> set (fst x)" by (auto simp: find_Some_iff)
  then have "Inr x \<in> set (chainDB @ instDB)" using ps(1) by simp
  with \<open>p = snd x\<close> \<open>t \<in> set (fst x)\<close> show ?thesis by (intro exI [of _ "fst x"]) auto
qed

lemma fsm_consumed:
  assumes "sql_session sess" "Errs_keep_first lib"
    and "IndexerFactories_fsm (chain_processors (IndexerConsumer lib al pl asset) sess env ets nid chs) [axchain_processor lib cl xl sess env c] = Inr m"
    and "m t = Some p" "p row n = Some out"
  shows "consumed out n"
proof -
  from fsm_processors [OF assms(3,4)] obtain ts where
    "Inr (ts, p) \<in> set (chain_processors (IndexerConsumer lib al pl asset) sess env ets nid chs) \<or> Inr (ts, p) = axchain_processor lib cl xl sess env c"
    by auto
  then show ?thesis
  proof
    assume "Inr (ts, p) \<in> set (chain_processors (IndexerConsumer lib al pl asset) sess env ets nid chs)"
    then obtain et vm cid k where "NewConsumerDB (IndexerConsumer lib al pl asset) et nid vm cid = Inr k" "p = consumerDB_Process k sess env"
      by (auto simp: chain_processors_def map_sum_Inr_iff eq_commute [of "Inr (ts, p)"])
    with consumerDB_Process_consumed [OF assms(1,2)] assms(5) show ?thesis by blast
  next
    assume "Inr (ts, p) = axchain_processor lib cl xl sess env c"
    then obtain k where "p = axchain_Process lib cl xl k sess env" by (cases c) (auto simp: axchain_processor_def)
    with axchain_Process_consumed [OF assms(1)] assms(5) show ?thesis by blast
  qed
qed

lemma pool_start_inv:
  assumes "tables_ok (tabs (node_db n))" "pool_typed (tabs (node_db n))"
    and "table_done (tabs (node_db n)) \<subseteq> D" "D \<subseteq> table_ids (tabs (node_db n))"
  shows "pool_inv (pool_start n D)"
  using assms by (auto simp: pool_inv_def pool_start_def set_replicate_conv_if)

text \<open>One thread on its own.\<close>

fun iter_run :: "nat \<Rightarrow> pool_env \<Rightarrow> iterator \<Rightarrow> pool \<Rightarrow> (iterator \<times> pool) option" where
  "iter_run 0 pe it s = Some (it, s)"
| "iter_run (Suc k) pe it s = (case iter_step pe it s of None \<Rightarrow> None | Some (it', s') \<Rightarrow> iter_run k pe it' s')"

fun worker_run :: "nat \<Rightarrow> pool_env \<Rightarrow> worker \<Rightarrow> pool \<Rightarrow> (worker \<times> pool) option" where
  "worker_run 0 pe w s = Some (w, s)"
| "worker_run (Suc k) pe w s = (case worker_step pe w s of None \<Rightarrow> None | Some (w', s') \<Rightarrow> worker_run k pe w' s')"

lemma iter_run_queues:
  assumes "\<And>t. t \<in> set ts \<Longrightarrow> \<not> IndexedList_Exists (pool_list s) (TxPool_ID t)"
    and "length (pool_queue s) + length ts \<le> MaxTxPoolSize" "n + length ts \<le> MaximumRecordsRead + 1" "pool_errs s r = None"
  shows "iter_run (Suc (length ts)) pe (Iterating ts r n) s
    = Some (IterIdle, s\<lparr>pool_queue := pool_queue s @ map (\<lambda>t. \<lparr>job_TxPool = t, job_Errs = Some r\<rparr>) ts\<rparr>)"
  using assms by (induction ts arbitrary: s n) auto

section \<open>Properties\<close>

text \<open>C16. Whatever the interleaving of the ten workers, the pass over the pool and the producers, and
  whatever faults the server has: a row of the pool is marked as processed only after its
  consumer has returned without an error, the list of rows to skip holds only rows that are
  marked, keys stay unique and the queue stays within its capacity.\<close>

theorem pool_marks_only_consumed:
  assumes "sql_session sess" "Errs_keep_first lib" "tables_ok (tabs (node_db n))" "pool_typed (tabs (node_db n))"
    and "IndexerFactories_fsm (chain_processors (IndexerConsumer lib al pl asset) sess env ets nid chs) [axchain_processor lib cl xl sess env c] = Inr fsm"
    and "(pool_step \<lparr>pe_sess = sess, pe_fsm = fsm, pe_topics = topics\<rparr>)\<^sup>*\<^sup>* (pool_start n (table_done (tabs (node_db n)))) s"
  shows "table_done (tabs (pool_db s)) \<subseteq> pool_done s
    \<and> (\<forall>i. IndexedList_Exists (pool_list s) i \<longrightarrow> i \<in> table_done (tabs (pool_db s)))
    \<and> tables_ok (tabs (pool_db s)) \<and> length (pool_queue s) \<le> MaxTxPoolSize"
proof -
  let ?pe = "\<lparr>pe_sess = sess, pe_fsm = fsm, pe_topics = topics\<rparr>"
  have env: "pool_env_ok ?pe" using fsm_consumed [OF assms(1,2,5)] assms(1) by (auto simp: pool_env_ok_def)
  have "pool_inv s"
    using pool_sim.reaches [OF pool_steps [OF env assms(6)]] pool_start_inv [OF assms(3,4) subset_refl table_done_ids] by blast
  then show ?thesis by (auto simp: pool_inv_def Exists_entryList)
qed

text \<open>C17. The indexer refines its specification: every run of it is a sequence of publishing messages,
  consuming messages that were published and marking messages that were consumed.\<close>

theorem pool_refines_spec:
  assumes "sql_session sess" "Errs_keep_first lib" "tables_ok (tabs (node_db n))" "pool_typed (tabs (node_db n))"
    and "IndexerFactories_fsm (chain_processors (IndexerConsumer lib al pl asset) sess env ets nid chs) [axchain_processor lib cl xl sess env c] = Inr fsm"
    and "(pool_step \<lparr>pe_sess = sess, pe_fsm = fsm, pe_topics = topics\<rparr>)\<^sup>*\<^sup>* (pool_start n (table_done (tabs (node_db n)))) s"
  shows "spec_step\<^sup>*\<^sup>* (pool_abs (pool_start n (table_done (tabs (node_db n))))) (pool_abs s)"
proof -
  have "pool_env_ok \<lparr>pe_sess = sess, pe_fsm = fsm, pe_topics = topics\<rparr>"
    using fsm_consumed [OF assms(1,2,5)] assms(1) by (auto simp: pool_env_ok_def)
  from pool_sim.reaches [OF pool_steps [OF this assms(6)]] pool_start_inv [OF assms(3,4) subset_refl table_done_ids]
  show ?thesis by blast
qed


lemma job_err_queue [simp]: "job_err j (s\<lparr>pool_queue := q\<rparr>) = job_err j s"
  by (simp add: job_err_def split: option.splits)

lemma job_err_set_err: "job_Errs j \<noteq> None \<Longrightarrow> job_err j (set_err j e s) = Some e"
  by (auto simp: job_err_def set_err_def)

lemma round_start:
  assumes "pool_queue s = j # q" "\<not> IndexedList_Exists (pool_list s) (job_id j)" "job_err j s = None"
    "pe_fsm pe (TxPool_Topic (job_TxPool j)) = Some p"
  shows "worker_run (Suc (Suc (Suc k))) pe Idle s = worker_run k pe (Consuming j) (s\<lparr>pool_queue := q\<rparr>)"
  using assms by simp

lemma round_success:
  assumes "pool_env_ok pe" "pool_inv s" "pool_queue s = j # q" "\<not> IndexedList_Exists (pool_list s) (job_id j)" "job_err j s = None"
    and p: "pe_fsm pe (TxPool_Topic (job_TxPool j)) = Some p" "p (job_TxPool j) (pool_node s) = Some (Inr u, n)"
    and upd: "fst (persist_exec (pe_sess pe) (PUpdateTxPoolStatus ((job_TxPool j)\<lparr>TxPool_Processed := 1\<rparr>)) (node_db n)) = Inr ()"
  shows "\<exists>s'. worker_run 6 pe Idle s = Some (Idle, s') \<and> job_id j \<in> table_done (tabs (pool_db s')) \<and> IndexedList_Exists (pool_list s') (job_id j)"
proof -
  let ?s = "s\<lparr>pool_queue := q\<rparr>" and ?j = "j\<lparr>job_TxPool := (job_TxPool j)\<lparr>TxPool_Processed := 1\<rparr>\<rparr>"
  let ?s1 = "?s\<lparr>pool_node := n, pool_done := insert (job_id j) (pool_done s)\<rparr>"
  have inv: "pool_inv ?s" and i: "job_id j \<in> table_ids (tabs (pool_db ?s))" using pool_inv_dequeue [OF assms(2,3)] by simp_all
  obtain d where d: "persist_exec (pe_sess pe) (PUpdateTxPoolStatus (job_TxPool ?j)) (pool_db ?s1) = (Inr (), d)"
    using upd by (cases "persist_exec (pe_sess pe) (PUpdateTxPoolStatus (job_TxPool ?j)) (node_db n)") (simp del: persist_exec.simps)
  have "p (job_TxPool j) (pool_node ?s) = Some (Inr u, n)" using p(2) by simp
  note cs = consume_step(2,3) [OF assms(1) inv p(1) this]
  have inv1: "pool_inv ?s1" using cs(2) [OF i] by simp
  have "worker_inv (tabs (pool_db ?s1)) (pool_done ?s1) (Updating ?j)" using cs(1) i by (simp add: pool_abs_def)
  from status_step [OF _ inv1 this d] assms(1) have st: "pool_inv (set_db d ?s1)" "job_id j \<in> table_done (tabs d)"
    by (simp_all add: pool_env_ok_def)
  have "worker_run 6 pe Idle s = Some (Idle, (set_db d ?s1)\<lparr>pool_list := IndexedList_PushFront (pool_list s) (job_id j) (job_id j)\<rparr>)"
    using round_start [OF assms(3-5) p(1), of 3] p d by (simp add: eval_nat_numeral del: persist_exec.simps)
  moreover have "IndexedList_Exists (IndexedList_PushFront (pool_list s) (job_id j) (job_id j)) (job_id j)"
    using assms(2) by (intro il.exists_after_push) (simp add: pool_inv_def)
  ultimately show ?thesis using st(2) by simp
qed

lemma round_failure:
  assumes "pool_env_ok pe" "pool_inv s" "pool_queue s = j # q" "\<not> IndexedList_Exists (pool_list s) (job_id j)" "job_err j s = None"
    and p: "pe_fsm pe (TxPool_Topic (job_TxPool j)) = Some p" "p (job_TxPool j) (pool_node s) = Some (Inl e, n)"
  shows "\<exists>s'. worker_run 4 pe Idle s = Some (Idle, s') \<and> table_done (tabs (pool_db s')) = table_done (tabs (pool_db s))
    \<and> (job_Errs j \<noteq> None \<longrightarrow> job_err j s' = Some e)"
proof -
  let ?s = "s\<lparr>pool_queue := q\<rparr>"
  have inv: "pool_inv ?s" using pool_inv_dequeue [OF assms(2,3)] by simp
  have "p (job_TxPool j) (pool_node ?s) = Some (Inl e, n)" using p(2) by simp
  note same = consume_step(2) [OF assms(1) inv p(1) this]
  have "worker_run 4 pe Idle s = Some (Idle, set_err j e (?s\<lparr>pool_node := n\<rparr>))"
    using round_start [OF assms(3-5) p(1), of 1] p by (simp add: eval_nat_numeral)
  with same show ?thesis by (simp add: pool_abs_def job_err_set_err)
qed

text \<open>One round of \<open>handleTxPool\<close>, when nothing else happens in between. A job that is listed, that
  belongs to a pass that has failed or whose topic nobody serves is dropped. A job whose
  consumer fails leaves its row as it is and stops the rest of its pass. A job whose consumer
  succeeds gets its row marked and listed when the server accepts the update.\<close>

theorem handleTxPool_round:
  assumes "pool_env_ok pe" "pool_inv s" "pool_queue s = j # q"
  defines "skip \<equiv> IndexedList_Exists (pool_list s) (job_id j) \<or> job_err j s \<noteq> None \<or> pe_fsm pe (TxPool_Topic (job_TxPool j)) = None"
  shows "(skip \<longrightarrow> (\<exists>k. worker_run k pe Idle s = Some (Idle, s\<lparr>pool_queue := q\<rparr>)))
    \<and> (\<forall>p e n. \<not> skip \<longrightarrow> pe_fsm pe (TxPool_Topic (job_TxPool j)) = Some p \<longrightarrow> p (job_TxPool j) (pool_node s) = Some (Inl e, n) \<longrightarrow>
        (\<exists>s'. worker_run 4 pe Idle s = Some (Idle, s') \<and> table_done (tabs (pool_db s')) = table_done (tabs (pool_db s))
          \<and> (job_Errs j \<noteq> None \<longrightarrow> job_err j s' = Some e)))
    \<and> (\<forall>p n. \<not> skip \<longrightarrow> pe_fsm pe (TxPool_Topic (job_TxPool j)) = Some p \<longrightarrow> p (job_TxPool j) (pool_node s) = Some (Inr (), n) \<longrightarrow>
        fst (persist_exec (pe_sess pe) (PUpdateTxPoolStatus ((job_TxPool j)\<lparr>TxPool_Processed := 1\<rparr>)) (node_db n)) = Inr () \<longrightarrow>
        (\<exists>s'. worker_run 6 pe Idle s = Some (Idle, s') \<and> job_id j \<in> table_done (tabs (pool_db s'))
          \<and> IndexedList_Exists (pool_list s') (job_id j)))"
proof (intro conjI allI impI)
  assume skip
  show "\<exists>k. worker_run k pe Idle s = Some (Idle, s\<lparr>pool_queue := q\<rparr>)"
  proof (cases "IndexedList_Exists (pool_list s) (job_id j)")
    case True
    with assms(3) show ?thesis by (intro exI [of _ 2]) (simp add: numeral_2_eq_2)
  next
    case False
    with \<open>skip\<close> have "worker_run 3 pe Idle s = Some (Idle, s\<lparr>pool_queue := q\<rparr>)"
      using assms(3) by (auto simp: numeral_3_eq_3 skip_def)
    then show ?thesis ..
  qed
next
  fix p e n
  assume "\<not> skip" "pe_fsm pe (TxPool_Topic (job_TxPool j)) = Some p" "p (job_TxPool j) (pool_node s) = Some (Inl e, n)"
  then show "\<exists>s'. worker_run 4 pe Idle s = Some (Idle, s') \<and> table_done (tabs (pool_db s')) = table_done (tabs (pool_db s))
      \<and> (job_Errs j \<noteq> None \<longrightarrow> job_err j s' = Some e)"
    by (intro round_failure [OF assms(1-3), where n = n and p = p]) (simp_all add: skip_def)
next
  fix p n
  assume "\<not> skip" "pe_fsm pe (TxPool_Topic (job_TxPool j)) = Some p" "p (job_TxPool j) (pool_node s) = Some (Inr (), n)"
    "fst (persist_exec (pe_sess pe) (PUpdateTxPoolStatus ((job_TxPool j)\<lparr>TxPool_Processed := 1\<rparr>)) (node_db n)) = Inr ()"
  then show "\<exists>s'. worker_run 6 pe Idle s = Some (Idle, s') \<and> job_id j \<in> table_done (tabs (pool_db s')) \<and> IndexedList_Exists (pool_list s') (job_id j)"
    by (intro round_success [OF assms(1-3), where n = n and p = p]) (simp_all add: skip_def del: persist_exec.simps)
qed

section \<open>A run of the indexer\<close>

text \<open>The sample message of the platform chain is put into the pool and consumed.\<close>

lemma worker_step_workers:
  "worker_step pe w (s\<lparr>pool_workers := ws\<rparr>) = map_option (\<lambda>(w', s'). (w', s'\<lparr>pool_workers := ws\<rparr>)) (worker_step pe w s)"
  by (cases w) (auto simp: job_err_def set_err_def set_db_def split: list.splits option.splits prod.splits sum.splits)

lemma worker_run_workers:
  "worker_run k pe w s = Some (w', s') \<Longrightarrow> worker_run k pe w (s\<lparr>pool_workers := ws\<rparr>) = Some (w', s'\<lparr>pool_workers := ws\<rparr>)"
  by (induction k arbitrary: w s) (auto simp: worker_step_workers split: option.splits)

lemma worker_run_steps:
  assumes "worker_run k pe w s = Some (w', s')" "i < length (pool_workers s)" "pool_workers s ! i = w"
  shows "(pool_step pe)\<^sup>*\<^sup>* s (s'\<lparr>pool_workers := (pool_workers s)[i := w']\<rparr>)"
  using assms
proof (induction k arbitrary: w s s')
  case 0
  then show ?case by auto
next
  case (Suc k)
  from Suc.prems(1) obtain w1 s1 where w1: "worker_step pe w s = Some (w1, s1)" "worker_run k pe w1 s1 = Some (w', s')"
    by (auto split: option.splits)
  let ?s1 = "s1\<lparr>pool_workers := (pool_workers s)[i := w1]\<rparr>"
  have "pool_step pe s ?s1" using Suc.prems w1(1) by (intro pool_step.work) simp_all
  also have "(pool_step pe)\<^sup>*\<^sup>* ?s1 (s'\<lparr>pool_workers := (pool_workers s)[i := w']\<rparr>)"
    using Suc.IH [OF worker_run_workers [OF w1(2)], of "(pool_workers s)[i := w1]"] Suc.prems(2) by simp
  finally show ?case .
qed


abbreviation sample_topic :: string where
  "sample_topic \<equiv> ''1-chain-decisions''"

definition sample_axlib :: axlib where
  "sample_axlib = \<lparr>json_UnmarshalLog = (\<lambda>_. Inl (ErrorString ''no log'')), json_UnmarshalTrace = (\<lambda>_. Inl (ErrorString ''no trace''))\<rparr>"

definition sample_fsm :: fsm where
  "sample_fsm = Map.empty(sample_topic \<mapsto> consumerDB_Process sample_consumer ideal sample_env,
     ''t'' \<mapsto> axchain_Process sample_lib sample_cvmlib sample_axlib sample_axchain ideal sample_env,
     ''u'' \<mapsto> axchain_Process sample_lib sample_cvmlib sample_axlib sample_axchain ideal sample_env,
     ''v'' \<mapsto> axchain_Process sample_lib sample_cvmlib sample_axlib sample_axchain ideal sample_env)"

abbreviation sample_pe :: pool_env where
  "sample_pe \<equiv> \<lparr>pe_sess = ideal, pe_fsm = sample_fsm, pe_topics = [sample_topic, ''t'', ''u'', ''v'']\<rparr>"

abbreviation pool_sample_row :: TxPool where
  "pool_sample_row \<equiv> sample_row\<lparr>TxPool_Topic := sample_topic\<rparr>"

lemma digit_char_1: "digit_char (Suc 0) = CHR ''1''"
  by code_simp

lemma sample_topic_name: "GetTopicName 1 ''chain'' EventTypeDecisions = sample_topic"
  by (simp add: GetTopicName_def EventTypeDecisions_def nat_digits_small digit_char_1)

lemma sample_fsm_built:
  "IndexerFactories_fsm (chain_processors sample_factory ideal sample_env [EventTypeDecisions] 1 [(''pvm'', ''chain'')])
     [axchain_processor sample_lib sample_cvmlib sample_axlib ideal sample_env (Inr sample_axchain)] = Inr sample_fsm"
  by (simp add: IndexerFactories_fsm_def chain_processors_def sample_consumer_new axchain_processor_def sample_fsm_def
      sample_consumer_def sample_topic_name sample_axchain_def)

lemma sample_pe_ok: "pool_env_ok sample_pe"
  using fsm_consumed [OF ideal.sql_session_axioms sample_lib_Errs sample_fsm_built] ideal.sql_session_axioms
  by (auto simp: pool_env_ok_def)

lemma sample_consumes:
  assumes "tables_ok (tabs (node_db n))"
  shows "\<exists>n'. consumerDB_Process sample_consumer ideal sample_env pool_sample_row n = Some (Inr (), n')"
proof -
  obtain d where "with_tx ideal (pvm_indexBlock sample_lib sample_pvmlib sample_pvm (persist_exec ideal) sample_ctx [66]) (node_db n) = (Inr (), d)"
    using ideal_tx_handler [OF sample_row_traced assms] by (auto simp: sample_block_outcome)
  from retry_first [where f = "with_tx ideal _", OF this] have "retry (with_tx ideal (pvm_indexBlock sample_lib sample_pvmlib sample_pvm (persist_exec ideal) sample_ctx [66])) (node_db n) = Some (Inr (), d)"
    by (simp add: result_err_def ErrIsLockError_def)
  moreover have "pool_message c pool_sample_row = pool_message c sample_row" for c by (simp add: pool_message_def)
  ultimately show ?thesis
    by (simp add: consumerDB_Process_def consumerDB_Consume_def sample_consumer_def persistConsume_def pvm_Consume_def sample_row_ctx finish_consume_def)
qed

definition pool_sample1 :: pool where
  "pool_sample1 = snd (UpdateTxPool ideal pool_sample_row (pool_start sample_node {}))"

lemma sample_start_inv: "pool_inv (pool_start sample_node {})"
  by (rule pool_start_inv) (simp_all add: sample_node_def pool_tables empty_db_def tables_ok_def keys_ok_def)

lemma sample1_inv: "pool_inv pool_sample1"
  unfolding pool_sample1_def
  using UpdateTxPool_inv [OF ideal.sql_session_axioms sample_start_inv, of pool_sample_row] by (simp add: sample_row_def zero_TxPool_def)

lemma sample1_fields:
  "pool_queue pool_sample1 = [\<lparr>job_TxPool = pool_sample_row, job_Errs = None\<rparr>]" "pool_list pool_sample1 = NewIndexedList MaxSizedList"
  "pool_workers pool_sample1 = replicate MaxTheads Idle"
  "tabs (pool_db pool_sample1) TableTxPool = [new_row TableTxPool (TxPool_cols pool_sample_row)]"
  by (simp_all add: pool_sample1_def UpdateTxPool_def pool_start_def sample_node_def Enqueue_def MaxTxPoolSize_def InsertTxPool_def ideal_eval)

text \<open>A fault-free server accepts every update of a status.\<close>

lemma ideal_status:
  assumes "tables_ok (tabs d)"
  shows "fst (persist_exec ideal (PUpdateTxPoolStatus v) d) = Inr ()"
proof -
  have "\<exists>T. sql_apply (UpdateSet TableTxPool [(''processed'', VI (TxPool_Processed v))] [Eq ''id'' (VS (TxPool_ID v))]) (tabs d) = Some T"
    using assms by (intro stmt_safe_update) (simp_all add: unique_keys_def norm_pairs_def dao_defs)
  then show ?thesis
    by (auto simp: UpdateTxPoolStatus_def exec_update_status_def exec_stmt_def mysql_def simp del: sql_apply.simps)
qed

lemma sample_round:
  obtains n s where "consumerDB_Process sample_consumer ideal sample_env pool_sample_row (pool_node pool_sample1) = Some (Inr (), n)"
    "fst (persist_exec ideal (PUpdateTxPoolStatus (pool_sample_row\<lparr>TxPool_Processed := 1\<rparr>)) (node_db n)) = Inr ()"
    "worker_run 6 sample_pe Idle pool_sample1 = Some (Idle, s)" "''m'' \<in> table_done (tabs (pool_db s))" "IndexedList_Exists (pool_list s) ''m''"
proof -
  let ?j = "\<lparr>job_TxPool = pool_sample_row, job_Errs = None\<rparr>"
  have ok: "tables_ok (tabs (pool_db pool_sample1))" using sample1_inv by (simp add: pool_inv_def)
  from sample_consumes [OF this] obtain n where n: "consumerDB_Process sample_consumer ideal sample_env pool_sample_row (pool_node pool_sample1) = Some (Inr (), n)" ..
  have "tables_ok (tabs (node_db n))"
    using consumed_keys [OF consumerDB_Process_consumed [OF ideal.sql_session_axioms sample_lib_Errs sample_consumer_new n] ok] by simp
  note upd = ideal_status [OF this, of "pool_sample_row\<lparr>TxPool_Processed := 1\<rparr>"]
  have f: "sample_fsm sample_topic = Some (consumerDB_Process sample_consumer ideal sample_env)" by (simp add: sample_fsm_def)
  have m: "TxPool_ID pool_sample_row = ''m''" by (simp add: sample_row_def)
  have "\<exists>s'. worker_run 6 sample_pe Idle pool_sample1 = Some (Idle, s') \<and> job_id ?j \<in> table_done (tabs (pool_db s')) \<and> IndexedList_Exists (pool_list s') (job_id ?j)"
  proof (rule round_success [OF sample_pe_ok sample1_inv sample1_fields(1)])
    show "\<not> IndexedList_Exists (pool_list pool_sample1) (job_id ?j)" by (simp add: sample1_fields Exists_entryList)
    show "job_err ?j pool_sample1 = None" by (simp add: job_err_def)
    show "pe_fsm sample_pe (TxPool_Topic (job_TxPool ?j)) = Some (consumerDB_Process sample_consumer ideal sample_env)" by (simp add: f)
    show "consumerDB_Process sample_consumer ideal sample_env (job_TxPool ?j) (pool_node pool_sample1) = Some (Inr (), n)" using n by simp
    show "fst (persist_exec (pe_sess sample_pe) (PUpdateTxPoolStatus ((job_TxPool ?j)\<lparr>TxPool_Processed := 1\<rparr>)) (node_db n)) = Inr ()"
      using upd by (simp del: persist_exec.simps)
  qed
  with n upd that show thesis by (auto simp: m simp del: persist_exec.simps)
qed

lemma sample_done_empty [simp]: "table_done (tabs (node_db sample_node)) = {}"
  by (simp add: sample_node_def table_done_def empty_db_def)

lemma pool_sample_run:
  obtains s where "(pool_step sample_pe)\<^sup>*\<^sup>* (pool_start sample_node (table_done (tabs (node_db sample_node)))) s"
    "''m'' \<in> table_done (tabs (pool_db s))"
proof -
  obtain s where s: "worker_run 6 sample_pe Idle pool_sample1 = Some (Idle, s)" "''m'' \<in> table_done (tabs (pool_db s))"
    by (rule sample_round)
  have "pool_step sample_pe (pool_start sample_node {}) pool_sample1"
    using pool_step.produce [of pool_sample_row sample_pe "pool_start sample_node {}"]
    by (simp add: pool_sample1_def sample_row_def zero_TxPool_def)
  also have "(pool_step sample_pe)\<^sup>*\<^sup>* pool_sample1 (s\<lparr>pool_workers := (pool_workers pool_sample1)[0 := Idle]\<rparr>)"
    by (rule worker_run_steps [OF s(1)]) (simp_all add: sample1_fields MaxTheads_def)
  finally show thesis using that [of "s\<lparr>pool_workers := (pool_workers pool_sample1)[0 := Idle]\<rparr>"] s(2) by simp
qed

theorem pool_marks_only_consumed_witness:
  "\<exists>s. (pool_step sample_pe)\<^sup>*\<^sup>* (pool_start sample_node (table_done (tabs (node_db sample_node)))) s
    \<and> ''m'' \<in> table_done (tabs (pool_db s)) \<and> ''m'' \<in> pool_done s"
proof -
  obtain s where s: "(pool_step sample_pe)\<^sup>*\<^sup>* (pool_start sample_node (table_done (tabs (node_db sample_node)))) s"
    "''m'' \<in> table_done (tabs (pool_db s))" by (rule pool_sample_run)
  have "tables_ok (tabs (node_db sample_node))" "pool_typed (tabs (node_db sample_node))"
    by (simp_all add: sample_node_def pool_tables empty_db_def tables_ok_def keys_ok_def)
  from pool_marks_only_consumed [OF ideal.sql_session_axioms sample_lib_Errs this sample_fsm_built s(1)] s
  show ?thesis by blast
qed

theorem pool_refines_spec_witness:
  "\<exists>s. ''m'' \<in> table_done (tabs (pool_db s)) \<and> spec_step\<^sup>*\<^sup>* ({}, {}, {}) (pool_abs s)"
proof -
  obtain s where s: "(pool_step sample_pe)\<^sup>*\<^sup>* (pool_start sample_node (table_done (tabs (node_db sample_node)))) s"
    "''m'' \<in> table_done (tabs (pool_db s))" by (rule pool_sample_run)
  have ok: "tables_ok (tabs (node_db sample_node))" "pool_typed (tabs (node_db sample_node))"
    by (simp_all add: sample_node_def pool_tables empty_db_def tables_ok_def keys_ok_def)
  have "pool_abs (pool_start sample_node (table_done (tabs (node_db sample_node)))) = ({}, {}, {})"
    by (simp add: pool_abs_def pool_start_def) (simp add: sample_node_def table_ids_def empty_db_def)
  with pool_refines_spec [OF ideal.sql_session_axioms sample_lib_Errs ok sample_fsm_built s(1)] s(2) show ?thesis by auto
qed


theorem handleTxPool_round_witness:
  "\<exists>s'. worker_run 6 sample_pe Idle pool_sample1 = Some (Idle, s') \<and> ''m'' \<in> table_done (tabs (pool_db s')) \<and> IndexedList_Exists (pool_list s') ''m''"
proof -
  obtain n where n: "consumerDB_Process sample_consumer ideal sample_env pool_sample_row (pool_node pool_sample1) = Some (Inr (), n)"
    "fst (persist_exec ideal (PUpdateTxPoolStatus (pool_sample_row\<lparr>TxPool_Processed := 1\<rparr>)) (node_db n)) = Inr ()"
    by (rule sample_round)
  have "TxPool_ID pool_sample_row = ''m''" by (simp add: sample_row_def)
  moreover have "\<not> IndexedList_Exists (pool_list pool_sample1) i" for i by (simp add: sample1_fields Exists_entryList)
  ultimately show ?thesis
    using handleTxPool_round [OF sample_pe_ok sample1_inv sample1_fields(1)] n
    by (simp add: job_err_def sample_fsm_def del: persist_exec.simps)
qed

end
