(* ===== verification/Producer.thy ===== *)
theory Producer
  imports Indexer
begin

text \<open>
  The producers of \<open>src/stream/producer_chain.go\<close> and \<open>src/stream/producer_axchain.go\<close>: they
  read containers or blocks from a node and put them into the pool. A chain producer keeps the
  number of containers it has read in the table \<open>node_index\<close>; the EVM producer records every
  block it has read in \<open>cvm_blocks\<close>. What the node answers is an argument of the definitions.
\<close>

section \<open>Kinds of index\<close>

type_synonym IndexType = "8 word"

definition IndexTypeTransactions :: IndexType where "IndexTypeTransactions = 0"
definition IndexTypeVertices :: IndexType where "IndexTypeVertices = 1"
definition IndexTypeBlocks :: IndexType where "IndexTypeBlocks = 2"

definition typeUnknown :: string where
  "typeUnknown = ''unknown''"

definition IndexType_String :: "IndexType \<Rightarrow> string" where
  "IndexType_String t =
     (if t = IndexTypeTransactions then ''tx'' else if t = IndexTypeVertices then ''vtx''
      else if t = IndexTypeBlocks then ''block'' else typeUnknown)"

type_synonym IndexedChain = "8 word"

definition IndexXChain :: IndexedChain where "IndexXChain = 0"
definition IndexCoreChain :: IndexedChain where "IndexCoreChain = 1"
definition IndexAXChain :: IndexedChain where "IndexAXChain = 2"

definition IndexedChain_String :: "IndexedChain \<Rightarrow> string" where
  "IndexedChain_String t =
     (if t = IndexXChain then ''Swap'' else if t = IndexCoreChain then ''Core''
      else if t = IndexAXChain then ''AX'' else typeUnknown)"

section \<open>Errors of a node that is not ready\<close>

definition IndexNotReady :: "go_error \<Rightarrow> bool" where
  "IndexNotReady err \<longleftrightarrow>
     HasPrefix (Error err) ''start index'' \<and> Contains (Error err) ''last accepted index''
   \<or> HasPrefix (Error err) (''received status code '' @ [CHR 0x27] @ ''404'' @ [CHR 0x27])"

definition ChainNotReady :: "go_error \<Rightarrow> bool" where
  "ChainNotReady err \<longleftrightarrow>
     HasPrefix (Error err) ''no containers have been accepted''
   \<or> HasPrefix (Error err) (''received status code '' @ [CHR 0x27] @ ''404'' @ [CHR 0x27])"

definition AXChainNotReady :: "go_error \<Rightarrow> bool" where
  "AXChainNotReady err \<longleftrightarrow>
     HasPrefix (Error err) ''404 Not Found'' \<or> HasPrefix (Error err) ''503 Service Unavailable''
   \<or> HasSuffix (Error err) ''connect: connection refused'' \<or> HasSuffix (Error err) ''read: connection reset by peer''"

section \<open>producer_chain.go\<close>

definition MaxTxRead :: u64 where
  "MaxTxRead = 500"

definition MetricProduceProcessedCountKey :: string where
  "MetricProduceProcessedCountKey = ''produce_records_processed''"

definition MetricProduceSuccessCountKey :: string where
  "MetricProduceSuccessCountKey = ''produce_records_success''"

definition MetricProduceFailureCountKey :: string where
  "MetricProduceFailureCountKey = ''produce_records_failure''"

text \<open>A container of the node's index, as the client package returns it.\<close>

record container =
  Container_ID :: ID
  Container_Bytes :: bytes
  Container_Timestamp :: int

type_synonym get_range = "u64 \<Rightarrow> u64 \<Rightarrow> go_error + container list"

record chain_producer =
  pc_NetworkID :: u32
  pc_chainID :: string
  pc_nodeinstance :: string
  pc_topic :: string
  pc_indexerChain :: IndexedChain
  pc_endpoint :: string
  pc_keys :: metric_keys

definition NewProducerChain :: "u32 \<Rightarrow> string \<Rightarrow> string \<Rightarrow> EventType \<Rightarrow> IndexType \<Rightarrow> IndexedChain \<Rightarrow> chain_producer" where
  "NewProducerChain networkID nodeInstance chainID eventType indexerType indexerChain =
     \<lparr>pc_NetworkID = networkID, pc_chainID = chainID, pc_nodeinstance = nodeInstance,
      pc_topic = GetTopicName networkID chainID eventType, pc_indexerChain = indexerChain,
      pc_endpoint = ''/ext/index/'' @ IndexedChain_String indexerChain @ ''/'' @ IndexType_String indexerType,
      pc_keys = \<lparr>metricProcessedCountKey = ''produce_records_processed_'' @ chainID @ ''_'' @ eventType,
                 metricSuccessCountKey = ''produce_records_success_'' @ chainID @ ''_'' @ eventType,
                 metricFailureCountKey = ''produce_records_failure_'' @ chainID @ ''_'' @ eventType\<rparr>\<rparr>"

text \<open>The container with its position \<open>nodeIndex.Idx\<close>, and the state of the indexer that it shares.\<close>

record producing =
  pr_pool :: pool
  pr_Idx :: u64

abbreviation pr_db :: "producing \<Rightarrow> dbstate" where
  "pr_db s \<equiv> pool_db (pr_pool s)"

definition on_pool :: "(pool, 'a) go \<Rightarrow> (producing, 'a) go" where
  "on_pool m s = (case m (pr_pool s) of (r, p) \<Rightarrow> (r, s\<lparr>pr_pool := p\<rparr>))"

definition on_db :: "(dbstate, 'a) go \<Rightarrow> (pool, 'a) go" where
  "on_db m s = (case m (pool_db s) of (r, d) \<Rightarrow> (r, set_db d s))"

definition count_metric :: "string \<Rightarrow> (pool, unit) go" where
  "count_metric key s = (Inr (), s\<lparr>pool_node := (pool_node s)\<lparr>node_metrics := CounterInc key (node_metrics (pool_node s))\<rparr>\<rparr>)"

definition insertNodeIndex :: "session \<Rightarrow> bool \<Rightarrow> NodeIndex \<Rightarrow> (pool, unit) go" where
  "insertNodeIndex sess upd nodeIndex = on_db (persist_exec sess (PInsertNodeIndex nodeIndex upd))"

definition updateNodeIndex :: "session \<Rightarrow> NodeIndex \<Rightarrow> (pool, unit) go" where
  "updateNodeIndex sess nodeIndex = on_db (persist_exec sess (PUpdateNodeIndex nodeIndex))"

definition getIndex :: "session \<Rightarrow> chain_producer \<Rightarrow> (pool, u64) go" where
  "getIndex sess p = on_db (\<lambda>d.
     case QueryNodeIndex sess (zero_NodeIndex\<lparr>NodeIndex_Instance := pc_nodeinstance p, NodeIndex_Topic := pc_topic p\<rparr>) d of
       ((_, Some err), d') \<Rightarrow> (Inl err, d')
     | ((nodeIndex, None), d') \<Rightarrow> (Inr (NodeIndex_Idx nodeIndex), d'))"

definition newContainer :: "session \<Rightarrow> bool \<Rightarrow> chain_producer \<Rightarrow> (pool, u64) go" where
  "newContainer sess upd p =
     go_then (insertNodeIndex sess upd \<lparr>NodeIndex_Instance = pc_nodeinstance p, NodeIndex_Topic = pc_topic p, NodeIndex_Idx = 0\<rparr>)
       (getIndex sess p)"

definition container_id :: "extlib \<Rightarrow> IndexedChain \<Rightarrow> container \<Rightarrow> go_error + ID" where
  "container_id lib ch c =
     (if ch = IndexAXChain then Inr (Container_ID c) else ToID lib (ComputeHash256 lib (Container_Bytes c)))"

definition container_row :: "extlib \<Rightarrow> chain_producer \<Rightarrow> container \<Rightarrow> go_error + TxPool" where
  "container_row lib p c =
     (case container_id lib (pc_indexerChain p) c of
        Inl err \<Rightarrow> Inl err
      | Inr i \<Rightarrow> TxPool_ComputeID lib
          \<lparr>TxPool_ID = [], TxPool_NetworkID = pc_NetworkID p, TxPool_ChainID = pc_chainID p, TxPool_MsgKey = ID_String lib i,
           TxPool_Serialization = Some (Container_Bytes c), TxPool_Processed = 0, TxPool_Topic = pc_topic p,
           TxPool_CreatedAt = time_Unix (Container_Timestamp c) 0\<rparr>)"

definition store_container :: "extlib \<Rightarrow> session \<Rightarrow> chain_producer \<Rightarrow> container \<Rightarrow> (pool, unit) go" where
  "store_container lib sess p c =
     go_bind (go_lift (container_row lib p c)) (\<lambda>txPool.
       go_then (UpdateTxPool sess txPool)
         (go_then (count_metric (metricProcessedCountKey (pc_keys p))) (count_metric MetricProduceProcessedCountKey)))"

definition ProcessNextMessage :: "extlib \<Rightarrow> session \<Rightarrow> chain_producer \<Rightarrow> get_range \<Rightarrow> (producing, unit) go" where
  "ProcessNextMessage lib sess p getRange s =
     (case getRange (pr_Idx s) MaxTxRead of
        Inl err \<Rightarrow> (if IndexNotReady err then (Inr (), s) else (Inl err, s))
      | Inr [] \<Rightarrow> (Inl ErrNoMessage, s)
      | Inr containers \<Rightarrow>
          (let idx = pr_Idx s + of_nat (length containers) in
           go_then (on_pool (go_for (store_container lib sess p) containers))
             (go_then
               (on_pool (updateNodeIndex sess \<lparr>NodeIndex_Instance = pc_nodeinstance p, NodeIndex_Topic = pc_topic p, NodeIndex_Idx = idx\<rparr>))
               (\<lambda>s. (Inr (), s\<lparr>pr_Idx := idx\<rparr>))) s))"

text \<open>The closure \<open>processNextMessage\<close> of \<open>runProcessor\<close>: which errors end the processor.\<close>

definition processNextMessage :: "extlib \<Rightarrow> session \<Rightarrow> chain_producer \<Rightarrow> get_range \<Rightarrow> (producing, unit) go" where
  "processNextMessage lib sess p getRange s =
     (case ProcessNextMessage lib sess p getRange s of
        (Inr _, s') \<Rightarrow> on_pool (go_then (count_metric (metricSuccessCountKey (pc_keys p))) (count_metric MetricProduceSuccessCountKey)) s'
      | (Inl DeadlineExceeded, s') \<Rightarrow> (Inr (), s')
      | (Inl ErrNoMessage, s') \<Rightarrow> (Inr (), s')
      | (Inl EOF, s') \<Rightarrow> (Inl EOF, s')
      | (Inl err, s') \<Rightarrow>
          (if ChainNotReady err then (Inr (), s')
           else go_then (on_pool (go_then (count_metric (metricFailureCountKey (pc_keys p))) (count_metric MetricProduceFailureCountKey)))
                  (go_raise err) s'))"

text \<open>\<open>runProcessor\<close>: the list holds what the node answers until the producer is told to stop.\<close>

definition runProcessor :: "extlib \<Rightarrow> session \<Rightarrow> bool \<Rightarrow> chain_producer \<Rightarrow> get_range list \<Rightarrow> (pool, unit) go" where
  "runProcessor lib sess upd p answers s =
     (case newContainer sess upd p s of
        (Inl err, s') \<Rightarrow> (Inl err, s')
      | (Inr idx, s') \<Rightarrow>
          (case go_for (processNextMessage lib sess p) answers \<lparr>pr_pool = s', pr_Idx = idx\<rparr> of (r, t) \<Rightarrow> (r, pr_pool t)))"

definition Listen :: "extlib \<Rightarrow> session \<Rightarrow> bool \<Rightarrow> chain_producer \<Rightarrow> get_range list list \<Rightarrow> pool \<Rightarrow> pool" where
  "Listen lib sess upd p runs s = fold (\<lambda>answers s. snd (runProcessor lib sess upd p answers s)) runs s"

section \<open>What is published\<close>

text \<open>The node serves a log: a range is a part of it, never longer than asked for.\<close>

definition serves :: "container list \<Rightarrow> get_range \<Rightarrow> bool" where
  "serves log getRange \<longleftrightarrow> (\<forall>i n cs. getRange i n = Inr cs \<longrightarrow>
     unat i + length cs \<le> length log \<and> cs = take (length cs) (drop (unat i) log))"

definition stored_idx :: "chain_producer \<Rightarrow> tables \<Rightarrow> u64 list" where
  "stored_idx p T = map (NodeIndex_Idx \<circ> row_of_NodeIndex) (sql_select TableNodeIndex
     [Eq ''instance'' (VS (pc_nodeinstance p)), Eq ''topic'' (VS (pc_topic p))] T)"

definition published :: "extlib \<Rightarrow> chain_producer \<Rightarrow> container list \<Rightarrow> tables \<Rightarrow> nat \<Rightarrow> bool" where
  "published lib p log T k \<longleftrightarrow> k \<le> length log
     \<and> (\<forall>i < k. \<exists>row. container_row lib p (log ! i) = Inr row \<and> TxPool_ID row \<in> table_ids T)"

definition index_ok :: "extlib \<Rightarrow> chain_producer \<Rightarrow> container list \<Rightarrow> tables \<Rightarrow> bool" where
  "index_ok lib p log T \<longleftrightarrow> (\<forall>k \<in> set (stored_idx p T). published lib p log T (unat k))"

lemma published_mono: "table_ids T \<subseteq> table_ids T' \<Longrightarrow> published lib p log T k \<Longrightarrow> published lib p log T' k"
  by (fastforce simp: published_def)

lemma stored_idx_cong: "T' TableNodeIndex = T TableNodeIndex \<Longrightarrow> stored_idx p T' = stored_idx p T"
  by (simp add: stored_idx_def sql_select_def)

lemma index_ok_mono:
  "T' TableNodeIndex = T TableNodeIndex \<Longrightarrow> table_ids T \<subseteq> table_ids T' \<Longrightarrow> index_ok lib p log T \<Longrightarrow> index_ok lib p log T'"
  by (auto simp: index_ok_def stored_idx_cong [of T' T] intro: published_mono)

section \<open>Feeding the pool\<close>

definition feeds :: "pool \<Rightarrow> pool \<Rightarrow> bool" where
  "feeds s s' \<longleftrightarrow> pool_inv s' \<and> table_ids (tabs (pool_db s)) \<subseteq> table_ids (tabs (pool_db s'))
     \<and> (\<forall>tb. tb \<noteq> TableTxPool \<longrightarrow> tabs (pool_db s') tb = tabs (pool_db s) tb)"

lemma feeds_refl: "pool_inv s \<Longrightarrow> feeds s s"
  by (simp add: feeds_def)

lemma feeds_trans: "feeds s s' \<Longrightarrow> feeds s' s'' \<Longrightarrow> feeds s s''"
  unfolding feeds_def by auto

lemma feedsD: "feeds s s' \<Longrightarrow> pool_inv s'" "feeds s s' \<Longrightarrow> table_ids (tabs (pool_db s)) \<subseteq> table_ids (tabs (pool_db s'))"
  "feeds s s' \<Longrightarrow> tb \<noteq> TableTxPool \<Longrightarrow> tabs (pool_db s') tb = tabs (pool_db s) tb"
  by (simp_all add: feeds_def)

lemma Enqueue_db [simp]: "pool_db (Enqueue row s) = pool_db s"
  by (simp add: Enqueue_def)

lemma UpdateTxPool_feeds:
  assumes "sql_session sess" "pool_inv s" "TxPool_Processed row = 0" "UpdateTxPool sess row s = (r, s')"
  shows "feeds s s'" and "r = Inr u \<Longrightarrow> TxPool_ID row \<in> table_ids (tabs (pool_db s'))"
proof -
  have inv: "pool_inv s'" using UpdateTxPool_inv [OF assms(1-3)] assms(4) by simp
  obtain q d where q: "InsertTxPool sess row (pool_db s) = (q, d)" by (cases "InsertTxPool sess row (pool_db s)")
  have "feeds s s' \<and> (r = Inr u \<longrightarrow> TxPool_ID row \<in> table_ids (tabs (pool_db s')))"
  proof (cases q)
    case (Inl e)
    then have "tabs d = tabs (pool_db s)" using q sql_session.exec_fails(1) [OF assms(1)] by (simp add: InsertTxPool_def)
    with Inl q assms(4) inv show ?thesis by (auto simp: UpdateTxPool_def feeds_def)
  next
    case (Inr v)
    then have d: "tabs d = ins_ignore TableTxPool (TxPool_cols row) (tabs (pool_db s))"
      using q sql_session.exec_oks(1) [OF assms(1)] by (simp add: InsertTxPool_def)
    have "pool_db s' = d" using Inr q assms(4) by (auto simp: UpdateTxPool_def)
    with d inv insert_pool(1) [OF assms(3), of "tabs (pool_db s)"] show ?thesis by (auto simp: feeds_def)
  qed
  then show "feeds s s'" "r = Inr u \<Longrightarrow> TxPool_ID row \<in> table_ids (tabs (pool_db s'))" by blast+
qed

lemma count_metric_inv: "pool_inv s \<Longrightarrow> pool_inv (snd (count_metric k s))"
  by (simp add: count_metric_def pool_inv_def)

lemma count_metric_feeds: "pool_inv s \<Longrightarrow> count_metric k s = (r, s') \<Longrightarrow> feeds s s' \<and> r = Inr ()"
  using count_metric_inv [of s k] by (auto simp: feeds_def count_metric_def)

text \<open>A computation that feeds the pool, and what holds when it succeeds.\<close>

definition feeder :: "(string set \<Rightarrow> bool) \<Rightarrow> (pool, unit) go \<Rightarrow> bool" where
  "feeder Q m \<longleftrightarrow> (\<forall>s r s'. pool_inv s \<longrightarrow> m s = (r, s') \<longrightarrow> feeds s s' \<and> (r = Inr () \<longrightarrow> Q (table_ids (tabs (pool_db s')))))"

lemma feederD:
  assumes "feeder Q m" "pool_inv s" "m s = (r, s')"
  shows "feeds s s'" "r = Inr () \<Longrightarrow> Q (table_ids (tabs (pool_db s')))"
  using assms by (auto simp: feeder_def)

lemma feeder_then:
  assumes "feeder Q m" "feeder R n" "\<And>A B. A \<subseteq> B \<Longrightarrow> Q A \<Longrightarrow> Q B"
  shows "feeder (\<lambda>A. Q A \<and> R A) (go_then m n)"
  unfolding feeder_def
proof (intro allI impI)
  fix s r s' assume inv: "pool_inv s" and run: "go_then m n s = (r, s')"
  obtain q s1 where m: "m s = (q, s1)" by (cases "m s")
  note f = feederD [OF assms(1) inv m]
  show "feeds s s' \<and> (r = Inr () \<longrightarrow> Q (table_ids (tabs (pool_db s'))) \<and> R (table_ids (tabs (pool_db s'))))"
  proof (cases q)
    case (Inl e)
    with m run f show ?thesis by (auto simp: go_simps)
  next
    case (Inr u)
    with m run have n: "n s1 = (r, s')" by (simp add: go_simps)
    note g = feederD [OF assms(2) feedsD(1) [OF f(1)] n]
    from g(1) assms(3) [OF feedsD(2)] f(2) Inr g(2) feeds_trans [OF f(1) g(1)] show ?thesis by auto
  qed
qed

lemma feeder_weaken: "feeder Q m \<Longrightarrow> (\<And>A. Q A \<Longrightarrow> R A) \<Longrightarrow> feeder R m"
  unfolding feeder_def by blast

lemma feeder_count: "feeder (\<lambda>_. True) (count_metric k)"
  using count_metric_feeds by (auto simp: feeder_def)

lemma feeder_raise: "feeder Q (go_raise e)"
  by (auto simp: feeder_def go_simps feeds_refl)

lemma feeder_lift: "(\<And>a. r = Inr a \<Longrightarrow> feeder Q (k a)) \<Longrightarrow> feeder Q (go_bind (go_lift r) k)"
  by (cases r) (auto simp: feeder_def go_simps feeds_refl)

lemma feeder_for:
  assumes "\<And>x. x \<in> set xs \<Longrightarrow> feeder (Q x) (f x)" "\<And>x A B. A \<subseteq> B \<Longrightarrow> Q x A \<Longrightarrow> Q x B"
  shows "feeder (\<lambda>A. \<forall>x \<in> set xs. Q x A) (go_for f xs)"
  using assms(1)
proof (induction xs)
  case Nil
  then show ?case by (auto simp: feeder_def go_simps feeds_refl)
next
  case (Cons x xs)
  have "feeder (\<lambda>A. Q x A \<and> (\<forall>y \<in> set xs. Q y A)) (go_then (f x) (go_for f xs))"
    using Cons by (intro feeder_then) (auto intro: assms(2))
  then show ?case by simp
qed

lemma feeder_UpdateTxPool:
  "sql_session sess \<Longrightarrow> TxPool_Processed row = 0 \<Longrightarrow> feeder (\<lambda>A. TxPool_ID row \<in> A) (UpdateTxPool sess row)"
  unfolding feeder_def using UpdateTxPool_feeds by blast

section \<open>The chain producer\<close>

lemma container_row_pending: "container_row lib p c = Inr row \<Longrightarrow> TxPool_Processed row = 0"
  by (auto simp: container_row_def TxPool_ComputeID_def Let_def split: sum.splits)

lemma store_container_feeder:
  assumes "sql_session sess"
  shows "feeder (\<lambda>A. \<exists>row. container_row lib p c = Inr row \<and> TxPool_ID row \<in> A) (store_container lib sess p c)"
  unfolding store_container_def
proof (rule feeder_lift)
  fix row assume row: "container_row lib p c = Inr row"
  have "feeder (\<lambda>A. TxPool_ID row \<in> A \<and> True \<and> True)
      (go_then (UpdateTxPool sess row) (go_then (count_metric (metricProcessedCountKey (pc_keys p))) (count_metric MetricProduceProcessedCountKey)))"
    using assms container_row_pending [OF row] by (intro feeder_then feeder_UpdateTxPool feeder_count) auto
  then show "feeder (\<lambda>A. \<exists>row. container_row lib p c = Inr row \<and> TxPool_ID row \<in> A)
      (go_then (UpdateTxPool sess row) (go_then (count_metric (metricProcessedCountKey (pc_keys p))) (count_metric MetricProduceProcessedCountKey)))"
    by (rule feeder_weaken) (use row in auto)
qed

lemma store_containers_feeder:
  "sql_session sess \<Longrightarrow> feeder (\<lambda>A. \<forall>c \<in> set cs. \<exists>row. container_row lib p c = Inr row \<and> TxPool_ID row \<in> A) (go_for (store_container lib sess p) cs)"
  by (rule feeder_for) (auto intro: store_container_feeder)

text \<open>The table of positions.\<close>

lemma stored_idx_key:
  "stored_idx p T = map NodeIndex_Idx (map row_of_NodeIndex (sql_select TableNodeIndex
     (NodeIndex_key \<lparr>NodeIndex_Instance = pc_nodeinstance p, NodeIndex_Topic = pc_topic p, NodeIndex_Idx = i\<rparr>) T))"
  by (simp add: stored_idx_def NodeIndex_key_def comp_def)

lemma pool_inv_other_db:
  assumes "pool_inv s" "tables_ok (tabs d)" "tabs d TableTxPool = tabs (pool_db s) TableTxPool"
  shows "pool_inv (set_db d s)"
proof (rule pool_inv_db [OF assms(1,2)])
  note same = pool_tables_cong [where T' = "tabs d" and T = "tabs (pool_db s)", OF assms(3)]
  show "pool_typed (tabs d)" "table_done (tabs d) \<subseteq> pool_done s" using assms(1) by (simp_all only: same pool_inv_def)
  show "pool_grows (tabs (pool_db s)) (pool_done s) (tabs d) (pool_done s)" by (simp only: same pool_grows_def subset_refl simp_thms)
qed

text \<open>\<open>indexes s s'\<close>: only the table of positions changed.\<close>

definition indexes :: "pool \<Rightarrow> pool \<Rightarrow> bool" where
  "indexes s s' \<longleftrightarrow> pool_inv s' \<and> table_ids (tabs (pool_db s')) = table_ids (tabs (pool_db s))
     \<and> (\<forall>tb. tb \<noteq> TableNodeIndex \<longrightarrow> tabs (pool_db s') tb = tabs (pool_db s) tb)"

lemma indexesI:
  assumes "pool_inv s" "tables_ok (tabs d)" "\<And>tb. tb \<noteq> TableNodeIndex \<Longrightarrow> tabs d tb = tabs (pool_db s) tb"
  shows "indexes s (set_db d s)"
  using assms pool_inv_other_db [OF assms(1,2)] pool_tables_cong(1) [of "tabs d" "tabs (pool_db s)"] by (simp add: indexes_def)

lemma updateNodeIndex_run:
  assumes "sql_session sess" "pool_inv s"
    and run: "updateNodeIndex sess \<lparr>NodeIndex_Instance = pc_nodeinstance p, NodeIndex_Topic = pc_topic p, NodeIndex_Idx = i\<rparr> s = (r, s')"
  shows "indexes s s'"
    and "stored_idx p (tabs (pool_db s')) = (case r of Inl _ \<Rightarrow> stored_idx p (tabs (pool_db s)) | Inr _ \<Rightarrow> map (\<lambda>_. i) (stored_idx p (tabs (pool_db s))))"
proof -
  let ?v = "\<lparr>NodeIndex_Instance = pc_nodeinstance p, NodeIndex_Topic = pc_topic p, NodeIndex_Idx = i\<rparr>"
  obtain d where d: "exec_update sess TableNodeIndex TableNodeIndex (NodeIndex_sets ?v) (NodeIndex_key ?v) (pool_db s) = (r, d)" "s' = set_db d s"
    using run by (auto simp: updateNodeIndex_def on_db_def UpdateNodeIndex_def NodeIndex_sets_def NodeIndex_key_def split: prod.splits)
  have ok: "tables_ok (tabs (pool_db s))" using assms(2) by (simp add: pool_inv_def)
  have "indexes s s' \<and> stored_idx p (tabs (pool_db s')) = (case r of Inl _ \<Rightarrow> stored_idx p (tabs (pool_db s)) | Inr _ \<Rightarrow> map (\<lambda>_. i) (stored_idx p (tabs (pool_db s))))"
  proof (cases r)
    case (Inl e)
    then have "tabs d = tabs (pool_db s)" using sql_session.exec_fails(2) [OF assms(1)] d(1) by simp
    with Inl d(2) ok indexesI [OF assms(2), of d] show ?thesis by simp
  next
    case (Inr u)
    then have t: "tabs d = upd_effect TableNodeIndex (NodeIndex_sets ?v) (NodeIndex_key ?v) (tabs (pool_db s))"
      using sql_session.exec_oks(2) [OF assms(1)] d(1) by simp
    have "indexes s s'" unfolding d(2)
      by (rule indexesI [OF assms(2)]) (simp_all add: t stmt_effect_keys [OF ok] upd_effect_def stmt_effect_other)
    moreover have "stored_idx p (tabs d) = map (\<lambda>_. i) (stored_idx p (tabs (pool_db s)))"
      using NodeIndex_dao.stored_update [OF assms(1) d(1) [unfolded Inr]] by (simp add: stored_idx_key [of p _ i])
    ultimately show ?thesis using Inr d(2) by simp
  qed
  then show "indexes s s'" "stored_idx p (tabs (pool_db s')) = (case r of Inl _ \<Rightarrow> stored_idx p (tabs (pool_db s)) | Inr _ \<Rightarrow> map (\<lambda>_. i) (stored_idx p (tabs (pool_db s))))"
    by blast+
qed

lemma insertNodeIndex_run:
  assumes "sql_session sess" "pool_inv s"
    and run: "insertNodeIndex sess False \<lparr>NodeIndex_Instance = pc_nodeinstance p, NodeIndex_Topic = pc_topic p, NodeIndex_Idx = i\<rparr> s = (r, s')"
  shows "indexes s s'"
    and "stored_idx p (tabs (pool_db s')) =
      (case r of Inl _ \<Rightarrow> stored_idx p (tabs (pool_db s)) | Inr _ \<Rightarrow> if stored_idx p (tabs (pool_db s)) = [] then [i] else stored_idx p (tabs (pool_db s)))"
proof -
  let ?v = "\<lparr>NodeIndex_Instance = pc_nodeinstance p, NodeIndex_Topic = pc_topic p, NodeIndex_Idx = i\<rparr>"
  let ?Q = "stored_idx p (tabs (pool_db s')) =
      (case r of Inl _ \<Rightarrow> stored_idx p (tabs (pool_db s)) | Inr _ \<Rightarrow> if stored_idx p (tabs (pool_db s)) = [] then [i] else stored_idx p (tabs (pool_db s)))"
  obtain d where d: "exec_insert sess TableNodeIndex TableNodeIndex (NodeIndex_cols ?v) (pool_db s) = (r, d)" "s' = set_db d s"
    using run by (auto simp: insertNodeIndex_def on_db_def InsertNodeIndex_def go_simps split: prod.splits sum.splits)
  have ok: "tables_ok (tabs (pool_db s))" using assms(2) by (simp add: pool_inv_def)
  have "indexes s s' \<and> ?Q"
  proof (cases r)
    case (Inl e)
    then have "tabs d = tabs (pool_db s)" using sql_session.exec_fails(1) [OF assms(1)] d(1) by simp
    with Inl d(2) ok indexesI [OF assms(2), of d] show ?thesis by simp
  next
    case (Inr u)
    then have t: "tabs d = ins_ignore TableNodeIndex (NodeIndex_cols ?v) (tabs (pool_db s))"
      using sql_session.exec_oks(1) [OF assms(1)] d(1) by simp
    have "indexes s s'" unfolding d(2)
      by (rule indexesI [OF assms(2)]) (simp_all add: t ins_ignore_keys [OF ok])
    moreover have "stored_idx p (tabs d) = (if stored_idx p (tabs (pool_db s)) = [] then [i] else stored_idx p (tabs (pool_db s)))"
      by (simp add: stored_idx_key [of p _ i] t NodeIndex_dao.select_ins NodeIndex_dao.dec_new)
    ultimately show ?thesis using Inr d(2) by simp
  qed
  then show "indexes s s'" ?Q by blast+
qed

lemma getIndex_run:
  assumes "sql_session sess" "pool_inv s" "getIndex sess p s = (r, s')"
  shows "pool_inv s'" "tabs (pool_db s') = tabs (pool_db s)" "r = Inr k \<Longrightarrow> k \<in> set (stored_idx p (tabs (pool_db s)))"
proof -
  let ?q = "\<lparr>NodeIndex_Instance = pc_nodeinstance p, NodeIndex_Topic = pc_topic p, NodeIndex_Idx = 0\<rparr>"
  obtain v e d where q: "load_one sess TableNodeIndex (NodeIndex_key ?q) zero_NodeIndex row_of_NodeIndex (pool_db s) = ((v, e), d)" by (metis prod.exhaust)
  with assms(3) have s': "s' = set_db d s" "r = (case e of None \<Rightarrow> Inr (NodeIndex_Idx v) | Some err \<Rightarrow> Inl err)"
    by (auto simp: getIndex_def on_db_def QueryNodeIndex_def zero_NodeIndex_def split: option.splits)
  have t: "tabs d = tabs (pool_db s)" using sql_session.load_one_tabs [OF assms(1)] q by (metis snd_conv)
  then show "tabs (pool_db s') = tabs (pool_db s)" by (simp add: s')
  show "pool_inv s'" unfolding s' using pool_inv_same_db [OF assms(2) t] .
  assume "r = Inr k"
  then have "e = None" "k = NodeIndex_Idx v" using s' by (auto split: option.splits)
  with sql_session.load_one_cases [OF assms(1)] q show "k \<in> set (stored_idx p (tabs (pool_db s)))"
    by (fastforce simp: stored_idx_key [of p _ 0])
qed

text \<open>The invariant of a producer: every container below its position, in memory and in the table,
  is in the pool.\<close>

definition prod_inv :: "extlib \<Rightarrow> chain_producer \<Rightarrow> container list \<Rightarrow> producing \<Rightarrow> bool" where
  "prod_inv lib p log s \<longleftrightarrow> pool_inv (pr_pool s) \<and> index_ok lib p log (tabs (pr_db s))
     \<and> published lib p log (tabs (pr_db s)) (unat (pr_Idx s))"

lemma published_append:
  assumes "published lib p log T k" "cs = take (length cs) (drop k log)" "k + length cs \<le> length log"
    and "\<forall>c \<in> set cs. \<exists>row. container_row lib p c = Inr row \<and> TxPool_ID row \<in> table_ids T"
  shows "published lib p log T (k + length cs)"
proof -
  have "\<exists>row. container_row lib p (log ! i) = Inr row \<and> TxPool_ID row \<in> table_ids T" if "i < k + length cs" for i
  proof (cases "i < k")
    case True
    with assms(1) show ?thesis by (simp add: published_def)
  next
    case False
    with that have "i - k < length cs" by simp
    moreover have "cs ! (i - k) = log ! i"
      using assms(2,3) False that by (metis (no_types, lifting) add_diff_inverse_nat add_leD1 nth_drop nth_take calculation)
    ultimately show ?thesis using assms(4) by (metis nth_mem)
  qed
  with assms(3) show ?thesis by (simp add: published_def)
qed

lemma prod_inv_feeds:
  assumes "prod_inv lib p log s" "feeds (pr_pool s) q"
  shows "prod_inv lib p log (s\<lparr>pr_pool := q\<rparr>)"
proof -
  have "tabs (pool_db q) TableNodeIndex = tabs (pr_db s) TableNodeIndex" by (rule feedsD(3) [OF assms(2)]) simp
  with index_ok_mono [OF _ feedsD(2) [OF assms(2)]] published_mono [OF feedsD(2) [OF assms(2)]] feedsD(1) [OF assms(2)] assms(1)
  show ?thesis by (simp add: prod_inv_def)
qed

lemma index_ok_indexes:
  assumes "indexes s s'" "stored_idx p (tabs (pool_db s')) = ks" "\<And>k. k \<in> set ks \<Longrightarrow> published lib p log (tabs (pool_db s)) (unat k)"
  shows "index_ok lib p log (tabs (pool_db s'))"
  using assms unfolding index_ok_def indexes_def by (auto intro: published_mono [rotated])

lemma ProcessNextMessage_inv:
  assumes "sql_session sess" "serves log getRange" "length log < 2 ^ 64" "prod_inv lib p log s"
    and run: "ProcessNextMessage lib sess p getRange s = (r, s')"
  shows "prod_inv lib p log s'"
proof (cases "getRange (pr_Idx s) MaxTxRead")
  case (Inl e)
  with run assms(4) show ?thesis by (auto simp: ProcessNextMessage_def split: if_splits)
next
  case (Inr cs)
  show ?thesis
  proof (cases cs)
    case Nil
    with Inr run assms(4) show ?thesis by (auto simp: ProcessNextMessage_def)
  next
    case (Cons c cs')
    let ?idx = "pr_Idx s + of_nat (length cs)"
    let ?v = "\<lparr>NodeIndex_Instance = pc_nodeinstance p, NodeIndex_Topic = pc_topic p, NodeIndex_Idx = ?idx\<rparr>"
    obtain q1 p1 where f: "go_for (store_container lib sess p) cs (pr_pool s) = (q1, p1)" by (cases "go_for (store_container lib sess p) cs (pr_pool s)")
    note fd = feederD [OF store_containers_feeder [OF assms(1)] _ f]
    have inv1: "prod_inv lib p log (s\<lparr>pr_pool := p1\<rparr>)" using fd(1) assms(4) by (intro prod_inv_feeds) (simp_all add: prod_inv_def)
    have step: "ProcessNextMessage lib sess p getRange s = go_then (on_pool (go_for (store_container lib sess p) cs))
        (go_then (on_pool (updateNodeIndex sess ?v)) (\<lambda>s. (Inr (), s\<lparr>pr_Idx := ?idx\<rparr>))) s"
      using Inr Cons by (simp add: ProcessNextMessage_def Let_def del: go_for.simps)
    show ?thesis
    proof (cases q1)
      case (Inl e)
      with step run f inv1 show ?thesis by (auto simp: go_simps on_pool_def)
    next
      case q1: (Inr u)
      obtain q2 p2 where u: "updateNodeIndex sess ?v p1 = (q2, p2)" by (cases "updateNodeIndex sess ?v p1")
      have inv: "pool_inv p1" "index_ok lib p log (tabs (pool_db p1))" "published lib p log (tabs (pool_db p1)) (unat (pr_Idx s))"
        using inv1 by (simp_all add: prod_inv_def)
      note ud = updateNodeIndex_run [OF assms(1) inv(1) u]
      have cs: "unat (pr_Idx s) + length cs \<le> length log" "cs = take (length cs) (drop (unat (pr_Idx s)) log)"
        using assms(2) Inr by (auto simp: serves_def)
      have idx: "unat ?idx = unat (pr_Idx s) + length cs"
        using cs(1) assms(3) by (simp add: unat_word_ariths unat_of_nat)
      have "published lib p log (tabs (pool_db p1)) (unat ?idx)"
        unfolding idx using fd(2) assms(4) q1 by (intro published_append [OF inv(3) cs(2,1)]) (simp_all add: prod_inv_def)
      then have pub: "published lib p log (tabs (pool_db p1)) (unat k)" if "k \<in> set (stored_idx p (tabs (pool_db p2))) \<or> q2 = Inr () \<and> k = ?idx" for k
        using that ud(2) inv(2) by (auto simp: index_ok_def split: sum.splits)
      have "index_ok lib p log (tabs (pool_db p2))" by (rule index_ok_indexes [OF ud(1) refl pub]) simp
      moreover have ids: "table_ids (tabs (pool_db p2)) = table_ids (tabs (pool_db p1))" "pool_inv p2" using ud(1) by (simp_all add: indexes_def)
      moreover have "published lib p log (tabs (pool_db p2)) (unat (pr_Idx s))" "q2 = Inr () \<Longrightarrow> published lib p log (tabs (pool_db p2)) (unat ?idx)"
        using pub [of ?idx] inv(3) ids(1) by (auto intro: published_mono [rotated])
      ultimately show ?thesis using step run f q1 u by (cases q2) (auto simp: go_simps on_pool_def prod_inv_def)
    qed
  qed
qed

lemma processNextMessage_inv:
  assumes "sql_session sess" "serves log getRange" "length log < 2 ^ 64" "prod_inv lib p log s"
    and run: "processNextMessage lib sess p getRange s = (r, s')"
  shows "prod_inv lib p log s'"
proof -
  obtain q s1 where q: "ProcessNextMessage lib sess p getRange s = (q, s1)" by (cases "ProcessNextMessage lib sess p getRange s")
  from ProcessNextMessage_inv [OF assms(1-4) q] have inv: "prod_inv lib p log s1" .
  have c: "prod_inv lib p log t" if "on_pool (go_then (count_metric a) (count_metric b)) s1 = (x, t)" for a b x t
  proof -
    obtain y q where y: "go_then (count_metric a) (count_metric b) (pr_pool s1) = (y, q)" by (cases "go_then (count_metric a) (count_metric b) (pr_pool s1)")
    have "feeder (\<lambda>_. True \<and> True) (go_then (count_metric a) (count_metric b))" by (intro feeder_then feeder_count)
    from feederD(1) [OF this _ y] inv have "prod_inv lib p log (s1\<lparr>pr_pool := q\<rparr>)" by (intro prod_inv_feeds) (simp_all add: prod_inv_def)
    with y that show ?thesis by (simp add: on_pool_def)
  qed
  from run q inv c show ?thesis
    by (fastforce simp: processNextMessage_def go_simps split: sum.splits go_error.splits prod.splits if_splits)
qed

lemma newContainer_inv:
  assumes "sql_session sess" "pool_inv s" "index_ok lib p log (tabs (pool_db s))"
    and run: "newContainer sess False p s = (r, s')"
  shows "pool_inv s' \<and> index_ok lib p log (tabs (pool_db s')) \<and> (\<forall>k. r = Inr k \<longrightarrow> prod_inv lib p log \<lparr>pr_pool = s', pr_Idx = k\<rparr>)"
proof -
  let ?v = "\<lparr>NodeIndex_Instance = pc_nodeinstance p, NodeIndex_Topic = pc_topic p, NodeIndex_Idx = 0\<rparr>"
  obtain q s1 where q: "insertNodeIndex sess False ?v s = (q, s1)" by (cases "insertNodeIndex sess False ?v s")
  note ins = insertNodeIndex_run [OF assms(1,2) q]
  have "published lib p log (tabs (pool_db s)) (unat k)" if "k \<in> set (stored_idx p (tabs (pool_db s1)))" for k
    using that ins(2) assms(3) by (auto simp: index_ok_def published_def split: sum.splits if_splits)
  from index_ok_indexes [OF ins(1) refl this] have ok1: "index_ok lib p log (tabs (pool_db s1))" by simp
  have inv1: "pool_inv s1" using ins(1) by (simp add: indexes_def)
  show ?thesis
  proof (cases q)
    case (Inl e)
    with run q ok1 inv1 show ?thesis by (auto simp: newContainer_def go_simps)
  next
    case (Inr u)
    with run q have g: "getIndex sess p s1 = (r, s')" by (simp add: newContainer_def go_simps)
    note gd = getIndex_run [OF assms(1) inv1 g]
    have "published lib p log (tabs (pool_db s')) (unat k)" if "r = Inr k" for k
      using gd(2,3) ok1 that by (simp add: index_ok_def)
    with gd(1,2) ok1 show ?thesis by (simp add: prod_inv_def)
  qed
qed

text \<open>With \<open>cfg.PerformUpdates\<close> set a producer starts over: the insert is followed by an update that
  takes the stored position back to 0.\<close>

lemma newContainer_resets:
  assumes "sql_session sess" "newContainer sess True p s = (Inr k, s')"
  shows "k = 0"
proof -
  let ?v = "\<lparr>NodeIndex_Instance = pc_nodeinstance p, NodeIndex_Topic = pc_topic p, NodeIndex_Idx = 0\<rparr>"
  have q: "zero_NodeIndex\<lparr>NodeIndex_Instance := pc_nodeinstance p, NodeIndex_Topic := pc_topic p\<rparr> = ?v" by (simp add: zero_NodeIndex_def)
  from assms(2) obtain d1 d2 w where
    "go_then (exec_insert sess TableNodeIndex TableNodeIndex (NodeIndex_cols ?v))
       (exec_update sess TableNodeIndex TableNodeIndex (NodeIndex_sets ?v) (NodeIndex_key ?v)) (pool_db s) = (Inr (), d1)"
    "load_one sess TableNodeIndex (NodeIndex_key ?v) zero_NodeIndex row_of_NodeIndex d1 = ((w, None), d2)" "k = NodeIndex_Idx w"
    by (auto simp: newContainer_def insertNodeIndex_def getIndex_def on_db_def InsertNodeIndex_def QueryNodeIndex_def q NodeIndex_key_def
        go_simps split: prod.splits sum.splits option.splits)
  from NodeIndex_dao.insert_update_query [OF assms(1) this(1,2)] this(3) show ?thesis by simp
qed

text \<open>The rest of the indexer leaves the bookkeeping of the producers alone.\<close>

lemma UpdateTxPool_other_table:
  assumes "sql_session sess" "tb \<noteq> TableTxPool"
  shows "tabs (pool_db (snd (UpdateTxPool sess row s))) tb = tabs (pool_db s) tb"
proof -
  obtain r d where r: "exec_insert sess TableTxPool TableTxPool (TxPool_cols row) (pool_db s) = (r, d)"
    by (cases "exec_insert sess TableTxPool TableTxPool (TxPool_cols row) (pool_db s)")
  have "tabs d tb = tabs (pool_db s) tb"
    using sql_session.exec_oks(1) [OF assms(1)] sql_session.exec_fails(1) [OF assms(1)] r assms(2) by (cases r) fastforce+
  with r show ?thesis by (cases r) (simp_all add: UpdateTxPool_def InsertTxPool_def)
qed

lemma status_other_table:
  assumes "sql_session sess" "tb \<noteq> TableTxPool" "persist_exec sess (PUpdateTxPoolStatus v) d = (r, d')"
  shows "tabs d' tb = tabs d tb"
proof (cases r)
  case (Inl e)
  with assms sql_session.exec_fails(3) [OF assms(1)] show ?thesis by (simp add: UpdateTxPoolStatus_def)
next
  case (Inr u)
  with assms(3) sql_session.exec_oks(3) [OF assms(1)]
  have "tabs d' = upd_effect TableTxPool [(''processed'', VI (TxPool_Processed v))] [Eq ''id'' (VS (TxPool_ID v))] (tabs d)"
    by (simp add: UpdateTxPoolStatus_def)
  with assms(2) show ?thesis by (simp add: upd_effect_def stmt_effect_other)
qed

lemma worker_step_other_table:
  assumes "pool_env_ok pe" "tb \<in> {TableNodeIndex, TableCvmBlocks}" "worker_step pe w s = Some (w', s')"
  shows "tabs (pool_db s') tb = tabs (pool_db s) tb"
proof (cases w)
  case (Consuming j)
  show ?thesis
  proof (cases "pe_fsm pe (TxPool_Topic (job_TxPool j))")
    case None
    with Consuming assms(3) show ?thesis by simp
  next
    case (Some p)
    with Consuming assms(3) obtain r n where r: "p (job_TxPool j) (pool_node s) = Some (r, n)" by (auto split: option.splits)
    have "consumed (r, n) (pool_node s)" using assms(1) Some r by (auto simp: pool_env_ok_def)
    with assms(2) have "tabs (node_db n) tb = tabs (pool_db s) tb"
      using consumed_other_table [of "(r, n)" "pool_node s" tb] by (auto simp: other_tables_def)
    with Consuming Some r assms(3) show ?thesis by (cases r) auto
  qed
next
  case (Updating j)
  obtain r d where r: "persist_exec (pe_sess pe) (PUpdateTxPoolStatus (job_TxPool j)) (pool_db s) = (r, d)"
    by (cases "persist_exec (pe_sess pe) (PUpdateTxPoolStatus (job_TxPool j)) (pool_db s)")
  have "tabs d tb = tabs (pool_db s) tb"
    using assms(1,2) by (intro status_other_table [OF _ _ r]) (auto simp: pool_env_ok_def)
  moreover have "pool_db s' = d" using Updating r assms(3) by (cases r) (auto simp del: persist_exec.simps)
  ultimately show ?thesis by simp
qed (use assms(3) in \<open>auto split: list.splits\<close>)

lemma iter_step_tabs:
  assumes "sql_session (pe_sess pe)" "iter_step pe it s = Some (it', s')"
  shows "tabs (pool_db s') = tabs (pool_db s)"
proof (cases it)
  case IterIdle
  obtain r d where r: "sess_load (pe_sess pe) TableTxPool [Eq ''processed'' (VI 0), In ''topic'' (map VS (pe_topics pe))] (pool_db s) = (r, d)"
    by (cases "sess_load (pe_sess pe) TableTxPool [Eq ''processed'' (VI 0), In ''topic'' (map VS (pe_topics pe))] (pool_db s)")
  have "tabs d = tabs (pool_db s)" using sql_session.load_tabs [OF assms(1), of TableTxPool _ "pool_db s"] r by (metis snd_conv)
  with IterIdle r assms(2) show ?thesis by (cases r) auto
next
  case (Iterating ts r n)
  with assms(2) show ?thesis by (cases ts) (auto split: if_splits)
qed

lemma pool_step_other_table:
  assumes "pool_env_ok pe" "tb \<in> {TableNodeIndex, TableCvmBlocks}" "pool_step pe s t"
  shows "tabs (pool_db t) tb = tabs (pool_db s) tb"
  using assms(3)
proof (cases rule: pool_step.cases)
  case (work i w s')
  with worker_step_other_table [OF assms(1,2) work(3)] show ?thesis by simp
next
  case (iterate it s')
  have "tabs (pool_db s') = tabs (pool_db s)"
    using iterate(2) assms(1) by (intro iter_step_tabs) (auto simp: pool_env_ok_def)
  with iterate(1) show ?thesis by simp
next
  case iter_error
  then show ?thesis by simp
next
  case (produce row)
  with assms(1,2) UpdateTxPool_other_table show ?thesis by (auto simp: pool_env_ok_def)
qed

section \<open>A chain producer beside the indexer\<close>

text \<open>The producer starts, restarts after an error, and reads; in between the workers, the pass over the
  pool and other producers take steps. \<open>None\<close>: no container is open.\<close>

inductive chain_step :: "pool_env \<Rightarrow> extlib \<Rightarrow> chain_producer \<Rightarrow> container list \<Rightarrow> pool \<times> u64 option \<Rightarrow> pool \<times> u64 option \<Rightarrow> bool"
  for pe lib p log where
  boot: "newContainer (pe_sess pe) False p s = (r, s') \<Longrightarrow>
    chain_step pe lib p log (s, None) (s', case r of Inl _ \<Rightarrow> None | Inr k \<Rightarrow> Some k)"
| read: "serves log getRange \<Longrightarrow> processNextMessage lib (pe_sess pe) p getRange \<lparr>pr_pool = s, pr_Idx = k\<rparr> = (r, t) \<Longrightarrow>
    chain_step pe lib p log (s, Some k) (pr_pool t, case r of Inl _ \<Rightarrow> None | Inr _ \<Rightarrow> Some (pr_Idx t))"
| others: "pool_step pe s s' \<Longrightarrow> chain_step pe lib p log (s, k) (s', k)"

definition chain_inv :: "extlib \<Rightarrow> chain_producer \<Rightarrow> container list \<Rightarrow> pool \<times> u64 option \<Rightarrow> bool" where
  "chain_inv lib p log = (\<lambda>(s, k). pool_inv s \<and> index_ok lib p log (tabs (pool_db s))
     \<and> (case k of None \<Rightarrow> True | Some k \<Rightarrow> published lib p log (tabs (pool_db s)) (unat k)))"

lemma pool_step_ids:
  assumes "pool_env_ok pe" "pool_inv s" "pool_step pe s t"
  shows "table_ids (tabs (pool_db s)) \<subseteq> table_ids (tabs (pool_db t))"
proof -
  have step: "spec_step a b \<Longrightarrow> fst a \<subseteq> fst b" for a b
    by (cases rule: spec_step.cases) auto
  have "spec_step\<^sup>*\<^sup>* a b \<Longrightarrow> fst a \<subseteq> fst b" for a b
    by (induction rule: rtranclp_induct) (auto dest: step)
  with pool_step_sim [OF assms] show ?thesis by (fastforce simp: pool_abs_def)
qed

lemma chain_step_inv:
  assumes "pool_env_ok pe" "length log < 2 ^ 64" "chain_step pe lib p log a b" "chain_inv lib p log a"
  shows "chain_inv lib p log b"
  using assms(3)
proof (cases rule: chain_step.cases)
  case (boot s r s')
  have sess: "sql_session (pe_sess pe)" using assms(1) by (simp add: pool_env_ok_def)
  from newContainer_inv [OF sess _ _ boot(3), of lib log] assms(4) boot(1) have
    "pool_inv s' \<and> index_ok lib p log (tabs (pool_db s')) \<and> (\<forall>k. r = Inr k \<longrightarrow> prod_inv lib p log \<lparr>pr_pool = s', pr_Idx = k\<rparr>)"
    by (simp add: chain_inv_def)
  with boot(2) show ?thesis by (auto simp: chain_inv_def prod_inv_def split: sum.splits)
next
  case (read getRange s k r t)
  have sess: "sql_session (pe_sess pe)" using assms(1) by (simp add: pool_env_ok_def)
  have "prod_inv lib p log \<lparr>pr_pool = s, pr_Idx = k\<rparr>" using assms(4) read(1) by (simp add: chain_inv_def prod_inv_def)
  from processNextMessage_inv [OF sess read(3) assms(2) this read(4)] read(2) show ?thesis
    by (auto simp: chain_inv_def prod_inv_def split: sum.splits)
next
  case (others s s' k)
  have s: "pool_inv s" "index_ok lib p log (tabs (pool_db s))" using assms(4) others(1) by (simp_all add: chain_inv_def)
  note ids = pool_step_ids [OF assms(1) s(1) others(3)]
  have "tabs (pool_db s') TableNodeIndex = tabs (pool_db s) TableNodeIndex" by (rule pool_step_other_table [OF assms(1) _ others(3)]) simp
  from index_ok_mono [OF this ids s(2)] have "index_ok lib p log (tabs (pool_db s'))" .
  with pool_step_sim [OF assms(1) s(1) others(3)] published_mono [OF ids] assms(4) others(1,2) show ?thesis
    by (auto simp: chain_inv_def split: option.splits)
qed

lemma chain_steps_inv:
  assumes "(chain_step pe lib p log)\<^sup>*\<^sup>* a b" "pool_env_ok pe" "length log < 2 ^ 64" "chain_inv lib p log a"
  shows "chain_inv lib p log b"
  using assms(1,4) by (induction rule: rtranclp_induct) (auto intro: chain_step_inv [OF assms(2,3)])

section \<open>Properties\<close>

text \<open>C28. No container is lost. Whatever errors the node and the database answer with, however often the
  producer is restarted and whatever the consumers do in between: when the table of positions
  says that a producer has read the first \<open>k\<close> containers of its chain, each of them is in the
  pool of messages.\<close>

theorem chain_producer_at_least_once:
  assumes "pool_env_ok pe" "length log < 2 ^ 64"
    and "pool_inv s0" "stored_idx p (tabs (pool_db s0)) = []"
    and "(chain_step pe lib p log)\<^sup>*\<^sup>* (s0, None) (s, k)"
    and "idx \<in> set (stored_idx p (tabs (pool_db s)))" "i < unat idx"
  shows "i < length log \<and> (\<exists>row. container_row lib p (log ! i) = Inr row \<and> TxPool_ID row \<in> table_ids (tabs (pool_db s)))"
proof -
  have "chain_inv lib p log (s0, None)" using assms(3,4) by (simp add: chain_inv_def index_ok_def)
  from chain_steps_inv [OF assms(5,1,2) this] have "chain_inv lib p log (s, k)" .
  with assms(6,7) show ?thesis by (auto simp: chain_inv_def index_ok_def published_def)
qed

text \<open>A node with one container.\<close>

definition sample_container :: container where
  "sample_container = \<lparr>Container_ID = [5], Container_Bytes = [66], Container_Timestamp = 100\<rparr>"

definition sample_range :: get_range where
  "sample_range i n = (if i = 0 then Inr [sample_container] else Inl (ErrorString ''start index 1 > last accepted index 0''))"

abbreviation sample_producer :: chain_producer where
  "sample_producer \<equiv> NewProducerChain 1 ''node'' ''chain'' EventTypeDecisions IndexTypeBlocks IndexCoreChain"

lemma sample_range_serves: "serves [sample_container] sample_range"
  by (auto simp: serves_def sample_range_def split: if_splits)

lemma sample_container_row: "\<exists>row. container_row sample_lib sample_producer sample_container = Inr row \<and> TxPool_Processed row = 0"
  by (simp add: container_row_def container_id_def TxPool_ComputeID_def sample_lib_def Let_def)

lemma sample_boot:
  "\<exists>s. newContainer ideal False sample_producer (pool_start sample_node {}) = (Inr 0, s) \<and> pool_queue s = []
    \<and> tabs (pool_db s) = (\<lambda>_. [])(TableNodeIndex := [new_row TableNodeIndex
        (NodeIndex_cols \<lparr>NodeIndex_Instance = ''node'', NodeIndex_Topic = sample_topic, NodeIndex_Idx = 0\<rparr>)])"
  by (simp add: newContainer_def insertNodeIndex_def getIndex_def on_db_def InsertNodeIndex_def QueryNodeIndex_def NodeIndex_cols_def
      NodeIndex_key_def row_of_NodeIndex_def zero_NodeIndex_def NewProducerChain_def sample_topic_name pool_start_def sample_node_def set_db_def ideal_eval)

lemma sample_read:
  assumes "tabs (pool_db s) = (\<lambda>_. [])(TableNodeIndex := [new_row TableNodeIndex
        (NodeIndex_cols \<lparr>NodeIndex_Instance = ''node'', NodeIndex_Topic = sample_topic, NodeIndex_Idx = 0\<rparr>)])"
  shows "\<exists>t. processNextMessage sample_lib ideal sample_producer sample_range \<lparr>pr_pool = s, pr_Idx = 0\<rparr> = (Inr (), t)
    \<and> pr_Idx t = 1 \<and> stored_idx sample_producer (tabs (pr_db t)) = [1]"
  using assms
  by (simp add: processNextMessage_def ProcessNextMessage_def sample_range_def store_container_def container_row_def container_id_def
      TxPool_ComputeID_def sample_lib_def Let_def UpdateTxPool_def InsertTxPool_def TxPool_cols_def updateNodeIndex_def UpdateNodeIndex_def on_db_def
      on_pool_def count_metric_def NewProducerChain_def sample_topic_name stored_idx_def NodeIndex_cols_def row_of_NodeIndex_def set_db_def ideal_eval)

theorem chain_producer_at_least_once_witness:
  "\<exists>s k row. (chain_step sample_pe sample_lib sample_producer [sample_container])\<^sup>*\<^sup>* (pool_start sample_node {}, None) (s, k)
    \<and> stored_idx sample_producer (tabs (pool_db s)) = [1]
    \<and> container_row sample_lib sample_producer sample_container = Inr row \<and> TxPool_ID row \<in> table_ids (tabs (pool_db s))"
proof -
  obtain s where s: "newContainer (pe_sess sample_pe) False sample_producer (pool_start sample_node {}) = (Inr 0, s)"
    "tabs (pool_db s) = (\<lambda>_. [])(TableNodeIndex := [new_row TableNodeIndex
        (NodeIndex_cols \<lparr>NodeIndex_Instance = ''node'', NodeIndex_Topic = sample_topic, NodeIndex_Idx = 0\<rparr>)])"
    using sample_boot by auto
  obtain t where t: "processNextMessage sample_lib (pe_sess sample_pe) sample_producer sample_range \<lparr>pr_pool = s, pr_Idx = 0\<rparr> = (Inr (), t)"
    "stored_idx sample_producer (tabs (pr_db t)) = [1]"
    using sample_read [OF s(2)] by auto
  have "(chain_step sample_pe sample_lib sample_producer [sample_container])\<^sup>*\<^sup>* (pool_start sample_node {}, None) (s, Some 0)"
    using chain_step.boot [where pe = sample_pe, OF s(1)] by auto
  also have "chain_step sample_pe sample_lib sample_producer [sample_container] (s, Some 0) (pr_pool t, Some (pr_Idx t))"
    using chain_step.read [where pe = sample_pe, OF sample_range_serves t(1)] by simp
  finally have run: "(chain_step sample_pe sample_lib sample_producer [sample_container])\<^sup>*\<^sup>* (pool_start sample_node {}, None) (pr_pool t, Some (pr_Idx t))" .
  have "stored_idx sample_producer (tabs (pool_db (pool_start sample_node {}))) = []"
    by (simp add: stored_idx_def sql_select_def pool_start_def sample_node_def empty_db_def)
  from chain_producer_at_least_once [OF sample_pe_ok _ sample_start_inv this run, of 1 0] t(2) run show ?thesis by auto
qed

end
