(* ===== verification/Strconv.thy ===== *)
theory Strconv
  imports Prelude
begin

text \<open>
  The functions of the package \<open>strconv\<close> that the sources use on text from outside, and
  \<open>SetString\<close> of \<open>math/big\<close>: decimal numbers with their range checks, and booleans. The text in an error
  message is quoted without escaping.
\<close>

section \<open>Decimal digits\<close>

fun digits_val :: "string \<Rightarrow> int" where
  "digits_val s = foldl (\<lambda>a c. 10 * a + (of_char c - 48)) 0 s"

declare digits_val.simps [simp del]

definition is_digit :: "char \<Rightarrow> bool" where
  "is_digit c \<longleftrightarrow> (48 :: nat) \<le> of_char c \<and> of_char c \<le> (57 :: nat)"

definition digits_ok :: "string \<Rightarrow> bool" where
  "digits_ok s \<longleftrightarrow> s \<noteq> [] \<and> list_all is_digit s"

lemma digits_val_snoc: "digits_val (s @ [c]) = 10 * digits_val s + (of_char c - 48)"
  by (simp add: digits_val.simps)

lemma of_char_digit: "d < 10 \<Longrightarrow> of_char (digit_char d) = (48 + int d)"
proof -
  assume "d < 10"
  then have "of_char (digit_char d) = (48 + d :: nat)" by (simp add: digit_char_def of_char_of)
  moreover have "(of_char (digit_char d) :: int) = int (of_char (digit_char d))" by (rule of_nat_of_char [symmetric])
  ultimately show ?thesis by simp
qed

lemma digits_val_nat: "digits_val (nat_digits n) = int n"
proof (induction n rule: nat_digits.induct)
  case (1 n)
  show ?case
  proof (cases "n < 10")
    case True
    then show ?thesis by (simp add: nat_digits_small digits_val.simps of_char_digit)
  next
    case False
    then have "digits_val (nat_digits n) = 10 * int (n div 10) + int (n mod 10)"
      using 1 by (simp add: nat_digits_step digits_val_snoc of_char_digit)
    then show ?thesis by presburger
  qed
qed

lemma nat_digits_ok [simp]: "digits_ok (nat_digits n)"
proof -
  have "is_digit (digit_char d)" if "d < 10" for d
    using that by (simp add: is_digit_def digit_char_def of_char_of)
  then show ?thesis using nat_digits_set [of n] by (auto simp: digits_ok_def list_all_iff)
qed

lemma nat_digits_sign: "\<not> HasPrefix (nat_digits n) ''-''" "\<not> HasPrefix (nat_digits n) ''+''"
proof -
  have "CHR ''+'' \<noteq> digit_char d" if "d < 10" for d
    using that by (auto simp: digit_char_def of_char_of dest!: arg_cong [of _ _ "of_char :: char \<Rightarrow> nat"])
  then have "CHR ''+'' \<notin> set (nat_digits n)" using nat_digits_set [of n] by auto
  then show "\<not> HasPrefix (nat_digits n) ''-''" "\<not> HasPrefix (nat_digits n) ''+''"
    using sep_not_in_nat_digits(3) [of n] by (cases "nat_digits n"; auto simp: HasPrefix_def)+
qed

section \<open>Parsing\<close>

definition num_error :: "string \<Rightarrow> string \<Rightarrow> string \<Rightarrow> go_error" where
  "num_error fn s msg = ErrorString (''strconv.'' @ fn @ '': parsing '' @ [CHR 0x22] @ s @ [CHR 0x22] @ '': '' @ msg)"

text \<open>A decimal number with an optional sign: \<open>big.Int.SetString(s, 10)\<close>.\<close>

definition big_SetString :: "string \<Rightarrow> int option" where
  "big_SetString s =
     (let body = (if HasPrefix s ''-'' \<or> HasPrefix s ''+'' then drop 1 s else s) in
      if digits_ok body then Some (if HasPrefix s ''-'' then - digits_val body else digits_val body) else None)"

definition Atoi :: "string \<Rightarrow> go_error + int" where
  "Atoi s =
     (case big_SetString s of
        None \<Rightarrow> Inl (num_error ''Atoi'' s ''invalid syntax'')
      | Some i \<Rightarrow> if - (2 ^ 63) \<le> i \<and> i < 2 ^ 63 then Inr i else Inl (num_error ''Atoi'' s ''value out of range''))"

definition ParseUint :: "string \<Rightarrow> nat \<Rightarrow> go_error + u64" where
  "ParseUint s bits =
     (if \<not> digits_ok s then Inl (num_error ''ParseUint'' s ''invalid syntax'')
      else if digits_val s < 2 ^ bits then Inr (word_of_int (digits_val s))
      else Inl (num_error ''ParseUint'' s ''value out of range''))"

definition ParseBool :: "string \<Rightarrow> go_error + bool" where
  "ParseBool s =
     (if s \<in> {''1'', ''t'', ''T'', ''true'', ''TRUE'', ''True''} then Inr True
      else if s \<in> {''0'', ''f'', ''F'', ''false'', ''FALSE'', ''False''} then Inr False
      else Inl (num_error ''ParseBool'' s ''invalid syntax''))"

text \<open>The texts that the code prints are read back.\<close>

lemma big_SetString_Itoa [simp]: "big_SetString (Itoa i) = Some i"
proof (cases "i < 0")
  case True
  have "drop 1 (Itoa i) = nat_digits (nat (- i))" "HasPrefix (Itoa i) ''-''"
    using True by (simp_all add: Itoa_def HasPrefix_def)
  with True show ?thesis by (simp add: big_SetString_def digits_val_nat Let_def del: drop_Suc)
next
  case False
  then show ?thesis by (simp add: big_SetString_def Itoa_def nat_digits_sign digits_val_nat Let_def)
qed

lemma Atoi_Itoa: "Atoi (Itoa i) = Inr i \<longleftrightarrow> - (2 ^ 63) \<le> i \<and> i < 2 ^ 63"
  by (simp add: Atoi_def)

lemma Atoi_range: "Atoi s = Inr i \<Longrightarrow> - (2 ^ 63) \<le> i \<and> i < 2 ^ 63"
  by (auto simp: Atoi_def split: option.splits if_splits)

lemma Itoa_inj: "Itoa i = Itoa j \<longleftrightarrow> i = j"
  by (metis big_SetString_Itoa option.inject)

lemma digits_val_nonneg: "digits_ok s \<Longrightarrow> 0 \<le> digits_val s"
proof (induction s rule: rev_induct)
  case (snoc c s)
  have "0 \<le> digits_val s" using snoc by (cases "s = []") (simp_all add: digits_ok_def digits_val.simps)
  moreover have "(48 :: int) \<le> of_char c"
    using snoc.prems of_nat_of_char [of c, where ?'a = int] by (simp add: digits_ok_def is_digit_def)
  ultimately show ?case by (simp add: digits_val_snoc)
qed (simp add: digits_ok_def)

lemma ParseUint_range:
  assumes "ParseUint s bits = Inr w" "bits \<le> 64"
  shows "uint w < 2 ^ bits"
proof -
  from assms(1) have ok: "digits_ok s" "digits_val s < 2 ^ bits" "w = word_of_int (digits_val s)"
    by (auto simp: ParseUint_def split: if_splits)
  moreover have "(2 :: int) ^ bits \<le> 2 ^ 64" using assms(2) by (intro power_increasing) simp_all
  ultimately have "uint w = digits_val s" using digits_val_nonneg [OF ok(1)] by (simp add: word_of_int_inverse)
  with ok(2) show ?thesis by simp
qed

end
