(* ===== verification/AxProducer.thy ===== *)
theory AxProducer
  imports Producer Strconv
begin

text \<open>
  The producer of the EVM chain, \<open>src/stream/producer_axchain.go\<close>, and the client calls of
  \<open>src/modelsc/cblock.go\<close> it makes. Blocks are handed to eight workers through a queue; a worker
  reads a block, puts its traces, its logs and the block into the pool and records the number
  of the block in \<open>cvm_blocks\<close>. On start, numbers below the highest recorded one that are missing
  are queued again.
\<close>

section \<open>Reading a block\<close>

text \<open>The block, the calls of a trace and the remote procedures belong to the client packages.\<close>

record ethBlock =
  Eth_Version :: u32
  Eth_ExtData :: "bytes option"
  Eth_Header :: "cHeader option"
  Eth_Transactions :: "RawTx list"
  Eth_Hash :: string

record 'call ethclient =
  eth_BlockByNumber :: "int \<Rightarrow> go_error + ethBlock"
  rpc_traceTransaction :: "string \<Rightarrow> go_error + 'call list"
  json_MarshalCall :: "'call \<Rightarrow> go_error + bytes"
  eth_FilterLogs :: "string \<Rightarrow> go_error + EthLog list"

definition zero_Header :: cHeader where
  "zero_Header = \<lparr>Header_Number = 0, Header_Time = 0, Header_Nonce = 0, Header_Hash = [], Header_ParentHash = [], Header_GasUsed = 0, Header_GasLimit = 0\<rparr>"

definition modelsc_New :: "ethBlock \<Rightarrow> cBlock" where
  "modelsc_New bl =
     \<lparr>Block_Header = (case Eth_Header bl of None \<Rightarrow> zero_Header | Some h \<Rightarrow> h),
      Block_TxsBytes = None, Block_Version = Eth_Version bl,
      Block_BlockExtraData = (case Eth_ExtData bl of Some [] \<Rightarrow> None | e \<Rightarrow> e),
      Block_Txs = Eth_Transactions bl\<rparr>"

record BlockContainer =
  BC_Block :: ethBlock
  BC_Traces :: "TransactionTrace list"
  BC_Logs :: "EthLog list"

definition hex_hash :: "RawTx \<Rightarrow> string" where
  "hex_hash tx = (if HasPrefix (RawTx_Hash tx) ''0x'' then RawTx_Hash tx else ''0x'' @ RawTx_Hash tx)"

fun marshal_calls :: "'call ethclient \<Rightarrow> string \<Rightarrow> nat \<Rightarrow> 'call list \<Rightarrow> go_error + TransactionTrace list" where
  "marshal_calls cl txh ipos [] = Inr []"
| "marshal_calls cl txh ipos (c # cs) =
     (case json_MarshalCall cl c of
        Inl err \<Rightarrow> Inl err
      | Inr traceBits \<Rightarrow>
          (case marshal_calls cl txh (Suc ipos) cs of
             Inl err \<Rightarrow> Inl err
           | Inr ts \<Rightarrow> Inr (\<lparr>Trace_Hash = txh, Trace_Idx = of_nat ipos, Trace_Trace = traceBits\<rparr> # ts)))"

fun read_traces :: "'call ethclient \<Rightarrow> RawTx list \<Rightarrow> go_error + TransactionTrace list" where
  "read_traces cl [] = Inr []"
| "read_traces cl (tx # txs) =
     (case rpc_traceTransaction cl (hex_hash tx) of
        Inl err \<Rightarrow> Inl err
      | Inr calls \<Rightarrow>
          (case marshal_calls cl (hex_hash tx) 0 calls of
             Inl err \<Rightarrow> Inl err
           | Inr ts \<Rightarrow> (case read_traces cl txs of Inl err \<Rightarrow> Inl err | Inr ts' \<Rightarrow> Inr (ts @ ts'))))"

definition ReadBlock :: "'call ethclient \<Rightarrow> int \<Rightarrow> go_error + BlockContainer" where
  "ReadBlock cl blockNumber =
     (case eth_BlockByNumber cl blockNumber of
        Inl err \<Rightarrow> Inl err
      | Inr bl \<Rightarrow>
          (case read_traces cl (Eth_Transactions bl) of
             Inl err \<Rightarrow> Inl err
           | Inr ts \<Rightarrow>
               (case eth_FilterLogs cl (Eth_Hash bl) of
                  Inl err \<Rightarrow> Inl err
                | Inr ls \<Rightarrow> Inr \<lparr>BC_Block = bl, BC_Traces = ts, BC_Logs = ls\<rparr>)))"

section \<open>processWork\<close>

record ax_producer =
  ax_NetworkID :: u32
  ax_AXchainID :: string
  ax_topic :: string
  ax_topicTrc :: string
  ax_topicLogs :: string
  ax_keys :: metric_keys

definition NewProducerAXChain :: "u32 \<Rightarrow> string \<Rightarrow> ax_producer" where
  "NewProducerAXChain networkID axchainID =
     (let topicName = nat_digits (unat networkID) @ ''-'' @ axchainID @ ''-axchain'' in
      \<lparr>ax_NetworkID = networkID, ax_AXchainID = axchainID, ax_topic = topicName,
       ax_topicTrc = topicName @ ''-trc'', ax_topicLogs = topicName @ ''-logs'',
       ax_keys = \<lparr>metricProcessedCountKey = ''produce_records_processed_'' @ axchainID @ ''_axchain'',
                  metricSuccessCountKey = ''produce_records_success_'' @ axchainID @ ''_axchain'',
                  metricFailureCountKey = ''produce_records_failure_'' @ axchainID @ ''_axchain''\<rparr>\<rparr>)"

text \<open>JSON encoding of traces and logs; that of blocks is in \<open>cvmlib\<close>.\<close>

record jsonlib =
  json_MarshalTrace :: "TransactionTrace \<Rightarrow> go_error + bytes"
  json_MarshalLog :: "EthLog \<Rightarrow> go_error + bytes"

definition work_row :: "extlib \<Rightarrow> ax_producer \<Rightarrow> gotime \<Rightarrow> string \<Rightarrow> string \<Rightarrow> go_error + bytes \<Rightarrow> go_error + TxPool" where
  "work_row lib p now topic idsv body =
     (case body of
        Inl err \<Rightarrow> Inl err
      | Inr bits \<Rightarrow>
          (case ToID lib (ComputeHash256 lib (bytes_of_string idsv)) of
             Inl err \<Rightarrow> Inl err
           | Inr i \<Rightarrow> TxPool_ComputeID lib
               \<lparr>TxPool_ID = [], TxPool_NetworkID = ax_NetworkID p, TxPool_ChainID = ax_AXchainID p, TxPool_MsgKey = ID_String lib i,
                TxPool_Serialization = Some bits, TxPool_Processed = 0, TxPool_Topic = topic, TxPool_CreatedAt = now\<rparr>))"

definition trace_row :: "extlib \<Rightarrow> jsonlib \<Rightarrow> ax_producer \<Rightarrow> gotime \<Rightarrow> TransactionTrace \<Rightarrow> go_error + TxPool" where
  "trace_row lib jl p now t =
     work_row lib p now (ax_topicTrc p) (Trace_Hash t @ '':'' @ nat_digits (unat (Trace_Idx t))) (json_MarshalTrace jl t)"

definition log_row :: "extlib \<Rightarrow> jsonlib \<Rightarrow> ax_producer \<Rightarrow> gotime \<Rightarrow> EthLog \<Rightarrow> go_error + TxPool" where
  "log_row lib jl p now l =
     work_row lib p now (ax_topicLogs p) (Log_BlockHash l @ '':'' @ Log_TxHash l @ '':'' @ nat_digits (unat (Log_Index l))) (json_MarshalLog jl l)"

definition block_row :: "extlib \<Rightarrow> cvmlib \<Rightarrow> ax_producer \<Rightarrow> gotime \<Rightarrow> cBlock \<Rightarrow> go_error + TxPool" where
  "block_row lib cl p now cblk =
     work_row lib p now (ax_topic p) (Itoa (Header_Number (Block_Header cblk))) (json_MarshalBlock cl cblk)"

definition store_row :: "session \<Rightarrow> go_error + TxPool \<Rightarrow> (pool, unit) go" where
  "store_row sess row = go_bind (go_lift row) (UpdateTxPool sess)"

definition processWork :: "extlib \<Rightarrow> cvmlib \<Rightarrow> jsonlib \<Rightarrow> session \<Rightarrow> ax_producer \<Rightarrow> BlockContainer \<Rightarrow> gotime \<Rightarrow> (pool, unit) go" where
  "processWork lib cl jl sess p bc now =
     go_then (go_for (\<lambda>t. store_row sess (trace_row lib jl p now t)) (BC_Traces bc))
       (go_then (go_for (\<lambda>l. store_row sess (log_row lib jl p now l)) (BC_Logs bc))
         (store_row sess (block_row lib cl p now (modelsc_New (BC_Block bc)))))"

definition updateBlock :: "session \<Rightarrow> int \<Rightarrow> gotime \<Rightarrow> (pool, unit) go" where
  "updateBlock sess blockNumber updateTime =
     on_db (persist_exec sess (PInsertCvmBlocks \<lparr>CvmBlocks_Block = Itoa blockNumber, CvmBlocks_CreatedAt = updateTime\<rparr>))"

text \<open>What \<open>blockProcessor\<close> does with a block number; its error is stored in \<open>blockWork.errs\<close>.\<close>

definition block_work :: "extlib \<Rightarrow> cvmlib \<Rightarrow> jsonlib \<Rightarrow> session \<Rightarrow> ax_producer \<Rightarrow> (int \<Rightarrow> go_error + BlockContainer) \<Rightarrow> gotime \<Rightarrow> int \<Rightarrow> (pool, unit) go" where
  "block_work lib cl jl sess p read now n =
     go_bind (go_lift (read n)) (\<lambda>bc.
       go_then (processWork lib cl jl sess p bc now)
         (go_then (updateBlock sess n now)
           (go_then (count_metric (metricProcessedCountKey (ax_keys p))) (count_metric MetricProduceProcessedCountKey))))"

section \<open>The blocks that are recorded\<close>

definition recorded :: "tables \<Rightarrow> int set" where
  "recorded T = {n. \<exists>r \<in> set (T TableCvmBlocks). r ''block'' = Some (VRaw (Itoa n))}"

text \<open>\<open>SetString(s, 10)\<close> on the text of a number, and the value of a numeric column.\<close>

definition SetString :: "string \<Rightarrow> int" where
  "SetString s = (if HasPrefix s ''-'' then - digits_val (drop 1 s) else digits_val s)"

definition block_number :: "row \<Rightarrow> int" where
  "block_number r = (case r ''block'' of Some (VRaw s) \<Rightarrow> SetString s | Some (VI i) \<Rightarrow> i | _ \<Rightarrow> 0)"

text \<open>\<open>select max(block), count(*) from cvm_blocks\<close>\<close>

definition getBlock :: "session \<Rightarrow> (pool, int \<times> int) go" where
  "getBlock sess = on_db (\<lambda>d.
     case sess_load sess TableCvmBlocks [] d of
       (Inl err, d') \<Rightarrow> (Inl err, d')
     | (Inr rs, d') \<Rightarrow> (Inr (if rs = [] then -1 else Max (set (map block_number rs)), int (length rs)), d'))"

section \<open>catchupBlock\<close>

text \<open>One window: the inner loop over \<open>startBlock\<close>.\<close>

function refill :: "string list \<Rightarrow> int \<Rightarrow> int \<Rightarrow> int list" where
  "refill blockMap startBlock endBlock =
     (if startBlock < endBlock
      then (if Itoa startBlock \<notin> set blockMap then [startBlock] else []) @ refill blockMap (startBlock + 1) endBlock
      else [])"
  by pat_completeness auto
termination
  by (relation "measure (\<lambda>(_, s, e). nat (e - s))") auto

declare refill.simps [simp del]

text \<open>The loop over the windows: the numbers that are queued, and the error that ends it. When the outer
  loop tests its condition \<open>startBlock\<close> and \<open>endBlock\<close> are equal. \<open>load lo hi\<close> is the answer to
  the query for the recorded numbers from \<open>lo\<close> up to \<open>hi\<close>.\<close>

function catchup_loop :: "(int \<Rightarrow> int \<Rightarrow> go_error + string list) \<Rightarrow> int \<Rightarrow> int \<Rightarrow> int list \<times> go_error option" where
  "catchup_loop load startBlock bound =
     (if startBlock < bound then
        (let endBlock = (if startBlock + 100000 \<ge> bound then bound else startBlock + 100000) in
         case load startBlock endBlock of
           Inl err \<Rightarrow> ([], Some err)
         | Inr blocks \<Rightarrow>
             (case catchup_loop load endBlock bound of
                (ns, e) \<Rightarrow> (refill blocks startBlock endBlock @ ns, e)))
      else ([], None))"
  by pat_completeness auto
termination
  by (relation "measure (\<lambda>(_, s, c). nat (c - s))") auto

declare catchup_loop.simps [simp del]

definition catchupBlock :: "(int \<Rightarrow> int \<Rightarrow> go_error + string list) \<Rightarrow> int \<Rightarrow> int list \<times> go_error option" where
  "catchupBlock load bound = catchup_loop load 0 bound"

section \<open>The queue and its workers\<close>

definition maxWorkerQueue :: nat where
  "maxWorkerQueue = 4000"

definition maxWorkers :: nat where
  "maxWorkers = 8"

text \<open>Where \<open>runProcessor\<close> is: about to ask for the latest block, handing out blocks up to the latest one,
  waiting for the queue to become empty, or on its way out with an error.\<close>

datatype ax_mode = Asking | Dispatching int nat | Draining nat | Stopped go_error

datatype ax_worker = AxIdle | AxGot int nat | AxBusy int nat

text \<open>Errors are kept in the cells \<open>ax_errs\<close>: cell 0 is \<open>catchupErrs\<close>, every call of
  \<open>ProcessNextMessage\<close> has a new one.\<close>

record ax_state =
  ax_pool :: pool
  ax_block :: int
  ax_queue :: "(int \<times> nat) list"
  ax_errs :: "nat \<Rightarrow> go_error option"
  ax_next :: nat
  ax_mode :: ax_mode
  ax_workers :: "ax_worker list"
  ax_catchup :: "int list \<times> go_error option"

record ax_env =
  ae_lib :: extlib
  ae_cl :: cvmlib
  ae_jl :: jsonlib
  ae_sess :: session
  ae_p :: ax_producer

abbreviation ax_db :: "ax_state \<Rightarrow> dbstate" where
  "ax_db s \<equiv> pool_db (ax_pool s)"

definition count_ax :: "string \<Rightarrow> string \<Rightarrow> ax_state \<Rightarrow> ax_state" where
  "count_ax a b s = s\<lparr>ax_pool := snd (go_then (count_metric a) (count_metric b) (ax_pool s))\<rparr>"

text \<open>The end of the closure \<open>processNextMessage\<close>: which errors end the processor, and the counters.\<close>

definition ax_finish :: "ax_env \<Rightarrow> go_error + unit \<Rightarrow> ax_state \<Rightarrow> ax_state" where
  "ax_finish ae r s =
     (let k = ax_keys (ae_p ae);
          failure = count_ax (metricFailureCountKey k) MetricProduceFailureCountKey
      in case ax_errs s 0 of
           Some err \<Rightarrow> (if AXChainNotReady err then s else failure s)\<lparr>ax_mode := Stopped err\<rparr>
         | None \<Rightarrow>
             (case r of
                Inr _ \<Rightarrow> (count_ax (metricSuccessCountKey k) MetricProduceSuccessCountKey s)\<lparr>ax_mode := Asking\<rparr>
              | Inl DeadlineExceeded \<Rightarrow> s\<lparr>ax_mode := Asking\<rparr>
              | Inl ErrNoMessage \<Rightarrow> s\<lparr>ax_mode := Asking\<rparr>
              | Inl EOF \<Rightarrow> s\<lparr>ax_mode := Stopped EOF\<rparr>
              | Inl err \<Rightarrow> (if AXChainNotReady err then s\<lparr>ax_mode := Asking\<rparr>
                             else (failure s)\<lparr>ax_mode := Stopped err\<rparr>)))"

text \<open>\<open>ProcessNextMessage\<close>, one access to the shared state at a time; \<open>None\<close> is waiting.\<close>

fun ax_main :: "ax_env \<Rightarrow> go_error + int \<Rightarrow> ax_mode \<Rightarrow> ax_state \<Rightarrow> ax_state option" where
  "ax_main ae latest Asking s =
     Some (case latest of
        Inl err \<Rightarrow> ax_finish ae (Inl err) s
      | Inr l \<Rightarrow> (if l \<le> ax_block s then ax_finish ae (Inl ErrNoMessage) s
                  else s\<lparr>ax_mode := Dispatching l (ax_next s), ax_next := Suc (ax_next s)\<rparr>))"
| "ax_main ae latest (Dispatching l r) s =
     (if l > ax_block s then
        (case ax_errs s r of
           Some err \<Rightarrow> Some (ax_finish ae (Inl err) s)
         | None \<Rightarrow>
             (case ax_errs s 0 of
                Some err \<Rightarrow> Some (ax_finish ae (Inl err) s)
              | None \<Rightarrow>
                  (if length (ax_queue s) < maxWorkerQueue
                   then Some (s\<lparr>ax_queue := ax_queue s @ [(ax_block s + 1, r)], ax_block := ax_block s + 1\<rparr>)
                   else None)))
      else Some (s\<lparr>ax_mode := Draining r\<rparr>))"
| "ax_main ae latest (Draining r) s =
     (if ax_queue s \<noteq> [] then None
      else Some (ax_finish ae (case ax_errs s r of Some err \<Rightarrow> Inl err | None \<Rightarrow> Inr ()) s))"
| "ax_main ae latest (Stopped e) s = None"

text \<open>\<open>blockProcessor\<close>. Reading a block and storing it is one step.\<close>

fun ax_work :: "ax_env \<Rightarrow> (int \<Rightarrow> go_error + BlockContainer) \<Rightarrow> gotime \<Rightarrow> ax_worker \<Rightarrow> ax_state \<Rightarrow> (ax_worker \<times> ax_state) option" where
  "ax_work ae read now AxIdle s =
     (case ax_queue s of [] \<Rightarrow> None | (n, r) # q \<Rightarrow> Some (AxGot n r, s\<lparr>ax_queue := q\<rparr>))"
| "ax_work ae read now (AxGot n r) s = Some (if ax_errs s r \<noteq> None then AxIdle else AxBusy n r, s)"
| "ax_work ae read now (AxBusy n r) s =
     (case block_work (ae_lib ae) (ae_cl ae) (ae_jl ae) (ae_sess ae) (ae_p ae) read now n (ax_pool s) of
        (Inl err, p) \<Rightarrow> Some (AxIdle, s\<lparr>ax_pool := p, ax_errs := (ax_errs s)(r := Some err)\<rparr>)
      | (Inr _, p) \<Rightarrow> Some (AxIdle, s\<lparr>ax_pool := p\<rparr>))"

text \<open>The thread of \<open>catchupBlock\<close> queues its numbers under cell 0, and stores its error there.\<close>

fun ax_catch :: "int list \<times> go_error option \<Rightarrow> ax_state \<Rightarrow> ax_state option" where
  "ax_catch ([], None) s = None"
| "ax_catch ([], Some e) s = Some (s\<lparr>ax_errs := (ax_errs s)(0 := Some e), ax_catchup := ([], None)\<rparr>)"
| "ax_catch (n # ns, e) s =
     (if ax_errs s 0 \<noteq> None then Some (s\<lparr>ax_catchup := ([], None)\<rparr>)
      else if length (ax_queue s) < maxWorkerQueue then Some (s\<lparr>ax_queue := ax_queue s @ [(n, 0)], ax_catchup := (ns, e)\<rparr>)
      else None)"

text \<open>\<open>newContainerC\<close> and the start of \<open>runProcessor\<close>: new queue, new cells, and the catch-up when the
  number of recorded blocks shows that some are missing.\<close>

definition ax_start :: "ax_env \<Rightarrow> (int \<Rightarrow> int \<Rightarrow> go_error + string list) \<Rightarrow> pool \<Rightarrow> go_error + ax_state" where
  "ax_start ae load pool =
     (case getBlock (ae_sess ae) pool of
        (Inl err, _) \<Rightarrow> Inl err
      | (Inr (block, blockCount), pool') \<Rightarrow>
          Inr \<lparr>ax_pool = pool', ax_block = block, ax_queue = [], ax_errs = (\<lambda>_. None), ax_next = 1,
               ax_mode = Asking, ax_workers = replicate maxWorkers AxIdle,
               ax_catchup = (if blockCount < block + 1 then catchupBlock load (block + 1) else ([], None))\<rparr>)"

inductive ax_step :: "pool_env \<Rightarrow> ax_env \<Rightarrow> (int \<Rightarrow> BlockContainer) \<Rightarrow> ax_state \<Rightarrow> ax_state \<Rightarrow> bool" for pe ae chain where
  main: "ax_main ae latest (ax_mode s) s = Some s' \<Longrightarrow> ax_step pe ae chain s s'"
| work: "\<forall>n bc. read n = Inr bc \<longrightarrow> bc = chain n \<Longrightarrow> i < length (ax_workers s)
    \<Longrightarrow> ax_work ae read now (ax_workers s ! i) s = Some (w, s') \<Longrightarrow> ax_step pe ae chain s (s'\<lparr>ax_workers := (ax_workers s)[i := w]\<rparr>)"
| catch: "ax_catch (ax_catchup s) s = Some s' \<Longrightarrow> ax_step pe ae chain s s'"
| restart: "ax_mode s = Stopped e \<Longrightarrow> \<forall>w \<in> set (ax_workers s). w = AxIdle \<Longrightarrow> ax_start ae load (ax_pool s) = Inr s'
    \<Longrightarrow> ax_step pe ae chain s s'"
| others: "pool_step pe (ax_pool s) p \<Longrightarrow> ax_step pe ae chain s (s\<lparr>ax_pool := p\<rparr>)"

section \<open>Numbers and their texts\<close>

lemma SetString_Itoa: "SetString (Itoa i) = i"
proof (cases "i < 0")
  case True
  then show ?thesis by (simp add: SetString_def Itoa_def digits_val_nat HasPrefix_def)
next
  case False
  have "\<not> HasPrefix (nat_digits n) ''-''" for n
    using sep_not_in_nat_digits(3) [of n] by (cases "nat_digits n") (auto simp: HasPrefix_def)
  with False show ?thesis by (simp add: SetString_def Itoa_def digits_val_nat)
qed

section \<open>Catching up\<close>

lemma refill_filter: "refill bs s e = filter (\<lambda>n. Itoa n \<notin> set bs) [s..e - 1]"
proof (induction bs s e rule: refill.induct)
  case (1 bs s e)
  then show ?case by (subst refill.simps) (simp add: upto.simps [of s])
qed

text \<open>The answers of a server that has the blocks \<open>R\<close>.\<close>

definition loads :: "int set \<Rightarrow> (int \<Rightarrow> int \<Rightarrow> go_error + string list) \<Rightarrow> bool" where
  "loads R load \<longleftrightarrow> (\<forall>lo hi. \<exists>bs. load lo hi = Inr bs \<and> set bs = Itoa ` {n \<in> R. lo \<le> n \<and> n < hi})"

lemma catchup_loop_filter:
  assumes "loads R load"
  shows "catchup_loop load s bound = (filter (\<lambda>n. n \<notin> R) [s..bound - 1], None)"
  using assms
proof (induction load s bound rule: catchup_loop.induct)
  case (1 load s bound)
  show ?case
  proof (cases "s < bound")
    case False
    then show ?thesis by (simp add: catchup_loop.simps [of load s])
  next
    case True
    define e where "e = (if s + 100000 \<ge> bound then bound else s + 100000)"
    have e: "s < e" "e \<le> bound" using True by (auto simp: e_def)
    obtain bs where bs: "load s e = Inr bs" "set bs = Itoa ` {n \<in> R. s \<le> n \<and> n < e}"
      using "1.prems" unfolding loads_def by blast
    have "Itoa n \<notin> set bs \<longleftrightarrow> n \<notin> R" if "n \<in> set [s..e - 1]" for n
      using that bs(2) by (auto simp: Itoa_inj)
    then have "refill bs s e = filter (\<lambda>n. n \<notin> R) [s..e - 1]" by (auto simp: refill_filter intro: filter_cong)
    moreover have "catchup_loop load e bound = (filter (\<lambda>n. n \<notin> R) [e..bound - 1], None)"
      using "1.IH" [OF True e_def bs(1)] "1.prems" by simp
    moreover have "[s..bound - 1] = [s..e - 1] @ [e..bound - 1]"
      using e upto_split1 [of s e "bound - 1"] by (cases "e = bound") auto
    ultimately show ?thesis using True bs(1) by (simp add: catchup_loop.simps [of load s] e_def [symmetric])
  qed
qed

lemma card_gap_free:
  fixes S :: "int set"
  assumes "finite S" "S \<noteq> {}" "\<forall>n \<in> S. 0 \<le> n" "Max S + 1 \<le> int (card S)"
  shows "S = {0..Max S}"
proof -
  have "S \<subseteq> {0..Max S}" using assms(1,3) by auto
  moreover have "card {0..Max S} \<le> card S" using assms(4) by simp
  ultimately show ?thesis by (meson card_seteq finite_atLeastAtMost_int)
qed

definition blocks_typed :: "tables \<Rightarrow> bool" where
  "blocks_typed T \<longleftrightarrow> (\<forall>r \<in> set (T TableCvmBlocks). \<exists>n \<ge> 0. r ''block'' = Some (VRaw (Itoa n)))"

lemma block_conflict: "conflicts TableCvmBlocks r r' \<longleftrightarrow> r ''block'' \<noteq> None \<and> r ''block'' = r' ''block''"
  by (simp add: dao_simps)

lemma recorded_numbers:
  assumes "tables_ok T" "blocks_typed T"
  shows "set (map block_number (T TableCvmBlocks)) = recorded T" "distinct (map block_number (T TableCvmBlocks))"
    "\<forall>n \<in> recorded T. 0 \<le> n"
proof -
  have num: "r ''block'' = Some (VRaw (Itoa (block_number r)))" "0 \<le> block_number r" if "r \<in> set (T TableCvmBlocks)" for r
    using assms(2) that by (auto simp: blocks_typed_def block_number_def SetString_Itoa)
  show "set (map block_number (T TableCvmBlocks)) = recorded T"
    using num by (fastforce simp: recorded_def Itoa_inj)
  show "\<forall>n \<in> recorded T. 0 \<le> n" using num by (fastforce simp: recorded_def Itoa_inj)
  have "sorted_wrt (\<lambda>r r'. block_number r \<noteq> block_number r') (T TableCvmBlocks)"
  proof (rule sorted_wrt_mono_rel)
    show "sorted_wrt (\<lambda>r r'. \<not> conflicts TableCvmBlocks r r') (T TableCvmBlocks)"
      using assms(1) by (simp add: tables_ok_def keys_ok_def)
  next
    fix r r' assume "r \<in> set (T TableCvmBlocks)" "r' \<in> set (T TableCvmBlocks)" "\<not> conflicts TableCvmBlocks r r'"
    with num [of r] num [of r'] show "block_number r \<noteq> block_number r'" by (auto simp: block_conflict)
  qed
  then show "distinct (map block_number (T TableCvmBlocks))" by (simp add: distinct_conv_nth sorted_wrt_iff_nth_less) (metis linorder_neqE_nat)
qed

lemma getBlock_run:
  assumes "sql_session sess" "pool_inv s" "getBlock sess s = (r, s')"
  shows "pool_inv s'" "tabs (pool_db s') = tabs (pool_db s)"
    "blocks_typed (tabs (pool_db s)) \<Longrightarrow> r = Inr (b, c) \<Longrightarrow> recorded (tabs (pool_db s)) \<noteq> {} \<Longrightarrow>
       b = Max (recorded (tabs (pool_db s))) \<and> c = int (card (recorded (tabs (pool_db s)))) \<and> finite (recorded (tabs (pool_db s)))"
    "r = Inr (b, c) \<Longrightarrow> blocks_typed (tabs (pool_db s)) \<Longrightarrow> recorded (tabs (pool_db s)) = {} \<Longrightarrow> b = -1 \<and> c = 0"
proof -
  let ?T = "tabs (pool_db s)"
  obtain q d where q: "sess_load sess TableCvmBlocks [] (pool_db s) = (q, d)" by (cases "sess_load sess TableCvmBlocks [] (pool_db s)")
  have t: "tabs d = ?T" using sql_session.load_tabs [OF assms(1)] q by (metis snd_conv)
  have s': "s' = set_db d s" using assms(3) q by (auto simp: getBlock_def on_db_def split: sum.splits)
  then show "tabs (pool_db s') = ?T" using t by simp
  show "pool_inv s'" unfolding s' by (rule pool_inv_same_db [OF assms(2) t])
  have ok: "tables_ok ?T" using assms(2) by (simp add: pool_inv_def)
  have rs: "rs = ?T TableCvmBlocks" if "q = Inr rs" for rs
    using sql_session.load_ok [OF assms(1) q [unfolded that]] by (simp add: sql_select_def matches_def)
  have res: "\<exists>rs. q = Inr rs \<and> b = (if rs = [] then -1 else Max (set (map block_number rs))) \<and> c = int (length rs)" if "r = Inr (b, c)"
    using assms(3) q that by (auto simp: getBlock_def on_db_def split: sum.splits if_splits)
  show "b = Max (recorded ?T) \<and> c = int (card (recorded ?T)) \<and> finite (recorded ?T)"
    if "blocks_typed ?T" "r = Inr (b, c)" "recorded ?T \<noteq> {}"
  proof -
    note nums = recorded_numbers [OF ok that(1)]
    from res [OF that(2)] rs obtain "b = (if ?T TableCvmBlocks = [] then -1 else Max (set (map block_number (?T TableCvmBlocks))))"
      "c = int (length (?T TableCvmBlocks))" by blast
    moreover have "?T TableCvmBlocks \<noteq> []" using that(3) by (auto simp: recorded_def)
    moreover have "card (recorded ?T) = length (?T TableCvmBlocks)" using distinct_card [OF nums(2)] nums(1) by simp
    moreover have "finite (recorded ?T)" using nums(1) by (metis List.finite_set)
    ultimately show ?thesis using nums(1) by simp
  qed
  show "b = -1 \<and> c = 0" if "r = Inr (b, c)" "blocks_typed ?T" "recorded ?T = {}"
  proof -
    have "?T TableCvmBlocks = []" using recorded_numbers(1) [OF ok that(2)] that(3) by simp
    moreover from res [OF that(1)] obtain rs0 where "q = Inr rs0" "b = (if rs0 = [] then -1 else Max (set (map block_number rs0)))" "c = int (length rs0)" by blast
    ultimately show ?thesis using rs [of rs0] by simp
  qed
qed

section \<open>A block that is recorded is in the pool\<close>

definition row_in :: "string set \<Rightarrow> (gotime \<Rightarrow> go_error + TxPool) \<Rightarrow> bool" where
  "row_in A row \<longleftrightarrow> (\<exists>now v. row now = Inr v \<and> TxPool_ID v \<in> A)"

definition block_stored :: "ax_env \<Rightarrow> BlockContainer \<Rightarrow> string set \<Rightarrow> bool" where
  "block_stored ae bc A \<longleftrightarrow>
     (\<forall>t \<in> set (BC_Traces bc). row_in A (\<lambda>now. trace_row (ae_lib ae) (ae_jl ae) (ae_p ae) now t))
   \<and> (\<forall>l \<in> set (BC_Logs bc). row_in A (\<lambda>now. log_row (ae_lib ae) (ae_jl ae) (ae_p ae) now l))
   \<and> row_in A (\<lambda>now. block_row (ae_lib ae) (ae_cl ae) (ae_p ae) now (modelsc_New (BC_Block bc)))"

lemma row_in_mono: "A \<subseteq> B \<Longrightarrow> row_in A row \<Longrightarrow> row_in B row"
  by (auto simp: row_in_def)

lemma block_stored_mono: "A \<subseteq> B \<Longrightarrow> block_stored ae bc A \<Longrightarrow> block_stored ae bc B"
  unfolding block_stored_def using row_in_mono by blast

lemma work_row_pending: "work_row lib p now topic k b = Inr row \<Longrightarrow> TxPool_Processed row = 0"
  by (auto simp: work_row_def TxPool_ComputeID_def Let_def split: sum.splits)

lemma store_row_feeder:
  assumes "sql_session sess" "\<And>v. row now = Inr v \<Longrightarrow> TxPool_Processed v = 0"
  shows "feeder (\<lambda>A. row_in A row) (store_row sess (row now))"
  unfolding store_row_def
proof (rule feeder_lift)
  fix v assume v: "row now = Inr v"
  from feeder_UpdateTxPool [OF assms(1) assms(2) [OF v]] show "feeder (\<lambda>A. row_in A row) (UpdateTxPool sess v)"
    by (rule feeder_weaken) (use v in \<open>auto simp: row_in_def\<close>)
qed

lemma processWork_feeder:
  assumes "sql_session (ae_sess ae)"
  shows "feeder (block_stored ae bc) (processWork (ae_lib ae) (ae_cl ae) (ae_jl ae) (ae_sess ae) (ae_p ae) bc now)"
proof -
  have pend: "\<And>v t. trace_row (ae_lib ae) (ae_jl ae) (ae_p ae) now t = Inr v \<Longrightarrow> TxPool_Processed v = 0"
    "\<And>v l. log_row (ae_lib ae) (ae_jl ae) (ae_p ae) now l = Inr v \<Longrightarrow> TxPool_Processed v = 0"
    "\<And>v b. block_row (ae_lib ae) (ae_cl ae) (ae_p ae) now b = Inr v \<Longrightarrow> TxPool_Processed v = 0"
    unfolding trace_row_def log_row_def block_row_def by (auto dest: work_row_pending)
  have "feeder (\<lambda>A. (\<forall>t \<in> set (BC_Traces bc). row_in A (\<lambda>now. trace_row (ae_lib ae) (ae_jl ae) (ae_p ae) now t))
       \<and> (\<forall>l \<in> set (BC_Logs bc). row_in A (\<lambda>now. log_row (ae_lib ae) (ae_jl ae) (ae_p ae) now l))
       \<and> row_in A (\<lambda>now. block_row (ae_lib ae) (ae_cl ae) (ae_p ae) now (modelsc_New (BC_Block bc))))
     (processWork (ae_lib ae) (ae_cl ae) (ae_jl ae) (ae_sess ae) (ae_p ae) bc now)"
    unfolding processWork_def
  proof (intro feeder_then)
    show "feeder (\<lambda>A. \<forall>t \<in> set (BC_Traces bc). row_in A (\<lambda>now. trace_row (ae_lib ae) (ae_jl ae) (ae_p ae) now t))
        (go_for (\<lambda>t. store_row (ae_sess ae) (trace_row (ae_lib ae) (ae_jl ae) (ae_p ae) now t)) (BC_Traces bc))"
      by (intro feeder_for store_row_feeder [OF assms]) (auto intro: pend row_in_mono)
    show "feeder (\<lambda>A. \<forall>l \<in> set (BC_Logs bc). row_in A (\<lambda>now. log_row (ae_lib ae) (ae_jl ae) (ae_p ae) now l))
        (go_for (\<lambda>l. store_row (ae_sess ae) (log_row (ae_lib ae) (ae_jl ae) (ae_p ae) now l)) (BC_Logs bc))"
      by (intro feeder_for store_row_feeder [OF assms]) (auto intro: pend row_in_mono)
    show "feeder (\<lambda>A. row_in A (\<lambda>now. block_row (ae_lib ae) (ae_cl ae) (ae_p ae) now (modelsc_New (BC_Block bc))))
        (store_row (ae_sess ae) (block_row (ae_lib ae) (ae_cl ae) (ae_p ae) now (modelsc_New (BC_Block bc))))"
      by (rule store_row_feeder [OF assms]) (rule pend)
  qed (use row_in_mono in blast)+
  then show ?thesis unfolding block_stored_def by simp
qed

lemma updateBlock_run:
  assumes "sql_session sess" "pool_inv s" "0 \<le> n" "updateBlock sess n now s = (r, s')"
  shows "pool_inv s'" "table_ids (tabs (pool_db s')) = table_ids (tabs (pool_db s))"
    "blocks_typed (tabs (pool_db s)) \<Longrightarrow> blocks_typed (tabs (pool_db s'))"
    "recorded (tabs (pool_db s')) = (case r of Inl _ \<Rightarrow> recorded (tabs (pool_db s)) | Inr _ \<Rightarrow> insert n (recorded (tabs (pool_db s))))"
proof -
  let ?v = "\<lparr>CvmBlocks_Block = Itoa n, CvmBlocks_CreatedAt = now\<rparr>" and ?T = "tabs (pool_db s)"
  obtain d where d: "exec_insert sess TableCvmBlocks TableCvmBlocks (CvmBlocks_cols ?v) (pool_db s) = (r, d)" "s' = set_db d s"
    using assms(4) by (auto simp: updateBlock_def on_db_def InsertCvmBlocks_def split: prod.splits)
  have ok: "tables_ok ?T" using assms(2) by (simp add: pool_inv_def)
  have new: "new_row TableCvmBlocks (CvmBlocks_cols ?v) ''block'' = Some (VRaw (Itoa n))" by (simp add: CvmBlocks_cols_def dao_simps)
  have "pool_inv s' \<and> table_ids (tabs d) = table_ids ?T \<and> (blocks_typed ?T \<longrightarrow> blocks_typed (tabs d))
    \<and> recorded (tabs d) = (case r of Inl _ \<Rightarrow> recorded ?T | Inr _ \<Rightarrow> insert n (recorded ?T))"
  proof (cases r)
    case (Inl e)
    then have t: "tabs d = ?T" using sql_session.exec_fails(1) [OF assms(1)] d(1) by simp
    with Inl d(2) pool_inv_same_db [OF assms(2) t] show ?thesis by simp
  next
    case (Inr u)
    then have t: "tabs d = ins_ignore TableCvmBlocks (CvmBlocks_cols ?v) ?T" using sql_session.exec_oks(1) [OF assms(1)] d(1) by simp
    have tx: "tabs d TableTxPool = ?T TableTxPool" by (simp add: t)
    have "pool_inv s'" unfolding d(2) by (rule pool_inv_other_db [OF assms(2) _ tx]) (simp add: t ins_ignore_keys [OF ok])
    moreover have "recorded (tabs d) = insert n (recorded ?T) \<and> (blocks_typed ?T \<longrightarrow> blocks_typed (tabs d))"
    proof (cases "list_ex (conflicts TableCvmBlocks (new_row TableCvmBlocks (CvmBlocks_cols ?v))) (?T TableCvmBlocks)")
      case True
      then have "n \<in> recorded ?T" by (auto simp: list_ex_iff block_conflict new recorded_def)
      with True show ?thesis by (auto simp: t ins_ignore_present)
    next
      case False
      with assms(3) show ?thesis by (auto simp: t ins_ignore_fresh recorded_def blocks_typed_def new Itoa_inj)
    qed
    ultimately show ?thesis using Inr pool_tables_cong(1) [where T' = "tabs d" and T = ?T, OF tx] by simp
  qed
  with d(2) show "pool_inv s'" "table_ids (tabs (pool_db s')) = table_ids ?T" "blocks_typed ?T \<Longrightarrow> blocks_typed (tabs (pool_db s'))"
    "recorded (tabs (pool_db s')) = (case r of Inl _ \<Rightarrow> recorded ?T | Inr _ \<Rightarrow> insert n (recorded ?T))"
    by simp_all
qed

text \<open>The invariant of the tables.\<close>

definition blocks_ok :: "ax_env \<Rightarrow> (int \<Rightarrow> BlockContainer) \<Rightarrow> pool \<Rightarrow> bool" where
  "blocks_ok ae chain s \<longleftrightarrow> pool_inv s \<and> blocks_typed (tabs (pool_db s))
     \<and> (\<forall>n \<in> recorded (tabs (pool_db s)). block_stored ae (chain n) (table_ids (tabs (pool_db s))))"

lemma blocks_ok_mono:
  assumes "blocks_ok ae chain s" "pool_inv s'" "tabs (pool_db s') TableCvmBlocks = tabs (pool_db s) TableCvmBlocks"
    and "table_ids (tabs (pool_db s)) \<subseteq> table_ids (tabs (pool_db s'))"
  shows "blocks_ok ae chain s'"
  using assms block_stored_mono [OF assms(4)] by (simp add: blocks_ok_def blocks_typed_def recorded_def)

lemma blocks_ok_feeds: "blocks_ok ae chain s \<Longrightarrow> feeds s s' \<Longrightarrow> blocks_ok ae chain s'"
  using blocks_ok_mono [of ae chain s s'] by (simp add: feeds_def)

lemma block_work_ok:
  assumes "sql_session (ae_sess ae)" "blocks_ok ae chain s" "\<forall>n bc. read n = Inr bc \<longrightarrow> bc = chain n" "0 \<le> n"
    and run: "block_work (ae_lib ae) (ae_cl ae) (ae_jl ae) (ae_sess ae) (ae_p ae) read now n s = (r, s')"
  shows "blocks_ok ae chain s'" "recorded (tabs (pool_db s')) = recorded (tabs (pool_db s)) \<or> recorded (tabs (pool_db s')) = insert n (recorded (tabs (pool_db s)))"
    "r = Inr u \<Longrightarrow> n \<in> recorded (tabs (pool_db s'))"
proof -
  let ?R = "recorded (tabs (pool_db s))"
  have "blocks_ok ae chain s' \<and> (recorded (tabs (pool_db s')) = ?R \<or> recorded (tabs (pool_db s')) = insert n ?R)
    \<and> (r = Inr u \<longrightarrow> n \<in> recorded (tabs (pool_db s')))"
  proof (cases "read n")
    case (Inl e)
    with run assms(2) show ?thesis by (auto simp: block_work_def go_simps)
  next
    case (Inr bc)
    then have bc: "bc = chain n" using assms(3) by blast
    obtain q1 s1 where w: "processWork (ae_lib ae) (ae_cl ae) (ae_jl ae) (ae_sess ae) (ae_p ae) bc now s = (q1, s1)"
      by (cases "processWork (ae_lib ae) (ae_cl ae) (ae_jl ae) (ae_sess ae) (ae_p ae) bc now s")
    have inv: "pool_inv s" using assms(2) by (simp add: blocks_ok_def)
    note f = feederD [OF processWork_feeder [OF assms(1)] inv w]
    have ok1: "blocks_ok ae chain s1" using blocks_ok_feeds [OF assms(2) f(1)] .
    have R1: "recorded (tabs (pool_db s1)) = ?R" using feedsD(3) [OF f(1), of TableCvmBlocks] by (simp add: recorded_def)
    show ?thesis
    proof (cases q1)
      case (Inl e)
      with run Inr w ok1 R1 show ?thesis by (auto simp: block_work_def go_simps)
    next
      case q1: (Inr u)
      obtain q2 s2 where ub: "updateBlock (ae_sess ae) n now s1 = (q2, s2)" by (cases "updateBlock (ae_sess ae) n now s1")
      have inv1: "pool_inv s1" using ok1 by (simp add: blocks_ok_def)
      note ur = updateBlock_run [OF assms(1) inv1 assms(4) ub]
      have "blocks_ok ae chain s2"
        using ok1 ur f(2) q1 bc by (auto simp: blocks_ok_def split: sum.splits)
      moreover have "feeder (\<lambda>_. True \<and> True) (go_then (count_metric a) (count_metric b))" for a b by (intro feeder_then feeder_count)
      from feederD(1) [OF this ur(1)] have cnt: "feeds s2 t" if "go_then (count_metric a) (count_metric b) s2 = (x, t)" for a b x t using that by blast
      ultimately have "blocks_ok ae chain s'" and "recorded (tabs (pool_db s')) = recorded (tabs (pool_db s2))"
        using run Inr w q1 ub blocks_ok_feeds [OF _ cnt] feedsD(3) [OF cnt, of _ _ _ _ TableCvmBlocks]
        by (cases q2; auto simp: block_work_def go_simps recorded_def)+
      with ur(4) R1 run Inr w q1 ub show ?thesis by (cases q2) (auto simp: block_work_def go_simps)
    qed
  qed
  then show "blocks_ok ae chain s'" "recorded (tabs (pool_db s')) = ?R \<or> recorded (tabs (pool_db s')) = insert n ?R"
    "r = Inr u \<Longrightarrow> n \<in> recorded (tabs (pool_db s'))" by blast+
qed

section \<open>The invariant of the producer\<close>

fun ax_holds :: "ax_worker \<Rightarrow> int option" where
  "ax_holds AxIdle = None"
| "ax_holds (AxGot n r) = Some n"
| "ax_holds (AxBusy n r) = Some n"

text \<open>The numbers that are on their way.\<close>

definition ax_numbers :: "ax_state \<Rightarrow> int set" where
  "ax_numbers s = fst ` set (ax_queue s) \<union> {n. Some n \<in> ax_holds ` set (ax_workers s)} \<union> set (fst (ax_catchup s))"

lemma ax_numbers_update [simp]:
  "ax_numbers (s\<lparr>ax_mode := m\<rparr>) = ax_numbers s" "ax_numbers (s\<lparr>ax_next := k\<rparr>) = ax_numbers s" "ax_numbers (s\<lparr>ax_pool := p\<rparr>) = ax_numbers s"
  "ax_numbers (s\<lparr>ax_errs := f\<rparr>) = ax_numbers s" "ax_numbers (s\<lparr>ax_block := b\<rparr>) = ax_numbers s"
  by (simp_all add: ax_numbers_def)

lemma ax_numbers_queue:
  "ax_numbers (s\<lparr>ax_queue := ax_queue s @ [(n, r)]\<rparr>) = insert n (ax_numbers s)"
  "ax_queue s = (n, r) # q \<Longrightarrow> ax_numbers (s\<lparr>ax_queue := q\<rparr>) \<subseteq> ax_numbers s \<and> n \<in> ax_numbers s"
  by (auto simp: ax_numbers_def)

definition ax_inv :: "ax_env \<Rightarrow> (int \<Rightarrow> BlockContainer) \<Rightarrow> ax_state \<Rightarrow> bool" where
  "ax_inv ae chain s \<longleftrightarrow> blocks_ok ae chain (ax_pool s) \<and> -1 \<le> ax_block s \<and> ax_numbers s \<subseteq> {0..}"

lemma count_ax_run:
  assumes "blocks_ok ae chain (ax_pool s)"
  shows "blocks_ok ae chain (ax_pool (count_ax a b s))" "ax_block (count_ax a b s) = ax_block s" "ax_numbers (count_ax a b s) = ax_numbers s"
    "tabs (ax_db (count_ax a b s)) = tabs (ax_db s)" "ax_errs (count_ax a b s) = ax_errs s" "ax_mode (count_ax a b s) = ax_mode s"
    "ax_workers (count_ax a b s) = ax_workers s" "ax_queue (count_ax a b s) = ax_queue s" "ax_catchup (count_ax a b s) = ax_catchup s"
proof -
  obtain x t where t: "go_then (count_metric a) (count_metric b) (ax_pool s) = (x, t)" by (cases "go_then (count_metric a) (count_metric b) (ax_pool s)")
  have "feeder (\<lambda>_. True \<and> True) (go_then (count_metric a) (count_metric b))" by (intro feeder_then feeder_count)
  from feederD(1) [OF this _ t] assms have "feeds (ax_pool s) t" by (simp add: blocks_ok_def)
  from blocks_ok_feeds [OF assms this] t show "blocks_ok ae chain (ax_pool (count_ax a b s))" by (simp add: count_ax_def)
  show "tabs (ax_db (count_ax a b s)) = tabs (ax_db s)" by (simp add: count_ax_def count_metric_def go_simps)
qed (simp_all add: count_ax_def ax_numbers_def)

lemma ax_finish_run:
  assumes "blocks_ok ae chain (ax_pool s)"
  shows "blocks_ok ae chain (ax_pool (ax_finish ae r s))" "ax_block (ax_finish ae r s) = ax_block s"
    "ax_numbers (ax_finish ae r s) = ax_numbers s" "tabs (ax_db (ax_finish ae r s)) = tabs (ax_db s)"
  using count_ax_run [OF assms] assms
  by (auto simp: ax_finish_def Let_def split: option.splits sum.splits go_error.splits)

lemma ax_main_run:
  assumes "blocks_ok ae chain (ax_pool s)" "ax_main ae latest m s = Some s'"
  shows "blocks_ok ae chain (ax_pool s') \<and> tabs (ax_db s') = tabs (ax_db s) \<and> ax_block s \<le> ax_block s'
    \<and> ax_numbers s' \<subseteq> ax_numbers s \<union> {ax_block s <.. ax_block s'}"
  using assms(2)
proof (cases m)
  case Asking
  with assms(2) have "(\<exists>q. s' = ax_finish ae q s) \<or> (\<exists>l. s' = s\<lparr>ax_mode := Dispatching l (ax_next s), ax_next := Suc (ax_next s)\<rparr>)"
    by (auto split: sum.splits if_splits)
  with ax_finish_run [OF assms(1)] assms(1) show ?thesis by auto
next
  case (Dispatching l r)
  show ?thesis
  proof (cases "ax_block s < l \<and> ax_errs s r = None \<and> ax_errs s 0 = None")
    case True
    with Dispatching assms have "s' = s\<lparr>ax_queue := ax_queue s @ [(ax_block s + 1, r)], ax_block := ax_block s + 1\<rparr>"
      by (auto split: if_splits)
    with assms(1) ax_numbers_queue(1) [of s "ax_block s + 1" r] show ?thesis by auto
  next
    case False
    with Dispatching assms(2) have "(\<exists>q. s' = ax_finish ae q s) \<or> s' = s\<lparr>ax_mode := Draining r\<rparr>" by (auto split: if_splits option.splits)
    with ax_finish_run [OF assms(1)] assms(1) show ?thesis by auto
  qed
next
  case (Draining r)
  with assms(2) obtain q where "s' = ax_finish ae q s" by (auto split: if_splits)
  with ax_finish_run [OF assms(1)] show ?thesis by simp
qed simp

lemma ax_numbers_workers:
  "ax_numbers (s\<lparr>ax_workers := (ax_workers s)[i := w]\<rparr>) \<subseteq> ax_numbers s \<union> {n. ax_holds w = Some n}"
  using set_update_subset_insert [of "ax_workers s" i w] by (fastforce simp: ax_numbers_def)

lemma ax_work_run:
  assumes "sql_session (ae_sess ae)" "ax_inv ae chain s" "\<forall>n bc. read n = Inr bc \<longrightarrow> bc = chain n" "w \<in> set (ax_workers s)"
    and "ax_work ae read now w s = Some (w', s')"
  shows "blocks_ok ae chain (ax_pool s') \<and> ax_block s' = ax_block s \<and> ax_numbers s' \<subseteq> ax_numbers s \<and> {n. ax_holds w' = Some n} \<subseteq> ax_numbers s
    \<and> recorded (tabs (ax_db s')) \<subseteq> recorded (tabs (ax_db s)) \<union> ax_numbers s \<and> ax_workers s' = ax_workers s"
proof (cases w)
  case AxIdle
  with assms(5) obtain n r q where "ax_queue s = (n, r) # q" "w' = AxGot n r" "s' = s\<lparr>ax_queue := q\<rparr>"
    by (auto split: list.splits)
  with assms(2) ax_numbers_queue(2) [of s n r q] show ?thesis by (auto simp: ax_inv_def)
next
  case (AxGot n r)
  then have "n \<in> ax_numbers s" using assms(4) by (force simp: ax_numbers_def)
  with AxGot assms show ?thesis by (auto simp: ax_inv_def split: if_splits)
next
  case (AxBusy n r)
  obtain q p where q: "block_work (ae_lib ae) (ae_cl ae) (ae_jl ae) (ae_sess ae) (ae_p ae) read now n (ax_pool s) = (q, p)"
    by (cases "block_work (ae_lib ae) (ae_cl ae) (ae_jl ae) (ae_sess ae) (ae_p ae) read now n (ax_pool s)")
  have n: "n \<in> ax_numbers s" using assms(4) AxBusy by (force simp: ax_numbers_def)
  then have "0 \<le> n" using assms(2) by (auto simp: ax_inv_def)
  note bw = block_work_ok [OF assms(1) _ assms(3) this q]
  have "blocks_ok ae chain (ax_pool s)" using assms(2) by (simp add: ax_inv_def)
  from bw(1,2) [OF this] have "blocks_ok ae chain p" "recorded (tabs (pool_db p)) \<subseteq> recorded (tabs (ax_db s)) \<union> ax_numbers s" using n by auto
  moreover have "ax_pool s' = p" "ax_block s' = ax_block s" "ax_numbers s' = ax_numbers s" "w' = AxIdle" "ax_workers s' = ax_workers s"
    using AxBusy q assms(5) by (cases q; auto)+
  ultimately show ?thesis by simp
qed

lemma ax_catch_run:
  assumes "ax_catch (ax_catchup s) s = Some s'"
  shows "ax_pool s' = ax_pool s \<and> ax_block s' = ax_block s \<and> ax_numbers s' \<subseteq> ax_numbers s"
  using assms
proof (cases "ax_catchup s")
  case (Pair ns e)
  with assms show ?thesis by (cases ns; cases e) (auto simp: ax_numbers_def split: if_splits)
qed

lemma getBlock_bound:
  assumes "sql_session sess" "pool_inv s" "blocks_typed (tabs (pool_db s))" "getBlock sess s = (Inr (b, c), s')"
  shows "-1 \<le> b"
proof (cases "recorded (tabs (pool_db s)) = {}")
  case True
  then show ?thesis using getBlock_run(4) [OF assms(1,2,4) refl assms(3)] by simp
next
  case False
  then have m: "b = Max (recorded (tabs (pool_db s)))" "finite (recorded (tabs (pool_db s)))"
    using getBlock_run(3) [OF assms(1,2,4,3) refl] by blast+
  have "tables_ok (tabs (pool_db s))" using assms(2) by (simp add: pool_inv_def)
  from recorded_numbers(3) [OF this assms(3)] Max_in [OF m(2) False] m(1) have "0 \<le> b" by simp
  then show ?thesis by simp
qed

lemma catchup_loop_from: "set (fst (catchup_loop load s bound)) \<subseteq> {s..}"
proof (induction load s bound rule: catchup_loop.induct)
  case (1 load s bound)
  show ?case
  proof (cases "s < bound")
    case True
    define e where "e = (if s + 100000 \<ge> bound then bound else s + 100000)"
    have e: "s < e" using True by (auto simp: e_def)
    show ?thesis
    proof (cases "load s e")
      case (Inl a)
      with True show ?thesis by (simp add: catchup_loop.simps [of load s] e_def [symmetric])
    next
      case (Inr bs)
      with "1.IH" [OF True e_def] have "set (fst (catchup_loop load e bound)) \<subseteq> {e..}" by blast
      with True Inr e show ?thesis by (auto simp: catchup_loop.simps [of load s] e_def [symmetric] refill_filter split: prod.splits)
    qed
  qed (simp add: catchup_loop.simps [of load s])
qed

lemma ax_start_inv:
  assumes "sql_session (ae_sess ae)" "blocks_ok ae chain p" "ax_start ae load p = Inr s"
  shows "ax_inv ae chain s" "tabs (ax_db s) = tabs (pool_db p)"
proof -
  from assms(3) obtain b c p' where g: "getBlock (ae_sess ae) p = (Inr (b, c), p')"
    and s: "s = \<lparr>ax_pool = p', ax_block = b, ax_queue = [], ax_errs = (\<lambda>_. None), ax_next = 1, ax_mode = Asking,
      ax_workers = replicate maxWorkers AxIdle, ax_catchup = (if c < b + 1 then catchupBlock load (b + 1) else ([], None))\<rparr>"
    by (auto simp: ax_start_def split: prod.splits sum.splits)
  have p: "pool_inv p" "blocks_typed (tabs (pool_db p))" using assms(2) by (simp_all add: blocks_ok_def)
  note gr = getBlock_run(1,2) [OF assms(1) p(1) g]
  show "tabs (ax_db s) = tabs (pool_db p)" using gr(2) s by simp
  have "blocks_ok ae chain p'" by (rule blocks_ok_mono [OF assms(2) gr(1)]) (simp_all add: gr(2))
  moreover have "set (fst (catchupBlock load (b + 1))) \<subseteq> {0..}" unfolding catchupBlock_def by (rule catchup_loop_from)
  ultimately show "ax_inv ae chain s" using getBlock_bound [OF assms(1) p g] s by (auto simp: ax_inv_def ax_numbers_def)
qed

lemma ax_step_inv:
  assumes "pool_env_ok pe" "sql_session (ae_sess ae)" "ax_inv ae chain s" "ax_step pe ae chain s t"
  shows "ax_inv ae chain t"
  using assms(4)
proof (cases rule: ax_step.cases)
  case (main latest)
  from ax_main_run [OF _ main] assms(3) show ?thesis by (fastforce simp: ax_inv_def)
next
  case (work read i now w s')
  from ax_work_run [OF assms(2,3) work(2) _ work(4)] work(3) have r: "blocks_ok ae chain (ax_pool s') \<and> ax_block s' = ax_block s
      \<and> ax_numbers s' \<subseteq> ax_numbers s \<and> {n. ax_holds w = Some n} \<subseteq> ax_numbers s \<and> ax_workers s' = ax_workers s" by auto
  have "ax_numbers (s'\<lparr>ax_workers := (ax_workers s')[i := w]\<rparr>) \<subseteq> ax_numbers s" using ax_numbers_workers [of s' i w] r by blast
  with r assms(3) work(1) show ?thesis by (auto simp: ax_inv_def)
next
  case catch
  from ax_catch_run [OF catch] assms(3) show ?thesis by (auto simp: ax_inv_def)
next
  case (restart e load)
  have "blocks_ok ae chain (ax_pool s)" using assms(3) by (simp add: ax_inv_def)
  from ax_start_inv(1) [OF assms(2) this restart(3)] show ?thesis .
next
  case (others p)
  have inv: "pool_inv (ax_pool s)" using assms(3) by (simp add: ax_inv_def blocks_ok_def)
  have "blocks_ok ae chain p"
  proof (rule blocks_ok_mono)
    show "blocks_ok ae chain (ax_pool s)" using assms(3) by (simp add: ax_inv_def)
    show "pool_inv p" using pool_step_sim [OF assms(1) inv others(2)] by simp
    show "tabs (pool_db p) TableCvmBlocks = tabs (ax_db s) TableCvmBlocks" by (rule pool_step_other_table [OF assms(1) _ others(2)]) simp
  qed (rule pool_step_ids [OF assms(1) inv others(2)])
  with others(1) assms(3) show ?thesis by (simp add: ax_inv_def)
qed

section \<open>A block that nobody is working on\<close>

definition ax_lost :: "ax_env \<Rightarrow> (int \<Rightarrow> BlockContainer) \<Rightarrow> int \<Rightarrow> ax_state \<Rightarrow> bool" where
  "ax_lost ae chain n s \<longleftrightarrow> ax_inv ae chain s \<and> n \<le> ax_block s \<and> n \<notin> ax_numbers s \<and> n \<notin> recorded (tabs (ax_db s))"

lemma ax_lost_step:
  assumes "pool_env_ok pe" "sql_session (ae_sess ae)" "ax_lost ae chain n s" "ax_step pe ae chain s t" "\<And>e. ax_mode s \<noteq> Stopped e"
  shows "ax_lost ae chain n t"
proof -
  have inv: "ax_inv ae chain s" and n: "n \<le> ax_block s" "n \<notin> ax_numbers s" "n \<notin> recorded (tabs (ax_db s))"
    using assms(3) by (simp_all add: ax_lost_def)
  have "n \<le> ax_block t \<and> n \<notin> ax_numbers t \<and> n \<notin> recorded (tabs (ax_db t))"
    using assms(4)
  proof (cases rule: ax_step.cases)
    case (main latest)
    from ax_main_run [OF _ main] inv have "tabs (ax_db t) = tabs (ax_db s)" "ax_block s \<le> ax_block t" "ax_numbers t \<subseteq> ax_numbers s \<union> {ax_block s<..ax_block t}"
      by (auto simp: ax_inv_def)
    with n show ?thesis by auto
  next
    case (work read i now w s')
    from ax_work_run [OF assms(2) inv work(2) _ work(4)] work(3) have r: "ax_block s' = ax_block s \<and> ax_numbers s' \<subseteq> ax_numbers s
        \<and> {n. ax_holds w = Some n} \<subseteq> ax_numbers s \<and> recorded (tabs (ax_db s')) \<subseteq> recorded (tabs (ax_db s)) \<union> ax_numbers s \<and> ax_workers s' = ax_workers s" by auto
    have "ax_numbers (s'\<lparr>ax_workers := (ax_workers s')[i := w]\<rparr>) \<subseteq> ax_numbers s" using ax_numbers_workers [of s' i w] r by blast
    with r n work(1) show ?thesis by auto
  next
    case catch
    from ax_catch_run [OF catch] n show ?thesis by auto
  next
    case (restart e load)
    with assms(5) show ?thesis by blast
  next
    case (others p)
    have "tabs (pool_db p) TableCvmBlocks = tabs (ax_db s) TableCvmBlocks" by (rule pool_step_other_table [OF assms(1) _ others(2)]) simp
    with n others(1) show ?thesis by (simp add: recorded_def)
  qed
  with ax_step_inv [OF assms(1,2) inv assms(4)] show ?thesis by (simp add: ax_lost_def)
qed

section \<open>Properties\<close>

text \<open>C29. A block of the EVM chain that is recorded as read has been handed on completely: the block
  itself and all its traces and logs are in the pool, in every interleaving of the workers, the
  catch-up and restarts, and whatever errors the node and the database answer with.\<close>

theorem ax_recorded_in_pool:
  assumes "pool_env_ok pe" "sql_session (ae_sess ae)" "pool_inv p0" "tabs (pool_db p0) TableCvmBlocks = []"
    and "ax_start ae load p0 = Inr s0" "(ax_step pe ae chain)\<^sup>*\<^sup>* s0 s" "n \<in> recorded (tabs (ax_db s))"
  shows "block_stored ae (chain n) (table_ids (tabs (ax_db s)))"
proof -
  have "blocks_ok ae chain p0" using assms(3,4) by (simp add: blocks_ok_def blocks_typed_def recorded_def)
  from ax_start_inv(1) [OF assms(2) this assms(5)] have "ax_inv ae chain s0" .
  with assms(6) have "ax_inv ae chain s" by (induction rule: rtranclp_induct) (auto intro: ax_step_inv [OF assms(1,2)])
  with assms(7) show ?thesis by (simp add: ax_inv_def blocks_ok_def)
qed

text \<open>C30. What is queued again on start is exactly what is missing: the numbers from 0 to the highest
  recorded one that are not recorded, in ascending order. The loop over windows of 100000
  numbers equals the plain filter, and the comparison of the count with the maximum, which
  skips the loop, skips it only when nothing is missing.\<close>

theorem ax_catchup_exact:
  assumes "sql_session (ae_sess ae)" "pool_inv p" "blocks_typed (tabs (pool_db p))" "loads (recorded (tabs (pool_db p))) load"
    and "ax_start ae load p = Inr s"
  shows "ax_catchup s = (filter (\<lambda>n. n \<notin> recorded (tabs (pool_db p))) [0..ax_block s], None)
    \<and> (\<forall>n \<in> recorded (tabs (pool_db p)). 0 \<le> n \<and> n \<le> ax_block s)"
proof -
  let ?R = "recorded (tabs (pool_db p))"
  from assms(5) obtain b c p' where g: "getBlock (ae_sess ae) p = (Inr (b, c), p')" and s: "ax_block s = b"
    "ax_catchup s = (if c < b + 1 then catchupBlock load (b + 1) else ([], None))"
    by (auto simp: ax_start_def split: prod.splits sum.splits)
  have loop: "catchupBlock load (b + 1) = (filter (\<lambda>n. n \<notin> ?R) [0..b], None)"
    unfolding catchupBlock_def using catchup_loop_filter [OF assms(4)] by simp
  have ok: "tables_ok (tabs (pool_db p))" using assms(2) by (simp add: pool_inv_def)
  note nn = recorded_numbers(3) [OF ok assms(3)]
  show ?thesis
  proof (cases "?R = {}")
    case True
    with getBlock_run(4) [OF assms(1,2) g refl assms(3)] s show ?thesis by simp
  next
    case False
    then have m: "b = Max ?R" "c = int (card ?R)" "finite ?R" using getBlock_run(3) [OF assms(1,2) g assms(3) refl] by blast+
    have "filter (\<lambda>n. n \<notin> ?R) [0..b] = []" if "\<not> c < b + 1"
    proof -
      have "?R = {0..Max ?R}" using that m by (intro card_gap_free [OF m(3) False nn]) simp
      with m(1) have "?R = {0..b}" by simp
      then show ?thesis by (auto simp: filter_empty_conv)
    qed
    moreover have "\<forall>n \<in> ?R. n \<le> b" using m by simp
    ultimately show ?thesis using s loop nn by auto
  qed
qed

text \<open>An error of a block that is still being worked on when the queue runs empty is lost. The call that
  handed the block out then returns nil and counts as a success; the worker stores its error
  in a cell that nobody reads again, and until the producer is restarted for another reason
  the block is never recorded.\<close>

theorem ax_inflight_error_lost:
  assumes "pool_env_ok pe" "sql_session (ae_sess ae)" "ax_inv ae chain s"
    and "ax_mode s = Draining r" "ax_queue s = []" "ax_errs s r = None" "ax_errs s 0 = None" "0 < r" "ax_catchup s = ([], None)"
    and "ax_workers s = AxBusy n r # ws" "\<forall>w \<in> set ws. ax_holds w \<noteq> Some n" "n \<le> ax_block s" "n \<notin> recorded (tabs (ax_db s))"
  shows "\<exists>s1 s2. ax_step pe ae chain s s1 \<and> ax_mode s1 = Asking \<and> ax_step pe ae chain s1 s2 \<and> ax_errs s2 r = Some e
    \<and> (\<forall>t. (\<lambda>a b. ax_step pe ae chain a b \<and> (\<forall>e. ax_mode a \<noteq> Stopped e))\<^sup>*\<^sup>* s2 t \<longrightarrow> n \<notin> recorded (tabs (ax_db t)))"
proof -
  let ?s1 = "ax_finish ae (Inr ()) s"
  let ?s2 = "?s1\<lparr>ax_errs := (ax_errs ?s1)(r := Some e), ax_workers := (ax_workers ?s1)[0 := AxIdle]\<rparr>"
  have bo: "blocks_ok ae chain (ax_pool s)" using assms(3) by (simp add: ax_inv_def)
  note fin = ax_finish_run [OF bo, of "Inr ()"]
  have same: "ax_mode ?s1 = Asking" "ax_errs ?s1 = ax_errs s" "ax_workers ?s1 = ax_workers s" "ax_queue ?s1 = []" "ax_catchup ?s1 = ([], None)"
    using count_ax_run [OF bo] assms(5,7,9) by (simp_all add: ax_finish_def Let_def)
  have step1: "ax_step pe ae chain s ?s1" by (rule ax_step.main [where latest = "Inr 0"]) (simp add: assms(4-6))
  have "ax_work ae (\<lambda>_. Inl e) 0 (ax_workers ?s1 ! 0) ?s1 = Some (AxIdle, ?s1\<lparr>ax_errs := (ax_errs ?s1)(r := Some e)\<rparr>)"
    by (simp add: same assms(10) block_work_def go_simps)
  from ax_step.work [OF _ _ this] have step2: "ax_step pe ae chain ?s1 ?s2" by (simp add: same assms(10))
  have "ax_inv ae chain ?s2" using ax_step_inv [OF assms(1,2) ax_step_inv [OF assms(1-3) step1] step2] .
  moreover have "n \<notin> ax_numbers ?s2" using assms(11) by (auto simp: ax_numbers_def same assms(10))
  ultimately have lost: "ax_lost ae chain n ?s2" using assms(12,13) fin by (simp add: ax_lost_def)
  have "ax_lost ae chain n t" if "(\<lambda>a b. ax_step pe ae chain a b \<and> (\<forall>e. ax_mode a \<noteq> Stopped e))\<^sup>*\<^sup>* ?s2 t" for t
    using that lost by (induction rule: rtranclp_induct) (auto intro: ax_lost_step [OF assms(1,2)])
  with step1 step2 same(1) show ?thesis by (intro exI [of _ ?s1] exI [of _ ?s2]) (auto simp: ax_lost_def)
qed

text \<open>A chain of empty blocks, one trace in each.\<close>

definition sample_ax :: ax_env where
  "sample_ax = \<lparr>ae_lib = sample_lib, ae_cl = sample_cvmlib,
     ae_jl = \<lparr>json_MarshalTrace = (\<lambda>_. Inr [1]), json_MarshalLog = (\<lambda>_. Inr [2])\<rparr>, ae_sess = ideal, ae_p = NewProducerAXChain 1 ''x''\<rparr>"

definition sample_chain :: "int \<Rightarrow> BlockContainer" where
  "sample_chain n = \<lparr>BC_Block = \<lparr>Eth_Version = 0, Eth_ExtData = Some [], Eth_Header = Some (zero_Header\<lparr>Header_Number := n\<rparr>),
       Eth_Transactions = [], Eth_Hash = ''h''\<rparr>,
     BC_Traces = [\<lparr>Trace_Hash = ''0x1'', Trace_Idx = 0, Trace_Trace = [3]\<rparr>], BC_Logs = []\<rparr>"

lemma sample_ax_sess: "sql_session (ae_sess sample_ax)"
  using ideal.sql_session_axioms by (simp add: sample_ax_def)

definition sample_ax_state :: ax_state where
  "sample_ax_state = \<lparr>ax_pool = pool_start sample_node {}, ax_block = 0, ax_queue = [], ax_errs = (\<lambda>_. None), ax_next = 2,
     ax_mode = Draining 1, ax_workers = [AxBusy 0 1], ax_catchup = ([], None)\<rparr>"

lemma sample_pool_empty: "tabs (pool_db (pool_start sample_node {})) t = []"
  by (simp add: pool_start_def sample_node_def empty_db_def)

theorem ax_inflight_error_lost_witness:
  "\<exists>s1 s2. ax_step sample_pe sample_ax sample_chain sample_ax_state s1 \<and> ax_mode s1 = Asking
    \<and> ax_step sample_pe sample_ax sample_chain s1 s2 \<and> ax_errs s2 1 = Some EOF"
proof -
  have "ax_inv sample_ax sample_chain sample_ax_state"
    using sample_start_inv by (auto simp: ax_inv_def blocks_ok_def sample_ax_state_def blocks_typed_def recorded_def sample_pool_empty ax_numbers_def)
  from ax_inflight_error_lost [OF sample_pe_ok sample_ax_sess this, of 1 0 "[]" EOF]
  show ?thesis by (auto simp: sample_ax_state_def recorded_def sample_pool_empty)
qed

abbreviation gap_row :: "int \<Rightarrow> row" where
  "gap_row n \<equiv> new_row TableCvmBlocks (CvmBlocks_cols \<lparr>CvmBlocks_Block = Itoa n, CvmBlocks_CreatedAt = 0\<rparr>)"

definition sample_gap :: pool where
  "sample_gap = pool_start (sample_node\<lparr>node_db := \<lparr>tabs = (\<lambda>_. [])(TableCvmBlocks := [gap_row 0, gap_row 2]), ticks = 0\<rparr>\<rparr>) {}"

definition sample_load :: "int \<Rightarrow> int \<Rightarrow> go_error + string list" where
  "sample_load lo hi = Inr (map Itoa (filter (\<lambda>n. lo \<le> n \<and> n < hi) [0, 2]))"

lemma gap_row_block: "gap_row n ''block'' = Some (VRaw (Itoa n))"
  by (simp add: CvmBlocks_cols_def dao_simps)

theorem ax_catchup_exact_witness:
  "\<exists>s. ax_start sample_ax sample_load sample_gap = Inr s \<and> ax_catchup s = ([1], None)"
proof -
  have tab: "tabs (pool_db sample_gap) = (\<lambda>_. [])(TableCvmBlocks := [gap_row 0, gap_row 2])" by (simp add: sample_gap_def pool_start_def)
  have inv: "pool_inv sample_gap" unfolding sample_gap_def
    by (rule pool_start_inv) (auto simp: tables_ok_def keys_ok_def block_conflict gap_row_block Itoa_inj pool_tables)
  have typed: "blocks_typed (tabs (pool_db sample_gap))" by (auto simp: blocks_typed_def tab gap_row_block Itoa_inj)
  have R: "recorded (tabs (pool_db sample_gap)) = {0, 2}" by (auto simp: recorded_def tab gap_row_block Itoa_inj)
  have load: "loads (recorded (tabs (pool_db sample_gap))) sample_load" by (auto simp: loads_def sample_load_def R)
  have "getBlock (ae_sess sample_ax) sample_gap = (Inr (2, 2), set_db (tick (pool_db sample_gap)) sample_gap)"
    using tab by (simp add: getBlock_def on_db_def sample_ax_def mysql_def sql_select_def matches_def block_number_def gap_row_block SetString_Itoa)
  then obtain s where s: "ax_start sample_ax sample_load sample_gap = Inr s" "ax_block s = 2" by (simp add: ax_start_def)
  from ax_catchup_exact [OF sample_ax_sess inv typed load s(1)] s show ?thesis by (auto simp: R upto.simps)
qed

lemma sample_UpdateTxPool: "\<exists>s'. UpdateTxPool ideal row s = (Inr (), s')"
proof -
  have "fst (exec_insert ideal TableTxPool TableTxPool (TxPool_cols row) (pool_db s)) = Inr ()"
    by (simp add: exec_insert_def exec_stmt_def mysql_def split: option.splits)
  then show ?thesis by (cases "exec_insert ideal TableTxPool TableTxPool (TxPool_cols row) (pool_db s)") (simp add: UpdateTxPool_def InsertTxPool_def)
qed

lemma sample_store_row: "row = Inr v \<Longrightarrow> \<exists>s'. store_row ideal row s = (Inr (), s')"
  using sample_UpdateTxPool by (simp add: store_row_def go_simps)

lemma sample_block_work:
  "\<exists>s'. block_work sample_lib sample_cvmlib (ae_jl sample_ax) ideal (ae_p sample_ax) (\<lambda>n. Inr (sample_chain n)) now n s = (Inr (), s')"
proof -
  obtain v w where v: "trace_row sample_lib (ae_jl sample_ax) (ae_p sample_ax) now \<lparr>Trace_Hash = ''0x1'', Trace_Idx = 0, Trace_Trace = [3]\<rparr> = Inr v"
    and w: "block_row sample_lib sample_cvmlib (ae_p sample_ax) now (modelsc_New (BC_Block (sample_chain n))) = Inr w"
    by (simp add: trace_row_def block_row_def work_row_def sample_ax_def sample_lib_def sample_cvmlib_def TxPool_ComputeID_def Let_def)
  obtain s1 where s1: "store_row ideal (trace_row sample_lib (ae_jl sample_ax) (ae_p sample_ax) now \<lparr>Trace_Hash = ''0x1'', Trace_Idx = 0, Trace_Trace = [3]\<rparr>) s = (Inr (), s1)"
    using sample_store_row [OF v] by blast
  obtain s2 where s2: "store_row ideal (block_row sample_lib sample_cvmlib (ae_p sample_ax) now (modelsc_New (BC_Block (sample_chain n)))) s1 = (Inr (), s2)"
    using sample_store_row [OF w] by blast
  have w: "processWork sample_lib sample_cvmlib (ae_jl sample_ax) ideal (ae_p sample_ax) (sample_chain n) now s = (Inr (), s2)"
    using s1 s2 by (simp add: processWork_def go_simps sample_chain_def)
  have "fst (exec_insert ideal TableCvmBlocks TableCvmBlocks (CvmBlocks_cols v) d) = Inr ()" for v d
    by (simp add: exec_insert_def exec_stmt_def mysql_def split: option.splits)
  then have "\<exists>s3. updateBlock ideal n now s2 = (Inr (), s3)"
    by (metis (no_types, lifting) InsertCvmBlocks_def case_prod_conv on_db_def persist_exec.simps prod.collapse updateBlock_def)
  with w show ?thesis by (auto simp: block_work_def go_simps count_metric_def)
qed

theorem ax_recorded_in_pool_witness:
  "\<exists>s0 s. ax_start sample_ax sample_load (pool_start sample_node {}) = Inr s0 \<and> (ax_step sample_pe sample_ax sample_chain)\<^sup>*\<^sup>* s0 s
    \<and> 0 \<in> recorded (tabs (ax_db s)) \<and> block_stored sample_ax (sample_chain 0) (table_ids (tabs (ax_db s)))"
proof -
  have ok: "blocks_ok sample_ax sample_chain (pool_start sample_node {})"
    using sample_start_inv by (simp add: blocks_ok_def blocks_typed_def recorded_def sample_pool_empty)
  have "getBlock (ae_sess sample_ax) (pool_start sample_node {}) = (Inr (-1, 0), set_db (tick (pool_db (pool_start sample_node {}))) (pool_start sample_node {}))"
    by (simp add: getBlock_def on_db_def sample_ax_def mysql_def sql_select_def sample_pool_empty)
  then obtain s0 where s0: "ax_start sample_ax sample_load (pool_start sample_node {}) = Inr s0" "ax_block s0 = -1" "ax_queue s0 = []"
    "ax_errs s0 = (\<lambda>_. None)" "ax_mode s0 = Asking" "ax_workers s0 = replicate maxWorkers AxIdle" by (simp add: ax_start_def)
  let ?step = "ax_step sample_pe sample_ax sample_chain"
  define s1 where "s1 = s0\<lparr>ax_mode := Dispatching 0 (ax_next s0), ax_next := Suc (ax_next s0)\<rparr>"
  define s2 where "s2 = s1\<lparr>ax_queue := [(0, ax_next s0)], ax_block := 0\<rparr>"
  define s3 where "s3 = s2\<lparr>ax_queue := [], ax_workers := (ax_workers s2)[0 := AxGot 0 (ax_next s0)]\<rparr>"
  define s4 where "s4 = s3\<lparr>ax_workers := (ax_workers s3)[0 := AxBusy 0 (ax_next s0)]\<rparr>"
  obtain p where p: "block_work sample_lib sample_cvmlib (ae_jl sample_ax) ideal (ae_p sample_ax) (\<lambda>n. Inr (sample_chain n)) 0 0 (ax_pool s4) = (Inr (), p)"
    using sample_block_work by blast
  define s5 where "s5 = s4\<lparr>ax_pool := p, ax_workers := (ax_workers s4)[0 := AxIdle]\<rparr>"
  have r1: "?step s0 s1" by (rule ax_step.main [where latest = "Inr 0"]) (simp add: s1_def s0)
  have r2: "?step s1 s2" by (rule ax_step.main [where latest = "Inr 0"]) (simp add: s1_def s2_def s0 maxWorkerQueue_def)
  have work: "?step a (b\<lparr>ax_workers := (ax_workers a)[0 := w]\<rparr>)"
    if "0 < length (ax_workers a)" "ax_work sample_ax (\<lambda>n. Inr (sample_chain n)) 0 (ax_workers a ! 0) a = Some (w, b)" for a b w
    using that by (intro ax_step.work [where read = "\<lambda>n. Inr (sample_chain n)"]) auto
  have w: "0 < length (ax_workers s0)" by (simp add: s0 maxWorkers_def)
  have r3: "?step s2 s3" using work [of s2 "AxGot 0 (ax_next s0)" "s2\<lparr>ax_queue := []\<rparr>"] w by (simp add: s3_def s2_def s1_def s0)
  have r4: "?step s3 s4" using work [of s3 "AxBusy 0 (ax_next s0)" s3] w by (simp add: s4_def s3_def s2_def s1_def s0(4))
  have r5: "?step s4 s5" using work [of s4 AxIdle "s4\<lparr>ax_pool := p\<rparr>"] w p by (simp add: s5_def s4_def s3_def s2_def s1_def sample_ax_def)
  have run: "?step\<^sup>*\<^sup>* s0 s5" using r1 r2 r3 r4 r5 by (meson converse_rtranclp_into_rtranclp rtranclp.rtrancl_refl)
  have "ax_pool s4 = ax_pool s0" by (simp add: s4_def s3_def s2_def s1_def)
  with ax_start_inv(1) [OF sample_ax_sess ok s0(1)] have ok4: "blocks_ok sample_ax sample_chain (ax_pool s4)" by (simp add: ax_inv_def)
  have "block_work (ae_lib sample_ax) (ae_cl sample_ax) (ae_jl sample_ax) (ae_sess sample_ax) (ae_p sample_ax) (\<lambda>n. Inr (sample_chain n)) 0 0 (ax_pool s4) = (Inr (), p)"
    using p by (simp add: sample_ax_def)
  from block_work_ok(3) [OF sample_ax_sess ok4 _ _ this refl] have rec: "0 \<in> recorded (tabs (ax_db s5))" by (simp add: s5_def)
  from ax_recorded_in_pool [OF sample_pe_ok sample_ax_sess sample_start_inv sample_pool_empty s0(1) run rec] s0(1) run rec show ?thesis by blast
qed

end
