(* ===== verification/Balance.thy ===== *)
theory Balance
  imports DbProps
begin

text \<open>
  The accumulation of balances, \<open>src/balance/balance_manager.go\<close>. Rows of three work tables are
  turned, each once, into counts and sums per chain, asset and address. Rows are taken in
  batches; a batch is one transaction that first locks the rows that are still pending.
\<close>

section \<open>Constants and tables\<close>

definition RowLimitValue :: nat where
  "RowLimitValue = 5000"

definition LockSize :: nat where
  "LockSize = 5"

type_synonym processType = u32

definition processTypeIn :: processType where "processTypeIn = 1"
definition processTypeOut :: processType where "processTypeOut = 2"

definition outTable :: "processType \<Rightarrow> string" where
  "outTable typ = (if typ = processTypeOut then TableOutputAddressAccumulateOut
     else if typ = processTypeIn then TableOutputAddressAccumulateIn else [])"

definition balanceTable :: "processType \<Rightarrow> string" where
  "balanceTable typ = (if typ = processTypeOut then TableAccumulateBalancesReceived
     else if typ = processTypeIn then TableAccumulateBalancesSent else [])"

section \<open>Loops and transactions\<close>

partial_function (option) RepeatForLock :: "('s \<Rightarrow> (go_error + unit) \<times> 's) \<Rightarrow> 's \<Rightarrow> ((go_error + unit) \<times> 's) option" where
  "RepeatForLock f s =
     (case f s of
        (Inr u, s') \<Rightarrow> Some (Inr (), s')
      | (Inl err, s') \<Rightarrow> if ErrIsLockError (Some err) then RepeatForLock f s' else Some (Inl err, s'))"

definition load_rows :: "session \<Rightarrow> string \<Rightarrow> cond list \<Rightarrow> (dbstate, row list) go" where
  "load_rows sess t cs = sess_load sess t cs"

text \<open>\<open>Begin\<close>, the body, and \<open>Commit\<close> unless the body returns early; what is not committed is rolled back.\<close>

definition with_tx_if :: "session \<Rightarrow> (dbstate, bool) go \<Rightarrow> (dbstate, unit) go" where
  "with_tx_if sess body = (\<lambda>d.
     case sess_begin sess d of
       (Some e, d1) \<Rightarrow> (Inl e, d1)
     | (None, d1) \<Rightarrow>
         (case body d1 of
            (Inl e, d2) \<Rightarrow> (Inl e, d2\<lparr>tabs := tabs d1\<rparr>)
          | (Inr False, d2) \<Rightarrow> (Inr (), d2\<lparr>tabs := tabs d1\<rparr>)
          | (Inr True, d2) \<Rightarrow>
              (case sess_commit sess d2 of
                 (Some e, d3) \<Rightarrow> (Inl e, d3\<lparr>tabs := tabs d1\<rparr>)
               | (None, d3) \<Rightarrow> (Inr (), d3))))"

text \<open>A statement that is executed directly: its error is returned as it is.\<close>

abbreviation exec_raw :: "session \<Rightarrow> stmt \<Rightarrow> (dbstate, unit) go" where
  "exec_raw sess s \<equiv> exec_stmt sess False (\<lambda>e. e) s"

definition lock_balance :: "session \<Rightarrow> string \<Rightarrow> string \<Rightarrow> (dbstate, unit) go" where
  "lock_balance sess t i =
     go_bind (load_rows sess t [Eq ''id'' (VS i)]) (\<lambda>rs.
       case rs of
         [] \<Rightarrow> go_raise (ErrorString ''balancesLocked failed'')
       | r # _ \<Rightarrow> if getS r ''id'' \<noteq> i then go_raise (ErrorString ''balancesLocked failed'') else go_return ())"

definition nil_pointer :: go_error where
  "nil_pointer = ErrorString ''runtime error: invalid memory address or nil pointer dereference''"

section \<open>Transactions\<close>

definition processTransactionsBase :: "extlib \<Rightarrow> session \<Rightarrow> gotime \<Rightarrow> OutputTxsAccumulate \<Rightarrow> (dbstate, unit) go" where
  "processTransactionsBase lib sess now row =
     go_then (exec_raw sess (UpdateSet TableOutputTxsAccumulate [(''processed'', VI 1)] [Eq ''id'' (VS (OutputTxsAccumulate_ID row))]))
       (go_bind (go_lift (AccumulateBalancesTransactions_ComputeID lib
            (zero_AccumulateBalancesTransactions\<lparr>AccumulateBalancesTransactions_ChainID := OutputTxsAccumulate_ChainID row,
               AccumulateBalancesTransactions_AssetID := OutputTxsAccumulate_AssetID row,
               AccumulateBalancesTransactions_Address := OutputTxsAccumulate_Address row,
               AccumulateBalancesTransactions_UpdatedAt := time_Unix 1 0\<rparr>))) (\<lambda>b.
          go_then (persist_exec sess (PInsertAccumulateBalancesTransactions b))
            (go_then (lock_balance sess TableAccumulateBalancesTransactions (AccumulateBalancesTransactions_ID b))
              (exec_raw sess (UpdateAdd TableAccumulateBalancesTransactions [(''transaction_count'', 1)] [(''updated_at'', VT now)]
                 [Eq ''id'' (VS (AccumulateBalancesTransactions_ID b))])))))"

text \<open>The rows of a batch are kept in a map from their identifiers.\<close>

definition process_locked :: "session \<Rightarrow> string \<Rightarrow> (string \<rightharpoonup> 'r) \<Rightarrow> string list \<Rightarrow> ('r \<Rightarrow> (dbstate, unit) go) \<Rightarrow> (dbstate, unit) go" where
  "process_locked sess tbl workRows workRowsID base =
     with_tx_if sess
       (go_bind (load_rows sess tbl [Eq ''processed'' (VI 0), In ''id'' (map VS workRowsID)]) (\<lambda>rowdata.
          if rowdata = [] then go_return False
          else go_then (go_for (\<lambda>r. case workRows (getS r ''id'') of None \<Rightarrow> go_raise nil_pointer | Some row \<Rightarrow> base row) rowdata)
                 (go_return True)))"

definition processTransactionsPost :: "extlib \<Rightarrow> session \<Rightarrow> gotime \<Rightarrow> (string \<rightharpoonup> OutputTxsAccumulate) \<Rightarrow> string list \<Rightarrow> (dbstate, unit) go" where
  "processTransactionsPost lib sess now workRows workRowsID =
     process_locked sess TableOutputTxsAccumulate workRows workRowsID (processTransactionsBase lib sess now)"

definition processTransactionsPre :: "session \<Rightarrow> (OutputTxsAccumulate list \<Rightarrow> OutputTxsAccumulate list) \<Rightarrow> (dbstate, OutputTxsAccumulate list) go" where
  "processTransactionsPre sess shuffle =
     go_bind (load_rows sess TableOutputTxsAccumulate [Eq ''processed'' (VI 0)]) (\<lambda>rs.
       go_return (shuffle (map row_of_OutputTxsAccumulate (take RowLimitValue (sort_key (\<lambda>r. getT r ''created_at'') rs)))))"

text \<open>The loop over the rows that were read; \<open>post\<close> is one batch with its retries.\<close>

fun batch_loop :: "('r \<Rightarrow> string) \<Rightarrow> ((string \<rightharpoonup> 'r) \<Rightarrow> string list \<Rightarrow> 's \<Rightarrow> ((go_error + unit) \<times> 's) option) \<Rightarrow> 'r list
    \<Rightarrow> (string \<rightharpoonup> 'r) \<Rightarrow> string list \<Rightarrow> 's \<Rightarrow> ((go_error + unit) \<times> 's) option" where
  "batch_loop key post [] trows trowsID s = (if trowsID \<noteq> [] then post trows trowsID s else Some (Inr (), s))"
| "batch_loop key post (row # rows) trows trowsID s =
     (let trows = trows(key row \<mapsto> row); trowsID = trowsID @ [key row] in
      if length trowsID > LockSize then
        (case post trows trowsID s of
           None \<Rightarrow> None
         | Some (Inl err, s') \<Rightarrow> Some (Inl err, s')
         | Some (Inr _, s') \<Rightarrow> batch_loop key post rows Map.empty [] s')
      else batch_loop key post rows trows trowsID s)"

definition processTransactions :: "extlib \<Rightarrow> session \<Rightarrow> gotime \<Rightarrow> (OutputTxsAccumulate list \<Rightarrow> OutputTxsAccumulate list) \<Rightarrow> dbstate
    \<Rightarrow> ((go_error + nat) \<times> dbstate) option" where
  "processTransactions lib sess now shuffle d =
     (case processTransactionsPre sess shuffle d of
        (Inl err, d') \<Rightarrow> Some (Inl err, d')
      | (Inr rowdataAvail, d') \<Rightarrow>
          map_option (\<lambda>(r, d''). (map_sum id (\<lambda>_. length rowdataAvail) r, d''))
            (batch_loop OutputTxsAccumulate_ID (\<lambda>trows trowsID. RepeatForLock (processTransactionsPost lib sess now trows trowsID))
               rowdataAvail Map.empty [] d'))"

section \<open>Outputs\<close>

text \<open>The query of \<open>processOutputsBase\<close>: the amounts of an output that belong to an address, grouped by chain,
  address and asset. A join is computed from the rows of its tables.\<close>

definition group_balances :: "row list \<Rightarrow> row list \<Rightarrow> (AccumulateBalancesAmount \<times> int) list" where
  "group_balances outs addrs =
     (let joined = concat (map (\<lambda>x. map (\<lambda>a. ((getS x ''chain_id'', getS a ''address'', getS x ''asset_id''), getI x ''amount'')) addrs) outs)
      in map (\<lambda>k. case k of (chain, addr, asset) \<Rightarrow>
           let total = sum_list (map snd (filter (\<lambda>e. fst e = k) joined)) in
           (zero_AccumulateBalancesAmount\<lparr>AccumulateBalancesAmount_ChainID := chain, AccumulateBalancesAmount_Address := addr,
              AccumulateBalancesAmount_AssetID := asset, AccumulateBalancesAmount_TotalAmount := Itoa total\<rparr>, total))
           (remdups (map fst joined)))"

definition load_balances :: "session \<Rightarrow> string \<Rightarrow> string \<Rightarrow> (dbstate, (AccumulateBalancesAmount \<times> int) list) go" where
  "load_balances sess outputID address =
     go_bind (load_rows sess TableOutputs [Eq ''id'' (VS outputID)]) (\<lambda>outs.
       go_bind (load_rows sess TableOutputAddresses [Eq ''output_id'' (VS outputID), Eq ''address'' (VS address)]) (\<lambda>addrs.
         go_return (group_balances outs addrs)))"

definition insert_balance :: "session \<Rightarrow> processType \<Rightarrow> AccumulateBalancesAmount \<Rightarrow> (dbstate, unit) go" where
  "insert_balance sess typ b =
     (if typ = processTypeOut then persist_exec sess (PInsertAccumulateBalancesReceived b)
      else if typ = processTypeIn then persist_exec sess (PInsertAccumulateBalancesSent b) else go_return ())"

definition add_balance :: "extlib \<Rightarrow> session \<Rightarrow> processType \<Rightarrow> gotime \<Rightarrow> string \<Rightarrow> AccumulateBalancesAmount \<times> int \<Rightarrow> (dbstate, unit) go" where
  "add_balance lib sess typ now transactionID = (\<lambda>(b, total).
     go_bind (go_lift (OutputTxsAccumulate_ComputeID lib
         (zero_OutputTxsAccumulate\<lparr>OutputTxsAccumulate_ChainID := AccumulateBalancesAmount_ChainID b,
            OutputTxsAccumulate_AssetID := AccumulateBalancesAmount_AssetID b, OutputTxsAccumulate_Address := AccumulateBalancesAmount_Address b,
            OutputTxsAccumulate_TransactionID := transactionID, OutputTxsAccumulate_CreatedAt := now\<rparr>))) (\<lambda>outputsTxsAccumulate.
       go_then (persist_exec sess (PInsertOutputTxsAccumulate outputsTxsAccumulate))
         (go_bind (go_lift (AccumulateBalancesAmount_ComputeID lib (b\<lparr>AccumulateBalancesAmount_UpdatedAt := time_Unix 1 0\<rparr>))) (\<lambda>b.
           go_then (insert_balance sess typ b)
             (go_then (lock_balance sess (balanceTable typ) (AccumulateBalancesAmount_ID b))
               (exec_raw sess (UpdateAdd (balanceTable typ) [(''utxo_count'', 1), (''total_amount'', total)] [(''updated_at'', VT now)]
                  [Eq ''id'' (VS (AccumulateBalancesAmount_ID b))])))))))"

definition processOutputsBase :: "extlib \<Rightarrow> session \<Rightarrow> processType \<Rightarrow> gotime \<Rightarrow> OutputAddressAccumulate \<Rightarrow> (dbstate, unit) go" where
  "processOutputsBase lib sess typ now row =
     go_then (exec_raw sess (UpdateSet (outTable typ) [(''processed'', VI 1)] [Eq ''id'' (VS (OutputAddressAccumulate_ID row))]))
       (go_bind (load_balances sess (OutputAddressAccumulate_OutputID row) (OutputAddressAccumulate_Address row)) (\<lambda>balances.
          if balances = [] then go_raise (ErrorString ''invalid balance'')
          else go_for (add_balance lib sess typ now (OutputAddressAccumulate_TransactionID row)) balances))"

definition processOutputsPost :: "extlib \<Rightarrow> session \<Rightarrow> processType \<Rightarrow> gotime \<Rightarrow> (string \<rightharpoonup> OutputAddressAccumulate) \<Rightarrow> string list \<Rightarrow> (dbstate, unit) go" where
  "processOutputsPost lib sess typ now workRows workRowsID =
     process_locked sess (outTable typ) workRows workRowsID (processOutputsBase lib sess typ now)"

text \<open>The pending rows whose output is known, and for spent outputs only those whose accumulation as
  received is done (\<open>outputProcessed\<close>) or whose redeeming is known: the inner query with its limit
  (\<open>out_page\<close>) and the outer query over it (\<open>out_rows\<close>). \<open>join_rows\<close> are the rows of a table joined to a work row.\<close>

definition join_rows :: "row list \<Rightarrow> row \<Rightarrow> row list" where
  "join_rows rows r = filter (\<lambda>x. x ''id'' = r ''output_id'' \<and> x ''id'' \<noteq> None) rows"

definition out_page :: "bool \<Rightarrow> processType \<Rightarrow> row list \<Rightarrow> row list \<Rightarrow> row list \<Rightarrow> row list" where
  "out_page outputProcessed typ outs redeemed rs =
     take RowLimitValue (sort_key (\<lambda>r. getT r ''created_at'')
       (filter (\<lambda>r. join_rows outs r \<noteq> [] \<and> (typ = processTypeIn \<and> \<not> outputProcessed \<longrightarrow> join_rows redeemed r \<noteq> [])) rs))"

definition out_rows :: "processType \<Rightarrow> row list \<Rightarrow> row list \<Rightarrow> row list \<Rightarrow> OutputAddressAccumulate list" where
  "out_rows typ outs redeemed page =
     concat (map (\<lambda>r. map (\<lambda>x.
         zero_OutputAddressAccumulate\<lparr>OutputAddressAccumulate_ID := getS r ''id'', OutputAddressAccumulate_OutputID := getS r ''output_id'',
           OutputAddressAccumulate_Address := getS r ''address'', OutputAddressAccumulate_TransactionID := getS x ''transaction_id''\<rparr>)
       (join_rows outs r)) (filter (\<lambda>r. typ = processTypeIn \<longrightarrow> join_rows redeemed r \<noteq> []) page))"

definition processOutputsPre :: "session \<Rightarrow> (OutputAddressAccumulate list \<Rightarrow> OutputAddressAccumulate list) \<Rightarrow> bool \<Rightarrow> processType
    \<Rightarrow> (dbstate, OutputAddressAccumulate list) go" where
  "processOutputsPre sess shuffle outputProcessed typ =
     go_bind (load_rows sess (outTable typ) (Eq ''processed'' (VI 0) #
         (if typ = processTypeIn \<and> outputProcessed then [Eq ''output_processed'' (VI 1)] else []))) (\<lambda>rs.
       go_bind (load_rows sess TableOutputs []) (\<lambda>outs.
         go_bind (load_rows sess TableOutputsRedeeming []) (\<lambda>redeemed.
           go_return (shuffle (out_rows typ outs redeemed (out_page outputProcessed typ outs redeemed rs))))))"

definition processOutputs :: "extlib \<Rightarrow> session \<Rightarrow> gotime \<Rightarrow> (OutputAddressAccumulate list \<Rightarrow> OutputAddressAccumulate list) \<Rightarrow> bool \<Rightarrow> processType
    \<Rightarrow> dbstate \<Rightarrow> ((go_error + nat) \<times> dbstate) option" where
  "processOutputs lib sess now shuffle outputProcessed typ d =
     (case processOutputsPre sess shuffle outputProcessed typ d of
        (Inl err, d') \<Rightarrow> Some (Inl err, d')
      | (Inr rowdataAvail, d') \<Rightarrow>
          map_option (\<lambda>(r, d''). (map_sum id (\<lambda>_. length rowdataAvail) r, d''))
            (batch_loop OutputAddressAccumulate_ID (\<lambda>trows trowsID. RepeatForLock (processOutputsPost lib sess typ now trows trowsID))
               rowdataAvail Map.empty [] d'))"

section \<open>The manager\<close>

text \<open>\<open>runEvent\<close>: since \<open>icnt\<close> is set back to 0 the bound \<open>retryProcessing\<close> is never reached.\<close>

definition retryProcessing :: nat where
  "retryProcessing = 3"

partial_function (option) runEvent :: "('s \<Rightarrow> ((go_error + nat) \<times> 's) option) \<Rightarrow> nat \<Rightarrow> 's \<Rightarrow> 's option" where
  "runEvent f icnt s =
     (if icnt < retryProcessing then
        (case f s of
           None \<Rightarrow> None
         | Some (Inl err, s') \<Rightarrow> if ErrIsLockError (Some err) then runEvent f 1 s' else Some s'
         | Some (Inr cnt, s') \<Rightarrow> if cnt < RowLimitValue then Some s' else runEvent f 1 s')
      else Some s)"

text \<open>The loop of \<open>runTicker\<close> runs this at every tick, that of \<open>runProcessing\<close> on every signal, which it takes
  out of the channel.\<close>

definition runTicker_event :: "extlib \<Rightarrow> session \<Rightarrow> gotime \<Rightarrow> (OutputAddressAccumulate list \<Rightarrow> OutputAddressAccumulate list) \<Rightarrow> dbstate \<Rightarrow> dbstate option" where
  "runTicker_event lib sess now shuffle = runEvent (processOutputs lib sess now shuffle False processTypeIn) 0"

definition runProcessing_event :: "('s \<Rightarrow> ((go_error + nat) \<times> 's) option) \<Rightarrow> bool \<Rightarrow> 's \<Rightarrow> (bool \<times> 's) option" where
  "runProcessing_event f trigger s = (if trigger then map_option (\<lambda>s'. (False, s')) (runEvent f 0 s) else Some (trigger, s))"

text \<open>The trigger channels hold at most one signal. \<open>Exec\<close> fills all of them; \<open>Start\<close> connects the
  processing of outputs to \<open>ins\<close> and that of inputs to \<open>outs\<close>. A processing that runs is listed with its
  name, what it processes and the channel it listens to; \<open>database\<close> is the outcome of the connections.\<close>

record managerChannels =
  chan_ins :: bool
  chan_outs :: bool
  chan_txs :: bool

datatype trigger = TriggerIns | TriggerOuts | TriggerTxs

datatype processing = ProcOutputs bool processType | ProcTransactions

record Manager =
  mgr_channels :: "managerChannels list"
  mgr_enabled :: bool
  mgr_ticker :: bool
  mgr_processing :: "(string \<times> processing \<times> nat \<times> trigger) list"

definition newManagerChannels :: managerChannels where
  "newManagerChannels = \<lparr>chan_ins = False, chan_outs = False, chan_txs = False\<rparr>"

definition NewManager :: Manager where
  "NewManager = \<lparr>mgr_channels = [], mgr_enabled = False, mgr_ticker = False, mgr_processing = []\<rparr>"

definition runProcessing :: "string \<Rightarrow> processing \<Rightarrow> nat \<Rightarrow> trigger \<Rightarrow> Manager \<Rightarrow> Manager" where
  "runProcessing i f chans t a = a\<lparr>mgr_processing := mgr_processing a @ [(i, f, chans, t)]\<rparr>"

definition processingFunc :: "(nat \<Rightarrow> go_error option) \<Rightarrow> nat \<Rightarrow> nat \<Rightarrow> Manager \<Rightarrow> (go_error option) \<times> Manager" where
  "processingFunc database ipos chans a =
     (let sid = Itoa (int ipos) in
      case database (3 * ipos + 1) of
        Some err \<Rightarrow> (Some err, a)
      | None \<Rightarrow>
          (let a = runProcessing (''out_'' @ sid) (ProcOutputs True processTypeOut) chans TriggerIns a in
           case database (3 * ipos + 2) of
             Some err \<Rightarrow> (Some err, a)
           | None \<Rightarrow>
               (let a = runProcessing (''in_'' @ sid) (ProcOutputs True processTypeIn) chans TriggerOuts a in
                case database (3 * ipos + 3) of
                  Some err \<Rightarrow> (Some err, a)
                | None \<Rightarrow> (None, runProcessing (''tx_'' @ sid) ProcTransactions chans TriggerTxs a))))"

fun start_loop :: "(nat \<Rightarrow> go_error option) \<Rightarrow> nat list \<Rightarrow> Manager \<Rightarrow> (go_error option) \<times> Manager" where
  "start_loop database [] a = (None, a)"
| "start_loop database (ipos # rest) a =
     (let a = a\<lparr>mgr_channels := mgr_channels a @ [newManagerChannels]\<rparr> in
      case processingFunc database ipos (length (mgr_channels a) - 1) a of
        (Some err, a) \<Rightarrow> (Some err, a)
      | (None, a) \<Rightarrow> start_loop database rest a)"

definition Manager_Start :: "(nat \<Rightarrow> go_error option) \<Rightarrow> bool \<Rightarrow> Manager \<Rightarrow> (go_error option) \<times> Manager" where
  "Manager_Start database enabled a =
     (let a = a\<lparr>mgr_enabled := enabled\<rparr> in
      if \<not> enabled then (None, a)
      else (case database 0 of
              Some err \<Rightarrow> (Some err, a)
            | None \<Rightarrow> start_loop database [0, 1] (a\<lparr>mgr_ticker := True\<rparr>)))"

definition Manager_Exec :: "Manager \<Rightarrow> Manager" where
  "Manager_Exec a =
     (if mgr_enabled a then a\<lparr>mgr_channels := map (\<lambda>_. \<lparr>chan_ins = True, chan_outs = True, chan_txs = True\<rparr>) (mgr_channels a)\<rparr> else a)"

section \<open>One batch and a whole pass, for any work table\<close>

definition pending :: "row \<Rightarrow> bool" where
  "pending r \<longleftrightarrow> r ''processed'' = Some (VI 0)"

definition id_in :: "string set \<Rightarrow> row \<Rightarrow> bool" where
  "id_in A r \<longleftrightarrow> (\<exists>k \<in> A. r ''id'' = Some (VS k))"

definition marked :: "string set \<Rightarrow> row list \<Rightarrow> row list" where
  "marked A rows = map (\<lambda>r. if id_in A r then r(''processed'' \<mapsto> VI 1) else r) rows"

lemma id_in_processed [simp]: "id_in A (r(''processed'' \<mapsto> x)) = id_in A r"
  by (simp add: id_in_def)

lemma id_in_Un: "id_in (A \<union> B) r \<longleftrightarrow> id_in A r \<or> id_in B r"
  by (auto simp: id_in_def)

lemma marked_empty [simp]: "marked {} rows = rows"
  by (simp add: marked_def id_in_def)

lemma marked_marked [simp]: "marked A (marked B rows) = marked (A \<union> B) rows"
  by (auto simp: marked_def id_in_Un)

lemma marked_ids [simp]: "map (\<lambda>r. r ''id'') (marked A rows) = map (\<lambda>r. r ''id'') rows"
  by (simp add: marked_def)

lemma marked_cong:
  "(\<And>r. r \<in> set rows \<Longrightarrow> id_in A r \<noteq> id_in B r \<Longrightarrow> r ''processed'' = Some (VI 1)) \<Longrightarrow> marked A rows = marked B rows"
  unfolding marked_def by (rule map_cong) (auto simp: fun_upd_idem_iff)

lemma marked_keeps:
  assumes "\<forall>r \<in> set rs. r ''id'' \<noteq> Some (VS k)" "set rs \<subseteq> set rows"
  shows "set rs \<subseteq> set (marked {k} rows)"
proof
  fix r assume "r \<in> set rs"
  with assms have "r = (if id_in {k} r then r(''processed'' \<mapsto> VI 1) else r)" "r \<in> set rows" by (auto simp: id_in_def)
  then show "r \<in> set (marked {k} rows)" unfolding marked_def set_map by (intro rev_image_eqI)
qed

lemma exec_raw_ok:
  assumes "sql_session sess" "exec_raw sess s d = (Inr u, d')"
  shows "sql_apply s (tabs d) = Some (tabs d')"
proof -
  from assms(2) have "sess_run sess s d = (None, d')"
    by (auto simp: exec_stmt_def split: prod.splits option.splits)
  with sql_session.run_ok [OF assms(1)] show ?thesis .
qed

lemma with_tx_if_cases:
  assumes "sql_session sess" "with_tx_if sess body d = (r, d')"
  obtains (kept) "tabs d' = tabs d" "r = Inr () \<longrightarrow> (\<exists>d1 d2. tabs d1 = tabs d \<and> body d1 = (Inr False, d2))"
  | (committed) d1 d2 where "r = Inr ()" "tabs d1 = tabs d" "body d1 = (Inr True, d2)" "tabs d' = tabs d2"
proof -
  have b: "tabs (snd (sess_begin sess d)) = tabs d" by (rule sql_session.begin_tabs [OF assms(1)])
  have c: "tabs (snd (sess_commit sess d2)) = tabs d2" for d2 by (rule sql_session.commit_tabs [OF assms(1)])
  show ?thesis
  proof (cases "sess_begin sess d")
    case (Pair e d1)
    then have t: "tabs d1 = tabs d" using b by simp
    show ?thesis
    proof (cases e)
      case (Some e)
      with Pair assms(2) t show ?thesis by (intro kept) (auto simp: with_tx_if_def)
    next
      case None
      show ?thesis
      proof (cases "fst (body d1) = Inr True \<and> fst (sess_commit sess (snd (body d1))) = None")
        case True
        then show ?thesis using Pair None assms(2) t c [of "snd (body d1)"]
          by (intro committed [of d1 "snd (body d1)"]) (auto simp: with_tx_if_def split: prod.splits)
      next
        case False
        then show ?thesis using Pair None assms(2) t
          by (intro kept) (auto simp: with_tx_if_def split: prod.splits sum.splits bool.splits option.splits)
      qed
    qed
  qed
qed

lemma locked_body:
  assumes "go_bind m (\<lambda>rs. if rs = [] then go_return False else go_then (f rs) (go_return True)) d = (Inr b, d')"
  shows "\<exists>rs d1. m d = (Inr rs, d1) \<and> b = (rs \<noteq> []) \<and> (if rs = [] then d' = d1 else f rs d1 = (Inr (), d'))"
  using assms by (auto simp: go_simps split: prod.splits sum.splits if_splits)

lemma RepeatForLock_cases:
  assumes "RepeatForLock f d = Some (r, d')"
    and undone: "\<forall>d e d'. f d = (Inl e, d') \<longrightarrow> tabs d' = tabs d"
  shows "case r of Inl e \<Rightarrow> tabs d' = tabs d | Inr u \<Rightarrow> \<exists>d1. tabs d1 = tabs d \<and> f d1 = (Inr (), d')"
proof -
  let ?Q = "\<lambda>d out. case fst out of Inl e \<Rightarrow> tabs (snd out) = tabs d | Inr u \<Rightarrow> \<exists>d1. tabs d1 = tabs d \<and> f d1 = (Inr (), snd out)"
  have "f = f \<longrightarrow> ?Q d (r, d')"
  proof (rule RepeatForLock.raw_induct [where P = "\<lambda>g d out. g = f \<longrightarrow> ?Q d out", OF _ assms(1)], intro impI)
    fix rec g d out
    assume IH: "\<And>g d out. rec g d = Some out \<Longrightarrow> g = f \<longrightarrow> ?Q d out"
      and run: "(case g d of (Inr u, s') \<Rightarrow> Some (Inr (), s')
        | (Inl err, s') \<Rightarrow> if ErrIsLockError (Some err) then rec g s' else Some (Inl err, s')) = Some out"
      and g: "g = f"
    show "?Q d out"
    proof (cases "f d")
      case (Pair q d1)
      show ?thesis
      proof (cases q)
        case (Inl e)
        with Pair have "tabs d1 = tabs d" using undone by blast
        moreover have "if ErrIsLockError (Some e) then ?Q d1 out else out = (Inl e, d1)"
          using Pair Inl run g IH [of f d1 out] by (auto split: if_splits)
        ultimately show ?thesis by (auto split: if_splits sum.splits)
      next
        case (Inr u)
        with Pair run g have "out = (Inr (), d1)" by simp
        with Pair Inr show ?thesis by auto
      qed
    qed
  qed
  then show ?thesis by (auto split: sum.splits)
qed

text \<open>
  What a work table offers: every row has an identifier of its own and is pending or done
  (\<open>I\<close> implies it), and processing one pending row keeps \<open>I\<close> and marks that row, provided the
  value that was read earlier still \<open>agrees\<close> with it.
\<close>

locale accumulator =
  fixes wt :: string
    and keyv :: "'r \<Rightarrow> string"
    and base :: "session \<Rightarrow> 'r \<Rightarrow> (dbstate, unit) go"
    and agrees :: "'r \<Rightarrow> row \<Rightarrow> bool"
    and I :: "tables \<Rightarrow> bool"
  assumes I_row: "I T \<Longrightarrow> r \<in> set (T wt) \<Longrightarrow> (\<exists>k. r ''id'' = Some (VS k)) \<and> (pending r \<or> r ''processed'' = Some (VI 1))"
    and I_ids: "I T \<Longrightarrow> distinct (map (\<lambda>r. r ''id'') (T wt))"
    and agrees_processed: "agrees v (r(''processed'' \<mapsto> x)) = agrees v r"
    and base_ok: "sql_session sess \<Longrightarrow> base sess v d = (Inr u, d') \<Longrightarrow> I (tabs d) \<Longrightarrow> r \<in> set (tabs d wt) \<Longrightarrow> pending r
      \<Longrightarrow> r ''id'' = Some (VS (keyv v)) \<Longrightarrow> agrees v r \<Longrightarrow> I (tabs d') \<and> tabs d' wt = marked {keyv v} (tabs d wt)"
begin

definition fits :: "'r \<Rightarrow> row list \<Rightarrow> bool" where
  "fits v rows \<longleftrightarrow> (\<forall>r \<in> set rows. r ''id'' = Some (VS (keyv v)) \<longrightarrow> agrees v r)"

definition fit_map :: "(string \<rightharpoonup> 'r) \<Rightarrow> row list \<Rightarrow> bool" where
  "fit_map w rows \<longleftrightarrow> (\<forall>k v. w k = Some v \<longrightarrow> keyv v = k \<and> fits v rows)"

lemma fits_marked [simp]: "fits v (marked A rows) = fits v rows"
  by (simp only: fits_def marked_def set_map ball_simps) (auto simp: agrees_processed)

lemma fit_map_marked [simp]: "fit_map w (marked A rows) = fit_map w rows"
  by (simp add: fit_map_def)

lemma fit_map_upd: "fit_map w rows \<Longrightarrow> fits v rows \<Longrightarrow> fit_map (w(keyv v \<mapsto> v)) rows"
  by (auto simp: fit_map_def)

lemma rows_loop:
  assumes "sql_session sess"
    and "go_for (\<lambda>r. case w (getS r ''id'') of None \<Rightarrow> go_raise nil_pointer | Some v \<Rightarrow> base sess v) rs d = (Inr u, d')"
    and "I (tabs d)" "fit_map w (tabs d wt)" "set rs \<subseteq> set (tabs d wt)" "distinct (map (\<lambda>r. r ''id'') rs)"
    and "\<forall>r \<in> set rs. pending r"
  shows "I (tabs d') \<and> tabs d' wt = marked {k. \<exists>r \<in> set rs. r ''id'' = Some (VS k)} (tabs d wt)"
  using assms(2-)
proof (induction rs arbitrary: d)
  case Nil
  then show ?case by (simp add: go_simps)
next
  case (Cons r rs)
  from Cons.prems I_row [of "tabs d" r] obtain k where k: "r ''id'' = Some (VS k)" by auto
  from Cons.prems(1) obtain d1 u' where b: "(case w (getS r ''id'') of None \<Rightarrow> go_raise nil_pointer | Some v \<Rightarrow> base sess v) d = (Inr u', d1)"
    and rest: "go_for (\<lambda>r. case w (getS r ''id'') of None \<Rightarrow> go_raise nil_pointer | Some v \<Rightarrow> base sess v) rs d1 = (Inr u, d')"
    unfolding go_for.simps by (rule go_then_Inr)
  from b k obtain v where v: "w k = Some v" and b: "base sess v d = (Inr u', d1)"
    by (auto simp: getS_def go_simps split: option.splits)
  from Cons.prems(3) v have kv: "keyv v = k" "fits v (tabs d wt)" by (auto simp: fit_map_def)
  with Cons.prems k have "agrees v r" by (auto simp: fits_def)
  with base_ok [OF assms(1) b, of r] Cons.prems k kv
  have one: "I (tabs d1)" "tabs d1 wt = marked {k} (tabs d wt)" by auto
  have "\<forall>r' \<in> set rs. r' ''id'' \<noteq> Some (VS k)" using Cons.prems(5) k by (auto simp: image_iff)
  then have "set rs \<subseteq> set (tabs d1 wt)" using marked_keeps [of rs k "tabs d wt"] one Cons.prems(4) by simp
  with Cons.IH [OF rest] one Cons.prems
  have "I (tabs d') \<and> tabs d' wt = marked {k. \<exists>r \<in> set rs. r ''id'' = Some (VS k)} (tabs d1 wt)" by auto
  moreover have "{k. \<exists>r \<in> set rs. r ''id'' = Some (VS k)} \<union> {k} = {k. \<exists>r' \<in> set (r # rs). r' ''id'' = Some (VS k)}"
    using k by auto
  ultimately show ?case using one(2) by simp
qed

lemma locked_ok:
  assumes "sql_session sess" "process_locked sess wt w ids (base sess) d = (Inr u, d')"
    and "I (tabs d)" "fit_map w (tabs d wt)"
  shows "I (tabs d') \<and> tabs d' wt = marked (set ids) (tabs d wt)"
proof -
  let ?cs = "[Eq ''processed'' (VI 0), In ''id'' (map VS ids)]"
  let ?rs = "sql_select wt ?cs (tabs d)"
  let ?loop = "go_for (\<lambda>r. case w (getS r ''id'') of None \<Rightarrow> go_raise nil_pointer | Some v \<Rightarrow> base sess v)"
  have mem: "r \<in> set ?rs \<longleftrightarrow> r \<in> set (tabs d wt) \<and> pending r \<and> id_in (set ids) r" for r
    by (auto simp: sql_select_def matches_def pending_def id_in_def split: option.splits)
  have rs: "rs = ?rs" "tabs d2 = tabs d" if "load_rows sess wt ?cs d1 = (Inr rs, d2)" "tabs d1 = tabs d" for rs d1 d2
    using that sql_session.load_ok [OF assms(1), of wt ?cs d1 rs d2] sql_session.load_tabs [OF assms(1), of wt ?cs d1]
    by (simp_all add: load_rows_def)
  have same: "marked {k. \<exists>r \<in> set ?rs. r ''id'' = Some (VS k)} (tabs d wt) = marked (set ids) (tabs d wt)"
    using I_row [OF assms(3)] by (intro marked_cong) (fastforce simp: mem id_in_def)
  from assms(1) assms(2) [unfolded process_locked_def] show ?thesis
  proof (cases rule: with_tx_if_cases)
    case kept
    then obtain d1 d2 where d1: "tabs d1 = tabs d" and
      "go_bind (load_rows sess wt ?cs) (\<lambda>rs. if rs = [] then go_return False else go_then (?loop rs) (go_return True)) d1 = (Inr False, d2)"
      by auto
    from locked_body [OF this(2)] obtain d3 where "load_rows sess wt ?cs d1 = (Inr [], d3)" by auto
    from rs [OF this d1] have "?rs = []" by simp
    then show ?thesis using kept(1) assms(3) same by simp
  next
    case (committed d1 d2)
    from locked_body [OF this(3)] obtain rs d3 where "load_rows sess wt ?cs d1 = (Inr rs, d3)" "?loop rs d3 = (Inr (), d2)"
      by (auto split: if_splits)
    with rs [OF this(1) committed(2)] have d3: "tabs d3 = tabs d" and run: "?loop ?rs d3 = (Inr (), d2)" by simp_all
    have "distinct (map (\<lambda>r. r ''id'') ?rs)"
      using I_ids [OF assms(3)] by (simp add: sql_select_def distinct_map_filter)
    with rows_loop [OF assms(1) run] d3 assms(3,4) mem same committed(4) show ?thesis by auto
  qed
qed

lemma locked_undone:
  assumes "sql_session sess"
  shows "\<forall>d e d'. process_locked sess wt w ids (base sess) d = (Inl e, d') \<longrightarrow> tabs d' = tabs d"
  unfolding process_locked_def by (auto elim: with_tx_if_cases [OF assms])

lemma batch_cases:
  assumes "sql_session sess" "RepeatForLock (process_locked sess wt w ids (base sess)) d = Some (r, d')"
    and "I (tabs d)" "fit_map w (tabs d wt)"
  shows "I (tabs d') \<and> (case r of Inl e \<Rightarrow> tabs d' wt = tabs d wt | Inr u \<Rightarrow> tabs d' wt = marked (set ids) (tabs d wt))"
proof (cases r)
  case (Inl e)
  with RepeatForLock_cases [OF assms(2) locked_undone [OF assms(1)]] assms(3) show ?thesis by simp
next
  case (Inr u)
  with RepeatForLock_cases [OF assms(2) locked_undone [OF assms(1)]] obtain d1 where
    d1: "tabs d1 = tabs d" "process_locked sess wt w ids (base sess) d1 = (Inr (), d')" by auto
  from locked_ok [OF assms(1) d1(2)] d1(1) assms(3,4) Inr show ?thesis by simp
qed

lemma batches:
  assumes "sql_session sess"
    and "batch_loop keyv (\<lambda>w ids. RepeatForLock (process_locked sess wt w ids (base sess))) vs w ids d = Some (r, d')"
    and "I (tabs d)" "fit_map w (tabs d wt)" "\<forall>v \<in> set vs. fits v (tabs d wt)"
  shows "I (tabs d') \<and> (\<exists>A \<subseteq> set ids \<union> keyv ` set vs. tabs d' wt = marked A (tabs d wt)
    \<and> (r = Inr () \<longrightarrow> A = set ids \<union> keyv ` set vs))"
  using assms(2-)
proof (induction vs arbitrary: w ids d)
  case Nil
  show ?case
  proof (cases "ids = []")
    case True
    with Nil show ?thesis by auto
  next
    case False
    with Nil.prems have "RepeatForLock (process_locked sess wt w ids (base sess)) d = Some (r, d')" by simp
    from batch_cases [OF assms(1) this] Nil.prems show ?thesis by (cases r) auto
  qed
next
  case (Cons v vs)
  let ?w = "w(keyv v \<mapsto> v)" and ?ids = "ids @ [keyv v]"
  have fit: "fit_map ?w (tabs d wt)" using Cons.prems by (simp add: fit_map_upd)
  show ?case
  proof (cases "length ?ids > LockSize")
    case False
    with Cons.prems(1) have "batch_loop keyv (\<lambda>w ids. RepeatForLock (process_locked sess wt w ids (base sess))) vs ?w ?ids d = Some (r, d')"
      by (simp add: Let_def)
    from Cons.IH [OF this Cons.prems(2) fit] Cons.prems(4) show ?thesis by simp
  next
    case True
    let ?run = "RepeatForLock (process_locked sess wt ?w ?ids (base sess)) d"
    from True Cons.prems(1) obtain q d1 where run: "?run = Some (q, d1)"
      and rest: "case q of Inl e \<Rightarrow> r = Inl e \<and> d' = d1
        | Inr _ \<Rightarrow> batch_loop keyv (\<lambda>w ids. RepeatForLock (process_locked sess wt w ids (base sess))) vs Map.empty [] d1 = Some (r, d')"
      by (auto simp: Let_def split: option.splits prod.splits sum.splits)
    note one = batch_cases [OF assms(1) run Cons.prems(2) fit]
    show ?thesis
    proof (cases q)
      case (Inl e)
      with one rest show ?thesis by (auto intro!: exI [of _ "{}"])
    next
      case (Inr u)
      with one have d1: "I (tabs d1)" "tabs d1 wt = marked (set ?ids) (tabs d wt)" by simp_all
      have "fit_map Map.empty (tabs d1 wt)" by (simp add: fit_map_def)
      with Cons.IH [of Map.empty "[]" d1] rest Inr d1 Cons.prems(4) obtain A where
        "I (tabs d')" "A \<subseteq> keyv ` set vs" "tabs d' wt = marked (A \<union> set ?ids) (tabs d wt)" "r = Inr () \<longrightarrow> A = keyv ` set vs"
        by auto
      then show ?thesis by (intro conjI exI [of _ "A \<union> set ?ids"]) auto
    qed
  qed
qed

end

lemma distinct_id_eq:
  "distinct (map (\<lambda>r. r ''id'') rows) \<Longrightarrow> r \<in> set rows \<Longrightarrow> r' \<in> set rows \<Longrightarrow> r ''id'' = r' ''id'' \<Longrightarrow> r = r'"
  by (auto simp: distinct_map dest: inj_onD)

text \<open>What a pass over a work table does when the rows it read are those of the table.\<close>

context accumulator
begin

lemma source_fits:
  assumes "I T" "\<exists>x \<in> set (T wt). x ''id'' = Some (VS (keyv v)) \<and> agrees v x"
  shows "fits v (T wt)"
  unfolding fits_def using assms(2) distinct_id_eq [OF I_ids [OF assms(1)]] by metis

lemma pass:
  assumes "sql_session sess"
    and "map_option (\<lambda>(r, d''). (map_sum id (\<lambda>_. length vs) r, d''))
      (batch_loop keyv (\<lambda>w ids. RepeatForLock (process_locked sess wt w ids (base sess))) vs Map.empty [] d) = Some (r, d')"
    and "I (tabs d)" "\<forall>v \<in> set vs. \<exists>x \<in> set (tabs d wt). x ''id'' = Some (VS (keyv v)) \<and> agrees v x"
  shows "I (tabs d') \<and> (\<forall>n. r = Inr n \<longrightarrow> n = length vs \<and> tabs d' wt = marked (keyv ` set vs) (tabs d wt))"
proof -
  from assms(2) obtain q where run: "batch_loop keyv (\<lambda>w ids. RepeatForLock (process_locked sess wt w ids (base sess))) vs Map.empty [] d = Some (q, d')"
    and r: "r = map_sum id (\<lambda>_. length vs) q" by auto
  have "\<forall>v \<in> set vs. fits v (tabs d wt)" using assms(4) source_fits [OF assms(3)] by blast
  from batches [OF assms(1) run assms(3) _ this] obtain A where
    "I (tabs d')" "tabs d' wt = marked A (tabs d wt)" "q = Inr () \<longrightarrow> A = keyv ` set vs" by (auto simp: fit_map_def)
  then show ?thesis using r by (cases q) auto
qed

end

lemma marked_less:
  assumes "x \<in> set rows" "pending x" "id_in A x"
  shows "length (filter pending (marked A rows)) < length (filter pending rows)"
proof -
  have le: "length (filter pending (marked A rows)) \<le> length (filter pending rows)" for rows
    by (induction rows) (auto simp: marked_def pending_def)
  show ?thesis using assms
  proof (induction rows)
    case (Cons r rows)
    have "marked A (r # rows) = (if id_in A r then r(''processed'' \<mapsto> VI 1) else r) # marked A rows" by (simp add: marked_def)
    moreover have "\<not> pending (r(''processed'' \<mapsto> VI 1))" by (simp add: pending_def)
    ultimately show ?case using Cons le [of rows] by auto
  qed simp
qed

lemma marked_pending: "x \<in> set (marked A rows) \<Longrightarrow> pending x \<Longrightarrow> x \<in> set rows \<and> \<not> id_in A x"
  by (auto simp: marked_def pending_def split: if_splits)

section \<open>Credits and what is owed\<close>

text \<open>The amount in a column of the balance \<open>i\<close>, and the sum of the shares of the rows that are done.\<close>

definition credit :: "row list \<Rightarrow> string \<Rightarrow> string \<Rightarrow> int" where
  "credit rows col i = (\<Sum>x \<leftarrow> rows. if x ''id'' = Some (VS i) then getI x col else 0)"

definition owed :: "row list \<Rightarrow> (row \<Rightarrow> string \<Rightarrow> int) \<Rightarrow> string \<Rightarrow> int" where
  "owed rows share i = (\<Sum>r \<leftarrow> rows. if r ''processed'' = Some (VI 1) then share r i else 0)"

definition work_ok :: "row list \<Rightarrow> bool" where
  "work_ok rows \<longleftrightarrow> (\<forall>r \<in> set rows. (\<exists>k. r ''id'' = Some (VS k)) \<and> (pending r \<or> r ''processed'' = Some (VI 1)))"

definition bal_ok :: "string \<Rightarrow> row list \<Rightarrow> bool" where
  "bal_ok col rows \<longleftrightarrow> (\<forall>x \<in> set rows. (\<exists>k. x ''id'' = Some (VS k)) \<and> (\<exists>n. x col = Some (VI n)))"

lemma keys_ok_distinct:
  assumes "keys_ok t rows" "unique_keys t = [[''id'']]" "\<forall>r \<in> set rows. r ''id'' \<noteq> None"
  shows "distinct (map (\<lambda>r. r ''id'') rows)"
  using assms by (induction rows) (force simp: keys_ok_def conflicts_def agree_on_def)+

lemma work_ok_marked: "work_ok rows \<Longrightarrow> work_ok (marked A rows)"
  by (auto simp: work_ok_def marked_def pending_def)

lemma owed_marked:
  assumes "distinct (map (\<lambda>r. r ''id'') rows)" "r \<in> set rows" "pending r" "r ''id'' = Some (VS k)"
    and "\<And>r x. share (r(''processed'' \<mapsto> x)) i = share r i"
  shows "owed (marked {k} rows) share i = owed rows share i + share r i"
  using assms(1-4)
proof (induction rows)
  case (Cons r' rows)
  have other: "marked {k} rows = rows" if "\<forall>x \<in> set rows. x ''id'' \<noteq> Some (VS k)"
    using that by (auto simp: marked_def id_in_def intro: map_idI)
  show ?case
  proof (cases "r' = r")
    case True
    with Cons.prems have "\<forall>x \<in> set rows. x ''id'' \<noteq> Some (VS k)" by (auto simp: image_iff)
    with True Cons.prems other show ?thesis
      by (simp add: owed_def marked_def id_in_def pending_def assms(5))
  next
    case False
    with Cons.prems have "r' ''id'' \<noteq> Some (VS k)" by (auto simp: image_iff)
    with False Cons show ?thesis by (simp add: owed_def marked_def id_in_def)
  qed
qed simp

lemma credit_insert:
  assumes "getI (new_row bt ps) col = 0"
  shows "credit (ins_ignore bt ps T bt) col i = credit (T bt) col i"
  using assms by (cases "list_ex (conflicts bt (new_row bt ps)) (T bt)")
    (simp_all add: ins_ignore_present ins_ignore_fresh credit_def)

lemma credit_map:
  assumes "distinct (map (\<lambda>x. x ''id'') rows)" "\<exists>x \<in> set rows. x ''id'' = Some (VS k)"
    and "\<And>x. x \<in> set rows \<Longrightarrow> g x ''id'' = x ''id''"
    and "\<And>x. x \<in> set rows \<Longrightarrow> getI (g x) col = getI x col + n"
  shows "credit (map (\<lambda>x. if x ''id'' = Some (VS k) then g x else x) rows) col i
    = credit rows col i + (if i = k then n else 0)"
  using assms
proof (induction rows)
  case (Cons x rows)
  have other: "map (\<lambda>x. if x ''id'' = Some (VS k) then g x else x) rows = rows" if "\<forall>x \<in> set rows. x ''id'' \<noteq> Some (VS k)"
    using that by (auto intro: map_idI)
  show ?case
  proof (cases "x ''id'' = Some (VS k)")
    case True
    with Cons.prems have "\<forall>x \<in> set rows. x ''id'' \<noteq> Some (VS k)" by (auto simp: image_iff)
    with True Cons.prems other show ?thesis by (auto simp: credit_def)
  next
    case False
    with Cons show ?thesis by (simp add: credit_def)
  qed
qed simp

lemma sql_update_rows: "sql_update t g cs T = Some T' \<Longrightarrow> T' = T(t := map (\<lambda>r. if matches cs r then g r else r) (T t))"
  by (simp add: sql_update_def Let_def split: if_splits)

lemma load_rows_ok:
  assumes "sql_session sess" "load_rows sess t cs d = (Inr rs, d')"
  shows "rs = sql_select t cs (tabs d) \<and> tabs d' = tabs d"
  using assms(2) sql_session.load_ok [OF assms(1), of t cs d rs d'] sql_session.load_tabs [OF assms(1), of t cs d]
  by (simp add: load_rows_def)

lemma load_rows_err: "sql_session sess \<Longrightarrow> load_rows sess t cs d = (r, d') \<Longrightarrow> tabs d' = tabs d"
  using sql_session.load_tabs [of sess t cs d] by (simp add: load_rows_def)

lemma lock_balance_ok:
  assumes "sql_session sess" "lock_balance sess t k d = (Inr u, d')"
  shows "tabs d' = tabs d \<and> (\<exists>x \<in> set (tabs d t). x ''id'' = Some (VS k))"
proof -
  from assms(2) obtain rs d1 where l: "load_rows sess t [Eq ''id'' (VS k)] d = (Inr rs, d1)" and "rs \<noteq> []" "d' = d1"
    unfolding lock_balance_def
    by (elim go_bind_Inr) (auto simp: go_raise_def go_return_def split: list.splits if_splits)
  moreover have "rs = sql_select t [Eq ''id'' (VS k)] (tabs d)" "tabs d1 = tabs d"
    using l sql_session.load_ok [OF assms(1), of t "[Eq ''id'' (VS k)]" d rs d1] sql_session.load_tabs [OF assms(1), of t "[Eq ''id'' (VS k)]" d]
    by (simp_all add: load_rows_def)
  ultimately show ?thesis by (auto simp: sql_select_def matches_def filter_empty_conv)
qed

text \<open>Creating a balance that is missing, locking it and adding to it.\<close>

lemma credit_step:
  assumes "sql_session sess" "tables_ok (tabs d)" "unique_keys bt = [[''id'']]" "bal_ok col (tabs d bt)"
    and ins: "tabs d1 = ins_ignore bt ps (tabs d)" and lock: "lock_balance sess bt k d1 = (Inr u, d2)"
    and upd: "exec_raw sess (UpdateAdd bt incs [(''updated_at'', VT now)] [Eq ''id'' (VS k)]) d2 = (Inr u', d3)"
    and new: "new_row bt ps ''id'' = Some (VS k)" "new_row bt ps col = Some (VI 0)"
    and incs: "map_of incs col = Some n" "map_of incs ''id'' = None" "col \<noteq> ''updated_at''"
  shows "tables_ok (tabs d3) \<and> (\<forall>t. t \<noteq> bt \<longrightarrow> tabs d3 t = tabs d t) \<and> bal_ok col (tabs d3 bt)
    \<and> (\<forall>i. credit (tabs d3 bt) col i = credit (tabs d bt) col i + (if i = k then n else 0))"
proof -
  let ?g = "\<lambda>r. add_cols incs r ++ map_of (norm_pairs [(''updated_at'', VT now)])"
  from lock_balance_ok [OF assms(1) lock] have t2: "tabs d2 = ins_ignore bt ps (tabs d)"
    and ex: "\<exists>x \<in> set (tabs d2 bt). x ''id'' = Some (VS k)" by (simp_all add: ins)
  from exec_raw_ok [OF assms(1) upd] have app: "sql_update bt ?g [Eq ''id'' (VS k)] (tabs d2) = Some (tabs d3)" by simp
  then have t3: "tabs d3 bt = map (\<lambda>x. if x ''id'' = Some (VS k) then ?g x else x) (tabs d2 bt)" "\<forall>t. t \<noteq> bt \<longrightarrow> tabs d3 t = tabs d2 t"
    by (simp_all add: matches_def sql_update_rows [OF app])
  have ok2: "tables_ok (tabs d2)" unfolding t2 by (rule ins_ignore_keys [OF assms(2)])
  have bal2: "bal_ok col (tabs d2 bt)" using assms(4) new
    by (cases "list_ex (conflicts bt (new_row bt ps)) (tabs d bt)") (simp_all add: t2 bal_ok_def ins_ignore_fresh ins_ignore_present)
  have g: "?g x ''id'' = x ''id''" "\<exists>m. x col = Some (VI m) \<Longrightarrow> ?g x col = Some (VI (getI x col + n))" for x
    using incs by (auto simp: add_cols_def norm_pairs_def ToLower_columns map_add_def getI_def)
  have dist: "distinct (map (\<lambda>x. x ''id'') (tabs d2 bt))" using ok2 bal2 assms(3)
    by (intro keys_ok_distinct [of bt]) (auto simp: tables_ok_def bal_ok_def)
  have "credit (tabs d3 bt) col i = credit (tabs d2 bt) col i + (if i = k then n else 0)" for i
    unfolding t3(1) using bal2 g by (intro credit_map [OF dist ex]) (auto simp: bal_ok_def getI_def)
  moreover have "credit (tabs d2 bt) col i = credit (tabs d bt) col i" for i
    unfolding t2 by (rule credit_insert) (simp add: getI_def new)
  moreover have "bal_ok col (tabs d3 bt)" unfolding t3(1) using bal2 g by (auto simp: bal_ok_def)
  moreover have "tables_ok (tabs d3)" by (rule sql_update_keys [OF app ok2])
  moreover have "\<forall>t. t \<noteq> bt \<longrightarrow> tabs d3 t = tabs d t" using t3(2) by (simp add: t2)
  ultimately show ?thesis by simp
qed

lemma mark_step:
  assumes "sql_session sess" "tables_ok (tabs d)"
    and "exec_raw sess (UpdateSet wt [(''processed'', VI 1)] [Eq ''id'' (VS k)]) d = (Inr u, d1)"
  shows "tables_ok (tabs d1) \<and> (\<forall>t. t \<noteq> wt \<longrightarrow> tabs d1 t = tabs d t) \<and> tabs d1 wt = marked {k} (tabs d wt)"
proof -
  from exec_raw_ok [OF assms(1,3)]
  have app: "sql_update wt (\<lambda>r. r ++ map_of (norm_pairs [(''processed'', VI 1)])) [Eq ''id'' (VS k)] (tabs d) = Some (tabs d1)" by simp
  moreover have "(r ++ map_of (norm_pairs [(''processed'', VI 1)])) = r(''processed'' \<mapsto> VI 1)" for r :: row
    by (simp add: norm_pairs_def ToLower_columns)
  ultimately show ?thesis using sql_update_keys [OF app assms(2)]
    by (simp add: sql_update_rows [OF app] matches_def marked_def id_in_def)
qed

section \<open>The ledger of transactions\<close>

definition tx_share :: "extlib \<Rightarrow> row \<Rightarrow> string \<Rightarrow> int" where
  "tx_share lib r i =
     (case AccumulateBalancesTransactions_ComputeID lib
        (zero_AccumulateBalancesTransactions\<lparr>AccumulateBalancesTransactions_ChainID := getS r ''chain_id'',
           AccumulateBalancesTransactions_AssetID := getS r ''asset_id'', AccumulateBalancesTransactions_Address := getS r ''address''\<rparr>) of
        Inl _ \<Rightarrow> 0 | Inr b \<Rightarrow> if AccumulateBalancesTransactions_ID b = i then 1 else 0)"

text \<open>Every balance counts the rows of the work table that are done and belong to it.\<close>

definition tx_ledger :: "extlib \<Rightarrow> tables \<Rightarrow> bool" where
  "tx_ledger lib T \<longleftrightarrow> tables_ok T \<and> work_ok (T TableOutputTxsAccumulate)
     \<and> bal_ok ''transaction_count'' (T TableAccumulateBalancesTransactions)
     \<and> (\<forall>i. credit (T TableAccumulateBalancesTransactions) ''transaction_count'' i = owed (T TableOutputTxsAccumulate) (tx_share lib) i)"

definition tx_agrees :: "OutputTxsAccumulate \<Rightarrow> row \<Rightarrow> bool" where
  "tx_agrees v r \<longleftrightarrow> OutputTxsAccumulate_ChainID v = getS r ''chain_id'' \<and> OutputTxsAccumulate_AssetID v = getS r ''asset_id''
     \<and> OutputTxsAccumulate_Address v = getS r ''address''"

lemma tx_share_processed [simp]: "tx_share lib (r(''processed'' \<mapsto> x)) = tx_share lib r"
  by (rule ext) (simp add: tx_share_def getS_def)

lemma work_distinct:
  "tables_ok T \<Longrightarrow> unique_keys wt = [[''id'']] \<Longrightarrow> work_ok (T wt) \<Longrightarrow> distinct (map (\<lambda>r. r ''id'') (T wt))"
  by (rule keys_ok_distinct [of wt]) (auto simp: tables_ok_def work_ok_def)

lemma processTransactionsBase_ledger:
  assumes "sql_session sess" "processTransactionsBase lib sess now v d = (Inr u, d')" "tx_ledger lib (tabs d)"
    and r: "r \<in> set (tabs d TableOutputTxsAccumulate)" "pending r" "r ''id'' = Some (VS (OutputTxsAccumulate_ID v))" "tx_agrees v r"
  shows "tx_ledger lib (tabs d') \<and> tabs d' TableOutputTxsAccumulate = marked {OutputTxsAccumulate_ID v} (tabs d TableOutputTxsAccumulate)
    \<and> (\<forall>t. t \<noteq> TableOutputTxsAccumulate \<longrightarrow> t \<noteq> TableAccumulateBalancesTransactions \<longrightarrow> tabs d' t = tabs d t)"
proof -
  let ?wt = TableOutputTxsAccumulate and ?bt = TableAccumulateBalancesTransactions and ?k = "OutputTxsAccumulate_ID v"
  let ?b0 = "zero_AccumulateBalancesTransactions\<lparr>AccumulateBalancesTransactions_ChainID := OutputTxsAccumulate_ChainID v,
    AccumulateBalancesTransactions_AssetID := OutputTxsAccumulate_AssetID v, AccumulateBalancesTransactions_Address := OutputTxsAccumulate_Address v,
    AccumulateBalancesTransactions_UpdatedAt := time_Unix 1 0\<rparr>"
  from assms(2) obtain b d1 d2 d3 u1 u2 u3 where
    mark: "exec_raw sess (UpdateSet ?wt [(''processed'', VI 1)] [Eq ''id'' (VS ?k)]) d = (Inr u1, d1)"
    and b: "AccumulateBalancesTransactions_ComputeID lib ?b0 = Inr b"
    and ins: "persist_exec sess (PInsertAccumulateBalancesTransactions b) d1 = (Inr u2, d2)"
    and lock: "lock_balance sess ?bt (AccumulateBalancesTransactions_ID b) d2 = (Inr u3, d3)"
    and upd: "exec_raw sess (UpdateAdd ?bt [(''transaction_count'', 1)] [(''updated_at'', VT now)]
       [Eq ''id'' (VS (AccumulateBalancesTransactions_ID b))]) d3 = (Inr u, d')"
    unfolding processTransactionsBase_def by (elim go_then_Inr go_bind_Inr) (simp add: go_lift_def)
  have L: "tables_ok (tabs d)" "work_ok (tabs d ?wt)" "bal_ok ''transaction_count'' (tabs d ?bt)"
    "credit (tabs d ?bt) ''transaction_count'' i = owed (tabs d ?wt) (tx_share lib) i" for i
    using assms(3) by (simp_all add: tx_ledger_def)
  note m = mark_step [OF assms(1) L(1) mark]
  have ins': "tabs d2 = ins_ignore ?bt (AccumulateBalancesTransactions_cols b) (tabs d1)"
    using ins sql_session.exec_oks(1) [OF assms(1)] by (simp add: InsertAccumulateBalancesTransactions_def)
  have c: "tables_ok (tabs d') \<and> (\<forall>t. t \<noteq> ?bt \<longrightarrow> tabs d' t = tabs d1 t) \<and> bal_ok ''transaction_count'' (tabs d' ?bt)
    \<and> (\<forall>i. credit (tabs d' ?bt) ''transaction_count'' i = credit (tabs d1 ?bt) ''transaction_count'' i
        + (if i = AccumulateBalancesTransactions_ID b then 1 else 0))"
    using m L(3) by (intro credit_step [OF assms(1) _ _ _ ins' lock upd])
      (auto simp: dao_simps AccumulateBalancesTransactions_cols_def)
  have "tx_share lib r i = (if i = AccumulateBalancesTransactions_ID b then 1 else 0)" for i
    using b r(4) by (auto simp: tx_share_def tx_agrees_def AccumulateBalancesTransactions_ComputeID_def Let_def split: sum.splits)
  moreover have "owed (marked {?k} (tabs d ?wt)) (tx_share lib) i = owed (tabs d ?wt) (tx_share lib) i + tx_share lib r i" for i
    using work_distinct [OF L(1) _ L(2)] r by (intro owed_marked) (simp_all add: unique_keys_def)
  ultimately show ?thesis using c m L work_ok_marked [OF L(2)] by (simp add: tx_ledger_def)
qed

section \<open>The ledger of outputs\<close>

definition balance_id :: "extlib \<Rightarrow> AccumulateBalancesAmount \<Rightarrow> string option" where
  "balance_id lib b = (case AccumulateBalancesAmount_ComputeID lib b of Inl _ \<Rightarrow> None | Inr b' \<Rightarrow> Some (AccumulateBalancesAmount_ID b'))"

definition share_sum :: "extlib \<Rightarrow> (int \<Rightarrow> int) \<Rightarrow> (AccumulateBalancesAmount \<times> int) list \<Rightarrow> string \<Rightarrow> int" where
  "share_sum lib amount bs i = (\<Sum>(b, total) \<leftarrow> bs. if balance_id lib b = Some i then amount total else 0)"

text \<open>The share of a row: the amounts of its output that belong to its address.\<close>

definition out_share :: "extlib \<Rightarrow> (int \<Rightarrow> int) \<Rightarrow> tables \<Rightarrow> row \<Rightarrow> string \<Rightarrow> int" where
  "out_share lib amount T r =
     share_sum lib amount (group_balances (sql_select TableOutputs [Eq ''id'' (VS (getS r ''output_id''))] T)
       (sql_select TableOutputAddresses [Eq ''output_id'' (VS (getS r ''output_id'')), Eq ''address'' (VS (getS r ''address''))] T))"

definition out_ledger :: "extlib \<Rightarrow> processType \<Rightarrow> tables \<Rightarrow> bool" where
  "out_ledger lib typ T \<longleftrightarrow> tables_ok T \<and> work_ok (T (outTable typ))
     \<and> bal_ok ''utxo_count'' (T (balanceTable typ)) \<and> bal_ok ''total_amount'' (T (balanceTable typ))
     \<and> (\<forall>i. credit (T (balanceTable typ)) ''utxo_count'' i = owed (T (outTable typ)) (out_share lib (\<lambda>_. 1) T) i
          \<and> credit (T (balanceTable typ)) ''total_amount'' i = owed (T (outTable typ)) (out_share lib (\<lambda>a. a) T) i)"

text \<open>The books are right: the three kinds of balances.\<close>

definition ledger :: "extlib \<Rightarrow> tables \<Rightarrow> bool" where
  "ledger lib T \<longleftrightarrow> tx_ledger lib T \<and> out_ledger lib processTypeOut T \<and> out_ledger lib processTypeIn T"

lemma out_share_processed [simp]: "out_share lib amount T (r(''processed'' \<mapsto> x)) = out_share lib amount T r"
  by (simp add: out_share_def getS_def)

lemma out_share_cong:
  "T' TableOutputs = T TableOutputs \<Longrightarrow> T' TableOutputAddresses = T TableOutputAddresses \<Longrightarrow> out_share lib amount T' = out_share lib amount T"
  by (simp add: fun_eq_iff out_share_def sql_select_def)

lemma out_ledger_cong:
  assumes "out_ledger lib typ T" "tables_ok T'" "T' (outTable typ) = T (outTable typ)" "T' (balanceTable typ) = T (balanceTable typ)"
    and "T' TableOutputs = T TableOutputs" "T' TableOutputAddresses = T TableOutputAddresses"
  shows "out_ledger lib typ T'"
  using assms out_share_cong [of T' T lib] by (simp add: out_ledger_def)

lemma tx_ledger_cong:
  "tx_ledger lib T \<Longrightarrow> tables_ok T' \<Longrightarrow> T' TableOutputTxsAccumulate = T TableOutputTxsAccumulate
    \<Longrightarrow> T' TableAccumulateBalancesTransactions = T TableAccumulateBalancesTransactions \<Longrightarrow> tx_ledger lib T'"
  by (simp add: tx_ledger_def)

lemma type_tables [simp]:
  "outTable processTypeOut = TableOutputAddressAccumulateOut" "outTable processTypeIn = TableOutputAddressAccumulateIn"
  "balanceTable processTypeOut = TableAccumulateBalancesReceived" "balanceTable processTypeIn = TableAccumulateBalancesSent"
  "processTypeIn \<noteq> processTypeOut" "processTypeOut \<noteq> processTypeIn"
  by (simp_all add: outTable_def balanceTable_def processTypeIn_def processTypeOut_def)

text \<open>A new pending row leaves the ledger of transactions as it is.\<close>

lemma tx_ledger_insert:
  assumes "tx_ledger lib T"
  shows "tx_ledger lib (ins_ignore TableOutputTxsAccumulate (OutputTxsAccumulate_cols v) T)"
proof (cases "list_ex (conflicts TableOutputTxsAccumulate (new_row TableOutputTxsAccumulate (OutputTxsAccumulate_cols v))) (T TableOutputTxsAccumulate)")
  case True
  with assms show ?thesis by (simp add: ins_ignore_present)
next
  case False
  let ?r = "new_row TableOutputTxsAccumulate (OutputTxsAccumulate_cols v)"
  have "?r ''id'' = Some (VS (OutputTxsAccumulate_ID v))" "?r ''processed'' = Some (VI 0)"
    by (simp_all add: dao_simps OutputTxsAccumulate_cols_def)
  then show ?thesis using assms ins_ignore_keys [of T TableOutputTxsAccumulate "OutputTxsAccumulate_cols v"] False
    by (auto simp: tx_ledger_def ins_ignore_fresh work_ok_def pending_def owed_def)
qed

lemma add_balance_step:
  assumes "sql_session sess" "add_balance lib sess typ now txid (b, tot) d = (Inr u, d')" "typ \<in> {processTypeIn, processTypeOut}"
    and "tables_ok (tabs d)" "bal_ok ''utxo_count'' (tabs d (balanceTable typ))" "bal_ok ''total_amount'' (tabs d (balanceTable typ))"
    and "tx_ledger lib (tabs d)"
  shows "tables_ok (tabs d') \<and> bal_ok ''utxo_count'' (tabs d' (balanceTable typ)) \<and> bal_ok ''total_amount'' (tabs d' (balanceTable typ))
    \<and> tx_ledger lib (tabs d') \<and> (\<forall>t. t \<noteq> balanceTable typ \<longrightarrow> t \<noteq> TableOutputTxsAccumulate \<longrightarrow> tabs d' t = tabs d t)
    \<and> (\<forall>i. credit (tabs d' (balanceTable typ)) ''utxo_count'' i = credit (tabs d (balanceTable typ)) ''utxo_count'' i + share_sum lib (\<lambda>_. 1) [(b, tot)] i
         \<and> credit (tabs d' (balanceTable typ)) ''total_amount'' i = credit (tabs d (balanceTable typ)) ''total_amount'' i + share_sum lib (\<lambda>a. a) [(b, tot)] i)"
proof -
  let ?bt = "balanceTable typ"
  from assms(2) obtain o' b' d1 d2 d3 u1 u2 u3 where
    txs: "persist_exec sess (PInsertOutputTxsAccumulate o') d = (Inr u1, d1)"
    and b': "AccumulateBalancesAmount_ComputeID lib (b\<lparr>AccumulateBalancesAmount_UpdatedAt := time_Unix 1 0\<rparr>) = Inr b'"
    and ins: "insert_balance sess typ b' d1 = (Inr u2, d2)"
    and lock: "lock_balance sess ?bt (AccumulateBalancesAmount_ID b') d2 = (Inr u3, d3)"
    and upd: "exec_raw sess (UpdateAdd ?bt [(''utxo_count'', 1), (''total_amount'', tot)] [(''updated_at'', VT now)]
       [Eq ''id'' (VS (AccumulateBalancesAmount_ID b'))]) d3 = (Inr u, d')"
    unfolding add_balance_def prod.case by (elim go_then_Inr go_bind_Inr) (simp add: go_lift_def)
  let ?cols = "if typ = processTypeOut then AccumulateBalancesReceived_cols b' else AccumulateBalancesSent_cols b'"
  have t1: "tabs d1 = ins_ignore TableOutputTxsAccumulate (OutputTxsAccumulate_cols o') (tabs d)"
    using txs sql_session.exec_oks(1) [OF assms(1)] by (simp add: InsertOutputTxsAccumulate_def)
  have t2: "tabs d2 = ins_ignore ?bt ?cols (tabs d1)"
    using ins assms(3) sql_session.exec_oks(1) [OF assms(1)]
    by (auto simp: insert_balance_def InsertAccumulateBalancesReceived_def InsertAccumulateBalancesSent_def)
  have bt: "?bt \<noteq> TableOutputTxsAccumulate" "?bt \<noteq> TableAccumulateBalancesTransactions" "unique_keys ?bt = [[''id'']]"
    using assms(3) by (auto simp: unique_keys_def)
  have new: "new_row ?bt ?cols ''id'' = Some (VS (AccumulateBalancesAmount_ID b'))" "new_row ?bt ?cols ''utxo_count'' = Some (VI 0)"
    "new_row ?bt ?cols ''total_amount'' = Some (VI 0)"
    using assms(3) by (auto simp: dao_simps AccumulateBalancesReceived_cols_def AccumulateBalancesSent_cols_def)
  have id: "balance_id lib b = Some (AccumulateBalancesAmount_ID b')"
    using b' by (auto simp: balance_id_def AccumulateBalancesAmount_ComputeID_def Let_def split: sum.splits)
  have one: "tables_ok (tabs d1)" "tabs d1 ?bt = tabs d ?bt" "tx_ledger lib (tabs d1)"
    using assms(4,7) bt tx_ledger_insert by (simp_all add: t1 ins_ignore_keys)
  have c1: "tables_ok (tabs d') \<and> (\<forall>t. t \<noteq> ?bt \<longrightarrow> tabs d' t = tabs d1 t) \<and> bal_ok ''utxo_count'' (tabs d' ?bt)
    \<and> (\<forall>i. credit (tabs d' ?bt) ''utxo_count'' i = credit (tabs d1 ?bt) ''utxo_count'' i + (if i = AccumulateBalancesAmount_ID b' then 1 else 0))"
    using one assms(5) new bt by (intro credit_step [OF assms(1) _ _ _ t2 lock upd]) auto
  have c2: "tables_ok (tabs d') \<and> (\<forall>t. t \<noteq> ?bt \<longrightarrow> tabs d' t = tabs d1 t) \<and> bal_ok ''total_amount'' (tabs d' ?bt)
    \<and> (\<forall>i. credit (tabs d' ?bt) ''total_amount'' i = credit (tabs d1 ?bt) ''total_amount'' i + (if i = AccumulateBalancesAmount_ID b' then tot else 0))"
    using one assms(6) new bt by (intro credit_step [OF assms(1) _ _ _ t2 lock upd]) auto
  have "tx_ledger lib (tabs d')" using c1 bt by (intro tx_ledger_cong [OF one(3)]) auto
  with c1 c2 one id show ?thesis by (auto simp: share_sum_def t1)
qed

lemma add_balances:
  assumes "sql_session sess" "typ \<in> {processTypeIn, processTypeOut}"
    and "go_for (add_balance lib sess typ now txid) bs d = (Inr u, d')"
    and "tables_ok (tabs d)" "bal_ok ''utxo_count'' (tabs d (balanceTable typ))" "bal_ok ''total_amount'' (tabs d (balanceTable typ))"
    and "tx_ledger lib (tabs d)"
  shows "tables_ok (tabs d') \<and> bal_ok ''utxo_count'' (tabs d' (balanceTable typ)) \<and> bal_ok ''total_amount'' (tabs d' (balanceTable typ))
    \<and> tx_ledger lib (tabs d') \<and> (\<forall>t. t \<noteq> balanceTable typ \<longrightarrow> t \<noteq> TableOutputTxsAccumulate \<longrightarrow> tabs d' t = tabs d t)
    \<and> (\<forall>i. credit (tabs d' (balanceTable typ)) ''utxo_count'' i = credit (tabs d (balanceTable typ)) ''utxo_count'' i + share_sum lib (\<lambda>_. 1) bs i
         \<and> credit (tabs d' (balanceTable typ)) ''total_amount'' i = credit (tabs d (balanceTable typ)) ''total_amount'' i + share_sum lib (\<lambda>a. a) bs i)"
  using assms(3-)
proof (induction bs arbitrary: d)
  case Nil
  then show ?case by (simp add: go_simps share_sum_def)
next
  case (Cons bt bs)
  obtain b tot where bt: "bt = (b, tot)" by (cases bt)
  from Cons.prems(1) obtain u1 d1 where one: "add_balance lib sess typ now txid (b, tot) d = (Inr u1, d1)"
    and rest: "go_for (add_balance lib sess typ now txid) bs d1 = (Inr u, d')"
    unfolding go_for.simps bt by (rule go_then_Inr)
  have cons: "share_sum lib amount (bt # bs) i = share_sum lib amount [(b, tot)] i + share_sum lib amount bs i" for amount i
    by (simp add: share_sum_def bt)
  note s = add_balance_step [OF assms(1) one assms(2) Cons.prems(2-)]
  then show ?case unfolding cons using Cons.IH [OF rest] by simp
qed

lemma load_balances_ok:
  assumes "sql_session sess" "load_balances sess oid a d = (Inr bs, d')"
  shows "tabs d' = tabs d \<and> bs = group_balances (sql_select TableOutputs [Eq ''id'' (VS oid)] (tabs d))
    (sql_select TableOutputAddresses [Eq ''output_id'' (VS oid), Eq ''address'' (VS a)] (tabs d))"
  using assms(2) unfolding load_balances_def
  by (elim go_bind_Inr) (auto simp: go_return_def dest!: load_rows_ok [OF assms(1)])

definition out_agrees :: "OutputAddressAccumulate \<Rightarrow> row \<Rightarrow> bool" where
  "out_agrees v r \<longleftrightarrow> OutputAddressAccumulate_OutputID v = getS r ''output_id'' \<and> OutputAddressAccumulate_Address v = getS r ''address''"

lemma processOutputsBase_ledger:
  assumes "sql_session sess" "typ \<in> {processTypeIn, processTypeOut}"
    and run: "processOutputsBase lib sess typ now v d = (Inr u, d')" and L: "out_ledger lib typ (tabs d)" "tx_ledger lib (tabs d)"
    and r: "r \<in> set (tabs d (outTable typ))" "pending r" "r ''id'' = Some (VS (OutputAddressAccumulate_ID v))" "out_agrees v r"
  shows "out_ledger lib typ (tabs d') \<and> tx_ledger lib (tabs d')
    \<and> tabs d' (outTable typ) = marked {OutputAddressAccumulate_ID v} (tabs d (outTable typ))
    \<and> (\<forall>t. t \<notin> {outTable typ, balanceTable typ, TableOutputTxsAccumulate} \<longrightarrow> tabs d' t = tabs d t)"
proof -
  let ?wt = "outTable typ" and ?bt = "balanceTable typ" and ?k = "OutputAddressAccumulate_ID v"
  from run obtain u1 d1 bs d2 where
    mark: "exec_raw sess (UpdateSet ?wt [(''processed'', VI 1)] [Eq ''id'' (VS ?k)]) d = (Inr u1, d1)"
    and bs: "load_balances sess (OutputAddressAccumulate_OutputID v) (OutputAddressAccumulate_Address v) d1 = (Inr bs, d2)"
    and adds: "go_for (add_balance lib sess typ now (OutputAddressAccumulate_TransactionID v)) bs d2 = (Inr u, d')"
    unfolding processOutputsBase_def by (elim go_then_Inr go_bind_Inr) (auto simp: go_raise_def split: if_splits)
  have ok: "tables_ok (tabs d)" "work_ok (tabs d ?wt)" using L by (simp_all add: out_ledger_def)
  have names: "?wt \<noteq> ?bt" "?wt \<noteq> TableOutputTxsAccumulate" "?wt \<noteq> TableAccumulateBalancesTransactions" "?wt \<noteq> TableOutputs" "?wt \<noteq> TableOutputAddresses"
    "?bt \<noteq> TableOutputs" "?bt \<noteq> TableOutputAddresses" "unique_keys ?wt = [[''id'']]"
    using assms(2) by (auto simp: unique_keys_def)
  note m = mark_step [OF assms(1) ok(1) mark]
  note lb = load_balances_ok [OF assms(1) bs]
  have shr: "share_sum lib amount bs = out_share lib amount (tabs d) r" for amount
    using lb m names r(4) by (simp add: out_share_def out_agrees_def sql_select_def)
  have tl: "tx_ledger lib (tabs d2)" using m lb names by (intro tx_ledger_cong [OF L(2)]) simp_all
  have a: "tables_ok (tabs d')" "bal_ok ''utxo_count'' (tabs d' ?bt)" "bal_ok ''total_amount'' (tabs d' ?bt)" "tx_ledger lib (tabs d')"
    "\<And>t. t \<notin> {?bt, TableOutputTxsAccumulate} \<Longrightarrow> tabs d' t = tabs d1 t"
    "\<And>i. credit (tabs d' ?bt) ''utxo_count'' i = credit (tabs d ?bt) ''utxo_count'' i + out_share lib (\<lambda>_. 1) (tabs d) r i"
    "\<And>i. credit (tabs d' ?bt) ''total_amount'' i = credit (tabs d ?bt) ''total_amount'' i + out_share lib (\<lambda>a. a) (tabs d) r i"
    using add_balances [OF assms(1,2) adds _ _ _ tl] m lb L(1) names shr by (simp_all add: out_ledger_def)
  have "owed (marked {?k} (tabs d ?wt)) (out_share lib amount (tabs d)) i
      = owed (tabs d ?wt) (out_share lib amount (tabs d)) i + out_share lib amount (tabs d) r i" for amount i
    using work_distinct [OF ok(1) names(8) ok(2)] r by (intro owed_marked) simp_all
  moreover have "out_share lib amount (tabs d') = out_share lib amount (tabs d)" for amount
    using a(5) m names by (intro out_share_cong) simp_all
  moreover have "tabs d' ?wt = marked {?k} (tabs d ?wt)" using a(5) m names by simp
  ultimately show ?thesis using a m L work_ok_marked [OF ok(2)] by (auto simp: out_ledger_def)
qed

section \<open>The three work tables\<close>

lemma ledger_work:
  assumes "ledger lib T" "wt \<in> {TableOutputTxsAccumulate, TableOutputAddressAccumulateOut, TableOutputAddressAccumulateIn}"
  shows "work_ok (T wt) \<and> distinct (map (\<lambda>r. r ''id'') (T wt))"
proof -
  have "work_ok (T wt)" using assms by (elim insertE) (simp_all add: ledger_def tx_ledger_def out_ledger_def)
  moreover have "unique_keys wt = [[''id'']]" using assms(2) by (elim insertE) (simp_all add: unique_keys_def)
  moreover have "tables_ok T" using assms(1) by (simp add: ledger_def tx_ledger_def)
  ultimately show ?thesis using work_distinct by blast
qed

lemma ledger_row:
  assumes "ledger lib T" "wt \<in> {TableOutputTxsAccumulate, TableOutputAddressAccumulateOut, TableOutputAddressAccumulateIn}" "r \<in> set (T wt)"
  shows "(\<exists>k. r ''id'' = Some (VS k)) \<and> (pending r \<or> r ''processed'' = Some (VI 1))"
  using ledger_work [OF assms(1,2)] assms(3) by (simp add: work_ok_def)

lemmas ledger_rows = ledger_row [of _ _ TableOutputTxsAccumulate, simplified] ledger_row [of _ _ TableOutputAddressAccumulateOut, simplified]
  ledger_row [of _ _ TableOutputAddressAccumulateIn, simplified]

lemma agrees_processed [simp]:
  "tx_agrees v (r(''processed'' \<mapsto> x)) = tx_agrees v r" "out_agrees w (r(''processed'' \<mapsto> x)) = out_agrees w r"
  by (simp_all add: tx_agrees_def out_agrees_def getS_def)

lemma out_other_ledger:
  assumes "out_ledger lib typ T" "tables_ok T'" "typ \<in> {processTypeIn, processTypeOut}" "typ' \<in> {processTypeIn, processTypeOut}" "typ \<noteq> typ'"
    and "\<forall>t. t \<notin> {outTable typ', balanceTable typ', TableOutputTxsAccumulate} \<longrightarrow> T' t = T t"
  shows "out_ledger lib typ T'"
  using assms(3-) by (intro out_ledger_cong [OF assms(1,2)]) auto

interpretation txs: accumulator TableOutputTxsAccumulate OutputTxsAccumulate_ID "\<lambda>sess. processTransactionsBase lib sess now"
    tx_agrees "ledger lib"
  for lib now
proof unfold_locales
  fix sess v d u d' r
  assume s: "sql_session sess" "processTransactionsBase lib sess now v d = (Inr u, d')" "ledger lib (tabs d)"
    "r \<in> set (tabs d TableOutputTxsAccumulate)" "pending r" "r ''id'' = Some (VS (OutputTxsAccumulate_ID v))" "tx_agrees v r"
  have t: "tx_ledger lib (tabs d)" "out_ledger lib processTypeOut (tabs d)" "out_ledger lib processTypeIn (tabs d)"
    using s(3) by (simp_all add: ledger_def)
  note b = processTransactionsBase_ledger [OF s(1,2) t(1) s(4-)]
  then have ok: "tables_ok (tabs d')" by (simp add: tx_ledger_def)
  have "out_ledger lib processTypeOut (tabs d')" by (rule out_ledger_cong [OF t(2) ok]) (simp_all add: b)
  moreover have "out_ledger lib processTypeIn (tabs d')" by (rule out_ledger_cong [OF t(3) ok]) (simp_all add: b)
  ultimately show "ledger lib (tabs d') \<and> tabs d' TableOutputTxsAccumulate = marked {OutputTxsAccumulate_ID v} (tabs d TableOutputTxsAccumulate)"
    using b by (simp add: ledger_def)
qed (simp_all add: ledger_rows ledger_work)

lemma processOutputsBase_books:
  assumes "sql_session sess" "typ \<in> {processTypeIn, processTypeOut}" "processOutputsBase lib sess typ now v d = (Inr u, d')" "ledger lib (tabs d)"
    "r \<in> set (tabs d (outTable typ))" "pending r" "r ''id'' = Some (VS (OutputAddressAccumulate_ID v))" "out_agrees v r"
  shows "ledger lib (tabs d') \<and> tabs d' (outTable typ) = marked {OutputAddressAccumulate_ID v} (tabs d (outTable typ))"
proof -
  have t: "tx_ledger lib (tabs d)" "typ' \<in> {processTypeIn, processTypeOut} \<Longrightarrow> out_ledger lib typ' (tabs d)" for typ'
    using assms(4) by (auto simp: ledger_def)
  note b = processOutputsBase_ledger [OF assms(1-3) t(2) t(1) assms(5-), OF assms(2)]
  then have "tables_ok (tabs d')" by (simp add: tx_ledger_def)
  then have "out_ledger lib typ' (tabs d')" if "typ' \<in> {processTypeIn, processTypeOut}" for typ'
    using out_other_ledger [OF t(2) [OF that] _ that assms(2)] b by (cases "typ' = typ") simp_all
  with b show ?thesis by (simp add: ledger_def)
qed

lemmas processOutputsBase_out = processOutputsBase_books [of _ processTypeOut, simplified]
lemmas processOutputsBase_in = processOutputsBase_books [of _ processTypeIn, simplified]

interpretation outs: accumulator TableOutputAddressAccumulateOut OutputAddressAccumulate_ID
    "\<lambda>sess. processOutputsBase lib sess processTypeOut now" out_agrees "ledger lib"
  for lib now
  by unfold_locales (simp_all add: ledger_rows ledger_work processOutputsBase_out)

interpretation ins: accumulator TableOutputAddressAccumulateIn OutputAddressAccumulate_ID
    "\<lambda>sess. processOutputsBase lib sess processTypeIn now" out_agrees "ledger lib"
  for lib now
  by unfold_locales (simp_all add: ledger_rows ledger_work processOutputsBase_in)

lemma shuffle_same:
  assumes "\<forall>xs. mset (shuffle xs) = mset xs"
  shows "set (shuffle xs) = set xs \<and> length (shuffle xs) = length xs"
  using assms by (metis set_mset_mset size_mset)

text \<open>The rows that a pass over the transactions reads.\<close>

lemma processTransactionsPre_ok:
  assumes "sql_session sess" "\<forall>xs. mset (shuffle xs) = mset xs" "ledger lib (tabs d)" "processTransactionsPre sess shuffle d = (Inr vs, d1)"
  shows "tabs d1 = tabs d
    \<and> (\<forall>v \<in> set vs. \<exists>x \<in> set (tabs d TableOutputTxsAccumulate). pending x \<and> x ''id'' = Some (VS (OutputTxsAccumulate_ID v)) \<and> tx_agrees v x)
    \<and> (length vs < RowLimitValue \<longrightarrow> (\<forall>x \<in> set (tabs d TableOutputTxsAccumulate). pending x \<longrightarrow> id_in (OutputTxsAccumulate_ID ` set vs) x))"
proof -
  let ?wt = TableOutputTxsAccumulate
  from assms(4) obtain rs where l: "load_rows sess ?wt [Eq ''processed'' (VI 0)] d = (Inr rs, d1)"
    and vs: "vs = shuffle (map row_of_OutputTxsAccumulate (take RowLimitValue (sort_key (\<lambda>r. getT r ''created_at'') rs)))"
    unfolding processTransactionsPre_def by (elim go_bind_Inr) (simp add: go_return_def)
  note sh = shuffle_same [OF assms(2)]
  have rs: "set rs = {x \<in> set (tabs d ?wt). pending x}" and t: "tabs d1 = tabs d"
    using load_rows_ok [OF assms(1) l] by (auto simp: sql_select_def matches_def pending_def)
  have key: "x ''id'' = Some (VS (OutputTxsAccumulate_ID (row_of_OutputTxsAccumulate x)))" if "x \<in> set (tabs d ?wt)" for x
    using ledger_work [OF assms(3), of ?wt] that by (fastforce simp: work_ok_def row_of_OutputTxsAccumulate_def getS_def)
  have agr: "tx_agrees (row_of_OutputTxsAccumulate x) x" for x by (simp add: tx_agrees_def row_of_OutputTxsAccumulate_def)
  have "\<exists>x \<in> set (tabs d ?wt). pending x \<and> x ''id'' = Some (VS (OutputTxsAccumulate_ID v)) \<and> tx_agrees v x" if "v \<in> set vs" for v
  proof -
    from that obtain x where "x \<in> set rs" "v = row_of_OutputTxsAccumulate x" using set_take_subset by (force simp: vs sh)
    with key agr rs show ?thesis by blast
  qed
  moreover have "id_in (OutputTxsAccumulate_ID ` set vs) x" if "length vs < RowLimitValue" "x \<in> set (tabs d ?wt)" "pending x" for x
  proof -
    from that(1) have "set vs = row_of_OutputTxsAccumulate ` set rs" by (simp add: vs sh)
    with that key [OF that(2)] rs show ?thesis by (auto simp: id_in_def)
  qed
  ultimately show ?thesis using t by blast
qed

lemma processTransactions_run:
  "processTransactionsPre sess shuffle d = (Inr vs, d1) \<Longrightarrow> processTransactions lib sess now shuffle d =
     map_option (\<lambda>(r, d''). (map_sum id (\<lambda>_. length vs) r, d''))
      (batch_loop OutputTxsAccumulate_ID (\<lambda>w ids. RepeatForLock (process_locked sess TableOutputTxsAccumulate w ids (processTransactionsBase lib sess now)))
         vs Map.empty [] d1)"
  by (simp add: processTransactions_def processTransactionsPost_def)

text \<open>C32. The number of transactions of every balance is the number of rows of the work table that are
  done and belong to its chain, asset and address, and the books of received and sent outputs stay right: no
  pass over the table, whether it succeeds or fails at any statement, counts a row twice or marks a row that it
  did not count. A pass that succeeds with less than a full read leaves no pending row.\<close>

theorem processTransactions_ledger:
  assumes "sql_session sess" "\<forall>xs. mset (shuffle xs) = mset xs" "ledger lib (tabs d)"
    and "processTransactions lib sess now shuffle d = Some (r, d')"
  shows "ledger lib (tabs d') \<and> (\<forall>n. r = Inr n \<and> n < RowLimitValue \<longrightarrow> (\<forall>x \<in> set (tabs d' TableOutputTxsAccumulate). \<not> pending x))"
proof (cases "processTransactionsPre sess shuffle d")
  case (Pair q d1)
  show ?thesis
  proof (cases q)
    case (Inl e)
    have "tabs d1 = tabs d" using Pair load_rows_err [OF assms(1)]
      by (auto simp: processTransactionsPre_def go_simps split: prod.splits sum.splits)
    with Pair Inl assms(3,4) show ?thesis by (auto simp: processTransactions_def)
  next
    case (Inr vs)
    note pre = processTransactionsPre_ok [OF assms(1-3) Pair [unfolded Inr]]
    note run = processTransactions_run [OF Pair [unfolded Inr], of lib now, symmetric, unfolded assms(4)]
    from txs.pass [OF assms(1) run] pre assms(3)
    have "ledger lib (tabs d')" and left: "r = Inr n \<Longrightarrow> n = length vs
      \<and> tabs d' TableOutputTxsAccumulate = marked (OutputTxsAccumulate_ID ` set vs) (tabs d TableOutputTxsAccumulate)" for n
      by auto
    then show ?thesis using pre marked_pending by (metis (no_types, lifting))
  qed
qed

text \<open>The outputs that a pass reads, and which of the pending rows it can read.\<close>

definition out_ready :: "tables \<Rightarrow> processType \<Rightarrow> row \<Rightarrow> bool" where
  "out_ready T typ x \<longleftrightarrow> join_rows (T TableOutputs) x \<noteq> [] \<and> (typ = processTypeIn \<longrightarrow> join_rows (T TableOutputsRedeeming) x \<noteq> [])"

lemma processOutputsPre_ok:
  assumes "sql_session sess" "processOutputsPre sess shuffle opr typ d = (Inr vs, d')"
  obtains rs where "tabs d' = tabs d" "set rs \<subseteq> {x \<in> set (tabs d (outTable typ)). pending x}"
    "typ = processTypeOut \<or> \<not> opr \<longrightarrow> set rs = {x \<in> set (tabs d (outTable typ)). pending x}"
    "vs = shuffle (out_rows typ (tabs d TableOutputs) (tabs d TableOutputsRedeeming)
       (out_page opr typ (tabs d TableOutputs) (tabs d TableOutputsRedeeming) rs))"
proof -
  from assms(2) obtain rs d1 outs d2 redeemed d3 where
    l: "load_rows sess (outTable typ) (Eq ''processed'' (VI 0) #
         (if typ = processTypeIn \<and> opr then [Eq ''output_processed'' (VI 1)] else [])) d = (Inr rs, d1)"
      "load_rows sess TableOutputs [] d1 = (Inr outs, d2)" "load_rows sess TableOutputsRedeeming [] d2 = (Inr redeemed, d3)"
    and v: "vs = shuffle (out_rows typ outs redeemed (out_page opr typ outs redeemed rs))" "d' = d3"
    unfolding processOutputsPre_def by (elim go_bind_Inr) (simp add: go_return_def)
  from l [THEN load_rows_ok [OF assms(1)]]
  have "tabs d1 = tabs d" "tabs d2 = tabs d" "tabs d3 = tabs d" "outs = tabs d TableOutputs" "redeemed = tabs d TableOutputsRedeeming"
    and rs: "rs = sql_select (outTable typ) (Eq ''processed'' (VI 0) #
         (if typ = processTypeIn \<and> opr then [Eq ''output_processed'' (VI 1)] else [])) (tabs d)"
    by (simp_all add: sql_select_def matches_def)
  with v show ?thesis by (intro that [of rs]) (auto simp: rs sql_select_def matches_def pending_def split: if_splits)
qed

lemma out_rows_source:
  "v \<in> set (out_rows typ outs redeemed page) \<Longrightarrow> \<exists>x \<in> set page. OutputAddressAccumulate_ID v = getS x ''id'' \<and> out_agrees v x"
  by (auto simp: out_rows_def out_agrees_def)

lemma out_page_sub: "set (out_page opr typ outs redeemed rs) \<subseteq> set rs"
  using set_take_subset by (fastforce simp: out_page_def)

lemma out_rows_all:
  assumes "typ = processTypeOut \<or> \<not> opr" "length (out_rows typ outs redeemed (out_page opr typ outs redeemed rs)) < RowLimitValue"
    and "x \<in> set rs" "join_rows outs x \<noteq> []" "typ = processTypeIn \<longrightarrow> join_rows redeemed x \<noteq> []"
  shows "getS x ''id'' \<in> OutputAddressAccumulate_ID ` set (out_rows typ outs redeemed (out_page opr typ outs redeemed rs))"
proof -
  let ?ok = "\<lambda>r. join_rows outs r \<noteq> [] \<and> (typ = processTypeIn \<and> \<not> opr \<longrightarrow> join_rows redeemed r \<noteq> [])"
  let ?page = "out_page opr typ outs redeemed rs"
  have page: "\<forall>r \<in> set ?page. join_rows outs r \<noteq> [] \<and> (typ = processTypeIn \<longrightarrow> join_rows redeemed r \<noteq> [])"
    using assms(1) set_take_subset by (fastforce simp: out_page_def)
  have len: "length ps \<le> length (out_rows typ outs redeemed ps)"
    if "\<forall>r \<in> set ps. join_rows outs r \<noteq> [] \<and> (typ = processTypeIn \<longrightarrow> join_rows redeemed r \<noteq> [])" for ps
    using that by (induction ps) (auto simp: out_rows_def Suc_le_eq intro: add_pos_nonneg order.strict_trans1)
  from len [OF page] assms(2) have "length ?page < RowLimitValue" by simp
  then have "?page = sort_key (\<lambda>r. getT r ''created_at'') (filter ?ok rs)" by (auto simp: out_page_def)
  with assms(3-) have "x \<in> set ?page" by auto
  with assms(4,5) show ?thesis by (cases "join_rows outs x") (force simp: out_rows_def)+
qed

lemma out_pass:
  assumes "typ \<in> {processTypeIn, processTypeOut}" "sql_session sess"
    and "map_option (\<lambda>(r, d''). (map_sum id (\<lambda>_. length vs) r, d''))
      (batch_loop OutputAddressAccumulate_ID (\<lambda>w ids. RepeatForLock (process_locked sess (outTable typ) w ids (processOutputsBase lib sess typ now)))
         vs Map.empty [] d) = Some (r, d')"
    and "ledger lib (tabs d)"
    and "\<forall>v \<in> set vs. \<exists>x \<in> set (tabs d (outTable typ)). x ''id'' = Some (VS (OutputAddressAccumulate_ID v)) \<and> out_agrees v x"
  shows "ledger lib (tabs d') \<and> (\<forall>n. r = Inr n \<longrightarrow> n = length vs
    \<and> tabs d' (outTable typ) = marked (OutputAddressAccumulate_ID ` set vs) (tabs d (outTable typ)))"
proof (cases "typ = processTypeOut")
  case True
  with outs.pass [OF assms(2), of vs lib now d r d'] assms(3-) show ?thesis by simp
next
  case False
  with assms(1) have "typ = processTypeIn" by simp
  with ins.pass [OF assms(2), of vs lib now d r d'] assms(3-) show ?thesis by simp
qed


end
