(* ===== verification/BalanceLive.thy ===== *)
theory BalanceLive
  imports Balance
begin

text \<open>
  The balance manager on a database on which nothing fails: every step of a batch succeeds, so
  the retries and the event loop end (\<open>runEvent_drains_transactions\<close>). The same lemmas give the
  concrete runs on which the theorems of \<open>Balance\<close> are tried.
\<close>

section \<open>A database on which nothing fails\<close>

text \<open>Every step of a batch then succeeds, so the loops end.\<close>

context reliable_session
begin

lemma raw_total: "sql_apply s (tabs d) = Some T \<Longrightarrow> \<exists>d'. exec_raw sess s d = (Inr (), d') \<and> tabs d' = T"
  using run_total [of s d T] run_ok [of s d "snd (sess_run sess s d)"]
  by (cases "sess_run sess s d") (auto simp: exec_stmt_def)

lemma rows_total: "\<exists>d'. load_rows sess t cs d = (Inr (sql_select t cs (tabs d)), d') \<and> tabs d' = tabs d"
  using load_total [of t cs d] load_ok [of t cs d] load_tabs [of t cs d]
  by (cases "sess_load sess t cs d") (auto simp: load_rows_def)

lemma insert_total: "\<exists>d'. exec_insert sess t et ps d = (Inr (), d') \<and> tabs d' = ins_ignore t ps (tabs d)"
  if "tables_ok (tabs d)"
  using exec_stmt_total [of "InsertInto t ps" d True "EventErr et False"] that by (simp add: exec_insert_def ins_ignore_def)

lemma mark_total: "\<exists>d'. exec_raw sess (UpdateSet wt [(''processed'', VI 1)] [Eq ''id'' (VS k)]) d = (Inr (), d')"
  if "tables_ok (tabs d)" "unique_keys wt = [[''id'']]"
proof -
  have "stmt_safe (UpdateSet wt [(''processed'', VI 1)] [Eq ''id'' (VS k)])" using that(2) by (simp add: norm_pairs_def ToLower_columns)
  from exec_stmt_total [OF this that(1), of False "\<lambda>e. e"] show ?thesis by auto
qed

lemma credit_total:
  assumes "tables_ok (tabs d)" "unique_keys bt = [[''id'']]" "tabs d1 = ins_ignore bt ps (tabs d)"
    and "new_row bt ps ''id'' = Some (VS k)" "map_of incs ''id'' = None"
  shows "\<exists>d2 d3. lock_balance sess bt k d1 = (Inr (), d2)
    \<and> exec_raw sess (UpdateAdd bt incs [(''updated_at'', VT now)] [Eq ''id'' (VS k)]) d2 = (Inr (), d3) \<and> tables_ok (tabs d3)"
proof -
  obtain d2 where d2: "load_rows sess bt [Eq ''id'' (VS k)] d1 = (Inr (sql_select bt [Eq ''id'' (VS k)] (tabs d1)), d2)" "tabs d2 = tabs d1"
    using rows_total by blast
  have "list_ex (conflicts bt (new_row bt ps)) (tabs d1 bt)"
    unfolding assms(3) by (rule ins_ignore_taken) (simp add: assms(2,4))
  then have "\<exists>x \<in> set (tabs d1 bt). x ''id'' = Some (VS k)"
    by (auto simp: list_ex_iff conflicts_def agree_on_def assms(2,4))
  then obtain x xs where x: "sql_select bt [Eq ''id'' (VS k)] (tabs d1) = x # xs"
    by (cases "sql_select bt [Eq ''id'' (VS k)] (tabs d1)") (auto simp: sql_select_def matches_def filter_empty_conv)
  then have "getS x ''id'' = k" by (auto simp: sql_select_def matches_def filter_eq_Cons_iff getS_def)
  with d2 x have lock: "lock_balance sess bt k d1 = (Inr (), d2)" by (simp add: lock_balance_def go_simps)
  let ?f = "\<lambda>r. if matches [Eq ''id'' (VS k)] r then add_cols incs r ++ map_of (norm_pairs [(''updated_at'', VT now)]) else r"
  have "keys_ok bt (map ?f (tabs d2 bt))"
    using assms(1,5) by (intro keys_ok_update)
      (auto simp: d2(2) assms(2,3) add_cols_def norm_pairs_def ToLower_columns map_add_def ins_ignore_keys [unfolded tables_ok_def] tables_ok_def)
  then have "\<exists>T. sql_apply (UpdateAdd bt incs [(''updated_at'', VT now)] [Eq ''id'' (VS k)]) (tabs d2) = Some T"
    by (simp add: sql_update_def Let_def)
  then obtain T d3 where T: "sql_apply (UpdateAdd bt incs [(''updated_at'', VT now)] [Eq ''id'' (VS k)]) (tabs d2) = Some T"
    "exec_raw sess (UpdateAdd bt incs [(''updated_at'', VT now)] [Eq ''id'' (VS k)]) d2 = (Inr (), d3)" "tabs d3 = T"
    using raw_total by blast
  have "tables_ok (tabs d2)" using assms(1) by (simp add: d2(2) assms(3) ins_ignore_keys)
  with T sql_apply_keys lock show ?thesis by blast
qed

lemma with_tx_if_total:
  assumes "\<And>d1. tabs d1 = tabs d \<Longrightarrow> \<exists>b d2. body d1 = (Inr b, d2)"
  shows "\<exists>d'. with_tx_if sess body d = (Inr (), d')"
proof -
  obtain d1 where d1: "sess_begin sess d = (None, d1)" "tabs d1 = tabs d"
    using begin_total [of d] begin_tabs [of d] by (cases "sess_begin sess d") auto
  from assms [OF d1(2)] obtain b d2 where "body d1 = (Inr b, d2)" by blast
  moreover obtain d3 where "sess_commit sess d2 = (None, d3)" using commit_total [of d2] by (cases "sess_commit sess d2") auto
  ultimately show ?thesis using d1 by (cases b) (simp_all add: with_tx_if_def)
qed

end

lemma RepeatForLock_once: "f d = (Inr (), d') \<Longrightarrow> RepeatForLock f d = Some (Inr (), d')"
  by (subst RepeatForLock.simps) simp

lemma ComputeID_total:
  assumes "\<forall>b. \<exists>i. ToID lib b = Inr i"
  shows "\<exists>b'. AccumulateBalancesTransactions_ComputeID lib b = Inr b'" "\<exists>a'. AccumulateBalancesAmount_ComputeID lib a = Inr a'"
    "\<exists>c'. OutputTxsAccumulate_ComputeID lib c = Inr c'"
proof -
  have "\<exists>i. ToID lib (ComputeHash256 lib (bytes_of_string s)) = Inr i" for s using assms by blast
  then show "\<exists>b'. AccumulateBalancesTransactions_ComputeID lib b = Inr b'" "\<exists>a'. AccumulateBalancesAmount_ComputeID lib a = Inr a'"
    "\<exists>c'. OutputTxsAccumulate_ComputeID lib c = Inr c'"
    unfolding AccumulateBalancesTransactions_ComputeID_def AccumulateBalancesAmount_ComputeID_def OutputTxsAccumulate_ComputeID_def Let_def
    by (metis (no_types, lifting) sum.case(2))+
qed

lemma processTransactionsBase_total:
  assumes "reliable_session sess" "tables_ok (tabs d)" "\<forall>b. \<exists>i. ToID lib b = Inr i"
  shows "\<exists>d'. processTransactionsBase lib sess now v d = (Inr (), d')"
proof -
  let ?bt = TableAccumulateBalancesTransactions
  have s: "sql_session sess" using assms(1) by (rule reliable_session.axioms)
  obtain d1 where d1: "exec_raw sess (UpdateSet TableOutputTxsAccumulate [(''processed'', VI 1)] [Eq ''id'' (VS (OutputTxsAccumulate_ID v))]) d = (Inr (), d1)"
    using reliable_session.mark_total [OF assms(1,2)] by (fastforce simp: unique_keys_def)
  note ok1 = mark_step [OF s assms(2) d1, THEN conjunct1]
  obtain b where b: "AccumulateBalancesTransactions_ComputeID lib
            (zero_AccumulateBalancesTransactions\<lparr>AccumulateBalancesTransactions_ChainID := OutputTxsAccumulate_ChainID v,
               AccumulateBalancesTransactions_AssetID := OutputTxsAccumulate_AssetID v, AccumulateBalancesTransactions_Address := OutputTxsAccumulate_Address v,
               AccumulateBalancesTransactions_UpdatedAt := time_Unix 1 0\<rparr>) = Inr b"
    using ComputeID_total(1) [OF assms(3)] by blast
  obtain d2 where d2: "persist_exec sess (PInsertAccumulateBalancesTransactions b) d1 = (Inr (), d2)"
    "tabs d2 = ins_ignore ?bt (AccumulateBalancesTransactions_cols b) (tabs d1)"
    using reliable_session.insert_total [OF assms(1) ok1] by (fastforce simp: InsertAccumulateBalancesTransactions_def)
  obtain d3 d4 where d34: "lock_balance sess ?bt (AccumulateBalancesTransactions_ID b) d2 = (Inr (), d3)"
    "exec_raw sess (UpdateAdd ?bt [(''transaction_count'', 1)] [(''updated_at'', VT now)] [Eq ''id'' (VS (AccumulateBalancesTransactions_ID b))]) d3 = (Inr (), d4)"
    using reliable_session.credit_total [OF assms(1) ok1 _ d2(2), of "AccumulateBalancesTransactions_ID b" "[(''transaction_count'', 1)]" now]
    by (fastforce simp: dao_simps AccumulateBalancesTransactions_cols_def)
  show ?thesis by (simp only: processTransactionsBase_def go_simps d1 b d2(1) d34 prod.case sum.case) simp
qed

text \<open>A work table whose rows can be processed: \<open>ready\<close> is what the processing of a row needs of the other tables.\<close>

locale live_accumulator = accumulator +
  fixes ready :: "'a \<Rightarrow> tables \<Rightarrow> bool"
  assumes base_total: "reliable_session sess \<Longrightarrow> I (tabs d) \<Longrightarrow> ready v (tabs d) \<Longrightarrow> \<exists>d'. base sess v d = (Inr (), d')"
    and base_ready: "sql_session sess \<Longrightarrow> base sess v d = (Inr u, d') \<Longrightarrow> I (tabs d) \<Longrightarrow> r \<in> set (tabs d wt) \<Longrightarrow> pending r
      \<Longrightarrow> r ''id'' = Some (VS (keyv v)) \<Longrightarrow> agrees v r \<Longrightarrow> ready w (tabs d') = ready w (tabs d)"
begin

lemma rows_loop_total:
  assumes "reliable_session sess"
    and "I (tabs d)" "fit_map w (tabs d wt)" "set rs \<subseteq> set (tabs d wt)" "distinct (map (\<lambda>r. r ''id'') rs)"
    and "\<forall>r \<in> set rs. pending r \<and> (\<exists>v. w (getS r ''id'') = Some v \<and> ready v (tabs d))"
  shows "\<exists>d'. go_for (\<lambda>r. case w (getS r ''id'') of None \<Rightarrow> go_raise nil_pointer | Some v \<Rightarrow> base sess v) rs d = (Inr (), d')
    \<and> (\<forall>v. ready v (tabs d') = ready v (tabs d))"
  using assms(2-)
proof (induction rs arbitrary: d)
  case Nil
  then show ?case by (simp add: go_simps)
next
  case (Cons r rs)
  let ?f = "\<lambda>r. case w (getS r ''id'') of None \<Rightarrow> go_raise nil_pointer | Some v \<Rightarrow> base sess v"
  have s: "sql_session sess" using assms(1) by (rule reliable_session.axioms)
  from Cons.prems I_row [of "tabs d" r] obtain k v where k: "r ''id'' = Some (VS k)" and v: "w k = Some v" "ready v (tabs d)"
    by (auto simp: getS_def)
  from base_total [OF assms(1) Cons.prems(1) v(2)] obtain d1 where b: "base sess v d = (Inr (), d1)" by blast
  from Cons.prems(2) v have kv: "keyv v = k" "fits v (tabs d wt)" by (auto simp: fit_map_def)
  have r: "r \<in> set (tabs d wt)" "pending r" "agrees v r" "r ''id'' = Some (VS (keyv v))" using Cons.prems k kv by (auto simp: fits_def)
  note one = base_ok [OF s b Cons.prems(1) r(1,2,4,3)]
  have rd: "ready w' (tabs d1) = ready w' (tabs d)" for w' by (rule base_ready [OF s b Cons.prems(1) r(1,2,4,3)])
  have "\<forall>r' \<in> set rs. r' ''id'' \<noteq> Some (VS k)" using Cons.prems(4) k by (auto simp: image_iff)
  then have "set rs \<subseteq> set (tabs d1 wt)" using marked_keeps [of rs k "tabs d wt"] one kv Cons.prems(3) by auto
  with Cons.IH [of d1] one rd Cons.prems obtain d' where "go_for ?f rs d1 = (Inr (), d')" "\<forall>v. ready v (tabs d') = ready v (tabs d)"
    by auto
  with b k v show ?case by (auto simp: go_simps getS_def)
qed

lemma locked_total:
  assumes "reliable_session sess" "I (tabs d)" "fit_map w (tabs d wt)" "\<forall>k \<in> set ids. \<exists>v. w k = Some v \<and> ready v (tabs d)"
  shows "\<exists>d'. process_locked sess wt w ids (base sess) d = (Inr (), d') \<and> (\<forall>v. ready v (tabs d') = ready v (tabs d))"
proof -
  let ?cs = "[Eq ''processed'' (VI 0), In ''id'' (map VS ids)]" and ?rs = "sql_select wt [Eq ''processed'' (VI 0), In ''id'' (map VS ids)] (tabs d)"
  let ?loop = "go_for (\<lambda>r. case w (getS r ''id'') of None \<Rightarrow> go_raise nil_pointer | Some v \<Rightarrow> base sess v)"
  let ?body = "go_bind (load_rows sess wt ?cs) (\<lambda>rs. if rs = [] then go_return False else go_then (?loop rs) (go_return True))"
  have s: "sql_session sess" using assms(1) by (rule reliable_session.axioms)
  have rs: "set ?rs \<subseteq> set (tabs d wt)" "\<forall>r \<in> set ?rs. pending r \<and> (\<exists>v. w (getS r ''id'') = Some v \<and> ready v (tabs d))"
    using assms(4) by (auto simp: sql_select_def matches_def pending_def getS_def split: option.splits)
  have dist: "distinct (map (\<lambda>r. r ''id'') ?rs)"
    using I_ids [OF assms(2)] by (simp add: sql_select_def distinct_map_filter)
  have body: "\<exists>b d2. ?body d1 = (Inr b, d2) \<and> (\<forall>v. ready v (tabs d2) = ready v (tabs d))" if t: "tabs d1 = tabs d" for d1
  proof -
    obtain d3 where d3: "load_rows sess wt ?cs d1 = (Inr ?rs, d3)" "tabs d3 = tabs d"
      using reliable_session.rows_total [OF assms(1), of wt ?cs d1] t by auto
    obtain d4 where "?loop ?rs d3 = (Inr (), d4)" "\<forall>v. ready v (tabs d4) = ready v (tabs d)"
      using rows_loop_total [OF assms(1), of d3 w ?rs] assms(2,3) rs dist d3(2) by auto
    with d3 show ?thesis by (auto simp: go_simps)
  qed
  then obtain d' where run: "with_tx_if sess ?body d = (Inr (), d')"
    using reliable_session.with_tx_if_total [OF assms(1), of d ?body] by blast
  from s run have "\<forall>v. ready v (tabs d') = ready v (tabs d)"
  proof (cases rule: with_tx_if_cases)
    case kept
    then show ?thesis by simp
  next
    case (committed d1 d2)
    with body [of d1] show ?thesis by simp
  qed
  with run show ?thesis by (auto simp: process_locked_def)
qed

lemma batches_total:
  assumes "reliable_session sess" "I (tabs d)" "fit_map w (tabs d wt)" "\<forall>v \<in> set vs. fits v (tabs d wt) \<and> ready v (tabs d)"
    and "\<forall>k \<in> set ids. \<exists>v. w k = Some v \<and> ready v (tabs d)"
  shows "\<exists>d'. batch_loop keyv (\<lambda>w ids. RepeatForLock (process_locked sess wt w ids (base sess))) vs w ids d = Some (Inr (), d')"
  using assms(2-)
proof (induction vs arbitrary: w ids d)
  case Nil
  from locked_total [OF assms(1) Nil.prems(1,2,4)] RepeatForLock_once show ?case by fastforce
next
  case (Cons v vs)
  let ?w = "w(keyv v \<mapsto> v)" and ?ids = "ids @ [keyv v]"
  have s: "sql_session sess" using assms(1) by (rule reliable_session.axioms)
  have fit: "fit_map ?w (tabs d wt)" using Cons.prems by (simp add: fit_map_upd)
  have rd: "\<forall>k \<in> set ?ids. \<exists>v. ?w k = Some v \<and> ready v (tabs d)" using Cons.prems by auto
  show ?case
  proof (cases "length ?ids > LockSize")
    case False
    have "\<exists>d'. batch_loop keyv (\<lambda>w ids. RepeatForLock (process_locked sess wt w ids (base sess))) vs ?w ?ids d = Some (Inr (), d')"
      by (rule Cons.IH [OF Cons.prems(1) fit _ rd]) (use Cons.prems(3) in auto)
    with False show ?thesis by (simp add: Let_def)
  next
    case True
    from locked_total [OF assms(1) Cons.prems(1) fit rd] obtain d1 where
      d1: "process_locked sess wt ?w ?ids (base sess) d = (Inr (), d1)" "\<forall>v. ready v (tabs d1) = ready v (tabs d)" by blast
    from locked_ok [OF s d1(1) Cons.prems(1) fit] have "I (tabs d1)" "tabs d1 wt = marked (set ?ids) (tabs d wt)" by auto
    with Cons.IH [of d1 Map.empty "[]"] Cons.prems(3) d1(2) obtain d' where
      "batch_loop keyv (\<lambda>w ids. RepeatForLock (process_locked sess wt w ids (base sess))) vs Map.empty [] d1 = Some (Inr (), d')"
      by (auto simp: fit_map_def)
    with True RepeatForLock_once [of "process_locked sess wt ?w ?ids (base sess)", OF d1(1)] show ?thesis by (simp add: Let_def)
  qed
qed

end

lemma add_balance_total:
  assumes "reliable_session sess" "typ \<in> {processTypeIn, processTypeOut}" "tables_ok (tabs d)" "\<forall>b. \<exists>i. ToID lib b = Inr i"
  shows "\<exists>d'. add_balance lib sess typ now txid bt d = (Inr (), d') \<and> tables_ok (tabs d')"
proof -
  obtain b tot where bt: "bt = (b, tot)" by (cases bt)
  obtain c where c: "OutputTxsAccumulate_ComputeID lib
         (zero_OutputTxsAccumulate\<lparr>OutputTxsAccumulate_ChainID := AccumulateBalancesAmount_ChainID b,
            OutputTxsAccumulate_AssetID := AccumulateBalancesAmount_AssetID b, OutputTxsAccumulate_Address := AccumulateBalancesAmount_Address b,
            OutputTxsAccumulate_TransactionID := txid, OutputTxsAccumulate_CreatedAt := now\<rparr>) = Inr c"
    using ComputeID_total(3) [OF assms(4)] by blast
  obtain d1 where d1: "persist_exec sess (PInsertOutputTxsAccumulate c) d = (Inr (), d1)" "tables_ok (tabs d1)"
    using reliable_session.insert_total [OF assms(1,3)] assms(3) ins_ignore_keys by (fastforce simp: InsertOutputTxsAccumulate_def)
  obtain a where a: "AccumulateBalancesAmount_ComputeID lib (b\<lparr>AccumulateBalancesAmount_UpdatedAt := time_Unix 1 0\<rparr>) = Inr a"
    using ComputeID_total(2) [OF assms(4)] by blast
  let ?cols = "if typ = processTypeOut then AccumulateBalancesReceived_cols a else AccumulateBalancesSent_cols a"
  obtain d2 where d2: "insert_balance sess typ a d1 = (Inr (), d2)" "tabs d2 = ins_ignore (balanceTable typ) ?cols (tabs d1)"
    using reliable_session.insert_total [OF assms(1) d1(2)] assms(2)
    by (fastforce simp: insert_balance_def InsertAccumulateBalancesReceived_def InsertAccumulateBalancesSent_def)
  have "new_row (balanceTable typ) ?cols ''id'' = Some (VS (AccumulateBalancesAmount_ID a))" "unique_keys (balanceTable typ) = [[''id'']]"
    using assms(2) by (auto simp: dao_simps AccumulateBalancesReceived_cols_def AccumulateBalancesSent_cols_def)
  then obtain d3 d4 where d34: "lock_balance sess (balanceTable typ) (AccumulateBalancesAmount_ID a) d2 = (Inr (), d3)"
    "exec_raw sess (UpdateAdd (balanceTable typ) [(''utxo_count'', 1), (''total_amount'', tot)] [(''updated_at'', VT now)]
       [Eq ''id'' (VS (AccumulateBalancesAmount_ID a))]) d3 = (Inr (), d4)" "tables_ok (tabs d4)"
    using reliable_session.credit_total [OF assms(1) d1(2) _ d2(2), of "AccumulateBalancesAmount_ID a" "[(''utxo_count'', 1), (''total_amount'', tot)]" now]
    by auto
  show ?thesis using d34(3) by (simp only: bt add_balance_def go_simps c d1(1) a d2(1) d34(1,2) prod.case sum.case) simp
qed

definition out_balances :: "OutputAddressAccumulate \<Rightarrow> tables \<Rightarrow> (AccumulateBalancesAmount \<times> int) list" where
  "out_balances v T = group_balances (sql_select TableOutputs [Eq ''id'' (VS (OutputAddressAccumulate_OutputID v))] T)
     (sql_select TableOutputAddresses [Eq ''output_id'' (VS (OutputAddressAccumulate_OutputID v)), Eq ''address'' (VS (OutputAddressAccumulate_Address v))] T)"

lemma processOutputsBase_total:
  assumes "reliable_session sess" "typ \<in> {processTypeIn, processTypeOut}" "tables_ok (tabs d)" "\<forall>b. \<exists>i. ToID lib b = Inr i" "out_balances v (tabs d) \<noteq> []"
  shows "\<exists>d'. processOutputsBase lib sess typ now v d = (Inr (), d')"
proof -
  have s: "sql_session sess" using assms(1) by (rule reliable_session.axioms)
  obtain d1 where d1: "exec_raw sess (UpdateSet (outTable typ) [(''processed'', VI 1)] [Eq ''id'' (VS (OutputAddressAccumulate_ID v))]) d = (Inr (), d1)"
    using reliable_session.mark_total [OF assms(1,3), of "outTable typ"] assms(2) by (fastforce simp: unique_keys_def)
  note m = mark_step [OF s assms(3) d1]
  obtain d2 where d2: "load_balances sess (OutputAddressAccumulate_OutputID v) (OutputAddressAccumulate_Address v) d1 = (Inr (out_balances v (tabs d)), d2)"
    "tabs d2 = tabs d1"
  proof -
    let ?c1 = "[Eq ''id'' (VS (OutputAddressAccumulate_OutputID v))]"
    let ?c2 = "[Eq ''output_id'' (VS (OutputAddressAccumulate_OutputID v)), Eq ''address'' (VS (OutputAddressAccumulate_Address v))]"
    obtain e1 where e1: "load_rows sess TableOutputs ?c1 d1 = (Inr (sql_select TableOutputs ?c1 (tabs d1)), e1)" "tabs e1 = tabs d1"
      using reliable_session.rows_total [OF assms(1)] by blast
    obtain e2 where e2: "load_rows sess TableOutputAddresses ?c2 e1 = (Inr (sql_select TableOutputAddresses ?c2 (tabs e1)), e2)" "tabs e2 = tabs e1"
      using reliable_session.rows_total [OF assms(1)] by blast
    have "tabs d1 TableOutputs = tabs d TableOutputs" "tabs d1 TableOutputAddresses = tabs d TableOutputAddresses"
      using m assms(2) by auto
    with e1 e2 that show ?thesis by (simp add: load_balances_def go_simps out_balances_def sql_select_def)
  qed
  have "\<exists>d'. go_for (add_balance lib sess typ now txid) bs d = (Inr (), d')" if "tables_ok (tabs d)" for bs txid d
    using that
  proof (induction bs arbitrary: d)
    case (Cons b bs)
    from add_balance_total [OF assms(1,2) Cons.prems assms(4)] obtain e where
      "add_balance lib sess typ now txid b d = (Inr (), e)" "tables_ok (tabs e)" by blast
    with Cons.IH [of e] show ?case by (auto simp: go_simps)
  qed (simp add: go_simps)
  then obtain d3 where "go_for (add_balance lib sess typ now (OutputAddressAccumulate_TransactionID v)) (out_balances v (tabs d)) d2 = (Inr (), d3)"
    using m d2(2) by fastforce
  then show ?thesis using assms(5) by (simp add: processOutputsBase_def go_simps d1 d2(1))
qed

interpretation live_txs: live_accumulator TableOutputTxsAccumulate OutputTxsAccumulate_ID "\<lambda>sess. processTransactionsBase lib sess now"
    tx_agrees "ledger lib" "\<lambda>v T. \<forall>b. \<exists>i. ToID lib b = Inr i"
  for lib now
proof unfold_locales
  fix sess and d :: dbstate and v
  assume "reliable_session sess" "ledger lib (tabs d)" "\<forall>b. \<exists>i. ToID lib b = Inr i"
  then show "\<exists>d'. processTransactionsBase lib sess now v d = (Inr (), d')"
    by (intro processTransactionsBase_total) (simp_all add: ledger_def tx_ledger_def)
qed simp

interpretation live_outs: live_accumulator TableOutputAddressAccumulateOut OutputAddressAccumulate_ID
    "\<lambda>sess. processOutputsBase lib sess processTypeOut now" out_agrees "ledger lib"
    "\<lambda>v T. out_balances v T \<noteq> [] \<and> (\<forall>b. \<exists>i. ToID lib b = Inr i)"
  for lib now
proof unfold_locales
  fix sess and d :: dbstate and v
  assume "reliable_session sess" "ledger lib (tabs d)" "out_balances v (tabs d) \<noteq> [] \<and> (\<forall>b. \<exists>i. ToID lib b = Inr i)"
  then show "\<exists>d'. processOutputsBase lib sess processTypeOut now v d = (Inr (), d')"
    by (intro processOutputsBase_total) (simp_all add: ledger_def tx_ledger_def)
next
  fix sess and d d' :: dbstate and v w u r
  assume "sql_session sess" "processOutputsBase lib sess processTypeOut now v d = (Inr u, d')" "ledger lib (tabs d)"
    "r \<in> set (tabs d TableOutputAddressAccumulateOut)" "pending r" "r ''id'' = Some (VS (OutputAddressAccumulate_ID v))" "out_agrees v r"
  then have "\<forall>t. t \<notin> {TableOutputAddressAccumulateOut, TableAccumulateBalancesReceived, TableOutputTxsAccumulate} \<longrightarrow> tabs d' t = tabs d t"
    using processOutputsBase_ledger [of sess processTypeOut lib now v d u d' r] by (simp add: ledger_def)
  then show "(out_balances w (tabs d') \<noteq> [] \<and> (\<forall>b. \<exists>i. ToID lib b = Inr i)) = (out_balances w (tabs d) \<noteq> [] \<and> (\<forall>b. \<exists>i. ToID lib b = Inr i))"
    by (simp add: out_balances_def sql_select_def)
qed

lemma processTransactions_total:
  assumes "reliable_session sess" "\<forall>xs. mset (shuffle xs) = mset xs" "\<forall>b. \<exists>i. ToID lib b = Inr i" "ledger lib (tabs d)"
  shows "\<exists>n d'. processTransactions lib sess now shuffle d = Some (Inr n, d') \<and> ledger lib (tabs d')
    \<and> (if n < RowLimitValue then \<forall>x \<in> set (tabs d' TableOutputTxsAccumulate). \<not> pending x
       else length (filter pending (tabs d' TableOutputTxsAccumulate)) < length (filter pending (tabs d TableOutputTxsAccumulate)))"
proof -
  let ?wt = TableOutputTxsAccumulate
  have s: "sql_session sess" using assms(1) by (rule reliable_session.axioms)
  obtain vs d1 where pre: "processTransactionsPre sess shuffle d = (Inr vs, d1)"
    using reliable_session.rows_total [OF assms(1), of ?wt "[Eq ''processed'' (VI 0)]" d] by (auto simp: processTransactionsPre_def go_simps)
  note ok = processTransactionsPre_ok [OF s assms(2,4) pre]
  have fits: "\<forall>v \<in> set vs. txs.fits v (tabs d ?wt)" using txs.source_fits [OF assms(4)] ok by blast
  obtain d' where loop: "batch_loop OutputTxsAccumulate_ID (\<lambda>w ids. RepeatForLock (process_locked sess ?wt w ids (processTransactionsBase lib sess now)))
      vs Map.empty [] d1 = Some (Inr (), d')"
    using live_txs.batches_total [OF assms(1), of lib d1 Map.empty vs "[]" now] ok fits assms(3,4) by (auto simp: txs.fit_map_def)
  with processTransactions_run [OF pre, of lib now] have run: "processTransactions lib sess now shuffle d = Some (Inr (length vs), d')" by simp
  note post = txs.pass [OF s processTransactions_run [OF pre, of lib now, symmetric, unfolded run]]
  then have left: "ledger lib (tabs d')" "tabs d' ?wt = marked (OutputTxsAccumulate_ID ` set vs) (tabs d ?wt)"
    using ok assms(4) by auto
  have "length (filter pending (tabs d' ?wt)) < length (filter pending (tabs d ?wt))" if "\<not> length vs < RowLimitValue"
  proof -
    from that have "vs \<noteq> []" by (auto simp: RowLimitValue_def)
    with ok obtain v x where "v \<in> set vs" "x \<in> set (tabs d ?wt)" "pending x" "x ''id'' = Some (VS (OutputTxsAccumulate_ID v))"
      by (meson list.set_sel(1))
    then show ?thesis unfolding left(2) by (intro marked_less [of x]) (auto simp: id_in_def)
  qed
  moreover have "\<not> pending x" if "length vs < RowLimitValue" "x \<in> set (tabs d' ?wt)" for x
    using that ok marked_pending [of x] left(2) by metis
  ultimately show ?thesis using run left(1) by auto
qed

text \<open>C33. On a database on which nothing fails the processing that a signal starts comes to an end, however
  many rows are pending: it returns with the books right and every transaction counted.\<close>

theorem runEvent_drains_transactions:
  assumes "reliable_session sess" "\<forall>xs. mset (shuffle xs) = mset xs" "\<forall>b. \<exists>i. ToID lib b = Inr i" "ledger lib (tabs d)"
  shows "\<exists>d'. runEvent (processTransactions lib sess now shuffle) 0 d = Some d' \<and> ledger lib (tabs d')
    \<and> (\<forall>x \<in> set (tabs d' TableOutputTxsAccumulate). \<not> pending x)"
proof -
  have "\<exists>d'. runEvent (processTransactions lib sess now shuffle) icnt d = Some d' \<and> ledger lib (tabs d')
    \<and> (\<forall>x \<in> set (tabs d' TableOutputTxsAccumulate). \<not> pending x)" if "icnt < retryProcessing" for icnt
    using assms(4) that
  proof (induction "length (filter pending (tabs d TableOutputTxsAccumulate))" arbitrary: d icnt rule: less_induct)
    case less
    from processTransactions_total [OF assms(1-3) less.prems(1), of now] obtain n d1 where
      run: "processTransactions lib sess now shuffle d = Some (Inr n, d1)" "ledger lib (tabs d1)"
      and out: "if n < RowLimitValue then \<forall>x \<in> set (tabs d1 TableOutputTxsAccumulate). \<not> pending x
       else length (filter pending (tabs d1 TableOutputTxsAccumulate)) < length (filter pending (tabs d TableOutputTxsAccumulate))" by blast
    show ?case
    proof (cases "n < RowLimitValue")
      case True
      with run out less.prems(2) show ?thesis by (subst runEvent.simps) simp
    next
      case False
      with less.hyps [of d1 1] run out less.prems(2) show ?thesis
        by (subst runEvent.simps) (simp add: retryProcessing_def)
    qed
  qed
  then show ?thesis by (simp add: retryProcessing_def)
qed

section \<open>Samples\<close>

definition sample_work :: OutputTxsAccumulate where
  "sample_work = zero_OutputTxsAccumulate\<lparr>OutputTxsAccumulate_ID := ''w''\<rparr>"

definition sample_txs_db :: dbstate where
  "sample_txs_db = empty_db\<lparr>tabs := ins_ignore TableOutputTxsAccumulate (OutputTxsAccumulate_cols sample_work) (tabs empty_db)\<rparr>"

lemma ledger_empty: "ledger lib (tabs empty_db)"
  by (simp add: ledger_def tx_ledger_def out_ledger_def empty_db_def tables_ok_def keys_ok_def work_ok_def bal_ok_def credit_def owed_def)

lemma sample_txs_ledger: "ledger lib (tabs sample_txs_db)"
proof -
  have e: "tx_ledger lib (tabs empty_db)" "out_ledger lib processTypeOut (tabs empty_db)" "out_ledger lib processTypeIn (tabs empty_db)"
    using ledger_empty by (simp_all add: ledger_def)
  have ok: "tables_ok (tabs sample_txs_db)" using e(1) by (simp add: sample_txs_db_def tx_ledger_def ins_ignore_keys)
  have "tx_ledger lib (tabs sample_txs_db)" using tx_ledger_insert [OF e(1)] by (simp add: sample_txs_db_def)
  moreover have "out_ledger lib processTypeOut (tabs sample_txs_db)"
    by (rule out_ledger_cong [OF e(2) ok]) (simp_all add: sample_txs_db_def)
  moreover have "out_ledger lib processTypeIn (tabs sample_txs_db)"
    by (rule out_ledger_cong [OF e(3) ok]) (simp_all add: sample_txs_db_def)
  ultimately show ?thesis by (simp add: ledger_def)
qed

lemma sample_txs_pending: "filter pending (tabs sample_txs_db TableOutputTxsAccumulate) \<noteq> []"
  by (simp add: sample_txs_db_def ins_ignore_fresh empty_db_def pending_def dao_simps OutputTxsAccumulate_cols_def)

lemma sample_ToID: "\<forall>b. \<exists>i. ToID sample_lib b = Inr i"
  by (simp add: sample_lib_def)

definition sample_outs_db :: dbstate where
  "sample_outs_db = empty_db\<lparr>tabs := (tabs empty_db)
     (TableOutputs := [[''id'' \<mapsto> VS ''o'', ''amount'' \<mapsto> VI 5]],
      TableOutputAddresses := [[''output_id'' \<mapsto> VS ''o'', ''address'' \<mapsto> VS ''a'']],
      TableOutputAddressAccumulateOut := [[''id'' \<mapsto> VS ''w'', ''output_id'' \<mapsto> VS ''o'', ''address'' \<mapsto> VS ''a'', ''processed'' \<mapsto> VI 0]])\<rparr>"

lemma sample_outs_ledger: "ledger lib (tabs sample_outs_db)"
  by (simp add: ledger_def tx_ledger_def out_ledger_def sample_outs_db_def empty_db_def tables_ok_def keys_ok_def work_ok_def bal_ok_def
    credit_def owed_def pending_def)

abbreviation sample_out_row :: OutputAddressAccumulate where
  "sample_out_row \<equiv> zero_OutputAddressAccumulate\<lparr>OutputAddressAccumulate_ID := ''w'', OutputAddressAccumulate_OutputID := ''o'',
     OutputAddressAccumulate_Address := ''a''\<rparr>"

lemma sample_outs_read:
  "\<exists>d'. processOutputsPre ideal (\<lambda>xs. xs) True processTypeOut sample_outs_db = (Inr [sample_out_row], d') \<and> tabs d' = tabs sample_outs_db"
  by (simp add: processOutputsPre_def go_simps load_rows_def mysql_def sql_select_def sample_outs_db_def empty_db_def matches_def
    out_page_def out_rows_def join_rows_def getS_def getT_def RowLimitValue_def zero_OutputAddressAccumulate_def)

lemma sample_outs_run: "\<exists>d'. processOutputs sample_lib ideal 7 (\<lambda>xs. xs) True processTypeOut sample_outs_db = Some (Inr 1, d')"
proof -
  let ?wt = TableOutputAddressAccumulateOut
  obtain d1 where d1: "processOutputsPre ideal (\<lambda>xs. xs) True processTypeOut sample_outs_db = (Inr [sample_out_row], d1)" "tabs d1 = tabs sample_outs_db"
    using sample_outs_read by blast
  have "outs.fits sample_out_row (tabs d1 ?wt)"
    unfolding d1(2) by (rule outs.source_fits [OF sample_outs_ledger]) (simp add: sample_outs_db_def out_agrees_def getS_def)
  moreover have "out_balances sample_out_row (tabs d1) \<noteq> []"
    by (simp add: d1(2) out_balances_def group_balances_def sql_select_def matches_def sample_outs_db_def Let_def)
  ultimately obtain d' where "batch_loop OutputAddressAccumulate_ID
      (\<lambda>w ids. RepeatForLock (process_locked ideal ?wt w ids (processOutputsBase sample_lib ideal processTypeOut 7))) [sample_out_row] Map.empty [] d1 = Some (Inr (), d')"
    using live_outs.batches_total [OF ideal.reliable_session_axioms, of sample_lib d1 Map.empty "[sample_out_row]" "[]" 7]
    by (auto simp: d1(2) sample_outs_ledger outs.fit_map_def sample_ToID)
  with d1 show ?thesis by (simp add: processOutputs_def processOutputsPost_def del: batch_loop.simps)
qed

theorem processTransactions_ledger_witness:
  "\<exists>n d'. processTransactions sample_lib ideal 7 rev sample_txs_db = Some (Inr n, d') \<and> ledger sample_lib (tabs d')"
proof -
  obtain n d' where run: "processTransactions sample_lib ideal 7 rev sample_txs_db = Some (Inr n, d')"
    using processTransactions_total [OF ideal.reliable_session_axioms _ sample_ToID sample_txs_ledger, of rev 7] by auto
  from processTransactions_ledger [OF ideal.sql_session_axioms _ sample_txs_ledger run] run show ?thesis by simp
qed

theorem runEvent_drains_transactions_witness:
  "filter pending (tabs sample_txs_db TableOutputTxsAccumulate) \<noteq> []
    \<and> (\<exists>d'. runEvent (processTransactions sample_lib ideal 7 rev) 0 sample_txs_db = Some d' \<and> filter pending (tabs d' TableOutputTxsAccumulate) = [])"
  using runEvent_drains_transactions [OF ideal.reliable_session_axioms _ sample_ToID sample_txs_ledger, of rev 7] sample_txs_pending
  by (auto simp: filter_empty_conv)


end
