(* ===== verification/DbMock.thy ===== *)
theory DbMock
  imports AvmWriter
begin

text \<open>
  The implementation of \<open>db.Persist\<close> in memory, \<open>src/db/dbmodel_mock.go\<close>, that the tests of the
  writers run on: one map per table, written under a lock. A stored row is a copy of the argument. \<open>Query\<close>
  returns the stored row itself; its callers only read it, so the model returns the value. \<open>mock_exec\<close> is
  the interface over it, an interpretation of \<open>persist_store\<close>.
\<close>

section \<open>The maps\<close>

record MockPersist =
  mp_Transactions :: "string \<rightharpoonup> Transactions"
  mp_Outputs :: "string \<rightharpoonup> Outputs"
  mp_OutputsRedeeming :: "string \<rightharpoonup> OutputsRedeeming"
  mp_CvmTransactions :: "string \<rightharpoonup> CvmTransactions"
  mp_CvmTransactionsTxdata :: "string \<rightharpoonup> CvmTransactionsTxdata"
  mp_CvmBlocks :: "string \<rightharpoonup> CvmBlocks"
  mp_CvmAddresses :: "string \<rightharpoonup> CvmAddresses"
  mp_TransactionsValidator :: "string \<rightharpoonup> TransactionsValidator"
  mp_TransactionsBlock :: "string \<rightharpoonup> TransactionsBlock"
  mp_Rewards :: "string \<rightharpoonup> Rewards"
  mp_Addresses :: "string \<rightharpoonup> Addresses"
  mp_AddressChain :: "string \<rightharpoonup> AddressChain"
  mp_OutputAddresses :: "string \<rightharpoonup> OutputAddresses"
  mp_Assets :: "string \<rightharpoonup> Assets"
  mp_TransactionsEpoch :: "string \<rightharpoonup> TransactionsEpoch"
  mp_PvmBlocks :: "string \<rightharpoonup> PvmBlocks"
  mp_AddressBech32 :: "string \<rightharpoonup> AddressBech32"
  mp_OutputAddressAccumulateOut :: "string \<rightharpoonup> OutputAddressAccumulate"
  mp_OutputAddressAccumulateIn :: "string \<rightharpoonup> OutputAddressAccumulate"
  mp_OutputTxsAccumulate :: "string \<rightharpoonup> OutputTxsAccumulate"
  mp_AccumulateBalancesReceived :: "string \<rightharpoonup> AccumulateBalancesAmount"
  mp_AccumulateBalancesSent :: "string \<rightharpoonup> AccumulateBalancesAmount"
  mp_AccumulateBalancesTransactions :: "string \<rightharpoonup> AccumulateBalancesTransactions"
  mp_TransactionsRewardsOwnersAddress :: "string \<rightharpoonup> TransactionsRewardsOwnersAddress"
  mp_TransactionsRewardsOwnersOutputs :: "string \<rightharpoonup> TransactionsRewardsOwnersOutputs"
  mp_TransactionsRewardsOwners :: "string \<rightharpoonup> TransactionsRewardsOwners"
  mp_TxPool :: "string \<rightharpoonup> TxPool"
  mp_KeyValueStore :: "string \<rightharpoonup> KeyValueStore"
  mp_CvmTransactionsTxdataTrace :: "string \<rightharpoonup> CvmTransactionsTxdataTrace"
  mp_NodeIndex :: "string \<rightharpoonup> NodeIndex"
  mp_CvmLogs :: "string \<rightharpoonup> CvmLogs"
  mp_PvmProposer :: "string \<rightharpoonup> PvmProposer"

definition NewPersistMock :: MockPersist where
  "NewPersistMock = \<lparr>mp_Transactions = Map.empty, mp_Outputs = Map.empty, mp_OutputsRedeeming = Map.empty, mp_CvmTransactions = Map.empty,
     mp_CvmTransactionsTxdata = Map.empty, mp_CvmBlocks = Map.empty, mp_CvmAddresses = Map.empty, mp_TransactionsValidator = Map.empty,
     mp_TransactionsBlock = Map.empty, mp_Rewards = Map.empty, mp_Addresses = Map.empty, mp_AddressChain = Map.empty,
     mp_OutputAddresses = Map.empty, mp_Assets = Map.empty, mp_TransactionsEpoch = Map.empty, mp_PvmBlocks = Map.empty,
     mp_AddressBech32 = Map.empty, mp_OutputAddressAccumulateOut = Map.empty, mp_OutputAddressAccumulateIn = Map.empty, mp_OutputTxsAccumulate = Map.empty,
     mp_AccumulateBalancesReceived = Map.empty, mp_AccumulateBalancesSent = Map.empty, mp_AccumulateBalancesTransactions = Map.empty, mp_TransactionsRewardsOwnersAddress = Map.empty,
     mp_TransactionsRewardsOwnersOutputs = Map.empty, mp_TransactionsRewardsOwners = Map.empty, mp_TxPool = Map.empty, mp_KeyValueStore = Map.empty,
     mp_CvmTransactionsTxdataTrace = Map.empty, mp_NodeIndex = Map.empty, mp_CvmLogs = Map.empty, mp_PvmProposer = Map.empty\<rparr>"

section \<open>Queries and writes\<close>

text \<open>A query returns nil when the row is absent, and never fails.\<close>

definition Mock_QueryTransactions :: "MockPersist \<Rightarrow> Transactions \<Rightarrow> Transactions option" where
  "Mock_QueryTransactions m v = mp_Transactions m (Transactions_ID v)"

definition Mock_InsertTransactions :: "Transactions \<Rightarrow> bool \<Rightarrow> (MockPersist, unit) go" where
  "Mock_InsertTransactions v b m = (Inr (), m\<lparr>mp_Transactions := (mp_Transactions m)(Transactions_ID v \<mapsto> v)\<rparr>)"

definition Mock_QueryOutputsRedeeming :: "MockPersist \<Rightarrow> OutputsRedeeming \<Rightarrow> OutputsRedeeming option" where
  "Mock_QueryOutputsRedeeming m v = mp_OutputsRedeeming m (OutputsRedeeming_ID v)"

definition Mock_InsertOutputsRedeeming :: "OutputsRedeeming \<Rightarrow> bool \<Rightarrow> (MockPersist, unit) go" where
  "Mock_InsertOutputsRedeeming v b m = (Inr (), m\<lparr>mp_OutputsRedeeming := (mp_OutputsRedeeming m)(OutputsRedeeming_ID v \<mapsto> v)\<rparr>)"

definition Mock_QueryOutputs :: "MockPersist \<Rightarrow> Outputs \<Rightarrow> Outputs option" where
  "Mock_QueryOutputs m v = mp_Outputs m (Outputs_ID v)"

definition Mock_InsertOutputs :: "Outputs \<Rightarrow> bool \<Rightarrow> (MockPersist, unit) go" where
  "Mock_InsertOutputs v b m = (Inr (), m\<lparr>mp_Outputs := (mp_Outputs m)(Outputs_ID v \<mapsto> v)\<rparr>)"

definition Mock_QueryAssets :: "MockPersist \<Rightarrow> Assets \<Rightarrow> Assets option" where
  "Mock_QueryAssets m v = mp_Assets m (Assets_ID v)"

definition Mock_InsertAssets :: "Assets \<Rightarrow> bool \<Rightarrow> (MockPersist, unit) go" where
  "Mock_InsertAssets v b m = (Inr (), m\<lparr>mp_Assets := (mp_Assets m)(Assets_ID v \<mapsto> v)\<rparr>)"

definition Mock_QueryAddresses :: "MockPersist \<Rightarrow> Addresses \<Rightarrow> Addresses option" where
  "Mock_QueryAddresses m v = mp_Addresses m (Addresses_Address v)"

definition Mock_InsertAddresses :: "Addresses \<Rightarrow> bool \<Rightarrow> (MockPersist, unit) go" where
  "Mock_InsertAddresses v b m = (Inr (), m\<lparr>mp_Addresses := (mp_Addresses m)(Addresses_Address v \<mapsto> v)\<rparr>)"

definition Mock_QueryAddressChain :: "MockPersist \<Rightarrow> AddressChain \<Rightarrow> AddressChain option" where
  "Mock_QueryAddressChain m v = mp_AddressChain m (AddressChain_Address v @ '':'' @ AddressChain_ChainID v)"

definition Mock_InsertAddressChain :: "AddressChain \<Rightarrow> bool \<Rightarrow> (MockPersist, unit) go" where
  "Mock_InsertAddressChain v b m = (Inr (), m\<lparr>mp_AddressChain := (mp_AddressChain m)(AddressChain_Address v @ '':'' @ AddressChain_ChainID v \<mapsto> v)\<rparr>)"

definition Mock_QueryOutputAddresses :: "MockPersist \<Rightarrow> OutputAddresses \<Rightarrow> OutputAddresses option" where
  "Mock_QueryOutputAddresses m v = mp_OutputAddresses m (OutputAddresses_OutputID v @ '':'' @ OutputAddresses_Address v)"

definition Mock_InsertOutputAddresses :: "OutputAddresses \<Rightarrow> bool \<Rightarrow> (MockPersist, unit) go" where
  "Mock_InsertOutputAddresses v b m = (Inr (), m\<lparr>mp_OutputAddresses := (mp_OutputAddresses m)(OutputAddresses_OutputID v @ '':'' @ OutputAddresses_Address v \<mapsto> v)\<rparr>)"

definition Mock_UpdateOutputAddresses :: "OutputAddresses \<Rightarrow> (MockPersist, unit) go" where
  "Mock_UpdateOutputAddresses v m =
     (case mp_OutputAddresses m (OutputAddresses_OutputID v @ '':'' @ OutputAddresses_Address v) of
        None \<Rightarrow> (Inr (), m)
      | Some fv \<Rightarrow> (Inr (), m\<lparr>mp_OutputAddresses := (mp_OutputAddresses m)(OutputAddresses_OutputID v @ '':'' @ OutputAddresses_Address v \<mapsto> fv\<lparr>OutputAddresses_RedeemingSignature := OutputAddresses_RedeemingSignature v\<rparr>)\<rparr>))"

definition Mock_QueryTransactionsEpoch :: "MockPersist \<Rightarrow> TransactionsEpoch \<Rightarrow> TransactionsEpoch option" where
  "Mock_QueryTransactionsEpoch m v = mp_TransactionsEpoch m (TransactionsEpoch_ID v)"

definition Mock_InsertTransactionsEpoch :: "TransactionsEpoch \<Rightarrow> bool \<Rightarrow> (MockPersist, unit) go" where
  "Mock_InsertTransactionsEpoch v b m = (Inr (), m\<lparr>mp_TransactionsEpoch := (mp_TransactionsEpoch m)(TransactionsEpoch_ID v \<mapsto> v)\<rparr>)"

definition Mock_QueryCvmBlocks :: "MockPersist \<Rightarrow> CvmBlocks \<Rightarrow> CvmBlocks option" where
  "Mock_QueryCvmBlocks m v = mp_CvmBlocks m (CvmBlocks_Block v)"

definition Mock_InsertCvmBlocks :: "CvmBlocks \<Rightarrow> (MockPersist, unit) go" where
  "Mock_InsertCvmBlocks v m = (Inr (), m\<lparr>mp_CvmBlocks := (mp_CvmBlocks m)(CvmBlocks_Block v \<mapsto> v)\<rparr>)"

definition Mock_QueryCvmAddresses :: "MockPersist \<Rightarrow> CvmAddresses \<Rightarrow> CvmAddresses option" where
  "Mock_QueryCvmAddresses m v = mp_CvmAddresses m (CvmAddresses_ID v)"

definition Mock_InsertCvmAddresses :: "CvmAddresses \<Rightarrow> bool \<Rightarrow> (MockPersist, unit) go" where
  "Mock_InsertCvmAddresses v b m = (Inr (), m\<lparr>mp_CvmAddresses := (mp_CvmAddresses m)(CvmAddresses_ID v \<mapsto> v)\<rparr>)"

definition Mock_QueryCvmTransactions :: "MockPersist \<Rightarrow> CvmTransactions \<Rightarrow> CvmTransactions option" where
  "Mock_QueryCvmTransactions m v = mp_CvmTransactions m (CvmTransactions_ID v)"

definition Mock_InsertCvmTransactions :: "CvmTransactions \<Rightarrow> bool \<Rightarrow> (MockPersist, unit) go" where
  "Mock_InsertCvmTransactions v b m = (Inr (), m\<lparr>mp_CvmTransactions := (mp_CvmTransactions m)(CvmTransactions_ID v \<mapsto> v)\<rparr>)"

definition Mock_QueryCvmTransactionsTxdata :: "MockPersist \<Rightarrow> CvmTransactionsTxdata \<Rightarrow> CvmTransactionsTxdata option" where
  "Mock_QueryCvmTransactionsTxdata m v = mp_CvmTransactionsTxdata m (CvmTransactionsTxdata_Hash v)"

definition Mock_InsertCvmTransactionsTxdata :: "CvmTransactionsTxdata \<Rightarrow> bool \<Rightarrow> (MockPersist, unit) go" where
  "Mock_InsertCvmTransactionsTxdata v b m = (Inr (), m\<lparr>mp_CvmTransactionsTxdata := (mp_CvmTransactionsTxdata m)(CvmTransactionsTxdata_Hash v \<mapsto> v)\<rparr>)"

definition Mock_QueryPvmBlocks :: "MockPersist \<Rightarrow> PvmBlocks \<Rightarrow> PvmBlocks option" where
  "Mock_QueryPvmBlocks m v = mp_PvmBlocks m (PvmBlocks_ID v)"

definition Mock_InsertPvmBlocks :: "PvmBlocks \<Rightarrow> bool \<Rightarrow> (MockPersist, unit) go" where
  "Mock_InsertPvmBlocks v b m = (Inr (), m\<lparr>mp_PvmBlocks := (mp_PvmBlocks m)(PvmBlocks_ID v \<mapsto> v)\<rparr>)"

definition Mock_QueryRewards :: "MockPersist \<Rightarrow> Rewards \<Rightarrow> Rewards option" where
  "Mock_QueryRewards m v = mp_Rewards m (Rewards_ID v)"

definition Mock_InsertRewards :: "Rewards \<Rightarrow> bool \<Rightarrow> (MockPersist, unit) go" where
  "Mock_InsertRewards v b m = (Inr (), m\<lparr>mp_Rewards := (mp_Rewards m)(Rewards_ID v \<mapsto> v)\<rparr>)"

definition Mock_UpdateRewardsProcessed :: "Rewards \<Rightarrow> (MockPersist, unit) go" where
  "Mock_UpdateRewardsProcessed v m =
     (case mp_Rewards m (Rewards_ID v) of
        None \<Rightarrow> (Inr (), m)
      | Some fv \<Rightarrow> (Inr (), m\<lparr>mp_Rewards := (mp_Rewards m)(Rewards_ID v \<mapsto> fv\<lparr>Rewards_Processed := Rewards_Processed v\<rparr>)\<rparr>))"

definition Mock_QueryTransactionsValidator :: "MockPersist \<Rightarrow> TransactionsValidator \<Rightarrow> TransactionsValidator option" where
  "Mock_QueryTransactionsValidator m v = mp_TransactionsValidator m (TransactionsValidator_ID v)"

definition Mock_InsertTransactionsValidator :: "TransactionsValidator \<Rightarrow> bool \<Rightarrow> (MockPersist, unit) go" where
  "Mock_InsertTransactionsValidator v b m = (Inr (), m\<lparr>mp_TransactionsValidator := (mp_TransactionsValidator m)(TransactionsValidator_ID v \<mapsto> v)\<rparr>)"

definition Mock_QueryTransactionsBlock :: "MockPersist \<Rightarrow> TransactionsBlock \<Rightarrow> TransactionsBlock option" where
  "Mock_QueryTransactionsBlock m v = mp_TransactionsBlock m (TransactionsBlock_ID v)"

definition Mock_InsertTransactionsBlock :: "TransactionsBlock \<Rightarrow> bool \<Rightarrow> (MockPersist, unit) go" where
  "Mock_InsertTransactionsBlock v b m = (Inr (), m\<lparr>mp_TransactionsBlock := (mp_TransactionsBlock m)(TransactionsBlock_ID v \<mapsto> v)\<rparr>)"

definition Mock_QueryAddressBech32 :: "MockPersist \<Rightarrow> AddressBech32 \<Rightarrow> AddressBech32 option" where
  "Mock_QueryAddressBech32 m v = mp_AddressBech32 m (AddressBech32_Address v)"

definition Mock_InsertAddressBech32 :: "AddressBech32 \<Rightarrow> bool \<Rightarrow> (MockPersist, unit) go" where
  "Mock_InsertAddressBech32 v b m = (Inr (), m\<lparr>mp_AddressBech32 := (mp_AddressBech32 m)(AddressBech32_Address v \<mapsto> v)\<rparr>)"

definition Mock_QueryOutputAddressAccumulateOut :: "MockPersist \<Rightarrow> OutputAddressAccumulate \<Rightarrow> OutputAddressAccumulate option" where
  "Mock_QueryOutputAddressAccumulateOut m v = mp_OutputAddressAccumulateOut m (OutputAddressAccumulate_ID v)"

definition Mock_InsertOutputAddressAccumulateOut :: "OutputAddressAccumulate \<Rightarrow> bool \<Rightarrow> (MockPersist, unit) go" where
  "Mock_InsertOutputAddressAccumulateOut v b m = (Inr (), m\<lparr>mp_OutputAddressAccumulateOut := (mp_OutputAddressAccumulateOut m)(OutputAddressAccumulate_ID v \<mapsto> v)\<rparr>)"

definition Mock_QueryOutputAddressAccumulateIn :: "MockPersist \<Rightarrow> OutputAddressAccumulate \<Rightarrow> OutputAddressAccumulate option" where
  "Mock_QueryOutputAddressAccumulateIn m v = mp_OutputAddressAccumulateIn m (OutputAddressAccumulate_ID v)"

definition Mock_InsertOutputAddressAccumulateIn :: "OutputAddressAccumulate \<Rightarrow> bool \<Rightarrow> (MockPersist, unit) go" where
  "Mock_InsertOutputAddressAccumulateIn v b m = (Inr (), m\<lparr>mp_OutputAddressAccumulateIn := (mp_OutputAddressAccumulateIn m)(OutputAddressAccumulate_ID v \<mapsto> v)\<rparr>)"

definition Mock_UpdateOutputAddressAccumulateInOutputsProcessed :: "string \<Rightarrow> (MockPersist, unit) go" where
  "Mock_UpdateOutputAddressAccumulateInOutputsProcessed i m =
     (Inr (), m\<lparr>mp_OutputAddressAccumulateIn := (\<lambda>k. map_option (\<lambda>v.
        if OutputAddressAccumulate_OutputID v = i then v\<lparr>OutputAddressAccumulate_OutputProcessed := 1\<rparr> else v) (mp_OutputAddressAccumulateIn m k))\<rparr>)"

definition Mock_QueryOutputTxsAccumulate :: "MockPersist \<Rightarrow> OutputTxsAccumulate \<Rightarrow> OutputTxsAccumulate option" where
  "Mock_QueryOutputTxsAccumulate m v = mp_OutputTxsAccumulate m (OutputTxsAccumulate_ID v)"

definition Mock_InsertOutputTxsAccumulate :: "OutputTxsAccumulate \<Rightarrow> (MockPersist, unit) go" where
  "Mock_InsertOutputTxsAccumulate v m = (Inr (), m\<lparr>mp_OutputTxsAccumulate := (mp_OutputTxsAccumulate m)(OutputTxsAccumulate_ID v \<mapsto> v)\<rparr>)"

definition Mock_QueryAccumulateBalancesReceived :: "MockPersist \<Rightarrow> AccumulateBalancesAmount \<Rightarrow> AccumulateBalancesAmount option" where
  "Mock_QueryAccumulateBalancesReceived m v = mp_AccumulateBalancesReceived m (AccumulateBalancesAmount_ID v)"

definition Mock_InsertAccumulateBalancesReceived :: "AccumulateBalancesAmount \<Rightarrow> (MockPersist, unit) go" where
  "Mock_InsertAccumulateBalancesReceived v m = (Inr (), m\<lparr>mp_AccumulateBalancesReceived := (mp_AccumulateBalancesReceived m)(AccumulateBalancesAmount_ID v \<mapsto> v)\<rparr>)"

definition Mock_QueryAccumulateBalancesSent :: "MockPersist \<Rightarrow> AccumulateBalancesAmount \<Rightarrow> AccumulateBalancesAmount option" where
  "Mock_QueryAccumulateBalancesSent m v = mp_AccumulateBalancesSent m (AccumulateBalancesAmount_ID v)"

definition Mock_InsertAccumulateBalancesSent :: "AccumulateBalancesAmount \<Rightarrow> (MockPersist, unit) go" where
  "Mock_InsertAccumulateBalancesSent v m = (Inr (), m\<lparr>mp_AccumulateBalancesSent := (mp_AccumulateBalancesSent m)(AccumulateBalancesAmount_ID v \<mapsto> v)\<rparr>)"

definition Mock_QueryAccumulateBalancesTransactions :: "MockPersist \<Rightarrow> AccumulateBalancesTransactions \<Rightarrow> AccumulateBalancesTransactions option" where
  "Mock_QueryAccumulateBalancesTransactions m v = mp_AccumulateBalancesTransactions m (AccumulateBalancesTransactions_ID v)"

definition Mock_InsertAccumulateBalancesTransactions :: "AccumulateBalancesTransactions \<Rightarrow> (MockPersist, unit) go" where
  "Mock_InsertAccumulateBalancesTransactions v m = (Inr (), m\<lparr>mp_AccumulateBalancesTransactions := (mp_AccumulateBalancesTransactions m)(AccumulateBalancesTransactions_ID v \<mapsto> v)\<rparr>)"

definition Mock_QueryTransactionsRewardsOwnersAddress :: "MockPersist \<Rightarrow> TransactionsRewardsOwnersAddress \<Rightarrow> TransactionsRewardsOwnersAddress option" where
  "Mock_QueryTransactionsRewardsOwnersAddress m v = mp_TransactionsRewardsOwnersAddress m (TransactionsRewardsOwnersAddress_ID v @ '' '' @ TransactionsRewardsOwnersAddress_Address v)"

definition Mock_InsertTransactionsRewardsOwnersAddress :: "TransactionsRewardsOwnersAddress \<Rightarrow> bool \<Rightarrow> (MockPersist, unit) go" where
  "Mock_InsertTransactionsRewardsOwnersAddress v b m = (Inr (), m\<lparr>mp_TransactionsRewardsOwnersAddress := (mp_TransactionsRewardsOwnersAddress m)(TransactionsRewardsOwnersAddress_ID v @ '' '' @ TransactionsRewardsOwnersAddress_Address v \<mapsto> v)\<rparr>)"

definition Mock_QueryTransactionsRewardsOwnersOutputs :: "MockPersist \<Rightarrow> TransactionsRewardsOwnersOutputs \<Rightarrow> TransactionsRewardsOwnersOutputs option" where
  "Mock_QueryTransactionsRewardsOwnersOutputs m v = mp_TransactionsRewardsOwnersOutputs m (TransactionsRewardsOwnersOutputs_ID v)"

definition Mock_InsertTransactionsRewardsOwnersOutputs :: "TransactionsRewardsOwnersOutputs \<Rightarrow> bool \<Rightarrow> (MockPersist, unit) go" where
  "Mock_InsertTransactionsRewardsOwnersOutputs v b m = (Inr (), m\<lparr>mp_TransactionsRewardsOwnersOutputs := (mp_TransactionsRewardsOwnersOutputs m)(TransactionsRewardsOwnersOutputs_ID v \<mapsto> v)\<rparr>)"

definition Mock_QueryTransactionsRewardsOwners :: "MockPersist \<Rightarrow> TransactionsRewardsOwners \<Rightarrow> TransactionsRewardsOwners option" where
  "Mock_QueryTransactionsRewardsOwners m v = mp_TransactionsRewardsOwners m (TransactionsRewardsOwners_ID v)"

definition Mock_InsertTransactionsRewardsOwners :: "TransactionsRewardsOwners \<Rightarrow> bool \<Rightarrow> (MockPersist, unit) go" where
  "Mock_InsertTransactionsRewardsOwners v b m = (Inr (), m\<lparr>mp_TransactionsRewardsOwners := (mp_TransactionsRewardsOwners m)(TransactionsRewardsOwners_ID v \<mapsto> v)\<rparr>)"

definition Mock_QueryTxPool :: "MockPersist \<Rightarrow> TxPool \<Rightarrow> TxPool option" where
  "Mock_QueryTxPool m v = mp_TxPool m (TxPool_ID v)"

definition Mock_InsertTxPool :: "TxPool \<Rightarrow> (MockPersist, unit) go" where
  "Mock_InsertTxPool v m = (Inr (), m\<lparr>mp_TxPool := (mp_TxPool m)(TxPool_ID v \<mapsto> v)\<rparr>)"

definition Mock_UpdateTxPoolStatus :: "TxPool \<Rightarrow> (MockPersist, unit) go" where
  "Mock_UpdateTxPoolStatus v m =
     (case mp_TxPool m (TxPool_ID v) of
        None \<Rightarrow> (Inr (), m)
      | Some fv \<Rightarrow> (Inr (), m\<lparr>mp_TxPool := (mp_TxPool m)(TxPool_ID v \<mapsto> fv\<lparr>TxPool_Processed := TxPool_Processed v\<rparr>)\<rparr>))"

definition Mock_QueryKeyValueStore :: "MockPersist \<Rightarrow> KeyValueStore \<Rightarrow> KeyValueStore option" where
  "Mock_QueryKeyValueStore m v = mp_KeyValueStore m (KeyValueStore_K v)"

definition Mock_InsertKeyValueStore :: "KeyValueStore \<Rightarrow> (MockPersist, unit) go" where
  "Mock_InsertKeyValueStore v m = (Inr (), m\<lparr>mp_KeyValueStore := (mp_KeyValueStore m)(KeyValueStore_K v \<mapsto> v)\<rparr>)"

definition Mock_QueryCvmTransactionsTxdataTrace :: "MockPersist \<Rightarrow> CvmTransactionsTxdataTrace \<Rightarrow> CvmTransactionsTxdataTrace option" where
  "Mock_QueryCvmTransactionsTxdataTrace m v = mp_CvmTransactionsTxdataTrace m (CvmTransactionsTxdataTrace_Hash v @ '':'' @ Itoa (uint (CvmTransactionsTxdataTrace_Idx v)))"

definition Mock_InsertCvmTransactionsTxdataTrace :: "CvmTransactionsTxdataTrace \<Rightarrow> bool \<Rightarrow> (MockPersist, unit) go" where
  "Mock_InsertCvmTransactionsTxdataTrace v b m = (Inr (), m\<lparr>mp_CvmTransactionsTxdataTrace := (mp_CvmTransactionsTxdataTrace m)(CvmTransactionsTxdataTrace_Hash v @ '':'' @ Itoa (uint (CvmTransactionsTxdataTrace_Idx v)) \<mapsto> v)\<rparr>)"

definition Mock_QueryNodeIndex :: "MockPersist \<Rightarrow> NodeIndex \<Rightarrow> NodeIndex option" where
  "Mock_QueryNodeIndex m v = mp_NodeIndex m (NodeIndex_Topic v)"

definition Mock_InsertNodeIndex :: "NodeIndex \<Rightarrow> bool \<Rightarrow> (MockPersist, unit) go" where
  "Mock_InsertNodeIndex v b m = (Inr (), m\<lparr>mp_NodeIndex := (mp_NodeIndex m)(NodeIndex_Topic v \<mapsto> v)\<rparr>)"

definition Mock_UpdateNodeIndex :: "NodeIndex \<Rightarrow> (MockPersist, unit) go" where
  "Mock_UpdateNodeIndex v m =
     (case mp_NodeIndex m (NodeIndex_Topic v) of
        None \<Rightarrow> (Inr (), m)
      | Some fv \<Rightarrow> (Inr (), m\<lparr>mp_NodeIndex := (mp_NodeIndex m)(NodeIndex_Topic v \<mapsto> fv\<lparr>NodeIndex_Idx := NodeIndex_Idx v\<rparr>)\<rparr>))"

definition Mock_QueryCvmLogs :: "MockPersist \<Rightarrow> CvmLogs \<Rightarrow> CvmLogs option" where
  "Mock_QueryCvmLogs m v = mp_CvmLogs m (CvmLogs_ID v)"

definition Mock_InsertCvmLogs :: "CvmLogs \<Rightarrow> bool \<Rightarrow> (MockPersist, unit) go" where
  "Mock_InsertCvmLogs v b m = (Inr (), m\<lparr>mp_CvmLogs := (mp_CvmLogs m)(CvmLogs_ID v \<mapsto> v)\<rparr>)"

definition Mock_QueryPvmProposer :: "MockPersist \<Rightarrow> PvmProposer \<Rightarrow> PvmProposer option" where
  "Mock_QueryPvmProposer m v = mp_PvmProposer m (PvmProposer_ID v)"

definition Mock_InsertPvmProposer :: "PvmProposer \<Rightarrow> bool \<Rightarrow> (MockPersist, unit) go" where
  "Mock_InsertPvmProposer v b m = (Inr (), m\<lparr>mp_PvmProposer := (mp_PvmProposer m)(PvmProposer_ID v \<mapsto> v)\<rparr>)"

section \<open>The interface\<close>

primrec mock_exec :: "pcall \<Rightarrow> (MockPersist, unit) go" where
  "mock_exec (PInsertTransactions v upd) = Mock_InsertTransactions v upd"
| "mock_exec (PInsertOutputsRedeeming v upd) = Mock_InsertOutputsRedeeming v upd"
| "mock_exec (PInsertOutputs v upd) = Mock_InsertOutputs v upd"
| "mock_exec (PInsertAssets v upd) = Mock_InsertAssets v upd"
| "mock_exec (PInsertAddresses v upd) = Mock_InsertAddresses v upd"
| "mock_exec (PInsertAddressChain v upd) = Mock_InsertAddressChain v upd"
| "mock_exec (PInsertOutputAddresses v upd) = Mock_InsertOutputAddresses v upd"
| "mock_exec (PUpdateOutputAddresses v) = Mock_UpdateOutputAddresses v"
| "mock_exec (PInsertTransactionsEpoch v upd) = Mock_InsertTransactionsEpoch v upd"
| "mock_exec (PInsertCvmBlocks v) = Mock_InsertCvmBlocks v"
| "mock_exec (PInsertCvmAddresses v upd) = Mock_InsertCvmAddresses v upd"
| "mock_exec (PInsertCvmTransactions v upd) = Mock_InsertCvmTransactions v upd"
| "mock_exec (PInsertCvmTransactionsTxdata v upd) = Mock_InsertCvmTransactionsTxdata v upd"
| "mock_exec (PInsertPvmBlocks v upd) = Mock_InsertPvmBlocks v upd"
| "mock_exec (PInsertRewards v upd) = Mock_InsertRewards v upd"
| "mock_exec (PUpdateRewardsProcessed v) = Mock_UpdateRewardsProcessed v"
| "mock_exec (PInsertTransactionsValidator v upd) = Mock_InsertTransactionsValidator v upd"
| "mock_exec (PInsertTransactionsBlock v upd) = Mock_InsertTransactionsBlock v upd"
| "mock_exec (PInsertAddressBech32 v upd) = Mock_InsertAddressBech32 v upd"
| "mock_exec (PInsertOutputAddressAccumulateOut v upd) = Mock_InsertOutputAddressAccumulateOut v upd"
| "mock_exec (PInsertOutputAddressAccumulateIn v upd) = Mock_InsertOutputAddressAccumulateIn v upd"
| "mock_exec (PUpdateOutputAddressAccumulateInOutputsProcessed v) = Mock_UpdateOutputAddressAccumulateInOutputsProcessed v"
| "mock_exec (PInsertOutputTxsAccumulate v) = Mock_InsertOutputTxsAccumulate v"
| "mock_exec (PInsertAccumulateBalancesReceived v) = Mock_InsertAccumulateBalancesReceived v"
| "mock_exec (PInsertAccumulateBalancesSent v) = Mock_InsertAccumulateBalancesSent v"
| "mock_exec (PInsertAccumulateBalancesTransactions v) = Mock_InsertAccumulateBalancesTransactions v"
| "mock_exec (PInsertTransactionsRewardsOwnersAddress v upd) = Mock_InsertTransactionsRewardsOwnersAddress v upd"
| "mock_exec (PInsertTransactionsRewardsOwnersOutputs v upd) = Mock_InsertTransactionsRewardsOwnersOutputs v upd"
| "mock_exec (PInsertTransactionsRewardsOwners v upd) = Mock_InsertTransactionsRewardsOwners v upd"
| "mock_exec (PInsertTxPool v) = Mock_InsertTxPool v"
| "mock_exec (PUpdateTxPoolStatus v) = Mock_UpdateTxPoolStatus v"
| "mock_exec (PInsertKeyValueStore v) = Mock_InsertKeyValueStore v"
| "mock_exec (PInsertCvmTransactionsTxdataTrace v upd) = Mock_InsertCvmTransactionsTxdataTrace v upd"
| "mock_exec (PInsertNodeIndex v upd) = Mock_InsertNodeIndex v upd"
| "mock_exec (PUpdateNodeIndex v) = Mock_UpdateNodeIndex v"
| "mock_exec (PInsertCvmLogs v upd) = Mock_InsertCvmLogs v upd"
| "mock_exec (PInsertPvmProposer v upd) = Mock_InsertPvmProposer v upd"

lemmas Mock_write_defs =
  Mock_InsertTransactions_def Mock_InsertOutputsRedeeming_def Mock_InsertOutputs_def
  Mock_InsertAssets_def Mock_InsertAddresses_def Mock_InsertAddressChain_def
  Mock_InsertOutputAddresses_def Mock_UpdateOutputAddresses_def Mock_InsertTransactionsEpoch_def
  Mock_InsertCvmBlocks_def Mock_InsertCvmAddresses_def Mock_InsertCvmTransactions_def
  Mock_InsertCvmTransactionsTxdata_def Mock_InsertPvmBlocks_def Mock_InsertRewards_def
  Mock_UpdateRewardsProcessed_def Mock_InsertTransactionsValidator_def Mock_InsertTransactionsBlock_def
  Mock_InsertAddressBech32_def Mock_InsertOutputAddressAccumulateOut_def Mock_InsertOutputAddressAccumulateIn_def
  Mock_UpdateOutputAddressAccumulateInOutputsProcessed_def Mock_InsertOutputTxsAccumulate_def Mock_InsertAccumulateBalancesReceived_def
  Mock_InsertAccumulateBalancesSent_def Mock_InsertAccumulateBalancesTransactions_def Mock_InsertTransactionsRewardsOwnersAddress_def
  Mock_InsertTransactionsRewardsOwnersOutputs_def Mock_InsertTransactionsRewardsOwners_def Mock_InsertTxPool_def
  Mock_UpdateTxPoolStatus_def Mock_InsertKeyValueStore_def Mock_InsertCvmTransactionsTxdataTrace_def
  Mock_InsertNodeIndex_def Mock_UpdateNodeIndex_def Mock_InsertCvmLogs_def
  Mock_InsertPvmProposer_def

definition mock_effect :: "pcall \<Rightarrow> MockPersist \<Rightarrow> MockPersist" where
  "mock_effect c m = snd (mock_exec c m)"

lemma mock_exec_ok: "mock_exec c m = (Inr (), mock_effect c m)"
  by (cases c) (auto simp: mock_effect_def Mock_write_defs split: option.splits)

interpretation mockp: persist_store mock_exec "\<lambda>_. True" "\<lambda>m. m" mock_effect "\<lambda>_. True"
  by unfold_locales (simp add: mock_exec_ok)

section \<open>What the mock shows of the tables\<close>

text \<open>
  A table with one unique key whose rows are written by one kind of call, and the map of the mock that stands
  for it. The writer makes its calls on both.
\<close>

locale mirrored = dao tbl cols key dec stored
  for tbl :: string and cols :: "'v \<Rightarrow> pairs" and key :: "'v \<Rightarrow> cond list" and dec :: "row \<Rightarrow> 'v" and stored :: "'v \<Rightarrow> 'v" +
  fixes fld :: "MockPersist \<Rightarrow> string \<rightharpoonup> 'v"
    and kt :: "'v \<Rightarrow> string"
    and row_in :: "pcall \<Rightarrow> 'v option"
  assumes mock_row: "fld (mock_effect c m) = (case row_in c of None \<Rightarrow> fld m | Some v \<Rightarrow> (fld m)(kt v \<mapsto> v))"
    and sql_row: "call_upd False c \<Longrightarrow> call_effect c T tbl = (case row_in c of None \<Rightarrow> T tbl | Some v \<Rightarrow> ins_ignore tbl (cols v) T tbl)"
    and same_key: "kt v = kt w \<Longrightarrow> key v = key w"
    and other_key: "kt v \<noteq> kt w \<Longrightarrow> \<not> matches (key v) (new_row tbl (cols w))"
begin

lemma select_step:
  assumes "call_upd False c"
  shows "sql_select tbl (key v) (call_effect c T) =
    (case row_in c of
       None \<Rightarrow> sql_select tbl (key v) T
     | Some w \<Rightarrow> if kt v = kt w \<and> sql_select tbl (key v) T = [] then [new_row tbl (cols w)] else sql_select tbl (key v) T)"
proof (cases "row_in c")
  case None
  then show ?thesis using sql_row [OF assms, of T] by (simp add: sql_select_def)
next
  case (Some w)
  have "sql_select tbl (key v) (call_effect c T) = sql_select tbl (key v) (ins_ignore tbl (cols w) T)"
    using sql_row [OF assms, of T] Some by (simp add: sql_select_def)
  also have "\<dots> = (if kt v = kt w \<and> sql_select tbl (key v) T = [] then [new_row tbl (cols w)] else sql_select tbl (key v) T)"
    by (cases "kt v = kt w") (simp_all add: same_key [of v w] select_ins select_other [OF other_key])
  finally show ?thesis using Some by simp
qed

text \<open>A row is in the map exactly when it is in the table.\<close>

lemma mirror_presence:
  assumes "list_all (call_upd False) cs" "\<And>v. fld m (kt v) = None \<longleftrightarrow> sql_select tbl (key v) T = []"
  shows "fld (fold mock_effect cs m) (kt v) = None \<longleftrightarrow> sql_select tbl (key v) (fold call_effect cs T) = []"
  using assms
proof (induction cs arbitrary: m T)
  case (Cons c cs)
  have "fld (mock_effect c m) (kt v) = None \<longleftrightarrow> sql_select tbl (key v) (call_effect c T) = []" for v
    using Cons.prems select_step [of c v T] by (auto simp: mock_row split: option.splits)
  with Cons show ?case by simp
qed simp

text \<open>The values agree when no key is written twice; otherwise the map has the last one and the table the first.\<close>

lemma mirror_values:
  assumes "list_all (call_upd False) cs" "distinct (map kt (List.map_filter row_in cs))"
    "\<And>w. w \<in> set (List.map_filter row_in cs) \<Longrightarrow> fld m (kt w) = None"
    "\<And>v. map dec (sql_select tbl (key v) T) = (case fld m (kt v) of None \<Rightarrow> [] | Some w \<Rightarrow> [stored w])"
  shows "map dec (sql_select tbl (key v) (fold call_effect cs T)) = (case fld (fold mock_effect cs m) (kt v) of None \<Rightarrow> [] | Some w \<Rightarrow> [stored w])"
  using assms
proof (induction cs arbitrary: m T)
  case (Cons c cs)
  show ?case
  proof (cases "row_in c")
    case None
    have "map dec (sql_select tbl (key v) (call_effect c T)) = (case fld (mock_effect c m) (kt v) of None \<Rightarrow> [] | Some w \<Rightarrow> [stored w])" for v
      using Cons.prems(1,4) select_step [of c v T] None by (simp add: mock_row)
    with Cons None show ?thesis by (simp add: mock_row map_filter_simps)
  next
    case (Some w)
    have new: "fld m (kt w) = None" using Cons.prems(3) Some by (simp add: map_filter_simps)
    then have empty: "sql_select tbl (key w) T = []" using Cons.prems(4) [of w] by simp
    have "map dec (sql_select tbl (key v) (call_effect c T)) = (case fld (mock_effect c m) (kt v) of None \<Rightarrow> [] | Some w \<Rightarrow> [stored w])" for v
      using Cons.prems(1) Cons.prems(4) [of v] select_step [of c v T] Some same_key [of v w] new empty by (cases "kt v = kt w") (simp_all add: mock_row dec_new)
    moreover have "fld (mock_effect c m) (kt u) = None" if "u \<in> set (List.map_filter row_in cs)" for u
    proof -
      have "kt w \<notin> kt ` set (List.map_filter row_in cs)" using Cons.prems(2) Some by (simp add: map_filter_simps)
      then have "kt u \<noteq> kt w" using that by (metis imageI)
      then show ?thesis using Cons.prems(3) [of u] that Some by (simp add: mock_row map_filter_simps)
    qed
    ultimately show ?thesis using Cons.IH [of "mock_effect c m" "call_effect c T"] Cons.prems(1,2) Some by (simp add: map_filter_simps)
  qed
qed simp

end

lemma call_effect_insert: "call_stmts c = [InsertInto t ps] \<Longrightarrow> call_effect c T = ins_ignore t ps T"
  by (simp add: call_effect_def ins_ignore_def)

interpretation Transactions_mirror: mirrored TableTransactions Transactions_cols Transactions_key row_of_Transactions "\<lambda>v. v"
  mp_Transactions Transactions_ID tx_row
proof
  fix c :: pcall and m T
  show "mp_Transactions (mock_effect c m) = (case tx_row c of None \<Rightarrow> mp_Transactions m | Some v \<Rightarrow> (mp_Transactions m)(Transactions_ID v \<mapsto> v))"
    by (cases c) (auto simp: mock_effect_def Mock_write_defs tx_row_def split: option.splits)
  assume "call_upd False c"
  then show "call_effect c T TableTransactions = (case tx_row c of None \<Rightarrow> T TableTransactions | Some v \<Rightarrow> ins_ignore TableTransactions (Transactions_cols v) T TableTransactions)"
    by (cases c) (simp_all add: tx_row_def call_effect_insert call_effect_other call_table_def)
qed (auto simp: dao_simps Transactions_cols_def Transactions_key_def)

interpretation OutputsRedeeming_mirror: mirrored TableOutputsRedeeming OutputsRedeeming_cols OutputsRedeeming_key row_of_OutputsRedeeming "\<lambda>v. v"
  mp_OutputsRedeeming OutputsRedeeming_ID redeem_row
proof
  fix c :: pcall and m T
  show "mp_OutputsRedeeming (mock_effect c m) = (case redeem_row c of None \<Rightarrow> mp_OutputsRedeeming m | Some v \<Rightarrow> (mp_OutputsRedeeming m)(OutputsRedeeming_ID v \<mapsto> v))"
    by (cases c) (auto simp: mock_effect_def Mock_write_defs redeem_row_def split: option.splits)
  assume "call_upd False c"
  then show "call_effect c T TableOutputsRedeeming = (case redeem_row c of None \<Rightarrow> T TableOutputsRedeeming
      | Some v \<Rightarrow> ins_ignore TableOutputsRedeeming (OutputsRedeeming_cols v) T TableOutputsRedeeming)"
    by (cases c) (simp_all add: redeem_row_def call_effect_insert call_effect_other call_table_def)
qed (auto simp: dao_simps OutputsRedeeming_cols_def OutputsRedeeming_key_def)

interpretation Assets_mirror: mirrored TableAssets Assets_cols Assets_key row_of_Assets "\<lambda>v. v" mp_Assets Assets_ID asset_row
proof
  fix c :: pcall and m T
  show "mp_Assets (mock_effect c m) = (case asset_row c of None \<Rightarrow> mp_Assets m | Some v \<Rightarrow> (mp_Assets m)(Assets_ID v \<mapsto> v))"
    by (cases c) (auto simp: mock_effect_def Mock_write_defs asset_row_def split: option.splits)
  assume "call_upd False c"
  then show "call_effect c T TableAssets = (case asset_row c of None \<Rightarrow> T TableAssets | Some v \<Rightarrow> ins_ignore TableAssets (Assets_cols v) T TableAssets)"
    by (cases c) (simp_all add: asset_row_def call_effect_insert call_effect_other call_table_def)
qed (auto simp: dao_simps Assets_cols_def Assets_key_def)

section \<open>Properties\<close>

lemma empty_mirrors:
  "mp_Transactions NewPersistMock k = None" "mp_OutputsRedeeming NewPersistMock k = None" "mp_Assets NewPersistMock k = None"
  "sql_select t cs (tabs empty_db) = []"
  by (simp_all add: NewPersistMock_def sql_select_def empty_db_def)



end
