(* ===== verification/Rewards.thy ===== *)
theory Rewards
  imports AvmWriter
begin

text \<open>
  The rewards handler, \<open>src/services/rewards/rewards_handler.go\<close>: on every tick it reads the rewards that
  the writer of the platform chain recorded, asks the node for the outputs that pay each of them, stores
  these outputs and marks the reward. The node and the codec are arguments. A join is read as its two tables
  one after the other.
\<close>

section \<open>The handler\<close>

record RewardUTXO =
  RewardUTXO_TxID :: ID
  RewardUTXO_OutputIndex :: u32
  RewardUTXO_AssetID :: ID
  RewardUTXO_Out :: state_out

record rewardlib =
  rl_FromString :: "string \<Rightarrow> go_error + ID"
  rl_GetRewardUTXOs :: "ID \<Rightarrow> go_error + bytes list"
  rl_Unmarshal :: "bytes \<Rightarrow> go_error + RewardUTXO"

record rewardsHandler =
  rh_axcAssetID :: ID
  rh_writer :: axcWriter
  rh_cid :: ID

text \<open>The fields that \<open>runTicker\<close> sets; \<open>ids.Empty\<close> is 32 zero bytes.\<close>

definition ids_Empty :: ID where
  "ids_Empty = replicate 32 0"

definition rewards_setup :: "extlib \<Rightarrow> ID \<Rightarrow> rewardsHandler" where
  "rewards_setup lib axcAssetID =
     \<lparr>rh_axcAssetID = axcAssetID, rh_writer = axc_NewWriter (ID_String lib ids_Empty) axcAssetID, rh_cid = ids_Empty\<rparr>"

record RewardTx =
  RewardTx_ID :: string
  RewardTx_Txid :: string
  RewardTx_Type :: BlockType
  RewardTx_CreatedAt :: gotime

text \<open>\<open>rewards join pvm_blocks on rewards.block_id = pvm_blocks.parent_id where processed = 0 and created_at < now - 3 s\<close>\<close>

definition reward_join :: "gotime \<Rightarrow> row list \<Rightarrow> row list \<Rightarrow> RewardTx list" where
  "reward_join now rewards blocks =
     concat (map (\<lambda>r. map (\<lambda>b. \<lparr>RewardTx_ID = Rewards_ID (row_of_Rewards r), RewardTx_Txid = Rewards_Txid (row_of_Rewards r),
         RewardTx_Type = PvmBlocks_Type (row_of_PvmBlocks b), RewardTx_CreatedAt = Rewards_CreatedAt (row_of_Rewards r)\<rparr>)
       (filter (\<lambda>b. r ''block_id'' \<noteq> None \<and> r ''block_id'' = b ''parent_id'') blocks))
     (filter (\<lambda>r. Rewards_CreatedAt (row_of_Rewards r) < now - 3 * nanos_per_second) rewards))"

definition load_rewards :: "session \<Rightarrow> gotime \<Rightarrow> (dbstate, RewardTx list) go" where
  "load_rewards sess now =
     go_bind (sess_load sess TableRewards [Eq ''processed'' (VI 0)]) (\<lambda>rewards.
     go_bind (sess_load sess TablePvmBlocks []) (\<lambda>blocks. go_return (reward_join now rewards blocks)))"

definition markRewardProcessed :: "session \<Rightarrow> string \<Rightarrow> (dbstate, unit) go" where
  "markRewardProcessed sess i = persist_exec sess (PUpdateRewardsProcessed (zero_Rewards\<lparr>Rewards_ID := i, Rewards_Processed := 1\<rparr>))"

definition reward_ctx :: "settings \<Rightarrow> gotime \<Rightarrow> consumerCtx" where
  "reward_ctx env createdAt = NewConsumerContext (Time_Unix createdAt) (Time_Nanosecond createdAt) (set_now env) (set_upd env) (set_hrp env)"

definition processRewardUtxo :: "extlib \<Rightarrow> rewardlib \<Rightarrow> rewardsHandler \<Rightarrow> session \<Rightarrow> settings \<Rightarrow> gotime \<Rightarrow> bytes \<Rightarrow> (dbstate, unit) go" where
  "processRewardUtxo lib rl rh sess env createdAt b =
     go_bind (go_lift (rl_Unmarshal rl b)) (\<lambda>utxo.
     go_bind (ProcessStateOut lib (rh_writer rh) (persist_exec sess) (reward_ctx env createdAt) (RewardUTXO_Out utxo) (RewardUTXO_TxID utxo)
       (RewardUTXO_OutputIndex utxo) (RewardUTXO_AssetID utxo) 0 0 (ID_String lib (rh_cid rh)) False False) (\<lambda>_. go_return ()))"

text \<open>The consumer context is built on the session, not on the transaction that is begun: what the
  outputs write is committed at once, and the rollback of the transaction takes nothing back.\<close>

definition processRewardUtxos :: "extlib \<Rightarrow> rewardlib \<Rightarrow> rewardsHandler \<Rightarrow> session \<Rightarrow> settings \<Rightarrow> bytes list \<Rightarrow> gotime \<Rightarrow> (dbstate, unit) go" where
  "processRewardUtxos lib rl rh sess env rewardsUtxos createdAt = (\<lambda>d.
     case sess_begin sess d of
       (Some e, d1) \<Rightarrow> (Inl e, d1)
     | (None, d1) \<Rightarrow>
         (case go_for (processRewardUtxo lib rl rh sess env createdAt) rewardsUtxos d1 of
            (Inl e, d2) \<Rightarrow> (Inl e, d2)
          | (Inr _, d2) \<Rightarrow>
              (case sess_commit sess d2 of
                 (Some e, d3) \<Rightarrow> (Inl e, d3)
               | (None, d3) \<Rightarrow> (Inr (), d3))))"

definition processReward :: "extlib \<Rightarrow> rewardlib \<Rightarrow> rewardsHandler \<Rightarrow> session \<Rightarrow> settings \<Rightarrow> RewardTx \<Rightarrow> (dbstate, unit) go" where
  "processReward lib rl rh sess env tx =
     (if RewardTx_Type tx = BlockTypeAbort then markRewardProcessed sess (RewardTx_ID tx)
      else
        go_bind (go_lift (rl_FromString rl (RewardTx_Txid tx))) (\<lambda>i.
        go_bind (go_lift (rl_GetRewardUTXOs rl i)) (\<lambda>rewardsUtxos.
          if rewardsUtxos = [] then go_raise (ErrorString (''no rewards '' @ RewardTx_Txid tx))
          else
            go_then (processRewardUtxos lib rl rh sess env rewardsUtxos (RewardTx_CreatedAt tx))
              (markRewardProcessed sess (RewardTx_ID tx)))))"

definition processRewards :: "extlib \<Rightarrow> rewardlib \<Rightarrow> rewardsHandler \<Rightarrow> session \<Rightarrow> settings \<Rightarrow> (dbstate, unit) go" where
  "processRewards lib rl rh sess env =
     go_bind (load_rewards sess (set_now env)) (\<lambda>rewardsTxs. go_for (processReward lib rl rh sess env) rewardsTxs)"

text \<open>One tick of \<open>runTicker\<close>: an error is logged, and the next tick starts again.\<close>

definition rewards_tick :: "extlib \<Rightarrow> rewardlib \<Rightarrow> ID \<Rightarrow> session \<Rightarrow> settings \<Rightarrow> dbstate \<Rightarrow> go_error list \<times> dbstate" where
  "rewards_tick lib rl axcAssetID sess env d =
     (case processRewards lib rl (rewards_setup lib axcAssetID) sess env d of
        (Inl e, d') \<Rightarrow> ([e], d') | (Inr _, d') \<Rightarrow> ([], d'))"

section \<open>What is marked is paid\<close>

definition marked_reward :: "string \<Rightarrow> tables \<Rightarrow> bool" where
  "marked_reward i T \<longleftrightarrow> list_ex (\<lambda>r. r ''id'' = Some (VS i) \<and> r ''processed'' = Some (VI 1)) (T TableRewards)"

text \<open>The table of outputs has a row with the id, or with the transaction and the index, of an output.\<close>

definition stored_output :: "Outputs \<Rightarrow> tables \<Rightarrow> bool" where
  "stored_output v T \<longleftrightarrow> list_ex (conflicts TableOutputs (new_row TableOutputs (Outputs_cols v))) (T TableOutputs)"

definition utxo_row :: "extlib \<Rightarrow> rewardsHandler \<Rightarrow> settings \<Rightarrow> gotime \<Rightarrow> RewardUTXO \<Rightarrow> Outputs" where
  "utxo_row lib rh env createdAt u = state_row lib (reward_ctx env createdAt) (RewardUTXO_TxID u) (ID_String lib (rh_cid rh)) False False
     (RewardUTXO_AssetID u) (RewardUTXO_OutputIndex u) (RewardUTXO_Out u)"

definition utxo_stored :: "extlib \<Rightarrow> rewardlib \<Rightarrow> rewardsHandler \<Rightarrow> settings \<Rightarrow> gotime \<Rightarrow> tables \<Rightarrow> bytes \<Rightarrow> bool" where
  "utxo_stored lib rl rh env createdAt T b \<longleftrightarrow>
     (case rl_Unmarshal rl b of Inl _ \<Rightarrow> False | Inr u \<Rightarrow> stored_output (utxo_row lib rh env createdAt u) T)"

definition paid :: "extlib \<Rightarrow> rewardlib \<Rightarrow> rewardsHandler \<Rightarrow> settings \<Rightarrow> tables \<Rightarrow> RewardTx \<Rightarrow> bool" where
  "paid lib rl rh env T tx \<longleftrightarrow> RewardTx_Type tx = BlockTypeAbort
     \<or> (\<exists>i bs. rl_FromString rl (RewardTx_Txid tx) = Inr i \<and> rl_GetRewardUTXOs rl i = Inr bs
         \<and> bs \<noteq> [] \<and> list_all (utxo_stored lib rl rh env (RewardTx_CreatedAt tx) T) bs)"

lemma stored_call:
  assumes "part_call ctx c" "\<not> cc_upd ctx"
  shows "call_effect c T TableRewards = T TableRewards" "stored_output v T \<Longrightarrow> stored_output v (call_effect c T)"
proof -
  have t: "call_table c \<in> set part_tables" and u: "call_upd False c" using assms by (auto simp: part_call_def)
  show "call_effect c T TableRewards = T TableRewards"
    using t by (intro call_effect_other) (auto simp: part_tables_def)
  assume v: "stored_output v T"
  show "stored_output v (call_effect c T)"
  proof (cases "\<exists>w. c = PInsertOutputs w False")
    case True
    then obtain w where "call_effect c T = ins_ignore TableOutputs (Outputs_cols w) T"
      by (auto simp: call_effect_def ins_ignore_def)
    with v ins_ignore_prefix [of TableOutputs "Outputs_cols w" T TableOutputs] show ?thesis
      by (auto simp: stored_output_def)
  next
    case False
    with u have "call_table c \<noteq> TableOutputs" by (cases c) (auto simp: call_table_def)
    then show ?thesis using v by (simp add: stored_output_def call_effect_other [OF not_sym])
  qed
qed

lemma single_stmt: "call_upd False c \<Longrightarrow> length (call_stmts c) = 1"
  by (cases c) simp_all

context sql_session
begin

lemma single_call:
  assumes "length (call_stmts c) = 1" "persist_exec sess c d = (r, d')"
  shows "tabs d' = (case r of Inl _ \<Rightarrow> tabs d | Inr _ \<Rightarrow> call_effect c (tabs d))"
proof (cases r)
  case (Inl e)
  with assms show ?thesis using execs_Inl [OF persist_exec_execs [of c], of d e d'] by auto
next
  case (Inr u)
  with assms show ?thesis using persist_exec_ok by simp
qed

end

text \<open>What storing outputs does to the tables: it adds to the outputs and leaves the rewards alone.\<close>

definition out_grows :: "tables \<Rightarrow> tables \<Rightarrow> bool" where
  "out_grows T T' \<longleftrightarrow> T' TableRewards = T TableRewards \<and> (\<forall>v. stored_output v T \<longrightarrow> stored_output v T')"

lemma out_grows_refl [simp]: "out_grows T T"
  by (simp add: out_grows_def)

lemma out_grows_trans: "out_grows T T' \<Longrightarrow> out_grows T' T'' \<Longrightarrow> out_grows T T''"
  by (simp add: out_grows_def)

lemma utxo_stored_grows: "out_grows T T' \<Longrightarrow> utxo_stored lib rl rh env ca T b \<Longrightarrow> utxo_stored lib rl rh env ca T' b"
  by (auto simp: utxo_stored_def out_grows_def split: sum.splits)

lemma paid_stored:
  assumes "\<And>ca b. utxo_stored lib rl rh env ca T b \<Longrightarrow> utxo_stored lib rl rh env ca T' b" "paid lib rl rh env T tx"
  shows "paid lib rl rh env T' tx"
  using assms(2) unfolding paid_def list_all_iff by (blast intro: assms(1))

definition reward_inv :: "extlib \<Rightarrow> rewardlib \<Rightarrow> rewardsHandler \<Rightarrow> settings \<Rightarrow> RewardTx list \<Rightarrow> tables \<Rightarrow> tables \<Rightarrow> bool" where
  "reward_inv lib rl rh env txs T0 T \<longleftrightarrow>
     (\<forall>i. marked_reward i T \<longrightarrow> marked_reward i T0 \<or> (\<exists>tx \<in> set txs. RewardTx_ID tx = i \<and> paid lib rl rh env T tx))"

lemma reward_inv_grows: "reward_inv lib rl rh env txs T0 T \<Longrightarrow> out_grows T T' \<Longrightarrow> reward_inv lib rl rh env txs T0 T'"
proof -
  assume inv: "reward_inv lib rl rh env txs T0 T" and g: "out_grows T T'"
  have "marked_reward i T' = marked_reward i T" for i using g by (simp add: marked_reward_def out_grows_def)
  with inv paid_stored [OF utxo_stored_grows [OF g]] show "reward_inv lib rl rh env txs T0 T'"
    unfolding reward_inv_def by blast
qed

lemma stored_by_insert: "stored_output v (call_effect (PInsertOutputs v False) T)"
  unfolding stored_output_def
proof -
  have "list_ex (conflicts TableOutputs (new_row TableOutputs (Outputs_cols v))) (ins_ignore TableOutputs (Outputs_cols v) T TableOutputs)"
    by (rule ins_ignore_taken, rule bexI [of _ "[''id'']"]) (auto simp: dao_simps Outputs_cols_def)
  then show "list_ex (conflicts TableOutputs (new_row TableOutputs (Outputs_cols v))) (call_effect (PInsertOutputs v False) T TableOutputs)"
    by (simp add: call_effect_def ins_ignore_def)
qed

lemma mark_effect:
  "call_effect (PUpdateRewardsProcessed v) T TableOutputs = T TableOutputs"
  "Rewards_Processed v = 1 \<Longrightarrow> marked_reward i (call_effect (PUpdateRewardsProcessed v) T) \<Longrightarrow> marked_reward i T \<or> i = Rewards_ID v"
proof -
  show "call_effect (PUpdateRewardsProcessed v) T TableOutputs = T TableOutputs"
    by (rule call_effect_other) (simp add: call_table_def)
  assume "Rewards_Processed v = 1" "marked_reward i (call_effect (PUpdateRewardsProcessed v) T)"
  then show "marked_reward i T \<or> i = Rewards_ID v"
    by (auto simp: marked_reward_def list_ex_iff call_effect_def stmt_effect_def sql_update_def norm_pairs_def dao_defs matches_def Let_def
        split: option.splits if_splits)
qed

context sql_session
begin

lemma part_call_grows:
  assumes "part_call ctx c" "\<not> cc_upd ctx"
  shows "keeps (\<lambda>d. out_grows T (tabs d)) (persist_exec sess c)"
  unfolding keeps_def
proof (intro allI impI)
  fix d :: dbstate assume g: "out_grows T (tabs d)"
  obtain r d' where run: "persist_exec sess c d = (r, d')" by fastforce
  have "out_grows (tabs d) (tabs d')"
    using single_call [OF single_stmt run] assms stored_call [OF assms] by (auto simp: out_grows_def part_call_def split: sum.splits)
  with g run show "out_grows T (tabs (snd (persist_exec sess c d)))" using out_grows_trans by simp
qed

lemma ProcessStateOut_grows:
  assumes "\<not> cc_upd ctx"
  shows "keeps (\<lambda>d. out_grows T (tabs d)) (ProcessStateOut lib w (persist_exec sess) ctx x t i a am tot c st gu)"
  using traced_only [OF ProcessStateOut_traced] part_call_grows [OF _ assms] unfolding only_calls_def by blast

lemma processRewardUtxo_grows:
  "\<not> set_upd env \<Longrightarrow> keeps (\<lambda>d. out_grows T (tabs d)) (processRewardUtxo lib rl rh sess env ca b)"
  unfolding processRewardUtxo_def
  by (intro keeps_bind keeps_lift keeps_return ProcessStateOut_grows) (simp add: reward_ctx_def NewConsumerContext_def)

lemma calls_store:
  assumes "go_for (persist_exec sess) cs d = (Inr (), d')" "list_all (part_call ctx) cs" "\<not> cc_upd ctx" "PInsertOutputs v False \<in> set cs"
  shows "stored_output v (tabs d')"
proof -
  have grows: "out_grows (tabs d1) (tabs d2)" if "go_for (persist_exec sess) cs d1 = (Inr (), d2)" "list_all (part_call ctx) cs" for cs d1 d2
    using keepsD [OF keeps_for [of cs, OF part_call_grows [of ctx, OF _ assms(3)]] _ that(1)] that(2) by (simp add: list_all_iff)
  show ?thesis
    using assms(1,2,4)
  proof (induction cs arbitrary: d)
    case (Cons c cs)
    then obtain d1 where d1: "persist_exec sess c d = (Inr (), d1)" "go_for (persist_exec sess) cs d1 = (Inr (), d')"
      by (auto simp: go_simps split: prod.splits sum.splits)
    show ?case
    proof (cases "c = PInsertOutputs v False")
      case True
      then have "stored_output v (tabs d1)" using persist_exec_ok [OF d1(1)] stored_by_insert by simp
      then show ?thesis using grows [OF d1(2)] Cons.prems(2) by (simp add: out_grows_def)
    next
      case False
      then show ?thesis using Cons d1 by simp
    qed
  qed simp
qed

lemma processRewardUtxo_stores:
  assumes "processRewardUtxo lib rl rh sess env ca b d = (Inr u, d')" "\<not> set_upd env"
  shows "utxo_stored lib rl rh env ca (tabs d') b"
proof -
  let ?ctx = "reward_ctx env ca"
  have upd: "\<not> cc_upd ?ctx" using assms(2) by (simp add: reward_ctx_def NewConsumerContext_def)
  obtain x r where x: "rl_Unmarshal rl b = Inr x" and run: "ProcessStateOut lib (rh_writer rh) (persist_exec sess) ?ctx (RewardUTXO_Out x) (RewardUTXO_TxID x)
      (RewardUTXO_OutputIndex x) (RewardUTXO_AssetID x) 0 0 (ID_String lib (rh_cid rh)) False False d = (Inr r, d')"
    using assms(1) unfolding processRewardUtxo_def by (auto elim!: go_bind_Inr simp: go_lift_Inr go_return_run)
  let ?n = "ProcessStateOut lib (rh_writer rh) record_call ?ctx (RewardUTXO_Out x) (RewardUTXO_TxID x)
      (RewardUTXO_OutputIndex x) (RewardUTXO_AssetID x) 0 0 (ID_String lib (rh_cid rh)) False False"
  note tr = ProcessStateOut_traced [of ?ctx "persist_exec sess" lib "rh_writer rh" "RewardUTXO_Out x" "RewardUTXO_TxID x" "RewardUTXO_OutputIndex x" "RewardUTXO_AssetID x"
      0 0 "ID_String lib (rh_cid rh)" False False]
  have calls: "go_for (persist_exec sess) (trace ?n) d = (Inr (), d')" "outcome ?n = Inr r"
    using traced_byD [OF traced_run [OF tr]] run by blast+
  have "List.map_filter output_row (trace ?n) = [utxo_row lib rh env ca x]"
    using addsD [OF ProcessStateOut_adds, of lib "rh_writer rh" ?ctx "RewardUTXO_Out x"] calls(2)
    by (cases "?n []") (fastforce simp: outcome_def trace_def utxo_row_def map_filter_simps)
  then have "\<exists>c \<in> set (trace ?n). output_row c = Some (utxo_row lib rh env ca x)"
    by (auto simp: List.map_filter_def filter_eq_Cons_iff map_eq_Cons_conv)
  moreover have "part_call ?ctx c \<Longrightarrow> output_row c = Some v \<Longrightarrow> c = PInsertOutputs v False" for c v
    using upd by (cases c) (auto simp: output_row_def part_call_def)
  ultimately have "PInsertOutputs (utxo_row lib rh env ca x) False \<in> set (trace ?n)"
    using traced_all [OF tr] by (metis list_all_iff)
  then show ?thesis using calls_store [OF calls(1) traced_all [OF tr] upd] x by (simp add: utxo_stored_def)
qed

lemma processRewardUtxos_stores:
  assumes "processRewardUtxos lib rl rh sess env bs ca d = (r, d')" "\<not> set_upd env"
  shows "out_grows (tabs d) (tabs d')" "r = Inr u \<Longrightarrow> list_all (utxo_stored lib rl rh env ca (tabs d')) bs"
proof -
  let ?f = "processRewardUtxo lib rl rh sess env ca"
  have grows: "out_grows (tabs d1) (tabs d2)" if "go_for ?f bs d1 = (r2, d2)" for bs d1 r2 d2
    using keepsD [OF keeps_for [of bs, OF processRewardUtxo_grows [OF assms(2)]] _ that] by simp
  have all: "list_all (utxo_stored lib rl rh env ca (tabs d2)) bs" if "go_for ?f bs d1 = (Inr u2, d2)" for bs d1 d2 u2
    using that
  proof (induction bs arbitrary: d1)
    case (Cons b bs)
    then obtain d3 where d3: "?f b d1 = (Inr (), d3)" "go_for ?f bs d3 = (Inr u2, d2)"
      by (auto simp: go_simps split: prod.splits sum.splits)
    have "utxo_stored lib rl rh env ca (tabs d2) b"
      using processRewardUtxo_stores [OF d3(1) assms(2)] utxo_stored_grows [OF grows [OF d3(2)]] by blast
    with Cons.IH [OF d3(2)] show ?case by simp
  qed simp
  obtain e1 d1 where b1: "sess_begin sess d = (e1, d1)" by fastforce
  obtain r2 d2 where f2: "go_for ?f bs d1 = (r2, d2)" by fastforce
  obtain e3 d3 where c3: "sess_commit sess d2 = (e3, d3)" by fastforce
  have tabs: "tabs d1 = tabs d" "tabs d3 = tabs d2" using begin_tabs [of d] commit_tabs [of d2] b1 c3 by simp_all
  show "out_grows (tabs d) (tabs d')"
    using assms(1) b1 f2 c3 tabs grows [OF f2] by (auto simp: processRewardUtxos_def split: option.splits sum.splits)
  assume "r = Inr u"
  then show "list_all (utxo_stored lib rl rh env ca (tabs d')) bs"
    using assms(1) b1 f2 c3 tabs all by (auto simp: processRewardUtxos_def split: option.splits sum.splits)
qed

lemma mark_inv:
  assumes "markRewardProcessed sess (RewardTx_ID tx) d = (r, d')" "tx \<in> set txs" "paid lib rl rh env (tabs d) tx"
    "reward_inv lib rl rh env txs T0 (tabs d)"
  shows "reward_inv lib rl rh env txs T0 (tabs d')"
proof -
  let ?v = "zero_Rewards\<lparr>Rewards_ID := RewardTx_ID tx, Rewards_Processed := 1\<rparr>"
  have d': "tabs d' = (case r of Inl _ \<Rightarrow> tabs d | Inr _ \<Rightarrow> call_effect (PUpdateRewardsProcessed ?v) (tabs d))"
    using assms(1) unfolding markRewardProcessed_def by (intro single_call) simp_all
  have "stored_output v (call_effect (PUpdateRewardsProcessed ?v) (tabs d)) = stored_output v (tabs d)" for v
    by (simp add: stored_output_def mark_effect(1))
  then have "paid lib rl rh env (tabs d') tx'" if "paid lib rl rh env (tabs d) tx'" for tx'
    using that d' by (intro paid_stored [OF _ that]) (auto simp: utxo_stored_def split: sum.splits)
  moreover have "marked_reward i (tabs d) \<or> i = RewardTx_ID tx" if "marked_reward i (tabs d')" for i
    using that d' mark_effect(2) [of ?v i "tabs d"] by (auto split: sum.splits)
  ultimately show ?thesis using assms(2-4) unfolding reward_inv_def by metis
qed

lemma processReward_inv:
  assumes "processReward lib rl rh sess env tx d = (r, d')" "tx \<in> set txs" "\<not> set_upd env" "reward_inv lib rl rh env txs T0 (tabs d)"
  shows "reward_inv lib rl rh env txs T0 (tabs d')"
proof (cases "RewardTx_Type tx = BlockTypeAbort")
  case True
  with assms(1) have "markRewardProcessed sess (RewardTx_ID tx) d = (r, d')" by (simp add: processReward_def)
  then show ?thesis by (rule mark_inv [OF _ assms(2)]) (use True assms(4) in \<open>simp_all add: paid_def\<close>)
next
  case False
  show ?thesis
  proof (cases "\<exists>i bs. rl_FromString rl (RewardTx_Txid tx) = Inr i \<and> rl_GetRewardUTXOs rl i = Inr bs \<and> bs \<noteq> []")
    case True
    then obtain i bs where bs: "rl_FromString rl (RewardTx_Txid tx) = Inr i" "rl_GetRewardUTXOs rl i = Inr bs" "bs \<noteq> []" by blast
    obtain r1 d1 where run: "processRewardUtxos lib rl rh sess env bs (RewardTx_CreatedAt tx) d = (r1, d1)" by fastforce
    note st = processRewardUtxos_stores [OF run assms(3)]
    have inv: "reward_inv lib rl rh env txs T0 (tabs d1)" using reward_inv_grows [OF assms(4) st(1)] .
    show ?thesis
    proof (cases r1)
      case (Inl e)
      with run False bs assms(1) inv show ?thesis by (simp add: processReward_def go_simps)
    next
      case (Inr u)
      with run False bs assms(1) have "markRewardProcessed sess (RewardTx_ID tx) d1 = (r, d')" by (simp add: processReward_def go_simps)
      moreover have "paid lib rl rh env (tabs d1) tx" using st(2) [OF Inr] bs by (auto simp: paid_def)
      ultimately show ?thesis using mark_inv [OF _ assms(2)] inv by blast
    qed
  next
    case none: False
    with False assms(1) have "d' = d" by (auto simp: processReward_def go_simps split: sum.splits if_splits)
    with assms(4) show ?thesis by simp
  qed
qed

lemma load_rewards_read:
  assumes "load_rewards sess now d = (l, d1)"
  shows "tabs d1 = tabs d" "l = Inr txs \<Longrightarrow> txs = reward_join now (sql_select TableRewards [Eq ''processed'' (VI 0)] (tabs d)) (tabs d TablePvmBlocks)"
proof -
  obtain l1 d2 where l1: "sess_load sess TableRewards [Eq ''processed'' (VI 0)] d = (l1, d2)" by fastforce
  obtain l2 d3 where l2: "sess_load sess TablePvmBlocks [] d2 = (l2, d3)" by fastforce
  have tabs: "tabs d2 = tabs d" "tabs d3 = tabs d"
    using load_tabs [of TableRewards "[Eq ''processed'' (VI 0)]" d] load_tabs [of TablePvmBlocks "[]" d2] l1 l2 by simp_all
  show "tabs d1 = tabs d"
    using assms l1 l2 tabs by (cases l1; cases l2) (auto simp: load_rewards_def go_simps)
  have all: "sql_select TablePvmBlocks [] T = T TablePvmBlocks" for T by (simp add: sql_select_def matches_def)
  assume "l = Inr txs"
  then show "txs = reward_join now (sql_select TableRewards [Eq ''processed'' (VI 0)] (tabs d)) (tabs d TablePvmBlocks)"
    using assms l1 l2 tabs load_ok [of TableRewards "[Eq ''processed'' (VI 0)]" d] load_ok [of TablePvmBlocks "[]" d2] all
    by (cases l1; cases l2) (auto simp: load_rewards_def go_simps)
qed

lemma processRewards_inv:
  assumes "go_for (processReward lib rl rh sess env) txs' d = (r, d')" "set txs' \<subseteq> set txs" "\<not> set_upd env" "reward_inv lib rl rh env txs T0 (tabs d)"
  shows "reward_inv lib rl rh env txs T0 (tabs d')"
  using assms(1,2,4)
proof (induction txs' arbitrary: d)
  case (Cons tx txs')
  obtain r1 d1 where run: "processReward lib rl rh sess env tx d = (r1, d1)" by fastforce
  have inv: "reward_inv lib rl rh env txs T0 (tabs d1)" using processReward_inv [OF run _ assms(3) Cons.prems(3)] Cons.prems(2) by simp
  then show ?case using Cons run by (cases r1) (auto simp: go_simps)
qed (simp add: go_simps)

end

section \<open>Property\<close>

text \<open>C39. Whatever fails in a run of \<open>processRewards\<close>: a reward that it marks as processed was read unmarked in this run
  and was decided by an abort block, or the node named outputs that pay it, at least one, and every one of them is in the
  table of outputs.\<close>

theorem rewards_marked_are_paid:
  assumes "sql_session sess" "\<not> set_upd env" "processRewards lib rl rh sess env d = (r, d')"
    "marked_reward i (tabs d')" "\<not> marked_reward i (tabs d)"
  shows "\<exists>tx \<in> set (reward_join (set_now env) (sql_select TableRewards [Eq ''processed'' (VI 0)] (tabs d)) (tabs d TablePvmBlocks)).
    RewardTx_ID tx = i \<and> (RewardTx_Type tx = BlockTypeAbort
      \<or> (\<exists>j bs. rl_FromString rl (RewardTx_Txid tx) = Inr j \<and> rl_GetRewardUTXOs rl j = Inr bs \<and> bs \<noteq> []
          \<and> list_all (utxo_stored lib rl rh env (RewardTx_CreatedAt tx) (tabs d')) bs))"
proof -
  let ?txs = "reward_join (set_now env) (sql_select TableRewards [Eq ''processed'' (VI 0)] (tabs d)) (tabs d TablePvmBlocks)"
  obtain l d1 where load: "load_rewards sess (set_now env) d = (l, d1)" by fastforce
  note read = sql_session.load_rewards_read [OF assms(1) load]
  have inv: "reward_inv lib rl rh env ?txs (tabs d) (tabs d1)" using read(1) by (simp add: reward_inv_def)
  have "reward_inv lib rl rh env ?txs (tabs d) (tabs d')"
  proof (cases l)
    case (Inl e)
    with load assms(3) inv show ?thesis by (simp add: processRewards_def go_simps)
  next
    case (Inr txs)
    with load assms(3) have "go_for (processReward lib rl rh sess env) txs d1 = (r, d')" by (simp add: processRewards_def go_simps)
    with read(2) [OF Inr] show ?thesis using sql_session.processRewards_inv [OF assms(1) _ _ assms(2) inv] by simp
  qed
  with assms(4,5) show ?thesis unfolding reward_inv_def paid_def by blast
qed

text \<open>A reward of the transaction \<open>t\<close> that a commit block decided, and the output that pays it.\<close>

definition sample_reward_lib :: rewardlib where
  "sample_reward_lib = \<lparr>rl_FromString = (\<lambda>_. Inr [84]), rl_GetRewardUTXOs = (\<lambda>_. Inr [[1]]),
     rl_Unmarshal = (\<lambda>_. Inr \<lparr>RewardUTXO_TxID = [67], RewardUTXO_OutputIndex = 3, RewardUTXO_AssetID = [9],
       RewardUTXO_Out = SecpTransferOutput \<lparr>TransferOutput_Amt = 5, TransferOutput_Owners = sample_owners\<rparr>\<rparr>)\<rparr>"

definition sample_reward_env :: settings where
  "sample_reward_env = \<lparr>set_now = 10 * nanos_per_second, set_upd = False, set_hrp = ''hrp''\<rparr>"

definition sample_reward_db :: dbstate where
  "sample_reward_db = empty_db\<lparr>tabs := (tabs empty_db)(
     TableRewards := [[''id'' \<mapsto> VS ''r'', ''block_id'' \<mapsto> VS ''b'', ''txid'' \<mapsto> VS ''t'', ''created_at'' \<mapsto> VT 0, ''processed'' \<mapsto> VI 0]],
     TablePvmBlocks := [[''id'' \<mapsto> VS ''c'', ''parent_id'' \<mapsto> VS ''b'', ''type'' \<mapsto> VI 3]])\<rparr>"

definition sample_reward_tx :: RewardTx where
  "sample_reward_tx = \<lparr>RewardTx_ID = ''r'', RewardTx_Txid = ''t'', RewardTx_Type = 3, RewardTx_CreatedAt = 0\<rparr>"

lemma sample_reward_join:
  "reward_join (10 * nanos_per_second) (sql_select TableRewards [Eq ''processed'' (VI 0)] (tabs sample_reward_db))
     (tabs sample_reward_db TablePvmBlocks) = [sample_reward_tx]"
  by (simp add: reward_join_def sample_reward_db_def sample_reward_tx_def sql_select_def matches_def row_of_Rewards_def row_of_PvmBlocks_def
      getS_def getT_def getW_def getI_def getBool_def)

lemma sample_reward_ok: "tables_ok (tabs sample_reward_db)"
  by (simp add: sample_reward_db_def tables_ok_def keys_ok_def empty_db_def)

abbreviation sample_rh :: rewardsHandler where
  "sample_rh \<equiv> rewards_setup sample_lib [9]"

lemma sample_utxo_run:
  assumes "tables_ok (tabs d)"
  shows "\<exists>d'. processRewardUtxo sample_lib sample_reward_lib sample_rh ideal sample_reward_env 0 [1] d = (Inr (), d') \<and> tables_ok (tabs d')"
proof -
  let ?f = "\<lambda>p. ProcessStateOut sample_lib (rh_writer sample_rh) p (reward_ctx sample_reward_env 0)
    (SecpTransferOutput \<lparr>TransferOutput_Amt = 5, TransferOutput_Owners = sample_owners\<rparr>) [67] 3 [9] 0 0 (ID_String sample_lib (rh_cid sample_rh)) False False"
  have upd: "cc_upd (reward_ctx sample_reward_env 0) = False" by (simp add: reward_ctx_def NewConsumerContext_def sample_reward_env_def)
  have "\<exists>x. outcome (?f record_call) = Inr x"
    by (simp add: outcome_def axc_defs sample_defs record_call_def go_simps reward_ctx_def sample_reward_env_def rewards_setup_def)
  moreover have "traced (call_upd False) (persist_exec ideal) (?f (persist_exec ideal)) (?f record_call)"
    using part_weaken [OF ProcessStateOut_traced, of "reward_ctx sample_reward_env 0"] upd by simp
  ultimately show ?thesis
    using sqlp.run_handler [of "?f (persist_exec ideal)" "?f record_call" d] assms
    by (auto simp: processRewardUtxo_def go_simps sample_reward_lib_def)
qed

theorem rewards_marked_are_paid_witness:
  "\<exists>d'. processRewards sample_lib sample_reward_lib sample_rh ideal sample_reward_env sample_reward_db = (Inr (), d')
     \<and> marked_reward ''r'' (tabs d')
     \<and> list_all (utxo_stored sample_lib sample_reward_lib sample_rh sample_reward_env 0 (tabs d')) [[1]]"
proof -
  have ideal: "sql_session ideal" by (rule ideal.sql_session_axioms)
  have upd: "\<not> set_upd sample_reward_env" by (simp add: sample_reward_env_def)
  obtain d1 where load: "load_rewards ideal (set_now sample_reward_env) sample_reward_db = (Inr [sample_reward_tx], d1)" "tabs d1 = tabs sample_reward_db"
    using sample_reward_join by (simp add: load_rewards_def mysql_def go_simps tick_def sample_reward_env_def sql_select_def matches_def)
  obtain d2 where d2: "processRewardUtxos sample_lib sample_reward_lib sample_rh ideal sample_reward_env [[1]] 0 d1 = (Inr (), d2)" "tables_ok (tabs d2)"
    using sample_utxo_run [of "tick d1"] load(2) sample_reward_ok by (auto simp: processRewardUtxos_def mysql_def go_simps tick_def)
  have T: "tabs d2 TableRewards = tabs sample_reward_db TableRewards"
    using ideal.processRewardUtxos_stores(1) [OF d2(1) upd] load(2) by (simp add: out_grows_def)
  let ?v = "zero_Rewards\<lparr>Rewards_ID := ''r'', Rewards_Processed := 1\<rparr>"
  have safe: "stmt_safe (UpdateSet TableRewards [(''processed'', VI 1)] [Eq ''id'' (VS ''r'')])"
    by (simp add: unique_keys_def norm_pairs_def dao_defs)
  obtain d' where mark: "markRewardProcessed ideal ''r'' d2 = (Inr (), d')"
    "tabs d' = stmt_effect (UpdateSet TableRewards [(''processed'', VI 1)] [Eq ''id'' (VS ''r'')]) (tabs d2)"
    using ideal.exec_shapes_total(3) [OF d2(2) safe, of TableRewards]
    by (auto simp: markRewardProcessed_def UpdateRewardsProcessed_def zero_Rewards_def)
  have run: "processRewards sample_lib sample_reward_lib sample_rh ideal sample_reward_env sample_reward_db = (Inr (), d')"
    using load d2 mark(1)
    by (simp add: processRewards_def processReward_def go_simps sample_reward_tx_def) (simp add: sample_reward_lib_def go_simps)
  have m: "marked_reward ''r'' (tabs d')"
    using mark(2) T by (simp add: marked_reward_def stmt_effect_def sql_update_def Let_def keys_ok_def sample_reward_db_def matches_def norm_pairs_def dao_defs)
  have nm: "\<not> marked_reward ''r'' (tabs sample_reward_db)"
    by (simp add: marked_reward_def sample_reward_db_def)
  have now: "set_now sample_reward_env = 10 * nanos_per_second" by (simp add: sample_reward_env_def)
  have tx: "RewardTx_Type sample_reward_tx \<noteq> BlockTypeAbort" "RewardTx_CreatedAt sample_reward_tx = 0" by (simp_all add: sample_reward_tx_def)
  have node: "rl_GetRewardUTXOs sample_reward_lib j = Inr [[1]]" for j by (simp add: sample_reward_lib_def)
  have "list_all (utxo_stored sample_lib sample_reward_lib sample_rh sample_reward_env 0 (tabs d')) [[1]]"
    using rewards_marked_are_paid [OF ideal upd run m nm] unfolding now sample_reward_join by (simp add: tx node del: list.pred_inject)
  with run m show ?thesis by blast
qed

end
