(* ===== verification/Worker.thy ===== *)
theory Worker
  imports Prelude
begin

text \<open>
  The worker of \<open>src/utils/worker.go\<close>: a bounded channel of jobs and goroutines that take and process them.
  Who uses a worker interleaves its turns with its own steps.
\<close>

section \<open>Operations\<close>

text \<open>The channel of a worker. \<open>Enque\<close> blocks while the channel is full (\<open>None\<close>), \<open>TryEnque\<close> drops the job.\<close>

record 'j worker =
  wk_jobCh :: "'j list"
  wk_queueSize :: nat
  wk_queueCnt :: nat

definition NewWorker :: "nat \<Rightarrow> nat \<Rightarrow> 'j worker" where
  "NewWorker queueSize queueCnt = \<lparr>wk_jobCh = [], wk_queueSize = queueSize, wk_queueCnt = queueCnt\<rparr>"

definition Worker_Enque :: "'j \<Rightarrow> 'j worker \<Rightarrow> 'j worker option" where
  "Worker_Enque job w = (if length (wk_jobCh w) < wk_queueSize w then Some (w\<lparr>wk_jobCh := wk_jobCh w @ [job]\<rparr>) else None)"

definition Worker_TryEnque :: "'j \<Rightarrow> 'j worker \<Rightarrow> 'j worker" where
  "Worker_TryEnque job w = (if length (wk_jobCh w) < wk_queueSize w then w\<lparr>wk_jobCh := wk_jobCh w @ [job]\<rparr> else w)"

definition Worker_JobCnt :: "'j worker \<Rightarrow> int" where
  "Worker_JobCnt w = int (length (wk_jobCh w))"

definition Worker_IsFinished :: "'j worker \<Rightarrow> bool" where
  "Worker_IsFinished w \<longleftrightarrow> Worker_JobCnt w = 0"

text \<open>The receive of the goroutine \<open>worker\<close>.\<close>

definition Worker_take :: "'j worker \<Rightarrow> ('j \<times> 'j worker) option" where
  "Worker_take w = (case wk_jobCh w of [] \<Rightarrow> None | job # rest \<Rightarrow> Some (job, w\<lparr>wk_jobCh := rest\<rparr>))"

text \<open>One turn of the goroutine \<open>worker\<close>: it takes a job and processes it.\<close>

definition worker_turn :: "('j \<Rightarrow> 's \<Rightarrow> 's) \<Rightarrow> 'j worker \<times> 's \<Rightarrow> ('j worker \<times> 's) option" where
  "worker_turn processor = (\<lambda>(w, s). map_option (\<lambda>(job, w'). (w', processor job s)) (Worker_take w))"

end
