(* ===== verification/Replay.thy ===== *)
theory Replay
  imports Stream Worker
begin

text \<open>
  The replay of the stored messages, \<open>src/replay/replay_db.go\<close>: \<open>Start\<close> bootstraps the writers, starts one
  goroutine per topic that reads the messages of the pool and queues them, and waits until the goroutines
  have ended and the queue is empty; worker goroutines consume the queued messages, with updates. All of
  them share \<open>errs\<close>. The model is a step relation over the states of the goroutines: a query, the queueing of a
  message, the receive and the processing of a job are one step each. The log lines are left out.
\<close>

section \<open>Packets and their processing\<close>

type_synonym ConsumeType = u32

definition CONSUME :: ConsumeType where "CONSUME = 1"
definition CONSUMECONSENSUS :: ConsumeType where "CONSUMECONSENSUS = 2"
definition CONSUMEC :: ConsumeType where "CONSUMEC = 3"
definition CONSUMECTRC :: ConsumeType where "CONSUMECTRC = 4"
definition CONSUMECLOG :: ConsumeType where "CONSUMECLOG = 5"

record WorkerPacket =
  wp_writer :: "consumer option"
  wp_cwriter :: "cvmWriter option"
  wp_message :: consumable
  wp_consumeType :: ConsumeType
  wp_block :: "cBlock option"

text \<open>What the replay uses: the libraries, the session, and the settings, with \<open>cfg.PerformUpdates = true\<close>.\<close>

record replay_env =
  re_lib :: extlib
  re_al :: avmlib
  re_pl :: pvmlib
  re_cl :: cvmlib
  re_xl :: axlib
  re_asset :: "u32 \<Rightarrow> go_error + ID"
  re_FromString :: "string \<Rightarrow> go_error + ID"
  re_cvm_NewWriter :: "u32 \<Rightarrow> string \<Rightarrow> go_error + cvmWriter"
  re_sess :: session
  re_now :: gotime
  re_hrp :: string
  re_networkID :: u32
  re_axchainID :: string

definition replay_settings :: "replay_env \<Rightarrow> settings" where
  "replay_settings re = \<lparr>set_now = re_now re, set_upd = True, set_hrp = re_hrp re\<rparr>"

definition set_errs :: "go_error + unit \<Rightarrow> go_error option \<Rightarrow> go_error option" where
  "set_errs r errs = (case r of Inl e \<Rightarrow> Some e | Inr _ \<Rightarrow> errs)"

text \<open>The result of a job: what the consumer returned, the database, and \<open>errs\<close>. When a trace or a log
  cannot be decoded the code stores \<open>consumererr\<close>, which is nil, into \<open>errs\<close>. A nil writer is a panic (\<open>None\<close>
  as a consumer that does not return).\<close>

definition decode_failed :: "dbstate \<Rightarrow> (go_error + unit) \<times> dbstate \<times> go_error option" where
  "decode_failed d = (Inl (ErrorString ''not decoded''), d, None)"

definition workerProcessor :: "replay_env \<Rightarrow> WorkerPacket \<Rightarrow> dbstate \<times> go_error option
    \<Rightarrow> ((go_error + unit) \<times> dbstate \<times> go_error option) option" where
  "workerProcessor re value = (\<lambda>(d, errs).
     let sess = re_sess re; env = replay_settings re; msg = wp_message value; finish = (\<lambda>(r, d'). (r, d', set_errs r errs)) in
     if wp_consumeType value = CONSUME then
       Option.bind (wp_writer value) (\<lambda>w. map_option finish (retry (Consumer_Consume w sess env msg) d))
     else if wp_consumeType value = CONSUMECONSENSUS then
       Option.bind (wp_writer value) (\<lambda>w. map_option finish (retry (Consumer_ConsumeConsensus w sess env msg) d))
     else if wp_consumeType value = CONSUMEC then
       Option.bind (wp_cwriter value) (\<lambda>w. Option.bind (wp_block value) (\<lambda>block.
         map_option (\<lambda>(r, d', _). finish (r, d')) (retry (axchain_persistConsume (re_lib re) (re_cl re) w sess env msg) (d, block))))
     else if wp_consumeType value = CONSUMECTRC then
       (case json_UnmarshalTrace (re_xl re) (consumable_Body msg) of
          Inl err \<Rightarrow> Some (decode_failed d)
        | Inr tt \<Rightarrow> map_option finish (retry (cvm_ConsumeTrace (re_cl re) sess env msg tt) d))
     else if wp_consumeType value = CONSUMECLOG then
       (case json_UnmarshalLog (re_xl re) (consumable_Body msg) of
          Inl err \<Rightarrow> Some (decode_failed d)
        | Inr txLogs \<Rightarrow> map_option finish (retry (cvm_ConsumeLogs (re_lib re) sess env msg txLogs) d))
     else Some (Inr (), d, errs))"

section \<open>The goroutines that read the topics\<close>

text \<open>\<open>Reading ids n\<close>: the loop over \<open>txPools\<close> is at index \<open>n\<close>; \<open>Querying ids n\<close>: it asks for the row until
  there is no error; \<open>Queueing ids n p\<close>: it waits to queue \<open>p\<close>.\<close>

datatype reading = ReaderStart | Reading "string list" nat | Querying "string list" nat | Queueing "string list" nat WorkerPacket | ReaderDone "string list"

record topic_reader =
  tr_topic :: string
  tr_chain :: string
  tr_type :: ConsumeType
  tr_writer :: "consumer option"
  tr_cwriter :: "cvmWriter option"
  tr_at :: reading

text \<open>The packet for a row: the identifier of the message is the key of the row, parsed and written again.\<close>

definition row_packet :: "replay_env \<Rightarrow> topic_reader \<Rightarrow> TxPool \<Rightarrow> go_error + WorkerPacket" where
  "row_packet re tr row =
     (case re_FromString re (TxPool_MsgKey row) of
        Inl err \<Rightarrow> Inl err
      | Inr i \<Rightarrow>
          (let serialization = (case TxPool_Serialization row of None \<Rightarrow> [] | Some b \<Rightarrow> b);
               message = (\<lambda>body. NewMessage (ID_String (re_lib re) i) (tr_chain tr) body
                 (Time_Unix (TxPool_CreatedAt row)) (Time_Nanosecond (TxPool_CreatedAt row)))
           in if tr_type tr = CONSUMEC then
                (case modelsc_Unmarshal (re_cl re) serialization of
                   Inl err \<Rightarrow> Inl err
                 | Inr block \<Rightarrow>
                     (let extra = (case Block_BlockExtraData block of None \<Rightarrow> [] | Some b \<Rightarrow> b) in
                      Inr \<lparr>wp_writer = tr_writer tr, wp_cwriter = tr_cwriter tr, wp_message = message extra, wp_consumeType = tr_type tr,
                        wp_block = Some (block\<lparr>Block_BlockExtraData := Some extra\<rparr>)\<rparr>))
              else
                Inr \<lparr>wp_writer = tr_writer tr, wp_cwriter = tr_cwriter tr, wp_message = message serialization, wp_consumeType = tr_type tr,
                  wp_block = None\<rparr>))"

text \<open>The state of the replay. \<open>rp_main\<close>: the chains that \<open>Start\<close> has still to handle, then the EVM
  chain, then the waiting loop, then the result; \<open>log.Fatalln\<close> ends the process.\<close>

datatype replay_main = MainChains "(string \<times> string) list" | MainAXchain | MainWait | MainExit | MainReturned "go_error option" | MainFatal go_error

record replay_state =
  rp_db :: dbstate
  rp_errs :: "go_error option"
  rp_readers :: "topic_reader list"
  rp_worker :: "WorkerPacket worker"
  rp_threads :: "WorkerPacket option list"
  rp_waitGroup :: int
  rp_counterAdded :: counters
  rp_counterWaits :: counters
  rp_main :: replay_main

definition reader_set :: "nat \<Rightarrow> reading \<Rightarrow> replay_state \<Rightarrow> replay_state" where
  "reader_set i at s = s\<lparr>rp_readers := (rp_readers s)[i := (rp_readers s ! i)\<lparr>tr_at := at\<rparr>]\<rparr>"

text \<open>The deferred calls of a goroutine that returns.\<close>

definition reader_end :: "nat \<Rightarrow> string list \<Rightarrow> replay_state \<Rightarrow> replay_state" where
  "reader_end i listed s =
     (reader_set i (ReaderDone listed) s)\<lparr>rp_waitGroup := rp_waitGroup s - 1,
        rp_counterWaits := CounterID_Add (tr_topic (rp_readers s ! i)) (- 1) (rp_counterWaits s)\<rparr>"

definition reader_step :: "replay_env \<Rightarrow> nat \<Rightarrow> replay_state \<Rightarrow> replay_state option" where
  "reader_step re i s =
     (let tr = rp_readers s ! i in
      case tr_at tr of
        ReaderStart \<Rightarrow>
          (case sess_load (re_sess re) TableTxPool [Eq ''topic'' (VS (tr_topic tr))] (rp_db s) of
             (Inl err, d) \<Rightarrow> Some (reader_end i [] (s\<lparr>rp_db := d, rp_errs := Some err\<rparr>))
           | (Inr rows, d) \<Rightarrow> Some (reader_set i (Reading (map TxPool_ID (sort_key TxPool_CreatedAt (map row_of_TxPool rows))) 0) (s\<lparr>rp_db := d\<rparr>)))
      | Reading ids n \<Rightarrow>
          Some (if n = length ids \<or> rp_errs s \<noteq> None then reader_end i ids s else reader_set i (Querying ids n) s)
      | Querying ids n \<Rightarrow>
            (case QueryTxPool (re_sess re) (zero_TxPool\<lparr>TxPool_ID := ids ! n\<rparr>) (rp_db s) of
               ((_, Some err), d) \<Rightarrow> Some (s\<lparr>rp_db := d\<rparr>)
             | ((row, None), d) \<Rightarrow>
                 (let s = s\<lparr>rp_db := d, rp_counterAdded :=
                    (if isl (re_FromString re (TxPool_MsgKey row)) then rp_counterAdded s else CounterID_Inc (tr_topic tr) (rp_counterAdded s))\<rparr> in
                  case row_packet re tr row of
                    Inl err \<Rightarrow> Some (reader_end i ids (s\<lparr>rp_errs := Some err\<rparr>))
                  | Inr p \<Rightarrow> Some (reader_set i (Queueing ids n p) s)))
      | Queueing ids n p \<Rightarrow>
          map_option (\<lambda>w. reader_set i (Reading ids (Suc n)) (s\<lparr>rp_worker := w\<rparr>)) (Worker_Enque p (rp_worker s))
      | ReaderDone _ \<Rightarrow> None)"

text \<open>\<open>startDecision\<close> and the other functions that start a goroutine for a topic.\<close>

definition start_reader :: "string \<Rightarrow> string \<Rightarrow> ConsumeType \<Rightarrow> consumer option \<Rightarrow> cvmWriter option \<Rightarrow> replay_state \<Rightarrow> replay_state" where
  "start_reader tn chain ty writer cwriter s =
     s\<lparr>rp_counterWaits := CounterID_Inc tn (rp_counterWaits s), rp_counterAdded := CounterID_Add tn 0 (rp_counterAdded s),
       rp_waitGroup := rp_waitGroup s + 1,
       rp_readers := rp_readers s @ [\<lparr>tr_topic = tn, tr_chain = chain, tr_type = ty, tr_writer = writer, tr_cwriter = cwriter, tr_at = ReaderStart\<rparr>]\<rparr>"

definition startDecision :: "replay_env \<Rightarrow> string \<Rightarrow> consumer \<Rightarrow> replay_state \<Rightarrow> replay_state" where
  "startDecision re chain w = start_reader (GetTopicName (re_networkID re) chain EventTypeDecisions) chain CONSUME (Some w) None"

definition startConsensus :: "replay_env \<Rightarrow> string \<Rightarrow> consumer \<Rightarrow> replay_state \<Rightarrow> replay_state" where
  "startConsensus re chain w = start_reader (GetTopicName (re_networkID re) chain EventTypeConsensus) chain CONSUMECONSENSUS (Some w) None"

definition startAXchain :: "replay_env \<Rightarrow> string \<Rightarrow> cvmWriter \<Rightarrow> replay_state \<Rightarrow> replay_state" where
  "startAXchain re chain w = start_reader (nat_digits (unat (re_networkID re)) @ ''-'' @ chain @ ''-axchain'') chain CONSUMEC None (Some w)"

definition startAXchainTrc :: "replay_env \<Rightarrow> string \<Rightarrow> cvmWriter \<Rightarrow> replay_state \<Rightarrow> replay_state" where
  "startAXchainTrc re chain w = start_reader (nat_digits (unat (re_networkID re)) @ ''-'' @ chain @ ''-axchain-trc'') chain CONSUMECTRC None (Some w)"

definition startAXchainLog :: "replay_env \<Rightarrow> string \<Rightarrow> cvmWriter \<Rightarrow> replay_state \<Rightarrow> replay_state" where
  "startAXchainLog re chain w = start_reader (nat_digits (unat (re_networkID re)) @ ''-'' @ chain @ ''-axchain-logs'') chain CONSUMECLOG None (Some w)"

text \<open>The writer of a chain with its bootstrap.\<close>

definition replay_writer :: "replay_env \<Rightarrow> string \<Rightarrow> string \<Rightarrow> go_error + consumer \<times> (dbstate, unit) go" where
  "replay_writer re vm chain =
     (let sess = re_sess re; env = replay_settings re in
      if vm = ''avm'' then
        map_sum id (\<lambda>a. let w = avm_NewWriter (re_networkID re) chain a in
          (\<lparr>Consumer_Consume = avm_Consume (re_lib re) (re_al re) w, Consumer_ConsumeConsensus = avm_ConsumeConsensus (re_lib re) (re_al re)\<rparr>,
           avm_Bootstrap (re_lib re) (re_al re) w (persist_exec sess) env)) (re_asset re (re_networkID re))
      else if vm = ''pvm'' then
        map_sum id (\<lambda>a. let w = pvm_NewWriter (re_networkID re) chain a in
          (\<lparr>Consumer_Consume = pvm_Consume (re_lib re) (re_pl re) w, Consumer_ConsumeConsensus = (\<lambda>_ _. pvm_ConsumeConsensus)\<rparr>,
           pvm_Bootstrap (re_lib re) (re_pl re) w (persist_exec sess) env)) (re_asset re (re_networkID re))
      else Inl (ErrorString ''unknown vmtype''))"

definition handleReader :: "replay_env \<Rightarrow> string \<Rightarrow> string \<Rightarrow> replay_state \<Rightarrow> (go_error + unit) \<times> replay_state" where
  "handleReader re vm chain s =
     (case replay_writer re vm chain of
        Inl err \<Rightarrow> (Inl err, s)
      | Inr (writer, bootstrap) \<Rightarrow>
          (case bootstrap (rp_db s) of
             (Inl err, d) \<Rightarrow> (Inl err, s\<lparr>rp_db := d, rp_errs := Some err\<rparr>)
           | (Inr _, d) \<Rightarrow> (Inr (), startConsensus re chain writer (startDecision re chain writer (s\<lparr>rp_db := d\<rparr>)))))"

definition handleCReader :: "replay_env \<Rightarrow> replay_state \<Rightarrow> (go_error + unit) \<times> replay_state" where
  "handleCReader re s =
     (case re_cvm_NewWriter re (re_networkID re) (re_axchainID re) of
        Inl err \<Rightarrow> (Inl err, s)
      | Inr w \<Rightarrow> (Inr (), startAXchainLog re (re_axchainID re) w (startAXchainTrc re (re_axchainID re) w (startAXchain re (re_axchainID re) w s))))"

text \<open>One step of \<open>Start\<close> after its set-up: a chain, or one look at the waiting loop.\<close>

definition main_step :: "replay_env \<Rightarrow> replay_state \<Rightarrow> replay_state option" where
  "main_step re s =
     (case rp_main s of
        MainChains ((vm, chain) # rest) \<Rightarrow>
          (case handleReader re vm chain s of
             (Inl err, s') \<Rightarrow> Some (s'\<lparr>rp_main := MainFatal err\<rparr>)
           | (Inr _, s') \<Rightarrow> Some (s'\<lparr>rp_main := MainChains rest\<rparr>))
      | MainChains [] \<Rightarrow> Some (s\<lparr>rp_main := MainAXchain\<rparr>)
      | MainAXchain \<Rightarrow>
          (case handleCReader re s of
             (Inl err, s') \<Rightarrow> Some (s'\<lparr>rp_main := MainFatal err\<rparr>)
           | (Inr _, s') \<Rightarrow> Some (s'\<lparr>rp_main := MainWait\<rparr>))
      | MainWait \<Rightarrow>
          (if rp_waitGroup s = 0 \<and> Worker_JobCnt (rp_worker s) = 0 then Some (s\<lparr>rp_main := MainExit\<rparr>) else Some s)
      | MainExit \<Rightarrow> Some (s\<lparr>rp_main := MainReturned (rp_errs s)\<rparr>)
      | _ \<Rightarrow> None)"

text \<open>The receive of worker goroutine \<open>j\<close>, and the processing of what it received.\<close>

definition take_step :: "nat \<Rightarrow> replay_state \<Rightarrow> replay_state option" where
  "take_step j s =
     (case rp_threads s ! j of
        Some _ \<Rightarrow> None
      | None \<Rightarrow> map_option (\<lambda>(p, w). s\<lparr>rp_worker := w, rp_threads := (rp_threads s)[j := Some p]\<rparr>) (Worker_take (rp_worker s)))"

definition process_step :: "replay_env \<Rightarrow> nat \<Rightarrow> replay_state \<Rightarrow> ((WorkerPacket \<times> (go_error + unit)) \<times> replay_state) option" where
  "process_step re j s =
     (case rp_threads s ! j of
        None \<Rightarrow> None
      | Some p \<Rightarrow> map_option (\<lambda>(r, d, errs). ((p, r), s\<lparr>rp_db := d, rp_errs := errs, rp_threads := (rp_threads s)[j := None]\<rparr>))
          (workerProcessor re p (rp_db s, rp_errs s)))"

definition NewDB :: "dbstate \<Rightarrow> nat \<Rightarrow> nat \<Rightarrow> (string \<times> string) list \<Rightarrow> replay_state" where
  "NewDB d queueSize queueThreads config =
     \<lparr>rp_db = d, rp_errs = None, rp_readers = [], rp_worker = NewWorker queueSize queueThreads, rp_threads = replicate queueThreads None,
      rp_waitGroup = 0, rp_counterAdded = NewCounterID, rp_counterWaits = NewCounterID, rp_main = MainChains config\<rparr>"

text \<open>\<open>log\<close> lists the packets that were processed, with what the consumer returned.\<close>

inductive replay_run :: "replay_env \<Rightarrow> replay_state \<Rightarrow> (WorkerPacket \<times> (go_error + unit)) list \<Rightarrow> replay_state \<Rightarrow> bool" for re s0 where
  start: "replay_run re s0 [] s0"
| main: "replay_run re s0 log s \<Longrightarrow> main_step re s = Some s' \<Longrightarrow> replay_run re s0 log s'"
| read: "replay_run re s0 log s \<Longrightarrow> i < length (rp_readers s) \<Longrightarrow> reader_step re i s = Some s' \<Longrightarrow> replay_run re s0 log s'"
| job: "replay_run re s0 log s \<Longrightarrow> j < length (rp_threads s) \<Longrightarrow> take_step j s = Some s' \<Longrightarrow> replay_run re s0 log s'"
| proc: "replay_run re s0 log s \<Longrightarrow> j < length (rp_threads s) \<Longrightarrow> process_step re j s = Some (ev, s') \<Longrightarrow> replay_run re s0 (log @ [ev]) s'"

section \<open>What a replay that returns nil has done\<close>

text \<open>A packet whose body, when it is a trace or a log, can be decoded.\<close>

definition decoded :: "replay_env \<Rightarrow> WorkerPacket \<Rightarrow> bool" where
  "decoded re p \<longleftrightarrow>
     (wp_consumeType p = CONSUMECTRC \<longrightarrow> \<not> isl (json_UnmarshalTrace (re_xl re) (consumable_Body (wp_message p))))
   \<and> (wp_consumeType p = CONSUMECLOG \<longrightarrow> \<not> isl (json_UnmarshalLog (re_xl re) (consumable_Body (wp_message p))))"

lemma workerProcessor_errs:
  assumes "workerProcessor re p (d, errs) = Some (r, d', errs')" "decoded re p"
  shows "errs' = set_errs r errs"
proof -
  have fin: "map_option (\<lambda>(r, d'). (r, d', set_errs r errs)) x = Some (r, d', errs') \<Longrightarrow> errs' = set_errs r errs" for x
    by auto
  have fin3: "map_option (\<lambda>(r, d', b). (r, d', set_errs r errs)) x = Some (r, d', errs') \<Longrightarrow> errs' = set_errs r errs"
    for x :: "((go_error + unit) \<times> dbstate \<times> cBlock) option" by auto
  show ?thesis
    using assms unfolding workerProcessor_def Let_def decoded_def
    by (auto simp: bind_eq_Some_conv set_errs_def split: if_splits sum.splits)
qed

text \<open>A packet for the row that was read under an identifier.\<close>

definition packet_for :: "replay_env \<Rightarrow> topic_reader \<Rightarrow> string \<Rightarrow> WorkerPacket \<Rightarrow> bool" where
  "packet_for re tr i p \<longleftrightarrow>
     (\<exists>row d d'. QueryTxPool (re_sess re) (zero_TxPool\<lparr>TxPool_ID := i\<rparr>) d = ((row, None), d') \<and> row_packet re tr row = Inr p)"

definition underway :: "(WorkerPacket \<times> (go_error + unit)) list \<Rightarrow> replay_state \<Rightarrow> WorkerPacket \<Rightarrow> bool" where
  "underway log s p \<longleftrightarrow> p \<in> set (wk_jobCh (rp_worker s)) \<or> Some p \<in> set (rp_threads s) \<or> (p, Inr ()) \<in> set log"

definition queued :: "replay_env \<Rightarrow> (WorkerPacket \<times> (go_error + unit)) list \<Rightarrow> replay_state \<Rightarrow> topic_reader \<Rightarrow> string list \<Rightarrow> bool" where
  "queued re log s tr ids \<longleftrightarrow> (\<forall>i \<in> set ids. \<exists>p. packet_for re tr i p \<and> underway log s p)"

definition reader_ok :: "replay_env \<Rightarrow> (WorkerPacket \<times> (go_error + unit)) list \<Rightarrow> replay_state \<Rightarrow> topic_reader \<Rightarrow> bool" where
  "reader_ok re log s tr \<longleftrightarrow>
     (case tr_at tr of
        ReaderStart \<Rightarrow> True
      | Reading ids n \<Rightarrow> n \<le> length ids \<and> queued re log s tr (take n ids)
      | Querying ids n \<Rightarrow> n < length ids \<and> queued re log s tr (take n ids)
      | Queueing ids n p \<Rightarrow> n < length ids \<and> queued re log s tr (take n ids) \<and> packet_for re tr (ids ! n) p
      | ReaderDone ids \<Rightarrow> queued re log s tr ids)"

definition reader_done :: "topic_reader \<Rightarrow> bool" where
  "reader_done tr \<longleftrightarrow> (case tr_at tr of ReaderDone _ \<Rightarrow> True | _ \<Rightarrow> False)"

definition main_exited :: "replay_main \<Rightarrow> bool" where
  "main_exited m \<longleftrightarrow> (case m of MainExit \<Rightarrow> True | MainReturned _ \<Rightarrow> True | _ \<Rightarrow> False)"

definition replay_inv :: "replay_env \<Rightarrow> (WorkerPacket \<times> (go_error + unit)) list \<Rightarrow> replay_state \<Rightarrow> bool" where
  "replay_inv re log s \<longleftrightarrow>
     (rp_errs s \<noteq> None \<or> list_all (reader_ok re log s) (rp_readers s))
   \<and> rp_waitGroup s = int (length (filter (\<lambda>tr. \<not> reader_done tr) (rp_readers s)))
   \<and> (main_exited (rp_main s) \<longrightarrow> list_all reader_done (rp_readers s) \<and> wk_jobCh (rp_worker s) = [])"

lemma row_packet_at [simp]: "row_packet re (tr\<lparr>tr_at := a\<rparr>) row = row_packet re tr row"
  by (simp add: row_packet_def Let_def split: sum.split)

lemma packet_for_at [simp]: "packet_for re (tr\<lparr>tr_at := a\<rparr>) = packet_for re tr"
  by (simp add: fun_eq_iff packet_for_def)

lemma queued_at [simp]: "queued re log s (tr\<lparr>tr_at := a\<rparr>) = queued re log s tr"
  by (simp add: fun_eq_iff queued_def)

lemma queued_mono:
  "queued re log s tr ids \<Longrightarrow> (\<And>p. underway log s p \<Longrightarrow> underway log' s' p) \<Longrightarrow> queued re log' s' tr ids"
  unfolding queued_def by blast

lemma reader_ok_mono:
  assumes "reader_ok re log s tr" "\<And>p. underway log s p \<Longrightarrow> underway log' s' p"
  shows "reader_ok re log' s' tr"
  using assms(1) queued_mono [OF _ assms(2)] unfolding reader_ok_def by (auto split: reading.splits)

lemma readers_mono:
  "list_all (reader_ok re log s) rs \<Longrightarrow> (\<And>p. underway log s p \<Longrightarrow> underway log' s' p) \<Longrightarrow> list_all (reader_ok re log' s') rs"
  using reader_ok_mono by (metis list_all_iff)

lemma count_update:
  "i < length xs \<Longrightarrow> int (length (filter P (xs[i := y]))) = int (length (filter P xs)) - (if P (xs ! i) then 1 else 0) + (if P y then 1 else 0)"
proof (induction xs arbitrary: i)
  case (Cons x xs)
  show ?case
  proof (cases i)
    case (Suc k)
    then show ?thesis using Cons.IH [of k] Cons.prems by (cases "P (xs ! k)"; cases "P y") simp_all
  qed simp
qed simp

lemma not_done_not_exited:
  "replay_inv re log s \<Longrightarrow> i < length (rp_readers s) \<Longrightarrow> \<not> reader_done (rp_readers s ! i) \<Longrightarrow> \<not> main_exited (rp_main s)"
  by (auto simp: replay_inv_def list_all_length)

lemma reader_update:
  assumes inv: "replay_inv re log s" "i < length (rp_readers s)" "\<not> reader_done (rp_readers s ! i)"
    and s': "rp_readers s' = (rp_readers s)[i := (rp_readers s ! i)\<lparr>tr_at := at\<rparr>]" "rp_main s' = rp_main s"
      "rp_waitGroup s' = rp_waitGroup s - (case at of ReaderDone _ \<Rightarrow> 1 | _ \<Rightarrow> 0)"
    and ok: "rp_errs s' = None \<Longrightarrow> rp_errs s = None"
      "rp_errs s' = None \<Longrightarrow> reader_ok re log s (rp_readers s ! i) \<Longrightarrow> reader_ok re log s' ((rp_readers s ! i)\<lparr>tr_at := at\<rparr>)"
    and mono: "\<And>p. underway log s p \<Longrightarrow> underway log s' p"
  shows "replay_inv re log s'"
proof -
  have "rp_errs s' \<noteq> None \<or> list_all (reader_ok re log s') (rp_readers s')"
  proof (cases "rp_errs s'")
    case None
    then have "list_all (reader_ok re log s) (rp_readers s)" using inv(1) ok(1) by (auto simp: replay_inv_def)
    then have "list_all (reader_ok re log s') (rp_readers s)" "reader_ok re log s (rp_readers s ! i)"
      using readers_mono [OF _ mono] inv(2) by (auto simp: list_all_length)
    then show ?thesis using ok(2) [OF None] s'(1) inv(2) by (auto simp: list_all_length nth_list_update)
  qed simp
  moreover have "rp_waitGroup s' = int (length (filter (\<lambda>tr. \<not> reader_done tr) (rp_readers s')))"
    using inv s'(1,3) by (simp add: replay_inv_def count_update) (simp add: reader_done_def split: reading.splits)
  moreover have "\<not> main_exited (rp_main s')" using not_done_not_exited [OF inv] s'(2) by simp
  ultimately show ?thesis by (simp add: replay_inv_def)
qed

lemma underway_same: "rp_worker s' = rp_worker s \<Longrightarrow> rp_threads s' = rp_threads s \<Longrightarrow> underway log s' = underway log s"
  by (simp add: fun_eq_iff underway_def)

lemma reader_ok_same:
  assumes "underway log s' = underway log s"
  shows "reader_ok re log s' = reader_ok re log s"
  unfolding reader_ok_def queued_def assms by (rule refl)

lemmas reader_defs = reader_end_def reader_set_def reader_done_def

lemma reader_querying_inv:
  assumes inv: "replay_inv re log s" "i < length (rp_readers s)" and step: "reader_step re i s = Some s'"
    and Querying: "tr_at (rp_readers s ! i) = Querying ids n"
  shows "replay_inv re log s'"
proof -
  let ?tr = "rp_readers s ! i"
  have nd: "\<not> reader_done ?tr" using Querying by (simp add: reader_done_def)
  note upd = reader_update [OF inv nd]
  obtain row e d where query: "QueryTxPool (re_sess re) (zero_TxPool\<lparr>TxPool_ID := ids ! n\<rparr>) (rp_db s) = ((row, e), d)"
    by (metis prod.collapse)
  have same: "?tr\<lparr>tr_at := Querying ids n\<rparr> = ?tr" using Querying by simp
  show ?thesis
  proof (cases e)
    case (Some err)
    then have "s' = s\<lparr>rp_db := d\<rparr>" using step Querying query by (simp add: reader_step_def Let_def)
    then show ?thesis using inv(1) unfolding replay_inv_def
      by (auto simp: list_all_iff reader_ok_def queued_def underway_def split: reading.splits)
  next
    case None
    show ?thesis
    proof (cases "row_packet re ?tr row")
      case (Inl err)
      then show ?thesis using step Querying query None
        by (intro upd [where at = "ReaderDone ids"]) (auto simp: reader_step_def reader_defs Let_def underway_def)
    next
      case (Inr p)
      have "packet_for re ?tr (ids ! n) p" using query None Inr by (auto simp: packet_for_def)
      with Inr show ?thesis using step Querying query None
        by (intro upd [where at = "Queueing ids n p"]) (auto simp: reader_step_def reader_defs Let_def underway_def reader_ok_def queued_def)
    qed
  qed
qed

lemma reader_queueing_inv:
  assumes inv: "replay_inv re log s" "i < length (rp_readers s)" and step: "reader_step re i s = Some s'"
    and Queueing: "tr_at (rp_readers s ! i) = Queueing ids n p"
  shows "replay_inv re log s'"
proof -
  let ?tr = "rp_readers s ! i"
  have nd: "\<not> reader_done ?tr" using Queueing by (simp add: reader_done_def)
  note upd = reader_update [OF inv nd]
  obtain w where w: "Worker_Enque p (rp_worker s) = Some w" and s': "s' = reader_set i (Reading ids (Suc n)) (s\<lparr>rp_worker := w\<rparr>)"
    using step Queueing by (auto simp: reader_step_def Let_def)
  have jobs: "wk_jobCh w = wk_jobCh (rp_worker s) @ [p]" using w by (auto simp: Worker_Enque_def split: if_splits)
  show ?thesis
  proof (rule upd [where at = "Reading ids (Suc n)"])
    assume "reader_ok re log s ?tr"
    then show "reader_ok re log s' (?tr\<lparr>tr_at := Reading ids (Suc n)\<rparr>)"
      using Queueing jobs by (auto simp: s' reader_ok_def reader_set_def queued_def underway_def take_Suc_conv_app_nth)
  qed (use jobs in \<open>auto simp: s' reader_set_def underway_def\<close>)
qed

lemma reader_step_inv:
  assumes inv: "replay_inv re log s" "i < length (rp_readers s)" and step: "reader_step re i s = Some s'"
  shows "replay_inv re log s'"
proof -
  let ?tr = "rp_readers s ! i"
  have nd: "\<not> reader_done ?tr" using step by (auto simp: reader_step_def reader_done_def Let_def split: reading.splits)
  note upd = reader_update [OF inv nd]
  show ?thesis
  proof (cases "tr_at ?tr")
    case ReaderStart
    obtain l d where load: "sess_load (re_sess re) TableTxPool [Eq ''topic'' (VS (tr_topic ?tr))] (rp_db s) = (l, d)" by fastforce
    show ?thesis
    proof (cases l)
      case (Inl e)
      then show ?thesis using step ReaderStart load
        by (intro upd [where at = "ReaderDone []"]) (auto simp: reader_step_def reader_defs Let_def underway_def)
    next
      case (Inr rows)
      then show ?thesis using step ReaderStart load
        by (intro upd [where at = "Reading (map TxPool_ID (sort_key TxPool_CreatedAt (map row_of_TxPool rows))) 0"])
          (auto simp: reader_step_def reader_defs Let_def underway_def reader_ok_def queued_def)
    qed
  next
    case (Reading ids n)
    show ?thesis
    proof (cases "n = length ids \<or> rp_errs s \<noteq> None")
      case True
      then show ?thesis using step Reading
        by (intro upd [where at = "ReaderDone ids"]) (auto simp: reader_step_def reader_defs Let_def underway_def reader_ok_def queued_def)
    next
      case False
      then show ?thesis using step Reading
        by (intro upd [where at = "Querying ids n"]) (auto simp: reader_step_def reader_defs Let_def underway_def reader_ok_def queued_def)
    qed
  next
    case (Querying ids n)
    from reader_querying_inv [OF inv step this] show ?thesis .
  next
    case (Queueing ids n p)
    from reader_queueing_inv [OF inv step this] show ?thesis .
  qed (use nd in \<open>simp add: reader_done_def\<close>)
qed

lemma start_reader_main [simp]: "rp_main (start_reader tn chain ty w cw s) = rp_main s"
  by (simp add: start_reader_def)

lemma start_reader_inv:
  assumes "replay_inv re log s" "\<not> main_exited (rp_main s)"
  shows "replay_inv re log (start_reader tn chain ty w cw s)"
proof -
  have "underway log (start_reader tn chain ty w cw s) = underway log s" by (rule underway_same) (simp_all add: start_reader_def)
  from reader_ok_same [OF this] show "replay_inv re log (start_reader tn chain ty w cw s)"
    using assms by (auto simp: replay_inv_def start_reader_def reader_ok_def reader_done_def)
qed

lemma replay_inv_cong:
  assumes "replay_inv re log s" "rp_errs s' = rp_errs s \<or> rp_errs s' \<noteq> None" "rp_readers s' = rp_readers s" "rp_worker s' = rp_worker s"
    "rp_threads s' = rp_threads s" "rp_waitGroup s' = rp_waitGroup s" "main_exited (rp_main s') \<Longrightarrow> main_exited (rp_main s)"
  shows "replay_inv re log s'"
proof -
  have "underway log s' = underway log s" using assms by (intro underway_same) simp_all
  from reader_ok_same [OF this] show ?thesis using assms by (auto simp: replay_inv_def)
qed

lemma handleReader_inv:
  assumes "replay_inv re log s" "\<not> main_exited (rp_main s)" "handleReader re vm chain s = (r, s')"
  shows "replay_inv re log s'" "rp_main s' = rp_main s"
proof -
  have inv: "replay_inv re log (s\<lparr>rp_db := d\<rparr>)" "replay_inv re log (s\<lparr>rp_db := d, rp_errs := Some e\<rparr>)" for d e
    using assms(1) by (rule replay_inv_cong; simp)+
  show "replay_inv re log s'" "rp_main s' = rp_main s"
    using assms inv unfolding handleReader_def startConsensus_def startDecision_def
    by (auto simp: start_reader_inv split: sum.splits prod.splits)
qed

lemma handleCReader_inv:
  assumes "replay_inv re log s" "\<not> main_exited (rp_main s)" "handleCReader re s = (r, s')"
  shows "replay_inv re log s'" "rp_main s' = rp_main s"
  using assms unfolding handleCReader_def startAXchainLog_def startAXchainTrc_def startAXchain_def
  by (auto simp: start_reader_inv split: sum.splits)

lemma main_step_inv:
  assumes inv: "replay_inv re log s" and step: "main_step re s = Some s'"
  shows "replay_inv re log s'"
proof (cases "rp_main s")
  case (MainChains cs)
  show ?thesis
  proof (cases cs)
    case Nil
    then show ?thesis using step MainChains by (intro replay_inv_cong [OF inv]) (auto simp: main_step_def main_exited_def)
  next
    case (Cons c rest)
    obtain vm chain where c: "c = (vm, chain)" by fastforce
    obtain r s1 where run: "handleReader re vm chain s = (r, s1)" by fastforce
    have ne: "\<not> main_exited (rp_main s)" using MainChains by (simp add: main_exited_def)
    note h = handleReader_inv [OF inv ne run]
    show ?thesis using step MainChains Cons c run
      by (intro replay_inv_cong [OF h(1)]) (auto simp: main_step_def main_exited_def split: sum.splits)
  qed
next
  case MainAXchain
  obtain r s1 where run: "handleCReader re s = (r, s1)" by fastforce
  have ne: "\<not> main_exited (rp_main s)" using MainAXchain by (simp add: main_exited_def)
  note h = handleCReader_inv [OF inv ne run]
  show ?thesis using step MainAXchain run
    by (intro replay_inv_cong [OF h(1)]) (auto simp: main_step_def main_exited_def split: sum.splits)
next
  case MainWait
  show ?thesis
  proof (cases "rp_waitGroup s = 0 \<and> Worker_JobCnt (rp_worker s) = 0")
    case True
    then have "wk_jobCh (rp_worker s) = []" by (simp add: Worker_JobCnt_def)
    moreover have "list_all reader_done (rp_readers s)" using inv True by (simp add: replay_inv_def filter_empty_conv list_all_iff)
    moreover have "s' = s\<lparr>rp_main := MainExit\<rparr>" using step MainWait True by (simp add: main_step_def)
    moreover have "reader_ok re log (s\<lparr>rp_main := MainExit\<rparr>) = reader_ok re log s"
      by (rule reader_ok_same, rule underway_same) simp_all
    ultimately show ?thesis using inv by (simp add: replay_inv_def)
  next
    case False
    then show ?thesis using step MainWait inv by (simp add: main_step_def split: if_splits)
  qed
next
  case MainExit
  then show ?thesis using step by (intro replay_inv_cong [OF inv]) (auto simp: main_step_def main_exited_def)
qed (use step in \<open>simp_all add: main_step_def\<close>)

lemma take_step_inv:
  assumes inv: "replay_inv re log s" and step: "take_step j s = Some s'" "j < length (rp_threads s)"
  shows "replay_inv re log s'"
proof -
  obtain p rest where idle: "rp_threads s ! j = None" and jobs: "wk_jobCh (rp_worker s) = p # rest"
    and s': "s' = s\<lparr>rp_worker := (rp_worker s)\<lparr>wk_jobCh := rest\<rparr>, rp_threads := (rp_threads s)[j := Some p]\<rparr>"
    using step(1) by (auto simp: take_step_def Worker_take_def split: option.splits list.splits)
  have "underway log s' q" if "underway log s q" for q
  proof -
    have "Some q \<in> set (rp_threads s) \<Longrightarrow> Some q \<in> set ((rp_threads s)[j := Some p])"
      using idle by (metis in_set_conv_nth length_list_update nth_list_update_neq option.distinct(1))
    then show ?thesis using that jobs step(2) by (auto simp: underway_def s' set_update_memI)
  qed
  note mono = readers_mono [OF _ this]
  have "\<not> main_exited (rp_main s)" using inv jobs by (auto simp: replay_inv_def)
  then show ?thesis using inv mono by (auto simp: replay_inv_def s')
qed

lemma process_step_inv:
  assumes inv: "replay_inv re log s" and step: "process_step re j s = Some ((p, r), s')" "j < length (rp_threads s)" "decoded re p"
  shows "replay_inv re (log @ [(p, r)]) s'"
proof -
  obtain d errs where busy: "rp_threads s ! j = Some p" and run: "workerProcessor re p (rp_db s, rp_errs s) = Some (r, d, errs)"
    and s': "s' = s\<lparr>rp_db := d, rp_errs := errs, rp_threads := (rp_threads s)[j := None]\<rparr>"
    using step(1) by (auto simp: process_step_def split: option.splits)
  have errs: "errs = set_errs r (rp_errs s)" using workerProcessor_errs [OF run step(3)] .
  show ?thesis
  proof (cases r)
    case (Inl e)
    then have "rp_errs s' \<noteq> None" using errs by (simp add: s' set_errs_def)
    then show ?thesis using inv by (auto simp: replay_inv_def s')
  next
    case (Inr u)
    have "underway (log @ [(p, r)]) s' q" if "underway log s q" for q
    proof -
      have "Some q \<in> set (rp_threads s) \<Longrightarrow> q = p \<or> Some q \<in> set ((rp_threads s)[j := None])"
        using busy by (metis in_set_conv_nth length_list_update nth_list_update_neq option.inject)
      then show ?thesis using that Inr by (auto simp: underway_def s')
    qed
    note mono = readers_mono [OF _ this]
    have "errs = rp_errs s" using errs Inr by (simp add: set_errs_def)
    then show ?thesis using inv mono by (auto simp: replay_inv_def s')
  qed
qed

lemma replay_run_inv:
  "replay_run re (NewDB d q n config) log s \<Longrightarrow> list_all (\<lambda>(p, r). decoded re p) log \<Longrightarrow> replay_inv re log s"
proof (induction rule: replay_run.induct)
  case start
  show ?case by (simp add: replay_inv_def NewDB_def main_exited_def)
next
  case (proc log s j ev s')
  then show ?case by (cases ev) (auto intro: process_step_inv)
qed (auto intro: main_step_inv reader_step_inv take_step_inv)


text \<open>A trace or a log that cannot be decoded is not reported, and its worker erases an error that was stored
  before: when it is processed last, \<open>Start\<close> returns nil, whatever \<open>errs\<close> was.\<close>

theorem replay_decode_error_lost:
  assumes "replay_run re s0 log s" "rp_main s = MainWait" "rp_waitGroup s = 0" "wk_jobCh (rp_worker s) = []"
    "j < length (rp_threads s)" "rp_threads s ! j = Some p" "\<not> decoded re p"
  shows "\<exists>e s'. replay_run re s0 (log @ [(p, Inl e)]) s' \<and> rp_main s' = MainReturned None"
proof -
  have "workerProcessor re p (rp_db s, rp_errs s) = Some (decode_failed (rp_db s))"
    using assms(7) by (auto simp: workerProcessor_def decoded_def Let_def CONSUME_def CONSUMECONSENSUS_def CONSUMEC_def
        CONSUMECTRC_def CONSUMECLOG_def isl_def)
  then have "process_step re j s = Some ((p, Inl (ErrorString ''not decoded'')), s\<lparr>rp_errs := None, rp_threads := (rp_threads s)[j := None]\<rparr>)"
    using assms(6) by (simp add: process_step_def decode_failed_def)
  then have "replay_run re s0 (log @ [(p, Inl (ErrorString ''not decoded''))]) (s\<lparr>rp_errs := None, rp_threads := (rp_threads s)[j := None]\<rparr>)"
    using assms(1,5) replay_run.proc by blast
  then have "replay_run re s0 (log @ [(p, Inl (ErrorString ''not decoded''))])
      (s\<lparr>rp_errs := None, rp_threads := (rp_threads s)[j := None], rp_main := MainExit\<rparr>)"
    by (rule replay_run.main) (use assms(2-4) in \<open>simp add: main_step_def Worker_JobCnt_def\<close>)
  then have "replay_run re s0 (log @ [(p, Inl (ErrorString ''not decoded''))])
      (s\<lparr>rp_errs := None, rp_threads := (rp_threads s)[j := None], rp_main := MainReturned None\<rparr>)"
    by (rule replay_run.main) (simp add: main_step_def)
  then show ?thesis by force
qed

section \<open>Examples\<close>

text \<open>A replay of a pool that holds one log of the EVM chain, up to its processing.\<close>

datatype turn = TurnMain | TurnRead nat | TurnTake nat

fun drive :: "replay_env \<Rightarrow> turn list \<Rightarrow> replay_state \<Rightarrow> replay_state option" where
  "drive re [] s = Some s"
| "drive re (TurnMain # ts) s = Option.bind (main_step re s) (drive re ts)"
| "drive re (TurnRead i # ts) s = (if i < length (rp_readers s) then Option.bind (reader_step re i s) (drive re ts) else None)"
| "drive re (TurnTake j # ts) s = (if j < length (rp_threads s) then Option.bind (take_step j s) (drive re ts) else None)"

lemma drive_run: "drive re ts s = Some s' \<Longrightarrow> replay_run re s0 log s \<Longrightarrow> replay_run re s0 log s'"
proof (induction re ts s rule: drive.induct)
  case (2 re ts s)
  then show ?case by (auto simp: bind_eq_Some_conv intro: replay_run.main)
next
  case (3 re i ts s)
  then show ?case by (auto simp: bind_eq_Some_conv intro: replay_run.read split: if_splits)
next
  case (4 re j ts s)
  then show ?case by (auto simp: bind_eq_Some_conv intro: replay_run.job split: if_splits)
qed simp

definition sample_log :: EthLog where
  "sample_log = \<lparr>Log_BlockHash = ''b'', Log_TxHash = ''t'', Log_Index = 0, Log_BlockNumber = 1, Log_Topics = [], Log_Removed = False\<rparr>"

definition sample_re :: "go_error + EthLog \<Rightarrow> replay_env" where
  "sample_re dec = \<lparr>re_lib = sample_lib, re_al = sample_avmlib, re_pl = sample_pvmlib, re_cl = undefined,
     re_xl = \<lparr>json_UnmarshalLog = (\<lambda>_. dec), json_UnmarshalTrace = (\<lambda>_. Inl (ErrorString ''no trace''))\<rparr>,
     re_asset = (\<lambda>_. Inr [9]), re_FromString = (\<lambda>_. Inr [75]), re_cvm_NewWriter = (\<lambda>_ _. Inr undefined), re_sess = ideal,
     re_now = 200, re_hrp = ''hrp'', re_networkID = 1, re_axchainID = ''C''\<rparr>"

definition sample_log_topic :: string where
  "sample_log_topic = nat_digits 1 @ ''-'' @ ''C'' @ ''-axchain-logs''"

definition sample_pool_db :: dbstate where
  "sample_pool_db = \<lparr>tabs = (\<lambda>_. [])(TableTxPool := [[''id'' \<mapsto> VS ''m'', ''msg_key'' \<mapsto> VS ''k'', ''serialization'' \<mapsto> VBytes (Some [76]),
     ''topic'' \<mapsto> VS sample_log_topic, ''created_at'' \<mapsto> VT 0]]), ticks = 0\<rparr>"

definition sample_packet :: WorkerPacket where
  "sample_packet = \<lparr>wp_writer = None, wp_cwriter = Some undefined, wp_message = NewMessage ''K'' ''C'' [76] 0 0,
     wp_consumeType = CONSUMECLOG, wp_block = None\<rparr>"

definition sample_turns :: "turn list" where
  "sample_turns = [TurnMain, TurnMain, TurnRead 0, TurnRead 0, TurnRead 1, TurnRead 1, TurnRead 2, TurnRead 2, TurnRead 2, TurnRead 2, TurnRead 2, TurnTake 0]"

lemmas sample_step_defs = main_step_def handleCReader_def startAXchain_def startAXchainTrc_def startAXchainLog_def start_reader_def
  reader_step_def reader_set_def reader_end_def take_step_def Worker_take_def Worker_Enque_def NewWorker_def Let_def
  CONSUMECLOG_def CONSUMECTRC_def CONSUMEC_def

lemma sample_K: "ID_String sample_lib [75] = ''K''"
  by code_simp

lemma sample_busy:
  "\<exists>s. drive (sample_re dec) sample_turns (NewDB sample_pool_db 1 1 []) = Some s \<and> rp_main s = MainWait \<and> rp_waitGroup s = 0
     \<and> wk_jobCh (rp_worker s) = [] \<and> rp_threads s = [Some sample_packet] \<and> rp_errs s = None \<and> tabs (rp_db s) = tabs sample_pool_db
     \<and> (\<exists>tr \<in> set (rp_readers s). tr_at tr = ReaderDone [''m''])"
  by (simp add: sample_turns_def NewDB_def sample_step_defs sample_re_def mysql_def sql_select_def matches_def sample_pool_db_def tick_def
      QueryTxPool_def load_one_def TxPool_key_def row_of_TxPool_def getS_def getT_def getB_def getW_def getI_def row_packet_def
      sample_packet_def NewMessage_def sample_log_topic_def sample_K Time_Unix_def Time_Nanosecond_def)

theorem replay_decode_error_lost_witness:
  "\<exists>e s'. replay_run (sample_re (Inl (ErrorString ''bad''))) (NewDB sample_pool_db 1 1 []) [(sample_packet, Inl e)] s' \<and> rp_main s' = MainReturned None"
proof -
  obtain s where s: "drive (sample_re (Inl (ErrorString ''bad''))) sample_turns (NewDB sample_pool_db 1 1 []) = Some s" "rp_main s = MainWait"
    "rp_waitGroup s = 0" "wk_jobCh (rp_worker s) = []" "rp_threads s = [Some sample_packet]" using sample_busy by blast
  have "\<not> decoded (sample_re (Inl (ErrorString ''bad''))) sample_packet"
    by (simp add: decoded_def sample_packet_def sample_re_def)
  with replay_decode_error_lost [OF drive_run [OF s(1) replay_run.start] s(2-4), of 0 sample_packet] s(5) show ?thesis by simp
qed

lemma sample_log_consumed:
  assumes "tables_ok (tabs d)"
  shows "\<exists>d'. cvm_ConsumeLogs sample_lib ideal (replay_settings (sample_re dec)) (wp_message sample_packet) sample_log d = (Inr (), d')"
proof -
  obtain v where v: "CvmLogs_ComputeID sample_lib (CvmLogs_row (consumer_ctx (replay_settings (sample_re dec)) (wp_message sample_packet)) sample_log
      (consumable_Body (wp_message sample_packet))) = Inr v"
    by (simp add: CvmLogs_ComputeID_def sample_lib_def)
  have insert: "\<exists>d2. persist_exec ideal (PInsertCvmLogs v True) d1 = (Inr (), d2)" if ok: "tables_ok (tabs d1)" for v d1
  proof -
    obtain d2 where d2: "exec_insert ideal TableCvmLogs TableCvmLogs (CvmLogs_cols v) d1 = (Inr (), d2)" "tabs d2 = stmt_effect (InsertInto TableCvmLogs (CvmLogs_cols v)) (tabs d1)"
      using ideal.exec_shapes_total(1) [OF ok, of TableCvmLogs TableCvmLogs "CvmLogs_cols v"] by auto
    have "tables_ok (tabs d2)" using d2(2) ok stmt_effect_keys by simp
    moreover have "stmt_safe (UpdateSet TableCvmLogs (CvmLogs_sets v) [Eq ''id'' (VS (CvmLogs_ID v))])"
      by (simp add: unique_keys_def norm_pairs_def dao_defs CvmLogs_sets_def)
    ultimately obtain d3 where "exec_update ideal TableCvmLogs TableCvmLogs (CvmLogs_sets v) [Eq ''id'' (VS (CvmLogs_ID v))] d2 = (Inr (), d3)"
      using ideal.exec_shapes_total(2) by blast
    with d2(1) show ?thesis by (simp add: InsertCvmLogs_def go_simps)
  qed
  obtain d2 where "persist_exec ideal (PInsertCvmLogs v True) (tick d) = (Inr (), d2)" using insert [of "tick d" v] assms by (auto simp: tick_def)
  moreover have "sess_begin ideal d = (None, tick d)" "sess_commit ideal d2 = (None, tick d2)" by (simp_all add: mysql_def)
  moreover have "set_upd (replay_settings (sample_re dec)) = True" by (simp add: replay_settings_def)
  ultimately have "cvm_ConsumeLogs sample_lib ideal (replay_settings (sample_re dec)) (wp_message sample_packet) sample_log d = (Inr (), tick d2)"
    using v by (simp add: cvm_ConsumeLogs_def with_tx_def go_simps del: persist_exec.simps)
  then show ?thesis by blast
qed


end
