(* ===== verification/Params.thy ===== *)
theory Params
  imports DbRows Utils Ext Strconv
begin

text \<open>
  The parameters of an API request, \<open>src/services/indexes/params\<close>: reading them from the query of a
  request (\<open>ForValues\<close>), the parts of the key under which a response is cached (\<open>CacheKey\<close>), and what
  they add to a query of the database (\<open>Apply\<close>). A query under construction is the data that the
  query builder collects. The parsers of the chain's libraries and of the package \<open>time\<close> are
  arguments.
\<close>

section \<open>Library\<close>

record paramlib =
  ids_FromString :: "string \<Rightarrow> go_error + ID"
  ids_ShortFromString :: "string \<Rightarrow> go_error + ShortID"
  ids_ToShortID :: "bytes \<Rightarrow> go_error + ShortID"
  ParseBech32 :: "string \<Rightarrow> go_error + string \<times> bytes"
  time_Parse_RFC3339 :: "string \<Rightarrow> go_error + gotime"
  time_ParseDuration :: "string \<Rightarrow> go_error + int"
  time_Now :: gotime

type_synonym url_values = "string \<rightharpoonup> string list"

text \<open>\<open>q[key]\<close>, nil when the key is absent.\<close>

definition values_at :: "url_values \<Rightarrow> string \<Rightarrow> string list" where
  "values_at q key = (case q key of None \<Rightarrow> [] | Some strs \<Rightarrow> strs)"

definition res_bind :: "'e + 'a \<Rightarrow> ('a \<Rightarrow> 'e + 'b) \<Rightarrow> 'e + 'b" where
  "res_bind r f = (case r of Inl e \<Rightarrow> Inl e | Inr a \<Rightarrow> f a)"

fun parse_each :: "('a \<Rightarrow> 'e + 'b) \<Rightarrow> 'a list \<Rightarrow> 'b list \<Rightarrow> 'e + 'b list" where
  "parse_each f [] acc = Inr acc"
| "parse_each f (x # xs) acc = res_bind (f x) (\<lambda>y. parse_each f xs (acc @ [y]))"

text \<open>\<open>t.Round(d)\<close>, half up.\<close>

definition time_Round :: "gotime \<Rightarrow> int \<Rightarrow> gotime" where
  "time_Round t d = (let r = t mod d in if r + r < d then t - r else t + (d - r))"

definition bool_text :: "bool \<Rightarrow> string" where
  "bool_text b = (if b then ''true'' else ''false'')"

section \<open>Constants\<close>

abbreviation KeyID :: string where "KeyID \<equiv> ''id''"
abbreviation KeyChainID :: string where "KeyChainID \<equiv> ''chainID''"
abbreviation KeyAddress :: string where "KeyAddress \<equiv> ''address''"
abbreviation KeyToAddress :: string where "KeyToAddress \<equiv> ''toAddress''"
abbreviation KeyFromAddress :: string where "KeyFromAddress \<equiv> ''fromAddress''"
abbreviation KeyBlockStart :: string where "KeyBlockStart \<equiv> ''blockStart''"
abbreviation KeyBlockEnd :: string where "KeyBlockEnd \<equiv> ''blockEnd''"
abbreviation KeyHash :: string where "KeyHash \<equiv> ''hash''"
abbreviation KeyAlias :: string where "KeyAlias \<equiv> ''alias''"
abbreviation KeyAssetID :: string where "KeyAssetID \<equiv> ''assetID''"
abbreviation KeySearchQuery :: string where "KeySearchQuery \<equiv> ''query''"
abbreviation KeySortBy :: string where "KeySortBy \<equiv> ''sort''"
abbreviation KeyLimit :: string where "KeyLimit \<equiv> ''limit''"
abbreviation KeyOffset :: string where "KeyOffset \<equiv> ''offset''"
abbreviation KeySpent :: string where "KeySpent \<equiv> ''spent''"
abbreviation KeyStartTime :: string where "KeyStartTime \<equiv> ''startTime''"
abbreviation KeyEndTime :: string where "KeyEndTime \<equiv> ''endTime''"
abbreviation KeyIntervalSize :: string where "KeyIntervalSize \<equiv> ''intervalSize''"
abbreviation KeyDisableCount :: string where "KeyDisableCount \<equiv> ''disableCount''"
abbreviation KeyDisableGenesis :: string where "KeyDisableGenesis \<equiv> ''disableGenesis''"
abbreviation KeyOutputOutputType :: string where "KeyOutputOutputType \<equiv> ''outputOutputType''"
abbreviation KeyOutputGroupID :: string where "KeyOutputGroupID \<equiv> ''outputGroupId''"

definition PaginationMaxLimit :: int where "PaginationMaxLimit = 5000"
definition PaginationDefaultOffset :: int where "PaginationDefaultOffset = 0"

abbreviation IntervalMinute :: int where "IntervalMinute \<equiv> 60 * nanos_per_second"
abbreviation IntervalHour :: int where "IntervalHour \<equiv> 60 * IntervalMinute"
abbreviation IntervalDay :: int where "IntervalDay \<equiv> 1440 * IntervalMinute"

definition IntervalNames :: "string \<rightharpoonup> int" where
  "IntervalNames =
     [''minute'' \<mapsto> IntervalMinute, ''hour'' \<mapsto> IntervalHour, ''day'' \<mapsto> IntervalDay, ''week'' \<mapsto> 7 * IntervalDay,
      ''month'' \<mapsto> 30 * IntervalDay, ''year'' \<mapsto> 365 * IntervalDay, ''all'' \<mapsto> 0]"

abbreviation TransactionRoundDuration :: int where "TransactionRoundDuration \<equiv> nanos_per_second"

definition CacheKey :: "string \<Rightarrow> string \<Rightarrow> string" where
  "CacheKey name val = name @ ''='' @ val"

section \<open>Reading values, query.go\<close>

definition GetQueryInt :: "url_values \<Rightarrow> string \<Rightarrow> int \<Rightarrow> go_error + int" where
  "GetQueryInt q key defaultVal = (case values_at q key of s # _ \<Rightarrow> Atoi s | [] \<Rightarrow> Inr defaultVal)"

definition GetQueryBool :: "url_values \<Rightarrow> string \<Rightarrow> bool \<Rightarrow> go_error + bool" where
  "GetQueryBool q key defaultVal = (case values_at q key of s # _ \<Rightarrow> ParseBool s | [] \<Rightarrow> Inr defaultVal)"

definition GetQueryString :: "url_values \<Rightarrow> string \<Rightarrow> string \<Rightarrow> string" where
  "GetQueryString q key defaultVal = (case values_at q key of s # _ \<Rightarrow> s | [] \<Rightarrow> defaultVal)"

definition GetQueryTime :: "paramlib \<Rightarrow> url_values \<Rightarrow> string \<Rightarrow> go_error + bool \<times> gotime" where
  "GetQueryTime pl q key =
     (case values_at q key of
        [] \<Rightarrow> Inr (False, zero_time)
      | s # _ \<Rightarrow>
          (case Atoi s of
             Inr timestamp \<Rightarrow> Inr (True, time_Unix timestamp 0)
           | Inl _ \<Rightarrow> (case time_Parse_RFC3339 pl s of Inl err \<Rightarrow> Inl err | Inr t \<Rightarrow> Inr (True, t))))"

definition GetQueryID :: "paramlib \<Rightarrow> url_values \<Rightarrow> string \<Rightarrow> go_error + ID option" where
  "GetQueryID pl q key =
     (let idStr = GetQueryString q key [] in
      if idStr = [] then Inr None else res_bind (ids_FromString pl idStr) (\<lambda>i. Inr (Some i)))"

definition GetQueryInterval :: "paramlib \<Rightarrow> url_values \<Rightarrow> string \<Rightarrow> go_error + int" where
  "GetQueryInterval pl q key =
     (case values_at q key of
        [] \<Rightarrow> Inr 0
      | s # _ \<Rightarrow> (case IntervalNames s of Some interval \<Rightarrow> Inr interval | None \<Rightarrow> time_ParseDuration pl s))"

definition addressPrefixes :: "string list" where
  "addressPrefixes = [''Swap'', ''Core'', ''AX'']"

definition trim_prefixes :: "string \<Rightarrow> string" where
  "trim_prefixes addrStr =
     fold (\<lambda>prefix s. TrimPrefix (TrimPrefix s (prefix @ ''-'')) (ToLower prefix @ ''-'')) addressPrefixes addrStr"

definition AddressFromString :: "paramlib \<Rightarrow> string \<Rightarrow> go_error + ShortID" where
  "AddressFromString pl addrStr =
     (let addrStr = trim_prefixes addrStr in
      case ParseBech32 pl addrStr of
        Inl _ \<Rightarrow> ids_ShortFromString pl addrStr
      | Inr (_, addrBytes) \<Rightarrow> ids_ToShortID pl addrBytes)"

definition GetQueryAddress :: "paramlib \<Rightarrow> url_values \<Rightarrow> string \<Rightarrow> go_error + ShortID option" where
  "GetQueryAddress pl q key =
     (let addrStr = GetQueryString q key [] in
      if addrStr = [] then Inr None else res_bind (AddressFromString pl addrStr) (\<lambda>a. Inr (Some a)))"

section \<open>ListParams, params.go\<close>

record ListParams =
  lp_Values :: url_values
  lp_ID :: "ID option"
  lp_Query :: string
  lp_Limit :: int
  lp_Offset :: int
  lp_DisableCounting :: bool
  lp_StartTimeProvided :: bool
  lp_EndTimeProvided :: bool
  lp_StartTime :: gotime
  lp_EndTime :: gotime

definition zero_ListParams :: ListParams where
  "zero_ListParams = \<lparr>lp_Values = Map.empty, lp_ID = None, lp_Query = [], lp_Limit = 0, lp_Offset = 0, lp_DisableCounting = False,
     lp_StartTimeProvided = False, lp_EndTimeProvided = False, lp_StartTime = zero_time, lp_EndTime = zero_time\<rparr>"

definition forValues :: "paramlib \<Rightarrow> u8 \<Rightarrow> url_values \<Rightarrow> bool \<Rightarrow> ListParams \<Rightarrow> go_error + ListParams" where
  "forValues pl version q allowOffset p =
     res_bind (GetQueryInt q KeyLimit PaginationMaxLimit) (\<lambda>limit.
       let limit = (if limit < 0 then 0 else limit); limit = (if limit > PaginationMaxLimit then PaginationMaxLimit else limit) in
       res_bind (GetQueryInt q KeyOffset PaginationDefaultOffset) (\<lambda>offset.
         let offset = (if offset < 0 then 0 else offset) in
         if \<not> allowOffset \<and> offset > 0 then Inl (ErrorString ''offset deprecated'')
         else
           res_bind (GetQueryID pl q KeyID) (\<lambda>i.
             res_bind (GetQueryTime pl q KeyStartTime) (\<lambda>(startProvided, start).
               res_bind (GetQueryTime pl q KeyEndTime) (\<lambda>(endProvided, end).
                 let end = (if end = zero_time then time_Now pl else end) in
                 res_bind (GetQueryBool q KeyDisableCount False) (\<lambda>disable.
                   Inr (p\<lparr>lp_Values := q, lp_Limit := limit, lp_Offset := offset, lp_ID := i,
                     lp_StartTimeProvided := startProvided, lp_StartTime := time_Round start TransactionRoundDuration,
                     lp_EndTimeProvided := endProvided, lp_EndTime := time_Round end TransactionRoundDuration,
                     lp_Query := GetQueryString q KeySearchQuery [],
                     lp_DisableCounting := (disable \<or> version \<ge> 2)\<rparr>)))))))"

definition ListParams_ForValues :: "paramlib \<Rightarrow> u8 \<Rightarrow> url_values \<Rightarrow> ListParams \<Rightarrow> go_error + ListParams" where
  "ListParams_ForValues pl version q p = forValues pl version q False p"

definition ListParams_ForValuesAllowOffset :: "paramlib \<Rightarrow> u8 \<Rightarrow> url_values \<Rightarrow> ListParams \<Rightarrow> go_error + ListParams" where
  "ListParams_ForValuesAllowOffset pl version q p = forValues pl version q True p"

definition ListParams_CacheKey :: "extlib \<Rightarrow> ListParams \<Rightarrow> string list" where
  "ListParams_CacheKey lib p =
     (case lp_ID p of None \<Rightarrow> [] | Some i \<Rightarrow> [CacheKey KeyID (ID_String lib i)]) @
     [CacheKey KeyLimit (Itoa (lp_Limit p)), CacheKey KeyOffset (Itoa (lp_Offset p)),
      CacheKey KeyStartTime (Itoa (Time_Unix (lp_StartTime p))), CacheKey KeyEndTime (Itoa (Time_Unix (lp_EndTime p))),
      CacheKey KeySearchQuery (lp_Query p), CacheKey KeyDisableCount (bool_text (lp_DisableCounting p))]"

text \<open>A query under construction: \<open>Where\<close> adds a condition, a second \<open>Limit\<close> replaces the first.\<close>

datatype where_cond =
    WhereEq string string
  | WhereEqSlice string "string list"
  | WhereIn string "string list"
  | WhereLike string string
  | WhereGe string gotime
  | WhereLt string gotime
  | WhereIsNull string
  | WhereIsNotNull string
  | WhereOr "where_cond list"

record SelectBuilder =
  sb_where :: "where_cond list"
  sb_leftjoin :: "(string \<times> string) list"
  sb_limit :: "u64 option"
  sb_offset :: "u64 option"

definition sb_Where :: "where_cond \<Rightarrow> SelectBuilder \<Rightarrow> SelectBuilder" where
  "sb_Where c b = b\<lparr>sb_where := sb_where b @ [c]\<rparr>"

definition ApplyPk :: "extlib \<Rightarrow> ListParams \<Rightarrow> string \<Rightarrow> string \<Rightarrow> bool \<Rightarrow> SelectBuilder \<Rightarrow> SelectBuilder" where
  "ApplyPk lib p listTable primaryKey pk b =
     (let b = (if lp_Limit p \<noteq> 0 then b\<lparr>sb_limit := Some (word_of_int (lp_Limit p))\<rparr> else b);
          b = (if lp_Offset p \<noteq> 0 then b\<lparr>sb_offset := Some (word_of_int (lp_Offset p))\<rparr> else b)
      in if pk
         then
           (let b = (case lp_ID p of None \<Rightarrow> b
                     | Some i \<Rightarrow> (sb_Where (WhereEq (listTable @ ''.'' @ primaryKey) (ID_String lib i)) b)\<lparr>sb_limit := Some 1\<rparr>)
            in if lp_Query p \<noteq> [] then sb_Where (WhereLike (listTable @ ''.'' @ primaryKey) (lp_Query p @ ''%'')) b else b)
         else b)"

definition ListParams_Apply :: "extlib \<Rightarrow> ListParams \<Rightarrow> string \<Rightarrow> SelectBuilder \<Rightarrow> SelectBuilder" where
  "ListParams_Apply lib p listTable b = ApplyPk lib p listTable ''id'' True b"

section \<open>The parameters of the requests, collections.go\<close>

type_synonym TransactionSort = u8

definition TransactionSortTimestampAsc :: TransactionSort where "TransactionSortTimestampAsc = 0"
definition TransactionSortTimestampDesc :: TransactionSort where "TransactionSortTimestampDesc = 1"
definition TransactionSortDefault :: TransactionSort where "TransactionSortDefault = TransactionSortTimestampAsc"

abbreviation TransactionSortTimestampAscStr :: string where "TransactionSortTimestampAscStr \<equiv> ''timestamp-asc''"
abbreviation TransactionSortTimestampDescStr :: string where "TransactionSortTimestampDescStr \<equiv> ''timestamp-desc''"

definition toTransactionSort :: "string \<Rightarrow> TransactionSort" where
  "toTransactionSort s =
     (if s = TransactionSortTimestampAscStr then TransactionSortTimestampAsc
      else if s = TransactionSortTimestampDescStr then TransactionSortTimestampDesc else TransactionSortDefault)"

definition TransactionSort_String :: "TransactionSort \<Rightarrow> string" where
  "TransactionSort_String t = (if t = TransactionSortTimestampDesc then TransactionSortTimestampDescStr else TransactionSortTimestampAscStr)"

definition sort_of_values :: "url_values \<Rightarrow> TransactionSort" where
  "sort_of_values q = (case values_at q KeySortBy of s # _ \<Rightarrow> toTransactionSort s | [] \<Rightarrow> TransactionSortDefault)"

text \<open>\<open>int64(d.Seconds())\<close>\<close>

definition duration_seconds :: "int \<Rightarrow> int" where
  "duration_seconds d = (if d < 0 then - ((- d) div nanos_per_second) else d div nanos_per_second)"

definition chain_key :: "string list \<Rightarrow> string" where
  "chain_key chainIDs = CacheKey KeyChainID (Join chainIDs ''|'')"

subsection \<open>Search, blocks and transaction data\<close>

record SearchParams =
  sp_ListParams :: ListParams

definition SearchParams_ForValues :: "paramlib \<Rightarrow> u8 \<Rightarrow> url_values \<Rightarrow> SearchParams \<Rightarrow> go_error + SearchParams" where
  "SearchParams_ForValues pl v q p =
     res_bind (ListParams_ForValues pl v q (sp_ListParams p)) (\<lambda>l. Inr (p\<lparr>sp_ListParams := l\<rparr>))"

definition SearchParams_CacheKey :: "extlib \<Rightarrow> SearchParams \<Rightarrow> string list" where
  "SearchParams_CacheKey lib p = ListParams_CacheKey lib (sp_ListParams p)"

record ListBlocksParams =
  lb_ListParams :: ListParams
  lb_Types :: "u16 list"
  lb_Sort :: string

definition ListBlocksParams_ForValues :: "paramlib \<Rightarrow> u8 \<Rightarrow> url_values \<Rightarrow> ListBlocksParams \<Rightarrow> go_error + ListBlocksParams" where
  "ListBlocksParams_ForValues pl v q p =
     res_bind (ListParams_ForValues pl v q (lb_ListParams p)) (\<lambda>l. Inr (p\<lparr>lb_ListParams := l\<rparr>))"

definition ListBlocksParams_CacheKey :: "extlib \<Rightarrow> ListBlocksParams \<Rightarrow> string list" where
  "ListBlocksParams_CacheKey lib p = ListParams_CacheKey lib (lb_ListParams p)"

definition ListBlocksParams_Apply :: "extlib \<Rightarrow> ListBlocksParams \<Rightarrow> SelectBuilder \<Rightarrow> SelectBuilder" where
  "ListBlocksParams_Apply lib p b = ListParams_Apply lib (lb_ListParams p) ''pvm_blocks'' b"

record TxDataParam =
  td_ListParams :: ListParams
  td_ID :: string

definition TxDataParam_ForValues :: "paramlib \<Rightarrow> u8 \<Rightarrow> url_values \<Rightarrow> TxDataParam \<Rightarrow> go_error + TxDataParam" where
  "TxDataParam_ForValues pl v q p =
     res_bind (ListParams_ForValues pl v q (td_ListParams p)) (\<lambda>l. Inr (p\<lparr>td_ListParams := l\<rparr>))"

definition TxDataParam_CacheKey :: "extlib \<Rightarrow> TxDataParam \<Rightarrow> string list" where
  "TxDataParam_CacheKey lib p = ListParams_CacheKey lib (td_ListParams p)"

subsection \<open>Aggregates\<close>

record TxfeeAggregateParams =
  tf_ListParams :: ListParams
  tf_IntervalSize :: int
  tf_ChainIDs :: "string list"

definition TxfeeAggregateParams_ForValues :: "paramlib \<Rightarrow> u8 \<Rightarrow> url_values \<Rightarrow> TxfeeAggregateParams \<Rightarrow> go_error + TxfeeAggregateParams" where
  "TxfeeAggregateParams_ForValues pl version q p =
     res_bind (ListParams_ForValues pl version q (tf_ListParams p)) (\<lambda>l.
       res_bind (GetQueryInterval pl q KeyIntervalSize) (\<lambda>interval.
         Inr (p\<lparr>tf_ListParams := l, tf_ChainIDs := values_at q KeyChainID, tf_IntervalSize := interval\<rparr>)))"

definition TxfeeAggregateParams_CacheKey :: "extlib \<Rightarrow> TxfeeAggregateParams \<Rightarrow> string list" where
  "TxfeeAggregateParams_CacheKey lib p =
     ListParams_CacheKey lib (tf_ListParams p) @
     [CacheKey KeyIntervalSize (Itoa (duration_seconds (tf_IntervalSize p))), chain_key (tf_ChainIDs p)]"

definition TxfeeAggregateParams_Apply :: "SelectBuilder \<Rightarrow> SelectBuilder" where
  "TxfeeAggregateParams_Apply b = b"

record AggregateParams =
  ag_ListParams :: ListParams
  ag_ChainIDs :: "string list"
  ag_AssetID :: "ID option"
  ag_IntervalSize :: int

definition AggregateParams_ForValues :: "paramlib \<Rightarrow> u8 \<Rightarrow> url_values \<Rightarrow> AggregateParams \<Rightarrow> go_error + AggregateParams" where
  "AggregateParams_ForValues pl version q p =
     res_bind (ListParams_ForValues pl version q (ag_ListParams p)) (\<lambda>l.
       res_bind (GetQueryID pl q KeyAssetID) (\<lambda>asset.
         res_bind (GetQueryInterval pl q KeyIntervalSize) (\<lambda>interval.
           Inr (p\<lparr>ag_ListParams := l, ag_ChainIDs := values_at q KeyChainID, ag_AssetID := asset, ag_IntervalSize := interval\<rparr>))))"

definition AggregateParams_CacheKey :: "extlib \<Rightarrow> AggregateParams \<Rightarrow> string list" where
  "AggregateParams_CacheKey lib p =
     ListParams_CacheKey lib (ag_ListParams p) @
     (case ag_AssetID p of None \<Rightarrow> [] | Some a \<Rightarrow> [CacheKey KeyAssetID (ID_String lib a)]) @
     [CacheKey KeyIntervalSize (Itoa (duration_seconds (ag_IntervalSize p))), chain_key (ag_ChainIDs p)]"

definition AggregateParams_Apply :: "extlib \<Rightarrow> AggregateParams \<Rightarrow> SelectBuilder \<Rightarrow> SelectBuilder" where
  "AggregateParams_Apply lib p b =
     (let b = sb_Where (WhereGe ''avm_outputs.created_at'' (lp_StartTime (ag_ListParams p))) b;
          b = sb_Where (WhereLt ''avm_outputs.created_at'' (lp_EndTime (ag_ListParams p))) b;
          b = (case ag_AssetID p of None \<Rightarrow> b | Some a \<Rightarrow> sb_Where (WhereEq ''avm_outputs.asset_id'' (ID_String lib a)) b)
      in if ag_ChainIDs p \<noteq> [] then sb_Where (WhereEqSlice ''avm_outputs.chain_id'' (ag_ChainIDs p)) b else b)"

subsection \<open>Transactions\<close>

record ListTransactionsParams =
  lt_ListParams :: ListParams
  lt_ChainIDs :: "string list"
  lt_Addresses :: "ShortID list"
  lt_AssetID :: "ID option"
  lt_OutputOutputTypes :: "u64 list"
  lt_OutputGroupIDs :: "u64 list"
  lt_DisableGenesis :: bool
  lt_Sort :: TransactionSort

definition ListTransactionsParams_ForValues :: "paramlib \<Rightarrow> u8 \<Rightarrow> url_values \<Rightarrow> ListTransactionsParams \<Rightarrow> go_error + ListTransactionsParams" where
  "ListTransactionsParams_ForValues pl v q p =
     res_bind (ListParams_ForValuesAllowOffset pl v q (lt_ListParams p)) (\<lambda>l.
       res_bind (GetQueryID pl q KeyAssetID) (\<lambda>asset.
         res_bind (parse_each (\<lambda>s. ParseUint s 32) (values_at q KeyOutputOutputType) (lt_OutputOutputTypes p)) (\<lambda>types.
           res_bind (parse_each (\<lambda>s. ParseUint s 64) (values_at q KeyOutputGroupID) (lt_OutputGroupIDs p)) (\<lambda>groups.
             res_bind (parse_each (AddressFromString pl) (values_at q KeyAddress) (lt_Addresses p)) (\<lambda>addrs.
               res_bind (GetQueryBool q KeyDisableGenesis False) (\<lambda>disable.
                 Inr (p\<lparr>lt_ListParams := l, lt_Sort := sort_of_values q, lt_ChainIDs := values_at q KeyChainID, lt_AssetID := asset,
                   lt_OutputOutputTypes := types, lt_OutputGroupIDs := groups, lt_Addresses := addrs, lt_DisableGenesis := disable\<rparr>)))))))"

definition ListTransactionsParams_CacheKey :: "extlib \<Rightarrow> ListTransactionsParams \<Rightarrow> string list" where
  "ListTransactionsParams_CacheKey lib p =
     ListParams_CacheKey lib (lt_ListParams p) @ [CacheKey KeySortBy (TransactionSort_String (lt_Sort p))] @
     (case lt_AssetID p of None \<Rightarrow> [] | Some a \<Rightarrow> [CacheKey KeyAssetID (ID_String lib a)]) @
     map (\<lambda>a. CacheKey KeyAddress (ShortID_String lib a)) (lt_Addresses p) @
     [chain_key (lt_ChainIDs p), CacheKey KeyDisableGenesis (bool_text (lt_DisableGenesis p))]"

text \<open>\<open>Apply\<close> returns nil.\<close>

definition ListTransactionsParams_Apply :: "SelectBuilder \<Rightarrow> SelectBuilder option" where
  "ListTransactionsParams_Apply b = None"

record ListCTransactionsParams =
  ct_ListParams :: ListParams
  ct_CAddresses :: "string list"
  ct_CAddressesTo :: "string list"
  ct_CAddressesFrom :: "string list"
  ct_Hashes :: "string list"
  ct_Sort :: TransactionSort
  ct_BlockStart :: "int option"
  ct_BlockEnd :: "int option"

definition add_0x :: "string \<Rightarrow> string" where
  "add_0x s = (if \<not> HasPrefix s ''0x'' then ''0x'' @ s else s)"

definition last_number :: "string list \<Rightarrow> int option \<Rightarrow> int option" where
  "last_number strs start = fold (\<lambda>s acc. case big_SetString s of Some i \<Rightarrow> Some i | None \<Rightarrow> acc) strs start"

definition ListCTransactionsParams_ForValues :: "paramlib \<Rightarrow> u8 \<Rightarrow> url_values \<Rightarrow> ListCTransactionsParams \<Rightarrow> go_error + ListCTransactionsParams" where
  "ListCTransactionsParams_ForValues pl v q p =
     res_bind (ListParams_ForValues pl v q (ct_ListParams p)) (\<lambda>l.
       Inr (p\<lparr>ct_ListParams := l, ct_Sort := sort_of_values q,
         ct_CAddresses := ct_CAddresses p @ map (ToLower \<circ> add_0x) (values_at q KeyAddress),
         ct_CAddressesTo := ct_CAddressesTo p @ map (ToLower \<circ> add_0x) (values_at q KeyToAddress),
         ct_CAddressesFrom := ct_CAddressesFrom p @ map (ToLower \<circ> add_0x) (values_at q KeyFromAddress),
         ct_BlockStart := last_number (values_at q KeyBlockStart) (ct_BlockStart p),
         ct_BlockEnd := last_number (values_at q KeyBlockEnd) (ct_BlockEnd p),
         ct_Hashes := ct_Hashes p @ map add_0x (values_at q KeyHash)\<rparr>))"

definition ListCTransactionsParams_CacheKey :: "extlib \<Rightarrow> ListCTransactionsParams \<Rightarrow> string list" where
  "ListCTransactionsParams_CacheKey lib p =
     ListParams_CacheKey lib (ct_ListParams p) @ [CacheKey KeySortBy (TransactionSort_String (ct_Sort p))] @
     map (CacheKey KeyAddress) (ct_CAddresses p)"

definition ListCTransactionsParams_Apply :: "extlib \<Rightarrow> ListCTransactionsParams \<Rightarrow> SelectBuilder \<Rightarrow> SelectBuilder" where
  "ListCTransactionsParams_Apply lib p b = ApplyPk lib (ct_ListParams p) TableCvmTransactionsTxdata ''hash'' False b"

subsection \<open>Assets\<close>

record ListAssetsParams =
  la_ListParams :: ListParams
  la_Alias :: string
  la_PathParamID :: string

definition ListAssetsParams_ForValues :: "paramlib \<Rightarrow> u8 \<Rightarrow> url_values \<Rightarrow> ListAssetsParams \<Rightarrow> go_error + ListAssetsParams" where
  "ListAssetsParams_ForValues pl v q p =
     res_bind (ListParams_ForValues pl v q (la_ListParams p)) (\<lambda>l.
       Inr (p\<lparr>la_ListParams := l, la_Alias := GetQueryString q KeyAlias []\<rparr>))"

definition ListAssetsParams_CacheKey :: "extlib \<Rightarrow> ListAssetsParams \<Rightarrow> string list" where
  "ListAssetsParams_CacheKey lib p =
     ListParams_CacheKey lib (la_ListParams p) @ [CacheKey KeyAlias (la_Alias p), CacheKey ''PathParamID'' (la_PathParamID p)]"

text \<open>The query is cleared while the list parameters are applied, and restored.\<close>

definition ListAssetsParams_Apply :: "extlib \<Rightarrow> ListAssetsParams \<Rightarrow> SelectBuilder \<Rightarrow> SelectBuilder" where
  "ListAssetsParams_Apply lib p b =
     (let b = ListParams_Apply lib ((la_ListParams p)\<lparr>lp_Query := []\<rparr>) ''avm_assets'' b; query = lp_Query (la_ListParams p);
          b = (if query \<noteq> []
               then sb_Where (WhereOr [WhereLike ''avm_assets.alias'' (query @ ''%''), WhereLike ''avm_assets.name'' (query @ ''%''),
                      WhereLike ''avm_assets.symbol'' (query @ ''%'')]) b
               else b)
      in if la_Alias p \<noteq> [] then sb_Where (WhereEq ''avm_assets.alias'' (la_Alias p)) b else b)"

subsection \<open>Addresses\<close>

record ListAddressesParams =
  ad_ListParams :: ListParams
  ad_ChainIDs :: "string list"
  ad_Address :: "ShortID option"

definition ListAddressesParams_ForValues :: "paramlib \<Rightarrow> u8 \<Rightarrow> url_values \<Rightarrow> ListAddressesParams \<Rightarrow> go_error + ListAddressesParams" where
  "ListAddressesParams_ForValues pl v q p =
     res_bind (ListParams_ForValues pl v q (ad_ListParams p)) (\<lambda>l.
       res_bind (GetQueryAddress pl q KeyAddress) (\<lambda>address.
         res_bind (if address = None \<and> lp_Query l \<noteq> [] then res_bind (AddressFromString pl (lp_Query l)) (\<lambda>a. Inr (Some a)) else Inr address)
           (\<lambda>address. Inr (p\<lparr>ad_ListParams := l, ad_ChainIDs := values_at q KeyChainID, ad_Address := address\<rparr>))))"

definition ListAddressesParams_CacheKey :: "extlib \<Rightarrow> ListAddressesParams \<Rightarrow> string list" where
  "ListAddressesParams_CacheKey lib p =
     ListParams_CacheKey lib (ad_ListParams p) @
     (case ad_Address p of None \<Rightarrow> [] | Some a \<Rightarrow> [CacheKey KeyAddress (ShortID_String lib a)]) @ [chain_key (ad_ChainIDs p)]"

definition ListAddressesParams_Apply :: "extlib \<Rightarrow> ListAddressesParams \<Rightarrow> bool \<Rightarrow> SelectBuilder \<Rightarrow> SelectBuilder" where
  "ListAddressesParams_Apply lib p accumulateReader b =
     (let tbl = (if \<not> accumulateReader then ''avm_outputs'' else ''accumulate_balances_received'');
          atbl = (if \<not> accumulateReader then ''avm_output_addresses'' else ''accumulate_balances_received'');
          b = ApplyPk lib (ad_ListParams p) ''avm_output_addresses'' ''output_id'' accumulateReader b;
          b = (if ad_ChainIDs p \<noteq> [] then sb_Where (WhereIn (tbl @ ''.chain_id'') (ad_ChainIDs p)) b else b)
      in case ad_Address p of None \<Rightarrow> b | Some a \<Rightarrow> sb_Where (WhereEq (atbl @ ''.address'') (ShortID_String lib a)) b)"

record AddressChainsParams =
  ac_ListParams :: ListParams
  ac_Addresses :: "ShortID list"

definition AddressChainsParams_ForValues :: "paramlib \<Rightarrow> u8 \<Rightarrow> url_values \<Rightarrow> AddressChainsParams \<Rightarrow> go_error + AddressChainsParams" where
  "AddressChainsParams_ForValues pl v q p =
     res_bind (ListParams_ForValues pl v q (ac_ListParams p)) (\<lambda>l.
       res_bind (parse_each (AddressFromString pl) (values_at q KeyAddress) (ac_Addresses p)) (\<lambda>addrs.
         Inr (p\<lparr>ac_ListParams := l, ac_Addresses := addrs\<rparr>)))"

definition AddressChainsParams_CacheKey :: "extlib \<Rightarrow> AddressChainsParams \<Rightarrow> string list" where
  "AddressChainsParams_CacheKey lib p =
     ListParams_CacheKey lib (ac_ListParams p) @ map (\<lambda>a. CacheKey KeyAddress (ShortID_String lib a)) (ac_Addresses p)"

definition AddressChainsParams_Apply :: "extlib \<Rightarrow> AddressChainsParams \<Rightarrow> SelectBuilder \<Rightarrow> SelectBuilder" where
  "AddressChainsParams_Apply lib p b =
     (let b = ListParams_Apply lib (ac_ListParams p) ''address_chain'' b
      in if ac_Addresses p = [] then b else sb_Where (WhereIn ''address_chain.address'' (map (ShortID_String lib) (ac_Addresses p))) b)"

subsection \<open>Outputs\<close>

record ListOutputsParams =
  lo_ListParams :: ListParams
  lo_ChainIDs :: "string list"
  lo_Addresses :: "ShortID list"
  lo_Spent :: "bool option"

text \<open>A value of \<open>spent\<close> that is present without a text is an index out of range.\<close>

definition index_panic :: go_error where
  "index_panic = ErrorString ''runtime error: index out of range [0] with length 0''"

definition ListOutputsParams_ForValues :: "paramlib \<Rightarrow> u8 \<Rightarrow> url_values \<Rightarrow> ListOutputsParams \<Rightarrow> go_error + ListOutputsParams" where
  "ListOutputsParams_ForValues pl v q p =
     res_bind (ListParams_ForValues pl v q (lo_ListParams p)) (\<lambda>l.
       res_bind (parse_each (AddressFromString pl) (values_at q KeyAddress) (lo_Addresses p)) (\<lambda>addrs.
         res_bind (case q KeySpent of
                     None \<Rightarrow> Inr (lo_Spent p)
                   | Some [] \<Rightarrow> Inl index_panic
                   | Some (s # _) \<Rightarrow> res_bind (ParseBool s) (\<lambda>b. Inr (Some b))) (\<lambda>spent.
           Inr (p\<lparr>lo_ListParams := l, lo_ChainIDs := values_at q KeyChainID, lo_Addresses := addrs, lo_Spent := spent\<rparr>))))"

definition ListOutputsParams_CacheKey :: "extlib \<Rightarrow> ListOutputsParams \<Rightarrow> string list" where
  "ListOutputsParams_CacheKey lib p =
     ListParams_CacheKey lib (lo_ListParams p) @ [chain_key (lo_ChainIDs p)] @
     map (\<lambda>a. CacheKey KeyAddress (ShortID_String lib a)) (lo_Addresses p) @
     (case lo_Spent p of None \<Rightarrow> [] | Some b \<Rightarrow> [CacheKey KeySpent (bool_text b)])"

definition ListOutputsParams_Apply :: "extlib \<Rightarrow> ListOutputsParams \<Rightarrow> SelectBuilder \<Rightarrow> SelectBuilder" where
  "ListOutputsParams_Apply lib p b =
     (let l = lo_ListParams p; b = ListParams_Apply lib l ''avm_outputs'' b;
          b = (case lo_Spent p of
                 None \<Rightarrow> b
               | Some True \<Rightarrow> sb_Where (WhereIsNotNull ''avm_outputs_redeeming.redeeming_transaction_id'') b
               | Some False \<Rightarrow> sb_Where (WhereIsNull ''avm_outputs_redeeming.redeeming_transaction_id'') b);
          b = (if lo_Addresses p \<noteq> []
               then sb_Where (WhereIn ''avm_output_addresses.address'' (map (ShortID_String lib) (lo_Addresses p)))
                 (b\<lparr>sb_leftjoin := sb_leftjoin b @ [(''avm_output_addresses'', ''avm_outputs.id = avm_output_addresses.output_id'')]\<rparr>)
               else b);
          b = (if lo_ChainIDs p \<noteq> [] then sb_Where (WhereEqSlice ''avm_outputs.chain_id'' (lo_ChainIDs p)) b else b);
          b = (if lp_StartTimeProvided l \<and> lp_StartTime l \<noteq> zero_time then sb_Where (WhereGe ''avm_outputs.created_at'' (lp_StartTime l)) b else b)
      in if lp_EndTimeProvided l \<and> lp_EndTime l \<noteq> zero_time then sb_Where (WhereLt ''avm_outputs.created_at'' (lp_EndTime l)) b else b)"

section \<open>The chain of a legacy route\<close>

definition ForValueChainID :: "extlib \<Rightarrow> ID option \<Rightarrow> string list \<Rightarrow> string list" where
  "ForValueChainID lib chainID chainIDs =
     (case chainID of
        None \<Rightarrow> chainIDs
      | Some c \<Rightarrow> (let cnew = ID_String lib c in if cnew \<in> set chainIDs then chainIDs else cnew # chainIDs))"

text \<open>The zero values of the structures, \<open>&params.ListOutputsParams{}\<close> and so on.\<close>

definition zero_SearchParams :: SearchParams where
  "zero_SearchParams = \<lparr>sp_ListParams = zero_ListParams\<rparr>"

definition zero_TxfeeAggregateParams :: TxfeeAggregateParams where
  "zero_TxfeeAggregateParams = \<lparr>tf_ListParams = zero_ListParams, tf_IntervalSize = 0, tf_ChainIDs = []\<rparr>"

definition zero_AggregateParams :: AggregateParams where
  "zero_AggregateParams = \<lparr>ag_ListParams = zero_ListParams, ag_ChainIDs = [], ag_AssetID = None, ag_IntervalSize = 0\<rparr>"

definition zero_ListTransactionsParams :: ListTransactionsParams where
  "zero_ListTransactionsParams = \<lparr>lt_ListParams = zero_ListParams, lt_ChainIDs = [], lt_Addresses = [], lt_AssetID = None, lt_OutputOutputTypes = [], lt_OutputGroupIDs = [], lt_DisableGenesis = False, lt_Sort = 0\<rparr>"

definition zero_ListCTransactionsParams :: ListCTransactionsParams where
  "zero_ListCTransactionsParams = \<lparr>ct_ListParams = zero_ListParams, ct_CAddresses = [], ct_CAddressesTo = [], ct_CAddressesFrom = [], ct_Hashes = [], ct_Sort = 0, ct_BlockStart = None, ct_BlockEnd = None\<rparr>"

definition zero_ListAddressesParams :: ListAddressesParams where
  "zero_ListAddressesParams = \<lparr>ad_ListParams = zero_ListParams, ad_ChainIDs = [], ad_Address = None\<rparr>"

definition zero_AddressChainsParams :: AddressChainsParams where
  "zero_AddressChainsParams = \<lparr>ac_ListParams = zero_ListParams, ac_Addresses = []\<rparr>"

definition zero_ListOutputsParams :: ListOutputsParams where
  "zero_ListOutputsParams = \<lparr>lo_ListParams = zero_ListParams, lo_ChainIDs = [], lo_Addresses = [], lo_Spent = None\<rparr>"

definition zero_ListAssetsParams :: ListAssetsParams where
  "zero_ListAssetsParams = \<lparr>la_ListParams = zero_ListParams, la_Alias = [], la_PathParamID = []\<rparr>"

definition zero_ListBlocksParams :: ListBlocksParams where
  "zero_ListBlocksParams = \<lparr>lb_ListParams = zero_ListParams, lb_Types = [], lb_Sort = []\<rparr>"

definition zero_TxDataParam :: TxDataParam where
  "zero_TxDataParam = \<lparr>td_ListParams = zero_ListParams, td_ID = []\<rparr>"

section \<open>What a parsed request satisfies\<close>

lemma res_bind_Inr: "res_bind r f = Inr b \<longleftrightarrow> (\<exists>a. r = Inr a \<and> f a = Inr b)"
  by (cases r) (auto simp: res_bind_def)

lemma time_Round_mod: "d > 0 \<Longrightarrow> time_Round t d mod d = 0"
proof -
  assume "d > 0"
  have "t - t mod d = d * (t div d)" "t + (d - t mod d) = d * (t div d + 1)"
    by (simp_all add: minus_mod_eq_mult_div algebra_simps)
  then show ?thesis by (simp add: time_Round_def Let_def del: mult_Suc_right)
qed

lemma parse_each_all:
  assumes "parse_each f xs acc = Inr ys" "\<And>x y. f x = Inr y \<Longrightarrow> P y" "list_all P acc"
  shows "list_all P ys"
  using assms(1,3) by (induction xs arbitrary: acc) (auto simp: res_bind_Inr assms(2))

lemma parse_each_length: "parse_each f xs acc = Inr ys \<Longrightarrow> length ys = length acc + length xs"
  by (induction xs arbitrary: acc) (auto simp: res_bind_Inr)

lemma GetQueryInt_range:
  "GetQueryInt q k d = Inr i \<Longrightarrow> - (2 ^ 63) \<le> d \<Longrightarrow> d < 2 ^ 63 \<Longrightarrow> - (2 ^ 63) \<le> i \<and> i < 2 ^ 63"
  by (auto simp: GetQueryInt_def split: list.splits dest: Atoi_range)

text \<open>The well-formed list parameters of a version: a page is at most \<open>PaginationMaxLimit\<close> long, offsets are not
  negative, times are whole seconds, and since version 2 totals are not counted.\<close>

definition ListParams_wf :: "u8 \<Rightarrow> bool \<Rightarrow> ListParams \<Rightarrow> bool" where
  "ListParams_wf version allowOffset l \<longleftrightarrow>
     0 \<le> lp_Limit l \<and> lp_Limit l \<le> PaginationMaxLimit \<and> 0 \<le> lp_Offset l \<and> lp_Offset l < 2 ^ 63
   \<and> (allowOffset \<or> lp_Offset l = 0) \<and> lp_StartTime l mod nanos_per_second = 0 \<and> lp_EndTime l mod nanos_per_second = 0
   \<and> (version < 2 \<or> lp_DisableCounting l)"

lemma forValues_Inr:
  assumes "forValues pl version q allowOffset p = Inr l"
  obtains limit offset i sp st ep et d where
    "GetQueryInt q KeyLimit PaginationMaxLimit = Inr limit" "GetQueryInt q KeyOffset PaginationDefaultOffset = Inr offset"
    "GetQueryID pl q KeyID = Inr i" "GetQueryTime pl q KeyStartTime = Inr (sp, st)" "GetQueryTime pl q KeyEndTime = Inr (ep, et)"
    "GetQueryBool q KeyDisableCount False = Inr d" "allowOffset \<or> offset \<le> 0"
    "l = p\<lparr>lp_Values := q, lp_Limit := min PaginationMaxLimit (max 0 limit), lp_Offset := max 0 offset, lp_ID := i,
       lp_StartTimeProvided := sp, lp_StartTime := time_Round st TransactionRoundDuration,
       lp_EndTimeProvided := ep, lp_EndTime := time_Round (if et = zero_time then time_Now pl else et) TransactionRoundDuration,
       lp_Query := GetQueryString q KeySearchQuery [], lp_DisableCounting := (d \<or> version \<ge> 2)\<rparr>"
proof -
  obtain limit offset i sp st ep et d where *:
    "GetQueryInt q KeyLimit PaginationMaxLimit = Inr limit" "GetQueryInt q KeyOffset PaginationDefaultOffset = Inr offset"
    "GetQueryID pl q KeyID = Inr i" "GetQueryTime pl q KeyStartTime = Inr (sp, st)" "GetQueryTime pl q KeyEndTime = Inr (ep, et)"
    "GetQueryBool q KeyDisableCount False = Inr d"
    using assms unfolding forValues_def res_bind_def Let_def by (simp split: sum.splits if_splits prod.splits)
  have cut: "(if x < 0 then 0 else x) = max 0 x" "(if x > m then m else x) = min m x" for x m :: int by auto
  note assms' = assms [unfolded forValues_def Let_def cut, simplified * res_bind_def sum.case prod.case]
  have "\<not> (\<not> allowOffset \<and> 0 < max 0 offset)" using assms' by (auto split: if_splits)
  then have "allowOffset \<or> offset \<le> 0" by auto
  moreover from assms' calculation have "l = p\<lparr>lp_Values := q, lp_Limit := min PaginationMaxLimit (max 0 limit), lp_Offset := max 0 offset, lp_ID := i,
       lp_StartTimeProvided := sp, lp_StartTime := time_Round st TransactionRoundDuration,
       lp_EndTimeProvided := ep, lp_EndTime := time_Round (if et = zero_time then time_Now pl else et) TransactionRoundDuration,
       lp_Query := GetQueryString q KeySearchQuery [], lp_DisableCounting := (d \<or> version \<ge> 2)\<rparr>"
    by (simp split: if_splits)
  ultimately show ?thesis by (intro that [OF *])
qed

lemma forValues_wf:
  assumes "forValues pl version q allowOffset p = Inr l"
  shows "ListParams_wf version allowOffset l"
  using assms
proof (cases rule: forValues_Inr)
  case (1 limit offset i sp st ep et d)
  have "offset < 2 ^ 63" using GetQueryInt_range [OF 1(2)] by (simp add: PaginationDefaultOffset_def)
  moreover have "version < 2 \<or> 2 \<le> version" by auto
  ultimately show ?thesis
    unfolding 1(8) ListParams_wf_def using 1(7) by (auto simp: PaginationMaxLimit_def time_Round_mod)
qed

text \<open>The query that list parameters restrict: the number of rows asked for.\<close>

lemma ApplyPk_limit:
  "sb_limit (ApplyPk lib l tbl pkcol pk b) =
     (if pk \<and> lp_ID l \<noteq> None then Some 1 else if lp_Limit l \<noteq> 0 then Some (word_of_int (lp_Limit l)) else sb_limit b)"
  "sb_offset (ApplyPk lib l tbl pkcol pk b) = (if lp_Offset l \<noteq> 0 then Some (word_of_int (lp_Offset l)) else sb_offset b)"
  by (auto simp: ApplyPk_def Let_def sb_Where_def split: option.splits)


definition sample_paramlib :: paramlib where
  "sample_paramlib = \<lparr>ids_FromString = (\<lambda>_. Inl (ErrorString ''no id'')), ids_ShortFromString = (\<lambda>_. Inl (ErrorString ''no address'')),
     ids_ToShortID = (\<lambda>_. Inl (ErrorString ''no address'')), ParseBech32 = (\<lambda>_. Inl (ErrorString ''no address'')),
     time_Parse_RFC3339 = (\<lambda>_. Inl (ErrorString ''no time'')), time_ParseDuration = (\<lambda>_. Inl (ErrorString ''no duration'')),
     time_Now = 1700000000 * nanos_per_second\<rparr>"

lemmas forValues_eval = forValues_def res_bind_def GetQueryInt_def GetQueryID_def GetQueryTime_def GetQueryBool_def GetQueryString_def
  values_at_def sample_paramlib_def Let_def


text \<open>C37. The parameters of a request for transactions that are accepted are well-formed: the list parameters are
  those of a request that may have an offset, every output type is a 32-bit number, and there is one address, one
  output type and one group for each that the request names.\<close>

theorem ListTransactionsParams_typed:
  assumes "ListTransactionsParams_ForValues pl version q zero = Inr p"
    "lt_OutputOutputTypes zero = []" "lt_OutputGroupIDs zero = []" "lt_Addresses zero = []"
  shows "ListParams_wf version True (lt_ListParams p) \<and> list_all (\<lambda>t. uint t < 2 ^ 32) (lt_OutputOutputTypes p)
    \<and> length (lt_OutputOutputTypes p) = length (values_at q KeyOutputOutputType)
    \<and> length (lt_OutputGroupIDs p) = length (values_at q KeyOutputGroupID) \<and> length (lt_Addresses p) = length (values_at q KeyAddress)"
proof -
  from assms obtain l types groups addrs where
    "forValues pl version q True (lt_ListParams zero) = Inr l" "parse_each (\<lambda>s. ParseUint s 32) (values_at q KeyOutputOutputType) [] = Inr types"
    "parse_each (\<lambda>s. ParseUint s 64) (values_at q KeyOutputGroupID) [] = Inr groups" "parse_each (AddressFromString pl) (values_at q KeyAddress) [] = Inr addrs"
    "lt_ListParams p = l" "lt_OutputOutputTypes p = types" "lt_OutputGroupIDs p = groups" "lt_Addresses p = addrs"
    by (auto simp: ListTransactionsParams_ForValues_def ListParams_ForValuesAllowOffset_def res_bind_Inr)
  then show ?thesis
    using forValues_wf [of pl version q True "lt_ListParams zero" l]
      parse_each_all [of "\<lambda>s. ParseUint s 32" "values_at q KeyOutputOutputType" "[]" types "\<lambda>t. uint t < 2 ^ 32"] ParseUint_range [of _ 32]
    by (auto dest!: parse_each_length)
qed

theorem ListTransactionsParams_typed_witness:
  "\<exists>p. ListTransactionsParams_ForValues sample_paramlib 1 [''outputOutputType'' \<mapsto> [''7'']] zero_ListTransactionsParams = Inr p
     \<and> lt_OutputOutputTypes p = [7] \<and> ListParams_wf 1 True (lt_ListParams p)"
proof -
  have "ParseUint ''7'' 32 = Inr 7" by code_simp
  then have "\<exists>p. ListTransactionsParams_ForValues sample_paramlib 1 [''outputOutputType'' \<mapsto> [''7'']] zero_ListTransactionsParams = Inr p
      \<and> lt_OutputOutputTypes p = [7]"
    by (simp add: ListTransactionsParams_ForValues_def ListParams_ForValuesAllowOffset_def zero_ListTransactionsParams_def forValues_eval
        PaginationMaxLimit_def PaginationDefaultOffset_def)
  then obtain p where p: "ListTransactionsParams_ForValues sample_paramlib 1 [''outputOutputType'' \<mapsto> [''7'']] zero_ListTransactionsParams = Inr p"
    "lt_OutputOutputTypes p = [7]" by blast
  with ListTransactionsParams_typed [OF p(1)] show ?thesis by (simp add: zero_ListTransactionsParams_def)
qed

end
