(* ===== verification/Api.thy ===== *)
theory Api
  imports Params Worker
begin

text \<open>
  The HTTP interface, \<open>src/api\<close>, with the delayed cache of \<open>src/utils\<close> that it stores responses with. A handler reads its parameters, builds the key of the response, and answers from
  the cache or from the reader; a new response is handed to a worker that puts it into the cache
  later. The reader, the encoding of its results as JSON and the parsing of a JSON body are arguments.
  Durations that handlers report to the metrics are not modelled, the counters they report to are.
\<close>

section \<open>The delayed cache\<close>

definition WorkerQueueSize :: nat where "WorkerQueueSize = 10"
definition WorkerThreadCount :: nat where "WorkerThreadCount = 1"

record CacheJob =
  cj_Key :: string
  cj_Body :: bytes
  cj_TTL :: int

record DelayCache =
  dc_Cache :: LCache
  dc_Worker :: "CacheJob worker"

definition NewDelayCache :: "LCache \<Rightarrow> DelayCache" where
  "NewDelayCache cache = \<lparr>dc_Cache = cache, dc_Worker = NewWorker WorkerQueueSize WorkerThreadCount\<rparr>"

definition DelayCache_Processor :: "(string \<Rightarrow> u8) \<Rightarrow> gotime \<Rightarrow> CacheJob \<Rightarrow> LCache \<Rightarrow> LCache" where
  "DelayCache_Processor sum0 now j c = Cache_Set sum0 now (cj_Key j) (cj_Body j) (cj_TTL j) c"

section \<open>Requests, responses and what handlers use\<close>

text \<open>The body of a request is what can be read of it, and the error that ends reading when it is not the end of the body.\<close>

record request =
  rq_Query :: url_values
  rq_Body :: "(bytes \<times> go_error option) option"
  rq_PathParams :: "string \<rightharpoonup> string"

record response =
  rs_Code :: nat
  rs_Body :: bytes

record 'v reader =
  rd_Search :: "SearchParams \<Rightarrow> ID \<Rightarrow> go_error + 'v"
  rd_TxfeeAggregate :: "TxfeeAggregateParams \<Rightarrow> go_error + 'v"
  rd_Aggregate :: "AggregateParams \<Rightarrow> go_error + 'v"
  rd_ListTransactions :: "ListTransactionsParams \<Rightarrow> ID \<Rightarrow> go_error + 'v"
  rd_GetTransaction :: "ID \<Rightarrow> ID \<Rightarrow> go_error + 'v"
  rd_ListCTransactions :: "ListCTransactionsParams \<Rightarrow> go_error + 'v"
  rd_ListAddresses :: "ListAddressesParams \<Rightarrow> go_error + 'v"
  rd_GetAddress :: "ListAddressesParams \<Rightarrow> go_error + 'v"
  rd_AddressChains :: "AddressChainsParams \<Rightarrow> go_error + 'v"
  rd_ListOutputs :: "ListOutputsParams \<Rightarrow> go_error + 'v"
  rd_GetOutput :: "ID \<Rightarrow> go_error + 'v"
  rd_ListAssets :: "ListAssetsParams \<Rightarrow> go_error + 'v"
  rd_GetAsset :: "ListAssetsParams \<Rightarrow> string \<Rightarrow> go_error + 'v"
  rd_ListBlocks :: "ListBlocksParams \<Rightarrow> go_error + 'v"
  rd_GetBlock :: "ID \<Rightarrow> go_error + 'v"
  rd_ATxDATA :: "TxDataParam \<Rightarrow> go_error + bytes"
  rd_PTxDATA :: "TxDataParam \<Rightarrow> go_error + bytes"
  rd_CTxDATA :: "TxDataParam \<Rightarrow> go_error + bytes"
  rd_ETxDATA :: "TxDataParam \<Rightarrow> go_error + bytes"
  rd_RawTransaction :: "ID \<Rightarrow> go_error + 'v"
  rd_CacheAddressCounts :: 'v
  rd_CacheTxCounts :: 'v
  rd_CacheAssets :: 'v
  rd_CacheAssetAggregates :: 'v
  rd_CacheAggregates :: "string \<Rightarrow> 'v"

record 'v api_env =
  ae_lib :: extlib
  ae_params :: paramlib
  ae_sum0 :: "string \<Rightarrow> u8"
  ae_networkID :: u32
  ae_axcAssetID :: ID
  ae_reader :: "'v reader"
  ae_Marshal :: "'v \<Rightarrow> go_error + bytes"
  ae_MarshalError :: "nat \<Rightarrow> string \<Rightarrow> bytes"
  ae_UnmarshalValues :: "bytes \<Rightarrow> go_error + url_values"
  ae_now :: gotime

text \<open>\<open>V2Context\<close>: the version and the chain that the route sets.\<close>

record v2ctx =
  v2_version :: u8
  v2_chainID :: "ID option"

record api_state =
  as_delayCache :: DelayCache
  as_metrics :: "string list"

definition v2_middleware :: "ID option \<Rightarrow> v2ctx" where
  "v2_middleware chainID = (case chainID of None \<Rightarrow> \<lparr>v2_version = 2, v2_chainID = None\<rparr> | Some c \<Rightarrow> \<lparr>v2_version = 1, v2_chainID = Some c\<rparr>)"

section \<open>Context\<close>

definition ErrCacheableFnFailed :: go_error where
  "ErrCacheableFnFailed = ErrorString ''failed to load resource''"

definition WriteJSON :: "bytes \<Rightarrow> response" where
  "WriteJSON msg = \<lparr>rs_Code = 200, rs_Body = msg\<rparr>"

definition Context_WriteErr :: "'v api_env \<Rightarrow> nat \<Rightarrow> go_error \<Rightarrow> response" where
  "Context_WriteErr ae code err = \<lparr>rs_Code = code, rs_Body = ae_MarshalError ae code (Error err)\<rparr>"

definition notFoundHandler :: "'v api_env \<Rightarrow> response" where
  "notFoundHandler ae = \<lparr>rs_Code = 404, rs_Body = ae_MarshalError ae 404 ''Not Found''\<rparr>"

definition cacheGet :: "'v api_env \<Rightarrow> string \<Rightarrow> api_state \<Rightarrow> bytes \<times> cache_error option" where
  "cacheGet ae key s = Cache_Get (ae_sum0 ae) (ae_now ae) key (dc_Cache (as_delayCache s))"

definition cacheKeyForID :: "string \<Rightarrow> string \<Rightarrow> string list" where
  "cacheKeyForID name i = [''axc'', name, CacheKey ''id'' i]"

definition cacheKeyForParams :: "string \<Rightarrow> string list \<Rightarrow> string list" where
  "cacheKeyForParams name parts = [''axc'', name] @ parts"

definition enque_response :: "string \<Rightarrow> bytes \<Rightarrow> int \<Rightarrow> api_state \<Rightarrow> api_state" where
  "enque_response key body ttl s =
     s\<lparr>as_delayCache := (as_delayCache s)\<lparr>dc_Worker := Worker_TryEnque \<lparr>cj_Key = key, cj_Body = body, cj_TTL = ttl\<rparr> (dc_Worker (as_delayCache s))\<rparr>\<rparr>"

definition WriteCacheable :: "'v api_env \<Rightarrow> string list \<Rightarrow> int \<Rightarrow> go_error + 'v \<Rightarrow> api_state \<Rightarrow> response \<times> api_state" where
  "WriteCacheable ae keyParts ttl cacheableFn s =
     (let key = utils_CacheKey (ae_networkID ae) keyParts in
      case cacheGet ae key s of
        (resp, None) \<Rightarrow> (WriteJSON resp, s)
      | (_, Some _) \<Rightarrow>
          (case res_bind cacheableFn (ae_Marshal ae) of
             Inl err \<Rightarrow> (Context_WriteErr ae 500 ErrCacheableFnFailed, s)
           | Inr resp \<Rightarrow> (WriteJSON resp, enque_response key resp ttl s)))"

section \<open>The query of a request\<close>

definition mergeValues :: "url_values \<Rightarrow> url_values \<Rightarrow> url_values" where
  "mergeValues a b = (\<lambda>k. case b k of None \<Rightarrow> a k | Some v \<Rightarrow> (case a k of Some u \<Rightarrow> Some (u @ v) | None \<Rightarrow> Some v))"

definition RequestGetMaxSize :: nat where
  "RequestGetMaxSize = 10 * 1024 * 1024"

definition ParseGetJSON :: "'v api_env \<Rightarrow> request \<Rightarrow> nat \<Rightarrow> go_error + url_values" where
  "ParseGetJSON ae r n =
     (case rq_Body r of
        None \<Rightarrow> Inr (rq_Query r)
      | Some (pf, err) \<Rightarrow>
          (case (if length pf < n then err else None) of
             Some e \<Rightarrow> Inl e
           | None \<Rightarrow>
               (let buf = take n pf in
                if buf \<noteq> [] then res_bind (ae_UnmarshalValues ae buf) (\<lambda>qdata. Inr (mergeValues qdata (rq_Query r)))
                else Inr (rq_Query r))))"

section \<open>The handlers of version 2\<close>

definition DefaultOffsetLimit :: int where "DefaultOffsetLimit = 10000"

abbreviation MetricCount :: string where "MetricCount \<equiv> ''api_count''"
abbreviation MetricMillis :: string where "MetricMillis \<equiv> ''api_millis''"
abbreviation MetricTransactionsCount :: string where "MetricTransactionsCount \<equiv> ''api_transactions_count''"
abbreviation MetricTransactionsMillis :: string where "MetricTransactionsMillis \<equiv> ''api_transactions_millis''"
abbreviation MetricCTransactionsCount :: string where "MetricCTransactionsCount \<equiv> ''api_ctransactions_count''"
abbreviation MetricCTransactionsMillis :: string where "MetricCTransactionsMillis \<equiv> ''api_ctransactions_millis''"
abbreviation MetricAddressesCount :: string where "MetricAddressesCount \<equiv> ''api_addresses_count''"
abbreviation MetricAddressesMillis :: string where "MetricAddressesMillis \<equiv> ''api_addresses_millis''"
abbreviation MetricAddressChainsCount :: string where "MetricAddressChainsCount \<equiv> ''api_address_chains_count''"
abbreviation MetricAddressChainsMillis :: string where "MetricAddressChainsMillis \<equiv> ''api_address_chains_millis''"
abbreviation MetricAggregateCount :: string where "MetricAggregateCount \<equiv> ''api_aggregate_count''"
abbreviation MetricAggregateMillis :: string where "MetricAggregateMillis \<equiv> ''api_aggregate_millis''"
abbreviation MetricAssetCount :: string where "MetricAssetCount \<equiv> ''api_asset_count''"
abbreviation MetricAssetMillis :: string where "MetricAssetMillis \<equiv> ''api_asset_millis''"
abbreviation MetricSearchCount :: string where "MetricSearchCount \<equiv> ''api_search_count''"
abbreviation MetricSearchMillis :: string where "MetricSearchMillis \<equiv> ''api_search_millis''"

type_synonym 'v handler = "'v api_env \<Rightarrow> v2ctx \<Rightarrow> request \<Rightarrow> api_state \<Rightarrow> response \<times> api_state"

text \<open>\<open>defer collectors.Collect()\<close>, on every way out of a handler.\<close>

definition collecting :: "string list \<Rightarrow> 'v handler \<Rightarrow> 'v handler" where
  "collecting names h = (\<lambda>ae c r s. case h ae c r s of (resp, s') \<Rightarrow> (resp, s'\<lparr>as_metrics := as_metrics s' @ [MetricMillis, MetricCount] @ names\<rparr>))"

text \<open>The first part of a handler reads the request: an error is answered with 400, otherwise the result
  is the \<open>utils.Cacheable\<close> that it passes to \<open>WriteCacheable\<close>.\<close>

record 'v Cacheable =
  ca_Key :: "string list"
  ca_TTL :: int
  ca_Fn :: "go_error + 'v"

type_synonym 'v plan = "'v api_env \<Rightarrow> v2ctx \<Rightarrow> request \<Rightarrow> go_error + 'v Cacheable"

definition serve :: "'v plan \<Rightarrow> 'v handler" where
  "serve f ae c r s =
     (case f ae c r of
        Inl err \<Rightarrow> (Context_WriteErr ae 400 err, s)
      | Inr cacheable \<Rightarrow> WriteCacheable ae (ca_Key cacheable) (ca_TTL cacheable) (ca_Fn cacheable) s)"

text \<open>\<open>if err != nil { c.WriteErr(w, 400, err); return }\<close>\<close>

definition or_400 :: "'v api_env \<Rightarrow> go_error + 'p \<Rightarrow> ('p \<Rightarrow> api_state \<Rightarrow> response \<times> api_state) \<Rightarrow> api_state \<Rightarrow> response \<times> api_state" where
  "or_400 ae r k s = (case r of Inl err \<Rightarrow> (Context_WriteErr ae 400 err, s) | Inr p \<Rightarrow> k p s)"

definition path_id :: "request \<Rightarrow> string" where
  "path_id r = (case rq_PathParams r ''id'' of None \<Rightarrow> [] | Some i \<Rightarrow> i)"

abbreviation seconds :: "int \<Rightarrow> int" where "seconds n \<equiv> n * nanos_per_second"

definition Search_cacheable :: "'v plan" where
  "Search_cacheable ae c r =
     res_bind (SearchParams_ForValues (ae_params ae) (v2_version c) (rq_Query r) zero_SearchParams) (\<lambda>p.
       Inr \<lparr>ca_Key = cacheKeyForParams ''search'' (SearchParams_CacheKey (ae_lib ae) p), ca_TTL = 0,
         ca_Fn = rd_Search (ae_reader ae) p (ae_axcAssetID ae)\<rparr>)"

definition V2_Search :: "'v handler" where
  "V2_Search = collecting [MetricSearchMillis, MetricSearchCount] (serve Search_cacheable)"

definition TxfeeAggregate_cacheable :: "'v plan" where
  "TxfeeAggregate_cacheable ae c r =
     res_bind (TxfeeAggregateParams_ForValues (ae_params ae) (v2_version c) (rq_Query r) zero_TxfeeAggregateParams) (\<lambda>p.
       let p = p\<lparr>tf_ChainIDs := ForValueChainID (ae_lib ae) (v2_chainID c) (tf_ChainIDs p)\<rparr> in
       Inr \<lparr>ca_Key = cacheKeyForParams ''aggregate_txfee'' (TxfeeAggregateParams_CacheKey (ae_lib ae) p), ca_TTL = 0,
         ca_Fn = rd_TxfeeAggregate (ae_reader ae) p\<rparr>)"

definition V2_TxfeeAggregate :: "'v handler" where
  "V2_TxfeeAggregate = collecting [] (serve TxfeeAggregate_cacheable)"

definition Aggregate_cacheable :: "'v plan" where
  "Aggregate_cacheable ae c r =
     res_bind (AggregateParams_ForValues (ae_params ae) (v2_version c) (rq_Query r) zero_AggregateParams) (\<lambda>p.
       let p = p\<lparr>ag_ChainIDs := ForValueChainID (ae_lib ae) (v2_chainID c) (ag_ChainIDs p)\<rparr> in
       Inr \<lparr>ca_Key = cacheKeyForParams ''aggregate'' (AggregateParams_CacheKey (ae_lib ae) p), ca_TTL = 0,
         ca_Fn = rd_Aggregate (ae_reader ae) p\<rparr>)"

definition V2_Aggregate :: "'v handler" where
  "V2_Aggregate = collecting [MetricAggregateMillis, MetricAggregateCount] (serve Aggregate_cacheable)"

definition ListTransactions_cacheable :: "'v plan" where
  "ListTransactions_cacheable ae c r =
     res_bind (ListTransactionsParams_ForValues (ae_params ae) (v2_version c) (rq_Query r) zero_ListTransactionsParams) (\<lambda>p.
       let p = p\<lparr>lt_ChainIDs := ForValueChainID (ae_lib ae) (v2_chainID c) (lt_ChainIDs p)\<rparr> in
       if lp_Offset (lt_ListParams p) > DefaultOffsetLimit then Inl (ErrorString ''invalid offset'') else
       Inr \<lparr>ca_Key = cacheKeyForParams ''list_transactions'' (ListTransactionsParams_CacheKey (ae_lib ae) p), ca_TTL = (seconds 5),
         ca_Fn = rd_ListTransactions (ae_reader ae) p (ae_axcAssetID ae)\<rparr>)"

definition V2_ListTransactions :: "'v handler" where
  "V2_ListTransactions = collecting [MetricTransactionsMillis, MetricTransactionsCount] (serve ListTransactions_cacheable)"

definition ListTransactionsPost_cacheable :: "'v plan" where
  "ListTransactionsPost_cacheable ae c r =
     res_bind (ParseGetJSON ae r RequestGetMaxSize) (\<lambda>q.
       res_bind (ListTransactionsParams_ForValues (ae_params ae) (v2_version c) q zero_ListTransactionsParams) (\<lambda>p.
         let p = p\<lparr>lt_ChainIDs := ForValueChainID (ae_lib ae) (v2_chainID c) (lt_ChainIDs p)\<rparr> in
         if lp_Offset (lt_ListParams p) > DefaultOffsetLimit then Inl (ErrorString ''invalid offset'') else
         Inr \<lparr>ca_Key = cacheKeyForParams ''list_transactions'' (ListTransactionsParams_CacheKey (ae_lib ae) p), ca_TTL = (seconds 5),
           ca_Fn = rd_ListTransactions (ae_reader ae) p (ae_axcAssetID ae)\<rparr>))"

definition V2_ListTransactionsPost :: "'v handler" where
  "V2_ListTransactionsPost = collecting [MetricTransactionsMillis, MetricTransactionsCount] (serve ListTransactionsPost_cacheable)"

definition GetTransaction_cacheable :: "'v plan" where
  "GetTransaction_cacheable ae c r =
     res_bind (ids_FromString (ae_params ae) (path_id r)) (\<lambda>i.
       Inr \<lparr>ca_Key = cacheKeyForID ''get_transaction'' (path_id r), ca_TTL = (seconds 5),
         ca_Fn = rd_GetTransaction (ae_reader ae) i (ae_axcAssetID ae)\<rparr>)"

definition V2_GetTransaction :: "'v handler" where
  "V2_GetTransaction = collecting [MetricTransactionsMillis, MetricTransactionsCount] (serve GetTransaction_cacheable)"

definition ListCTransactions_cacheable :: "'v plan" where
  "ListCTransactions_cacheable ae c r =
     res_bind (ListCTransactionsParams_ForValues (ae_params ae) (v2_version c) (rq_Query r) zero_ListCTransactionsParams) (\<lambda>p.
       if lp_Offset (ct_ListParams p) > DefaultOffsetLimit then Inl (ErrorString ''invalid offset'') else
       Inr \<lparr>ca_Key = cacheKeyForParams ''list_ctransactions'' (ListCTransactionsParams_CacheKey (ae_lib ae) p), ca_TTL = (seconds 5),
         ca_Fn = rd_ListCTransactions (ae_reader ae) p\<rparr>)"

definition V2_ListCTransactions :: "'v handler" where
  "V2_ListCTransactions = collecting [MetricCTransactionsMillis, MetricCTransactionsCount] (serve ListCTransactions_cacheable)"

definition ListAddresses_cacheable :: "'v plan" where
  "ListAddresses_cacheable ae c r =
     res_bind (ListAddressesParams_ForValues (ae_params ae) (v2_version c) (rq_Query r) zero_ListAddressesParams) (\<lambda>p.
       let p = p\<lparr>ad_ChainIDs := ForValueChainID (ae_lib ae) (v2_chainID c) (ad_ChainIDs p), ad_ListParams := (ad_ListParams p)\<lparr>lp_DisableCounting := True\<rparr>\<rparr> in
       Inr \<lparr>ca_Key = cacheKeyForParams ''list_addresses'' (ListAddressesParams_CacheKey (ae_lib ae) p), ca_TTL = (seconds 5),
         ca_Fn = rd_ListAddresses (ae_reader ae) p\<rparr>)"

definition V2_ListAddresses :: "'v handler" where
  "V2_ListAddresses = collecting [MetricAddressesMillis, MetricAddressesCount] (serve ListAddresses_cacheable)"

definition GetAddress_cacheable :: "'v plan" where
  "GetAddress_cacheable ae c r =
     res_bind (ListAddressesParams_ForValues (ae_params ae) (v2_version c) (rq_Query r) zero_ListAddressesParams) (\<lambda>p.
       res_bind (AddressFromString (ae_params ae) (path_id r)) (\<lambda>i.
         let p = p\<lparr>ad_Address := Some i, ad_ListParams := (ad_ListParams p)\<lparr>lp_DisableCounting := True\<rparr>, ad_ChainIDs := ForValueChainID (ae_lib ae) (v2_chainID c) (ad_ChainIDs p)\<rparr> in
         Inr \<lparr>ca_Key = cacheKeyForParams ''get_address'' (ListAddressesParams_CacheKey (ae_lib ae) p), ca_TTL = (seconds 1),
           ca_Fn = rd_GetAddress (ae_reader ae) p\<rparr>))"

definition V2_GetAddress :: "'v handler" where
  "V2_GetAddress = collecting [MetricAddressesMillis, MetricAddressesCount] (serve GetAddress_cacheable)"

definition AddressChains_cacheable :: "'v plan" where
  "AddressChains_cacheable ae c r =
     res_bind (AddressChainsParams_ForValues (ae_params ae) (v2_version c) (rq_Query r) zero_AddressChainsParams) (\<lambda>p.
       Inr \<lparr>ca_Key = cacheKeyForParams ''address_chains'' (AddressChainsParams_CacheKey (ae_lib ae) p), ca_TTL = (seconds 5),
         ca_Fn = rd_AddressChains (ae_reader ae) p\<rparr>)"

definition V2_AddressChains :: "'v handler" where
  "V2_AddressChains = collecting [MetricAddressChainsMillis, MetricAddressChainsCount] (serve AddressChains_cacheable)"

definition AddressChainsPost_cacheable :: "'v plan" where
  "AddressChainsPost_cacheable ae c r =
     res_bind (ParseGetJSON ae r RequestGetMaxSize) (\<lambda>q.
       res_bind (AddressChainsParams_ForValues (ae_params ae) (v2_version c) q zero_AddressChainsParams) (\<lambda>p.
         Inr \<lparr>ca_Key = cacheKeyForParams ''address_chains'' (AddressChainsParams_CacheKey (ae_lib ae) p), ca_TTL = (seconds 5),
           ca_Fn = rd_AddressChains (ae_reader ae) p\<rparr>))"

definition V2_AddressChainsPost :: "'v handler" where
  "V2_AddressChainsPost = collecting [MetricAddressChainsMillis, MetricAddressChainsCount] (serve AddressChainsPost_cacheable)"

definition ListOutputs_cacheable :: "'v plan" where
  "ListOutputs_cacheable ae c r =
     res_bind (ListOutputsParams_ForValues (ae_params ae) (v2_version c) (rq_Query r) zero_ListOutputsParams) (\<lambda>p.
       let p = p\<lparr>lo_ChainIDs := ForValueChainID (ae_lib ae) (v2_chainID c) (lo_ChainIDs p)\<rparr> in
       Inr \<lparr>ca_Key = cacheKeyForParams ''list_outputs'' (ListOutputsParams_CacheKey (ae_lib ae) p), ca_TTL = (seconds 5),
         ca_Fn = rd_ListOutputs (ae_reader ae) p\<rparr>)"

definition V2_ListOutputs :: "'v handler" where
  "V2_ListOutputs = collecting [] (serve ListOutputs_cacheable)"

definition GetOutput_cacheable :: "'v plan" where
  "GetOutput_cacheable ae c r =
     res_bind (ids_FromString (ae_params ae) (path_id r)) (\<lambda>i.
       Inr \<lparr>ca_Key = cacheKeyForID ''get_output'' (path_id r), ca_TTL = 0,
         ca_Fn = rd_GetOutput (ae_reader ae) i\<rparr>)"

definition V2_GetOutput :: "'v handler" where
  "V2_GetOutput = collecting [] (serve GetOutput_cacheable)"

definition ListAssets_cacheable :: "'v plan" where
  "ListAssets_cacheable ae c r =
     res_bind (ListAssetsParams_ForValues (ae_params ae) (v2_version c) (rq_Query r) zero_ListAssetsParams) (\<lambda>p.
       Inr \<lparr>ca_Key = cacheKeyForParams ''list_assets'' (ListAssetsParams_CacheKey (ae_lib ae) p), ca_TTL = 0,
         ca_Fn = rd_ListAssets (ae_reader ae) p\<rparr>)"

definition V2_ListAssets :: "'v handler" where
  "V2_ListAssets = collecting [MetricAssetMillis, MetricAssetCount] (serve ListAssets_cacheable)"

definition GetAsset_cacheable :: "'v plan" where
  "GetAsset_cacheable ae c r =
     res_bind (ListAssetsParams_ForValues (ae_params ae) (v2_version c) (rq_Query r) zero_ListAssetsParams) (\<lambda>p.
       let p = p\<lparr>la_PathParamID := path_id r\<rparr> in
       Inr \<lparr>ca_Key = cacheKeyForParams ''get_asset'' (ListAssetsParams_CacheKey (ae_lib ae) p), ca_TTL = 0,
         ca_Fn = rd_GetAsset (ae_reader ae) p (path_id r)\<rparr>)"

definition V2_GetAsset :: "'v handler" where
  "V2_GetAsset = collecting [MetricAssetMillis, MetricAssetCount] (serve GetAsset_cacheable)"

definition ListBlocks_cacheable :: "'v plan" where
  "ListBlocks_cacheable ae c r =
     res_bind (ListBlocksParams_ForValues (ae_params ae) (v2_version c) (rq_Query r) zero_ListBlocksParams) (\<lambda>p.
       Inr \<lparr>ca_Key = cacheKeyForParams ''list_blocks'' (ListBlocksParams_CacheKey (ae_lib ae) p), ca_TTL = (seconds 5),
         ca_Fn = rd_ListBlocks (ae_reader ae) p\<rparr>)"

definition V2_ListBlocks :: "'v handler" where
  "V2_ListBlocks = collecting [] (serve ListBlocks_cacheable)"

definition GetBlock_cacheable :: "'v plan" where
  "GetBlock_cacheable ae c r =
     res_bind (ids_FromString (ae_params ae) (path_id r)) (\<lambda>i.
       Inr \<lparr>ca_Key = cacheKeyForID ''get_block'' (path_id r), ca_TTL = 0,
         ca_Fn = rd_GetBlock (ae_reader ae) i\<rparr>)"

definition V2_GetBlock :: "'v handler" where
  "V2_GetBlock = collecting [] (serve GetBlock_cacheable)"

text \<open>The handlers that do not use the cache and report no metrics.\<close>

definition V2_ATxData :: "'v handler" where
  "V2_ATxData = (\<lambda>ae c r.
     or_400 ae (TxDataParam_ForValues (ae_params ae) (v2_version c) (rq_Query r) zero_TxDataParam) (\<lambda>p.
       or_400 ae (rd_ATxDATA (ae_reader ae) (p\<lparr>td_ID := path_id r\<rparr>)) (\<lambda>b. Pair (WriteJSON b))))"

definition V2_PTxData :: "'v handler" where
  "V2_PTxData = (\<lambda>ae c r.
     or_400 ae (TxDataParam_ForValues (ae_params ae) (v2_version c) (rq_Query r) zero_TxDataParam) (\<lambda>p.
       or_400 ae (rd_PTxDATA (ae_reader ae) (p\<lparr>td_ID := path_id r\<rparr>)) (\<lambda>b. Pair (WriteJSON b))))"

definition V2_CTxData :: "'v handler" where
  "V2_CTxData = (\<lambda>ae c r.
     or_400 ae (TxDataParam_ForValues (ae_params ae) (v2_version c) (rq_Query r) zero_TxDataParam) (\<lambda>p.
       or_400 ae (rd_CTxDATA (ae_reader ae) (p\<lparr>td_ID := path_id r\<rparr>)) (\<lambda>b. Pair (WriteJSON b))))"

definition V2_ETxData :: "'v handler" where
  "V2_ETxData = (\<lambda>ae c r.
     or_400 ae (TxDataParam_ForValues (ae_params ae) (v2_version c) (rq_Query r) zero_TxDataParam) (\<lambda>p.
       or_400 ae (rd_ETxDATA (ae_reader ae) (p\<lparr>td_ID := path_id r\<rparr>)) (\<lambda>b. Pair (WriteJSON b))))"

definition V2_RawTransaction :: "'v handler" where
  "V2_RawTransaction = (\<lambda>ae c r.
     or_400 ae (ids_FromString (ae_params ae) (path_id r)) (\<lambda>i.
       or_400 ae (rd_RawTransaction (ae_reader ae) i) (\<lambda>rawdata.
         or_400 ae (ae_Marshal ae rawdata) (\<lambda>b. Pair (WriteJSON b)))))"

definition V2_CacheAddressCounts :: "'v handler" where
  "V2_CacheAddressCounts = (\<lambda>ae c r. or_400 ae (ae_Marshal ae (rd_CacheAddressCounts (ae_reader ae))) (\<lambda>b. Pair (WriteJSON b)))"

definition V2_CacheTxCounts :: "'v handler" where
  "V2_CacheTxCounts = (\<lambda>ae c r. or_400 ae (ae_Marshal ae (rd_CacheTxCounts (ae_reader ae))) (\<lambda>b. Pair (WriteJSON b)))"

definition V2_CacheAssets :: "'v handler" where
  "V2_CacheAssets = (\<lambda>ae c r. or_400 ae (ae_Marshal ae (rd_CacheAssets (ae_reader ae))) (\<lambda>b. Pair (WriteJSON b)))"

definition V2_CacheAssetAggregates :: "'v handler" where
  "V2_CacheAssetAggregates = (\<lambda>ae c r. or_400 ae (ae_Marshal ae (rd_CacheAssetAggregates (ae_reader ae))) (\<lambda>b. Pair (WriteJSON b)))"

definition V2_CacheAggregates :: "'v handler" where
  "V2_CacheAggregates = (\<lambda>ae c r. or_400 ae (ae_Marshal ae (rd_CacheAggregates (ae_reader ae) (path_id r))) (\<lambda>b. Pair (WriteJSON b)))"

text \<open>The routes below the path at which \<open>AddV2Routes\<close> mounts them; the root shows the index.\<close>

definition v2_routes :: "(string \<times> string \<times> 'v handler) list" where
  "v2_routes =
    [(''GET'', ''/search'', V2_Search),
     (''GET'', ''/aggregates'', V2_Aggregate),
     (''GET'', ''/txfeeAggregates'', V2_TxfeeAggregate),
     (''GET'', ''/transactions/aggregates'', V2_Aggregate),
     (''GET'', ''/addressChains'', V2_AddressChains),
     (''POST'', ''/addressChains'', V2_AddressChainsPost),
     (''GET'', ''/transactions'', V2_ListTransactions),
     (''POST'', ''/transactions'', V2_ListTransactionsPost),
     (''GET'', ''/transactions/:id'', V2_GetTransaction),
     (''GET'', ''/addresses'', V2_ListAddresses),
     (''GET'', ''/addresses/:id'', V2_GetAddress),
     (''GET'', ''/outputs'', V2_ListOutputs),
     (''GET'', ''/outputs/:id'', V2_GetOutput),
     (''GET'', ''/assets'', V2_ListAssets),
     (''GET'', ''/assets/:id'', V2_GetAsset),
     (''GET'', ''/atxdata/:id'', V2_ATxData),
     (''GET'', ''/ptxdata/:id'', V2_PTxData),
     (''GET'', ''/ctxdata/:id'', V2_CTxData),
     (''GET'', ''/etxdata/:id'', V2_ETxData),
     (''GET'', ''/ctransactions'', V2_ListCTransactions),
     (''GET'', ''/rawtransaction/:id'', V2_RawTransaction),
     (''GET'', ''/cacheaddresscounts'', V2_CacheAddressCounts),
     (''GET'', ''/cachetxscounts'', V2_CacheTxCounts),
     (''GET'', ''/cacheassets'', V2_CacheAssets),
     (''GET'', ''/cacheassetaggregates'', V2_CacheAssetAggregates),
     (''GET'', ''/cacheaggregates/:id'', V2_CacheAggregates)]"

text \<open>The handlers with the cacheables they pass on, and the handlers without one.\<close>

definition v2_cached :: "('v handler \<times> 'v plan) list" where
  "v2_cached =
    [(V2_Search, Search_cacheable),
     (V2_TxfeeAggregate, TxfeeAggregate_cacheable),
     (V2_Aggregate, Aggregate_cacheable),
     (V2_ListTransactions, ListTransactions_cacheable),
     (V2_ListTransactionsPost, ListTransactionsPost_cacheable),
     (V2_GetTransaction, GetTransaction_cacheable),
     (V2_ListCTransactions, ListCTransactions_cacheable),
     (V2_ListAddresses, ListAddresses_cacheable),
     (V2_GetAddress, GetAddress_cacheable),
     (V2_AddressChains, AddressChains_cacheable),
     (V2_AddressChainsPost, AddressChainsPost_cacheable),
     (V2_ListOutputs, ListOutputs_cacheable),
     (V2_GetOutput, GetOutput_cacheable),
     (V2_ListAssets, ListAssets_cacheable),
     (V2_GetAsset, GetAsset_cacheable),
     (V2_ListBlocks, ListBlocks_cacheable),
     (V2_GetBlock, GetBlock_cacheable)]"

definition v2_uncached :: "'v handler list" where
  "v2_uncached =
    [V2_ATxData, V2_PTxData, V2_CTxData, V2_ETxData, V2_RawTransaction,
     V2_CacheAddressCounts, V2_CacheTxCounts, V2_CacheAssets, V2_CacheAssetAggregates, V2_CacheAggregates]"

text \<open>The counters that \<open>AddV2Routes\<close> registers.\<close>

definition v2_metrics :: "string list" where
  "v2_metrics = [MetricCount, MetricMillis, MetricTransactionsCount, MetricTransactionsMillis, MetricCTransactionsCount, MetricTransactionsMillis, MetricAddressesCount, MetricAddressesMillis, MetricAddressChainsCount, MetricAddressChainsMillis, MetricAggregateCount, MetricAggregateMillis, MetricAssetCount, MetricAssetMillis, MetricSearchCount, MetricSearchMillis]"

section \<open>Runs of the server\<close>

text \<open>Requests, the worker that stores responses and the clean-up of the cache interleave; the clock and
  the database, hence what the reader answers, may differ at each request. \<open>hist\<close> lists the requests to
  handlers that use the cache.\<close>

type_synonym 'v visit = "'v api_env \<times> 'v plan \<times> v2ctx \<times> request"

definition api_start :: api_state where
  "api_start = \<lparr>as_delayCache = NewDelayCache NewTTLMap, as_metrics = []\<rparr>"

definition store_turn :: "(string \<Rightarrow> u8) \<Rightarrow> gotime \<Rightarrow> api_state \<Rightarrow> api_state option" where
  "store_turn sum0 now s =
     map_option (\<lambda>(w, c). s\<lparr>as_delayCache := \<lparr>dc_Cache = c, dc_Worker = w\<rparr>\<rparr>)
       (worker_turn (DelayCache_Processor sum0 now) (dc_Worker (as_delayCache s), dc_Cache (as_delayCache s)))"

definition sweep :: "(nat \<Rightarrow> gotime) \<Rightarrow> (nat \<Rightarrow> string \<Rightarrow> gotime) \<Rightarrow> api_state \<Rightarrow> api_state" where
  "sweep now later s = s\<lparr>as_delayCache := (as_delayCache s)\<lparr>dc_Cache := LCache_expire now later (dc_Cache (as_delayCache s))\<rparr>\<rparr>"

inductive api_run :: "(string \<Rightarrow> u8) \<Rightarrow> 'v visit list \<Rightarrow> api_state \<Rightarrow> bool" for sum0 where
  start: "api_run sum0 [] api_start"
| visit: "api_run sum0 hist s \<Longrightarrow> ae_sum0 ae = sum0 \<Longrightarrow> (h, f) \<in> set v2_cached \<Longrightarrow> h ae c r s = (resp, s')
    \<Longrightarrow> api_run sum0 (hist @ [(ae, f, c, r)]) s'"
| plain: "api_run sum0 (hist :: 'v visit list) s \<Longrightarrow> (h :: 'v handler) \<in> set v2_uncached \<Longrightarrow> h ae c r s = (resp, s') \<Longrightarrow> api_run sum0 hist s'"
| store: "api_run sum0 hist s \<Longrightarrow> store_turn sum0 now s = Some s' \<Longrightarrow> api_run sum0 hist s'"
| expire: "api_run sum0 hist s \<Longrightarrow> api_run sum0 hist (sweep now later s)"

text \<open>What a request computes when it is not answered from the cache.\<close>

fun answers :: "'v visit \<Rightarrow> string \<Rightarrow> bytes \<Rightarrow> bool" where
  "answers (ae, f, c, r) key body =
     (case f ae c r of
        Inl _ \<Rightarrow> False
      | Inr ca \<Rightarrow> utils_CacheKey (ae_networkID ae) (ca_Key ca) = key \<and> res_bind (ca_Fn ca) (ae_Marshal ae) = Inr body)"

definition api_inv :: "(string \<Rightarrow> u8) \<Rightarrow> 'v visit list \<Rightarrow> api_state \<Rightarrow> bool" where
  "api_inv sum0 hist s \<longleftrightarrow> LCache_wf (dc_Cache (as_delayCache s))
     \<and> (\<forall>k it. LCache_entry sum0 (dc_Cache (as_delayCache s)) k = Some it \<longrightarrow> (\<exists>v \<in> set hist. answers v k (item_value it)))
     \<and> (\<forall>j \<in> set (wk_jobCh (dc_Worker (as_delayCache s))). \<exists>v \<in> set hist. answers v (cj_Key j) (cj_Body j))
     \<and> length (wk_jobCh (dc_Worker (as_delayCache s))) \<le> WorkerQueueSize
     \<and> wk_queueSize (dc_Worker (as_delayCache s)) = WorkerQueueSize"

lemma cacheGet_iff:
  "cacheGet ae key s = (b, None) \<longleftrightarrow>
     (\<exists>it. LCache_entry (ae_sum0 ae) (dc_Cache (as_delayCache s)) key = Some it \<and> ae_now ae \<le> item_expire it \<and> b = item_value it)"
  by (auto simp: cacheGet_def Cache_Get_def LCache_Get_def LCache_entry_def item_expired_def split: option.splits if_splits)

lemma LCache_entry_New [simp]: "LCache_entry sum0 NewTTLMap k = None"
  using bucket_index [OF NewTTLMap_wf, of "sum0 k"] by (simp add: LCache_entry_def NewTTLMap_def)

lemma v2_cached_serve:
  "(h, f) \<in> set v2_cached \<Longrightarrow> \<exists>names. h = collecting names (serve f)"
  unfolding v2_cached_def V2_Search_def V2_TxfeeAggregate_def V2_Aggregate_def V2_ListTransactions_def V2_ListTransactionsPost_def
    V2_GetTransaction_def V2_ListCTransactions_def V2_ListAddresses_def V2_GetAddress_def V2_AddressChains_def V2_AddressChainsPost_def
    V2_ListOutputs_def V2_GetOutput_def V2_ListAssets_def V2_GetAsset_def V2_ListBlocks_def V2_GetBlock_def
  by (simp, elim disjE conjE, simp_all, blast+)

lemma or_400_state:
  "or_400 ae res k s = (resp, s') \<Longrightarrow> (\<And>p resp s'. k p s = (resp, s') \<Longrightarrow> s' = s) \<Longrightarrow> s' = s"
  by (auto simp: or_400_def split: sum.splits)

lemma v2_uncached_state: "h \<in> set v2_uncached \<Longrightarrow> h ae c r s = (resp, s') \<Longrightarrow> s' = s"
  unfolding v2_uncached_def V2_ATxData_def V2_PTxData_def V2_CTxData_def V2_ETxData_def V2_RawTransaction_def
    V2_CacheAddressCounts_def V2_CacheTxCounts_def V2_CacheAssets_def V2_CacheAssetAggregates_def V2_CacheAggregates_def
  by (simp, elim disjE) (auto elim!: or_400_state)

text \<open>A handler answers 400, answers from the cache, fails with 500, or answers what it computed and queues it.\<close>

lemma serve_cases:
  assumes "collecting names (serve f) ae c r s = (resp, s')"
  obtains (bad) err where "f ae c r = Inl err" "rs_Code resp = 400" "as_delayCache s' = as_delayCache s"
  | (hit) ca it where "f ae c r = Inr ca" "resp = WriteJSON (item_value it)" "as_delayCache s' = as_delayCache s"
      "LCache_entry (ae_sum0 ae) (dc_Cache (as_delayCache s)) (utils_CacheKey (ae_networkID ae) (ca_Key ca)) = Some it"
      "ae_now ae \<le> item_expire it"
  | (failed) ca err where "f ae c r = Inr ca" "res_bind (ca_Fn ca) (ae_Marshal ae) = Inl err" "rs_Code resp = 500"
      "as_delayCache s' = as_delayCache s"
  | (computed) ca body where "f ae c r = Inr ca" "res_bind (ca_Fn ca) (ae_Marshal ae) = Inr body" "resp = WriteJSON body"
      "as_delayCache s' = as_delayCache (enque_response (utils_CacheKey (ae_networkID ae) (ca_Key ca)) body (ca_TTL ca) s)"
proof (cases "f ae c r")
  case (Inl err)
  then show ?thesis using assms by (intro bad) (auto simp: collecting_def serve_def Context_WriteErr_def)
next
  case (Inr ca)
  obtain b e where g: "cacheGet ae (utils_CacheKey (ae_networkID ae) (ca_Key ca)) s = (b, e)" by fastforce
  show ?thesis
  proof (cases e)
    case None
    with g obtain it where it: "LCache_entry (ae_sum0 ae) (dc_Cache (as_delayCache s)) (utils_CacheKey (ae_networkID ae) (ca_Key ca)) = Some it"
      "ae_now ae \<le> item_expire it" "b = item_value it" by (auto simp: cacheGet_iff)
    show ?thesis
      using assms Inr g None it by (intro hit [of ca it]) (auto simp: collecting_def serve_def WriteCacheable_def Let_def)
  next
    case (Some x)
    then show ?thesis
      using assms Inr g
      by (cases "res_bind (ca_Fn ca) (ae_Marshal ae)")
        (auto simp: collecting_def serve_def WriteCacheable_def Let_def Context_WriteErr_def intro: failed computed)
  qed
qed

lemma api_inv_cong: "as_delayCache s' = as_delayCache s \<Longrightarrow> api_inv sum0 hist s' = api_inv sum0 hist s"
  by (simp add: api_inv_def)

lemma api_inv_mono: "api_inv sum0 hist s \<Longrightarrow> api_inv sum0 (hist @ [v]) s"
  unfolding api_inv_def by fastforce

lemma api_inv_same: "api_inv sum0 hist s \<Longrightarrow> as_delayCache s' = as_delayCache s \<Longrightarrow> api_inv sum0 (hist @ [v]) s'"
  using api_inv_cong [of s' s sum0 "hist @ [v]"] api_inv_mono [of sum0 hist s v] by simp

lemma api_inv_enque:
  assumes "api_inv sum0 hist s" "\<exists>v \<in> set hist. answers v key body"
  shows "api_inv sum0 hist (enque_response key body ttl s)"
  using assms unfolding api_inv_def enque_response_def Worker_TryEnque_def by auto

lemma api_inv_store:
  assumes "api_inv sum0 hist s" "store_turn sum0 now s = Some s'"
  shows "api_inv sum0 hist s'"
proof -
  obtain j rest where j: "wk_jobCh (dc_Worker (as_delayCache s)) = j # rest"
    using assms(2) by (auto simp: store_turn_def worker_turn_def Worker_take_def split: list.splits)
  then have s': "s' = s\<lparr>as_delayCache := \<lparr>dc_Cache = LCache_Put sum0 now (cj_Key j) (cj_Body j) (cj_TTL j) (dc_Cache (as_delayCache s)),
        dc_Worker = (dc_Worker (as_delayCache s))\<lparr>wk_jobCh := rest\<rparr>\<rparr>\<rparr>"
    using assms(2) by (simp add: store_turn_def worker_turn_def Worker_take_def DelayCache_Processor_def Cache_Set_def)
  have inv: "LCache_wf (dc_Cache (as_delayCache s))" "\<exists>v \<in> set hist. answers v (cj_Key j) (cj_Body j)"
    "\<And>k it. LCache_entry sum0 (dc_Cache (as_delayCache s)) k = Some it \<Longrightarrow> \<exists>v \<in> set hist. answers v k (item_value it)"
    "\<And>j. j \<in> set rest \<Longrightarrow> \<exists>v \<in> set hist. answers v (cj_Key j) (cj_Body j)"
    "length (wk_jobCh (dc_Worker (as_delayCache s))) \<le> WorkerQueueSize" "wk_queueSize (dc_Worker (as_delayCache s)) = WorkerQueueSize"
    using assms(1) j by (auto simp: api_inv_def)
  then show ?thesis
    unfolding api_inv_def s' using j
    by (auto simp: LCache_wf_Put LCache_entry_Put split: option.splits if_splits)
qed

lemma LCache_entry_expire_Some:
  assumes "LCache_wf m" "LCache_entry sum0 (LCache_expire now later m) k = Some it"
  shows "LCache_entry sum0 m k = Some it"
  using assms LCache_entry_expire [OF assms(1), of sum0 now later k]
  by (auto simp: LCache_entry_def expire_bucket_def split: option.splits if_splits)

lemma api_inv_sweep: "api_inv sum0 hist s \<Longrightarrow> api_inv sum0 hist (sweep now later s)"
  unfolding api_inv_def sweep_def by (auto simp: LCache_wf_expire dest: LCache_entry_expire_Some)

lemma api_run_inv: "api_run sum0 hist s \<Longrightarrow> api_inv sum0 hist s"
proof (induction rule: api_run.induct)
  case start
  then show ?case by (simp add: api_inv_def api_start_def NewDelayCache_def NewWorker_def)
next
  case (visit hist s ae h f c r resp s')
  obtain names where "collecting names (serve f) ae c r s = (resp, s')" using visit v2_cached_serve by metis
  then show ?case
  proof (cases rule: serve_cases)
    case (computed ca body)
    have "api_inv sum0 (hist @ [(ae, f, c, r)]) (enque_response (utils_CacheKey (ae_networkID ae) (ca_Key ca)) body (ca_TTL ca) s)"
      using visit.IH computed by (intro api_inv_enque api_inv_mono bexI [of _ "(ae, f, c, r)"]) simp_all
    then show ?thesis unfolding api_inv_cong [OF computed(4)] .
  qed (rule api_inv_same [OF visit.IH], assumption)+
next
  case (plain hist s h ae c r resp s')
  then show ?case by (metis v2_uncached_state)
next
  case (store hist s now s')
  then show ?case by (blast intro: api_inv_store)
next
  case (expire hist s now later)
  then show ?case by (blast intro: api_inv_sweep)
qed

lemma api_run_handlers: "api_run sum0 hist s \<Longrightarrow> (ae, f, c, r) \<in> set hist \<Longrightarrow> \<exists>h. (h, f) \<in> set v2_cached"
  by (induction rule: api_run.induct) auto

section \<open>Properties of the cached handlers\<close>

lemma serve_hit:
  assumes "f ae c r = Inr ca" "ae_now ae \<le> item_expire it"
    "LCache_entry (ae_sum0 ae) (dc_Cache (as_delayCache s)) (utils_CacheKey (ae_networkID ae) (ca_Key ca)) = Some it"
  shows "fst (collecting names (serve f) ae c r s) = WriteJSON (item_value it)"
proof -
  have "cacheGet ae (utils_CacheKey (ae_networkID ae) (ca_Key ca)) s = (item_value it, None)"
    using assms(2,3) by (simp add: cacheGet_iff)
  then show ?thesis using assms(1) by (simp add: collecting_def serve_def WriteCacheable_def Let_def)
qed

text \<open>A request that misses the cache while the queue is empty, and the turn of the worker after it.\<close>

lemma store_after_miss:
  assumes "collecting names (serve f) ae c r s = (WriteJSON body, s')" "f ae c r = Inr ca"
    "wk_jobCh (dc_Worker (as_delayCache s)) = []" "wk_queueSize (dc_Worker (as_delayCache s)) > 0"
    "\<And>it. LCache_entry (ae_sum0 ae) (dc_Cache (as_delayCache s)) (utils_CacheKey (ae_networkID ae) (ca_Key ca)) = Some it \<Longrightarrow> item_expire it < ae_now ae"
    "store_turn sum0 t s' = Some s''"
  shows "dc_Cache (as_delayCache s'') = LCache_Put sum0 t (utils_CacheKey (ae_networkID ae) (ca_Key ca)) body (ca_TTL ca) (dc_Cache (as_delayCache s))"
  using assms(1)
proof (cases rule: serve_cases)
  case (computed ca' body')
  then have s': "as_delayCache s' = (as_delayCache s)\<lparr>dc_Worker := (dc_Worker (as_delayCache s))\<lparr>wk_jobCh :=
      [\<lparr>cj_Key = utils_CacheKey (ae_networkID ae) (ca_Key ca), cj_Body = body, cj_TTL = ca_TTL ca\<rparr>]\<rparr>\<rparr>"
    using assms(2-4) by (simp add: enque_response_def Worker_TryEnque_def WriteJSON_def)
  show ?thesis
    using assms(6) unfolding store_turn_def s' by (auto simp: worker_turn_def Worker_take_def DelayCache_Processor_def Cache_Set_def)
qed (use assms(2,5) in \<open>auto simp: WriteJSON_def\<close>)

lemma served_answers:
  assumes "api_run (ae_sum0 ae) hist s" "collecting names (serve f) ae c r s = (resp, s')" "rs_Code resp = 200"
  shows "\<exists>ca. f ae c r = Inr ca
    \<and> (\<exists>v \<in> set (hist @ [(ae, f, c, r)]). answers v (utils_CacheKey (ae_networkID ae) (ca_Key ca)) (rs_Body resp))"
proof -
  have inv: "api_inv (ae_sum0 ae) hist s" using assms(1) by (rule api_run_inv)
  from assms(2) show ?thesis
  proof (cases rule: serve_cases)
    case (hit ca it)
    then show ?thesis using inv by (fastforce simp: api_inv_def WriteJSON_def)
  qed (use assms(3) in \<open>auto simp: WriteJSON_def\<close>)
qed

text \<open>C34. In every run of the server, with requests, the storing worker and the clean-up of the cache interleaved
  in any way, a handler that answers with status 200 answers a body that this request computes, or that an earlier
  request with the same cache key computed: the cache never mixes up the responses of different keys.\<close>

theorem api_serves_computed:
  assumes "api_run (ae_sum0 ae) hist s" "(h, f) \<in> set v2_cached" "h ae c r s = (resp, s')" "rs_Code resp = 200"
  shows "\<exists>ca. f ae c r = Inr ca
    \<and> (\<exists>v \<in> set (hist @ [(ae, f, c, r)]). answers v (utils_CacheKey (ae_networkID ae) (ca_Key ca)) (rs_Body resp))"
proof -
  obtain names where "h = collecting names (serve f)" using assms(2) v2_cached_serve by blast
  with assms(3) have "collecting names (serve f) ae c r s = (resp, s')" by simp
  from served_answers [OF assms(1) this assms(4)] show ?thesis .
qed

text \<open>An entry that has expired but was not yet swept keeps its value when a response is stored over it: a request
  answered with the new response \<open>body\<close> is followed, within the time to live, by requests for the same key that are
  answered with the old response.\<close>

theorem api_stale_after_refresh:
  assumes "(h, f) \<in> set v2_cached" "f ae1 c r = Inr ca1" "f ae2 c r = Inr ca2"
    "ae_sum0 ae2 = ae_sum0 ae1" "utils_CacheKey (ae_networkID ae2) (ca_Key ca2) = utils_CacheKey (ae_networkID ae1) (ca_Key ca1)"
    and queue: "wk_jobCh (dc_Worker (as_delayCache s)) = []" "wk_queueSize (dc_Worker (as_delayCache s)) > 0"
    and old: "LCache_wf (dc_Cache (as_delayCache s))"
      "LCache_entry (ae_sum0 ae1) (dc_Cache (as_delayCache s)) (utils_CacheKey (ae_networkID ae1) (ca_Key ca1)) = Some old"
      "item_expire old < ae_now ae1"
    and "h ae1 c r s = (WriteJSON body, s1)" "store_turn (ae_sum0 ae1) t s1 = Some s2" "ae_now ae2 \<le> t + ca_TTL ca1"
  shows "fst (h ae2 c r s2) = WriteJSON (item_value old)"
proof -
  obtain names where h: "h = collecting names (serve f)" using assms(1) v2_cached_serve by blast
  have "dc_Cache (as_delayCache s2) = LCache_Put (ae_sum0 ae1) t (utils_CacheKey (ae_networkID ae1) (ca_Key ca1)) body (ca_TTL ca1) (dc_Cache (as_delayCache s))"
    by (rule store_after_miss [OF assms(11) [unfolded h] assms(2) queue _ assms(12)]) (use old in simp)
  then have "\<exists>it. LCache_entry (ae_sum0 ae1) (dc_Cache (as_delayCache s2)) (utils_CacheKey (ae_networkID ae1) (ca_Key ca1)) = Some it
      \<and> item_value it = item_value old \<and> item_expire it = t + ca_TTL ca1"
    using old by (simp add: LCache_entry_Put)
  then obtain it where it: "LCache_entry (ae_sum0 ae1) (dc_Cache (as_delayCache s2)) (utils_CacheKey (ae_networkID ae1) (ca_Key ca1)) = Some it"
    "item_value it = item_value old" "item_expire it = t + ca_TTL ca1" by blast
  show ?thesis unfolding h it(2) [symmetric]
    using assms(3-5,13) it by (intro serve_hit) auto
qed

text \<open>The parameters of \<open>ListCTransactionsParams\<close> that are not part of its cache key.\<close>

definition unkeyed :: "string list" where
  "unkeyed = [KeyToAddress, KeyFromAddress, KeyHash, KeyBlockStart, KeyBlockEnd]"

lemma forValues_agree:
  assumes "\<And>k. k \<notin> set unkeyed \<Longrightarrow> q' k = q k" "forValues pl v q b p = Inr l"
  shows "forValues pl v q' b p = Inr (l\<lparr>lp_Values := q'\<rparr>)"
proof -
  have at: "values_at q' k = values_at q k" if "k \<notin> set unkeyed" for k using assms(1) [OF that] by (simp add: values_at_def)
  have eq: "GetQueryInt q' KeyLimit = GetQueryInt q KeyLimit" "GetQueryInt q' KeyOffset = GetQueryInt q KeyOffset"
    "GetQueryID pl q' KeyID = GetQueryID pl q KeyID" "GetQueryTime pl q' KeyStartTime = GetQueryTime pl q KeyStartTime"
    "GetQueryTime pl q' KeyEndTime = GetQueryTime pl q KeyEndTime" "GetQueryBool q' KeyDisableCount = GetQueryBool q KeyDisableCount"
    "GetQueryString q' KeySearchQuery = GetQueryString q KeySearchQuery"
    by (simp_all add: fun_eq_iff GetQueryInt_def GetQueryID_def GetQueryTime_def GetQueryBool_def GetQueryString_def at unkeyed_def)
  show ?thesis
    using assms(2)
  proof (cases rule: forValues_Inr)
    case (1 limit offset i sp st ep et d)
    then show ?thesis unfolding forValues_def eq res_bind_def Let_def
      by (auto simp: min_def max_def split: if_splits)
  qed
qed

lemma ListCTransactions_cacheable_agree:
  assumes "\<And>k. k \<notin> set unkeyed \<Longrightarrow> rq_Query r2 k = rq_Query r1 k" "ae_params ae2 = ae_params ae1" "ae_lib ae2 = ae_lib ae1"
    "ListCTransactions_cacheable ae1 c r1 = Inr ca1"
  shows "\<exists>ca2. ListCTransactions_cacheable ae2 c r2 = Inr ca2 \<and> ca_Key ca2 = ca_Key ca1"
proof -
  obtain l where l: "forValues (ae_params ae1) (v2_version c) (rq_Query r1) False zero_ListParams = Inr l"
    using assms(4) by (auto simp: ListCTransactions_cacheable_def ListCTransactionsParams_ForValues_def ListParams_ForValues_def
        zero_ListCTransactionsParams_def res_bind_def split: sum.splits)
  note l2 = forValues_agree [OF assms(1) l]
  have eq: "values_at (rq_Query r2) k = values_at (rq_Query r1) k" if "k \<notin> set unkeyed" for k
    using assms(1) [OF that] by (simp add: values_at_def)
  show ?thesis
    using assms(4) l l2 assms(2,3) eq [of KeyAddress] eq [of KeySortBy]
    by (auto simp: unkeyed_def ListCTransactions_cacheable_def ListCTransactionsParams_ForValues_def ListParams_ForValues_def res_bind_def
        zero_ListCTransactionsParams_def cacheKeyForParams_def ListCTransactionsParams_CacheKey_def ListParams_CacheKey_def sort_of_values_def
        split: if_splits)
qed

text \<open>C35. The cache key of a request for transactions of the EVM chain leaves out the sender, the receiver, the
  hashes and the range of blocks: after a request was answered with \<open>body\<close> and the response was stored, a request
  that differs from it only in these parameters is answered with the same \<open>body\<close> for five seconds, whatever the
  database holds. Both requests read the same \<open>endTime\<close>, or the same second when it is not given.\<close>

theorem ctransactions_cache_mixup:
  assumes "\<forall>k. k \<notin> set unkeyed \<longrightarrow> rq_Query r2 k = rq_Query r1 k"
    and "ae_params ae2 = ae_params ae1" "ae_lib ae2 = ae_lib ae1" "ae_sum0 ae2 = ae_sum0 ae1" "ae_networkID ae2 = ae_networkID ae1"
    and "V2_ListCTransactions ae1 c r1 api_start = (WriteJSON body, s1)" "store_turn (ae_sum0 ae1) t s1 = Some s2"
    and "ae_now ae2 \<le> t + 5 * nanos_per_second"
  shows "fst (V2_ListCTransactions ae2 c r2 s2) = WriteJSON body"
proof -
  have start: "LCache_entry sum0 (dc_Cache (as_delayCache api_start)) k = None" "LCache_wf (dc_Cache (as_delayCache api_start))"
    "wk_jobCh (dc_Worker (as_delayCache api_start)) = []" "wk_queueSize (dc_Worker (as_delayCache api_start)) > 0" for sum0 k
    by (simp_all add: api_start_def NewDelayCache_def NewWorker_def WorkerQueueSize_def)
  obtain ca1 where ca1: "ListCTransactions_cacheable ae1 c r1 = Inr ca1"
    using assms(6) by (cases "ListCTransactions_cacheable ae1 c r1")
      (auto simp: V2_ListCTransactions_def collecting_def serve_def Context_WriteErr_def WriteJSON_def)
  then have ttl: "ca_TTL ca1 = 5 * nanos_per_second"
    by (auto simp: ListCTransactions_cacheable_def res_bind_def split: sum.splits if_splits)
  obtain ca2 where ca2: "ListCTransactions_cacheable ae2 c r2 = Inr ca2" "ca_Key ca2 = ca_Key ca1"
    using ListCTransactions_cacheable_agree [OF _ assms(2,3) ca1] assms(1) by blast
  have "dc_Cache (as_delayCache s2) = LCache_Put (ae_sum0 ae1) t (utils_CacheKey (ae_networkID ae1) (ca_Key ca1)) body (ca_TTL ca1) (dc_Cache (as_delayCache api_start))"
    by (rule store_after_miss [OF assms(6) [unfolded V2_ListCTransactions_def] ca1 start(3,4) _ assms(7)]) (simp add: start)
  then have "\<exists>it. LCache_entry (ae_sum0 ae1) (dc_Cache (as_delayCache s2)) (utils_CacheKey (ae_networkID ae1) (ca_Key ca1)) = Some it
      \<and> item_value it = body \<and> item_expire it = t + ca_TTL ca1"
    using start by (simp add: LCache_entry_Put)
  then obtain it where it: "LCache_entry (ae_sum0 ae1) (dc_Cache (as_delayCache s2)) (utils_CacheKey (ae_networkID ae1) (ca_Key ca1)) = Some it"
    "item_value it = body" "item_expire it = t + ca_TTL ca1" by blast
  show ?thesis unfolding V2_ListCTransactions_def it(2) [symmetric]
    using assms(4,5,8) ca2 it ttl by (intro serve_hit) auto
qed

section \<open>Examples\<close>

text \<open>A reader whose answer depends on the number \<open>n\<close> of changes of the database and on the receivers asked for.\<close>

definition sample_reader :: "nat \<Rightarrow> nat reader" where
  "sample_reader n = \<lparr>rd_Search = (\<lambda>_ _. Inr n), rd_TxfeeAggregate = (\<lambda>_. Inr n), rd_Aggregate = (\<lambda>_. Inr n), rd_ListTransactions = (\<lambda>_ _. Inr n),
     rd_GetTransaction = (\<lambda>_ _. Inr n), rd_ListCTransactions = (\<lambda>p. Inr (n + length (ct_CAddressesTo p))), rd_ListAddresses = (\<lambda>_. Inr n),
     rd_GetAddress = (\<lambda>_. Inr n), rd_AddressChains = (\<lambda>_. Inr n), rd_ListOutputs = (\<lambda>_. Inr n), rd_GetOutput = (\<lambda>_. Inr n),
     rd_ListAssets = (\<lambda>_. Inr n), rd_GetAsset = (\<lambda>_ _. Inr n), rd_ListBlocks = (\<lambda>_. Inr n), rd_GetBlock = (\<lambda>_. Inr n),
     rd_ATxDATA = (\<lambda>_. Inr []), rd_PTxDATA = (\<lambda>_. Inr []), rd_CTxDATA = (\<lambda>_. Inr []), rd_ETxDATA = (\<lambda>_. Inr []), rd_RawTransaction = (\<lambda>_. Inr n),
     rd_CacheAddressCounts = n, rd_CacheTxCounts = n, rd_CacheAssets = n, rd_CacheAssetAggregates = n, rd_CacheAggregates = (\<lambda>_. n)\<rparr>"

definition sample_api :: "nat \<Rightarrow> gotime \<Rightarrow> nat api_env" where
  "sample_api n now = \<lparr>ae_lib = undefined, ae_params = sample_paramlib, ae_sum0 = (\<lambda>_. 0), ae_networkID = 1, ae_axcAssetID = [],
     ae_reader = sample_reader n, ae_Marshal = (\<lambda>n. Inr [of_nat n]), ae_MarshalError = (\<lambda>_ _. []), ae_UnmarshalValues = (\<lambda>_. Inr Map.empty),
     ae_now = now\<rparr>"

definition sample_request :: "url_values \<Rightarrow> request" where
  "sample_request q = \<lparr>rq_Query = q, rq_Body = None, rq_PathParams = Map.empty\<rparr>"

lemma miss_then_store:
  assumes "f ae c r = Inr ca" "res_bind (ca_Fn ca) (ae_Marshal ae) = Inr body"
    "wk_jobCh (dc_Worker (as_delayCache s)) = []" "wk_queueSize (dc_Worker (as_delayCache s)) > 0"
    "\<And>it. LCache_entry (ae_sum0 ae) (dc_Cache (as_delayCache s)) (utils_CacheKey (ae_networkID ae) (ca_Key ca)) = Some it \<Longrightarrow> item_expire it < ae_now ae"
  obtains s1 s2 where "collecting names (serve f) ae c r s = (WriteJSON body, s1)" "store_turn sum0 t s1 = Some s2"
proof -
  obtain resp s1 where run: "collecting names (serve f) ae c r s = (resp, s1)" by fastforce
  then have "resp = WriteJSON body \<and> (\<exists>s2. store_turn sum0 t s1 = Some s2)"
  proof (cases rule: serve_cases)
    case (computed ca' body')
    then show ?thesis using assms by (simp add: store_turn_def worker_turn_def Worker_take_def enque_response_def Worker_TryEnque_def)
  qed (use assms in force)+
  then show ?thesis using run that by blast
qed

lemma sample_ctransactions:
  "\<exists>ca. ListCTransactions_cacheable (sample_api n now) c (sample_request q) = Inr ca \<and> ca_TTL ca = 5 * nanos_per_second
     \<and> res_bind (ca_Fn ca) (ae_Marshal (sample_api n now)) = Inr [of_nat (n + length (values_at q KeyToAddress))]"
  if "q KeyLimit = None" "q KeyOffset = None" "q KeyID = None" "q KeyStartTime = None" "q KeyEndTime = None" "q KeyDisableCount = None"
  using that
  by (simp add: ListCTransactions_cacheable_def ListCTransactionsParams_ForValues_def ListParams_ForValues_def zero_ListCTransactionsParams_def
      forValues_eval sample_api_def sample_reader_def sample_request_def PaginationMaxLimit_def PaginationDefaultOffset_def DefaultOffsetLimit_def)

lemma api_start_simps [simp]:
  "LCache_entry sum0 (dc_Cache (as_delayCache api_start)) k = None" "LCache_wf (dc_Cache (as_delayCache api_start))"
  "wk_jobCh (dc_Worker (as_delayCache api_start)) = []" "wk_queueSize (dc_Worker (as_delayCache api_start)) > 0"
  by (simp_all add: api_start_def NewDelayCache_def NewWorker_def WorkerQueueSize_def)

abbreviation v2_root :: v2ctx where "v2_root \<equiv> v2_middleware None"

theorem ctransactions_cache_mixup_witness:
  "\<exists>s1 s2. V2_ListCTransactions (sample_api 0 10) v2_root (sample_request Map.empty) api_start = (WriteJSON [0], s1)
     \<and> store_turn (\<lambda>_. 0) 11 s1 = Some s2
     \<and> fst (V2_ListCTransactions (sample_api 0 12) v2_root (sample_request [''toAddress'' \<mapsto> [''0x1'']]) s2) = WriteJSON [0]
     \<and> fst (V2_ListCTransactions (sample_api 0 12) v2_root (sample_request [''toAddress'' \<mapsto> [''0x1'']]) api_start) = WriteJSON [1]"
proof -
  obtain ca where ca: "ListCTransactions_cacheable (sample_api 0 10) v2_root (sample_request Map.empty) = Inr ca"
    "res_bind (ca_Fn ca) (ae_Marshal (sample_api 0 10)) = Inr [0]" using sample_ctransactions [of Map.empty 0 10 v2_root] by (auto simp: values_at_def)
  obtain s1 s2 where run: "V2_ListCTransactions (sample_api 0 10) v2_root (sample_request Map.empty) api_start = (WriteJSON [0], s1)"
    "store_turn (\<lambda>_. 0) 11 s1 = Some s2"
    unfolding V2_ListCTransactions_def by (rule miss_then_store [of ListCTransactions_cacheable, OF ca]) auto
  have "fst (V2_ListCTransactions (sample_api 0 12) v2_root (sample_request [''toAddress'' \<mapsto> [''0x1'']]) s2) = WriteJSON [0]"
    by (rule ctransactions_cache_mixup [of _ "sample_request Map.empty" _ "sample_api 0 10" _ _ s1 11])
      (use run in \<open>simp_all add: sample_api_def sample_request_def unkeyed_def\<close>)
  moreover obtain ca' where ca': "ListCTransactions_cacheable (sample_api 0 12) v2_root (sample_request [''toAddress'' \<mapsto> [''0x1'']]) = Inr ca'"
    "res_bind (ca_Fn ca') (ae_Marshal (sample_api 0 12)) = Inr [1]"
    using sample_ctransactions [of "[''toAddress'' \<mapsto> [''0x1'']]" 0 12 v2_root] by (auto simp: values_at_def)
  then have "fst (V2_ListCTransactions (sample_api 0 12) v2_root (sample_request [''toAddress'' \<mapsto> [''0x1'']]) api_start) = WriteJSON [1]"
    unfolding V2_ListCTransactions_def
    by (rule miss_then_store [where s = api_start and ?sum0.0 = "\<lambda>_. 0" and t = 0 and names = "[MetricCTransactionsMillis, MetricCTransactionsCount]"]) auto
  ultimately show ?thesis using run by blast
qed

text \<open>A cache that holds a response, expired at time 5, for the key of a request without parameters.\<close>

definition sample_key :: string where
  "sample_key = (case ListCTransactions_cacheable (sample_api 0 0) v2_root (sample_request Map.empty) of
     Inl _ \<Rightarrow> [] | Inr ca \<Rightarrow> utils_CacheKey 1 (ca_Key ca))"

definition sample_expired :: api_state where
  "sample_expired = api_start\<lparr>as_delayCache := (NewDelayCache (LCache_Put (\<lambda>_. 0) 0 sample_key [9] 5 NewTTLMap))\<rparr>"

lemma sample_expired_simps [simp]:
  "LCache_entry (\<lambda>_. 0) (dc_Cache (as_delayCache sample_expired)) sample_key = Some \<lparr>item_value = [9], item_expire = 5, item_last = 0\<rparr>"
  "LCache_wf (dc_Cache (as_delayCache sample_expired))"
  "wk_jobCh (dc_Worker (as_delayCache sample_expired)) = []" "wk_queueSize (dc_Worker (as_delayCache sample_expired)) > 0"
  by (simp_all add: sample_expired_def NewDelayCache_def NewWorker_def WorkerQueueSize_def LCache_wf_Put LCache_entry_Put)

lemma sample_key_at:
  "ListCTransactions_cacheable (sample_api n now) v2_root (sample_request Map.empty) = Inr ca \<Longrightarrow> utils_CacheKey 1 (ca_Key ca) = sample_key"
  by (auto simp: sample_key_def ListCTransactions_cacheable_def ListCTransactionsParams_ForValues_def ListParams_ForValues_def
      zero_ListCTransactionsParams_def forValues_eval sample_api_def sample_request_def PaginationMaxLimit_def PaginationDefaultOffset_def
      DefaultOffsetLimit_def)

theorem api_stale_after_refresh_witness:
  "\<exists>s1 s2. V2_ListCTransactions (sample_api 7 20) v2_root (sample_request Map.empty) sample_expired = (WriteJSON [7], s1)
     \<and> store_turn (\<lambda>_. 0) 21 s1 = Some s2
     \<and> fst (V2_ListCTransactions (sample_api 7 22) v2_root (sample_request Map.empty) s2) = WriteJSON [9]"
proof -
  obtain ca where ca: "ListCTransactions_cacheable (sample_api 7 20) v2_root (sample_request Map.empty) = Inr ca"
    "ca_TTL ca = 5 * nanos_per_second" "res_bind (ca_Fn ca) (ae_Marshal (sample_api 7 20)) = Inr [7]"
    using sample_ctransactions [of Map.empty 7 20 v2_root] by (auto simp: values_at_def)
  obtain ca2 where ca2: "ListCTransactions_cacheable (sample_api 7 22) v2_root (sample_request Map.empty) = Inr ca2"
    using sample_ctransactions [of Map.empty 7 22 v2_root] by auto
  note keys = sample_key_at [OF ca(1)] sample_key_at [OF ca2]
  have [simp]: "ae_sum0 (sample_api n now) = (\<lambda>_. 0)" "ae_networkID (sample_api n now) = 1" "ae_now (sample_api n now) = now" for n now
    by (simp_all add: sample_api_def)
  obtain s1 s2 where run: "V2_ListCTransactions (sample_api 7 20) v2_root (sample_request Map.empty) sample_expired = (WriteJSON [7], s1)"
    "store_turn (\<lambda>_. 0) 21 s1 = Some s2"
    unfolding V2_ListCTransactions_def by (rule miss_then_store [of ListCTransactions_cacheable, OF ca(1,3)]) (auto simp: keys)
  have "fst (V2_ListCTransactions (sample_api 7 22) v2_root (sample_request Map.empty) s2) = WriteJSON (item_value \<lparr>item_value = [9], item_expire = 5, item_last = 0\<rparr>)"
    by (rule api_stale_after_refresh [where h = V2_ListCTransactions and f = ListCTransactions_cacheable and ?ae1.0 = "sample_api 7 20"
        and ?ca1.0 = ca and ?ca2.0 = ca2 and s = sample_expired and body = "[7]" and ?s1.0 = s1 and t = 21])
      (use run ca(1,2) ca2 in \<open>simp_all add: keys v2_cached_def\<close>)
  then show ?thesis using run by simp
qed

theorem api_serves_computed_witness:
  "\<exists>(ca :: nat Cacheable) s'. V2_ListCTransactions (sample_api 7 20) v2_root (sample_request Map.empty) api_start = (WriteJSON [7], s')
     \<and> answers (sample_api 7 20, ListCTransactions_cacheable, v2_root, sample_request Map.empty) (utils_CacheKey 1 (ca_Key ca)) [7]"
proof -
  obtain ca where ca: "ListCTransactions_cacheable (sample_api 7 20) v2_root (sample_request Map.empty) = Inr ca"
    "ca_TTL ca = 5 * nanos_per_second" "res_bind (ca_Fn ca) (ae_Marshal (sample_api 7 20)) = Inr [7]"
    using sample_ctransactions [of Map.empty 7 20 v2_root] by (auto simp: values_at_def)
  obtain s1 s2 where run: "V2_ListCTransactions (sample_api 7 20) v2_root (sample_request Map.empty) api_start = (WriteJSON [7], s1)"
    "store_turn (\<lambda>_. 0) 21 s1 = Some s2"
    unfolding V2_ListCTransactions_def by (rule miss_then_store [of ListCTransactions_cacheable, OF ca(1,3)]) auto
  have "api_run (ae_sum0 (sample_api 7 20)) ([] :: nat visit list) api_start" by (rule api_run.start)
  then obtain ca' where "ListCTransactions_cacheable (sample_api 7 20) v2_root (sample_request Map.empty) = Inr ca'"
    "answers (sample_api 7 20, ListCTransactions_cacheable, v2_root, sample_request Map.empty)
       (utils_CacheKey (ae_networkID (sample_api 7 20)) (ca_Key ca')) [7]"
    using api_serves_computed [where h = V2_ListCTransactions and f = ListCTransactions_cacheable and hist = "[]", OF _ _ run(1)] by (auto simp: v2_cached_def WriteJSON_def)
  moreover have "ae_networkID (sample_api 7 20) = 1" by (simp add: sample_api_def)
  ultimately show ?thesis using run(1) by metis
qed

end
