(* ===== verification/Query.thy ===== *)
theory Query
  imports Chain Params "HOL-Library.List_Lexorder" "HOL-Library.Product_Lexorder" "HOL-Library.AList"
begin

text \<open>
  The queries of the readers. A query is its meaning, a function from the tables to the rows it returns,
  written with one combinator for each clause of the query builder. The rows of a query over several tables
  have qualified columns, as the text of the query has; a column without a value is \<open>NULL\<close>. The server is an
  argument (\<open>query_conn\<close>), with what the readers rely on in the locale \<open>query_server\<close>.
\<close>

section \<open>Clauses\<close>

definition qualify :: "string \<Rightarrow> row \<Rightarrow> row" where
  "qualify t r = (\<lambda>c. if HasPrefix c (t @ ''.'') then r (drop (length t + 1) c) else None)"

definition is_null :: "row \<Rightarrow> string \<Rightarrow> bool" where
  "is_null r c = (case r c of None \<Rightarrow> True | Some (VBytes None) \<Rightarrow> True | _ \<Rightarrow> False)"

text \<open>\<open>a = b\<close> in a condition of a join: not true when a side is \<open>NULL\<close>.\<close>

definition eq_cols :: "string \<Rightarrow> string \<Rightarrow> row \<Rightarrow> bool" where
  "eq_cols a b r \<longleftrightarrow> \<not> is_null r a \<and> r a = r b"

definition q_from :: "string \<Rightarrow> tables \<Rightarrow> row list" where
  "q_from t T = map (qualify t) (T t)"

definition q_join_rows :: "row list \<Rightarrow> (row \<Rightarrow> bool) \<Rightarrow> row list \<Rightarrow> row list" where
  "q_join_rows right on left = concat (map (\<lambda>l. filter on (map (\<lambda>r. l ++ r) right)) left)"

definition q_left_join_rows :: "row list \<Rightarrow> (row \<Rightarrow> bool) \<Rightarrow> row list \<Rightarrow> row list" where
  "q_left_join_rows right on left =
     concat (map (\<lambda>l. let m = filter on (map (\<lambda>r. l ++ r) right) in if m = [] then [l] else m) left)"

abbreviation q_join :: "tables \<Rightarrow> string \<Rightarrow> (row \<Rightarrow> bool) \<Rightarrow> row list \<Rightarrow> row list" where
  "q_join T t \<equiv> q_join_rows (q_from t T)"

abbreviation q_left_join :: "tables \<Rightarrow> string \<Rightarrow> (row \<Rightarrow> bool) \<Rightarrow> row list \<Rightarrow> row list" where
  "q_left_join T t \<equiv> q_left_join_rows (q_from t T)"

text \<open>\<open>column as name\<close>, and \<open>case when column is null then d else column end as name\<close>.\<close>

definition sel :: "string \<Rightarrow> string \<Rightarrow> row \<Rightarrow> string \<times> dbval option" where
  "sel c name r = (name, r c)"

definition sel_or :: "string \<Rightarrow> dbval \<Rightarrow> string \<Rightarrow> row \<Rightarrow> string \<times> dbval option" where
  "sel_or c d name r = (name, if is_null r c then Some d else r c)"

definition q_select :: "(row \<Rightarrow> string \<times> dbval option) list \<Rightarrow> row list \<Rightarrow> row list" where
  "q_select cs rows = map (\<lambda>r c. case map_of (map (\<lambda>f. f r) cs) c of None \<Rightarrow> None | Some v \<Rightarrow> v) rows"

definition q_limit :: "u64 option \<Rightarrow> 'a list \<Rightarrow> 'a list" where
  "q_limit n rows = (case n of None \<Rightarrow> rows | Some n \<Rightarrow> take (unat n) rows)"

definition q_offset :: "u64 option \<Rightarrow> 'a list \<Rightarrow> 'a list" where
  "q_offset n rows = (case n of None \<Rightarrow> rows | Some n \<Rightarrow> drop (unat n) rows)"

text \<open>\<open>GROUP BY\<close>: the groups in the order of their first rows.\<close>

fun q_group :: "(row \<Rightarrow> 'k) \<Rightarrow> row list \<Rightarrow> ('k \<times> row list) list" where
  "q_group f [] = []"
| "q_group f (r # rs) = (f r, r # filter (\<lambda>x. f x = f r) rs) # q_group f (filter (\<lambda>x. f x \<noteq> f r) rs)"

text \<open>\<open>LIKE\<close>: \<open>%\<close> stands for any text, \<open>_\<close> for a character, a backslash quotes the next character.\<close>

function like :: "string \<Rightarrow> string \<Rightarrow> bool" where
  "like s [] = (s = [])"
| "like s (p # ps) =
     (if p = CHR ''%'' then like s ps \<or> (case s of [] \<Rightarrow> False | _ # s' \<Rightarrow> like s' (p # ps))
      else (case s of
              [] \<Rightarrow> False
            | c # s' \<Rightarrow>
                if p = CHR 0x5C then (case ps of [] \<Rightarrow> c = p \<and> like s' [] | q # ps' \<Rightarrow> c = q \<and> like s' ps')
                else (p = CHR ''_'' \<or> c = p) \<and> like s' ps))"
  by pat_completeness auto
termination by (relation "measure (\<lambda>(s, p). length s + length p)") auto

declare like.simps [simp del]

section \<open>The conditions that the parameters add\<close>

definition in_texts :: "row \<Rightarrow> string \<Rightarrow> string list \<Rightarrow> bool" where
  "in_texts r c xs = (case r c of Some (VS s) \<Rightarrow> s \<in> set xs | _ \<Rightarrow> False)"

fun where_holds :: "row \<Rightarrow> where_cond \<Rightarrow> bool" where
  "where_holds r (WhereEq c s) = (r c = Some (VS s))"
| "where_holds r (WhereEqSlice c xs) = in_texts r c xs"
| "where_holds r (WhereIn c xs) = in_texts r c xs"
| "where_holds r (WhereLike c p) = (case r c of Some (VS s) \<Rightarrow> like s p | _ \<Rightarrow> False)"
| "where_holds r (WhereGe c t) = (case r c of Some (VT u) \<Rightarrow> t \<le> u | _ \<Rightarrow> False)"
| "where_holds r (WhereLt c t) = (case r c of Some (VT u) \<Rightarrow> u < t | _ \<Rightarrow> False)"
| "where_holds r (WhereIsNull c) = is_null r c"
| "where_holds r (WhereIsNotNull c) = (\<not> is_null r c)"
| "where_holds r (WhereOr cs) = list_ex (where_holds r) cs"

definition new_select :: SelectBuilder where
  "new_select = \<lparr>sb_where = [], sb_leftjoin = [], sb_limit = None, sb_offset = None\<rparr>"

definition sb_filter :: "SelectBuilder \<Rightarrow> row list \<Rightarrow> row list" where
  "sb_filter b rows = filter (\<lambda>r. list_all (where_holds r) (sb_where b)) rows"

definition sb_page :: "SelectBuilder \<Rightarrow> 'a list \<Rightarrow> 'a list" where
  "sb_page b rows = q_limit (sb_limit b) (q_offset (sb_offset b) rows)"

section \<open>Connections\<close>

text \<open>\<open>NewSession\<close> sets a time limit on the server, which may fail. An iterator delivers the first rows of the
  result, and the error that ends it when it is not the last row. \<open>qc_weight\<close> is the order of texts in the
  collation of the columns.\<close>

record query_conn =
  qc_NewSession :: "string \<Rightarrow> dbstate \<Rightarrow> (go_error + unit) \<times> dbstate"
  qc_load :: "(tables \<Rightarrow> row list) \<Rightarrow> dbstate \<Rightarrow> (go_error + row list) \<times> dbstate"
  qc_iterate :: "(tables \<Rightarrow> row list) \<Rightarrow> dbstate \<Rightarrow> (go_error + row list \<times> go_error option) \<times> dbstate"
  qc_weight :: "string \<Rightarrow> nat list"

locale query_server =
  fixes conn :: query_conn
  assumes load_rows: "qc_load conn q d = (Inr rows, d') \<Longrightarrow> rows = q (tabs d)"
    and iterate_rows: "qc_iterate conn q d = (Inr (rows, e), d') \<Longrightarrow> prefix rows (q (tabs d)) \<and> (e = None \<longrightarrow> rows = q (tabs d))"
    and iterate_keeps: "tabs (snd (qc_iterate conn q d)) = tabs d"
    and load_keeps: "tabs (snd (qc_load conn q d)) = tabs d"
    and session_keeps: "tabs (snd (qc_NewSession conn name d)) = tabs d"

context query_server begin

text \<open>A query and what is computed from its rows.\<close>

lemma load_bind_keeps: "go_bind (qc_load conn q) (\<lambda>rows. go_return (f rows)) d = (r, d') \<Longrightarrow> tabs d' = tabs d"
  using load_keeps [of q d] by (auto simp: go_simps split: prod.splits sum.splits)

lemma load_bind_Inr:
  assumes "go_bind (qc_load conn q) (\<lambda>rows. go_return (f rows)) d = (Inr a, d')"
  shows "a = f (q (tabs d))" "tabs d' = tabs d"
  using assms load_rows [of q d] load_keeps [of q d] by (auto simp: go_simps split: prod.splits sum.splits)

end

text \<open>A server that answers a call with an error when the schedule \<open>faults\<close> says so, and orders texts by their bytes.\<close>

definition mysql_ro :: "(nat \<Rightarrow> go_error option) \<Rightarrow> query_conn" where
  "mysql_ro faults = \<lparr>
     qc_NewSession = (\<lambda>name d. case faults (ticks d) of Some e \<Rightarrow> (Inl e, tick d) | None \<Rightarrow> (Inr (), tick d)),
     qc_load = (\<lambda>q d. case faults (ticks d) of Some e \<Rightarrow> (Inl e, tick d) | None \<Rightarrow> (Inr (q (tabs d)), tick d)),
     qc_iterate = (\<lambda>q d. case faults (ticks d) of Some e \<Rightarrow> (Inl e, tick d) | None \<Rightarrow> (Inr (q (tabs d), None), tick d)),
     qc_weight = map of_char\<rparr>"

interpretation mysql_ro: query_server "mysql_ro faults"
  by unfold_locales (auto simp: mysql_ro_def split: option.splits)

section \<open>Library\<close>

text \<open>\<open>order by created_at, chain_id\<close>\<close>

definition q_order :: "(row \<Rightarrow> 'k::linorder) \<Rightarrow> row list \<Rightarrow> row list" where
  "q_order f rows = sort_key f rows"

definition q_order_desc :: "(row \<Rightarrow> 'k::linorder) \<Rightarrow> row list \<Rightarrow> row list" where
  "q_order_desc f rows = rev (sort_key f (rev rows))"

lemma mset_q_order_desc [simp]: "mset (q_order_desc f rows) = mset rows"
  by (simp add: q_order_desc_def)

lemma qualify_at [simp]: "qualify t r (t @ ''.'' @ c) = r c"
  by (simp add: qualify_def HasPrefix_def)

lemma qualify_other: "\<not> HasPrefix c (t @ ''.'') \<Longrightarrow> qualify t r c = None"
  by (simp add: qualify_def)

lemma q_select_col: "map_of (map (\<lambda>f. f r) cs) c = Some v \<Longrightarrow> hd (q_select cs [r]) c = v"
  by (simp add: q_select_def)

text \<open>A join with a table in which at most one row matches.\<close>

lemma left_join_single:
  assumes "\<And>l. l \<in> set left \<Longrightarrow> length (filter on (map (\<lambda>r. l ++ r) right)) \<le> 1"
  shows "q_left_join_rows right on left =
    map (\<lambda>l. case filter on (map (\<lambda>r. l ++ r) right) of [] \<Rightarrow> l | r # _ \<Rightarrow> r) left"
  using assms
proof (induction left)
  case (Cons l left)
  have *: "(let m = ms in if m = [] then [l] else m) = [case ms of [] \<Rightarrow> l | r # _ \<Rightarrow> r]" if "length ms \<le> 1" for ms
    using that by (cases ms) (auto split: list.splits)
  show ?case using Cons *[OF Cons.prems, of l] by (simp add: q_left_join_rows_def)
qed (simp add: q_left_join_rows_def)

lemma filter_single: "sorted_wrt (\<lambda>x y. \<not> (P x \<and> P y)) xs \<Longrightarrow> length (filter P xs) \<le> 1"
proof (induction xs)
  case (Cons x xs)
  then have "P x \<Longrightarrow> filter P xs = []" by (auto simp: filter_empty_conv)
  with Cons show ?case by auto
qed simp

lemma sorted_wrt_distinct: "sorted_wrt (\<lambda>x y. f x \<noteq> f y) xs \<longleftrightarrow> distinct (map f xs)"
  by (induction xs) auto

lemma filter_take_distinct: "distinct xs \<Longrightarrow> filter (\<lambda>x. x \<in> set (take n (filter P xs))) xs = take n (filter P xs)"
proof (induction xs arbitrary: n)
  case (Cons x xs)
  show ?case
  proof (cases "P x \<and> n > 0")
    case True
    then obtain m where n: "n = Suc m" by (cases n) auto
    have "filter (\<lambda>y. y = x \<or> y \<in> set (take m (filter P xs))) xs = filter (\<lambda>y. y \<in> set (take m (filter P xs))) xs"
      by (rule filter_cong) (use Cons.prems in auto)
    with True n Cons show ?thesis by simp
  next
    case False
    then have "take n (filter P (x # xs)) = take n (filter P xs)" by auto
    moreover have "x \<notin> set (take n (filter P xs))" using Cons.prems by (auto dest: in_set_takeD)
    ultimately show ?thesis using Cons by simp
  qed
qed simp

lemma take_filter_take: "n \<le> length (filter P (take m xs)) \<Longrightarrow> take n (filter P (take m xs)) = take n (filter P xs)"
  by (metis append_take_drop_id filter_append take_append append_Nil2 diff_is_0_eq take0)

lemma insort_key_map: "insort_key f (g x) (map g xs) = map g (insort_key (f \<circ> g) x xs)"
  by (induction xs) auto

lemma sort_key_map: "sort_key f (map g xs) = map g (sort_key (f \<circ> g) xs)"
  by (induction xs) (simp_all add: insort_key_map comp_def)

lemma insort_key_cong: "\<forall>y \<in> set (x # xs). f y = g y \<Longrightarrow> insort_key f x xs = insort_key g x xs"
  by (induction xs) auto

lemma sort_key_cong: "\<forall>x \<in> set xs. f x = g x \<Longrightarrow> sort_key f xs = sort_key g xs"
  by (induction xs) (simp_all add: insort_key_cong)

text \<open>A left join over a unique column of a table adds columns of that table only, and no rows.\<close>

lemma left_join_unique:
  assumes ok: "keys_ok t (T t)" "[kc] \<in> set (unique_keys t)"
    and on: "\<And>l r. l \<in> set left \<Longrightarrow> on (l ++ qualify t r) \<Longrightarrow> r kc = key l \<and> key l \<noteq> None"
  shows "\<exists>ext. q_left_join T t on left = map ext left \<and> (\<forall>l c. \<not> HasPrefix c (t @ ''.'') \<longrightarrow> ext l c = l c)"
proof -
  have "length (filter on (map (\<lambda>r. l ++ r) (q_from t T))) \<le> 1" if l: "l \<in> set left" for l
  proof -
    let ?P = "\<lambda>r. on (l ++ qualify t r)"
    have "sorted_wrt (\<lambda>r r'. \<not> (?P r \<and> ?P r')) (T t)"
    proof (rule sorted_wrt_mono_rel [OF _ ok(1) [unfolded keys_ok_def]])
      fix r r' assume "\<not> conflicts t r r'"
      then have "r kc = None \<or> r kc \<noteq> r' kc" using ok(2) by (auto simp: conflicts_def agree_on_def list_ex_iff)
      then show "\<not> (?P r \<and> ?P r')" using on [OF l, of r] on [OF l, of r'] by auto
    qed
    then have "length (filter ?P (T t)) \<le> 1" by (rule filter_single)
    then show ?thesis by (simp add: q_from_def filter_map comp_def)
  qed
  then have "q_left_join T t on left =
      map (\<lambda>l. case filter on (map (\<lambda>r. l ++ r) (q_from t T)) of [] \<Rightarrow> l | r # _ \<Rightarrow> r) left"
    by (intro left_join_single)
  moreover have "(case filter on (map (\<lambda>r. l ++ r) (q_from t T)) of [] \<Rightarrow> l | r # _ \<Rightarrow> r) c = l c"
    if c: "\<not> HasPrefix c (t @ ''.'')" for l c
  proof (cases "filter on (map (\<lambda>r. l ++ r) (q_from t T))")
    case (Cons r rs)
    then have "r \<in> set (map (\<lambda>r. l ++ r) (q_from t T))" by (metis filter_eq_ConsD in_set_conv_decomp)
    then obtain r' where "r = l ++ qualify t r'" by (auto simp: q_from_def)
    with c Cons show ?thesis by (simp add: map_add_def qualify_other)
  qed simp
  ultimately show ?thesis by blast
qed

lemma eq_cols_join:
  assumes "eq_cols a b (l ++ qualify t r)" "\<not> HasPrefix a (t @ ''.'')" "b = t @ ''.'' @ c" "l b = None"
  shows "r c = l a \<and> l a \<noteq> None"
proof -
  have "(l ++ qualify t r) a = l a" using assms(2) by (simp add: map_add_def qualify_other)
  moreover have "(l ++ qualify t r) b = r c" using assms(3,4) qualify_at [of t r c] by (simp add: map_add_def split: option.splits)
  ultimately show ?thesis using assms(1) by (auto simp: eq_cols_def is_null_def split: option.splits)
qed

lemma left_join_key:
  assumes "keys_ok t (T t)" "unique_keys t = [[''id'']]" "\<not> HasPrefix a (t @ ''.'')" "\<And>l. l \<in> set left \<Longrightarrow> l (t @ ''.id'') = None"
  shows "\<exists>ext. q_left_join T t (eq_cols a (t @ ''.id'')) left = map ext left
    \<and> (\<forall>l c. \<not> HasPrefix c (t @ ''.'') \<longrightarrow> ext l c = l c)"
proof (rule left_join_unique [where kc = "''id''" and key = "\<lambda>l. l a"])
  fix l r assume "l \<in> set left" "eq_cols a (t @ ''.id'') (l ++ qualify t r)"
  then show "r ''id'' = l a \<and> l a \<noteq> None" by (intro eq_cols_join) (use assms(3,4) in auto)
qed (use assms(1,2) in simp_all)

text \<open>Sums over a left join, of what the joined table has no part in: a row counts as often as it has matches, at least once.\<close>

lemma left_join_sum:
  fixes f :: "row \<Rightarrow> int"
  assumes "\<And>l r. f (l ++ qualify t r) = f l"
  shows "sum_list (map f (q_left_join T t on left))
    = (\<Sum>l \<leftarrow> left. f l * int (max 1 (length (filter (\<lambda>r. on (l ++ qualify t r)) (T t)))))"
proof (induction left)
  case (Cons l left)
  let ?m = "filter on (map (\<lambda>r. l ++ r) (q_from t T))"
  have m: "?m = map (\<lambda>r. l ++ qualify t r) (filter (\<lambda>r. on (l ++ qualify t r)) (T t))"
    by (simp add: q_from_def filter_map comp_def)
  have "sum_list (map f ?m) = (\<Sum>r \<leftarrow> filter (\<lambda>r. on (l ++ qualify t r)) (T t). f l)" unfolding m by (simp add: comp_def assms)
  then have "sum_list (map f ?m) = int (length ?m) * f l" unfolding m by (simp add: sum_list_triv)
  moreover have "length ?m = length (filter (\<lambda>r. on (l ++ qualify t r)) (T t))" unfolding m by simp
  moreover have "?m = [] \<or> max 1 (length ?m) = length ?m" by (cases ?m) auto
  ultimately have "sum_list (map f (if ?m = [] then [l] else ?m)) = f l * int (max 1 (length (filter (\<lambda>r. on (l ++ qualify t r)) (T t))))"
    by (elim disjE) (simp_all only: if_True if_False list.map sum_list_simps, auto)
  with Cons show ?case by (simp add: q_left_join_rows_def Let_def)
qed (simp add: q_left_join_rows_def)

text \<open>The columns of the rows of a join are those of the joined tables.\<close>

definition cols_in :: "string list \<Rightarrow> row \<Rightarrow> bool" where
  "cols_in ts r \<longleftrightarrow> (\<forall>c. r c \<noteq> None \<longrightarrow> list_ex (\<lambda>t. HasPrefix c (t @ ''.'')) ts)"

lemma cols_inD: "cols_in ts r \<Longrightarrow> \<not> list_ex (\<lambda>t. HasPrefix c (t @ ''.'')) ts \<Longrightarrow> r c = None"
  by (auto simp: cols_in_def)

lemma q_from_cols: "r \<in> set (q_from t T) \<Longrightarrow> cols_in [t] r"
  by (auto simp: q_from_def qualify_def cols_in_def split: if_splits)

lemma left_join_member:
  assumes "r \<in> set (q_left_join T t on left)"
  obtains l where "l \<in> set left" "\<And>c. \<not> HasPrefix c (t @ ''.'') \<Longrightarrow> r c = l c" "\<And>ts. cols_in ts l \<Longrightarrow> cols_in (t # ts) r"
proof -
  obtain l where l: "l \<in> set left" and r: "r = l \<or> (\<exists>q \<in> set (T t). r = l ++ qualify t q)"
    using assms by (auto simp: q_left_join_rows_def q_from_def Let_def split: if_splits)
  show thesis
  proof (rule that [OF l])
    show "r c = l c" if "\<not> HasPrefix c (t @ ''.'')" for c using r that by (auto simp: map_add_def qualify_other)
    show "cols_in (t # ts) r" if "cols_in ts l" for ts
      using r that by (auto simp: cols_in_def map_add_def qualify_def split: if_splits)
  qed
qed

lemma q_join_member:
  "l \<in> set left \<Longrightarrow> q \<in> set (T t) \<Longrightarrow> on (l ++ qualify t q) \<Longrightarrow> l ++ qualify t q \<in> set (q_join T t on left)"
  by (auto simp: q_join_rows_def q_from_def)

end
