(* ===== verification/ReaderModels.thy ===== *)
theory ReaderModels
  imports Query
begin

text \<open>
  What the readers of \<open>src/services/indexes/axc\<close> return and keep: the response structures of \<open>src/models/axc.go\<close> and
  \<open>src/models/collections.go\<close>, how a row of a query fills them, and the lists of transactions that are kept in memory
  (\<open>ReaderAggregateTxList\<close> of \<open>reader_aggregate_processor.go\<close>).
\<close>

section \<open>Transactions, inputs and outputs\<close>

record PvmProposerModel =
  pm_ID :: string
  pm_ParentID :: string
  pm_CoreChainHeight :: u64
  pm_Proposer :: string
  pm_TimeStamp :: gotime

record ApiOutput =
  ao_ID :: string
  ao_TransactionID :: string
  ao_OutputIndex :: u64
  ao_AssetID :: string
  ao_Stake :: bool
  ao_Frozen :: bool
  ao_Stakeableout :: bool
  ao_Genesisutxo :: bool
  ao_OutputType :: OutputType
  ao_Amount :: string
  ao_Locktime :: u64
  ao_StakeLocktime :: u64
  ao_Threshold :: u64
  ao_Addresses :: "string list"
  ao_CAddresses :: "string list"
  ao_CreatedAt :: gotime
  ao_RedeemingTransactionID :: string
  ao_ChainID :: string
  ao_InChainID :: string
  ao_OutChainID :: string
  ao_GroupID :: u64
  ao_Payload :: "bytes option"
  ao_Block :: string
  ao_Nonce :: u64
  ao_RewardUtxo :: bool
  ao_Score :: u64

text \<open>A query fills the fields whose columns it selects; the others keep their zero values.\<close>

definition output_of_row :: "row \<Rightarrow> ApiOutput" where
  "output_of_row r = \<lparr>
     ao_ID = getS r ''id'', ao_TransactionID = getS r ''transaction_id'', ao_OutputIndex = getW r ''output_index'',
     ao_AssetID = getS r ''asset_id'', ao_Stake = getBool r ''stake'', ao_Frozen = getBool r ''frozen'',
     ao_Stakeableout = getBool r ''stakeableout'', ao_Genesisutxo = getBool r ''genesisutxo'',
     ao_OutputType = getW r ''output_type'', ao_Amount = getS r ''amount'', ao_Locktime = getW r ''locktime'',
     ao_StakeLocktime = getW r ''stake_locktime'', ao_Threshold = getW r ''threshold'', ao_Addresses = [], ao_CAddresses = [],
     ao_CreatedAt = getT r ''created_at'', ao_RedeemingTransactionID = getS r ''redeeming_transaction_id'',
     ao_ChainID = getS r ''chain_id'', ao_InChainID = getS r ''in_chain_id'', ao_OutChainID = getS r ''out_chain_id'',
     ao_GroupID = getW r ''group_id'', ao_Payload = getB r ''payload'', ao_Block = getS r ''block'', ao_Nonce = getW r ''nonce'',
     ao_RewardUtxo = getBool r ''reward_utxo'', ao_Score = 0\<rparr>"

record InputCredentials =
  ic_Address :: string
  ic_PublicKey :: bytes
  ic_Signature :: bytes

record ApiInput =
  ai_Output :: ApiOutput
  ai_Creds :: "InputCredentials list"

type_synonym AssetTokenCounts = "string \<rightharpoonup> string"

record ApiTransaction =
  at_ID :: string
  at_ChainID :: string
  at_Type :: string
  at_Inputs :: "ApiInput list"
  at_Outputs :: "ApiOutput list"
  at_Memo :: "bytes option"
  at_InputTotals :: AssetTokenCounts
  at_OutputTotals :: AssetTokenCounts
  at_ReusedAddressTotals :: AssetTokenCounts
  at_CanonicalSerialization :: "bytes option"
  at_CreatedAt :: gotime
  at_Txfee :: u64
  at_Genesis :: bool
  at_Rewarded :: bool
  at_RewardedTime :: "gotime option"
  at_Epoch :: u64
  at_VertexID :: string
  at_ValidatorNodeID :: string
  at_ValidatorStart :: u64
  at_ValidatorEnd :: u64
  at_TxBlockID :: string
  at_Proposer :: "PvmProposerModel option"
  at_Score :: u64

definition tx_of_row :: "row \<Rightarrow> ApiTransaction" where
  "tx_of_row r = \<lparr>
     at_ID = getS r ''id'', at_ChainID = getS r ''chain_id'', at_Type = getS r ''type'', at_Inputs = [], at_Outputs = [],
     at_Memo = getB r ''memo'', at_InputTotals = Map.empty, at_OutputTotals = Map.empty,
     at_ReusedAddressTotals = Map.empty, at_CanonicalSerialization = getB r ''canonical_serialization'', at_CreatedAt = getT r ''created_at'',
     at_Txfee = getW r ''txfee'', at_Genesis = getBool r ''genesis'', at_Rewarded = False, at_RewardedTime = None,
     at_Epoch = getW r ''epoch'', at_VertexID = getS r ''vertex_id'', at_ValidatorNodeID = getS r ''validator_node_id'',
     at_ValidatorStart = getW r ''validator_start'', at_ValidatorEnd = getW r ''validator_end'',
     at_TxBlockID = getS r ''tx_block_id'', at_Proposer = None, at_Score = 0\<rparr>"

section \<open>The query of transactions, reader.go\<close>

definition transactionQuery :: "tables \<Rightarrow> row list" where
  "transactionQuery T =
     q_left_join T ''transactions_block'' (eq_cols ''avm_transactions.id'' ''transactions_block.id'')
       (q_left_join T ''transactions_validator'' (eq_cols ''avm_transactions.id'' ''transactions_validator.id'')
         (q_left_join T ''transactions_epoch'' (eq_cols ''avm_transactions.id'' ''transactions_epoch.id'')
           (q_from ''avm_transactions'' T)))"

definition transactionColumns :: "(row \<Rightarrow> string \<times> dbval option) list" where
  "transactionColumns =
     [sel ''avm_transactions.id'' ''id'', sel ''avm_transactions.chain_id'' ''chain_id'', sel ''avm_transactions.type'' ''type'',
      sel ''avm_transactions.memo'' ''memo'', sel ''avm_transactions.created_at'' ''created_at'',
      sel ''avm_transactions.txfee'' ''txfee'', sel ''avm_transactions.genesis'' ''genesis'',
      sel_or ''transactions_epoch.epoch'' (VI 0) ''epoch'', sel_or ''transactions_epoch.vertex_id'' (VS []) ''vertex_id'',
      sel_or ''transactions_validator.node_id'' (VS []) ''validator_node_id'',
      sel_or ''transactions_validator.start'' (VI 0) ''validator_start'', sel_or ''transactions_validator.end'' (VI 0) ''validator_end'',
      sel_or ''transactions_block.tx_block_id'' (VS []) ''tx_block_id'']"

text \<open>\<open>order by avm_transactions.created_at, avm_transactions.chain_id\<close>\<close>

definition tx_order :: "query_conn \<Rightarrow> row \<Rightarrow> int \<times> nat list" where
  "tx_order conn r = (getT r ''avm_transactions.created_at'', qc_weight conn (getS r ''avm_transactions.chain_id''))"

text \<open>The rows that \<open>InsertTransactions\<close> writes.\<close>

definition tx_rows_ok :: "tables \<Rightarrow> bool" where
  "tx_rows_ok T \<longleftrightarrow> (\<forall>r \<in> set (T TableTransactions). \<exists>v. r = new_row TableTransactions (Transactions_cols v))"

lemma new_tx_row:
  "new_row TableTransactions (Transactions_cols v) ''id'' = Some (VS (Transactions_ID v))"
  "new_row TableTransactions (Transactions_cols v) ''chain_id'' = Some (VS (Transactions_ChainID v))"
  "new_row TableTransactions (Transactions_cols v) ''created_at'' = Some (VT (Transactions_CreatedAt v))"
  "new_row TableTransactions (Transactions_cols v) ''txfee'' = Some (VI (uint (Transactions_Txfee v)))"
  by (simp_all add: new_row_def norm_pairs_def Transactions_cols_def ToLower_def lower_char_def)

lemma tx_from_row:
  assumes "tx_rows_ok T" "r \<in> set (q_from ''avm_transactions'' T)"
  obtains i c t where "r ''avm_transactions.id'' = Some (VS i)" "r ''avm_transactions.chain_id'' = Some (VS c)"
    "r ''avm_transactions.created_at'' = Some (VT t)"
proof -
  obtain v where "r = qualify ''avm_transactions'' (new_row TableTransactions (Transactions_cols v))"
    using assms by (auto simp: tx_rows_ok_def q_from_def)
  then have "r (''avm_transactions'' @ ''.'' @ ''id'') = Some (VS (Transactions_ID v))"
    "r (''avm_transactions'' @ ''.'' @ ''chain_id'') = Some (VS (Transactions_ChainID v))"
    "r (''avm_transactions'' @ ''.'' @ ''created_at'') = Some (VT (Transactions_CreatedAt v))"
    by (simp_all only: qualify_at new_tx_row)
  then show thesis by (intro that) auto
qed

section \<open>Lists of transactions in memory\<close>

text \<open>The three fields are set together, under the lock; nil is \<open>None\<close>. \<open>TxsByChain\<close> and \<open>TxsMap\<close> are computed by \<open>Set\<close>.\<close>

record ReaderAggregateTxList =
  rt_Txs :: "ApiTransaction list option"
  rt_TxsMap :: "(string \<rightharpoonup> ApiTransaction) option"
  rt_TxsByChain :: "(string \<rightharpoonup> ApiTransaction list) option"

definition empty_TxList :: ReaderAggregateTxList where
  "empty_TxList = \<lparr>rt_Txs = None, rt_TxsMap = None, rt_TxsByChain = None\<rparr>"

definition TxList_IsProcessed :: "ReaderAggregateTxList \<Rightarrow> bool" where
  "TxList_IsProcessed t \<longleftrightarrow> rt_Txs t \<noteq> None"

definition TxList_Get :: "ReaderAggregateTxList \<Rightarrow> string \<Rightarrow> ApiTransaction option" where
  "TxList_Get t tx = (case rt_TxsMap t of Some m \<Rightarrow> m tx | None \<Rightarrow> None)"

text \<open>\<open>First\<close> reads \<open>t.Txs[0]\<close>: \<open>None\<close> is the panic on an empty list that is not nil.\<close>

definition TxList_First :: "ReaderAggregateTxList \<Rightarrow> ApiTransaction option option" where
  "TxList_First t = (case rt_Txs t of None \<Rightarrow> Some None | Some [] \<Rightarrow> None | Some (tx # _) \<Rightarrow> Some (Some tx))"

definition add_by_chain :: "ApiTransaction \<Rightarrow> (string \<rightharpoonup> ApiTransaction list) \<Rightarrow> (string \<rightharpoonup> ApiTransaction list)" where
  "add_by_chain tx m =
     (let m = (if m (at_ChainID tx) = None then m(at_ChainID tx \<mapsto> []) else m)
      in m(at_ChainID tx \<mapsto> the (m (at_ChainID tx)) @ [tx]))"

definition TxList_Set :: "ApiTransaction list option \<Rightarrow> ReaderAggregateTxList \<Rightarrow> ReaderAggregateTxList" where
  "TxList_Set txs t =
     (case txs of
        None \<Rightarrow> t\<lparr>rt_Txs := None, rt_TxsMap := None, rt_TxsByChain := None\<rparr>
      | Some l \<Rightarrow>
          t\<lparr>rt_Txs := Some l, rt_TxsMap := Some (fold (\<lambda>tx m. m(at_ID tx \<mapsto> tx)) l Map.empty),
            rt_TxsByChain := Some (fold add_by_chain l Map.empty)\<rparr>)"

definition prefix_of_length :: "int \<Rightarrow> ApiTransaction list \<Rightarrow> ApiTransaction list option" where
  "prefix_of_length limit txs = (if limit \<le> int (length txs) then Some (take (nat limit) txs) else None)"

definition TxList_FindTxs :: "ReaderAggregateTxList \<Rightarrow> string list \<Rightarrow> int \<Rightarrow> ApiTransaction list option" where
  "TxList_FindTxs t chainIDs limit =
     (case chainIDs of
        [chainID] \<Rightarrow>
          (case rt_TxsByChain t of
             None \<Rightarrow> None
           | Some m \<Rightarrow> (case m chainID of None \<Rightarrow> None | Some txs \<Rightarrow> prefix_of_length limit txs))
      | [] \<Rightarrow> (case rt_Txs t of None \<Rightarrow> None | Some txs \<Rightarrow> prefix_of_length limit txs)
      | _ \<Rightarrow> None)"

text \<open>The three fields agree: both indexes are those of the list.\<close>

definition TxList_wf :: "ReaderAggregateTxList \<Rightarrow> bool" where
  "TxList_wf t \<longleftrightarrow>
     (case rt_Txs t of
        None \<Rightarrow> rt_TxsMap t = None \<and> rt_TxsByChain t = None
      | Some l \<Rightarrow>
          (\<exists>m b. rt_TxsMap t = Some m \<and> rt_TxsByChain t = Some b
            \<and> (\<forall>i. m i = List.find (\<lambda>tx. at_ID tx = i) (rev l))
            \<and> (\<forall>c. (case b c of None \<Rightarrow> [] | Some xs \<Rightarrow> xs) = filter (\<lambda>tx. at_ChainID tx = c) l)))"

lemma fold_by_id:
  "fold (\<lambda>tx m. m(at_ID tx \<mapsto> tx)) l m i = (case List.find (\<lambda>tx. at_ID tx = i) (rev l) of None \<Rightarrow> m i | Some tx \<Rightarrow> Some tx)"
  by (induction l arbitrary: m rule: rev_induct) (auto split: option.splits)

lemma add_by_chain_at:
  "(case add_by_chain tx m c of None \<Rightarrow> [] | Some xs \<Rightarrow> xs) = (case m c of None \<Rightarrow> [] | Some xs \<Rightarrow> xs) @ (if at_ChainID tx = c then [tx] else [])"
  by (auto simp: add_by_chain_def Let_def split: option.splits)

lemma fold_by_chain:
  "(case fold add_by_chain l m c of None \<Rightarrow> [] | Some xs \<Rightarrow> xs)
    = (case m c of None \<Rightarrow> [] | Some xs \<Rightarrow> xs) @ filter (\<lambda>tx. at_ChainID tx = c) l"
  by (induction l arbitrary: m) (auto simp: add_by_chain_at)

lemma TxList_Set_wf: "TxList_wf (TxList_Set txs t)"
proof (cases txs)
  case (Some l)
  have "fold (\<lambda>tx m. m(at_ID tx \<mapsto> tx)) l Map.empty i = List.find (\<lambda>tx. at_ID tx = i) (rev l)" for i
    by (simp add: fold_by_id split: option.splits)
  moreover have "(case fold add_by_chain l Map.empty c of None \<Rightarrow> [] | Some xs \<Rightarrow> xs) = filter (\<lambda>tx. at_ChainID tx = c) l" for c
    by (simp add: fold_by_chain)
  ultimately show ?thesis using Some by (simp add: TxList_wf_def TxList_Set_def)
qed (simp add: TxList_wf_def TxList_Set_def)

text \<open>A page that is found is the page of the list, of the chain that is asked for.\<close>

lemma FindTxs_page:
  assumes "TxList_wf t" "TxList_FindTxs t chainIDs limit = Some txs" "limit > 0"
  shows "\<exists>l. rt_Txs t = Some l \<and> txs = take (nat limit) (filter (\<lambda>tx. chainIDs = [] \<or> at_ChainID tx \<in> set chainIDs) l)
    \<and> length txs = nat limit"
proof -
  have short: "length chainIDs \<le> 1" using assms(2) by (auto simp: TxList_FindTxs_def split: list.splits)
  obtain l m b where l: "rt_Txs t = Some l" "rt_TxsMap t = Some m" "rt_TxsByChain t = Some b"
    and b: "\<And>c. (case b c of None \<Rightarrow> [] | Some xs \<Rightarrow> xs) = filter (\<lambda>tx. at_ChainID tx = c) l"
    using assms(1,2) by (auto simp: TxList_wf_def TxList_FindTxs_def split: option.splits list.splits)
  show ?thesis
  proof (cases chainIDs)
    case Nil
    then show ?thesis using assms(2,3) l by (auto simp: TxList_FindTxs_def prefix_of_length_def split: if_splits)
  next
    case (Cons c cs)
    with short have "chainIDs = [c]" by simp
    moreover obtain xs where "b c = Some xs" using assms(2) l calculation by (auto simp: TxList_FindTxs_def split: option.splits)
    ultimately show ?thesis using assms(2,3) l b [of c] by (auto simp: TxList_FindTxs_def prefix_of_length_def split: if_splits)
  qed
qed

section \<open>The reader\<close>

record ReaderAggregate =
  ra_txDesc :: ReaderAggregateTxList
  ra_txAsc :: ReaderAggregateTxList

text \<open>What a reader is configured with and the libraries it calls. The order in which \<open>range\<close> visits the keys of a map
  of the request is not specified: \<open>rv_range\<close> gives it.\<close>

record reader_env =
  rv_lib :: extlib
  rv_params :: paramlib
  rv_IsAggregateCache :: bool
  rv_IsAccumulateBalanceReader :: bool
  rv_Chains :: "string list"
  rv_AxcAssetID :: ID
  rv_SwapChainID :: ID
  rv_range :: "url_values \<Rightarrow> string list"
  rv_Bech32HRP :: string

text \<open>\<open>MarshalString\<close> of an address, \<open>src/models/primitives.go\<close>.\<close>

definition Address_MarshalString :: "reader_env \<Rightarrow> string \<Rightarrow> go_error + string" where
  "Address_MarshalString rv addr =
     res_bind (ids_ShortFromString (rv_params rv) addr) (\<lambda>i. FormatBech32 (rv_lib rv) (rv_Bech32HRP rv) i)"

definition count_of :: "int \<Rightarrow> nat \<Rightarrow> u64" where
  "count_of offset n = word_of_int offset + word_of_nat n"

end
