(* ===== verification/ReaderTxs.thy ===== *)
theory ReaderTxs
  imports ReaderModels
begin

text \<open>
  The lists of transactions of the API, \<open>src/services/indexes/axc/reader_list_txs.go\<close>: which transactions a request
  selects, the page of them that is returned, from memory or from the database, the inputs, outputs, totals and
  rewards that are added to each (\<open>dressTransactions\<close>), and the link to the next page.

  The maps of the code that are only looked up are maps; those that are ranged over are association lists, in the order
  in which keys were added. The code does not fix an order there, and the theorems do not mention one. The records
  that the maps of inputs and outputs point to are changed only by setting \<open>Addresses\<close>, which depends on the id of the
  output: the model sets it when the record is put into the transaction.
\<close>

section \<open>Which transactions\<close>

definition in_numbers :: "row \<Rightarrow> string \<Rightarrow> u64 list \<Rightarrow> bool" where
  "in_numbers r c xs = (case r c of Some (VI i) \<Rightarrow> i \<in> set (map uint xs) | _ \<Rightarrow> False)"

definition assetCheck :: "extlib \<Rightarrow> ListTransactionsParams \<Rightarrow> ID \<Rightarrow> row \<Rightarrow> bool" where
  "assetCheck lib p assetID r \<longleftrightarrow>
     where_holds r (WhereEq ''avm_outputs.asset_id'' (ID_String lib assetID))
   \<and> (lt_OutputOutputTypes p \<noteq> [] \<longrightarrow> in_numbers r ''avm_outputs.output_type'' (lt_OutputOutputTypes p))
   \<and> (lt_OutputGroupIDs p \<noteq> [] \<longrightarrow> in_numbers r ''avm_outputs.group_id'' (lt_OutputGroupIDs p))"

definition address_subquery :: "extlib \<Rightarrow> ListTransactionsParams \<Rightarrow> tables \<Rightarrow> dbval option list" where
  "address_subquery lib p T =
     (let addrs = map (ShortID_String lib) (lt_Addresses p);
          rows = filter (\<lambda>r. in_texts r ''avm_output_addresses.address'' addrs)
            (q_left_join T ''avm_output_addresses'' (eq_cols ''avm_outputs.id'' ''avm_output_addresses.output_id'') (q_from ''avm_outputs'' T));
          rows = (case lt_AssetID p of None \<Rightarrow> rows | Some a \<Rightarrow> filter (assetCheck lib p a) rows)
      in map (\<lambda>r. r ''avm_outputs.transaction_id'') rows)"

definition address_subqueryRedeem :: "extlib \<Rightarrow> ListTransactionsParams \<Rightarrow> tables \<Rightarrow> dbval option list" where
  "address_subqueryRedeem lib p T =
     (let addrs = map (ShortID_String lib) (lt_Addresses p);
          rows = filter (\<lambda>r. \<not> is_null r ''avm_outputs_redeeming.redeeming_transaction_id'' \<and> in_texts r ''avm_output_addresses.address'' addrs)
            (q_left_join T ''avm_output_addresses'' (eq_cols ''avm_outputs_redeeming.id'' ''avm_output_addresses.output_id'')
               (q_from ''avm_outputs_redeeming'' T))
      in map (\<lambda>r. r ''avm_outputs_redeeming.redeeming_transaction_id'') rows)"

definition tx_where :: "extlib \<Rightarrow> ListTransactionsParams \<Rightarrow> row \<Rightarrow> bool" where
  "tx_where lib p r \<longleftrightarrow>
     (let l = lt_ListParams p in
       (case lp_ID l of None \<Rightarrow> True | Some i \<Rightarrow> where_holds r (WhereEq ''avm_transactions.id'' (ID_String lib i)))
     \<and> (lp_Query l \<noteq> [] \<longrightarrow> where_holds r (WhereLike ''avm_transactions.id'' (lp_Query l @ ''%'')))
     \<and> (lp_StartTimeProvided l \<and> lp_StartTime l \<noteq> zero_time \<longrightarrow> where_holds r (WhereGe ''avm_transactions.created_at'' (lp_StartTime l)))
     \<and> (lp_EndTimeProvided l \<and> lp_EndTime l \<noteq> zero_time \<longrightarrow> where_holds r (WhereLt ''avm_transactions.created_at'' (lp_EndTime l)))
     \<and> (lt_ChainIDs p \<noteq> [] \<longrightarrow> where_holds r (WhereIn ''avm_transactions.chain_id'' (lt_ChainIDs p))))"

definition listTxsQuery :: "extlib \<Rightarrow> ListTransactionsParams \<Rightarrow> tables \<Rightarrow> row list \<Rightarrow> row list" where
  "listTxsQuery lib p T rows =
     (if lt_Addresses p \<noteq> []
      then
        (let sub = address_subquery lib p T @ address_subqueryRedeem lib p T
         in filter (\<lambda>r. tx_where lib p r \<and> \<not> is_null r ''avm_transactions.id'' \<and> r ''avm_transactions.id'' \<in> set sub) rows)
      else
        (case lt_AssetID p of
           None \<Rightarrow> filter (tx_where lib p) rows
         | Some a \<Rightarrow> filter (\<lambda>r. tx_where lib p r \<and> assetCheck lib p a r)
             (q_join T ''avm_outputs'' (eq_cols ''avm_transactions.id'' ''avm_outputs.transaction_id'') rows)))"

definition applySort :: "query_conn \<Rightarrow> ListTransactionsParams \<Rightarrow> row list \<Rightarrow> row list" where
  "applySort conn p rows =
     (if lp_Query (lt_ListParams p) \<noteq> [] then rows
      else if lt_Sort p = TransactionSortTimestampDesc then q_order_desc (tx_order conn) rows
      else q_order (tx_order conn) rows)"

section \<open>The page\<close>

definition listTxFromCache :: "reader_env \<Rightarrow> ReaderAggregate \<Rightarrow> ListTransactionsParams \<Rightarrow> ApiTransaction option" where
  "listTxFromCache rv ra p =
     (let l = lt_ListParams p in
      if \<not> rv_IsAggregateCache rv then None
      else if rv_range rv (lp_Values l) \<noteq> [] then None
      else (case lp_ID l of
              None \<Rightarrow> None
            | Some i \<Rightarrow>
                (case TxList_Get (ra_txDesc ra) (ID_String (rv_lib rv) i) of
                   Some tx \<Rightarrow> Some tx
                 | None \<Rightarrow> TxList_Get (ra_txAsc ra) (ID_String (rv_lib rv) i))))"

definition cache_keys :: "string list" where
  "cache_keys = [KeySortBy, KeyLimit, KeyOffset, KeyDisableCount, KeyChainID]"

definition listTxsFromCache :: "reader_env \<Rightarrow> ReaderAggregate \<Rightarrow> ListTransactionsParams \<Rightarrow> ApiTransaction list option" where
  "listTxsFromCache rv ra p =
     (let l = lt_ListParams p in
      if \<not> rv_IsAggregateCache rv \<or> lp_Limit l = 0 \<or> lp_Offset l \<noteq> 0 then None
      else
        (let txl = (if lt_Sort p = TransactionSortTimestampDesc then ra_txDesc ra else ra_txAsc ra) in
         if \<not> TxList_IsProcessed txl then None
         else if \<not> list_all (\<lambda>key. key \<in> set cache_keys) (rv_range rv (lp_Values l)) then None
         else TxList_FindTxs txl (lt_ChainIDs p) (lp_Limit l)))"

definition page_of :: "ListParams \<Rightarrow> 'a list \<Rightarrow> 'a list" where
  "page_of l rows =
     q_limit (if lp_Limit l \<noteq> 0 then Some (word_of_int (lp_Limit l)) else None)
       (q_offset (if lp_Offset l \<noteq> 0 then Some (word_of_int (lp_Offset l)) else None) rows)"

text \<open>The query of the page: the ids in a subquery with the limit and the offset, joined with the transactions.\<close>

definition page_query :: "extlib \<Rightarrow> query_conn \<Rightarrow> ListTransactionsParams \<Rightarrow> tables \<Rightarrow> row list" where
  "page_query lib conn p T =
     (let builderBase = page_of (lt_ListParams p) (applySort conn p (listTxsQuery lib p T (q_from ''avm_transactions'' T)));
          sub = map (\<lambda>r. (\<lambda>c. if c = ''avm_transactions_id.id'' then r ''avm_transactions.id'' else None)) builderBase
      in q_select transactionColumns
           (applySort conn p (q_join_rows sub (eq_cols ''avm_transactions.id'' ''avm_transactions_id.id'') (transactionQuery T))))"

definition asset_query :: "extlib \<Rightarrow> query_conn \<Rightarrow> ListTransactionsParams \<Rightarrow> tables \<Rightarrow> row list" where
  "asset_query lib conn p T =
     q_select transactionColumns (take 100000 (applySort conn p (listTxsQuery lib p T (transactionQuery T))))"

text \<open>The loop over the iterator. A transaction comes once for each of its outputs of the asset. An error that ends the
  iterator is not looked at: \<open>Err\<close> is only called after \<open>Next\<close> has returned true.\<close>

fun page_loop :: "int \<Rightarrow> int \<Rightarrow> ApiTransaction list \<Rightarrow> string list \<Rightarrow> ApiTransaction list \<Rightarrow> string list \<Rightarrow> ApiTransaction list" where
  "page_loop limit offset [] txsmoffset txs txsm = txs"
| "page_loop limit offset (tx # rest) txsmoffset txs txsm =
     (if offset > 0 \<and> int (length txsmoffset) < offset
      then page_loop limit offset rest (List.insert (at_ID tx) txsmoffset) txs txsm
      else if at_ID tx \<in> set txsmoffset then page_loop limit offset rest txsmoffset txs txsm
      else
        (let (txs, txsm) = (if at_ID tx \<in> set txsm then (txs, txsm) else (txs @ [tx], List.insert (at_ID tx) txsm))
         in if limit > 0 \<and> int (length txsm) \<ge> limit then txs else page_loop limit offset rest txsmoffset txs txsm))"

definition listTxs :: "reader_env \<Rightarrow> query_conn \<Rightarrow> ReaderAggregate \<Rightarrow> ListTransactionsParams \<Rightarrow> (dbstate, ApiTransaction list \<times> bool) go" where
  "listTxs rv conn ra p =
     (case (if lp_ID (lt_ListParams p) \<noteq> None then listTxFromCache rv ra p else None) of
        Some tx \<Rightarrow> go_return ([tx], True)
      | None \<Rightarrow>
          if lt_Addresses p \<noteq> [] \<or> (lt_AssetID p = None \<and> lt_Addresses p = [])
          then
            (case listTxsFromCache rv ra p of
               Some txsAggr \<Rightarrow> go_return (txsAggr, True)
             | None \<Rightarrow> go_bind (qc_load conn (page_query (rv_lib rv) conn p)) (\<lambda>rows. go_return (map tx_of_row rows, False)))
          else
            go_bind (qc_iterate conn (asset_query (rv_lib rv) conn p)) (\<lambda>(rows, _).
              go_return (page_loop (lp_Limit (lt_ListParams p)) (lp_Offset (lt_ListParams p)) (map tx_of_row rows) [] [] [], False)))"

section \<open>Dressing\<close>

record compositeRecord =
  cr_Output :: ApiOutput
  cr_OutputID :: string
  cr_Address :: string
  cr_Signature :: bytes
  cr_PublicKey :: bytes

definition bytes_or_nil :: "row \<Rightarrow> string \<Rightarrow> bytes" where
  "bytes_or_nil r c = (case getB r c of None \<Rightarrow> [] | Some b \<Rightarrow> b)"

definition composite_of_row :: "row \<Rightarrow> compositeRecord" where
  "composite_of_row r = \<lparr>cr_Output = output_of_row r, cr_OutputID = getS r ''output_id'', cr_Address = getS r ''address'',
     cr_Signature = bytes_or_nil r ''signature'', cr_PublicKey = bytes_or_nil r ''public_key''\<rparr>"

definition output_columns :: "bool \<Rightarrow> (row \<Rightarrow> string \<times> dbval option) list" where
  "output_columns redeem =
     (let tbl = (if redeem then ''avm_outputs_redeeming'' else ''avm_outputs'') in
      [sel (tbl @ ''.id'') ''id'',
       (if \<not> redeem then sel ''avm_outputs.transaction_id'' ''transaction_id'' else sel ''avm_outputs_redeeming.intx'' ''transaction_id''),
       sel (tbl @ ''.output_index'') ''output_index'', sel (tbl @ ''.asset_id'') ''asset_id'',
       sel_or ''avm_outputs.output_type'' (VI 0) ''output_type'', sel (tbl @ ''.amount'') ''amount'',
       sel_or ''avm_outputs.locktime'' (VI 0) ''locktime'', sel_or ''avm_outputs.stake_locktime'' (VI 0) ''stake_locktime'',
       sel_or ''avm_outputs.threshold'' (VI 0) ''threshold'', sel (tbl @ ''.created_at'') ''created_at'',
       sel_or ''avm_outputs_redeeming.redeeming_transaction_id'' (VS []) ''redeeming_transaction_id'',
       sel_or ''avm_outputs.group_id'' (VI 0) ''group_id'', sel_or ''avm_output_addresses.output_id'' (VS []) ''output_id'',
       sel_or ''avm_output_addresses.address'' (VS []) ''address'', sel ''avm_output_addresses.redeeming_signature'' ''signature'',
       sel ''addresses.public_key'' ''public_key'', sel (tbl @ ''.chain_id'') ''chain_id'',
       sel_or ''avm_outputs.chain_id'' (VS []) ''out_chain_id'', sel_or ''avm_outputs_redeeming.chain_id'' (VS []) ''in_chain_id'',
       sel_or ''avm_outputs.payload'' (VBytes (Some [])) ''payload'', sel_or ''avm_outputs.stake'' (VI 0) ''stake'',
       sel_or ''avm_outputs.stakeableout'' (VI 0) ''stakeableout'', sel_or ''avm_outputs.genesisutxo'' (VI 0) ''genesisutxo'',
       sel_or ''avm_outputs.frozen'' (VI 0) ''frozen'',
       (\<lambda>r. (''reward_utxo'', Some (VI (if is_null r ''transactions_rewards_owners_outputs.id'' then 0 else 1))))])"

definition selectOutputs :: "bool \<Rightarrow> tables \<Rightarrow> row list" where
  "selectOutputs redeem T =
     (let tbl = (if redeem then ''avm_outputs_redeeming'' else ''avm_outputs'');
          other = (if redeem then ''avm_outputs'' else ''avm_outputs_redeeming'')
      in q_left_join T ''addresses'' (eq_cols ''addresses.address'' ''avm_output_addresses.address'')
           (q_left_join T ''transactions_rewards_owners_outputs'' (eq_cols (tbl @ ''.id'') ''transactions_rewards_owners_outputs.id'')
             (q_left_join T ''avm_output_addresses'' (eq_cols (tbl @ ''.id'') ''avm_output_addresses.output_id'')
               (q_left_join T other (eq_cols (tbl @ ''.id'') (other @ ''.id'')) (q_from tbl T)))))"

text \<open>The two queries of \<open>collectInsAndOuts\<close>: the outputs that the transactions create or spend, and the inputs whose
  outputs are not stored.\<close>

definition outs_query :: "string list \<Rightarrow> tables \<Rightarrow> row list" where
  "outs_query txIDs T =
     (let s1_0 = map (\<lambda>r. r ''avm_outputs.id'') (filter (\<lambda>r. in_texts r ''avm_outputs.transaction_id'' txIDs) (q_from ''avm_outputs'' T));
          s1_1 = map (\<lambda>r. r ''avm_outputs_redeeming.id'')
            (filter (\<lambda>r. in_texts r ''avm_outputs_redeeming.redeeming_transaction_id'' txIDs) (q_from ''avm_outputs_redeeming'' T));
          union_q_x = map (\<lambda>v c. if c = ''union_q_x.id'' then v else None) (remdups (s1_0 @ s1_1))
      in q_select (output_columns False) (q_join_rows union_q_x (eq_cols ''union_q_x.id'' ''avm_outputs.id'') (selectOutputs False T)))"

definition missing_query :: "string list \<Rightarrow> tables \<Rightarrow> row list" where
  "missing_query txIDs T =
     (let s2 = map (\<lambda>r. r ''avm_outputs.id'')
            (filter (\<lambda>r. in_texts r ''avm_outputs_redeeming.redeeming_transaction_id'' txIDs)
              (q_join T ''avm_outputs'' (eq_cols ''avm_outputs.id'' ''avm_outputs_redeeming.id'') (q_from ''avm_outputs_redeeming'' T)))
      in q_select (output_columns True)
           (filter (\<lambda>r. in_texts r ''avm_outputs_redeeming.redeeming_transaction_id'' txIDs \<and> r ''avm_outputs_redeeming.id'' \<notin> set s2)
             (selectOutputs True T)))"

definition collectInsAndOuts :: "query_conn \<Rightarrow> string list \<Rightarrow> (dbstate, compositeRecord list) go" where
  "collectInsAndOuts conn txIDs =
     go_bind (qc_load conn (outs_query txIDs)) (\<lambda>outputs.
     go_bind (qc_load conn (missing_query txIDs)) (\<lambda>outputs2.
       go_return (map composite_of_row outputs @ map composite_of_row outputs2)))"

definition newPvmProposerModel :: "PvmProposer \<Rightarrow> PvmProposerModel" where
  "newPvmProposerModel v = \<lparr>pm_ID = PvmProposer_ID v, pm_ParentID = PvmProposer_ParentID v, pm_CoreChainHeight = PvmProposer_CoreChainHeight v,
     pm_Proposer = PvmProposer_Proposer v, pm_TimeStamp = PvmProposer_TimeStamp v\<rparr>"

definition resolveProposers :: "query_conn \<Rightarrow> string list \<Rightarrow> (dbstate, string \<rightharpoonup> PvmProposerModel) go" where
  "resolveProposers conn properIds =
     (if properIds = [] then go_return Map.empty
      else go_bind (qc_load conn (\<lambda>T. filter (\<lambda>r. in_texts r ''blk_id'' properIds) (T TablePvmProposer))) (\<lambda>rows.
        go_return (fold (\<lambda>r m. m(PvmProposer_BlkID (row_of_PvmProposer r) \<mapsto> newPvmProposerModel (row_of_PvmProposer r))) rows Map.empty)))"

record rewardsTypeModel =
  rm_Txid :: string
  rm_Type :: BlockType
  rm_CreatedAt :: gotime

definition rewarded_query :: "string list \<Rightarrow> tables \<Rightarrow> row list" where
  "rewarded_query txIDs T =
     filter (\<lambda>r. in_texts r ''rewards.txid'' txIDs \<and> in_numbers r ''pvm_blocks.type'' [ucast BlockTypeAbort, ucast BlockTypeCommit])
       (q_left_join T ''pvm_blocks'' (eq_cols ''rewards.block_id'' ''pvm_blocks.parent_id'') (q_from ''rewards'' T))"

definition resolveRewarded :: "query_conn \<Rightarrow> string list \<Rightarrow> (dbstate, string \<rightharpoonup> rewardsTypeModel) go" where
  "resolveRewarded conn txIDs =
     go_bind (qc_load conn (rewarded_query txIDs)) (\<lambda>rows.
       go_return (fold (\<lambda>r m. let rt = \<lparr>rm_Txid = getS r ''rewards.txid'', rm_Type = getW r ''pvm_blocks.type'', rm_CreatedAt = getT r ''pvm_blocks.created_at''\<rparr>
          in m(rm_Txid rt \<mapsto> rt)) rows Map.empty))"

record CvmOutput =
  co_Type :: AXChainType
  co_TransactionType :: AXChainType
  co_Idx :: u64
  co_Amount :: string
  co_Nonce :: u64
  co_ID :: string
  co_TransactionID :: string
  co_Address :: string
  co_AssetID :: string
  co_CreatedAt :: gotime
  co_ChainID :: string
  co_Block :: string

definition cvm_query :: "string list \<Rightarrow> tables \<Rightarrow> row list" where
  "cvm_query txIDs T =
     filter (\<lambda>r. in_texts r ''cvm_addresses.transaction_id'' txIDs)
       (q_join T ''cvm_transactions'' (eq_cols ''cvm_addresses.transaction_id'' ''cvm_transactions.transaction_id'') (q_from ''cvm_addresses'' T))"

definition cvm_of_row :: "row \<Rightarrow> CvmOutput" where
  "cvm_of_row r = \<lparr>co_Type = getW r ''cvm_addresses.type'', co_TransactionType = getW r ''cvm_transactions.type'',
     co_Idx = getW r ''cvm_addresses.idx'', co_Amount = getS r ''cvm_addresses.amount'', co_Nonce = getW r ''cvm_addresses.nonce'',
     co_ID = getS r ''cvm_addresses.id'', co_TransactionID = getS r ''cvm_addresses.transaction_id'', co_Address = getS r ''cvm_addresses.address'',
     co_AssetID = getS r ''cvm_addresses.asset_id'', co_CreatedAt = getT r ''cvm_addresses.created_at'',
     co_ChainID = getS r ''cvm_transactions.blockchain_id'', co_Block = getS r ''cvm_transactions.block''\<rparr>"

definition zero_ApiOutput :: ApiOutput where
  "zero_ApiOutput = output_of_row Map.empty"

definition mapOutput :: "CvmOutput \<Rightarrow> ApiOutput" where
  "mapOutput a =
     (let o1 = zero_ApiOutput\<lparr>ao_TransactionID := co_TransactionID a, ao_ID := co_ID a, ao_OutputIndex := co_Idx a, ao_AssetID := co_AssetID a,
            ao_Amount := co_Amount a, ao_ChainID := co_ChainID a, ao_CreatedAt := co_CreatedAt a\<rparr>;
          o2 = (if co_TransactionType a = AXChainExport then o1\<lparr>ao_OutputType := OutputTypesAtomicExportTx\<rparr>
                else if co_TransactionType a = AXChainImport then o1\<lparr>ao_OutputType := OutputTypesAtomicImportTx\<rparr> else o1)
      in o2\<lparr>ao_CAddresses := [co_Address a], ao_Nonce := co_Nonce a, ao_Block := co_Block a\<rparr>)"

text \<open>The two maps of \<open>collectCvmTransactions\<close>, with the absent key as the empty list.\<close>

definition collectCvmTransactions :: "query_conn \<Rightarrow> string list \<Rightarrow> (dbstate, (string \<Rightarrow> ApiOutput list) \<times> (string \<Rightarrow> ApiOutput list)) go" where
  "collectCvmTransactions conn txIDs =
     go_bind (qc_load conn (cvm_query txIDs)) (\<lambda>rows.
       go_return (fold (\<lambda>a (ins, outs).
          if co_Type a = AXChainIn then (ins(co_TransactionID a := ins (co_TransactionID a) @ [mapOutput a]), outs)
          else if co_Type a = AXchainOut then (ins, outs(co_TransactionID a := outs (co_TransactionID a) @ [mapOutput a]))
          else (ins, outs)) (map cvm_of_row rows) ((\<lambda>_. []), (\<lambda>_. []))))"

record dress_maps =
  dm_outputAddrs :: "string \<Rightarrow> string list"
  dm_inputs :: "string \<Rightarrow> (string \<times> ApiInput) list"
  dm_outputs :: "string \<Rightarrow> (string \<times> ApiOutput) list"
  dm_inputTotals :: "string \<Rightarrow> string \<rightharpoonup> int"
  dm_outputTotals :: "string \<Rightarrow> string \<rightharpoonup> int"

definition empty_maps :: dress_maps where
  "empty_maps = \<lparr>dm_outputAddrs = (\<lambda>_. []), dm_inputs = (\<lambda>_. []), dm_outputs = (\<lambda>_. []), dm_inputTotals = (\<lambda>_. Map.empty),
     dm_outputTotals = (\<lambda>_. Map.empty)\<rparr>"

definition addToBigIntMap :: "(string \<rightharpoonup> int) \<Rightarrow> string \<Rightarrow> int \<Rightarrow> (string \<rightharpoonup> int)" where
  "addToBigIntMap m assetID amt =
     (let prevAmt = (case m assetID of None \<Rightarrow> 0 | Some a \<Rightarrow> a) in m(assetID \<mapsto> amt + prevAmt))"

definition collect_output :: "compositeRecord \<Rightarrow> dress_maps \<Rightarrow> go_error + dress_maps" where
  "collect_output output dm =
     (let out = cr_Output output in
      case big_SetString (ao_Amount out) of
        None \<Rightarrow> Inl (ErrorString ''invalid amount'')
      | Some bigAmt \<Rightarrow>
          Inr \<lparr>dm_outputAddrs = (dm_outputAddrs dm)(ao_ID out := (let as = dm_outputAddrs dm (ao_ID out) in
                 if cr_Address output \<in> set as then as else as @ [cr_Address output])),
            dm_inputs = (dm_inputs dm)(ao_RedeemingTransactionID out :=
                 AList.update (ao_ID out) \<lparr>ai_Output = out, ai_Creds = []\<rparr> (dm_inputs dm (ao_RedeemingTransactionID out))),
            dm_outputs = (dm_outputs dm)(ao_TransactionID out := AList.update (ao_ID out) out (dm_outputs dm (ao_TransactionID out))),
            dm_inputTotals = (dm_inputTotals dm)(ao_RedeemingTransactionID out :=
                 addToBigIntMap (dm_inputTotals dm (ao_RedeemingTransactionID out)) (ao_AssetID out) bigAmt),
            dm_outputTotals = (dm_outputTotals dm)(ao_TransactionID out :=
                 addToBigIntMap (dm_outputTotals dm (ao_TransactionID out)) (ao_AssetID out) bigAmt)\<rparr>)"

fun collect_outputs :: "compositeRecord list \<Rightarrow> dress_maps \<Rightarrow> go_error + dress_maps" where
  "collect_outputs [] dm = Inr dm"
| "collect_outputs (output # outputs) dm = res_bind (collect_output output dm) (collect_outputs outputs)"

definition add_creds :: "compositeRecord \<Rightarrow> dress_maps \<Rightarrow> dress_maps" where
  "add_creds out dm =
     (let rid = ao_RedeemingTransactionID (cr_Output out); inputs = dm_inputs dm rid in
      if cr_Signature out = [] then dm
      else (case List.find (\<lambda>(_, input). ao_ID (ai_Output input) = cr_OutputID out) inputs of
              None \<Rightarrow> dm
            | Some (i, input) \<Rightarrow>
                dm\<lparr>dm_inputs := (dm_inputs dm)(rid := AList.update i
                  (input\<lparr>ai_Creds := ai_Creds input @ [\<lparr>ic_Address = cr_Address out, ic_PublicKey = cr_PublicKey out, ic_Signature = cr_Signature out\<rparr>]\<rparr>) inputs)\<rparr>))"

definition with_addresses :: "dress_maps \<Rightarrow> ApiOutput \<Rightarrow> ApiOutput" where
  "with_addresses dm out = out\<lparr>ao_Addresses := filter (\<lambda>a. a \<noteq> []) (dm_outputAddrs dm (ao_ID out))\<rparr>"

definition dressTransactionsTx :: "extlib \<Rightarrow> bool \<Rightarrow> ID option \<Rightarrow> ID \<Rightarrow> dress_maps \<Rightarrow> (string \<rightharpoonup> rewardsTypeModel)
    \<Rightarrow> (string \<Rightarrow> ApiOutput list) \<Rightarrow> (string \<Rightarrow> ApiOutput list) \<Rightarrow> ApiTransaction \<Rightarrow> ApiTransaction" where
  "dressTransactionsTx lib disableGenesis txID axcAssetID dm rewardsTypesMap cvmins cvmouts tx =
     (if disableGenesis \<and> (txID = None \<and> at_ID tx = ID_String lib axcAssetID) then tx
      else
        (let tx = tx\<lparr>
               at_Inputs := at_Inputs tx @ map (\<lambda>(_, input). input\<lparr>ai_Output := with_addresses dm (ai_Output input)\<rparr>) (dm_inputs dm (at_ID tx))
                 @ map (\<lambda>out. \<lparr>ai_Output = out, ai_Creds = []\<rparr>) (cvmins (at_ID tx)),
               at_Outputs := at_Outputs tx @ map (\<lambda>(_, out). with_addresses dm out) (dm_outputs dm (at_ID tx)) @ cvmouts (at_ID tx),
               at_InputTotals := (\<lambda>k. map_option Itoa (dm_inputTotals dm (at_ID tx) k)),
               at_OutputTotals := (\<lambda>k. map_option Itoa (dm_outputTotals dm (at_ID tx) k))\<rparr>
         in case rewardsTypesMap (at_ID tx) of
              None \<Rightarrow> tx
            | Some rewardsType \<Rightarrow> tx\<lparr>at_Rewarded := (rm_Type rewardsType = BlockTypeCommit), at_RewardedTime := Some (rm_CreatedAt rewardsType)\<rparr>))"

definition dressTransactions :: "extlib \<Rightarrow> query_conn \<Rightarrow> ApiTransaction list \<Rightarrow> ID \<Rightarrow> ID option \<Rightarrow> bool \<Rightarrow> (dbstate, ApiTransaction list) go" where
  "dressTransactions lib conn txs axcAssetID txID disableGenesis =
     (if txs = [] then go_return txs
      else
        (let txs = map (\<lambda>tx. if at_Memo tx = None then tx\<lparr>at_Memo := Some []\<rparr> else tx) txs;
             txIDs = map at_ID txs;
             blockTxIds = remdups (filter (\<lambda>b. b \<noteq> []) (map at_TxBlockID txs))
         in
         go_bind (resolveProposers conn blockTxIds) (\<lambda>proposersMap.
         let txs = map (\<lambda>tx. case proposersMap (at_TxBlockID tx) of Some proposer \<Rightarrow> tx\<lparr>at_Proposer := Some proposer\<rparr> | None \<Rightarrow> tx) txs in
         go_bind (resolveRewarded conn txIDs) (\<lambda>rewardsTypesMap.
         go_bind (collectInsAndOuts conn txIDs) (\<lambda>outputs.
         go_bind (go_lift (collect_outputs outputs empty_maps)) (\<lambda>dm.
         let dm = fold add_creds outputs dm in
         go_bind (collectCvmTransactions conn txIDs) (\<lambda>(cvmin, cvmout).
           go_return (map (dressTransactionsTx lib disableGenesis txID axcAssetID dm rewardsTypesMap cvmin cvmout) txs))))))))"

section \<open>The list\<close>

record TransactionList =
  tl_Count :: "u64 option"
  tl_Transactions :: "ApiTransaction list"
  tl_StartTime :: gotime
  tl_EndTime :: gotime
  tl_Next :: "string option"

definition next_param :: "ListTransactionsParams \<Rightarrow> url_values \<Rightarrow> string \<Rightarrow> string \<Rightarrow> string" where
  "next_param p q k next =
     (let vs = values_at q k; each = (\<lambda>name next. fold (\<lambda>v next. next @ ''&'' @ name @ ''='' @ v) vs next) in
      if k = KeyLimit then next @ ''&'' @ KeyLimit @ ''='' @ Itoa (lp_Limit (lt_ListParams p))
      else if k = KeyStartTime then (if lt_Sort p = TransactionSortTimestampDesc then each KeyStartTime next else next)
      else if k = KeyEndTime then (if lt_Sort p = TransactionSortTimestampAsc then each KeyEndTime next else next)
      else if k = KeyOffset then next
      else if k = KeySortBy then next
      else each k next)"

definition transactionProcessNext :: "reader_env \<Rightarrow> ApiTransaction list \<Rightarrow> ListParams \<Rightarrow> ListTransactionsParams \<Rightarrow> string option" where
  "transactionProcessNext rv txs listParams p =
     (if txs = [] \<or> int (length txs) < lp_Limit listParams then None
      else
        (let lasttxCreated = at_CreatedAt (last txs);
             next = (if lt_Sort p = TransactionSortTimestampAsc then KeyStartTime @ ''='' @ Itoa (Time_Unix (lasttxCreated + nanos_per_second))
                     else if lt_Sort p = TransactionSortTimestampDesc then KeyEndTime @ ''='' @ Itoa (Time_Unix lasttxCreated) else []);
             next = fold (next_param p (lp_Values listParams)) (rv_range rv (lp_Values listParams)) next
         in Some (next @ ''&'' @ KeySortBy @ ''='' @ TransactionSort_String (lt_Sort p))))"

definition ListTransactions :: "reader_env \<Rightarrow> query_conn \<Rightarrow> ReaderAggregate \<Rightarrow> ListTransactionsParams \<Rightarrow> ID \<Rightarrow> (dbstate, TransactionList) go" where
  "ListTransactions rv conn ra p axcAssetID =
     go_then (qc_NewSession conn ''get_transactions'')
       (go_bind (listTxs rv conn ra p) (\<lambda>(txs, dressed).
        go_bind (if dressed then go_return txs
                 else dressTransactions (rv_lib rv) conn txs axcAssetID (lp_ID (lt_ListParams p)) (lt_DisableGenesis p)) (\<lambda>txs.
          let l = lt_ListParams p;
              count = (if lp_DisableCounting l then None
                       else if int (length txs) \<ge> lp_Limit l then Some (count_of (lp_Offset l) (length txs) + 1)
                       else Some (count_of (lp_Offset l) (length txs)))
          in go_return \<lparr>tl_Count = count, tl_Transactions = txs, tl_StartTime = lp_StartTime l, tl_EndTime = lp_EndTime l,
               tl_Next = transactionProcessNext rv txs l p\<rparr>)))"

definition GetTransaction :: "reader_env \<Rightarrow> query_conn \<Rightarrow> ReaderAggregate \<Rightarrow> ID \<Rightarrow> ID \<Rightarrow> (dbstate, ApiTransaction option) go" where
  "GetTransaction rv conn ra i axcAssetID =
     go_bind (ListTransactions rv conn ra (zero_ListTransactionsParams\<lparr>lt_ListParams := zero_ListParams\<lparr>lp_ID := Some i, lp_DisableCounting := True\<rparr>\<rparr>) axcAssetID)
       (\<lambda>txList. go_return (case tl_Transactions txList of [] \<Rightarrow> None | tx # _ \<Rightarrow> Some tx))"

section \<open>The page of an asset\<close>

text \<open>The transactions of a list, each at its first row.\<close>

fun firsts :: "string list \<Rightarrow> ApiTransaction list \<Rightarrow> ApiTransaction list" where
  "firsts seen [] = []"
| "firsts seen (tx # txs) = (if at_ID tx \<in> set seen then firsts seen txs else tx # firsts (at_ID tx # seen) txs)"

lemma firsts_cong: "set seen = set seen' \<Longrightarrow> firsts seen txs = firsts seen' txs"
proof (induction txs arbitrary: seen seen')
  case (Cons tx txs)
  have "firsts seen txs = firsts seen' txs" by (rule Cons.IH [OF Cons.prems])
  moreover have "firsts (at_ID tx # seen) txs = firsts (at_ID tx # seen') txs" by (rule Cons.IH) (simp add: Cons.prems)
  ultimately show ?case by (simp add: Cons.prems)
qed simp

lemma firsts_new: "tx \<in> set (firsts seen txs) \<Longrightarrow> at_ID tx \<notin> set seen \<and> tx \<in> set txs"
  by (induction seen txs rule: firsts.induct) (auto split: if_splits)

lemma firsts_distinct: "distinct (map at_ID (firsts seen txs))"
  by (induction seen txs rule: firsts.induct) (auto dest: firsts_new)

lemma firsts_ids: "at_ID ` set (firsts seen txs) = at_ID ` set txs - set seen"
  by (induction seen txs rule: firsts.induct) auto

text \<open>Once the offset is passed: \<open>more\<close> is how many transactions fit onto the page.\<close>

definition cut_to :: "int \<Rightarrow> 'a list \<Rightarrow> 'a list" where
  "cut_to limit xs = (if limit > 0 then take (nat limit) xs else xs)"

lemma page_loop_fill:
  assumes "offset \<le> int (length off)" "length txsm = length txs" "limit > 0 \<longrightarrow> int (length txs) < limit"
  shows "page_loop limit offset rows off txs txsm = cut_to limit (txs @ firsts (off @ txsm) rows)"
  using assms
proof (induction rows arbitrary: txs txsm)
  case Nil
  then show ?case by (cases "limit > 0") (auto simp: cut_to_def)
next
  case (Cons tx rows)
  show ?case
  proof (cases "at_ID tx \<in> set off \<or> at_ID tx \<in> set txsm")
    case True
    then show ?thesis using Cons by auto
  next
    case False
    have seen: "firsts (at_ID tx # off @ txsm) rows = firsts (off @ at_ID tx # txsm) rows" by (rule firsts_cong) auto
    show ?thesis
    proof (cases "limit > 0 \<and> int (length txsm) + 1 \<ge> limit")
      case True
      then have "nat limit = Suc (length txs)" using Cons.prems by simp
      with True False Cons.prems show ?thesis by (simp add: cut_to_def List.insert_def)
    next
      case f: False
      then have "page_loop limit offset rows off (txs @ [tx]) (at_ID tx # txsm)
          = cut_to limit ((txs @ [tx]) @ firsts (off @ at_ID tx # txsm) rows)"
        by (intro Cons.IH) (use Cons.prems in auto)
      with f False Cons.prems(1) seen show ?thesis by (auto simp: List.insert_def)
    qed
  qed
qed

lemma page_loop_offset:
  assumes "int (length off) < offset"
  shows "page_loop limit offset rows off [] [] = cut_to limit (drop (nat offset - length off) (firsts off rows))"
  using assms
proof (induction rows arbitrary: off)
  case (Cons tx rows)
  show ?case
  proof (cases "at_ID tx \<in> set off")
    case True
    then show ?thesis using Cons by (simp add: List.insert_def)
  next
    case False
    then have ins: "List.insert (at_ID tx) off = at_ID tx # off" by simp
    have k: "nat offset - length off = Suc (nat offset - Suc (length off))" using Cons.prems by linarith
    show ?thesis
    proof (cases "int (length off) + 1 < offset")
      case True
      then show ?thesis using Cons.IH [of "at_ID tx # off"] Cons.prems False ins k by simp
    next
      case f: False
      have "page_loop limit offset rows (at_ID tx # off) [] [] = cut_to limit (firsts (at_ID tx # off) rows)"
        using page_loop_fill [of offset "at_ID tx # off" "[]" "[]" limit rows] f by simp
      then show ?thesis using Cons.prems False ins f k by simp
    qed
  qed
qed (simp add: cut_to_def)

lemma page_loop_page: "page_loop limit offset rows [] [] [] = cut_to limit (drop (nat offset) (firsts [] rows))"
proof (cases "offset > 0")
  case True
  then show ?thesis using page_loop_offset [of "[]" offset limit rows] by simp
next
  case False
  then show ?thesis using page_loop_fill [of offset "[]" "[]" "[]" limit rows] by simp
qed

text \<open>C19. A page of the transactions of an asset: the rows come once for each output, and the page that is returned is the
  page of the distinct transactions, from the offset on and cut to the limit. When the iterator ends with an error the
  rows before it are taken for the whole result.\<close>

theorem asset_page_exact:
  assumes "query_server conn" "lp_ID (lt_ListParams p) = None" "lt_Addresses p = []" "lt_AssetID p = Some a"
    "listTxs rv conn ra p d = (Inr (txs, dressed), d')"
  shows "\<exists>rows e. qc_iterate conn (asset_query (rv_lib rv) conn p) d = (Inr (rows, e), d')
    \<and> prefix rows (asset_query (rv_lib rv) conn p (tabs d)) \<and> (e = None \<longrightarrow> rows = asset_query (rv_lib rv) conn p (tabs d))
    \<and> txs = cut_to (lp_Limit (lt_ListParams p)) (drop (nat (lp_Offset (lt_ListParams p))) (firsts [] (map tx_of_row rows)))
    \<and> distinct (map at_ID txs)"
proof -
  obtain rows e d1 where it: "qc_iterate conn (asset_query (rv_lib rv) conn p) d = (Inr (rows, e), d1)"
    and "go_return (page_loop (lp_Limit (lt_ListParams p)) (lp_Offset (lt_ListParams p)) (map tx_of_row rows) [] [] [], False) d1 = (Inr (txs, dressed), d')"
    using assms(2-5) by (auto simp: listTxs_def elim!: go_bind_Inr)
  then have txs: "txs = cut_to (lp_Limit (lt_ListParams p)) (drop (nat (lp_Offset (lt_ListParams p))) (firsts [] (map tx_of_row rows)))" "d1 = d'"
    by (simp_all add: go_return_run page_loop_page)
  moreover have "distinct (map at_ID (drop n (firsts [] xs)))" for n xs
    unfolding drop_map [symmetric] by (rule distinct_drop) (rule firsts_distinct)
  then have "distinct (map at_ID txs)" unfolding txs cut_to_def by (simp add: distinct_take flip: take_map)
  ultimately show ?thesis using query_server.iterate_rows [OF assms(1) it] it by blast
qed

text \<open>Two outputs of one transaction, and one of another.\<close>

definition shared_outputs :: dbstate where
  "shared_outputs = \<lparr>tabs = (\<lambda>t.
       if t = TableTransactions then map (\<lambda>i. new_row TableTransactions (Transactions_cols (zero_Transactions\<lparr>Transactions_ID := i\<rparr>))) [''t'', ''u'']
       else if t = TableOutputs then map (\<lambda>(i, tx). new_row TableOutputs (Outputs_cols (zero_Outputs\<lparr>Outputs_ID := i, Outputs_TransactionID := tx,
         Outputs_AssetID := []\<rparr>))) [(''o'', ''t''), (''p'', ''t''), (''q'', ''u'')]
       else []), ticks = 0\<rparr>"

definition sample_reader_env :: reader_env where
  "sample_reader_env = \<lparr>rv_lib = sample_lib, rv_params = sample_paramlib, rv_IsAggregateCache = True, rv_IsAccumulateBalanceReader = False, rv_Chains = [],
     rv_AxcAssetID = [], rv_SwapChainID = [], rv_range = (\<lambda>_. []), rv_Bech32HRP = ''fuji''\<rparr>"

definition no_aggregate :: ReaderAggregate where
  "no_aggregate = \<lparr>ra_txDesc = empty_TxList, ra_txAsc = empty_TxList\<rparr>"

theorem asset_page_exact_witness:
  "\<exists>txs d'. listTxs sample_reader_env (mysql_ro (\<lambda>_. None)) no_aggregate (zero_ListTransactionsParams\<lparr>lt_AssetID := Some []\<rparr>) shared_outputs = (Inr (txs, False), d')
    \<and> distinct (map at_ID txs)"
proof -
  let ?p = "zero_ListTransactionsParams\<lparr>lt_AssetID := Some []\<rparr>" and ?conn = "mysql_ro (\<lambda>_. None)"
  have p: "lp_ID (lt_ListParams ?p) = None" "lt_Addresses ?p = []" "lt_AssetID ?p = Some []"
    by (simp_all add: zero_ListTransactionsParams_def zero_ListParams_def)
  obtain txs d' where r: "listTxs sample_reader_env ?conn no_aggregate ?p shared_outputs = (Inr (txs, False), d')"
    using p by (simp add: listTxs_def go_simps mysql_ro_def)
  from asset_page_exact [OF mysql_ro.query_server_axioms p r] r show ?thesis by blast
qed

section \<open>The link to the next page\<close>

definition after_page :: "ApiTransaction list \<Rightarrow> int" where
  "after_page txs = Time_Unix (at_CreatedAt (last txs)) + 1"

lemma next_param_prefix: "prefix next (next_param p q k next)"
proof -
  have each: "prefix next (fold (\<lambda>v next. next @ ''&'' @ name @ ''='' @ v) vs next)" for name vs
    by (induction vs rule: rev_induct) (auto intro: prefix_order.trans)
  have lit: "prefix next (next @ s)" for s by simp
  show ?thesis unfolding next_param_def Let_def
    by (cases "k = KeyLimit"; cases "k = KeyStartTime"; cases "k = KeyEndTime"; cases "k = KeyOffset"; cases "k = KeySortBy")
      (simp_all only: if_True if_False lit each prefix_order.refl split: if_split, simp_all only: each prefix_order.refl lit simp_thms)
qed

lemma fold_prefix: "(\<And>k s. prefix s (f k s)) \<Longrightarrow> prefix s (fold f ks s)"
  by (induction ks arbitrary: s) (auto intro: prefix_order.trans)

text \<open>C20. Pages in ascending order overlap nowhere, but leave out transactions: the link of a full page starts at the second
  after its last transaction, so a transaction of that second which did not fit onto the page is on no later page, whatever the
  other parameters are.\<close>

theorem next_page_skips:
  assumes "lt_Sort p = TransactionSortTimestampAsc" "transactionProcessNext rv txs (lt_ListParams p) p = Some next"
    "lp_StartTimeProvided (lt_ListParams p')" "lp_StartTime (lt_ListParams p') = time_Unix (after_page txs) 0" "after_page txs \<noteq> Time_Unix zero_time"
  shows "prefix (KeyStartTime @ ''='' @ Itoa (after_page txs)) next
    \<and> (\<forall>rows r t. r \<in> set (listTxsQuery lib p' T rows) \<longrightarrow> r ''avm_transactions.created_at'' = Some (VT t)
         \<longrightarrow> Time_Unix (at_CreatedAt (last txs)) < Time_Unix t)"
proof -
  let ?s = "KeyStartTime @ ''='' @ Itoa (after_page txs)"
  have s: "Time_Unix (at_CreatedAt (last txs) + nanos_per_second) = after_page txs" by (simp add: after_page_def Time_Unix_def)
  have "prefix ?s (fold (next_param p (lp_Values (lt_ListParams p))) (rv_range rv (lp_Values (lt_ListParams p))) ?s)"
    by (rule fold_prefix) (rule next_param_prefix)
  then have "prefix ?s next"
    using assms(1,2) s by (auto simp: transactionProcessNext_def Let_def split: if_splits intro: prefix_order.trans)
  moreover have "Time_Unix (at_CreatedAt (last txs)) < Time_Unix t"
    if r: "r \<in> set (listTxsQuery lib p' T rows)" "r ''avm_transactions.created_at'' = Some (VT t)" for rows r t
  proof -
    have "tx_where lib p' r" using r(1) by (auto simp: listTxsQuery_def Let_def split: if_splits option.splits)
    moreover have "lp_StartTime (lt_ListParams p') \<noteq> zero_time"
      using assms(4,5) by (auto simp: time_Unix_def Time_Unix_def zero_time_def)
    ultimately have "time_Unix (after_page txs) 0 \<le> t" using assms(3,4) r(2) by (simp add: tx_where_def Let_def)
    then have "after_page txs \<le> Time_Unix t" using zdiv_mono1 [of "time_Unix (after_page txs) 0" t nanos_per_second] by (simp add: time_Unix_def Time_Unix_def)
    then show ?thesis by (simp add: after_page_def)
  qed
  ultimately show ?thesis by blast
qed

definition tx_named :: "string \<Rightarrow> ApiTransaction" where
  "tx_named i = tx_of_row [''id'' \<mapsto> VS i]"

definition one_per_page :: ListTransactionsParams where
  "one_per_page = zero_ListTransactionsParams\<lparr>lt_ListParams := zero_ListParams\<lparr>lp_Limit := 1\<rparr>\<rparr>"

definition second_page :: ListTransactionsParams where
  "second_page = zero_ListTransactionsParams\<lparr>lt_ListParams := zero_ListParams\<lparr>lp_Limit := 1, lp_StartTimeProvided := True,
     lp_StartTime := time_Unix (after_page [tx_named ''t'']) 0\<rparr>\<rparr>"

theorem next_page_skips_witness:
  "\<exists>next. transactionProcessNext sample_reader_env [tx_named ''t''] (lt_ListParams one_per_page) one_per_page = Some next
    \<and> prefix (''startTime='' @ Itoa (after_page [tx_named ''t''])) next
    \<and> (\<forall>rows r t. r \<in> set (listTxsQuery sample_lib second_page (tabs shared_outputs) rows) \<longrightarrow> r ''avm_transactions.created_at'' = Some (VT t)
         \<longrightarrow> Time_Unix (at_CreatedAt (tx_named ''t'')) < Time_Unix t)"
proof -
  obtain "next" where n: "transactionProcessNext sample_reader_env [tx_named ''t''] (lt_ListParams one_per_page) one_per_page = Some next"
    by (simp add: transactionProcessNext_def one_per_page_def Let_def)
  have "lt_Sort one_per_page = TransactionSortTimestampAsc" by (simp add: one_per_page_def zero_ListTransactionsParams_def TransactionSortTimestampAsc_def)
  from next_page_skips [OF this n, of second_page sample_lib "tabs shared_outputs"] n show ?thesis
    by (simp add: second_page_def after_page_def tx_named_def tx_of_row_def getT_def)
qed

section \<open>The page of all transactions\<close>

abbreviation TX :: string where "TX \<equiv> ''avm_transactions.''"

text \<open>The joins of \<open>transactionQuery\<close> add columns to the rows of the table of transactions, and no rows.\<close>

lemma transactionQuery_ext:
  assumes "tables_ok T"
  shows "\<exists>ext. transactionQuery T = map ext (q_from ''avm_transactions'' T) \<and> (\<forall>l c. HasPrefix c TX \<longrightarrow> ext l c = l c)"
proof -
  have keys: "keys_ok t (T t)" for t using assms by (simp add: tables_ok_def)
  let ?F = "q_from ''avm_transactions'' T"
  have F: "l c = None" if "l \<in> set ?F" "\<not> HasPrefix c TX" for l c
    using that by (auto simp: q_from_def qualify_def)
  have "\<exists>e. q_left_join T ''transactions_epoch'' (eq_cols ''avm_transactions.id'' (''transactions_epoch'' @ ''.id'')) ?F = map e ?F
      \<and> (\<forall>l c. \<not> HasPrefix c (''transactions_epoch'' @ ''.'') \<longrightarrow> e l c = l c)"
    by (rule left_join_key [OF keys]) (auto simp: unique_keys_def HasPrefix_def F)
  then obtain e1 where e1: "q_left_join T ''transactions_epoch'' (eq_cols ''avm_transactions.id'' ''transactions_epoch.id'') ?F = map e1 ?F"
    "\<And>l c. \<not> HasPrefix c ''transactions_epoch.'' \<Longrightarrow> e1 l c = l c" by auto
  have "\<exists>e. q_left_join T ''transactions_validator'' (eq_cols ''avm_transactions.id'' (''transactions_validator'' @ ''.id'')) (map e1 ?F) = map e (map e1 ?F)
      \<and> (\<forall>l c. \<not> HasPrefix c (''transactions_validator'' @ ''.'') \<longrightarrow> e l c = l c)"
    by (rule left_join_key [OF keys]) (auto simp: unique_keys_def HasPrefix_def e1(2) F)
  then obtain e2 where e2: "q_left_join T ''transactions_validator'' (eq_cols ''avm_transactions.id'' ''transactions_validator.id'') (map e1 ?F) = map e2 (map e1 ?F)"
    "\<And>l c. \<not> HasPrefix c ''transactions_validator.'' \<Longrightarrow> e2 l c = l c" by auto
  have "\<exists>e. q_left_join T ''transactions_block'' (eq_cols ''avm_transactions.id'' (''transactions_block'' @ ''.id'')) (map e2 (map e1 ?F)) = map e (map e2 (map e1 ?F))
      \<and> (\<forall>l c. \<not> HasPrefix c (''transactions_block'' @ ''.'') \<longrightarrow> e l c = l c)"
    by (rule left_join_key [OF keys]) (auto simp: unique_keys_def HasPrefix_def e1(2) e2(2) F)
  then obtain e3 where e3: "q_left_join T ''transactions_block'' (eq_cols ''avm_transactions.id'' ''transactions_block.id'') (map e2 (map e1 ?F)) = map e3 (map e2 (map e1 ?F))"
    "\<And>l c. \<not> HasPrefix c ''transactions_block.'' \<Longrightarrow> e3 l c = l c" by auto
  have "transactionQuery T = map (e3 \<circ> e2 \<circ> e1) ?F" unfolding transactionQuery_def e1(1) e2(1) e3(1) by simp
  moreover have "(e3 \<circ> e2 \<circ> e1) l c = l c" if pre: "HasPrefix c TX" for l c
  proof -
    obtain x where "c = TX @ x" using pre unfolding HasPrefix_iff_prefix prefix_def by blast
    then show ?thesis by (simp add: e1(2) e2(2) e3(2) HasPrefix_def)
  qed
  ultimately show ?thesis by blast
qed

lemma tx_ids_distinct:
  assumes "tables_ok T" "tx_rows_ok T"
  shows "distinct (map (\<lambda>r. r ''avm_transactions.id'') (q_from ''avm_transactions'' T))"
proof -
  have "keys_ok TableTransactions (T TableTransactions)" using assms(1) by (simp add: tables_ok_def)
  then have "sorted_wrt (\<lambda>r r'. r ''id'' \<noteq> r' ''id'') (T TableTransactions)"
    unfolding keys_ok_def
  proof (rule sorted_wrt_mono_rel [rotated])
    fix r r' assume "r \<in> set (T TableTransactions)" "r' \<in> set (T TableTransactions)" "\<not> conflicts TableTransactions r r'"
    moreover have "unique_keys TableTransactions = [[''id'']]" by (simp add: unique_keys_def)
    ultimately show "r ''id'' \<noteq> r' ''id''"
      using assms(2) by (auto simp: conflicts_def agree_on_def tx_rows_ok_def new_tx_row)
  qed
  then have "distinct (map (\<lambda>r. r ''id'') (T TableTransactions))" by (simp only: sorted_wrt_distinct)
  moreover have "map (\<lambda>r. r ''avm_transactions.id'') (q_from ''avm_transactions'' T) = map (\<lambda>r. r ''id'') (T TableTransactions)"
    using qualify_at [of "''avm_transactions''" _ "''id''"] by (simp add: q_from_def)
  ultimately show ?thesis by simp
qed

lemma concat_option: "concat (map (\<lambda>r. if P r then [h r] else []) xs) = map h (filter P xs)"
  by (induction xs) auto

lemma filter_eq_one: "distinct xs \<Longrightarrow> filter (\<lambda>b. b = r) xs = (if r \<in> set xs then [r] else [])"
  by (induction xs) (auto simp: filter_empty_conv)

lemma page_query_take:
  assumes ok: "tables_ok T" "tx_rows_ok T"
    and p: "lt_Addresses p = []" "lt_AssetID p = None" "lp_Query (lt_ListParams p) = []" "lt_Sort p \<noteq> TransactionSortTimestampDesc"
    and n: "page_of (lt_ListParams p) (filter (tx_where lib p) (sort_key (tx_order conn) (q_from ''avm_transactions'' T)))
      = take n (filter (tx_where lib p) (sort_key (tx_order conn) (q_from ''avm_transactions'' T)))"
  shows "map (\<lambda>r. r ''id'') (page_query lib conn p T) =
    map (\<lambda>r. r ''avm_transactions.id'') (take n (filter (tx_where lib p) (sort_key (tx_order conn) (q_from ''avm_transactions'' T))))"
proof -
  let ?F = "q_from ''avm_transactions'' T" and ?k = "tx_order conn" and ?n = n and ?x = "''avm_transactions_id.id''"
  define base where "base = take ?n (filter (tx_where lib p) (sort_key ?k ?F))"
  define g :: "row \<Rightarrow> row" where "g r = (\<lambda>c. if c = ?x then r ''avm_transactions.id'' else None)" for r
  obtain ext where ext: "transactionQuery T = map ext ?F" "\<And>l c. HasPrefix c TX \<Longrightarrow> ext l c = l c"
    using transactionQuery_ext [OF ok(1)] by blast
  define h where "h r = ext r ++ g r" for r
  have tx: "(ext r ++ g b) c = r c" if "HasPrefix c TX" for r b c
    using that ext(2) [OF that] by (auto simp: map_add_def g_def HasPrefix_def)
  have ids: "distinct (map (\<lambda>r. r ''avm_transactions.id'') ?F)" by (rule tx_ids_distinct [OF ok])
  then have dF: "distinct ?F" by (simp add: distinct_map)
  have sub: "set base \<subseteq> set ?F" unfolding base_def by (auto dest: in_set_takeD)
  have db: "distinct base" unfolding base_def by (intro distinct_take distinct_filter) (simp add: dF)
  have on: "eq_cols ''avm_transactions.id'' ?x (ext r ++ g b) \<longleftrightarrow> b = r" if rb: "r \<in> set ?F" "b \<in> set ?F" for r b
  proof -
    obtain i where i: "r ''avm_transactions.id'' = Some (VS i)" using tx_from_row [OF ok(2) rb(1)] by metis
    obtain j where j: "b ''avm_transactions.id'' = Some (VS j)" using tx_from_row [OF ok(2) rb(2)] by metis
    have "(ext r ++ g b) ''avm_transactions.id'' = r ''avm_transactions.id''" by (rule tx) (simp add: HasPrefix_def)
    moreover have "(ext r ++ g b) ?x = b ''avm_transactions.id''" using j by (simp add: g_def map_add_def)
    moreover have "r ''avm_transactions.id'' = b ''avm_transactions.id'' \<longleftrightarrow> b = r" using ids rb by (auto simp: distinct_map inj_on_def)
    ultimately show ?thesis using i by (simp add: eq_cols_def is_null_def)
  qed
  have "filter (eq_cols ''avm_transactions.id'' ?x) (map (\<lambda>s. ext r ++ s) (map g base)) = (if r \<in> set base then [h r] else [])"
    if "r \<in> set ?F" for r
  proof -
    have "filter (\<lambda>b. eq_cols ''avm_transactions.id'' ?x (ext r ++ g b)) base = filter (\<lambda>b. b = r) base"
      by (rule filter_cong) (use on [OF that] sub in blast)+
    then show ?thesis using filter_eq_one [OF db, of r] by (simp add: filter_map comp_def h_def)
  qed
  then have "q_join_rows (map g base) (eq_cols ''avm_transactions.id'' ?x) (map ext ?F) = concat (map (\<lambda>r. if r \<in> set base then [h r] else []) ?F)"
    unfolding q_join_rows_def map_map comp_def by (intro arg_cong [of _ _ concat] map_cong) auto
  then have J: "q_join_rows (map g base) (eq_cols ''avm_transactions.id'' ?x) (transactionQuery T) = map h (filter (\<lambda>r. r \<in> set base) ?F)"
    by (simp add: ext(1) concat_option)
  have "?k (h r) = ?k r" for r by (simp add: tx_order_def getT_def getS_def h_def tx HasPrefix_def)
  then have "sort_key ?k (map h xs) = map h (sort_key ?k xs)" for xs
    unfolding sort_key_map by (intro arg_cong [of _ _ "map h"] sort_key_cong) simp
  moreover have "filter (\<lambda>r. r \<in> set base) (sort_key ?k ?F) = base"
    unfolding base_def by (rule filter_take_distinct) (simp add: dF)
  ultimately have "sort_key ?k (map h (filter (\<lambda>r. r \<in> set base) ?F)) = map h base" by (simp add: filter_sort)
  moreover have "applySort conn p rows = sort_key ?k rows" for rows using p by (simp add: applySort_def q_order_def)
  moreover have "page_of (lt_ListParams p) (sort_key ?k (listTxsQuery lib p T ?F)) = base"
    using n by (simp add: listTxsQuery_def p base_def filter_sort)
  moreover have "page_query lib conn p T = q_select transactionColumns (applySort conn p
      (q_join_rows (map g (page_of (lt_ListParams p) (applySort conn p (listTxsQuery lib p T ?F)))) (eq_cols ''avm_transactions.id'' ?x) (transactionQuery T)))"
    unfolding page_query_def g_def Let_def ..
  ultimately have "page_query lib conn p T = q_select transactionColumns (map h base)" by (simp only: J)
  moreover have "h r ''avm_transactions.id'' = r ''avm_transactions.id''" for r unfolding h_def by (rule tx) (simp add: HasPrefix_def)
  ultimately show ?thesis by (simp add: q_select_def transactionColumns_def sel_def base_def)
qed

lemma page_query_ids:
  assumes ok: "tables_ok T" "tx_rows_ok T"
    and p: "lt_Addresses p = []" "lt_AssetID p = None" "lp_Query (lt_ListParams p) = []" "lt_Sort p \<noteq> TransactionSortTimestampDesc"
    and n: "0 < lp_Limit (lt_ListParams p)" "lp_Limit (lt_ListParams p) < 2 ^ 64" "lp_Offset (lt_ListParams p) = 0"
  shows "map (\<lambda>r. r ''id'') (page_query lib conn p T) =
    map (\<lambda>r. r ''avm_transactions.id'') (take (nat (lp_Limit (lt_ListParams p))) (filter (tx_where lib p) (sort_key (tx_order conn) (q_from ''avm_transactions'' T))))"
  using n by (intro page_query_take [OF ok p]) (simp add: page_of_def q_limit_def q_offset_def unat_eq_nat_uint word_of_int_inverse)

lemma page_query_all:
  assumes ok: "tables_ok T" "tx_rows_ok T"
    and p: "lt_Addresses p = []" "lt_AssetID p = None" "lp_Query (lt_ListParams p) = []" "lt_Sort p \<noteq> TransactionSortTimestampDesc"
    and n: "lp_Limit (lt_ListParams p) = 0" "lp_Offset (lt_ListParams p) = 0"
  shows "map (\<lambda>r. r ''id'') (page_query lib conn p T) =
    map (\<lambda>r. r ''avm_transactions.id'') (filter (tx_where lib p) (sort_key (tx_order conn) (q_from ''avm_transactions'' T)))"
proof -
  let ?L = "filter (tx_where lib p) (sort_key (tx_order conn) (q_from ''avm_transactions'' T))"
  have "map (\<lambda>r. r ''id'') (page_query lib conn p T) = map (\<lambda>r. r ''avm_transactions.id'') (take (length ?L) ?L)"
    by (rule page_query_take [OF ok p]) (simp add: page_of_def q_limit_def q_offset_def n)
  then show ?thesis by simp
qed

end
