(* ===== verification/ReaderAggr.thy ===== *)
theory ReaderAggr
  imports ReaderModels
begin

text \<open>
  The histograms of the API, \<open>TxfeeAggregate\<close>, \<open>Aggregate\<close> and \<open>getFirstTransactionTime\<close> of
  \<open>src/services/indexes/axc/reader.go\<close>: the database sums over intervals of the requested size, the reader puts the
  intervals that have data at their positions and pads the others. The quotient of the two durations is exact here;
  the code computes it in double precision, which for durations of whole seconds rounds up to the same integer.
\<close>

section \<open>Times and intervals\<close>

definition MaxAggregateIntervalCount :: int where "MaxAggregateIntervalCount = 20000"

abbreviation ErrAggregateIntervalCountTooLarge :: go_error where
  "ErrAggregateIntervalCountTooLarge \<equiv> ErrorString ''requesting too many intervals''"

abbreviation ErrFailedToParseStringAsBigInt :: go_error where
  "ErrFailedToParseStringAsBigInt \<equiv> ErrorString ''failed to parse string to big.Int''"

text \<open>\<open>t.Sub(u)\<close> is cut to the range of a \<open>Duration\<close>.\<close>

definition time_Sub :: "gotime \<Rightarrow> gotime \<Rightarrow> int" where
  "time_Sub t u = max (- (2 ^ 63)) (min (2 ^ 63 - 1) (t - u))"

definition ceil_div :: "int \<Rightarrow> int \<Rightarrow> int" where
  "ceil_div a b = - ((- a) div b)"

definition requestedIntervalCount :: "int \<Rightarrow> gotime \<Rightarrow> gotime \<Rightarrow> go_error + int" where
  "requestedIntervalCount intervalSize startTime endTime =
     (if duration_seconds intervalSize = 0 then Inr 0
      else
        (let n = ceil_div (time_Sub endTime startTime) intervalSize in
         if n > MaxAggregateIntervalCount then Inl ErrAggregateIntervalCountTooLarge
         else if n < 1 then Inr 1 else Inr n))"

definition timesForInterval :: "gotime \<Rightarrow> int \<Rightarrow> int \<Rightarrow> gotime \<times> gotime" where
  "timesForInterval startTime intervalSeconds intervalIdx =
     (let startTS = Time_Unix startTime + intervalIdx * intervalSeconds
      in (time_Unix startTS 0, time_Unix (startTS + intervalSeconds - 1) 0))"

text \<open>\<open>FLOOR((UNIX_TIMESTAMP(created_at)-start) / intervalSeconds) AS idx\<close>\<close>

definition idx_of :: "string \<Rightarrow> gotime \<Rightarrow> int \<Rightarrow> row \<Rightarrow> int" where
  "idx_of c startTime intervalSeconds r =
     (getT r c - Time_Unix startTime * nanos_per_second) div (intervalSeconds * nanos_per_second)"

function padTo :: "(int \<Rightarrow> 'a) \<Rightarrow> 'a list \<Rightarrow> int \<Rightarrow> 'a list" where
  "padTo mk xs n = (if int (length xs) < n then padTo mk (xs @ [mk (int (length xs))]) n else xs)"
  by pat_completeness auto
termination by (relation "measure (\<lambda>(mk, xs, n). nat (n - int (length xs)))") auto

declare padTo.simps [simp del]

section \<open>The first transaction\<close>

definition getFirstTransactionTime :: "query_conn \<Rightarrow> string list \<Rightarrow> (dbstate, gotime) go" where
  "getFirstTransactionTime conn chainIDs =
     go_then (qc_NewSession conn ''get_first_transaction_time'')
       (go_bind (qc_load conn (\<lambda>T.
          (let rows = filter (\<lambda>r. chainIDs \<noteq> [] \<longrightarrow> in_texts r ''avm_transactions.chain_id'' chainIDs) (q_from ''avm_transactions'' T)
           in [[''ts'' \<mapsto> VT (if rows = [] then 0 else Min (set (map (\<lambda>r. getT r ''avm_transactions.created_at'') rows)))]])))
        (\<lambda>rows. go_return (time_Unix (Time_Unix (getT (hd rows) ''ts'')) 0)))"

section \<open>Fees\<close>

record TxfeeAggregates =
  ta_Idx :: int
  ta_StartTime :: gotime
  ta_EndTime :: gotime
  ta_Txfee :: string

record TxfeeAggregatesHistogram =
  th_TxfeeAggregates :: TxfeeAggregates
  th_IntervalSize :: int
  th_Intervals :: "TxfeeAggregates list"
  th_StartTime :: gotime
  th_EndTime :: gotime

definition zero_TxfeeAggregates :: TxfeeAggregates where
  "zero_TxfeeAggregates = \<lparr>ta_Idx = 0, ta_StartTime = zero_time, ta_EndTime = zero_time, ta_Txfee = []\<rparr>"

definition txfee_of_row :: "row \<Rightarrow> TxfeeAggregates" where
  "txfee_of_row r = zero_TxfeeAggregates\<lparr>ta_Idx := getI r ''idx'', ta_Txfee := getS r ''txfee''\<rparr>"

definition txfee_where :: "TxfeeAggregateParams \<Rightarrow> gotime \<Rightarrow> tables \<Rightarrow> row list" where
  "txfee_where p startTime T =
     filter (\<lambda>r. where_holds r (WhereGe ''avm_transactions.created_at'' startTime)
        \<and> where_holds r (WhereLt ''avm_transactions.created_at'' (lp_EndTime (tf_ListParams p)))
        \<and> (tf_ChainIDs p \<noteq> [] \<longrightarrow> in_texts r ''avm_transactions.chain_id'' (tf_ChainIDs p))) (q_from ''avm_transactions'' T)"

definition sum_column :: "string \<Rightarrow> row list \<Rightarrow> int" where
  "sum_column c rows = (\<Sum>r \<leftarrow> rows. getI r c)"

definition txfee_query :: "TxfeeAggregateParams \<Rightarrow> gotime \<Rightarrow> int \<Rightarrow> int \<Rightarrow> tables \<Rightarrow> row list" where
  "txfee_query p startTime intervalSeconds cnt T =
     (let rows = txfee_where p startTime T in
      if cnt > 0
      then take (nat cnt) (sort_key (\<lambda>r. getI r ''idx'')
        (map (\<lambda>(i, g). [''idx'' \<mapsto> VI i, ''txfee'' \<mapsto> VI (sum_column ''avm_transactions.txfee'' g)])
          (q_group (idx_of ''avm_transactions.created_at'' startTime intervalSeconds) rows)))
      else [[''txfee'' \<mapsto> VI (sum_column ''avm_transactions.txfee'' rows)]])"

definition txfee_pad :: "gotime \<Rightarrow> int \<Rightarrow> int \<Rightarrow> TxfeeAggregates" where
  "txfee_pad startTime intervalSeconds i =
     (let (s, e) = timesForInterval startTime intervalSeconds i
      in zero_TxfeeAggregates\<lparr>ta_Idx := i, ta_StartTime := s, ta_EndTime := e\<rparr>)"

fun txfee_intervals :: "gotime \<Rightarrow> int \<Rightarrow> TxfeeAggregates list \<Rightarrow> TxfeeAggregates list \<Rightarrow> int \<Rightarrow> go_error + TxfeeAggregates list \<times> int" where
  "txfee_intervals startTime iv [] acc totalVolume = Inr (acc, totalVolume)"
| "txfee_intervals startTime iv (interval # intervals) acc totalVolume =
     (let acc = padTo (txfee_pad startTime iv) acc (ta_Idx interval);
          (s, e) = timesForInterval startTime iv (ta_Idx interval);
          interval = interval\<lparr>ta_StartTime := s, ta_EndTime := e\<rparr>
      in case big_SetString (ta_Txfee interval) of
           None \<Rightarrow> Inl ErrFailedToParseStringAsBigInt
         | Some v \<Rightarrow> txfee_intervals startTime iv intervals (acc @ [interval]) (totalVolume + v))"

definition txfee_histogram :: "TxfeeAggregateParams \<Rightarrow> gotime \<Rightarrow> int \<Rightarrow> int \<Rightarrow> TxfeeAggregates list \<Rightarrow> go_error + TxfeeAggregatesHistogram" where
  "txfee_histogram p startTime iv cnt intervals =
     (let endTime = lp_EndTime (tf_ListParams p) in
      if cnt = 0
      then
        (case intervals of
           first # _ \<Rightarrow> Inr \<lparr>th_TxfeeAggregates = first\<lparr>ta_StartTime := startTime, ta_EndTime := endTime\<rparr>, th_IntervalSize = 0, th_Intervals = [],
             th_StartTime = startTime, th_EndTime = endTime\<rparr>
         | [] \<Rightarrow> Inr \<lparr>th_TxfeeAggregates = zero_TxfeeAggregates, th_IntervalSize = 0, th_Intervals = [], th_StartTime = startTime, th_EndTime = endTime\<rparr>)
      else
        res_bind (txfee_intervals startTime iv intervals [] 0) (\<lambda>(acc, totalVolume).
          Inr \<lparr>th_TxfeeAggregates = zero_TxfeeAggregates\<lparr>ta_StartTime := startTime, ta_EndTime := endTime, ta_Txfee := Itoa totalVolume\<rparr>,
            th_IntervalSize = tf_IntervalSize p, th_Intervals = padTo (txfee_pad startTime iv) acc cnt,
            th_StartTime = startTime, th_EndTime = endTime\<rparr>))"

definition TxfeeAggregate :: "query_conn \<Rightarrow> TxfeeAggregateParams \<Rightarrow> (dbstate, TxfeeAggregatesHistogram) go" where
  "TxfeeAggregate conn p =
     go_bind (if lp_StartTime (tf_ListParams p) = zero_time then getFirstTransactionTime conn (tf_ChainIDs p)
              else go_return (lp_StartTime (tf_ListParams p))) (\<lambda>startTime.
     go_bind (go_lift (requestedIntervalCount (tf_IntervalSize p) startTime (lp_EndTime (tf_ListParams p)))) (\<lambda>cnt.
     go_then (qc_NewSession conn ''get_txfee_aggregates_histogram'')
       (go_bind (qc_load conn (txfee_query p startTime (duration_seconds (tf_IntervalSize p)) cnt)) (\<lambda>rows.
          go_lift (txfee_histogram p startTime (duration_seconds (tf_IntervalSize p)) cnt (map txfee_of_row rows))))))"

section \<open>Transactions, outputs, addresses and assets\<close>

record Aggregates =
  ga_Idx :: int
  ga_StartTime :: gotime
  ga_EndTime :: gotime
  ga_TransactionVolume :: string
  ga_TransactionCount :: u64
  ga_AddressCount :: u64
  ga_OutputCount :: u64
  ga_AssetCount :: u64

record AggregatesHistogram =
  gh_Aggregates :: Aggregates
  gh_IntervalSize :: int
  gh_Intervals :: "Aggregates list"
  gh_StartTime :: gotime
  gh_EndTime :: gotime

definition zero_Aggregates :: Aggregates where
  "zero_Aggregates = \<lparr>ga_Idx = 0, ga_StartTime = zero_time, ga_EndTime = zero_time, ga_TransactionVolume = [], ga_TransactionCount = 0,
     ga_AddressCount = 0, ga_OutputCount = 0, ga_AssetCount = 0\<rparr>"

definition agg_of_row :: "row \<Rightarrow> Aggregates" where
  "agg_of_row r = zero_Aggregates\<lparr>ga_Idx := getI r ''idx'', ga_TransactionVolume := getS r ''transaction_volume'',
     ga_TransactionCount := getW r ''transaction_count'', ga_AddressCount := getW r ''address_count'',
     ga_OutputCount := getW r ''output_count'', ga_AssetCount := getW r ''asset_count''\<rparr>"

text \<open>\<open>COUNT(DISTINCT(c))\<close> and \<open>COUNT(c)\<close>: rows in which the column is \<open>NULL\<close> do not count.\<close>

definition count_distinct :: "string \<Rightarrow> row list \<Rightarrow> int" where
  "count_distinct c rows = int (length (remdups (map (\<lambda>r. r c) (filter (\<lambda>r. \<not> is_null r c) rows))))"

definition count_column :: "string \<Rightarrow> row list \<Rightarrow> int" where
  "count_column c rows = int (length (filter (\<lambda>r. \<not> is_null r c) rows))"

definition agg_columns :: "row list \<Rightarrow> row" where
  "agg_columns g =
     [''transaction_volume'' \<mapsto> VI (sum_column ''avm_outputs.amount'' g),
      ''transaction_count'' \<mapsto> VI (count_distinct ''avm_outputs.transaction_id'' g),
      ''address_count'' \<mapsto> VI (count_distinct ''avm_output_addresses.address'' g),
      ''asset_count'' \<mapsto> VI (count_distinct ''avm_outputs.asset_id'' g),
      ''output_count'' \<mapsto> VI (count_column ''avm_outputs.id'' g)]"

definition agg_where :: "extlib \<Rightarrow> AggregateParams \<Rightarrow> gotime \<Rightarrow> tables \<Rightarrow> row list" where
  "agg_where lib p startTime T =
     filter (\<lambda>r. where_holds r (WhereGe ''avm_outputs.created_at'' startTime)
        \<and> where_holds r (WhereLt ''avm_outputs.created_at'' (lp_EndTime (ag_ListParams p)))
        \<and> (ag_ChainIDs p \<noteq> [] \<longrightarrow> in_texts r ''avm_outputs.chain_id'' (ag_ChainIDs p))
        \<and> (case ag_AssetID p of None \<Rightarrow> True | Some a \<Rightarrow> where_holds r (WhereEq ''avm_outputs.asset_id'' (ID_String lib a))))
       (q_left_join T ''avm_output_addresses'' (eq_cols ''avm_output_addresses.output_id'' ''avm_outputs.id'') (q_from ''avm_outputs'' T))"

definition agg_query :: "extlib \<Rightarrow> AggregateParams \<Rightarrow> gotime \<Rightarrow> int \<Rightarrow> int \<Rightarrow> tables \<Rightarrow> row list" where
  "agg_query lib p startTime intervalSeconds cnt T =
     (let rows = agg_where lib p startTime T in
      if cnt > 0
      then take (nat cnt) (sort_key (\<lambda>r. getI r ''idx'')
        (map (\<lambda>(i, g). (agg_columns g)(''idx'' \<mapsto> VI i)) (q_group (idx_of ''avm_outputs.created_at'' startTime intervalSeconds) rows)))
      else [agg_columns rows])"

definition agg_pad :: "gotime \<Rightarrow> int \<Rightarrow> int \<Rightarrow> Aggregates" where
  "agg_pad startTime intervalSeconds i =
     (let (s, e) = timesForInterval startTime intervalSeconds i
      in zero_Aggregates\<lparr>ga_Idx := i, ga_StartTime := s, ga_EndTime := e\<rparr>)"

fun agg_intervals :: "gotime \<Rightarrow> int \<Rightarrow> Aggregates list \<Rightarrow> Aggregates list \<Rightarrow> int \<Rightarrow> Aggregates \<Rightarrow> go_error + Aggregates list \<times> int \<times> Aggregates" where
  "agg_intervals startTime iv [] acc totalVolume tot = Inr (acc, totalVolume, tot)"
| "agg_intervals startTime iv (interval # intervals) acc totalVolume tot =
     (let acc = padTo (agg_pad startTime iv) acc (ga_Idx interval);
          (s, e) = timesForInterval startTime iv (ga_Idx interval);
          interval = interval\<lparr>ga_StartTime := s, ga_EndTime := e\<rparr>
      in case big_SetString (ga_TransactionVolume interval) of
           None \<Rightarrow> Inl ErrFailedToParseStringAsBigInt
         | Some v \<Rightarrow>
             agg_intervals startTime iv intervals (acc @ [interval]) (totalVolume + v)
               (tot\<lparr>ga_TransactionCount := ga_TransactionCount tot + ga_TransactionCount interval,
                 ga_OutputCount := ga_OutputCount tot + ga_OutputCount interval,
                 ga_AddressCount := ga_AddressCount tot + ga_AddressCount interval,
                 ga_AssetCount := ga_AssetCount tot + ga_AssetCount interval\<rparr>))"

definition agg_histogram :: "AggregateParams \<Rightarrow> gotime \<Rightarrow> int \<Rightarrow> int \<Rightarrow> Aggregates list \<Rightarrow> go_error + AggregatesHistogram" where
  "agg_histogram p startTime iv cnt intervals =
     (let endTime = lp_EndTime (ag_ListParams p) in
      if cnt = 0
      then
        (case intervals of
           first # _ \<Rightarrow> Inr \<lparr>gh_Aggregates = first\<lparr>ga_StartTime := startTime, ga_EndTime := endTime\<rparr>, gh_IntervalSize = 0, gh_Intervals = [],
             gh_StartTime = startTime, gh_EndTime = endTime\<rparr>
         | [] \<Rightarrow> Inr \<lparr>gh_Aggregates = zero_Aggregates, gh_IntervalSize = 0, gh_Intervals = [], gh_StartTime = startTime, gh_EndTime = endTime\<rparr>)
      else
        res_bind (agg_intervals startTime iv intervals [] 0 (zero_Aggregates\<lparr>ga_StartTime := startTime, ga_EndTime := endTime\<rparr>)) (\<lambda>(acc, totalVolume, tot).
          Inr \<lparr>gh_Aggregates = tot\<lparr>ga_TransactionVolume := Itoa totalVolume\<rparr>,
            gh_IntervalSize = ag_IntervalSize p, gh_Intervals = padTo (agg_pad startTime iv) acc cnt,
            gh_StartTime = startTime, gh_EndTime = endTime\<rparr>))"

text \<open>The session of the caller is used when there is one; the connection of the reader asks for a time limit.\<close>

definition Aggregate :: "extlib \<Rightarrow> query_conn \<Rightarrow> AggregateParams \<Rightarrow> query_conn option \<Rightarrow> (dbstate, AggregatesHistogram) go" where
  "Aggregate lib conn p conns =
     go_bind (if lp_StartTime (ag_ListParams p) = zero_time then getFirstTransactionTime conn (ag_ChainIDs p)
              else go_return (lp_StartTime (ag_ListParams p))) (\<lambda>startTime.
     go_bind (go_lift (requestedIntervalCount (ag_IntervalSize p) startTime (lp_EndTime (ag_ListParams p)))) (\<lambda>cnt.
     go_then (case conns of Some _ \<Rightarrow> go_return () | None \<Rightarrow> qc_NewSession conn ''get_transaction_aggregates_histogram'')
       (go_bind (qc_load (case conns of Some c \<Rightarrow> c | None \<Rightarrow> conn) (agg_query lib p startTime (duration_seconds (ag_IntervalSize p)) cnt)) (\<lambda>rows.
          go_lift (agg_histogram p startTime (duration_seconds (ag_IntervalSize p)) cnt (map agg_of_row rows))))))"

section \<open>Padding\<close>

lemma padTo_append: "padTo mk xs n = xs @ map (\<lambda>i. mk (int i)) [length xs ..< nat n]"
proof (induction mk xs n rule: padTo.induct)
  case (1 mk xs n)
  show ?case
  proof (cases "int (length xs) < n")
    case True
    then have "[length xs ..< nat n] = length xs # [Suc (length xs) ..< nat n]" by (intro upt_conv_Cons) simp
    with True 1 show ?thesis by (simp add: padTo.simps [of mk xs n])
  next
    case False
    then show ?thesis by (simp add: padTo.simps [of mk xs n])
  qed
qed

text \<open>What stands at a position: the interval with that index, and padding where there is none.\<close>

definition placed :: "(int \<Rightarrow> 'a) \<Rightarrow> ('b \<Rightarrow> int) \<Rightarrow> ('b \<Rightarrow> 'a) \<Rightarrow> 'b list \<Rightarrow> nat \<Rightarrow> 'a" where
  "placed mk idx fmt vs i = (case List.find (\<lambda>v. idx v = int i) vs of Some v \<Rightarrow> fmt v | None \<Rightarrow> mk (int i))"

lemma placed_Cons: "placed mk idx fmt (v # vs) i = (if idx v = int i then fmt v else placed mk idx fmt vs i)"
  by (simp add: placed_def)

lemma placed_none: "(\<And>v. v \<in> set vs \<Longrightarrow> idx v \<noteq> int i) \<Longrightarrow> placed mk idx fmt vs i = mk (int i)"
  by (induction vs) (auto simp: placed_Cons placed_def)

lemma padTo_positions:
  assumes "sorted_wrt (<) (map idx vs)" "\<And>v. v \<in> set vs \<Longrightarrow> int (length xs) \<le> idx v \<and> idx v < n"
  shows "padTo mk (foldl (\<lambda>xs v. padTo mk xs (idx v) @ [fmt v]) xs vs) n = xs @ map (placed mk idx fmt vs) [length xs ..< nat n]"
  using assms
proof (induction vs arbitrary: xs)
  case Nil
  then show ?case by (simp add: padTo_append placed_def)
next
  case (Cons v vs)
  let ?k = "nat (idx v)"
  define ys where "ys = padTo mk xs (idx v) @ [fmt v]"
  have k: "length xs \<le> ?k" "?k < nat n" "idx v = int ?k" using Cons.prems(2) [of v] by auto
  have later: "w \<in> set vs \<Longrightarrow> int ?k < idx w" for w using Cons.prems(1) k(3) by auto
  have len: "length ys = Suc ?k" using k(1) by (simp add: ys_def padTo_append)
  have IH: "padTo mk (foldl (\<lambda>xs v. padTo mk xs (idx v) @ [fmt v]) ys vs) n = ys @ map (placed mk idx fmt vs) [Suc ?k ..< nat n]"
    unfolding len [symmetric]
  proof (rule Cons.IH)
    show "int (length ys) \<le> idx w \<and> idx w < n" if "w \<in> set vs" for w using later [OF that] Cons.prems(2) [of w] that len by simp
  qed (use Cons.prems(1) in simp)
  have split: "[length xs ..< nat n] = [length xs ..< ?k] @ ?k # [Suc ?k ..< nat n]"
    using k by (metis le_add_diff_inverse less_imp_le upt_add_eq_append upt_conv_Cons)
  have "map (placed mk idx fmt (v # vs)) [length xs ..< ?k] = map (\<lambda>i. mk (int i)) [length xs ..< ?k]"
  proof (rule map_cong [OF refl])
    fix i assume "i \<in> set [length xs ..< ?k]"
    then show "placed mk idx fmt (v # vs) i = mk (int i)" by (intro placed_none) (use k(3) later in fastforce)
  qed
  moreover have "placed mk idx fmt (v # vs) ?k = fmt v" using k(3) by (simp add: placed_Cons)
  moreover have "map (placed mk idx fmt (v # vs)) [Suc ?k ..< nat n] = map (placed mk idx fmt vs) [Suc ?k ..< nat n]"
    by (rule map_cong [OF refl]) (use k(3) in \<open>auto simp: placed_Cons\<close>)
  ultimately have "map (placed mk idx fmt (v # vs)) [length xs ..< nat n]
      = map (\<lambda>i. mk (int i)) [length xs ..< ?k] @ fmt v # map (placed mk idx fmt vs) [Suc ?k ..< nat n]" by (simp only: split map_append list.map)
  with IH show ?case by (simp add: ys_def padTo_append)
qed

section \<open>Groups\<close>

lemma q_group_keys: "set (map fst (q_group f rs)) = f ` set rs"
  by (induction f rs rule: q_group.induct) auto

lemma q_group_distinct: "distinct (map fst (q_group f rs))"
proof (induction f rs rule: q_group.induct)
  case (2 f r rs)
  have "f r \<notin> set (map fst (q_group f (filter (\<lambda>x. f x \<noteq> f r) rs)))" unfolding q_group_keys by auto
  with 2 show ?case by simp
qed simp

lemma q_group_rows: "(k, g) \<in> set (q_group f rs) \<Longrightarrow> g = filter (\<lambda>r. f r = k) rs"
proof (induction f rs rule: q_group.induct)
  case (2 f r rs)
  show ?case
  proof (cases "(k, g) = (f r, r # filter (\<lambda>x. f x = f r) rs)")
    case False
    with 2 have g: "(k, g) \<in> set (q_group f (filter (\<lambda>x. f x \<noteq> f r) rs))" by auto
    then have "k \<noteq> f r" using q_group_keys [of f "filter (\<lambda>x. f x \<noteq> f r) rs"] by force
    moreover have "filter (\<lambda>x. f x = k) (filter (\<lambda>x. f x \<noteq> f r) rs) = filter (\<lambda>x. f x = k) rs"
      unfolding filter_filter by (rule filter_cong) (use calculation in auto)
    ultimately show ?thesis using 2 g by auto
  qed simp
qed simp

section \<open>The histogram of fees\<close>

definition fee_value :: "string \<Rightarrow> int" where
  "fee_value s = (case big_SetString s of None \<Rightarrow> 0 | Some x \<Rightarrow> x)"

definition with_times :: "gotime \<Rightarrow> int \<Rightarrow> TxfeeAggregates \<Rightarrow> TxfeeAggregates" where
  "with_times startTime iv v = v\<lparr>ta_StartTime := fst (timesForInterval startTime iv (ta_Idx v)), ta_EndTime := snd (timesForInterval startTime iv (ta_Idx v))\<rparr>"

lemma txfee_intervals_fold:
  "txfee_intervals st iv vs acc tot = Inr (acc', tot') \<Longrightarrow>
    acc' = foldl (\<lambda>xs v. padTo (txfee_pad st iv) xs (ta_Idx v) @ [with_times st iv v]) acc vs \<and> tot' = tot + (\<Sum>v \<leftarrow> vs. fee_value (ta_Txfee v))"
proof (induction vs arbitrary: acc tot)
  case (Cons v vs)
  then obtain x where "big_SetString (ta_Txfee v) = Some x"
    "txfee_intervals st iv vs (padTo (txfee_pad st iv) acc (ta_Idx v) @ [with_times st iv v]) (tot + x) = Inr (acc', tot')"
    by (auto simp: Let_def with_times_def split: prod.splits option.splits)
  with Cons.IH [OF this(2)] show ?case by (simp add: fee_value_def)
qed simp

text \<open>The fees of the transactions of some chains in a span of time.\<close>

definition fees_between :: "string list \<Rightarrow> gotime \<Rightarrow> gotime \<Rightarrow> tables \<Rightarrow> int" where
  "fees_between chainIDs a b T =
     (\<Sum>r \<leftarrow> T TableTransactions. if (chainIDs \<noteq> [] \<longrightarrow> in_texts r ''chain_id'' chainIDs) \<and> a \<le> getT r ''created_at'' \<and> getT r ''created_at'' < b
        then getI r ''txfee'' else 0)"

lemma qualified_tx:
  "qualify ''avm_transactions'' r ''avm_transactions.created_at'' = r ''created_at''"
  "qualify ''avm_transactions'' r ''avm_transactions.chain_id'' = r ''chain_id''"
  "qualify ''avm_transactions'' r ''avm_transactions.txfee'' = r ''txfee''"
  using qualify_at [of "''avm_transactions''" r "''created_at''"] qualify_at [of "''avm_transactions''" r "''chain_id''"]
    qualify_at [of "''avm_transactions''" r "''txfee''"] by simp_all

lemma sum_column_filter: "sum_column c (filter P (map g xs)) = (\<Sum>x \<leftarrow> xs. if P (g x) then getI (g x) c else 0)"
  by (induction xs) (auto simp: sum_column_def)

lemma txfee_where_sum:
  assumes "tx_rows_ok T"
  shows "sum_column ''avm_transactions.txfee'' (filter (\<lambda>r. a \<le> getT r ''avm_transactions.created_at'' \<and> getT r ''avm_transactions.created_at'' < b) (txfee_where p startTime T))
    = fees_between (tf_ChainIDs p) (max a startTime) (min b (lp_EndTime (tf_ListParams p))) T"
proof -
  have row: "\<exists>t. r ''created_at'' = Some (VT t)" if "r \<in> set (T TableTransactions)" for r
    using assms that new_tx_row(3) unfolding tx_rows_ok_def by metis
  show ?thesis
    unfolding txfee_where_def q_from_def filter_filter sum_column_filter fees_between_def
  proof (intro arg_cong [of _ _ sum_list] map_cong refl)
    fix r assume "r \<in> set (T TableTransactions)"
    then obtain t where t: "r ''created_at'' = Some (VT t)" using row by blast
    show "(if (where_holds (qualify ''avm_transactions'' r) (WhereGe ''avm_transactions.created_at'' startTime) \<and>
               where_holds (qualify ''avm_transactions'' r) (WhereLt ''avm_transactions.created_at'' (lp_EndTime (tf_ListParams p))) \<and>
               (tf_ChainIDs p \<noteq> [] \<longrightarrow> in_texts (qualify ''avm_transactions'' r) ''avm_transactions.chain_id'' (tf_ChainIDs p))) \<and>
              a \<le> getT (qualify ''avm_transactions'' r) ''avm_transactions.created_at'' \<and> getT (qualify ''avm_transactions'' r) ''avm_transactions.created_at'' < b
           then getI (qualify ''avm_transactions'' r) ''avm_transactions.txfee'' else 0)
        = (if (tf_ChainIDs p \<noteq> [] \<longrightarrow> in_texts r ''chain_id'' (tf_ChainIDs p)) \<and>
              max a startTime \<le> getT r ''created_at'' \<and> getT r ''created_at'' < min b (lp_EndTime (tf_ListParams p))
           then getI r ''txfee'' else 0)"
      by (auto simp: getT_def getI_def in_texts_def qualified_tx t)
  qed
qed

lemma sum_column_append [simp]: "sum_column c (xs @ ys) = sum_column c xs + sum_column c ys"
  by (simp add: sum_column_def)

lemma sum_column_split: "sum_column c rs = sum_column c (filter P rs) + sum_column c (filter (\<lambda>r. \<not> P r) rs)"
  by (induction rs) (auto simp: sum_column_def)

lemma q_group_sum: "(\<Sum>x \<leftarrow> q_group f rs. sum_column c (snd x)) = sum_column c rs"
proof (induction f rs rule: q_group.induct)
  case (2 f r rs)
  have "sum_column c (r # rs) = sum_column c (r # filter (\<lambda>x. f x = f r) rs) + sum_column c (filter (\<lambda>x. f x \<noteq> f r) rs)"
    using sum_column_split [of c rs "\<lambda>x. f x = f r"] by (simp add: sum_column_def)
  with 2 show ?case by simp
qed (simp add: sum_column_def)

lemma ceil_div_scale: "k > 0 \<Longrightarrow> ceil_div (a * k) (b * k) = ceil_div a b"
  unfolding ceil_div_def by (metis div_mult_mult2 less_irrefl mult_minus_left)

lemma ceil_div_covers:
  assumes "iv > 0" "x > (0 :: int)"
  shows "1 \<le> ceil_div x iv" "x \<le> ceil_div x iv * iv"
proof -
  have "(- x) div iv < 0" using assms by (simp add: div_neg_pos_less0)
  then show "1 \<le> ceil_div x iv" by (simp add: ceil_div_def)
  have "(- x) div iv * iv + (- x) mod iv = - x" by (rule div_mult_mod_eq)
  moreover have "0 \<le> (- x) mod iv" using assms by simp
  ultimately show "x \<le> ceil_div x iv * iv" unfolding ceil_div_def by linarith
qed

lemma mset_sum: "mset xs = mset ys \<Longrightarrow> (\<Sum>x \<leftarrow> xs. g x) = (\<Sum>x \<leftarrow> ys. g x :: int)"
  by (metis mset_map sum_mset_sum_list)

text \<open>The rows of the query are the groups, each at its index.\<close>

lemma txfee_groups:
  assumes idx: "\<forall>r \<in> set (txfee_where p st T). 0 \<le> idx_of ''avm_transactions.created_at'' st iv r \<and> idx_of ''avm_transactions.created_at'' st iv r < n"
    and "n > 0"
  defines "V \<equiv> map txfee_of_row (txfee_query p st iv n T)" and "W \<equiv> txfee_where p st T" and "f \<equiv> idx_of ''avm_transactions.created_at'' st iv"
  shows "sorted_wrt (<) (map ta_Idx V)"
    and "set V = (\<lambda>k. zero_TxfeeAggregates\<lparr>ta_Idx := k, ta_Txfee := Itoa (sum_column ''avm_transactions.txfee'' (filter (\<lambda>r. f r = k) W))\<rparr>) ` f ` set W"
    and "(\<Sum>v \<leftarrow> V. fee_value (ta_Txfee v)) = sum_column ''avm_transactions.txfee'' W"
proof -
  let ?G = "q_group f W"
  define R :: "row list" where "R = map (\<lambda>(i, g). [''idx'' \<mapsto> VI i, ''txfee'' \<mapsto> VI (sum_column ''avm_transactions.txfee'' g)]) ?G"
  have "set (map fst ?G) \<subseteq> {0 ..< n}" unfolding q_group_keys using idx by (auto simp: W_def f_def)
  then have "card (set (map fst ?G)) \<le> nat n" using card_mono [of "{0 ..< n}" "set (map fst ?G)"] by simp
  then have len: "length ?G \<le> nat n" using distinct_card [OF q_group_distinct [of f W]] by simp
  have V: "V = map txfee_of_row (sort_key (\<lambda>r. getI r ''idx'') R)"
    using assms(2) len unfolding V_def txfee_query_def Let_def by (simp add: R_def W_def f_def)
  define mk where "mk x = zero_TxfeeAggregates\<lparr>ta_Idx := fst x, ta_Txfee := Itoa (sum_column ''avm_transactions.txfee'' (snd x))\<rparr>" for x :: "int \<times> row list"
  have R: "map txfee_of_row R = map mk ?G"
    by (auto simp: R_def txfee_of_row_def getI_def getS_def mk_def)
  have mV: "mset V = mset (map mk ?G)" unfolding V R [symmetric] by simp
  have "map ta_Idx V = map (\<lambda>r. getI r ''idx'') (sort_key (\<lambda>r. getI r ''idx'') R)" by (simp add: V txfee_of_row_def zero_TxfeeAggregates_def)
  then have "sorted (map ta_Idx V)" by simp
  moreover have "mset (map ta_Idx V) = mset (map fst ?G)" using arg_cong [OF mV, of "image_mset ta_Idx"] by (simp add: mk_def comp_def image_mset.compositionality)
  then have "distinct (map ta_Idx V)" using q_group_distinct [of f W] by (metis mset_eq_imp_distinct_iff)
  ultimately show "sorted_wrt (<) (map ta_Idx V)" by (simp add: strict_sorted_iff)
  have "set V = mk ` set ?G" using mset_eq_setD [OF mV] by simp
  also have "\<dots> = (\<lambda>k. zero_TxfeeAggregates\<lparr>ta_Idx := k, ta_Txfee := Itoa (sum_column ''avm_transactions.txfee'' (filter (\<lambda>r. f r = k) W))\<rparr>) ` fst ` set ?G"
    unfolding image_image
  proof (rule image_cong [OF refl])
    fix x assume "x \<in> set ?G"
    then have "snd x = filter (\<lambda>r. f r = fst x) W" by (intro q_group_rows) simp
    then show "mk x = zero_TxfeeAggregates\<lparr>ta_Idx := fst x, ta_Txfee := Itoa (sum_column ''avm_transactions.txfee'' (filter (\<lambda>r. f r = fst x) W))\<rparr>"
      by (simp add: mk_def)
  qed
  finally show "set V = (\<lambda>k. zero_TxfeeAggregates\<lparr>ta_Idx := k, ta_Txfee := Itoa (sum_column ''avm_transactions.txfee'' (filter (\<lambda>r. f r = k) W))\<rparr>) ` f ` set W"
    using q_group_keys [of f W] by simp
  have "(\<Sum>v \<leftarrow> V. fee_value (ta_Txfee v)) = (\<Sum>v \<leftarrow> map mk ?G. fee_value (ta_Txfee v))"
    by (rule mset_sum [OF mV])
  then show "(\<Sum>v \<leftarrow> V. fee_value (ta_Txfee v)) = sum_column ''avm_transactions.txfee'' W"
    by (simp add: mk_def fee_value_def comp_def q_group_sum)
qed

lemma requestedIntervalCount_whole:
  assumes "iv > 0" "s < e" "(e - s) * nanos_per_second < 2 ^ 63" "requestedIntervalCount (iv * nanos_per_second) (s * nanos_per_second) (e * nanos_per_second) = Inr n"
  shows "n = ceil_div (e - s) iv" "n \<le> 20000"
proof -
  have "duration_seconds (iv * nanos_per_second) = iv" using assms(1) by (simp add: duration_seconds_def)
  moreover have "time_Sub (e * nanos_per_second) (s * nanos_per_second) = (e - s) * nanos_per_second"
    using assms(2,3) by (simp add: time_Sub_def algebra_simps)
  moreover have "ceil_div ((e - s) * nanos_per_second) (iv * nanos_per_second) = ceil_div (e - s) iv" by (rule ceil_div_scale) simp
  ultimately show "n = ceil_div (e - s) iv" "n \<le> 20000"
    using assms ceil_div_covers(1) [of iv "e - s"]
    by (auto simp: requestedIntervalCount_def Let_def MaxAggregateIntervalCount_def split: if_splits)
qed

lemma div_window:
  fixes x k i :: int
  assumes "k > 0"
  shows "x div k = i \<longleftrightarrow> i * k \<le> x \<and> x < i * k + k"
proof
  assume "x div k = i"
  then have "i * k + x mod k = x" using div_mult_mod_eq [of x k] by simp
  moreover have "0 \<le> x mod k" "x mod k < k" using assms by simp_all
  ultimately show "i * k \<le> x \<and> x < i * k + k" by linarith
next
  assume "i * k \<le> x \<and> x < i * k + k"
  then show "x div k = i" by (intro int_div_pos_eq [of _ _ _ "x - i * k"]) simp_all
qed

lemma div_range:
  fixes x k n :: int
  assumes "k > 0" "0 \<le> x" "x < n * k"
  shows "0 \<le> x div k \<and> x div k < n"
proof -
  have "x div k * k \<le> x" using div_window [OF assms(1), of x "x div k"] by simp
  then have "x div k * k < n * k" using assms(3) by linarith
  then show ?thesis using assms by (simp add: pos_imp_zdiv_nonneg_iff)
qed

lemma idx_window:
  fixes t :: int
  assumes "iv > 0"
  shows "(t - s * nanos_per_second) div (iv * nanos_per_second) = i
    \<longleftrightarrow> (s + i * iv) * nanos_per_second \<le> t \<and> t < (s + i * iv) * nanos_per_second + iv * nanos_per_second"
  using div_window [of "iv * nanos_per_second" "t - s * nanos_per_second" i] assms by (simp add: algebra_simps)

lemma timesForInterval_seconds:
  "timesForInterval (s * nanos_per_second) iv i = ((s + i * iv) * nanos_per_second, (s + i * iv) * nanos_per_second + (iv - 1) * nanos_per_second)"
  by (simp add: timesForInterval_def Let_def Time_Unix_def time_Unix_def algebra_simps)

lemma fee_value_Itoa: "fee_value (Itoa x) = x"
  by (simp add: fee_value_def)

lemma interval_fields:
  "ta_Idx (with_times st iv v) = ta_Idx v" "ta_Txfee (with_times st iv v) = ta_Txfee v"
  "ta_StartTime (with_times st iv v) = fst (timesForInterval st iv (ta_Idx v))" "ta_EndTime (with_times st iv v) = snd (timesForInterval st iv (ta_Idx v))"
  "ta_Idx (txfee_pad st iv i) = i" "ta_Txfee (txfee_pad st iv i) = []"
  "ta_StartTime (txfee_pad st iv i) = fst (timesForInterval st iv i)" "ta_EndTime (txfee_pad st iv i) = snd (timesForInterval st iv i)"
  "fee_value [] = 0"
  by (simp_all add: with_times_def txfee_pad_def zero_TxfeeAggregates_def fee_value_def big_SetString_def digits_ok_def HasPrefix_def split: prod.splits)

abbreviation tx_created :: string where "tx_created \<equiv> ''avm_transactions.created_at''"
abbreviation group_fee :: "gotime \<Rightarrow> int \<Rightarrow> row list \<Rightarrow> int \<Rightarrow> int" where
  "group_fee st iv W i \<equiv> sum_column ''avm_transactions.txfee'' (filter (\<lambda>r. idx_of tx_created st iv r = i) W)"

lemma idx_of_window:
  assumes "iv > 0"
  shows "idx_of c (s * nanos_per_second) iv r = i
    \<longleftrightarrow> (s + i * iv) * nanos_per_second \<le> getT r c \<and> getT r c < (s + i * iv) * nanos_per_second + iv * nanos_per_second"
proof -
  have "Time_Unix (s * nanos_per_second) = s" by (simp add: Time_Unix_def)
  then show ?thesis unfolding idx_of_def by (simp only: idx_window [OF assms])
qed

lemma txfee_where_span:
  assumes "r \<in> set (txfee_where p (s * nanos_per_second) T)" "lp_EndTime (tf_ListParams p) = e * nanos_per_second"
  shows "s * nanos_per_second \<le> getT r tx_created" "getT r tx_created < e * nanos_per_second"
  using assms by (auto simp: txfee_where_def getT_def split: option.splits dbval.splits)

lemma txfee_where_index:
  assumes "r \<in> set (txfee_where p (s * nanos_per_second) T)" "lp_EndTime (tf_ListParams p) = e * nanos_per_second" "iv > 0" "e - s \<le> n * iv"
  shows "0 \<le> idx_of tx_created (s * nanos_per_second) iv r \<and> idx_of tx_created (s * nanos_per_second) iv r < n"
proof -
  have "Time_Unix (s * nanos_per_second) = s" by (simp add: Time_Unix_def)
  moreover have "(e - s) * nanos_per_second \<le> n * iv * nanos_per_second" using assms(4) by (simp only: mult_right_mono)
  moreover have "getT r tx_created - s * nanos_per_second < (e - s) * nanos_per_second"
    using txfee_where_span(2) [OF assms(1,2)] by (simp add: left_diff_distrib)
  ultimately show ?thesis
    unfolding idx_of_def by (intro div_range) (use assms(3) txfee_where_span(1) [OF assms(1,2)] in \<open>simp_all add: mult.assoc\<close>)
qed

text \<open>The entry at a position, made from the groups \<open>V\<close> of the rows \<open>W\<close> or padded.\<close>

lemma placed_group:
  assumes V: "set V = (\<lambda>k. zero_TxfeeAggregates\<lparr>ta_Idx := k, ta_Txfee := Itoa (group_fee st iv W k)\<rparr>) ` idx_of tx_created st iv ` set W"
  shows "placed pad ta_Idx g V i = g (zero_TxfeeAggregates\<lparr>ta_Idx := int i, ta_Txfee := Itoa (group_fee st iv W (int i))\<rparr>)
    \<or> placed pad ta_Idx g V i = pad (int i) \<and> filter (\<lambda>r. idx_of tx_created st iv r = int i) W = []"
proof (cases "List.find (\<lambda>v. ta_Idx v = int i) V")
  case None
  then have none: "ta_Idx v \<noteq> int i" if "v \<in> set V" for v using that by (simp add: find_None_iff)
  have "idx_of tx_created st iv r \<noteq> int i" if "r \<in> set W" for r
  proof -
    have "zero_TxfeeAggregates\<lparr>ta_Idx := idx_of tx_created st iv r, ta_Txfee := Itoa (group_fee st iv W (idx_of tx_created st iv r))\<rparr> \<in> set V"
      unfolding V by (intro imageI that)
    from none [OF this] show ?thesis by simp
  qed
  then have "filter (\<lambda>r. idx_of tx_created st iv r = int i) W = []" by (simp only: filter_empty_conv) blast
  with None show ?thesis by (simp only: placed_def option.case simp_thms)
next
  case (Some w)
  then have "w \<in> set V" "ta_Idx w = int i" by (auto simp: find_Some_iff)
  then have "w = zero_TxfeeAggregates\<lparr>ta_Idx := int i, ta_Txfee := Itoa (group_fee st iv W (int i))\<rparr>" unfolding V by (elim imageE) simp
  with Some show ?thesis by (simp only: placed_def option.case simp_thms)
qed

lemma placed_interval:
  assumes "set V = (\<lambda>k. zero_TxfeeAggregates\<lparr>ta_Idx := k, ta_Txfee := Itoa (group_fee (s * nanos_per_second) iv W k)\<rparr>)
      ` idx_of tx_created (s * nanos_per_second) iv ` set W"
    and "v = placed (txfee_pad (s * nanos_per_second) iv) ta_Idx (with_times (s * nanos_per_second) iv) V i"
  shows "ta_Idx v = int i \<and> ta_StartTime v = (s + int i * iv) * nanos_per_second \<and> ta_EndTime v = (s + int i * iv) * nanos_per_second + (iv - 1) * nanos_per_second
    \<and> fee_value (ta_Txfee v) = group_fee (s * nanos_per_second) iv W (int i)"
  using placed_group [OF assms(1), of "txfee_pad (s * nanos_per_second) iv" "with_times (s * nanos_per_second) iv" i] assms(2)
  by (elim disjE) (simp_all add: interval_fields timesForInterval_seconds fee_value_Itoa sum_column_def)

lemma group_fee_between:
  assumes "tx_rows_ok T" "iv > 0" "lp_EndTime (tf_ListParams p) = e * nanos_per_second"
  shows "group_fee (s * nanos_per_second) iv (txfee_where p (s * nanos_per_second) T) (int i)
    = fees_between (tf_ChainIDs p) ((s + int i * iv) * nanos_per_second) (min ((s + int i * iv) * nanos_per_second + iv * nanos_per_second) (e * nanos_per_second)) T"
proof -
  let ?a = "(s + int i * iv) * nanos_per_second"
  have "0 \<le> int i * iv" using assms(2) by simp
  then have "s * nanos_per_second \<le> ?a" by (simp add: distrib_right)
  then have "max ?a (s * nanos_per_second) = ?a" by (rule max_absorb1)
  then show ?thesis
    using txfee_where_sum [OF assms(1), of ?a "?a + iv * nanos_per_second" p "s * nanos_per_second"] assms(3) by (simp only: idx_of_window [OF assms(2)])
qed

text \<open>C22. The histogram of fees, for an interval and times of whole seconds: there is one entry for each interval from the start
  on, at its position and with its times, whether or not it has transactions; the fee of an entry is the sum of the fees of the
  transactions that were created in its interval, and the total is the sum over the whole span.\<close>

theorem TxfeeAggregate_exact:
  assumes "query_server conn" "tx_rows_ok (tabs d)" "TxfeeAggregate conn p d = (Inr h, d')"
    and iv: "tf_IntervalSize p = iv * nanos_per_second" "iv > 0"
    and span: "lp_StartTime (tf_ListParams p) = s * nanos_per_second" "lp_EndTime (tf_ListParams p) = e * nanos_per_second" "s < e"
      "(e - s) * nanos_per_second < 2 ^ 63" "s * nanos_per_second \<noteq> zero_time"
  shows "int (length (th_Intervals h)) = ceil_div (e - s) iv \<and> length (th_Intervals h) \<le> 20000
    \<and> (\<forall>i < length (th_Intervals h). let v = th_Intervals h ! i; a = (s + int i * iv) * nanos_per_second in
         ta_Idx v = int i \<and> ta_StartTime v = a \<and> ta_EndTime v = a + (iv - 1) * nanos_per_second
         \<and> fee_value (ta_Txfee v) = fees_between (tf_ChainIDs p) a (min (a + iv * nanos_per_second) (e * nanos_per_second)) (tabs d))
    \<and> ta_Txfee (th_TxfeeAggregates h) = Itoa (fees_between (tf_ChainIDs p) (s * nanos_per_second) (e * nanos_per_second) (tabs d))"
proof -
  let ?st = "s * nanos_per_second" and ?T = "tabs d"
  let ?W = "txfee_where p ?st ?T"
  have sec: "duration_seconds (tf_IntervalSize p) = iv" using iv by (simp add: duration_seconds_def)
  obtain n rows d1 d2 where n: "requestedIntervalCount (tf_IntervalSize p) ?st (e * nanos_per_second) = Inr n"
    and ses: "qc_NewSession conn ''get_txfee_aggregates_histogram'' d = (Inr (), d1)"
    and load: "qc_load conn (txfee_query p ?st iv n) d1 = (Inr rows, d2)" and h: "txfee_histogram p ?st iv n (map txfee_of_row rows) = Inr h"
    using assms(3) span sec unfolding TxfeeAggregate_def
    by (auto simp: go_lift_run go_return_run elim!: go_bind_Inr go_then_Inr)
  note cnt = requestedIntervalCount_whole [OF iv(2) span(3,4), of n] and cover = ceil_div_covers [OF iv(2), of "e - s"]
  have n': "n = ceil_div (e - s) iv" "n \<le> 20000" "n > 0" "e - s \<le> n * iv" using cnt n iv(1) cover span(3) by simp_all
  have tabs: "tabs d1 = ?T" using query_server.session_keeps [OF assms(1)] ses by (metis snd_conv)
  define V where "V = map txfee_of_row (txfee_query p ?st iv n ?T)"
  have rows: "map txfee_of_row rows = V" using query_server.load_rows [OF assms(1) load] by (simp add: V_def tabs)
  have range: "\<forall>r \<in> set ?W. 0 \<le> idx_of tx_created ?st iv r \<and> idx_of tx_created ?st iv r < n"
    using txfee_where_index [OF _ span(2) iv(2) n'(4)] by blast
  note V = txfee_groups [OF range n'(3), folded V_def]
  obtain acc tot where acc: "txfee_intervals ?st iv V [] 0 = Inr (acc, tot)"
    and th: "th_Intervals h = padTo (txfee_pad ?st iv) acc n" "ta_Txfee (th_TxfeeAggregates h) = Itoa tot"
    using h n'(3) unfolding txfee_histogram_def rows by (auto simp: Let_def res_bind_Inr)
  have "0 \<le> ta_Idx v \<and> ta_Idx v < n" if "v \<in> set V" for v using that V(2) range by (auto simp: zero_TxfeeAggregates_def)
  then have ints: "th_Intervals h = map (placed (txfee_pad ?st iv) ta_Idx (with_times ?st iv) V) [0 ..< nat n]"
    using padTo_positions [of ta_Idx V "[]" n "txfee_pad ?st iv" "with_times ?st iv"] V(1) th(1) txfee_intervals_fold [OF acc] by simp
  have "filter (\<lambda>r. ?st \<le> getT r tx_created \<and> getT r tx_created < e * nanos_per_second) ?W = ?W"
    using txfee_where_span [OF _ span(2)] by (simp add: filter_id_conv)
  then have "tot = fees_between (tf_ChainIDs p) ?st (e * nanos_per_second) ?T"
    using txfee_where_sum [OF assms(2), of ?st "e * nanos_per_second" p ?st] conjunct2 [OF txfee_intervals_fold [OF acc]] V(3) span(2) by simp
  moreover note placed_interval [OF V(2) refl] group_fee_between [OF assms(2) iv(2) span(2)]
  ultimately show ?thesis using n' th(2) by (simp add: ints Let_def)
qed

text \<open>Two transactions, created at 1 and 3 seconds.\<close>

definition two_fees :: dbstate where
  "two_fees = \<lparr>tabs = (\<lambda>t. if t = TableTransactions then map (\<lambda>(i, sec, fee). new_row TableTransactions (Transactions_cols
       (zero_Transactions\<lparr>Transactions_ID := i, Transactions_CreatedAt := sec * nanos_per_second, Transactions_Txfee := fee\<rparr>))) [(''t'', 1, 5), (''u'', 3, 7)] else []), ticks = 0\<rparr>"

definition two_intervals :: TxfeeAggregateParams where
  "two_intervals = zero_TxfeeAggregateParams\<lparr>tf_ListParams := zero_ListParams\<lparr>lp_StartTime := 0, lp_EndTime := 4 * nanos_per_second\<rparr>, tf_IntervalSize := 2 * nanos_per_second\<rparr>"

theorem TxfeeAggregate_exact_witness:
  "\<exists>h d'. TxfeeAggregate (mysql_ro (\<lambda>_. None)) two_intervals two_fees = (Inr h, d') \<and> length (th_Intervals h) = 2
    \<and> fee_value (ta_Txfee (th_Intervals h ! 0)) = 5 \<and> fee_value (ta_Txfee (th_Intervals h ! 1)) = 7 \<and> ta_Txfee (th_TxfeeAggregates h) = Itoa 12"
proof -
  let ?r = "TxfeeAggregate (mysql_ro (\<lambda>_. None)) two_intervals two_fees"
  have "\<not> isl (fst ?r)" by code_simp
  then obtain h d' where r: "?r = (Inr h, d')" by (metis isl_def prod.collapse sum.collapse(2))
  have ok: "tx_rows_ok (tabs two_fees)" by (auto simp: tx_rows_ok_def two_fees_def)
  have "ceil_div (4 - 0) 2 = 2" by (simp add: ceil_div_def)
  moreover have "fees_between [] 0 (2 * nanos_per_second) (tabs two_fees) = 5" "fees_between [] (2 * nanos_per_second) (4 * nanos_per_second) (tabs two_fees) = 7"
    "fees_between [] 0 (4 * nanos_per_second) (tabs two_fees) = 12"
    by (simp_all add: fees_between_def two_fees_def getT_def getI_def new_tx_row)
  moreover note TxfeeAggregate_exact [OF mysql_ro.query_server_axioms ok r, of 2 0 4]
  ultimately show ?thesis using r
    by (simp add: two_intervals_def zero_TxfeeAggregateParams_def zero_time_def Let_def)
qed

end
