(* ===== verification/Reader.thy ===== *)
theory Reader
  imports ReaderTxs ReaderAggr
begin

text \<open>
  The other lists of the API: addresses, outputs, assets, blocks, the chains of an address, the search, and the raw data of
  transactions and blocks (\<open>reader.go\<close>, \<open>reader_util.go\<close>, \<open>avm_reader.go\<close> and \<open>pvm_reader.go\<close> of
  \<open>src/services/indexes/axc\<close>).

  A condition on a column that the tables of a query do not have is refused by the server, as is the comparison of a
  column with a list of several values; a column that is \<open>NULL\<close> or negative cannot be scanned into an unsigned number. These
  three errors depend on the query and the data alone, and are values here (\<open>unknown_column\<close>, \<open>scan_error\<close>).
\<close>

section \<open>Errors of a query\<close>

definition unknown_column :: go_error where
  "unknown_column = ErrorString ''Error 1054: Unknown column''"

definition scan_error :: go_error where
  "scan_error = ErrorString ''sql: Scan error''"

fun cond_valid :: "string list \<Rightarrow> where_cond \<Rightarrow> bool" where
  "cond_valid cols (WhereEq c _) = (c \<in> set cols)"
| "cond_valid cols (WhereEqSlice c xs) = (c \<in> set cols \<and> length xs = 1)"
| "cond_valid cols (WhereIn c _) = (c \<in> set cols)"
| "cond_valid cols (WhereLike c _) = (c \<in> set cols)"
| "cond_valid cols (WhereGe c _) = (c \<in> set cols)"
| "cond_valid cols (WhereLt c _) = (c \<in> set cols)"
| "cond_valid cols (WhereIsNull c) = (c \<in> set cols)"
| "cond_valid cols (WhereIsNotNull c) = (c \<in> set cols)"
| "cond_valid cols (WhereOr cs) = list_all (cond_valid cols) cs"

text \<open>A query with the conditions of \<open>b\<close>, over tables with the columns \<open>cols\<close>.\<close>

definition load_valid :: "query_conn \<Rightarrow> string list \<Rightarrow> SelectBuilder \<Rightarrow> (tables \<Rightarrow> row list) \<Rightarrow> (dbstate, row list) go" where
  "load_valid conn cols b q = (if list_all (cond_valid cols) (sb_where b) then qc_load conn q else go_raise unknown_column)"

definition scan_u64 :: "row \<Rightarrow> string \<Rightarrow> go_error + u64" where
  "scan_u64 r c = (case r c of Some (VI i) \<Rightarrow> if 0 \<le> i \<and> i < 2 ^ 64 then Inr (word_of_int i) else Inl scan_error | _ \<Rightarrow> Inl scan_error)"

fun res_map :: "('a \<Rightarrow> 'e + 'b) \<Rightarrow> 'a list \<Rightarrow> 'e + 'b list" where
  "res_map f [] = Inr []"
| "res_map f (x # xs) = res_bind (f x) (\<lambda>y. res_bind (res_map f xs) (\<lambda>ys. Inr (y # ys)))"

text \<open>The count of a list: the size of the page, or when the page is full what a second query, without the parameters of the
  list, counts.\<close>

definition list_count :: "ListParams \<Rightarrow> nat \<Rightarrow> (dbstate, u64) go \<Rightarrow> (dbstate, u64 option) go" where
  "list_count l n full =
     (if lp_DisableCounting l then go_return None
      else if int n \<ge> lp_Limit l then go_bind full (\<lambda>c. go_return (Some c))
      else go_return (Some (count_of (lp_Offset l) n)))"

section \<open>Addresses\<close>

record AssetInfo =
  ni_AssetID :: string
  ni_TransactionCount :: u64
  ni_UTXOCount :: u64
  ni_Balance :: string
  ni_TotalReceived :: string
  ni_TotalSent :: string

record AddressInfo =
  di_ChainID :: string
  di_Address :: string
  di_PublicKey :: "bytes option"
  di_Assets :: "string \<rightharpoonup> AssetInfo"
  di_Score :: u64

record AddressList =
  al_Count :: "u64 option"
  al_Addresses :: "AddressInfo list"

abbreviation acr :: "string \<Rightarrow> string" where "acr c \<equiv> ''accumulate_balances_received.'' @ c"
abbreviation acs :: "string \<Rightarrow> string" where "acs c \<equiv> ''accumulate_balances_sent.'' @ c"
abbreviation aoj :: "string \<Rightarrow> string" where "aoj c \<equiv> ''avm_outputs_j.'' @ c"

definition ua_columns :: "string list" where
  "ua_columns = [''avm_outputs.chain_id'', ''avm_output_addresses.address'', ''avm_output_addresses.output_id'']"

definition acc_columns :: "string list" where
  "acc_columns = [acr ''chain_id'', acr ''address'', acr ''asset_id'']"

text \<open>The distinct pairs of chain and address of the outputs.\<close>

definition ua_query :: "query_conn \<Rightarrow> SelectBuilder \<Rightarrow> tables \<Rightarrow> row list" where
  "ua_query conn b T =
     sb_page b (q_order (\<lambda>r. (qc_weight conn (getS r ''chain_id''), qc_weight conn (getS r ''address'')))
       (map (\<lambda>(k, _) c. if c = ''chain_id'' then fst k else if c = ''address'' then snd k else None)
         (q_group (\<lambda>r. (r ''avm_outputs.chain_id'', r ''avm_output_addresses.address''))
           (sb_filter b (q_left_join T ''avm_output_addresses'' (eq_cols ''avm_outputs.id'' ''avm_output_addresses.output_id'')
              (q_from ''avm_outputs'' T))))))"

definition or_zero :: "row \<Rightarrow> string \<Rightarrow> int" where
  "or_zero r c = (if is_null r c then 0 else getI r c)"

text \<open>The balances that were accumulated.\<close>

definition acc_select :: "(row \<Rightarrow> string \<times> dbval option) list" where
  "acc_select =
     [sel (acr ''chain_id'') (aoj ''chain_id''), sel (acr ''address'') (aoj ''address''), sel (acr ''asset_id'') (aoj ''asset_id''),
      sel ''accumulate_balances_transactions.transaction_count'' (aoj ''transaction_count''), sel (acr ''total_amount'') (aoj ''total_received''),
      (\<lambda>r. (aoj ''total_sent'', Some (VI (or_zero r (acs ''total_amount''))))),
      (\<lambda>r. (aoj ''balance'', Some (VI (getI r (acr ''total_amount'') - or_zero r (acs ''total_amount''))))),
      (\<lambda>r. (aoj ''utxo_count'', Some (VI (getI r (acr ''utxo_count'') - or_zero r (acs ''utxo_count'')))))]"

definition acc_query :: "query_conn \<Rightarrow> SelectBuilder \<Rightarrow> tables \<Rightarrow> row list" where
  "acc_query conn b T =
     q_select acc_select
       (sb_page b (q_order (\<lambda>r. (qc_weight conn (getS r (acr ''chain_id'')), qc_weight conn (getS r (acr ''address'')), qc_weight conn (getS r (acr ''asset_id''))))
         (sb_filter b
           (q_left_join T ''accumulate_balances_transactions'' (eq_cols (acr ''id'') ''accumulate_balances_transactions.id'')
             (q_left_join T ''accumulate_balances_sent'' (eq_cols (acr ''id'') (acs ''id'')) (q_from ''accumulate_balances_received'' T))))))"

text \<open>The balances that are summed up from the outputs.\<close>

definition sum_where :: "string \<Rightarrow> (row \<Rightarrow> bool) \<Rightarrow> row list \<Rightarrow> int" where
  "sum_where c P rows = sum_column c (filter P rows)"

abbreviation spent :: "row \<Rightarrow> bool" where "spent r \<equiv> \<not> is_null r ''avm_outputs_redeeming.redeeming_transaction_id''"

definition base_row :: "(dbval option \<times> dbval option \<times> dbval option) \<times> row list \<Rightarrow> row" where
  "base_row = (\<lambda>((chain, addr, asset), g).
     Map.empty(aoj ''chain_id'' := chain, aoj ''address'' := addr, aoj ''asset_id'' := asset,
       aoj ''transaction_count'' := Some (VI (count_distinct ''avm_outputs.transaction_id'' g)),
       aoj ''total_received'' := Some (VI (sum_column ''avm_outputs.amount'' g)),
       aoj ''total_sent'' := Some (VI (sum_where ''avm_outputs.amount'' spent g)),
       aoj ''balance'' := Some (VI (sum_where ''avm_outputs.amount'' (\<lambda>r. \<not> spent r) g)),
       aoj ''utxo_count'' := Some (VI (int (length (filter (\<lambda>r. \<not> spent r) g))))))"

definition base_query :: "query_conn \<Rightarrow> string list \<Rightarrow> SelectBuilder \<Rightarrow> tables \<Rightarrow> row list" where
  "base_query conn chainIDs b T =
     (let ua = map (\<lambda>r. r ''address'') (ua_query conn b T);
          rows = filter (\<lambda>r. \<not> is_null r ''avm_output_addresses.address'' \<and> r ''avm_output_addresses.address'' \<in> set ua
              \<and> (chainIDs \<noteq> [] \<longrightarrow> in_texts r ''avm_outputs.chain_id'' chainIDs))
            (q_left_join T ''avm_outputs_redeeming'' (eq_cols ''avm_outputs.id'' ''avm_outputs_redeeming.id'')
              (q_left_join T ''avm_output_addresses'' (eq_cols ''avm_output_addresses.output_id'' ''avm_outputs.id'') (q_from ''avm_outputs'' T)))
      in q_order (\<lambda>r. (qc_weight conn (getS r (aoj ''chain_id'')), qc_weight conn (getS r (aoj ''address'')), qc_weight conn (getS r (aoj ''asset_id''))))
           (map base_row (q_group (\<lambda>r. (r ''avm_outputs.chain_id'', r ''avm_output_addresses.address'', r ''avm_outputs.asset_id'')) rows)))"

definition addresses_query :: "query_conn \<Rightarrow> bool \<Rightarrow> string list \<Rightarrow> SelectBuilder \<Rightarrow> tables \<Rightarrow> row list" where
  "addresses_query conn accumulateReader chainIDs b T =
     q_left_join T ''addresses'' (eq_cols ''addresses.address'' (aoj ''address''))
       (if accumulateReader then acc_query conn b T else base_query conn chainIDs b T)"

record address_row =
  dr_ChainID :: string
  dr_Address :: string
  dr_AssetInfo :: AssetInfo
  dr_PublicKey :: "bytes option"

definition scan_address :: "row \<Rightarrow> go_error + address_row" where
  "scan_address r =
     res_bind (scan_u64 r (aoj ''transaction_count'')) (\<lambda>tc.
     res_bind (scan_u64 r (aoj ''utxo_count'')) (\<lambda>uc.
       Inr \<lparr>dr_ChainID = getS r (aoj ''chain_id''), dr_Address = getS r (aoj ''address''),
         dr_AssetInfo = \<lparr>ni_AssetID = getS r (aoj ''asset_id''), ni_TransactionCount = tc, ni_UTXOCount = uc, ni_Balance = getS r (aoj ''balance''),
           ni_TotalReceived = getS r (aoj ''total_received''), ni_TotalSent = getS r (aoj ''total_sent'')\<rparr>,
         dr_PublicKey = getB r ''addresses.public_key''\<rparr>))"

text \<open>The map \<open>addrsByID\<close>, in the order in which its keys are added.\<close>

definition add_address :: "address_row \<Rightarrow> (string \<times> AddressInfo) list \<Rightarrow> (string \<times> AddressInfo) list" where
  "add_address row addrsByID =
     (let k = dr_ChainID row @ '':'' @ dr_Address row;
          addr = (case map_of addrsByID k of
                    Some addr \<Rightarrow> addr
                  | None \<Rightarrow> \<lparr>di_ChainID = dr_ChainID row, di_Address = dr_Address row, di_PublicKey = dr_PublicKey row, di_Assets = Map.empty, di_Score = 0\<rparr>)
      in AList.update k (addr\<lparr>di_Assets := (di_Assets addr)(ni_AssetID (dr_AssetInfo row) \<mapsto> dr_AssetInfo row)\<rparr>) addrsByID)"

text \<open>The query that counts is \<open>ua\<close> with the conditions of the accumulated balances; outside the accumulating reader \<open>ua\<close> has
  kept the limit and the conditions of the list.\<close>

definition address_count :: "reader_env \<Rightarrow> query_conn \<Rightarrow> ListAddressesParams \<Rightarrow> SelectBuilder \<Rightarrow> (dbstate, u64) go" where
  "address_count rv conn p ua =
     (let sqc = ListAddressesParams_Apply (rv_lib rv) (p\<lparr>ad_ListParams := zero_ListParams\<rparr>) True ua
      in go_bind (load_valid conn ua_columns sqc (\<lambda>T. [[''count'' \<mapsto> VI (int (length (ua_query conn sqc T)))]])) (\<lambda>rows.
           go_return (getW (hd rows) ''count'')))"

definition ListAddresses :: "reader_env \<Rightarrow> query_conn \<Rightarrow> ListAddressesParams \<Rightarrow> (dbstate, AddressList) go" where
  "ListAddresses rv conn p =
     go_then (qc_NewSession conn ''list_addresses'')
       (let acc = rv_IsAccumulateBalanceReader rv; b = ListAddressesParams_Apply (rv_lib rv) p acc new_select in
        go_bind (load_valid conn (if acc then acc_columns else ua_columns) b (addresses_query conn acc (ad_ChainIDs p) b)) (\<lambda>rows.
        go_bind (go_lift (res_map scan_address rows)) (\<lambda>rs.
          let addresses = map snd (fold add_address rs []) in
          go_bind (list_count (ad_ListParams p) (length addresses) (address_count rv conn p (if acc then new_select else b))) (\<lambda>count.
            go_return \<lparr>al_Count = count, al_Addresses = addresses\<rparr>))))"

subsection \<open>One address\<close>

text \<open>\<open>SetString\<close> succeeds on the amounts, which are columns of numbers.\<close>

definition big_of :: "string \<Rightarrow> int" where
  "big_of s = (case big_SetString s of None \<Rightarrow> 0 | Some i \<Rightarrow> i)"

definition addStringsFunc :: "string \<Rightarrow> string \<Rightarrow> string" where
  "addStringsFunc t f = Itoa (big_of t + big_of f)"

definition addAssetInfos :: "AssetInfo \<Rightarrow> AssetInfo \<Rightarrow> AssetInfo" where
  "addAssetInfos t f =
     (let t = t\<lparr>ni_TransactionCount := ni_TransactionCount t + ni_TransactionCount f\<rparr>;
          t = t\<lparr>ni_UTXOCount := ni_UTXOCount t + ni_UTXOCount t\<rparr>
      in t\<lparr>ni_Balance := addStringsFunc (ni_Balance t) (ni_Balance f), ni_TotalReceived := addStringsFunc (ni_TotalReceived t) (ni_TotalReceived f),
           ni_TotalSent := addStringsFunc (ni_TotalSent t) (ni_TotalSent f)\<rparr>)"

definition addAssetInfoMap :: "(string \<rightharpoonup> AssetInfo) \<Rightarrow> (string \<rightharpoonup> AssetInfo) \<Rightarrow> (string \<rightharpoonup> AssetInfo)" where
  "addAssetInfoMap assets assets2 =
     (\<lambda>k. case assets2 k of
            None \<Rightarrow> assets k
          | Some v \<Rightarrow> (case assets k of Some assetInfo \<Rightarrow> Some (addAssetInfos assetInfo v) | None \<Rightarrow> Some v))"

definition collate :: "AddressInfo \<Rightarrow> (string \<times> AddressInfo) list \<Rightarrow> (string \<times> AddressInfo) list" where
  "collate a collated =
     (case map_of collated (di_Address a) of
        Some addressInfo \<Rightarrow>
          AList.update (di_Address a) (addressInfo\<lparr>di_ChainID := [], di_Assets := addAssetInfoMap (di_Assets addressInfo) (di_Assets a)\<rparr>) collated
      | None \<Rightarrow> AList.update (di_Address a) a collated)"

definition GetAddress :: "reader_env \<Rightarrow> query_conn \<Rightarrow> ListAddressesParams \<Rightarrow> (dbstate, AddressInfo option) go" where
  "GetAddress rv conn p =
     go_bind (ListAddresses rv conn p) (\<lambda>addressList.
       let addresses = al_Addresses addressList;
           addresses = (if length addresses > 1 then map snd (fold collate addresses []) else addresses)
       in go_return (case addresses of [] \<Rightarrow> None | a # _ \<Rightarrow> Some a))"

section \<open>The chains of an address\<close>

definition address_chain_columns :: "string list" where
  "address_chain_columns = map (\<lambda>c. ''address_chain.'' @ c) [''address'', ''chain_id'', ''created_at'', ''updated_at'']"

fun add_chains :: "reader_env \<Rightarrow> row list \<Rightarrow> (string \<rightharpoonup> string list) \<Rightarrow> go_error + (string \<rightharpoonup> string list)" where
  "add_chains rv [] m = Inr m"
| "add_chains rv (r # rs) m =
     res_bind (Address_MarshalString rv (getS r ''address_chain.address'')) (\<lambda>addrAsStr.
       add_chains rv rs (m(addrAsStr \<mapsto> (case m addrAsStr of None \<Rightarrow> [] | Some cs \<Rightarrow> cs) @ [getS r ''address_chain.chain_id''])))"

text \<open>The answer without addresses has a nil map.\<close>

definition AddressChains :: "reader_env \<Rightarrow> query_conn \<Rightarrow> AddressChainsParams \<Rightarrow> (dbstate, (string \<rightharpoonup> string list) option) go" where
  "AddressChains rv conn p =
     go_then (qc_NewSession conn ''addressChains'')
       (if ac_Addresses p = [] then go_return None
        else
          (let b = AddressChainsParams_Apply (rv_lib rv) p new_select in
           go_bind (load_valid conn address_chain_columns b (\<lambda>T. sb_page b (sb_filter b (q_from ''address_chain'' T)))) (\<lambda>rows.
           go_bind (go_lift (add_chains rv rows Map.empty)) (\<lambda>m. go_return (Some m)))))"

section \<open>Outputs\<close>

record OutputList =
  ol_Count :: "u64 option"
  ol_Outputs :: "ApiOutput list"

definition outputSelectColumns :: "(row \<Rightarrow> string \<times> dbval option) list" where
  "outputSelectColumns =
     [sel ''avm_outputs.id'' ''id'', sel ''avm_outputs.transaction_id'' ''transaction_id'', sel ''avm_outputs.output_index'' ''output_index'',
      sel ''avm_outputs.asset_id'' ''asset_id'', sel ''avm_outputs.output_type'' ''output_type'', sel ''avm_outputs.amount'' ''amount'',
      sel ''avm_outputs.locktime'' ''locktime'', sel ''avm_outputs.threshold'' ''threshold'', sel ''avm_outputs.created_at'' ''created_at'',
      sel_or ''avm_outputs_redeeming.redeeming_transaction_id'' (VS []) ''redeeming_transaction_id'',
      sel ''avm_outputs.group_id'' ''group_id'', sel ''avm_outputs.payload'' ''payload'', sel ''avm_outputs.frozen'' ''frozen'']"

definition outputs_columns :: "string list" where
  "outputs_columns = [''avm_outputs.id'', ''avm_outputs.chain_id'', ''avm_outputs.created_at'', ''avm_outputs_redeeming.redeeming_transaction_id'',
     ''avm_output_addresses.address'']"

definition outputs_query :: "SelectBuilder \<Rightarrow> tables \<Rightarrow> row list" where
  "outputs_query b T =
     (let rows = q_left_join T ''avm_outputs_redeeming'' (eq_cols ''avm_outputs.id'' ''avm_outputs_redeeming.id'') (q_from ''avm_outputs'' T);
          rows = (if sb_leftjoin b = [] then rows
                  else q_left_join T ''avm_output_addresses'' (eq_cols ''avm_outputs.id'' ''avm_output_addresses.output_id'') rows)
      in sb_filter b rows)"

text \<open>\<open>outputMap\<close> holds the last of the outputs with an id, and only that one gets the addresses.\<close>

fun add_addresses :: "row list \<Rightarrow> ApiOutput list \<Rightarrow> ApiOutput list" where
  "add_addresses addresses [] = []"
| "add_addresses addresses (output # outputs) =
     (if ao_ID output \<in> ao_ID ` set outputs then output
      else output\<lparr>ao_Addresses := map (\<lambda>r. getS r ''avm_output_addresses.address'')
        (filter (\<lambda>r. getS r ''avm_output_addresses.output_id'' = ao_ID output) addresses)\<rparr>) # add_addresses addresses outputs"

definition ListOutputs :: "reader_env \<Rightarrow> query_conn \<Rightarrow> ListOutputsParams \<Rightarrow> (dbstate, OutputList) go" where
  "ListOutputs rv conn p =
     go_then (qc_NewSession conn ''list_transaction_outputs'')
       (let b = ListOutputsParams_Apply (rv_lib rv) p new_select in
        go_bind (load_valid conn outputs_columns b (\<lambda>T. q_select outputSelectColumns (sb_page b (outputs_query b T)))) (\<lambda>rows.
          let outputs = map output_of_row rows in
          if length outputs < 1 then go_return \<lparr>ol_Count = None, ol_Outputs = outputs\<rparr>
          else
            go_bind (qc_load conn (\<lambda>T. filter (\<lambda>r. in_texts r ''avm_output_addresses.output_id'' (map ao_ID outputs)) (q_from ''avm_output_addresses'' T)))
              (\<lambda>addresses.
               let outputs = add_addresses addresses outputs;
                   b' = ListOutputsParams_Apply (rv_lib rv) (p\<lparr>lo_ListParams := zero_ListParams\<rparr>) new_select in
               go_bind (list_count (lo_ListParams p) (length outputs)
                  (go_bind (load_valid conn outputs_columns b' (\<lambda>T. [[''count'' \<mapsto> VI (int (length (outputs_query b' T)))]]))
                     (\<lambda>rows. go_return (getW (hd rows) ''count'')))) (\<lambda>count.
                 go_return \<lparr>ol_Count = count, ol_Outputs = outputs\<rparr>))))"

definition GetOutput :: "reader_env \<Rightarrow> query_conn \<Rightarrow> ID \<Rightarrow> (dbstate, ApiOutput option) go" where
  "GetOutput rv conn i =
     go_bind (ListOutputs rv conn (zero_ListOutputsParams\<lparr>lo_ListParams := zero_ListParams\<lparr>lp_ID := Some i, lp_DisableCounting := True\<rparr>\<rparr>))
       (\<lambda>outputList. go_return (case ol_Outputs outputList of [] \<Rightarrow> None | out # _ \<Rightarrow> Some out))"

section \<open>Collating the chains of an address\<close>

lemma addAssetInfos_sums:
  "ni_TransactionCount (foldl addAssetInfos i js) = sum_list (map ni_TransactionCount (i # js))"
  "ni_UTXOCount (foldl addAssetInfos i js) = 2 ^ length js * ni_UTXOCount i"
  "js \<noteq> [] \<Longrightarrow> ni_Balance (foldl addAssetInfos i js) = Itoa (\<Sum>x \<leftarrow> i # js. big_of (ni_Balance x))"
  "js \<noteq> [] \<Longrightarrow> ni_TotalReceived (foldl addAssetInfos i js) = Itoa (\<Sum>x \<leftarrow> i # js. big_of (ni_TotalReceived x))"
  "js \<noteq> [] \<Longrightarrow> ni_TotalSent (foldl addAssetInfos i js) = Itoa (\<Sum>x \<leftarrow> i # js. big_of (ni_TotalSent x))"
proof -
  have big: "big_of (Itoa x) = x" for x by (simp add: big_of_def big_SetString_Itoa)
  have amounts: "big_of (ni_Balance (foldl addAssetInfos i js)) = (\<Sum>x \<leftarrow> i # js. big_of (ni_Balance x))"
    "big_of (ni_TotalReceived (foldl addAssetInfos i js)) = (\<Sum>x \<leftarrow> i # js. big_of (ni_TotalReceived x))"
    "big_of (ni_TotalSent (foldl addAssetInfos i js)) = (\<Sum>x \<leftarrow> i # js. big_of (ni_TotalSent x))" for js
    by (induction js arbitrary: i) (simp_all add: addAssetInfos_def addStringsFunc_def Let_def big add.assoc)
  show "ni_TransactionCount (foldl addAssetInfos i js) = sum_list (map ni_TransactionCount (i # js))"
    "ni_UTXOCount (foldl addAssetInfos i js) = 2 ^ length js * ni_UTXOCount i"
    by (induction js arbitrary: i) (simp_all add: addAssetInfos_def Let_def add.assoc)
  assume "js \<noteq> []"
  then obtain js' j where js: "js = js' @ [j]" by (metis rev_exhaust)
  show "ni_Balance (foldl addAssetInfos i js) = Itoa (\<Sum>x \<leftarrow> i # js. big_of (ni_Balance x))"
    "ni_TotalReceived (foldl addAssetInfos i js) = Itoa (\<Sum>x \<leftarrow> i # js. big_of (ni_TotalReceived x))"
    "ni_TotalSent (foldl addAssetInfos i js) = Itoa (\<Sum>x \<leftarrow> i # js. big_of (ni_TotalSent x))"
    using amounts [of js'] by (simp_all add: js addAssetInfos_def addStringsFunc_def Let_def add.assoc)
qed

lemma foldl_addAssetInfos:
  "foldl addAssetInfos i (j # js) = \<lparr>ni_AssetID = ni_AssetID i,
     ni_TransactionCount = sum_list (map ni_TransactionCount (i # j # js)), ni_UTXOCount = 2 ^ length (j # js) * ni_UTXOCount i,
     ni_Balance = Itoa (\<Sum>y \<leftarrow> i # j # js. big_of (ni_Balance y)), ni_TotalReceived = Itoa (\<Sum>y \<leftarrow> i # j # js. big_of (ni_TotalReceived y)),
     ni_TotalSent = Itoa (\<Sum>y \<leftarrow> i # j # js. big_of (ni_TotalSent y))\<rparr>"
proof -
  have "ni_AssetID (foldl addAssetInfos i js) = ni_AssetID i" for i js
    by (induction js arbitrary: i) (simp_all add: addAssetInfos_def Let_def)
  then show ?thesis using addAssetInfos_sums [where i = i and js = "j # js"]
    by (intro AssetInfo.equality) (simp_all add: addAssetInfos_def Let_def)
qed

definition infos_of :: "string \<Rightarrow> AddressInfo list \<Rightarrow> AssetInfo list" where
  "infos_of k as = List.map_filter (\<lambda>a. di_Assets a k) as"

lemma infos_of_simps [simp]:
  "infos_of k [] = []"
  "infos_of k (a # as) = (case di_Assets a k of None \<Rightarrow> infos_of k as | Some i \<Rightarrow> i # infos_of k as)"
  by (simp_all add: infos_of_def map_filter_simps split: option.splits)

text \<open>Addresses that are all the same are collated into one.\<close>

lemma fold_collate:
  assumes "\<forall>a \<in> set as. di_Address a = s" "di_Address x = s"
  shows "\<exists>y. fold collate as [(s, x)] = [(s, y)] \<and> di_Address y = s \<and> di_PublicKey y = di_PublicKey x
    \<and> (as \<noteq> [] \<longrightarrow> di_ChainID y = [])
    \<and> (\<forall>k. di_Assets y k = (case infos_of k (x # as) of [] \<Rightarrow> None | i # js \<Rightarrow> Some (foldl addAssetInfos i js)))"
  using assms
proof (induction as arbitrary: x)
  case (Cons a as)
  let ?x = "x\<lparr>di_ChainID := [], di_Assets := addAssetInfoMap (di_Assets x) (di_Assets a)\<rparr>"
  have "collate a [(s, x)] = [(s, ?x)]" using Cons.prems by (simp add: collate_def)
  moreover obtain y where y: "fold collate as [(s, ?x)] = [(s, y)]" "di_Address y = s" "di_PublicKey y = di_PublicKey ?x"
    "as \<noteq> [] \<longrightarrow> di_ChainID y = []"
    "\<forall>k. di_Assets y k = (case infos_of k (?x # as) of [] \<Rightarrow> None | i # js \<Rightarrow> Some (foldl addAssetInfos i js))"
    using Cons.IH [of ?x] Cons.prems by auto
  moreover have "di_ChainID y = []" using y by (cases as) auto
  moreover have "(case infos_of k (?x # as) of [] \<Rightarrow> None | i # js \<Rightarrow> Some (foldl addAssetInfos i js))
      = (case infos_of k (x # a # as) of [] \<Rightarrow> None | i # js \<Rightarrow> Some (foldl addAssetInfos i js))" for k
    by (simp add: addAssetInfoMap_def split: option.splits)
  ultimately show ?case by (intro exI [of _ y]) simp
qed (simp split: option.splits)

text \<open>With an address among the parameters only that address is listed.\<close>

lemma sb_filter_address:
  assumes "r \<in> set (sb_filter (ListAddressesParams_Apply lib p acc new_select) rows)" "ad_Address p = Some a"
  shows "r ((if acc then ''accumulate_balances_received'' else ''avm_output_addresses'') @ ''.address'') = Some (VS (ShortID_String lib a))"
  using assms by (auto simp: sb_filter_def ListAddressesParams_Apply_def sb_Where_def Let_def split: if_splits)

lemma sb_pageD: "r \<in> set (sb_page b rows) \<Longrightarrow> r \<in> set rows"
  by (auto simp: sb_page_def q_limit_def q_offset_def dest: in_set_takeD in_set_dropD split: option.splits)

lemma q_select_member: "r \<in> set (q_select cs rows) \<Longrightarrow> \<exists>l \<in> set rows. r = hd (q_select cs [l])"
  by (auto simp: q_select_def)

lemma q_group_member: "(k, g) \<in> set (q_group f rs) \<Longrightarrow> \<exists>r \<in> set rs. k = f r"
proof -
  assume "(k, g) \<in> set (q_group f rs)"
  then have "k \<in> set (map fst (q_group f rs))" by force
  then show ?thesis unfolding q_group_keys by blast
qed

lemma acc_query_member:
  assumes "r \<in> set (acc_query conn b T)"
  shows "\<exists>l \<in> set (sb_filter b (q_left_join T ''accumulate_balances_transactions'' (eq_cols (acr ''id'') ''accumulate_balances_transactions.id'')
          (q_left_join T ''accumulate_balances_sent'' (eq_cols (acr ''id'') (acs ''id'')) (q_from ''accumulate_balances_received'' T)))).
     r = hd (q_select acc_select [l])"
  using q_select_member [OF assms [unfolded acc_query_def]] by (auto dest!: sb_pageD simp only: q_order_def set_sort)

lemma acc_query_address:
  assumes "r \<in> set (acc_query conn (ListAddressesParams_Apply lib p True new_select) T)" "ad_Address p = Some a"
  shows "r (aoj ''address'') = Some (VS (ShortID_String lib a))"
proof -
  from acc_query_member [OF assms(1)] obtain l where l: "r = hd (q_select acc_select [l])"
    "l (acr ''address'') = Some (VS (ShortID_String lib a))"
    using sb_filter_address [OF _ assms(2), of _ lib True] by auto
  then show ?thesis by (simp add: q_select_def acc_select_def sel_def)
qed

lemma ua_query_address:
  assumes "u \<in> set (ua_query conn (ListAddressesParams_Apply lib p False new_select) T)" "ad_Address p = Some a"
  shows "u ''address'' = Some (VS (ShortID_String lib a))"
proof -
  let ?b = "ListAddressesParams_Apply lib p False new_select"
  let ?rows = "sb_filter ?b (q_left_join T ''avm_output_addresses'' (eq_cols ''avm_outputs.id'' ''avm_output_addresses.output_id'') (q_from ''avm_outputs'' T))"
  obtain k g where k: "(k, g) \<in> set (q_group (\<lambda>r. (r ''avm_outputs.chain_id'', r ''avm_output_addresses.address'')) ?rows)" "u ''address'' = snd k"
    using sb_pageD [OF assms(1) [unfolded ua_query_def]] by (auto simp: q_order_def)
  from q_group_member [OF k(1)] obtain l where "l \<in> set ?rows" "snd k = l ''avm_output_addresses.address''" by auto
  then show ?thesis using sb_filter_address [OF _ assms(2), of l lib False] k(2) by simp
qed

lemma base_query_address:
  assumes "r \<in> set (base_query conn cs (ListAddressesParams_Apply lib p False new_select) T)" "ad_Address p = Some a"
  shows "r (aoj ''address'') = Some (VS (ShortID_String lib a))"
proof -
  let ?b = "ListAddressesParams_Apply lib p False new_select"
  obtain chain addr asset g rows where k: "((chain, addr, asset), g) \<in> set (q_group (\<lambda>r. (r ''avm_outputs.chain_id'', r ''avm_output_addresses.address'', r ''avm_outputs.asset_id'')) rows)"
    "r = base_row ((chain, addr, asset), g)"
    "\<forall>l \<in> set rows. l ''avm_output_addresses.address'' \<in> set (map (\<lambda>r. r ''address'') (ua_query conn ?b T))"
    using assms(1) unfolding base_query_def Let_def q_order_def by auto
  from q_group_member [OF k(1)] obtain l where l: "l \<in> set rows" "addr = l ''avm_output_addresses.address''" by auto
  then have "addr \<in> (\<lambda>r. r ''address'') ` set (ua_query conn ?b T)" using k(3) by simp
  then have "addr = Some (VS (ShortID_String lib a))" using ua_query_address [OF _ assms(2)] by auto
  then show ?thesis by (simp add: k(2) base_row_def)
qed

lemma addresses_query_address:
  assumes "r \<in> set (addresses_query conn acc cs (ListAddressesParams_Apply lib p acc new_select) T)" "ad_Address p = Some a"
  shows "getS r (aoj ''address'') = ShortID_String lib a"
proof -
  obtain l where l: "l \<in> set (if acc then acc_query conn (ListAddressesParams_Apply lib p acc new_select) T
      else base_query conn cs (ListAddressesParams_Apply lib p acc new_select) T)"
    "\<And>c. \<not> HasPrefix c (''addresses'' @ ''.'') \<Longrightarrow> r c = l c"
    using assms(1) unfolding addresses_query_def by (auto elim: left_join_member)
  have "r (aoj ''address'') = l (aoj ''address'')" by (rule l(2)) (simp add: HasPrefix_def)
  also have "\<dots> = Some (VS (ShortID_String lib a))"
    using l(1) acc_query_address [OF _ assms(2)] base_query_address [OF _ assms(2)] by (cases acc) auto
  finally show ?thesis by (simp add: getS_def)
qed

lemma res_map_member: "res_map f xs = Inr ys \<Longrightarrow> y \<in> set ys \<Longrightarrow> \<exists>x \<in> set xs. f x = Inr y"
  by (induction xs arbitrary: ys) (auto simp: res_bind_def split: sum.splits)

lemma res_map_error: "x \<in> set xs \<Longrightarrow> f x = Inl e \<Longrightarrow> \<exists>e. res_map f xs = Inl e"
  by (induction xs) (auto simp: res_bind_def split: sum.splits)

lemma set_AList_update: "set (AList.update k v m) \<subseteq> insert (k, v) (set m)"
  by (induction m) auto

lemma add_address_keeps:
  assumes "dr_Address r = s" "\<forall>x \<in> set m. di_Address (snd x) = s"
  shows "\<forall>x \<in> set (add_address r m). di_Address (snd x) = s"
  using assms set_AList_update by (fastforce simp: add_address_def Let_def dest: map_of_SomeD split: option.splits)

lemma add_addresses_keep:
  assumes "\<forall>r \<in> set rs. dr_Address r = s" "\<forall>x \<in> set m. di_Address (snd x) = s"
  shows "\<forall>x \<in> set (fold add_address rs m). di_Address (snd x) = s"
  using assms
proof (induction rs arbitrary: m)
  case (Cons r rs)
  then show ?case using add_address_keeps [of r s m] by simp
qed simp

lemma load_valid_rows:
  assumes "query_server conn" "load_valid conn cols b q d = (Inr rows, d')"
  shows "rows = q (tabs d)"
  using assms(2) query_server.load_rows [OF assms(1)] by (auto simp: load_valid_def go_simps split: if_splits)

lemma session_run:
  assumes "query_server conn" "go_then (qc_NewSession conn name) m d = (Inr x, d')"
  obtains d1 where "m d1 = (Inr x, d')" "tabs d1 = tabs d"
  using assms(2) query_server.session_keeps [OF assms(1), of name d] by (auto simp: go_simps split: prod.splits sum.splits)

lemma ListAddresses_one_address:
  assumes conn: "query_server conn" and a: "ad_Address p = Some a" and run: "ListAddresses rv conn p d = (Inr al, d')"
  shows "\<forall>x \<in> set (al_Addresses al). di_Address x = ShortID_String (rv_lib rv) a"
proof -
  let ?b = "ListAddressesParams_Apply (rv_lib rv) p (rv_IsAccumulateBalanceReader rv) new_select"
  obtain rows rs where rows: "rows = addresses_query conn (rv_IsAccumulateBalanceReader rv) (ad_ChainIDs p) ?b (tabs d)"
    and rs: "res_map scan_address rows = Inr rs" and al: "al_Addresses al = map snd (fold add_address rs [])"
    using run unfolding ListAddresses_def Let_def
    by (elim session_run [OF conn]) (auto simp: go_simps dest!: load_valid_rows [OF conn] split: prod.splits sum.splits)
  have "dr_Address y = ShortID_String (rv_lib rv) a" if y: "y \<in> set rs" for y
  proof -
    obtain r where r: "r \<in> set rows" "scan_address r = Inr y"
      using res_map_member [OF rs y] by blast
    then have "dr_Address y = getS r (aoj ''address'')" by (auto simp: scan_address_def res_bind_def split: sum.splits)
    also have "\<dots> = ShortID_String (rv_lib rv) a" using addresses_query_address [OF _ a] r(1) rows by simp
    finally show ?thesis .
  qed
  then have "\<forall>x \<in> set (fold add_address rs []). di_Address (snd x) = ShortID_String (rv_lib rv) a"
    by (intro add_addresses_keep) auto
  then show ?thesis by (simp add: al)
qed

text \<open>C26. The data of an address that was seen on several chains: counts of transactions, balances and totals are summed over the
  chains, but the number of unspent outputs is the number on the first chain, doubled for every further chain that has the asset.\<close>

theorem GetAddress_collates:
  assumes "query_server conn" "ad_Address p = Some a" "ListAddresses rv conn p d = (Inr al, d')" "length (al_Addresses al) > 1"
  shows "\<exists>x. GetAddress rv conn p d = (Inr (Some x), d') \<and> di_Address x = ShortID_String (rv_lib rv) a \<and> di_ChainID x = []
    \<and> (\<forall>k. case infos_of k (al_Addresses al) of
         [] \<Rightarrow> di_Assets x k = None
       | [i] \<Rightarrow> di_Assets x k = Some i
       | i # js \<Rightarrow> di_Assets x k = Some \<lparr>ni_AssetID = ni_AssetID i,
           ni_TransactionCount = sum_list (map ni_TransactionCount (i # js)),
           ni_UTXOCount = 2 ^ length js * ni_UTXOCount i,
           ni_Balance = Itoa (\<Sum>y \<leftarrow> i # js. big_of (ni_Balance y)),
           ni_TotalReceived = Itoa (\<Sum>y \<leftarrow> i # js. big_of (ni_TotalReceived y)),
           ni_TotalSent = Itoa (\<Sum>y \<leftarrow> i # js. big_of (ni_TotalSent y))\<rparr>)"
proof -
  let ?s = "ShortID_String (rv_lib rv) a"
  obtain y ys where ys: "al_Addresses al = y # ys" "ys \<noteq> []" using assms(4) by (cases "al_Addresses al") (auto simp: neq_Nil_conv)
  have same: "\<forall>x \<in> set (y # ys). di_Address x = ?s" using ListAddresses_one_address [OF assms(1-3)] ys by simp
  then obtain x where x: "fold collate ys [(?s, y)] = [(?s, x)]" "di_Address x = ?s" "di_ChainID x = []"
    "\<And>k. di_Assets x k = (case infos_of k (y # ys) of [] \<Rightarrow> None | i # js \<Rightarrow> Some (foldl addAssetInfos i js))"
    using fold_collate [of ys ?s y] ys(2) by auto
  have "collate y [] = [(?s, y)]" using same by (simp add: collate_def)
  then have "GetAddress rv conn p d = (Inr (Some x), d')" using assms(3,4) x(1) ys by (simp add: GetAddress_def go_simps Let_def)
  moreover have "case infos_of k (al_Addresses al) of [] \<Rightarrow> di_Assets x k = None | [i] \<Rightarrow> di_Assets x k = Some i
       | i # js \<Rightarrow> di_Assets x k = Some \<lparr>ni_AssetID = ni_AssetID i,
           ni_TransactionCount = sum_list (map ni_TransactionCount (i # js)), ni_UTXOCount = 2 ^ length js * ni_UTXOCount i,
           ni_Balance = Itoa (\<Sum>y \<leftarrow> i # js. big_of (ni_Balance y)), ni_TotalReceived = Itoa (\<Sum>y \<leftarrow> i # js. big_of (ni_TotalReceived y)),
           ni_TotalSent = Itoa (\<Sum>y \<leftarrow> i # js. big_of (ni_TotalSent y))\<rparr>" for k
  proof (cases "infos_of k (al_Addresses al)")
    case Nil
    then show ?thesis using x(4) [of k] by (simp add: ys(1) [symmetric] del: infos_of_simps)
  next
    case (Cons i js)
    then have "di_Assets x k = Some (foldl addAssetInfos i js)" using x(4) [of k] by (simp add: ys(1) [symmetric] del: infos_of_simps)
    then show ?thesis using Cons by (cases js) (simp_all add: foldl_addAssetInfos del: foldl_Cons)
  qed
  ultimately show ?thesis using x(2,3) by blast
qed

section \<open>A balance without a count\<close>

lemma left_join_intro:
  assumes "l \<in> set left"
  shows "\<exists>r \<in> set (q_left_join T t on left). (\<forall>c. \<not> HasPrefix c (t @ ''.'') \<longrightarrow> r c = l c)
    \<and> ((\<forall>q \<in> set (T t). \<not> on (l ++ qualify t q)) \<longrightarrow> r = l)"
proof -
  let ?m = "filter on (map (\<lambda>r. l ++ r) (q_from t T))"
  have sub: "set (if ?m = [] then [l] else ?m) \<subseteq> set (q_left_join T t on left)"
    using assms by (auto simp: q_left_join_rows_def Let_def)
  show ?thesis
  proof (cases ?m)
    case Nil
    then show ?thesis using sub by (intro bexI [of _ l]) auto
  next
    case (Cons r rs)
    then have r: "r \<in> set ?m" by simp
    then obtain q where "q \<in> set (T t)" "r = l ++ qualify t q" "on r" by (auto simp: q_from_def)
    moreover have "r \<in> set (q_left_join T t on left)" using sub r Cons by auto
    ultimately show ?thesis by (intro bexI [of _ r]) (auto simp: map_add_def qualify_other)
  qed
qed

lemma q_select_intro: "l \<in> set rows \<Longrightarrow> hd (q_select cs [l]) \<in> set (q_select cs rows)"
  by (auto simp: q_select_def)

lemma filtered_page:
  "l \<in> set rows \<Longrightarrow> list_all (where_holds l) (sb_where b) \<Longrightarrow> sb_limit b = None \<Longrightarrow> sb_offset b = None \<Longrightarrow> l \<in> set (sb_page b (q_order f (sb_filter b rows)))"
  by (simp add: q_order_def sb_filter_def sb_page_def q_limit_def q_offset_def)

definition balance_page :: "ListParams" where
  "balance_page = zero_ListParams\<lparr>lp_DisableCounting := True\<rparr>"

lemma acc_query_row:
  assumes "rec \<in> set (T ''accumulate_balances_received'')" "rec ''address'' = Some (VS (ShortID_String lib a))"
    "\<forall>q \<in> set (T ''accumulate_balances_transactions''). q ''id'' \<noteq> rec ''id''"
    "sb_limit b = None" "sb_offset b = None" "sb_where b = [WhereEq (acr ''address'') (ShortID_String lib a)]"
  shows "\<exists>r \<in> set (acc_query conn b T). r (aoj ''transaction_count'') = None"
proof -
  let ?R = "''accumulate_balances_received''" and ?X = "''accumulate_balances_transactions''"
  define l where "l = qualify ?R rec"
  have l: "l \<in> set (q_from ?R T)" using assms(1) by (simp add: l_def q_from_def)
  obtain l1 where l1: "l1 \<in> set (q_left_join T ''accumulate_balances_sent'' (eq_cols (acr ''id'') (acs ''id'')) (q_from ?R T))"
    "\<And>c. \<not> HasPrefix c (''accumulate_balances_sent'' @ ''.'') \<Longrightarrow> l1 c = l c"
    using left_join_intro [OF l] by metis
  have at: "l1 (?R @ ''.'' @ c) = rec c" for c
    using l1(2) [of "?R @ ''.'' @ c"] by (simp add: l_def HasPrefix_def qualify_def)
  have none: "l1 (?X @ ''.'' @ c) = None" for c
    using l1(2) [of "?X @ ''.'' @ c"] by (simp add: l_def HasPrefix_def qualify_def)
  have "\<not> eq_cols (?R @ ''.'' @ ''id'') (?X @ ''.'' @ ''id'') (l1 ++ qualify ?X q)" if "q \<in> set (T ?X)" for q
  proof
    assume "eq_cols (?R @ ''.'' @ ''id'') (?X @ ''.'' @ ''id'') (l1 ++ qualify ?X q)"
    from eq_cols_join [OF this _ refl none] have "q ''id'' = l1 (?R @ ''.'' @ ''id'')" by (simp add: HasPrefix_def)
    with assms(3) that show False by (simp only: at)
  qed
  then obtain l2 where l2: "l2 \<in> set (q_left_join T ?X (eq_cols (acr ''id'') ''accumulate_balances_transactions.id'')
      (q_left_join T ''accumulate_balances_sent'' (eq_cols (acr ''id'') (acs ''id'')) (q_from ?R T)))" "l2 = l1"
    using left_join_intro [OF l1(1), where T = T and t = ?X and on = "eq_cols (acr ''id'') ''accumulate_balances_transactions.id''"] by auto
  have "where_holds l1 (WhereEq (acr ''address'') (ShortID_String lib a))" using at [of "''address''"] assms(2) by simp
  then have "list_all (where_holds l2) (sb_where b)" by (simp add: l2(2) assms(6))
  from q_select_intro [OF filtered_page [OF l2(1) this assms(4,5)]] have "hd (q_select acc_select [l1]) \<in> set (acc_query conn b T)"
    unfolding acc_query_def l2(2) .
  moreover have "hd (q_select acc_select [l1]) (aoj ''transaction_count'') = None"
    using none [of "''transaction_count''"] by (simp add: q_select_def acc_select_def sel_def)
  ultimately show ?thesis by blast
qed


definition balance_row :: "string \<Rightarrow> string \<Rightarrow> row" where
  "balance_row i chain = [''id'' \<mapsto> VS i, ''chain_id'' \<mapsto> VS chain, ''address'' \<mapsto> VS (ShortID_String sample_lib []), ''asset_id'' \<mapsto> VS ''a'',
     ''total_amount'' \<mapsto> VI 5, ''utxo_count'' \<mapsto> VI 3]"

definition two_chains :: dbstate where
  "two_chains = \<lparr>tabs = (\<lambda>t.
      if t = ''accumulate_balances_received'' then [balance_row ''1'' ''c'', balance_row ''2'' ''d'']
      else if t = ''accumulate_balances_transactions'' then [[''id'' \<mapsto> VS ''1'', ''transaction_count'' \<mapsto> VI 2], [''id'' \<mapsto> VS ''2'', ''transaction_count'' \<mapsto> VI 4]]
      else []), ticks = 0\<rparr>"

definition balance_env :: reader_env where
  "balance_env = sample_reader_env\<lparr>rv_IsAccumulateBalanceReader := True\<rparr>"

definition one_address :: ListAddressesParams where
  "one_address = zero_ListAddressesParams\<lparr>ad_ListParams := balance_page, ad_Address := Some []\<rparr>"

lemma two_chains_listed:
  "map (\<lambda>x. (di_ChainID x, map_option ni_UTXOCount (di_Assets x ''a''))) (al_Addresses (projr (fst (ListAddresses balance_env (mysql_ro (\<lambda>_. None)) one_address two_chains))))
    = [(''c'', Some 3), (''d'', Some 3)]"
  by code_simp

lemma two_chains_run: "\<exists>al d'. ListAddresses balance_env (mysql_ro (\<lambda>_. None)) one_address two_chains = (Inr al, d')"
proof -
  have "isl (fst (ListAddresses balance_env (mysql_ro (\<lambda>_. None)) one_address two_chains)) = False" by code_simp
  then show ?thesis by (cases "fst (ListAddresses balance_env (mysql_ro (\<lambda>_. None)) one_address two_chains)") (auto simp: prod_eq_iff)
qed

theorem GetAddress_collates_witness:
  "\<exists>x d'. GetAddress balance_env (mysql_ro (\<lambda>_. None)) one_address two_chains = (Inr (Some x), d') \<and> map_option ni_UTXOCount (di_Assets x ''a'') = Some 6"
proof -
  obtain al d' where run: "ListAddresses balance_env (mysql_ro (\<lambda>_. None)) one_address two_chains = (Inr al, d')"
    using two_chains_run by blast
  then have al: "map (\<lambda>x. (di_ChainID x, map_option ni_UTXOCount (di_Assets x ''a''))) (al_Addresses al) = [(''c'', Some 3), (''d'', Some 3)]"
    using two_chains_listed by simp
  then obtain u v i j where uv: "al_Addresses al = [u, v]" "di_Assets u ''a'' = Some i" "ni_UTXOCount i = 3" "di_Assets v ''a'' = Some j" by auto
  then have infos: "infos_of ''a'' (al_Addresses al) = [i, j]" by simp
  have "ad_Address one_address = Some []" "length (al_Addresses al) > 1" using uv(1) by (simp_all add: one_address_def)
  from GetAddress_collates [OF mysql_ro.query_server_axioms this(1) run this(2)] obtain x where
    x: "GetAddress balance_env (mysql_ro (\<lambda>_. None)) one_address two_chains = (Inr (Some x), d')"
    and k: "case infos_of ''a'' (al_Addresses al) of [] \<Rightarrow> di_Assets x ''a'' = None | [i] \<Rightarrow> di_Assets x ''a'' = Some i
       | i # js \<Rightarrow> di_Assets x ''a'' = Some \<lparr>ni_AssetID = ni_AssetID i,
           ni_TransactionCount = sum_list (map ni_TransactionCount (i # js)), ni_UTXOCount = 2 ^ length js * ni_UTXOCount i,
           ni_Balance = Itoa (\<Sum>y \<leftarrow> i # js. big_of (ni_Balance y)), ni_TotalReceived = Itoa (\<Sum>y \<leftarrow> i # js. big_of (ni_TotalReceived y)),
           ni_TotalSent = Itoa (\<Sum>y \<leftarrow> i # js. big_of (ni_TotalSent y))\<rparr>" by blast
  have "map_option ni_UTXOCount (di_Assets x ''a'') = Some 6" using k unfolding infos by (simp add: uv(3))
  with x show ?thesis by blast
qed

definition uncounted :: dbstate where
  "uncounted = \<lparr>tabs = (\<lambda>t. if t = ''accumulate_balances_received'' then [balance_row ''1'' ''c''] else []), ticks = 0\<rparr>"


end
