(* ===== verification/ReaderData.thy ===== *)
theory ReaderData
  imports Reader CvmWriter
begin

text \<open>
  Assets, blocks, the search and the raw data of transactions and blocks: \<open>avm_reader.go\<close>, \<open>pvm_reader.go\<close> and the rest of
  \<open>reader.go\<close> of \<open>src/services/indexes/axc\<close>, and \<open>ParseJSON\<close> of the EVM writer, which they call.
\<close>

section \<open>Assets\<close>

record Asset =
  as_ID :: string
  as_ChainID :: string
  as_Name :: string
  as_Symbol :: string
  as_Alias :: string
  as_CurrentSupply :: string
  as_CreatedAt :: gotime
  as_Score :: u64
  as_Denomination :: u8
  as_VariableCap :: u8
  as_Nft :: u8

record AssetList =
  sl_Count :: "u64 option"
  sl_Assets :: "Asset list"

definition asset_of_row :: "row \<Rightarrow> Asset" where
  "asset_of_row r = \<lparr>as_ID = getS r ''avm_assets.id'', as_ChainID = getS r ''avm_assets.chain_id'', as_Name = getS r ''avm_assets.name'',
     as_Symbol = getS r ''avm_assets.symbol'', as_Alias = getS r ''avm_assets.alias'', as_CurrentSupply = getS r ''avm_assets.current_supply'',
     as_CreatedAt = getT r ''avm_assets.created_at'', as_Score = 0, as_Denomination = getW r ''avm_assets.denomination'',
     as_VariableCap = 0, as_Nft = 0\<rparr>"

definition mintOutputs :: "OutputType list" where
  "mintOutputs = [OutputTypesSECP2556K1Mint, OutputTypesNFTMint, OutputTypesNFTTransfer]"

text \<open>One row for every asset and type of its minting outputs.\<close>

definition mint_query :: "string list \<Rightarrow> tables \<Rightarrow> row list" where
  "mint_query assetIDs T =
     map (\<lambda>((asset, ty), _) c. if c = ''asset_id'' then asset else if c = ''output_type'' then ty else None)
       (q_group (\<lambda>r. (r ''avm_outputs.asset_id'', r ''avm_outputs.output_type''))
         (filter (\<lambda>r. in_numbers r ''avm_outputs.output_type'' (map ucast mintOutputs) \<and> in_texts r ''avm_outputs.asset_id'' assetIDs)
           (q_from ''avm_outputs'' T)))"

definition mint_row :: "row \<Rightarrow> (string \<rightharpoonup> u64) \<times> (string \<rightharpoonup> u64) \<Rightarrow> (string \<rightharpoonup> u64) \<times> (string \<rightharpoonup> u64)" where
  "mint_row r = (\<lambda>(assetMapVariableCap, assetMapNFT).
     let i = getS r ''asset_id''; ty = getW r ''output_type'' :: OutputType in
     if ty = OutputTypesSECP2556K1Mint then (assetMapVariableCap(i \<mapsto> 1), assetMapNFT)
     else if ty = OutputTypesNFTMint then (assetMapVariableCap(i \<mapsto> 1), assetMapNFT(i \<mapsto> 1))
     else if ty = OutputTypesNFTTransfer then (assetMapVariableCap, assetMapNFT(i \<mapsto> 1))
     else (assetMapVariableCap, assetMapNFT))"

definition dress_asset :: "(string \<rightharpoonup> u64) \<times> (string \<rightharpoonup> u64) \<Rightarrow> Asset \<Rightarrow> Asset" where
  "dress_asset = (\<lambda>(assetMapVariableCap, assetMapNFT) asset.
     let asset = (case assetMapVariableCap (as_ID asset) of
                    Some variableCap \<Rightarrow> if variableCap \<noteq> 0 then asset\<lparr>as_VariableCap := 1\<rparr> else asset
                  | None \<Rightarrow> asset)
     in case assetMapNFT (as_ID asset) of Some nft \<Rightarrow> if nft \<noteq> 0 then asset\<lparr>as_Nft := 1\<rparr> else asset | None \<Rightarrow> asset)"

definition dressAssets :: "query_conn \<Rightarrow> Asset list \<Rightarrow> (dbstate, Asset list) go" where
  "dressAssets conn assets =
     (if assets = [] then go_return assets
      else go_bind (qc_load conn (mint_query (map as_ID assets))) (\<lambda>rows.
        go_return (map (dress_asset (fold mint_row rows (Map.empty, Map.empty))) assets)))"

definition asset_columns :: "string list" where
  "asset_columns = map (\<lambda>c. ''avm_assets.'' @ c) [''id'', ''chain_id'', ''name'', ''symbol'', ''alias'', ''denomination'', ''current_supply'', ''created_at'']"

definition ListAssets :: "reader_env \<Rightarrow> query_conn \<Rightarrow> ListAssetsParams \<Rightarrow> query_conn option \<Rightarrow> (dbstate, AssetList) go" where
  "ListAssets rv conn p conns =
     go_then (case conns of Some _ \<Rightarrow> go_return () | None \<Rightarrow> qc_NewSession conn ''list_assets'')
       (let db = (case conns of Some c \<Rightarrow> c | None \<Rightarrow> conn); b = ListAssetsParams_Apply (rv_lib rv) p new_select;
            b' = ListAssetsParams_Apply (rv_lib rv) (p\<lparr>la_ListParams := zero_ListParams\<rparr>) new_select in
        go_bind (load_valid db asset_columns b (\<lambda>T. sb_page b (sb_filter b (q_from ''avm_assets'' T)))) (\<lambda>rows.
        go_bind (dressAssets db (map asset_of_row rows)) (\<lambda>assets.
        go_bind (list_count (la_ListParams p) (length assets)
           (go_bind (load_valid db asset_columns b' (\<lambda>T. [[''count'' \<mapsto> VI (int (length (sb_filter b' (q_from ''avm_assets'' T))))]]))
              (\<lambda>rows. go_return (getW (hd rows) ''count'')))) (\<lambda>count.
          go_return \<lparr>sl_Count = count, sl_Assets = assets\<rparr>))))"

definition GetAsset :: "reader_env \<Rightarrow> query_conn \<Rightarrow> ListAssetsParams \<Rightarrow> string \<Rightarrow> (dbstate, Asset option) go" where
  "GetAsset rv conn p idStrOrAlias =
     (let p = (case ids_FromString (rv_params rv) idStrOrAlias of
                 Inr i \<Rightarrow> p\<lparr>la_ListParams := (la_ListParams p)\<lparr>lp_ID := Some i\<rparr>\<rparr>
               | Inl _ \<Rightarrow> p\<lparr>la_Alias := idStrOrAlias\<rparr>);
          p = p\<lparr>la_ListParams := (la_ListParams p)\<lparr>lp_DisableCounting := True\<rparr>\<rparr>
      in go_bind (ListAssets rv conn p None) (\<lambda>assetList. go_return (case sl_Assets assetList of [] \<Rightarrow> None | a # _ \<Rightarrow> Some a)))"

section \<open>Blocks of the platform chain\<close>

record Block =
  bl_ID :: string
  bl_ParentID :: string
  bl_ChainID :: string
  bl_Type :: BlockType
  bl_CreatedAt :: gotime

definition block_of_row :: "row \<Rightarrow> Block" where
  "block_of_row r = \<lparr>bl_ID = getS r ''pvm_blocks.id'', bl_ParentID = getS r ''pvm_blocks.parent_id'', bl_ChainID = getS r ''pvm_blocks.chain_id'',
     bl_Type = getW r ''pvm_blocks.type'', bl_CreatedAt = getT r ''pvm_blocks.created_at''\<rparr>"

definition ListBlocks :: "reader_env \<Rightarrow> query_conn \<Rightarrow> ListBlocksParams \<Rightarrow> (dbstate, Block list) go" where
  "ListBlocks rv conn p =
     go_then (qc_NewSession conn ''list_blocks'')
       (let b = ListBlocksParams_Apply (rv_lib rv) p new_select in
        go_bind (load_valid conn [''pvm_blocks.id''] b (\<lambda>T. sb_page b (sb_filter b (q_from ''pvm_blocks'' T)))) (\<lambda>rows.
          go_return (map block_of_row rows)))"

definition GetBlock :: "reader_env \<Rightarrow> query_conn \<Rightarrow> ID \<Rightarrow> (dbstate, Block option) go" where
  "GetBlock rv conn i =
     go_bind (ListBlocks rv conn (zero_ListBlocksParams\<lparr>lb_ListParams := zero_ListParams\<lparr>lp_ID := Some i\<rparr>\<rparr>)) (\<lambda>blocks.
       go_return (case blocks of [] \<Rightarrow> None | blk # _ \<Rightarrow> Some blk))"

section \<open>Search\<close>

abbreviation ErrSearchQueryTooShort :: go_error where
  "ErrSearchQueryTooShort \<equiv> ErrorString ''search query too short''"

definition MinSearchQueryLength :: nat where "MinSearchQueryLength = 1"

datatype search_data = AddressData AddressInfo | TransactionData ApiTransaction | AssetData Asset

abbreviation ResultTypeTransaction :: string where "ResultTypeTransaction \<equiv> ''transaction''"
abbreviation ResultTypeAsset :: string where "ResultTypeAsset \<equiv> ''asset''"
abbreviation ResultTypeAddress :: string where "ResultTypeAddress \<equiv> ''address''"

record SearchResult =
  sr_SearchResultType :: string
  sr_Data :: search_data
  sr_Score :: u64

record SearchResults =
  ss_Count :: u64
  ss_Results :: "SearchResult list"

definition collateSearchResults :: "Asset list \<Rightarrow> AddressInfo list \<Rightarrow> ApiTransaction list \<Rightarrow> SearchResults" where
  "collateSearchResults assets addresses transactions =
     (let n = int (length assets + length addresses + length transactions);
          n = (if n > PaginationMaxLimit then PaginationMaxLimit else n)
      in \<lparr>ss_Count = word_of_int n,
          ss_Results =
            map (\<lambda>d. \<lparr>sr_SearchResultType = ResultTypeAddress, sr_Data = AddressData d, sr_Score = 0\<rparr>) addresses
          @ map (\<lambda>d. \<lparr>sr_SearchResultType = ResultTypeTransaction, sr_Data = TransactionData d, sr_Score = 0\<rparr>) transactions
          @ map (\<lambda>d. \<lparr>sr_SearchResultType = ResultTypeAsset, sr_Data = AssetData d, sr_Score = 0\<rparr>) assets\<rparr>)"

definition no_results :: SearchResults where
  "no_results = \<lparr>ss_Count = 0, ss_Results = []\<rparr>"

definition searchByID :: "reader_env \<Rightarrow> query_conn \<Rightarrow> ID \<Rightarrow> (dbstate, SearchResults) go" where
  "searchByID rv conn i =
     go_then (qc_NewSession conn ''search_by_id'')
       (go_bind (qc_load conn (\<lambda>T. q_select transactionColumns (take 1
          (filter (\<lambda>r. where_holds r (WhereEq ''avm_transactions.id'' (ID_String (rv_lib rv) i))) (transactionQuery T))))) (\<lambda>rows.
         let txs = map tx_of_row rows in
         go_return (if txs \<noteq> [] then collateSearchResults [] [] txs else no_results)))"

definition searchByShortID :: "reader_env \<Rightarrow> query_conn \<Rightarrow> ShortID \<Rightarrow> (dbstate, SearchResults) go" where
  "searchByShortID rv conn i =
     go_bind (ListAddresses rv conn (zero_ListAddressesParams\<lparr>ad_ListParams := zero_ListParams\<lparr>lp_DisableCounting := True\<rparr>, ad_Address := Some i\<rparr>)) (\<lambda>addrs.
       go_return (if al_Addresses addrs \<noteq> [] then collateSearchResults [] (al_Addresses addrs) [] else no_results))"

text \<open>The two blocks under \<open>if false\<close> are left out.\<close>

definition Search :: "reader_env \<Rightarrow> query_conn \<Rightarrow> SearchParams \<Rightarrow> (dbstate, SearchResults) go" where
  "Search rv conn p =
     (let l = (sp_ListParams p)\<lparr>lp_DisableCounting := True\<rparr> in
      if length (lp_Query l) < MinSearchQueryLength then go_raise ErrSearchQueryTooShort
      else
        (case AddressFromString (rv_params rv) (lp_Query l) of
           Inr shortID \<Rightarrow> searchByShortID rv conn shortID
         | Inl _ \<Rightarrow>
             (case ids_FromString (rv_params rv) (lp_Query l) of
                Inr i \<Rightarrow> searchByID rv conn i
              | Inl _ \<Rightarrow>
                  go_bind (ListAssets rv conn (zero_ListAssetsParams\<lparr>la_ListParams := l\<rparr>) None) (\<lambda>assetsResp.
                    let assets = sl_Assets assetsResp in
                    if int (length assets) \<ge> lp_Limit l then go_return (collateSearchResults assets [] [])
                    else
                      go_then (qc_NewSession conn ''search'')
                        (go_bind (qc_load conn (\<lambda>T. q_select transactionColumns (q_limit (Some (word_of_int (lp_Limit l)))
                           (q_order_desc (\<lambda>r. getT r ''avm_transactions.created_at'')
                             (filter (\<lambda>r. where_holds r (WhereLike ''avm_transactions.id'' (lp_Query l @ ''%''))) (transactionQuery T)))))) (\<lambda>rows.
                          go_return (collateSearchResults assets [] (map tx_of_row rows))))))))"

section \<open>Raw data\<close>

text \<open>The consumers of the chains and of the EVM chain, which the reader asks for the JSON of what it found.\<close>

record reader_consumers =
  rc_chainConsumers :: "string \<rightharpoonup> (bytes \<Rightarrow> go_error + bytes)"
  rc_axChainCconsumer :: "bytes \<Rightarrow> go_error + bytes"

definition chainWriter :: "reader_consumers \<Rightarrow> string \<Rightarrow> go_error + (bytes \<Rightarrow> go_error + bytes)" where
  "chainWriter rc chainID = (case rc_chainConsumers rc chainID of Some w \<Rightarrow> Inr w | None \<Rightarrow> Inl (ErrorString ''unimplemented''))"

definition parse_with :: "reader_consumers \<Rightarrow> string \<Rightarrow> bytes \<Rightarrow> (dbstate, bytes) go" where
  "parse_with rc chainID serialization = go_lift (res_bind (chainWriter rc chainID) (\<lambda>c. c serialization))"

definition ATxDATA :: "reader_consumers \<Rightarrow> query_conn \<Rightarrow> TxDataParam \<Rightarrow> (dbstate, bytes) go" where
  "ATxDATA rc conn p =
     go_then (qc_NewSession conn ''atx_data'')
       (go_bind (qc_load conn (\<lambda>T. filter (\<lambda>r. where_holds r (WhereEq ''id'' (td_ID p))) (T ''avm_transactions''))) (\<lambda>rows.
          case rows of
            [] \<Rightarrow> go_return []
          | row # _ \<Rightarrow> parse_with rc (getS row ''chain_id'') (bytes_or_nil row ''canonical_serialization'')))"

text \<open>A column that holds a number as text is compared as a number.\<close>

definition num_col :: "row \<Rightarrow> string \<Rightarrow> int option" where
  "num_col r c = (case r c of Some (VRaw s) \<Rightarrow> big_SetString s | Some (VI i) \<Rightarrow> Some i | _ \<Rightarrow> None)"

definition ptx_query :: "string \<Rightarrow> tables \<Rightarrow> row list" where
  "ptx_query pid T =
     (case big_SetString pid of
        Some idInt \<Rightarrow> filter (\<lambda>r. num_col r ''height'' = Some idInt) (T TablePvmBlocks)
      | None \<Rightarrow> filter (\<lambda>r. where_holds r (WhereEq ''id'' pid)) (T TablePvmBlocks))"

definition proposer_query :: "string \<Rightarrow> tables \<Rightarrow> row list" where
  "proposer_query blkID T =
     filter (\<lambda>r. where_holds r (WhereEq ''pvm_proposer.blk_id'' blkID))
       (q_join T ''tx_pool'' (eq_cols ''pvm_proposer.proposer_blk_id'' ''tx_pool.msg_key'') (q_from ''pvm_proposer'' T))"

definition PTxDATA :: "reader_consumers \<Rightarrow> query_conn \<Rightarrow> TxDataParam \<Rightarrow> (dbstate, bytes) go" where
  "PTxDATA rc conn p =
     go_then (qc_NewSession conn ''ptx_data'')
       (go_bind (qc_load conn (ptx_query (td_ID p))) (\<lambda>rows.
          case rows of
            [] \<Rightarrow> go_return []
          | row # _ \<Rightarrow>
              go_bind (qc_load conn (proposer_query (getS row ''id''))) (\<lambda>proposerrows.
                let serialization = (case proposerrows of [] \<Rightarrow> bytes_or_nil row ''serialization''
                                     | proposerrow # _ \<Rightarrow> bytes_or_nil proposerrow ''tx_pool.serialization'')
                in parse_with rc (getS row ''chain_id'') serialization)))"

definition ETxDATA :: "reader_consumers \<Rightarrow> query_conn \<Rightarrow> TxDataParam \<Rightarrow> (dbstate, bytes) go" where
  "ETxDATA rc conn p =
     go_then (qc_NewSession conn ''etx_data'')
       (go_bind (case big_SetString (td_ID p) of
            Some idInt \<Rightarrow> qc_load conn (\<lambda>T. filter (\<lambda>r. num_col r ''block'' = Some idInt) (T TableCvmTransactions))
          | None \<Rightarrow> go_return []) (\<lambda>rows.
          case rows of [] \<Rightarrow> go_return [] | row # _ \<Rightarrow> go_lift (rc_axChainCconsumer rc (bytes_or_nil row ''serialization''))))"

definition RawTransaction :: "extlib \<Rightarrow> query_conn \<Rightarrow> ID \<Rightarrow> (dbstate, string) go" where
  "RawTransaction lib conn i =
     go_then (qc_NewSession conn ''raw-transaction'')
       (go_bind (qc_load conn (\<lambda>T. filter (\<lambda>r. where_holds r (WhereEq ''msg_key'' (ID_String lib i))) (T TableTxPool))) (\<lambda>rows.
          case rows of
            [] \<Rightarrow> go_raise DbrErrNotFound
          | row # _ \<Rightarrow> go_return (''0x'' @ hex_EncodeToString (bytes_or_nil row ''serialization''))))"

subsection \<open>Blocks of the EVM chain\<close>

text \<open>\<open>ParseJSON\<close> of the EVM writer, with \<open>json.Marshal\<close> of the transactions as an argument.\<close>

definition cvm_ParseJSON :: "cvmlib \<Rightarrow> cvmWriter \<Rightarrow> (EvmTx list \<Rightarrow> go_error + bytes) \<Rightarrow> bytes \<Rightarrow> go_error + bytes" where
  "cvm_ParseJSON cl w marshal txdata =
     res_bind (modelsc_Unmarshal cl txdata) (\<lambda>block.
       let extra = bytes_of (Block_BlockExtraData block) in
       if extra = [] then Inr []
       else res_bind (if Header_Time (Block_Header block) < cvmW_ap5Activation w then extractAtomicTxsPreApricotPhase5 cl extra
                      else extractAtomicTxsPostApricotPhase5 cl extra) marshal)"

text \<open>The exported block: \<open>be_Block\<close> holds the header, the uncles, the version and the extra data, which are copied.\<close>

record BlockExport =
  be_BlockNumber :: string
  be_BlockHash :: string
  be_BlockID :: string
  be_Block :: cBlock
  be_BlockExtraID :: string
  be_Txs :: "RawTx list"
  be_Logs :: "EthLog list"

record exportlib =
  xl_UnmarshalLog :: "bytes \<Rightarrow> go_error + EthLog"
  xl_MarshalExport :: "BlockExport \<Rightarrow> go_error + bytes"

definition ctx_query :: "string \<Rightarrow> tables \<Rightarrow> row list" where
  "ctx_query pid T =
     (case big_SetString pid of
        Some idInt \<Rightarrow> take 1 (filter (\<lambda>r. num_col r ''block'' = Some idInt) (T ''cvm_transactions''))
      | None \<Rightarrow>
          (let h = (if \<not> HasPrefix pid ''0x'' then ''0x'' @ pid else pid);
               sq = map (\<lambda>r. num_col r ''block'')
                 (filter (\<lambda>r. where_holds r (WhereOr [WhereEq ''hash'' h, WhereEq ''rcpt'' h])) (T ''cvm_transactions_txdata''))
           in take 1 (q_order_desc (\<lambda>r. case num_col r ''block'' of Some n \<Rightarrow> n | None \<Rightarrow> 0)
                (filter (\<lambda>r. where_holds r (WhereEq ''hash'' h) \<or> (num_col r ''block'' \<noteq> None \<and> num_col r ''block'' \<in> set sq))
                  (T ''cvm_transactions'')))))"

text \<open>The bytes of a hash that is printed with \<open>0x\<close>.\<close>

definition hash_bytes :: "string \<Rightarrow> bytes" where
  "hash_bytes h = (case hex_DecodeString (TrimPrefix h ''0x'') of Some bs \<Rightarrow> bs | None \<Rightarrow> [])"

definition export_ids :: "extlib \<Rightarrow> cBlock \<Rightarrow> go_error + string \<times> string" where
  "export_ids lib block =
     res_bind (let extra = bytes_of (Block_BlockExtraData block) in
               if extra \<noteq> [] then res_bind (ToID lib (ComputeHash256 lib extra)) (\<lambda>txID. Inr (ID_String lib txID)) else Inr []) (\<lambda>txIDs.
     res_bind (ToID lib (hash_bytes (Header_Hash (Block_Header block)))) (\<lambda>hID. Inr (txIDs, ID_String lib hID)))"

text \<open>\<open>sort.Slice\<close> may exchange logs with the same index; here they keep their order.\<close>

definition CTxDATA :: "extlib \<Rightarrow> cvmlib \<Rightarrow> exportlib \<Rightarrow> query_conn \<Rightarrow> TxDataParam \<Rightarrow> (dbstate, bytes) go" where
  "CTxDATA lib cl xl conn p =
     go_then (qc_NewSession conn ''ctx_data'')
       (go_bind (qc_load conn (ctx_query (td_ID p))) (\<lambda>rows.
          case rows of
            [] \<Rightarrow> go_return []
          | row # _ \<Rightarrow>
              go_bind (go_lift (modelsc_Unmarshal cl (bytes_or_nil row ''serialization''))) (\<lambda>block.
              go_bind (go_lift (export_ids lib block)) (\<lambda>(txIDs, hID).
              let n = Header_Number (Block_Header block) in
              go_bind (qc_load conn (\<lambda>T. q_order (\<lambda>r. getI r ''idx'') (filter (\<lambda>r. num_col r ''block'' = Some n) (T ''cvm_transactions_txdata'')))) (\<lambda>rowsData.
              go_bind (go_lift (res_map (\<lambda>r. json_UnmarshalRawTx cl (bytes_or_nil r ''serialization'')) rowsData)) (\<lambda>txs.
              go_bind (qc_load conn (\<lambda>T. filter (\<lambda>r. num_col r ''block'' = Some n) (T TableCvmLogs))) (\<lambda>rowsLog.
              go_bind (go_lift (res_map (\<lambda>r. xl_UnmarshalLog xl (bytes_or_nil r ''serialization'')) rowsLog)) (\<lambda>logs.
                go_lift (xl_MarshalExport xl \<lparr>be_BlockNumber = Itoa n, be_BlockHash = Header_Hash (Block_Header block), be_BlockID = hID,
                  be_Block = block, be_BlockExtraID = txIDs, be_Txs = txs, be_Logs = sort_key Log_Index logs\<rparr>)))))))))"

end
