(* ===== verification/ReaderTotals.thy ===== *)
theory ReaderTotals
  imports ReaderTxs
begin

text \<open>
  The totals that \<open>dressTransactions\<close> of \<open>reader_list_txs.go\<close> adds to a transaction, computed from the tables: how often
  the joins of \<open>selectOutputs\<close> return an output.
\<close>

section \<open>The totals of a transaction\<close>

definition total :: "(string \<rightharpoonup> int) \<Rightarrow> string \<Rightarrow> int" where
  "total m a = (case m a of None \<Rightarrow> 0 | Some x \<Rightarrow> x)"

lemma total_add: "total (addToBigIntMap m b x) a = total m a + (if a = b then x else 0)"
  by (simp add: total_def addToBigIntMap_def Let_def)

definition rec_amount :: "compositeRecord \<Rightarrow> int" where
  "rec_amount c = (case big_SetString (ao_Amount (cr_Output c)) of None \<Rightarrow> 0 | Some x \<Rightarrow> x)"

definition rec_of :: "string \<Rightarrow> string \<Rightarrow> compositeRecord \<Rightarrow> bool" where
  "rec_of tx a c \<longleftrightarrow> ao_TransactionID (cr_Output c) = tx \<and> ao_AssetID (cr_Output c) = a"

lemma collect_outputs_total:
  "collect_outputs outs dm = Inr dm' \<Longrightarrow>
    total (dm_outputTotals dm' tx) a = total (dm_outputTotals dm tx) a + (\<Sum>c \<leftarrow> outs. if rec_of tx a c then rec_amount c else 0)"
proof (induction outs arbitrary: dm)
  case (Cons c outs)
  then obtain dm1 where dm1: "collect_output c dm = Inr dm1" "collect_outputs outs dm1 = Inr dm'" by (auto simp: res_bind_Inr)
  then have "total (dm_outputTotals dm1 tx) a = total (dm_outputTotals dm tx) a + (if rec_of tx a c then rec_amount c else 0)"
    by (auto simp: collect_output_def Let_def rec_of_def rec_amount_def total_add split: option.splits)
  with Cons.IH [OF dm1(2)] show ?case by simp
qed simp

lemma add_creds_totals: "dm_outputTotals (fold add_creds outs dm) = dm_outputTotals dm"
proof (induction outs arbitrary: dm)
  case (Cons c outs)
  have "dm_outputTotals (add_creds c dm) = dm_outputTotals dm" by (simp add: add_creds_def Let_def split: option.splits prod.splits)
  with Cons show ?case by simp
qed simp

text \<open>The rows that \<open>InsertOutputs\<close> writes.\<close>

definition out_rows_ok :: "tables \<Rightarrow> bool" where
  "out_rows_ok T \<longleftrightarrow> (\<forall>r \<in> set (T TableOutputs). \<exists>v. r = new_row TableOutputs (Outputs_cols v))"

lemma new_out_row:
  "new_row TableOutputs (Outputs_cols v) ''id'' = Some (VS (Outputs_ID v))"
  "new_row TableOutputs (Outputs_cols v) ''transaction_id'' = Some (VS (Outputs_TransactionID v))"
  "new_row TableOutputs (Outputs_cols v) ''asset_id'' = Some (VS (Outputs_AssetID v))"
  "new_row TableOutputs (Outputs_cols v) ''amount'' = Some (VI (uint (Outputs_Amount v)))"
  by (simp_all add: new_row_def norm_pairs_def Outputs_cols_def ToLower_def lower_char_def)

abbreviation OUT :: string where "OUT \<equiv> ''avm_outputs.''"

text \<open>What a row adds to the total of an asset.\<close>

definition row_part :: "string \<Rightarrow> string \<Rightarrow> row \<Rightarrow> int" where
  "row_part tx a r = (if r ''avm_outputs.transaction_id'' = Some (VS tx) \<and> r ''avm_outputs.asset_id'' = Some (VS a)
     then getI r ''avm_outputs.amount'' else 0)"

lemma row_part_cong: "(\<And>c. HasPrefix c OUT \<Longrightarrow> r c = r' c) \<Longrightarrow> row_part tx a r = row_part tx a r'"
  by (simp add: row_part_def getI_def HasPrefix_def)

lemma join_values_sum:
  fixes f :: "row \<Rightarrow> int"
  assumes "distinct vs" "x \<noteq> b" "\<And>l. l \<in> set left \<Longrightarrow> l x = None \<and> l b \<noteq> None" "\<And>l v. f (l(x := v)) = f l"
  shows "sum_list (map f (q_join_rows (map (\<lambda>v c. if c = x then v else None) vs) (eq_cols x b) left))
    = (\<Sum>l \<leftarrow> left. if \<not> is_null l b \<and> l b \<in> set vs then f l else 0)"
  using assms(3)
proof (induction left)
  case (Cons l left)
  have l: "l x = None" "l b \<noteq> None" using Cons.prems by auto
  have upd: "l ++ (\<lambda>c. if c = x then v else None) = l(x := v)" for v
    using l(1) by (auto simp: map_add_def split: option.splits)
  have "eq_cols x b (l(x := v)) \<longleftrightarrow> v = l b \<and> \<not> is_null l b" for v
    using assms(2) l(2) by (auto simp: eq_cols_def is_null_def)
  then have "sum_list (map f (filter (eq_cols x b) (map (\<lambda>s. l ++ s) (map (\<lambda>v c. if c = x then v else None) vs))))
      = (\<Sum>v \<leftarrow> filter (\<lambda>v. v = l b) vs. if is_null l b then 0 else f l)"
    by (auto simp: upd filter_map comp_def assms(4) intro!: arg_cong [of _ _ sum_list])
  also have "\<dots> = (if \<not> is_null l b \<and> l b \<in> set vs then f l else 0)" using filter_eq_one [OF assms(1), of "l b"] by simp
  finally show ?case using Cons by (simp add: q_join_rows_def)
qed (simp add: q_join_rows_def)

lemma out_prefix:
  assumes "HasPrefix c OUT"
  shows "\<not> HasPrefix c ''avm_outputs_redeeming.''" "\<not> HasPrefix c ''avm_output_addresses.''"
    "\<not> HasPrefix c ''transactions_rewards_owners_outputs.''" "\<not> HasPrefix c ''addresses.''" "c \<noteq> ''union_q_x.id''"
proof -
  obtain x where "c = OUT @ x" using assms unfolding HasPrefix_iff_prefix prefix_def by blast
  then show "\<not> HasPrefix c ''avm_outputs_redeeming.''" "\<not> HasPrefix c ''avm_output_addresses.''"
    "\<not> HasPrefix c ''transactions_rewards_owners_outputs.''" "\<not> HasPrefix c ''addresses.''" "c \<noteq> ''union_q_x.id''"
    by (simp_all add: HasPrefix_def)
qed

text \<open>A row of a join that starts with the rows \<open>F\<close> of a table, over the tables \<open>ts\<close>; \<open>P\<close> is the prefix of its columns.\<close>

definition extends_row :: "string \<Rightarrow> row list \<Rightarrow> string list \<Rightarrow> row \<Rightarrow> bool" where
  "extends_row P F ts l \<longleftrightarrow> cols_in ts l \<and> (\<exists>r \<in> set F. \<forall>c. HasPrefix c P \<longrightarrow> l c = r c)"

lemma extends_row_join:
  assumes "\<forall>l \<in> set left. extends_row P F ts l" "\<And>c. HasPrefix c P \<Longrightarrow> \<not> HasPrefix c (t @ ''.'')"
  shows "\<forall>r \<in> set (q_left_join T t on left). extends_row P F (t # ts) r"
proof
  fix r assume "r \<in> set (q_left_join T t on left)"
  then obtain l where l: "l \<in> set left" "\<And>c. \<not> HasPrefix c (t @ ''.'') \<Longrightarrow> r c = l c" "cols_in ts l \<Longrightarrow> cols_in (t # ts) r"
    using left_join_member by metis
  then obtain r0 where "r0 \<in> set F" "\<And>c. HasPrefix c P \<Longrightarrow> l c = r0 c" using assms(1) by (auto simp: extends_row_def)
  then have "\<exists>r0 \<in> set F. \<forall>c. HasPrefix c P \<longrightarrow> r c = r0 c" using l(2) assms(2) by metis
  then show "extends_row P F (t # ts) r" using l assms(1) by (simp add: extends_row_def)
qed

text \<open>How often an output is in the result: once for each of its addresses, and once when it has none.\<close>

definition address_rows :: "row \<Rightarrow> tables \<Rightarrow> nat" where
  "address_rows r T = length (filter (\<lambda>q. q ''output_id'' = r ''id'') (T TableOutputAddresses))"

abbreviation outs_R :: "tables \<Rightarrow> row list" where
  "outs_R T \<equiv> q_left_join T ''avm_outputs_redeeming'' (eq_cols ''avm_outputs.id'' ''avm_outputs_redeeming.id'') (q_from ''avm_outputs'' T)"

abbreviation outs_A :: "tables \<Rightarrow> row list" where
  "outs_A T \<equiv> q_left_join T ''avm_output_addresses'' (eq_cols ''avm_outputs.id'' ''avm_output_addresses.output_id'') (outs_R T)"

abbreviation outs_O :: "tables \<Rightarrow> row list" where
  "outs_O T \<equiv> q_left_join T ''transactions_rewards_owners_outputs'' (eq_cols ''avm_outputs.id'' ''transactions_rewards_owners_outputs.id'') (outs_A T)"

lemma selectOutputs_joins: "selectOutputs False T = q_left_join T ''addresses'' (eq_cols ''addresses.address'' ''avm_output_addresses.address'') (outs_O T)"
  by (simp add: selectOutputs_def)

lemma outs_extend:
  fixes T :: tables
  defines "F \<equiv> q_from ''avm_outputs'' T"
  shows "\<forall>l \<in> set F. extends_row OUT F [''avm_outputs''] l"
    and "\<forall>l \<in> set (outs_R T). extends_row OUT F [''avm_outputs_redeeming'', ''avm_outputs''] l"
    and "\<forall>l \<in> set (outs_A T). extends_row OUT F [''avm_output_addresses'', ''avm_outputs_redeeming'', ''avm_outputs''] l"
    and "\<forall>l \<in> set (outs_O T). extends_row OUT F [''transactions_rewards_owners_outputs'', ''avm_output_addresses'', ''avm_outputs_redeeming'', ''avm_outputs''] l"
    and "\<forall>l \<in> set (selectOutputs False T). extends_row OUT F [''addresses'', ''transactions_rewards_owners_outputs'', ''avm_output_addresses'',
      ''avm_outputs_redeeming'', ''avm_outputs''] l"
proof -
  show *: "\<forall>l \<in> set F. extends_row OUT F [''avm_outputs''] l" by (auto simp: extends_row_def F_def q_from_cols)
  show R: "\<forall>l \<in> set (outs_R T). extends_row OUT F [''avm_outputs_redeeming'', ''avm_outputs''] l"
    unfolding F_def by (rule extends_row_join [OF * [unfolded F_def]]) (simp add: out_prefix)
  show A: "\<forall>l \<in> set (outs_A T). extends_row OUT F [''avm_output_addresses'', ''avm_outputs_redeeming'', ''avm_outputs''] l"
    by (rule extends_row_join [OF R]) (simp add: out_prefix)
  show O: "\<forall>l \<in> set (outs_O T). extends_row OUT F [''transactions_rewards_owners_outputs'', ''avm_output_addresses'', ''avm_outputs_redeeming'', ''avm_outputs''] l"
    by (rule extends_row_join [OF A]) (simp add: out_prefix)
  show "\<forall>l \<in> set (selectOutputs False T). extends_row OUT F [''addresses'', ''transactions_rewards_owners_outputs'', ''avm_output_addresses'',
      ''avm_outputs_redeeming'', ''avm_outputs''] l"
    unfolding selectOutputs_joins by (rule extends_row_join [OF O]) (simp add: out_prefix)
qed

lemma extends_row_None:
  "\<forall>l \<in> set L. extends_row P F ts l \<Longrightarrow> l \<in> set L \<Longrightarrow> \<not> list_ex (\<lambda>t. HasPrefix c (t @ ''.'')) ts \<Longrightarrow> l c = None"
  by (auto simp: extends_row_def elim: cols_inD)

lemma row_part_map:
  assumes "\<And>l c. HasPrefix c OUT \<Longrightarrow> ext l c = l c"
  shows "sum_list (map (row_part tx a) (map ext L)) = sum_list (map (row_part tx a) L)"
proof -
  have "row_part tx a (ext l) = row_part tx a l" for l by (rule row_part_cong) (rule assms)
  then show ?thesis by (simp add: comp_def)
qed

lemma outs_O_sum:
  assumes "tables_ok T"
  shows "sum_list (map (row_part tx a) (selectOutputs False T)) = sum_list (map (row_part tx a) (outs_A T))"
proof -
  have keys: "keys_ok t (T t)" for t using assms by (simp add: tables_ok_def)
  have "\<exists>e. q_left_join T ''addresses'' (eq_cols ''addresses.address'' ''avm_output_addresses.address'') (outs_O T) = map e (outs_O T)
      \<and> (\<forall>l c. \<not> HasPrefix c (''addresses'' @ ''.'') \<longrightarrow> e l c = l c)"
  proof (rule left_join_unique [where kc = "''address''" and key = "\<lambda>l. l ''avm_output_addresses.address''"])
    fix l r assume l: "l \<in> set (outs_O T)" and on: "eq_cols ''addresses.address'' ''avm_output_addresses.address'' (l ++ qualify ''addresses'' r)"
    have "l ''addresses.address'' = None" by (rule extends_row_None [OF outs_extend(4) l]) (simp add: HasPrefix_def)
    then have "(l ++ qualify ''addresses'' r) ''addresses.address'' = r ''address''"
      using qualify_at [of "''addresses''" r "''address''"] by (simp add: map_add_def split: option.splits)
    moreover have "(l ++ qualify ''addresses'' r) ''avm_output_addresses.address'' = l ''avm_output_addresses.address''"
      by (simp add: map_add_def qualify_other HasPrefix_def)
    ultimately show "r ''address'' = l ''avm_output_addresses.address'' \<and> l ''avm_output_addresses.address'' \<noteq> None"
      using on by (auto simp: eq_cols_def is_null_def split: option.splits)
  qed (simp_all add: keys unique_keys_def)
  then obtain e3 where e3: "selectOutputs False T = map e3 (outs_O T)" "\<And>l c. \<not> HasPrefix c ''addresses.'' \<Longrightarrow> e3 l c = l c"
    unfolding selectOutputs_joins by auto
  have "\<exists>e. q_left_join T ''transactions_rewards_owners_outputs'' (eq_cols ''avm_outputs.id'' (''transactions_rewards_owners_outputs'' @ ''.id'')) (outs_A T)
      = map e (outs_A T) \<and> (\<forall>l c. \<not> HasPrefix c (''transactions_rewards_owners_outputs'' @ ''.'') \<longrightarrow> e l c = l c)"
    by (rule left_join_key [OF keys]) (simp_all add: unique_keys_def HasPrefix_def extends_row_None [OF outs_extend(3)])
  then obtain e2 where e2: "outs_O T = map e2 (outs_A T)" "\<And>l c. \<not> HasPrefix c ''transactions_rewards_owners_outputs.'' \<Longrightarrow> e2 l c = l c" by auto
  have "sum_list (map (row_part tx a) (selectOutputs False T)) = sum_list (map (row_part tx a) (outs_O T))"
    unfolding e3(1) by (rule row_part_map) (simp add: e3(2) out_prefix)
  also have "\<dots> = sum_list (map (row_part tx a) (outs_A T))"
    unfolding e2(1) by (rule row_part_map) (simp add: e2(2) out_prefix)
  finally show ?thesis .
qed

lemma selectOutputs_sum:
  assumes ok: "tables_ok T" "out_rows_ok T"
  shows "sum_list (map (row_part tx a) (selectOutputs False T))
    = (\<Sum>r \<leftarrow> T TableOutputs. row_part tx a (qualify ''avm_outputs'' r) * int (max 1 (address_rows r T)))"
proof -
  have keys: "keys_ok t (T t)" for t using ok(1) by (simp add: tables_ok_def)
  let ?f = "row_part tx a" and ?F = "q_from ''avm_outputs'' T"
  have "\<exists>e. q_left_join T ''avm_outputs_redeeming'' (eq_cols ''avm_outputs.id'' (''avm_outputs_redeeming'' @ ''.id'')) ?F = map e ?F
      \<and> (\<forall>l c. \<not> HasPrefix c (''avm_outputs_redeeming'' @ ''.'') \<longrightarrow> e l c = l c)"
    by (rule left_join_key [OF keys]) (simp_all add: unique_keys_def HasPrefix_def extends_row_None [OF outs_extend(1)])
  then obtain e1 where e1: "outs_R T = map e1 ?F" "\<And>l c. \<not> HasPrefix c ''avm_outputs_redeeming.'' \<Longrightarrow> e1 l c = l c" by auto
  have part: "?f (l ++ qualify ''avm_output_addresses'' r) = ?f l" for l r
    by (rule row_part_cong) (simp add: map_add_def qualify_other out_prefix)
  have count: "length (filter (\<lambda>q. eq_cols ''avm_outputs.id'' ''avm_output_addresses.output_id'' (e1 (qualify ''avm_outputs'' r) ++ qualify ''avm_output_addresses'' q))
      (T TableOutputAddresses)) = address_rows r T" if r: "r \<in> set (T TableOutputs)" for r
  proof -
    let ?l = "e1 (qualify ''avm_outputs'' r)"
    obtain v where v: "r = new_row TableOutputs (Outputs_cols v)" using ok(2) r by (auto simp: out_rows_ok_def)
    have id: "?l ''avm_outputs.id'' = Some (VS (Outputs_ID v))"
      using qualify_at [of "''avm_outputs''" r "''id''"] by (simp add: e1(2) HasPrefix_def v new_out_row)
    have "?l \<in> set (outs_R T)" unfolding e1(1) using r by (simp add: q_from_def)
    then have "?l ''avm_output_addresses.output_id'' = None" by (rule extends_row_None [OF outs_extend(2)]) (simp add: HasPrefix_def)
    then have "(?l ++ qualify ''avm_output_addresses'' q) ''avm_output_addresses.output_id'' = q ''output_id''" for q
      using qualify_at [of "''avm_output_addresses''" q "''output_id''"] by (simp add: map_add_def split: option.splits)
    moreover have "(?l ++ qualify ''avm_output_addresses'' q) ''avm_outputs.id'' = Some (VS (Outputs_ID v))" for q
      using id by (simp add: map_add_def qualify_other HasPrefix_def)
    ultimately show ?thesis by (simp add: address_rows_def eq_cols_def is_null_def v new_out_row eq_commute)
  qed
  have f1: "?f (e1 l) = ?f l" for l by (rule row_part_cong) (simp add: e1(2) out_prefix)
  have "sum_list (map ?f (selectOutputs False T)) = sum_list (map ?f (outs_A T))" by (rule outs_O_sum [OF ok(1)])
  also have "\<dots> = (\<Sum>l \<leftarrow> outs_R T. ?f l * int (max 1 (length (filter (\<lambda>q. eq_cols ''avm_outputs.id'' ''avm_output_addresses.output_id''
      (l ++ qualify ''avm_output_addresses'' q)) (T TableOutputAddresses)))))"
    by (rule left_join_sum) (rule part)
  also have "\<dots> = (\<Sum>r \<leftarrow> T TableOutputs. ?f (e1 (qualify ''avm_outputs'' r)) * int (max 1 (address_rows r T)))"
    unfolding e1(1) unfolding q_from_def map_map comp_def
    by (intro arg_cong [of _ _ sum_list] map_cong refl) (simp only: count)
  finally show ?thesis by (simp add: f1)
qed

lemma selected_part:
  assumes "\<And>c. HasPrefix c OUT \<Longrightarrow> l c = qualify ''avm_outputs'' (new_row TableOutputs (Outputs_cols v)) c"
  shows "(if rec_of tx a (composite_of_row (hd (q_select (output_columns False) [l])))
      then rec_amount (composite_of_row (hd (q_select (output_columns False) [l]))) else 0) = row_part tx a l"
proof -
  let ?r = "new_row TableOutputs (Outputs_cols v)" and ?s = "hd (q_select (output_columns False) [l])"
  have out: "l (''avm_outputs'' @ ''.'' @ c) = ?r c" for c
    using assms [of "''avm_outputs'' @ ''.'' @ c"] unfolding qualify_at by (simp add: HasPrefix_def)
  have l: "l ''avm_outputs.transaction_id'' = Some (VS (Outputs_TransactionID v))" "l ''avm_outputs.asset_id'' = Some (VS (Outputs_AssetID v))"
    "l ''avm_outputs.amount'' = Some (VI (uint (Outputs_Amount v)))"
    using out [of "''transaction_id''"] out [of "''asset_id''"] out [of "''amount''"] by (simp_all add: new_out_row)
  have "?s ''transaction_id'' = l ''avm_outputs.transaction_id''" "?s ''asset_id'' = l ''avm_outputs.asset_id''" "?s ''amount'' = l ''avm_outputs.amount''"
    by (simp_all add: q_select_def output_columns_def sel_def sel_or_def)
  then show ?thesis
    by (simp add: rec_of_def rec_amount_def composite_of_row_def output_of_row_def row_part_def getS_def getI_def l)
qed

lemma q_select_each: "q_select cs rows = map (\<lambda>r. hd (q_select cs [r])) rows"
  by (simp add: q_select_def)

lemma selected_row:
  assumes "out_rows_ok T" "l \<in> set (selectOutputs False T)"
  shows "\<exists>r \<in> set (T TableOutputs). \<exists>v. r = new_row TableOutputs (Outputs_cols v) \<and> (\<forall>c. HasPrefix c OUT \<longrightarrow> l c = qualify ''avm_outputs'' r c)"
  using outs_extend(5) [of T] assms by (fastforce simp: extends_row_def q_from_def out_rows_ok_def)

lemma union_row:
  assumes "j \<in> set (q_join_rows (map (\<lambda>v c. if c = ''union_q_x.id'' then v else None) vs) on (selectOutputs False T))" "out_rows_ok T"
  shows "\<exists>v. \<forall>c. HasPrefix c OUT \<longrightarrow> j c = qualify ''avm_outputs'' (new_row TableOutputs (Outputs_cols v)) c"
proof -
  obtain l v where l: "l \<in> set (selectOutputs False T)" "j = l ++ (\<lambda>c. if c = ''union_q_x.id'' then v else None)"
    using assms(1) by (auto simp: q_join_rows_def)
  then have "HasPrefix c OUT \<Longrightarrow> j c = l c" for c by (simp add: map_add_def out_prefix)
  with selected_row [OF assms(2) l(1)] show ?thesis by metis
qed

lemma outs_query_sum:
  assumes ok: "tables_ok T" "out_rows_ok T" and tx: "tx \<in> set txIDs"
  shows "(\<Sum>c \<leftarrow> map composite_of_row (outs_query txIDs T). if rec_of tx a c then rec_amount c else 0)
    = (\<Sum>r \<leftarrow> T TableOutputs. row_part tx a (qualify ''avm_outputs'' r) * int (max 1 (address_rows r T)))"
proof -
  let ?x = "''union_q_x.id''" and ?b = "''avm_outputs.id''" and ?S = "selectOutputs False T"
  define vs where "vs = remdups (map (\<lambda>r. r ?b) (filter (\<lambda>r. in_texts r ''avm_outputs.transaction_id'' txIDs) (q_from ''avm_outputs'' T))
    @ map (\<lambda>r. r ''avm_outputs_redeeming.id'')
        (filter (\<lambda>r. in_texts r ''avm_outputs_redeeming.redeeming_transaction_id'' txIDs) (q_from ''avm_outputs_redeeming'' T)))"
  define J where "J = q_join_rows (map (\<lambda>v c. if c = ?x then v else None) vs) (eq_cols ?x ?b) ?S"
  note row = selected_row [OF ok(2)]
  have S: "l ?x = None" if "l \<in> set ?S" for l
    by (rule extends_row_None [OF outs_extend(5) that]) (simp add: HasPrefix_def)
  have id: "\<exists>i. l ?b = Some (VS i)" if l: "l \<in> set ?S" for l
  proof -
    obtain v where v: "\<And>c. HasPrefix c OUT \<Longrightarrow> l c = qualify ''avm_outputs'' (new_row TableOutputs (Outputs_cols v)) c" using row [OF l] by blast
    show ?thesis using v [of ?b] qualify_at [of "''avm_outputs''" "new_row TableOutputs (Outputs_cols v)" "''id''"]
      by (simp add: HasPrefix_def new_out_row)
  qed
  have upd: "row_part tx a (l(?x := v)) = row_part tx a l" for l v by (rule row_part_cong) (simp add: out_prefix)
  have J_part: "(if rec_of tx a (composite_of_row (hd (q_select (output_columns False) [j])))
      then rec_amount (composite_of_row (hd (q_select (output_columns False) [j]))) else 0) = row_part tx a j" if j: "j \<in> set J" for j
  proof -
    from union_row [OF j [unfolded J_def] ok(2)] show ?thesis by (metis selected_part)
  qed
  have "(\<Sum>c \<leftarrow> map composite_of_row (outs_query txIDs T). if rec_of tx a c then rec_amount c else 0) = sum_list (map (row_part tx a) J)"
    unfolding outs_query_def Let_def J_def [symmetric] vs_def [symmetric] q_select_each [of _ J] map_map comp_def
    by (intro arg_cong [of _ _ sum_list] map_cong refl) (simp only: J_part)
  also have "\<dots> = (\<Sum>l \<leftarrow> ?S. if \<not> is_null l ?b \<and> l ?b \<in> set vs then row_part tx a l else 0)"
    unfolding J_def
  proof (rule join_values_sum)
    show "l ?x = None \<and> l ?b \<noteq> None" if "l \<in> set ?S" for l using S [OF that] id [OF that] by auto
  qed (simp_all add: vs_def upd)
  also have "\<dots> = sum_list (map (row_part tx a) ?S)"
  proof (intro arg_cong [of _ _ sum_list] map_cong refl)
    fix l assume l: "l \<in> set ?S"
    obtain r where r: "r \<in> set (T TableOutputs)" "\<And>c. HasPrefix c OUT \<Longrightarrow> l c = qualify ''avm_outputs'' r c" using row [OF l] by blast
    have "row_part tx a l \<noteq> 0 \<Longrightarrow> l ?b \<in> set vs"
    proof -
      assume "row_part tx a l \<noteq> 0"
      then have "l ''avm_outputs.transaction_id'' = Some (VS tx)" by (auto simp: row_part_def split: if_splits)
      then have "in_texts (qualify ''avm_outputs'' r) ''avm_outputs.transaction_id'' txIDs" using r(2) tx by (simp add: in_texts_def HasPrefix_def)
      then show ?thesis using r by (auto simp: vs_def q_from_def HasPrefix_def)
    qed
    then show "(if \<not> is_null l ?b \<and> l ?b \<in> set vs then row_part tx a l else 0) = row_part tx a l"
      using id [OF l] by (auto simp: is_null_def)
  qed
  finally show ?thesis by (simp add: selectOutputs_sum [OF ok])
qed

abbreviation RED :: string where "RED \<equiv> ''avm_outputs_redeeming.''"

lemma red_prefix:
  assumes "HasPrefix c RED"
  shows "\<not> HasPrefix c ''avm_outputs.''" "\<not> HasPrefix c ''avm_output_addresses.''"
    "\<not> HasPrefix c ''transactions_rewards_owners_outputs.''" "\<not> HasPrefix c ''addresses.''"
proof -
  obtain x where "c = RED @ x" using assms unfolding HasPrefix_iff_prefix prefix_def by blast
  then show "\<not> HasPrefix c ''avm_outputs.''" "\<not> HasPrefix c ''avm_output_addresses.''"
    "\<not> HasPrefix c ''transactions_rewards_owners_outputs.''" "\<not> HasPrefix c ''addresses.''"
    by (simp_all add: HasPrefix_def)
qed

lemma redeem_extend: "\<forall>l \<in> set (selectOutputs True T). extends_row RED (q_from ''avm_outputs_redeeming'' T)
    [''addresses'', ''transactions_rewards_owners_outputs'', ''avm_output_addresses'', ''avm_outputs'', ''avm_outputs_redeeming''] l"
  unfolding selectOutputs_def Let_def if_True
  by (intro extends_row_join) (auto simp: red_prefix extends_row_def q_from_cols)

text \<open>Every output that is redeemed is stored.\<close>

definition redeemed_stored :: "tables \<Rightarrow> bool" where
  "redeemed_stored T \<longleftrightarrow> list_all (\<lambda>q. list_ex (\<lambda>r. r ''id'' = q ''id'') (T TableOutputs)) (T TableOutputsRedeeming)"

lemma missing_query_none:
  assumes "out_rows_ok T" "redeemed_stored T"
  shows "missing_query txIDs T = []"
proof -
  let ?t = "''avm_outputs_redeeming.redeeming_transaction_id''" and ?i = "''avm_outputs_redeeming.id''"
  let ?J = "q_join T ''avm_outputs'' (eq_cols ''avm_outputs.id'' ?i) (q_from ''avm_outputs_redeeming'' T)"
  have "l ?i \<in> set (map (\<lambda>r. r ''avm_outputs.id'') (filter (\<lambda>r. in_texts r ?t txIDs) ?J))"
    if l: "l \<in> set (selectOutputs True T)" "in_texts l ?t txIDs" for l
  proof -
    obtain q where q: "q \<in> set (T TableOutputsRedeeming)" and lq: "\<And>c. HasPrefix c RED \<Longrightarrow> l c = qualify ''avm_outputs_redeeming'' q c"
      using redeem_extend [of T] l(1) by (auto simp: extends_row_def q_from_def)
    obtain r where r: "r \<in> set (T TableOutputs)" "r ''id'' = q ''id''" using assms(2) q by (auto simp: redeemed_stored_def list_all_iff list_ex_iff)
    have "\<exists>v. r = new_row TableOutputs (Outputs_cols v)" using assms(1) r(1) by (simp add: out_rows_ok_def)
    then obtain i where i: "r ''id'' = Some (VS i)" by (metis new_out_row(1))
    let ?j = "qualify ''avm_outputs_redeeming'' q ++ qualify ''avm_outputs'' r"
    have j: "?j c = l c" if "HasPrefix c RED" for c using lq [OF that] that by (simp add: map_add_def qualify_other red_prefix)
    have "?j ''avm_outputs.id'' = Some (VS i)" using i qualify_at [of "''avm_outputs''" r "''id''"] by (simp add: map_add_def)
    moreover have "?j ?i = Some (VS i)"
      using j [of ?i] lq [of ?i] i r(2) qualify_at [of "''avm_outputs_redeeming''" q "''id''"] by (simp add: HasPrefix_def)
    moreover have "in_texts ?j ?t txIDs" using l(2) j [of ?t] by (simp add: in_texts_def HasPrefix_def)
    moreover have "?j \<in> set ?J"
      by (rule q_join_member) (use q r(1) calculation in \<open>simp_all add: q_from_def eq_cols_def is_null_def\<close>)
    ultimately have mem: "?j \<in> set (filter (\<lambda>r. in_texts r ?t txIDs) ?J)" by simp
    have same: "l ?i = ?j ''avm_outputs.id''"
      using \<open>?j ?i = Some (VS i)\<close> \<open>?j ''avm_outputs.id'' = Some (VS i)\<close> j [of ?i] by (simp add: HasPrefix_def)
    show ?thesis unfolding set_map using same mem by (rule image_eqI)
  qed
  then have "filter (\<lambda>r. in_texts r ?t txIDs \<and> r ?i \<notin> set (map (\<lambda>r. r ''avm_outputs.id'') (filter (\<lambda>r. in_texts r ?t txIDs) ?J))) (selectOutputs True T) = []"
    by (auto simp only: filter_empty_conv)
  then show ?thesis by (simp only: missing_query_def Let_def q_select_def list.map)
qed

lemma resolveProposers_keeps: "query_server conn \<Longrightarrow> resolveProposers conn ids d = (r, d') \<Longrightarrow> tabs d' = tabs d"
  by (cases "ids = []") (auto simp: resolveProposers_def go_return_run dest: query_server.load_bind_keeps)

lemma resolveRewarded_keeps: "query_server conn \<Longrightarrow> resolveRewarded conn ids d = (r, d') \<Longrightarrow> tabs d' = tabs d"
  unfolding resolveRewarded_def by (rule query_server.load_bind_keeps)

lemma dressTransactions_parts:
  assumes "dressTransactions lib conn txs axcAssetID txID disableGenesis d = (Inr txs', d')" "txs \<noteq> []"
  obtains outputs d1 d2 dm rt ci co txs1 where
    "collectInsAndOuts conn (map at_ID txs) d1 = (Inr outputs, d2)" "collect_outputs outputs empty_maps = Inr dm"
    "txs' = map (dressTransactionsTx lib disableGenesis txID axcAssetID (fold add_creds outputs dm) rt ci co) txs1"
    "map at_ID txs1 = map at_ID txs" "map at_ChainID txs1 = map at_ChainID txs"
    "query_server conn \<Longrightarrow> tabs d1 = tabs d"
proof -
  define txs0 where "txs0 = map (\<lambda>tx. if at_Memo tx = None then tx\<lparr>at_Memo := Some []\<rparr> else tx) txs"
  have t0: "map at_ID txs0 = map at_ID txs" "map at_ChainID txs0 = map at_ChainID txs" by (simp_all add: txs0_def)
  define g where "g pm tx = (case pm (at_TxBlockID tx) of Some proposer \<Rightarrow> tx\<lparr>at_Proposer := Some proposer\<rparr> | None \<Rightarrow> tx)"
    for pm and tx :: ApiTransaction
  obtain pm d1 rt d2 outputs d3 dm d4 ci co d5 where
    pm: "resolveProposers conn (remdups (filter (\<lambda>b. b \<noteq> []) (map at_TxBlockID txs0))) d = (Inr pm, d1)"
    and rt: "resolveRewarded conn (map at_ID txs0) d1 = (Inr rt, d2)"
    and o: "collectInsAndOuts conn (map at_ID txs0) d2 = (Inr outputs, d3)"
    and dm: "go_lift (collect_outputs outputs empty_maps) d3 = (Inr dm, d4)"
    and "collectCvmTransactions conn (map at_ID txs0) d4 = (Inr (ci, co), d5)"
    and txs': "txs' = map (dressTransactionsTx lib disableGenesis txID axcAssetID (fold add_creds outputs dm) rt ci co) (map (g pm) txs0)"
    using assms unfolding dressTransactions_def Let_def txs0_def [symmetric] go_lift_run
    by (auto simp: go_return_run g_def comp_def elim!: go_bind_Inr)
  have t1: "map at_ID (map (g pm) txs0) = map at_ID txs" "map at_ChainID (map (g pm) txs0) = map at_ChainID txs"
    unfolding t0 [symmetric] by (simp_all add: g_def split: option.splits)
  have "tabs d2 = tabs d" if "query_server conn"
  proof -
    have "tabs d1 = tabs d" by (rule resolveProposers_keeps [OF that pm])
    moreover have "tabs d2 = tabs d1" by (rule resolveRewarded_keeps [OF that rt])
    ultimately show ?thesis by simp
  qed
  with o dm t1 txs' show thesis unfolding t0 go_lift_run prod.inject by (elim conjE) (rule that)
qed

lemma dressed_fields [simp]:
  "at_ID (dressTransactionsTx lib dg txID axc dm rt ci co tx) = at_ID tx"
  "at_ChainID (dressTransactionsTx lib dg txID axc dm rt ci co tx) = at_ChainID tx"
  "at_CreatedAt (dressTransactionsTx lib dg txID axc dm rt ci co tx) = at_CreatedAt tx"
  by (auto simp: dressTransactionsTx_def Let_def split: option.splits)

lemma dressed_total:
  "at_OutputTotals (dressTransactionsTx lib False txID axc dm rt ci co tx) a = map_option Itoa (dm_outputTotals dm (at_ID tx) a)"
  by (auto simp: dressTransactionsTx_def Let_def split: option.splits)

definition token_total :: "AssetTokenCounts \<Rightarrow> string \<Rightarrow> int" where
  "token_total m a = (case m a of None \<Rightarrow> 0 | Some s \<Rightarrow> (case big_SetString s of None \<Rightarrow> 0 | Some x \<Rightarrow> x))"

lemma collectInsAndOuts_records:
  assumes "query_server conn" "collectInsAndOuts conn txIDs d = (Inr outputs, d')"
  shows "outputs = map composite_of_row (outs_query txIDs (tabs d)) @ map composite_of_row (missing_query txIDs (tabs d))"
proof -
  obtain o1 d1 where o1: "qc_load conn (outs_query txIDs) d = (Inr o1, d1)"
    and "go_bind (qc_load conn (missing_query txIDs)) (\<lambda>o2. go_return (map composite_of_row o1 @ map composite_of_row o2)) d1 = (Inr outputs, d')"
    using assms(2) unfolding collectInsAndOuts_def by (rule go_bind_Inr)
  then have "outputs = map composite_of_row o1 @ map composite_of_row (missing_query txIDs (tabs d1))"
    by (intro query_server.load_bind_Inr(1) [OF assms(1)])
  moreover have "o1 = outs_query txIDs (tabs d)" "tabs d1 = tabs d"
    using query_server.load_rows [OF assms(1) o1] query_server.load_keeps [OF assms(1), of "outs_query txIDs" d] o1 by simp_all
  ultimately show ?thesis by simp
qed


text \<open>On a server without faults the transactions are dressed.\<close>

lemma collect_outputs_returns:
  "\<forall>c \<in> set outs. big_SetString (ao_Amount (cr_Output c)) \<noteq> None \<Longrightarrow> \<exists>dm'. collect_outputs outs dm = Inr dm'"
  by (induction outs arbitrary: dm) (auto simp: collect_output_def res_bind_def Let_def)

lemma outs_query_amount:
  assumes "out_rows_ok T" "s \<in> set (outs_query txIDs T)"
  shows "\<exists>i. s ''amount'' = Some (VI i)"
proof -
  obtain j vs where j: "j \<in> set (q_join_rows (map (\<lambda>v c. if c = ''union_q_x.id'' then v else None) vs) (eq_cols ''union_q_x.id'' ''avm_outputs.id'') (selectOutputs False T))"
    and s: "s = hd (q_select (output_columns False) [j])"
    using assms(2) unfolding outs_query_def Let_def q_select_each [of _ "q_join_rows _ _ _"] by auto
  obtain v where "\<And>c. HasPrefix c OUT \<Longrightarrow> j c = qualify ''avm_outputs'' (new_row TableOutputs (Outputs_cols v)) c"
    using union_row [OF j assms(1)] by blast
  from this [of "''avm_outputs.amount''"] have "j ''avm_outputs.amount'' = new_row TableOutputs (Outputs_cols v) ''amount''"
    using qualify_at [of "''avm_outputs''" "new_row TableOutputs (Outputs_cols v)" "''amount''"] by (simp add: HasPrefix_def)
  then show ?thesis unfolding s by (simp add: q_select_def output_columns_def sel_def sel_or_def new_out_row)
qed

lemma dressTransactions_returns:
  assumes "out_rows_ok (tabs d)" "redeemed_stored (tabs d)"
  shows "\<exists>txs' d'. dressTransactions lib (mysql_ro (\<lambda>_. None)) txs axcAssetID txID disableGenesis d = (Inr txs', d')"
proof -
  let ?conn = "mysql_ro (\<lambda>_. None)" and ?ids = "map at_ID txs"
  have load: "qc_load ?conn q d = (Inr (q (tabs d)), tick d)" for q d by (simp add: mysql_ro_def)
  have pro: "\<exists>pm d'. resolveProposers ?conn xs d = (Inr pm, d') \<and> tabs d' = tabs d" for xs d
    by (simp add: resolveProposers_def go_simps load)
  have rew: "\<exists>rt d'. resolveRewarded ?conn xs d = (Inr rt, d') \<and> tabs d' = tabs d" for xs d
    by (simp add: resolveRewarded_def go_simps load)
  have cvm: "\<exists>ci co d'. collectCvmTransactions ?conn xs d = (Inr (ci, co), d')" for xs d
    by (cases "fold (\<lambda>a (ins, outs).
          if co_Type a = AXChainIn then (ins(co_TransactionID a := ins (co_TransactionID a) @ [mapOutput a]), outs)
          else if co_Type a = AXchainOut then (ins, outs(co_TransactionID a := outs (co_TransactionID a) @ [mapOutput a]))
          else (ins, outs)) (map cvm_of_row (cvm_query xs (tabs d))) ((\<lambda>_. []), (\<lambda>_. []))") (simp add: collectCvmTransactions_def go_simps load)
  have outs: "collectInsAndOuts ?conn xs e = (Inr (map composite_of_row (outs_query xs (tabs e))), tick (tick e))" if "tabs e = tabs d" for xs e
    using missing_query_none [OF assms, of xs] that by (simp add: collectInsAndOuts_def go_simps load)
  have "\<exists>dm. collect_outputs (map composite_of_row (outs_query xs (tabs d))) empty_maps = Inr dm" for xs
    by (rule collect_outputs_returns) (use outs_query_amount [OF assms(1)] in \<open>fastforce simp: composite_of_row_def output_of_row_def getS_def\<close>)
  then have col: "\<exists>dm. collect_outputs (map composite_of_row (outs_query xs (tabs e))) empty_maps = Inr dm" if "tabs e = tabs d" for xs e
    using that by simp
  show ?thesis
  proof (cases "txs = []")
    case False
    define txs0 where "txs0 = map (\<lambda>tx. if at_Memo tx = None then tx\<lparr>at_Memo := Some []\<rparr> else tx) txs"
    obtain pm d1 where 1: "resolveProposers ?conn (remdups (filter (\<lambda>b. b \<noteq> []) (map at_TxBlockID txs0))) d = (Inr pm, d1)" "tabs d1 = tabs d"
      using pro by blast
    obtain rt d2 where 2: "resolveRewarded ?conn (map at_ID txs0) d1 = (Inr rt, d2)" "tabs d2 = tabs d1" using rew by blast
    have 3: "collectInsAndOuts ?conn (map at_ID txs0) d2 = (Inr (map composite_of_row (outs_query (map at_ID txs0) (tabs d2))), tick (tick d2))"
      by (rule outs) (simp add: 1 2)
    obtain dm where 4: "collect_outputs (map composite_of_row (outs_query (map at_ID txs0) (tabs d2))) empty_maps = Inr dm"
      using col [of d2] 1 2 by auto
    obtain ci co d3 where 5: "collectCvmTransactions ?conn (map at_ID txs0) (tick (tick d2)) = (Inr (ci, co), d3)" using cvm by blast
    show ?thesis using False unfolding dressTransactions_def Let_def txs0_def [symmetric] by (simp add: go_simps 1(1) 2(1) 3 4 5)
  qed (simp add: dressTransactions_def go_return_run)
qed

lemma dressed_ids:
  assumes "dressTransactions lib conn txs axcAssetID txID disableGenesis d = (Inr txs', d')"
  shows "map at_ID txs' = map at_ID txs" "map at_ChainID txs' = map at_ChainID txs"
proof -
  have "map at_ID txs' = map at_ID txs \<and> map at_ChainID txs' = map at_ChainID txs"
  proof (cases "txs = []")
    case True
    then show ?thesis using assms by (simp add: dressTransactions_def go_return_run)
  next
    case False
    from assms this show ?thesis by (rule dressTransactions_parts) (simp add: comp_def)
  qed
  then show "map at_ID txs' = map at_ID txs" "map at_ChainID txs' = map at_ChainID txs" by simp_all
qed

text \<open>A database with an output of 5 tokens that has two addresses.\<close>

definition two_addresses :: dbstate where
  "two_addresses = \<lparr>tabs = (\<lambda>t.
       if t = TableOutputs then [new_row TableOutputs (Outputs_cols (zero_Outputs\<lparr>Outputs_ID := ''o'', Outputs_TransactionID := ''t'',
         Outputs_AssetID := ''A'', Outputs_Amount := 5\<rparr>))]
       else if t = TableOutputAddresses then [[''output_id'' \<mapsto> VS ''o'', ''address'' \<mapsto> VS ''p''], [''output_id'' \<mapsto> VS ''o'', ''address'' \<mapsto> VS ''q'']]
       else []), ticks = 0\<rparr>"

lemma two_addresses_ok:
  "tables_ok (tabs two_addresses)" "out_rows_ok (tabs two_addresses)" "redeemed_stored (tabs two_addresses)"
  by (auto simp: tables_ok_def keys_ok_def two_addresses_def conflicts_def agree_on_def unique_keys_def out_rows_ok_def redeemed_stored_def)


end
