(* ===== verification/ReaderCache.thy ===== *)
theory ReaderCache
  imports ReaderData ReaderTotals
begin

text \<open>
  What the reader keeps in memory when the aggregate cache is on, \<open>src/services/indexes/axc/reader_aggregate_processor.go\<close>: seven
  goroutines with a connection each, which refill their part of it when their time has come. A pass of a goroutine is a function
  on the time it keeps and the memory; \<open>refill_loop\<close> makes the goroutine of it: the first pass when it is started, and on a tick of
  its ticker another one when the time has come. The memory is written under its lock, at the end of a pass.
\<close>

section \<open>The memory\<close>

record ChainCounts =
  hc_ChainID :: string
  hc_Total :: string

record AssetAggregate =
  sa_Asset :: ID
  sa_Aggregate :: AggregatesHistogram

record reader_memory = ReaderAggregate +
  ra_assetm :: "(ID \<times> Asset) list"
  ra_assetl :: "Asset list"
  ra_aggr :: "(ID \<times> AggregatesHistogram) list"
  ra_aggrl :: "AssetAggregate list"
  ra_addressCountl :: "ChainCounts list"
  ra_txCountl :: "ChainCounts list"
  ra_a1m :: "AggregatesHistogram option"
  ra_a1h :: "AggregatesHistogram option"
  ra_a24h :: "AggregatesHistogram option"
  ra_a7d :: "AggregatesHistogram option"
  ra_a30d :: "AggregatesHistogram option"

definition empty_memory :: reader_memory where
  "empty_memory = \<lparr>ra_txDesc = empty_TxList, ra_txAsc = empty_TxList, ra_assetm = [], ra_assetl = [], ra_aggr = [], ra_aggrl = [],
     ra_addressCountl = [], ra_txCountl = [], ra_a1m = None, ra_a1h = None, ra_a24h = None, ra_a7d = None, ra_a30d = None\<rparr>"

definition CacheAddressCounts :: "reader_memory \<Rightarrow> ChainCounts list" where
  "CacheAddressCounts ra = ra_addressCountl ra"

definition CacheTxCounts :: "reader_memory \<Rightarrow> ChainCounts list" where
  "CacheTxCounts ra = ra_txCountl ra"

definition CacheAssets :: "reader_memory \<Rightarrow> Asset list" where
  "CacheAssets ra = ra_assetl ra"

definition CacheAssetAggregates :: "reader_memory \<Rightarrow> AssetAggregate list" where
  "CacheAssetAggregates ra = ra_aggrl ra"

definition CacheAggregates :: "reader_memory \<Rightarrow> string \<Rightarrow> AggregatesHistogram option" where
  "CacheAggregates ra tag =
     (if tag = ''1m'' then ra_a1m ra else if tag = ''1h'' then ra_a1h ra else if tag = ''24h'' then ra_a24h ra
      else if tag = ''7d'' then ra_a7d ra else if tag = ''30d'' then ra_a30d ra else None)"

section \<open>Goroutines\<close>

text \<open>\<open>t.Truncate(d)\<close> for durations that divide a day.\<close>

definition time_Truncate :: "gotime \<Rightarrow> int \<Rightarrow> gotime" where
  "time_Truncate t d = t - t mod d"

abbreviation time_Minute :: int where "time_Minute \<equiv> 60 * nanos_per_second"
abbreviation time_Hour :: int where "time_Hour \<equiv> 3600 * nanos_per_second"

type_synonym refill_pass = "gotime \<times> reader_memory \<Rightarrow> dbstate \<Rightarrow> (gotime \<times> reader_memory) \<times> dbstate"

definition processor_start :: "int \<Rightarrow> refill_pass \<Rightarrow> gotime \<Rightarrow> reader_memory \<Rightarrow> dbstate \<Rightarrow> (gotime \<times> reader_memory) \<times> dbstate" where
  "processor_start every run now ra d = run (time_Truncate (time_Truncate now time_Minute) every, ra) d"

definition processor_tick :: "refill_pass \<Rightarrow> gotime \<Rightarrow> gotime \<times> reader_memory \<Rightarrow> dbstate \<Rightarrow> (gotime \<times> reader_memory) \<times> dbstate" where
  "processor_tick run tnow s d = (if tnow > fst s then run s d else (s, d))"

datatype proc_event = Started | Ticked

definition refill_loop :: "int \<Rightarrow> refill_pass \<Rightarrow> proc_event \<Rightarrow> gotime \<Rightarrow> refill_pass" where
  "refill_loop every run ev now s d = (case ev of Started \<Rightarrow> processor_start every run now (snd s) d | Ticked \<Rightarrow> processor_tick run now s d)"

text \<open>\<open>aggregateProcessor\<close> opens a connection for every goroutine, or none: those that are open are closed when one fails.\<close>

fun open_all :: "nat \<Rightarrow> (dbstate, query_conn) go \<Rightarrow> (dbstate, query_conn list) go" where
  "open_all 0 DatabaseRO = go_return []"
| "open_all (Suc n) DatabaseRO = go_bind DatabaseRO (\<lambda>c. go_bind (open_all n DatabaseRO) (\<lambda>cs. go_return (c # cs)))"

definition aggregateProcessor :: "reader_env \<Rightarrow> (dbstate, query_conn) go \<Rightarrow> (dbstate, query_conn list) go" where
  "aggregateProcessor rv DatabaseRO = (if \<not> rv_IsAggregateCache rv then go_return [] else open_all 7 DatabaseRO)"

definition NewReader :: "reader_env \<Rightarrow> (dbstate, query_conn) go \<Rightarrow> (dbstate, query_conn list \<times> reader_memory) go" where
  "NewReader rv DatabaseRO = go_bind (aggregateProcessor rv DatabaseRO) (\<lambda>conns. go_return (conns, empty_memory))"

subsection \<open>The first transactions\<close>

definition txasc_query :: "query_conn \<Rightarrow> tables \<Rightarrow> row list" where
  "txasc_query conn T = q_select transactionColumns (take 5000 (q_order (tx_order conn) (transactionQuery T)))"

text \<open>The list is nil when the query fails, when dressing fails, and when there are no rows.\<close>

definition runTx :: "reader_env \<Rightarrow> query_conn \<Rightarrow> refill_pass" where
  "runTx rv conn = (\<lambda>(timeaggr, ra) d.
     let set = (\<lambda>txs. ra\<lparr>ra_txAsc := TxList_Set txs (ra_txAsc ra)\<rparr>) in
     case qc_load conn (txasc_query conn) d of
       (Inl _, d1) \<Rightarrow> ((timeaggr, set None), d1)
     | (Inr rows, d1) \<Rightarrow>
         (case dressTransactions (rv_lib rv) conn (map tx_of_row rows) (rv_AxcAssetID rv) None False d1 of
            (Inl _, d2) \<Rightarrow> ((timeaggr, set None), d2)
          | (Inr txsAsc, d2) \<Rightarrow>
              ((time_Truncate (timeaggr + 10 * time_Minute) (10 * time_Minute), set (if txsAsc = [] then None else Some txsAsc)), d2)))"

definition processorTxAscFetch :: "reader_env \<Rightarrow> query_conn \<Rightarrow> proc_event \<Rightarrow> gotime \<Rightarrow> refill_pass" where
  "processorTxAscFetch rv conn = refill_loop (10 * time_Minute) (runTx rv conn)"

subsection \<open>Counts and assets\<close>

definition counts_query :: "string \<Rightarrow> tables \<Rightarrow> row list" where
  "counts_query t T = map (\<lambda>(c, g). [''total'' \<mapsto> VS (Itoa (int (length g)))](''chain_id'' := c)) (q_group (\<lambda>r. r ''chain_id'') (T t))"

definition chain_counts :: "reader_env \<Rightarrow> query_conn \<Rightarrow> string \<Rightarrow> (dbstate, ChainCounts list) go" where
  "chain_counts rv conn t =
     go_bind (qc_load conn (counts_query t)) (\<lambda>rows.
       go_return (filter (\<lambda>c. hc_ChainID c \<in> set (rv_Chains rv)) (map (\<lambda>r. \<lparr>hc_ChainID = getS r ''chain_id'', hc_Total = getS r ''total''\<rparr>) rows)))"

definition addressCounts :: "reader_env \<Rightarrow> query_conn \<Rightarrow> reader_memory \<Rightarrow> dbstate \<Rightarrow> reader_memory \<times> dbstate" where
  "addressCounts rv conn ra d =
     (case chain_counts rv conn TableAddressChain d of
        (Inl _, d') \<Rightarrow> (ra, d')
      | (Inr addressCountlpruned, d') \<Rightarrow> (ra\<lparr>ra_addressCountl := addressCountlpruned\<rparr>, d'))"

definition txCounts :: "reader_env \<Rightarrow> query_conn \<Rightarrow> reader_memory \<Rightarrow> dbstate \<Rightarrow> reader_memory \<times> dbstate" where
  "txCounts rv conn ra d =
     (case chain_counts rv conn TableTransactions d of
        (Inl _, d') \<Rightarrow> (ra, d')
      | (Inr txCountlpruned, d') \<Rightarrow> (ra\<lparr>ra_txCountl := txCountlpruned\<rparr>, d'))"

definition assets_query :: "string \<Rightarrow> gotime \<Rightarrow> tables \<Rightarrow> row list" where
  "assets_query axc since T =
     q_order_desc (\<lambda>r. getI r ''tamt'')
       (map (\<lambda>(a, g). [''tamt'' \<mapsto> VI (count_distinct ''avm_outputs.transaction_id'' g)](''asset_id'' := a))
         (q_group (\<lambda>r. r ''avm_outputs.asset_id'')
           (filter (\<lambda>r. getT r ''avm_outputs.created_at'' > since \<and> \<not> is_null r ''avm_outputs.asset_id'' \<and> getS r ''avm_outputs.asset_id'' \<noteq> axc)
             (q_from ''avm_outputs'' T))))"

text \<open>The rows of two columns are loaded into a list of texts. What the query builder does then is an argument, \<open>load_texts\<close>.\<close>

definition fetchAssets :: "reader_env \<Rightarrow> (string list \<Rightarrow> row list \<Rightarrow> go_error + string list) \<Rightarrow> query_conn \<Rightarrow> gotime \<Rightarrow> int
    \<Rightarrow> (dbstate, string list \<times> string list) go" where
  "fetchAssets rv load_texts conn runTm runDuration =
     (let axc = ID_String (rv_lib rv) (rv_AxcAssetID rv) in
      go_bind (qc_load conn (assets_query axc (runTm - runDuration))) (\<lambda>rows.
      go_bind (go_lift (load_texts [''asset_id'', ''tamt''] rows)) (\<lambda>assetsFound.
      go_bind (qc_load conn (\<lambda>T. take (nat PaginationMaxLimit) (q_order_desc (\<lambda>r. getT r ''created_at'') (T ''avm_assets'')))) (\<lambda>rows.
        go_return (axc # assetsFound, map (\<lambda>r. getS r ''id'') rows)))))"

definition asset_params :: "ID \<Rightarrow> ListAssetsParams" where
  "asset_params i = zero_ListAssetsParams\<lparr>la_ListParams := zero_ListParams\<lparr>lp_DisableCounting := True, lp_ID := Some i\<rparr>\<rparr>"

text \<open>The parameters that both kinds of passes make up, for the hours or minutes before \<open>runTm\<close>.\<close>

definition window_params :: "reader_env \<Rightarrow> url_values \<Rightarrow> gotime \<Rightarrow> int \<Rightarrow> go_error + AggregateParams" where
  "window_params rv urlv runTm deltaTime =
     res_bind (AggregateParams_ForValues (rv_params rv) 1 urlv zero_AggregateParams) (\<lambda>p.
       Inr (p\<lparr>ag_ListParams := (ag_ListParams p)\<lparr>lp_EndTime := runTm, lp_StartTime := runTm + deltaTime\<rparr>,
         ag_ChainIDs := ag_ChainIDs p @ [ID_String (rv_lib rv) (rv_SwapChainID rv)]\<rparr>))"

record asset_maps =
  am_aggr :: "(ID \<times> AggregatesHistogram) list"
  am_asset :: "(ID \<times> Asset) list"
  am_list :: "AssetAggregate list"

definition put_assets :: "ID \<Rightarrow> Asset list \<Rightarrow> (ID \<times> Asset) list \<Rightarrow> (ID \<times> Asset) list" where
  "put_assets i lassets m = fold (\<lambda>lasset m. AList.update i lasset m) lassets m"

definition aggregate_asset :: "reader_env \<Rightarrow> query_conn \<Rightarrow> query_conn \<Rightarrow> gotime \<Rightarrow> int \<Rightarrow> string \<Rightarrow> asset_maps \<Rightarrow> (dbstate, asset_maps) go" where
  "aggregate_asset rv conn conns runTm runDuration asset m =
     go_bind (go_lift (window_params rv Map.empty runTm (- runDuration))) (\<lambda>p.
     go_bind (go_lift (ids_FromString (rv_params rv) asset)) (\<lambda>i.
     go_bind (Aggregate (rv_lib rv) conn (p\<lparr>ag_AssetID := Some i\<rparr>) (Some conns)) (\<lambda>aggr.
     go_bind (ListAssets rv conn (asset_params i) (Some conns)) (\<lambda>lassets.
       go_return \<lparr>am_aggr = AList.update i aggr (am_aggr m), am_asset = put_assets i (sl_Assets lassets) (am_asset m),
         am_list = am_list m @ [\<lparr>sa_Asset = i, sa_Aggregate = aggr\<rparr>]\<rparr>))))"

definition additional_asset :: "reader_env \<Rightarrow> query_conn \<Rightarrow> query_conn \<Rightarrow> string \<Rightarrow> asset_maps \<Rightarrow> (dbstate, asset_maps) go" where
  "additional_asset rv conn conns asset m =
     go_bind (go_lift (ids_FromString (rv_params rv) asset)) (\<lambda>i.
       if map_of (am_asset m) i \<noteq> None then go_return m
       else go_bind (ListAssets rv conn (asset_params i) (Some conns)) (\<lambda>lassets.
         go_return (m\<lparr>am_asset := put_assets i (sl_Assets lassets) (am_asset m)\<rparr>)))"

definition asset_pass :: "reader_env \<Rightarrow> (string list \<Rightarrow> row list \<Rightarrow> go_error + string list) \<Rightarrow> query_conn \<Rightarrow> query_conn \<Rightarrow> gotime \<Rightarrow> (dbstate, asset_maps) go" where
  "asset_pass rv load_texts conn conns runTm =
     go_bind (fetchAssets rv load_texts conns runTm (24 * time_Hour)) (\<lambda>(assets, addlAssetsFound).
     go_bind (go_fold (aggregate_asset rv conn conns runTm (24 * time_Hour)) assets \<lparr>am_aggr = [], am_asset = [], am_list = []\<rparr>) (\<lambda>m.
       go_fold (additional_asset rv conn conns) addlAssetsFound m))"

text \<open>\<open>sort.Slice\<close> is not stable: aggregates with the same number of transactions come in some order. The assets are ranged over in
  the order in which they were added.\<close>

definition runAgg_assets :: "reader_env \<Rightarrow> (string list \<Rightarrow> row list \<Rightarrow> go_error + string list) \<Rightarrow> query_conn \<Rightarrow> query_conn \<Rightarrow> refill_pass" where
  "runAgg_assets rv load_texts conn conns = (\<lambda>(timeaggr, ra) d.
     let (ra, d) = addressCounts rv conns ra d; (ra, d) = txCounts rv conns ra d in
     case asset_pass rv load_texts conn conns timeaggr d of
       (Inl _, d') \<Rightarrow> ((timeaggr, ra), d')
     | (Inr m, d') \<Rightarrow>
         ((time_Truncate (timeaggr + 5 * time_Minute) (5 * time_Minute),
           ra\<lparr>ra_assetm := am_asset m, ra_assetl := map snd (am_asset m), ra_aggr := am_aggr m,
              ra_aggrl := rev (sort_key (\<lambda>a. ga_TransactionCount (gh_Aggregates (sa_Aggregate a))) (rev (am_list m)))\<rparr>), d'))"

definition aggregateProcessorAssetAggr :: "reader_env \<Rightarrow> (string list \<Rightarrow> row list \<Rightarrow> go_error + string list) \<Rightarrow> query_conn \<Rightarrow> query_conn
    \<Rightarrow> proc_event \<Rightarrow> gotime \<Rightarrow> refill_pass" where
  "aggregateProcessorAssetAggr rv load_texts conn conns = refill_loop (5 * time_Minute) (runAgg_assets rv load_texts conn conns)"

subsection \<open>Histograms\<close>

definition processAggregate :: "reader_env \<Rightarrow> query_conn \<Rightarrow> query_conn \<Rightarrow> gotime \<Rightarrow> string \<Rightarrow> int \<Rightarrow> (dbstate, AggregatesHistogram) go" where
  "processAggregate rv conn conns runTm intervalSize deltaTime =
     go_bind (go_lift (window_params rv [KeyIntervalSize \<mapsto> [intervalSize]] runTm deltaTime)) (\<lambda>p. Aggregate (rv_lib rv) conn p (Some conns))"

definition runAgg :: "reader_env \<Rightarrow> query_conn \<Rightarrow> query_conn \<Rightarrow> string \<Rightarrow> int \<Rightarrow> int \<Rightarrow> (AggregatesHistogram \<Rightarrow> reader_memory \<Rightarrow> reader_memory) \<Rightarrow> refill_pass" where
  "runAgg rv conn conns intervalSize deltaTime every store = (\<lambda>(t, ra) d.
     case processAggregate rv conn conns t intervalSize deltaTime d of
       (Inl _, d') \<Rightarrow> ((t, ra), d')
     | (Inr agg, d') \<Rightarrow> ((time_Truncate (t + every) every, store agg ra), d'))"

definition aggregateProcessor1m :: "reader_env \<Rightarrow> query_conn \<Rightarrow> query_conn \<Rightarrow> proc_event \<Rightarrow> gotime \<Rightarrow> refill_pass" where
  "aggregateProcessor1m rv conn conns = refill_loop time_Minute
     (runAgg rv conn conns ''1s'' (- time_Minute) time_Minute (\<lambda>agg ra. ra\<lparr>ra_a1m := Some agg\<rparr>))"

definition aggregateProcessor1h :: "reader_env \<Rightarrow> query_conn \<Rightarrow> query_conn \<Rightarrow> proc_event \<Rightarrow> gotime \<Rightarrow> refill_pass" where
  "aggregateProcessor1h rv conn conns = refill_loop (5 * time_Minute)
     (runAgg rv conn conns ''5m'' (- time_Hour) (5 * time_Minute) (\<lambda>agg ra. ra\<lparr>ra_a1h := Some agg\<rparr>))"

definition aggregateProcessor24h :: "reader_env \<Rightarrow> query_conn \<Rightarrow> query_conn \<Rightarrow> proc_event \<Rightarrow> gotime \<Rightarrow> refill_pass" where
  "aggregateProcessor24h rv conn conns = refill_loop (15 * time_Minute)
     (runAgg rv conn conns ''hour'' (- (24 * time_Hour)) (15 * time_Minute) (\<lambda>agg ra. ra\<lparr>ra_a24h := Some agg\<rparr>))"

definition aggregateProcessor7d :: "reader_env \<Rightarrow> query_conn \<Rightarrow> query_conn \<Rightarrow> proc_event \<Rightarrow> gotime \<Rightarrow> refill_pass" where
  "aggregateProcessor7d rv conn conns = refill_loop (30 * time_Minute)
     (runAgg rv conn conns ''day'' (- (7 * 24 * time_Hour)) (30 * time_Minute) (\<lambda>agg ra. ra\<lparr>ra_a7d := Some agg\<rparr>))"

definition aggregateProcessor30d :: "reader_env \<Rightarrow> query_conn \<Rightarrow> query_conn \<Rightarrow> proc_event \<Rightarrow> gotime \<Rightarrow> refill_pass" where
  "aggregateProcessor30d rv conn conns = refill_loop (30 * time_Minute)
     (runAgg rv conn conns ''day'' (- (30 * 24 * time_Hour)) (30 * time_Minute) (\<lambda>agg ra. ra\<lparr>ra_a30d := Some agg\<rparr>))"

end
