(* ===== verification/ReaderPage.thy ===== *)
theory ReaderPage
  imports ReaderCache
begin

text \<open>
  Pages from memory. The goroutine of \<open>processorTxAscFetch\<close> refills the list of the first transactions again and again while the
  database changes; requests are answered from whatever the list holds. What a request gets is a page of the database as it was at one of the
  refills.
\<close>

section \<open>Runs of the goroutine\<close>

definition txs_ok :: "tables \<Rightarrow> bool" where
  "txs_ok T \<longleftrightarrow> tables_ok T \<and> tx_rows_ok T"

text \<open>\<open>memory_run rv conn s H\<close>: a state of the goroutine, and the tables at the passes so far. The database may change in any way between
  passes, and the other goroutines change their own parts of the memory.\<close>

inductive memory_run :: "reader_env \<Rightarrow> query_conn \<Rightarrow> gotime \<times> reader_memory \<Rightarrow> tables set \<Rightarrow> bool" for rv conn where
  mr_start: "txs_ok (tabs d) \<Longrightarrow> processorTxAscFetch rv conn Started now (0, empty_memory) d = (s, d') \<Longrightarrow> memory_run rv conn s {tabs d}"
| mr_tick: "memory_run rv conn s H \<Longrightarrow> txs_ok (tabs d) \<Longrightarrow> processorTxAscFetch rv conn Ticked tnow s d = (s', d')
    \<Longrightarrow> memory_run rv conn s' (insert (tabs d) H)"
| mr_other: "memory_run rv conn (t, ra) H \<Longrightarrow> ReaderAggregate.truncate ra' = ReaderAggregate.truncate ra \<Longrightarrow> memory_run rv conn (t, ra') H"

lemmas processor_defs = processorTxAscFetch_def refill_loop_def processor_start_def processor_tick_def

definition first_txs :: "query_conn \<Rightarrow> tables \<Rightarrow> ReaderAggregateTxList \<Rightarrow> bool" where
  "first_txs conn T t \<longleftrightarrow>
     (case rt_Txs t of
        None \<Rightarrow> True
      | Some txs \<Rightarrow> map at_ID txs = map (\<lambda>r. getS r ''id'') (txasc_query conn T) \<and> map at_ChainID txs = map (\<lambda>r. getS r ''chain_id'') (txasc_query conn T))"

definition memory_ok :: "query_conn \<Rightarrow> reader_memory \<Rightarrow> tables set \<Rightarrow> bool" where
  "memory_ok conn ra H \<longleftrightarrow> ra_txDesc ra = empty_TxList \<and> TxList_wf (ra_txAsc ra) \<and> (\<exists>T \<in> H. txs_ok T \<and> first_txs conn T (ra_txAsc ra))"

lemma runTx_memory:
  assumes "query_server conn" "txs_ok (tabs d)" "runTx rv conn (t, ra) d = ((t', ra'), d')"
  shows "ra_txDesc ra' = ra_txDesc ra \<and> TxList_wf (ra_txAsc ra') \<and> first_txs conn (tabs d) (ra_txAsc ra')"
proof -
  have none: "first_txs conn T (TxList_Set None l)" for T l by (simp add: first_txs_def TxList_Set_def)
  have some: "first_txs conn (tabs d) (TxList_Set (if txs = [] then None else Some txs) l)"
    if run: "qc_load conn (txasc_query conn) d = (Inr rows, d1)"
      "dressTransactions (rv_lib rv) conn (map tx_of_row rows) (rv_AxcAssetID rv) None False d1 = (Inr txs, d2)" for rows d1 txs d2 l
  proof -
    have "rows = txasc_query conn (tabs d)" by (rule query_server.load_rows [OF assms(1) run(1)])
    with dressed_ids [OF run(2)] show ?thesis by (auto simp: first_txs_def TxList_Set_def tx_of_row_def)
  qed
  show ?thesis using assms(3) some none
    by (auto simp: runTx_def Let_def TxList_Set_wf split: prod.splits sum.splits)
qed

lemma memory_run_ok:
  assumes "query_server conn" "memory_run rv conn s H"
  shows "memory_ok conn (snd s) H"
  using assms(2)
proof (induction rule: memory_run.induct)
  case (mr_start d now s d')
  then show ?case using runTx_memory [OF assms(1) mr_start(1)]
    by (cases s) (auto simp: memory_ok_def processor_defs empty_memory_def)
next
  case (mr_tick s H d tnow s' d')
  show ?case
  proof (cases "tnow > fst s")
    case True
    then show ?thesis using mr_tick runTx_memory [OF assms(1) mr_tick(2)]
      by (cases s; cases s') (auto simp: memory_ok_def processor_defs)
  next
    case False
    then show ?thesis using mr_tick by (auto simp: memory_ok_def processor_defs)
  qed
next
  case (mr_other t ra H ra')
  then show ?case by (simp add: memory_ok_def ReaderAggregate.truncate_def)
qed

section \<open>Requests that may be answered from memory\<close>

lemma cached_params:
  assumes "ListTransactionsParams_ForValues pl v q zero_ListTransactionsParams = Inr p" "dom q \<subseteq> set cache_keys"
  shows "lt_Addresses p = []" "lt_AssetID p = None" "lp_ID (lt_ListParams p) = None" "lp_Query (lt_ListParams p) = []" "lp_Values (lt_ListParams p) = q"
    "\<not> lp_StartTimeProvided (lt_ListParams p)" "\<not> lp_EndTimeProvided (lt_ListParams p)" "ListParams_wf v True (lt_ListParams p)"
proof -
  have absent: "values_at q k = []" if "k \<notin> set cache_keys" for k using assms(2) that by (auto simp: values_at_def dom_def split: option.splits)
  have keys: "values_at q KeyAssetID = []" "values_at q KeyAddress = []" "values_at q KeyID = []" "values_at q KeyStartTime = []" "values_at q KeyEndTime = []"
    "values_at q KeySearchQuery = []" by (rule absent, simp add: cache_keys_def)+
  have absent_values: "GetQueryID pl q KeyAssetID = Inr None" "GetQueryID pl q KeyID = Inr None" "GetQueryString q KeySearchQuery [] = []"
    "GetQueryTime pl q KeyStartTime = Inr (False, zero_time)" "GetQueryTime pl q KeyEndTime = Inr (False, zero_time)"
    by (simp_all add: GetQueryID_def GetQueryString_def GetQueryTime_def keys)
  from assms(1) obtain l asset addrs where l: "forValues pl v q True zero_ListParams = Inr l" and asset: "GetQueryID pl q KeyAssetID = Inr asset"
    and addrs: "parse_each (AddressFromString pl) (values_at q KeyAddress) [] = Inr addrs"
    and p: "lt_ListParams p = l" "lt_AssetID p = asset" "lt_Addresses p = addrs"
    by (auto simp: ListTransactionsParams_ForValues_def ListParams_ForValuesAllowOffset_def res_bind_Inr zero_ListTransactionsParams_def)
  show "lt_Addresses p = []" using addrs by (simp add: keys p)
  show "lt_AssetID p = None" using asset absent_values(1) p(2) by simp
  show "ListParams_wf v True (lt_ListParams p)" using forValues_wf [OF l] by (simp add: p)
  show "lp_ID (lt_ListParams p) = None" "lp_Query (lt_ListParams p) = []" "lp_Values (lt_ListParams p) = q"
    "\<not> lp_StartTimeProvided (lt_ListParams p)" "\<not> lp_EndTimeProvided (lt_ListParams p)"
    using l by (auto elim!: forValues_Inr simp: p absent_values)
qed

text \<open>The columns of the list in memory are those of the sorted table, cut to 5000 rows.\<close>

lemma txasc_columns:
  assumes "txs_ok T"
  shows "map (\<lambda>r. (r ''id'', r ''chain_id'')) (txasc_query conn T)
    = map (\<lambda>r. (r ''avm_transactions.id'', r ''avm_transactions.chain_id'')) (take 5000 (sort_key (tx_order conn) (q_from ''avm_transactions'' T)))"
proof -
  obtain ext where ext: "transactionQuery T = map ext (q_from ''avm_transactions'' T)" "\<And>l c. HasPrefix c TX \<Longrightarrow> ext l c = l c"
    using transactionQuery_ext [of T] assms unfolding txs_ok_def by blast
  have at: "ext r ''avm_transactions.id'' = r ''avm_transactions.id''" "ext r ''avm_transactions.chain_id'' = r ''avm_transactions.chain_id''"
    "ext r ''avm_transactions.created_at'' = r ''avm_transactions.created_at''" for r
    by (rule ext(2), simp add: HasPrefix_def)+
  have "tx_order conn (ext r) = tx_order conn r" for r by (simp add: tx_order_def getT_def getS_def at)
  then have "sort_key (tx_order conn) (map ext xs) = map ext (sort_key (tx_order conn) xs)" for xs
    unfolding sort_key_map by (intro arg_cong [of _ _ "map ext"] sort_key_cong) simp
  then show ?thesis
    by (simp add: txasc_query_def ext(1) q_order_def q_select_def transactionColumns_def sel_def take_map at)
qed

lemma getS_val: "getS r c = getS (\<lambda>_. r c) []"
  by (simp add: getS_def)

lemma txasc_texts:
  assumes "txs_ok T"
  shows "map (\<lambda>r. (getS r ''id'', getS r ''chain_id'')) (txasc_query conn T)
    = map (\<lambda>r. (getS r ''avm_transactions.id'', getS r ''avm_transactions.chain_id'')) (take 5000 (sort_key (tx_order conn) (q_from ''avm_transactions'' T)))"
  using arg_cong [OF txasc_columns [OF assms, of conn], of "map (map_prod (\<lambda>v. getS (\<lambda>_. v) []) (\<lambda>v. getS (\<lambda>_. v) []))"]
  by (simp add: comp_def getS_val [symmetric])

lemma zip_maps: "zip (map f xs) (map g xs) = map (\<lambda>x. (f x, g x)) xs"
  by (simp add: zip_map_map zip_same_conv_map)

lemma chain_where:
  assumes "lp_ID (lt_ListParams p) = None" "lp_Query (lt_ListParams p) = []" "\<not> lp_StartTimeProvided (lt_ListParams p)"
    "\<not> lp_EndTimeProvided (lt_ListParams p)" "r ''avm_transactions.chain_id'' = Some (VS c)"
  shows "tx_where lib p r \<longleftrightarrow> lt_ChainIDs p = [] \<or> c \<in> set (lt_ChainIDs p)"
  using assms by (auto simp: tx_where_def Let_def in_texts_def)

text \<open>A page of the list in memory is the page of the table.\<close>

lemma memory_page:
  assumes T: "txs_ok T" and t: "TxList_wf t" "first_txs conn T t" and find: "TxList_FindTxs t (lt_ChainIDs p) (lp_Limit (lt_ListParams p)) = Some txs"
    and p: "lt_Addresses p = []" "lt_AssetID p = None" "lp_ID (lt_ListParams p) = None" "lp_Query (lt_ListParams p) = []"
      "\<not> lp_StartTimeProvided (lt_ListParams p)" "\<not> lp_EndTimeProvided (lt_ListParams p)" "lt_Sort p \<noteq> TransactionSortTimestampDesc"
    and n: "0 < lp_Limit (lt_ListParams p)" "lp_Limit (lt_ListParams p) < 2 ^ 64" "lp_Offset (lt_ListParams p) = 0"
  shows "map at_ID txs = map (\<lambda>r. getS r ''id'') (page_query lib conn p T)"
proof -
  let ?n = "nat (lp_Limit (lt_ListParams p))" and ?S = "sort_key (tx_order conn) (q_from ''avm_transactions'' T)"
  let ?c = "\<lambda>c. lt_ChainIDs p = [] \<or> c \<in> set (lt_ChainIDs p)"
  define key where "key r = (getS r ''avm_transactions.id'', getS r ''avm_transactions.chain_id'')" for r
  define pair where "pair tx = (at_ID tx, at_ChainID tx)" for tx :: ApiTransaction
  obtain l where l: "rt_Txs t = Some l" "txs = take ?n (filter (\<lambda>tx. ?c (at_ChainID tx)) l)" "length txs = ?n"
    using FindTxs_page [OF t(1) find n(1)] by blast
  have "map pair l = map (\<lambda>r. (getS r ''id'', getS r ''chain_id'')) (txasc_query conn T)"
    unfolding zip_maps [symmetric] using t(2) zip_maps [of at_ID l at_ChainID] by (simp add: first_txs_def l(1) pair_def [abs_def])
  also have "\<dots> = map key (take 5000 ?S)" unfolding key_def by (rule txasc_texts [OF T])
  finally have pairs: "map pair l = map key (take 5000 ?S)" .
  have "map pair txs = take ?n (filter (\<lambda>k. ?c (snd k)) (map pair l))"
    by (simp add: l(2) take_map filter_map comp_def pair_def)
  then have page: "map pair txs = map key (take ?n (filter (\<lambda>r. ?c (snd (key r))) (take 5000 ?S)))"
    unfolding pairs by (simp add: take_map filter_map comp_def)
  moreover have "take ?n (filter (\<lambda>r. ?c (snd (key r))) (take 5000 ?S)) = take ?n (filter (\<lambda>r. ?c (snd (key r))) ?S)"
    using arg_cong [OF page, of length] l(3) by (intro take_filter_take) simp
  moreover have "filter (\<lambda>r. ?c (snd (key r))) ?S = filter (tx_where lib p) ?S"
  proof (rule filter_cong [OF refl])
    fix r assume "r \<in> set ?S"
    then obtain c where "r ''avm_transactions.chain_id'' = Some (VS c)" using T by (auto simp: txs_ok_def elim: tx_from_row)
    then show "?c (snd (key r)) = tx_where lib p r" using chain_where [OF p(3,4,5,6)] by (simp add: key_def getS_def)
  qed
  ultimately have "map fst (map pair txs) = map (\<lambda>r. getS r ''avm_transactions.id'') (take ?n (filter (tx_where lib p) ?S))"
    by (simp add: key_def comp_def)
  also have "\<dots> = map (\<lambda>r. getS r ''id'') (page_query lib conn p T)"
    using arg_cong [OF page_query_ids [OF _ _ p(1,2,4,7) n, of T lib conn], of "map (\<lambda>v. getS (\<lambda>_. v) [])"] T
    by (simp add: txs_ok_def comp_def getS_val [symmetric])
  finally show ?thesis by (simp add: pair_def comp_def)
qed


definition one_tx :: dbstate where
  "one_tx = \<lparr>tabs = (\<lambda>t. if t = TableTransactions then [new_row TableTransactions (Transactions_cols (zero_Transactions\<lparr>Transactions_ID := ''t''\<rparr>))] else []),
     ticks = 0\<rparr>"

definition limit_env :: reader_env where
  "limit_env = sample_reader_env\<lparr>rv_range := (\<lambda>_. [''limit''])\<rparr>"

lemma one_tx_ok: "txs_ok (tabs one_tx)" "out_rows_ok (tabs one_tx)" "redeemed_stored (tabs one_tx)"
  by (auto simp: txs_ok_def tables_ok_def keys_ok_def one_tx_def tx_rows_ok_def out_rows_ok_def redeemed_stored_def)

lemma limit_one:
  "\<exists>p. ListTransactionsParams_ForValues sample_paramlib 2 [''limit'' \<mapsto> [''1'']] zero_ListTransactionsParams = Inr p
    \<and> lp_Limit (lt_ListParams p) = 1 \<and> lp_Offset (lt_ListParams p) = 0 \<and> lt_ChainIDs p = [] \<and> lt_Sort p \<noteq> TransactionSortTimestampDesc
    \<and> lp_Values (lt_ListParams p) = [''limit'' \<mapsto> [''1'']]"
proof -
  have "Atoi ''1'' = Inr 1" by code_simp
  then show ?thesis
    by (simp add: ListTransactionsParams_ForValues_def ListParams_ForValuesAllowOffset_def zero_ListTransactionsParams_def forValues_eval
        PaginationMaxLimit_def PaginationDefaultOffset_def sort_of_values_def TransactionSortDefault_def TransactionSortTimestampAsc_def TransactionSortTimestampDesc_def)
qed

lemma one_tx_memory:
  "\<exists>t ra tx. memory_run limit_env (mysql_ro (\<lambda>_. None)) (t, ra) {tabs one_tx} \<and> ra_txAsc ra = TxList_Set (Some [tx]) empty_TxList"
proof -
  let ?conn = "mysql_ro (\<lambda>_. None)"
  obtain txs d' where r: "dressTransactions (rv_lib limit_env) ?conn (map tx_of_row (txasc_query ?conn (tabs one_tx))) (rv_AxcAssetID limit_env) None False (tick one_tx) = (Inr txs, d')"
    using dressTransactions_returns [of "tick one_tx"] one_tx_ok(2,3) tabs_tick [of one_tx] by metis
  have "length (txasc_query ?conn (tabs one_tx)) = 1"
    using arg_cong [OF txasc_columns [OF one_tx_ok(1), of ?conn], of length] by (simp add: q_from_def one_tx_def)
  then obtain tx where tx: "txs = [tx]" using arg_cong [OF dressed_ids(1) [OF r], of length] by (auto simp: length_Suc_conv)
  obtain t ra d2 where run: "processorTxAscFetch limit_env ?conn Started 0 (0, empty_memory) one_tx = ((t, ra), d2)" by (metis surj_pair)
  have "qc_load ?conn q one_tx = (Inr (q (tabs one_tx)), tick one_tx)" for q by (simp add: mysql_ro_def)
  then have "ra_txAsc ra = TxList_Set (Some [tx]) empty_TxList"
    using run r tx by (auto simp: processor_defs runTx_def Let_def empty_memory_def)
  then show ?thesis using mr_start [OF one_tx_ok(1) run] by blast
qed


end
