(* ===== verification/ReaderC.thy ===== *)
theory ReaderC
  imports ReaderCache
begin

text \<open>
  The list of the transactions of the EVM chain, \<open>src/services/indexes/axc/reader_list_ctrans.go\<close>: which transactions are selected,
  how each is shown, and the traces and block fields that are added to it. Decoding of transactions and traces and \<open>abi.UnpackRevert\<close> are
  arguments. The items are pointers that the list and the map \<open>trItemsByHash\<close> share: the map holds the last item of a hash, and what is set
  through the map shows in that item.
\<close>

section \<open>Data\<close>

text \<open>\<open>et_Signature\<close> is what \<open>RawSignatureValues\<close> returns: v, r and s, in this order.\<close>

record EthTx =
  et_Type :: u8
  et_Hash :: string
  et_Nonce :: u64
  et_GasPrice :: "int option"
  et_Gas :: u64
  et_GasFeeCap :: "int option"
  et_GasTipCap :: "int option"
  et_To :: "string option"
  et_Value :: "int option"
  et_Data :: bytes
  et_Signature :: "int option \<times> int option \<times> int option"

record TraceData =
  tt_Hash :: "string option"
  tt_Idx :: "u32 option"
  tt_CallType :: string
  tt_ToAddr :: string
  tt_FromAddr :: string
  tt_Type :: string
  tt_GasUsed :: string
  tt_Gas :: string
  tt_Input :: "string option"
  tt_Output :: "string option"
  tt_Value :: string
  tt_CreatedContractAddressHash :: "string option"
  tt_Init :: "string option"
  tt_CreatedContractCode :: "string option"
  tt_Error :: "string option"
  tt_RevertReason :: "string option"
  tt_RevertReasonUnpacked :: "string option"
  tt_TraceAddress :: "int list"

record CTransactionData =
  cd_Type :: int
  cd_Block :: string
  cd_Hash :: string
  cd_CreatedAt :: gotime
  cd_Nonce :: u64
  cd_GasPrice :: "string option"
  cd_GasFeeCap :: "string option"
  cd_GasTipCap :: "string option"
  cd_GasLimit :: u64
  cd_BlockGasUsed :: u64
  cd_BlockGasLimit :: u64
  cd_BlockNonce :: u64
  cd_BlockHash :: string
  cd_Recipient :: "string option"
  cd_Amount :: "string option"
  cd_Payload :: "string option"
  cd_ToAddr :: string
  cd_FromAddr :: string
  cd_V :: "string option"
  cd_R :: "string option"
  cd_S :: "string option"
  cd_Traces :: "TraceData option list"
  cd_TracesMax :: u32
  cd_TracesMap :: "(u32 \<times> TraceData) list"

record CTransactionList =
  cl_Transactions :: "CTransactionData list"
  cl_StartTime :: gotime
  cl_EndTime :: gotime

record ctranslib =
  cx_UnmarshalTx :: "bytes \<Rightarrow> go_error + EthTx"
  cx_UnmarshalTrace :: "bytes \<Rightarrow> go_error + TraceData"
  cx_UnpackRevert :: "bytes \<Rightarrow> go_error + string"

text \<open>The three results of \<open>RawSignatureValues\<close> are assigned to \<open>v, s, r\<close>.\<close>

definition toCTransactionData :: "EthTx \<Rightarrow> CTransactionData" where
  "toCTransactionData t =
     (let (v, s, r) = et_Signature t in
      \<lparr>cd_Type = uint (et_Type t), cd_Block = [], cd_Hash = add_0x (et_Hash t), cd_CreatedAt = zero_time, cd_Nonce = et_Nonce t,
       cd_GasPrice = map_option Itoa (et_GasPrice t), cd_GasFeeCap = map_option Itoa (et_GasFeeCap t), cd_GasTipCap = map_option Itoa (et_GasTipCap t),
       cd_GasLimit = et_Gas t, cd_BlockGasUsed = 0, cd_BlockGasLimit = 0, cd_BlockNonce = 0, cd_BlockHash = [],
       cd_Recipient = map_option (\<lambda>to. CommonAddressHexRepair (Some to)) (et_To t), cd_Amount = map_option Itoa (et_Value t),
       cd_Payload = (if et_Data t \<noteq> [] then Some (''0x'' @ hex_EncodeToString (et_Data t)) else None),
       cd_ToAddr = [], cd_FromAddr = [], cd_V = map_option Itoa v, cd_R = map_option Itoa r, cd_S = map_option Itoa s,
       cd_Traces = [], cd_TracesMax = 0, cd_TracesMap = []\<rparr>)"

section \<open>Which transactions\<close>

abbreviation TXD :: "string \<Rightarrow> string" where "TXD c \<equiv> ''cvm_transactions_txdata.'' @ c"
abbreviation TRC :: "string \<Rightarrow> string" where "TRC c \<equiv> ''cvm_transactions_txdata_trace.'' @ c"

definition createdatefilter :: "ListParams \<Rightarrow> string \<Rightarrow> row list \<Rightarrow> row list" where
  "createdatefilter l tbl rows =
     filter (\<lambda>r. (lp_StartTimeProvided l \<and> lp_StartTime l \<noteq> zero_time \<longrightarrow> where_holds r (WhereGe (tbl @ ''.created_at'') (lp_StartTime l)))
        \<and> (lp_EndTimeProvided l \<and> lp_EndTime l \<noteq> zero_time \<longrightarrow> where_holds r (WhereLt (tbl @ ''.created_at'') (lp_EndTime l)))) rows"

definition blockrcptfilter :: "ListCTransactionsParams \<Rightarrow> row list \<Rightarrow> row list" where
  "blockrcptfilter p rows =
     filter (\<lambda>r. (case ct_BlockStart p of None \<Rightarrow> True | Some n \<Rightarrow> (case num_col r (TXD ''block'') of Some b \<Rightarrow> n \<le> b | None \<Rightarrow> False))
        \<and> (case ct_BlockEnd p of None \<Rightarrow> True | Some n \<Rightarrow> (case num_col r (TXD ''block'') of Some b \<Rightarrow> b < n | None \<Rightarrow> False))) rows"

definition blockfilter :: "ListCTransactionsParams \<Rightarrow> tables \<Rightarrow> row list \<Rightarrow> row list" where
  "blockfilter p T rows =
     (if ct_BlockStart p = None \<and> ct_BlockEnd p = None then rows
      else blockrcptfilter p (q_join T ''cvm_transactions_txdata'' (eq_cols (TRC ''hash'') (TXD ''hash'')) rows))"

text \<open>The hashes of the traces to or from one of the addresses.\<close>

definition trace_hashes :: "ListCTransactionsParams \<Rightarrow> tables \<Rightarrow> string \<Rightarrow> string list \<Rightarrow> dbval option list" where
  "trace_hashes p T c addrs =
     map (\<lambda>r. r (TRC ''hash''))
       (createdatefilter (ct_ListParams p) ''cvm_transactions_txdata_trace''
         (filter (\<lambda>r. in_texts r (TRC c) addrs) (blockfilter p T (q_from ''cvm_transactions_txdata_trace'' T))))"

definition rcpt_hashes :: "ListCTransactionsParams \<Rightarrow> tables \<Rightarrow> string list \<Rightarrow> dbval option list" where
  "rcpt_hashes p T addrs =
     map (\<lambda>r. r (TXD ''hash''))
       (createdatefilter (ct_ListParams p) ''cvm_transactions_txdata''
         (blockrcptfilter p (filter (\<lambda>r. in_texts r (TXD ''rcpt'') addrs) (q_from ''cvm_transactions_txdata'' T))))"

definition hash_in :: "dbval option list \<Rightarrow> row \<Rightarrow> bool" where
  "hash_in hs r \<longleftrightarrow> \<not> is_null r (TXD ''hash'') \<and> r (TXD ''hash'') \<in> set hs"

definition listCTransFilter :: "ListCTransactionsParams \<Rightarrow> tables \<Rightarrow> row list \<Rightarrow> row list" where
  "listCTransFilter p T sq =
     blockrcptfilter p (filter (\<lambda>r.
         (ct_CAddressesTo p \<noteq> [] \<longrightarrow> hash_in (trace_hashes p T ''to_addr'' (ct_CAddressesTo p)) r)
       \<and> (ct_CAddressesFrom p \<noteq> [] \<longrightarrow> hash_in (trace_hashes p T ''from_addr'' (ct_CAddressesFrom p)) r)
       \<and> (ct_CAddresses p \<noteq> [] \<longrightarrow> hash_in (trace_hashes p T ''to_addr'' (ct_CAddresses p) @ trace_hashes p T ''from_addr'' (ct_CAddresses p)
            @ rcpt_hashes p T (ct_CAddresses p)) r)) sq)"

definition ctrans_query :: "extlib \<Rightarrow> ListCTransactionsParams \<Rightarrow> tables \<Rightarrow> row list" where
  "ctrans_query lib p T =
     sb_page (ListCTransactionsParams_Apply lib p new_select)
       (q_order_desc (\<lambda>r. getT r (TXD ''created_at''))
         (filter (\<lambda>r. ct_Hashes p \<noteq> [] \<longrightarrow> in_texts r (TXD ''hash'') (ct_Hashes p)) (listCTransFilter p T (q_from ''cvm_transactions_txdata'' T))))"

section \<open>Traces\<close>

definition nil_entry :: go_error where
  "nil_entry = ErrorString ''runtime error: invalid memory address or nil pointer dereference''"

definition trace_index :: go_error where
  "trace_index = ErrorString ''runtime error: index out of range''"

fun hex_val :: "string \<Rightarrow> int \<Rightarrow> int option" where
  "hex_val [] a = Some a"
| "hex_val (c # s) a = (case hexVal c of None \<Rightarrow> None | Some v \<Rightarrow> hex_val s (16 * a + int v))"

definition big_SetString16 :: "string \<Rightarrow> int option" where
  "big_SetString16 s =
     (let body = (if HasPrefix s ''-'' \<or> HasPrefix s ''+'' then drop 1 s else s) in
      if body = [] then None else map_option (\<lambda>v. if HasPrefix s ''-'' then - v else v) (hex_val body 0))"

definition toDecimal :: "string \<Rightarrow> string" where
  "toDecimal v = (case big_SetString16 (TrimPrefix v ''0x'') of Some vInt \<Rightarrow> Itoa vInt | None \<Rightarrow> v)"

definition nilEmpty :: "string option \<Rightarrow> string \<Rightarrow> string option" where
  "nilEmpty v df = (if v = Some df then None else v)"

definition reverted :: string where "reverted = ''reverted 0x''"

definition unpack_revert :: "ctranslib \<Rightarrow> TraceData \<Rightarrow> TraceData" where
  "unpack_revert cx m =
     (let m = m\<lparr>tt_RevertReason := nilEmpty (tt_RevertReason m) reverted\<rparr> in
      case tt_RevertReason m of
        None \<Rightarrow> m
      | Some revVal \<Rightarrow>
          if \<not> HasPrefix revVal reverted then m
          else
            (let m = m\<lparr>tt_RevertReason := Some (''0x'' @ drop 11 revVal)\<rparr> in
             case hex_DecodeString (drop 11 revVal) of
               None \<Rightarrow> m
             | Some revertReason \<Rightarrow>
                 (case cx_UnpackRevert cx revertReason of Inl _ \<Rightarrow> m | Inr s \<Rightarrow> m\<lparr>tt_RevertReasonUnpacked := Some s\<rparr>)))"

definition clean_trace :: "ctranslib \<Rightarrow> TraceData \<Rightarrow> TraceData" where
  "clean_trace cx m =
     unpack_revert cx (m\<lparr>tt_Value := toDecimal (tt_Value m), tt_Gas := toDecimal (tt_Gas m), tt_GasUsed := toDecimal (tt_GasUsed m),
       tt_CreatedContractAddressHash := nilEmpty (tt_CreatedContractAddressHash m) [], tt_Init := nilEmpty (tt_Init m) [],
       tt_CreatedContractCode := nilEmpty (tt_CreatedContractCode m) [], tt_Error := nilEmpty (tt_Error m) [],
       tt_Input := nilEmpty (tt_Input m) ''0x'', tt_Output := nilEmpty (tt_Output m) ''0x''\<rparr>)"

definition dress_trace :: "ctranslib \<Rightarrow> CvmTransactionsTxdataTrace \<Rightarrow> (string \<rightharpoonup> CTransactionData) \<Rightarrow> go_error + (string \<rightharpoonup> CTransactionData)" where
  "dress_trace cx sv m =
     res_bind (cx_UnmarshalTrace cx (bytes_of (CvmTransactionsTxdataTrace_Serialization sv))) (\<lambda>model.
       case m (CvmTransactionsTxdataTrace_Hash sv) of
         None \<Rightarrow> Inl nil_entry
       | Some item \<Rightarrow>
           (let idx = CvmTransactionsTxdataTrace_Idx sv;
                item = (if idx = 0 then item\<lparr>cd_ToAddr := tt_ToAddr model, cd_FromAddr := tt_FromAddr model\<rparr> else item);
                item = (if idx + 1 > cd_TracesMax item then item\<lparr>cd_TracesMax := idx + 1\<rparr> else item)
            in Inr (m(CvmTransactionsTxdataTrace_Hash sv \<mapsto> item\<lparr>cd_TracesMap := AList.update idx (clean_trace cx model) (cd_TracesMap item)\<rparr>))))"

fun dress_traces :: "ctranslib \<Rightarrow> CvmTransactionsTxdataTrace list \<Rightarrow> (string \<rightharpoonup> CTransactionData) \<Rightarrow> go_error + (string \<rightharpoonup> CTransactionData)" where
  "dress_traces cx [] m = Inr m"
| "dress_traces cx (sv # svs) m = res_bind (dress_trace cx sv m) (dress_traces cx svs)"

definition handleDressTraces :: "ctranslib \<Rightarrow> query_conn \<Rightarrow> string list \<Rightarrow> (string \<rightharpoonup> CTransactionData) \<Rightarrow> (dbstate, string \<rightharpoonup> CTransactionData) go" where
  "handleDressTraces cx conn hashes trItemsByHash =
     (if hashes = [] then go_return trItemsByHash
      else go_bind (qc_load conn (\<lambda>T. filter (\<lambda>r. in_texts r ''hash'' hashes) (T TableCvmTransactionsTxdataTrace))) (\<lambda>rows.
        go_lift (dress_traces cx (map row_of_CvmTransactionsTxdataTrace rows) trItemsByHash)))"

section \<open>Blocks\<close>

fun decode_blocks :: "cvmlib \<Rightarrow> row list \<Rightarrow> (string \<rightharpoonup> cBlock) \<Rightarrow> go_error + (string \<rightharpoonup> cBlock)" where
  "decode_blocks cl [] m = Inr m"
| "decode_blocks cl (r # rs) m =
     res_bind (modelsc_Unmarshal cl (bytes_or_nil r ''serialization'')) (\<lambda>cblockv. decode_blocks cl rs (m(getS r ''block'' \<mapsto> cblockv)))"

definition fetchAndDecodeCBlocks :: "cvmlib \<Rightarrow> query_conn \<Rightarrow> string list \<Rightarrow> (dbstate, string \<rightharpoonup> cBlock) go" where
  "fetchAndDecodeCBlocks cl conn blocks =
     (if blocks = [] then go_return Map.empty
      else go_bind (qc_load conn (\<lambda>T. filter (\<lambda>r. num_col r ''block'' \<noteq> None \<and> num_col r ''block'' \<in> set (map big_SetString blocks)) (T TableCvmTransactions)))
        (\<lambda>rows. go_lift (decode_blocks cl rows Map.empty)))"

section \<open>The list\<close>

definition item_of_row :: "ctranslib \<Rightarrow> row \<Rightarrow> go_error + CTransactionData" where
  "item_of_row cx r =
     res_bind (cx_UnmarshalTx cx (bytes_or_nil r (TXD ''serialization''))) (\<lambda>tr.
       Inr ((toCTransactionData tr)\<lparr>cd_Block := getS r (TXD ''block''), cd_CreatedAt := getT r (TXD ''created_at'')\<rparr>))"

text \<open>\<open>trItem.Traces[k] = v\<close> for every entry of the map; an index that is not below \<open>TracesMax\<close> is a panic.\<close>

definition place_traces :: "CTransactionData \<Rightarrow> go_error + CTransactionData" where
  "place_traces trItem =
     (if cd_TracesMax trItem = 0 then Inr trItem
      else if list_ex (\<lambda>(k, _). k \<ge> cd_TracesMax trItem) (cd_TracesMap trItem) then Inl trace_index
      else Inr (trItem\<lparr>cd_Traces := map (\<lambda>k. map_option (\<lambda>v. v\<lparr>tt_Idx := None\<rparr>) (map_of (cd_TracesMap trItem) (word_of_nat k))) [0 ..< unat (cd_TracesMax trItem)]\<rparr>))"

definition finish_item :: "(string \<rightharpoonup> cBlock) \<Rightarrow> CTransactionData \<Rightarrow> go_error + CTransactionData" where
  "finish_item cblocksMap trItem =
     place_traces
       (case cblocksMap (cd_Block trItem) of
          None \<Rightarrow> trItem
        | Some cblockv \<Rightarrow>
            (let h = Block_Header cblockv in
             trItem\<lparr>cd_BlockGasUsed := Header_GasUsed h, cd_BlockGasLimit := Header_GasLimit h, cd_BlockNonce := Header_Nonce h, cd_BlockHash := Header_Hash h\<rparr>))"

text \<open>Every item of the list is the one the map holds, unless a later item has its hash.\<close>

fun finish_items :: "(string \<rightharpoonup> cBlock) \<Rightarrow> (string \<rightharpoonup> CTransactionData) \<Rightarrow> CTransactionData list \<Rightarrow> go_error + CTransactionData list" where
  "finish_items cblocksMap m [] = Inr []"
| "finish_items cblocksMap m (item # items) =
     res_bind (if cd_Hash item \<in> cd_Hash ` set items then Inr item
               else (case m (cd_Hash item) of None \<Rightarrow> Inl nil_entry | Some x \<Rightarrow> finish_item cblocksMap x)) (\<lambda>y.
     res_bind (finish_items cblocksMap m items) (\<lambda>ys. Inr (y # ys)))"

definition ListCTransactions :: "extlib \<Rightarrow> cvmlib \<Rightarrow> ctranslib \<Rightarrow> query_conn \<Rightarrow> ListCTransactionsParams \<Rightarrow> (dbstate, CTransactionList) go" where
  "ListCTransactions lib cl cx conn p =
     go_then (qc_NewSession conn ''list_ctransactions'')
       (go_bind (qc_load conn (ctrans_query lib p)) (\<lambda>rows.
        go_bind (go_lift (res_map (item_of_row cx) rows)) (\<lambda>trItems.
        go_bind (fetchAndDecodeCBlocks cl conn (remdups (map cd_Block trItems))) (\<lambda>cblocksMap.
        go_bind (handleDressTraces cx conn (map cd_Hash trItems) (map_of (map (\<lambda>i. (cd_Hash i, i)) (rev trItems)))) (\<lambda>m.
        go_bind (go_lift (finish_items cblocksMap m trItems)) (\<lambda>items.
          go_return \<lparr>cl_Transactions = items, cl_StartTime = lp_StartTime (ct_ListParams p), cl_EndTime = lp_EndTime (ct_ListParams p)\<rparr>))))))"

section \<open>The traces of a transaction\<close>

definition decoded_trace :: "ctranslib \<Rightarrow> CvmTransactionsTxdataTrace \<Rightarrow> TraceData" where
  "decoded_trace cx sv = clean_trace cx (projr (cx_UnmarshalTrace cx (bytes_of (CvmTransactionsTxdataTrace_Serialization sv))))"

text \<open>The trace that an item has at an index after the rows \<open>svs\<close>: that of the last row of the hash with the index.\<close>

definition trace_at :: "ctranslib \<Rightarrow> string \<Rightarrow> CvmTransactionsTxdataTrace list \<Rightarrow> u32 \<Rightarrow> TraceData option" where
  "trace_at cx h svs k =
     map_option (decoded_trace cx) (List.find (\<lambda>sv. CvmTransactionsTxdataTrace_Hash sv = h \<and> CvmTransactionsTxdataTrace_Idx sv = k) (rev svs))"

lemma find_snoc: "List.find P (xs @ [x]) = (case List.find P xs of Some y \<Rightarrow> Some y | None \<Rightarrow> if P x then Some x else None)"
  by (induction xs) auto

lemma trace_at_simps [simp]:
  "trace_at cx h [] k = None"
  "trace_at cx h (sv # svs) k = (case trace_at cx h svs k of
     Some t \<Rightarrow> Some t
   | None \<Rightarrow> if CvmTransactionsTxdataTrace_Hash sv = h \<and> CvmTransactionsTxdataTrace_Idx sv = k then Some (decoded_trace cx sv) else None)"
  by (simp_all add: trace_at_def find_snoc split: option.splits)

definition below_max :: "CTransactionData \<Rightarrow> bool" where
  "below_max i \<longleftrightarrow> (\<forall>k \<in> dom (map_of (cd_TracesMap i)). k < cd_TracesMax i)"

lemma dress_trace_entry:
  assumes "dress_trace cx sv m = Inr m'" "CvmTransactionsTxdataTrace_Idx sv \<noteq> - 1" "m h = Some i" "below_max i"
  shows "\<exists>y. m' h = Some y \<and> cd_Hash y = cd_Hash i \<and> cd_Traces y = cd_Traces i \<and> below_max y
    \<and> map_of (cd_TracesMap y) = (if CvmTransactionsTxdataTrace_Hash sv = h then (map_of (cd_TracesMap i))(CvmTransactionsTxdataTrace_Idx sv \<mapsto> decoded_trace cx sv)
        else map_of (cd_TracesMap i))"
proof (cases "CvmTransactionsTxdataTrace_Hash sv = h")
  case False
  then show ?thesis using assms by (auto simp: dress_trace_def res_bind_def Let_def split: sum.splits option.splits)
next
  case True
  let ?k = "CvmTransactionsTxdataTrace_Idx sv"
  have "1 + ?k \<noteq> 0" using assms(2) by (metis add.commute eq_neg_iff_add_eq_0)
  then have k: "?k < ?k + 1" using unatSuc [of ?k] by (simp add: word_less_nat_alt add.commute)
  obtain model where model: "cx_UnmarshalTrace cx (bytes_of (CvmTransactionsTxdataTrace_Serialization sv)) = Inr model"
    using assms(1) by (auto simp: dress_trace_def res_bind_def split: sum.splits)
  define item where "item = (if ?k = 0 then i\<lparr>cd_ToAddr := tt_ToAddr model, cd_FromAddr := tt_FromAddr model\<rparr> else i)"
  define y where "y = (if ?k + 1 > cd_TracesMax item then item\<lparr>cd_TracesMax := ?k + 1\<rparr> else item)\<lparr>cd_TracesMap := AList.update ?k (decoded_trace cx sv) (cd_TracesMap item)\<rparr>"
  have item: "cd_Hash item = cd_Hash i" "cd_Traces item = cd_Traces i" "cd_TracesMax item = cd_TracesMax i" "cd_TracesMap item = cd_TracesMap i"
    by (simp_all add: item_def)
  have "decoded_trace cx sv = clean_trace cx model" by (simp add: decoded_trace_def model)
  then have "m' = m(h \<mapsto> y)" using assms(1,3) True
    by (cases "?k = 0"; cases "cd_TracesMax i < ?k + 1") (simp_all add: dress_trace_def res_bind_def Let_def model y_def item_def)
  moreover have "cd_Hash y = cd_Hash i" "cd_Traces y = cd_Traces i" "map_of (cd_TracesMap y) = (map_of (cd_TracesMap i))(?k \<mapsto> decoded_trace cx sv)"
    by (simp_all add: y_def item update_conv')
  moreover have "cd_TracesMax i \<le> cd_TracesMax y" "?k + 1 \<le> cd_TracesMax y" by (auto simp: y_def item)
  then have "below_max y" using assms(4) k unfolding below_max_def calculation by (auto intro: less_le_trans)
  ultimately show ?thesis using True by simp
qed

lemma dress_traces_entry:
  assumes "dress_traces cx svs m = Inr m'" "\<forall>sv \<in> set svs. CvmTransactionsTxdataTrace_Idx sv \<noteq> - 1" "m h = Some i" "below_max i"
  shows "\<exists>y. m' h = Some y \<and> cd_Hash y = cd_Hash i \<and> cd_Traces y = cd_Traces i \<and> below_max y
    \<and> (\<forall>k. map_of (cd_TracesMap y) k = (case trace_at cx h svs k of Some t \<Rightarrow> Some t | None \<Rightarrow> map_of (cd_TracesMap i) k))"
  using assms
proof (induction svs arbitrary: m i)
  case (Cons sv svs)
  obtain m1 where m1: "dress_trace cx sv m = Inr m1" "dress_traces cx svs m1 = Inr m'"
    using Cons.prems(1) by (auto simp: res_bind_def split: sum.splits)
  have "CvmTransactionsTxdataTrace_Idx sv \<noteq> - 1" using Cons.prems(2) by simp
  from dress_trace_entry [OF m1(1) this Cons.prems(3,4)] obtain i1 where i1: "m1 h = Some i1" "cd_Hash i1 = cd_Hash i" "cd_Traces i1 = cd_Traces i" "below_max i1"
    "map_of (cd_TracesMap i1) = (if CvmTransactionsTxdataTrace_Hash sv = h then (map_of (cd_TracesMap i))(CvmTransactionsTxdataTrace_Idx sv \<mapsto> decoded_trace cx sv)
        else map_of (cd_TracesMap i))" by blast
  obtain y where y: "m' h = Some y" "cd_Hash y = cd_Hash i1" "cd_Traces y = cd_Traces i1" "below_max y"
    "\<And>k. map_of (cd_TracesMap y) k = (case trace_at cx h svs k of Some t \<Rightarrow> Some t | None \<Rightarrow> map_of (cd_TracesMap i1) k)"
    using Cons.IH [OF m1(2) _ i1(1,4)] Cons.prems(2) by auto
  have "map_of (cd_TracesMap y) k = (case trace_at cx h (sv # svs) k of Some t \<Rightarrow> Some t | None \<Rightarrow> map_of (cd_TracesMap i) k)" for k
    unfolding y(5) i1(5) by (simp split: option.split)
  with y i1 show ?case by simp
qed auto

lemma place_traces_at:
  assumes "place_traces y = Inr x" "cd_Traces y = []" "below_max y"
  shows "cd_Hash x = cd_Hash y" "\<forall>k < length (cd_Traces x). cd_Traces x ! k = map_option (\<lambda>v. v\<lparr>tt_Idx := None\<rparr>) (map_of (cd_TracesMap y) (word_of_nat k))"
    "\<forall>k \<in> dom (map_of (cd_TracesMap y)). unat k < length (cd_Traces x)"
  using assms by (auto simp: place_traces_def below_max_def word_less_nat_alt split: if_splits)

lemma finish_item_entry:
  assumes "finish_item cb y = Inr x"
  obtains z where "place_traces z = Inr x" "cd_Traces z = cd_Traces y" "cd_TracesMap z = cd_TracesMap y" "cd_TracesMax z = cd_TracesMax y" "cd_Hash z = cd_Hash y"
  using assms by (auto simp: finish_item_def Let_def split: option.splits)

lemma place_traces_hash: "place_traces z = Inr x \<Longrightarrow> cd_Hash x = cd_Hash z"
  by (auto simp: place_traces_def split: if_splits)

lemma finish_items_hashes:
  assumes "finish_items cb m items = Inr xs" "\<forall>h y. m h = Some y \<longrightarrow> cd_Hash y = h"
  shows "map cd_Hash xs = map cd_Hash items"
  using assms(1)
proof (induction items arbitrary: xs)
  case (Cons item items)
  then show ?case using assms(2)
    by (auto simp: res_bind_def split: sum.splits if_splits option.splits elim!: finish_item_entry dest!: place_traces_hash)
qed simp

lemma finish_items_entry:
  assumes "finish_items cb m items = Inr xs" "distinct (map cd_Hash items)" "x \<in> set xs"
  shows "\<exists>item \<in> set items. \<exists>y. m (cd_Hash item) = Some y \<and> finish_item cb y = Inr x"
  using assms
proof (induction items arbitrary: xs)
  case (Cons item items)
  then show ?case by (auto simp: res_bind_def split: sum.splits if_splits option.splits)
qed simp

lemma item_of_row_fields: "item_of_row cx r = Inr i \<Longrightarrow> cd_Traces i = [] \<and> cd_TracesMap i = []"
  by (auto simp: item_of_row_def res_bind_def toCTransactionData_def Let_def split: sum.splits prod.splits)

lemma items_by_hash:
  assumes "i \<in> set items"
  shows "\<exists>j \<in> set items. map_of (map (\<lambda>i. (cd_Hash i, i)) (rev items)) (cd_Hash i) = Some j \<and> cd_Hash j = cd_Hash i"
proof -
  have "cd_Hash i \<in> fst ` set (map (\<lambda>i. (cd_Hash i, i)) (rev items))" using assms by force
  then obtain j where "map_of (map (\<lambda>i. (cd_Hash i, i)) (rev items)) (cd_Hash i) = Some j" by (meson map_of_eq_None_iff not_None_eq)
  moreover from map_of_SomeD [OF this] have "j \<in> set items \<and> cd_Hash j = cd_Hash i" by auto
  ultimately show ?thesis by blast
qed

lemma dress_traces_hashes:
  assumes "dress_traces cx svs m = Inr m'" "\<forall>h y. m h = Some y \<longrightarrow> cd_Hash y = h"
  shows "\<forall>h y. m' h = Some y \<longrightarrow> cd_Hash y = h"
  using assms
proof (induction svs arbitrary: m)
  case (Cons sv svs)
  obtain m1 where m1: "dress_trace cx sv m = Inr m1" "dress_traces cx svs m1 = Inr m'"
    using Cons.prems(1) by (auto simp: res_bind_def split: sum.splits)
  have "\<forall>h y. m1 h = Some y \<longrightarrow> cd_Hash y = h"
    using m1(1) Cons.prems(2) by (auto simp: dress_trace_def res_bind_def Let_def split: sum.splits option.splits if_splits)
  then show ?case by (rule Cons.IH [OF m1(2)])
qed simp

lemma res_map_item: "res_map f xs = Inr ys \<Longrightarrow> y \<in> set ys \<Longrightarrow> \<exists>x \<in> set xs. f x = Inr y"
  by (induction xs arbitrary: ys) (auto simp: res_bind_def split: sum.splits)

lemma handleDressTraces_rows:
  assumes "handleDressTraces cx conn hashes m d = (Inr m', d')" "hashes \<noteq> []"
  obtains rows where "qc_load conn (\<lambda>T. filter (\<lambda>r. in_texts r ''hash'' hashes) (T TableCvmTransactionsTxdataTrace)) d = (Inr rows, d')"
    "dress_traces cx (map row_of_CvmTransactionsTxdataTrace rows) m = Inr m'"
proof -
  let ?q = "\<lambda>T. filter (\<lambda>r. in_texts r ''hash'' hashes) (T TableCvmTransactionsTxdataTrace)"
  obtain res d1 where res: "qc_load conn ?q d = (res, d1)" by fastforce
  with assms show ?thesis unfolding handleDressTraces_def by (cases res) (auto simp: go_simps intro: that)
qed

lemma handleDressTraces_hashes:
  assumes "handleDressTraces cx conn hashes m d = (Inr m', d')" "\<forall>h y. m h = Some y \<longrightarrow> cd_Hash y = h"
  shows "\<forall>h y. m' h = Some y \<longrightarrow> cd_Hash y = h"
proof (cases "hashes = []")
  case True
  then show ?thesis using assms by (simp add: handleDressTraces_def go_return_run)
next
  case False
  from handleDressTraces_rows [OF assms(1) this] show ?thesis using dress_traces_hashes [OF _ assms(2)] by blast
qed

text \<open>The rows of the trace table have their hash as text, and no index is the greatest \<open>uint32\<close>.\<close>

definition trace_rows_ok :: "tables \<Rightarrow> bool" where
  "trace_rows_ok T \<longleftrightarrow> (\<forall>r \<in> set (T TableCvmTransactionsTxdataTrace). (\<exists>s. r ''hash'' = Some (VS s))
     \<and> CvmTransactionsTxdataTrace_Idx (row_of_CvmTransactionsTxdataTrace r) \<noteq> - 1)"

definition all_traces :: "tables \<Rightarrow> CvmTransactionsTxdataTrace list" where
  "all_traces T = map row_of_CvmTransactionsTxdataTrace (T TableCvmTransactionsTxdataTrace)"

lemma trace_at_filter:
  assumes "\<forall>r \<in> set rows. \<exists>s. r ''hash'' = Some (VS s)" "h \<in> set hashes"
  shows "trace_at cx h (map row_of_CvmTransactionsTxdataTrace (filter (\<lambda>r. in_texts r ''hash'' hashes) rows)) k
    = trace_at cx h (map row_of_CvmTransactionsTxdataTrace rows) k"
  using assms(1)
proof (induction rows)
  case (Cons r rows)
  moreover obtain s where s: "r ''hash'' = Some (VS s)" using Cons.prems by auto
  moreover have "CvmTransactionsTxdataTrace_Hash (row_of_CvmTransactionsTxdataTrace r) = s"
    using s by (simp add: row_of_CvmTransactionsTxdataTrace_def getS_def)
  ultimately show ?case using assms(2) by (auto simp: in_texts_def split: option.split)
qed simp

lemma trace_at_dom: "sv \<in> set svs \<Longrightarrow> CvmTransactionsTxdataTrace_Hash sv = h \<Longrightarrow> trace_at cx h svs (CvmTransactionsTxdataTrace_Idx sv) \<noteq> None"
  by (induction svs) (auto split: option.split)

lemma handleDressTraces_entry:
  assumes "query_server conn" "handleDressTraces cx conn hashes m d = (Inr m', d')" "trace_rows_ok (tabs d)"
    "h \<in> set hashes" "m h = Some i" "cd_TracesMap i = []"
  shows "\<exists>y. m' h = Some y \<and> cd_Traces y = cd_Traces i \<and> below_max y \<and> (\<forall>k. map_of (cd_TracesMap y) k = trace_at cx h (all_traces (tabs d)) k)"
proof -
  let ?rows = "filter (\<lambda>r. in_texts r ''hash'' hashes) (tabs d TableCvmTransactionsTxdataTrace)"
  have "hashes \<noteq> []" using assms(4) by auto
  from handleDressTraces_rows [OF assms(2) this]
  obtain rows where "qc_load conn (\<lambda>T. filter (\<lambda>r. in_texts r ''hash'' hashes) (T TableCvmTransactionsTxdataTrace)) d = (Inr rows, d')"
    and dress: "dress_traces cx (map row_of_CvmTransactionsTxdataTrace rows) m = Inr m'" .
  then have rows: "rows = ?rows" using query_server.load_rows [OF assms(1)] by blast
  have "\<forall>sv \<in> set (map row_of_CvmTransactionsTxdataTrace rows). CvmTransactionsTxdataTrace_Idx sv \<noteq> - 1"
    using assms(3) by (auto simp: rows trace_rows_ok_def)
  from dress_traces_entry [OF dress this assms(5)] assms(6) obtain y where "m' h = Some y" "cd_Traces y = cd_Traces i" "below_max y"
    "\<forall>k. map_of (cd_TracesMap y) k = trace_at cx h (map row_of_CvmTransactionsTxdataTrace rows) k"
    by (auto simp: below_max_def option.case_eq_if)
  moreover have "trace_at cx h (map row_of_CvmTransactionsTxdataTrace rows) k = trace_at cx h (all_traces (tabs d)) k" for k
    unfolding rows all_traces_def using assms(3,4) by (intro trace_at_filter) (auto simp: trace_rows_ok_def)
  ultimately show ?thesis by auto
qed

lemma fetchAndDecodeCBlocks_keeps:
  assumes "query_server conn" "fetchAndDecodeCBlocks cl conn blocks d = (r, d')"
  shows "tabs d' = tabs d"
proof (cases "blocks = []")
  case False
  let ?q = "\<lambda>T. filter (\<lambda>r. num_col r ''block'' \<noteq> None \<and> num_col r ''block'' \<in> set (map big_SetString blocks)) (T TableCvmTransactions)"
  obtain res d1 where res: "qc_load conn ?q d = (res, d1)" by fastforce
  then have "tabs d1 = tabs d" using query_server.load_keeps [OF assms(1), of ?q d] by simp
  then show ?thesis using assms(2) res False unfolding fetchAndDecodeCBlocks_def by (cases res) (simp_all add: go_simps)
qed (use assms(2) in \<open>simp add: fetchAndDecodeCBlocks_def go_return_run\<close>)

lemma ListCTransactions_parts:
  assumes "query_server conn" "ListCTransactions lib cl cx conn p d = (Inr l, d')"
  obtains rows trItems cb d1 m where "res_map (item_of_row cx) rows = Inr trItems" "rows = ctrans_query lib p (tabs d)" "tabs d1 = tabs d"
    "handleDressTraces cx conn (map cd_Hash trItems) (map_of (map (\<lambda>i. (cd_Hash i, i)) (rev trItems))) d1 = (Inr m, d')"
    "finish_items cb m trItems = Inr (cl_Transactions l)"
proof -
  obtain ds where ses: "qc_NewSession conn ''list_ctransactions'' d = (Inr (), ds)"
    and run: "go_bind (qc_load conn (ctrans_query lib p)) (\<lambda>rows.
        go_bind (go_lift (res_map (item_of_row cx) rows)) (\<lambda>trItems.
        go_bind (fetchAndDecodeCBlocks cl conn (remdups (map cd_Block trItems))) (\<lambda>cblocksMap.
        go_bind (handleDressTraces cx conn (map cd_Hash trItems) (map_of (map (\<lambda>i. (cd_Hash i, i)) (rev trItems)))) (\<lambda>m.
        go_bind (go_lift (finish_items cblocksMap m trItems)) (\<lambda>items.
          go_return \<lparr>cl_Transactions = items, cl_StartTime = lp_StartTime (ct_ListParams p), cl_EndTime = lp_EndTime (ct_ListParams p)\<rparr>))))) ds = (Inr l, d')"
    using assms(2) unfolding ListCTransactions_def by (auto simp: go_simps split: prod.splits sum.splits)
  from run obtain rows d0 where load: "qc_load conn (ctrans_query lib p) ds = (Inr rows, d0)"
    and run: "go_bind (go_lift (res_map (item_of_row cx) rows)) (\<lambda>trItems.
        go_bind (fetchAndDecodeCBlocks cl conn (remdups (map cd_Block trItems))) (\<lambda>cblocksMap.
        go_bind (handleDressTraces cx conn (map cd_Hash trItems) (map_of (map (\<lambda>i. (cd_Hash i, i)) (rev trItems)))) (\<lambda>m.
        go_bind (go_lift (finish_items cblocksMap m trItems)) (\<lambda>items.
          go_return \<lparr>cl_Transactions = items, cl_StartTime = lp_StartTime (ct_ListParams p), cl_EndTime = lp_EndTime (ct_ListParams p)\<rparr>)))) d0 = (Inr l, d')"
    by (auto simp: go_simps split: prod.splits sum.splits)
  then obtain trItems cb d1 m where parts: "res_map (item_of_row cx) rows = Inr trItems"
    "fetchAndDecodeCBlocks cl conn (remdups (map cd_Block trItems)) d0 = (Inr cb, d1)"
    "handleDressTraces cx conn (map cd_Hash trItems) (map_of (map (\<lambda>i. (cd_Hash i, i)) (rev trItems))) d1 = (Inr m, d')"
    "finish_items cb m trItems = Inr (cl_Transactions l)"
    by (auto simp: go_simps split: prod.splits sum.splits)
  have "tabs ds = tabs d" using query_server.session_keeps [OF assms(1)] ses by (metis snd_conv)
  moreover have "tabs d0 = tabs ds" using query_server.load_keeps [OF assms(1)] load by (metis snd_conv)
  moreover note query_server.load_rows [OF assms(1) load] fetchAndDecodeCBlocks_keeps [OF assms(1) parts(2)]
  ultimately show ?thesis using that parts by auto
qed

text \<open>C25. A transaction in the list of the EVM chain has, at each index, the last stored trace of its hash with this index, decoded and
  cleaned, or nothing when there is none, and there is a place for every stored trace of the transaction.\<close>

theorem ListCTransactions_traces:
  assumes "query_server conn" "ListCTransactions lib cl cx conn p d = (Inr l, d')" "trace_rows_ok (tabs d)"
    "distinct (map cd_Hash (cl_Transactions l))" "x \<in> set (cl_Transactions l)"
  shows "(\<forall>k < length (cd_Traces x). cd_Traces x ! k = map_option (\<lambda>v. v\<lparr>tt_Idx := None\<rparr>) (trace_at cx (cd_Hash x) (all_traces (tabs d)) (word_of_nat k)))
    \<and> (\<forall>sv \<in> set (all_traces (tabs d)). CvmTransactionsTxdataTrace_Hash sv = cd_Hash x \<longrightarrow> unat (CvmTransactionsTxdataTrace_Idx sv) < length (cd_Traces x))"
proof -
  obtain rows trItems cb d1 m where parts: "res_map (item_of_row cx) rows = Inr trItems" "tabs d1 = tabs d"
    "handleDressTraces cx conn (map cd_Hash trItems) (map_of (map (\<lambda>i. (cd_Hash i, i)) (rev trItems))) d1 = (Inr m, d')"
    "finish_items cb m trItems = Inr (cl_Transactions l)"
    by (rule ListCTransactions_parts [OF assms(1,2)]) blast
  let ?m = "map_of (map (\<lambda>i. (cd_Hash i, i)) (rev trItems))"
  have "\<forall>h y. ?m h = Some y \<longrightarrow> cd_Hash y = h" by (auto dest!: map_of_SomeD)
  then have m: "\<forall>h y. m h = Some y \<longrightarrow> cd_Hash y = h" by (rule handleDressTraces_hashes [OF parts(3)])
  have "distinct (map cd_Hash trItems)" using assms(4) finish_items_hashes [OF parts(4) m] by simp
  from finish_items_entry [OF parts(4) this assms(5)] obtain item y where y: "item \<in> set trItems" "m (cd_Hash item) = Some y" "finish_item cb y = Inr x"
    by blast
  obtain j where j: "j \<in> set trItems" "?m (cd_Hash item) = Some j" "cd_Hash j = cd_Hash item" using items_by_hash [OF y(1)] by blast
  then have "cd_Traces j = [] \<and> cd_TracesMap j = []" using res_map_item [OF parts(1)] item_of_row_fields by blast
  with handleDressTraces_entry [OF assms(1) parts(3) _ _ j(2)] assms(3) parts(2) y(1,2)
  have dressed: "cd_Traces y = []" "below_max y" "\<forall>k. map_of (cd_TracesMap y) k = trace_at cx (cd_Hash item) (all_traces (tabs d)) k"
    by auto
  obtain z where z: "place_traces z = Inr x" "cd_Traces z = cd_Traces y" "cd_TracesMap z = cd_TracesMap y" "cd_TracesMax z = cd_TracesMax y" "cd_Hash z = cd_Hash y"
    using finish_item_entry [OF y(3)] .
  have "below_max z" using dressed(2) z by (simp add: below_max_def)
  note at = place_traces_at [OF z(1) _ this]
  have h: "cd_Hash x = cd_Hash item" using at(1) z dressed(1) m y(2) by simp
  have "unat (CvmTransactionsTxdataTrace_Idx sv) < length (cd_Traces x)"
    if "sv \<in> set (all_traces (tabs d))" "CvmTransactionsTxdataTrace_Hash sv = cd_Hash x" for sv
  proof -
    have "trace_at cx (cd_Hash item) (all_traces (tabs d)) (CvmTransactionsTxdataTrace_Idx sv) \<noteq> None" using that trace_at_dom h by metis
    then show ?thesis using at(3) z dressed by (auto simp: domIff)
  qed
  then show ?thesis using at(2) z dressed h by simp
qed

definition sample_trace :: TraceData where
  "sample_trace = \<lparr>tt_Hash = None, tt_Idx = Some 1, tt_CallType = ''call'', tt_ToAddr = ''0x2'', tt_FromAddr = ''0x1'', tt_Type = ''CALL'',
     tt_GasUsed = ''0x10'', tt_Gas = ''0xff'', tt_Input = Some ''0x'', tt_Output = Some ''0x'', tt_Value = ''0x0'', tt_CreatedContractAddressHash = Some [],
     tt_Init = None, tt_CreatedContractCode = None, tt_Error = Some [], tt_RevertReason = Some ''reverted 0x'', tt_RevertReasonUnpacked = None, tt_TraceAddress = []\<rparr>"

definition sample_ctranslib :: ctranslib where
  "sample_ctranslib = \<lparr>cx_UnmarshalTx = (\<lambda>_. Inr \<lparr>et_Type = 0, et_Hash = ''0xaa'', et_Nonce = 0, et_GasPrice = Some 1, et_Gas = 21000, et_GasFeeCap = None,
       et_GasTipCap = None, et_To = None, et_Value = Some 5, et_Data = [], et_Signature = (Some 0, Some 1, Some 2)\<rparr>),
     cx_UnmarshalTrace = (\<lambda>_. Inr sample_trace), cx_UnpackRevert = (\<lambda>_. Inl (ErrorString ''unpack''))\<rparr>"

definition one_ctx :: dbstate where
  "one_ctx = \<lparr>tabs = (\<lambda>t. if t = TableCvmTransactionsTxdata then [[''hash'' \<mapsto> VS ''0xaa'', ''block'' \<mapsto> VRaw ''7'', ''created_at'' \<mapsto> VT 0]]
       else if t = TableCvmTransactionsTxdataTrace then [[''hash'' \<mapsto> VS ''0xaa'', ''idx'' \<mapsto> VI 1], [''hash'' \<mapsto> VS ''0xbb'', ''idx'' \<mapsto> VI 0]] else []),
     ticks = 0\<rparr>"

lemma one_ctx_list:
  "case ListCTransactions sample_lib sample_cvmlib sample_ctranslib (mysql_ro (\<lambda>_. None)) zero_ListCTransactionsParams one_ctx of
     (Inr l, _) \<Rightarrow> map (\<lambda>x. (cd_Hash x, length (cd_Traces x))) (cl_Transactions l) = [(''0xaa'', 2)] | _ \<Rightarrow> False"
  by code_simp

lemma one_ctx_ok: "trace_rows_ok (tabs one_ctx)"
  by (simp add: trace_rows_ok_def one_ctx_def row_of_CvmTransactionsTxdataTrace_def getW_def getI_def)

theorem ListCTransactions_traces_witness:
  "\<exists>l d' x. ListCTransactions sample_lib sample_cvmlib sample_ctranslib (mysql_ro (\<lambda>_. None)) zero_ListCTransactionsParams one_ctx = (Inr l, d')
    \<and> cl_Transactions l = [x] \<and> cd_Hash x = ''0xaa'' \<and> length (cd_Traces x) = 2
    \<and> (\<forall>k < length (cd_Traces x). cd_Traces x ! k = map_option (\<lambda>v. v\<lparr>tt_Idx := None\<rparr>) (trace_at sample_ctranslib ''0xaa'' (all_traces (tabs one_ctx)) (word_of_nat k)))"
proof -
  obtain l d' where l: "ListCTransactions sample_lib sample_cvmlib sample_ctranslib (mysql_ro (\<lambda>_. None)) zero_ListCTransactionsParams one_ctx = (Inr l, d')"
    "map (\<lambda>x. (cd_Hash x, length (cd_Traces x))) (cl_Transactions l) = [(''0xaa'', 2)]"
    using one_ctx_list by (auto split: prod.splits sum.splits)
  then obtain x where x: "cl_Transactions l = [x]" "cd_Hash x = ''0xaa''" "length (cd_Traces x) = 2" by (auto simp: map_eq_Cons_conv)
  moreover note ListCTransactions_traces [OF mysql_ro.query_server_axioms l(1) one_ctx_ok, of x]
  ultimately show ?thesis using l(1) by auto
qed

end
