(* ===== verification/ApiReader.thy ===== *)
theory ApiReader
  imports Api ReaderPage ReaderC
begin

text \<open>
  The API over the modelled reader: \<open>axc_reader\<close> gives the handlers of \<open>Api\<close>, which take the reader as an argument, the operations of
  the reader, run on the database and the memory at the moment of the request. A response then went through two caches, the
  memory of the reader and the cache of the API; what it says was true in the database when the one or the other was filled.
\<close>

section \<open>The reader of the API\<close>

text \<open>What a handler encodes as JSON.\<close>

datatype api_value =
    SearchValue SearchResults
  | TxfeeValue TxfeeAggregatesHistogram
  | AggregateValue AggregatesHistogram
  | TransactionsValue TransactionList
  | TransactionValue "ApiTransaction option"
  | CTransactionsValue CTransactionList
  | AddressesValue AddressList
  | AddressValue "AddressInfo option"
  | ChainsValue "(string \<rightharpoonup> string list) option"
  | OutputsValue OutputList
  | OutputValue "ApiOutput option"
  | AssetsValue AssetList
  | AssetValue "Asset option"
  | BlocksValue "Block list"
  | BlockValue "Block option"
  | RawValue string
  | CountsValue "ChainCounts list"
  | CachedAssetsValue "Asset list"
  | AssetAggregatesValue "AssetAggregate list"
  | CachedAggregateValue "AggregatesHistogram option"

record axc_env =
  xe_rv :: reader_env
  xe_conn :: query_conn
  xe_consumers :: reader_consumers
  xe_cl :: cvmlib
  xe_cx :: ctranslib
  xe_export :: exportlib

definition answer_of :: "('a \<Rightarrow> 'b) \<Rightarrow> (dbstate, 'a) go \<Rightarrow> dbstate \<Rightarrow> go_error + 'b" where
  "answer_of f m d = (case fst (m d) of Inl err \<Rightarrow> Inl err | Inr a \<Rightarrow> Inr (f a))"

definition axc_reader :: "axc_env \<Rightarrow> reader_memory \<Rightarrow> dbstate \<Rightarrow> api_value reader" where
  "axc_reader xe ra d =
     (let rv = xe_rv xe; lib = rv_lib rv; conn = xe_conn xe; mem = ReaderAggregate.truncate ra in
      \<lparr>rd_Search = (\<lambda>p _. answer_of SearchValue (Search rv conn p) d),
       rd_TxfeeAggregate = (\<lambda>p. answer_of TxfeeValue (TxfeeAggregate conn p) d),
       rd_Aggregate = (\<lambda>p. answer_of AggregateValue (Aggregate lib conn p None) d),
       rd_ListTransactions = (\<lambda>p axc. answer_of TransactionsValue (ListTransactions rv conn mem p axc) d),
       rd_GetTransaction = (\<lambda>i axc. answer_of TransactionValue (GetTransaction rv conn mem i axc) d),
       rd_ListCTransactions = (\<lambda>p. answer_of CTransactionsValue (ListCTransactions lib (xe_cl xe) (xe_cx xe) conn p) d),
       rd_ListAddresses = (\<lambda>p. answer_of AddressesValue (ListAddresses rv conn p) d),
       rd_GetAddress = (\<lambda>p. answer_of AddressValue (GetAddress rv conn p) d),
       rd_AddressChains = (\<lambda>p. answer_of ChainsValue (AddressChains rv conn p) d),
       rd_ListOutputs = (\<lambda>p. answer_of OutputsValue (ListOutputs rv conn p) d),
       rd_GetOutput = (\<lambda>i. answer_of OutputValue (GetOutput rv conn i) d),
       rd_ListAssets = (\<lambda>p. answer_of AssetsValue (ListAssets rv conn p None) d),
       rd_GetAsset = (\<lambda>p i. answer_of AssetValue (GetAsset rv conn p i) d),
       rd_ListBlocks = (\<lambda>p. answer_of BlocksValue (ListBlocks rv conn p) d),
       rd_GetBlock = (\<lambda>i. answer_of BlockValue (GetBlock rv conn i) d),
       rd_ATxDATA = (\<lambda>p. answer_of id (ATxDATA (xe_consumers xe) conn p) d),
       rd_PTxDATA = (\<lambda>p. answer_of id (PTxDATA (xe_consumers xe) conn p) d),
       rd_CTxDATA = (\<lambda>p. answer_of id (CTxDATA lib (xe_cl xe) (xe_export xe) conn p) d),
       rd_ETxDATA = (\<lambda>p. answer_of id (ETxDATA (xe_consumers xe) conn p) d),
       rd_RawTransaction = (\<lambda>i. answer_of RawValue (RawTransaction lib conn i) d),
       rd_CacheAddressCounts = CountsValue (CacheAddressCounts ra),
       rd_CacheTxCounts = CountsValue (CacheTxCounts ra),
       rd_CacheAssets = CachedAssetsValue (CacheAssets ra),
       rd_CacheAssetAggregates = AssetAggregatesValue (CacheAssetAggregates ra),
       rd_CacheAggregates = (\<lambda>tag. CachedAggregateValue (CacheAggregates ra tag))\<rparr>)"

section \<open>Keys\<close>

text \<open>The names of the requests, the part of the key after \<open>axc\<close>.\<close>

definition request_names :: "string list" where
  "request_names = [''search'', ''aggregate_txfee'', ''aggregate'', ''list_transactions'', ''get_transaction'', ''list_ctransactions'', ''list_addresses'',
     ''get_address'', ''address_chains'', ''list_outputs'', ''get_output'', ''list_assets'', ''get_asset'', ''list_blocks'', ''get_block'']"

lemmas cacheable_defs = Search_cacheable_def TxfeeAggregate_cacheable_def Aggregate_cacheable_def ListTransactions_cacheable_def ListTransactionsPost_cacheable_def
  GetTransaction_cacheable_def ListCTransactions_cacheable_def ListAddresses_cacheable_def GetAddress_cacheable_def AddressChains_cacheable_def
  AddressChainsPost_cacheable_def ListOutputs_cacheable_def GetOutput_cacheable_def ListAssets_cacheable_def GetAsset_cacheable_def
  ListBlocks_cacheable_def GetBlock_cacheable_def

lemma cached_key:
  assumes "(h, f) \<in> set v2_cached" "f ae c r = Inr ca"
  shows "(\<exists>name \<in> set request_names - {''get_transaction''}. \<exists>parts. ca_Key ca = ''axc'' # name # parts) \<or> f = GetTransaction_cacheable"
  using assms unfolding v2_cached_def set_simps insert_iff empty_iff prod.inject
  by (elim disjE conjE) (auto simp: cacheable_defs request_names_def cacheKeyForID_def cacheKeyForParams_def res_bind_Inr Let_def split: if_splits)

lemma split_first: "x \<notin> set a \<Longrightarrow> x \<notin> set b \<Longrightarrow> a @ x # r = b @ x # q \<Longrightarrow> a = b \<and> r = q"
proof (induction a arbitrary: b)
  case Nil
  then show ?case by (cases b) auto
next
  case (Cons y a)
  then show ?case by (cases b) auto
qed

lemma names_plain: "name \<in> set request_names \<Longrightarrow> CHR ''|'' \<notin> set name"
  by (auto simp: request_names_def)

lemma Itoa_plain: "CHR ''|'' \<notin> set (Itoa (uint n))"
  by (simp add: Itoa_def)

lemma key_name:
  assumes "utils_CacheKey n (''axc'' # name # parts) = utils_CacheKey m [''axc'', ''get_transaction'', x]" "name \<in> set request_names"
  shows "name = ''get_transaction''"
proof -
  have "Itoa (uint n) @ CHR ''|'' # ''axc|'' @ Join (name # parts) ''|'' = Itoa (uint m) @ CHR ''|'' # ''axc|'' @ ''get_transaction'' @ CHR ''|'' # x"
    using assms(1) by (simp add: utils_CacheKey_def KeyFromParts_def)
  from split_first [OF Itoa_plain Itoa_plain this] have j: "Join (name # parts) ''|'' = ''get_transaction'' @ CHR ''|'' # x" by simp
  have get: "CHR ''|'' \<notin> set ''get_transaction''" by simp
  show ?thesis
  proof (cases parts)
    case Nil
    then have "CHR ''|'' \<in> set name" using j by simp
    then show ?thesis using names_plain [OF assms(2)] by blast
  next
    case (Cons p ps)
    then have "name @ CHR ''|'' # Join (p # ps) ''|'' = ''get_transaction'' @ CHR ''|'' # x" using j by simp
    then show ?thesis using split_first [OF names_plain [OF assms(2)] get] by blast
  qed
qed

lemma key_id:
  assumes "utils_CacheKey n (cacheKeyForID ''get_transaction'' i) = utils_CacheKey m (cacheKeyForID ''get_transaction'' j)"
  shows "i = j"
proof -
  have "Itoa (uint n) @ CHR ''|'' # ''axc|get_transaction|id='' @ i = Itoa (uint m) @ CHR ''|'' # ''axc|get_transaction|id='' @ j"
    using assms by (simp add: utils_CacheKey_def KeyFromParts_def cacheKeyForID_def CacheKey_def)
  from split_first [OF Itoa_plain Itoa_plain this] show ?thesis by simp
qed

section \<open>One transaction\<close>

definition has_tx :: "tables \<Rightarrow> string \<Rightarrow> bool" where
  "has_tx T i \<longleftrightarrow> (\<exists>r \<in> set (T TableTransactions). r ''id'' = Some (VS i))"

text \<open>What the tables say about the transaction with an id.\<close>

definition tx_answer :: "tables \<Rightarrow> string \<Rightarrow> ApiTransaction option \<Rightarrow> bool" where
  "tx_answer T i res \<longleftrightarrow> (case res of None \<Rightarrow> \<not> has_tx T i | Some tx \<Rightarrow> at_ID tx = i \<and> has_tx T i)"

lemma has_tx_from: "has_tx T i \<longleftrightarrow> (\<exists>r \<in> set (q_from ''avm_transactions'' T). r ''avm_transactions.id'' = Some (VS i))"
  by (auto simp: has_tx_def q_from_def qualify_def HasPrefix_def)

lemma find_SomeD: "List.find P xs = Some x \<Longrightarrow> x \<in> set xs \<and> P x"
  by (auto simp: find_Some_iff)

lemma memory_has_tx:
  assumes "txs_ok T" "TxList_wf t" "first_txs conn T t" "TxList_Get t i = Some tx"
  shows "at_ID tx = i \<and> has_tx T i"
proof -
  obtain l where l: "rt_Txs t = Some l" "tx \<in> set l" "at_ID tx = i"
    using assms(2,4) by (auto simp: TxList_wf_def TxList_Get_def split: option.splits dest!: find_SomeD)
  have "map at_ID l = map (\<lambda>r. getS r ''id'') (txasc_query conn T)" using assms(3) l(1) by (simp add: first_txs_def)
  then have "i \<in> set (map (\<lambda>r. getS r ''id'') (txasc_query conn T))" using l(2,3) by (metis image_eqI set_map)
  also have "map (\<lambda>r. getS r ''id'') (txasc_query conn T) = map (\<lambda>r. getS r ''avm_transactions.id'') (take 5000 (sort_key (tx_order conn) (q_from ''avm_transactions'' T)))"
    using arg_cong [OF txasc_texts [OF assms(1), of conn], of "map fst"] by (simp add: comp_def)
  finally obtain r where r: "r \<in> set (q_from ''avm_transactions'' T)" "i = getS r ''avm_transactions.id''" by (auto dest: in_set_takeD)
  moreover have "tx_rows_ok T" using assms(1) by (simp add: txs_ok_def)
  from tx_from_row [OF this r(1)] obtain k where "r ''avm_transactions.id'' = Some (VS k)" by metis
  ultimately show ?thesis using l(3) by (auto simp: has_tx_from getS_def)
qed

abbreviation one_param :: "ID \<Rightarrow> ListTransactionsParams" where
  "one_param i \<equiv> zero_ListTransactionsParams\<lparr>lt_ListParams := zero_ListParams\<lparr>lp_ID := Some i, lp_DisableCounting := True\<rparr>\<rparr>"

lemma page_of_one:
  assumes "txs_ok T"
  shows "map (\<lambda>r. r ''id'') (page_query lib conn (one_param i) T) = map (\<lambda>r. r ''avm_transactions.id'')
    (filter (\<lambda>r. r ''avm_transactions.id'' = Some (VS (ID_String lib i))) (sort_key (tx_order conn) (q_from ''avm_transactions'' T)))"
proof -
  have "tx_where lib (one_param i) = (\<lambda>r. r ''avm_transactions.id'' = Some (VS (ID_String lib i)))"
    by (simp add: fun_eq_iff tx_where_def Let_def zero_ListTransactionsParams_def zero_ListParams_def)
  moreover have "tables_ok T" "tx_rows_ok T" using assms by (simp_all add: txs_ok_def)
  note page_query_all [OF this, of "one_param i" lib conn]
  ultimately show ?thesis by (simp add: zero_ListTransactionsParams_def zero_ListParams_def TransactionSortTimestampDesc_def)
qed

lemma listTxs_one:
  assumes conn: "query_server conn" and mem: "memory_ok conn ra H" and d: "tabs d \<in> H" "txs_ok (tabs d)"
    and run: "listTxs rv conn (ReaderAggregate.truncate ra) (one_param i) d = (Inr (txs, dressed), d')"
  shows "\<exists>T \<in> H. set (map at_ID txs) = (if has_tx T (ID_String (rv_lib rv) i) then {ID_String (rv_lib rv) i} else {})"
proof -
  let ?ra = "ReaderAggregate.truncate ra" and ?i = "ID_String (rv_lib rv) i" and ?p = "one_param i"
  have ra: "ra_txAsc ?ra = ra_txAsc ra" "ra_txDesc ?ra = ra_txDesc ra" by (simp_all add: ReaderAggregate.truncate_def)
  have p: "lp_ID (lt_ListParams ?p) = Some i" "lp_Limit (lt_ListParams ?p) = 0" "lt_Addresses ?p = []" "lt_AssetID ?p = None"
    by (simp_all add: zero_ListTransactionsParams_def zero_ListParams_def)
  show ?thesis
  proof (cases "listTxFromCache rv ?ra ?p")
    case (Some tx)
    then have "txs = [tx]" using run by (simp add: listTxs_def p go_return_run)
    moreover obtain T where T: "T \<in> H" "txs_ok T" "first_txs conn T (ra_txAsc ra)" and wf: "TxList_wf (ra_txAsc ra)" "ra_txDesc ra = empty_TxList"
      using mem by (auto simp: memory_ok_def)
    have "TxList_Get (ra_txAsc ra) ?i = Some tx"
      using Some wf(2) by (auto simp: listTxFromCache_def Let_def p ra TxList_Get_def empty_TxList_def split: if_splits option.splits)
    from memory_has_tx [OF T(2) wf(1) T(3) this] have "at_ID tx = ?i \<and> has_tx T ?i" .
    ultimately show ?thesis using T(1) by auto
  next
    case None
    moreover have "lp_Limit zero_ListParams = 0" by (simp add: zero_ListParams_def)
    then have "listTxsFromCache rv ?ra ?p = None" by (simp add: listTxsFromCache_def Let_def)
    ultimately obtain rows where rows: "qc_load conn (page_query (rv_lib rv) conn ?p) d = (Inr rows, d')" "txs = map tx_of_row rows"
      using run by (auto simp: listTxs_def p go_return_run elim!: go_bind_Inr)
    let ?F = "filter (\<lambda>r. r ''avm_transactions.id'' = Some (VS ?i)) (sort_key (tx_order conn) (q_from ''avm_transactions'' (tabs d)))"
    have "map at_ID txs = map (\<lambda>v. getS (\<lambda>_. v) []) (map (\<lambda>r. r ''id'') (page_query (rv_lib rv) conn ?p (tabs d)))"
      using query_server.load_rows [OF conn rows(1)] rows(2) by (simp add: tx_of_row_def getS_val [symmetric])
    then have "set (map at_ID txs) = (\<lambda>v. getS (\<lambda>_. v) []) ` (\<lambda>r. r ''avm_transactions.id'') ` set ?F" unfolding page_of_one [OF d(2)] by (simp only: set_map)
    also have "(\<lambda>r. r ''avm_transactions.id'') ` set ?F = (if has_tx (tabs d) ?i then {Some (VS ?i)} else {})" by (auto simp: has_tx_from)
    finally show ?thesis using d(1) by (intro bexI [of _ "tabs d"]) (auto simp: getS_def)
  qed
qed

lemma ListTransactions_ids:
  assumes "query_server conn" "ListTransactions rv conn ra p axc d = (Inr l, d')"
  obtains d0 txs dressed d1 where "tabs d0 = tabs d" "listTxs rv conn ra p d0 = (Inr (txs, dressed), d1)" "map at_ID (tl_Transactions l) = map at_ID txs"
proof -
  obtain d0 where ses: "qc_NewSession conn ''get_transactions'' d = (Inr (), d0)"
    and run: "go_bind (listTxs rv conn ra p) (\<lambda>(txs, dressed).
        go_bind (if dressed then go_return txs
                 else dressTransactions (rv_lib rv) conn txs axc (lp_ID (lt_ListParams p)) (lt_DisableGenesis p)) (\<lambda>txs.
          let l = lt_ListParams p;
              count = (if lp_DisableCounting l then None
                       else if int (length txs) \<ge> lp_Limit l then Some (count_of (lp_Offset l) (length txs) + 1)
                       else Some (count_of (lp_Offset l) (length txs)))
          in go_return \<lparr>tl_Count = count, tl_Transactions = txs, tl_StartTime = lp_StartTime l, tl_EndTime = lp_EndTime l,
               tl_Next = transactionProcessNext rv txs l p\<rparr>)) d0 = (Inr l, d')"
    using assms(2) unfolding ListTransactions_def by (elim go_then_Inr) auto
  have d0: "tabs d0 = tabs d" using query_server.session_keeps [OF assms(1)] ses by (metis snd_conv)
  from run obtain txs dressed d1 txs' d2 where "listTxs rv conn ra p d0 = (Inr (txs, dressed), d1)" "tl_Transactions l = txs'"
    "(if dressed then go_return txs else dressTransactions (rv_lib rv) conn txs axc (lp_ID (lt_ListParams p)) (lt_DisableGenesis p)) d1 = (Inr txs', d2)"
    by (elim go_bind_Inr) (auto simp: Let_def go_return_run elim!: go_bind_Inr)
  then show ?thesis using that [OF d0] by (auto simp: go_return_run split: if_splits dest!: dressed_ids(1))
qed

lemma GetTransaction_true:
  assumes conn: "query_server conn" and mem: "memory_ok conn ra H" and d: "tabs d \<in> H" "txs_ok (tabs d)"
    and run: "GetTransaction rv conn (ReaderAggregate.truncate ra) i axc d = (Inr res, d')"
  shows "\<exists>T \<in> H. tx_answer T (ID_String (rv_lib rv) i) res"
proof -
  let ?ra = "ReaderAggregate.truncate ra" and ?i = "ID_String (rv_lib rv) i"
  obtain l where list: "ListTransactions rv conn ?ra (one_param i) axc d = (Inr l, d')"
    and res: "res = (case tl_Transactions l of [] \<Rightarrow> None | tx # _ \<Rightarrow> Some tx)"
    using run unfolding GetTransaction_def by (elim go_bind_Inr) (simp add: go_return_run)
  from ListTransactions_ids [OF conn list] obtain d0 txs dressed d1 where
    txs: "tabs d0 = tabs d" "listTxs rv conn ?ra (one_param i) d0 = (Inr (txs, dressed), d1)" "map at_ID (tl_Transactions l) = map at_ID txs" .
  obtain T where T: "T \<in> H" "set (map at_ID txs) = (if has_tx T ?i then {?i} else {})"
    using listTxs_one [OF conn mem _ _ txs(2)] d txs(1) by auto
  have "set (map at_ID (tl_Transactions l)) = (if has_tx T ?i then {?i} else {})" unfolding txs(3) by (rule T(2))
  then have "tx_answer T ?i res" unfolding res tx_answer_def by (cases "tl_Transactions l") (auto split: if_splits)
  with T(1) show ?thesis by blast
qed

section \<open>The whole way\<close>

text \<open>The environment of a request: the reader works on the database \<open>d\<close> and on what the goroutine of the memory left by then.
  \<open>H\<close> are the tables that a reader or a goroutine has seen.\<close>

definition sees :: "axc_env \<Rightarrow> paramlib \<Rightarrow> tables set \<Rightarrow> api_value api_env \<Rightarrow> bool" where
  "sees xe pl H ae \<longleftrightarrow> ae_params ae = pl
     \<and> (\<exists>t ra G d. ae_reader ae = axc_reader xe ra d \<and> memory_run (xe_rv xe) (xe_conn xe) (t, ra) G \<and> G \<subseteq> H \<and> tabs d \<in> H \<and> txs_ok (tabs d))"

lemma sees_GetTransaction:
  assumes "query_server (xe_conn xe)" "sees xe pl H ae" "rd_GetTransaction (ae_reader ae) i axc = Inr v"
  shows "\<exists>res. v = TransactionValue res \<and> (\<exists>T \<in> H. tx_answer T (ID_String (rv_lib (xe_rv xe)) i) res)"
proof -
  obtain t ra G d where r: "ae_reader ae = axc_reader xe ra d" and mem: "memory_run (xe_rv xe) (xe_conn xe) (t, ra) G"
    and G: "G \<subseteq> H" and d: "tabs d \<in> H" "txs_ok (tabs d)" using assms(2) by (auto simp: sees_def)
  have "memory_ok (xe_conn xe) ra G" using memory_run_ok [OF assms(1) mem] by simp
  then have mem: "memory_ok (xe_conn xe) ra H" using G by (auto simp: memory_ok_def)
  obtain res d' where "GetTransaction (xe_rv xe) (xe_conn xe) (ReaderAggregate.truncate ra) i axc d = (Inr res, d')" "v = TransactionValue res"
    using assms(3) unfolding r axc_reader_def Let_def by (auto simp: answer_of_def split: sum.splits) (metis prod.collapse)
  then show ?thesis using GetTransaction_true [OF assms(1) mem d] by blast
qed

lemma answers_GetTransaction:
  assumes "api_run sum0 hist s" "v \<in> set hist" "answers v (utils_CacheKey n (cacheKeyForID ''get_transaction'' i)) body"
  obtains ae c r j x where "v = (ae, GetTransaction_cacheable, c, r)" "path_id r = i" "ids_FromString (ae_params ae) i = Inr j"
    "rd_GetTransaction (ae_reader ae) j (ae_axcAssetID ae) = Inr x" "ae_Marshal ae x = Inr body"
proof -
  obtain ae f c r where v: "v = (ae, f, c, r)" by (cases v)
  obtain ca where ca: "f ae c r = Inr ca" "utils_CacheKey (ae_networkID ae) (ca_Key ca) = utils_CacheKey n (cacheKeyForID ''get_transaction'' i)"
    "res_bind (ca_Fn ca) (ae_Marshal ae) = Inr body" using assms(3) by (auto simp: v split: sum.splits)
  obtain h where h: "(h, f) \<in> set v2_cached" using api_run_handlers [OF assms(1)] assms(2) unfolding v by blast
  have "name = ''get_transaction''" if "ca_Key ca = ''axc'' # name # parts" "name \<in> set request_names" for name parts
    using key_name [OF _ that(2)] ca(2) that(1) by (simp add: cacheKeyForID_def)
  with cached_key [OF h ca(1)] have f: "f = GetTransaction_cacheable" by blast
  then obtain j where j: "ids_FromString (ae_params ae) (path_id r) = Inr j" "ca_Key ca = cacheKeyForID ''get_transaction'' (path_id r)"
    "ca_Fn ca = rd_GetTransaction (ae_reader ae) j (ae_axcAssetID ae)" using ca(1) by (auto simp: GetTransaction_cacheable_def res_bind_Inr)
  moreover have "path_id r = i" using ca(2) j(2) key_id by metis
  ultimately show ?thesis using that [of ae c r j] v f ca(3) by (auto simp: res_bind_Inr)
qed

text \<open>C23. A request for one transaction that is answered with status 200, whatever requests, refills of the memory and changes of the database
  came before: the body encodes a transaction with this id that the database had, or that there is none, when it had none, at a moment at which the
  reader or its memory looked at the database.\<close>

theorem GetTransaction_served:
  assumes "query_server (xe_conn xe)" "api_run (ae_sum0 ae) hist s" "\<forall>v \<in> set hist. sees xe pl H (fst v)" "sees xe pl H ae"
    "V2_GetTransaction ae c r s = (resp, s')" "rs_Code resp = 200"
  shows "\<exists>i ae' res. ids_FromString pl (path_id r) = Inr i \<and> (ae' = ae \<or> ae' \<in> fst ` set hist)
    \<and> ae_Marshal ae' (TransactionValue res) = Inr (rs_Body resp) \<and> (\<exists>T \<in> H. tx_answer T (ID_String (rv_lib (xe_rv xe)) i) res)"
proof -
  let ?v = "(ae, GetTransaction_cacheable, c, r)"
  have "(V2_GetTransaction, GetTransaction_cacheable) \<in> set v2_cached" by (simp add: v2_cached_def)
  then have hist: "api_run (ae_sum0 ae) (hist @ [?v]) s'" 
    using api_run.visit [where h = V2_GetTransaction and f = GetTransaction_cacheable and ae = ae] assms(2,5) by blast
  obtain ca v where "GetTransaction_cacheable ae c r = Inr ca" and v: "v \<in> set (hist @ [?v])"
    and ans: "answers v (utils_CacheKey (ae_networkID ae) (ca_Key ca)) (rs_Body resp)"
    using served_answers [OF assms(2) assms(5) [unfolded V2_GetTransaction_def] assms(6)] by blast
  then have "ca_Key ca = cacheKeyForID ''get_transaction'' (path_id r)" by (auto simp: GetTransaction_cacheable_def res_bind_Inr)
  with ans have "answers v (utils_CacheKey (ae_networkID ae) (cacheKeyForID ''get_transaction'' (path_id r))) (rs_Body resp)" by simp
  from answers_GetTransaction [OF hist v this] obtain ae' c' r' j x where v': "v = (ae', GetTransaction_cacheable, c', r')"
    and j: "ids_FromString (ae_params ae') (path_id r) = Inr j" and x: "rd_GetTransaction (ae_reader ae') j (ae_axcAssetID ae') = Inr x"
    "ae_Marshal ae' x = Inr (rs_Body resp)" .
  have "sees xe pl H (fst v)" using v assms(3,4) by auto
  then have ae': "sees xe pl H ae'" by (simp add: v')
  from sees_GetTransaction [OF assms(1) this x(1)] obtain res T where "x = TransactionValue res" "T \<in> H"
    "tx_answer T (ID_String (rv_lib (xe_rv xe)) j) res" by blast
  moreover have "ids_FromString pl (path_id r) = Inr j" using j ae' by (simp add: sees_def)
  moreover have "ae' = ae \<or> ae' \<in> fst ` set hist" using v v' by force
  ultimately show ?thesis using x(2) by blast
qed

text \<open>A request for the transaction \<open>t\<close> of the database \<open>one_tx\<close>.\<close>

definition sample_axc :: axc_env where
  "sample_axc = \<lparr>xe_rv = limit_env, xe_conn = mysql_ro (\<lambda>_. None), xe_consumers = \<lparr>rc_chainConsumers = Map.empty, rc_axChainCconsumer = Inr\<rparr>,
     xe_cl = sample_cvmlib, xe_cx = sample_ctranslib, xe_export = \<lparr>xl_UnmarshalLog = (\<lambda>_. Inl (ErrorString ''no log'')), xl_MarshalExport = (\<lambda>_. Inr [])\<rparr>\<rparr>"

definition id_paramlib :: paramlib where
  "id_paramlib = sample_paramlib\<lparr>ids_FromString := (\<lambda>s. Inr (map of_char s))\<rparr>"

definition served_api :: "reader_memory \<Rightarrow> api_value api_env" where
  "served_api ra = \<lparr>ae_lib = sample_lib, ae_params = id_paramlib, ae_sum0 = (\<lambda>_. 0), ae_networkID = 1, ae_axcAssetID = [],
     ae_reader = axc_reader sample_axc ra one_tx, ae_Marshal = (\<lambda>v. case v of TransactionValue (Some tx) \<Rightarrow> Inr (map of_char (at_ID tx)) | _ \<Rightarrow> Inr []),
     ae_MarshalError = (\<lambda>_ _. []), ae_UnmarshalValues = (\<lambda>_. Inr Map.empty), ae_now = 0\<rparr>"

definition t_request :: request where
  "t_request = \<lparr>rq_Query = Map.empty, rq_Body = None, rq_PathParams = [''id'' \<mapsto> ''t'']\<rparr>"

lemma one_tx_get: "\<exists>res d'. GetTransaction limit_env (mysql_ro (\<lambda>_. None)) ra i axc one_tx = (Inr res, d')"
proof -
  let ?conn = "mysql_ro (\<lambda>_. None)" and ?p = "one_param i"
  have p: "lp_Limit zero_ListParams = 0" "lt_Addresses ?p = []" "lt_AssetID ?p = None" by (simp_all add: zero_ListTransactionsParams_def zero_ListParams_def)
  have "listTxFromCache limit_env ra ?p = None" "listTxsFromCache limit_env ra ?p = None"
    by (simp_all add: listTxFromCache_def listTxsFromCache_def limit_env_def Let_def p)
  then have list: "listTxs limit_env ?conn ra ?p d = (Inr (map tx_of_row (page_query (rv_lib limit_env) ?conn ?p (tabs d)), False), tick d)" for d
    using p(2,3) by (simp add: listTxs_def go_simps mysql_ro_def)
  obtain d0 where ses: "qc_NewSession ?conn ''get_transactions'' one_tx = (Inr (), d0)" "tabs d0 = tabs one_tx"
    by (auto simp: mysql_ro_def)
  obtain txs d' where "dressTransactions (rv_lib limit_env) ?conn (map tx_of_row (page_query (rv_lib limit_env) ?conn ?p (tabs d0))) axc (lp_ID (lt_ListParams ?p)) (lt_DisableGenesis ?p) (tick d0)
      = (Inr txs, d')"
    using dressTransactions_returns [of "tick d0"] one_tx_ok(2,3) ses(2) tabs_tick [of d0] by metis
  then show ?thesis using list [of d0] ses(1) by (simp add: GetTransaction_def ListTransactions_def go_simps Let_def)
qed

theorem GetTransaction_served_witness:
  "\<exists>ra resp s' res. V2_GetTransaction (served_api ra) v2_root t_request api_start = (resp, s') \<and> rs_Code resp = 200
    \<and> ae_Marshal (served_api ra) (TransactionValue res) = Inr (rs_Body resp) \<and> tx_answer (tabs one_tx) ''t'' res"
proof -
  obtain t ra tx where mem: "memory_run limit_env (mysql_ro (\<lambda>_. None)) (t, ra) {tabs one_tx}" using one_tx_memory by blast
  let ?ae = "served_api ra" and ?i = "map of_char ''t'' :: bytes"
  obtain res d' where get: "GetTransaction limit_env (mysql_ro (\<lambda>_. None)) (ReaderAggregate.truncate ra) ?i [] one_tx = (Inr res, d')"
    using one_tx_get by blast
  have path: "path_id t_request = ''t''" by (simp add: path_id_def t_request_def)
  obtain body where body: "ae_Marshal ?ae (TransactionValue res) = Inr body" by (cases res) (simp_all add: served_api_def)
  have ca: "GetTransaction_cacheable ?ae v2_root t_request = Inr \<lparr>ca_Key = cacheKeyForID ''get_transaction'' ''t'', ca_TTL = 5 * nanos_per_second, ca_Fn = Inr (TransactionValue res)\<rparr>"
    using get by (simp add: GetTransaction_cacheable_def path served_api_def id_paramlib_def axc_reader_def sample_axc_def answer_of_def Let_def res_bind_def)
  obtain s1 where run: "V2_GetTransaction ?ae v2_root t_request api_start = (WriteJSON body, s1)"
    unfolding V2_GetTransaction_def by (rule miss_then_store [of GetTransaction_cacheable, OF ca, of body api_start]) (use body in \<open>auto simp: res_bind_def\<close>)
  have "sees sample_axc id_paramlib {tabs one_tx} ?ae"
    unfolding sees_def using mem one_tx_ok(1) by (auto simp: served_api_def sample_axc_def)
  moreover have "query_server (xe_conn sample_axc)" using mysql_ro.query_server_axioms by (simp add: sample_axc_def)
  moreover have "api_run (ae_sum0 ?ae) [] api_start" by (rule api_run.start)
  moreover have "rs_Code (WriteJSON body) = 200" by (simp add: WriteJSON_def)
  ultimately obtain i ae' res' where "ids_FromString id_paramlib (path_id t_request) = Inr i" "ae' = ?ae"
    "ae_Marshal ae' (TransactionValue res') = Inr (rs_Body (WriteJSON body))" "tx_answer (tabs one_tx) (ID_String sample_lib i) res'"
    using GetTransaction_served [OF _ _ _ _ run, of sample_axc "[]" id_paramlib "{tabs one_tx}"]
    by (auto simp: sample_axc_def limit_env_def sample_reader_env_def)
  moreover have "char_of (116 :: nat) = CHR ''t''" by code_simp
  with calculation(1) have "ID_String sample_lib i = ''t''" by (auto simp: path id_paramlib_def sample_lib_def)
  ultimately have "ae_Marshal ?ae (TransactionValue res') = Inr (rs_Body (WriteJSON body)) \<and> tx_answer (tabs one_tx) ''t'' res'" by simp
  with run show ?thesis by (metis WriteJSON_def response.select_convs(1))
qed

end
