(* ===== verification/Spec2Isabelle.thy ===== *)
theory Spec2Isabelle
  imports Utils DbProps AxProducer BalanceLive DbMock Rewards Replay ApiReader
begin

text \<open>
  A verification library for Magellan, the indexer of the Axia network (sources under \<open>src/\<close>). This theory
  only collects the library; the components are in the theories it imports.

  \<^bold>\<open>The program.\<close> Magellan reads what the nodes of the network accept and answers questions about it. The
  producers (\<open>src/stream/producer_chain.go\<close>, \<open>producer_axchain.go\<close>) copy blocks and transactions from the nodes
  into the table \<open>tx_pool\<close>. The indexer (\<open>src/stream/consumers/indexer.go\<close>) passes over the pending rows of that
  table and hands each to the consumer of its topic (\<open>src/stream/consumer_db.go\<close>, \<open>consumer_axchain_db.go\<close>), which
  calls the writer of the chain (\<open>src/services/indexes/avm\<close>, \<open>pvm\<close>, \<open>cvm\<close>, and \<open>axc\<close> that they share) inside a
  database transaction. The writers see the database through the interface \<open>db.Persist\<close> (\<open>src/db/dbmodel.go\<close>, one
  query, insert and update function for each table). The balance manager (\<open>src/balance\<close>) accumulates the balances of
  the addresses from rows the writers leave for it, the rewards handler (\<open>src/services/rewards\<close>) adds the outputs
  that pay rewards, the replay (\<open>src/replay\<close>) feeds all stored messages to the writers again. The API (\<open>src/api\<close>)
  reads the parameters of a request (\<open>src/services/indexes/params\<close>), answers from a cache
  (\<open>src/utils/cache.go\<close>, \<open>ttlmapcache.go\<close>, \<open>delay_cache.go\<close>) or calls a reader (\<open>src/services/indexes/axc/reader*.go\<close>,
  \<open>avm_reader.go\<close>, \<open>pvm_reader.go\<close>), which queries the database or answers from what its goroutines keep in memory.

  \<^bold>\<open>The theories\<close>, in the order of their imports:

  \<^item> \<open>Prelude\<close>: Go strings, machine integers, time, errors; \<open>('s, 'a) go\<close>, the type of a Go function that changes a
    state and may fail, with its sequencing (\<open>go_bind\<close>, \<open>go_then\<close>, \<open>go_for\<close>, \<open>go_fold\<close>) and the rule collections
    \<open>go_simps\<close>, \<open>keeps_intros\<close>, \<open>sim_intros\<close>. \<open>Strconv\<close>: decimal text, \<open>Atoi\<close>, \<open>ParseBool\<close>, \<open>ParseUint\<close>, \<open>big.Int.SetString\<close>.
  \<^item> \<open>Utils\<close>: \<open>src/utils\<close> (error classification, retry sleeper, counters, bounded list, TTL map, cache, addresses).
    Counters are interleaved; no update is lost. The bounded list keeps the last pushed keys.
  \<^item> \<open>Sql\<close>: statements as data, their meaning on tables with unique keys, sessions. The server and the query builder are
    third-party: a \<open>session\<close> is an argument everywhere, and the locale \<open>sql_session\<close> says what is relied on (a statement
    takes effect or fails without effect, a duplicate-entry error means a conflict, a query returns what the tables hold);
    \<open>reliable_session\<close> adds that nothing else fails. \<open>mysql faults\<close> is a session that fails when the schedule \<open>faults\<close>
    says so; \<open>ideal\<close> interprets both.
  \<^item> \<open>DbRows\<close>, \<open>DbModel\<close>, \<open>DbSpec\<close>, \<open>Persist\<close>, \<open>DbProps\<close>: \<open>src/db/dbmodel.go\<close>, a record for each row structure, and for each
    table its key, columns, row reader, query, insert and update; the contract of a table as the locales \<open>dao_base\<close>,
    \<open>dao\<close>, \<open>dao_upd\<close>, interpreted for every table; \<open>pcall\<close>, a call of \<open>db.Persist\<close> as data, \<open>persist_exec\<close>, its
    execution, and the locale \<open>persist_store\<close>, under which the run of a handler is the effect of the calls it
    makes. Keys stay unique, what is written is read back.
  \<^item> \<open>Ext\<close>, \<open>Chain\<close>: the functions of the chain's libraries that the writers call, as records of arguments with their
    documented laws as predicates; the decoded transactions and blocks; consumables and consumer contexts.
  \<^item> \<open>AxcWriter\<close>, \<open>PvmWriter\<close>, \<open>AvmWriter\<close>, \<open>CvmWriter\<close>: the writers, every handler from \<open>Consume\<close> down. A handler that fails
    leaves the tables as they were; the rows that a transaction, a block, a created asset leave; fees, totals, overflow.
  \<^item> \<open>Stream\<close>: consumers, topics and the loop that retries on lock errors. \<open>Indexer\<close>: the pool, the pass, the workers, as
    interleaved steps; a message is marked only when it was consumed; refinement of an abstract pool.
  \<^item> \<open>Producer\<close>, \<open>AxProducer\<close>: the producers with their restarts; every container below the recorded position and every recorded
    block is in the pool, the catch-up asks for exactly the missing blocks.
  \<^item> \<open>Balance\<close>, \<open>BalanceLive\<close>: the balance manager; the balances are the sums over the marked rows, each row is counted
    once, the loop drains what is pending. Locales \<open>accumulator\<close> and \<open>live_accumulator\<close> carry the proofs for the three
    kinds of batches.
  \<^item> \<open>Params\<close>, \<open>Worker\<close>, \<open>Api\<close>: parameters, bounded queue with goroutines, and the handlers of version 2. A response that
    is served was computed for a request with the same key.
  \<^item> \<open>DbMock\<close>: the in-memory \<open>Persist\<close> of the tests, and that it agrees with the database on what a transaction stores
    (a second interpretation of \<open>persist_store\<close>). \<open>Rewards\<close>: a marked reward has its outputs stored. \<open>Replay\<close>: readers,
    workers and the main loop interleaved; what a replay that returns nil has consumed.
  \<^item> \<open>Query\<close>: the clauses of the queries of the readers as functions on lists of rows (joins, conditions, groups, orders, limits),
    and connections that only read. The server is again an argument (\<open>query_conn\<close>); the locale \<open>query_server\<close> says that the rows of
    a query that does not fail are those of the tables, that an iterator delivers a prefix of them, and that reading changes no table;
    \<open>mysql_ro faults\<close> interprets it.
  \<^item> \<open>ReaderModels\<close>: the structures of the responses (\<open>src/models\<close>) and the lists of transactions in memory. \<open>ReaderTxs\<close>: the lists of
    transactions (\<open>reader_list_txs.go\<close>); a page of an asset is exactly the requested page of distinct transactions, while the
    link to the next page may skip some. \<open>ReaderTotals\<close>: the totals that are added to a transaction. \<open>ReaderAggr\<close>: the two
    histograms (\<open>reader.go\<close>); that of the fees is the exact one.
  \<^item> \<open>Reader\<close>: addresses, chains of addresses and outputs; what one address is on several chains, and which list fails.
    \<open>ReaderData\<close>: assets, blocks, search and raw data. \<open>ReaderCache\<close>: the goroutines that fill the memory
    (\<open>reader_aggregate_processor.go\<close>). \<open>ReaderPage\<close>: the memory over time, and that a page from memory is one of the database.
    \<open>ReaderC\<close>: the transactions of the EVM chain (\<open>reader_list_ctrans.go\<close>) and their traces.
  \<^item> \<open>ApiReader\<close>: the handlers of \<open>Api\<close>, which take the reader as an argument, with the reader of the theories above. A request for one
    transaction gets what the database said at a moment at which a reader or the memory looked at it, through both caches.

  \<^bold>\<open>Conventions.\<close> A handler is a HOL function on an explicit state; each \<open>return err\<close> is a branch with \<open>Inl err\<close>. Clock readings,
  the node, the codecs and the server are arguments. Loops over slices are structural recursion; the eviction, trimming
  and catch-up loops have termination proofs; the lock-retry loops and the event loop of the balance manager may run
  forever and are \<open>partial_function (option)\<close>, and the theorems that they return are stated with \<open>Some\<close>. Threads are
  \<open>inductive\<close> step relations whose steps are the critical sections of the code. A query without an order returns the rows in the
  order of their insertion, and a stable sort stands for \<open>order by\<close> and \<open>sort.Slice\<close> where they leave the order of equal keys
  open; the order in which \<open>range\<close> visits the keys of a request is an argument (\<open>rv_range\<close>), that of the other maps is the order in
  which the keys were added. A query that names a column its tables do not have, and a NULL that is read into a number, are errors of the
  query (\<open>unknown_column\<close>, \<open>scan_error\<close>). The intervals of a histogram are computed with exact quotients of durations, the code
  uses double precision. A load of two columns into a list of strings is an argument (\<open>load_texts\<close>). Metrics histograms, log
  lines and tracing are left out everywhere.

  \<^bold>\<open>Not modelled.\<close> Configuration, connections, service control and RPC (\<open>src/cfg\<close>, \<open>src/servicesctrl\<close>, \<open>src/rpc\<close>,
  \<open>src/utils/db.go\<close>, \<open>connections.go\<close>), which start the program and hold no logic of their own; the timers and histograms of
  \<open>src/utils/prometheus.go\<close>; the HTTP server and index page; the flag of \<open>running_controller.go\<close>; the JSON encoding of
  the responses and of the transactions of the asset and platform chains, which is that of third-party types.
\<close>

end
